(* ===== verification/Substrate.thy ===== *)
theory Substrate
  imports Prelude
begin

text \<open>
  The storage substrate of the hub (\<open>hub/src/storage-substrate/memory-substrate.ts\<close>): rows of
  opaque entities under a kind and an id, one global revision counter, compare-and-set and batch
  writes, and the change feed.  The entity type is a parameter, and so are the \<open>id\<close> field of an
  entity (\<open>ident\<close>) and the write encoder a deployment registers.  \<open>structuredClone\<close> is the identity
  on values.  The list \<open>emitted\<close> records every event handed to \<open>emit\<close>, in order: a watcher of a kind
  receives the events of that kind from its subscription on.

  The lemmas show that the rows are exactly what the feed says they are, that revisions are never
  reused (so a compare-and-set has no ABA problem), that a batch is all or nothing, and that the
  read-transform-compare-and-set loop of the repositories commits as if it ran alone at
  the moment of its successful write, whatever other writers do in between.
\<close>

section \<open>State\<close>

record 'e entity_row =
  row_data :: 'e
  row_rv :: revision

datatype 'e change_event =
    PutEvent (ev_kind: string) (ev_id: string) (ev_entity: 'e) (ev_rv: revision)
  | DeleteEvent (ev_kind: string) (ev_id: string) (ev_rv: revision)

record 'e substrate =
  entities :: "(string \<times> (string \<times> 'e entity_row) list) list"
  revisionCounter :: revision
  writeEncoder :: "(string \<Rightarrow> 'e \<Rightarrow> 'e) option"
  emitted :: "'e change_event list"

text \<open>\<open>Unavailable\<close> is a fault from outside (a lost connection): no operation of the memory substrate answers with it.\<close>

datatype store_error =
    MissingId string
  | PutOnAbsent string string
  | DuplicateEntries
  | Unavailable

datatype create_result = Created string revision | ExistingConflict

datatype put_result = Written revision | RevisionMismatch revision

datatype batch_create_result =
    BatchCreated "(string \<times> revision) list"
  | BatchExisting "(string \<times> string) list"

datatype batch_put_result =
    BatchWritten "(string \<times> revision) list"
  | BatchMismatch "(string \<times> string \<times> revision \<times> revision option) list"

definition empty_substrate :: "'e substrate" where
  "empty_substrate = \<lparr>entities = [], revisionCounter = 0, writeEncoder = None, emitted = []\<rparr>"

section \<open>Operations\<close>

definition encodeForWrite :: "string \<Rightarrow> 'e \<Rightarrow> 'e substrate \<Rightarrow> 'e" where
  "encodeForWrite kind e s = (case writeEncoder s of None \<Rightarrow> e | Some enc \<Rightarrow> enc kind e)"

text \<open>\<open>ident e\<close> is \<open>e.id\<close>; the empty string is falsy, so it is a missing id.\<close>

definition extractId :: "('e \<Rightarrow> string option) \<Rightarrow> 'e \<Rightarrow> string \<Rightarrow> store_error + string" where
  "extractId ident e kind =
     (if kind = ''Counter'' then Inr ''counter''
      else case ident e of
          None \<Rightarrow> Inl (MissingId kind)
        | Some i \<Rightarrow> if i = [] then Inl (MissingId kind) else Inr i)"

definition getKindStore :: "string \<Rightarrow> 'e substrate \<Rightarrow> (string \<times> 'e entity_row) list" where
  "getKindStore kind s = (case map_of (entities s) kind of None \<Rightarrow> [] | Some m \<Rightarrow> m)"

definition find_row :: "'e substrate \<Rightarrow> string \<Rightarrow> string \<Rightarrow> 'e entity_row option" where
  "find_row s kind i = map_of (getKindStore kind s) i"

definition emit :: "'e change_event \<Rightarrow> 'e substrate \<Rightarrow> 'e substrate" where
  "emit ev s = s\<lparr>emitted := emitted s @ [ev]\<rparr>"

definition get_op :: "string \<Rightarrow> string \<Rightarrow> 'e substrate \<Rightarrow> 'e option" where
  "get_op kind i s = map_option row_data (find_row s kind i)"

definition getWithRevision :: "string \<Rightarrow> string \<Rightarrow> 'e substrate \<Rightarrow> ('e \<times> revision) option" where
  "getWithRevision kind i s = map_option (\<lambda>r. (row_data r, row_rv r)) (find_row s kind i)"

text \<open>\<open>rv = ++revisionCounter; store.set(id, row)\<close>, and the event that goes with it.\<close>

definition set_row :: "string \<Rightarrow> string \<Rightarrow> 'e \<Rightarrow> 'e substrate \<Rightarrow> 'e substrate" where
  "set_row kind i e s =
     s\<lparr>revisionCounter := Suc (revisionCounter s),
       entities := AList.update kind
         (AList.update i \<lparr>row_data = e, row_rv = Suc (revisionCounter s)\<rparr> (getKindStore kind s)) (entities s)\<rparr>"

definition write_row :: "string \<Rightarrow> string \<Rightarrow> 'e \<Rightarrow> 'e substrate \<Rightarrow> 'e substrate" where
  "write_row kind i e s =
     (let s' = set_row kind i e s in emit (PutEvent kind i e (revisionCounter s')) s')"

definition put_op :: "('e \<Rightarrow> string option) \<Rightarrow> string \<Rightarrow> 'e \<Rightarrow> 'e substrate
    \<Rightarrow> store_error + ((string \<times> revision) \<times> 'e substrate)" where
  "put_op ident kind e s =
     (let stored = encodeForWrite kind e s in
      res_bind (extractId ident stored kind) (\<lambda>i.
        let s' = write_row kind i stored s in Inr ((i, revisionCounter s'), s')))"

definition delete_op :: "string \<Rightarrow> string \<Rightarrow> 'e substrate \<Rightarrow> 'e substrate" where
  "delete_op kind i s =
     (case find_row s kind i of
        None \<Rightarrow> s
      | Some _ \<Rightarrow>
          let rv = Suc (revisionCounter s);
              s' = s\<lparr>entities := AList.update kind (AList.delete i (getKindStore kind s)) (entities s),
                     revisionCounter := rv\<rparr>
          in emit (DeleteEvent kind i rv) s')"

definition createOnly :: "('e \<Rightarrow> string option) \<Rightarrow> string \<Rightarrow> 'e \<Rightarrow> 'e substrate
    \<Rightarrow> store_error + (create_result \<times> 'e substrate)" where
  "createOnly ident kind e s =
     (let stored = encodeForWrite kind e s in
      res_bind (extractId ident stored kind) (\<lambda>i.
        if find_row s kind i \<noteq> None then Inr (ExistingConflict, s)
        else let s' = write_row kind i stored s in Inr (Created i (revisionCounter s'), s')))"

definition putIfMatch :: "('e \<Rightarrow> string option) \<Rightarrow> string \<Rightarrow> 'e \<Rightarrow> revision \<Rightarrow> 'e substrate
    \<Rightarrow> store_error + (put_result \<times> 'e substrate)" where
  "putIfMatch ident kind e expected s =
     (let stored = encodeForWrite kind e s in
      res_bind (extractId ident stored kind) (\<lambda>i.
        case find_row s kind i of
          None \<Rightarrow> Inl (PutOnAbsent kind i)
        | Some r \<Rightarrow>
            if row_rv r \<noteq> expected then Inr (RevisionMismatch (row_rv r), s)
            else let s' = write_row kind i stored s in Inr (Written (revisionCounter s'), s')))"

text \<open>
  The batch writes first prepare every entry (encode it and take its id, which may throw), reject a
  batch that names a row twice, then check every row, then write every row.
\<close>

fun prepare_batch :: "('e \<Rightarrow> string option) \<Rightarrow> (string \<times> 'e) list \<Rightarrow> 'e substrate
    \<Rightarrow> store_error + (string \<times> string \<times> 'e) list" where
  "prepare_batch ident [] s = Inr []"
| "prepare_batch ident ((kind, e) # es) s =
     (let stored = encodeForWrite kind e s in
      res_bind (extractId ident stored kind) (\<lambda>i.
      res_bind (prepare_batch ident es s) (\<lambda>ps. Inr ((kind, i, stored) # ps))))"

definition entry_key :: "string \<Rightarrow> string \<Rightarrow> string" where
  "entry_key kind i = kind @ ''/'' @ i"

fun write_batch :: "(string \<times> string \<times> 'e) list \<Rightarrow> 'e substrate
    \<Rightarrow> ((string \<times> revision) list \<times> 'e change_event list) \<times> 'e substrate" where
  "write_batch [] s = (([], []), s)"
| "write_batch ((kind, i, e) # ps) s =
     (let s' = set_row kind i e s; rv = revisionCounter s';
          ((rvs, evs), s'') = write_batch ps s'
      in (((entry_key kind i, rv) # rvs, PutEvent kind i e rv # evs), s''))"

definition createBatchOnly :: "('e \<Rightarrow> string option) \<Rightarrow> (string \<times> 'e) list \<Rightarrow> 'e substrate
    \<Rightarrow> store_error + (batch_create_result \<times> 'e substrate)" where
  "createBatchOnly ident es s =
     (if es = [] then Inr (BatchCreated [], s)
      else res_bind (prepare_batch ident es s) (\<lambda>ps.
        if \<not> distinct (map (\<lambda>(kind, i, e). entry_key kind i) ps) then Inl DuplicateEntries
        else let existing = filter (\<lambda>(kind, i, e). find_row s kind i \<noteq> None) ps in
          if existing \<noteq> [] then Inr (BatchExisting (map (\<lambda>(kind, i, e). (kind, i)) existing), s)
          else let ((rvs, evs), s') = write_batch ps s in Inr (BatchCreated rvs, fold emit evs s')))"

definition batch_conflicts :: "(string \<times> string \<times> 'e) list \<Rightarrow> (string \<times> 'e \<times> revision) list \<Rightarrow> 'e substrate
    \<Rightarrow> (string \<times> string \<times> revision \<times> revision option) list" where
  "batch_conflicts ps es s =
     [(kind, i, rv, map_option row_rv (find_row s kind i)). ((kind, i, e), (_, _, rv)) \<leftarrow> zip ps es,
        map_option row_rv (find_row s kind i) \<noteq> Some rv]"

definition putBatchIfMatch :: "('e \<Rightarrow> string option) \<Rightarrow> (string \<times> 'e \<times> revision) list \<Rightarrow> 'e substrate
    \<Rightarrow> store_error + (batch_put_result \<times> 'e substrate)" where
  "putBatchIfMatch ident es s =
     (if es = [] then Inr (BatchWritten [], s)
      else res_bind (prepare_batch ident (map (\<lambda>(kind, e, rv). (kind, e)) es) s) (\<lambda>ps.
        if \<not> distinct (map (\<lambda>(kind, i, e). entry_key kind i) ps) then Inl DuplicateEntries
        else let conflicts = batch_conflicts ps es s in
          if conflicts \<noteq> [] then Inr (BatchMismatch conflicts, s)
          else let ((rvs, evs), s') = write_batch ps s in Inr (BatchWritten rvs, fold emit evs s')))"

text \<open>
  \<open>list\<close>: the kind's entities in insertion order, filtered, sorted stably by the comparator when one
  is given, then the page.  \<open>limit\<close> defaults to 100 and is capped at 500.
\<close>

fun insert_by :: "('e \<Rightarrow> 'e \<Rightarrow> int) \<Rightarrow> 'e \<Rightarrow> 'e list \<Rightarrow> 'e list" where
  "insert_by cmp x [] = [x]"
| "insert_by cmp x (y # ys) = (if cmp x y \<le> 0 then x # y # ys else y # insert_by cmp x ys)"

definition sort_by :: "('e \<Rightarrow> 'e \<Rightarrow> int) \<Rightarrow> 'e list \<Rightarrow> 'e list" where
  "sort_by cmp xs = foldr (insert_by cmp) xs []"

definition list_op :: "string \<Rightarrow> ('e \<Rightarrow> bool) \<Rightarrow> ('e \<Rightarrow> 'e \<Rightarrow> int) option \<Rightarrow> nat option \<Rightarrow> nat option
    \<Rightarrow> 'e substrate \<Rightarrow> 'e list \<times> revision" where
  "list_op kind P cmp limit offset s =
     (let items = filter P (map (row_data \<circ> snd) (getKindStore kind s));
          items = (case cmp of None \<Rightarrow> items | Some c \<Rightarrow> sort_by c items);
          off = (case offset of None \<Rightarrow> 0 | Some n \<Rightarrow> n);
          lim = min (case limit of None \<Rightarrow> 100 | Some n \<Rightarrow> n) 500
      in (take lim (drop off items), revisionCounter s))"

text \<open>
  The replay phase of \<open>watch\<close> with \<open>sinceRevision\<close>: the live rows written after that
  revision, oldest write first, as put events.
\<close>

definition watch_replay :: "string \<Rightarrow> ('e \<Rightarrow> bool) \<Rightarrow> revision \<Rightarrow> 'e substrate \<Rightarrow> 'e change_event list" where
  "watch_replay kind P since s =
     map (\<lambda>(i, r). PutEvent kind i (row_data r) (row_rv r))
       (filter (\<lambda>(i, r). P (row_data r))
         (sort_key (\<lambda>(i, r). row_rv r) (filter (\<lambda>(i, r). since < row_rv r) (getKindStore kind s))))"

section \<open>The invariant\<close>

definition store_ok :: "'e substrate \<Rightarrow> bool" where
  "store_ok s \<longleftrightarrow>
     distinct (map fst (entities s)) \<and>
     (\<forall>k. distinct (map fst (getKindStore k s))) \<and>
     (\<forall>k i r. find_row s k i = Some r \<longrightarrow> 0 < row_rv r \<and> row_rv r \<le> revisionCounter s) \<and>
     (\<forall>k i r k' i' r'. find_row s k i = Some r \<longrightarrow> find_row s k' i' = Some r' \<longrightarrow>
        row_rv r = row_rv r' \<longrightarrow> k = k' \<and> i = i')"

text \<open>The feed: events carry the revisions 1, 2, 3, ... and replaying them gives the rows.\<close>

type_synonym 'e mirror = "string \<Rightarrow> string \<Rightarrow> 'e entity_row option"

fun apply_event :: "'e change_event \<Rightarrow> 'e mirror \<Rightarrow> 'e mirror" where
  "apply_event (PutEvent k i e rv) m = m(k := (m k)(i \<mapsto> \<lparr>row_data = e, row_rv = rv\<rparr>))"
| "apply_event (DeleteEvent k i rv) m = m(k := (m k)(i := None))"

definition feed_ok :: "'e substrate \<Rightarrow> bool" where
  "feed_ok s \<longleftrightarrow>
     map ev_rv (emitted s) = [1..<Suc (revisionCounter s)] \<and>
     fold apply_event (emitted s) (\<lambda>k i. None) = find_row s"

lemma kind_store_distinct: "store_ok s \<Longrightarrow> distinct (map fst (getKindStore k s))"
  by (simp add: store_ok_def)

lemma getKindStore_set_row [store_simps]:
  "getKindStore k' (set_row k i e s) =
     (if k' = k then AList.update i \<lparr>row_data = e, row_rv = Suc (revisionCounter s)\<rparr> (getKindStore k s)
      else getKindStore k' s)"
  by (simp add: set_row_def getKindStore_def)

lemma find_row_set_row [store_simps]:
  "find_row (set_row k i e s) =
     (find_row s)(k := (find_row s k)(i \<mapsto> \<lparr>row_data = e, row_rv = Suc (revisionCounter s)\<rparr>))"
  by (rule ext)+ (simp add: find_row_def store_simps)

lemma set_row_fields [store_simps]:
  "revisionCounter (set_row k i e s) = Suc (revisionCounter s)"
  "writeEncoder (set_row k i e s) = writeEncoder s"
  "emitted (set_row k i e s) = emitted s"
  "map fst (entities (set_row k i e s)) = map fst (AList.update k [] (entities s))"
  by (simp_all add: set_row_def AList.update_keys)

lemma getKindStore_emit [store_simps]: "getKindStore k (emit ev s) = getKindStore k s"
  by (simp add: emit_def getKindStore_def)

lemma emit_fields [store_simps]:
  "entities (emit ev s) = entities s"
  "revisionCounter (emit ev s) = revisionCounter s"
  "writeEncoder (emit ev s) = writeEncoder s"
  "emitted (emit ev s) = emitted s @ [ev]"
  "find_row (emit ev s) = find_row s"
  by (auto simp: emit_def find_row_def getKindStore_def fun_eq_iff)

lemma fold_emit_fields [store_simps]:
  "entities (fold emit evs s) = entities s"
  "revisionCounter (fold emit evs s) = revisionCounter s"
  "writeEncoder (fold emit evs s) = writeEncoder s"
  "emitted (fold emit evs s) = emitted s @ evs"
  "find_row (fold emit evs s) = find_row s"
  by (induction evs arbitrary: s) (simp_all add: store_simps)

lemma write_row_fields [store_simps]:
  "find_row (write_row k i e s) =
     (find_row s)(k := (find_row s k)(i \<mapsto> \<lparr>row_data = e, row_rv = Suc (revisionCounter s)\<rparr>))"
  "revisionCounter (write_row k i e s) = Suc (revisionCounter s)"
  "writeEncoder (write_row k i e s) = writeEncoder s"
  "emitted (write_row k i e s) = emitted s @ [PutEvent k i e (Suc (revisionCounter s))]"
  by (simp_all add: write_row_def Let_def store_simps)

text \<open>Every change to the rows is one of two primitive steps: set a row or delete one.\<close>

lemma store_ok_set_row [store_wf]:
  assumes "store_ok s"
  shows "store_ok (set_row k i e s)"
proof -
  have below: "find_row s k' i' = Some r \<Longrightarrow> 0 < row_rv r \<and> row_rv r \<le> revisionCounter s" for k' i' r
    using assms by (auto simp: store_ok_def)
  have fresh: "find_row s k' i' = Some r \<Longrightarrow> row_rv r \<noteq> Suc (revisionCounter s)" for k' i' r
    using below by fastforce
  have uniq: "find_row s k1 i1 = Some r1 \<Longrightarrow> find_row s k2 i2 = Some r2 \<Longrightarrow> row_rv r1 = row_rv r2
      \<Longrightarrow> k1 = k2 \<and> i1 = i2" for k1 i1 r1 k2 i2 r2
    using assms unfolding store_ok_def by blast
  show ?thesis
    unfolding store_ok_def
  proof (intro conjI allI impI)
    show "distinct (map fst (entities (set_row k i e s)))"
      using assms by (simp add: store_simps store_ok_def distinct_update)
    show "distinct (map fst (getKindStore k' (set_row k i e s)))" for k'
      using assms by (simp add: store_simps store_ok_def distinct_update)
  next
    fix k' i' r assume "find_row (set_row k i e s) k' i' = Some r"
    then show "0 < row_rv r" "row_rv r \<le> revisionCounter (set_row k i e s)"
      using below by (auto simp: store_simps split: if_splits intro: le_SucI)
  next
    fix k1 i1 r1 k2 i2 r2
    assume "find_row (set_row k i e s) k1 i1 = Some r1" "find_row (set_row k i e s) k2 i2 = Some r2"
      and "row_rv r1 = row_rv r2"
    then show "k1 = k2" "i1 = i2"
      using uniq fresh by (auto simp: store_simps split: if_splits) metis+
  qed
qed

lemma store_ok_cong:
  assumes "entities s' = entities s" "revisionCounter s' = revisionCounter s"
  shows "store_ok s' = store_ok s"
proof -
  have "getKindStore k s' = getKindStore k s" for k
    by (simp add: getKindStore_def assms)
  then have "find_row s' = find_row s"
    by (intro ext) (simp add: find_row_def)
  with assms \<open>\<And>k. getKindStore k s' = getKindStore k s\<close> show ?thesis
    by (simp add: store_ok_def)
qed

lemma store_ok_emit [store_wf]: "store_ok (emit ev s) = store_ok s"
  by (rule store_ok_cong) (simp_all add: store_simps)

lemma store_ok_fold_emit [store_wf]: "store_ok (fold emit evs s) = store_ok s"
  by (rule store_ok_cong) (simp_all add: store_simps)

lemma store_ok_write_row [store_wf]: "store_ok s \<Longrightarrow> store_ok (write_row k i e s)"
  by (simp add: write_row_def Let_def store_wf)

lemma delete_op_fields [store_simps]:
  assumes "find_row s k i = Some r"
  shows "find_row (delete_op k i s) = (find_row s)(k := (find_row s k)(i := None))"
    and "revisionCounter (delete_op k i s) = Suc (revisionCounter s)"
    and "emitted (delete_op k i s) = emitted s @ [DeleteEvent k i (Suc (revisionCounter s))]"
    and "getKindStore k' (delete_op k i s) =
           (if k' = k then AList.delete i (getKindStore k s) else getKindStore k' s)"
    and "map fst (entities (delete_op k i s)) = map fst (AList.update k [] (entities s))"
proof -
  show "revisionCounter (delete_op k i s) = Suc (revisionCounter s)"
    and "emitted (delete_op k i s) = emitted s @ [DeleteEvent k i (Suc (revisionCounter s))]"
    and "map fst (entities (delete_op k i s)) = map fst (AList.update k [] (entities s))"
    using assms by (simp_all add: delete_op_def Let_def emit_def AList.update_keys)
  show g: "getKindStore k' (delete_op k i s) =
           (if k' = k then AList.delete i (getKindStore k s) else getKindStore k' s)" for k'
    using assms by (simp add: delete_op_def Let_def emit_def getKindStore_def)
  show "find_row (delete_op k i s) = (find_row s)(k := (find_row s k)(i := None))"
    by (rule ext)+ (simp add: find_row_def g)
qed

lemma delete_op_absent [store_simps]: "find_row s k i = None \<Longrightarrow> delete_op k i s = s"
  by (simp add: delete_op_def)

lemma store_ok_delete_op [store_wf]:
  assumes "store_ok s"
  shows "store_ok (delete_op k i s)"
proof (cases "find_row s k i")
  case None
  with assms show ?thesis by (simp add: store_simps)
next
  case (Some r)
  have sub: "find_row (delete_op k i s) k' i' = Some x \<Longrightarrow> find_row s k' i' = Some x" for k' i' x
    using Some by (auto simp: store_simps split: if_splits)
  show ?thesis
    unfolding store_ok_def
  proof (intro conjI allI impI)
    show "distinct (map fst (entities (delete_op k i s)))"
      using assms Some by (simp add: store_simps store_ok_def distinct_update)
    show "distinct (map fst (getKindStore k' (delete_op k i s)))" for k'
      using assms Some by (simp add: store_simps store_ok_def distinct_delete)
  next
    fix k' i' x assume "find_row (delete_op k i s) k' i' = Some x"
    then have "find_row s k' i' = Some x" by (rule sub)
    with assms have "0 < row_rv x \<and> row_rv x \<le> revisionCounter s"
      unfolding store_ok_def by blast
    then show "0 < row_rv x" "row_rv x \<le> revisionCounter (delete_op k i s)"
      using Some by (simp_all add: store_simps)
  next
    fix k1 i1 r1 k2 i2 r2
    assume "find_row (delete_op k i s) k1 i1 = Some r1" "find_row (delete_op k i s) k2 i2 = Some r2"
      and "row_rv r1 = row_rv r2"
    with sub have "k1 = k2 \<and> i1 = i2"
      using assms unfolding store_ok_def by metis
    then show "k1 = k2" "i1 = i2" by simp_all
  qed
qed

lemma store_ok_write_batch [store_wf]:
  "store_ok s \<Longrightarrow> store_ok (snd (write_batch ps s))"
  by (induction ps s rule: write_batch.induct) (auto simp: Let_def store_wf split: prod.splits)

lemma store_ok_empty [store_wf]: "store_ok empty_substrate"
  by (simp add: store_ok_def empty_substrate_def find_row_def getKindStore_def)

text \<open>The operations, in terms of the primitive steps.\<close>

inductive store_step :: "'e substrate \<Rightarrow> 'e substrate \<Rightarrow> bool" where
  st_write: "store_step s (write_row k i e s)"
| st_delete: "store_step s (delete_op k i s)"
| st_batch: "write_batch ps s = ((rvs, evs), s') \<Longrightarrow> store_step s (fold emit evs s')"

lemma put_op_step: "put_op ident k e s = Inr (out, s') \<Longrightarrow> store_step s s'"
  by (auto simp: put_op_def Let_def res_bind_Inr_iff intro: st_write)

lemma createOnly_step: "createOnly ident k e s = Inr (out, s') \<Longrightarrow> s' = s \<or> store_step s s'"
  by (auto simp: createOnly_def Let_def res_bind_Inr_iff split: if_splits intro: st_write)

lemma putIfMatch_step: "putIfMatch ident k e rv s = Inr (out, s') \<Longrightarrow> s' = s \<or> store_step s s'"
  by (auto simp: putIfMatch_def Let_def res_bind_Inr_iff split: if_splits option.splits intro: st_write)

lemma createBatchOnly_step: "createBatchOnly ident es s = Inr (out, s') \<Longrightarrow> s' = s \<or> store_step s s'"
  by (auto simp: createBatchOnly_def Let_def res_bind_Inr_iff split: if_splits prod.splits intro: st_batch)

lemma putBatchIfMatch_step: "putBatchIfMatch ident es s = Inr (out, s') \<Longrightarrow> s' = s \<or> store_step s s'"
  by (auto simp: putBatchIfMatch_def Let_def res_bind_Inr_iff split: if_splits prod.splits intro: st_batch)

lemma store_step_ok: "store_step s s' \<Longrightarrow> store_ok s \<Longrightarrow> store_ok s'"
proof (induction rule: store_step.induct)
  case (st_batch ps s rvs evs s')
  then show ?case
    using store_ok_write_batch [of s ps] by (simp add: store_wf)
qed (simp_all add: store_wf)

section \<open>Feed\<close>

lemma upt_Suc_snoc: "[1..<Suc (Suc n)] = [1..<Suc n] @ [Suc n]"
  by simp

lemma feed_ok_write_row: "feed_ok s \<Longrightarrow> feed_ok (write_row k i e s)"
  unfolding feed_ok_def store_simps upt_Suc_snoc by simp

lemma feed_ok_delete_op: "feed_ok s \<Longrightarrow> feed_ok (delete_op k i s)"
proof (cases "find_row s k i")
  case (Some r)
  assume "feed_ok s"
  then show ?thesis
    unfolding feed_ok_def delete_op_fields [OF Some] upt_Suc_snoc by simp
qed (simp add: store_simps)

text \<open>A batch sets its rows first and emits afterwards: its events are still what the rows say.\<close>

lemma write_batch_feed:
  assumes "write_batch ps s = ((rvs, evs), s')"
  shows "emitted s' = emitted s \<and> find_row s' = fold apply_event evs (find_row s) \<and>
    map ev_rv evs = [Suc (revisionCounter s)..<Suc (revisionCounter s')] \<and>
    revisionCounter s' = revisionCounter s + length ps \<and> map snd rvs = map ev_rv evs \<and>
    writeEncoder s' = writeEncoder s"
  using assms
proof (induction ps s arbitrary: rvs evs s' rule: write_batch.induct)
  case (1 s)
  then show ?case by simp
next
  case (2 kind i e ps s)
  obtain rvs2 evs2 where rec: "write_batch ps (set_row kind i e s) = ((rvs2, evs2), s')"
    and out: "evs = PutEvent kind i e (Suc (revisionCounter s)) # evs2"
      "rvs = (entry_key kind i, Suc (revisionCounter s)) # rvs2"
    using "2.prems" by (auto simp: Let_def store_simps split: prod.splits)
  let ?s1 = "set_row kind i e s"
  have ih: "emitted s' = emitted ?s1" "find_row s' = fold apply_event evs2 (find_row ?s1)"
      "map ev_rv evs2 = [Suc (revisionCounter ?s1)..<Suc (revisionCounter s')]"
      "revisionCounter s' = revisionCounter ?s1 + length ps" "map snd rvs2 = map ev_rv evs2"
      "writeEncoder s' = writeEncoder ?s1"
    using "2.IH" [OF refl refl rec] by blast+
  have "find_row ?s1 = apply_event (PutEvent kind i e (Suc (revisionCounter s))) (find_row s)"
    by (simp add: find_row_set_row)
  moreover have "[Suc (revisionCounter s)..<Suc (revisionCounter s')]
      = Suc (revisionCounter s) # [Suc (revisionCounter ?s1)..<Suc (revisionCounter s')]"
    using ih(4) by (subst upt_conv_Cons) (simp_all add: set_row_fields)
  ultimately show ?case
    using ih by (simp add: out set_row_fields)
qed

lemma feed_ok_batch:
  assumes "feed_ok s" and "write_batch ps s = ((rvs, evs), s')"
  shows "feed_ok (fold emit evs s')"
proof -
  note b = write_batch_feed [OF assms(2)]
  have "[1..<Suc (revisionCounter s')] = [1..<Suc (revisionCounter s)] @ [Suc (revisionCounter s)..<Suc (revisionCounter s')]"
    using b upt_add_eq_append [of 1 "Suc (revisionCounter s)" "length ps"] by simp
  with b assms(1) show ?thesis
    by (simp add: feed_ok_def store_simps)
qed

lemma store_step_feed: "store_step s s' \<Longrightarrow> feed_ok s \<Longrightarrow> feed_ok s'"
  by (induction rule: store_step.induct) (auto intro: feed_ok_write_row feed_ok_delete_op feed_ok_batch)

section \<open>Revisions are never reused\<close>

definition evolves :: "'e substrate \<Rightarrow> 'e substrate \<Rightarrow> bool" where
  "evolves s s' \<longleftrightarrow> revisionCounter s \<le> revisionCounter s' \<and>
     (\<forall>k i r. find_row s' k i = Some r \<longrightarrow> row_rv r \<le> revisionCounter s \<longrightarrow> find_row s k i = Some r)"

lemma evolvesI:
  "revisionCounter s \<le> revisionCounter s' \<Longrightarrow>
   (\<And>k i r. find_row s' k i = Some r \<Longrightarrow> row_rv r \<le> revisionCounter s \<Longrightarrow> find_row s k i = Some r) \<Longrightarrow>
   evolves s s'"
  by (simp add: evolves_def)

lemma evolves_refl [simp]: "evolves s s"
  by (simp add: evolves_def)

lemma evolves_trans: "evolves s t \<Longrightarrow> evolves t u \<Longrightarrow> evolves s u"
  unfolding evolves_def by (meson le_trans)

lemma evolves_set_row: "evolves s (set_row k i e s)"
  by (rule evolvesI) (auto simp: store_simps split: if_splits)

lemma evolves_emit: "evolves s (fold emit evs t) = evolves s t"
  by (simp add: evolves_def store_simps)

lemma evolves_write_row: "evolves s (write_row k i e s)"
  by (rule evolvesI) (auto simp: store_simps split: if_splits)

lemma evolves_delete_op: "evolves s (delete_op k i s)"
proof (cases "find_row s k i")
  case (Some r)
  show ?thesis
    by (rule evolvesI) (auto simp: delete_op_fields [OF Some] split: if_splits)
qed (simp add: store_simps)

lemma evolves_write_batch: "evolves s (snd (write_batch ps s))"
proof (induction ps s rule: write_batch.induct)
  case (2 kind i e ps s)
  have "evolves (set_row kind i e s) (snd (write_batch ps (set_row kind i e s)))"
    by (rule "2.IH") simp_all
  then have "evolves s (snd (write_batch ps (set_row kind i e s)))"
    by (rule evolves_trans [OF evolves_set_row])
  then show ?case
    by (simp add: Let_def case_prod_beta)
qed simp

lemma store_step_evolves: "store_step s s' \<Longrightarrow> evolves s s'"
proof (induction rule: store_step.induct)
  case (st_batch ps s rvs evs s')
  then show ?case using evolves_write_batch [of s ps] by (simp add: evolves_emit)
qed (rule evolves_write_row evolves_delete_op)+

lemma same_revision_same_row:
  assumes "store_ok s" "evolves s s'" "find_row s k i = Some r" "find_row s' k i = Some r'" "row_rv r = row_rv r'"
  shows "r = r'"
proof -
  have "row_rv r' \<le> revisionCounter s"
    using assms(1,3,5) unfolding store_ok_def by metis
  with assms(2,3,4) show ?thesis
    by (simp add: evolves_def)
qed

section \<open>The compare-and-set loop\<close>

text \<open>
  The loop every repository writes through (\<open>tryCasUpdate\<close>, \<open>casUpdateOrThrow\<close>): read the row and its
  revision, compute the next row (which may throw), write it if the revision still stands, otherwise
  try again.  The list of attempts says what other writers do to the store in each: \<open>before\<close> the
  read, and \<open>between\<close> the read and the write.  A list of \<open>MAX_CAS_RETRIES\<close> attempts is the loop
  of the source; the theorems hold for every list.
\<close>

datatype ('err, 'z, 'e) cas_outcome =
    CasDone 'e
  | CasMissing
  | CasFailed 'err
  | CasThrew 'z
  | CasExhausted

type_synonym 's attempt = "('s \<Rightarrow> 's) \<times> ('s \<Rightarrow> 's)"

fun cas_loop :: "('s \<Rightarrow> ('e \<times> revision) option) \<Rightarrow> ('e \<Rightarrow> revision \<Rightarrow> 's \<Rightarrow> ('z + bool) \<times> 's)
    \<Rightarrow> ('s \<Rightarrow> 'e \<Rightarrow> revision \<Rightarrow> 'err + 'e) \<Rightarrow> 's attempt list \<Rightarrow> 's \<Rightarrow> ('err, 'z, 'e) cas_outcome \<times> 's" where
  "cas_loop rd cas f [] s = (CasExhausted, s)"
| "cas_loop rd cas f ((before, between) # envs) s =
     (let s = before s in
      case rd s of
        None \<Rightarrow> (CasMissing, s)
      | Some (x, rv) \<Rightarrow>
          (case f s x rv of
             Inl err \<Rightarrow> (CasFailed err, s)
           | Inr y \<Rightarrow>
               (case cas y rv (between s) of
                  (Inl z, s') \<Rightarrow> (CasThrew z, s')
                | (Inr True, s') \<Rightarrow> (CasDone y, s')
                | (Inr False, s') \<Rightarrow> cas_loop rd cas f envs s')))"

text \<open>The loop with nobody else writing.\<close>

definition quiet :: "'s attempt list" where
  "quiet = [(\<lambda>s. s, \<lambda>s. s)]"

text \<open>\<open>putIfMatch\<close> as the loop sees it.\<close>

definition cas_row :: "('e \<Rightarrow> string option) \<Rightarrow> string \<Rightarrow> 'e \<Rightarrow> revision \<Rightarrow> 'e substrate
    \<Rightarrow> (store_error + bool) \<times> 'e substrate" where
  "cas_row ident kind y rv s =
     (case putIfMatch ident kind y rv s of
        Inl z \<Rightarrow> (Inl z, s)
      | Inr (Written _, s') \<Rightarrow> (Inr True, s')
      | Inr (RevisionMismatch _, s') \<Rightarrow> (Inr False, s'))"

text \<open>
  What the loop relies on: a write that succeeds found the row at the revision that was read, a
  revision is never reused, and a write that does not succeed changes nothing.
\<close>

locale cas_store =
  fixes rd :: "'s \<Rightarrow> ('e \<times> revision) option"
    and cas :: "'e \<Rightarrow> revision \<Rightarrow> 's \<Rightarrow> ('z + bool) \<times> 's"
    and ok :: "'s \<Rightarrow> bool"
    and evolves_to :: "'s \<Rightarrow> 's \<Rightarrow> bool"
    and good :: "'e \<Rightarrow> bool"
  assumes cas_hit: "ok s \<Longrightarrow> good y \<Longrightarrow> rd s = Some (x, rv) \<Longrightarrow>
      \<exists>s' rv'. cas y rv s = (Inr True, s') \<and> ok s' \<and> evolves_to s s' \<and> rd s' = Some (y, rv')"
    and cas_miss: "ok s \<Longrightarrow> good y \<Longrightarrow> rd s = Some (x, rv') \<Longrightarrow> rv' \<noteq> rv \<Longrightarrow> cas y rv s = (Inr False, s)"
    and cas_gone: "ok s \<Longrightarrow> good y \<Longrightarrow> rd s = None \<Longrightarrow> \<exists>z. cas y rv s = (Inl z, s)"
    and refl_evolves: "evolves_to s s"
    and trans_evolves: "evolves_to s t \<Longrightarrow> evolves_to t u \<Longrightarrow> evolves_to s u"
    and no_reuse: "ok s \<Longrightarrow> ok s' \<Longrightarrow> evolves_to s s' \<Longrightarrow> rd s = Some (x, rv) \<Longrightarrow> rd s' = Some (y, rv) \<Longrightarrow> x = y"
begin

text \<open>Other writers only do what the store allows.\<close>

definition fair :: "'s attempt list \<Rightarrow> bool" where
  "fair envs \<longleftrightarrow> (\<forall>(b, w) \<in> set envs. \<forall>s. ok s \<longrightarrow>
     ok (b s) \<and> evolves_to s (b s) \<and> ok (w s) \<and> evolves_to s (w s))"

lemma cas_not_done: "ok s \<Longrightarrow> good y \<Longrightarrow> cas y rv s = (a, s') \<Longrightarrow> a \<noteq> Inr True \<Longrightarrow> s' = s"
  using cas_hit [of s y] cas_miss [of s y] cas_gone [of s y rv]
  by (cases "rd s") (auto, metis prod.inject)

lemma cas_done: "ok s \<Longrightarrow> good y \<Longrightarrow> cas y rv s = (Inr True, s') \<Longrightarrow>
    \<exists>x. rd s = Some (x, rv) \<and> ok s' \<and> evolves_to s s' \<and> (\<exists>rv'. rd s' = Some (y, rv'))"
  using cas_hit [of s y] cas_miss [of s y] cas_gone [of s y rv]
  by (cases "rd s") (auto, (metis prod.inject sum.inject(2))+)

theorem loop_linearizable:
  assumes "cas_loop rd cas f envs s = (CasDone y, s')" "ok s" "fair envs"
    and good: "\<And>s x rv y. f s x rv = Inr y \<Longrightarrow> good y"
  shows "\<exists>sr sw x rv. evolves_to s sr \<and> ok sr \<and> evolves_to sr sw \<and> ok sw \<and>
    rd sr = Some (x, rv) \<and> f sr x rv = Inr y \<and> rd sw = Some (x, rv) \<and> cas y rv sw = (Inr True, s')"
  using assms(1-3)
proof (induction envs arbitrary: s)
  case Nil
  then show ?case by simp
next
  case (Cons e envs)
  obtain b w where e: "e = (b, w)" by (cases e)
  have b: "ok (b s)" "evolves_to s (b s)" and w: "ok (w (b s))" "evolves_to (b s) (w (b s))"
    and fair: "fair envs"
    using Cons.prems(2,3) by (auto simp: fair_def e)
  obtain x rv where x: "rd (b s) = Some (x, rv)"
    using Cons.prems(1) by (auto simp: e Let_def split: option.splits)
  obtain y' where y': "f (b s) x rv = Inr y'"
    using Cons.prems(1) by (auto simp: e Let_def x split: sum.splits)
  obtain a t where a: "cas y' rv (w (b s)) = (a, t)" by (cases "cas y' rv (w (b s))")
  show ?case
  proof (cases "a = Inr True")
    case True
    with Cons.prems(1) have "y' = y" "t = s'"
      by (auto simp: e Let_def x y' a)
    moreover obtain x' where "rd (w (b s)) = Some (x', rv)"
      using cas_done [OF w(1) good [OF y']] a True by blast
    moreover from this have "x' = x"
      using no_reuse [OF b(1) w(1) w(2) x] by simp
    ultimately show ?thesis
      using b w x y' a True by blast
  next
    case False
    then have t: "t = w (b s)"
      using cas_not_done [OF w(1) good [OF y'] a] by simp
    from Cons.prems(1) False have "cas_loop rd cas f envs t = (CasDone y, s')"
      by (auto simp: e Let_def x y' a split: sum.splits bool.splits)
    from Cons.IH [OF this _ fair] w(1) t b(2) w(2) show ?thesis
      by (blast intro: trans_evolves)
  qed
qed

text \<open>An attempt the loop gives up on writes nothing: what the others preserve still holds.\<close>

theorem loop_no_write:
  assumes "cas_loop rd cas f envs s = (out, s')" "\<forall>y. out \<noteq> CasDone y" "ok s" "fair envs"
    and good: "\<And>s x rv y. f s x rv = Inr y \<Longrightarrow> good y"
    and inv: "\<forall>(b, w) \<in> set envs. \<forall>s. P s \<longrightarrow> P (b s) \<and> P (w s)" and "P s"
  shows "P s'"
  using assms(1-4,6,7)
proof (induction envs arbitrary: s)
  case Nil
  then show ?case by simp
next
  case (Cons e envs)
  obtain b w where e: "e = (b, w)" by (cases e)
  have ok: "ok (b s)" "ok (w (b s))" and fair: "fair envs"
    using Cons.prems(3,4) by (auto simp: fair_def e)
  have P: "P (b s)" "P (w (b s))" using Cons.prems(5,6) e by auto
  show ?case
  proof (cases "rd (b s)")
    case None
    with Cons.prems(1) P show ?thesis by (auto simp: e Let_def)
  next
    case (Some xr)
    obtain x rv where x: "rd (b s) = Some (x, rv)" using Some by (cases xr) auto
    show ?thesis
    proof (cases "f (b s) x rv")
      case (Inl err)
      with Cons.prems(1) P x show ?thesis by (auto simp: e Let_def)
    next
      case (Inr y')
      obtain a t where a: "cas y' rv (w (b s)) = (a, t)" by (cases "cas y' rv (w (b s))")
      from Cons.prems(1,2) have a': "a \<noteq> Inr True"
        by (auto simp: e Let_def x Inr a)
      then have t: "t = w (b s)" using cas_not_done [OF ok(2) good [OF Inr] a] by simp
      show ?thesis
      proof (cases a)
        case (Inl z)
        with Cons.prems(1) P t show ?thesis by (auto simp: e Let_def x Inr a \<open>f (b s) x rv = Inr y'\<close>)
      next
        case (Inr d)
        with a' have "d = False" by simp
        with Cons.prems(1) have "cas_loop rd cas f envs t = (out, s')"
          by (simp add: e Let_def x a Inr \<open>f (b s) x rv = Inr y'\<close>)
        moreover have "\<forall>(b, w) \<in> set envs. \<forall>s. P s \<longrightarrow> P (b s) \<and> P (w s)"
          using Cons.prems(5) by simp
        ultimately show ?thesis
          using Cons.IH Cons.prems(2) ok t fair P by blast
      qed
    qed
  qed
qed

text \<open>With no other writer the first attempt decides.\<close>

lemma loop_quiet:
  assumes "ok s" and good: "\<forall>x rv y. rd s = Some (x, rv) \<longrightarrow> f s x rv = Inr y \<longrightarrow> good y"
  shows "cas_loop rd cas f quiet s =
    (case rd s of None \<Rightarrow> (CasMissing, s)
     | Some (x, rv) \<Rightarrow> (case f s x rv of Inl err \<Rightarrow> (CasFailed err, s)
                        | Inr y \<Rightarrow> (CasDone y, snd (cas y rv s))))"
proof -
  have "rd s = Some (x, rv) \<Longrightarrow> f s x rv = Inr y \<Longrightarrow> \<exists>s'. cas y rv s = (Inr True, s')" for x rv y
    using cas_hit [OF assms(1)] good by blast
  then show ?thesis
    by (fastforce simp: quiet_def Let_def split: option.splits sum.splits prod.splits bool.splits)
qed

end

text \<open>The substrate's rows obey the contract, on every row whose entity carries its own id.\<close>

definition plain_store :: "'e substrate \<Rightarrow> bool" where
  "plain_store s \<longleftrightarrow> store_ok s \<and> writeEncoder s = None"

lemma putIfMatch_found:
  assumes "plain_store s" "ident y = Some i" "i \<noteq> []" "kind \<noteq> ''Counter''" "find_row s kind i = Some r"
  shows "putIfMatch ident kind y rv s =
    (if row_rv r \<noteq> rv then Inr (RevisionMismatch (row_rv r), s)
     else Inr (Written (Suc (revisionCounter s)), write_row kind i y s))"
  using assms by (simp add: putIfMatch_def plain_store_def encodeForWrite_def extractId_def Let_def store_simps)

lemma putIfMatch_gone:
  assumes "plain_store s" "ident y = Some i" "i \<noteq> []" "kind \<noteq> ''Counter''" "find_row s kind i = None"
  shows "putIfMatch ident kind y rv s = Inl (PutOnAbsent kind i)"
  using assms by (simp add: putIfMatch_def plain_store_def encodeForWrite_def extractId_def Let_def)

lemma plain_store_write_row [store_wf]: "plain_store s \<Longrightarrow> plain_store (write_row k i e s)"
  by (simp add: plain_store_def store_wf store_simps)

interpretation cas_sub: cas_store "getWithRevision kind i" "cas_row ident kind" plain_store evolves
  "\<lambda>y. ident y = Some i \<and> i \<noteq> [] \<and> kind \<noteq> ''Counter''" for kind i and ident :: "'e \<Rightarrow> string option"
proof
  fix s :: "'e substrate" and y x rv
  assume s: "plain_store s" and y: "ident y = Some i \<and> i \<noteq> [] \<and> kind \<noteq> ''Counter''"
    and x: "getWithRevision kind i s = Some (x, rv)"
  from x obtain r where r: "find_row s kind i = Some r" "row_rv r = rv"
    by (auto simp: getWithRevision_def)
  have "cas_row ident kind y rv s = (Inr True, write_row kind i y s)"
    using putIfMatch_found [OF s _ _ _ r(1), of ident y] y r(2) by (simp add: cas_row_def)
  then show "\<exists>s' rv'. cas_row ident kind y rv s = (Inr True, s') \<and> plain_store s' \<and> evolves s s' \<and>
      getWithRevision kind i s' = Some (y, rv')"
    using s by (auto simp: getWithRevision_def store_simps intro: store_wf evolves_write_row)
next
  fix s :: "'e substrate" and y x rv rv'
  assume s: "plain_store s" and y: "ident y = Some i \<and> i \<noteq> [] \<and> kind \<noteq> ''Counter''"
    and x: "getWithRevision kind i s = Some (x, rv')" and ne: "rv' \<noteq> rv"
  from x obtain r where r: "find_row s kind i = Some r" "row_rv r = rv'"
    by (auto simp: getWithRevision_def)
  show "cas_row ident kind y rv s = (Inr False, s)"
    using putIfMatch_found [OF s _ _ _ r(1), of ident y] y r(2) ne by (simp add: cas_row_def)
next
  fix s :: "'e substrate" and y rv
  assume s: "plain_store s" and y: "ident y = Some i \<and> i \<noteq> [] \<and> kind \<noteq> ''Counter''"
    and x: "getWithRevision kind i s = None"
  then have "find_row s kind i = None" by (simp add: getWithRevision_def)
  then show "\<exists>z. cas_row ident kind y rv s = (Inl z, s)"
    using putIfMatch_gone [OF s, of ident y] y by (simp add: cas_row_def)
next
  fix s s' :: "'e substrate" and x y rv
  assume "plain_store s" "evolves s s'" "getWithRevision kind i s = Some (x, rv)" "getWithRevision kind i s' = Some (y, rv)"
  moreover from this obtain r where "find_row s kind i = Some r" "row_rv r = rv" "x = row_data r"
    unfolding getWithRevision_def by auto
  moreover from \<open>getWithRevision kind i s' = Some (y, rv)\<close>
  obtain r' where "find_row s' kind i = Some r'" "row_rv r' = rv" "y = row_data r'"
    unfolding getWithRevision_def by auto
  ultimately show "x = y"
    using same_revision_same_row [of s s' kind i r r'] unfolding plain_store_def by simp
qed (simp, rule evolves_trans)

section \<open>Reachable stores\<close>

definition reachable_store :: "'e substrate \<Rightarrow> bool" where
  "reachable_store s \<longleftrightarrow> store_step\<^sup>*\<^sup>* empty_substrate s"

lemma reachable_empty: "reachable_store empty_substrate"
  by (simp add: reachable_store_def)

lemma reachable_step: "reachable_store s \<Longrightarrow> store_step s s' \<Longrightarrow> reachable_store s'"
  unfolding reachable_store_def by (rule rtranclp.rtrancl_into_rtrancl)

lemma reachable_store_ok:
  assumes "reachable_store s"
  shows "store_ok s \<and> feed_ok s"
proof -
  have "feed_ok empty_substrate"
    by (simp add: feed_ok_def empty_substrate_def find_row_def getKindStore_def fun_eq_iff)
  from assms [unfolded reachable_store_def] this show ?thesis
    by (induction rule: rtranclp_induct) (auto intro: store_step_ok store_step_feed store_ok_empty)
qed

lemma steps_evolve: "store_step\<^sup>*\<^sup>* s s' \<Longrightarrow> evolves s s'"
  by (induction rule: rtranclp_induct) (auto intro: evolves_trans store_step_evolves)

section \<open>Batches\<close>

lemma write_batch_rows:
  "find_row (snd (write_batch ps s)) k i =
     (if (k, i) \<in> set (map (\<lambda>(k, i, e). (k, i)) ps)
      then find_row (snd (write_batch ps s)) k i else find_row s k i)"
proof (induction ps s rule: write_batch.induct)
  case (2 kind j e ps s)
  then show ?case
    by (auto simp: Let_def case_prod_beta store_simps)
qed simp

lemma write_batch_written:
  assumes "distinct (map (\<lambda>(k, i, e). (k, i)) ps)" "(k, i, e) \<in> set ps"
  shows "map_option row_data (find_row (snd (write_batch ps s)) k i) = Some e"
  using assms
proof (induction ps s rule: write_batch.induct)
  case (2 kind j e' ps s)
  show ?case
  proof (cases "(k, i, e) = (kind, j, e')")
    case True
    with 2 have "(kind, j) \<notin> set (map (\<lambda>(k, i, e). (k, i)) ps)" by auto
    with True write_batch_rows [of ps "set_row kind j e' s" kind j] show ?thesis
      by (simp add: Let_def case_prod_beta store_simps)
  next
    case False
    with "2.prems" have "(k, i, e) \<in> set ps" "distinct (map (\<lambda>(k, i, e). (k, i)) ps)" by auto
    then have "map_option row_data (find_row (snd (write_batch ps (set_row kind j e' s))) k i) = Some e"
      by (intro "2.IH") simp_all
    then show ?thesis by (simp add: Let_def case_prod_beta)
  qed
qed simp

lemma distinct_entry_keys:
  "distinct (map (\<lambda>(k, i, e). entry_key k i) ps) \<Longrightarrow> distinct (map (\<lambda>(k, i, e). (k, i)) ps)"
  by (induction ps) (auto simp: entry_key_def, force)

lemma prepare_batch_plain:
  assumes "writeEncoder s = None" "prepare_batch ident es s = Inr ps"
  shows "map (\<lambda>(k, i, e). (k, e)) ps = es"
  using assms
  by (induction ident es s arbitrary: ps rule: prepare_batch.induct)
    (auto simp: Let_def res_bind_Inr_iff encodeForWrite_def)

lemma prepare_batch_ids:
  assumes "writeEncoder s = None" "prepare_batch ident es s = Inr ps" "(k, i, e) \<in> set ps" "k \<noteq> ''Counter''"
  shows "ident e = Some i"
  using assms
  by (induction ident es s arbitrary: ps rule: prepare_batch.induct)
    (auto simp: Let_def res_bind_Inr_iff encodeForWrite_def extractId_def split: option.splits if_splits)

lemma zip_same_image:
  assumes "map f xs = map g ys" "y \<in> set ys"
  shows "\<exists>x \<in> set xs. f x = g y \<and> (x, y) \<in> set (zip xs ys)"
proof -
  have len: "length xs = length ys" using assms(1) by (rule map_eq_imp_length_eq)
  obtain j where j: "j < length ys" "ys ! j = y" using assms(2) by (auto simp: in_set_conv_nth)
  have "f (xs ! j) = g (ys ! j)" using assms(1) j len by (metis nth_map)
  moreover have "(xs ! j, ys ! j) \<in> set (zip xs ys)" using j len by (auto simp: in_set_zip)
  ultimately show ?thesis using j len by auto
qed

section \<open>Resuming a watch\<close>

lemma replay_puts:
  assumes "distinct (map fst xs)"
  shows "fold apply_event (map (\<lambda>(i, r). PutEvent k i (row_data r) (row_rv r)) xs) m k i
    = (case map_of xs i of None \<Rightarrow> m k i | Some r \<Rightarrow> Some r)"
  using assms
proof (induction xs arbitrary: m)
  case (Cons x xs)
  obtain j r where x: "x = (j, r)" by (cases x)
  have "j = i \<Longrightarrow> map_of xs i = None"
    using Cons.prems by (auto simp: x map_of_eq_None_iff)
  moreover have "\<lparr>row_data = row_data r, row_rv = row_rv r\<rparr> = r" by simp
  ultimately show ?case
    using Cons by (cases "j = i") (auto simp: x split: option.splits)
qed simp

lemma replay_rows:
  assumes "store_ok s"
  shows "fold apply_event (watch_replay k (\<lambda>_. True) since s) m k i =
    (case find_row s k i of Some r \<Rightarrow> if since < row_rv r then Some r else m k i | None \<Rightarrow> m k i)"
proof -
  let ?new = "filter (\<lambda>(i, r). since < row_rv r) (getKindStore k s)"
  have d: "distinct (map fst ?new)"
    using kind_store_distinct [OF assms, of k] by (rule distinct_map_filter)
  then have "map_of (sort_key (\<lambda>(i, r). row_rv r) ?new) = map_of ?new"
    by (intro map_of_inject_set [THEN iffD2]) (simp_all add: distinct_fst_sort_key)
  with d show ?thesis
    by (simp add: watch_replay_def replay_puts distinct_fst_sort_key find_row_def
        map_of_filter_distinct [OF kind_store_distinct [OF assms]] split: option.splits)
qed

section \<open>Properties\<close>

text \<open>
  C38: the change feed is complete and gapless.  After any sequence of writes, deletes and batches
  from the empty store, the emitted events carry the revisions 1, 2, ..., up to the counter, each
  once and in order, and replaying them from nothing gives exactly the rows (data and revision) the
  store holds; no two rows share a revision.
\<close>

theorem feed_is_the_store:
  assumes "reachable_store s"
  shows "map ev_rv (emitted s) = [1..<Suc (revisionCounter s)] \<and>
    fold apply_event (emitted s) (\<lambda>k i. None) = find_row s \<and>
    (\<forall>k i r k' i' r'. find_row s k i = Some r \<and> find_row s k' i' = Some r' \<and> row_rv r = row_rv r'
       \<longrightarrow> k = k' \<and> i = i')"
  using reachable_store_ok [OF assms] unfolding feed_ok_def store_ok_def by blast

definition demo_store :: "string substrate" where
  "demo_store = delete_op ''K'' ''a'' (write_row ''K'' ''b'' ''b'' (write_row ''K'' ''a'' ''a'' empty_substrate))"

lemma demo_store_reachable: "reachable_store demo_store"
  unfolding demo_store_def by (intro reachable_step [OF _ st_delete] reachable_step [OF _ st_write] reachable_empty)

theorem feed_is_the_store_witness:
  "map ev_rv (emitted demo_store) = [1, 2, 3] \<and>
   fold apply_event (emitted demo_store) (\<lambda>k i. None) ''K'' ''b'' = Some \<lparr>row_data = ''b'', row_rv = 2\<rparr> \<and>
   find_row demo_store ''K'' ''a'' = None"
proof -
  have "find_row demo_store ''K'' ''b'' = Some \<lparr>row_data = ''b'', row_rv = 2\<rparr>"
    "find_row demo_store ''K'' ''a'' = None" "revisionCounter demo_store = 3"
    by code_simp+
  with feed_is_the_store [OF demo_store_reachable] show ?thesis
    by (simp add: upt_rec)
qed

text \<open>
  C31: compare-and-set never loses an update.  If a client read a row at some revision of a reachable store and other clients then wrote,
  deleted and re-created anything any number of times, the client's \<open>putIfMatch\<close> at that revision succeeds exactly when the row still
  holds what the client had read at that revision.  Then the row has the client's contents at a revision higher than any before and no
  other row has changed; otherwise the answer is a mismatch that names the revision of the row, and the store is what it was, or the row is gone and
  the call throws.
\<close>

theorem putIfMatch_no_lost_update:
  assumes "reachable_store s" "getWithRevision kind i s = Some (x, rv)" "store_step\<^sup>*\<^sup>* s s'"
    and "extractId ident (encodeForWrite kind y s') kind = Inr i"
  shows "((\<exists>rv' s''. putIfMatch ident kind y rv s' = Inr (Written rv', s'')) \<longleftrightarrow> getWithRevision kind i s' = Some (x, rv)) \<and>
    (case putIfMatch ident kind y rv s' of
       Inl z \<Rightarrow> z = PutOnAbsent kind i \<and> getWithRevision kind i s' = None
     | Inr (RevisionMismatch rv', s'') \<Rightarrow> s'' = s' \<and> rv' \<noteq> rv \<and> (\<exists>x'. getWithRevision kind i s' = Some (x', rv'))
     | Inr (Written rv', s'') \<Rightarrow>
         getWithRevision kind i s'' = Some (encodeForWrite kind y s', rv') \<and> revisionCounter s' < rv' \<and>
         (\<forall>k j. (k, j) \<noteq> (kind, i) \<longrightarrow> find_row s'' k j = find_row s' k j))"
proof -
  obtain r where r: "find_row s kind i = Some r" "row_data r = x" "row_rv r = rv"
    using assms(2) unfolding getWithRevision_def by auto
  have same: "r' = r" if "find_row s' kind i = Some r'" "row_rv r' = rv" for r'
    using same_revision_same_row [OF _ steps_evolve [OF assms(3)] r(1) that(1)] reachable_store_ok [OF assms(1)] r(3) that(2)
    by simp
  show ?thesis
  proof (cases "find_row s' kind i")
    case None
    with assms(4) show ?thesis by (simp add: putIfMatch_def Let_def getWithRevision_def)
  next
    case (Some r')
    show ?thesis
    proof (cases "row_rv r' = rv")
      case True
      with same [OF Some] r Some assms(4) show ?thesis by (simp add: putIfMatch_def Let_def getWithRevision_def store_simps)
    next
      case False
      with Some assms(4) show ?thesis by (auto simp: putIfMatch_def Let_def getWithRevision_def)
    qed
  qed
qed

theorem putIfMatch_no_lost_update_witness:
  "(\<exists>rv s''. putIfMatch Some ''K'' ''b'' 2 (write_row ''K'' ''c'' ''c'' demo_store) = Inr (Written rv, s'')) \<and>
   \<not> (\<exists>rv s''. putIfMatch Some ''K'' ''b'' 2 (write_row ''K'' ''b'' ''z'' demo_store) = Inr (Written rv, s''))"
proof -
  have read: "getWithRevision ''K'' ''b'' demo_store = Some (''b'', 2)" by code_simp
  have steps: "store_step\<^sup>*\<^sup>* demo_store (write_row ''K'' i ''z'' demo_store)" "store_step\<^sup>*\<^sup>* demo_store (write_row ''K'' i ''c'' demo_store)" for i
    by (rule r_into_rtranclp, rule st_write)+
  have ids: "extractId Some (encodeForWrite ''K'' ''b'' (write_row ''K'' ''c'' ''c'' demo_store)) ''K'' = Inr ''b''"
    "extractId Some (encodeForWrite ''K'' ''b'' (write_row ''K'' ''b'' ''z'' demo_store)) ''K'' = Inr ''b''" by code_simp+
  have "getWithRevision ''K'' ''b'' (write_row ''K'' ''c'' ''c'' demo_store) = Some (''b'', 2)"
    "getWithRevision ''K'' ''b'' (write_row ''K'' ''b'' ''z'' demo_store) \<noteq> Some (''b'', 2)" by code_simp+
  with conjunct1 [OF putIfMatch_no_lost_update [OF demo_store_reachable read steps(2) ids(1)]]
    conjunct1 [OF putIfMatch_no_lost_update [OF demo_store_reachable read steps(1) ids(2)]]
  show ?thesis by blast
qed

definition other_clients :: "'e substrate attempt list \<Rightarrow> bool" where
  "other_clients envs \<longleftrightarrow> (\<forall>(b, w) \<in> set envs. \<forall>s. store_step\<^sup>*\<^sup>* s (b s) \<and> store_step\<^sup>*\<^sup>* s (w s))"

lemma steps_plain: "store_step\<^sup>*\<^sup>* s s' \<Longrightarrow> plain_store s \<Longrightarrow> plain_store s'"
proof (induction rule: rtranclp_induct)
  case (step t u)
  then have "store_ok u" using store_step_ok by (auto simp: plain_store_def)
  moreover from step(2) have "writeEncoder u = None"
  proof (cases rule: store_step.cases)
    case (st_delete k i)
    then show ?thesis using step
      by (cases "find_row t k i") (auto simp: plain_store_def delete_op_def Let_def emit_def)
  next
    case (st_batch ps rvs evs s')
    then show ?thesis using step write_batch_feed [OF st_batch(2)] by (simp add: plain_store_def store_simps)
  qed (use step in \<open>simp add: plain_store_def store_simps\<close>)
  ultimately show ?case by (simp add: plain_store_def)
qed

lemma other_clients_fair: "other_clients envs \<Longrightarrow> cas_store.fair plain_store evolves envs"
  unfolding other_clients_def cas_sub.fair_def
  by (fastforce intro: steps_plain steps_evolve)

text \<open>The stores the loop can be left in when it writes nothing: those the other clients make.\<close>

fun left_by_others :: "'s attempt list \<Rightarrow> 's \<Rightarrow> 's set" where
  "left_by_others [] s = {s}"
| "left_by_others ((b, w) # envs) s = {b s, w (b s)} \<union> left_by_others envs (w (b s))"

lemma cas_row_false: "cas_row ident kind y rv s = (a, s') \<Longrightarrow> a \<noteq> Inr True \<Longrightarrow> s' = s"
  by (auto simp: cas_row_def putIfMatch_def Let_def res_bind_Inr_iff split: sum.splits option.splits if_splits prod.splits put_result.splits)

lemma loop_writes_nothing:
  assumes "cas_loop (getWithRevision kind i) (cas_row ident kind) f envs s = (out, s')" "\<And>y. out \<noteq> CasDone y"
  shows "s' \<in> left_by_others envs s \<and> (out = CasMissing \<longrightarrow> getWithRevision kind i s' = None) \<and>
    (\<forall>err. out = CasFailed err \<longrightarrow> (\<exists>x rv. getWithRevision kind i s' = Some (x, rv) \<and> f s' x rv = Inl err))"
  using assms
proof (induction envs arbitrary: s)
  case (Cons env envs)
  obtain b w where env: "env = (b, w)" by (cases env)
  show ?case
  proof (cases "getWithRevision kind i (b s)")
    case None
    with Cons.prems show ?thesis by (auto simp: env)
  next
    case (Some xr)
    obtain x rv where xr: "xr = (x, rv)" by (cases xr)
    show ?thesis
    proof (cases "f (b s) x rv")
      case (Inl err)
      with Cons.prems Some xr show ?thesis by (auto simp: env)
    next
      case (Inr y)
      obtain a t where a: "cas_row ident kind y rv (w (b s)) = (a, t)" by (cases "cas_row ident kind y rv (w (b s))")
      consider z where "a = Inl z" | "a = Inr True" | "a = Inr False" by (cases a) auto
      then show ?thesis
      proof cases
        case 3
        then have t: "t = w (b s)" using cas_row_false [OF a] by simp
        have "cas_loop (getWithRevision kind i) (cas_row ident kind) f envs (w (b s)) = (out, s')"
          using Cons.prems(1) Some xr Inr a 3 t by (simp add: env)
        from Cons.IH [OF this Cons.prems(2)] show ?thesis by (simp add: env)
      qed (use Cons.prems Some xr Inr a cas_row_false [OF a] in \<open>auto simp: env\<close>)
    qed
  qed
qed simp

text \<open>
  C32: the repositories' update loop is linearizable.  Whatever other clients do to the store before and between the loop's reads and
  writes (any number of writes, deletes, batches, in every one of its attempts): when the loop reports success there is a moment at which the
  row still held exactly the contents the new contents were computed from and at which the new contents replaced them in one
  write, and no concurrent update of the row is overwritten; when it reports anything else it has written nothing, the store is one the
  others left, without the row if that is the report, and with a row the transform refuses if that is.
\<close>

theorem update_loop_linearizable:
  assumes "plain_store s" "other_clients envs" "i \<noteq> []" "kind \<noteq> ''Counter''"
    and "\<And>s x rv y. f s x rv = Inr y \<Longrightarrow> ident y = Some i"
    and "cas_loop (getWithRevision kind i) (cas_row ident kind) f envs s = (out, s')"
  shows "case out of
      CasDone y \<Rightarrow> (\<exists>sr sw x rv. evolves s sr \<and> evolves sr sw \<and> getWithRevision kind i sr = Some (x, rv) \<and>
        f sr x rv = Inr y \<and> getWithRevision kind i sw = Some (x, rv) \<and> s' = write_row kind i y sw)
    | CasMissing \<Rightarrow> s' \<in> left_by_others envs s \<and> getWithRevision kind i s' = None
    | CasFailed err \<Rightarrow> s' \<in> left_by_others envs s \<and> (\<exists>x rv. getWithRevision kind i s' = Some (x, rv) \<and> f s' x rv = Inl err)
    | CasThrew z \<Rightarrow> s' \<in> left_by_others envs s
    | CasExhausted \<Rightarrow> s' \<in> left_by_others envs s"
proof (cases out)
  case (CasDone y)
  note run = assms(6) [unfolded CasDone]
  have fair: "cas_store.fair plain_store evolves envs"
    using assms(2) by (rule other_clients_fair)
  have good: "\<And>s x rv y. f s x rv = Inr y \<Longrightarrow> ident y = Some i \<and> i \<noteq> [] \<and> kind \<noteq> ''Counter''"
    using assms(3-5) by blast
  obtain sr sw x rv where l: "evolves s sr" "evolves sr sw" "plain_store sw"
      "getWithRevision kind i sr = Some (x, rv)" "f sr x rv = Inr y" "getWithRevision kind i sw = Some (x, rv)"
      "cas_row ident kind y rv sw = (Inr True, s')"
  proof -
    have "\<exists>sr sw x rv. evolves s sr \<and> plain_store sr \<and> evolves sr sw \<and> plain_store sw \<and>
        getWithRevision kind i sr = Some (x, rv) \<and> f sr x rv = Inr y \<and>
        getWithRevision kind i sw = Some (x, rv) \<and> cas_row ident kind y rv sw = (Inr True, s')"
      by (rule cas_sub.loop_linearizable [OF run assms(1) fair]) (rule good)
    then show ?thesis using that by blast
  qed
  have y: "ident y = Some i" using l(5) by (rule assms(5))
  obtain r where r: "find_row sw kind i = Some r" "row_rv r = rv"
    using l(6) unfolding getWithRevision_def by auto
  have "s' = write_row kind i y sw"
    using l(7) putIfMatch_found [where ident = ident, OF l(3) y assms(3,4) r(1), of rv] r(2)
    by (simp add: cas_row_def)
  with l CasDone show ?thesis by auto
qed (use loop_writes_nothing [OF assms(6)] in auto)

theorem update_loop_linearizable_witness:
  "\<exists>sw rv. getWithRevision ''K'' ''b'' sw = Some (''z'', rv) \<and>
     snd (cas_loop (getWithRevision ''K'' ''b'') (cas_row (\<lambda>_. Some ''b'') ''K'') (\<lambda>s x rv. Inr (x @ ''!'') :: unit + string)
            [(\<lambda>s. s, \<lambda>s. write_row ''K'' ''b'' ''z'' s), (\<lambda>s. s, \<lambda>s. s)] demo_store)
       = write_row ''K'' ''b'' ''z!'' sw"
proof -
  let ?f = "\<lambda>s x rv. Inr (x @ ''!'') :: unit + string"
  let ?envs = "[(\<lambda>s. s, \<lambda>s. write_row ''K'' ''b'' ''z'' s), (\<lambda>s. s, \<lambda>s. s)]"
  let ?loop = "cas_loop (getWithRevision ''K'' ''b'') (cas_row (\<lambda>_. Some ''b'') ''K'') ?f ?envs demo_store"
  have plain: "plain_store demo_store"
  proof -
    have "writeEncoder demo_store = None" by code_simp
    then show ?thesis using reachable_store_ok [OF demo_store_reachable] by (simp add: plain_store_def)
  qed
  have envs: "other_clients ?envs" by (auto simp: other_clients_def intro: st_write)
  have fin: "fst ?loop = CasDone ''z!''" by code_simp
  then have "?loop = (CasDone ''z!'', snd ?loop)" by (metis prod.collapse)
  from update_loop_linearizable [OF plain envs _ _ _ this] show ?thesis
    by auto
qed

lemma putBatchIfMatch_Written:
  assumes "writeEncoder s = None" "putBatchIfMatch ident es s = Inr (BatchWritten rvs, s')"
    and "''Counter'' \<notin> fst ` set es"
  obtains ps where "map (\<lambda>(k, i, e). (k, e)) ps = map (\<lambda>(k, e, rv). (k, e)) es"
    "distinct (map (\<lambda>(k, i, e). (k, i)) ps)" "\<forall>(k, i, e) \<in> set ps. ident e = Some i"
    "\<forall>((k, i, e), (_, _, rv)) \<in> set (zip ps es). map_option row_rv (find_row s k i) = Some rv"
    "find_row s' = find_row (snd (write_batch ps s))"
proof (cases "es = []")
  case True
  with assms(2) have "s' = s" by (simp add: putBatchIfMatch_def)
  with True that [of "[]"] show ?thesis by simp
next
  case False
  then obtain ps where ps: "prepare_batch ident (map (\<lambda>(k, e, rv). (k, e)) es) s = Inr ps"
      "distinct (map (\<lambda>(k, i, e). entry_key k i) ps)"
      "batch_conflicts ps es s = []"
      "find_row s' = find_row (snd (write_batch ps s))"
    using assms(2)
    by (auto simp: putBatchIfMatch_def Let_def res_bind_Inr_iff store_simps split: if_splits prod.splits)
  have eq: "map (\<lambda>(k, i, e). (k, e)) ps = map (\<lambda>(k, e, rv). (k, e)) es"
    using prepare_batch_plain [OF assms(1) ps(1)] .
  have "k \<noteq> ''Counter''" if "(k, i, e) \<in> set ps" for k i e
  proof -
    have "(k, e) \<in> set (map (\<lambda>(k, i, e). (k, e)) ps)" using that by force
    then show ?thesis using assms(3) unfolding eq by force
  qed
  then have ids: "\<forall>(k, i, e) \<in> set ps. ident e = Some i"
    using prepare_batch_ids [OF assms(1) ps(1)] by blast
  have "\<forall>((k, i, e), (_, _, rv)) \<in> set (zip ps es). map_option row_rv (find_row s k i) = Some rv"
    using ps(3) unfolding batch_conflicts_def by (fastforce split: if_splits)
  from that [OF eq distinct_entry_keys [OF ps(2)] ids this ps(4)] show ?thesis .
qed

text \<open>
  A batch write is all or nothing.  \<open>putBatchIfMatch\<close> either answers with conflicts, errors, or
  writes; it writes exactly when every named row is at the revision the entry expects, and
  then every named row holds its entry and no other row has changed.  When it reports conflicts the
  store is untouched and there is at least one.
\<close>

theorem putBatchIfMatch_atomic:
  assumes "writeEncoder s = None" "putBatchIfMatch ident es s = Inr (out, s')"
    and "''Counter'' \<notin> fst ` set es"
  shows "case out of
      BatchMismatch cs \<Rightarrow> s' = s \<and> cs \<noteq> [] \<and>
        (\<forall>(k, i, rv, actual) \<in> set cs. actual = map_option row_rv (find_row s k i) \<and> actual \<noteq> Some rv)
    | BatchWritten rvs \<Rightarrow>
        (\<forall>(k, e, rv) \<in> set es. \<exists>i. ident e = Some i \<and>
           map_option row_rv (find_row s k i) = Some rv \<and> map_option row_data (find_row s' k i) = Some e) \<and>
        (\<forall>k i. (\<forall>(k', e, rv) \<in> set es. \<not> (k' = k \<and> ident e = Some i)) \<longrightarrow> find_row s' k i = find_row s k i)"
proof (cases out)
  case (BatchMismatch cs)
  with assms(2) obtain ps where s': "s' = s" and ne: "cs \<noteq> []" and
      cs: "cs = batch_conflicts ps es s"
    by (auto simp: putBatchIfMatch_def Let_def res_bind_Inr_iff split: if_splits prod.splits)
  have "\<forall>(k, i, rv, actual) \<in> set cs. actual = map_option row_rv (find_row s k i) \<and> actual \<noteq> Some rv"
    unfolding cs batch_conflicts_def by (auto split: if_splits)
  with s' ne BatchMismatch show ?thesis by simp
next
  case (BatchWritten rvs)
  obtain ps where ps: "map (\<lambda>(k, i, e). (k, e)) ps = map (\<lambda>(k, e, rv). (k, e)) es"
    "distinct (map (\<lambda>(k, i, e). (k, i)) ps)" "\<forall>(k, i, e) \<in> set ps. ident e = Some i"
    "\<forall>((k, i, e), (_, _, rv)) \<in> set (zip ps es). map_option row_rv (find_row s k i) = Some rv"
    "find_row s' = find_row (snd (write_batch ps s))"
    using putBatchIfMatch_Written [OF assms(1) assms(2) [unfolded BatchWritten] assms(3)] by blast
  have written: "\<exists>i. ident e = Some i \<and> map_option row_rv (find_row s k i) = Some rv \<and>
      map_option row_data (find_row s' k i) = Some e" if mem: "(k, e, rv) \<in> set es" for k e rv
  proof -
    obtain x where x: "x \<in> set ps" "(x, (k, e, rv)) \<in> set (zip ps es)" "(\<lambda>(k, i, e). (k, e)) x = (k, e)"
      using zip_same_image [OF ps(1) mem, unfolded split_conv] by (elim bexE conjE)
    obtain i where "x = (k, i, e)" using x(3) by (cases x) auto
    with x have x: "(k, i, e) \<in> set ps" "((k, i, e), (k, e, rv)) \<in> set (zip ps es)" by auto
    have "ident e = Some i" using bspec [OF ps(3) x(1)] by simp
    moreover have "map_option row_rv (find_row s k i) = Some rv" using bspec [OF ps(4) x(2)] by simp
    moreover have "map_option row_data (find_row s' k i) = Some e"
      using write_batch_written [OF ps(2) x(1)] ps(5) by simp
    ultimately show ?thesis by blast
  qed
  have kept: "find_row s' k i = find_row s k i"
    if "\<forall>(k', e, rv) \<in> set es. \<not> (k' = k \<and> ident e = Some i)" for k i
  proof -
    have "(k, i) \<notin> set (map (\<lambda>(k, i, e). (k, i)) ps)"
    proof
      assume "(k, i) \<in> set (map (\<lambda>(k, i, e). (k, i)) ps)"
      then obtain e where e: "(k, i, e) \<in> set ps" by auto
      then have "(k, e) \<in> set (map (\<lambda>(k, i, e). (k, e)) ps)" by force
      with ps(1) obtain rv where "(k, e, rv) \<in> set es" by auto
      with that ps(3) e show False by fastforce
    qed
    then show ?thesis using write_batch_rows [of ps s k i] ps(5) by (simp split: if_splits)
  qed
  show ?thesis using BatchWritten written kept by auto
qed

theorem putBatchIfMatch_atomic_witness:
  "\<exists>rvs s'. putBatchIfMatch Some [(''K'', ''b'', 2), (''K'', ''c'', 3)] (write_row ''K'' ''c'' ''c'' (write_row ''K'' ''b'' ''b'' empty_substrate))
      = Inr (BatchMismatch rvs, s') \<and> rvs \<noteq> []"
proof -
  let ?s = "write_row ''K'' ''c'' ''c'' (write_row ''K'' ''b'' ''b'' empty_substrate)"
  let ?r = "putBatchIfMatch Some [(''K'', ''b'', 2), (''K'', ''c'', 3)] ?s"
  have "map_sum id fst ?r = Inr (BatchMismatch [(''K'', ''b'', 2, Some 1), (''K'', ''c'', 3, Some 2)])"
    by code_simp
  then obtain s' where r: "?r = Inr (BatchMismatch [(''K'', ''b'', 2, Some 1), (''K'', ''c'', 3, Some 2)], s')"
    by (cases ?r) auto
  have "writeEncoder ?s = None" by code_simp
  from putBatchIfMatch_atomic [OF this r] r show ?thesis by simp
qed

text \<open>
  Resuming a watch.  A client that mirrors the rows of a kind as they were at revision
  \<open>n\<close> and then applies the replay since \<open>n\<close> has every row of the kind as it is now; the only
  entries of its mirror that are not current are rows deleted since, which the replay
  does not report.
\<close>

theorem watch_resume:
  assumes "reachable_store s" "store_step\<^sup>*\<^sup>* s s'"
  shows "fold apply_event (watch_replay kind (\<lambda>_. True) (revisionCounter s) s') (find_row s) kind i =
    (if find_row s' kind i = None then find_row s kind i else find_row s' kind i)"
proof -
  have "reachable_store s'" using assms unfolding reachable_store_def by (rule rtranclp_trans)
  then have ok: "store_ok s'" using reachable_store_ok by blast
  have "find_row s' kind i = Some r \<Longrightarrow> \<not> revisionCounter s < row_rv r \<Longrightarrow> find_row s kind i = Some r" for r
    using steps_evolve [OF assms(2)] by (simp add: evolves_def)
  then show ?thesis
    by (simp add: replay_rows [OF ok] split: option.splits)
qed

theorem watch_resume_witness:
  "find_row (write_row ''K'' ''b'' ''new'' demo_store) ''K'' ''b''
     = fold apply_event (watch_replay ''K'' (\<lambda>_. True) 3 (write_row ''K'' ''b'' ''new'' demo_store)) (find_row demo_store) ''K'' ''b''"
proof -
  let ?s = "write_row ''K'' ''b'' ''new'' demo_store"
  have st: "store_step\<^sup>*\<^sup>* demo_store ?s"
    by (rule r_into_rtranclp) (rule st_write)
  have ne: "(find_row ?s ''K'' ''b'' = None) = False" by (simp add: write_row_fields)
  have rc: "revisionCounter demo_store = 3" by code_simp
  show ?thesis
    using watch_resume [OF demo_store_reachable st, of "''K''" "''b''"] unfolding ne rc if_False by (rule sym)
qed

end
