(* ===== verification/Canonical_Json.thy ===== *)
theory Canonical_Json
  imports Prelude
begin

text \<open>
  The canonical JSON printer of the work-item contract (\<open>hub/src/entities/work-item-contract-v4.ts\<close>,
  \<open>canonicalize\<close>, \<open>canonicalJson\<close>, \<open>hashCanonicalDomain\<close>): the text every domain-separated hash of
  the hub is taken over.  A JSON value is a finite tree, so the cycle and sparse-array guards of the
  source cannot fire; numbers are the safe integers the hub stores; strings are sequences of
  8-bit characters, on which the surrogate guard cannot fire either.  SHA-256 (Node's
  crypto library) is the parameter \<open>sha\<close>.

  The lemmas show that the text depends on an object only through its set of members (never
  on the order they were inserted in), at every depth.
\<close>

datatype json =
    JNull
  | JBool bool
  | JNum int
  | JStr string
  | JArr "json list"
  | JObj "(string \<times> json) list"

section \<open>Printing\<close>

fun show_nat :: "nat \<Rightarrow> string" where
  "show_nat n =
     (if n < 10 then [char_of (48 + n)] else show_nat (n div 10) @ [char_of (48 + n mod 10)])"

declare show_nat.simps [simp del]

definition show_int :: "int \<Rightarrow> string" where
  "show_int i = (if i < 0 then CHR ''-'' # show_nat (nat (- i)) else show_nat (nat i))"

definition hex_digit :: "nat \<Rightarrow> char" where
  "hex_digit n = (if n < 10 then char_of (48 + n) else char_of (87 + n))"

text \<open>\<open>JSON.stringify\<close> of one character inside a string literal.\<close>

definition escape_char :: "char \<Rightarrow> string" where
  "escape_char c =
     (if c = CHR 0x22 then [CHR 0x5C, CHR 0x22]
      else if c = CHR 0x5C then [CHR 0x5C, CHR 0x5C]
      else if c = CHR 0x08 then [CHR 0x5C, CHR ''b'']
      else if c = CHR 0x0C then [CHR 0x5C, CHR ''f'']
      else if c = CHR 0x0A then [CHR 0x5C, CHR ''n'']
      else if c = CHR 0x0D then [CHR 0x5C, CHR ''r'']
      else if c = CHR 0x09 then [CHR 0x5C, CHR ''t'']
      else if (of_char c :: nat) < 32
        then [CHR 0x5C, CHR ''u'', CHR ''0'', CHR ''0'',
              hex_digit (of_char c div 16), hex_digit (of_char c mod 16)]
      else [c])"

definition json_string :: "string \<Rightarrow> string" where
  "json_string s = CHR 0x22 # concat (map escape_char s) @ [CHR 0x22]"

fun join_comma :: "string list \<Rightarrow> string" where
  "join_comma [] = []"
| "join_comma [x] = x"
| "join_comma (x # xs) = x @ CHR '','' # join_comma xs"

fun canonicalize :: "json \<Rightarrow> string" where
  "canonicalize JNull = ''null''"
| "canonicalize (JBool b) = (if b then ''true'' else ''false'')"
| "canonicalize (JNum i) = show_int i"
| "canonicalize (JStr s) = json_string s"
| "canonicalize (JArr vs) = CHR ''['' # join_comma (map canonicalize vs) @ '']''"
| "canonicalize (JObj kvs) =
     CHR ''{'' #
       join_comma (map (\<lambda>(k, t). json_string k @ CHR '':'' # t)
         (sort_key fst (map (\<lambda>(k, v). (k, canonicalize v)) kvs)))
     @ ''}''"

definition canonicalJson :: "json \<Rightarrow> string" where
  "canonicalJson v = canonicalize v"

definition hashCanonicalDomain :: "(string \<Rightarrow> string) \<Rightarrow> string \<Rightarrow> json \<Rightarrow> string" where
  "hashCanonicalDomain sha domain v = sha (domain @ CHR 0x00 # canonicalJson v)"

text \<open>\<open>v.k\<close> on an unknown value: undefined unless \<open>v\<close> is an object that has the member.\<close>

fun json_member :: "json \<Rightarrow> string \<Rightarrow> json option" where
  "json_member (JObj kvs) k = map_of kvs k"
| "json_member _ k = None"

section \<open>The normal form of a value\<close>

text \<open>
  The value with the members of every object in key order.  Two values have the same normal form
  exactly when they are the same JSON data up to the order of object members, at any depth.
\<close>

fun normalise :: "json \<Rightarrow> json" where
  "normalise (JArr vs) = JArr (map normalise vs)"
| "normalise (JObj kvs) = JObj (sort_key fst (map (\<lambda>(k, v). (k, normalise v)) kvs))"
| "normalise v = v"

lemma insort_key_map_fst:
  "insort_key fst (k, f v) (map (\<lambda>(k, v). (k, f v)) xs) = map (\<lambda>(k, v). (k, f v)) (insort_key fst (k, v) xs)"
  by (induction xs) auto

lemma sort_key_map_fst:
  "sort_key fst (map (\<lambda>(k, v). (k, f v)) xs) = map (\<lambda>(k, v). (k, f v)) (sort_key fst xs)"
  by (induction xs) (auto simp: insort_key_map_fst)

lemma sort_key_distinct_mset:
  assumes "mset xs = mset ys" and "distinct (map f ys)"
  shows "sort_key f xs = sort_key f ys"
proof (rule sort_key_inj_key_eq)
  show "mset xs = mset (sort_key f ys)" using assms(1) by simp
  show "inj_on f (set xs)"
    using assms by (simp add: distinct_map mset_eq_setD [OF assms(1)])
qed simp

lemma normalise_obj_permute:
  assumes "mset kvs = mset kws" and "distinct (map fst kws)"
  shows "normalise (JObj kvs) = normalise (JObj kws)"
proof -
  have "sort_key fst kvs = sort_key fst kws"
    using assms by (rule sort_key_distinct_mset)
  then show ?thesis
    by (simp add: sort_key_map_fst)
qed

text \<open>One member of an object as it is printed.\<close>

definition print_member :: "string \<times> json \<Rightarrow> string" where
  "print_member m = json_string (fst m) @ CHR '':'' # canonicalize (snd m)"

lemma canonicalize_obj:
  "canonicalize (JObj kvs) = CHR ''{'' # join_comma (map print_member (sort_key fst kvs)) @ ''}''"
proof -
  have "map (\<lambda>(k, t). json_string k @ CHR '':'' # t) (sort_key fst (map (\<lambda>(k, v). (k, canonicalize v)) kvs))
    = map print_member (sort_key fst kvs)"
    unfolding sort_key_map_fst by (simp add: print_member_def case_prod_unfold)
  then show ?thesis by simp
qed

lemma normalise_obj:
  "normalise (JObj kvs) = JObj (map (\<lambda>(k, v). (k, normalise v)) (sort_key fst kvs))"
  by (simp add: sort_key_map_fst)

section \<open>Unique readability\<close>

text \<open>
  A printed value can be followed only by the end of the text or by a separator; under that
  condition the text determines the value and where it ends.
\<close>

definition delim :: "string \<Rightarrow> bool" where
  "delim r \<longleftrightarrow> r = [] \<or> hd r \<in> {CHR '','', CHR '']'', CHR ''}''}"

lemma delim_Cons [simp]: "delim (c # r) \<longleftrightarrow> c \<in> {CHR '','', CHR '']'', CHR ''}''}"
  by (simp add: delim_def)

definition is_digit :: "char \<Rightarrow> bool" where
  "is_digit c \<longleftrightarrow> 48 \<le> (of_char c :: nat) \<and> (of_char c :: nat) \<le> 57"

lemma delim_not_digit: "delim r \<Longrightarrow> r = [] \<or> \<not> is_digit (hd r)"
  by (auto simp: delim_def is_digit_def)

definition digits_val :: "string \<Rightarrow> nat" where
  "digits_val = foldl (\<lambda>n c. 10 * n + (of_char c - 48)) 0"

lemma show_nat_digits: "\<forall>c \<in> set (show_nat n). is_digit c"
proof (induction n rule: show_nat.induct)
  case (1 n)
  then show ?case
    by (subst show_nat.simps) (auto simp: is_digit_def)
qed

lemma show_nat_nonempty: "show_nat n \<noteq> []"
  by (subst show_nat.simps) simp

lemma digits_val_show_nat: "digits_val (show_nat n) = n"
proof (induction n rule: show_nat.induct)
  case (1 n)
  show ?case
  proof (cases "n < 10")
    case True
    then show ?thesis
      by (subst show_nat.simps) (simp add: digits_val_def)
  next
    case False
    with "1" have "foldl (\<lambda>n c. 10 * n + (of_char c - 48)) 0 (show_nat (n div 10)) = n div 10"
      by (simp add: digits_val_def)
    moreover have "n mod 10 < 10" by simp
    ultimately show ?thesis
      using False by (subst show_nat.simps) (simp add: digits_val_def)
  qed
qed

lemma takeWhile_digits: "\<forall>c \<in> set ds. P c \<Longrightarrow> r = [] \<or> \<not> P (hd r) \<Longrightarrow> takeWhile P (ds @ r) = ds"
  by (induction ds) (cases r; auto)+

lemma show_nat_unique:
  assumes "show_nat m @ r = show_nat n @ r'" "delim r" "delim r'"
  shows "m = n \<and> r = r'"
proof -
  have "takeWhile is_digit (show_nat m @ r) = show_nat m"
    by (rule takeWhile_digits) (use assms(2) in \<open>simp_all add: show_nat_digits delim_not_digit\<close>)
  moreover have "takeWhile is_digit (show_nat n @ r') = show_nat n"
    by (rule takeWhile_digits) (use assms(3) in \<open>simp_all add: show_nat_digits delim_not_digit\<close>)
  ultimately have eq: "show_nat m = show_nat n" using assms(1) by metis
  then have "m = n" by (metis digits_val_show_nat)
  with assms(1) show ?thesis by simp
qed

lemma show_nat_hd: "is_digit (hd (show_nat n))"
  using show_nat_digits [of n] show_nat_nonempty [of n] by auto

lemma show_int_unique:
  assumes "show_int i @ r = show_int j @ r'" "delim r" "delim r'"
  shows "i = j \<and> r = r'"
proof -
  have nd: "show_nat m @ s \<noteq> CHR ''-'' # t" for m s t
    using show_nat_hd [of m] show_nat_nonempty [of m]
    by (cases "show_nat m") (auto simp: is_digit_def)
  show ?thesis
  proof (cases "i < 0"; cases "j < 0")
    assume "i < 0" "j < 0"
    with assms show ?thesis using show_nat_unique [of "nat (- i)" r "nat (- j)" r']
      by (auto simp: show_int_def)
  next
    assume "\<not> i < 0" "\<not> j < 0"
    with assms show ?thesis using show_nat_unique [of "nat i" r "nat j" r']
      by (auto simp: show_int_def)
  qed (use assms nd in \<open>auto simp: show_int_def dest: sym\<close>)
qed

text \<open>Reading one escaped character back.\<close>

definition hex_val :: "char \<Rightarrow> nat" where
  "hex_val c = (if (of_char c :: nat) < 58 then of_char c - 48 else of_char c - 87)"

lemma hex_val_digit: "n < 16 \<Longrightarrow> hex_val (hex_digit n) = n"
  by (auto simp: hex_val_def hex_digit_def)

fun unescape :: "string \<Rightarrow> (char \<times> string) option" where
  "unescape [] = None"
| "unescape (c # cs) =
     (if c \<noteq> CHR 0x5C then Some (c, cs)
      else case cs of
        [] \<Rightarrow> None
      | e # rest \<Rightarrow>
          if e = CHR 0x22 \<or> e = CHR 0x5C then Some (e, rest)
          else if e = CHR ''b'' then Some (CHR 0x08, rest)
          else if e = CHR ''f'' then Some (CHR 0x0C, rest)
          else if e = CHR ''n'' then Some (CHR 0x0A, rest)
          else if e = CHR ''r'' then Some (CHR 0x0D, rest)
          else if e = CHR ''t'' then Some (CHR 0x09, rest)
          else Some (char_of (16 * hex_val (rest ! 2) + hex_val (rest ! 3)), drop 4 rest))"

lemma unescape_escape: "unescape (escape_char c @ r) = Some (c, r)"
proof -
  have "(of_char c :: nat) < 32 \<Longrightarrow> 16 * hex_val (hex_digit (of_char c div 16)) + hex_val (hex_digit (of_char c mod 16)) = of_char c"
    by (subst (1 2) hex_val_digit) (auto simp: less_mult_imp_div_less)
  then show ?thesis
    by (auto simp: escape_char_def)
qed

lemma escape_no_quote: "\<exists>d ds. escape_char c = d # ds \<and> d \<noteq> CHR 0x22"
  by (auto simp: escape_char_def)

lemma json_string_unique:
  assumes "json_string s @ r = json_string t @ r'"
  shows "s = t \<and> r = r'"
proof -
  have "concat (map escape_char s) @ CHR 0x22 # r = concat (map escape_char t) @ CHR 0x22 # r'"
    using assms by (simp add: json_string_def)
  then show ?thesis
  proof (induction s arbitrary: t)
    case Nil
    then show ?case
      using escape_no_quote by (cases t) (auto, metis append_Cons list.inject)
  next
    case (Cons c s)
    show ?case
    proof (cases t)
      case Nil
      with Cons.prems escape_no_quote [of c] show ?thesis by auto
    next
      case (Cons d t')
      with Cons.prems have eq: "escape_char c @ (concat (map escape_char s) @ CHR 0x22 # r)
          = escape_char d @ (concat (map escape_char t') @ CHR 0x22 # r')"
        by simp
      from arg_cong [OF eq, of unescape] have "c = d"
        and "concat (map escape_char s) @ CHR 0x22 # r = concat (map escape_char t') @ CHR 0x22 # r'"
        by (simp_all add: unescape_escape)
      with Cons.IH [of t'] Cons show ?thesis by simp
    qed
  qed
qed

text \<open>
  Comma-separated lists: if each element is read back uniquely, so is the list up to its
  closing bracket.
\<close>

definition reads_back :: "('a \<Rightarrow> string) \<Rightarrow> ('a \<Rightarrow> 'b) \<Rightarrow> 'a \<Rightarrow> bool" where
  "reads_back e g x \<longleftrightarrow> (\<forall>y r r'. e x @ r = e y @ r' \<longrightarrow> delim r \<longrightarrow> delim r' \<longrightarrow> g x = g y \<and> r = r')"

lemma reads_backD:
  "reads_back e g x \<Longrightarrow> e x @ r = e y @ r' \<Longrightarrow> delim r \<Longrightarrow> delim r' \<Longrightarrow> g x = g y \<and> r = r'"
  unfolding reads_back_def by blast

lemma join_comma_Cons: "join_comma (x # xs) = x @ concat (map (\<lambda>y. CHR '','' # y) xs)"
  by (induction xs arbitrary: x) auto

lemma comma_tail_unique:
  assumes "\<forall>x \<in> set xs. reads_back e g x" and "c = CHR '']'' \<or> c = CHR ''}''"
    and "concat (map (\<lambda>y. CHR '','' # y) (map e xs)) @ c # r = concat (map (\<lambda>y. CHR '','' # y) (map e ys)) @ c # r'"
  shows "map g xs = map g ys \<and> r = r'"
  using assms
proof (induction xs arbitrary: ys)
  case Nil
  then show ?case by (cases ys) auto
next
  case (Cons x xs)
  have c: "c \<noteq> CHR '',''" using Cons.prems(2) by auto
  show ?case
  proof (cases ys)
    case Nil
    with Cons.prems(3) c show ?thesis by auto
  next
    case (Cons y ys')
    let ?t = "concat (map (\<lambda>y. CHR '','' # y) (map e xs)) @ c # r"
    let ?t' = "concat (map (\<lambda>y. CHR '','' # y) (map e ys')) @ c # r'"
    have "e x @ ?t = e y @ ?t'" using Cons.prems(3) Cons by simp
    moreover have "delim ?t" using Cons.prems(2) by (cases xs) auto
    moreover have "delim ?t'" using Cons.prems(2) by (cases ys') auto
    ultimately have "g x = g y" "?t = ?t'"
      using Cons.prems(1) by (auto dest: reads_backD)
    moreover from \<open>?t = ?t'\<close> have "map g xs = map g ys' \<and> r = r'"
      using Cons.IH Cons.prems(1,2) by simp
    ultimately show ?thesis using Cons by simp
  qed
qed

lemma join_comma_unique:
  assumes rb: "\<forall>x \<in> set xs. reads_back e g x" and c: "c = CHR '']'' \<or> c = CHR ''}''"
    and hd: "\<forall>x. \<exists>d ds. e x = d # ds \<and> d \<noteq> c"
    and eq: "join_comma (map e xs) @ c # r = join_comma (map e ys) @ c # r'"
  shows "map g xs = map g ys \<and> r = r'"
proof (cases xs)
  case Nil
  show ?thesis
  proof (cases ys)
    case Nil
    with \<open>xs = []\<close> eq show ?thesis by simp
  next
    case (Cons y ys')
    obtain d ds where "e y = d # ds" "d \<noteq> c" using hd by blast
    with \<open>xs = []\<close> Cons eq show ?thesis by (simp add: join_comma_Cons)
  qed
next
  case (Cons x xs')
  show ?thesis
  proof (cases ys)
    case Nil
    obtain d ds where "e x = d # ds" "d \<noteq> c" using hd by blast
    with Nil Cons eq show ?thesis by (simp add: join_comma_Cons)
  next
    case (Cons y ys')
    have "concat (map (\<lambda>y. CHR '','' # y) (map e xs)) @ c # r = concat (map (\<lambda>y. CHR '','' # y) (map e ys)) @ c # r'"
      using eq Cons \<open>xs = x # xs'\<close> by (simp add: join_comma_Cons)
    then show ?thesis using comma_tail_unique [OF rb c] by blast
  qed
qed

lemma not_digit [simp]:
  "\<not> is_digit (CHR '']'')"
  "\<not> is_digit (CHR ''}'')"
  "\<not> is_digit (CHR ''-'')"
  "\<not> is_digit (CHR ''n'')"
  "\<not> is_digit (CHR ''t'')"
  "\<not> is_digit (CHR ''f'')"
  "\<not> is_digit (CHR 0x22)"
  "\<not> is_digit (CHR ''['')"
  "\<not> is_digit (CHR ''{'')"
  by (simp_all add: is_digit_def)

lemma show_int_Cons: "\<exists>d ds. show_int i = d # ds \<and> (is_digit d \<or> d = CHR ''-'')"
proof -
  have "\<exists>d ds. show_nat m = d # ds \<and> is_digit d" for m
    using show_nat_hd [of m] show_nat_nonempty [of m] by (cases "show_nat m") auto
  then have "\<exists>d ds. show_nat m = d # ds \<and> (is_digit d \<or> d = CHR ''-'')" for m by blast
  then show ?thesis by (simp add: show_int_def)
qed

text \<open>The first character tells the shape of a value.\<close>

fun lead :: "json \<Rightarrow> char \<Rightarrow> bool" where
  "lead JNull c = (c = CHR ''n'')"
| "lead (JBool b) c = (c = (if b then CHR ''t'' else CHR ''f''))"
| "lead (JNum i) c = (is_digit c \<or> c = CHR ''-'')"
| "lead (JStr s) c = (c = CHR 0x22)"
| "lead (JArr vs) c = (c = CHR ''['')"
| "lead (JObj kvs) c = (c = CHR ''{'')"

lemma canonicalize_lead: "\<exists>d ds. canonicalize v = d # ds \<and> lead v d"
  using show_int_Cons by (cases v) (auto simp: json_string_def)

lemma lead_not_close: "lead v d \<Longrightarrow> d \<noteq> CHR '']'' \<and> d \<noteq> CHR ''}''"
  by (cases v) auto

lemma canonicalize_hd: "\<exists>d ds. canonicalize v = d # ds \<and> d \<noteq> CHR '']'' \<and> d \<noteq> CHR ''}''"
  using canonicalize_lead [of v] lead_not_close by blast

lemma same_lead:
  assumes "canonicalize v @ r = canonicalize w @ r'"
  shows "\<exists>d. lead v d \<and> lead w d"
  using assms canonicalize_lead [of v] canonicalize_lead [of w] by auto

text \<open>Case analysis on two values printed with the same first character.\<close>

lemma lead_JNull: "lead w (CHR ''n'') \<longleftrightarrow> w = JNull"
  by (cases w) auto

lemma lead_true: "lead w (CHR ''t'') \<longleftrightarrow> w = JBool True"
  by (cases w) auto

lemma lead_false: "lead w (CHR ''f'') \<longleftrightarrow> w = JBool False"
  by (cases w) auto

lemma lead_JStr: "lead w (CHR 0x22) \<longleftrightarrow> (\<exists>s. w = JStr s)"
  by (cases w) auto

lemma lead_JArr: "lead w (CHR ''['') \<longleftrightarrow> (\<exists>vs. w = JArr vs)"
  by (cases w) auto

lemma lead_JObj: "lead w (CHR ''{'') \<longleftrightarrow> (\<exists>kvs. w = JObj kvs)"
  by (cases w) auto

lemma lead_JNum: "is_digit c \<or> c = CHR ''-'' \<Longrightarrow> lead w c \<Longrightarrow> \<exists>i. w = JNum i"
  by (cases w) (auto split: if_splits)

definition unique_text :: "json \<Rightarrow> bool" where
  "unique_text v \<longleftrightarrow> reads_back canonicalize normalise v"

lemma unique_textI:
  "(\<And>w r r'. canonicalize v @ r = canonicalize w @ r' \<Longrightarrow> delim r \<Longrightarrow> delim r' \<Longrightarrow> normalise v = normalise w \<and> r = r')
   \<Longrightarrow> unique_text v"
  unfolding unique_text_def reads_back_def by blast

lemma unique_member:
  assumes "unique_text (snd m)"
  shows "reads_back print_member (\<lambda>(k, v). (k, normalise v)) m"
  unfolding reads_back_def
proof (intro allI impI)
  fix m' r r'
  assume eq: "print_member m @ r = print_member m' @ r'" and d: "delim r" "delim r'"
  from eq have "fst m = fst m' \<and>
      CHR '':'' # canonicalize (snd m) @ r = CHR '':'' # canonicalize (snd m') @ r'"
    by (intro json_string_unique) (simp add: print_member_def)
  then show "(case m of (k, v) \<Rightarrow> (k, normalise v)) = (case m' of (k, v) \<Rightarrow> (k, normalise v)) \<and> r = r'"
    using assms d by (auto simp: unique_text_def case_prod_unfold dest: reads_backD)
qed

lemma print_member_hd: "\<exists>d ds. print_member m = d # ds \<and> d \<noteq> CHR ''}''"
  by (simp add: print_member_def json_string_def)

lemma unique_text_all: "unique_text v"
proof (induction v)
  case JNull
  show ?case
  proof (rule unique_textI)
    fix w r r'
    assume eq: "canonicalize JNull @ r = canonicalize w @ r'"
    from same_lead [OF eq] have w: "w = JNull" by (simp add: lead_JNull)
    with eq show "normalise JNull = normalise w \<and> r = r'" by simp
  qed
next
  case (JBool b)
  show ?case
  proof (rule unique_textI)
    fix w r r'
    assume eq: "canonicalize (JBool b) @ r = canonicalize w @ r'"
    from same_lead [OF eq] have w: "w = JBool b"
      by (cases b) (simp_all add: lead_true lead_false)
    with eq show "normalise (JBool b) = normalise w \<and> r = r'" by simp
  qed
next
  case (JNum i)
  show ?case
  proof (rule unique_textI)
    fix w r r'
    assume eq: "canonicalize (JNum i) @ r = canonicalize w @ r'" and d: "delim r" "delim r'"
    from same_lead [OF eq] obtain c where "is_digit c \<or> c = CHR ''-''" and "lead w c" by auto
    then obtain j where w: "w = JNum j" using lead_JNum by blast
    with eq d show "normalise (JNum i) = normalise w \<and> r = r'"
      by (auto dest: show_int_unique)
  qed
next
  case (JStr s)
  show ?case
  proof (rule unique_textI)
    fix w r r'
    assume eq: "canonicalize (JStr s) @ r = canonicalize w @ r'"
    from same_lead [OF eq] obtain t where w: "w = JStr t" by (auto simp: lead_JStr)
    with eq show "normalise (JStr s) = normalise w \<and> r = r'"
      by (auto dest: json_string_unique)
  qed
next
  case (JArr vs)
  show ?case
  proof (rule unique_textI)
    fix w r r'
    assume eq: "canonicalize (JArr vs) @ r = canonicalize w @ r'"
    from same_lead [OF eq] obtain ws where w: "w = JArr ws" by (auto simp: lead_JArr)
    have "map normalise vs = map normalise ws \<and> r = r'"
    proof (rule join_comma_unique)
      show "\<forall>x \<in> set vs. reads_back canonicalize normalise x"
        using JArr by (simp add: unique_text_def)
      show "\<forall>x. \<exists>d ds. canonicalize x = d # ds \<and> d \<noteq> CHR '']''"
        using canonicalize_hd by blast
      show "join_comma (map canonicalize vs) @ CHR '']'' # r = join_comma (map canonicalize ws) @ CHR '']'' # r'"
        using eq w by simp
    qed simp
    with w show "normalise (JArr vs) = normalise w \<and> r = r'" by simp
  qed
next
  case (JObj kvs)
  show ?case
  proof (rule unique_textI)
    fix w r r'
    assume eq: "canonicalize (JObj kvs) @ r = canonicalize w @ r'"
    from same_lead [OF eq] obtain kws where w: "w = JObj kws" by (auto simp: lead_JObj)
    have "map (\<lambda>(k, v). (k, normalise v)) (sort_key fst kvs) = map (\<lambda>(k, v). (k, normalise v)) (sort_key fst kws) \<and> r = r'"
    proof (rule join_comma_unique)
      show "\<forall>m \<in> set (sort_key fst kvs). reads_back print_member (\<lambda>(k, v). (k, normalise v)) m"
        using JObj by (force intro!: unique_member)
      show "\<forall>m. \<exists>d ds. print_member m = d # ds \<and> d \<noteq> CHR ''}''"
        using print_member_hd by blast
      show "join_comma (map print_member (sort_key fst kvs)) @ CHR ''}'' # r
          = join_comma (map print_member (sort_key fst kws)) @ CHR ''}'' # r'"
        using eq w by (simp add: canonicalize_obj del: canonicalize.simps)
    qed simp
    with w show "normalise (JObj kvs) = normalise w \<and> r = r'"
      by (simp add: normalise_obj del: normalise.simps)
  qed
qed

lemma canonicalize_normalise: "canonicalize (normalise v) = canonicalize v"
proof (induction v)
  case (JArr vs)
  then show ?case by (simp add: comp_def cong: map_cong)
next
  case (JObj kvs)
  let ?S = "sort_key fst kvs" and ?n = "\<lambda>(k, v). (k, normalise v)"
  have pm: "map print_member (map ?n ?S) = map print_member ?S"
    using JObj by (force simp: print_member_def)
  have srt: "sort_key fst (map ?n ?S) = map ?n ?S"
    by (simp add: sort_key_map_fst sort_key_id_if_sorted)
  show ?case
    unfolding normalise_obj canonicalize_obj srt pm ..
qed simp_all

text \<open>
  The canonical text identifies JSON data up to the order of object members, and nothing more.
\<close>

lemma canonicalJson_eq_iff: "canonicalJson v = canonicalJson w \<longleftrightarrow> normalise v = normalise w"
proof
  assume "canonicalJson v = canonicalJson w"
  then have "canonicalize v @ [] = canonicalize w @ []"
    by (simp add: canonicalJson_def)
  moreover have "delim []" by (simp add: delim_def)
  ultimately show "normalise v = normalise w"
    using unique_text_all [of v] unfolding unique_text_def reads_back_def by blast
next
  assume "normalise v = normalise w"
  then show "canonicalJson v = canonicalJson w"
    unfolding canonicalJson_def by (metis canonicalize_normalise)
qed

lemma domain_prefix_unique:
  assumes "CHR 0x00 \<notin> set d" "CHR 0x00 \<notin> set d'" "d @ CHR 0x00 # t = d' @ CHR 0x00 # t'"
  shows "d = d' \<and> t = t'"
  using assms
proof (induction d arbitrary: d')
  case Nil
  then show ?case by (cases d') auto
next
  case (Cons c d)
  then show ?case by (cases d') auto
qed

text \<open>
  Two hashed records that agree are the same domain and the same data, or the two hashed texts are
  a collision of \<open>sha\<close>.
\<close>

lemma hashCanonicalDomain_eq:
  assumes "CHR 0x00 \<notin> set d" "CHR 0x00 \<notin> set d'"
  shows "hashCanonicalDomain sha d v = hashCanonicalDomain sha d' w \<longleftrightarrow>
    (d = d' \<and> normalise v = normalise w) \<or>
    (d @ CHR 0x00 # canonicalJson v \<noteq> d' @ CHR 0x00 # canonicalJson w \<and>
     sha (d @ CHR 0x00 # canonicalJson v) = sha (d' @ CHR 0x00 # canonicalJson w))"
proof -
  have "d @ CHR 0x00 # canonicalJson v = d' @ CHR 0x00 # canonicalJson w
      \<longleftrightarrow> d = d' \<and> normalise v = normalise w"
    using domain_prefix_unique [OF assms] canonicalJson_eq_iff by blast
  then show ?thesis
    unfolding hashCanonicalDomain_def by metis
qed

end
