(* ===== verification/Js_Time.thy ===== *)
theory Js_Time
  imports Canonical_Json
begin

text \<open>
  The parts of the JavaScript standard library the hub uses on times and texts: \<open>toISOString\<close> (the
  hub stores every instant it stamps in that form), \<open>Date.parse\<close> of a caller-supplied stamp, and
  \<open>trim\<close>.

  In the years 0 to 9999 two texts of \<open>toISOString\<close> compare as strings the way the instants
  compare as numbers, so the theories keep the hub's own stamps as instants and compare those;
  \<open>toISOString\<close> is applied where a stamp is hashed.
\<close>

section \<open>Instants\<close>

definition pad :: "nat \<Rightarrow> nat \<Rightarrow> string" where
  "pad w n = (let t = show_nat n in replicate (w - length t) (CHR ''0'') @ t)"

text \<open>The civil date of a day number counted from 1970-01-01.\<close>

definition civil :: "int \<Rightarrow> int \<times> int \<times> int" where
  "civil days =
     (let z = days + 719468;
          era = z div 146097;
          doe = z mod 146097;
          yoe = (doe - doe div 1460 + doe div 36524 - doe div 146096) div 365;
          doy = doe - (365 * yoe + yoe div 4 - yoe div 100);
          mp = (5 * doy + 2) div 153;
          d = doy - (153 * mp + 2) div 5 + 1;
          m = (if mp < 10 then mp + 3 else mp - 9)
      in (yoe + era * 400 + (if m \<le> 2 then 1 else 0), m, d))"

definition toISOString :: "instant \<Rightarrow> string" where
  "toISOString t =
     (let (y, m, d) = civil (t div 86400000); ms = t mod 86400000 in
      pad 4 (nat y) @ ''-'' @ pad 2 (nat m) @ ''-'' @ pad 2 (nat d) @ ''T'' @
      pad 2 (nat (ms div 3600000)) @ '':'' @ pad 2 (nat (ms div 60000 mod 60)) @ '':'' @
      pad 2 (nat (ms div 1000 mod 60)) @ ''.'' @ pad 3 (nat (ms mod 1000)) @ ''Z'')"

lemma toISOString_epoch: "toISOString 0 = ''1970-01-01T00:00:00.000Z''"
  by code_simp

lemma toISOString_leap: "toISOString 1709164799999 = ''2024-02-28T23:59:59.999Z''"
  by code_simp

text \<open>
  A stamp supplied by a caller is its text and what \<open>Date.parse\<close> makes of it (None for \<open>NaN\<close>).
\<close>

datatype stamp = Stamp (stamp_text: string) (stamp_ms: "instant option")

section \<open>Texts\<close>

definition js_space :: "char \<Rightarrow> bool" where
  "js_space c \<longleftrightarrow> of_char c \<in> {9, 10, 11, 12, 13, 32, 160 :: nat}"

definition js_trim :: "string \<Rightarrow> string" where
  "js_trim s = rev (dropWhile js_space (rev (dropWhile js_space s)))"

text \<open>\<open>!x\<close> of an optional text: absent or empty.\<close>

definition falsy_text :: "string option \<Rightarrow> bool" where
  "falsy_text x \<longleftrightarrow> x = None \<or> x = Some []"

definition blank_text :: "string option \<Rightarrow> bool" where
  "blank_text x \<longleftrightarrow> (case x of None \<Rightarrow> True | Some t \<Rightarrow> js_trim t = [])"

fun join_with :: "string \<Rightarrow> string list \<Rightarrow> string" where
  "join_with sep [] = []"
| "join_with sep [x] = x"
| "join_with sep (x # xs) = x @ sep @ join_with sep xs"

section \<open>JSON of optional parts\<close>

text \<open>
  \<open>JSON.stringify\<close> leaves out the members whose value is undefined; a null member stays.
\<close>

definition json_obj :: "(string \<times> json option) list \<Rightarrow> json" where
  "json_obj ms = JObj [(k, v). (k, Some v) \<leftarrow> ms]"

definition json_null_or :: "('a \<Rightarrow> json) \<Rightarrow> 'a option \<Rightarrow> json" where
  "json_null_or f x = (case x of None \<Rightarrow> JNull | Some a \<Rightarrow> f a)"

definition json_strs :: "string list \<Rightarrow> json" where
  "json_strs xs = JArr (map JStr xs)"

definition json_iso :: "instant \<Rightarrow> json" where
  "json_iso t = JStr (toISOString t)"

end
