(* ===== verification/Work_Types.thy ===== *)
theory Work_Types
  imports Js_Time
begin

text \<open>
  The data of a work item (\<open>hub/src/entities/work-item.ts\<close> and the recall and revision records of
  \<open>hub/src/entities/work-item-contract-v4.ts\<close>), the JSON form in which it is hashed, and the two
  predicates the entity file itself defines: the exemption of projected pull-request
  reviews and the completion gate over attestations.

  Field names carry a two-letter prefix for the record they belong to.  An optional member of the
  source is an \<open>option\<close>; a member that \<open>cloneWorkItem\<close> always fills in is a plain list.
  The revision members that \<open>work-item.ts\<close> adds to the row as one group (\<open>logicalId\<close> to
  \<open>observedTopologyHash\<close>) are the record \<open>revision_identity\<close>.
\<close>

section \<open>Phases and kinds\<close>

datatype phase =
    Ready | Claimed | InProgress | Blocked | Paused | Review | Done | Abandoned | FailedSealed

definition WORK_ITEM_PHASES :: "phase list" where
  "WORK_ITEM_PHASES = [Ready, Claimed, InProgress, Blocked, Paused, Review, Done, Abandoned, FailedSealed]"

definition TERMINAL_WORK_PHASES :: "phase list" where
  "TERMINAL_WORK_PHASES = [Done, Abandoned, FailedSealed]"

fun phase_name :: "phase \<Rightarrow> string" where
  "phase_name Ready = ''ready''"
| "phase_name Claimed = ''claimed''"
| "phase_name InProgress = ''in_progress''"
| "phase_name Blocked = ''blocked''"
| "phase_name Paused = ''paused''"
| "phase_name Review = ''review''"
| "phase_name Done = ''done''"
| "phase_name Abandoned = ''abandoned''"
| "phase_name FailedSealed = ''failed_sealed''"

datatype work_item_type = TaskItem | BugItem | ReviewItem | VerifierGateItem | FreeformItem

fun type_name :: "work_item_type \<Rightarrow> string" where
  "type_name TaskItem = ''task''"
| "type_name BugItem = ''bug''"
| "type_name ReviewItem = ''review''"
| "type_name VerifierGateItem = ''verifier-gate''"
| "type_name FreeformItem = ''freeform''"

datatype priority = Critical | High | Normal | Low

fun priority_name :: "priority \<Rightarrow> string" where
  "priority_name Critical = ''critical''"
| "priority_name High = ''high''"
| "priority_name Normal = ''normal''"
| "priority_name Low = ''low''"

datatype evidence_kind = EkCommit | EkPr | EkAudit | EkReview | EkTestRun | EkDoc | EkFreeform

fun evidence_kind_name :: "evidence_kind \<Rightarrow> string" where
  "evidence_kind_name EkCommit = ''commit''"
| "evidence_kind_name EkPr = ''pr''"
| "evidence_kind_name EkAudit = ''audit''"
| "evidence_kind_name EkReview = ''review''"
| "evidence_kind_name EkTestRun = ''test-run''"
| "evidence_kind_name EkDoc = ''doc''"
| "evidence_kind_name EkFreeform = ''freeform''"

datatype evidence_authority = ExecutorEvidence | VerifierAttestation

fun authority_name :: "evidence_authority \<Rightarrow> string" where
  "authority_name ExecutorEvidence = ''executor-evidence''"
| "authority_name VerifierAttestation = ''verifier-attestation''"

datatype verdict = Pass | Fail

fun verdict_name :: "verdict \<Rightarrow> string" where
  "verdict_name Pass = ''pass''"
| "verdict_name Fail = ''fail''"

datatype ref_origin = RefEvidence | RefEntity | RefExternal

fun ref_origin_name :: "ref_origin \<Rightarrow> string" where
  "ref_origin_name RefEvidence = ''evidence''"
| "ref_origin_name RefEntity = ''entity''"
| "ref_origin_name RefExternal = ''external''"

datatype reference_storage = StInline | StGit | StHubDoc | StEntity

fun storage_name :: "reference_storage \<Rightarrow> string" where
  "storage_name StInline = ''inline''"
| "storage_name StGit = ''git''"
| "storage_name StHubDoc = ''hub-doc''"
| "storage_name StEntity = ''entity''"

datatype reference_mode = ModeRead | ModeTriangulate

fun mode_name :: "reference_mode \<Rightarrow> string" where
  "mode_name ModeRead = ''read''"
| "mode_name ModeTriangulate = ''triangulate-against''"

datatype verb =
    VClaim | VStart | VBlock | VResume | VComplete | VRelease | VAbandon | VRenew
  | VPause | VUnpause | VReset

definition ALL_WORK_ITEM_VERBS :: "verb list" where
  "ALL_WORK_ITEM_VERBS =
     [VClaim, VStart, VBlock, VResume, VComplete, VRelease, VAbandon, VRenew, VPause, VUnpause, VReset]"

section \<open>Records\<close>

record actor =
  ac_role :: string
  ac_agentId :: agent_id

record evidence_requirement =
  er_id :: string
  er_kind :: evidence_kind
  er_description :: "string option"
  er_refResolvable :: "bool option"
  er_allowPreClaim :: "bool option"
  er_evidenceAuthority :: "evidence_authority option"

record attestation_ref =
  ar_kind :: ref_origin
  ar_ref :: string

type_synonym target_ref = "string \<times> string"

record attestation =
  at_requirementId :: string
  at_verifierId :: agent_id
  at_verdict :: verdict
  at_producedAt :: instant
  at_evidenceRefs :: "attestation_ref list"
  at_requirementHash :: string
  at_targetRefSnapshot :: "target_ref option"
  at_targetRefHash :: string
  at_evidenceSetHash :: string
  at_supersedes :: "string option"

record evidence_item =
  ei_requirementId :: string
  ei_kind :: evidence_kind
  ei_ref :: "string option"
  ei_producedAt :: stamp
  ei_note :: "string option"
  ei_producedBy :: "agent_id option"

datatype friction_compatibility = Explicit | MissingLegacyClient

record friction_input =
  fi_observed :: bool
  fi_summary :: "string option"
  fi_categories :: "string list option"
  fi_suggestedFollowUp :: "(string \<times> string option) option"

record friction_record =
  fr_producedAt :: instant
  fr_producedBy :: agent_id
  fr_observed :: bool
  fr_summary :: string
  fr_categories :: "string list"
  fr_suggestedFollowUp :: "(string \<times> string option) option"
  fr_compatibility :: friction_compatibility

record lease =
  le_holder :: agent_id
  le_token :: string
  le_claimedAt :: instant
  le_expiresAt :: instant
  le_heartbeatAt :: instant

record blocked_on =
  bo_blockerKind :: string
  bo_blockerIds :: "string list option"
  bo_reason :: string

record reference =
  rf_kind :: string
  rf_ref :: string
  rf_storage :: reference_storage
  rf_mode :: reference_mode
  rf_required :: bool

datatype content_identity =
    HubDocIdentity (hd_path: string) (hd_resourceVersion: string) (hd_utf8Bytes: nat) (hd_sha256: string)
  | GitIdentity (gi_repo: string) (gi_commit: string) (gi_path: string) (gi_blobSha256: string)
  | InlineIdentity (in_utf8Bytes: nat) (in_sha256: string)
  | EntityIdentity (en_kind: string) (en_id: string) (en_resourceVersion: string) (en_stateHash: string)

record bound_reference =
  br_kind :: string
  br_storage :: reference_storage
  br_mode :: reference_mode
  br_required :: bool
  br_locator :: string
  br_contentIdentity :: content_identity

record pulse_config =
  pc_intervalSeconds :: int
  pc_message :: string
  pc_responseShape :: string
  pc_missedThreshold :: int
  pc_firstFireDelaySeconds :: "int option"
  pc_lastFiredAt :: "string option"
  pc_lastResponseAt :: "string option option"
  pc_missedCount :: "int option"
  pc_lastEscalatedAt :: "string option option"

record node_config =
  nc_pulse :: "pulse_config option"

record state_durations =
  sd_ready :: int
  sd_claimed :: int
  sd_in_progress :: int
  sd_blocked :: int
  sd_paused :: int
  sd_review :: int

definition DEFAULT_STATE_DURATIONS :: state_durations where
  "DEFAULT_STATE_DURATIONS =
     \<lparr>sd_ready = 0, sd_claimed = 0, sd_in_progress = 0, sd_blocked = 0, sd_paused = 0, sd_review = 0\<rparr>"

text \<open>The records a pause or a lapsed lease leaves on the row.\<close>

record lease_snapshot =
  rl_holder :: agent_id
  rl_claimedAt :: instant
  rl_expiresAt :: instant
  rl_heartbeatAt :: instant
  rl_tokenFingerprint :: "string option"

record recall_before =
  rb_physicalId :: string
  rb_logicalId :: string
  rb_revision :: int
  rb_topologyGeneration :: "int option"
  rb_phase :: phase
  rb_resourceVersion :: revision
  rb_stateHash :: string
  rb_blockedOn :: "blocked_on option"
  rb_lease :: "lease_snapshot option"

record frozen_authority =
  fa_generationMode :: bool
  fa_logicalId :: string
  fa_physicalId :: string
  fa_revision :: int
  fa_generation :: "int option"
  fa_nodeContractHash :: string
  fa_nodeTopologyHash :: string
  fa_dependsOnLogicalIds :: "string list"
  fa_completionDependsOnLogicalIds :: "string list"
  fa_localExecutionIdentity :: "string option"
  fa_authorityHash :: string

record recall_entry =
  rh_operationId :: string
  rh_requestHash :: string
  rh_actor :: actor
  rh_reason :: string
  rh_recalledAt :: instant
  rh_beforeStateHash :: string
  rh_before :: recall_before
  rh_frozenAuthority :: "frozen_authority option"
  rh_sanctionedAuthority :: "frozen_authority option"
  rh_holderNoticeIntentId :: "string option"

datatype recipient_kind = HolderRecipient | AuthorRecipient

record recall_intent =
  pi_intentId :: string
  pi_operationId :: string
  pi_exactHolderAgentId :: agent_id
  pi_recipientKind :: "recipient_kind option"
  pi_beforeStateHash :: string
  pi_createdAt :: instant
  pi_projectedMessageId :: "string option"
  pi_projectedAt :: "instant option"

text \<open>The seal a verifier's FAIL leaves on the row.\<close>

record seal_before =
  sb_phase :: phase
  sb_holder :: "agent_id option"
  sb_claimedAt :: "instant option"
  sb_expiresAt :: "instant option"
  sb_heartbeatAt :: "instant option"
  sb_tokenFingerprint :: "string option"
  sb_blockedOn :: "blocked_on option"
  sb_stateHash :: string
  sb_evidenceSetHash :: string
  sb_activeAttestationProjectionHash :: string
  sb_resourceVersion :: revision

record seal_receipt =
  sr_workId :: string
  sr_logicalId :: string
  sr_revision :: int
  sr_topologyGeneration :: int
  sr_requirementId :: string
  sr_verifierId :: agent_id
  sr_producedAt :: instant
  sr_operationId :: string
  sr_before :: seal_before
  sr_attestationHistoryIndex :: nat
  sr_attestationId :: string
  sr_requirementHash :: string
  sr_targetRefHash :: string
  sr_attestationEvidenceSetHash :: string
  sr_sealedAt :: instant

record failed_gate_seal =
  fs_operationId :: string
  fs_sealHash :: string
  fs_receipt :: seal_receipt
  fs_holderNoticeIntentId :: "string option"

record seal_notice =
  sn_intentId :: string
  sn_sealHash :: string
  sn_workId :: string
  sn_requirementId :: string
  sn_verifierId :: agent_id
  sn_producedAt :: instant
  sn_exactHolderAgentId :: agent_id
  sn_createdAt :: instant
  sn_projectedMessageId :: "string option"
  sn_projectedAt :: "instant option"

record revision_identity =
  ri_logicalId :: "string option"
  ri_revision :: "int option"
  ri_predecessorPhysicalId :: "string option"
  ri_revisedBy :: "actor option"
  ri_revisionReason :: "string option"
  ri_revisionGeneration :: "int option"
  ri_nodeContractHashVersion :: "string option"
  ri_nodeContractHash :: "string option"
  ri_nodeTopologyHashVersion :: "string option"
  ri_nodeTopologyHash :: "string option"
  ri_boundReferences :: "bound_reference list option"
  ri_localExecutionIdentity :: "string option"
  ri_topologyGeneration :: "int option"
  ri_observedTopologyGeneration :: "int option"
  ri_observedTopologyHash :: "string option"

definition no_revision :: revision_identity where
  "no_revision =
     \<lparr>ri_logicalId = None, ri_revision = None, ri_predecessorPhysicalId = None, ri_revisedBy = None,
      ri_revisionReason = None, ri_revisionGeneration = None, ri_nodeContractHashVersion = None,
      ri_nodeContractHash = None, ri_nodeTopologyHashVersion = None, ri_nodeTopologyHash = None,
      ri_boundReferences = None, ri_localExecutionIdentity = None, ri_topologyGeneration = None,
      ri_observedTopologyGeneration = None, ri_observedTopologyHash = None\<rparr>"

text \<open>
  A work item.  \<open>effectiveDisposition\<close> has one non-null value, so it is a bool here.
\<close>

record work_item =
  wi_id :: string
  wi_type :: work_item_type
  wi_priority :: priority
  wi_roleEligibility :: "string list"
  wi_dependsOn :: "string list"
  wi_completionDependsOn :: "string list"
  wi_evidenceRequirements :: "evidence_requirement list"
  wi_runbook :: "string option"
  wi_references :: "reference list"
  wi_leaseWindowMs :: "int option"
  wi_targetRef :: "target_ref option"
  wi_payload :: "json option"
  wi_blueprintRunId :: "string option"
  wi_suspended :: "bool option"
  wi_systemProjection :: "string option"
  wi_revisionIdentity :: revision_identity
  wi_status :: phase
  wi_lease :: "lease option"
  wi_evidence :: "evidence_item list"
  wi_frictionReflections :: "friction_record list"
  wi_blockedOn :: "blocked_on option"
  wi_leaseExpiryCount :: nat
  wi_enteredCurrentStateAt :: instant
  wi_stateDurations :: state_durations
  wi_attestationHistory :: "attestation list"
  wi_attestations :: "(string \<times> attestation) list"
  wi_executorHistory :: "agent_id list"
  wi_recallHistory :: "recall_entry list"
  wi_pendingRecallIntents :: "recall_intent list"
  wi_recallNoticePending :: "bool option"
  wi_failedGateSeal :: "failed_gate_seal option"
  wi_pendingFailedSealNotices :: "seal_notice list"
  wi_failedSealNoticePending :: bool
  wi_effectiveDisposition :: bool
  wi_nodeConfig :: "node_config option"
  wi_createdBy :: "actor option"
  wi_createdAt :: instant
  wi_updatedAt :: instant

abbreviation wi_logicalId :: "work_item \<Rightarrow> string option" where
  "wi_logicalId w \<equiv> ri_logicalId (wi_revisionIdentity w)"

abbreviation wi_revision :: "work_item \<Rightarrow> int option" where
  "wi_revision w \<equiv> ri_revision (wi_revisionIdentity w)"

section \<open>The two predicates of the entity file\<close>

definition PR_REVIEW_PROJECTION_RULE_ID :: string where
  "PR_REVIEW_PROJECTION_RULE_ID = ''pr_evidence_admission_review_gate_v0''"

definition PR_REVIEW_PROJECTION_AUTHOR_AGENT_ID :: string where
  "PR_REVIEW_PROJECTION_AUTHOR_AGENT_ID = ''system-pr-review-rule''"

definition isProjectedPrReviewObligation :: "work_item \<Rightarrow> bool" where
  "isProjectedPrReviewObligation w =
     (if wi_systemProjection w = Some PR_REVIEW_PROJECTION_RULE_ID then True
      else if map_option ac_agentId (wi_createdBy w) \<noteq> Some PR_REVIEW_PROJECTION_AUTHOR_AGENT_ID then False
      else case wi_payload w of
          None \<Rightarrow> False
        | Some p \<Rightarrow> json_member p ''obligationKind'' = Some (JStr ''github_pr_review_request''))"

definition active_attestation :: "work_item \<Rightarrow> string \<Rightarrow> attestation option" where
  "active_attestation w r = map_of (wi_attestations w) r"

definition evaluateCompletionGate :: "work_item \<Rightarrow> bool \<times> string list" where
  "evaluateCompletionGate w =
     (let prReviewObligation = isProjectedPrReviewObligation w;
          pending = [er_id req. req \<leftarrow> wi_evidenceRequirements w,
            er_evidenceAuthority req = Some VerifierAttestation,
            \<not> prReviewObligation,
            map_option at_verdict (active_attestation w (er_id req)) \<noteq> Some Pass]
      in (pending = [], pending))"

end
