(* ===== verification/Work_Json.thy ===== *)
theory Work_Json
  imports Work_Types
begin

text \<open>
  A work item as the JSON text it is hashed as, and the digests the work-item repository
  (\<open>hub/src/entities/work-item-repository-substrate.ts\<close>) takes: requirement, target and evidence-set
  hashes of an attestation, the state hashes of a recall and of a failed-gate seal, the token
  fingerprints, and the seal with its holder notice.  SHA-256 is the parameter \<open>sha\<close>.
\<close>

section \<open>JSON of the row\<close>

definition json_opt :: "('a \<Rightarrow> json) \<Rightarrow> 'a option \<Rightarrow> json option" where
  "json_opt f x = map_option f x"

definition actor_json :: "actor \<Rightarrow> json" where
  "actor_json a = json_obj [(''role'', Some (JStr (ac_role a))), (''agentId'', Some (JStr (ac_agentId a)))]"

definition requirement_json :: "evidence_requirement \<Rightarrow> json" where
  "requirement_json r = json_obj
     [(''id'', Some (JStr (er_id r))),
      (''kind'', Some (JStr (evidence_kind_name (er_kind r)))),
      (''description'', json_opt JStr (er_description r)),
      (''refResolvable'', json_opt JBool (er_refResolvable r)),
      (''allowPreClaim'', json_opt JBool (er_allowPreClaim r)),
      (''evidenceAuthority'', json_opt (JStr \<circ> authority_name) (er_evidenceAuthority r))]"

definition target_json :: "target_ref \<Rightarrow> json" where
  "target_json t = json_obj [(''kind'', Some (JStr (fst t))), (''id'', Some (JStr (snd t)))]"

definition attestation_ref_json :: "attestation_ref \<Rightarrow> json" where
  "attestation_ref_json r = json_obj
     [(''kind'', Some (JStr (ref_origin_name (ar_kind r)))), (''ref'', Some (JStr (ar_ref r)))]"

definition attestation_json :: "attestation \<Rightarrow> json" where
  "attestation_json a = json_obj
     [(''requirementId'', Some (JStr (at_requirementId a))),
      (''verifierId'', Some (JStr (at_verifierId a))),
      (''verdict'', Some (JStr (verdict_name (at_verdict a)))),
      (''producedAt'', Some (json_iso (at_producedAt a))),
      (''evidenceRefs'', Some (JArr (map attestation_ref_json (at_evidenceRefs a)))),
      (''requirementHash'', Some (JStr (at_requirementHash a))),
      (''targetRefSnapshot'', Some (json_null_or target_json (at_targetRefSnapshot a))),
      (''targetRefHash'', Some (JStr (at_targetRefHash a))),
      (''evidenceSetHash'', Some (JStr (at_evidenceSetHash a))),
      (''supersedes'', json_opt JStr (at_supersedes a))]"

definition evidence_json :: "evidence_item \<Rightarrow> json" where
  "evidence_json e = json_obj
     [(''requirementId'', Some (JStr (ei_requirementId e))),
      (''kind'', Some (JStr (evidence_kind_name (ei_kind e)))),
      (''ref'', json_opt JStr (ei_ref e)),
      (''producedAt'', Some (JStr (stamp_text (ei_producedAt e)))),
      (''note'', json_opt JStr (ei_note e)),
      (''producedBy'', json_opt JStr (ei_producedBy e))]"

definition friction_json :: "friction_record \<Rightarrow> json" where
  "friction_json f = json_obj
     [(''producedAt'', Some (json_iso (fr_producedAt f))),
      (''producedBy'', Some (JStr (fr_producedBy f))),
      (''sourceVerb'', Some (JStr ''complete_work'')),
      (''observed'', Some (JBool (fr_observed f))),
      (''summary'', Some (JStr (fr_summary f))),
      (''categories'', Some (json_strs (fr_categories f))),
      (''suggestedFollowUp'', json_opt (\<lambda>(k, t). json_obj
          [(''kind'', Some (JStr k)), (''text'', json_opt JStr t)]) (fr_suggestedFollowUp f)),
      (''compatibility'', Some (JStr (case fr_compatibility f of
          Explicit \<Rightarrow> ''explicit'' | MissingLegacyClient \<Rightarrow> ''missing_legacy_client'')))]"

definition lease_json :: "lease \<Rightarrow> json" where
  "lease_json l = json_obj
     [(''holder'', Some (JStr (le_holder l))),
      (''token'', Some (JStr (le_token l))),
      (''claimedAt'', Some (json_iso (le_claimedAt l))),
      (''expiresAt'', Some (json_iso (le_expiresAt l))),
      (''heartbeatAt'', Some (json_iso (le_heartbeatAt l)))]"

definition blocked_on_json :: "blocked_on \<Rightarrow> json" where
  "blocked_on_json b = json_obj
     [(''blockerKind'', Some (JStr (bo_blockerKind b))),
      (''blockerIds'', json_opt json_strs (bo_blockerIds b)),
      (''reason'', Some (JStr (bo_reason b)))]"

definition reference_json :: "reference \<Rightarrow> json" where
  "reference_json r = json_obj
     [(''kind'', Some (JStr (rf_kind r))),
      (''ref'', Some (JStr (rf_ref r))),
      (''storage'', Some (JStr (storage_name (rf_storage r)))),
      (''mode'', Some (JStr (mode_name (rf_mode r)))),
      (''required'', Some (JBool (rf_required r)))]"

fun identity_json :: "content_identity \<Rightarrow> json" where
  "identity_json (HubDocIdentity p rv n h) = json_obj
     [(''path'', Some (JStr p)), (''resourceVersion'', Some (JStr rv)),
      (''utf8Bytes'', Some (JNum (int n))), (''sha256'', Some (JStr h))]"
| "identity_json (GitIdentity r c p h) = json_obj
     [(''repo'', Some (JStr r)), (''full40CommitSha'', Some (JStr c)),
      (''path'', Some (JStr p)), (''blobSha256'', Some (JStr h))]"
| "identity_json (InlineIdentity n h) = json_obj
     [(''utf8Bytes'', Some (JNum (int n))), (''sha256'', Some (JStr h))]"
| "identity_json (EntityIdentity k i rv h) = json_obj
     [(''kind'', Some (JStr k)), (''id'', Some (JStr i)),
      (''resourceVersion'', Some (JStr rv)), (''stateHash'', Some (JStr h))]"

definition bound_reference_json :: "bound_reference \<Rightarrow> json" where
  "bound_reference_json b = json_obj
     [(''kind'', Some (JStr (br_kind b))),
      (''storage'', Some (JStr (storage_name (br_storage b)))),
      (''mode'', Some (JStr (mode_name (br_mode b)))),
      (''required'', Some (JBool (br_required b))),
      (''locator'', Some (JStr (br_locator b))),
      (''contentIdentity'', Some (identity_json (br_contentIdentity b)))]"

definition pulse_json :: "pulse_config \<Rightarrow> json" where
  "pulse_json p = json_obj
     [(''intervalSeconds'', Some (JNum (pc_intervalSeconds p))),
      (''message'', Some (JStr (pc_message p))),
      (''responseShape'', Some (JStr (pc_responseShape p))),
      (''missedThreshold'', Some (JNum (pc_missedThreshold p))),
      (''firstFireDelaySeconds'', json_opt JNum (pc_firstFireDelaySeconds p)),
      (''lastFiredAt'', json_opt JStr (pc_lastFiredAt p)),
      (''lastResponseAt'', json_opt (json_null_or JStr) (pc_lastResponseAt p)),
      (''missedCount'', json_opt JNum (pc_missedCount p)),
      (''lastEscalatedAt'', json_opt (json_null_or JStr) (pc_lastEscalatedAt p))]"

definition node_config_json :: "node_config \<Rightarrow> json" where
  "node_config_json n = json_obj [(''pulse'', json_opt pulse_json (nc_pulse n))]"

definition durations_json :: "state_durations \<Rightarrow> json" where
  "durations_json d = json_obj
     [(''ready'', Some (JNum (sd_ready d))), (''claimed'', Some (JNum (sd_claimed d))),
      (''in_progress'', Some (JNum (sd_in_progress d))), (''blocked'', Some (JNum (sd_blocked d))),
      (''paused'', Some (JNum (sd_paused d))), (''review'', Some (JNum (sd_review d)))]"

definition snapshot_json :: "lease_snapshot \<Rightarrow> json" where
  "snapshot_json l = json_obj
     [(''holder'', Some (JStr (rl_holder l))),
      (''claimedAt'', Some (json_iso (rl_claimedAt l))),
      (''expiresAt'', Some (json_iso (rl_expiresAt l))),
      (''heartbeatAt'', Some (json_iso (rl_heartbeatAt l))),
      (''tokenFingerprint'', Some (json_null_or JStr (rl_tokenFingerprint l)))]"

definition recall_before_json :: "recall_before \<Rightarrow> json" where
  "recall_before_json b = json_obj
     [(''physicalId'', Some (JStr (rb_physicalId b))),
      (''logicalId'', Some (JStr (rb_logicalId b))),
      (''revision'', Some (JNum (rb_revision b))),
      (''topologyGeneration'', Some (json_null_or JNum (rb_topologyGeneration b))),
      (''phase'', Some (JStr (phase_name (rb_phase b)))),
      (''resourceVersion'', Some (JStr (show_nat (rb_resourceVersion b)))),
      (''stateHash'', Some (JStr (rb_stateHash b))),
      (''blockedOn'', Some (json_null_or blocked_on_json (rb_blockedOn b))),
      (''lease'', Some (json_null_or snapshot_json (rb_lease b)))]"

text \<open>The frozen authority without its own hash, and with it.\<close>

definition authority_members :: "frozen_authority \<Rightarrow> (string \<times> json option) list" where
  "authority_members f =
     [(''version'', Some (JStr ''frozen-recall-authority-v4'')),
      (''mode'', Some (JStr (if fa_generationMode f then ''generation'' else ''legacy''))),
      (''logicalId'', Some (JStr (fa_logicalId f))),
      (''physicalId'', Some (JStr (fa_physicalId f))),
      (''revision'', Some (JNum (fa_revision f))),
      (''generation'', Some (json_null_or JNum (fa_generation f))),
      (''nodeContractHash'', Some (JStr (fa_nodeContractHash f))),
      (''nodeTopologyHash'', Some (JStr (fa_nodeTopologyHash f))),
      (''dependsOnLogicalIds'', Some (json_strs (fa_dependsOnLogicalIds f))),
      (''completionDependsOnLogicalIds'', Some (json_strs (fa_completionDependsOnLogicalIds f))),
      (''localExecutionIdentity'', Some (json_null_or JStr (fa_localExecutionIdentity f)))]"

definition authority_payload_json :: "frozen_authority \<Rightarrow> json" where
  "authority_payload_json f = json_obj (authority_members f)"

definition authority_json :: "frozen_authority \<Rightarrow> json" where
  "authority_json f = json_obj (authority_members f @ [(''authorityHash'', Some (JStr (fa_authorityHash f)))])"

definition recall_entry_json :: "recall_entry \<Rightarrow> json" where
  "recall_entry_json h = json_obj
     [(''operationId'', Some (JStr (rh_operationId h))),
      (''requestHash'', Some (JStr (rh_requestHash h))),
      (''actor'', Some (actor_json (rh_actor h))),
      (''reason'', Some (JStr (rh_reason h))),
      (''recalledAt'', Some (json_iso (rh_recalledAt h))),
      (''beforeStateHash'', Some (JStr (rh_beforeStateHash h))),
      (''before'', Some (recall_before_json (rh_before h))),
      (''frozenAuthority'', json_opt authority_json (rh_frozenAuthority h)),
      (''sanctionedAuthority'', json_opt authority_json (rh_sanctionedAuthority h)),
      (''holderNoticeIntentId'', Some (json_null_or JStr (rh_holderNoticeIntentId h)))]"

fun recipient_name :: "recipient_kind \<Rightarrow> string" where
  "recipient_name HolderRecipient = ''holder''"
| "recipient_name AuthorRecipient = ''author''"

definition recall_intent_json :: "recall_intent \<Rightarrow> json" where
  "recall_intent_json p = json_obj
     [(''intentId'', Some (JStr (pi_intentId p))),
      (''operationId'', Some (JStr (pi_operationId p))),
      (''exactHolderAgentId'', Some (JStr (pi_exactHolderAgentId p))),
      (''recipientKind'', json_opt (JStr \<circ> recipient_name) (pi_recipientKind p)),
      (''beforeStateHash'', Some (JStr (pi_beforeStateHash p))),
      (''createdAt'', Some (json_iso (pi_createdAt p))),
      (''projectedMessageId'', Some (json_null_or JStr (pi_projectedMessageId p))),
      (''projectedAt'', Some (json_null_or json_iso (pi_projectedAt p)))]"

definition seal_before_json :: "seal_before \<Rightarrow> json" where
  "seal_before_json b = json_obj
     [(''phase'', Some (JStr (phase_name (sb_phase b)))),
      (''holder'', Some (json_null_or JStr (sb_holder b))),
      (''claimedAt'', Some (json_null_or json_iso (sb_claimedAt b))),
      (''expiresAt'', Some (json_null_or json_iso (sb_expiresAt b))),
      (''heartbeatAt'', Some (json_null_or json_iso (sb_heartbeatAt b))),
      (''tokenFingerprint'', Some (json_null_or JStr (sb_tokenFingerprint b))),
      (''blockedOn'', Some (json_null_or blocked_on_json (sb_blockedOn b))),
      (''stateHash'', Some (JStr (sb_stateHash b))),
      (''evidenceSetHash'', Some (JStr (sb_evidenceSetHash b))),
      (''activeAttestationProjectionHash'', Some (JStr (sb_activeAttestationProjectionHash b))),
      (''resourceVersion'', Some (JStr (show_nat (sb_resourceVersion b))))]"

definition seal_receipt_json :: "seal_receipt \<Rightarrow> json" where
  "seal_receipt_json r = json_obj
     [(''workId'', Some (JStr (sr_workId r))),
      (''logicalId'', Some (JStr (sr_logicalId r))),
      (''revision'', Some (JNum (sr_revision r))),
      (''topologyGeneration'', Some (JNum (sr_topologyGeneration r))),
      (''requirementId'', Some (JStr (sr_requirementId r))),
      (''verifierId'', Some (JStr (sr_verifierId r))),
      (''verdict'', Some (JStr ''fail'')),
      (''producedAt'', Some (json_iso (sr_producedAt r))),
      (''operationId'', Some (JStr (sr_operationId r))),
      (''before'', Some (seal_before_json (sr_before r))),
      (''after'', Some (json_obj
         [(''phase'', Some (JStr ''review'')), (''effectiveDisposition'', Some (JStr ''failed_sealed'')),
          (''leaseCleared'', Some (JBool True)), (''blockedOnCleared'', Some (JBool True))])),
      (''attestationHistoryIndex'', Some (JNum (int (sr_attestationHistoryIndex r)))),
      (''attestationId'', Some (JStr (sr_attestationId r))),
      (''requirementHash'', Some (JStr (sr_requirementHash r))),
      (''targetRefHash'', Some (JStr (sr_targetRefHash r))),
      (''attestationEvidenceSetHash'', Some (JStr (sr_attestationEvidenceSetHash r))),
      (''sealedAt'', Some (json_iso (sr_sealedAt r)))]"

definition seal_json :: "failed_gate_seal \<Rightarrow> json" where
  "seal_json s = json_obj
     [(''version'', Some (JNum 2)),
      (''operationId'', Some (JStr (fs_operationId s))),
      (''sealHash'', Some (JStr (fs_sealHash s))),
      (''receipt'', Some (seal_receipt_json (fs_receipt s))),
      (''holderNoticeIntentId'', Some (json_null_or JStr (fs_holderNoticeIntentId s)))]"

definition seal_notice_json :: "seal_notice \<Rightarrow> json" where
  "seal_notice_json n = json_obj
     [(''intentId'', Some (JStr (sn_intentId n))),
      (''sealHash'', Some (JStr (sn_sealHash n))),
      (''workId'', Some (JStr (sn_workId n))),
      (''requirementId'', Some (JStr (sn_requirementId n))),
      (''verifierId'', Some (JStr (sn_verifierId n))),
      (''verdict'', Some (JStr ''fail'')),
      (''producedAt'', Some (json_iso (sn_producedAt n))),
      (''exactHolderAgentId'', Some (JStr (sn_exactHolderAgentId n))),
      (''createdAt'', Some (json_iso (sn_createdAt n))),
      (''projectedMessageId'', Some (json_null_or JStr (sn_projectedMessageId n))),
      (''projectedAt'', Some (json_null_or json_iso (sn_projectedAt n)))]"

definition revision_members :: "revision_identity \<Rightarrow> (string \<times> json option) list" where
  "revision_members r =
     [(''logicalId'', json_opt JStr (ri_logicalId r)),
      (''revision'', json_opt JNum (ri_revision r)),
      (''predecessorPhysicalId'', json_opt JStr (ri_predecessorPhysicalId r)),
      (''revisedBy'', json_opt actor_json (ri_revisedBy r)),
      (''revisionReason'', json_opt JStr (ri_revisionReason r)),
      (''revisionGeneration'', json_opt JNum (ri_revisionGeneration r)),
      (''nodeContractHashVersion'', json_opt JStr (ri_nodeContractHashVersion r)),
      (''nodeContractHash'', json_opt JStr (ri_nodeContractHash r)),
      (''nodeTopologyHashVersion'', json_opt JStr (ri_nodeTopologyHashVersion r)),
      (''nodeTopologyHash'', json_opt JStr (ri_nodeTopologyHash r)),
      (''boundReferences'', json_opt (JArr \<circ> map bound_reference_json) (ri_boundReferences r)),
      (''localExecutionIdentity'', json_opt JStr (ri_localExecutionIdentity r)),
      (''topologyGeneration'', json_opt JNum (ri_topologyGeneration r)),
      (''observedTopologyGeneration'', json_opt JNum (ri_observedTopologyGeneration r)),
      (''observedTopologyHash'', json_opt JStr (ri_observedTopologyHash r))]"

definition attestations_json :: "(string \<times> attestation) list \<Rightarrow> json" where
  "attestations_json m = JObj (map (\<lambda>(k, a). (k, attestation_json a)) m)"

definition work_item_json :: "work_item \<Rightarrow> json" where
  "work_item_json w = json_obj (
     [(''id'', Some (JStr (wi_id w))),
      (''type'', Some (JStr (type_name (wi_type w)))),
      (''priority'', Some (JStr (priority_name (wi_priority w)))),
      (''roleEligibility'', Some (json_strs (wi_roleEligibility w))),
      (''dependsOn'', Some (json_strs (wi_dependsOn w))),
      (''completionDependsOn'', Some (json_strs (wi_completionDependsOn w))),
      (''evidenceRequirements'', Some (JArr (map requirement_json (wi_evidenceRequirements w)))),
      (''runbook'', json_opt JStr (wi_runbook w)),
      (''references'', Some (JArr (map reference_json (wi_references w)))),
      (''leaseWindowMs'', json_opt JNum (wi_leaseWindowMs w)),
      (''targetRef'', Some (json_null_or target_json (wi_targetRef w))),
      (''payload'', wi_payload w),
      (''blueprintRunId'', json_opt JStr (wi_blueprintRunId w)),
      (''suspended'', json_opt JBool (wi_suspended w)),
      (''systemProjection'', json_opt (\<lambda>r. json_obj [(''ruleId'', Some (JStr r))]) (wi_systemProjection w))]
     @ revision_members (wi_revisionIdentity w) @
     [(''status'', Some (JStr (phase_name (wi_status w)))),
      (''lease'', Some (json_null_or lease_json (wi_lease w))),
      (''evidence'', Some (JArr (map evidence_json (wi_evidence w)))),
      (''frictionReflections'', Some (JArr (map friction_json (wi_frictionReflections w)))),
      (''blockedOn'', Some (json_null_or blocked_on_json (wi_blockedOn w))),
      (''leaseExpiryCount'', Some (JNum (int (wi_leaseExpiryCount w)))),
      (''enteredCurrentStateAt'', Some (json_iso (wi_enteredCurrentStateAt w))),
      (''stateDurations'', Some (durations_json (wi_stateDurations w))),
      (''attestationHistory'', Some (JArr (map attestation_json (wi_attestationHistory w)))),
      (''attestations'', Some (attestations_json (wi_attestations w))),
      (''executorHistory'', Some (json_strs (wi_executorHistory w))),
      (''recallHistory'', Some (JArr (map recall_entry_json (wi_recallHistory w)))),
      (''pendingRecallIntents'', Some (JArr (map recall_intent_json (wi_pendingRecallIntents w)))),
      (''recallNoticePending'', json_opt JBool (wi_recallNoticePending w)),
      (''failedGateSeal'', Some (json_null_or seal_json (wi_failedGateSeal w))),
      (''pendingFailedSealNotices'', Some (JArr (map seal_notice_json (wi_pendingFailedSealNotices w)))),
      (''failedSealNoticePending'', Some (JBool (wi_failedSealNoticePending w))),
      (''effectiveDisposition'', Some (if wi_effectiveDisposition w then JStr ''failed_sealed'' else JNull)),
      (''nodeConfig'', json_opt node_config_json (wi_nodeConfig w)),
      (''createdBy'', json_opt actor_json (wi_createdBy w)),
      (''createdAt'', Some (json_iso (wi_createdAt w))),
      (''updatedAt'', Some (json_iso (wi_updatedAt w)))])"

section \<open>Digests\<close>

type_synonym sha256 = "string \<Rightarrow> string"

text \<open>
  \<open>sha256Canonical\<close> hashes the key-sorted JSON text without a domain.
\<close>

definition sha256Canonical :: "sha256 \<Rightarrow> json \<Rightarrow> string" where
  "sha256Canonical sha v = sha (canonicalJson v)"

definition hashRequirement :: "sha256 \<Rightarrow> evidence_requirement \<Rightarrow> string" where
  "hashRequirement sha r = sha256Canonical sha (requirement_json r)"

definition hashTargetRef :: "sha256 \<Rightarrow> target_ref option \<Rightarrow> string" where
  "hashTargetRef sha t = sha256Canonical sha (json_null_or target_json t)"

definition hashEvidenceSet :: "sha256 \<Rightarrow> attestation_ref list \<Rightarrow> string" where
  "hashEvidenceSet sha refs =
     sha256Canonical sha (json_strs (sort (map (\<lambda>r. ref_origin_name (ar_kind r) @ '':'' @ ar_ref r) refs)))"

definition failedGateStateHash :: "sha256 \<Rightarrow> work_item \<Rightarrow> string" where
  "failedGateStateHash sha w = hashCanonicalDomain sha ''failed-gate-preclear-state-v2'' (work_item_json w)"

definition recallStateHash :: "sha256 \<Rightarrow> work_item \<Rightarrow> string" where
  "recallStateHash sha w = hashCanonicalDomain sha ''workitem-recall-before-state-v4'' (work_item_json w)"

definition token_json :: "string \<Rightarrow> json" where
  "token_json t = json_obj [(''token'', Some (JStr t))]"

definition recallTokenFingerprint :: "sha256 \<Rightarrow> string \<Rightarrow> string" where
  "recallTokenFingerprint sha t = hashCanonicalDomain sha ''workitem-recall-token-v4'' (token_json t)"

definition tokenFingerprint :: "sha256 \<Rightarrow> string option \<Rightarrow> string option" where
  "tokenFingerprint sha t =
     (case t of None \<Rightarrow> None
      | Some t \<Rightarrow> if t = [] then None
                  else Some (hashCanonicalDomain sha ''failed-gate-token-v2'' (token_json t)))"

definition failedGateOperationId :: "sha256 \<Rightarrow> string \<Rightarrow> string \<Rightarrow> agent_id \<Rightarrow> verdict
    \<Rightarrow> attestation_ref list \<Rightarrow> string" where
  "failedGateOperationId sha workId requirementId verifierId v refs =
     hashCanonicalDomain sha ''failed-gate-operation-v2'' (json_obj
       [(''workId'', Some (JStr workId)), (''requirementId'', Some (JStr requirementId)),
        (''verifierId'', Some (JStr verifierId)), (''verdict'', Some (JStr (verdict_name v))),
        (''evidenceSetHash'', Some (JStr (hashEvidenceSet sha refs)))])"

text \<open>Logical id, revision and generation of a row that may predate revisions.\<close>

definition legacyRevisionIdentity :: "work_item \<Rightarrow> string \<times> int \<times> int" where
  "legacyRevisionIdentity w =
     ((case wi_logicalId w of None \<Rightarrow> wi_id w | Some l \<Rightarrow> l),
      (case wi_revision w of None \<Rightarrow> 1 | Some r \<Rightarrow> r),
      (case ri_topologyGeneration (wi_revisionIdentity w) of None \<Rightarrow> 0 | Some g \<Rightarrow> g))"

definition attestationIdentity :: "attestation \<Rightarrow> string" where
  "attestationIdentity a = at_requirementId a @ '':'' @ at_verifierId a @ '':'' @ toISOString (at_producedAt a)"

section \<open>The failed-gate seal\<close>

definition seal_receipt_of :: "sha256 \<Rightarrow> work_item \<Rightarrow> revision \<Rightarrow> attestation \<Rightarrow> nat \<Rightarrow> string \<Rightarrow> instant
    \<Rightarrow> seal_receipt" where
  "seal_receipt_of sha w rv a idx operationId sealedAt =
     (let (logicalId, rev, gen) = legacyRevisionIdentity w; l = wi_lease w in
      \<lparr>sr_workId = wi_id w, sr_logicalId = logicalId, sr_revision = rev, sr_topologyGeneration = gen,
       sr_requirementId = at_requirementId a, sr_verifierId = at_verifierId a,
       sr_producedAt = at_producedAt a, sr_operationId = operationId,
       sr_before =
         \<lparr>sb_phase = wi_status w,
          sb_holder = map_option le_holder l, sb_claimedAt = map_option le_claimedAt l,
          sb_expiresAt = map_option le_expiresAt l, sb_heartbeatAt = map_option le_heartbeatAt l,
          sb_tokenFingerprint = tokenFingerprint sha (map_option le_token l),
          sb_blockedOn = wi_blockedOn w,
          sb_stateHash = failedGateStateHash sha w,
          sb_evidenceSetHash = hashCanonicalDomain sha ''failed-gate-work-evidence-set-v2''
            (JArr (map evidence_json (wi_evidence w))),
          sb_activeAttestationProjectionHash = hashCanonicalDomain sha
            ''failed-gate-active-attestation-projection-v2'' (attestations_json (wi_attestations w)),
          sb_resourceVersion = rv\<rparr>,
       sr_attestationHistoryIndex = idx, sr_attestationId = attestationIdentity a,
       sr_requirementHash = at_requirementHash a, sr_targetRefHash = at_targetRefHash a,
       sr_attestationEvidenceSetHash = at_evidenceSetHash a, sr_sealedAt = sealedAt\<rparr>)"

definition buildFailedGateSeal :: "sha256 \<Rightarrow> work_item \<Rightarrow> revision \<Rightarrow> attestation \<Rightarrow> nat \<Rightarrow> string \<Rightarrow> instant
    \<Rightarrow> failed_gate_seal \<times> seal_notice option" where
  "buildFailedGateSeal sha w rv a idx operationId sealedAt =
     (let receipt = seal_receipt_of sha w rv a idx operationId sealedAt;
          sealHash = hashCanonicalDomain sha ''failed-gate-seal-v2'' (seal_receipt_json receipt);
          holder = map_option le_holder (wi_lease w);
          intentId = (case holder of
             None \<Rightarrow> None
           | Some h \<Rightarrow> if h = [] then None else Some (hashCanonicalDomain sha ''failed-seal-holder-notice-v2''
               (json_obj [(''workId'', Some (JStr (wi_id w))), (''sealHash'', Some (JStr sealHash)),
                          (''holder'', Some (JStr h))])));
          seal = \<lparr>fs_operationId = operationId, fs_sealHash = sealHash, fs_receipt = receipt,
                  fs_holderNoticeIntentId = intentId\<rparr>;
          notice = (case (holder, intentId) of
             (Some h, Some i) \<Rightarrow> if h = [] \<or> i = [] then None else Some
               \<lparr>sn_intentId = i, sn_sealHash = sealHash, sn_workId = wi_id w,
                sn_requirementId = at_requirementId a, sn_verifierId = at_verifierId a,
                sn_producedAt = at_producedAt a, sn_exactHolderAgentId = h, sn_createdAt = sealedAt,
                sn_projectedMessageId = None, sn_projectedAt = None\<rparr>
           | _ \<Rightarrow> None)
      in (seal, notice))"

section \<open>Seals and normalised rows\<close>

definition hasActiveVerifierFail :: "work_item \<Rightarrow> bool" where
  "hasActiveVerifierFail w \<longleftrightarrow>
     list_ex (\<lambda>req. er_evidenceAuthority req = Some VerifierAttestation \<and>
        map_option at_verdict (active_attestation w (er_id req)) = Some Fail) (wi_evidenceRequirements w)"

definition isFailedGateSealed :: "work_item \<Rightarrow> bool" where
  "isFailedGateSealed w \<longleftrightarrow> wi_effectiveDisposition w \<or> wi_failedGateSeal w \<noteq> None \<or> hasActiveVerifierFail w"

definition misrepresentsAsClaimable :: "work_item \<Rightarrow> bool" where
  "misrepresentsAsClaimable w \<longleftrightarrow> wi_status w = Ready \<and> isFailedGateSealed w"

text \<open>
  \<open>cloneWorkItem\<close>: the projections it recomputes each time a row is read.  Its other lines
  give absent members their empty defaults, which the record has by type.
\<close>

definition cloneWorkItem :: "work_item \<Rightarrow> work_item" where
  "cloneWorkItem w =
     w\<lparr>wi_recallNoticePending := Some (case wi_recallNoticePending w of
           Some b \<Rightarrow> b
         | None \<Rightarrow> list_ex (\<lambda>i. falsy_text (pi_projectedMessageId i)) (wi_pendingRecallIntents w)),
       wi_failedSealNoticePending := list_ex (\<lambda>n. sn_projectedMessageId n = None) (wi_pendingFailedSealNotices w),
       wi_effectiveDisposition := isFailedGateSealed w\<rparr>"

lemma clone_fields [simp]:
  "wi_id (cloneWorkItem w) = wi_id w"
  "wi_status (cloneWorkItem w) = wi_status w"
  "wi_lease (cloneWorkItem w) = wi_lease w"
  "wi_suspended (cloneWorkItem w) = wi_suspended w"
  "wi_blockedOn (cloneWorkItem w) = wi_blockedOn w"
  "wi_evidence (cloneWorkItem w) = wi_evidence w"
  "wi_evidenceRequirements (cloneWorkItem w) = wi_evidenceRequirements w"
  "wi_attestations (cloneWorkItem w) = wi_attestations w"
  "wi_attestationHistory (cloneWorkItem w) = wi_attestationHistory w"
  "wi_executorHistory (cloneWorkItem w) = wi_executorHistory w"
  "wi_recallHistory (cloneWorkItem w) = wi_recallHistory w"
  "wi_failedGateSeal (cloneWorkItem w) = wi_failedGateSeal w"
  "wi_dependsOn (cloneWorkItem w) = wi_dependsOn w"
  "wi_completionDependsOn (cloneWorkItem w) = wi_completionDependsOn w"
  "wi_roleEligibility (cloneWorkItem w) = wi_roleEligibility w"
  "wi_stateDurations (cloneWorkItem w) = wi_stateDurations w"
  "wi_enteredCurrentStateAt (cloneWorkItem w) = wi_enteredCurrentStateAt w"
  "wi_createdBy (cloneWorkItem w) = wi_createdBy w"
  "wi_leaseWindowMs (cloneWorkItem w) = wi_leaseWindowMs w"
  "wi_targetRef (cloneWorkItem w) = wi_targetRef w"
  "wi_revisionIdentity (cloneWorkItem w) = wi_revisionIdentity w"
  "wi_leaseExpiryCount (cloneWorkItem w) = wi_leaseExpiryCount w"
  "wi_type (cloneWorkItem w) = wi_type w"
  "wi_effectiveDisposition (cloneWorkItem w) = isFailedGateSealed w"
  by (simp_all add: cloneWorkItem_def)

lemma hasActiveVerifierFail_cong:
  "wi_evidenceRequirements w = wi_evidenceRequirements w' \<Longrightarrow> wi_attestations w = wi_attestations w' \<Longrightarrow>
   hasActiveVerifierFail w = hasActiveVerifierFail w'"
  by (simp add: hasActiveVerifierFail_def active_attestation_def)

lemma sealed_clone [simp]: "isFailedGateSealed (cloneWorkItem w) = isFailedGateSealed w"
  using hasActiveVerifierFail_cong [of "cloneWorkItem w" w]
  by (auto simp: isFailedGateSealed_def)

lemma clone_idem [simp]: "cloneWorkItem (cloneWorkItem w) = cloneWorkItem w"
  using sealed_clone [of w] by (simp add: cloneWorkItem_def)

end
