(* ===== verification/Work_Evidence.thy ===== *)
theory Work_Evidence
  imports Work_Json
begin

text \<open>
  The completion predicate of a work item (\<open>work-item-repository-substrate.ts\<close>, \<open>evidenceKey\<close> to
  \<open>evaluateEvidence\<close>): merging submitted evidence into the row, normalising a friction
  reflection, the earliest prior lease of the current holder, and the per-requirement check
  that decides whether a completion goes to done, to review, or is rejected.

  The lemmas show that merging never loses or reorders what is on the row and that the predicate accepts
  exactly when every requirement is covered by evidence of an accepted kind that is fresh.
\<close>

section \<open>Errors and plans\<close>

datatype evidence_error =
    NoFreeformEvidence
  | ExecutorEvidenceForAttestation string
  | NoBoundEvidence string
  | EvidenceKindMismatch string
  | EvidenceNotFresh string
  | EvidenceRefMissing string
  | FrictionSummaryRequired
  | RefDoesNotResolve string
  | RefUnrelated string
  | AuditNotByVerifier string
  | ReviewGateNotByVerifier string
  | ReviewWithoutProducer string
  | ReviewProducerNotVerifier string

record ref_to_resolve =
  rr_requirementId :: string
  rr_kind :: string
  rr_id :: string
  rr_evidenceKind :: evidence_kind
  rr_reqKind :: evidence_kind

record verifier_check =
  vc_requirementId :: string
  vc_producedBy :: "agent_id option"

record evidence_plan =
  ep_nextPhase :: phase
  ep_refsToResolve :: "ref_to_resolve list"
  ep_verifierChecks :: "verifier_check list"

section \<open>Evidence on the row\<close>

definition producedAtOnOrAfter :: "stamp \<Rightarrow> instant \<Rightarrow> bool" where
  "producedAtOnOrAfter p claimedAt = (case stamp_ms p of None \<Rightarrow> False | Some t \<Rightarrow> claimedAt \<le> t)"

definition evidenceKey :: "evidence_item \<Rightarrow> string" where
  "evidenceKey e =
     ei_requirementId e @ ''|'' @ evidence_kind_name (ei_kind e) @ ''|'' @
     (case ei_ref e of None \<Rightarrow> [] | Some r \<Rightarrow> r) @ ''|'' @ stamp_text (ei_producedAt e)"

fun merge_from :: "string set \<Rightarrow> evidence_item list \<Rightarrow> evidence_item list" where
  "merge_from seen [] = []"
| "merge_from seen (e # es) =
     (if evidenceKey e \<in> seen then merge_from seen es
      else e # merge_from (insert (evidenceKey e) seen) es)"

definition mergeEvidence :: "evidence_item list \<Rightarrow> evidence_item list \<Rightarrow> evidence_item list" where
  "mergeEvidence existing supplied = merge_from {} (existing @ supplied)"

definition normalizeFrictionReflection :: "friction_input \<Rightarrow> agent_id \<Rightarrow> instant
    \<Rightarrow> evidence_error + friction_record" where
  "normalizeFrictionReflection input agentId now =
     (if fi_observed input \<and> blank_text (fi_summary input) then Inl FrictionSummaryRequired
      else
        let trimmed = (case fi_summary input of None \<Rightarrow> [] | Some s \<Rightarrow> js_trim s);
            summary = (if trimmed \<noteq> [] then trimmed
                       else if fi_observed input then [] else ''no friction observed'')
        in Inr \<lparr>fr_producedAt = now, fr_producedBy = agentId, fr_observed = fi_observed input,
                fr_summary = summary,
                fr_categories = (case fi_categories input of None \<Rightarrow> [] | Some cs \<Rightarrow> cs),
                fr_suggestedFollowUp = fi_suggestedFollowUp input, fr_compatibility = Explicit\<rparr>)"

text \<open>The claim time of the holder's earliest recorded prior lease on the row.\<close>

fun earliest_prior :: "agent_id \<Rightarrow> recall_entry list \<Rightarrow> instant option \<Rightarrow> instant option" where
  "earliest_prior holder [] earliest = earliest"
| "earliest_prior holder (h # hs) earliest =
     (case rb_lease (rh_before h) of
        None \<Rightarrow> earliest_prior holder hs earliest
      | Some prior \<Rightarrow>
          if rl_holder prior \<noteq> holder then earliest_prior holder hs earliest
          else case earliest of
              None \<Rightarrow> earliest_prior holder hs (Some (rl_claimedAt prior))
            | Some t \<Rightarrow> earliest_prior holder hs (Some (if rl_claimedAt prior < t then rl_claimedAt prior else t)))"

definition priorLeaseFloorFor :: "agent_id option \<Rightarrow> recall_entry list \<Rightarrow> instant option" where
  "priorLeaseFloorFor holder history =
     (case holder of None \<Rightarrow> None
      | Some h \<Rightarrow> if h = [] then None else earliest_prior h history None)"

definition OIS_INTERNAL_EVIDENCE_KINDS :: "evidence_kind \<Rightarrow> string option" where
  "OIS_INTERNAL_EVIDENCE_KINDS k =
     (case k of EkAudit \<Rightarrow> Some ''Audit'' | EkReview \<Rightarrow> Some ''WorkItem'' | _ \<Rightarrow> None)"

section \<open>One requirement\<close>

text \<open>What one requirement contributes when it does not reject.\<close>

datatype requirement_outcome =
    ByAttestation
  | DeferredToReview
  | Bound "ref_to_resolve list" "verifier_check list"

definition bound_evidence :: "evidence_item list \<Rightarrow> evidence_requirement \<Rightarrow> evidence_item list" where
  "bound_evidence evidence req = filter (\<lambda>e. ei_requirementId e = er_id req) evidence"

definition kind_accepted :: "bool \<Rightarrow> evidence_requirement \<Rightarrow> evidence_kind \<Rightarrow> bool" where
  "kind_accepted isVerifierGate req k \<longleftrightarrow>
     k = er_kind req \<or>
     ((isVerifierGate \<or> (er_kind req = EkReview \<and> er_refResolvable req = Some True)) \<and> k = EkAudit)"

definition evidence_fresh :: "instant option \<Rightarrow> string set \<Rightarrow> instant option \<Rightarrow> evidence_requirement
    \<Rightarrow> evidence_item \<Rightarrow> bool" where
  "evidence_fresh claimedAt priorKeys priorHolderFloor req e \<longleftrightarrow>
     er_allowPreClaim req = Some True \<or>
     evidenceKey e \<in> priorKeys \<or>
     (case claimedAt of None \<Rightarrow> False | Some t \<Rightarrow> producedAtOnOrAfter (ei_producedAt e) t) \<or>
     (case priorHolderFloor of None \<Rightarrow> False | Some t \<Rightarrow> producedAtOnOrAfter (ei_producedAt e) t)"

definition evaluate_requirement :: "evidence_item list \<Rightarrow> instant option \<Rightarrow> bool \<Rightarrow> string set \<Rightarrow> instant option
    \<Rightarrow> evidence_requirement \<Rightarrow> evidence_error + requirement_outcome" where
  "evaluate_requirement evidence claimedAt isVerifierGate priorKeys priorHolderFloor req =
     (let boundById = bound_evidence evidence req in
      if er_evidenceAuthority req = Some VerifierAttestation then
        (if boundById \<noteq> [] then Inl (ExecutorEvidenceForAttestation (er_id req)) else Inr ByAttestation)
      else if boundById = [] then
        (if er_kind req = EkReview then Inr DeferredToReview else Inl (NoBoundEvidence (er_id req)))
      else
        let kindMatched = filter (\<lambda>e. kind_accepted isVerifierGate req (ei_kind e)) boundById in
        if kindMatched = [] then Inl (EvidenceKindMismatch (er_id req))
        else
          let fresh = filter (evidence_fresh claimedAt priorKeys priorHolderFloor req) kindMatched in
          if fresh = [] then Inl (EvidenceNotFresh (er_id req))
          else
            let e = hd fresh;
                checks = (if er_kind req = EkReview \<and> er_refResolvable req \<noteq> Some True
                          then [\<lparr>vc_requirementId = er_id req, vc_producedBy = ei_producedBy e\<rparr>] else [])
            in if er_refResolvable req \<noteq> Some True then Inr (Bound [] checks)
               else if blank_text (ei_ref e) then Inl (EvidenceRefMissing (er_id req))
               else (case OIS_INTERNAL_EVIDENCE_KINDS (ei_kind e) of
                   None \<Rightarrow> Inr (Bound [] checks)
                 | Some k \<Rightarrow> Inr (Bound
                     [\<lparr>rr_requirementId = er_id req, rr_kind = k, rr_id = the (ei_ref e),
                       rr_evidenceKind = ei_kind e, rr_reqKind = er_kind req\<rparr>] checks)))"

section \<open>The whole predicate\<close>

fun evaluate_requirements :: "(evidence_requirement \<Rightarrow> evidence_error + requirement_outcome)
    \<Rightarrow> evidence_requirement list \<Rightarrow> bool \<Rightarrow> ref_to_resolve list \<Rightarrow> verifier_check list
    \<Rightarrow> evidence_error + evidence_plan" where
  "evaluate_requirements f [] reviewDeferred refs checks =
     Inr \<lparr>ep_nextPhase = (if reviewDeferred then Review else Done),
          ep_refsToResolve = refs, ep_verifierChecks = checks\<rparr>"
| "evaluate_requirements f (req # reqs) reviewDeferred refs checks =
     (case f req of
        Inl err \<Rightarrow> Inl err
      | Inr ByAttestation \<Rightarrow> evaluate_requirements f reqs reviewDeferred refs checks
      | Inr DeferredToReview \<Rightarrow> evaluate_requirements f reqs True refs checks
      | Inr (Bound rs cs) \<Rightarrow> evaluate_requirements f reqs reviewDeferred (refs @ rs) (checks @ cs))"

definition evaluateEvidence :: "evidence_requirement list \<Rightarrow> evidence_item list \<Rightarrow> lease option \<Rightarrow> bool
    \<Rightarrow> string set \<Rightarrow> instant option \<Rightarrow> evidence_error + evidence_plan" where
  "evaluateEvidence requirements evidence l isVerifierGate priorKeys priorHolderFloor =
     (if requirements = [] then
        (if list_ex (\<lambda>e. ei_kind e = EkFreeform) evidence
         then Inr \<lparr>ep_nextPhase = Done, ep_refsToResolve = [], ep_verifierChecks = []\<rparr>
         else Inl NoFreeformEvidence)
      else evaluate_requirements
        (evaluate_requirement evidence (map_option le_claimedAt l) isVerifierGate priorKeys priorHolderFloor)
        requirements False [] [])"

section \<open>Merging\<close>

lemma merge_from_append:
  "merge_from S (xs @ ys) = merge_from S xs @ merge_from (S \<union> evidenceKey ` set xs) ys"
  by (induction S xs rule: merge_from.induct) (auto simp: insert_absorb)

lemma merge_from_absorbed: "evidenceKey ` set xs \<subseteq> S \<Longrightarrow> merge_from S xs = []"
  by (induction S xs rule: merge_from.induct) auto

lemma merge_from_fresh:
  "distinct (map evidenceKey xs) \<Longrightarrow> evidenceKey ` set xs \<inter> S = {} \<Longrightarrow> merge_from S xs = xs"
proof (induction S xs rule: merge_from.induct)
  case (2 S e es)
  then have "merge_from (insert (evidenceKey e) S) es = es" by (intro "2.IH"(2)) auto
  with "2.prems" show ?case by auto
qed simp

lemma merge_from_keys: "evidenceKey ` set (merge_from S xs) = evidenceKey ` set xs - S"
  by (induction S xs rule: merge_from.induct) auto

lemma merge_from_distinct: "distinct (map evidenceKey (merge_from S xs))"
proof (induction S xs rule: merge_from.induct)
  case (2 S e es)
  then show ?case
    using merge_from_keys [of "insert (evidenceKey e) S" es] by auto
qed simp

lemma merge_from_subset: "set (merge_from S xs) \<subseteq> set xs"
  by (induction S xs rule: merge_from.induct) auto

lemma mergeEvidence_prefix:
  "distinct (map evidenceKey existing) \<Longrightarrow>
   mergeEvidence existing supplied = existing @ merge_from (evidenceKey ` set existing) supplied"
  by (simp add: mergeEvidence_def merge_from_append merge_from_fresh)

lemma mergeEvidence_distinct: "distinct (map evidenceKey (mergeEvidence existing supplied))"
  by (simp add: mergeEvidence_def merge_from_distinct)

lemma mergeEvidence_keys:
  "evidenceKey ` set (mergeEvidence existing supplied) = evidenceKey ` set existing \<union> evidenceKey ` set supplied"
  by (simp add: mergeEvidence_def merge_from_keys image_Un)

lemma mergeEvidence_resubmit:
  "evidenceKey ` set again \<subseteq> evidenceKey ` set existing \<union> evidenceKey ` set supplied \<Longrightarrow>
   mergeEvidence (mergeEvidence existing supplied) again = mergeEvidence existing supplied"
  using mergeEvidence_prefix [OF mergeEvidence_distinct, of existing supplied again] merge_from_absorbed
  by (simp add: mergeEvidence_keys)

section \<open>The earliest prior lease\<close>

definition prior_claims :: "agent_id \<Rightarrow> recall_entry list \<Rightarrow> instant list" where
  "prior_claims holder hs =
     [rl_claimedAt p. h \<leftarrow> hs, p \<leftarrow> (case rb_lease (rh_before h) of None \<Rightarrow> [] | Some p \<Rightarrow> [p]), rl_holder p = holder]"

lemma earliest_prior_Min:
  "earliest_prior holder hs e =
     (let ts = prior_claims holder hs @ (case e of None \<Rightarrow> [] | Some t \<Rightarrow> [t]) in
      if ts = [] then None else Some (Min (set ts)))"
proof (induction holder hs e rule: earliest_prior.induct)
  case (1 holder e)
  then show ?case by (simp add: prior_claims_def split: option.split)
next
  case (2 holder h hs e)
  show ?case
  proof (cases "rb_lease (rh_before h)")
    case None
    with "2.IH"(1) show ?thesis by (simp add: prior_claims_def)
  next
    case (Some p)
    show ?thesis
    proof (cases "rl_holder p = holder")
      case False
      with Some "2.IH"(2) [OF Some] show ?thesis by (simp add: prior_claims_def)
    next
      case True
      have pc: "prior_claims holder (h # hs) = rl_claimedAt p # prior_claims holder hs"
        using Some True by (simp add: prior_claims_def)
      have mins: "Min (insert (if a < t then a else t) A) = Min (insert t (insert a A))"
        if "finite A" for a t :: int and A
        using that by (cases "A = {}") (auto simp: min_def)
      show ?thesis
      proof (cases e)
        case None
        with "2.IH"(3) [OF Some] True Some show ?thesis by (simp add: pc Let_def)
      next
        case (Some t)
        with "2.IH"(4) [OF \<open>rb_lease (rh_before h) = Some p\<close> _ Some] True \<open>rb_lease (rh_before h) = Some p\<close>
        show ?thesis by (simp add: pc Let_def mins insert_commute)
      qed
    qed
  qed
qed

section \<open>When the predicate accepts\<close>

text \<open>Evidence that satisfies a requirement.\<close>

definition satisfies :: "instant option \<Rightarrow> bool \<Rightarrow> string set \<Rightarrow> instant option \<Rightarrow> evidence_requirement
    \<Rightarrow> evidence_item \<Rightarrow> bool" where
  "satisfies claimedAt gate keys floor req e \<longleftrightarrow>
     ei_requirementId e = er_id req \<and> kind_accepted gate req (ei_kind e) \<and>
     evidence_fresh claimedAt keys floor req e"

definition deferred :: "evidence_item list \<Rightarrow> evidence_requirement \<Rightarrow> bool" where
  "deferred evidence req \<longleftrightarrow> er_evidenceAuthority req \<noteq> Some VerifierAttestation \<and>
     er_kind req = EkReview \<and> bound_evidence evidence req = []"

definition covered :: "evidence_item list \<Rightarrow> instant option \<Rightarrow> bool \<Rightarrow> string set \<Rightarrow> instant option
    \<Rightarrow> evidence_requirement \<Rightarrow> bool" where
  "covered evidence claimedAt gate keys floor req \<longleftrightarrow>
     (if er_evidenceAuthority req = Some VerifierAttestation then bound_evidence evidence req = []
      else deferred evidence req \<or> (\<exists>e \<in> set evidence. satisfies claimedAt gate keys floor req e))"

lemma evaluate_requirement_Bound:
  assumes "evaluate_requirement evidence claimedAt gate keys floor req = Inr (Bound rs cs)"
  shows "\<exists>e \<in> set evidence. satisfies claimedAt gate keys floor req e \<and>
    (er_refResolvable req = Some True \<longrightarrow> \<not> blank_text (ei_ref e))"
proof -
  let ?fresh = "filter (evidence_fresh claimedAt keys floor req)
      (filter (\<lambda>e. kind_accepted gate req (ei_kind e)) (bound_evidence evidence req))"
  have ne: "?fresh \<noteq> []" and ref: "er_refResolvable req = Some True \<longrightarrow> \<not> blank_text (ei_ref (hd ?fresh))"
    using assms by (auto simp: evaluate_requirement_def Let_def split: if_splits option.splits)
  have "hd ?fresh \<in> set ?fresh" using ne by (rule hd_in_set)
  then have "hd ?fresh \<in> set evidence \<and> satisfies claimedAt gate keys floor req (hd ?fresh)"
    by (auto simp: satisfies_def bound_evidence_def)
  with ref show ?thesis by blast
qed

lemma evaluate_requirement_shape:
  "evaluate_requirement evidence claimedAt gate keys floor req = Inr out \<Longrightarrow>
   (case out of
      ByAttestation \<Rightarrow> er_evidenceAuthority req = Some VerifierAttestation \<and> bound_evidence evidence req = []
    | DeferredToReview \<Rightarrow> deferred evidence req
    | Bound rs cs \<Rightarrow> er_evidenceAuthority req \<noteq> Some VerifierAttestation \<and> bound_evidence evidence req \<noteq> [])"
  by (auto simp: evaluate_requirement_def Let_def deferred_def split: if_splits option.splits)

lemma evaluate_requirement_ok:
  assumes "\<forall>e \<in> set evidence. \<not> blank_text (ei_ref e)"
  shows "is_ok (evaluate_requirement evidence claimedAt gate keys floor req) \<longleftrightarrow>
    covered evidence claimedAt gate keys floor req"
proof
  assume "is_ok (evaluate_requirement evidence claimedAt gate keys floor req)"
  then obtain out where out: "evaluate_requirement evidence claimedAt gate keys floor req = Inr out"
    by (auto simp: is_ok_iff)
  from evaluate_requirement_shape [OF out] evaluate_requirement_Bound [of evidence claimedAt gate keys floor req] out
  show "covered evidence claimedAt gate keys floor req"
    by (cases out) (auto simp: covered_def deferred_def)
next
  assume cov: "covered evidence claimedAt gate keys floor req"
  let ?kind = "filter (\<lambda>e. kind_accepted gate req (ei_kind e)) (bound_evidence evidence req)"
  let ?fresh = "filter (evidence_fresh claimedAt keys floor req) ?kind"
  show "is_ok (evaluate_requirement evidence claimedAt gate keys floor req)"
  proof (cases "er_evidenceAuthority req = Some VerifierAttestation \<or> deferred evidence req")
    case True
    with cov show ?thesis
      by (auto simp: evaluate_requirement_def covered_def deferred_def Let_def)
  next
    case False
    with cov obtain e where e: "e \<in> set evidence" "satisfies claimedAt gate keys floor req e"
      by (auto simp: covered_def)
    then have mem: "e \<in> set ?fresh"
      by (auto simp: satisfies_def bound_evidence_def)
    then have "?fresh \<noteq> []" "?kind \<noteq> []" "bound_evidence evidence req \<noteq> []"
      by (auto simp: filter_empty_conv)
    moreover from this(1) have "hd ?fresh \<in> set ?fresh" by (rule hd_in_set)
    then have "\<not> blank_text (ei_ref (hd ?fresh))"
      using assms by (auto simp: bound_evidence_def)
    ultimately show ?thesis
      using False by (simp add: evaluate_requirement_def Let_def split: option.split)
  qed
qed

lemma evaluate_requirements_Inr:
  "evaluate_requirements f reqs d rs cs = Inr plan \<Longrightarrow>
   (\<forall>req \<in> set reqs. is_ok (f req)) \<and>
   ep_nextPhase plan = (if d \<or> (\<exists>req \<in> set reqs. f req = Inr DeferredToReview) then Review else Done)"
proof (induction reqs arbitrary: d rs cs)
  case (Cons req reqs)
  show ?case
  proof (cases "f req")
    case (Inr out)
    with Cons.prems Cons.IH [of d] Cons.IH [of True] show ?thesis
      by (cases out) simp_all
  qed (use Cons.prems in simp)
qed auto

lemma evaluate_requirements_ok:
  "is_ok (evaluate_requirements f reqs d rs cs) \<longleftrightarrow> (\<forall>req \<in> set reqs. is_ok (f req))"
proof (induction reqs arbitrary: d rs cs)
  case (Cons req reqs)
  show ?case
  proof (cases "f req")
    case (Inr out)
    with Cons.IH show ?thesis by (cases out) simp_all
  qed simp
qed simp

lemma deferred_outcome:
  "evaluate_requirement evidence claimedAt gate keys floor req = Inr DeferredToReview \<longleftrightarrow> deferred evidence req"
  by (auto simp: evaluate_requirement_def Let_def deferred_def split: if_splits option.splits)

section \<open>Properties\<close>

text \<open>
  The completion predicate accepts only covered contracts, and every covered one.  When
  \<open>evaluateEvidence\<close> accepts a non-empty contract, every executor requirement has evidence on the row that is
  bound to it, of an accepted kind and fresh (or it is a review requirement with no evidence, which
  defers the item to review), no requirement reserved for a verifier carries executor
  evidence, and the next phase is done exactly when nothing is deferred.  Conversely, when all evidence
  names an artifact, a covered contract is accepted.
\<close>

theorem evaluateEvidence_covered:
  assumes "reqs \<noteq> []"
  shows "(\<forall>plan. evaluateEvidence reqs evidence l gate keys floor = Inr plan \<longrightarrow>
      (\<forall>req \<in> set reqs. covered evidence (map_option le_claimedAt l) gate keys floor req) \<and>
      (ep_nextPhase plan = Done \<longleftrightarrow> \<not> (\<exists>req \<in> set reqs. deferred evidence req))) \<and>
    ((\<forall>e \<in> set evidence. \<not> blank_text (ei_ref e)) \<longrightarrow>
      is_ok (evaluateEvidence reqs evidence l gate keys floor) =
        (\<forall>req \<in> set reqs. covered evidence (map_option le_claimedAt l) gate keys floor req))"
proof -
  let ?f = "evaluate_requirement evidence (map_option le_claimedAt l) gate keys floor"
  have ev: "evaluateEvidence reqs evidence l gate keys floor = evaluate_requirements ?f reqs False [] []"
    using assms by (simp add: evaluateEvidence_def)
  have cov: "covered evidence (map_option le_claimedAt l) gate keys floor req" if ok: "is_ok (?f req)" for req
  proof -
    from ok obtain out where out: "?f req = Inr out" by (auto simp: is_ok_iff)
    from evaluate_requirement_shape [OF out] evaluate_requirement_Bound [of evidence "map_option le_claimedAt l" gate keys floor req] out
    show ?thesis by (cases out) (auto simp: covered_def deferred_def)
  qed
  show ?thesis
    unfolding ev
    using evaluate_requirements_Inr [of ?f reqs False "[]" "[]"] cov evaluate_requirement_ok
    by (auto simp: evaluate_requirements_ok deferred_outcome)
qed

definition demo_requirement :: evidence_requirement where
  "demo_requirement = \<lparr>er_id = ''build'', er_kind = EkCommit, er_description = None,
     er_refResolvable = None, er_allowPreClaim = None, er_evidenceAuthority = None\<rparr>"

definition demo_evidence :: evidence_item where
  "demo_evidence = \<lparr>ei_requirementId = ''build'', ei_kind = EkCommit, ei_ref = Some ''abc'',
     ei_producedAt = Stamp ''1970-01-01T00:00:09Z'' (Some 9000), ei_note = None, ei_producedBy = None\<rparr>"

definition demo_lease :: lease where
  "demo_lease = \<lparr>le_holder = ''agent-1'', le_token = ''t'', le_claimedAt = 5000, le_expiresAt = 905000,
     le_heartbeatAt = 5000\<rparr>"

theorem evaluateEvidence_covered_witness:
  "\<exists>plan. evaluateEvidence [demo_requirement] [demo_evidence] (Some demo_lease) False {} None = Inr plan \<and>
     ep_nextPhase plan = Done \<and> covered [demo_evidence] (Some 5000) False {} None demo_requirement"
proof -
  let ?r = "evaluateEvidence [demo_requirement] [demo_evidence] (Some demo_lease) False {} None"
  have "map_sum id ep_nextPhase ?r = Inr Done" by code_simp
  then obtain plan where plan: "?r = Inr plan" "ep_nextPhase plan = Done" by (cases ?r) auto
  have "[demo_requirement] \<noteq> []" by simp
  from evaluateEvidence_covered [OF this, of "[demo_evidence]" "Some demo_lease" False "{}" None] plan
  show ?thesis by (simp add: demo_lease_def)
qed

text \<open>
  Merging submitted evidence is append-only and idempotent.  The row's evidence stays in
  place, in order, at the front; the result has no two entries with the same key and every submitted key is
  present; submitting again anything already on the row changes nothing.
\<close>

theorem mergeEvidence_append_only:
  assumes "distinct (map evidenceKey existing)"
  shows "take (length existing) (mergeEvidence existing supplied) = existing \<and>
    distinct (map evidenceKey (mergeEvidence existing supplied)) \<and>
    evidenceKey ` set (mergeEvidence existing supplied) = evidenceKey ` set existing \<union> evidenceKey ` set supplied \<and>
    set (mergeEvidence existing supplied) \<subseteq> set existing \<union> set supplied \<and>
    mergeEvidence (mergeEvidence existing supplied) supplied = mergeEvidence existing supplied"
proof (intro conjI)
  show "take (length existing) (mergeEvidence existing supplied) = existing"
    by (simp add: mergeEvidence_prefix [OF assms])
  show "set (mergeEvidence existing supplied) \<subseteq> set existing \<union> set supplied"
    using merge_from_subset [of "{}" "existing @ supplied"] by (simp add: mergeEvidence_def)
  show "mergeEvidence (mergeEvidence existing supplied) supplied = mergeEvidence existing supplied"
    by (rule mergeEvidence_resubmit) simp
qed (rule mergeEvidence_distinct mergeEvidence_keys)+

theorem mergeEvidence_append_only_witness:
  "take 1 (mergeEvidence [demo_evidence] [demo_evidence\<lparr>ei_ref := Some ''def''\<rparr>]) = [demo_evidence]"
proof -
  have "distinct (map evidenceKey [demo_evidence])" by simp
  from mergeEvidence_append_only [OF this] show ?thesis by simp
qed

end
