(* ===== verification/Node_Contract.thy ===== *)
theory Node_Contract
  imports Work_Json
begin

text \<open>
  The revision contract of a work item (\<open>hub/src/entities/work-item-contract-v4.ts\<close>): the canonical
  node contract and its digest, the node topology digest, target-binding digests and the local
  execution identity.  The records already have the shape the source checks member by member, so
  what remains of its validation are the checks on values: non-empty texts, uniqueness, positive
  numbers, lowercase SHA-256 texts and the match of each bound reference with its source.
\<close>

datatype contract_error =
    SchemaInvalid
  | DuplicateSetMember
  | ReferenceContentIdentityUnavailable
  | ReferenceLocatorMismatch
  | ReferenceMutableGitRef
  | HashInputInvalid

definition NODE_CONTRACT_HASH_VERSION :: string where
  "NODE_CONTRACT_HASH_VERSION = ''node-contract-v4''"

definition NODE_TOPOLOGY_HASH_VERSION :: string where
  "NODE_TOPOLOGY_HASH_VERSION = ''node-topology-v4''"

definition LOCAL_EXECUTION_IDENTITY_VERSION :: string where
  "LOCAL_EXECUTION_IDENTITY_VERSION = ''local-execution-v4''"

definition TARGET_BINDING_HASH_VERSION :: string where
  "TARGET_BINDING_HASH_VERSION = ''target-binding-v4''"

section \<open>Value checks\<close>

definition check :: "bool \<Rightarrow> 'e \<Rightarrow> 'e + unit" where
  "check b e = (if b then Inr () else Inl e)"

lemma check_Inr [simp]: "check b e = Inr u \<longleftrightarrow> b"
  by (simp add: check_def)

lemma check_Inl [simp]: "check b e = Inl e' \<longleftrightarrow> \<not> b \<and> e' = e"
  by (auto simp: check_def)

definition lower_hex :: "char \<Rightarrow> bool" where
  "lower_hex c \<longleftrightarrow> c \<in> set ''0123456789abcdef''"

definition is_sha256 :: "string \<Rightarrow> bool" where
  "is_sha256 s \<longleftrightarrow> length s = 64 \<and> list_all lower_hex s"

definition is_commit40 :: "string \<Rightarrow> bool" where
  "is_commit40 s \<longleftrightarrow> length s = 40 \<and> list_all lower_hex s"

definition is_resource_version :: "string \<Rightarrow> bool" where
  "is_resource_version s \<longleftrightarrow> s \<noteq> [] \<and> list_all (\<lambda>c. c \<in> set ''0123456789'') s"

definition sortedUniqueStrings :: "string list \<Rightarrow> contract_error + string list" where
  "sortedUniqueStrings xs =
     (if list_ex (\<lambda>x. x = []) xs then Inl SchemaInvalid
      else if \<not> distinct xs then Inl DuplicateSetMember
      else Inr (sort xs))"

section \<open>The node contract\<close>

definition canonical_requirement_json :: "sha256 \<Rightarrow> evidence_requirement \<Rightarrow> json" where
  "canonical_requirement_json sha r = json_obj
     [(''id'', Some (JStr (er_id r))),
      (''kind'', Some (JStr (evidence_kind_name (er_kind r)))),
      (''descriptionUtf8Sha256'', Some (json_null_or (JStr \<circ> sha) (er_description r))),
      (''refResolvable'', Some (JBool (er_refResolvable r = Some True))),
      (''allowPreClaim'', Some (JBool (er_allowPreClaim r = Some True))),
      (''evidenceAuthority'', Some (JStr (authority_name
         (case er_evidenceAuthority r of None \<Rightarrow> ExecutorEvidence | Some a \<Rightarrow> a))))]"

definition canonicalEvidenceRequirements :: "sha256 \<Rightarrow> evidence_requirement list \<Rightarrow> contract_error + json" where
  "canonicalEvidenceRequirements sha reqs =
     (if list_ex (\<lambda>r. er_id r = []) reqs then Inl SchemaInvalid
      else if \<not> distinct (map er_id reqs) then Inl DuplicateSetMember
      else Inr (JArr (map (canonical_requirement_json sha) (sort_key er_id reqs))))"

definition canonicalTargetRef :: "target_ref option \<Rightarrow> contract_error + json" where
  "canonicalTargetRef t =
     (case t of None \<Rightarrow> Inr JNull
      | Some (k, i) \<Rightarrow> if k = [] \<or> i = [] then Inl SchemaInvalid else Inr (target_json (k, i)))"

definition canonicalNodeConfig :: "sha256 \<Rightarrow> node_config option \<Rightarrow> contract_error + json" where
  "canonicalNodeConfig sha n =
     (case n of
        None \<Rightarrow> Inr JNull
      | Some c \<Rightarrow>
          (case nc_pulse c of
             None \<Rightarrow> Inr (json_obj [(''pulse'', Some JNull)])
           | Some p \<Rightarrow>
               if pc_intervalSeconds p \<le> 0 \<or> pc_missedThreshold p \<le> 0 then Inl SchemaInvalid
               else if pc_responseShape p \<notin> {''ack'', ''short_status'', ''full_status''} then Inl SchemaInvalid
               else if (case pc_firstFireDelaySeconds p of None \<Rightarrow> False | Some d \<Rightarrow> d < 0) then Inl SchemaInvalid
               else Inr (json_obj [(''pulse'', Some (json_obj
                 [(''intervalSeconds'', Some (JNum (pc_intervalSeconds p))),
                  (''messageUtf8Sha256'', Some (JStr (sha (pc_message p)))),
                  (''responseShape'', Some (JStr (pc_responseShape p))),
                  (''missedThreshold'', Some (JNum (pc_missedThreshold p))),
                  (''firstFireDelaySeconds'', Some (json_null_or JNum (pc_firstFireDelaySeconds p)))]))])))"

definition assertReferenceShape :: "reference \<Rightarrow> contract_error + unit" where
  "assertReferenceShape r =
     check (rf_kind r \<noteq> [] \<and> (rf_storage r = StInline \<or> rf_ref r \<noteq> [])) SchemaInvalid"

text \<open>
  The identity of a bound reference must have the shape of its storage (\<open>assertExactKeys\<close>: any other
  shape has a member that is not admitted) and name the same content.
\<close>

definition assertContentIdentity :: "reference \<Rightarrow> content_identity \<Rightarrow> contract_error + unit" where
  "assertContentIdentity src c =
     (case (rf_storage src, c) of
        (StHubDoc, HubDocIdentity p rv n h) \<Rightarrow>
          if p = [] \<or> \<not> is_resource_version rv \<or> \<not> is_sha256 h then Inl SchemaInvalid
          else check (p = rf_ref src) ReferenceLocatorMismatch
      | (StGit, GitIdentity r sha p h) \<Rightarrow>
          if r = [] then Inl SchemaInvalid
          else if \<not> is_commit40 sha then Inl ReferenceMutableGitRef
          else check (p \<noteq> [] \<and> is_sha256 h) SchemaInvalid
      | (StInline, InlineIdentity n h) \<Rightarrow> check (is_sha256 h) SchemaInvalid
      | (StEntity, EntityIdentity k i rv h) \<Rightarrow>
          if k = [] \<or> i = [] \<or> \<not> is_resource_version rv \<or> \<not> is_sha256 h then Inl SchemaInvalid
          else check (k = rf_kind src \<and> i = rf_ref src) ReferenceLocatorMismatch
      | _ \<Rightarrow> Inl SchemaInvalid)"

definition assertBoundReferenceMatches :: "reference \<Rightarrow> bound_reference \<Rightarrow> contract_error + unit" where
  "assertBoundReferenceMatches src b =
     (if br_kind b \<noteq> rf_kind src \<or> br_storage b \<noteq> rf_storage src \<or> br_mode b \<noteq> rf_mode src \<or>
         br_required b \<noteq> rf_required src \<or> br_locator b \<noteq> rf_ref src
      then Inl ReferenceLocatorMismatch
      else assertContentIdentity src (br_contentIdentity b))"

fun all_ok :: "('e + unit) list \<Rightarrow> 'e + unit" where
  "all_ok [] = Inr ()"
| "all_ok (r # rs) = res_bind r (\<lambda>_. all_ok rs)"

lemma all_ok_Inr: "all_ok rs = Inr u \<longleftrightarrow> (\<forall>r \<in> set rs. r = Inr ())"
  by (induction rs) (auto simp: res_bind_Inr_iff)

text \<open>The members of a row that its contract covers.\<close>

record contract_input =
  ci_type :: work_item_type
  ci_roleEligibility :: "string list"
  ci_runbook :: "string option"
  ci_payload :: "json option"
  ci_targetRef :: "target_ref option"
  ci_evidenceRequirements :: "evidence_requirement list"
  ci_references :: "reference list"
  ci_leaseWindowMs :: "int option"
  ci_nodeConfig :: "node_config option"

definition contract_input_of :: "work_item \<Rightarrow> contract_input" where
  "contract_input_of w =
     \<lparr>ci_type = wi_type w, ci_roleEligibility = wi_roleEligibility w, ci_runbook = wi_runbook w,
      ci_payload = wi_payload w, ci_targetRef = wi_targetRef w,
      ci_evidenceRequirements = wi_evidenceRequirements w, ci_references = wi_references w,
      ci_leaseWindowMs = wi_leaseWindowMs w, ci_nodeConfig = wi_nodeConfig w\<rparr>"

definition node_contract_json :: "sha256 \<Rightarrow> contract_input \<Rightarrow> bound_reference list
    \<Rightarrow> contract_error + json" where
  "node_contract_json sha w bound =
     res_bind (sortedUniqueStrings (ci_roleEligibility w)) (\<lambda>roles.
     res_bind (all_ok (map assertReferenceShape (ci_references w))) (\<lambda>_.
     res_bind (check (length (ci_references w) = length bound) ReferenceContentIdentityUnavailable) (\<lambda>_.
     res_bind (all_ok (map2 assertBoundReferenceMatches (ci_references w) bound)) (\<lambda>_.
     res_bind (check (case ci_leaseWindowMs w of None \<Rightarrow> True | Some n \<Rightarrow> 0 < n) SchemaInvalid) (\<lambda>_.
     res_bind (canonicalTargetRef (ci_targetRef w)) (\<lambda>target.
     res_bind (canonicalEvidenceRequirements sha (ci_evidenceRequirements w)) (\<lambda>reqs.
     res_bind (canonicalNodeConfig sha (ci_nodeConfig w)) (\<lambda>config.
     Inr (json_obj
       [(''type'', Some (JStr (type_name (ci_type w)))),
        (''roleEligibility'', Some (json_strs roles)),
        (''runbookUtf8Sha256'', Some (json_null_or (JStr \<circ> sha) (ci_runbook w))),
        (''payloadCanonicalSha256'', Some (json_null_or
            (JStr \<circ> hashCanonicalDomain sha ''payload-canonical-v4'') (ci_payload w))),
        (''targetRef'', Some target),
        (''evidenceRequirements'', Some reqs),
        (''references'', Some (JArr (map bound_reference_json bound))),
        (''leaseWindowMs'', Some (json_null_or JNum (ci_leaseWindowMs w))),
        (''nodeConfig'', Some config)])))))))))"

definition deriveNodeContractV4 :: "sha256 \<Rightarrow> contract_input \<Rightarrow> bound_reference list
    \<Rightarrow> contract_error + string" where
  "deriveNodeContractV4 sha w bound =
     res_bind (node_contract_json sha w bound)
       (\<lambda>c. Inr (hashCanonicalDomain sha NODE_CONTRACT_HASH_VERSION c))"

section \<open>Topology and execution identity\<close>

definition deriveNodeTopologyV4 :: "sha256 \<Rightarrow> string \<Rightarrow> string list \<Rightarrow> string list
    \<Rightarrow> contract_error + string" where
  "deriveNodeTopologyV4 sha logicalId dependsOn completionDependsOn =
     (if logicalId = [] then Inl SchemaInvalid
      else res_bind (sortedUniqueStrings dependsOn) (\<lambda>start.
           res_bind (sortedUniqueStrings completionDependsOn) (\<lambda>completion.
           Inr (hashCanonicalDomain sha NODE_TOPOLOGY_HASH_VERSION (json_obj
             [(''logicalId'', Some (JStr logicalId)), (''dependsOn'', Some (json_strs start)),
              (''completionDependsOn'', Some (json_strs completion))])))))"

datatype edge_class = DependsOn | CompletionDependsOn

fun edge_class_name :: "edge_class \<Rightarrow> string" where
  "edge_class_name DependsOn = ''dependsOn''"
| "edge_class_name CompletionDependsOn = ''completionDependsOn''"

record target_binding =
  tt_edgeClass :: edge_class
  tt_targetLogicalId :: string
  tt_targetPhysicalId :: string
  tt_targetRevision :: int
  tt_targetNodeContractHashVersion :: string
  tt_targetNodeContractHash :: string

definition deriveTargetBindingDigestV4 :: "sha256 \<Rightarrow> target_binding \<Rightarrow> contract_error + string" where
  "deriveTargetBindingDigestV4 sha b =
     (if tt_targetLogicalId b = [] \<or> tt_targetPhysicalId b = [] \<or> tt_targetRevision b \<le> 0 then Inl SchemaInvalid
      else if tt_targetNodeContractHashVersion b \<noteq> NODE_CONTRACT_HASH_VERSION then Inl HashInputInvalid
      else if \<not> is_sha256 (tt_targetNodeContractHash b) then Inl SchemaInvalid
      else Inr (hashCanonicalDomain sha TARGET_BINDING_HASH_VERSION (json_obj
        [(''edgeClass'', Some (JStr (edge_class_name (tt_edgeClass b)))),
         (''targetLogicalId'', Some (JStr (tt_targetLogicalId b))),
         (''targetPhysicalId'', Some (JStr (tt_targetPhysicalId b))),
         (''targetRevision'', Some (JNum (tt_targetRevision b))),
         (''targetNodeContractHashVersion'', Some (JStr (tt_targetNodeContractHashVersion b))),
         (''targetNodeContractHash'', Some (JStr (tt_targetNodeContractHash b)))])))"

fun map_res :: "('a \<Rightarrow> 'e + 'b) \<Rightarrow> 'a list \<Rightarrow> 'e + 'b list" where
  "map_res f [] = Inr []"
| "map_res f (x # xs) = res_bind (f x) (\<lambda>y. res_bind (map_res f xs) (\<lambda>ys. Inr (y # ys)))"

lemma map_res_length: "map_res f xs = Inr ys \<Longrightarrow> length ys = length xs"
  by (induction xs arbitrary: ys) (auto simp: res_bind_Inr_iff)

record identity_input =
  ii_logicalId :: string
  ii_physicalId :: string
  ii_revision :: int
  ii_nodeContractHashVersion :: string
  ii_nodeContractHash :: string
  ii_nodeTopologyHashVersion :: string
  ii_nodeTopologyHash :: string
  ii_outgoing :: "target_binding list"

definition deriveLocalExecutionIdentityV4 :: "sha256 \<Rightarrow> identity_input \<Rightarrow> contract_error + string" where
  "deriveLocalExecutionIdentityV4 sha i =
     (if ii_logicalId i = [] \<or> ii_physicalId i = [] \<or> ii_revision i \<le> 0 then Inl SchemaInvalid
      else if ii_nodeContractHashVersion i \<noteq> NODE_CONTRACT_HASH_VERSION then Inl HashInputInvalid
      else if ii_nodeTopologyHashVersion i \<noteq> NODE_TOPOLOGY_HASH_VERSION then Inl HashInputInvalid
      else if \<not> is_sha256 (ii_nodeContractHash i) \<or> \<not> is_sha256 (ii_nodeTopologyHash i) then Inl SchemaInvalid
      else res_bind (map_res (deriveTargetBindingDigestV4 sha) (ii_outgoing i)) (\<lambda>digests.
        if \<not> distinct digests then Inl DuplicateSetMember
        else Inr (hashCanonicalDomain sha LOCAL_EXECUTION_IDENTITY_VERSION (json_obj
          [(''logicalId'', Some (JStr (ii_logicalId i))),
           (''physicalId'', Some (JStr (ii_physicalId i))),
           (''revision'', Some (JNum (ii_revision i))),
           (''nodeContractHashVersion'', Some (JStr (ii_nodeContractHashVersion i))),
           (''nodeContractHash'', Some (JStr (ii_nodeContractHash i))),
           (''nodeTopologyHashVersion'', Some (JStr (ii_nodeTopologyHashVersion i))),
           (''nodeTopologyHash'', Some (JStr (ii_nodeTopologyHash i))),
           (''outgoingTargetBindingDigests'', Some (json_strs (sort digests)))]))))"

section \<open>Order independence\<close>

lemma sortedUniqueStrings_permute:
  assumes "mset xs = mset ys"
  shows "sortedUniqueStrings xs = sortedUniqueStrings ys"
proof -
  have "sort xs = sort ys" using assms by (metis mset_sort properties_for_sort sorted_sort)
  moreover have "set xs = set ys" "distinct xs = distinct ys"
    using assms by (auto dest: mset_eq_setD mset_eq_imp_distinct_iff)
  ultimately show ?thesis by (simp add: sortedUniqueStrings_def list_ex_iff)
qed

lemma canonicalEvidenceRequirements_permute:
  assumes "mset xs = mset ys"
  shows "canonicalEvidenceRequirements sha xs = canonicalEvidenceRequirements sha ys"
proof -
  have "mset (map er_id xs) = mset (map er_id ys)" using assms by simp
  then have "distinct (map er_id xs) = distinct (map er_id ys)" by (rule mset_eq_imp_distinct_iff)
  moreover have "set xs = set ys" using assms by (rule mset_eq_setD)
  moreover have "distinct (map er_id ys) \<Longrightarrow> sort_key er_id xs = sort_key er_id ys"
    using assms by (rule sort_key_distinct_mset)
  ultimately show ?thesis by (auto simp: canonicalEvidenceRequirements_def list_ex_iff)
qed

lemma map_res_permute:
  assumes "mset xs = mset ys"
  shows "(\<exists>us. map_res f xs = Inr us) \<longleftrightarrow> (\<exists>vs. map_res f ys = Inr vs)"
    and "map_res f xs = Inr us \<Longrightarrow> map_res f ys = Inr vs \<Longrightarrow> mset us = mset vs"
proof -
  have ex: "(\<exists>us. map_res f zs = Inr us) \<longleftrightarrow> (\<forall>z \<in> set zs. is_ok (f z))" for zs
    by (induction zs) (auto simp: res_bind_Inr_iff is_ok_iff)
  have val: "map_res f zs = Inr us \<Longrightarrow> us = map (projr \<circ> f) zs" for zs us
    by (induction zs arbitrary: us) (auto simp: res_bind_Inr_iff)
  show "(\<exists>us. map_res f xs = Inr us) \<longleftrightarrow> (\<exists>vs. map_res f ys = Inr vs)"
    unfolding ex using mset_eq_setD [OF assms] by simp
  show "mset us = mset vs" if "map_res f xs = Inr us" "map_res f ys = Inr vs"
    using val [OF that(1)] val [OF that(2)] assms by simp
qed

text \<open>
  The digest of a node contract depends on the roles and on the evidence requirements as sets.
  Listing either in another order gives the same digest, and the same error when the contract
  is not admissible.
\<close>

theorem deriveNodeContractV4_order_free:
  assumes "mset roles = mset (ci_roleEligibility w)" "mset reqs = mset (ci_evidenceRequirements w)"
  shows "deriveNodeContractV4 sha (w\<lparr>ci_roleEligibility := roles, ci_evidenceRequirements := reqs\<rparr>) bound
    = deriveNodeContractV4 sha w bound"
  using sortedUniqueStrings_permute [OF assms(1)] canonicalEvidenceRequirements_permute [OF assms(2)]
  by (simp add: deriveNodeContractV4_def node_contract_json_def)

definition demo_contract :: contract_input where
  "demo_contract = \<lparr>ci_type = TaskItem, ci_roleEligibility = [''engineer'', ''architect''], ci_runbook = None,
     ci_payload = None, ci_targetRef = None, ci_evidenceRequirements = [], ci_references = [],
     ci_leaseWindowMs = None, ci_nodeConfig = None\<rparr>"

theorem deriveNodeContractV4_order_free_witness:
  "deriveNodeContractV4 id (demo_contract\<lparr>ci_roleEligibility := [''architect'', ''engineer'']\<rparr>) []
     = deriveNodeContractV4 id demo_contract [] \<and> is_ok (deriveNodeContractV4 id demo_contract [])"
proof -
  have ok: "is_ok (deriveNodeContractV4 id demo_contract [])" by code_simp
  have m: "mset [''architect'', ''engineer''] = mset (ci_roleEligibility demo_contract)"
    by (simp add: demo_contract_def)
  have "demo_contract\<lparr>ci_roleEligibility := [''architect'', ''engineer'']\<rparr>
      = demo_contract\<lparr>ci_roleEligibility := [''architect'', ''engineer''],
          ci_evidenceRequirements := ci_evidenceRequirements demo_contract\<rparr>" by simp
  then show ?thesis
    using deriveNodeContractV4_order_free [OF m refl, of id "[]"] ok by simp
qed

end
