(* ===== verification/Thread_Types.thy ===== *)
theory Thread_Types
  imports Work_Types
begin

text \<open>
  The data of a thread (\<open>hub/src/state.ts\<close>): its messages, participants and staged actions, and the helpers
  that file exports over them: \<open>applyStagedActionOps\<close>, \<open>upsertParticipant\<close> and
  \<open>truncateClosedThreadMessages\<close>.

  The source has two role types: an author is an engineer, an architect or a verifier, a participant may also be the
  director, and it casts between them where a turn is passed on.  The model has one type for both.
  A stamp the hub makes itself is an instant, as in Js_Time.
\<close>

section \<open>Threads\<close>

datatype thread_status = ThActive | ThConverged | ThRoundLimit | ThClosed | ThAbandoned | ThCascadeFailed

datatype routing_mode = Unicast | Broadcast | Multicast

datatype party_role = PartyEngineer | PartyArchitect | PartyDirector | PartyVerifier

datatype thread_intent = DecisionNeeded | AgreementPending | DirectorInput | ImplementationReady

datatype semantic_intent =
    SeekRigorousCritique | SeekApproval | CollaborativeBrainstorm | Inform | SeekConsensus | RubberDuck
  | Educate | Mediate | PostMortem

record thread_message =
  tm_author :: party_role
  tm_authorAgentId :: "agent_id option"
  tm_text :: string
  tm_timestamp :: instant
  tm_converged :: bool
  tm_intent :: "thread_intent option"
  tm_semanticIntent :: "semantic_intent option"

record participant =
  pt_role :: party_role
  pt_agentId :: "agent_id option"
  pt_joinedAt :: instant
  pt_lastActiveAt :: instant

datatype staged_type =
    CloseNoAction | CreateIdea | UpdateIdea | UpdateMissionStatus | ProposeMission | CreateClarification | CreateBug

datatype staged_status = Staged | Revised | Retracted | Committed | Executed | Failed

record proposer =
  pr_role :: party_role
  pr_agentId :: "agent_id option"

record staged_action =
  sa_id :: string
  sa_type :: staged_type
  sa_status :: staged_status
  sa_proposer :: proposer
  sa_timestamp :: instant
  sa_payload :: json
  sa_revisionOf :: "string option"

datatype staged_op =
    StageOp staged_type json
  | ReviseOp string json
  | RetractOp string

record thread =
  thr_id :: string
  thr_title :: string
  thr_status :: thread_status
  thr_routingMode :: routing_mode
  thr_context :: "(string \<times> string) option"
  thr_idleExpiryMs :: "int option"
  thr_createdBy :: "party_role \<times> agent_id"
  thr_currentTurn :: party_role
  thr_currentTurnAgentId :: "agent_id option"
  thr_roundCount :: int
  thr_maxRounds :: int
  thr_outstandingIntent :: "thread_intent option"
  thr_currentSemanticIntent :: "semantic_intent option"
  thr_correlationId :: "string option"
  thr_convergenceActions :: "staged_action list"
  thr_summary :: string
  thr_participants :: "participant list"
  thr_recipientAgentId :: "agent_id option"
  thr_messages :: "thread_message list"
  thr_labels :: "(string \<times> string) list"
  thr_lastMessageConverged :: bool
  thr_createdAt :: instant
  thr_updatedAt :: instant
  thr_lastMessageProjectedAt :: "instant option"
  thr_cascadePending :: "bool option"
  thr_cascadePendingActionCount :: "int option"
  thr_cascadePendingStartedAt :: "instant option"
  thr_cascadeCompletedAt :: "instant option"

section \<open>The convergence gate\<close>

datatype gate_subtype =
    StageMissing | SummaryMissing | PayloadValidation | ReviseInvalid | RetractInvalid | GateAuthority
  | StaleReference | InvalidTransition

text \<open>
  Why a transform of a thread throws: a rejected transition (the operations swallow it and answer that nothing
  happened), or the convergence gate (the error reaches the caller).
\<close>

datatype thread_fault =
    ThreadRejected string
  | ConvergenceGate gate_subtype

section \<open>Staged actions\<close>

definition action_id :: "nat \<Rightarrow> string" where
  "action_id n = ''action-'' @ show_nat n"

definition push_action :: "staged_type \<Rightarrow> proposer \<Rightarrow> instant \<Rightarrow> json \<Rightarrow> string option \<Rightarrow> staged_action list
    \<Rightarrow> staged_action list" where
  "push_action ty p now payload revisionOf as =
     as @ [\<lparr>sa_id = action_id (length as + 1), sa_type = ty, sa_status = Staged, sa_proposer = p, sa_timestamp = now,
            sa_payload = payload, sa_revisionOf = revisionOf\<rparr>]"

text \<open>The first action with the id, if it is still staged: its position, or the fault.\<close>

definition staged_at :: "gate_subtype \<Rightarrow> string \<Rightarrow> staged_action list \<Rightarrow> thread_fault + nat" where
  "staged_at g i as =
     (case find_index (\<lambda>a. sa_id a = i) as of
        None \<Rightarrow> Inl (ConvergenceGate g)
      | Some k \<Rightarrow> if sa_status (as ! k) \<noteq> Staged then Inl (ConvergenceGate g) else Inr k)"

definition mark_action :: "nat \<Rightarrow> staged_status \<Rightarrow> staged_action list \<Rightarrow> staged_action list" where
  "mark_action k st as = as[k := (as ! k)\<lparr>sa_status := st\<rparr>]"

fun apply_staged_op :: "proposer \<Rightarrow> instant \<Rightarrow> staged_op \<Rightarrow> staged_action list \<Rightarrow> thread_fault + staged_action list" where
  "apply_staged_op p now (StageOp ty payload) as = Inr (push_action ty p now payload None as)"
| "apply_staged_op p now (ReviseOp i payload) as =
     res_bind (staged_at ReviseInvalid i as) (\<lambda>k.
       Inr (push_action (sa_type (as ! k)) p now payload (Some (sa_id (as ! k))) (mark_action k Revised as)))"
| "apply_staged_op p now (RetractOp i) as =
     res_bind (staged_at RetractInvalid i as) (\<lambda>k. Inr (mark_action k Retracted as))"

fun applyStagedActionOps :: "staged_op list \<Rightarrow> proposer \<Rightarrow> instant \<Rightarrow> staged_action list \<Rightarrow> thread_fault + staged_action list" where
  "applyStagedActionOps [] p now as = Inr as"
| "applyStagedActionOps (op # ops) p now as = res_bind (apply_staged_op p now op as) (applyStagedActionOps ops p now)"

section \<open>Participants\<close>

definition is_party :: "party_role \<Rightarrow> agent_id option \<Rightarrow> participant \<Rightarrow> bool" where
  "is_party role agentId p \<longleftrightarrow> pt_role p = role \<and> pt_agentId p = agentId"

definition upsertParticipant :: "participant list \<Rightarrow> party_role \<Rightarrow> agent_id option \<Rightarrow> instant \<Rightarrow> participant list" where
  "upsertParticipant ps role agentId now =
     (case find_index (is_party role agentId) ps of
        Some k \<Rightarrow> ps[k := (ps ! k)\<lparr>pt_lastActiveAt := now\<rparr>]
      | None \<Rightarrow> ps @ [\<lparr>pt_role = role, pt_agentId = agentId, pt_joinedAt = now, pt_lastActiveAt = now\<rparr>])"

section \<open>Reading a closed thread\<close>

definition CLOSED_THREAD_MESSAGE_KEEP :: nat where "CLOSED_THREAD_MESSAGE_KEEP = 3"

definition truncateClosedThreadMessages :: "thread \<Rightarrow> thread" where
  "truncateClosedThreadMessages t =
     (if thr_status t \<noteq> ThClosed then t
      else if length (thr_messages t) \<le> CLOSED_THREAD_MESSAGE_KEEP * 2 then t
      else t\<lparr>thr_messages := take CLOSED_THREAD_MESSAGE_KEEP (thr_messages t) @
             drop (length (thr_messages t) - CLOSED_THREAD_MESSAGE_KEEP) (thr_messages t)\<rparr>)"

end
