(* ===== verification/Decision_Types.thy ===== *)
theory Decision_Types
  imports Work_Types
begin

text \<open>
  The data of a decision (\<open>hub/src/entities/decision.ts\<close>) and its table of legal phase changes
  (\<open>DECISION_TRANSITIONS\<close> of \<open>hub/src/entities/decision-repository-substrate.ts\<close>).
\<close>

datatype decision_phase = DcRaised | DcCurated | DcRouted | DcResolved | DcExecuted | DcMerged | DcDisposed | DcWithdrawn

record decision_actor =
  da_agentId :: agent_id
  da_role :: string
  da_sessionId :: "string option"

record decision_option =
  do_id :: string
  do_label :: string
  do_description :: string
  do_preview :: "string option"
  do_consequences :: "string option"

datatype context_storage = CtxInline | CtxGit | CtxHubDoc | CtxEntity

record context_ref =
  cr_kind :: string
  cr_ref :: string
  cr_storage :: context_storage
  cr_mode :: reference_mode
  cr_required :: bool

datatype route_target = ToDirector | ToSelfDisposal

record decision_route =
  rt_target :: route_target
  rt_t5RuleRef :: "string option"
  rt_classGrantRef :: "string option"

datatype authority_mode = DirectorDirect | DirectorViaProxy | ArchitectT5 | ClassGrant | VerifierMandate

datatype decision_answer = ChosenOption string | CustomAnswer string

record decision_resolution =
  dr_authorityMode :: authority_mode
  dr_authorityRef :: "string option"
  dr_executor :: decision_actor
  dr_answer :: decision_answer
  dr_rationale :: "string option"
  dr_resolvedAt :: instant

datatype plan_verb = PlanUnblock | PlanApprove | PlanBindAxiom | PlanAmendCharter

record plan_action =
  pa_action :: plan_verb
  pa_targetRef :: string
  pa_params :: "(string \<times> json) list option"

record step_result =
  sr_action :: plan_verb
  sr_targetRef :: string
  sr_ok :: bool

record executor_binding =
  eb_executor :: decision_actor
  eb_boundAt :: instant
  eb_ok :: bool
  eb_results :: "step_result list"

record decision_durations =
  dd_raised :: int
  dd_curated :: int
  dd_routed :: int
  dd_resolved :: int

definition DEFAULT_DWELL :: decision_durations where
  "DEFAULT_DWELL = \<lparr>dd_raised = 0, dd_curated = 0, dd_routed = 0, dd_resolved = 0\<rparr>"

record decision =
  dc_id :: string
  dc_parentRef :: "(string \<times> string) option"
  dc_class :: "string option"
  dc_title :: string
  dc_context :: string
  dc_contextRefs :: "context_ref list"
  dc_options :: "decision_option list"
  dc_raisedBy :: decision_actor
  dc_curatedBy :: "decision_actor option"
  dc_curationRecordRef :: "string option"
  dc_routedTo :: "decision_route option"
  dc_routedBy :: "decision_actor option"
  dc_resolution :: "decision_resolution option"
  dc_executionPlan :: "plan_action list"
  dc_mergedInto :: "string option"
  dc_disposedReason :: "string option"
  dc_executorBinding :: "executor_binding option"
  dc_status :: decision_phase
  dc_enteredCurrentStateAt :: instant
  dc_stateDurations :: decision_durations
  dc_createdAt :: instant
  dc_updatedAt :: instant

fun DECISION_TRANSITIONS :: "decision_phase \<Rightarrow> decision_phase list" where
  "DECISION_TRANSITIONS DcRaised = [DcCurated, DcMerged, DcDisposed, DcWithdrawn]"
| "DECISION_TRANSITIONS DcCurated = [DcRouted, DcMerged, DcDisposed, DcWithdrawn]"
| "DECISION_TRANSITIONS DcRouted = [DcResolved, DcDisposed]"
| "DECISION_TRANSITIONS DcResolved = [DcExecuted]"
| "DECISION_TRANSITIONS DcExecuted = []"
| "DECISION_TRANSITIONS DcMerged = []"
| "DECISION_TRANSITIONS DcDisposed = []"
| "DECISION_TRANSITIONS DcWithdrawn = []"

definition DECISION_TERMINALS :: "decision_phase list" where
  "DECISION_TERMINALS = [DcExecuted, DcMerged, DcDisposed, DcWithdrawn]"

end
