(* ===== verification/Authority_Types.thy ===== *)
theory Authority_Types
  imports Decision_Types Work_Json
begin

text \<open>
  The proof objects a decision is resolved on: director signals and confirmations (\<open>hub/src/entities/director-proof.ts\<close>),
  class grants (\<open>hub/src/entities/class-grant.ts\<close>) and the curation records (\<open>hub/src/entities/curation.ts\<close>), with the
  JSON text and the hashes that bind them to a decision.  Members that are constants of the schema (the issuer of
  a grant) are left out.
\<close>

section \<open>Signals and confirmations\<close>

datatype signal_confidence = Authenticated | SessionBound | SideChannelLow

record director_signal =
  sg_id :: string
  sg_confirmationId :: "string option"
  sg_channel :: string
  sg_rawIngressRef :: "string option"
  sg_rawContentHash :: string
  sg_answer :: string
  sg_capturedAt :: instant
  sg_capturedBy :: decision_actor
  sg_capturedBySurface :: string
  sg_confidence :: signal_confidence
  sg_replyable :: bool
  sg_createdAt :: instant
  sg_updatedAt :: instant

record director_confirmation =
  cf_id :: string
  cf_decisionId :: string
  cf_promptHash :: string
  cf_proposedResolutionHash :: string
  cf_proposedAnswer :: decision_answer
  cf_executionPlanHash :: "string option"
  cf_mintedBy :: "decision_actor option"
  cf_nonce :: string
  cf_createdAt :: instant
  cf_expiresAt :: instant
  cf_answeredBySignalId :: "string option"
  cf_consumedAt :: "instant option"
  cf_consumedBy :: "agent_id option"
  cf_updatedAt :: instant

section \<open>Class grants\<close>

datatype grant_state = GrActive | GrRevoked | GrSuperseded

record class_grant =
  cg_id :: string
  cg_version :: int
  cg_class :: string
  cg_allowedActions :: "string list"
  cg_reversibleOnly :: bool
  cg_parentKinds :: "string list option"
  cg_excludedRefs :: "string list"
  cg_excludedClasses :: "string list"
  cg_ratificationRef :: string
  cg_state :: grant_state
  cg_representationDue :: instant
  cg_supersedes :: "string option"
  cg_supersededBy :: "string option"
  cg_createdAt :: instant
  cg_updatedAt :: instant

record grant_ratification =
  gr_id :: string
  gr_grantId :: string
  gr_consumedAt :: instant
  gr_createdAt :: instant
  gr_updatedAt :: instant

section \<open>Curation\<close>

record raw_decision =
  rw_id :: string
  rw_decisionId :: string
  rw_title :: string
  rw_context :: string
  rw_class :: "string option"
  rw_options :: "decision_option list"
  rw_contextRefs :: "context_ref list"
  rw_raisedBy :: decision_actor
  rw_raisedAt :: instant
  rw_createdAt :: instant
  rw_updatedAt :: instant

datatype curation_act = ActCurate | ActMerge | ActDispose | ActRouteSelfDisposal

record curation_record =
  cu_id :: string
  cu_decisionId :: string
  cu_act :: curation_act
  cu_changes :: "(string \<times> json \<times> json) list"
  cu_curator :: decision_actor
  cu_basis :: string
  cu_sourceRawIds :: "string list"
  cu_grantCitation :: "string option"
  cu_createdAt :: instant
  cu_updatedAt :: instant

section \<open>The JSON text of a prompt, an answer and a plan\<close>

text \<open>\<open>JSON.stringify\<close>: the members of an object in their own order.\<close>

fun stringify :: "json \<Rightarrow> string" where
  "stringify JNull = ''null''"
| "stringify (JBool b) = (if b then ''true'' else ''false'')"
| "stringify (JNum i) = show_int i"
| "stringify (JStr s) = json_string s"
| "stringify (JArr vs) = CHR ''['' # join_comma (map stringify vs) @ '']''"
| "stringify (JObj kvs) = CHR ''{'' # join_comma (map (\<lambda>(k, v). json_string k @ CHR '':'' # stringify v) kvs) @ ''}''"

definition sha256Hex :: "sha256 \<Rightarrow> string \<Rightarrow> string" where
  "sha256Hex sha content = sha content"

fun plan_verb_name :: "plan_verb \<Rightarrow> string" where
  "plan_verb_name PlanUnblock = ''unblock''"
| "plan_verb_name PlanApprove = ''approve''"
| "plan_verb_name PlanBindAxiom = ''bind_axiom''"
| "plan_verb_name PlanAmendCharter = ''amend_charter''"

definition option_json :: "decision_option \<Rightarrow> json" where
  "option_json p = json_obj
     [(''id'', Some (JStr (do_id p))), (''label'', Some (JStr (do_label p))), (''description'', Some (JStr (do_description p))),
      (''preview'', json_opt JStr (do_preview p)), (''consequences'', json_opt JStr (do_consequences p))]"

fun answer_json :: "decision_answer \<Rightarrow> json" where
  "answer_json (ChosenOption i) = JObj [(''chosenOptionId'', JStr i)]"
| "answer_json (CustomAnswer x) = JObj [(''customAnswer'', JStr x)]"

definition plan_action_json :: "plan_action \<Rightarrow> json" where
  "plan_action_json a = json_obj
     [(''action'', Some (JStr (plan_verb_name (pa_action a)))), (''targetRef'', Some (JStr (pa_targetRef a))),
      (''params'', json_opt JObj (pa_params a))]"

definition hashProposedResolution :: "sha256 \<Rightarrow> decision_answer \<Rightarrow> string" where
  "hashProposedResolution sha answer = sha256Hex sha (stringify (answer_json answer))"

definition hashExecutionPlan :: "sha256 \<Rightarrow> plan_action list \<Rightarrow> string option" where
  "hashExecutionPlan sha plan =
     (if plan = [] then None else Some (sha256Hex sha (stringify (JArr (map plan_action_json plan)))))"

definition canonicalPromptHash :: "sha256 \<Rightarrow> decision \<Rightarrow> string" where
  "canonicalPromptHash sha d = sha256Hex sha (stringify (JObj
     [(''id'', JStr (dc_id d)), (''title'', JStr (dc_title d)), (''context'', JStr (dc_context d)),
      (''options'', JArr (map option_json (dc_options d)))]))"

definition route_json :: "decision_route \<Rightarrow> json" where
  "route_json r = json_obj
     [(''target'', Some (JStr (case rt_target r of ToDirector \<Rightarrow> ''director'' | ToSelfDisposal \<Rightarrow> ''self-disposal''))),
      (''selfDisposal'',
        if rt_t5RuleRef r = None \<and> rt_classGrantRef r = None then None
        else Some (json_obj [(''t5RuleRef'', json_opt JStr (rt_t5RuleRef r)), (''classGrantRef'', json_opt JStr (rt_classGrantRef r))]))]"

end
