(* ===== verification/Message_Types.thy ===== *)
theory Message_Types
  imports Js_Time
begin

text \<open>The data of a message (\<open>hub/src/entities/message.ts\<close>) and the per-kind rules of that file.\<close>

datatype message_kind = ReplyMsg | NoteMsg | ExternalInjection | Amendment | UrgencyFlag

datatype message_role = MrArchitect | MrEngineer | MrDirector | MrVerifier | MrSystem

datatype message_delivery = PushImmediate | Queued | Scheduled

datatype message_status = MsgNew | MsgReceived | MsgAcked

datatype scheduled_state = ScPending | ScDelivered | ScPreconditionFailed

record message_target =
  mt_role :: "message_role option"
  mt_agentId :: "agent_id option"

record message =
  ms_id :: string
  ms_kind :: message_kind
  ms_authorRole :: message_role
  ms_authorAgentId :: agent_id
  ms_target :: "message_target option"
  ms_delivery :: message_delivery
  ms_status :: message_status
  ms_claimedBy :: "agent_id option"
  ms_threadId :: "string option"
  ms_sequenceInThread :: "int option"
  ms_payload :: json
  ms_escalation :: "(int \<times> string) option"
  ms_precondition :: "json option"
  ms_fireAt :: "stamp option"
  ms_scheduledState :: "scheduled_state option"
  ms_retryCount :: "int option"
  ms_maxRetries :: "int option"
  ms_intent :: "string option"
  ms_semanticIntent :: "string option"
  ms_converged :: "bool option"
  ms_migrationSourceId :: "string option"
  ms_createdAt :: instant
  ms_updatedAt :: instant

section \<open>The axes of a kind\<close>

datatype authorized_authors = AnyAuthor | DirectorOnly | SelfOnly

record kind_axes =
  ka_requires_turn :: bool
  ka_shifts_turn :: bool
  ka_authorized_authors :: authorized_authors

fun KIND_AXES :: "message_kind \<Rightarrow> kind_axes" where
  "KIND_AXES ReplyMsg = \<lparr>ka_requires_turn = True, ka_shifts_turn = True, ka_authorized_authors = AnyAuthor\<rparr>"
| "KIND_AXES NoteMsg = \<lparr>ka_requires_turn = False, ka_shifts_turn = False, ka_authorized_authors = AnyAuthor\<rparr>"
| "KIND_AXES ExternalInjection = \<lparr>ka_requires_turn = False, ka_shifts_turn = False, ka_authorized_authors = AnyAuthor\<rparr>"
| "KIND_AXES Amendment = \<lparr>ka_requires_turn = False, ka_shifts_turn = False, ka_authorized_authors = SelfOnly\<rparr>"
| "KIND_AXES UrgencyFlag = \<lparr>ka_requires_turn = False, ka_shifts_turn = True, ka_authorized_authors = DirectorOnly\<rparr>"

definition requiresTurn :: "message_kind \<Rightarrow> bool" where
  "requiresTurn k = ka_requires_turn (KIND_AXES k)"

definition shiftsTurn :: "message_kind \<Rightarrow> bool" where
  "shiftsTurn k = ka_shifts_turn (KIND_AXES k)"

datatype author_fault = DirectorRequired | PriorAuthorRequired | NotPriorAuthor

definition checkAuthorAuthorized :: "message_kind \<Rightarrow> message_role \<Rightarrow> agent_id \<Rightarrow> agent_id option \<Rightarrow> author_fault option" where
  "checkAuthorAuthorized kind authorRole authorAgentId priorAuthorAgentId =
     (case ka_authorized_authors (KIND_AXES kind) of
        AnyAuthor \<Rightarrow> None
      | DirectorOnly \<Rightarrow> if authorRole = MrDirector then None else Some DirectorRequired
      | SelfOnly \<Rightarrow>
          (case priorAuthorAgentId of
             None \<Rightarrow> Some PriorAuthorRequired
           | Some a \<Rightarrow> if authorAgentId = a then None else Some NotPriorAuthor))"

section \<open>The payload of a note\<close>

text \<open>A member of an object; anything else has none.\<close>

definition json_get :: "json \<Rightarrow> string \<Rightarrow> json option" where
  "json_get v k = (case v of JObj ms \<Rightarrow> map_of ms k | _ \<Rightarrow> None)"

text \<open>\<open>validateNotePayload\<close> of \<open>hub/src/policy/note-schema.ts\<close>; a payload that is undefined is a null here.\<close>

definition validateNotePayload :: "json \<Rightarrow> bool" where
  "validateNotePayload payload =
     (case payload of
        JObj ms \<Rightarrow> (case map_of ms ''body'' of Some (JStr b) \<Rightarrow> b \<noteq> [] | _ \<Rightarrow> False)
      | _ \<Rightarrow> False)"

end
