(* ===== verification/Agent_Types.thy ===== *)
theory Agent_Types
  imports Js_Time
begin

text \<open>
  The data of the agent registry (\<open>hub/src/state.ts\<close>): an agent, its metadata, and what is computed from it alone.
  Instants the hub stamps itself are kept as instants.
\<close>

section \<open>States\<close>

datatype agent_status = AgOnline | AgOffline

datatype agent_liveness = LvOnline | LvDegraded | LvUnresponsive | LvOffline

datatype component_state = CsAlive | CsUnresponsive | CsUnknown

datatype activity_state = AcOffline | AcIdle | AcWorking | AcQuotaBlocked | AcPaused

section \<open>Records\<close>

type_synonym agent_labels = "(string \<times> string) list"

record agent_client_metadata =
  am_clientName :: string
  am_clientVersion :: string
  am_proxyName :: string
  am_proxyVersion :: string
  am_transport :: "string option"
  am_sdkVersion :: "string option"
  am_hostname :: "string option"
  am_platform :: "string option"
  am_pid :: "int option"
  am_proxyCommitSha :: "string option"
  am_proxyDirty :: "bool option"
  am_sdkCommitSha :: "string option"
  am_sdkDirty :: "bool option"

record agent_advisory_tags =
  at_llmModel :: "string option"
  at_sdkVersion :: "string option"
  at_shimVersion :: "string option"
  at_proxyCommitSha :: "string option"
  at_proxyDirty :: "bool option"
  at_sdkCommitSha :: "string option"
  at_sdkDirty :: "bool option"
  at_others :: "(string \<times> json) list"

record agent_liveness_config =
  al_peerPresenceWindowMs :: "int option"
  al_agentTouchMinIntervalMs :: "int option"
  al_transportHeartbeatIntervalMs :: "int option"
  al_transportHeartbeatEnabled :: "bool option"

record agent_pulse_config =
  ap_intervalSeconds :: int
  ap_message :: string
  ap_missedThreshold :: int
  ap_enabled :: bool
  ap_lastFiredAt :: "string option"

record agent_error_record =
  ae_at :: string
  ae_toolCall :: string
  ae_errorClass :: string
  ae_message :: string

record agent =
  ag_id :: agent_id
  ag_fingerprint :: string
  ag_role :: string
  ag_status :: agent_status
  ag_archived :: bool
  ag_sessionEpoch :: int
  ag_currentSessionId :: "string option"
  ag_registeredSessions :: "string list"
  ag_clientMetadata :: agent_client_metadata
  ag_advisoryTags :: agent_advisory_tags
  ag_labels :: agent_labels
  ag_firstSeenAt :: instant
  ag_lastSeenAt :: instant
  ag_livenessState :: agent_liveness
  ag_lastHeartbeatAt :: instant
  ag_receiptSla :: int
  ag_wakeEndpoint :: "string option"
  ag_name :: string
  ag_activityState :: activity_state
  ag_sessionStartedAt :: "instant option"
  ag_lastToolCallAt :: "instant option"
  ag_lastToolCallName :: "string option"
  ag_idleSince :: "instant option"
  ag_workingSince :: "instant option"
  ag_quotaBlockedUntil :: "instant option"
  ag_adapterVersion :: string
  ag_ipAddress :: "string option"
  ag_restartCount :: nat
  ag_recentErrors :: "agent_error_record list"
  ag_restartHistoryMs :: "instant list"
  ag_cognitiveTTL :: "int option"
  ag_transportTTL :: "int option"
  ag_cognitiveState :: component_state
  ag_transportState :: component_state
  ag_livenessConfig :: "agent_liveness_config option"
  ag_pulseConfig :: "agent_pulse_config option"
  ag_thrashCount :: int
  ag_quarantined :: bool

section \<open>Labels\<close>

text \<open>A label record has each key once; keys and values are compared as texts.\<close>

definition labelsMatch :: "agent_labels \<Rightarrow> agent_labels option \<Rightarrow> bool" where
  "labelsMatch labels wanted =
     (case wanted of None \<Rightarrow> True | Some kvs \<Rightarrow> list_all (\<lambda>(k, v). map_of labels k = Some v) kvs)"

definition shallowEqualLabels :: "agent_labels \<Rightarrow> agent_labels \<Rightarrow> bool" where
  "shallowEqualLabels a b \<longleftrightarrow> length a = length b \<and> list_all (\<lambda>(k, v). map_of b k = Some v) a"

section \<open>Liveness\<close>

definition computeLivenessState :: "agent \<Rightarrow> instant \<Rightarrow> agent_liveness" where
  "computeLivenessState a now =
     (if ag_livenessState a = LvOffline then LvOffline
      else let stale = now - ag_lastHeartbeatAt a; sla = ag_receiptSla a in
        if stale \<le> 2 * sla then LvOnline else if stale \<le> 4 * sla then LvDegraded else LvUnresponsive)"

text \<open>
  The precedence of the presence window: the agent's own setting, the environment's
  (\<open>PEER_PRESENCE_WINDOW_MS\<close>, an argument), the default.
\<close>

definition PEER_PRESENCE_WINDOW_MS_DEFAULT :: int where "PEER_PRESENCE_WINDOW_MS_DEFAULT = 60000"

definition resolveLivenessConfig :: "int option \<Rightarrow> agent \<Rightarrow> int" where
  "resolveLivenessConfig env a =
     (case Option.bind (ag_livenessConfig a) al_peerPresenceWindowMs of
        Some w \<Rightarrow> w
      | None \<Rightarrow> (case env of Some w \<Rightarrow> w | None \<Rightarrow> PEER_PRESENCE_WINDOW_MS_DEFAULT))"

definition ttlRemainingFromIso :: "instant \<Rightarrow> instant \<Rightarrow> int \<Rightarrow> int" where
  "ttlRemainingFromIso at now window = max 0 ((window - (now - at)) div 1000)"

definition deriveStateFromTTL :: "int option \<Rightarrow> component_state" where
  "deriveStateFromTTL ttl =
     (case ttl of None \<Rightarrow> CsUnknown | Some t \<Rightarrow> if t \<le> 0 then CsUnresponsive else CsAlive)"

definition computeComponentStates :: "int option \<Rightarrow> instant \<Rightarrow> agent \<Rightarrow> agent" where
  "computeComponentStates env now a =
     (let window = resolveLivenessConfig env a;
          cognitive = ttlRemainingFromIso (ag_lastSeenAt a) now window;
          transport = ttlRemainingFromIso (ag_lastHeartbeatAt a) now window
      in a\<lparr>ag_cognitiveTTL := Some cognitive, ag_cognitiveState := deriveStateFromTTL (Some cognitive),
           ag_transportTTL := Some transport, ag_transportState := deriveStateFromTTL (Some transport)\<rparr>)"

section \<open>Displacements\<close>

definition THRASHING_WINDOW_MS :: int where "THRASHING_WINDOW_MS = 60000"

definition THRASHING_THRESHOLD :: nat where "THRASHING_THRESHOLD = 3"

definition recordDisplacementAndCheck :: "instant list \<Rightarrow> instant \<Rightarrow> instant list \<times> bool" where
  "recordDisplacementAndCheck history now =
     (let h = dropWhile (\<lambda>t. t < now - THRASHING_WINDOW_MS) (history @ [now]) in (h, THRASHING_THRESHOLD < length h))"

text \<open>Identity is a hash of the name.\<close>

definition deriveAgentId :: "(string \<Rightarrow> string) \<Rightarrow> string \<Rightarrow> agent_id" where
  "deriveAgentId sha name = ''agent-'' @ take 8 (sha name)"

end
