(* ===== verification/Pending_Types.thy ===== *)
theory Pending_Types
  imports Work_Types
begin

text \<open>
  The data of a queued action (\<open>hub/src/entities/pending-action.ts\<close>): what the hub owes an agent a push for, with the deadlines of its
  receipt and its completion.  A deadline a caller supplies is a stamp; those the hub makes are instants with their own text.
\<close>

datatype dispatch_type =
    ThreadMessageDispatch | ThreadConvergenceFinalized | TaskIssued | ProposalSubmitted | ReportCreated | ReviewRequested

fun dispatch_name :: "dispatch_type \<Rightarrow> string" where
  "dispatch_name ThreadMessageDispatch = ''thread_message''"
| "dispatch_name ThreadConvergenceFinalized = ''thread_convergence_finalized''"
| "dispatch_name TaskIssued = ''task_issued''"
| "dispatch_name ProposalSubmitted = ''proposal_submitted''"
| "dispatch_name ReportCreated = ''report_created''"
| "dispatch_name ReviewRequested = ''review_requested''"

datatype pending_state = PaEnqueued | PaReceiptAcked | PaCompletionAcked | PaEscalated | PaErrored | PaContinuationRequired

record pending_action =
  pa_id :: string
  pa_targetAgentId :: agent_id
  pa_dispatchType :: dispatch_type
  pa_entityRef :: string
  pa_naturalKey :: string
  pa_payload :: json
  pa_enqueuedAt :: instant
  pa_receiptDeadline :: stamp
  pa_completionDeadline :: stamp
  pa_receiptAckedAt :: "instant option"
  pa_completionAckedAt :: "instant option"
  pa_attemptCount :: int
  pa_lastAttemptAt :: "instant option"
  pa_state :: pending_state
  pa_escalationReason :: "string option"
  pa_createdBy :: "actor option"
  pa_continuationState :: "json option"
  pa_continuationSavedAt :: "instant option"

record enqueue_options =
  eo_targetAgentId :: agent_id
  eo_dispatchType :: dispatch_type
  eo_entityRef :: string
  eo_payload :: json
  eo_receiptSlaMs :: "int option"
  eo_completionSlaMs :: "int option"
  eo_createdBy :: "actor option"

definition DEFAULT_RECEIPT_SLA_MS :: int where "DEFAULT_RECEIPT_SLA_MS = 60000"

definition DEFAULT_COMPLETION_SLA_MS :: int where "DEFAULT_COMPLETION_SLA_MS = 5 * 60000"

end
