(* ===== verification/Ledger_Types.thy ===== *)
theory Ledger_Types
  imports Work_Types
begin

text \<open>
  The data of the planning ledgers: ideas, bugs, missions and proposals (\<open>hub/src/entities/idea.ts\<close>, \<open>bug.ts\<close>, \<open>mission.ts\<close>,
  \<open>hub/src/state.ts\<close>).  The execution plan and the scaffold of a proposal are passed through untouched and stay JSON.  A mission is
  stored without its ideas, which are computed on read.
\<close>

record cascade_backlink =
  cb_sourceThreadId :: string
  cb_sourceActionId :: string
  cb_sourceThreadSummary :: string

section \<open>Ideas\<close>

datatype idea_status = IdeaOpen | IdeaTriaged | IdeaDismissed | IdeaIncorporated

record idea =
  id_id :: string
  id_text :: string
  id_createdBy :: actor
  id_status :: idea_status
  id_missionId :: "string option"
  id_sourceThreadId :: "string option"
  id_sourceActionId :: "string option"
  id_sourceThreadSummary :: "string option"
  id_tags :: "string list"
  id_createdAt :: instant
  id_updatedAt :: instant

section \<open>Bugs\<close>

datatype bug_status = BugOpen | BugInvestigating | BugResolved | BugWontfix

datatype bug_severity = BugCritical | BugMajor | BugMinor

record bug =
  bg_id :: string
  bg_title :: string
  bg_description :: string
  bg_status :: bug_status
  bg_severity :: bug_severity
  bg_class :: "string option"
  bg_tags :: "string list"
  bg_sourceIdeaId :: "string option"
  bg_sourceThreadId :: "string option"
  bg_sourceActionId :: "string option"
  bg_sourceThreadSummary :: "string option"
  bg_linkedTaskIds :: "string list"
  bg_linkedMissionId :: "string option"
  bg_fixCommits :: "string list"
  bg_fixRevision :: "string option"
  bg_repo :: "string option"
  bg_surfacedBy :: "string option"
  bg_createdBy :: "actor option"
  bg_createdAt :: instant
  bg_updatedAt :: instant

section \<open>Missions\<close>

datatype mission_status = MissionProposed | MissionActive | MissionCompleted | MissionAbandoned

datatype mission_class =
    Spike | SubstrateIntroduction | PreSubstrateCleanup | StructuralInflection | CoordinationPrimitiveShipment
  | SagaSubstrateCompletion | SubstrateCleanupWave | DistributionPackaging

datatype pulse_shape = PulseAck | PulseShortStatus | PulseFullStatus

record mission_pulse =
  mp_intervalSeconds :: int
  mp_message :: string
  mp_responseShape :: pulse_shape
  mp_missedThreshold :: int
  mp_firstFireDelaySeconds :: "int option"
  mp_lastFiredAt :: "string option"
  mp_lastResponseAt :: "string option"
  mp_missedCount :: "int option"
  mp_lastEscalatedAt :: "string option"

record mission_pulses =
  ps_engineerPulse :: "mission_pulse option"
  ps_architectPulse :: "mission_pulse option"

record mission =
  mi_id :: string
  mi_title :: string
  mi_description :: string
  mi_documentRef :: "string option"
  mi_status :: mission_status
  mi_correlationId :: "string option"
  mi_sourceThreadId :: "string option"
  mi_sourceActionId :: "string option"
  mi_sourceThreadSummary :: "string option"
  mi_createdBy :: "actor option"
  mi_missionClass :: "mission_class option"
  mi_pulses :: "mission_pulses option"
  mi_createdAt :: instant
  mi_updatedAt :: instant

definition isMissionCommittable :: "mission_status \<Rightarrow> bool" where
  "isMissionCommittable st \<longleftrightarrow> st \<notin> {MissionCompleted, MissionAbandoned}"

section \<open>Proposals\<close>

datatype proposal_status = PropSubmitted | PropApproved | PropRejected | PropChangesRequested | PropImplemented

record proposal =
  pr_id :: string
  pr_title :: string
  pr_summary :: string
  pr_proposalRef :: string
  pr_status :: proposal_status
  pr_decision :: "proposal_status option"
  pr_feedback :: "string option"
  pr_correlationId :: "string option"
  pr_executionPlan :: "json option"
  pr_scaffoldResult :: "json option"
  pr_labels :: "(string \<times> string) list"
  pr_sourceThreadId :: "string option"
  pr_sourceActionId :: "string option"
  pr_sourceThreadSummary :: "string option"
  pr_createdBy :: "actor option"
  pr_createdAt :: instant
  pr_updatedAt :: instant

end
