(* ===== verification/Hub_Store.thy ===== *)
theory Hub_Store
  imports Substrate Work_Evidence Node_Contract Thread_Types Authority_Types Message_Types Agent_Types
    Pending_Types Ledger_Types
begin

text \<open>
  The universe of rows the repositories read and write, the errors the work-item operations throw,
  and typed reads of a row.  Work items, agents, threads, messages, queued actions, the planning ledgers and decisions with their proof objects are whole; a row
  the repositories only look at for a relation (an audit entry) keeps just the members they look
  at; the counter row keeps its map of counters.
\<close>

section \<open>Rows\<close>

text \<open>The topology generation, its head, a revision family and a revision operation
  (\<open>hub/src/entities/work-revision-storage-v4.ts\<close>), with the members the work-item repository uses.\<close>

record topology_binding =
  tb_physicalId :: string
  tb_revision :: int
  tb_nodeContractHashVersion :: string
  tb_nodeContractHash :: string
  tb_nodeTopologyHashVersion :: string
  tb_nodeTopologyHash :: string

record topology_generation =
  tg_id :: string
  tg_generation :: int
  tg_bindings :: "(string \<times> topology_binding) list"
  tg_dependsOn :: "(string \<times> string list) list"
  tg_completionDependsOn :: "(string \<times> string list) list"
  tg_reverseCompletionDependsOn :: "(string \<times> string list) list"
  tg_topologyHash :: string
  tg_operationId :: string

record topology_head =
  th_domain :: string
  th_generation :: int
  th_manifestId :: string
  th_topologyHash :: string
  th_operationId :: string

record revision_family =
  wf_logicalId :: string
  wf_originalCreatedBy :: "actor option"

record revision_operation =
  ro_id :: string
  ro_recommitSet :: "string list"
  ro_recommittedSet :: "string list option"
  ro_recommitOperationId :: "string option"
  ro_recommitRequestHash :: "string option"
  ro_recommittedAt :: "instant option"

datatype hub_entity =
    EWork work_item
  | EGeneration topology_generation
  | EHead topology_head
  | EFamily revision_family
  | EOperation revision_operation
  | EAgent agent
  | ESessionBinding string agent_id
  | EAudit string "string option" "string option"
  | ECounter "(string \<times> int) list"
  | EThread thread
  | EDecision decision
  | EMessage message
  | ESignal director_signal
  | EConfirmation director_confirmation
  | EGrant class_grant
  | ERatification grant_ratification
  | ERaw raw_decision
  | ECuration curation_record
  | EPending pending_action
  | EIdea idea
  | EBug bug
  | EMission mission
  | EProposal proposal
  | EOther string

definition WORK_GRAPH_HEAD_ID :: string where
  "WORK_GRAPH_HEAD_ID = ''global-v1''"

fun ident :: "hub_entity \<Rightarrow> string option" where
  "ident (EWork w) = Some (wi_id w)"
| "ident (EGeneration g) = Some (tg_id g)"
| "ident (EHead h) = Some WORK_GRAPH_HEAD_ID"
| "ident (EFamily f) = Some (wf_logicalId f)"
| "ident (EOperation p) = Some (ro_id p)"
| "ident (EAgent a) = Some (ag_id a)"
| "ident (ESessionBinding sid a) = Some sid"
| "ident (EAudit i rel act) = Some i"
| "ident (ECounter m) = Some ''counter''"
| "ident (EThread t) = Some (thr_id t)"
| "ident (EDecision d) = Some (dc_id d)"
| "ident (EMessage m) = Some (ms_id m)"
| "ident (ESignal g) = Some (sg_id g)"
| "ident (EConfirmation c) = Some (cf_id c)"
| "ident (EGrant g) = Some (cg_id g)"
| "ident (ERatification r) = Some (gr_id r)"
| "ident (ERaw r) = Some (rw_id r)"
| "ident (ECuration c) = Some (cu_id c)"
| "ident (EPending a) = Some (pa_id a)"
| "ident (EIdea x) = Some (id_id x)"
| "ident (EBug x) = Some (bg_id x)"
| "ident (EMission x) = Some (mi_id x)"
| "ident (EProposal x) = Some (pr_id x)"
| "ident (EOther i) = Some i"

type_synonym hub_store = "hub_entity substrate"

definition WORK_KIND :: string where "WORK_KIND = ''WorkItem''"
definition HEAD_KIND :: string where "HEAD_KIND = ''WorkGraphTopologyHead''"
definition GENERATION_KIND :: string where "GENERATION_KIND = ''WorkGraphTopologyGeneration''"
definition FAMILY_KIND :: string where "FAMILY_KIND = ''WorkRevisionFamily''"
definition OPERATION_KIND :: string where "OPERATION_KIND = ''WorkGraphRevisionOperation''"

section \<open>Errors\<close>

datatype currentness_code =
    OldOrDraft | IdentityMismatch | HeadChanged | RevisionRequired | Integrity
  | ActorForbidden | ArchitectRequired | DirectorOrArchitectRequired | HolderHasNoAuthority
  | CurrentnessMismatch

datatype update_reason =
    EmptyMutation
  | UpdateTargetMissing
  | NeitherAuthorNorArchitect
  | TerminalItem phase
  | EvidenceContractFrozen
  | TargetRefFrozen
  | NotEditableLive
  | HolderRoleUnresolved
  | HolderChanged
  | HolderWouldBeOrphaned
  | DependsOnOnlyWhileReady
  | ReferencesOnlyPreClaim
  | StaleWrite

datatype rejection =
    WrongPhase verb phase
  | Suspended verb
  | NotLeaseHolder verb
  | StaleLeaseToken verb
  | OperationIdRequired
  | ReasonRequired
  | LocatorRequired
  | NoCurrentBinding
  | OperationReusedWithDifferentBytes
  | ExpectationMismatch
  | AlreadySuspended
  | CorruptReadyWithLease
  | CorruptActiveWithoutLease
  | CorruptBlockedWithoutBlocker
  | PauseForbidden
  | PinRequired
  | FamilyMissing
  | NotSuspended verb
  | ResetForbidden
  | LeaseExpired
  | NotBlockedOn
  | AbandonForbidden
  | SuspendedDisposalForbidden string
  | RecommitMalformed
  | BatchUnpause
  | NoticeIntentMissing
  | NoticeAlreadyProjected
  | NotSealed
  | UpdateRejected update_reason
  | CreateConflict

datatype claim_reason = RoleNotEligible | DependenciesNotDone "string list"

datatype attestation_reason =
    NoEvidenceRefs
  | MalformedEvidenceRef
  | ItemNotFound
  | RequirementNotFound
  | NotAttestationRequirement
  | FailOutsideReview
  | SelfAttestation
  | InvalidEvidenceRefs
  | TargetRelocated

datatype wi_error =
    TransitionRejected rejection
  | WipCapExceeded agent_id nat nat
  | EvidencePredicateFailed evidence_error
  | CompletionGateRejected nat nat "string list"
  | ClaimRejected claim_reason
  | FailedGateSealedRejected string
  | AttestationRejected attestation_reason
  | CurrentnessRejected currentness_code
  | ContractRejected contract_error
  | StoreThrew store_error
  | CasRetriesExhausted
  | IntegrityError
  | IdempotentRecall work_item
  | IdempotentFailedSeal work_item

section \<open>Typed reads\<close>

definition get_work :: "string \<Rightarrow> hub_store \<Rightarrow> work_item option" where
  "get_work i s = (case get_op WORK_KIND i s of Some (EWork w) \<Rightarrow> Some (cloneWorkItem w) | _ \<Rightarrow> None)"

fun as_work :: "hub_entity \<Rightarrow> work_item option" where
  "as_work (EWork w) = Some w"
| "as_work _ = None"

definition all_work :: "hub_store \<Rightarrow> work_item list" where
  "all_work s = map cloneWorkItem (List.map_filter (as_work \<circ> row_data \<circ> snd) (getKindStore WORK_KIND s))"

definition get_head :: "hub_store \<Rightarrow> (topology_head \<times> revision) option" where
  "get_head s = (case getWithRevision HEAD_KIND WORK_GRAPH_HEAD_ID s of
     Some (EHead h, rv) \<Rightarrow> Some (h, rv) | _ \<Rightarrow> None)"

definition topologyGenerationId :: "int \<Rightarrow> string" where
  "topologyGenerationId g = ''work-topology-generation-'' @ show_int g"

definition get_generation :: "int \<Rightarrow> hub_store \<Rightarrow> topology_generation option" where
  "get_generation g s = (case get_op GENERATION_KIND (topologyGenerationId g) s of
     Some (EGeneration t) \<Rightarrow> Some t | _ \<Rightarrow> None)"

definition get_family :: "string \<Rightarrow> hub_store \<Rightarrow> revision_family option" where
  "get_family l s = (case get_op FAMILY_KIND l s of Some (EFamily f) \<Rightarrow> Some f | _ \<Rightarrow> None)"

definition resolveAgentRole :: "agent_id \<Rightarrow> hub_store \<Rightarrow> string option" where
  "resolveAgentRole a s = (case get_op ''Agent'' a s of Some (EAgent g) \<Rightarrow> Some (ag_role g) | _ \<Rightarrow> None)"

end
