(* ===== verification/Currentness.thy ===== *)
theory Currentness
  imports Hub_Store
begin

text \<open>
  The currentness fence (\<open>hub/src/entities/workgraph-currentness-fence-v4.ts\<close>): the pin of the active
  topology generation, the check that a physical row is the one the generation binds, and the
  check that the head did not move while an operation ran.  The fence serialises
  writers with one advisory lock, so an operation is a function of the store it finds.
\<close>

section \<open>Pins\<close>

datatype pin = LegacyPin | GenerationPin topology_generation topology_head revision

definition read_pin :: "hub_store \<Rightarrow> wi_error + pin" where
  "read_pin s =
     (case get_head s of
        None \<Rightarrow> Inr LegacyPin
      | Some (h, rv) \<Rightarrow>
          (case get_generation (th_generation h) s of
             None \<Rightarrow> Inl (CurrentnessRejected Integrity)
           | Some g \<Rightarrow>
               if tg_id g \<noteq> th_manifestId h \<or> tg_topologyHash g \<noteq> th_topologyHash h \<or>
                  tg_operationId g \<noteq> th_operationId h \<or> th_domain h \<noteq> WORK_GRAPH_HEAD_ID
               then Inl (CurrentnessRejected Integrity)
               else Inr (GenerationPin g h rv)))"

fun assertCreateAllowed :: "pin \<Rightarrow> wi_error + unit" where
  "assertCreateAllowed LegacyPin = Inr ()"
| "assertCreateAllowed (GenerationPin g h rv) = Inl (CurrentnessRejected RevisionRequired)"

definition assertHeadUnchanged :: "pin \<Rightarrow> hub_store \<Rightarrow> wi_error + unit" where
  "assertHeadUnchanged p s =
     (case (p, get_head s) of
        (LegacyPin, None) \<Rightarrow> Inr ()
      | (LegacyPin, Some _) \<Rightarrow> Inl (CurrentnessRejected HeadChanged)
      | (GenerationPin g h rv, None) \<Rightarrow> Inl (CurrentnessRejected HeadChanged)
      | (GenerationPin g h rv, Some (h', rv')) \<Rightarrow>
          if rv' \<noteq> rv \<or> th_generation h' \<noteq> th_generation h \<or> th_topologyHash h' \<noteq> th_topologyHash h \<or>
             th_operationId h' \<noteq> th_operationId h
          then Inl (CurrentnessRejected HeadChanged) else Inr ())"

text \<open>
  \<open>withWriterFence\<close>: take the pin, run the operation under it, check the head.  When the operation throws,
  its error is the result; when the head moved, the result is discarded but what the
  operation wrote stays written.
\<close>

definition withWriterFence :: "(pin \<Rightarrow> hub_store \<Rightarrow> (wi_error + 'a) \<times> hub_store) \<Rightarrow> hub_store
    \<Rightarrow> (wi_error + 'a) \<times> hub_store" where
  "withWriterFence f s =
     (case read_pin s of
        Inl e \<Rightarrow> (Inl e, s)
      | Inr p \<Rightarrow>
          (case f p s of
             (Inl e, s') \<Rightarrow> (Inl e, s')
           | (Inr a, s') \<Rightarrow>
               (case assertHeadUnchanged p s' of Inl e \<Rightarrow> (Inl e, s') | Inr _ \<Rightarrow> (Inr a, s'))))"

section \<open>The current binding\<close>

definition edge_list :: "(string \<times> string list) list \<Rightarrow> string \<Rightarrow> string list" where
  "edge_list m l = (case map_of m l of None \<Rightarrow> [] | Some ts \<Rightarrow> ts)"

definition edgesFromGeneration :: "topology_generation \<Rightarrow> string \<Rightarrow> (edge_class \<times> string) list" where
  "edgesFromGeneration g l =
     sort_key (\<lambda>(c, t). edge_class_name c @ CHR 0x00 # t)
       (map (Pair DependsOn) (edge_list (tg_dependsOn g) l) @
        map (Pair CompletionDependsOn) (edge_list (tg_completionDependsOn g) l))"

definition binding_of :: "topology_generation \<Rightarrow> string \<Rightarrow> topology_binding option" where
  "binding_of g l = map_of (tg_bindings g) l"

definition target_binding_of :: "edge_class \<Rightarrow> string \<Rightarrow> topology_binding \<Rightarrow> target_binding" where
  "target_binding_of c l t =
     \<lparr>tt_edgeClass = c, tt_targetLogicalId = l, tt_targetPhysicalId = tb_physicalId t,
      tt_targetRevision = tb_revision t,
      tt_targetNodeContractHashVersion = tb_nodeContractHashVersion t,
      tt_targetNodeContractHash = tb_nodeContractHash t\<rparr>"

definition lift_contract :: "contract_error + 'a \<Rightarrow> wi_error + 'a" where
  "lift_contract r = (case r of Inl e \<Rightarrow> Inl (ContractRejected e) | Inr a \<Rightarrow> Inr a)"

record current_binding =
  cb_logicalId :: string
  cb_physicalId :: string
  cb_revision :: int
  cb_generation :: int
  cb_localExecutionIdentity :: string

definition identity_matches :: "work_item \<Rightarrow> topology_binding \<Rightarrow> bool" where
  "identity_matches w b \<longleftrightarrow>
     (let r = wi_revisionIdentity w in
      ri_revision r = Some (tb_revision b) \<and>
      ri_nodeContractHashVersion r = Some NODE_CONTRACT_HASH_VERSION \<and>
      ri_nodeContractHash r = Some (tb_nodeContractHash b) \<and>
      ri_nodeTopologyHashVersion r = Some NODE_TOPOLOGY_HASH_VERSION \<and>
      ri_nodeTopologyHash r = Some (tb_nodeTopologyHash b) \<and>
      \<not> falsy_text (ri_localExecutionIdentity r))"

definition assertCurrent :: "sha256 \<Rightarrow> work_item \<Rightarrow> pin \<Rightarrow> wi_error + current_binding option" where
  "assertCurrent sha w p =
     (case p of
        LegacyPin \<Rightarrow> Inr None
      | GenerationPin g h rv \<Rightarrow>
          (case wi_logicalId w of
             None \<Rightarrow> Inl (CurrentnessRejected OldOrDraft)
           | Some l \<Rightarrow>
               (case binding_of g l of
                  None \<Rightarrow> Inl (CurrentnessRejected OldOrDraft)
                | Some b \<Rightarrow>
                    if l = [] \<or> tb_physicalId b \<noteq> wi_id w then Inl (CurrentnessRejected OldOrDraft)
                    else if \<not> identity_matches w b then Inl (CurrentnessRejected IdentityMismatch)
                    else res_bind (map_res (\<lambda>(c, t). case binding_of g t of
                             None \<Rightarrow> Inl (CurrentnessRejected Integrity)
                           | Some tb \<Rightarrow> Inr (target_binding_of c t tb)) (edgesFromGeneration g l)) (\<lambda>outgoing.
                         res_bind (lift_contract (deriveLocalExecutionIdentityV4 sha
                           \<lparr>ii_logicalId = l, ii_physicalId = wi_id w, ii_revision = tb_revision b,
                            ii_nodeContractHashVersion = tb_nodeContractHashVersion b,
                            ii_nodeContractHash = tb_nodeContractHash b,
                            ii_nodeTopologyHashVersion = tb_nodeTopologyHashVersion b,
                            ii_nodeTopologyHash = tb_nodeTopologyHash b,
                            ii_outgoing = outgoing\<rparr>)) (\<lambda>identity.
                         if ri_localExecutionIdentity (wi_revisionIdentity w) \<noteq> Some identity
                         then Inl (CurrentnessRejected IdentityMismatch)
                         else Inr (Some
                           \<lparr>cb_logicalId = l, cb_physicalId = tb_physicalId b, cb_revision = tb_revision b,
                            cb_generation = th_generation h, cb_localExecutionIdentity = identity\<rparr>))))))"

definition isCurrent :: "sha256 \<Rightarrow> work_item \<Rightarrow> pin \<Rightarrow> bool" where
  "isCurrent sha w p = is_ok (assertCurrent sha w p)"

definition filterCurrent :: "sha256 \<Rightarrow> work_item list \<Rightarrow> pin \<Rightarrow> work_item list" where
  "filterCurrent sha ws p = (case p of LegacyPin \<Rightarrow> ws | _ \<Rightarrow> filter (\<lambda>w. isCurrent sha w p) ws)"

lemma assertCurrent_legacy [simp]: "assertCurrent sha w LegacyPin = Inr None"
  by (simp add: assertCurrent_def)

text \<open>The check looks at the id and the revision members of a row, and at nothing else.\<close>

lemma assertCurrent_cong:
  "wi_id w = wi_id w' \<Longrightarrow> wi_revisionIdentity w = wi_revisionIdentity w' \<Longrightarrow>
   assertCurrent sha w p = assertCurrent sha w' p"
  unfolding assertCurrent_def identity_matches_def by presburger

section \<open>Reads through the pin\<close>

definition observe :: "pin \<Rightarrow> work_item \<Rightarrow> work_item" where
  "observe p w =
     (case p of
        LegacyPin \<Rightarrow> w
      | GenerationPin g h rv \<Rightarrow> w\<lparr>wi_revisionIdentity := (wi_revisionIdentity w)
          \<lparr>ri_observedTopologyGeneration := Some (th_generation h),
           ri_observedTopologyHash := Some (th_topologyHash h)\<rparr>\<rparr>)"

lemma observe_fields [simp]:
  "wi_id (observe p w) = wi_id w"
  "wi_status (observe p w) = wi_status w"
  "wi_lease (observe p w) = wi_lease w"
  "wi_suspended (observe p w) = wi_suspended w"
  by (simp_all add: observe_def split: pin.split)

text \<open>A row by logical or physical id: the row itself in legacy mode, the bound row otherwise.\<close>

definition find_binding :: "topology_generation \<Rightarrow> string \<Rightarrow> topology_binding option" where
  "find_binding g locator =
     (case binding_of g locator of
        Some b \<Rightarrow> Some b
      | None \<Rightarrow> map_option snd (List.find (\<lambda>(l, b). tb_physicalId b = locator) (tg_bindings g)))"

definition getCurrentProjectionItem :: "sha256 \<Rightarrow> pin \<Rightarrow> string \<Rightarrow> hub_store \<Rightarrow> wi_error + work_item option" where
  "getCurrentProjectionItem sha p locator s =
     (case p of
        LegacyPin \<Rightarrow> Inr (get_work locator s)
      | GenerationPin g h rv \<Rightarrow>
          (case find_binding g locator of
             None \<Rightarrow> Inr None
           | Some b \<Rightarrow>
               (case get_work (tb_physicalId b) s of
                  None \<Rightarrow> Inl (CurrentnessRejected Integrity)
                | Some w \<Rightarrow>
                    (case assertCurrent sha w p of
                       Inr _ \<Rightarrow> Inr (Some (observe p w))
                     | Inl (CurrentnessRejected _) \<Rightarrow> Inr None
                     | Inl e \<Rightarrow> Inl e))))"

definition currentGenerationItems :: "sha256 \<Rightarrow> pin \<Rightarrow> hub_store \<Rightarrow> wi_error + work_item list option" where
  "currentGenerationItems sha p s =
     (case p of
        LegacyPin \<Rightarrow> Inr None
      | GenerationPin g h rv \<Rightarrow>
          res_bind (map_res (\<lambda>(l, b). case get_work (tb_physicalId b) s of
              None \<Rightarrow> Inl (CurrentnessRejected Integrity)
            | Some w \<Rightarrow> res_bind (assertCurrent sha w p) (\<lambda>_. Inr (observe p w))) (tg_bindings g))
          (\<lambda>ws. Inr (Some (sort_key wi_id ws))))"

end
