(* ===== verification/Work_Guards.thy ===== *)
theory Work_Guards
  imports Currentness
begin

text \<open>
  What the verbs of \<open>work-item-repository-substrate.ts\<close> share: lease lengths and phase sets, the
  suspension predicates, disposal authority, the classification of gate children, the poison
  window, role eligibility, time accounting (\<open>accrueExitingState\<close>), the release of a hold, and the
  lease guard every holder verb starts with.
\<close>

section \<open>Phases and lease lengths\<close>

definition LEASE_TTL_MS :: int where
  "LEASE_TTL_MS = 15 * 60 * 1000"

definition leaseTtlMsFor :: "work_item \<Rightarrow> int" where
  "leaseTtlMsFor w = (case wi_leaseWindowMs w of Some n \<Rightarrow> if 0 < n then n else LEASE_TTL_MS | None \<Rightarrow> LEASE_TTL_MS)"

lemma leaseTtlMsFor_pos: "0 < leaseTtlMsFor w"
  by (simp add: leaseTtlMsFor_def LEASE_TTL_MS_def split: option.split)

definition WIP_PHASES :: "phase list" where
  "WIP_PHASES = [Claimed, InProgress, Blocked, Review]"

definition LEASE_HELD_PHASES :: "phase list" where
  "LEASE_HELD_PHASES = [Claimed, InProgress, Blocked, Review]"

definition RELEASABLE_PHASES :: "phase list" where
  "RELEASABLE_PHASES = [Claimed, InProgress, Blocked]"

definition POISON_ELIGIBLE_PHASES :: "phase list" where
  "POISON_ELIGIBLE_PHASES = [Claimed, InProgress]"

definition COMPLETABLE_PHASES :: "phase list" where
  "COMPLETABLE_PHASES = [InProgress, Review]"

definition DEFAULT_WIP_CAP :: nat where
  "DEFAULT_WIP_CAP = 3"

text \<open>No role has a cap of its own (\<open>WIP_CAP_BY_ROLE\<close> is empty).\<close>

definition wipCap :: "string option \<Rightarrow> nat" where
  "wipCap role = DEFAULT_WIP_CAP"

section \<open>Suspension\<close>

definition isParkedFromExecution :: "work_item \<Rightarrow> bool" where
  "isParkedFromExecution w \<longleftrightarrow> wi_suspended w = Some True \<or> wi_status w = Paused"

definition isActivelyWithdrawn :: "work_item \<Rightarrow> bool" where
  "isActivelyWithdrawn w \<longleftrightarrow> wi_suspended w = Some True"

definition lastSuspenderAgentId :: "work_item \<Rightarrow> agent_id option" where
  "lastSuspenderAgentId w =
     map_option (ac_agentId \<circ> rh_actor) (List.find (\<lambda>h. ac_agentId (rh_actor h) \<noteq> []) (rev (wi_recallHistory w)))"

definition is_steward :: "string \<Rightarrow> bool" where
  "is_steward role \<longleftrightarrow> role = ''architect'' \<or> role = ''director''"

definition holds_with_token :: "work_item \<Rightarrow> agent_id \<Rightarrow> string option \<Rightarrow> bool" where
  "holds_with_token w a token \<longleftrightarrow>
     (case wi_lease w of None \<Rightarrow> False | Some l \<Rightarrow> le_holder l = a \<and> token = Some (le_token l))"

definition is_creator :: "work_item \<Rightarrow> agent_id \<Rightarrow> bool" where
  "is_creator w a \<longleftrightarrow> map_option ac_agentId (wi_createdBy w) = Some a"

definition evaluateSuspendedDisposalAuthority :: "work_item \<Rightarrow> actor \<Rightarrow> string option \<Rightarrow> bool \<times> string" where
  "evaluateSuspendedDisposalAuthority w caller token =
     (if is_steward (ac_role caller) then (True, ''steward'')
      else if is_creator w (ac_agentId caller) \<and> wi_status w = Ready \<and> wi_lease w = None
        then (True, ''creator_of_suspended_ready'')
      else if holds_with_token w (ac_agentId caller) token then
        (case lastSuspenderAgentId w of
           None \<Rightarrow> (False, ''holder_but_suspender_unknown_fail_closed'')
         | Some suspender \<Rightarrow>
             if suspender = ac_agentId caller then (True, ''holder_after_self_suspension'')
             else (False, ''holder_after_steward_suspension''))
      else (False, ''unrelated_caller''))"

section \<open>Gate children\<close>

datatype gate_child = Satisfied | DroppedAbandoned | Pending | Missing

fun gate_child_of_phase :: "phase \<Rightarrow> gate_child" where
  "gate_child_of_phase Done = Satisfied"
| "gate_child_of_phase Abandoned = DroppedAbandoned"
| "gate_child_of_phase FailedSealed = Pending"
| "gate_child_of_phase Ready = Pending"
| "gate_child_of_phase Claimed = Pending"
| "gate_child_of_phase InProgress = Pending"
| "gate_child_of_phase Blocked = Pending"
| "gate_child_of_phase Review = Pending"
| "gate_child_of_phase Paused = Pending"

definition classifyGateChild :: "work_item option \<Rightarrow> gate_child" where
  "classifyGateChild child = (case child of None \<Rightarrow> Missing | Some w \<Rightarrow> gate_child_of_phase (wi_status w))"

text \<open>\<open>unmetDependencies\<close>: an abandoned dependency no longer binds.\<close>

definition unmetDependencies :: "sha256 \<Rightarrow> pin \<Rightarrow> string list \<Rightarrow> hub_store \<Rightarrow> wi_error + string list" where
  "unmetDependencies sha p deps s =
     res_bind (map_res (\<lambda>d. getCurrentProjectionItem sha p d s) deps) (\<lambda>cs.
       Inr [d. (d, c) \<leftarrow> zip deps cs,
            classifyGateChild c \<noteq> DroppedAbandoned \<and> classifyGateChild c \<noteq> Satisfied])"

record completion_progress =
  cp_done :: nat
  cp_total :: nat
  cp_pending :: "string list"
  cp_declared :: "string list"
  cp_active :: "string list"
  cp_droppedAbandoned :: "string list"
  cp_failed :: "string list"
  cp_missing :: "string list"

definition computeCompletionProgress :: "sha256 \<Rightarrow> pin \<Rightarrow> string list \<Rightarrow> hub_store
    \<Rightarrow> wi_error + completion_progress" where
  "computeCompletionProgress sha p deps s =
     res_bind (map_res (\<lambda>d. getCurrentProjectionItem sha p d s) deps) (\<lambda>cs.
       let children = zip deps cs;
           pick = (\<lambda>P. [d. (d, c) \<leftarrow> children, P c]);
           pending = pick (\<lambda>c. classifyGateChild c \<in> {Missing, Pending});
           dropped = pick (\<lambda>c. classifyGateChild c = DroppedAbandoned);
           active = filter (\<lambda>d. d \<notin> set dropped) deps
       in Inr \<lparr>cp_done = length active - length pending, cp_total = length active,
               cp_pending = pending, cp_declared = deps, cp_active = active,
               cp_droppedAbandoned = dropped,
               cp_failed = pick (\<lambda>c. case c of None \<Rightarrow> False | Some w \<Rightarrow> isFailedGateSealed w),
               cp_missing = pick (\<lambda>c. classifyGateChild c = Missing)\<rparr>)"

section \<open>The poison window\<close>

definition LEASE_EXPIRY_OPERATION_PREFIX :: string where
  "LEASE_EXPIRY_OPERATION_PREFIX = ''lease-expiry:''"

definition starts_with :: "string \<Rightarrow> string \<Rightarrow> bool" where
  "starts_with t pre \<longleftrightarrow> take (length pre) t = pre"

definition recentLeaseExpiryCount :: "work_item \<Rightarrow> instant \<Rightarrow> nat \<Rightarrow> nat" where
  "recentLeaseExpiryCount w now poisonCap =
     (let windowMs = int (max 1 poisonCap) * leaseTtlMsFor w; cutoff = now - windowMs in
      length (filter (\<lambda>h. starts_with (rh_operationId h) LEASE_EXPIRY_OPERATION_PREFIX \<and> cutoff \<le> rh_recalledAt h)
        (wi_recallHistory w)))"

section \<open>Roles\<close>

definition role_eligible :: "work_item \<Rightarrow> string option \<Rightarrow> bool" where
  "role_eligible w role \<longleftrightarrow>
     wi_roleEligibility w = [] \<or> (\<not> falsy_text role \<and> the role \<in> set (wi_roleEligibility w))"

definition assertRoleEligible :: "work_item \<Rightarrow> string option \<Rightarrow> wi_error + unit" where
  "assertRoleEligible w role = check (role_eligible w role) (ClaimRejected RoleNotEligible)"

section \<open>Time accounting\<close>

fun add_duration :: "phase \<Rightarrow> int \<Rightarrow> state_durations \<Rightarrow> state_durations" where
  "add_duration Ready t d = d\<lparr>sd_ready := sd_ready d + t\<rparr>"
| "add_duration Claimed t d = d\<lparr>sd_claimed := sd_claimed d + t\<rparr>"
| "add_duration InProgress t d = d\<lparr>sd_in_progress := sd_in_progress d + t\<rparr>"
| "add_duration Blocked t d = d\<lparr>sd_blocked := sd_blocked d + t\<rparr>"
| "add_duration Paused t d = d\<lparr>sd_paused := sd_paused d + t\<rparr>"
| "add_duration Review t d = d\<lparr>sd_review := sd_review d + t\<rparr>"
| "add_duration Done t d = d"
| "add_duration Abandoned t d = d"
| "add_duration FailedSealed t d = d"

definition accrueExitingState :: "work_item \<Rightarrow> instant \<Rightarrow> state_durations \<times> instant" where
  "accrueExitingState w now =
     (let elapsed = max 0 (now - wi_enteredCurrentStateAt w);
          bucket = (if isParkedFromExecution w then Paused else wi_status w)
      in (add_duration bucket elapsed (wi_stateDurations w), now))"

definition accrued :: "work_item \<Rightarrow> instant \<Rightarrow> work_item \<Rightarrow> work_item" where
  "accrued w now w' =
     (let (d, t) = accrueExitingState w now in w'\<lparr>wi_stateDurations := d, wi_enteredCurrentStateAt := t\<rparr>)"

text \<open>\<open>releaseHold\<close>: the phase a hold is released to, no lease, and the accrued time.\<close>

definition releaseHold :: "work_item \<Rightarrow> instant \<Rightarrow> phase \<Rightarrow> work_item \<Rightarrow> work_item" where
  "releaseHold w now ph w' = accrued w now (w'\<lparr>wi_status := ph, wi_lease := None\<rparr>)"

definition touched :: "instant \<Rightarrow> work_item \<Rightarrow> work_item" where
  "touched now w = w\<lparr>wi_updatedAt := now\<rparr>"

section \<open>The guards\<close>

definition assertNotFailedSealed :: "work_item \<Rightarrow> wi_error + unit" where
  "assertNotFailedSealed w = check (\<not> isFailedGateSealed w) (FailedGateSealedRejected (wi_id w))"

definition assertLease :: "work_item \<Rightarrow> agent_id \<Rightarrow> string \<Rightarrow> verb \<Rightarrow> wi_error + unit" where
  "assertLease w agentId leaseToken v =
     res_bind (assertNotFailedSealed w) (\<lambda>_.
     if isParkedFromExecution w then Inl (TransitionRejected (Suspended v))
     else if map_option le_holder (wi_lease w) \<noteq> Some agentId then Inl (TransitionRejected (NotLeaseHolder v))
     else if map_option le_token (wi_lease w) \<noteq> Some leaseToken then Inl (TransitionRejected (StaleLeaseToken v))
     else Inr ())"

lemma assertNotFailedSealed_Inr [guard_simps]:
  "assertNotFailedSealed w = Inr u \<longleftrightarrow> \<not> isFailedGateSealed w"
  by (simp add: assertNotFailedSealed_def)

lemma assertLease_Inr [guard_simps]:
  "assertLease w a t v = Inr u \<longleftrightarrow>
     \<not> isFailedGateSealed w \<and> \<not> isParkedFromExecution w \<and>
     (\<exists>l. wi_lease w = Some l \<and> le_holder l = a \<and> le_token l = t)"
  by (auto simp: assertLease_def guard_simps res_bind_Inr_iff split: if_splits)

lemma assertRoleEligible_Inr [guard_simps]:
  "assertRoleEligible w role = Inr u \<longleftrightarrow> role_eligible w role"
  by (simp add: assertRoleEligible_def)

lemma accrued_fields [simp]:
  "wi_id (accrued w now w') = wi_id w'"
  "wi_status (accrued w now w') = wi_status w'"
  "wi_lease (accrued w now w') = wi_lease w'"
  "wi_suspended (accrued w now w') = wi_suspended w'"
  "wi_blockedOn (accrued w now w') = wi_blockedOn w'"
  "wi_evidence (accrued w now w') = wi_evidence w'"
  "wi_evidenceRequirements (accrued w now w') = wi_evidenceRequirements w'"
  "wi_attestations (accrued w now w') = wi_attestations w'"
  "wi_attestationHistory (accrued w now w') = wi_attestationHistory w'"
  "wi_executorHistory (accrued w now w') = wi_executorHistory w'"
  "wi_recallHistory (accrued w now w') = wi_recallHistory w'"
  "wi_failedGateSeal (accrued w now w') = wi_failedGateSeal w'"
  "wi_effectiveDisposition (accrued w now w') = wi_effectiveDisposition w'"
  "wi_dependsOn (accrued w now w') = wi_dependsOn w'"
  "wi_completionDependsOn (accrued w now w') = wi_completionDependsOn w'"
  "wi_revisionIdentity (accrued w now w') = wi_revisionIdentity w'"
  "wi_createdBy (accrued w now w') = wi_createdBy w'"
  "wi_createdAt (accrued w now w') = wi_createdAt w'"
  "wi_leaseExpiryCount (accrued w now w') = wi_leaseExpiryCount w'"
  "wi_leaseWindowMs (accrued w now w') = wi_leaseWindowMs w'"
  "wi_frictionReflections (accrued w now w') = wi_frictionReflections w'"
  "wi_targetRef (accrued w now w') = wi_targetRef w'"
  "wi_enteredCurrentStateAt (accrued w now w') = now"
  by (simp_all add: accrued_def accrueExitingState_def Let_def)

lemma accrued_durations: "wi_stateDurations (accrued w now w') = fst (accrueExitingState w now)"
  by (simp add: accrued_def Let_def split: prod.split)

lemma touched_fields [simp]:
  "wi_id (touched now w) = wi_id w"
  "wi_status (touched now w) = wi_status w"
  "wi_lease (touched now w) = wi_lease w"
  "wi_suspended (touched now w) = wi_suspended w"
  "wi_blockedOn (touched now w) = wi_blockedOn w"
  "wi_evidence (touched now w) = wi_evidence w"
  "wi_evidenceRequirements (touched now w) = wi_evidenceRequirements w"
  "wi_attestations (touched now w) = wi_attestations w"
  "wi_attestationHistory (touched now w) = wi_attestationHistory w"
  "wi_executorHistory (touched now w) = wi_executorHistory w"
  "wi_recallHistory (touched now w) = wi_recallHistory w"
  "wi_failedGateSeal (touched now w) = wi_failedGateSeal w"
  "wi_effectiveDisposition (touched now w) = wi_effectiveDisposition w"
  "wi_dependsOn (touched now w) = wi_dependsOn w"
  "wi_completionDependsOn (touched now w) = wi_completionDependsOn w"
  "wi_revisionIdentity (touched now w) = wi_revisionIdentity w"
  "wi_createdBy (touched now w) = wi_createdBy w"
  "wi_createdAt (touched now w) = wi_createdAt w"
  "wi_leaseExpiryCount (touched now w) = wi_leaseExpiryCount w"
  "wi_leaseWindowMs (touched now w) = wi_leaseWindowMs w"
  "wi_frictionReflections (touched now w) = wi_frictionReflections w"
  "wi_targetRef (touched now w) = wi_targetRef w"
  "wi_enteredCurrentStateAt (touched now w) = wi_enteredCurrentStateAt w"
  "wi_stateDurations (touched now w) = wi_stateDurations w"
  "wi_updatedAt (touched now w) = now"
  by (simp_all add: touched_def)

end
