(* ===== verification/Work_Verbs.thy ===== *)
theory Work_Verbs
  imports Work_Guards
begin

text \<open>
  The update loop of the work-item repository (\<open>tryCasUpdate\<close>) and the verbs of a claim's life:
  claim, start, block, resume, renew, release, the system unblock and abandon.  Each verb is a
  transform of the row (\<open>..._row\<close>: the guards and the new row, as in the source's callback) run in the loop
  under the writer fence.

  The fence holds one global lock, so in the verbs nobody else writes between the loop's read and its write
  and the first attempt decides; the loop under interference is treated in Substrate.
\<close>

section \<open>The update loop\<close>

type_synonym 'a hub_result = "(wi_error + 'a) \<times> hub_store"

type_synonym row_transform = "hub_store \<Rightarrow> work_item \<Rightarrow> revision \<Rightarrow> wi_error + work_item"

definition entity_transform :: "sha256 \<Rightarrow> pin \<Rightarrow> row_transform
    \<Rightarrow> hub_store \<Rightarrow> hub_entity \<Rightarrow> revision \<Rightarrow> wi_error + hub_entity" where
  "entity_transform sha p f s e rv =
     (case as_work e of
        None \<Rightarrow> Inl IntegrityError
      | Some w \<Rightarrow>
          let current = cloneWorkItem w in
          res_bind (assertCurrent sha current p) (\<lambda>_.
          res_bind (f s current rv) (\<lambda>next. Inr (EWork next))))"

definition tryCasUpdate_with :: "hub_store attempt list \<Rightarrow> sha256 \<Rightarrow> pin \<Rightarrow> string \<Rightarrow> row_transform
    \<Rightarrow> hub_store \<Rightarrow> work_item option hub_result" where
  "tryCasUpdate_with envs sha p workId f s =
     (case cas_loop (getWithRevision WORK_KIND workId) (cas_row ident WORK_KIND) (entity_transform sha p f) envs s of
        (CasDone e, s') \<Rightarrow> (Inr (map_option cloneWorkItem (as_work e)), s')
      | (CasMissing, s') \<Rightarrow> (Inr None, s')
      | (CasFailed err, s') \<Rightarrow> (Inl err, s')
      | (CasThrew z, s') \<Rightarrow> (Inl (StoreThrew z), s')
      | (CasExhausted, s') \<Rightarrow> (Inl CasRetriesExhausted, s'))"

definition tryCasUpdate :: "sha256 \<Rightarrow> pin \<Rightarrow> string \<Rightarrow> row_transform \<Rightarrow> hub_store \<Rightarrow> work_item option hub_result" where
  "tryCasUpdate = tryCasUpdate_with quiet"

section \<open>Claim\<close>

definition LIST_CAP :: nat where "LIST_CAP = 500"
definition READY_SCAN_CAP :: nat where "READY_SCAN_CAP = 500"

fun work_where :: "(work_item \<Rightarrow> bool) \<Rightarrow> hub_entity \<Rightarrow> bool" where
  "work_where P (EWork w) = P w"
| "work_where P _ = False"

definition list_work :: "(work_item \<Rightarrow> bool) \<Rightarrow> nat \<Rightarrow> hub_store \<Rightarrow> work_item list" where
  "list_work P limit s =
     map cloneWorkItem (List.map_filter as_work (fst (list_op WORK_KIND (work_where P) None (Some limit) None s)))"

definition holds :: "work_item \<Rightarrow> agent_id \<Rightarrow> bool" where
  "holds w a \<longleftrightarrow> map_option le_holder (wi_lease w) = Some a"

definition inFlightCount :: "sha256 \<Rightarrow> pin \<Rightarrow> agent_id \<Rightarrow> nat \<Rightarrow> hub_store \<Rightarrow> wi_error + nat" where
  "inFlightCount sha p agentId cap s =
     (case p of
        GenerationPin g h rv \<Rightarrow>
          res_bind (currentGenerationItems sha p s) (\<lambda>ws.
            Inr (length (take cap (filter (\<lambda>w. wi_status w \<in> set WIP_PHASES \<and> holds w agentId \<and> \<not> isFailedGateSealed w)
              (case ws of None \<Rightarrow> [] | Some ws \<Rightarrow> ws)))))
      | LegacyPin \<Rightarrow>
          Inr (length (take cap (filter (\<lambda>w. \<not> isFailedGateSealed w)
            (list_work (\<lambda>w. wi_status w \<in> set WIP_PHASES \<and> holds w agentId) LIST_CAP s)))))"

text \<open>
  The lease a claim mints.  An agent that already executed the row and whose prior lease is on record keeps
  the claim time of its earliest prior lease.
\<close>

definition claim_lease :: "instant \<Rightarrow> string \<Rightarrow> agent_id \<Rightarrow> work_item \<Rightarrow> lease" where
  "claim_lease now uuid agentId w =
     \<lparr>le_holder = agentId, le_token = uuid,
      le_claimedAt =
        (if agentId \<in> set (wi_executorHistory w)
         then (case priorLeaseFloorFor (Some agentId) (wi_recallHistory w) of None \<Rightarrow> now | Some t \<Rightarrow> t)
         else now),
      le_expiresAt = now + leaseTtlMsFor w, le_heartbeatAt = now\<rparr>"

definition claim_row :: "instant \<Rightarrow> string \<Rightarrow> agent_id \<Rightarrow> string option \<Rightarrow> string list \<Rightarrow> row_transform" where
  "claim_row now uuid agentId role depsNotDone s w rv =
     res_bind (assertNotFailedSealed w) (\<lambda>_.
     if wi_status w \<noteq> Ready then Inl (TransitionRejected (WrongPhase VClaim (wi_status w)))
     else if isParkedFromExecution w then Inl (TransitionRejected (Suspended VClaim))
     else res_bind (assertRoleEligible w role) (\<lambda>_.
       if depsNotDone \<noteq> [] then Inl (ClaimRejected (DependenciesNotDone depsNotDone))
       else
         let executorHistory = (if agentId \<in> set (wi_executorHistory w) then wi_executorHistory w
                                else wi_executorHistory w @ [agentId])
         in Inr (touched now (accrued w now
              (w\<lparr>wi_status := Claimed, wi_lease := Some (claim_lease now uuid agentId w),
                 wi_executorHistory := executorHistory\<rparr>)))))"

definition claim_under :: "sha256 \<Rightarrow> instant \<Rightarrow> string \<Rightarrow> string \<Rightarrow> agent_id \<Rightarrow> string option \<Rightarrow> pin
    \<Rightarrow> hub_store \<Rightarrow> work_item option hub_result" where
  "claim_under sha now uuid workId agentId role p s =
     (let cap = wipCap role in
      case inFlightCount sha p agentId cap s of
        Inl e \<Rightarrow> (Inl e, s)
      | Inr inFlight \<Rightarrow>
          if inFlight \<ge> cap then (Inl (WipCapExceeded agentId inFlight cap), s)
          else (case get_work workId s of
              None \<Rightarrow> (Inr None, s)
            | Some pre \<Rightarrow>
                (case unmetDependencies sha p (wi_dependsOn pre) s of
                   Inl e \<Rightarrow> (Inl e, s)
                 | Inr depsNotDone \<Rightarrow>
                     tryCasUpdate sha p workId (claim_row now uuid agentId role depsNotDone) s)))"

definition claimWorkItem :: "sha256 \<Rightarrow> instant \<Rightarrow> string \<Rightarrow> string \<Rightarrow> agent_id \<Rightarrow> string option
    \<Rightarrow> hub_store \<Rightarrow> work_item option hub_result" where
  "claimWorkItem sha now uuid workId agentId role =
     withWriterFence (\<lambda>p. claim_under sha now uuid workId agentId role p)"

section \<open>Holder verbs\<close>

definition start_row :: "instant \<Rightarrow> agent_id \<Rightarrow> string \<Rightarrow> row_transform" where
  "start_row now agentId token s w rv =
     res_bind (assertLease w agentId token VStart) (\<lambda>_.
     if wi_status w \<noteq> Claimed then Inl (TransitionRejected (WrongPhase VStart (wi_status w)))
     else Inr (touched now (accrued w now (w\<lparr>wi_status := InProgress\<rparr>))))"

definition block_row :: "instant \<Rightarrow> agent_id \<Rightarrow> string \<Rightarrow> blocked_on \<Rightarrow> row_transform" where
  "block_row now agentId token blockedOn s w rv =
     res_bind (assertLease w agentId token VBlock) (\<lambda>_.
     if wi_status w \<noteq> InProgress then Inl (TransitionRejected (WrongPhase VBlock (wi_status w)))
     else Inr (touched now (accrued w now (w\<lparr>wi_status := Blocked, wi_blockedOn := Some blockedOn\<rparr>))))"

definition resume_row :: "instant \<Rightarrow> agent_id \<Rightarrow> string \<Rightarrow> row_transform" where
  "resume_row now agentId token s w rv =
     res_bind (assertLease w agentId token VResume) (\<lambda>_.
     if wi_status w \<noteq> Blocked then Inl (TransitionRejected (WrongPhase VResume (wi_status w)))
     else Inr (touched now (accrued w now (w\<lparr>wi_status := InProgress, wi_blockedOn := None\<rparr>))))"

definition extended_lease :: "instant \<Rightarrow> work_item \<Rightarrow> lease \<Rightarrow> lease" where
  "extended_lease now w l = l\<lparr>le_heartbeatAt := now, le_expiresAt := now + leaseTtlMsFor w\<rparr>"

definition renew_row :: "instant \<Rightarrow> agent_id \<Rightarrow> string \<Rightarrow> row_transform" where
  "renew_row now agentId token s w rv =
     res_bind (assertLease w agentId token VRenew) (\<lambda>_.
     if wi_status w \<notin> set LEASE_HELD_PHASES then Inl (TransitionRejected (WrongPhase VRenew (wi_status w)))
     else case wi_lease w of
         None \<Rightarrow> Inl IntegrityError
       | Some l \<Rightarrow>
           if le_expiresAt l < now then Inl (TransitionRejected LeaseExpired)
           else Inr (touched now (w\<lparr>wi_lease := Some (extended_lease now w l)\<rparr>)))"

definition release_row :: "instant \<Rightarrow> agent_id \<Rightarrow> string \<Rightarrow> row_transform" where
  "release_row now agentId token s w rv =
     res_bind (assertLease w agentId token VRelease) (\<lambda>_.
     if wi_status w \<notin> set RELEASABLE_PHASES then Inl (TransitionRejected (WrongPhase VRelease (wi_status w)))
     else Inr (touched now ((releaseHold w now Ready w)\<lparr>wi_blockedOn := None\<rparr>)))"

definition systemUnblock_row :: "instant \<Rightarrow> string \<Rightarrow> row_transform" where
  "systemUnblock_row now decisionRef s w rv =
     res_bind (assertNotFailedSealed w) (\<lambda>_.
     if wi_status w \<noteq> Blocked then Inl (TransitionRejected (WrongPhase VResume (wi_status w)))
     else if (case wi_blockedOn w of None \<Rightarrow> True
              | Some b \<Rightarrow> (case bo_blockerIds b of None \<Rightarrow> True | Some ids \<Rightarrow> decisionRef \<notin> set ids))
     then Inl (TransitionRejected NotBlockedOn)
     else Inr (touched now (accrued w now (w\<lparr>wi_status := InProgress, wi_blockedOn := None\<rparr>))))"

definition abandon_row :: "instant \<Rightarrow> agent_id \<Rightarrow> string option \<Rightarrow> string option \<Rightarrow> row_transform" where
  "abandon_row now agentId token actorRole s w rv =
     res_bind (assertNotFailedSealed w) (\<lambda>_.
     let isHolderWithToken = holds_with_token w agentId token;
         isCreator = is_creator w agentId;
         isSteward = (case actorRole of None \<Rightarrow> False | Some r \<Rightarrow> is_steward r);
         authority = evaluateSuspendedDisposalAuthority w
           \<lparr>ac_role = (case actorRole of None \<Rightarrow> ''unknown'' | Some r \<Rightarrow> r), ac_agentId = agentId\<rparr> token
     in if \<not> isHolderWithToken \<and> \<not> isCreator \<and> \<not> isSteward then Inl (TransitionRejected AbandonForbidden)
        else if isActivelyWithdrawn w \<and> \<not> fst authority
          then Inl (TransitionRejected (SuspendedDisposalForbidden (snd authority)))
        else
          let okByHolder = isHolderWithToken \<and> wi_status w \<in> set RELEASABLE_PHASES;
              okByCreator = isCreator \<and> (wi_status w \<in> set RELEASABLE_PHASES \<or> wi_status w = Ready);
              okBySteward = isSteward \<and> isActivelyWithdrawn w
          in if \<not> okByHolder \<and> \<not> okByCreator \<and> \<not> okBySteward
             then Inl (TransitionRejected (WrongPhase VAbandon (wi_status w)))
             else Inr (touched now (accrued w now
               (w\<lparr>wi_status := Abandoned, wi_suspended := Some False, wi_lease := None, wi_blockedOn := None\<rparr>))))"

text \<open>A verb that is one row transform under the fence.\<close>

definition row_verb :: "sha256 \<Rightarrow> string \<Rightarrow> row_transform \<Rightarrow> hub_store \<Rightarrow> work_item option hub_result" where
  "row_verb sha workId f = withWriterFence (\<lambda>p. tryCasUpdate sha p workId f)"

definition startWork :: "sha256 \<Rightarrow> instant \<Rightarrow> string \<Rightarrow> agent_id \<Rightarrow> string \<Rightarrow> hub_store \<Rightarrow> work_item option hub_result" where
  "startWork sha now workId agentId token = row_verb sha workId (start_row now agentId token)"

definition blockWork :: "sha256 \<Rightarrow> instant \<Rightarrow> string \<Rightarrow> agent_id \<Rightarrow> string \<Rightarrow> blocked_on \<Rightarrow> hub_store \<Rightarrow> work_item option hub_result" where
  "blockWork sha now workId agentId token blockedOn = row_verb sha workId (block_row now agentId token blockedOn)"

definition resumeWork :: "sha256 \<Rightarrow> instant \<Rightarrow> string \<Rightarrow> agent_id \<Rightarrow> string \<Rightarrow> hub_store \<Rightarrow> work_item option hub_result" where
  "resumeWork sha now workId agentId token = row_verb sha workId (resume_row now agentId token)"

definition releaseWork :: "sha256 \<Rightarrow> instant \<Rightarrow> string \<Rightarrow> agent_id \<Rightarrow> string \<Rightarrow> hub_store \<Rightarrow> work_item option hub_result" where
  "releaseWork sha now workId agentId token = row_verb sha workId (release_row now agentId token)"

definition systemUnblock :: "sha256 \<Rightarrow> instant \<Rightarrow> string \<Rightarrow> string \<Rightarrow> hub_store \<Rightarrow> work_item option hub_result" where
  "systemUnblock sha now workId decisionRef = row_verb sha workId (systemUnblock_row now decisionRef)"

definition abandonWork :: "sha256 \<Rightarrow> instant \<Rightarrow> string \<Rightarrow> agent_id \<Rightarrow> string option \<Rightarrow> string option
    \<Rightarrow> hub_store \<Rightarrow> work_item option hub_result" where
  "abandonWork sha now workId agentId token actorRole = row_verb sha workId (abandon_row now agentId token actorRole)"

section \<open>Renewal and the heartbeat of the ancestors\<close>

definition getWorkItem :: "string \<Rightarrow> hub_store \<Rightarrow> work_item option" where
  "getWorkItem workId s = get_work workId s"

definition parentsAwaitingCompletion :: "sha256 \<Rightarrow> pin \<Rightarrow> string \<Rightarrow> hub_store \<Rightarrow> wi_error + work_item list" where
  "parentsAwaitingCompletion sha p childId s =
     (case p of
        LegacyPin \<Rightarrow> Inr (list_work (\<lambda>w. childId \<in> set (wi_completionDependsOn w)) READY_SCAN_CAP s)
      | GenerationPin g h rv \<Rightarrow>
          res_bind (getCurrentProjectionItem sha p childId s) (\<lambda>child.
            case Option.bind child wi_logicalId of
              None \<Rightarrow> Inr []
            | Some l \<Rightarrow>
                if l = [] then Inr []
                else map_res (\<lambda>pl. case binding_of g pl of
                    None \<Rightarrow> Inl (CurrentnessRejected Integrity)
                  | Some b \<Rightarrow> res_bind (getCurrentProjectionItem sha p (tb_physicalId b) s) (\<lambda>parent.
                      case parent of None \<Rightarrow> Inl (CurrentnessRejected Integrity) | Some w \<Rightarrow> Inr w))
                  (edge_list (tg_reverseCompletionDependsOn g) l)))"

definition bump_row :: "instant \<Rightarrow> row_transform" where
  "bump_row now s w rv =
     (case wi_lease w of
        None \<Rightarrow> Inr w
      | Some l \<Rightarrow> if le_expiresAt l < now then Inr w
                  else Inr (touched now (w\<lparr>wi_lease := Some (extended_lease now w l)\<rparr>)))"

text \<open>A failed bump is logged and ignored, so only the store matters.\<close>

definition tryBumpAncestorHeartbeat :: "sha256 \<Rightarrow> instant \<Rightarrow> pin \<Rightarrow> string \<Rightarrow> hub_store \<Rightarrow> hub_store" where
  "tryBumpAncestorHeartbeat sha now p arcId s =
     (case getCurrentProjectionItem sha p arcId s of
        Inr (Some pre) \<Rightarrow>
          (case wi_lease pre of
             None \<Rightarrow> s
           | Some l \<Rightarrow> if le_expiresAt l < now then s else snd (tryCasUpdate sha p arcId (bump_row now) s))
      | _ \<Rightarrow> s)"

fun visit_parents :: "sha256 \<Rightarrow> instant \<Rightarrow> pin \<Rightarrow> string list \<Rightarrow> string list \<Rightarrow> string list \<Rightarrow> hub_store
    \<Rightarrow> string list \<times> string list \<times> hub_store" where
  "visit_parents sha now p [] visited next s = (visited, next, s)"
| "visit_parents sha now p (i # ids) visited next s =
     (if i \<in> set visited then visit_parents sha now p ids visited next s
      else visit_parents sha now p ids (i # visited) (next @ [i]) (tryBumpAncestorHeartbeat sha now p i s))"

fun visit_frontier :: "sha256 \<Rightarrow> instant \<Rightarrow> pin \<Rightarrow> string list \<Rightarrow> string list \<Rightarrow> string list \<Rightarrow> hub_store
    \<Rightarrow> string list \<times> string list \<times> hub_store" where
  "visit_frontier sha now p [] visited next s = (visited, next, s)"
| "visit_frontier sha now p (i # ids) visited next s =
     (let (visited', next', s') = visit_parents sha now p
            (case parentsAwaitingCompletion sha p i s of Inl _ \<Rightarrow> [] | Inr ws \<Rightarrow> map wi_id ws) visited next s
      in visit_frontier sha now p ids visited' next' s')"

text \<open>
  The breadth-first walk up the completion edges.  The fuel bounds the number of levels; one level more
  than there are rows is enough, because every level after the first visits a new row.
\<close>

fun propagate_levels :: "nat \<Rightarrow> sha256 \<Rightarrow> instant \<Rightarrow> pin \<Rightarrow> string list \<Rightarrow> string list \<Rightarrow> hub_store \<Rightarrow> hub_store" where
  "propagate_levels 0 sha now p frontier visited s = s"
| "propagate_levels (Suc n) sha now p frontier visited s =
     (if frontier = [] then s
      else let (visited', next, s') = visit_frontier sha now p frontier visited [] s
           in propagate_levels n sha now p next visited' s')"

definition propagateHeartbeatToAncestors :: "sha256 \<Rightarrow> instant \<Rightarrow> pin \<Rightarrow> string \<Rightarrow> hub_store \<Rightarrow> hub_store" where
  "propagateHeartbeatToAncestors sha now p startId s =
     propagate_levels (Suc (Suc (length (getKindStore WORK_KIND s)))) sha now p [startId] [startId] s"

definition renew_under :: "sha256 \<Rightarrow> instant \<Rightarrow> string \<Rightarrow> agent_id \<Rightarrow> string \<Rightarrow> pin \<Rightarrow> hub_store
    \<Rightarrow> work_item option hub_result" where
  "renew_under sha now workId agentId token p s =
     (case tryCasUpdate sha p workId (renew_row now agentId token) s of
        (Inr (Some w), s') \<Rightarrow> (Inr (Some w), propagateHeartbeatToAncestors sha now p workId s')
      | r \<Rightarrow> r)"

definition renewLease :: "sha256 \<Rightarrow> instant \<Rightarrow> string \<Rightarrow> agent_id \<Rightarrow> string \<Rightarrow> hub_store \<Rightarrow> work_item option hub_result" where
  "renewLease sha now workId agentId token = withWriterFence (renew_under sha now workId agentId token)"

section \<open>Node pulses\<close>

text \<open>The change of the pulse bookkeeping: an absent member leaves the stored one.\<close>

record pulse_delta =
  pd_lastFiredAt :: "string option"
  pd_lastResponseAt :: "string option option"
  pd_missedCount :: "int option"
  pd_lastEscalatedAt :: "string option option"

definition or_else :: "'a option \<Rightarrow> 'a option \<Rightarrow> 'a option" where
  "or_else x y = (case x of None \<Rightarrow> y | Some a \<Rightarrow> Some a)"

definition pulse_row :: "pulse_delta \<Rightarrow> row_transform" where
  "pulse_row d s w rv =
     (case Option.bind (wi_nodeConfig w) nc_pulse of
        None \<Rightarrow> Inr w
      | Some pl \<Rightarrow> Inr (w\<lparr>wi_nodeConfig := Some \<lparr>nc_pulse = Some (pl
          \<lparr>pc_lastFiredAt := or_else (pd_lastFiredAt d) (pc_lastFiredAt pl),
           pc_lastResponseAt := or_else (pd_lastResponseAt d) (pc_lastResponseAt pl),
           pc_missedCount := or_else (pd_missedCount d) (pc_missedCount pl),
           pc_lastEscalatedAt := or_else (pd_lastEscalatedAt d) (pc_lastEscalatedAt pl)\<rparr>)\<rparr>\<rparr>))"

definition updateNodePulseBookkeeping :: "sha256 \<Rightarrow> string \<Rightarrow> pulse_delta \<Rightarrow> hub_store \<Rightarrow> unit hub_result" where
  "updateNodePulseBookkeeping sha nodeId d s =
     (case row_verb sha nodeId (pulse_row d) s of (Inl e, s') \<Rightarrow> (Inl e, s') | (Inr _, s') \<Rightarrow> (Inr (), s'))"

end
