(* ===== verification/Work_Complete.thy ===== *)
theory Work_Complete
  imports Work_Verbs
begin

text \<open>
  Completion (\<open>completeWork\<close>): the completion gate over the children, the evidence predicate, the
  resolution of referenced audits and review gates, the verifier checks, and the row transform that
  moves the item to done, to review, or, without a friction reflection, only records the evidence.
\<close>

section \<open>Referenced entities\<close>

definition refRelatesToWork :: "evidence_kind \<Rightarrow> hub_entity \<Rightarrow> work_item \<Rightarrow> bool" where
  "refRelatesToWork k resolved item =
     (let targetId = map_option snd (wi_targetRef item) in
      case k of
        EkAudit \<Rightarrow>
          (case resolved of
             EAudit i (Some related) a \<Rightarrow> related = wi_id item \<or> Some related = targetId
           | _ \<Rightarrow> False)
      | EkReview \<Rightarrow>
          (case resolved of
             EWork gate \<Rightarrow> map_option snd (wi_targetRef gate) = Some (wi_id item) \<and> wi_status gate = Done
           | _ \<Rightarrow> False)
      | _ \<Rightarrow> False)"

fun audit_actor :: "hub_entity \<Rightarrow> string option" where
  "audit_actor (EAudit i rel a) = a"
| "audit_actor _ = None"

fun creator_role :: "hub_entity \<Rightarrow> string option" where
  "creator_role (EWork w) = map_option ac_role (wi_createdBy w)"
| "creator_role _ = None"

definition check_ref :: "bool \<Rightarrow> work_item \<Rightarrow> hub_store \<Rightarrow> ref_to_resolve \<Rightarrow> wi_error + unit" where
  "check_ref isVerifierGate item s r =
     (case get_op (rr_kind r) (rr_id r) s of
        None \<Rightarrow> Inl (EvidencePredicateFailed (RefDoesNotResolve (rr_requirementId r)))
      | Some e \<Rightarrow>
          if \<not> refRelatesToWork (rr_evidenceKind r) e item
          then Inl (EvidencePredicateFailed (RefUnrelated (rr_requirementId r)))
          else if rr_evidenceKind r = EkAudit \<and> (isVerifierGate \<or> rr_reqKind r = EkReview) \<and>
                  audit_actor e \<noteq> Some ''verifier''
          then Inl (EvidencePredicateFailed (AuditNotByVerifier (rr_requirementId r)))
          else if rr_evidenceKind r = EkReview \<and> creator_role e \<noteq> Some ''verifier''
          then Inl (EvidencePredicateFailed (ReviewGateNotByVerifier (rr_requirementId r)))
          else Inr ())"

definition check_verifier :: "hub_store \<Rightarrow> verifier_check \<Rightarrow> wi_error + unit" where
  "check_verifier s v =
     (if falsy_text (vc_producedBy v)
      then Inl (EvidencePredicateFailed (ReviewWithoutProducer (vc_requirementId v)))
      else check (resolveAgentRole (the (vc_producedBy v)) s = Some ''verifier'')
        (EvidencePredicateFailed (ReviewProducerNotVerifier (vc_requirementId v))))"

section \<open>The row transform\<close>

definition lift_evidence :: "evidence_error + 'a \<Rightarrow> wi_error + 'a" where
  "lift_evidence r = (case r of Inl e \<Rightarrow> Inl (EvidencePredicateFailed e) | Inr a \<Rightarrow> Inr a)"

lemma lift_evidence_Inr [simp]: "lift_evidence r = Inr a \<longleftrightarrow> r = Inr a"
  by (cases r) (auto simp: lift_evidence_def)

text \<open>The evidence predicate of a row, over given evidence.\<close>

definition row_evidence_plan :: "work_item \<Rightarrow> evidence_item list \<Rightarrow> evidence_error + evidence_plan" where
  "row_evidence_plan w evidence =
     evaluateEvidence (wi_evidenceRequirements w) evidence (wi_lease w) (wi_type w = VerifierGateItem)
       (evidenceKey ` set (wi_evidence w))
       (priorLeaseFloorFor (map_option le_holder (wi_lease w)) (wi_recallHistory w))"

definition complete_row :: "instant \<Rightarrow> agent_id \<Rightarrow> string \<Rightarrow> evidence_item list \<Rightarrow> friction_input option
    \<Rightarrow> row_transform" where
  "complete_row now agentId token evidence friction s w rv =
     res_bind (assertLease w agentId token VComplete) (\<lambda>_.
     if wi_status w \<notin> set COMPLETABLE_PHASES then Inl (TransitionRejected (WrongPhase VComplete (wi_status w)))
     else
       let merged = mergeEvidence (wi_evidence w) evidence in
       res_bind (lift_evidence (row_evidence_plan w merged)) (\<lambda>plan.
       case friction of
         None \<Rightarrow> Inr (touched now (w\<lparr>wi_evidence := merged\<rparr>))
       | Some input \<Rightarrow>
           res_bind (lift_evidence (normalizeFrictionReflection input agentId now)) (\<lambda>record.
           let nextPhase = (if ep_nextPhase plan = Done \<and> fst (evaluateCompletionGate w) then Done else Review)
           in Inr (touched now (accrued w now
                (w\<lparr>wi_status := nextPhase, wi_evidence := merged,
                   wi_frictionReflections := wi_frictionReflections w @ [record]\<rparr>))))))"

section \<open>The operation\<close>

text \<open>The result carries whether completion was held back for a missing friction reflection.\<close>

definition complete_checks :: "sha256 \<Rightarrow> pin \<Rightarrow> work_item \<Rightarrow> agent_id \<Rightarrow> string \<Rightarrow> evidence_item list
    \<Rightarrow> hub_store \<Rightarrow> wi_error + unit" where
  "complete_checks sha p item agentId token evidence s =
     res_bind (assertCurrent sha item p) (\<lambda>_.
     res_bind (assertLease item agentId token VComplete) (\<lambda>_.
     res_bind (check (wi_status item \<in> set COMPLETABLE_PHASES)
       (TransitionRejected (WrongPhase VComplete (wi_status item)))) (\<lambda>_.
     res_bind (if wi_completionDependsOn item = [] then Inr ()
               else res_bind (computeCompletionProgress sha p (wi_completionDependsOn item) s) (\<lambda>prog.
                 check (cp_pending prog = [])
                   (CompletionGateRejected (cp_done prog) (cp_total prog) (cp_pending prog)))) (\<lambda>_.
     res_bind (lift_evidence (row_evidence_plan item (mergeEvidence (wi_evidence item) evidence))) (\<lambda>plan.
     res_bind (all_ok (map (check_ref (wi_type item = VerifierGateItem) item s) (ep_refsToResolve plan))) (\<lambda>_.
     all_ok (map (check_verifier s) (ep_verifierChecks plan))))))))"

definition complete_under :: "sha256 \<Rightarrow> instant \<Rightarrow> string \<Rightarrow> agent_id \<Rightarrow> string \<Rightarrow> evidence_item list
    \<Rightarrow> friction_input option \<Rightarrow> pin \<Rightarrow> hub_store \<Rightarrow> (work_item \<times> bool) option hub_result" where
  "complete_under sha now workId agentId token evidence friction p s =
     (case get_work workId s of
        None \<Rightarrow> (Inr None, s)
      | Some item \<Rightarrow>
          (case complete_checks sha p item agentId token evidence s of
             Inl e \<Rightarrow> (Inl e, s)
           | Inr _ \<Rightarrow>
               (case tryCasUpdate sha p workId (complete_row now agentId token evidence friction) s of
                  (Inl e, s') \<Rightarrow> (Inl e, s')
                | (Inr None, s') \<Rightarrow> (Inr None, s')
                | (Inr (Some w), s') \<Rightarrow> (Inr (Some (w, friction = None)), s'))))"

definition completeWork :: "sha256 \<Rightarrow> instant \<Rightarrow> string \<Rightarrow> agent_id \<Rightarrow> string \<Rightarrow> evidence_item list
    \<Rightarrow> friction_input option \<Rightarrow> hub_store \<Rightarrow> (work_item \<times> bool) option hub_result" where
  "completeWork sha now workId agentId token evidence friction =
     withWriterFence (complete_under sha now workId agentId token evidence friction)"

end
