(* ===== verification/Work_Recall.thy ===== *)
theory Work_Recall
  imports Work_Complete
begin

text \<open>
  Suspension and recall: \<open>pauseWork\<close>, \<open>unpauseWork\<close>, \<open>resetWork\<close>, \<open>recommitRevisionSet\<close>, the frozen authority
  a pause stores and an unpause compares, the projection of recall notices, and the expiry of a lapsed
  lease (\<open>expireLease\<close>).
\<close>

section \<open>Locators and expectations\<close>

record pause_request =
  pq_workId :: "string option"
  pq_logicalId :: "string option"
  pq_operationId :: string
  pq_reason :: string
  pq_expectedRevision :: "int option"
  pq_expectedGeneration :: "int option"

record unpause_request =
  uq_workId :: "string option"
  uq_logicalId :: "string option"
  uq_logicalIds :: "string list option"
  uq_expectedRevision :: "int option"
  uq_expectedRevisions :: "(string \<times> int) list option"
  uq_expectedGeneration :: "int option"
  uq_operationId :: "string option"
  uq_reason :: "string option"

definition resolvePauseLocator :: "pin \<Rightarrow> string option \<Rightarrow> string option \<Rightarrow> wi_error + string" where
  "resolvePauseLocator p workId logicalId =
     (let hasPhysical = \<not> falsy_text workId; hasLogical = \<not> falsy_text logicalId in
      if hasPhysical = hasLogical then Inl (TransitionRejected LocatorRequired)
      else if hasPhysical then Inr (the workId)
      else case p of
          LegacyPin \<Rightarrow> Inr (the logicalId)
        | GenerationPin g h rv \<Rightarrow>
            (case binding_of g (the logicalId) of
               None \<Rightarrow> Inl (TransitionRejected NoCurrentBinding)
             | Some b \<Rightarrow> Inr (tb_physicalId b)))"

definition logical_id :: "work_item \<Rightarrow> string" where
  "logical_id w = (case wi_logicalId w of None \<Rightarrow> wi_id w | Some l \<Rightarrow> l)"

definition revision_number :: "work_item \<Rightarrow> int" where
  "revision_number w = (case wi_revision w of None \<Rightarrow> 1 | Some r \<Rightarrow> r)"

definition originalCreatorAgentId :: "pin \<Rightarrow> work_item \<Rightarrow> hub_store \<Rightarrow> wi_error + agent_id option" where
  "originalCreatorAgentId p w s =
     (case p of
        LegacyPin \<Rightarrow> Inr (map_option ac_agentId (wi_createdBy w))
      | GenerationPin g h rv \<Rightarrow>
          (case get_family (logical_id w) s of
             None \<Rightarrow> Inl (TransitionRejected FamilyMissing)
           | Some f \<Rightarrow>
               let creator = map_option ac_agentId (wf_originalCreatedBy f) in
               if falsy_text creator then Inl (TransitionRejected FamilyMissing) else Inr creator))"

definition assertPauseExpectations :: "pin \<Rightarrow> work_item \<Rightarrow> int option \<Rightarrow> int option \<Rightarrow> wi_error + unit" where
  "assertPauseExpectations p w expectedRevision expectedGeneration =
     (let generation = (case p of LegacyPin \<Rightarrow> 0 | GenerationPin g h rv \<Rightarrow> th_generation h) in
      check ((case expectedRevision of None \<Rightarrow> True | Some r \<Rightarrow> r = revision_number w) \<and>
             (case expectedGeneration of None \<Rightarrow> True | Some g \<Rightarrow> g = generation))
        (TransitionRejected ExpectationMismatch))"

section \<open>The frozen authority\<close>

definition physical_to_logical :: "topology_generation \<Rightarrow> string \<Rightarrow> string option" where
  "physical_to_logical g phys = map_of (rev (map (\<lambda>(l, b). (tb_physicalId b, l)) (tg_bindings g))) phys"

definition resolve_edge :: "topology_generation \<Rightarrow> string \<Rightarrow> wi_error + string" where
  "resolve_edge g locator =
     (if binding_of g locator \<noteq> None then Inr locator
      else case physical_to_logical g locator of
          None \<Rightarrow> Inl (CurrentnessRejected Integrity)
        | Some l \<Rightarrow> if l = [] then Inl (CurrentnessRejected Integrity) else Inr l)"

definition require :: "bool \<Rightarrow> currentness_code \<Rightarrow> wi_error + unit" where
  "require b c = check b (CurrentnessRejected c)"

definition contract_or_mismatch :: "contract_error + 'a \<Rightarrow> wi_error + 'a" where
  "contract_or_mismatch r = (case r of Inl e \<Rightarrow> Inl (CurrentnessRejected IdentityMismatch) | Inr a \<Rightarrow> Inr a)"

text \<open>What both modes derive: contract hash, edges by logical id, and the execution identity.\<close>

record derived_authority =
  da_nodeContractHash :: string
  da_dependsOn :: "string list"
  da_completionDependsOn :: "string list"
  da_localExecutionIdentity :: "string option"

definition generation_authority :: "sha256 \<Rightarrow> topology_generation \<Rightarrow> work_item \<Rightarrow> wi_error + derived_authority" where
  "generation_authority sha g w =
     (let l = logical_id w; r = wi_revisionIdentity w in
      case binding_of g l of
        None \<Rightarrow> Inl (CurrentnessRejected OldOrDraft)
      | Some b \<Rightarrow>
          res_bind (require (tb_physicalId b = wi_id w \<and> tb_revision b = revision_number w) OldOrDraft) (\<lambda>_.
          res_bind (map_res (resolve_edge g) (wi_dependsOn w)) (\<lambda>deps.
          res_bind (map_res (resolve_edge g) (wi_completionDependsOn w)) (\<lambda>cdeps.
          let deps = sort deps; cdeps = sort cdeps in
          res_bind (require (distinct deps \<and> distinct cdeps) IdentityMismatch) (\<lambda>_.
          res_bind (require (deps = sort (edge_list (tg_dependsOn g) l) \<and>
                             cdeps = sort (edge_list (tg_completionDependsOn g) l)) RevisionRequired) (\<lambda>_.
          res_bind (contract_or_mismatch (deriveNodeContractV4 sha (contract_input_of w)
             (case ri_boundReferences r of None \<Rightarrow> [] | Some bs \<Rightarrow> bs))) (\<lambda>contractHash.
          res_bind (require (contractHash = tb_nodeContractHash b \<and>
                             ri_nodeContractHashVersion r = Some NODE_CONTRACT_HASH_VERSION \<and>
                             ri_nodeContractHash r = Some (tb_nodeContractHash b)) RevisionRequired) (\<lambda>_.
          res_bind (lift_contract (deriveNodeTopologyV4 sha l deps cdeps)) (\<lambda>topologyHash.
          res_bind (require (topologyHash = tb_nodeTopologyHash b \<and>
                             ri_nodeTopologyHashVersion r = Some NODE_TOPOLOGY_HASH_VERSION \<and>
                             ri_nodeTopologyHash r = Some (tb_nodeTopologyHash b)) RevisionRequired) (\<lambda>_.
          res_bind (map_res (\<lambda>(c, t). case binding_of g t of
                None \<Rightarrow> Inl (CurrentnessRejected Integrity)
              | Some tb \<Rightarrow> Inr (target_binding_of c t tb))
             (map (Pair DependsOn) deps @ map (Pair CompletionDependsOn) cdeps)) (\<lambda>outgoing.
          res_bind (lift_contract (deriveLocalExecutionIdentityV4 sha
             \<lparr>ii_logicalId = l, ii_physicalId = wi_id w, ii_revision = revision_number w,
              ii_nodeContractHashVersion = NODE_CONTRACT_HASH_VERSION, ii_nodeContractHash = contractHash,
              ii_nodeTopologyHashVersion = NODE_TOPOLOGY_HASH_VERSION, ii_nodeTopologyHash = topologyHash,
              ii_outgoing = outgoing\<rparr>)) (\<lambda>identity.
          res_bind (require (ri_localExecutionIdentity r = Some identity) RevisionRequired) (\<lambda>_.
          Inr \<lparr>da_nodeContractHash = contractHash, da_dependsOn = deps, da_completionDependsOn = cdeps,
               da_localExecutionIdentity = Some identity\<rparr>)))))))))))))"

text \<open>In legacy mode the claimant projection is hashed as it is stored.\<close>

definition claimant_projection_json :: "work_item \<Rightarrow> json" where
  "claimant_projection_json w = json_obj
     [(''type'', Some (JStr (type_name (wi_type w)))),
      (''roleEligibility'', Some (json_strs (wi_roleEligibility w))),
      (''runbook'', json_opt JStr (wi_runbook w)),
      (''payload'', wi_payload w),
      (''targetRef'', Some (json_null_or target_json (wi_targetRef w))),
      (''evidenceRequirements'', Some (JArr (map requirement_json (wi_evidenceRequirements w)))),
      (''references'', Some (JArr (map reference_json (wi_references w)))),
      (''boundReferences'', Some (JArr (map bound_reference_json
         (case ri_boundReferences (wi_revisionIdentity w) of None \<Rightarrow> [] | Some bs \<Rightarrow> bs)))),
      (''leaseWindowMs'', json_opt JNum (wi_leaseWindowMs w)),
      (''nodeConfig'', json_opt (\<lambda>n. json_obj [(''pulse'', Some (json_null_or (\<lambda>p. json_obj
         [(''intervalSeconds'', Some (JNum (pc_intervalSeconds p))),
          (''message'', Some (JStr (pc_message p))),
          (''responseShape'', Some (JStr (pc_responseShape p))),
          (''missedThreshold'', Some (JNum (pc_missedThreshold p))),
          (''firstFireDelaySeconds'', json_opt JNum (pc_firstFireDelaySeconds p))]) (nc_pulse n)))])
         (wi_nodeConfig w))]"

definition legacy_authority :: "sha256 \<Rightarrow> work_item \<Rightarrow> derived_authority" where
  "legacy_authority sha w =
     \<lparr>da_nodeContractHash = hashCanonicalDomain sha ''legacy-frozen-claimant-contract-v4'' (claimant_projection_json w),
      da_dependsOn = sort (wi_dependsOn w), da_completionDependsOn = sort (wi_completionDependsOn w),
      da_localExecutionIdentity = None\<rparr>"

definition authority_hash :: "sha256 \<Rightarrow> frozen_authority \<Rightarrow> string" where
  "authority_hash sha f = hashCanonicalDomain sha ''frozen-recall-authority-v4'' (authority_payload_json f)"

definition deriveFrozenRecallAuthority :: "sha256 \<Rightarrow> pin \<Rightarrow> work_item \<Rightarrow> wi_error + frozen_authority" where
  "deriveFrozenRecallAuthority sha p w =
     res_bind (case p of LegacyPin \<Rightarrow> Inr (legacy_authority sha w)
               | GenerationPin g h rv \<Rightarrow> generation_authority sha g w) (\<lambda>d.
     res_bind (lift_contract (deriveNodeTopologyV4 sha (logical_id w) (da_dependsOn d) (da_completionDependsOn d))) (\<lambda>topologyHash.
     let authority =
       \<lparr>fa_generationMode = (p \<noteq> LegacyPin), fa_logicalId = logical_id w, fa_physicalId = wi_id w,
        fa_revision = revision_number w,
        fa_generation = (case p of LegacyPin \<Rightarrow> None | GenerationPin g h rv \<Rightarrow> Some (th_generation h)),
        fa_nodeContractHash = da_nodeContractHash d, fa_nodeTopologyHash = topologyHash,
        fa_dependsOnLogicalIds = da_dependsOn d,
        fa_completionDependsOnLogicalIds = da_completionDependsOn d,
        fa_localExecutionIdentity = da_localExecutionIdentity d, fa_authorityHash = []\<rparr>
     in Inr (authority\<lparr>fa_authorityHash := authority_hash sha authority\<rparr>)))"

definition assertFrozenRecallAuthorityUnchanged :: "sha256 \<Rightarrow> frozen_authority option \<Rightarrow> frozen_authority
    \<Rightarrow> wi_error + unit" where
  "assertFrozenRecallAuthorityUnchanged sha frozen current =
     (case frozen of
        None \<Rightarrow> Inl (CurrentnessRejected RevisionRequired)
      | Some f \<Rightarrow> require (authority_hash sha f = fa_authorityHash f \<and>
                          fa_authorityHash f = fa_authorityHash current) RevisionRequired)"

text \<open>The authority an unpause compares with: the one a sanctioned edit recorded, else the frozen one.\<close>

definition recall_baseline :: "recall_entry \<Rightarrow> frozen_authority option" where
  "recall_baseline h = or_else (rh_sanctionedAuthority h) (rh_frozenAuthority h)"

section \<open>Pause\<close>

definition actor_request_json :: "actor \<Rightarrow> json" where
  "actor_request_json a = json_obj [(''agentId'', Some (JStr (ac_agentId a))), (''role'', Some (JStr (ac_role a)))]"

definition pause_request_hash :: "sha256 \<Rightarrow> string \<Rightarrow> pause_request \<Rightarrow> actor \<Rightarrow> string" where
  "pause_request_hash sha workId q a = hashCanonicalDomain sha ''workitem-pause-request-v4'' (json_obj
     [(''workId'', Some (JStr workId)), (''operationId'', Some (JStr (pq_operationId q))),
      (''reason'', Some (JStr (pq_reason q))),
      (''expectedRevision'', Some (json_null_or JNum (pq_expectedRevision q))),
      (''expectedGeneration'', Some (json_null_or JNum (pq_expectedGeneration q))),
      (''actor'', Some (actor_request_json a))])"

definition recall_before_of :: "sha256 \<Rightarrow> work_item \<Rightarrow> revision \<Rightarrow> recall_before" where
  "recall_before_of sha w rv =
     (let (logicalId, rev, gen) = legacyRevisionIdentity w in
      \<lparr>rb_physicalId = wi_id w, rb_logicalId = logicalId, rb_revision = rev,
       rb_topologyGeneration = ri_topologyGeneration (wi_revisionIdentity w),
       rb_phase = wi_status w, rb_resourceVersion = rv, rb_stateHash = recallStateHash sha w,
       rb_blockedOn = map_option (\<lambda>b. b\<lparr>bo_blockerIds := Some (case bo_blockerIds b of None \<Rightarrow> [] | Some ids \<Rightarrow> ids)\<rparr>) (wi_blockedOn w),
       rb_lease = map_option (\<lambda>l.
         \<lparr>rl_holder = le_holder l, rl_claimedAt = le_claimedAt l, rl_expiresAt = le_expiresAt l,
          rl_heartbeatAt = le_heartbeatAt l,
          rl_tokenFingerprint = Some (recallTokenFingerprint sha (le_token l))\<rparr>) (wi_lease w)\<rparr>)"

definition recall_notice_id :: "sha256 \<Rightarrow> work_item \<Rightarrow> string \<Rightarrow> agent_id \<Rightarrow> string" where
  "recall_notice_id sha w operationId recipient =
     hashCanonicalDomain sha ''workitem-recall-notice-v4'' (json_obj
       [(''physicalId'', Some (JStr (wi_id w))), (''operationId'', Some (JStr operationId)),
        (''exactHolder'', Some (JStr recipient)), (''beforeStateHash'', Some (JStr (recallStateHash sha w)))])"

definition recall_notice :: "sha256 \<Rightarrow> instant \<Rightarrow> work_item \<Rightarrow> string \<Rightarrow> agent_id \<Rightarrow> recipient_kind \<Rightarrow> recall_intent" where
  "recall_notice sha now w operationId recipient kind =
     \<lparr>pi_intentId = recall_notice_id sha w operationId recipient, pi_operationId = operationId,
      pi_exactHolderAgentId = recipient, pi_recipientKind = Some kind,
      pi_beforeStateHash = recallStateHash sha w, pi_createdAt = now,
      pi_projectedMessageId = None, pi_projectedAt = None\<rparr>"

text \<open>One notice for the holder and one for the author, unless they are the same agent.\<close>

definition recall_notices :: "sha256 \<Rightarrow> instant \<Rightarrow> work_item \<Rightarrow> string \<Rightarrow> recall_intent list" where
  "recall_notices sha now w operationId =
     (let holder = map_option le_holder (wi_lease w); author = map_option ac_agentId (wi_createdBy w) in
      (case holder of None \<Rightarrow> [] | Some h \<Rightarrow> [recall_notice sha now w operationId h HolderRecipient]) @
      (case author of
         None \<Rightarrow> []
       | Some a \<Rightarrow> if a = [] \<or> holder = Some a then [] else [recall_notice sha now w operationId a AuthorRecipient]))"

definition pause_guards :: "pin \<Rightarrow> work_item \<Rightarrow> pause_request \<Rightarrow> actor \<Rightarrow> hub_store \<Rightarrow> wi_error + unit" where
  "pause_guards p w q a s =
     res_bind (assertNotFailedSealed w) (\<lambda>_.
     res_bind (assertPauseExpectations p w (pq_expectedRevision q) (pq_expectedGeneration q)) (\<lambda>_.
     if wi_status w \<notin> {Ready, Claimed, InProgress, Blocked} then Inl (TransitionRejected (WrongPhase VPause (wi_status w)))
     else if isParkedFromExecution w then Inl (TransitionRejected AlreadySuspended)
     else if wi_status w = Ready \<and> wi_lease w \<noteq> None then Inl (TransitionRejected CorruptReadyWithLease)
     else if wi_status w \<noteq> Ready \<and> wi_lease w = None then Inl (TransitionRejected CorruptActiveWithoutLease)
     else if wi_status w = Blocked \<and> wi_blockedOn w = None then Inl (TransitionRejected CorruptBlockedWithoutBlocker)
     else res_bind (originalCreatorAgentId p w s) (\<lambda>creator.
       let isCreator = (creator = Some (ac_agentId a)); isSteward = is_steward (ac_role a) in
       check (if wi_status w = Ready then isCreator \<or> isSteward else isSteward)
         (TransitionRejected PauseForbidden))))"

definition pause_row :: "sha256 \<Rightarrow> instant \<Rightarrow> pin \<Rightarrow> string \<Rightarrow> pause_request \<Rightarrow> actor \<Rightarrow> row_transform" where
  "pause_row sha now p workId q a s w rv =
     (case List.find (\<lambda>h. rh_operationId h = pq_operationId q) (wi_recallHistory w) of
        Some replay \<Rightarrow>
          if rh_requestHash replay \<noteq> pause_request_hash sha workId q a
          then Inl (TransitionRejected OperationReusedWithDifferentBytes)
          else Inl (IdempotentRecall w)
      | None \<Rightarrow>
          res_bind (pause_guards p w q a s) (\<lambda>_.
          res_bind (deriveFrozenRecallAuthority sha p w) (\<lambda>frozen.
          let notices = recall_notices sha now w (pq_operationId q);
              entry =
                \<lparr>rh_operationId = pq_operationId q, rh_requestHash = pause_request_hash sha workId q a,
                 rh_actor = a, rh_reason = pq_reason q, rh_recalledAt = now,
                 rh_beforeStateHash = recallStateHash sha w, rh_before = recall_before_of sha w rv,
                 rh_frozenAuthority = Some frozen, rh_sanctionedAuthority = None,
                 rh_holderNoticeIntentId = map_option (\<lambda>l. recall_notice_id sha w (pq_operationId q) (le_holder l)) (wi_lease w)\<rparr>
          in Inr (touched now (accrued w now
               (w\<lparr>wi_suspended := Some True, wi_blockedOn := None,
                  wi_recallHistory := wi_recallHistory w @ [entry],
                  wi_pendingRecallIntents := wi_pendingRecallIntents w @ notices,
                  wi_recallNoticePending := Some (notices \<noteq> [] \<or> wi_recallNoticePending w = Some True)\<rparr>))))))"

text \<open>The result says whether the operation was a replay.\<close>

definition pause_under :: "sha256 \<Rightarrow> instant \<Rightarrow> pause_request \<Rightarrow> actor \<Rightarrow> pin \<Rightarrow> hub_store
    \<Rightarrow> (work_item \<times> bool) option hub_result" where
  "pause_under sha now q a p s =
     (if js_trim (pq_operationId q) = [] then (Inl (TransitionRejected OperationIdRequired), s)
      else if js_trim (pq_reason q) = [] then (Inl (TransitionRejected ReasonRequired), s)
      else case resolvePauseLocator p (pq_workId q) (pq_logicalId q) of
          Inl e \<Rightarrow> (Inl e, s)
        | Inr workId \<Rightarrow>
            (case tryCasUpdate sha p workId (pause_row sha now p workId q a) s of
               (Inl (IdempotentRecall w), s') \<Rightarrow> (Inr (Some (w, True)), s')
             | (Inl e, s') \<Rightarrow> (Inl e, s')
             | (Inr r, s') \<Rightarrow> (Inr (map_option (\<lambda>w. (w, False)) r), s')))"

definition pauseWork :: "sha256 \<Rightarrow> instant \<Rightarrow> pause_request \<Rightarrow> actor \<Rightarrow> hub_store
    \<Rightarrow> (work_item \<times> bool) option hub_result" where
  "pauseWork sha now q a = withWriterFence (pause_under sha now q a)"

section \<open>Unpause\<close>

definition unpause_lease :: "instant \<Rightarrow> work_item \<Rightarrow> lease option" where
  "unpause_lease now w =
     (if wi_lease w \<noteq> None \<and> wi_status w \<in> set LEASE_HELD_PHASES
      then map_option (extended_lease now w) (wi_lease w) else wi_lease w)"

definition unpause_authority_code :: "work_item \<Rightarrow> agent_id option \<Rightarrow> agent_id \<Rightarrow> currentness_code" where
  "unpause_authority_code w creator a =
     (if holds w a \<or> a \<in> set (wi_executorHistory w) then HolderHasNoAuthority
      else if creator = Some a then ArchitectRequired
      else ActorForbidden)"

definition unpause_row :: "sha256 \<Rightarrow> instant \<Rightarrow> pin \<Rightarrow> unpause_request \<Rightarrow> actor \<Rightarrow> row_transform" where
  "unpause_row sha now p q a s w rv =
     res_bind (assertNotFailedSealed w) (\<lambda>_.
     res_bind (assertPauseExpectations p w (uq_expectedRevision q) (uq_expectedGeneration q)) (\<lambda>_.
     if \<not> isParkedFromExecution w then Inl (TransitionRejected (NotSuspended VUnpause))
     else
       let lastRecall = at_last (wi_recallHistory w) in
       res_bind (deriveFrozenRecallAuthority sha p w) (\<lambda>current.
       res_bind (assertFrozenRecallAuthorityUnchanged sha (Option.bind lastRecall recall_baseline) current) (\<lambda>_.
       res_bind (originalCreatorAgentId p w s) (\<lambda>creator.
       let creatorCompatibility =
             creator = Some (ac_agentId a) \<and>
             falsy_text (ri_predecessorPhysicalId (wi_revisionIdentity w)) \<and>
             map_option (ac_agentId \<circ> rh_actor) lastRecall = Some (ac_agentId a)
       in if \<not> creatorCompatibility \<and> \<not> is_steward (ac_role a)
          then Inl (CurrentnessRejected (unpause_authority_code w creator (ac_agentId a)))
          else Inr (touched now (accrued w now
            (w\<lparr>wi_suspended := Some False, wi_lease := unpause_lease now w\<rparr>))))))))"

definition unpauseWork :: "sha256 \<Rightarrow> instant \<Rightarrow> unpause_request \<Rightarrow> actor \<Rightarrow> hub_store
    \<Rightarrow> work_item option hub_result" where
  "unpauseWork sha now q a s =
     (if uq_logicalIds q \<noteq> None then (Inl (TransitionRejected BatchUnpause), s)
      else withWriterFence (\<lambda>p s. case resolvePauseLocator p (uq_workId q) (uq_logicalId q) of
             Inl e \<Rightarrow> (Inl e, s)
           | Inr workId \<Rightarrow> tryCasUpdate sha p workId (unpause_row sha now p q a) s) s)"

section \<open>Reset\<close>

definition rebaseline :: "frozen_authority \<Rightarrow> recall_entry \<Rightarrow> recall_entry" where
  "rebaseline current h =
     (case recall_baseline h of
        None \<Rightarrow> h
      | Some b \<Rightarrow> if fa_authorityHash b \<noteq> fa_authorityHash current
                  then h\<lparr>rh_sanctionedAuthority := Some current\<rparr> else h)"

definition reset_history :: "sha256 \<Rightarrow> pin \<Rightarrow> work_item \<Rightarrow> wi_error + recall_entry list" where
  "reset_history sha p w =
     (if wi_recallHistory w = [] then Inr []
      else res_bind (deriveFrozenRecallAuthority sha p
             (w\<lparr>wi_lease := None, wi_evidence := [], wi_attestations := [], wi_attestationHistory := []\<rparr>)) (\<lambda>current.
           Inr (map_last (rebaseline current) (wi_recallHistory w))))"

definition reset_row :: "sha256 \<Rightarrow> instant \<Rightarrow> pin \<Rightarrow> actor \<Rightarrow> row_transform" where
  "reset_row sha now p a s w rv =
     res_bind (assertNotFailedSealed w) (\<lambda>_.
     if \<not> isParkedFromExecution w then Inl (TransitionRejected (NotSuspended VReset))
     else if \<not> is_steward (ac_role a) then Inl (TransitionRejected ResetForbidden)
     else res_bind (reset_history sha p w) (\<lambda>history.
       Inr (touched now ((releaseHold w now Ready w)
         \<lparr>wi_evidence := [], wi_attestations := [], wi_attestationHistory := [], wi_recallHistory := history\<rparr>))))"

definition resetWork :: "sha256 \<Rightarrow> instant \<Rightarrow> string \<Rightarrow> actor \<Rightarrow> hub_store \<Rightarrow> work_item option hub_result" where
  "resetWork sha now workId a = withWriterFence (\<lambda>p. tryCasUpdate sha p workId (reset_row sha now p a))"

section \<open>Recommit of a revision set\<close>

definition recommit_request_hash :: "sha256 \<Rightarrow> string list \<Rightarrow> unpause_request \<Rightarrow> actor \<Rightarrow> string" where
  "recommit_request_hash sha logicalIds q a = hashCanonicalDomain sha ''workgraph-recommit-request-v4'' (json_obj
     [(''logicalIds'', Some (json_strs logicalIds)),
      (''expectedRevisions'', json_opt (\<lambda>m. JObj (map (\<lambda>(k, n). (k, JNum n)) m)) (uq_expectedRevisions q)),
      (''expectedGeneration'', json_opt JNum (uq_expectedGeneration q)),
      (''operationId'', json_opt JStr (uq_operationId q)), (''reason'', json_opt JStr (uq_reason q)),
      (''actor'', Some (actor_request_json a))])"

definition get_operation :: "string \<Rightarrow> hub_store \<Rightarrow> (revision_operation \<times> revision) option" where
  "get_operation i s = (case getWithRevision OPERATION_KIND i s of Some (EOperation r, rv) \<Rightarrow> Some (r, rv) | _ \<Rightarrow> None)"

definition recommit_row :: "sha256 \<Rightarrow> pin \<Rightarrow> topology_generation \<Rightarrow> (string \<times> int) list \<Rightarrow> hub_store \<Rightarrow> string
    \<Rightarrow> wi_error + (work_item \<times> revision)" where
  "recommit_row sha p g expected s l =
     (case binding_of g l of
        None \<Rightarrow> Inl (CurrentnessRejected CurrentnessMismatch)
      | Some b \<Rightarrow>
          if map_of expected l \<noteq> Some (tb_revision b) then Inl (CurrentnessRejected CurrentnessMismatch)
          else case getWithRevision WORK_KIND (tb_physicalId b) s of
              Some (EWork w, rv) \<Rightarrow>
                let item = cloneWorkItem w in
                res_bind (assertCurrent sha item p) (\<lambda>_.
                if wi_status item \<noteq> Paused \<or> wi_lease item \<noteq> None
                then Inl (CurrentnessRejected RevisionRequired) else Inr (item, rv))
            | _ \<Rightarrow> Inl (CurrentnessRejected Integrity))"

definition recommitted_row :: "sha256 \<Rightarrow> pin \<Rightarrow> topology_generation \<Rightarrow> hub_store \<Rightarrow> string \<Rightarrow> wi_error + work_item" where
  "recommitted_row sha p g s l =
     (case Option.bind (binding_of g l) (\<lambda>b. get_work (tb_physicalId b) s) of
        None \<Rightarrow> Inl (CurrentnessRejected Integrity)
      | Some w \<Rightarrow> if wi_status w \<noteq> Ready then Inl (CurrentnessRejected Integrity) else Inr (observe p w))"

definition recommitted :: "instant \<Rightarrow> work_item \<Rightarrow> work_item" where
  "recommitted now w = touched now (accrued w now (w\<lparr>wi_status := Ready\<rparr>))"

definition recommit_request_ok :: "unpause_request \<Rightarrow> string list \<Rightarrow> wi_error + (int \<times> (string \<times> int) list)" where
  "recommit_request_ok q logicalIds =
     (if logicalIds = [] \<or> \<not> distinct logicalIds \<or> blank_text (uq_operationId q) \<or> blank_text (uq_reason q)
      then Inl (TransitionRejected RecommitMalformed)
      else case (uq_expectedGeneration q, uq_expectedRevisions q) of
          (Some g, Some m) \<Rightarrow>
            if sort (map fst m) \<noteq> logicalIds then Inl (TransitionRejected RecommitMalformed) else Inr (g, m)
        | _ \<Rightarrow> Inl (TransitionRejected RecommitMalformed))"

definition recommit_under :: "sha256 \<Rightarrow> instant \<Rightarrow> unpause_request \<Rightarrow> actor \<Rightarrow> string list \<Rightarrow> int
    \<Rightarrow> (string \<times> int) list \<Rightarrow> pin \<Rightarrow> hub_store \<Rightarrow> (work_item list \<times> bool) hub_result" where
  "recommit_under sha now q a logicalIds expectedGeneration expected p s =
     (case p of
        LegacyPin \<Rightarrow> (Inl (CurrentnessRejected CurrentnessMismatch), s)
      | GenerationPin g h rv \<Rightarrow>
          if th_generation h \<noteq> expectedGeneration then (Inl (CurrentnessRejected CurrentnessMismatch), s)
          else case get_operation (tg_operationId g) s of
              None \<Rightarrow> (Inl (CurrentnessRejected Integrity), s)
            | Some (op, opRv) \<Rightarrow>
                let requestHash = recommit_request_hash sha logicalIds q a in
                if ro_recommitSet op = [] then
                  (if ro_recommitOperationId op \<noteq> uq_operationId q \<or> ro_recommitRequestHash op \<noteq> Some requestHash
                   then (Inl (CurrentnessRejected RevisionRequired), s)
                   else case map_res (recommitted_row sha p g s) logicalIds of
                       Inl e \<Rightarrow> (Inl e, s)
                     | Inr ws \<Rightarrow> (Inr (ws, True), s))
                else if sort (ro_recommitSet op) \<noteq> logicalIds then (Inl (CurrentnessRejected RevisionRequired), s)
                else case map_res (recommit_row sha p g expected s) logicalIds of
                    Inl e \<Rightarrow> (Inl e, s)
                  | Inr rows \<Rightarrow>
                      let next = map (\<lambda>(w, r). (recommitted now w, r)) rows;
                          op' = op\<lparr>ro_recommittedSet := Some (ro_recommitSet op), ro_recommitSet := [],
                                   ro_recommitOperationId := uq_operationId q,
                                   ro_recommitRequestHash := Some requestHash,
                                   ro_recommittedAt := Some now\<rparr>
                      in (case putBatchIfMatch ident
                              (map (\<lambda>(w, r). (WORK_KIND, EWork w, r)) next @ [(OPERATION_KIND, EOperation op', opRv)]) s of
                            Inl z \<Rightarrow> (Inl (StoreThrew z), s)
                          | Inr (BatchMismatch cs, s') \<Rightarrow> (Inl (CurrentnessRejected HeadChanged), s')
                          | Inr (BatchWritten rvs, s') \<Rightarrow> (Inr (map (observe p \<circ> fst) next, False), s')))"

definition recommitRevisionSet :: "sha256 \<Rightarrow> instant \<Rightarrow> unpause_request \<Rightarrow> actor \<Rightarrow> hub_store
    \<Rightarrow> (work_item list \<times> bool) hub_result" where
  "recommitRevisionSet sha now q a s =
     (if \<not> is_steward (ac_role a) then (Inl (CurrentnessRejected DirectorOrArchitectRequired), s)
      else
        let logicalIds = sort (case uq_logicalIds q of None \<Rightarrow> [] | Some ls \<Rightarrow> ls) in
        case recommit_request_ok q logicalIds of
          Inl e \<Rightarrow> (Inl e, s)
        | Inr (g, m) \<Rightarrow> withWriterFence (recommit_under sha now q a logicalIds g m) s)"

section \<open>Projection of recall notices\<close>

definition markRecallNotice_row :: "instant \<Rightarrow> string \<Rightarrow> string \<Rightarrow> row_transform" where
  "markRecallNotice_row now intentId messageId s w rv =
     (case find_index (\<lambda>i. pi_intentId i = intentId) (wi_pendingRecallIntents w) of
        None \<Rightarrow> Inl (TransitionRejected NoticeIntentMissing)
      | Some n \<Rightarrow>
          let existing = wi_pendingRecallIntents w ! n in
          if \<not> falsy_text (pi_projectedMessageId existing) then
            (if pi_projectedMessageId existing \<noteq> Some messageId
             then Inl (TransitionRejected NoticeAlreadyProjected) else Inl (IdempotentRecall w))
          else
            let intents = (wi_pendingRecallIntents w)
                  [n := existing\<lparr>pi_projectedMessageId := Some messageId, pi_projectedAt := Some now\<rparr>]
            in Inr (touched now (w\<lparr>wi_pendingRecallIntents := intents,
                 wi_recallNoticePending := Some (list_ex (\<lambda>i. falsy_text (pi_projectedMessageId i)) intents)\<rparr>)))"

text \<open>This loop reads the row without the currentness check, so it runs as in legacy mode.\<close>

definition markRecallNoticeProjected :: "sha256 \<Rightarrow> instant \<Rightarrow> string \<Rightarrow> string \<Rightarrow> string \<Rightarrow> hub_store
    \<Rightarrow> work_item option hub_result" where
  "markRecallNoticeProjected sha now workId intentId messageId =
     withWriterFence (\<lambda>p s. case tryCasUpdate sha LegacyPin workId (markRecallNotice_row now intentId messageId) s of
         (Inl (IdempotentRecall w), s') \<Rightarrow> (Inr (Some w), s')
       | r \<Rightarrow> r)"

section \<open>Expiry of a lapsed lease\<close>

definition sealed_row :: "sha256 \<Rightarrow> instant \<Rightarrow> work_item \<Rightarrow> revision \<Rightarrow> attestation \<Rightarrow> nat \<Rightarrow> string \<Rightarrow> work_item" where
  "sealed_row sha now w rv a idx operationId =
     (let (seal, notice) = buildFailedGateSeal sha w rv a idx operationId now in
      touched now (accrued w now
        (w\<lparr>wi_status := FailedSealed, wi_failedGateSeal := Some seal, wi_effectiveDisposition := True,
           wi_pendingFailedSealNotices := wi_pendingFailedSealNotices w @
             (case notice of None \<Rightarrow> [] | Some n \<Rightarrow> [n]),
           wi_failedSealNoticePending := (notice \<noteq> None), wi_lease := None, wi_blockedOn := None\<rparr>)))"

definition failing_requirements :: "work_item \<Rightarrow> string list" where
  "failing_requirements w =
     sort [er_id req. req \<leftarrow> wi_evidenceRequirements w, er_evidenceAuthority req = Some VerifierAttestation,
           map_option at_verdict (active_attestation w (er_id req)) = Some Fail]"

definition reconcile_row :: "sha256 \<Rightarrow> instant \<Rightarrow> work_item \<Rightarrow> revision \<Rightarrow> wi_error + work_item" where
  "reconcile_row sha now w rv =
     (let a = the (active_attestation w (hd (failing_requirements w))) in
      case find_index (\<lambda>c. attestationIdentity c = attestationIdentity a) (wi_attestationHistory w) of
        None \<Rightarrow> Inl IntegrityError
      | Some idx \<Rightarrow>
          Inr (sealed_row sha now w rv a idx
            (hashCanonicalDomain sha ''failed-gate-legacy-reconcile-v2'' (json_obj
              [(''workId'', Some (JStr (wi_id w))),
               (''attestationId'', Some (JStr (attestationIdentity a)))]))))"

definition lapse_reason :: "lease \<Rightarrow> bool \<Rightarrow> nat \<Rightarrow> nat \<Rightarrow> nat \<Rightarrow> string" where
  "lapse_reason l poisoned recentCount poisonCap nextCount =
     ''Lease lapsed at '' @ toISOString (le_expiresAt l) @ '' (holder '' @ le_holder l @ ''); row '' @
     (if poisoned then ''poison-abandoned'' else ''re-queued to ready'') @ '' ('' @ show_nat recentCount @ ''/'' @
     show_nat poisonCap @ '' lapses inside the poison window; lifetime '' @ show_nat nextCount @
     ''). Recorded so the holder's already-produced evidence stays admissible on re-claim (bug-384), '' @
     ''and so the poison window can date this lapse (work-594). No holder notice is projected for a timer lapse.''"

definition lapse_entry :: "sha256 \<Rightarrow> instant \<Rightarrow> work_item \<Rightarrow> revision \<Rightarrow> lease \<Rightarrow> string \<Rightarrow> frozen_authority
    \<Rightarrow> recall_entry" where
  "lapse_entry sha now w rv l reason frozen =
     (let (logicalId, rev, gen) = legacyRevisionIdentity w in
      \<lparr>rh_operationId = LEASE_EXPIRY_OPERATION_PREFIX @ wi_id w @ '':'' @ le_token l,
       rh_requestHash = hashCanonicalDomain sha ''workitem-lease-expiry-v4'' (json_obj
         [(''workId'', Some (JStr (wi_id w))), (''token'', Some (JStr (le_token l))),
          (''expiresAt'', Some (json_iso (le_expiresAt l)))]),
       rh_actor = \<lparr>ac_role = ''system'', ac_agentId = ''lease-expiry-sweeper''\<rparr>,
       rh_reason = reason, rh_recalledAt = now, rh_beforeStateHash = recallStateHash sha w,
       rh_before =
         \<lparr>rb_physicalId = wi_id w, rb_logicalId = logicalId, rb_revision = rev,
          rb_topologyGeneration = ri_topologyGeneration (wi_revisionIdentity w),
          rb_phase = wi_status w, rb_resourceVersion = rv, rb_stateHash = recallStateHash sha w,
          rb_blockedOn = None,
          rb_lease = Some
            \<lparr>rl_holder = le_holder l, rl_claimedAt = le_claimedAt l, rl_expiresAt = le_expiresAt l,
             rl_heartbeatAt = le_heartbeatAt l,
             rl_tokenFingerprint = tokenFingerprint sha (Some (le_token l))\<rparr>\<rparr>,
       rh_frozenAuthority = Some frozen, rh_sanctionedAuthority = None, rh_holderNoticeIntentId = None\<rparr>)"

definition lapsed_row :: "sha256 \<Rightarrow> instant \<Rightarrow> nat \<Rightarrow> pin \<Rightarrow> work_item \<Rightarrow> revision \<Rightarrow> lease \<Rightarrow> wi_error + work_item" where
  "lapsed_row sha now poisonCap p w rv l =
     (let poisonEligible = (wi_status w \<in> set POISON_ELIGIBLE_PHASES);
          nextCount = (if poisonEligible then wi_leaseExpiryCount w + 1 else wi_leaseExpiryCount w);
          recentCount = (if poisonEligible then recentLeaseExpiryCount w now poisonCap + 1 else 0);
          poisoned = (poisonEligible \<and> poisonCap \<le> recentCount);
          reason = lapse_reason l poisoned recentCount poisonCap nextCount
      in res_bind (deriveFrozenRecallAuthority sha p w) (\<lambda>frozen.
         Inr (touched now ((releaseHold w now (if poisoned then Abandoned else Ready) w)
           \<lparr>wi_blockedOn := None, wi_leaseExpiryCount := nextCount,
             wi_recallHistory := wi_recallHistory w @ [lapse_entry sha now w rv l reason frozen]\<rparr>))))"

text \<open>
  The sweeper's transform: an error None says the row is skipped.
\<close>

definition expire_row :: "sha256 \<Rightarrow> instant \<Rightarrow> nat \<Rightarrow> pin \<Rightarrow> work_item \<Rightarrow> revision \<Rightarrow> wi_error option + work_item" where
  "expire_row sha now poisonCap p w rv =
     (case wi_lease w of
        None \<Rightarrow> Inl None
      | Some l \<Rightarrow>
          if isParkedFromExecution w \<or> wi_status w \<notin> set LEASE_HELD_PHASES \<or> now \<le> le_expiresAt l then Inl None
          else if hasActiveVerifierFail w then
            (if wi_failedGateSeal w \<noteq> None then Inl None
             else map_sum Some id (reconcile_row sha now w rv))
          else map_sum Some id (lapsed_row sha now poisonCap p w rv l))"

datatype expiry_outcome = Requeued | PoisonAbandoned | SweptToSealed | Skipped

fun outcome_of :: "phase \<Rightarrow> expiry_outcome" where
  "outcome_of Abandoned = PoisonAbandoned"
| "outcome_of FailedSealed = SweptToSealed"
| "outcome_of _ = Requeued"

definition expire_under :: "sha256 \<Rightarrow> instant \<Rightarrow> string \<Rightarrow> nat \<Rightarrow> pin \<Rightarrow> hub_store \<Rightarrow> expiry_outcome hub_result" where
  "expire_under sha now workId poisonCap p s =
     (case cas_loop (getWithRevision WORK_KIND workId) (cas_row ident WORK_KIND)
         (\<lambda>s e rv. case as_work e of
            None \<Rightarrow> Inl (Some IntegrityError)
          | Some w \<Rightarrow>
              let current = cloneWorkItem w in
              res_bind (map_sum Some id (assertCurrent sha current p)) (\<lambda>_.
              res_bind (expire_row sha now poisonCap p current rv) (\<lambda>next. Inr (EWork next))))
         quiet s of
        (CasDone e, s') \<Rightarrow> (Inr (case as_work e of None \<Rightarrow> Skipped | Some w \<Rightarrow> outcome_of (wi_status w)), s')
      | (CasMissing, s') \<Rightarrow> (Inr Skipped, s')
      | (CasFailed None, s') \<Rightarrow> (Inr Skipped, s')
      | (CasFailed (Some err), s') \<Rightarrow> (Inl err, s')
      | (CasThrew z, s') \<Rightarrow> (Inl (StoreThrew z), s')
      | (CasExhausted, s') \<Rightarrow> (Inl CasRetriesExhausted, s'))"

definition expireLease :: "sha256 \<Rightarrow> instant \<Rightarrow> string \<Rightarrow> nat \<Rightarrow> hub_store \<Rightarrow> expiry_outcome hub_result" where
  "expireLease sha now workId poisonCap = withWriterFence (expire_under sha now workId poisonCap)"

text \<open>The rows the sweeper visits, at most \<open>limit\<close> of them.\<close>

definition lease_lapsed :: "instant \<Rightarrow> work_item \<Rightarrow> bool" where
  "lease_lapsed now w \<longleftrightarrow>
     wi_status w \<in> set LEASE_HELD_PHASES \<and> (case wi_lease w of None \<Rightarrow> False | Some l \<Rightarrow> le_expiresAt l < now)"

definition listExpiredLeaseItems :: "sha256 \<Rightarrow> instant \<Rightarrow> nat \<Rightarrow> pin \<Rightarrow> hub_store \<Rightarrow> wi_error + work_item list" where
  "listExpiredLeaseItems sha now limit p s =
     res_bind (currentGenerationItems sha p s) (\<lambda>current.
       case current of
         Some ws \<Rightarrow> Inr (take limit (filter (\<lambda>w. \<not> isParkedFromExecution w \<and> lease_lapsed now w) ws))
       | None \<Rightarrow> Inr (filterCurrent sha
           (filter (\<lambda>w. \<not> isParkedFromExecution w) (list_work (lease_lapsed now) limit s)) p))"

end
