(* ===== verification/Work_Attest.thy ===== *)
theory Work_Attest
  imports Work_Recall
begin

text \<open>
  Verifier attestations: \<open>attestEvidence\<close> with its self-attestation exclusion, the classification of the
  cited evidence, the seal of a FAIL verdict and the auto-completion of a PASS, the re-check
  \<open>verifyAttestation\<close>, the projection of seal notices and the migration of sealed rows.
\<close>

section \<open>Entity references\<close>

definition to_lower :: "string \<Rightarrow> string" where
  "to_lower s = map (\<lambda>c. if 65 \<le> (of_char c :: nat) \<and> (of_char c :: nat) \<le> 90
                         then char_of ((of_char c :: nat) + 32) else c) s"

definition canonicalEntityKind :: "string \<Rightarrow> string" where
  "canonicalEntityKind kind =
     (let k = to_lower (js_trim kind) in
      if k = ''bug'' then ''Bug''
      else if k = ''idea'' then ''Idea''
      else if k = ''mission'' then ''Mission''
      else if k \<in> {''workitem'', ''work-item'', ''work_item'', ''review''} then ''WorkItem''
      else if k = ''audit'' then ''Audit''
      else kind)"

definition sameEntityKind :: "string \<Rightarrow> string \<Rightarrow> bool" where
  "sameEntityKind a b \<longleftrightarrow> a \<noteq> [] \<and> b \<noteq> [] \<and> canonicalEntityKind a = canonicalEntityKind b"

text \<open>\<open>Kind/id\<close>: split at the first slash, both parts non-empty.\<close>

definition split_ref :: "string \<Rightarrow> (string \<times> string) option" where
  "split_ref r =
     (case find_index (\<lambda>c. c = CHR ''/'') r of
        None \<Rightarrow> None
      | Some n \<Rightarrow> if n = 0 \<or> Suc n = length r then None else Some (take n r, drop (Suc n) r))"

definition resolve_entity :: "string \<Rightarrow> string \<Rightarrow> hub_store \<Rightarrow> hub_entity option" where
  "resolve_entity kind i s =
     (case get_op kind i s of
        Some e \<Rightarrow> Some e
      | None \<Rightarrow> if canonicalEntityKind kind \<noteq> kind then get_op (canonicalEntityKind kind) i s else None)"

section \<open>Who may not attest\<close>

definition addRevisionAuthorExclusions :: "work_item \<Rightarrow> hub_store \<Rightarrow> agent_id list" where
  "addRevisionAuthorExclusions w s =
     (let nonempty = filter (\<lambda>a. a \<noteq> []);
          revised = (case ri_revisedBy (wi_revisionIdentity w) of None \<Rightarrow> [] | Some a \<Rightarrow> nonempty [ac_agentId a])
      in revised @
        (if falsy_text (wi_logicalId w) then []
         else case get_family (the (wi_logicalId w)) s of
             None \<Rightarrow> []
           | Some f \<Rightarrow> (case wf_originalCreatedBy f of None \<Rightarrow> [] | Some a \<Rightarrow> nonempty [ac_agentId a])))"

definition involved_agents :: "work_item \<Rightarrow> hub_store \<Rightarrow> agent_id list" where
  "involved_agents w s =
     wi_executorHistory w @
     (case wi_createdBy w of None \<Rightarrow> [] | Some a \<Rightarrow> if ac_agentId a = [] then [] else [ac_agentId a]) @
     addRevisionAuthorExclusions w s @
     (case wi_lease w of None \<Rightarrow> [] | Some l \<Rightarrow> if le_holder l = [] then [] else [le_holder l])"

text \<open>The target works, keyed by the locator (the target reference's id, or a parent's id), as in the source's map.\<close>

definition attestation_targets :: "sha256 \<Rightarrow> pin \<Rightarrow> work_item \<Rightarrow> hub_store \<Rightarrow> wi_error + (string \<times> work_item) list" where
  "attestation_targets sha p gate s =
     (let gateIsCurrent = (p = LegacyPin \<or> isCurrent sha gate p) in
      res_bind (case wi_targetRef gate of
          None \<Rightarrow> Inr []
        | Some (k, i) \<Rightarrow>
            if to_lower k \<in> {''workitem'', ''work-item'', ''work''} then
              res_bind (if gateIsCurrent then getCurrentProjectionItem sha p i s else Inr (get_work i s)) (\<lambda>t.
                Inr (case t of None \<Rightarrow> [] | Some w \<Rightarrow> [(i, w)]))
            else Inr []) (\<lambda>target.
      res_bind (if gateIsCurrent then parentsAwaitingCompletion sha p (wi_id gate) s
                else Inr (list_work (\<lambda>w. wi_id gate \<in> set (wi_completionDependsOn w)) READY_SCAN_CAP s)) (\<lambda>parents.
      Inr (fold (\<lambda>w m. AList.update (wi_id w) w m) (filter (\<lambda>w. wi_id w \<noteq> wi_id gate) parents) target))))"

text \<open>The excluded agents: those of the target work when there is any, else those of the gate itself.\<close>

definition selfAttestationExclusionFor :: "sha256 \<Rightarrow> pin \<Rightarrow> work_item \<Rightarrow> hub_store \<Rightarrow> wi_error + agent_id list" where
  "selfAttestationExclusionFor sha p gate s =
     res_bind (attestation_targets sha p gate s) (\<lambda>targets.
       Inr (if targets \<noteq> [] then concat (map (\<lambda>(i, w). involved_agents w s) targets) else involved_agents gate s))"

section \<open>The cited evidence\<close>

datatype ref_verdict = LoadBearing | NotLoadBearing | BadRef

definition classify_ref :: "work_item \<Rightarrow> hub_store \<Rightarrow> attestation_ref \<Rightarrow> ref_verdict" where
  "classify_ref item s r =
     (case ar_kind r of
        RefExternal \<Rightarrow> NotLoadBearing
      | RefEvidence \<Rightarrow>
          if Some (ar_ref r) \<in> set (map ei_ref (wi_evidence item)) \<and> ar_ref r \<noteq> [] then LoadBearing else BadRef
      | RefEntity \<Rightarrow>
          (case split_ref (ar_ref r) of
             None \<Rightarrow> BadRef
           | Some (kind, i) \<Rightarrow>
               if i = wi_id item then BadRef
               else case resolve_entity kind i s of
                   None \<Rightarrow> BadRef
                 | Some e \<Rightarrow>
                     let isTargetRef = (case wi_targetRef item of None \<Rightarrow> False
                           | Some (tk, ti) \<Rightarrow> sameEntityKind kind tk \<and> i = ti);
                         canonicalKind = canonicalEntityKind kind;
                         related = isTargetRef
                           \<or> (canonicalKind = ''Audit'' \<and> refRelatesToWork EkAudit e item)
                           \<or> (canonicalKind = ''WorkItem'' \<and> refRelatesToWork EkReview e item)
                     in if related then LoadBearing else BadRef))"

definition classifyEvidenceRefs :: "work_item \<Rightarrow> hub_store \<Rightarrow> attestation_ref list \<Rightarrow> bool" where
  "classifyEvidenceRefs item s refs \<longleftrightarrow>
     (let vs = map (classify_ref item s) refs in BadRef \<notin> set vs \<and> LoadBearing \<in> set vs)"

section \<open>Attestation\<close>

definition new_attestation :: "sha256 \<Rightarrow> instant \<Rightarrow> work_item \<Rightarrow> evidence_requirement \<Rightarrow> agent_id \<Rightarrow> verdict
    \<Rightarrow> attestation_ref list \<Rightarrow> attestation" where
  "new_attestation sha now w req verifierId v refs =
     \<lparr>at_requirementId = er_id req, at_verifierId = verifierId, at_verdict = v, at_producedAt = now,
      at_evidenceRefs = refs, at_requirementHash = hashRequirement sha req,
      at_targetRefSnapshot = wi_targetRef w, at_targetRefHash = hashTargetRef sha (wi_targetRef w),
      at_evidenceSetHash = hashEvidenceSet sha refs,
      at_supersedes = map_option attestationIdentity (active_attestation w (er_id req))\<rparr>"

definition attest_checks :: "sha256 \<Rightarrow> pin \<Rightarrow> work_item \<Rightarrow> string \<Rightarrow> agent_id \<Rightarrow> verdict \<Rightarrow> attestation_ref list
    \<Rightarrow> hub_store \<Rightarrow> wi_error + evidence_requirement" where
  "attest_checks sha p w requirementId verifierId v refs s =
     (case List.find (\<lambda>r. er_id r = requirementId) (wi_evidenceRequirements w) of
        None \<Rightarrow> Inl (AttestationRejected RequirementNotFound)
      | Some req \<Rightarrow>
          if er_evidenceAuthority req \<noteq> Some VerifierAttestation then Inl (AttestationRejected NotAttestationRequirement)
          else if v = Fail \<and> wi_status w \<noteq> Review then Inl (AttestationRejected FailOutsideReview)
          else res_bind (selfAttestationExclusionFor sha p w s) (\<lambda>excluded.
            if verifierId \<in> set excluded then Inl (AttestationRejected SelfAttestation)
            else if \<not> classifyEvidenceRefs w s refs then Inl (AttestationRejected InvalidEvidenceRefs)
            else if (case wi_attestationHistory w of [] \<Rightarrow> False
                     | anchor # _ \<Rightarrow> at_targetRefHash anchor \<noteq> hashTargetRef sha (wi_targetRef w))
            then Inl (AttestationRejected TargetRelocated)
            else Inr req))"

definition attested :: "work_item \<Rightarrow> attestation \<Rightarrow> work_item" where
  "attested w a = w\<lparr>wi_attestationHistory := wi_attestationHistory w @ [a],
                    wi_attestations := AList.update (at_requirementId a) a (wi_attestations w)\<rparr>"

text \<open>Whether the executor side of the contract is done on the evidence already on the row.\<close>

definition executor_done :: "work_item \<Rightarrow> bool" where
  "executor_done w = (case row_evidence_plan w (wi_evidence w) of Inl _ \<Rightarrow> False | Inr plan \<Rightarrow> ep_nextPhase plan = Done)"

definition failed_row :: "sha256 \<Rightarrow> instant \<Rightarrow> work_item \<Rightarrow> revision \<Rightarrow> attestation \<Rightarrow> string \<Rightarrow> work_item" where
  "failed_row sha now w rv a operationId =
     (let (seal, notice) = buildFailedGateSeal sha w rv a (length (wi_attestationHistory w)) operationId now in
      touched now (accrued w now
        ((attested w a)\<lparr>wi_status := FailedSealed, wi_failedGateSeal := Some seal, wi_effectiveDisposition := True,
           wi_pendingFailedSealNotices := wi_pendingFailedSealNotices w @ (case notice of None \<Rightarrow> [] | Some n \<Rightarrow> [n]),
           wi_failedSealNoticePending := (notice \<noteq> None), wi_lease := None, wi_blockedOn := None\<rparr>)))"

definition passed_row :: "instant \<Rightarrow> work_item \<Rightarrow> attestation \<Rightarrow> work_item" where
  "passed_row now w a =
     (let w' = attested w a in
      if wi_status w = Review \<and> fst (evaluateCompletionGate w') \<and> executor_done w \<and> wi_completionDependsOn w = []
      then touched now (accrued w now (w'\<lparr>wi_status := Done\<rparr>))
      else touched now w')"

definition attest_row :: "sha256 \<Rightarrow> instant \<Rightarrow> pin \<Rightarrow> string \<Rightarrow> string \<Rightarrow> agent_id \<Rightarrow> verdict \<Rightarrow> attestation_ref list
    \<Rightarrow> row_transform" where
  "attest_row sha now p workId requirementId verifierId v refs s w rv =
     (let operationId = failedGateOperationId sha workId requirementId verifierId v refs in
      case wi_failedGateSeal w of
        Some seal \<Rightarrow>
          if v = Fail \<and> fs_operationId seal = operationId then Inl (IdempotentFailedSeal w)
          else Inl (FailedGateSealedRejected workId)
      | None \<Rightarrow>
          if hasActiveVerifierFail w then Inl (FailedGateSealedRejected workId)
          else res_bind (attest_checks sha p w requirementId verifierId v refs s) (\<lambda>req.
            let a = new_attestation sha now w req verifierId v refs in
            Inr (if v = Fail then failed_row sha now w rv a operationId else passed_row now w a)))"

definition attest_pre :: "sha256 \<Rightarrow> pin \<Rightarrow> string \<Rightarrow> attestation_ref list \<Rightarrow> hub_store \<Rightarrow> wi_error + work_item" where
  "attest_pre sha p workId refs s =
     (if refs = [] then Inl (AttestationRejected NoEvidenceRefs)
      else if list_ex (\<lambda>r. js_trim (ar_ref r) = []) refs then Inl (AttestationRejected MalformedEvidenceRef)
      else case get_work workId s of
          None \<Rightarrow> Inl (AttestationRejected ItemNotFound)
        | Some w \<Rightarrow> res_bind (assertCurrent sha w p) (\<lambda>_. Inr w))"

text \<open>
  The pre-check on the row just read repeats the callback's seal checks and so adds nothing to them; the
  row transform decides.
\<close>

definition attest_under :: "sha256 \<Rightarrow> instant \<Rightarrow> string \<Rightarrow> string \<Rightarrow> agent_id \<Rightarrow> verdict \<Rightarrow> attestation_ref list
    \<Rightarrow> pin \<Rightarrow> hub_store \<Rightarrow> (work_item \<times> attestation option) hub_result" where
  "attest_under sha now workId requirementId verifierId v refs p s =
     (case attest_pre sha p workId refs s of
        Inl e \<Rightarrow> (Inl e, s)
      | Inr pre \<Rightarrow>
          (case tryCasUpdate sha p workId (attest_row sha now p workId requirementId verifierId v refs) s of
             (Inl (IdempotentFailedSeal w), s') \<Rightarrow> (Inr (w, active_attestation w requirementId), s')
           | (Inl e, s') \<Rightarrow> (Inl e, s')
           | (Inr None, s') \<Rightarrow> (Inl IntegrityError, s')
           | (Inr (Some w), s') \<Rightarrow> (Inr (w, active_attestation w requirementId), s')))"

definition attestEvidence :: "sha256 \<Rightarrow> instant \<Rightarrow> string \<Rightarrow> string \<Rightarrow> agent_id \<Rightarrow> verdict \<Rightarrow> attestation_ref list
    \<Rightarrow> hub_store \<Rightarrow> (work_item \<times> attestation option) hub_result" where
  "attestEvidence sha now workId requirementId verifierId v refs =
     withWriterFence (attest_under sha now workId requirementId verifierId v refs)"

section \<open>Re-checking an attestation\<close>

datatype invalid_reason =
    WorkItemNotFound | NoSuchRequirement | NotVerifierAttestation | NoActiveAttestation | RequirementHashMismatch
  | TargetRefHashMismatch | EvidenceSetHashMismatch | VerifierRoleMismatch | SelfAttested | RefsInvalid

definition active_reasons :: "sha256 \<Rightarrow> pin \<Rightarrow> work_item \<Rightarrow> evidence_requirement \<Rightarrow> attestation \<Rightarrow> hub_store
    \<Rightarrow> wi_error + invalid_reason list" where
  "active_reasons sha p item req a s =
     res_bind (selfAttestationExclusionFor sha p item s) (\<lambda>excluded.
       Inr ((if at_requirementHash a \<noteq> hashRequirement sha req then [RequirementHashMismatch] else []) @
            (if at_targetRefHash a \<noteq> hashTargetRef sha (wi_targetRef item) then [TargetRefHashMismatch] else []) @
            (if at_evidenceSetHash a \<noteq> hashEvidenceSet sha (at_evidenceRefs a) then [EvidenceSetHashMismatch] else []) @
            (if resolveAgentRole (at_verifierId a) s \<noteq> Some ''verifier'' then [VerifierRoleMismatch] else []) @
            (if at_verifierId a \<in> set excluded then [SelfAttested] else []) @
            (if \<not> classifyEvidenceRefs item s (at_evidenceRefs a) then [RefsInvalid] else [])))"

record attestation_verification =
  av_invalidReasons :: "invalid_reason list"
  av_active :: "attestation option"
  av_history :: "attestation list"
  av_legacyReviewEvidencePresent :: bool

definition verify_item :: "sha256 \<Rightarrow> pin \<Rightarrow> work_item \<Rightarrow> string \<Rightarrow> hub_store \<Rightarrow> wi_error + attestation_verification" where
  "verify_item sha p item requirementId s =
     (let req = List.find (\<lambda>r. er_id r = requirementId) (wi_evidenceRequirements item);
          active = active_attestation item requirementId;
          shape = (case req of
                     None \<Rightarrow> [NoSuchRequirement]
                   | Some r \<Rightarrow> if er_evidenceAuthority r \<noteq> Some VerifierAttestation then [NotVerifierAttestation] else [])
            @ (if active = None then [NoActiveAttestation] else []);
          verification = (\<lambda>reasons.
            \<lparr>av_invalidReasons = reasons, av_active = active,
             av_history = filter (\<lambda>a. at_requirementId a = requirementId) (wi_attestationHistory item),
             av_legacyReviewEvidencePresent =
               list_ex (\<lambda>e. ei_requirementId e = requirementId \<and> ei_kind e \<in> {EkReview, EkAudit}) (wi_evidence item)\<rparr>)
      in case (active, req) of
          (Some a, Some r) \<Rightarrow> res_bind (active_reasons sha p item r a s) (\<lambda>rs. Inr (verification (shape @ rs)))
        | _ \<Rightarrow> Inr (verification shape))"

text \<open>The attestation is valid when no reason is given.\<close>

definition verifyAttestation :: "sha256 \<Rightarrow> pin \<Rightarrow> string \<Rightarrow> string \<Rightarrow> hub_store \<Rightarrow> wi_error + attestation_verification" where
  "verifyAttestation sha p workId requirementId s =
     (case get_work workId s of
        None \<Rightarrow> Inr \<lparr>av_invalidReasons = [WorkItemNotFound], av_active = None, av_history = [],
                     av_legacyReviewEvidencePresent = False\<rparr>
      | Some item \<Rightarrow> verify_item sha p item requirementId s)"

definition av_valid :: "attestation_verification \<Rightarrow> bool" where
  "av_valid v \<longleftrightarrow> av_invalidReasons v = []"

section \<open>Seal notices and the migration of sealed rows\<close>

definition markFailedSealNotice_row :: "instant \<Rightarrow> string \<Rightarrow> string \<Rightarrow> row_transform" where
  "markFailedSealNotice_row now intentId messageId s w rv =
     (if \<not> isFailedGateSealed w then Inl (TransitionRejected NotSealed)
      else case find_index (\<lambda>n. sn_intentId n = intentId) (wi_pendingFailedSealNotices w) of
          None \<Rightarrow> Inl (TransitionRejected NoticeIntentMissing)
        | Some n \<Rightarrow>
            let current = wi_pendingFailedSealNotices w ! n in
            if sn_projectedMessageId current \<noteq> None then
              (if sn_projectedMessageId current \<noteq> Some messageId
               then Inl (TransitionRejected NoticeAlreadyProjected) else Inl (IdempotentFailedSeal w))
            else
              let notices = (wi_pendingFailedSealNotices w)
                    [n := current\<lparr>sn_projectedMessageId := Some messageId, sn_projectedAt := Some now\<rparr>]
              in Inr (touched now (w\<lparr>wi_pendingFailedSealNotices := notices,
                   wi_failedSealNoticePending := list_ex (\<lambda>n. sn_projectedMessageId n = None) notices\<rparr>)))"

definition markFailedSealNoticeProjected :: "sha256 \<Rightarrow> instant \<Rightarrow> string \<Rightarrow> string \<Rightarrow> string \<Rightarrow> hub_store
    \<Rightarrow> work_item option hub_result" where
  "markFailedSealNoticeProjected sha now workId intentId messageId =
     withWriterFence (\<lambda>p s. case tryCasUpdate sha LegacyPin workId (markFailedSealNotice_row now intentId messageId) s of
         (Inl (IdempotentFailedSeal w), s') \<Rightarrow> (Inr (Some w), s')
       | r \<Rightarrow> r)"

definition migrate_row :: row_transform where
  "migrate_row s w rv = Inr (w\<lparr>wi_status := FailedSealed\<rparr>)"

definition MIGRATION_MAX_SCAN :: nat where "MIGRATION_MAX_SCAN = 100000"

record migration_report =
  mr_scanned :: nat
  mr_migrated :: "string list"
  mr_skipped :: "string list"
  mr_truncated :: bool

text \<open>
  The migration reads pages of 500 rows until a short page or the scan limit, so it sees the first
  \<open>MIGRATION_MAX_SCAN\<close> rows; then it visits them one by one.  A row with an unrecognised shape stops it.
\<close>

fun migrate_items :: "sha256 \<Rightarrow> bool \<Rightarrow> work_item list \<Rightarrow> migration_report \<Rightarrow> hub_store \<Rightarrow> migration_report hub_result" where
  "migrate_items sha dryRun [] r s = (Inr r, s)"
| "migrate_items sha dryRun (w # ws) r s =
     (let migrated = r\<lparr>mr_migrated := mr_migrated r @ [wi_id w]\<rparr> in
      if \<not> misrepresentsAsClaimable w
      then migrate_items sha dryRun ws (r\<lparr>mr_skipped := mr_skipped r @ [wi_id w]\<rparr>) s
      else if wi_failedGateSeal w = None \<and> \<not> hasActiveVerifierFail w then (Inl IntegrityError, s)
      else if dryRun then migrate_items sha dryRun ws migrated s
      else case row_verb sha (wi_id w) migrate_row s of
          (Inl e, s') \<Rightarrow> (Inl e, s')
        | (Inr None, s') \<Rightarrow> migrate_items sha dryRun ws r s'
        | (Inr (Some _), s') \<Rightarrow> migrate_items sha dryRun ws migrated s')"

definition migrateSealedRowsToFailedPhase :: "sha256 \<Rightarrow> bool \<Rightarrow> hub_store \<Rightarrow> migration_report hub_result" where
  "migrateSealedRowsToFailedPhase sha dryRun s =
     (let items = take MIGRATION_MAX_SCAN (all_work s) in
      migrate_items sha dryRun items
        \<lparr>mr_scanned = length items, mr_migrated = [], mr_skipped = [],
         mr_truncated = (MIGRATION_MAX_SCAN \<le> length items)\<rparr> s)"

end
