(* ===== verification/Counter.thy ===== *)
theory Counter
  imports Hub_Store
begin

text \<open>
  The id counter (\<open>hub/src/entities/substrate-counter.ts\<close>): one row holds a value per domain, and \<open>next\<close>
  increments a domain in a read, compare-and-set loop that creates the row when it is not there.
  As in Substrate, the list of attempts says what other writers do in each round.
\<close>

definition COUNTER_KIND :: string where "COUNTER_KIND = ''Counter''"
definition COUNTER_ID :: string where "COUNTER_ID = ''counter''"

fun readDomainValue :: "hub_entity \<Rightarrow> string \<Rightarrow> int" where
  "readDomainValue (ECounter m) d = (case map_of m d of None \<Rightarrow> 0 | Some n \<Rightarrow> n)"
| "readDomainValue _ d = 0"

fun counters_of :: "hub_entity option \<Rightarrow> (string \<times> int) list" where
  "counters_of (Some (ECounter m)) = m"
| "counters_of _ = []"

definition buildEnvelopeWrite :: "hub_entity option \<Rightarrow> string \<Rightarrow> int \<Rightarrow> hub_entity" where
  "buildEnvelopeWrite existing d n = ECounter (AList.update d n (counters_of existing))"

fun next_loop :: "hub_store attempt list \<Rightarrow> string \<Rightarrow> hub_store \<Rightarrow> (wi_error + int) \<times> hub_store" where
  "next_loop [] d s = (Inl CasRetriesExhausted, s)"
| "next_loop ((before, between) # envs) d s =
     (let s = before s; t = between s in
      case getWithRevision COUNTER_KIND COUNTER_ID s of
        None \<Rightarrow>
          (case createOnly ident COUNTER_KIND (buildEnvelopeWrite None d 1) t of
             Inl z \<Rightarrow> (Inl (StoreThrew z), t)
           | Inr (Created i rv, s') \<Rightarrow> (Inr 1, s')
           | Inr (ExistingConflict, s') \<Rightarrow> next_loop envs d s')
      | Some (e, rv) \<Rightarrow>
          (let n = readDomainValue e d + 1 in
           case putIfMatch ident COUNTER_KIND (buildEnvelopeWrite (Some e) d n) rv t of
             Inl z \<Rightarrow> (Inl (StoreThrew z), t)
           | Inr (Written rv', s') \<Rightarrow> (Inr n, s')
           | Inr (RevisionMismatch rv', s') \<Rightarrow> next_loop envs d s'))"

definition next_id :: "string \<Rightarrow> hub_store \<Rightarrow> (wi_error + int) \<times> hub_store" where
  "next_id = next_loop quiet"

definition counter_value :: "string \<Rightarrow> hub_store \<Rightarrow> int" where
  "counter_value d s = (case get_op COUNTER_KIND COUNTER_ID s of None \<Rightarrow> 0 | Some e \<Rightarrow> readDomainValue e d)"

lemma readDomainValue_build:
  "readDomainValue (buildEnvelopeWrite e d n) d' =
    (if d' = d then n else case e of None \<Rightarrow> 0 | Some x \<Rightarrow> readDomainValue x d')"
  by (cases e; cases "the e") (auto simp: buildEnvelopeWrite_def)

lemma counter_key [simp]: "extractId ident e COUNTER_KIND = Inr COUNTER_ID"
  by (simp add: extractId_def COUNTER_KIND_def COUNTER_ID_def)

text \<open>What one committed write of the counter row is.\<close>

definition counted :: "string \<Rightarrow> int \<Rightarrow> hub_store \<Rightarrow> hub_store \<Rightarrow> bool" where
  "counted d n t s' \<longleftrightarrow> n = counter_value d t + 1 \<and> counter_value d s' = n \<and>
     (\<forall>d'. d' \<noteq> d \<longrightarrow> counter_value d' s' = counter_value d' t) \<and>
     (\<forall>k i. (k, i) \<noteq> (COUNTER_KIND, COUNTER_ID) \<longrightarrow> find_row s' k i = find_row t k i)"

lemma counted_write:
  assumes "e = get_op COUNTER_KIND COUNTER_ID t" "n = counter_value d t + 1"
  shows "counted d n t (write_row COUNTER_KIND COUNTER_ID (buildEnvelopeWrite e d n) t)"
  using assms
  by (auto simp: counted_def counter_value_def get_op_def store_simps readDomainValue_build split: option.splits)

lemma create_counter:
  "plain_store t \<Longrightarrow> createOnly ident COUNTER_KIND e t =
    Inr (if find_row t COUNTER_KIND COUNTER_ID \<noteq> None then (ExistingConflict, t)
         else (Created COUNTER_ID (Suc (revisionCounter t)), write_row COUNTER_KIND COUNTER_ID e t))"
  by (simp add: createOnly_def plain_store_def encodeForWrite_def Let_def store_simps)

lemma put_counter:
  "plain_store t \<Longrightarrow> putIfMatch ident COUNTER_KIND e rv t =
    (case find_row t COUNTER_KIND COUNTER_ID of
       None \<Rightarrow> Inl (PutOnAbsent COUNTER_KIND COUNTER_ID)
     | Some r \<Rightarrow> if row_rv r \<noteq> rv then Inr (RevisionMismatch (row_rv r), t)
                 else Inr (Written (Suc (revisionCounter t)), write_row COUNTER_KIND COUNTER_ID e t))"
  by (simp add: putIfMatch_def plain_store_def encodeForWrite_def Let_def store_simps split: option.split)

lemma fair_env:
  assumes "other_clients ((b, w) # envs)" "plain_store s"
  shows "plain_store (b s) \<and> evolves s (b s) \<and> plain_store (w (b s)) \<and> evolves (b s) (w (b s)) \<and> other_clients envs"
proof -
  have "store_step\<^sup>*\<^sup>* s (b s)" "store_step\<^sup>*\<^sup>* (b s) (w (b s))" "other_clients envs"
    using assms(1) unfolding other_clients_def by (auto split: prod.splits)
  then show ?thesis
    using assms(2) steps_plain steps_evolve by blast
qed

lemma same_revision_same_op:
  assumes "plain_store s" "evolves s t" "find_row s k i = Some r" "find_row t k i = Some r'" "row_rv r = row_rv r'"
  shows "get_op k i t = Some (row_data r)"
  using same_revision_same_row [OF _ assms(2-5)] assms(1,4) by (simp add: plain_store_def get_op_def)

text \<open>One round of the loop that ends with a number either retried or wrote the counter row it read.\<close>

lemma next_loop_round:
  assumes "next_loop ((b, w) # envs) d s = (Inr n, s')" "plain_store (b s)" "plain_store (w (b s))" "evolves (b s) (w (b s))"
  obtains (retry) "next_loop envs d (w (b s)) = (Inr n, s')"
  | (commit) "n = counter_value d (w (b s)) + 1"
      "s' = write_row COUNTER_KIND COUNTER_ID (buildEnvelopeWrite (get_op COUNTER_KIND COUNTER_ID (w (b s))) d n) (w (b s))"
proof (cases "find_row (b s) COUNTER_KIND COUNTER_ID")
  case None
  with assms(1) that show ?thesis
    by (cases "find_row (w (b s)) COUNTER_KIND COUNTER_ID")
      (auto simp: Let_def getWithRevision_def create_counter [OF assms(3)] get_op_def counter_value_def)
next
  case read: (Some r)
  show ?thesis
  proof (cases "find_row (w (b s)) COUNTER_KIND COUNTER_ID")
    case None
    with assms(1) read show ?thesis by (simp add: Let_def getWithRevision_def put_counter [OF assms(3)])
  next
    case (Some r')
    show ?thesis
    proof (cases "row_rv r = row_rv r'")
      case True
      then have "get_op COUNTER_KIND COUNTER_ID (w (b s)) = Some (row_data r)"
        using same_revision_same_op [OF assms(2,4) read Some] by simp
      with assms(1) read Some True show ?thesis
        by (intro commit) (auto simp: Let_def getWithRevision_def put_counter [OF assms(3)] counter_value_def)
    next
      case False
      with assms(1) read Some retry show ?thesis by (simp add: Let_def getWithRevision_def put_counter [OF assms(3)])
    qed
  qed
qed

text \<open>
  Ids are handed out in order and never twice.  Whatever other clients of the store do while \<open>next\<close> runs
  (they write and delete rows, the counter row included), a call that returns n committed at a moment when
  the counter of its domain stood at n - 1, left it at n, and left every other domain and every other
  row as they were at that moment.
\<close>

theorem counter_next_linearizable:
  assumes "next_loop envs d s = (Inr n, s')" "plain_store s" "other_clients envs"
  shows "\<exists>t. plain_store t \<and> evolves s t \<and> counted d n t s' \<and> plain_store s' \<and> evolves t s'"
  using assms
proof (induction envs arbitrary: s)
  case Nil
  then show ?case by simp
next
  case (Cons e envs)
  obtain b w where e: "e = (b, w)" by (cases e)
  have b: "plain_store (b s)" "evolves s (b s)" and t: "plain_store (w (b s))" "evolves (b s) (w (b s))" and envs: "other_clients envs"
    using fair_env [of b w envs s] Cons.prems(2,3) by (simp_all add: e)
  have st: "evolves s (w (b s))" using b(2) t(2) by (rule evolves_trans)
  from Cons.prems(1) [unfolded e] b(1) t show ?case
  proof (cases rule: next_loop_round)
    case retry
    with Cons.IH [OF retry t(1) envs] st show ?thesis by (blast intro: evolves_trans)
  next
    case commit
    then show ?thesis
      using counted_write [OF refl commit(1)] t(1) st evolves_write_row by (metis plain_store_write_row)
  qed
qed

text \<open>Another writer bumps a second domain between the read and the write of the first round.\<close>

definition demo_counter :: hub_store where
  "demo_counter = write_row COUNTER_KIND COUNTER_ID (ECounter [(''workItemCounter'', 41)]) empty_substrate"

definition demo_rival :: "hub_store attempt list" where
  "demo_rival =
     [(\<lambda>s. s, \<lambda>s. write_row COUNTER_KIND COUNTER_ID (ECounter [(''workItemCounter'', 41), (''bugCounter'', 1)]) s),
      (\<lambda>s. s, \<lambda>s. s)]"

lemma demo_counter_plain: "plain_store demo_counter"
proof -
  have "plain_store (empty_substrate :: hub_store)"
    by (simp add: plain_store_def store_ok_empty, simp add: empty_substrate_def)
  then show ?thesis unfolding demo_counter_def by (rule plain_store_write_row)
qed

theorem counter_next_linearizable_witness:
  "\<exists>t. plain_store t \<and> evolves demo_counter t \<and>
    counted ''workItemCounter'' 42 t (snd (next_loop demo_rival ''workItemCounter'' demo_counter)) \<and>
    plain_store (snd (next_loop demo_rival ''workItemCounter'' demo_counter)) \<and>
    evolves t (snd (next_loop demo_rival ''workItemCounter'' demo_counter))"
proof (rule counter_next_linearizable)
  have "fst (next_loop demo_rival ''workItemCounter'' demo_counter) = Inr 42" by code_simp
  then show "next_loop demo_rival ''workItemCounter'' demo_counter =
      (Inr 42, snd (next_loop demo_rival ''workItemCounter'' demo_counter))"
    by (metis prod.collapse)
  show "plain_store demo_counter" by (rule demo_counter_plain)
  show "other_clients demo_rival"
    by (auto simp: other_clients_def demo_rival_def intro: st_write)
qed

section \<open>The counter with nobody else writing\<close>

lemma next_id_quiet:
  assumes "plain_store s"
  shows "next_id d s = (Inr (counter_value d s + 1),
    write_row COUNTER_KIND COUNTER_ID
      (buildEnvelopeWrite (get_op COUNTER_KIND COUNTER_ID s) d (counter_value d s + 1)) s)"
  by (cases "find_row s COUNTER_KIND COUNTER_ID")
    (simp_all add: next_id_def quiet_def Let_def getWithRevision_def create_counter [OF assms] put_counter [OF assms]
      get_op_def counter_value_def)

end
