(* ===== verification/Work_Edit.thy ===== *)
theory Work_Edit
  imports Work_Attest Counter
begin

text \<open>
  Creation, deletion and editing of work items: \<open>createWorkItem\<close>, \<open>createBlueprintNode\<close>,
  \<open>deleteWorkItem\<close>, and \<open>applyWorkItemMutation\<close> behind \<open>updateWorkItem\<close> and
  \<open>appendSystemProjectionEdge\<close>.
\<close>

section \<open>Creation\<close>

record create_input =
  ci_type :: work_item_type
  ci_priority :: "priority option"
  ci_roleEligibility :: "string list"
  ci_dependsOn :: "string list option"
  ci_completionDependsOn :: "string list option"
  ci_evidenceRequirements :: "evidence_requirement list option"
  ci_runbook :: "string option"
  ci_references :: "reference list option"
  ci_leaseWindowMs :: "int option"
  ci_targetRef :: "target_ref option"
  ci_payload :: "json option"
  ci_nodeConfig :: "node_config option"
  ci_createdBy :: "actor option"

definition or_empty :: "'a list option \<Rightarrow> 'a list" where
  "or_empty xs = (case xs of None \<Rightarrow> [] | Some ys \<Rightarrow> ys)"

text \<open>The row both creation operations store, but for the fields of a blueprint node.\<close>

definition born :: "string \<Rightarrow> instant \<Rightarrow> create_input \<Rightarrow> work_item" where
  "born i now input =
     \<lparr>wi_id = i, wi_type = ci_type input,
      wi_priority = (case ci_priority input of None \<Rightarrow> Normal | Some p \<Rightarrow> p),
      wi_roleEligibility = ci_roleEligibility input,
      wi_dependsOn = or_empty (ci_dependsOn input),
      wi_completionDependsOn = or_empty (ci_completionDependsOn input),
      wi_evidenceRequirements = or_empty (ci_evidenceRequirements input),
      wi_runbook = ci_runbook input, wi_references = or_empty (ci_references input),
      wi_leaseWindowMs = ci_leaseWindowMs input, wi_targetRef = ci_targetRef input,
      wi_payload = ci_payload input, wi_blueprintRunId = None, wi_suspended = None,
      wi_systemProjection = None, wi_revisionIdentity = no_revision,
      wi_status = Ready, wi_lease = None, wi_evidence = [], wi_frictionReflections = [],
      wi_blockedOn = None, wi_leaseExpiryCount = 0,
      wi_enteredCurrentStateAt = now, wi_stateDurations = DEFAULT_STATE_DURATIONS,
      wi_attestationHistory = [], wi_attestations = [], wi_executorHistory = [],
      wi_recallHistory = [], wi_pendingRecallIntents = [], wi_recallNoticePending = None,
      wi_failedGateSeal = None, wi_pendingFailedSealNotices = [], wi_failedSealNoticePending = False,
      wi_effectiveDisposition = False, wi_nodeConfig = ci_nodeConfig input,
      wi_createdBy = ci_createdBy input, wi_createdAt = now, wi_updatedAt = now\<rparr>"

definition WORK_ITEM_COUNTER :: string where "WORK_ITEM_COUNTER = ''workItemCounter''"

definition work_id :: "int \<Rightarrow> string" where
  "work_id n = ''work-'' @ show_int n"

definition create_under :: "instant \<Rightarrow> create_input \<Rightarrow> pin \<Rightarrow> hub_store \<Rightarrow> work_item hub_result" where
  "create_under now input p s =
     (case assertCreateAllowed p of
        Inl e \<Rightarrow> (Inl e, s)
      | Inr _ \<Rightarrow>
          (case next_id WORK_ITEM_COUNTER s of
             (Inl e, s') \<Rightarrow> (Inl e, s')
           | (Inr n, s') \<Rightarrow>
               let w = born (work_id n) now input in
               (case createOnly ident WORK_KIND (EWork w) s' of
                  Inl z \<Rightarrow> (Inl (StoreThrew z), s')
                | Inr (ExistingConflict, s'') \<Rightarrow> (Inl (TransitionRejected CreateConflict), s'')
                | Inr (Created i rv, s'') \<Rightarrow> (Inr (cloneWorkItem w), s''))))"

definition createWorkItem :: "instant \<Rightarrow> create_input \<Rightarrow> hub_store \<Rightarrow> work_item hub_result" where
  "createWorkItem now input = withWriterFence (create_under now input)"

text \<open>A blueprint node has its caller's id; a second creation under the same id returns the stored row.\<close>

definition blueprint_row :: "string \<Rightarrow> string \<Rightarrow> string option \<Rightarrow> instant \<Rightarrow> create_input \<Rightarrow> work_item" where
  "blueprint_row i runId projection now input =
     (born i now input)\<lparr>wi_leaseWindowMs := None, wi_blueprintRunId := Some runId, wi_systemProjection := projection\<rparr>"

definition blueprint_under :: "string \<Rightarrow> string \<Rightarrow> string option \<Rightarrow> instant \<Rightarrow> create_input \<Rightarrow> pin \<Rightarrow> hub_store
    \<Rightarrow> (work_item \<times> bool) hub_result" where
  "blueprint_under i runId projection now input p s =
     (case assertCreateAllowed p of
        Inl e \<Rightarrow> (Inl e, s)
      | Inr _ \<Rightarrow>
          let w = blueprint_row i runId projection now input in
          (case createOnly ident WORK_KIND (EWork w) s of
             Inl z \<Rightarrow> (Inl (StoreThrew z), s)
           | Inr (Created j rv, s') \<Rightarrow> (Inr (cloneWorkItem w, True), s')
           | Inr (ExistingConflict, s') \<Rightarrow>
               (case get_work i s' of None \<Rightarrow> (Inl IntegrityError, s') | Some w' \<Rightarrow> (Inr (w', False), s'))))"

definition createBlueprintNode :: "string \<Rightarrow> string \<Rightarrow> string option \<Rightarrow> instant \<Rightarrow> create_input \<Rightarrow> hub_store
    \<Rightarrow> (work_item \<times> bool) hub_result" where
  "createBlueprintNode i runId projection now input = withWriterFence (blueprint_under i runId projection now input)"

definition deleteWorkItem :: "string \<Rightarrow> hub_store \<Rightarrow> unit hub_result" where
  "deleteWorkItem workId =
     withWriterFence (\<lambda>p s. case p of
         GenerationPin g h rv \<Rightarrow> (Inl (CurrentnessRejected RevisionRequired), s)
       | LegacyPin \<Rightarrow> (Inr (), delete_op WORK_KIND workId s))"

section \<open>Edits\<close>

datatype edit_tier = ScalarTier | ClaimantTier | FullTier

datatype edit_field =
    FPriority | FLeaseWindowMs | FTargetRef | FRunbook | FPayload | FRoleEligibility | FEvidenceRequirements

fun FIELD_TIER :: "edit_field \<Rightarrow> edit_tier" where
  "FIELD_TIER FPriority = ScalarTier"
| "FIELD_TIER FLeaseWindowMs = ScalarTier"
| "FIELD_TIER FTargetRef = ClaimantTier"
| "FIELD_TIER FRunbook = ClaimantTier"
| "FIELD_TIER FPayload = ClaimantTier"
| "FIELD_TIER FRoleEligibility = ClaimantTier"
| "FIELD_TIER FEvidenceRequirements = FullTier"

text \<open>A member of the set that is present; \<open>targetRef\<close> may be present and null.\<close>

record work_update =
  us_priority :: "priority option"
  us_leaseWindowMs :: "int option"
  us_targetRef :: "target_ref option option"
  us_runbook :: "string option"
  us_payload :: "json option"
  us_roleEligibility :: "string list option"
  us_evidenceRequirements :: "evidence_requirement list option"
  us_appendDependsOn :: "string list"
  us_appendCompletionDependsOn :: "string list"
  us_appendReferences :: "reference list"

definition no_update :: work_update where
  "no_update =
     \<lparr>us_priority = None, us_leaseWindowMs = None, us_targetRef = None, us_runbook = None, us_payload = None,
      us_roleEligibility = None, us_evidenceRequirements = None, us_appendDependsOn = [],
      us_appendCompletionDependsOn = [], us_appendReferences = []\<rparr>"

definition set_keys :: "work_update \<Rightarrow> edit_field list" where
  "set_keys m =
     (if us_priority m = None then [] else [FPriority]) @
     (if us_leaseWindowMs m = None then [] else [FLeaseWindowMs]) @
     (if us_targetRef m = None then [] else [FTargetRef]) @
     (if us_runbook m = None then [] else [FRunbook]) @
     (if us_payload m = None then [] else [FPayload]) @
     (if us_roleEligibility m = None then [] else [FRoleEligibility]) @
     (if us_evidenceRequirements m = None then [] else [FEvidenceRequirements])"

definition has_appends :: "work_update \<Rightarrow> bool" where
  "has_appends m \<longleftrightarrow> us_appendDependsOn m \<noteq> [] \<or> us_appendCompletionDependsOn m \<noteq> [] \<or> us_appendReferences m \<noteq> []"

definition touches_tier :: "edit_tier \<Rightarrow> work_update \<Rightarrow> bool" where
  "touches_tier t m \<longleftrightarrow> list_ex (\<lambda>k. FIELD_TIER k = t) (set_keys m)"

abbreviation update_rejected :: "update_reason \<Rightarrow> wi_error" where
  "update_rejected r \<equiv> TransitionRejected (UpdateRejected r)"

definition terminal_for_update :: "phase \<Rightarrow> bool" where
  "terminal_for_update ph \<longleftrightarrow> ph = Done \<or> ph = Abandoned"

text \<open>Who may edit, and whether the row is in a state the edit's tier allows.\<close>

definition update_authority :: "sha256 \<Rightarrow> pin \<Rightarrow> actor \<Rightarrow> work_item \<Rightarrow> wi_error + unit" where
  "update_authority sha p a w =
     res_bind (assertNotFailedSealed w) (\<lambda>_.
     res_bind (assertCurrent sha w p) (\<lambda>_.
     if map_option ac_agentId (wi_createdBy w) \<noteq> Some (ac_agentId a) \<and> ac_role a \<noteq> ''architect''
     then Inl (update_rejected NeitherAuthorNorArchitect)
     else if terminal_for_update (wi_status w) then Inl (update_rejected (TerminalItem (wi_status w)))
     else Inr ()))"

definition update_tier :: "pin \<Rightarrow> work_update \<Rightarrow> bool \<Rightarrow> work_item \<Rightarrow> wi_error + unit" where
  "update_tier p m seam w =
     (let suspended = isParkedFromExecution w;
          claimant = touches_tier ClaimantTier m \<or> has_appends m;
          quiescent = suspended \<and> wi_lease w = None;
          evidenceFree = wi_evidence w = [] \<and> wi_attestationHistory w = []
      in if \<not> seam \<and> claimant \<and> (p \<noteq> LegacyPin \<or> (wi_lease w \<noteq> None \<and> \<not> suspended))
         then Inl (CurrentnessRejected RevisionRequired)
         else check (\<not> touches_tier FullTier m \<or> (quiescent \<and> evidenceFree)) (update_rejected EvidenceContractFrozen))"

definition can_orphan :: "string list \<Rightarrow> string list \<Rightarrow> bool" where
  "can_orphan current proposed \<longleftrightarrow> proposed \<noteq> [] \<and> \<not> (current \<noteq> [] \<and> set current \<subseteq> set proposed)"

definition check_roles :: "actor option \<Rightarrow> work_item \<Rightarrow> string list \<Rightarrow> wi_error + unit" where
  "check_roles resolvedHolder w proposed =
     (case map_option le_holder (wi_lease w) of
        None \<Rightarrow> Inr ()
      | Some holder \<Rightarrow>
          if holder = [] \<or> \<not> can_orphan (wi_roleEligibility w) proposed then Inr ()
          else case resolvedHolder of
              None \<Rightarrow> Inl (update_rejected HolderRoleUnresolved)
            | Some r \<Rightarrow>
                if ac_agentId r \<noteq> holder then Inl (update_rejected HolderChanged)
                else check (ac_role r \<in> set proposed) (update_rejected HolderWouldBeOrphaned))"

text \<open>The guards of the single fields, in the order of the source.\<close>

definition update_fields_ok :: "sha256 \<Rightarrow> work_update \<Rightarrow> actor option \<Rightarrow> work_item \<Rightarrow> wi_error + unit" where
  "update_fields_ok sha m resolvedHolder w =
     (let preClaim = (wi_status w = Ready); editable = preClaim \<or> isParkedFromExecution w in
      res_bind (case us_targetRef m of
          None \<Rightarrow> Inr ()
        | Some t \<Rightarrow> check (wi_attestationHistory w = [] \<or> hashTargetRef sha t = hashTargetRef sha (wi_targetRef w))
            (update_rejected TargetRefFrozen)) (\<lambda>_.
      res_bind (check (us_runbook m = None \<or> editable) (update_rejected NotEditableLive)) (\<lambda>_.
      res_bind (check (us_payload m = None \<or> editable) (update_rejected NotEditableLive)) (\<lambda>_.
      res_bind (case us_roleEligibility m of
          None \<Rightarrow> Inr ()
        | Some proposed \<Rightarrow> res_bind (check editable (update_rejected NotEditableLive)) (\<lambda>_.
            check_roles resolvedHolder w proposed)) (\<lambda>_.
      res_bind (check (us_appendDependsOn m = [] \<or> preClaim) (update_rejected DependsOnOnlyWhileReady)) (\<lambda>_.
      check (us_appendReferences m = [] \<or> preClaim) (update_rejected ReferencesOnlyPreClaim)))))))"

definition set_some :: "'a option \<Rightarrow> ('a \<Rightarrow> 'b \<Rightarrow> 'b) \<Rightarrow> 'b \<Rightarrow> 'b" where
  "set_some x f w = (case x of None \<Rightarrow> w | Some a \<Rightarrow> f a w)"

definition apply_update :: "instant \<Rightarrow> work_update \<Rightarrow> work_item \<Rightarrow> work_item" where
  "apply_update now m w =
     w\<lparr>wi_priority := (case us_priority m of None \<Rightarrow> wi_priority w | Some p \<Rightarrow> p),
       wi_evidenceRequirements := (case us_evidenceRequirements m of None \<Rightarrow> wi_evidenceRequirements w | Some rs \<Rightarrow> rs),
       wi_leaseWindowMs := or_else (us_leaseWindowMs m) (wi_leaseWindowMs w),
       wi_targetRef := (case us_targetRef m of None \<Rightarrow> wi_targetRef w | Some t \<Rightarrow> t),
       wi_runbook := or_else (us_runbook m) (wi_runbook w),
       wi_payload := or_else (us_payload m) (wi_payload w),
       wi_roleEligibility := (case us_roleEligibility m of None \<Rightarrow> wi_roleEligibility w | Some rs \<Rightarrow> rs),
       wi_dependsOn := (if us_appendDependsOn m = [] then wi_dependsOn w
                        else js_unique (wi_dependsOn w @ us_appendDependsOn m)),
       wi_completionDependsOn := (if us_appendCompletionDependsOn m = [] then wi_completionDependsOn w
                        else js_unique (wi_completionDependsOn w @ us_appendCompletionDependsOn m)),
       wi_references := wi_references w @ us_appendReferences m,
       wi_updatedAt := now\<rparr>"

text \<open>On a suspended row the edit records the authority it leaves behind on the latest recall entry.\<close>

definition sanction :: "sha256 \<Rightarrow> pin \<Rightarrow> work_item \<Rightarrow> wi_error + work_item" where
  "sanction sha p w =
     (if isParkedFromExecution w \<and> wi_recallHistory w \<noteq> [] then
        res_bind (deriveFrozenRecallAuthority sha p w) (\<lambda>current.
          Inr (w\<lparr>wi_recallHistory := map_last (rebaseline current) (wi_recallHistory w)\<rparr>))
      else Inr w)"

definition update_row :: "sha256 \<Rightarrow> instant \<Rightarrow> pin \<Rightarrow> actor \<Rightarrow> work_update \<Rightarrow> bool \<Rightarrow> actor option
    \<Rightarrow> work_item \<Rightarrow> wi_error + work_item" where
  "update_row sha now p a m seam resolvedHolder w =
     res_bind (update_authority sha p a w) (\<lambda>_.
     res_bind (update_tier p m seam w) (\<lambda>_.
     res_bind (update_fields_ok sha m resolvedHolder w) (\<lambda>_.
     sanction sha p (apply_update now m w))))"

definition applyWorkItemMutation :: "sha256 \<Rightarrow> instant \<Rightarrow> string \<Rightarrow> actor \<Rightarrow> work_update \<Rightarrow> bool \<Rightarrow> actor option
    \<Rightarrow> pin \<Rightarrow> hub_store \<Rightarrow> (work_item \<times> work_item) hub_result" where
  "applyWorkItemMutation sha now workId a m seam resolvedHolder p s =
     (if set_keys m = [] \<and> \<not> has_appends m then (Inl (update_rejected EmptyMutation), s)
      else case getWithRevision WORK_KIND workId s of
          None \<Rightarrow> (Inl (update_rejected UpdateTargetMissing), s)
        | Some (e, rv) \<Rightarrow>
            (case as_work e of
               None \<Rightarrow> (Inl IntegrityError, s)
             | Some row \<Rightarrow>
                 let before = cloneWorkItem row in
                 (case update_row sha now p a m seam resolvedHolder before of
                    Inl err \<Rightarrow> (Inl err, s)
                  | Inr next \<Rightarrow>
                      (case putIfMatch ident WORK_KIND (EWork next) rv s of
                         Inl z \<Rightarrow> (Inl (StoreThrew z), s)
                       | Inr (RevisionMismatch rv', s') \<Rightarrow> (Inl (update_rejected StaleWrite), s')
                       | Inr (Written rv', s') \<Rightarrow> (Inr (before, cloneWorkItem next), s')))))"

definition updateWorkItem :: "sha256 \<Rightarrow> instant \<Rightarrow> string \<Rightarrow> actor \<Rightarrow> work_update \<Rightarrow> actor option
    \<Rightarrow> hub_store \<Rightarrow> (work_item \<times> work_item) hub_result" where
  "updateWorkItem sha now workId a m resolvedHolder =
     withWriterFence (applyWorkItemMutation sha now workId a m False resolvedHolder)"

definition appendSystemProjectionEdge :: "sha256 \<Rightarrow> instant \<Rightarrow> string \<Rightarrow> edge_class \<Rightarrow> string
    \<Rightarrow> hub_store \<Rightarrow> (work_item \<times> work_item) hub_result" where
  "appendSystemProjectionEdge sha now workId relation edgeWorkId =
     withWriterFence (applyWorkItemMutation sha now workId
       \<lparr>ac_role = ''architect'', ac_agentId = PR_REVIEW_PROJECTION_AUTHOR_AGENT_ID\<rparr>
       (case relation of
          CompletionDependsOn \<Rightarrow> no_update\<lparr>us_appendCompletionDependsOn := [edgeWorkId]\<rparr>
        | DependsOn \<Rightarrow> no_update\<lparr>us_appendDependsOn := [edgeWorkId]\<rparr>)
       True None)"

end
