(* ===== verification/Row_Facts.thy ===== *)
theory Row_Facts
  imports Work_Edit
begin

text \<open>
  What each row transform does when it succeeds: the guards it has passed and the row it returns.  These
  equations are the collection \<open>row_iff\<close>; the proofs about the verbs rest on them and never unfold a
  transform again.
\<close>

named_theorems row_iff "success of a row transform, characterised"

lemma require_Inr [simp]: "require b c = Inr u \<longleftrightarrow> b"
  by (simp add: require_def)

lemma if_Inl_Inr: "(if b then Inl e else r) = Inr x \<longleftrightarrow> \<not> b \<and> r = Inr x"
  by simp

section \<open>Claim and holder verbs\<close>

lemma claim_row_Inr [row_iff]:
  "claim_row now uuid a role deps s w rv = Inr w' \<longleftrightarrow>
     \<not> isFailedGateSealed w \<and> wi_status w = Ready \<and> \<not> isParkedFromExecution w \<and> role_eligible w role \<and> deps = [] \<and>
     w' = touched now (accrued w now
       (w\<lparr>wi_status := Claimed, wi_lease := Some (claim_lease now uuid a w),
          wi_executorHistory := (if a \<in> set (wi_executorHistory w) then wi_executorHistory w
                                 else wi_executorHistory w @ [a])\<rparr>))"
  by (auto simp: claim_row_def Let_def res_bind_Inr_iff guard_simps)

lemma start_row_Inr [row_iff]:
  "start_row now a t s w rv = Inr w' \<longleftrightarrow>
     assertLease w a t VStart = Inr () \<and> wi_status w = Claimed \<and>
     w' = touched now (accrued w now (w\<lparr>wi_status := InProgress\<rparr>))"
  by (auto simp: start_row_def res_bind_Inr_iff)

lemma block_row_Inr [row_iff]:
  "block_row now a t b s w rv = Inr w' \<longleftrightarrow>
     assertLease w a t VBlock = Inr () \<and> wi_status w = InProgress \<and>
     w' = touched now (accrued w now (w\<lparr>wi_status := Blocked, wi_blockedOn := Some b\<rparr>))"
  by (auto simp: block_row_def res_bind_Inr_iff)

lemma resume_row_Inr [row_iff]:
  "resume_row now a t s w rv = Inr w' \<longleftrightarrow>
     assertLease w a t VResume = Inr () \<and> wi_status w = Blocked \<and>
     w' = touched now (accrued w now (w\<lparr>wi_status := InProgress, wi_blockedOn := None\<rparr>))"
  by (auto simp: resume_row_def res_bind_Inr_iff)

lemma renew_row_Inr [row_iff]:
  "renew_row now a t s w rv = Inr w' \<longleftrightarrow>
     assertLease w a t VRenew = Inr () \<and> wi_status w \<in> set LEASE_HELD_PHASES \<and>
     (\<exists>l. wi_lease w = Some l \<and> now \<le> le_expiresAt l \<and>
        w' = touched now (w\<lparr>wi_lease := Some (extended_lease now w l)\<rparr>))"
  by (auto simp: renew_row_def res_bind_Inr_iff split: option.splits if_splits)

lemma release_row_Inr [row_iff]:
  "release_row now a t s w rv = Inr w' \<longleftrightarrow>
     assertLease w a t VRelease = Inr () \<and> wi_status w \<in> set RELEASABLE_PHASES \<and>
     w' = touched now ((releaseHold w now Ready w)\<lparr>wi_blockedOn := None\<rparr>)"
  by (auto simp: release_row_def res_bind_Inr_iff)

lemma systemUnblock_row_Inr [row_iff]:
  "systemUnblock_row now d s w rv = Inr w' \<longleftrightarrow>
     \<not> isFailedGateSealed w \<and> wi_status w = Blocked \<and>
     (\<exists>b ids. wi_blockedOn w = Some b \<and> bo_blockerIds b = Some ids \<and> d \<in> set ids) \<and>
     w' = touched now (accrued w now (w\<lparr>wi_status := InProgress, wi_blockedOn := None\<rparr>))"
  by (auto simp: systemUnblock_row_def res_bind_Inr_iff guard_simps split: option.splits if_splits)

definition abandon_allowed :: "work_item \<Rightarrow> agent_id \<Rightarrow> string option \<Rightarrow> string option \<Rightarrow> bool" where
  "abandon_allowed w a token role \<longleftrightarrow>
     (isActivelyWithdrawn w \<longrightarrow>
        fst (evaluateSuspendedDisposalAuthority w
          \<lparr>ac_role = (case role of None \<Rightarrow> ''unknown'' | Some r \<Rightarrow> r), ac_agentId = a\<rparr> token)) \<and>
     (holds_with_token w a token \<and> wi_status w \<in> set RELEASABLE_PHASES \<or>
      is_creator w a \<and> (wi_status w \<in> set RELEASABLE_PHASES \<or> wi_status w = Ready) \<or>
      (\<exists>r. role = Some r \<and> is_steward r) \<and> isActivelyWithdrawn w)"

lemma abandon_row_Inr [row_iff]:
  "abandon_row now a token role s w rv = Inr w' \<longleftrightarrow>
     \<not> isFailedGateSealed w \<and> abandon_allowed w a token role \<and>
     w' = touched now (accrued w now
       (w\<lparr>wi_status := Abandoned, wi_suspended := Some False, wi_lease := None, wi_blockedOn := None\<rparr>))"
  unfolding abandon_row_def abandon_allowed_def
  by (cases role) (auto simp: Let_def res_bind_Inr_iff guard_simps split: if_splits)

lemma bump_row_Inr [row_iff]:
  "bump_row now s w rv = Inr w' \<longleftrightarrow>
     w' = w \<and> (\<forall>l. wi_lease w = Some l \<longrightarrow> le_expiresAt l < now) \<or>
     (\<exists>l. wi_lease w = Some l \<and> now \<le> le_expiresAt l \<and>
        w' = touched now (w\<lparr>wi_lease := Some (extended_lease now w l)\<rparr>))"
  by (auto simp: bump_row_def split: option.splits if_splits)

lemma pulse_row_Inr: "pulse_row d s w rv = Inr w' \<Longrightarrow> \<exists>c. w' = w\<lparr>wi_nodeConfig := c\<rparr>"
  by (cases w) (fastforce simp: pulse_row_def split: option.splits)

section \<open>Completion and attestation\<close>

lemma complete_row_Inr [row_iff]:
  "complete_row now a t evidence friction s w rv = Inr w' \<longleftrightarrow>
     assertLease w a t VComplete = Inr () \<and> wi_status w \<in> set COMPLETABLE_PHASES \<and>
     (\<exists>plan. row_evidence_plan w (mergeEvidence (wi_evidence w) evidence) = Inr plan \<and>
       (friction = None \<and> w' = touched now (w\<lparr>wi_evidence := mergeEvidence (wi_evidence w) evidence\<rparr>) \<or>
        (\<exists>input record. friction = Some input \<and> normalizeFrictionReflection input a now = Inr record \<and>
          w' = touched now (accrued w now
            (w\<lparr>wi_status := (if ep_nextPhase plan = Done \<and> fst (evaluateCompletionGate w) then Done else Review),
               wi_evidence := mergeEvidence (wi_evidence w) evidence,
               wi_frictionReflections := wi_frictionReflections w @ [record]\<rparr>)))))"
  by (cases friction) (auto simp: complete_row_def Let_def res_bind_Inr_iff)

lemma attest_row_Inr [row_iff]:
  "attest_row sha now p i r v verdict refs s w rv = Inr w' \<longleftrightarrow>
     wi_failedGateSeal w = None \<and> \<not> hasActiveVerifierFail w \<and>
     (\<exists>req. attest_checks sha p w r v verdict refs s = Inr req \<and>
       w' = (if verdict = Fail
             then failed_row sha now w rv (new_attestation sha now w req v verdict refs)
               (failedGateOperationId sha i r v verdict refs)
             else passed_row now w (new_attestation sha now w req v verdict refs)))"
  by (auto simp: attest_row_def Let_def res_bind_Inr_iff split: option.splits if_splits)

lemma attest_checks_Inr:
  "attest_checks sha p w r v verdict refs s = Inr req \<longleftrightarrow>
     List.find (\<lambda>x. er_id x = r) (wi_evidenceRequirements w) = Some req \<and>
     er_evidenceAuthority req = Some VerifierAttestation \<and> (verdict = Fail \<longrightarrow> wi_status w = Review) \<and>
     (\<exists>excluded. selfAttestationExclusionFor sha p w s = Inr excluded \<and> v \<notin> set excluded) \<and>
     classifyEvidenceRefs w s refs \<and>
     (\<forall>anchor rest. wi_attestationHistory w = anchor # rest \<longrightarrow>
        at_targetRefHash anchor = hashTargetRef sha (wi_targetRef w))"
  by (auto simp: attest_checks_def res_bind_Inr_iff split: option.splits if_splits list.splits)

section \<open>Suspension, expiry and notices\<close>

lemma pause_row_Inr [row_iff]:
  "pause_row sha now p i q a s w rv = Inr w' \<longleftrightarrow>
     List.find (\<lambda>h. rh_operationId h = pq_operationId q) (wi_recallHistory w) = None \<and>
     pause_guards p w q a s = Inr () \<and>
     (\<exists>frozen. deriveFrozenRecallAuthority sha p w = Inr frozen \<and>
       w' = touched now (accrued w now
         (w\<lparr>wi_suspended := Some True, wi_blockedOn := None,
            wi_recallHistory := wi_recallHistory w @
              [\<lparr>rh_operationId = pq_operationId q, rh_requestHash = pause_request_hash sha i q a,
                rh_actor = a, rh_reason = pq_reason q, rh_recalledAt = now,
                rh_beforeStateHash = recallStateHash sha w, rh_before = recall_before_of sha w rv,
                rh_frozenAuthority = Some frozen, rh_sanctionedAuthority = None,
                rh_holderNoticeIntentId = map_option (\<lambda>l. recall_notice_id sha w (pq_operationId q) (le_holder l)) (wi_lease w)\<rparr>],
            wi_pendingRecallIntents := wi_pendingRecallIntents w @ recall_notices sha now w (pq_operationId q),
            wi_recallNoticePending := Some (recall_notices sha now w (pq_operationId q) \<noteq> [] \<or>
              wi_recallNoticePending w = Some True)\<rparr>)))"
  by (auto simp: pause_row_def Let_def res_bind_Inr_iff split: option.splits if_splits)

lemma pause_guards_Inr:
  "pause_guards p w q a s = Inr u \<longleftrightarrow>
     \<not> isFailedGateSealed w \<and>
     assertPauseExpectations p w (pq_expectedRevision q) (pq_expectedGeneration q) = Inr () \<and>
     wi_status w \<in> {Ready, Claimed, InProgress, Blocked} \<and> \<not> isParkedFromExecution w \<and>
     (wi_status w = Ready \<longleftrightarrow> wi_lease w = None) \<and> (wi_status w = Blocked \<longrightarrow> wi_blockedOn w \<noteq> None) \<and>
     (\<exists>creator. originalCreatorAgentId p w s = Inr creator \<and>
       (is_steward (ac_role a) \<or> wi_status w = Ready \<and> creator = Some (ac_agentId a)))"
  unfolding pause_guards_def
  by (cases "wi_status w = Ready"; cases "wi_lease w")
    (auto simp: res_bind_Inr_iff guard_simps if_Inl_Inr Let_def)

lemma unpause_row_Inr [row_iff]:
  "unpause_row sha now p q a s w rv = Inr w' \<longleftrightarrow>
     \<not> isFailedGateSealed w \<and>
     assertPauseExpectations p w (uq_expectedRevision q) (uq_expectedGeneration q) = Inr () \<and>
     isParkedFromExecution w \<and>
     (\<exists>current creator. deriveFrozenRecallAuthority sha p w = Inr current \<and>
       assertFrozenRecallAuthorityUnchanged sha (Option.bind (at_last (wi_recallHistory w)) recall_baseline) current = Inr () \<and>
       originalCreatorAgentId p w s = Inr creator \<and>
       (is_steward (ac_role a) \<or>
        creator = Some (ac_agentId a) \<and> falsy_text (ri_predecessorPhysicalId (wi_revisionIdentity w)) \<and>
        map_option (ac_agentId \<circ> rh_actor) (at_last (wi_recallHistory w)) = Some (ac_agentId a))) \<and>
     w' = touched now (accrued w now (w\<lparr>wi_suspended := Some False, wi_lease := unpause_lease now w\<rparr>))"
  unfolding unpause_row_def
  by (simp add: res_bind_Inr_iff guard_simps if_Inl_Inr Let_def) blast

lemma reset_row_Inr [row_iff]:
  "reset_row sha now p a s w rv = Inr w' \<longleftrightarrow>
     \<not> isFailedGateSealed w \<and> isParkedFromExecution w \<and> is_steward (ac_role a) \<and>
     (\<exists>history. reset_history sha p w = Inr history \<and>
       w' = touched now ((releaseHold w now Ready w)
         \<lparr>wi_evidence := [], wi_attestations := [], wi_attestationHistory := [], wi_recallHistory := history\<rparr>))"
  unfolding reset_row_def
  by (simp add: res_bind_Inr_iff guard_simps if_Inl_Inr Let_def) blast

lemma markRecallNotice_row_Inr:
  "markRecallNotice_row now n m s w rv = Inr w' \<Longrightarrow>
     \<exists>intents pending. w' = touched now (w\<lparr>wi_pendingRecallIntents := intents, wi_recallNoticePending := pending\<rparr>)"
  unfolding markRecallNotice_row_def by (auto simp: Let_def split: option.splits if_splits)

lemma markFailedSealNotice_row_Inr:
  "markFailedSealNotice_row now n m s w rv = Inr w' \<Longrightarrow>
     isFailedGateSealed w \<and>
     (\<exists>notices pending. w' = touched now (w\<lparr>wi_pendingFailedSealNotices := notices, wi_failedSealNoticePending := pending\<rparr>))"
  unfolding markFailedSealNotice_row_def by (auto simp: Let_def split: option.splits if_splits)

lemma expire_row_Inr [row_iff]:
  "expire_row sha now cap p w rv = Inr w' \<longleftrightarrow>
     (\<exists>l. wi_lease w = Some l \<and> \<not> isParkedFromExecution w \<and> wi_status w \<in> set LEASE_HELD_PHASES \<and> le_expiresAt l < now \<and>
       (if hasActiveVerifierFail w then wi_failedGateSeal w = None \<and> reconcile_row sha now w rv = Inr w'
        else lapsed_row sha now cap p w rv l = Inr w'))"
proof -
  have lift: "map_sum Some id r = Inr x \<longleftrightarrow> r = Inr x" for r :: "'a + 'b" and x
    by (cases r) auto
  show ?thesis
    unfolding expire_row_def by (auto simp: lift not_le split: option.splits if_splits)
qed

definition poisons :: "instant \<Rightarrow> nat \<Rightarrow> work_item \<Rightarrow> bool" where
  "poisons now cap w \<longleftrightarrow>
     wi_status w \<in> set POISON_ELIGIBLE_PHASES \<and> cap \<le> recentLeaseExpiryCount w now cap + 1"

lemma lapsed_row_Inr:
  "lapsed_row sha now cap p w rv l = Inr w' \<longleftrightarrow>
     (\<exists>frozen reason. deriveFrozenRecallAuthority sha p w = Inr frozen \<and>
       reason = lapse_reason l (poisons now cap w)
         (if wi_status w \<in> set POISON_ELIGIBLE_PHASES then recentLeaseExpiryCount w now cap + 1 else 0) cap
         (if wi_status w \<in> set POISON_ELIGIBLE_PHASES then wi_leaseExpiryCount w + 1 else wi_leaseExpiryCount w) \<and>
       w' = touched now ((releaseHold w now (if poisons now cap w then Abandoned else Ready) w)
         \<lparr>wi_blockedOn := None,
           wi_leaseExpiryCount := (if wi_status w \<in> set POISON_ELIGIBLE_PHASES then wi_leaseExpiryCount w + 1 else wi_leaseExpiryCount w),
           wi_recallHistory := wi_recallHistory w @ [lapse_entry sha now w rv l reason frozen]\<rparr>))"
proof -
  have "(wi_status w \<in> set POISON_ELIGIBLE_PHASES \<and>
      cap \<le> (if wi_status w \<in> set POISON_ELIGIBLE_PHASES then recentLeaseExpiryCount w now cap + 1 else 0)) = poisons now cap w"
    by (auto simp: poisons_def)
  then show ?thesis
    unfolding lapsed_row_def Let_def by (simp only: res_bind_Inr_iff) auto
qed

text \<open>A swept row is sealed or released; the fields of the history entry matter only to a few proofs.\<close>

lemma expire_row_cases:
  assumes "expire_row sha now cap p w rv = Inr w'"
  obtains (seal) l a idx op where "wi_lease w = Some l" "\<not> isParkedFromExecution w" "wi_status w \<in> set LEASE_HELD_PHASES"
      "le_expiresAt l < now" "hasActiveVerifierFail w" "wi_failedGateSeal w = None" "w' = sealed_row sha now w rv a idx op"
  | (lapse) l n entry where "wi_lease w = Some l" "\<not> isParkedFromExecution w" "wi_status w \<in> set LEASE_HELD_PHASES"
      "le_expiresAt l < now" "\<not> hasActiveVerifierFail w"
      "w' = touched now ((releaseHold w now (if poisons now cap w then Abandoned else Ready) w)
         \<lparr>wi_blockedOn := None, wi_leaseExpiryCount := n, wi_recallHistory := wi_recallHistory w @ [entry]\<rparr>)"
proof -
  obtain l where l: "wi_lease w = Some l" "\<not> isParkedFromExecution w" "wi_status w \<in> set LEASE_HELD_PHASES" "le_expiresAt l < now"
    using assms by (auto simp: expire_row_Inr)
  show ?thesis
  proof (cases "hasActiveVerifierFail w")
    case True
    with assms l have r: "wi_failedGateSeal w = None" "reconcile_row sha now w rv = Inr w'" by (simp_all add: expire_row_Inr)
    then obtain a idx op where "w' = sealed_row sha now w rv a idx op"
      by (auto simp: reconcile_row_def Let_def split: option.splits)
    with seal l True r(1) show ?thesis by blast
  next
    case False
    with assms l have "lapsed_row sha now cap p w rv l = Inr w'" by (simp add: expire_row_Inr)
    then obtain n entry where "w' = touched now ((releaseHold w now (if poisons now cap w then Abandoned else Ready) w)
         \<lparr>wi_blockedOn := None, wi_leaseExpiryCount := n, wi_recallHistory := wi_recallHistory w @ [entry]\<rparr>)"
      by (auto simp only: lapsed_row_Inr)
    with lapse l False show ?thesis by blast
  qed
qed

section \<open>Edits\<close>

lemma update_row_Inr [row_iff]:
  "update_row sha now p a m seam h w = Inr w' \<longleftrightarrow>
     update_authority sha p a w = Inr () \<and> update_tier p m seam w = Inr () \<and>
     update_fields_ok sha m h w = Inr () \<and> sanction sha p (apply_update now m w) = Inr w'"
  by (auto simp: update_row_def res_bind_Inr_iff)

lemma update_authority_Inr:
  "update_authority sha p a w = Inr u \<longleftrightarrow>
     \<not> isFailedGateSealed w \<and> isCurrent sha w p \<and>
     (is_creator w (ac_agentId a) \<or> ac_role a = ''architect'') \<and> wi_status w \<notin> {Done, Abandoned}"
  unfolding update_authority_def
  by (auto simp: res_bind_Inr_iff guard_simps if_Inl_Inr isCurrent_def is_ok_iff is_creator_def terminal_for_update_def)

lemma sanction_Inr:
  "sanction sha p w = Inr w' \<Longrightarrow> \<exists>h. w' = w\<lparr>wi_recallHistory := h\<rparr> \<and>
     (h = wi_recallHistory w \<or> (\<exists>current. h = map_last (rebaseline current) (wi_recallHistory w)))"
  by (cases w) (fastforce simp: sanction_def res_bind_Inr_iff split: if_splits)

section \<open>Ids\<close>

text \<open>No transform changes the id of a row.\<close>

lemma releaseHold_fields [simp]:
  "wi_id (releaseHold w now ph w') = wi_id w'"
  "wi_status (releaseHold w now ph w') = ph"
  "wi_lease (releaseHold w now ph w') = None"
  "wi_suspended (releaseHold w now ph w') = wi_suspended w'"
  "wi_executorHistory (releaseHold w now ph w') = wi_executorHistory w'"
  "wi_evidence (releaseHold w now ph w') = wi_evidence w'"
  "wi_evidenceRequirements (releaseHold w now ph w') = wi_evidenceRequirements w'"
  "wi_attestations (releaseHold w now ph w') = wi_attestations w'"
  "wi_attestationHistory (releaseHold w now ph w') = wi_attestationHistory w'"
  "wi_failedGateSeal (releaseHold w now ph w') = wi_failedGateSeal w'"
  "wi_effectiveDisposition (releaseHold w now ph w') = wi_effectiveDisposition w'"
  "wi_recallHistory (releaseHold w now ph w') = wi_recallHistory w'"
  "wi_createdAt (releaseHold w now ph w') = wi_createdAt w'"
  "wi_frictionReflections (releaseHold w now ph w') = wi_frictionReflections w'"
  "wi_enteredCurrentStateAt (releaseHold w now ph w') = now"
  "wi_stateDurations (releaseHold w now ph w') = fst (accrueExitingState w now)"
  by (simp_all add: releaseHold_def accrued_durations)

end
