(* ===== verification/Work_Steps.thy ===== *)
theory Work_Steps
  imports Row_Facts
begin

text \<open>
  The operations as steps.  A row changes only by the transforms of the verbs (\<open>row_step\<close>); the store
  changes only when a row changes, is created or is deleted, or when a row of another kind is written
  (\<open>hub_step\<close>).  Every operation of the repository is a sequence of such steps, so what the steps
  preserve holds in every store the repository can reach.
\<close>

section \<open>Steps\<close>

inductive row_step :: "sha256 \<Rightarrow> instant \<Rightarrow> hub_store \<Rightarrow> work_item \<Rightarrow> work_item \<Rightarrow> bool"
  for sha now s w where
  rs_claim: "claim_row now uuid a role deps s w rv = Inr w' \<Longrightarrow> read_pin s = Inr p \<Longrightarrow>
    inFlightCount sha p a (wipCap role) s = Inr n \<Longrightarrow> n < wipCap role \<Longrightarrow> row_step sha now s w w'"
| rs_start: "start_row now a t s w rv = Inr w' \<Longrightarrow> row_step sha now s w w'"
| rs_block: "block_row now a t b s w rv = Inr w' \<Longrightarrow> row_step sha now s w w'"
| rs_resume: "resume_row now a t s w rv = Inr w' \<Longrightarrow> row_step sha now s w w'"
| rs_renew: "renew_row now a t s w rv = Inr w' \<Longrightarrow> row_step sha now s w w'"
| rs_bump: "bump_row now s w rv = Inr w' \<Longrightarrow> row_step sha now s w w'"
| rs_release: "release_row now a t s w rv = Inr w' \<Longrightarrow> row_step sha now s w w'"
| rs_unblock: "systemUnblock_row now d s w rv = Inr w' \<Longrightarrow> row_step sha now s w w'"
| rs_abandon: "abandon_row now a token role s w rv = Inr w' \<Longrightarrow> row_step sha now s w w'"
| rs_pulse: "pulse_row pd s w rv = Inr w' \<Longrightarrow> row_step sha now s w w'"
| rs_complete: "complete_row now a t evidence friction s w rv = Inr w' \<Longrightarrow> row_step sha now s w w'"
| rs_pause: "pause_row sha now p i q ac s w rv = Inr w' \<Longrightarrow> row_step sha now s w w'"
| rs_unpause: "unpause_row sha now p uq ac s w rv = Inr w' \<Longrightarrow> row_step sha now s w w'"
| rs_reset: "reset_row sha now p ac s w rv = Inr w' \<Longrightarrow> row_step sha now s w w'"
| rs_recommit: "wi_status w = Paused \<Longrightarrow> wi_lease w = None \<Longrightarrow> row_step sha now s w (recommitted now w)"
| rs_notice: "markRecallNotice_row now n m s w rv = Inr w' \<Longrightarrow> row_step sha now s w w'"
| rs_expire: "expire_row sha now cap p w rv = Inr w' \<Longrightarrow> row_step sha now s w w'"
| rs_attest: "attest_row sha now p i r v verdict refs s w rv = Inr w' \<Longrightarrow> row_step sha now s w w'"
| rs_seal_notice: "markFailedSealNotice_row now n m s w rv = Inr w' \<Longrightarrow> row_step sha now s w w'"
| rs_migrate: "misrepresentsAsClaimable w \<Longrightarrow> row_step sha now s w (w\<lparr>wi_status := FailedSealed\<rparr>)"
| rs_update: "update_row sha now p ac m seam h w = Inr w' \<Longrightarrow> row_step sha now s w w'"

inductive_cases row_stepE: "row_step sha now s w w'"

inductive hub_step :: "sha256 \<Rightarrow> instant \<Rightarrow> hub_store \<Rightarrow> hub_store \<Rightarrow> bool" for sha now where
  hs_row: "find_row s WORK_KIND i = Some r \<Longrightarrow> row_data r = EWork w \<Longrightarrow>
    row_step sha now s (cloneWorkItem w) w' \<Longrightarrow> hub_step sha now s (write_row WORK_KIND i (EWork w') s)"
| hs_create: "find_row s WORK_KIND i = None \<Longrightarrow> i \<noteq> [] \<Longrightarrow>
    hub_step sha now s (write_row WORK_KIND i (EWork (born i now input)) s)"
| hs_blueprint: "find_row s WORK_KIND i = None \<Longrightarrow> i \<noteq> [] \<Longrightarrow>
    hub_step sha now s (write_row WORK_KIND i (EWork (blueprint_row i runId projection now input)) s)"
| hs_other: "k = COUNTER_KIND \<or> k = OPERATION_KIND \<Longrightarrow> hub_step sha now s (write_row k i e s)"

abbreviation hub_steps :: "sha256 \<Rightarrow> instant \<Rightarrow> hub_store \<Rightarrow> hub_store \<Rightarrow> bool" where
  "hub_steps sha now \<equiv> (hub_step sha now)\<^sup>*\<^sup>*"

section \<open>Well-formed stores\<close>

definition hub_ok :: "hub_store \<Rightarrow> bool" where
  "hub_ok s \<longleftrightarrow> plain_store s \<and>
     (\<forall>i r. find_row s WORK_KIND i = Some r \<longrightarrow> i \<noteq> [] \<and> (\<exists>w. row_data r = EWork w \<and> wi_id w = i))"

lemma WORK_KIND_ne [simp]: "WORK_KIND \<noteq> ''Counter''" "WORK_KIND \<noteq> COUNTER_KIND" "COUNTER_KIND \<noteq> WORK_KIND"
    "WORK_KIND \<noteq> OPERATION_KIND" "OPERATION_KIND \<noteq> WORK_KIND" "OPERATION_KIND \<noteq> ''Counter''"
  by (simp_all add: WORK_KIND_def COUNTER_KIND_def OPERATION_KIND_def)

lemma hub_ok_row: "hub_ok s \<Longrightarrow> find_row s WORK_KIND i = Some r \<Longrightarrow> \<exists>w. row_data r = EWork w \<and> wi_id w = i \<and> i \<noteq> []"
  by (auto simp: hub_ok_def)

lemma hub_ok_plain: "hub_ok s \<Longrightarrow> plain_store s"
  by (simp add: hub_ok_def)

lemma hub_ok_write_work: "hub_ok s \<Longrightarrow> wi_id w = i \<Longrightarrow> i \<noteq> [] \<Longrightarrow> hub_ok (write_row WORK_KIND i (EWork w) s)"
  by (auto simp: hub_ok_def store_simps plain_store_write_row split: if_splits)

lemma hub_ok_write_other: "hub_ok s \<Longrightarrow> k \<noteq> WORK_KIND \<Longrightarrow> hub_ok (write_row k i e s)"
  by (auto simp: hub_ok_def store_simps plain_store_write_row split: if_splits)

lemma hub_ok_delete: "hub_ok s \<Longrightarrow> hub_ok (delete_op k i s)"
proof (cases "find_row s k i")
  case (Some r)
  assume ok: "hub_ok s"
  then have "plain_store (delete_op k i s)"
    using steps_plain [OF r_into_rtranclp, OF st_delete, of s k i] by (simp add: hub_ok_def)
  with ok show ?thesis
    by (auto simp: hub_ok_def delete_op_fields [OF Some] split: if_splits)
qed (simp add: store_simps)

lemma apply_update_id [simp]: "wi_id (apply_update now m w) = wi_id w"
  by (simp add: apply_update_def)

lemma sanction_id: "sanction sha p w = Inr w' \<Longrightarrow> wi_id w' = wi_id w"
  by (drule sanction_Inr) auto

lemma sealed_row_id [simp]: "wi_id (sealed_row sha now w rv a n op) = wi_id w"
  by (simp add: sealed_row_def split: prod.split)

lemma failed_row_id [simp]: "wi_id (failed_row sha now w rv a op) = wi_id w"
  by (simp add: failed_row_def attested_def split: prod.split)

lemma passed_row_id [simp]: "wi_id (passed_row now w a) = wi_id w"
  by (simp add: passed_row_def attested_def Let_def)

lemma reconcile_row_Inr:
  "reconcile_row sha now w rv = Inr w' \<longleftrightarrow>
    (\<exists>idx op. find_index (\<lambda>c. attestationIdentity c =
         attestationIdentity (the (active_attestation w (hd (failing_requirements w))))) (wi_attestationHistory w) = Some idx \<and>
       op = hashCanonicalDomain sha ''failed-gate-legacy-reconcile-v2'' (json_obj
              [(''workId'', Some (JStr (wi_id w))),
               (''attestationId'', Some (JStr (attestationIdentity (the (active_attestation w (hd (failing_requirements w)))))))]) \<and>
       w' = sealed_row sha now w rv (the (active_attestation w (hd (failing_requirements w)))) idx op)"
  unfolding reconcile_row_def Let_def by (auto split: option.splits)

lemma row_step_id: "row_step sha now s w w' \<Longrightarrow> wi_id w' = wi_id w"
proof (induction rule: row_step.induct)
  case (rs_expire cap p rv w')
  then show ?case
    by (auto simp: row_iff lapsed_row_Inr reconcile_row_Inr split: if_splits)
next
  case (rs_update p ac m seam h w')
  then show ?case by (auto simp: row_iff dest: sanction_id)
next
  case (rs_attest p i r v verdict refs rv w')
  then show ?case by (auto simp: row_iff)
next
  case (rs_pulse pd rv w')
  then show ?case by (auto dest: pulse_row_Inr)
next
  case (rs_notice n m rv w')
  then show ?case by (auto dest: markRecallNotice_row_Inr)
next
  case (rs_seal_notice n m rv w')
  then show ?case by (auto dest: markFailedSealNotice_row_Inr)
qed (auto simp: row_iff recommitted_def)

lemma hub_step_ok: "hub_step sha now s s' \<Longrightarrow> hub_ok s \<Longrightarrow> hub_ok s'"
proof (induction rule: hub_step.induct)
  case (hs_row s i r w w')
  have "wi_id w' = i" "i \<noteq> []"
    using hub_ok_row [OF hs_row.prems hs_row.hyps(1)] hs_row.hyps(2) row_step_id [OF hs_row.hyps(3)] by auto
  with hs_row.prems show ?case by (simp add: hub_ok_write_work)
next
  case (hs_create s i input)
  then show ?case by (simp add: hub_ok_write_work born_def)
next
  case (hs_blueprint s i runId projection input)
  then show ?case by (simp add: hub_ok_write_work born_def blueprint_row_def)
qed (auto intro!: hub_ok_write_other)

lemma hub_steps_ok: "hub_steps sha now s s' \<Longrightarrow> hub_ok s \<Longrightarrow> hub_ok s'"
  by (induction rule: rtranclp_induct) (auto intro: hub_step_ok)

section \<open>The update loop in a well-formed store\<close>

text \<open>The rows of a well-formed store, as the loop reads them.\<close>

definition work_at :: "string \<Rightarrow> hub_store \<Rightarrow> (work_item \<times> revision) option" where
  "work_at i s = (case find_row s WORK_KIND i of
     Some r \<Rightarrow> (case row_data r of EWork w \<Rightarrow> Some (cloneWorkItem w, row_rv r) | _ \<Rightarrow> None) | None \<Rightarrow> None)"

lemma get_work_at: "get_work i s = map_option fst (work_at i s)"
  by (auto simp: get_work_def work_at_def get_op_def split: option.splits hub_entity.splits)

lemma work_at_row:
  "work_at i s = Some (w, rv) \<longleftrightarrow> (\<exists>r w0. find_row s WORK_KIND i = Some r \<and> row_data r = EWork w0 \<and>
     w = cloneWorkItem w0 \<and> rv = row_rv r)"
  by (auto simp: work_at_def split: option.splits hub_entity.splits)

lemma work_at_None: "hub_ok s \<Longrightarrow> work_at i s = None \<longleftrightarrow> find_row s WORK_KIND i = None"
  by (auto simp: work_at_def split: option.splits hub_entity.splits dest: hub_ok_row)

lemma work_at_id: "hub_ok s \<Longrightarrow> work_at i s = Some (w, rv) \<Longrightarrow> wi_id w = i \<and> i \<noteq> []"
  by (auto simp: work_at_row dest: hub_ok_row)

lemma work_at_write [simp]:
  "work_at j (write_row WORK_KIND i (EWork w) s) =
    (if j = i then Some (cloneWorkItem w, Suc (revisionCounter s)) else work_at j s)"
  by (simp add: work_at_def store_simps)

lemma work_at_write_other: "k \<noteq> WORK_KIND \<Longrightarrow> work_at j (write_row k i e s) = work_at j s"
  by (simp add: work_at_def store_simps)

definition keeps_id :: "row_transform \<Rightarrow> bool" where
  "keeps_id f \<longleftrightarrow> (\<forall>s w rv w'. f s w rv = Inr w' \<longrightarrow> wi_id w' = wi_id w)"

lemma res_bind_assoc: "res_bind (res_bind m f) g = res_bind m (\<lambda>x. res_bind (f x) g)"
  by (cases m) simp_all

text \<open>What a loop over work rows does: the error or the row that the first attempt decides on.\<close>

lemma work_loop_eq:
  fixes g :: "hub_store \<Rightarrow> work_item \<Rightarrow> revision \<Rightarrow> 'err + work_item"
  assumes ok: "hub_ok s" and g: "\<forall>s w rv w'. g s w rv = Inr w' \<longrightarrow> wi_id w' = wi_id w"
    and f: "\<forall>s w rv. f s (EWork w) rv = res_bind (g s (cloneWorkItem w) rv) (\<lambda>w'. Inr (EWork w'))"
  shows "cas_loop (getWithRevision WORK_KIND i) (cas_row ident WORK_KIND) f quiet s =
    (case work_at i s of
       None \<Rightarrow> (CasMissing, s)
     | Some (w, rv) \<Rightarrow>
         (case g s w rv of
            Inl e \<Rightarrow> (CasFailed e, s)
          | Inr w' \<Rightarrow> (CasDone (EWork w'), write_row WORK_KIND i (EWork w') s)))"
proof (cases "find_row s WORK_KIND i")
  case None
  then show ?thesis
    by (simp add: work_at_def quiet_def getWithRevision_def)
next
  case (Some r)
  obtain w where w: "row_data r = EWork w" "wi_id w = i" "i \<noteq> []"
    using hub_ok_row [OF ok Some] by blast
  have rd: "getWithRevision WORK_KIND i s = Some (EWork w, row_rv r)"
    using Some w by (simp add: getWithRevision_def)
  have good: "\<forall>x rv y. getWithRevision WORK_KIND i s = Some (x, rv) \<longrightarrow> f s x rv = Inr y \<longrightarrow>
      ident y = Some i \<and> i \<noteq> [] \<and> WORK_KIND \<noteq> ''Counter''"
  proof (intro allI impI)
    fix x rv y
    assume "getWithRevision WORK_KIND i s = Some (x, rv)" and y: "f s x rv = Inr y"
    with rd have "x = EWork w" by simp
    with y f obtain w' where "y = EWork w'" "g s (cloneWorkItem w) rv = Inr w'"
      by (auto simp: res_bind_Inr_iff)
    with g w have "ident y = Some i" by fastforce
    with w show "ident y = Some i \<and> i \<noteq> [] \<and> WORK_KIND \<noteq> ''Counter''" by simp
  qed
  note loop = cas_sub.loop_quiet [where f = f, OF hub_ok_plain [OF ok] good]
  have put: "snd (cas_row ident WORK_KIND (EWork w') (row_rv r) s) = write_row WORK_KIND i (EWork w') s"
    if "g s (cloneWorkItem w) (row_rv r) = Inr w'" for w'
    using putIfMatch_found [OF hub_ok_plain [OF ok] _ w(3) _ Some, of ident "EWork w'"] that g w(2)
    by (fastforce simp: cas_row_def)
  have at: "work_at i s = Some (cloneWorkItem w, row_rv r)"
    using Some w by (simp add: work_at_def)
  show ?thesis
    unfolding loop using rd at put f
    by (cases "g s (cloneWorkItem w) (row_rv r)") simp_all
qed

lemma tryCasUpdate_eq:
  assumes ok: "hub_ok s" and f: "keeps_id f"
  shows "tryCasUpdate sha p i f s =
    (case work_at i s of
       None \<Rightarrow> (Inr None, s)
     | Some (w, rv) \<Rightarrow>
         (case res_bind (assertCurrent sha w p) (\<lambda>_. f s w rv) of
            Inl e \<Rightarrow> (Inl e, s)
          | Inr w' \<Rightarrow> (Inr (Some (cloneWorkItem w')), write_row WORK_KIND i (EWork w') s)))"
proof -
  let ?g = "\<lambda>s w rv. res_bind (assertCurrent sha w p) (\<lambda>_. f s w rv)"
  have g: "\<forall>s w rv w'. ?g s w rv = Inr w' \<longrightarrow> wi_id w' = wi_id w"
    using f by (auto simp: keeps_id_def res_bind_Inr_iff)
  have fg: "\<forall>s w rv. entity_transform sha p f s (EWork w) rv = res_bind (?g s (cloneWorkItem w) rv) (\<lambda>w'. Inr (EWork w'))"
    by (simp add: entity_transform_def Let_def res_bind_assoc)
  show ?thesis
    unfolding tryCasUpdate_def tryCasUpdate_with_def work_loop_eq [where f = "entity_transform sha p f", OF ok g fg]
    by (simp split: option.split sum.split)
qed

lemma tryCasUpdate_cases:
  assumes "hub_ok s" "keeps_id f" "tryCasUpdate sha p i f s = (r, s')"
  obtains (missing) "work_at i s = None" "r = Inr None" "s' = s"
  | (error) w rv e where "work_at i s = Some (w, rv)" "r = Inl e" "s' = s"
      "assertCurrent sha w p = Inl e \<or> f s w rv = Inl e"
  | (written) w rv w' where "work_at i s = Some (w, rv)" "isCurrent sha w p" "f s w rv = Inr w'"
      "r = Inr (Some (cloneWorkItem w'))" "s' = write_row WORK_KIND i (EWork w') s"
proof -
  note eq = assms(3) [unfolded tryCasUpdate_eq [OF assms(1,2)]]
  show ?thesis
  proof (cases "work_at i s")
    case None
    with eq have "r = Inr None" "s' = s" by simp_all
    with None show ?thesis by (rule missing)
  next
    case (Some wr)
    then obtain w rv where w: "work_at i s = Some (w, rv)" by (cases wr) auto
    show ?thesis
    proof (cases "res_bind (assertCurrent sha w p) (\<lambda>_. f s w rv)")
      case (Inl e)
      then have "assertCurrent sha w p = Inl e \<or> f s w rv = Inl e" by (auto simp: res_bind_Inl_iff)
      moreover from eq w Inl have "r = Inl e" "s' = s" by simp_all
      ultimately show ?thesis using w by (intro error)
    next
      case (Inr w')
      then have "isCurrent sha w p" "f s w rv = Inr w'" by (auto simp: res_bind_Inr_iff isCurrent_def)
      moreover from eq w Inr have "r = Inr (Some (cloneWorkItem w'))" "s' = write_row WORK_KIND i (EWork w') s" by simp_all
      ultimately show ?thesis using w by (intro written)
    qed
  qed
qed

end
