(* ===== verification/Work_Ops.thy ===== *)
theory Work_Ops
  imports Work_Steps
begin

text \<open>
  Every operation of the repository is a sequence of steps.  The contract is the locale \<open>hub_operation\<close>; its
  interpretations are the operations, and what the steps preserve is preserved by each of them.
\<close>

section \<open>The contract of an operation\<close>

locale hub_operation =
  fixes sha :: sha256 and now :: instant and run :: "hub_store \<Rightarrow> 'a \<times> hub_store"
  assumes steps: "hub_ok s \<Longrightarrow> run s = (r, s') \<Longrightarrow> hub_steps sha now s s'"
begin

lemma keeps_ok: "hub_ok s \<Longrightarrow> hub_ok (snd (run s))"
  using steps [of s] by (metis hub_steps_ok prod.collapse)

lemma keeps:
  assumes "hub_ok s" "P s" and "\<And>s s'. hub_ok s \<Longrightarrow> P s \<Longrightarrow> hub_step sha now s s' \<Longrightarrow> P s'"
  shows "P (snd (run s))"
proof -
  have "hub_steps sha now s (snd (run s))" using steps [OF assms(1), of "fst (run s)"] by simp
  then have "hub_ok (snd (run s)) \<and> P (snd (run s))"
    by (induction rule: rtranclp_induct) (use assms hub_step_ok in blast)+
  then show ?thesis ..
qed

end

section \<open>Row transforms and the fence\<close>

definition verb_transform :: "sha256 \<Rightarrow> instant \<Rightarrow> row_transform \<Rightarrow> bool" where
  "verb_transform sha now f \<longleftrightarrow> (\<forall>s w rv w'. f s w rv = Inr w' \<longrightarrow> row_step sha now s w w')"

lemma verb_transform_keeps_id: "verb_transform sha now f \<Longrightarrow> keeps_id f"
  using row_step_id unfolding verb_transform_def keeps_id_def by blast

text \<open>It is enough that the transform is a row step in the store the loop reads.\<close>

lemma tryCas_steps_at:
  assumes "hub_ok s" "keeps_id f" "\<forall>w rv w'. f s w rv = Inr w' \<longrightarrow> row_step sha now s w w'"
    and "tryCasUpdate sha p i f s = (r, s')"
  shows "hub_steps sha now s s'"
  using assms(1,2,4)
proof (cases rule: tryCasUpdate_cases)
  case (written w rv w')
  then obtain r w0 where "find_row s WORK_KIND i = Some r" "row_data r = EWork w0" "w = cloneWorkItem w0"
    by (auto simp: work_at_row)
  with written(3,5) assms(3) show ?thesis using hs_row by blast
qed simp_all

lemma tryCas_steps:
  assumes "hub_ok s" "verb_transform sha now f" "tryCasUpdate sha p i f s = (r, s')"
  shows "hub_steps sha now s s'"
  using tryCas_steps_at [OF assms(1) verb_transform_keeps_id [OF assms(2)] _ assms(3)] assms(2)
  by (auto simp: verb_transform_def)

lemma fence_steps:
  assumes body: "\<forall>p s r s'. hub_ok s \<longrightarrow> read_pin s = Inr p \<longrightarrow> f p s = (r, s') \<longrightarrow> hub_steps sha now s s'"
    and "hub_ok s" "withWriterFence f s = (r, s')"
  shows "hub_steps sha now s s'"
proof (cases "read_pin s")
  case (Inl e)
  with assms(3) show ?thesis by (simp add: withWriterFence_def)
next
  case (Inr p)
  obtain r1 s1 where f: "f p s = (r1, s1)" by (cases "f p s")
  with assms(3) Inr have "s' = s1"
    by (auto simp: withWriterFence_def split: sum.splits)
  with body assms(2) f Inr show ?thesis by blast
qed

lemma row_verb_steps: "verb_transform sha now f \<Longrightarrow> hub_ok s \<Longrightarrow> row_verb sha i f s = (r, s') \<Longrightarrow> hub_steps sha now s s'"
  unfolding row_verb_def by (rule fence_steps) (auto intro: tryCas_steps)

named_theorems transforms "the transforms that are row steps"

lemma transform_steps [transforms]:
  "verb_transform sha now (start_row now a t)"
  "verb_transform sha now (block_row now a t b)"
  "verb_transform sha now (resume_row now a t)"
  "verb_transform sha now (renew_row now a t)"
  "verb_transform sha now (bump_row now)"
  "verb_transform sha now (release_row now a t)"
  "verb_transform sha now (systemUnblock_row now d)"
  "verb_transform sha now (abandon_row now a token arole)"
  "verb_transform sha now (pulse_row pd)"
  "verb_transform sha now (complete_row now a t evidence friction)"
  "verb_transform sha now (pause_row sha now p i q ac)"
  "verb_transform sha now (unpause_row sha now p uq ac)"
  "verb_transform sha now (reset_row sha now p ac)"
  "verb_transform sha now (markRecallNotice_row now n m)"
  "verb_transform sha now (attest_row sha now p i rq v verdict refs)"
  "verb_transform sha now (markFailedSealNotice_row now n m)"
  by (auto simp: verb_transform_def intro: row_step.intros)

section \<open>The verbs\<close>

lemma claim_keeps_id: "keeps_id (claim_row now uuid a role deps)"
  by (auto simp: keeps_id_def claim_row_Inr)

interpretation claim_op: hub_operation sha now "claimWorkItem sha now uuid workId a role"
  for sha now uuid workId a role
  unfolding claimWorkItem_def
proof (unfold_locales, rule fence_steps, intro allI impI)
  fix p :: pin and s r s'
  assume ok: "hub_ok s" and p: "read_pin s = Inr p" and run: "claim_under sha now uuid workId a role p s = (r, s')"
  have "s' = s \<or> (\<exists>n deps. inFlightCount sha p a (wipCap role) s = Inr n \<and> n < wipCap role \<and>
      tryCasUpdate sha p workId (claim_row now uuid a role deps) s = (r, s'))"
    using run by (auto simp: claim_under_def Let_def split: sum.splits if_splits option.splits)
  then show "hub_steps sha now s s'"
    using p by (auto intro: tryCas_steps_at [OF ok claim_keeps_id] rs_claim)
qed

interpretation start_op: hub_operation sha now "startWork sha now workId a t" for sha now workId a t
  unfolding startWork_def by unfold_locales (rule row_verb_steps [OF transform_steps(1)])

interpretation block_op: hub_operation sha now "blockWork sha now workId a t b" for sha now workId a t b
  unfolding blockWork_def by unfold_locales (rule row_verb_steps [OF transform_steps(2)])

interpretation resume_op: hub_operation sha now "resumeWork sha now workId a t" for sha now workId a t
  unfolding resumeWork_def by unfold_locales (rule row_verb_steps [OF transform_steps(3)])

interpretation release_op: hub_operation sha now "releaseWork sha now workId a t" for sha now workId a t
  unfolding releaseWork_def by unfold_locales (rule row_verb_steps [OF transform_steps(6)])

interpretation unblock_op: hub_operation sha now "systemUnblock sha now workId d" for sha now workId d
  unfolding systemUnblock_def by unfold_locales (rule row_verb_steps [OF transform_steps(7)])

interpretation abandon_op: hub_operation sha now "abandonWork sha now workId a t role" for sha now workId a t role
  unfolding abandonWork_def by unfold_locales (rule row_verb_steps [OF transform_steps(8)])

interpretation pulse_op: hub_operation sha now "updateNodePulseBookkeeping sha nodeId d" for sha now nodeId d
  by unfold_locales
    (auto simp: updateNodePulseBookkeeping_def split: prod.splits sum.splits
      intro: row_verb_steps [OF transform_steps(9)])

interpretation complete_op: hub_operation sha now "completeWork sha now workId a t evidence friction"
  for sha now workId a t evidence friction
  unfolding completeWork_def
proof (unfold_locales, rule fence_steps, intro allI impI)
  fix p :: pin and s r s'
  assume "hub_ok s" "read_pin s = Inr p" "complete_under sha now workId a t evidence friction p s = (r, s')"
  then show "hub_steps sha now s s'"
    by (auto simp: complete_under_def split: sum.splits option.splits prod.splits
      intro: tryCas_steps [OF _ transform_steps(10)])
qed

interpretation pause_op: hub_operation sha now "pauseWork sha now q ac" for sha now q ac
  unfolding pauseWork_def
proof (unfold_locales, rule fence_steps, intro allI impI)
  fix p :: pin and s r s'
  assume ok: "hub_ok s" and run: "pause_under sha now q ac p s = (r, s')"
  show "hub_steps sha now s s'"
  proof (cases "resolvePauseLocator p (pq_workId q) (pq_logicalId q)")
    case (Inl e)
    with run show ?thesis by (auto simp: pause_under_def split: if_splits)
  next
    case (Inr i)
    obtain r1 s1 where t: "tryCasUpdate sha p i (pause_row sha now p i q ac) s = (r1, s1)"
      by (cases "tryCasUpdate sha p i (pause_row sha now p i q ac) s")
    with run Inr have "s' = s \<or> s' = s1"
      by (auto simp: pause_under_def split: if_splits sum.splits wi_error.splits)
    with tryCas_steps [OF ok transform_steps(11) t] show ?thesis by auto
  qed
qed

interpretation unpause_op: hub_operation sha now "unpauseWork sha now uq ac" for sha now uq ac
proof
  fix s :: hub_store and r s'
  assume ok: "hub_ok s" and run: "unpauseWork sha now uq ac s = (r, s')"
  show "hub_steps sha now s s'"
  proof (cases "uq_logicalIds uq")
    case None
    show ?thesis
      by (rule fence_steps [OF _ ok run [unfolded unpauseWork_def None, simplified]])
        (auto split: sum.splits intro: tryCas_steps [OF _ transform_steps(12)])
  qed (use run in \<open>simp add: unpauseWork_def\<close>)
qed

interpretation reset_op: hub_operation sha now "resetWork sha now workId ac" for sha now workId ac
  unfolding resetWork_def
  by unfold_locales (rule fence_steps, auto intro: tryCas_steps [OF _ transform_steps(13)])

interpretation recall_notice_op: hub_operation sha now "markRecallNoticeProjected sha now workId n m"
  for sha now workId n m
  unfolding markRecallNoticeProjected_def
  by unfold_locales (rule fence_steps,
    auto split: prod.splits sum.splits wi_error.splits intro: tryCas_steps [OF _ transform_steps(14)])

interpretation seal_notice_op: hub_operation sha now "markFailedSealNoticeProjected sha now workId n m"
  for sha now workId n m
  unfolding markFailedSealNoticeProjected_def
  by unfold_locales (rule fence_steps,
    auto split: prod.splits sum.splits wi_error.splits intro: tryCas_steps [OF _ transform_steps(16)])

interpretation attest_op: hub_operation sha now "attestEvidence sha now workId rq v verdict refs"
  for sha now workId rq v verdict refs
  unfolding attestEvidence_def
proof (unfold_locales, rule fence_steps, intro allI impI)
  fix p :: pin and s r s'
  assume ok: "hub_ok s" and run: "attest_under sha now workId rq v verdict refs p s = (r, s')"
  obtain r1 s1 where t: "tryCasUpdate sha p workId (attest_row sha now p workId rq v verdict refs) s = (r1, s1)"
    by (cases "tryCasUpdate sha p workId (attest_row sha now p workId rq v verdict refs) s")
  with run have "s' = s \<or> s' = s1"
    by (auto simp: attest_under_def split: sum.splits wi_error.splits option.splits)
  with tryCas_steps [OF ok transform_steps(15) t] show "hub_steps sha now s s'" by auto
qed

section \<open>Renewal and the ancestors\<close>

lemma steps_trans: "hub_steps sha now s t \<Longrightarrow> hub_steps sha now t u \<Longrightarrow> hub_steps sha now s u"
  by (rule rtranclp_trans)

lemma bump_steps:
  assumes "hub_ok s"
  shows "hub_steps sha now s (tryBumpAncestorHeartbeat sha now p i s)"
proof -
  have "tryBumpAncestorHeartbeat sha now p i s \<in> {s, snd (tryCasUpdate sha p i (bump_row now) s)}"
    by (auto simp: tryBumpAncestorHeartbeat_def split: sum.split option.split)
  moreover have "hub_steps sha now s (snd (tryCasUpdate sha p i (bump_row now) s))"
    using tryCas_steps [OF assms transform_steps(5)] by (metis prod.collapse)
  ultimately show ?thesis by auto
qed

lemma visit_parents_steps:
  "hub_ok s \<Longrightarrow> visit_parents sha now p ids visited next s = (v, n, s') \<Longrightarrow> hub_steps sha now s s'"
proof (induction sha now p ids visited "next" s arbitrary: v n s' rule: visit_parents.induct)
  case (2 sha now p i ids visited "next" s)
  show ?case
  proof (cases "i \<in> set visited")
    case False
    have b: "hub_steps sha now s (tryBumpAncestorHeartbeat sha now p i s)"
      by (rule bump_steps [OF "2.prems"(1)])
    show ?thesis
      using "2.IH"(2) [OF False hub_steps_ok [OF b "2.prems"(1)]] "2.prems"(2) False
      by (auto intro: steps_trans [OF b])
  qed (use 2 in simp)
qed simp

lemma visit_frontier_steps:
  "hub_ok s \<Longrightarrow> visit_frontier sha now p ids visited next s = (v, n, s') \<Longrightarrow> hub_steps sha now s s'"
proof (induction ids arbitrary: visited "next" s)
  case (Cons i ids)
  obtain v1 n1 s1 where p: "visit_parents sha now p
      (case parentsAwaitingCompletion sha p i s of Inl _ \<Rightarrow> [] | Inr ws \<Rightarrow> map wi_id ws) visited next s = (v1, n1, s1)"
    by (metis prod_cases3)
  have s1: "hub_steps sha now s s1" by (rule visit_parents_steps [OF Cons.prems(1) p])
  from Cons.prems(2) p have "visit_frontier sha now p ids v1 n1 s1 = (v, n, s')" by simp
  from Cons.IH [OF hub_steps_ok [OF s1 Cons.prems(1)] this] show ?case
    by (rule steps_trans [OF s1])
qed simp

lemma propagate_steps: "hub_ok s \<Longrightarrow> hub_steps sha now s (propagate_levels n sha now p frontier visited s)"
proof (induction n arbitrary: frontier visited s)
  case (Suc n)
  obtain v1 n1 s1 where f: "visit_frontier sha now p frontier visited [] s = (v1, n1, s1)"
    by (metis prod_cases3)
  have s1: "hub_steps sha now s s1" by (rule visit_frontier_steps [OF Suc.prems f])
  show ?case
    using Suc.IH [OF hub_steps_ok [OF s1 Suc.prems]] by (auto simp: f intro: steps_trans [OF s1])
qed simp

interpretation renew_op: hub_operation sha now "renewLease sha now workId a t" for sha now workId a t
  unfolding renewLease_def
proof (unfold_locales, rule fence_steps, intro allI impI)
  fix p :: pin and s r s'
  assume ok: "hub_ok s" and run: "renew_under sha now workId a t p s = (r, s')"
  obtain r1 s1 where c: "tryCasUpdate sha p workId (renew_row now a t) s = (r1, s1)"
    by (cases "tryCasUpdate sha p workId (renew_row now a t) s")
  have s1: "hub_steps sha now s s1" by (rule tryCas_steps [OF ok transform_steps(4) c])
  from run c have "s' = s1 \<or> s' = propagateHeartbeatToAncestors sha now p workId s1"
    by (auto simp: renew_under_def split: sum.splits option.splits)
  moreover have "hub_steps sha now s1 (propagateHeartbeatToAncestors sha now p workId s1)"
    unfolding propagateHeartbeatToAncestors_def by (rule propagate_steps [OF hub_steps_ok [OF s1 ok]])
  ultimately show "hub_steps sha now s s'" using s1 by (auto intro: steps_trans)
qed

section \<open>Expiry\<close>

definition expire_decision :: "sha256 \<Rightarrow> instant \<Rightarrow> nat \<Rightarrow> pin \<Rightarrow> work_item \<Rightarrow> revision \<Rightarrow> wi_error option + work_item" where
  "expire_decision sha now cap p w rv =
     res_bind (map_sum Some id (assertCurrent sha w p)) (\<lambda>_. expire_row sha now cap p w rv)"

lemma expire_row_id: "expire_row sha now cap p w rv = Inr w' \<Longrightarrow> wi_id w' = wi_id w"
  by (rule row_step_id, rule rs_expire)

lemma expire_under_eq:
  assumes ok: "hub_ok s"
  shows "expire_under sha now i cap p s =
    (case work_at i s of
       None \<Rightarrow> (Inr Skipped, s)
     | Some (w, rv) \<Rightarrow>
         (case expire_decision sha now cap p w rv of
            Inl None \<Rightarrow> (Inr Skipped, s)
          | Inl (Some e) \<Rightarrow> (Inl e, s)
          | Inr w' \<Rightarrow> (Inr (outcome_of (wi_status w')), write_row WORK_KIND i (EWork w') s)))"
proof -
  let ?f = "\<lambda>s e rv. case as_work e of
            None \<Rightarrow> Inl (Some IntegrityError)
          | Some w \<Rightarrow>
              let current = cloneWorkItem w in
              res_bind (map_sum Some id (assertCurrent sha current p)) (\<lambda>_.
              res_bind (expire_row sha now cap p current rv) (\<lambda>next. Inr (EWork next)))"
  let ?g = "\<lambda>s w rv. expire_decision sha now cap p w rv"
  have g: "\<forall>s w rv w'. ?g s w rv = Inr w' \<longrightarrow> wi_id w' = wi_id w"
    by (auto simp: expire_decision_def res_bind_Inr_iff intro: expire_row_id)
  have fg: "\<forall>s w rv. ?f s (EWork w) rv = res_bind (?g s (cloneWorkItem w) rv) (\<lambda>w'. Inr (EWork w'))"
    by (simp add: expire_decision_def Let_def res_bind_assoc)
  show ?thesis
    unfolding expire_under_def work_loop_eq [where f = ?f, OF ok g fg]
    by (simp split: option.split sum.split)
qed

interpretation expire_op: hub_operation sha now "expireLease sha now workId cap" for sha now workId cap
  unfolding expireLease_def
proof (unfold_locales, rule fence_steps, intro allI impI)
  fix p :: pin and s r s'
  assume ok: "hub_ok s" and run: "expire_under sha now workId cap p s = (r, s')"
  show "hub_steps sha now s s'"
  proof (cases "\<exists>w rv w'. work_at workId s = Some (w, rv) \<and> expire_decision sha now cap p w rv = Inr w'")
    case True
    then obtain w rv w' where w: "work_at workId s = Some (w, rv)" "expire_decision sha now cap p w rv = Inr w'"
      by blast
    then have "row_step sha now s w w'"
      by (auto simp: expire_decision_def res_bind_Inr_iff intro: rs_expire)
    moreover obtain r w0 where "find_row s WORK_KIND workId = Some r" "row_data r = EWork w0" "w = cloneWorkItem w0"
      using w by (auto simp: work_at_row)
    ultimately show ?thesis
      using run w hs_row by (fastforce simp: expire_under_eq [OF ok])
  next
    case False
    with run show ?thesis
      by (auto simp: expire_under_eq [OF ok] split: option.splits sum.splits)
  qed
qed

section \<open>Creation, deletion and edits\<close>

lemma createOnly_work:
  "plain_store s \<Longrightarrow> wi_id w \<noteq> [] \<Longrightarrow> createOnly ident WORK_KIND (EWork w) s =
    Inr (if find_row s WORK_KIND (wi_id w) \<noteq> None then (ExistingConflict, s)
         else (Created (wi_id w) (Suc (revisionCounter s)), write_row WORK_KIND (wi_id w) (EWork w) s))"
  by (simp add: createOnly_def plain_store_def encodeForWrite_def extractId_def Let_def store_simps)

lemma born_id [simp]: "wi_id (born i now input) = i" "wi_id (blueprint_row i runId projection now input) = i"
  by (simp_all add: born_def blueprint_row_def)

lemma work_id_ne [simp]: "work_id n \<noteq> []"
  by (simp add: work_id_def)

lemma counter_step:
  assumes "hub_ok s" "next_id d s = (r, s1)"
  shows "hub_step sha now s s1"
  using assms(2) by (auto simp: next_id_quiet [OF hub_ok_plain [OF assms(1)]] intro: hs_other)

interpretation create_op: hub_operation sha now "createWorkItem now input" for sha now input
  unfolding createWorkItem_def
proof (unfold_locales, rule fence_steps, intro allI impI)
  fix p :: pin and s r s'
  assume ok: "hub_ok s" and run: "create_under now input p s = (r, s')"
  show "hub_steps sha now s s'"
  proof (cases "assertCreateAllowed p")
    case (Inl e)
    with run show ?thesis by (auto simp: create_under_def)
  next
    case (Inr u)
    obtain n s1 where n: "next_id WORK_ITEM_COUNTER s = (Inr n, s1)"
      using next_id_quiet [OF hub_ok_plain [OF ok]] by blast
    have s1: "hub_step sha now s s1" by (rule counter_step [OF ok n])
    have ok1: "hub_ok s1" by (rule hub_step_ok [OF s1 ok])
    show ?thesis
    proof (cases "find_row s1 WORK_KIND (work_id n)")
      case None
      then have "hub_step sha now s1 (write_row WORK_KIND (work_id n) (EWork (born (work_id n) now input)) s1)"
        by (rule hs_create) simp_all
      with run Inr n None s1 show ?thesis
        by (auto simp: create_under_def createOnly_work [OF hub_ok_plain [OF ok1]] Let_def)
    next
      case (Some x)
      with run Inr n s1 show ?thesis
        by (auto simp: create_under_def createOnly_work [OF hub_ok_plain [OF ok1]])
    qed
  qed
qed

interpretation blueprint_op: hub_operation sha now "createBlueprintNode i runId projection now input"
  for sha now i runId projection input
  unfolding createBlueprintNode_def
proof (unfold_locales, rule fence_steps, intro allI impI)
  fix p :: pin and s r s'
  assume ok: "hub_ok s" and run: "blueprint_under i runId projection now input p s = (r, s')"
  show "hub_steps sha now s s'"
  proof (cases "i = []")
    case True
    have "createOnly ident WORK_KIND (EWork (blueprint_row i runId projection now input)) s = Inl (MissingId WORK_KIND)"
      using hub_ok_plain [OF ok] True
      by (simp add: createOnly_def plain_store_def encodeForWrite_def extractId_def WORK_KIND_def)
    with run show ?thesis by (auto simp: blueprint_under_def Let_def split: sum.splits)
  next
    case False
    then have c: "createOnly ident WORK_KIND (EWork (blueprint_row i runId projection now input)) s =
        Inr (if find_row s WORK_KIND i \<noteq> None then (ExistingConflict, s)
             else (Created i (Suc (revisionCounter s)),
                   write_row WORK_KIND i (EWork (blueprint_row i runId projection now input)) s))"
      using createOnly_work [OF hub_ok_plain [OF ok], of "blueprint_row i runId projection now input"] by simp
    have step: "find_row s WORK_KIND i = None \<Longrightarrow>
        hub_step sha now s (write_row WORK_KIND i (EWork (blueprint_row i runId projection now input)) s)"
      using False by (intro hs_blueprint)
    show ?thesis
      using run step by (cases "find_row s WORK_KIND i") (auto simp: blueprint_under_def c Let_def split: sum.splits option.splits)
  qed
qed

text \<open>Deletion is the one operation that is no sequence of steps: it removes the row, or it is refused.\<close>

lemma deleteWorkItem_cases: "snd (deleteWorkItem i s) \<in> {s, delete_op WORK_KIND i s}"
  by (auto simp: deleteWorkItem_def withWriterFence_def split: pin.splits sum.splits)

lemma mutation_steps:
  assumes ok: "hub_ok s" and run: "applyWorkItemMutation sha now i ac m seam h p s = (r, s')"
  shows "hub_steps sha now s s'"
proof (cases "work_at i s")
  case None
  with run show ?thesis
    by (auto simp: applyWorkItemMutation_def getWithRevision_def work_at_None [OF ok] split: if_splits)
next
  case (Some wr)
  obtain x w where x: "find_row s WORK_KIND i = Some x" "row_data x = EWork w"
    using Some by (cases wr) (auto simp: work_at_row)
  have i: "wi_id w = i" "i \<noteq> []" using hub_ok_row [OF ok x(1)] x(2) by auto
  show ?thesis
  proof (cases "update_row sha now p ac m seam h (cloneWorkItem w)")
    case (Inl e)
    with run x show ?thesis by (auto simp: applyWorkItemMutation_def getWithRevision_def split: if_splits)
  next
    case (Inr w')
    then have step: "row_step sha now s (cloneWorkItem w) w'" by (rule rs_update)
    then have "wi_id w' = i" using row_step_id i by fastforce
    then have "putIfMatch ident WORK_KIND (EWork w') (row_rv x) s =
        Inr (Written (Suc (revisionCounter s)), write_row WORK_KIND i (EWork w') s)"
      using putIfMatch_found [OF hub_ok_plain [OF ok] _ i(2) _ x(1), of ident "EWork w'"] by simp
    with run x Inr hs_row [OF x step] show ?thesis
      by (auto simp: applyWorkItemMutation_def getWithRevision_def split: if_splits)
  qed
qed

interpretation update_op: hub_operation sha now "updateWorkItem sha now workId ac m h" for sha now workId ac m h
  unfolding updateWorkItem_def
  by unfold_locales (rule fence_steps, auto intro: mutation_steps)

interpretation edge_op: hub_operation sha now "appendSystemProjectionEdge sha now workId rel e" for sha now workId rel e
  unfolding appendSystemProjectionEdge_def
  by unfold_locales (rule fence_steps, auto intro: mutation_steps)

section \<open>The batch of a recommit\<close>

lemma emit_commutes: "set_row k i e (emit ev s) = emit ev (set_row k i e s)"
  by (simp add: set_row_def emit_def getKindStore_def)

lemma write_batch_emit: "write_batch ps (emit ev s) = (fst (write_batch ps s), emit ev (snd (write_batch ps s)))"
proof (induction ps arbitrary: s)
  case (Cons a ps)
  obtain k i e where a: "a = (k, i, e)" by (cases a) auto
  show ?case
    using Cons [of "set_row k i e s"]
    by (simp add: a emit_commutes Let_def case_prod_beta) (simp add: emit_def set_row_def)
qed simp

text \<open>A batch is the sequence of its writes.\<close>

lemma batch_is_writes:
  "write_batch ps s = ((rvs, evs), s') \<Longrightarrow> fold emit evs s' = fold (\<lambda>(k, i, e). write_row k i e) ps s"
proof (induction ps arbitrary: s rvs evs s')
  case (Cons a ps)
  obtain k i e where a: "a = (k, i, e)" by (cases a) auto
  let ?ev = "PutEvent k i e (revisionCounter (set_row k i e s))"
  obtain rvs2 evs2 s2 where rec: "write_batch ps (set_row k i e s) = ((rvs2, evs2), s2)"
    by (metis prod_cases3 surj_pair)
  with Cons.prems have out: "evs = ?ev # evs2" "s' = s2" by (auto simp: a Let_def)
  have "write_batch ps (write_row k i e s) = ((rvs2, evs2), emit ?ev s2)"
    unfolding write_row_def Let_def by (simp add: write_batch_emit rec)
  from Cons.IH [OF this] show ?case by (simp add: out a)
qed simp

definition row_writes :: "(string \<times> string \<times> hub_entity) list \<Rightarrow> hub_store \<Rightarrow> hub_store" where
  "row_writes = fold (\<lambda>(k, i, e). write_row k i e)"

lemma row_writes_steps:
  assumes "\<forall>(k, i, e) \<in> set ps. k = OPERATION_KIND \<or> k = WORK_KIND \<and>
      (\<exists>r w. find_row s WORK_KIND i = Some r \<and> row_data r = EWork w \<and> wi_status w = Paused \<and> wi_lease w = None \<and>
        e = EWork (recommitted now (cloneWorkItem w)))"
    and "distinct (map (\<lambda>(k, i, e). entry_key k i) ps)"
  shows "hub_steps sha now s (row_writes ps s)"
  using assms
proof (induction ps arbitrary: s)
  case (Cons a ps)
  obtain k i e where a: "a = (k, i, e)" by (cases a) auto
  have step: "hub_step sha now s (write_row k i e s)"
  proof (cases "k = OPERATION_KIND")
    case False
    with Cons.prems(1) a obtain r w where "k = WORK_KIND" "find_row s WORK_KIND i = Some r" "row_data r = EWork w"
        "wi_status w = Paused" "wi_lease w = None" "e = EWork (recommitted now (cloneWorkItem w))"
      by auto
    moreover from this have "row_step sha now s (cloneWorkItem w) (recommitted now (cloneWorkItem w))"
      by (intro rs_recommit) simp_all
    ultimately show ?thesis using hs_row by blast
  qed (simp add: hs_other)
  have other: "(k', i', e') \<in> set ps \<Longrightarrow> k' = WORK_KIND \<Longrightarrow> find_row (write_row k i e s) WORK_KIND i' = find_row s WORK_KIND i'"
    for k' i' e'
    using Cons.prems(2) by (force simp: a store_simps)
  have "hub_steps sha now (write_row k i e s) (row_writes ps (write_row k i e s))"
  proof (rule Cons.IH)
    show "\<forall>(k', i', e') \<in> set ps. k' = OPERATION_KIND \<or> k' = WORK_KIND \<and>
        (\<exists>r w. find_row (write_row k i e s) WORK_KIND i' = Some r \<and> row_data r = EWork w \<and> wi_status w = Paused \<and>
          wi_lease w = None \<and> e' = EWork (recommitted now (cloneWorkItem w)))"
    proof
      fix x
      assume m: "x \<in> set ps"
      obtain k' i' e' where x: "x = (k', i', e')" by (cases x) auto
      show "case x of (k', i', e') \<Rightarrow> k' = OPERATION_KIND \<or> k' = WORK_KIND \<and>
        (\<exists>r w. find_row (write_row k i e s) WORK_KIND i' = Some r \<and> row_data r = EWork w \<and> wi_status w = Paused \<and>
          wi_lease w = None \<and> e' = EWork (recommitted now (cloneWorkItem w)))"
      proof (cases "k' = WORK_KIND")
        case True
        with Cons.prems(1) m x other [of k' i' e'] show ?thesis by fastforce
      qed (use Cons.prems(1) m x in fastforce)
    qed
    show "distinct (map (\<lambda>(k, i, e). entry_key k i) ps)" using Cons.prems(2) by (simp add: a)
  qed
  with step show ?case
    by (auto simp: row_writes_def a intro: converse_rtranclp_into_rtranclp)
qed (simp add: row_writes_def)

lemma map_res_mem: "map_res f xs = Inr ys \<Longrightarrow> y \<in> set ys \<Longrightarrow> \<exists>x \<in> set xs. f x = Inr y"
  by (induction xs arbitrary: ys) (auto simp: res_bind_Inr_iff)

lemma recommit_row_Inr:
  assumes "hub_ok s" "recommit_row sha p g expected s l = Inr (item, rv)"
  shows "\<exists>r w. find_row s WORK_KIND (wi_id item) = Some r \<and> row_data r = EWork w \<and> row_rv r = rv \<and>
    item = cloneWorkItem w \<and> wi_status w = Paused \<and> wi_lease w = None"
proof -
  obtain b where b: "binding_of g l = Some b"
    using assms(2) by (cases "binding_of g l") (simp_all add: recommit_row_def)
  obtain e rv' where e: "getWithRevision WORK_KIND (tb_physicalId b) s = Some (e, rv')"
    using assms(2) b by (cases "getWithRevision WORK_KIND (tb_physicalId b) s") (auto simp: recommit_row_def split: if_splits)
  obtain w where "e = EWork w"
    using assms(2) b e by (cases e) (auto simp: recommit_row_def split: if_splits)
  with assms(2) b e have w: "getWithRevision WORK_KIND (tb_physicalId b) s = Some (EWork w, rv)"
      "item = cloneWorkItem w" "wi_status w = Paused" "wi_lease w = None"
    by (auto simp: recommit_row_def Let_def res_bind_Inr_iff split: if_splits)
  then obtain r where r: "find_row s WORK_KIND (tb_physicalId b) = Some r" "row_data r = EWork w" "row_rv r = rv"
    by (auto simp: getWithRevision_def)
  then have "wi_id w = tb_physicalId b" using hub_ok_row [OF assms(1) r(1)] by auto
  with r w show ?thesis by auto
qed

lemma recommit_steps:
  assumes ok: "hub_ok s" and rows: "map_res (recommit_row sha p g expected s) ls = Inr rows"
    and put: "putBatchIfMatch ident
      (map (\<lambda>(w, r). (WORK_KIND, EWork w, r)) (map (\<lambda>(w, r). (recommitted now w, r)) rows) @
       [(OPERATION_KIND, EOperation op', opRv)]) s = Inr (out, s')"
  shows "hub_steps sha now s s'"
proof (cases out)
  case (BatchMismatch cs)
  with put show ?thesis by (auto simp: putBatchIfMatch_def Let_def res_bind_Inr_iff split: if_splits prod.splits)
next
  case (BatchWritten rvs)
  let ?es = "map (\<lambda>(w, r). (WORK_KIND, EWork w, r)) (map (\<lambda>(w, r). (recommitted now w, r)) rows) @
       [(OPERATION_KIND, EOperation op', opRv)]"
  have enc: "writeEncoder s = None" using hub_ok_plain [OF ok] by (simp add: plain_store_def)
  obtain ps rvs2 evs2 s2 where ps: "prepare_batch ident (map (\<lambda>(kind, e, rv). (kind, e)) ?es) s = Inr ps"
      "distinct (map (\<lambda>(kind, i, e). entry_key kind i) ps)" "write_batch ps s = ((rvs2, evs2), s2)" "s' = fold emit evs2 s2"
    using put BatchWritten
    by (auto simp: putBatchIfMatch_def Let_def res_bind_Inr_iff split: if_splits prod.splits)
  have s': "s' = row_writes ps s"
    unfolding row_writes_def using batch_is_writes [OF ps(3)] ps(4) by simp
  have eq: "map (\<lambda>(k, i, e). (k, e)) ps = map (\<lambda>(k, e, rv). (k, e)) ?es"
    by (rule prepare_batch_plain [OF enc ps(1)])
  have "case x of (k, i, e) \<Rightarrow> k = OPERATION_KIND \<or> k = WORK_KIND \<and>
      (\<exists>r w. find_row s WORK_KIND i = Some r \<and> row_data r = EWork w \<and> wi_status w = Paused \<and> wi_lease w = None \<and>
        e = EWork (recommitted now (cloneWorkItem w)))" if x: "x \<in> set ps" for x
  proof (cases x)
    case (fields k i e)
    show ?thesis
    proof (cases "k = WORK_KIND")
      case True
      have "(k, e) \<in> set (map (\<lambda>(k, i, e). (k, e)) ps)" using x fields by force
      then obtain item rv where item: "(item, rv) \<in> set rows" "e = EWork (recommitted now item)"
        unfolding eq using True by auto
      then obtain l where "recommit_row sha p g expected s l = Inr (item, rv)"
        using map_res_mem [OF rows] by blast
      from recommit_row_Inr [OF ok this] obtain r w where
        "find_row s WORK_KIND (wi_id item) = Some r" "row_data r = EWork w" "item = cloneWorkItem w"
        "wi_status w = Paused" "wi_lease w = None" by blast
      moreover have "i = wi_id item"
        using prepare_batch_ids [OF enc ps(1), of k i e] x fields True item by (simp add: recommitted_def)
      ultimately show ?thesis using fields item True by auto
    next
      case False
      have "(k, e) \<in> set (map (\<lambda>(k, i, e). (k, e)) ps)" using x fields by force
      with False have "k = OPERATION_KIND" unfolding eq by auto
      then show ?thesis by (simp add: fields)
    qed
  qed
  then show ?thesis unfolding s' by (intro row_writes_steps [OF _ ps(2)]) blast
qed

lemma recommit_under_steps:
  assumes ok: "hub_ok s" and run: "recommit_under sha now q a ls gen expected p s = (r, s')"
  shows "hub_steps sha now s s'"
proof (cases "s' = s")
  case False
  from run False obtain g h rv where p: "p = GenerationPin g h rv" "th_generation h = gen"
    by (auto simp: recommit_under_def split: pin.splits if_splits)
  from run False p obtain op opRv where op: "get_operation (tg_operationId g) s = Some (op, opRv)" "ro_recommitSet op \<noteq> []"
      "sort (ro_recommitSet op) = ls"
    by (auto simp: recommit_under_def Let_def split: option.splits if_splits sum.splits)
  from run False p op obtain rows where rows: "map_res (recommit_row sha p g expected s) ls = Inr rows"
    by (auto simp: recommit_under_def Let_def split: sum.splits)
  from run False p op rows show ?thesis
    by (auto simp: recommit_under_def Let_def split: sum.splits prod.splits batch_put_result.splits
      intro: recommit_steps [OF ok])
qed simp

interpretation recommit_op: hub_operation sha now "recommitRevisionSet sha now q a" for sha now q a
proof
  fix s :: hub_store and r s'
  assume ok: "hub_ok s" and run: "recommitRevisionSet sha now q a s = (r, s')"
  show "hub_steps sha now s s'"
  proof (cases "s' = s")
    case False
    with run obtain g m where "withWriterFence (recommit_under sha now q a
        (sort (case uq_logicalIds q of None \<Rightarrow> [] | Some ls \<Rightarrow> ls)) g m) s = (r, s')"
      by (auto simp: recommitRevisionSet_def Let_def split: if_splits sum.splits)
    then show ?thesis by (rule fence_steps [OF _ ok, rotated]) (auto intro: recommit_under_steps)
  qed simp
qed

section \<open>The migration\<close>

text \<open>The migration's snapshot of a row it has not visited yet is still the row.\<close>

definition snapshot_of :: "hub_store \<Rightarrow> work_item list \<Rightarrow> bool" where
  "snapshot_of s ws \<longleftrightarrow> distinct (map wi_id ws) \<and> (\<forall>w \<in> set ws. \<exists>rv. work_at (wi_id w) s = Some (w, rv))"

lemma fence_written:
  assumes "withWriterFence (\<lambda>p. tryCasUpdate sha p i f) s = (r, s')" "hub_ok s" "keeps_id f"
  shows "s' = s \<or> (\<exists>w rv w'. work_at i s = Some (w, rv) \<and> f s w rv = Inr w' \<and> s' = write_row WORK_KIND i (EWork w') s)"
proof (cases "read_pin s")
  case (Inl e)
  with assms(1) show ?thesis by (simp add: withWriterFence_def)
next
  case (Inr p)
  obtain r1 s1 where t: "tryCasUpdate sha p i f s = (r1, s1)" by (cases "tryCasUpdate sha p i f s")
  with assms(1) Inr have "s' = s1" by (auto simp: withWriterFence_def split: sum.splits)
  with assms(2,3) t show ?thesis by (cases rule: tryCasUpdate_cases) auto
qed

lemma migrate_keeps_id: "keeps_id migrate_row"
  by (auto simp: keeps_id_def migrate_row_def)

lemma migrate_steps:
  "hub_ok s \<Longrightarrow> snapshot_of s ws \<Longrightarrow> migrate_items sha dryRun ws rep s = (r, s') \<Longrightarrow> hub_steps sha now s s'"
proof (induction ws arbitrary: rep s)
  case (Cons w ws)
  have tail: "snapshot_of s ws" using Cons.prems(2) by (simp add: snapshot_of_def)
  show ?case
  proof (cases "misrepresentsAsClaimable w \<and> \<not> (wi_failedGateSeal w = None \<and> \<not> hasActiveVerifierFail w) \<and> \<not> dryRun")
    case False
    with Cons.IH [OF Cons.prems(1) tail] Cons.prems(3) show ?thesis
      by (auto simp: Let_def split: if_splits)
  next
    case True
    obtain r1 s1 where v: "row_verb sha (wi_id w) migrate_row s = (r1, s1)"
      by (cases "row_verb sha (wi_id w) migrate_row s")
    obtain rv where at: "work_at (wi_id w) s = Some (w, rv)"
      using Cons.prems(2) by (auto simp: snapshot_of_def)
    have s1: "s1 = s \<or> s1 = write_row WORK_KIND (wi_id w) (EWork (w\<lparr>wi_status := FailedSealed\<rparr>)) s"
      using fence_written [OF v [unfolded row_verb_def] Cons.prems(1) migrate_keeps_id] at
      by (auto simp: migrate_row_def)
    have step: "hub_steps sha now s s1"
    proof -
      obtain r w0 where "find_row s WORK_KIND (wi_id w) = Some r" "row_data r = EWork w0" "w = cloneWorkItem w0"
        using at by (auto simp: work_at_row)
      moreover from True have "row_step sha now s w (w\<lparr>wi_status := FailedSealed\<rparr>)" by (intro rs_migrate) simp
      ultimately have "hub_step sha now s (write_row WORK_KIND (wi_id w) (EWork (w\<lparr>wi_status := FailedSealed\<rparr>)) s)"
        using hs_row by blast
      with s1 show ?thesis by auto
    qed
    have "snapshot_of s1 ws"
      using s1 Cons.prems(2) by (force simp: snapshot_of_def)
    moreover have "hub_ok s1" by (rule hub_steps_ok [OF step Cons.prems(1)])
    moreover have "r = Inl (projl r1) \<and> s' = s1 \<or> (\<exists>rep'. migrate_items sha dryRun ws rep' s1 = (r, s'))"
      using Cons.prems(3) True v by (auto simp: Let_def split: sum.splits option.splits)
    ultimately show ?thesis using step Cons.IH by (auto intro: steps_trans)
  qed
qed simp

definition works_of :: "(string \<times> hub_entity entity_row) list \<Rightarrow> work_item list" where
  "works_of kv = map cloneWorkItem (List.map_filter (as_work \<circ> row_data \<circ> snd) kv)"

lemma works_of_ids:
  "\<forall>(i, r) \<in> set kv. \<exists>w. row_data r = EWork w \<and> wi_id w = i \<Longrightarrow> map wi_id (works_of kv) = map fst kv"
  by (induction kv) (auto simp: works_of_def List.map_filter_def)

lemma works_of_mem: "w \<in> set (works_of kv) \<Longrightarrow> \<exists>i r w0. (i, r) \<in> set kv \<and> row_data r = EWork w0 \<and> w = cloneWorkItem w0"
proof -
  assume "w \<in> set (works_of kv)"
  then obtain i r w0 where "(i, r) \<in> set kv" "as_work (row_data r) = Some w0" "w = cloneWorkItem w0"
    by (auto simp: works_of_def List.map_filter_def)
  then show ?thesis by (cases "row_data r") auto
qed

lemma work_rows:
  assumes "hub_ok s"
  shows "\<forall>(i, r) \<in> set (getKindStore WORK_KIND s). find_row s WORK_KIND i = Some r \<and> (\<exists>w. row_data r = EWork w \<and> wi_id w = i)"
proof -
  have "distinct (map fst (getKindStore WORK_KIND s))"
    using hub_ok_plain [OF assms] by (simp add: plain_store_def kind_store_distinct)
  then have "\<forall>(i, r) \<in> set (getKindStore WORK_KIND s). find_row s WORK_KIND i = Some r"
    by (auto simp: find_row_def)
  then show ?thesis using hub_ok_row [OF assms] by fast
qed

lemma all_work_snapshot:
  assumes ok: "hub_ok s"
  shows "snapshot_of s (take n (all_work s))"
proof -
  let ?kv = "getKindStore WORK_KIND s"
  have all: "all_work s = works_of ?kv" by (simp add: all_work_def works_of_def)
  have "map wi_id (all_work s) = map fst ?kv"
    unfolding all by (rule works_of_ids) (use work_rows [OF ok] in fast)
  then have "distinct (map wi_id (all_work s))"
    using hub_ok_plain [OF ok] by (simp add: plain_store_def kind_store_distinct)
  moreover have "\<exists>rv. work_at (wi_id w) s = Some (w, rv)" if w: "w \<in> set (all_work s)" for w
  proof -
    obtain i r w0 where m: "(i, r) \<in> set ?kv" "row_data r = EWork w0" "w = cloneWorkItem w0"
      using works_of_mem w unfolding all by blast
    with work_rows [OF ok] have "find_row s WORK_KIND i = Some r" "wi_id w0 = i" by fastforce+
    with m show ?thesis by (simp add: work_at_def)
  qed
  ultimately show ?thesis
    unfolding snapshot_of_def using set_take_subset [of n "all_work s"]
    by (auto simp: take_map [symmetric] distinct_take)
qed

interpretation migrate_op: hub_operation sha now "migrateSealedRowsToFailedPhase sha dryRun" for sha now dryRun
  by unfold_locales
    (auto simp: migrateSealedRowsToFailedPhase_def Let_def intro: migrate_steps all_work_snapshot)

end
