(* ===== verification/Work_Invariant.thy ===== *)
theory Work_Invariant
  imports Work_Ops
begin

text \<open>
  What holds of every row in every store the repository can reach.  An invariant is an
  instance of the locale \<open>row_invariant\<close>: it holds of a new row, survives the passing of time and the
  normalisation of a read, and is kept by every row step; then it holds of every row of every
  reachable store.
\<close>

section \<open>Reachable stores and row invariants\<close>

inductive reachable_hub :: "sha256 \<Rightarrow> instant \<Rightarrow> hub_store \<Rightarrow> bool" for sha where
  rh_start: "hub_ok s \<Longrightarrow> \<forall>i. find_row s WORK_KIND i = None \<Longrightarrow> reachable_hub sha t s"
| rh_wait: "reachable_hub sha t s \<Longrightarrow> t \<le> t' \<Longrightarrow> reachable_hub sha t' s"
| rh_delete: "reachable_hub sha t s \<Longrightarrow> reachable_hub sha t (delete_op k i s)"
| rh_put: "reachable_hub sha t s \<Longrightarrow> k \<noteq> WORK_KIND \<Longrightarrow> reachable_hub sha t (write_row k i e s)"
| rh_step: "reachable_hub sha now s \<Longrightarrow> hub_step sha now s s' \<Longrightarrow> reachable_hub sha now s'"

lemma reachable_ok: "reachable_hub sha t s \<Longrightarrow> hub_ok s"
  by (induction rule: reachable_hub.induct) (auto intro: hub_step_ok hub_ok_delete hub_ok_write_other)

lemma reachable_steps:
  assumes "hub_steps sha now s s'" "reachable_hub sha t s" "t \<le> now"
  shows "reachable_hub sha now s'"
  using assms by (induction rule: rtranclp_induct) (auto intro: rh_wait rh_step)

locale row_invariant =
  fixes sha :: sha256 and I :: "instant \<Rightarrow> work_item \<Rightarrow> bool"
  assumes read: "I t w \<Longrightarrow> I t (cloneWorkItem w)"
    and wait: "t \<le> t' \<Longrightarrow> I t w \<Longrightarrow> I t' w"
    and birth: "I now (born i now input)"
    and blueprint: "I now (blueprint_row i runId projection now input)"
    and step: "I now w \<Longrightarrow> row_step sha now s w w' \<Longrightarrow> I now w'"
begin

definition all_rows :: "instant \<Rightarrow> hub_store \<Rightarrow> bool" where
  "all_rows t s \<longleftrightarrow> (\<forall>i r w. find_row s WORK_KIND i = Some r \<longrightarrow> row_data r = EWork w \<longrightarrow> I t w)"

lemma all_rows_delete: "all_rows t s \<Longrightarrow> all_rows t (delete_op k i s)"
  by (cases "find_row s k i") (auto simp: all_rows_def delete_op_fields store_simps split: if_splits)

lemma all_rows_step: "hub_step sha now s s' \<Longrightarrow> all_rows now s \<Longrightarrow> all_rows now s'"
proof (induction rule: hub_step.induct)
  case (hs_row s i r w w')
  have "I now w" using hs_row.prems hs_row.hyps(1,2) unfolding all_rows_def by blast
  then have "I now w'" using hs_row.hyps(3) read step by blast
  with hs_row.prems show ?case by (auto simp: all_rows_def store_simps)
next
  case (hs_create s i input)
  then show ?case using birth by (auto simp: all_rows_def store_simps)
next
  case (hs_blueprint s i runId projection input)
  then show ?case using blueprint by (auto simp: all_rows_def store_simps)
next
  case (hs_other k s i e)
  then show ?case by (auto simp: all_rows_def store_simps)
qed

lemma reachable_rows: "reachable_hub sha t s \<Longrightarrow> all_rows t s"
proof (induction rule: reachable_hub.induct)
  case (rh_start s t)
  then show ?case by (simp add: all_rows_def)
next
  case (rh_wait t s t')
  then show ?case using wait unfolding all_rows_def by blast
next
  case (rh_delete t s k i)
  then show ?case by (blast intro: all_rows_delete)
next
  case (rh_put t s k i e)
  then show ?case by (simp add: all_rows_def store_simps)
next
  case (rh_step now s s')
  then show ?case by (blast intro: all_rows_step)
qed

lemma reachable_work: "reachable_hub sha t s \<Longrightarrow> work_at i s = Some (w, rv) \<Longrightarrow> I t w"
  using reachable_rows read by (fastforce simp: work_at_row all_rows_def)

end

section \<open>Leases\<close>

definition lease_ok :: "work_item \<Rightarrow> bool" where
  "lease_ok w \<longleftrightarrow>
     (wi_status w \<in> {Claimed, InProgress, Blocked, Review} \<longrightarrow> wi_lease w \<noteq> None) \<and>
     (wi_status w \<in> {Ready, Abandoned, FailedSealed} \<longrightarrow> wi_lease w = None) \<and>
     wi_status w \<noteq> Paused \<and> (\<forall>l. wi_lease w = Some l \<longrightarrow> le_holder l \<in> set (wi_executorHistory w)) \<and>
     distinct (wi_executorHistory w)"

lemmas phase_sets = WIP_PHASES_def LEASE_HELD_PHASES_def RELEASABLE_PHASES_def POISON_ELIGIBLE_PHASES_def COMPLETABLE_PHASES_def

lemma sealed_row_fields [simp]:
  "wi_status (sealed_row sha now w rv a n op) = FailedSealed"
  "wi_lease (sealed_row sha now w rv a n op) = None"
  "wi_blockedOn (sealed_row sha now w rv a n op) = None"
  "wi_suspended (sealed_row sha now w rv a n op) = wi_suspended w"
  "wi_executorHistory (sealed_row sha now w rv a n op) = wi_executorHistory w"
  "wi_attestations (sealed_row sha now w rv a n op) = wi_attestations w"
  "wi_attestationHistory (sealed_row sha now w rv a n op) = wi_attestationHistory w"
  "wi_evidenceRequirements (sealed_row sha now w rv a n op) = wi_evidenceRequirements w"
  "wi_evidence (sealed_row sha now w rv a n op) = wi_evidence w"
  "wi_recallHistory (sealed_row sha now w rv a n op) = wi_recallHistory w"
  "wi_createdAt (sealed_row sha now w rv a n op) = wi_createdAt w"
  "wi_effectiveDisposition (sealed_row sha now w rv a n op)"
  "wi_failedGateSeal (sealed_row sha now w rv a n op) \<noteq> None"
  "wi_enteredCurrentStateAt (sealed_row sha now w rv a n op) = now"
  "wi_stateDurations (sealed_row sha now w rv a n op) = fst (accrueExitingState w now)"
  by (simp_all add: sealed_row_def accrued_durations split: prod.split)

lemma failed_row_fields [simp]:
  "wi_status (failed_row sha now w rv a op) = FailedSealed"
  "wi_lease (failed_row sha now w rv a op) = None"
  "wi_blockedOn (failed_row sha now w rv a op) = None"
  "wi_suspended (failed_row sha now w rv a op) = wi_suspended w"
  "wi_executorHistory (failed_row sha now w rv a op) = wi_executorHistory w"
  "wi_attestations (failed_row sha now w rv a op) = AList.update (at_requirementId a) a (wi_attestations w)"
  "wi_attestationHistory (failed_row sha now w rv a op) = wi_attestationHistory w @ [a]"
  "wi_evidenceRequirements (failed_row sha now w rv a op) = wi_evidenceRequirements w"
  "wi_evidence (failed_row sha now w rv a op) = wi_evidence w"
  "wi_recallHistory (failed_row sha now w rv a op) = wi_recallHistory w"
  "wi_createdAt (failed_row sha now w rv a op) = wi_createdAt w"
  "wi_effectiveDisposition (failed_row sha now w rv a op)"
  "wi_failedGateSeal (failed_row sha now w rv a op) \<noteq> None"
  "wi_enteredCurrentStateAt (failed_row sha now w rv a op) = now"
  "wi_stateDurations (failed_row sha now w rv a op) = fst (accrueExitingState w now)"
  by (simp_all add: failed_row_def attested_def accrued_durations split: prod.split)

definition auto_completes :: "work_item \<Rightarrow> attestation \<Rightarrow> bool" where
  "auto_completes w a \<longleftrightarrow> wi_status w = Review \<and> fst (evaluateCompletionGate (attested w a)) \<and> executor_done w \<and>
     wi_completionDependsOn w = []"

lemma passed_row_fields [simp]:
  "wi_status (passed_row now w a) = (if auto_completes w a then Done else wi_status w)"
  "wi_lease (passed_row now w a) = wi_lease w"
  "wi_blockedOn (passed_row now w a) = wi_blockedOn w"
  "wi_suspended (passed_row now w a) = wi_suspended w"
  "wi_executorHistory (passed_row now w a) = wi_executorHistory w"
  "wi_attestations (passed_row now w a) = AList.update (at_requirementId a) a (wi_attestations w)"
  "wi_attestationHistory (passed_row now w a) = wi_attestationHistory w @ [a]"
  "wi_evidenceRequirements (passed_row now w a) = wi_evidenceRequirements w"
  "wi_evidence (passed_row now w a) = wi_evidence w"
  "wi_recallHistory (passed_row now w a) = wi_recallHistory w"
  "wi_createdAt (passed_row now w a) = wi_createdAt w"
  "wi_effectiveDisposition (passed_row now w a) = wi_effectiveDisposition w"
  "wi_failedGateSeal (passed_row now w a) = wi_failedGateSeal w"
  "wi_enteredCurrentStateAt (passed_row now w a) = (if auto_completes w a then now else wi_enteredCurrentStateAt w)"
  "wi_stateDurations (passed_row now w a) =
    (if auto_completes w a then fst (accrueExitingState w now) else wi_stateDurations w)"
  by (simp_all add: passed_row_def attested_def auto_completes_def accrued_durations Let_def)

lemma pause_row_cases:
  assumes "pause_row sha now p i q a s w rv = Inr w'"
  obtains entry ns b where "pause_guards p w q a s = Inr ()"
      "w' = touched now (accrued w now (w\<lparr>wi_suspended := Some True, wi_blockedOn := None,
         wi_recallHistory := wi_recallHistory w @ [entry], wi_pendingRecallIntents := wi_pendingRecallIntents w @ ns,
         wi_recallNoticePending := b\<rparr>))"
  using assms unfolding pause_row_Inr by blast

lemma complete_row_cases:
  assumes "complete_row now a t evidence friction s w rv = Inr w'"
  obtains (held) "assertLease w a t VComplete = Inr ()" "wi_status w \<in> set COMPLETABLE_PHASES" "friction = None"
      "w' = touched now (w\<lparr>wi_evidence := mergeEvidence (wi_evidence w) evidence\<rparr>)"
  | (advance) plan fr ph where "assertLease w a t VComplete = Inr ()" "wi_status w \<in> set COMPLETABLE_PHASES"
      "row_evidence_plan w (mergeEvidence (wi_evidence w) evidence) = Inr plan"
      "ph = Done \<and> ep_nextPhase plan = Done \<and> fst (evaluateCompletionGate w) \<or> ph = Review"
      "w' = touched now (accrued w now
         (w\<lparr>wi_status := ph, wi_evidence := mergeEvidence (wi_evidence w) evidence,
            wi_frictionReflections := wi_frictionReflections w @ [fr]\<rparr>))"
proof -
  obtain plan where p: "assertLease w a t VComplete = Inr ()" "wi_status w \<in> set COMPLETABLE_PHASES"
      "row_evidence_plan w (mergeEvidence (wi_evidence w) evidence) = Inr plan"
    using assms unfolding complete_row_Inr by blast
  let ?ph = "if ep_nextPhase plan = Done \<and> fst (evaluateCompletionGate w) then Done else Review"
  from assms p consider "friction = None" "w' = touched now (w\<lparr>wi_evidence := mergeEvidence (wi_evidence w) evidence\<rparr>)"
    | fr where "w' = touched now (accrued w now
         (w\<lparr>wi_status := ?ph, wi_evidence := mergeEvidence (wi_evidence w) evidence,
            wi_frictionReflections := wi_frictionReflections w @ [fr]\<rparr>))"
    unfolding complete_row_Inr by auto
  then show ?thesis
  proof cases
    case 1
    with held p show ?thesis by blast
  next
    case (2 fr)
    then show ?thesis by (intro advance [OF p, of ?ph fr]) simp_all
  qed
qed

lemma attest_row_cases:
  assumes "attest_row sha now p i r v verdict refs s w rv = Inr w'"
  obtains (fail) a op where "wi_failedGateSeal w = None" "wi_status w = Review" "w' = failed_row sha now w rv a op"
  | (advance) a where "wi_failedGateSeal w = None" "at_verdict a = Pass" "auto_completes w a" "wi_status w = Review"
      "w' = passed_row now w a"
  | (noted) a where "wi_failedGateSeal w = None" "at_verdict a = Pass" "\<not> auto_completes w a" "w' = passed_row now w a"
proof -
  obtain req where req: "wi_failedGateSeal w = None" "attest_checks sha p w r v verdict refs s = Inr req"
    "w' = (if verdict = Fail
             then failed_row sha now w rv (new_attestation sha now w req v verdict refs)
               (failedGateOperationId sha i r v verdict refs)
             else passed_row now w (new_attestation sha now w req v verdict refs))"
    using assms by (auto simp: attest_row_Inr)
  show ?thesis
  proof (cases verdict)
    case Fail
    with req have "wi_status w = Review" by (simp add: attest_checks_Inr)
    with fail req Fail show ?thesis by simp
  next
    case Pass
    then have v: "at_verdict (new_attestation sha now w req v verdict refs) = Pass" by (simp add: new_attestation_def)
    show ?thesis
    proof (cases "auto_completes w (new_attestation sha now w req v verdict refs)")
      case True
      then have "wi_status w = Review" by (simp add: auto_completes_def)
      with advance [OF req(1) v True] req(3) Pass show ?thesis by simp
    next
      case False
      with noted [OF req(1) v False] req(3) Pass show ?thesis by simp
    qed
  qed
qed

lemma update_row_fields:
  assumes "update_row sha now p ac m seam h w = Inr w'"
  shows "wi_status w' = wi_status w" "wi_lease w' = wi_lease w" "wi_blockedOn w' = wi_blockedOn w"
    "wi_suspended w' = wi_suspended w" "wi_executorHistory w' = wi_executorHistory w"
    "wi_attestations w' = wi_attestations w" "wi_attestationHistory w' = wi_attestationHistory w"
    "wi_evidence w' = wi_evidence w" "wi_createdAt w' = wi_createdAt w"
    "wi_effectiveDisposition w' = wi_effectiveDisposition w" "wi_failedGateSeal w' = wi_failedGateSeal w"
    "wi_enteredCurrentStateAt w' = wi_enteredCurrentStateAt w" "wi_stateDurations w' = wi_stateDurations w"
    "wi_evidenceRequirements w' = wi_evidenceRequirements (apply_update now m w)"
    "wi_createdBy w' = wi_createdBy w" "wi_frictionReflections w' = wi_frictionReflections w"
    "wi_leaseExpiryCount w' = wi_leaseExpiryCount w" "wi_revisionIdentity w' = wi_revisionIdentity w"
  using assms by (auto simp: row_iff apply_update_def dest!: sanction_Inr)

lemma unpause_lease_holder: "map_option le_holder (unpause_lease now w) = map_option le_holder (wi_lease w)"
  by (cases "wi_lease w") (auto simp: unpause_lease_def extended_lease_def)

lemma unpause_lease_None [simp]: "unpause_lease now w = None \<longleftrightarrow> wi_lease w = None"
  by (auto simp: unpause_lease_def)

lemma lease_ok_step: "row_step sha now s w w' \<Longrightarrow> lease_ok w \<Longrightarrow> lease_ok w'"
proof (induction rule: row_step.induct)
  case (rs_claim uuid a role deps rv w')
  then show ?case by (auto simp: row_iff lease_ok_def claim_lease_def)
next
  case (rs_unpause p uq ac rv w')
  have "\<exists>l'. wi_lease w = Some l' \<and> le_holder l' = le_holder l" if "unpause_lease now w = Some l" for l
    using unpause_lease_holder [of now w] that by (cases "wi_lease w") auto
  with rs_unpause show ?case by (auto simp: row_iff lease_ok_def phase_sets)
next
  case (rs_update p ac m seam h w')
  then show ?case unfolding lease_ok_def update_row_fields [OF rs_update.hyps] by simp
next
  case (rs_pulse pd rv w')
  then show ?case using pulse_row_Inr [OF rs_pulse.hyps] by (elim exE) (simp add: lease_ok_def)
next
  case (rs_notice n m rv w')
  then show ?case using markRecallNotice_row_Inr [OF rs_notice.hyps] by (elim exE) (simp add: lease_ok_def)
next
  case (rs_seal_notice n m rv w')
  then show ?case using markFailedSealNotice_row_Inr [OF rs_seal_notice.hyps] by (elim exE conjE) (simp add: lease_ok_def)
next
  case (rs_expire cap p rv w')
  then show ?case by (cases rule: expire_row_cases) (auto simp: lease_ok_def)
next
  case (rs_attest p i r v verdict refs rv w')
  then show ?case by (cases rule: attest_row_cases) (simp_all add: lease_ok_def)
next
  case (rs_start a t rv w')
  then show ?case by (auto simp: row_iff guard_simps lease_ok_def phase_sets extended_lease_def split: if_splits)
next
  case (rs_block a t b rv w')
  then show ?case by (auto simp: row_iff guard_simps lease_ok_def phase_sets extended_lease_def split: if_splits)
next
  case (rs_resume a t rv w')
  then show ?case by (auto simp: row_iff guard_simps lease_ok_def phase_sets extended_lease_def split: if_splits)
next
  case (rs_renew a t rv w')
  then show ?case by (auto simp: row_iff guard_simps lease_ok_def phase_sets extended_lease_def split: if_splits)
next
  case (rs_bump rv w')
  then show ?case unfolding bump_row_Inr by (elim disjE exE conjE) (simp_all add: lease_ok_def extended_lease_def)
next
  case (rs_release a t rv w')
  then show ?case by (auto simp: row_iff guard_simps lease_ok_def phase_sets extended_lease_def split: if_splits)
next
  case (rs_unblock d rv w')
  then show ?case by (auto simp: row_iff guard_simps lease_ok_def phase_sets extended_lease_def split: if_splits)
next
  case (rs_abandon a token role rv w')
  then show ?case by (auto simp: row_iff guard_simps lease_ok_def phase_sets extended_lease_def split: if_splits)
next
  case (rs_complete a t evidence friction rv w')
  then show ?case by (cases rule: complete_row_cases) (auto simp: lease_ok_def phase_sets)
next
  case (rs_pause p i q ac rv w')
  then show ?case by (cases rule: pause_row_cases) (simp add: lease_ok_def)
next
  case (rs_reset p ac rv w')
  then show ?case unfolding reset_row_Inr by (elim exE conjE) (simp add: lease_ok_def)
qed (simp_all add: lease_ok_def recommitted_def misrepresentsAsClaimable_def)

interpretation lease_inv: row_invariant sha "\<lambda>t. lease_ok" for sha
proof (unfold_locales, goal_cases)
  case (5 now w s w')
  from 5(2,1) show ?case by (rule lease_ok_step)
qed (simp_all add: lease_ok_def born_def blueprint_row_def)

section \<open>Attestations and seals\<close>

text \<open>
  The map of active attestations is the projection of the history: for each requirement the last
  attestation recorded for it.  A row is sealed exactly when it carries a seal, and then it is in the
  terminal phase.
\<close>

definition projection_ok :: "work_item \<Rightarrow> bool" where
  "projection_ok w \<longleftrightarrow> (\<forall>r. active_attestation w r =
     at_last (filter (\<lambda>a. at_requirementId a = r) (wi_attestationHistory w)))"

definition seal_ok :: "work_item \<Rightarrow> bool" where
  "seal_ok w \<longleftrightarrow> projection_ok w \<and>
     (isFailedGateSealed w \<longrightarrow> wi_failedGateSeal w \<noteq> None) \<and>
     (wi_failedGateSeal w \<noteq> None \<longrightarrow> wi_status w = FailedSealed) \<and>
     (wi_status w = FailedSealed \<longrightarrow> wi_failedGateSeal w \<noteq> None)"

lemma active_cong: "wi_attestations w = wi_attestations w' \<Longrightarrow> active_attestation w = active_attestation w'"
  by (rule ext) (simp add: active_attestation_def)

lemma projection_cong:
  "wi_attestations w' = wi_attestations w \<Longrightarrow> wi_attestationHistory w' = wi_attestationHistory w \<Longrightarrow>
   projection_ok w' = projection_ok w"
  using active_cong [of w' w] by (simp add: projection_ok_def)

lemma seal_cong:
  assumes "wi_attestations w' = wi_attestations w" "wi_attestationHistory w' = wi_attestationHistory w"
    "wi_evidenceRequirements w' = wi_evidenceRequirements w" "wi_failedGateSeal w' = wi_failedGateSeal w"
    "wi_effectiveDisposition w' = wi_effectiveDisposition w" "(wi_status w' = FailedSealed) = (wi_status w = FailedSealed)"
  shows "seal_ok w' = seal_ok w"
proof -
  have "isFailedGateSealed w' = isFailedGateSealed w"
    using assms hasActiveVerifierFail_cong [of w' w] by (simp add: isFailedGateSealed_def)
  then show ?thesis
    using assms projection_cong [of w' w] by (simp add: seal_ok_def)
qed

lemma seal_same:
  assumes "seal_ok w" "wi_attestations w' = wi_attestations w" "wi_attestationHistory w' = wi_attestationHistory w"
    "wi_evidenceRequirements w' = wi_evidenceRequirements w" "wi_failedGateSeal w' = wi_failedGateSeal w"
    "wi_effectiveDisposition w' = wi_effectiveDisposition w" "(wi_status w' = FailedSealed) = (wi_status w = FailedSealed)"
  shows "seal_ok w'"
  using assms(1) seal_cong [OF assms(2-7)] by simp

lemma projection_attested:
  assumes "projection_ok w" "wi_attestations w' = AList.update (at_requirementId a) a (wi_attestations w)"
    "wi_attestationHistory w' = wi_attestationHistory w @ [a]"
  shows "projection_ok w'"
  using assms by (auto simp: projection_ok_def active_attestation_def)

lemma hasActiveVerifierFail_iff:
  "hasActiveVerifierFail w \<longleftrightarrow> (\<exists>req \<in> set (wi_evidenceRequirements w). er_evidenceAuthority req = Some VerifierAttestation \<and>
     map_option at_verdict (active_attestation w (er_id req)) = Some Fail)"
  by (simp add: hasActiveVerifierFail_def list_ex_iff)

lemma passed_seal_ok:
  assumes "seal_ok w" "wi_failedGateSeal w = None" "at_verdict a = Pass"
  shows "seal_ok (passed_row now w a)"
proof -
  have "\<not> isFailedGateSealed w" "wi_status w \<noteq> FailedSealed" "projection_ok w"
    using assms by (auto simp: seal_ok_def)
  moreover have "hasActiveVerifierFail (passed_row now w a) \<Longrightarrow> hasActiveVerifierFail w"
    using assms(3) by (auto simp: hasActiveVerifierFail_iff active_attestation_def split: if_splits)
  ultimately show ?thesis
    using assms(2) projection_attested [of w "passed_row now w a" a]
    by (auto simp: seal_ok_def isFailedGateSealed_def)
qed

lemma seal_ok_reset:
  assumes "\<not> isFailedGateSealed w" "wi_failedGateSeal w' = wi_failedGateSeal w"
    "wi_effectiveDisposition w' = wi_effectiveDisposition w" "wi_attestations w' = []" "wi_attestationHistory w' = []"
    "wi_status w' \<noteq> FailedSealed"
  shows "seal_ok w'"
  using assms by (auto simp: seal_ok_def isFailedGateSealed_def hasActiveVerifierFail_iff active_attestation_def projection_ok_def)

lemma no_seal_in: "seal_ok w \<Longrightarrow> wi_status w \<noteq> FailedSealed \<Longrightarrow> \<not> isFailedGateSealed w"
  by (auto simp: seal_ok_def)

lemma update_seal_ok:
  assumes "seal_ok w" "update_row sha now p ac m seam h w = Inr w'"
  shows "seal_ok w'"
proof -
  note f = update_row_fields [OF assms(2)]
  have ns: "\<not> isFailedGateSealed w" and tier: "update_tier p m seam w = Inr ()"
    using assms(2) by (auto simp: row_iff update_authority_Inr)
  show ?thesis
  proof (cases "us_evidenceRequirements m")
    case None
    then have "wi_evidenceRequirements w' = wi_evidenceRequirements w" using f by (simp add: apply_update_def)
    with f assms(1) show ?thesis using seal_cong [of w' w] by simp
  next
    case (Some rs)
    then have "touches_tier FullTier m" by (simp add: touches_tier_def set_keys_def)
    with tier have "wi_attestationHistory w = []" by (auto simp: update_tier_def Let_def split: if_splits)
    with assms(1) have "\<forall>r. active_attestation w r = None" by (simp add: seal_ok_def projection_ok_def)
    with f have "\<forall>r. active_attestation w' r = None" "projection_ok w'"
      using active_cong [of w' w] projection_cong [of w' w] assms(1) by (auto simp: seal_ok_def)
    with f ns assms(1) show ?thesis
      by (auto simp: seal_ok_def isFailedGateSealed_def hasActiveVerifierFail_iff)
  qed
qed

lemma failed_seal_ok: "seal_ok w \<Longrightarrow> seal_ok (failed_row sha now w rv a op)"
  using projection_attested [of w "failed_row sha now w rv a op" a] by (auto simp: seal_ok_def)

lemma sealed_seal_ok: "seal_ok w \<Longrightarrow> seal_ok (sealed_row sha now w rv a n op)"
  using projection_cong [of "sealed_row sha now w rv a n op" w] by (auto simp: seal_ok_def)

lemma failed_is_sealed: "seal_ok w \<Longrightarrow> wi_status w = FailedSealed \<Longrightarrow> isFailedGateSealed w"
  by (auto simp: seal_ok_def isFailedGateSealed_def)

lemma seal_ok_step: "row_step sha now s w w' \<Longrightarrow> seal_ok w \<Longrightarrow> seal_ok w'"
proof (induction rule: row_step.induct)
  case (rs_attest p i r v verdict refs rv w')
  then show ?case
    by (cases rule: attest_row_cases) (simp_all add: passed_seal_ok failed_seal_ok)
next
  case (rs_expire cap p rv w')
  then show ?case
  proof (cases rule: expire_row_cases)
    case (lapse l n entry)
    with rs_expire.prems show ?thesis
      by (intro seal_same [of w w']) (auto simp: phase_sets)
  qed (simp add: sealed_seal_ok)
next
  case (rs_reset p ac rv w')
  then show ?case by (auto simp: row_iff intro: seal_ok_reset)
next
  case rs_migrate
  then show ?case using no_seal_in [of w] by (auto simp: misrepresentsAsClaimable_def)
next
  case (rs_update p ac m seam h w')
  then show ?case by (blast intro: update_seal_ok)
next
  case (rs_pulse pd rv w')
  then show ?case by (intro seal_same [of w w']) (auto dest!: pulse_row_Inr)
next
  case (rs_notice n m rv w')
  then show ?case by (intro seal_same [of w w']) (auto dest!: markRecallNotice_row_Inr)
next
  case (rs_seal_notice n m rv w')
  then show ?case by (intro seal_same [of w w']) (auto dest!: markFailedSealNotice_row_Inr)
next
  case (rs_pause p i q ac rv w')
  then show ?case by (cases rule: pause_row_cases, intro seal_same [of w w']) simp_all
next
  case (rs_complete a t evidence friction rv w')
  then show ?case
    by (cases rule: complete_row_cases; intro seal_same [of w w']) (auto simp: phase_sets)
qed (rule seal_same, assumption,
  (auto simp: row_iff guard_simps phase_sets recommitted_def dest: failed_is_sealed split: if_splits)[6])+

interpretation seal_inv: row_invariant sha "\<lambda>t. seal_ok" for sha
proof (unfold_locales, goal_cases)
  case (5 now w s w')
  from 5(2,1) show ?case by (rule seal_ok_step)
next
  case (1 t w)
  then have "projection_ok (cloneWorkItem w)" using projection_cong [of "cloneWorkItem w" w] by (simp add: seal_ok_def)
  with 1 show ?case by (simp add: seal_ok_def)
qed (simp_all add: seal_ok_def projection_ok_def isFailedGateSealed_def hasActiveVerifierFail_iff
  active_attestation_def born_def blueprint_row_def)

section \<open>Blockers and suspension\<close>

definition block_ok :: "work_item \<Rightarrow> bool" where
  "block_ok w \<longleftrightarrow>
     (wi_blockedOn w \<noteq> None \<longrightarrow> wi_status w = Blocked \<and> wi_suspended w \<noteq> Some True) \<and>
     (wi_status w = Blocked \<and> wi_suspended w = None \<longrightarrow> wi_blockedOn w \<noteq> None) \<and>
     (wi_suspended w = Some True \<longrightarrow> wi_status w \<in> {Ready, Claimed, InProgress, Blocked})"

lemma block_ok_step: "row_step sha now s w w' \<Longrightarrow> seal_ok w \<Longrightarrow> block_ok w \<Longrightarrow> block_ok w'"
proof (induction rule: row_step.induct)
  case (rs_pause p i q ac rv w')
  from rs_pause.hyps show ?case
  proof (cases rule: pause_row_cases)
    case (1 entry ns b)
    from 1(1) have "wi_status w \<in> {Ready, Claimed, InProgress, Blocked}" unfolding pause_guards_Inr by blast
    with 1(2) show ?thesis by (simp add: block_ok_def)
  qed
next
  case (rs_update p ac m seam h w')
  then show ?case unfolding block_ok_def update_row_fields [OF rs_update.hyps] by simp
next
  case (rs_pulse pd rv w')
  then show ?case using pulse_row_Inr [OF rs_pulse.hyps] by (elim exE) (simp add: block_ok_def)
next
  case (rs_notice n m rv w')
  then show ?case using markRecallNotice_row_Inr [OF rs_notice.hyps] by (elim exE) (simp add: block_ok_def)
next
  case (rs_seal_notice n m rv w')
  then show ?case using markFailedSealNotice_row_Inr [OF rs_seal_notice.hyps] by (elim exE conjE) (simp add: block_ok_def)
next
  case (rs_claim uuid a role deps rv w')
  then show ?case by (auto simp: row_iff guard_simps block_ok_def phase_sets lapsed_row_Inr reconcile_row_Inr isParkedFromExecution_def releaseHold_def split: if_splits)
next
  case (rs_start a t rv w')
  then show ?case by (auto simp: row_iff guard_simps block_ok_def phase_sets lapsed_row_Inr reconcile_row_Inr isParkedFromExecution_def releaseHold_def split: if_splits)
next
  case (rs_block a t b rv w')
  then show ?case by (auto simp: row_iff guard_simps block_ok_def phase_sets lapsed_row_Inr reconcile_row_Inr isParkedFromExecution_def releaseHold_def split: if_splits)
next
  case (rs_resume a t rv w')
  then show ?case by (auto simp: row_iff guard_simps block_ok_def phase_sets lapsed_row_Inr reconcile_row_Inr isParkedFromExecution_def releaseHold_def split: if_splits)
next
  case (rs_renew a t rv w')
  then show ?case by (auto simp: row_iff guard_simps block_ok_def phase_sets lapsed_row_Inr reconcile_row_Inr isParkedFromExecution_def releaseHold_def split: if_splits)
next
  case (rs_bump rv w')
  then show ?case by (auto simp: row_iff guard_simps block_ok_def phase_sets lapsed_row_Inr reconcile_row_Inr isParkedFromExecution_def releaseHold_def split: if_splits)
next
  case (rs_release a t rv w')
  then show ?case by (auto simp: row_iff guard_simps block_ok_def phase_sets lapsed_row_Inr reconcile_row_Inr isParkedFromExecution_def releaseHold_def split: if_splits)
next
  case (rs_unblock d rv w')
  then show ?case by (auto simp: row_iff guard_simps block_ok_def phase_sets lapsed_row_Inr reconcile_row_Inr isParkedFromExecution_def releaseHold_def split: if_splits)
next
  case (rs_abandon a token role rv w')
  then show ?case by (auto simp: row_iff guard_simps block_ok_def phase_sets lapsed_row_Inr reconcile_row_Inr isParkedFromExecution_def releaseHold_def split: if_splits)
next
  case (rs_complete a t evidence friction rv w')
  then show ?case by (cases rule: complete_row_cases) (auto simp: block_ok_def guard_simps isParkedFromExecution_def COMPLETABLE_PHASES_def)
next
  case (rs_unpause p uq ac rv w')
  then show ?case by (auto simp: row_iff guard_simps block_ok_def phase_sets lapsed_row_Inr reconcile_row_Inr isParkedFromExecution_def releaseHold_def split: if_splits)
next
  case (rs_reset p ac rv w')
  then show ?case by (auto simp: row_iff guard_simps block_ok_def phase_sets lapsed_row_Inr reconcile_row_Inr isParkedFromExecution_def releaseHold_def split: if_splits)
next
  case (rs_expire cap p rv w')
  then show ?case by (cases rule: expire_row_cases) (auto simp: block_ok_def isParkedFromExecution_def releaseHold_def)
next
  case (rs_attest p i r v verdict refs rv w')
  then show ?case by (cases rule: attest_row_cases) (simp_all add: block_ok_def)
next
  case rs_migrate
  then show ?case using no_seal_in [of w] by (auto simp: misrepresentsAsClaimable_def)
qed (simp add: block_ok_def recommitted_def)

interpretation block_inv: row_invariant sha "\<lambda>t w. seal_ok w \<and> block_ok w" for sha
proof (unfold_locales, goal_cases)
  case (5 now w s w')
  then show ?case using block_ok_step seal_ok_step by blast
next
  case (1 t w)
  then show ?case using seal_inv.read by (simp add: block_ok_def)
qed (use seal_inv.birth seal_inv.blueprint in \<open>simp_all add: block_ok_def born_def blueprint_row_def\<close>)

section \<open>Time\<close>

definition total_time :: "state_durations \<Rightarrow> int" where
  "total_time d = sd_ready d + sd_claimed d + sd_in_progress d + sd_blocked d + sd_paused d + sd_review d"

definition time_ok :: "instant \<Rightarrow> work_item \<Rightarrow> bool" where
  "time_ok t w \<longleftrightarrow> wi_createdAt w \<le> wi_enteredCurrentStateAt w \<and> wi_enteredCurrentStateAt w \<le> t \<and>
     total_time (wi_stateDurations w) = wi_enteredCurrentStateAt w - wi_createdAt w"

definition dwells :: "work_item \<Rightarrow> bool" where
  "dwells w \<longleftrightarrow> isParkedFromExecution w \<or> wi_status w \<notin> set TERMINAL_WORK_PHASES"

lemma total_time_add: "ph \<notin> set TERMINAL_WORK_PHASES \<Longrightarrow> total_time (add_duration ph e d) = total_time d + e"
  by (cases ph) (simp_all add: total_time_def TERMINAL_WORK_PHASES_def)

lemma accrue_total:
  assumes "dwells w" "wi_enteredCurrentStateAt w \<le> now"
  shows "total_time (fst (accrueExitingState w now)) = total_time (wi_stateDurations w) + (now - wi_enteredCurrentStateAt w)"
proof -
  have "(if isParkedFromExecution w then Paused else wi_status w) \<notin> set TERMINAL_WORK_PHASES"
    using assms(1) by (auto simp: dwells_def TERMINAL_WORK_PHASES_def)
  with assms(2) show ?thesis
    by (simp add: accrueExitingState_def Let_def total_time_add max_def)
qed

lemma time_accrued:
  assumes "time_ok now w" "dwells w" "wi_createdAt w' = wi_createdAt w" "wi_enteredCurrentStateAt w' = now"
    "wi_stateDurations w' = fst (accrueExitingState w now)"
  shows "time_ok now w'"
  using assms accrue_total [OF assms(2), of now] by (simp add: time_ok_def)

lemma time_same:
  assumes "time_ok now w" "wi_createdAt w' = wi_createdAt w" "wi_enteredCurrentStateAt w' = wi_enteredCurrentStateAt w"
    "wi_stateDurations w' = wi_stateDurations w"
  shows "time_ok now w'"
  using assms by (simp add: time_ok_def)

lemma abandon_dwells: "abandon_allowed w a token role \<Longrightarrow> dwells w"
  by (auto simp: abandon_allowed_def dwells_def phase_sets TERMINAL_WORK_PHASES_def isActivelyWithdrawn_def
      isParkedFromExecution_def)

lemma held_dwells: "wi_status w \<in> set LEASE_HELD_PHASES \<Longrightarrow> dwells w"
  by (auto simp: dwells_def phase_sets TERMINAL_WORK_PHASES_def)

lemma time_ok_step: "row_step sha now s w w' \<Longrightarrow> time_ok now w \<Longrightarrow> time_ok now w'"
proof (induction rule: row_step.induct)
  case (rs_claim uuid a role deps rv w')
  then show ?case by (intro time_accrued [of now w w']) (auto simp: claim_row_Inr dwells_def TERMINAL_WORK_PHASES_def accrued_durations)
next
  case (rs_start a t rv w')
  then show ?case by (intro time_accrued [of now w w']) (auto simp: start_row_Inr dwells_def TERMINAL_WORK_PHASES_def accrued_durations)
next
  case (rs_block a t b rv w')
  then show ?case by (intro time_accrued [of now w w']) (auto simp: block_row_Inr dwells_def TERMINAL_WORK_PHASES_def accrued_durations)
next
  case (rs_resume a t rv w')
  then show ?case by (intro time_accrued [of now w w']) (auto simp: resume_row_Inr dwells_def TERMINAL_WORK_PHASES_def accrued_durations)
next
  case (rs_renew a t rv w')
  then show ?case by (intro time_same [of now w w']) (auto simp: renew_row_Inr)
next
  case (rs_bump rv w')
  then show ?case by (intro time_same [of now w w']) (auto simp: bump_row_Inr)
next
  case (rs_release a t rv w')
  then show ?case
    by (intro time_accrued [of now w w']) (auto simp: release_row_Inr dwells_def phase_sets TERMINAL_WORK_PHASES_def)
next
  case (rs_unblock d rv w')
  then show ?case by (intro time_accrued [of now w w']) (auto simp: systemUnblock_row_Inr dwells_def TERMINAL_WORK_PHASES_def accrued_durations)
next
  case (rs_abandon a token role rv w')
  then show ?case by (intro time_accrued [of now w w']) (auto simp: abandon_row_Inr accrued_durations intro: abandon_dwells)
next
  case (rs_pulse pd rv w')
  then show ?case using pulse_row_Inr [OF rs_pulse.hyps] by (elim exE) (simp add: time_ok_def)
next
  case (rs_complete a t evidence friction rv w')
  from rs_complete.hyps show ?case
  proof (cases rule: complete_row_cases)
    case held
    with rs_complete.prems show ?thesis by (intro time_same [of now w w']) simp_all
  next
    case (advance plan fr ph)
    then have "dwells w" by (auto simp: dwells_def phase_sets TERMINAL_WORK_PHASES_def)
    with rs_complete.prems advance(5) show ?thesis
      by (intro time_accrued [of now w w']) (simp_all add: accrued_durations)
  qed
next
  case (rs_pause p i q ac rv w')
  from rs_pause.hyps show ?case
  proof (cases rule: pause_row_cases)
    case (1 entry ns b)
    from 1(1) have "wi_status w \<in> {Ready, Claimed, InProgress, Blocked}" unfolding pause_guards_Inr by blast
    then have "dwells w" by (auto simp: dwells_def TERMINAL_WORK_PHASES_def)
    with rs_pause.prems 1(2) show ?thesis by (intro time_accrued [of now w w']) (simp_all add: accrued_durations)
  qed
next
  case (rs_unpause p uq ac rv w')
  then have "isParkedFromExecution w" "w' = touched now (accrued w now (w\<lparr>wi_suspended := Some False, wi_lease := unpause_lease now w\<rparr>))"
    unfolding unpause_row_Inr by blast+
  with rs_unpause.prems show ?case
    by (intro time_accrued [of now w w']) (simp_all add: dwells_def accrued_durations)
next
  case (rs_reset p ac rv w')
  then obtain h where "isParkedFromExecution w" "w' = touched now ((releaseHold w now Ready w)
         \<lparr>wi_evidence := [], wi_attestations := [], wi_attestationHistory := [], wi_recallHistory := h\<rparr>)"
    unfolding reset_row_Inr by blast
  with rs_reset.prems show ?case by (intro time_accrued [of now w w']) (simp_all add: dwells_def)
next
  case rs_recommit
  then have "dwells w" by (simp add: dwells_def TERMINAL_WORK_PHASES_def)
  then show ?case
    by (rule time_accrued [OF rs_recommit.prems]) (simp_all add: recommitted_def accrued_durations)
next
  case (rs_notice n m rv w')
  then show ?case using markRecallNotice_row_Inr [OF rs_notice.hyps] by (elim exE) (simp add: time_ok_def)
next
  case (rs_expire cap p rv w')
  from rs_expire.hyps show ?case
  proof (cases rule: expire_row_cases)
    case (seal l a idx op)
    with rs_expire.prems held_dwells show ?thesis by (intro time_accrued [of now w w']) simp_all
  next
    case (lapse l n entry)
    with rs_expire.prems held_dwells show ?thesis by (intro time_accrued [of now w w']) simp_all
  qed
next
  case (rs_attest p i r v verdict refs rv w')
  from rs_attest.hyps show ?case
  proof (cases rule: attest_row_cases)
    case (fail a op)
    then have "dwells w" by (simp add: dwells_def TERMINAL_WORK_PHASES_def)
    with rs_attest.prems fail show ?thesis by (intro time_accrued [of now w w']) simp_all
  next
    case (advance a)
    then have "dwells w" by (simp add: dwells_def TERMINAL_WORK_PHASES_def)
    with rs_attest.prems advance show ?thesis by (intro time_accrued [of now w w']) simp_all
  next
    case (noted a)
    with rs_attest.prems show ?thesis by (intro time_same [of now w w']) simp_all
  qed
next
  case (rs_seal_notice n m rv w')
  then show ?case using markFailedSealNotice_row_Inr [OF rs_seal_notice.hyps] by (elim exE conjE) (simp add: time_ok_def)
next
  case rs_migrate
  then show ?case by (simp add: time_ok_def)
next
  case (rs_update p ac m seam h w')
  then show ?case by (intro time_same [of now w w']) (simp_all add: update_row_fields [OF rs_update.hyps])
qed

lemma clone_createdAt [simp]: "wi_createdAt (cloneWorkItem w) = wi_createdAt w"
  by (simp add: cloneWorkItem_def)

interpretation time_inv: row_invariant sha time_ok for sha
proof (unfold_locales, goal_cases)
  case (5 now w s w')
  then show ?case using time_ok_step by blast
qed (simp_all add: time_ok_def born_def blueprint_row_def DEFAULT_STATE_DURATIONS_def total_time_def)

end
