(* ===== verification/Hub_System.thy ===== *)
theory Hub_System
  imports Work_Invariant
begin

text \<open>
  The hub as a whole: the requests a client can make of the work-item repository, what performing one does,
  and the runs of a hub: requests in any order, at instants that never go back, while the other
  repositories write and delete rows of their own kinds.  Every run is a sequence of the steps the invariants
  are proved for.
\<close>

section \<open>Requests\<close>

datatype hub_request =
    RCreate create_input
  | RBlueprint string string "string option" create_input
  | RDelete string
  | RUpdate string actor work_update "actor option"
  | REdge string edge_class string
  | RClaim string string agent_id "string option"
  | RStart string agent_id string
  | RBlock string agent_id string blocked_on
  | RResume string agent_id string
  | RRenew string agent_id string
  | RRelease string agent_id string
  | RUnblock string string
  | RAbandon string agent_id "string option" "string option"
  | RPulse string pulse_delta
  | RComplete string agent_id string "evidence_item list" "friction_input option"
  | RPause pause_request actor
  | RUnpause unpause_request actor
  | RRecommit unpause_request actor
  | RReset string actor
  | RRecallNotice string string string
  | RExpire string nat
  | RAttest string string agent_id verdict "attestation_ref list"
  | RSealNotice string string string
  | RMigrate bool

fun perform :: "sha256 \<Rightarrow> instant \<Rightarrow> hub_request \<Rightarrow> hub_store \<Rightarrow> hub_store" where
  "perform sha now (RCreate input) s = snd (createWorkItem now input s)"
| "perform sha now (RBlueprint i runId projection input) s = snd (createBlueprintNode i runId projection now input s)"
| "perform sha now (RDelete i) s = snd (deleteWorkItem i s)"
| "perform sha now (RUpdate i ac m h) s = snd (updateWorkItem sha now i ac m h s)"
| "perform sha now (REdge i c j) s = snd (appendSystemProjectionEdge sha now i c j s)"
| "perform sha now (RClaim uuid i a role) s = snd (claimWorkItem sha now uuid i a role s)"
| "perform sha now (RStart i a t) s = snd (startWork sha now i a t s)"
| "perform sha now (RBlock i a t b) s = snd (blockWork sha now i a t b s)"
| "perform sha now (RResume i a t) s = snd (resumeWork sha now i a t s)"
| "perform sha now (RRenew i a t) s = snd (renewLease sha now i a t s)"
| "perform sha now (RRelease i a t) s = snd (releaseWork sha now i a t s)"
| "perform sha now (RUnblock i d) s = snd (systemUnblock sha now i d s)"
| "perform sha now (RAbandon i a t role) s = snd (abandonWork sha now i a t role s)"
| "perform sha now (RPulse i d) s = snd (updateNodePulseBookkeeping sha i d s)"
| "perform sha now (RComplete i a t evidence friction) s = snd (completeWork sha now i a t evidence friction s)"
| "perform sha now (RPause q ac) s = snd (pauseWork sha now q ac s)"
| "perform sha now (RUnpause q ac) s = snd (unpauseWork sha now q ac s)"
| "perform sha now (RRecommit q ac) s = snd (recommitRevisionSet sha now q ac s)"
| "perform sha now (RReset i ac) s = snd (resetWork sha now i ac s)"
| "perform sha now (RRecallNotice i n m) s = snd (markRecallNoticeProjected sha now i n m s)"
| "perform sha now (RExpire i cap) s = snd (expireLease sha now i cap s)"
| "perform sha now (RAttest i r v verdict refs) s = snd (attestEvidence sha now i r v verdict refs s)"
| "perform sha now (RSealNotice i n m) s = snd (markFailedSealNoticeProjected sha now i n m s)"
| "perform sha now (RMigrate dryRun) s = snd (migrateSealedRowsToFailedPhase sha dryRun s)"

lemmas operation_steps =
  create_op.steps blueprint_op.steps update_op.steps edge_op.steps claim_op.steps start_op.steps
  block_op.steps resume_op.steps renew_op.steps release_op.steps unblock_op.steps abandon_op.steps pulse_op.steps
  complete_op.steps pause_op.steps unpause_op.steps recommit_op.steps reset_op.steps recall_notice_op.steps
  expire_op.steps attest_op.steps seal_notice_op.steps migrate_op.steps

lemma perform_steps: "hub_ok s \<Longrightarrow> \<forall>i. q \<noteq> RDelete i \<Longrightarrow> hub_steps sha now s (perform sha now q s)"
  by (cases q) (simp_all, (metis prod.collapse operation_steps)+)

section \<open>Runs\<close>

text \<open>The other repositories write and delete rows of their own kinds.\<close>

datatype hub_event = Request hub_request | OtherPut string string hub_entity | OtherDelete string string

fun happens :: "sha256 \<Rightarrow> instant \<Rightarrow> hub_event \<Rightarrow> hub_store \<Rightarrow> hub_store" where
  "happens sha now (Request q) s = perform sha now q s"
| "happens sha now (OtherPut k i e) s = (if k = WORK_KIND then s else write_row k i e s)"
| "happens sha now (OtherDelete k i) s = (if k = WORK_KIND then s else delete_op k i s)"

fun happens_all :: "sha256 \<Rightarrow> (instant \<times> hub_event) list \<Rightarrow> hub_store \<Rightarrow> hub_store" where
  "happens_all sha [] s = s"
| "happens_all sha ((now, ev) # evs) s = happens_all sha evs (happens sha now ev s)"

inductive hub_run :: "sha256 \<Rightarrow> instant \<Rightarrow> hub_store \<Rightarrow> bool" for sha where
  run_start: "hub_run sha t empty_substrate"
| run_wait: "hub_run sha t s \<Longrightarrow> t \<le> t' \<Longrightarrow> hub_run sha t' s"
| run_event: "hub_run sha now s \<Longrightarrow> hub_run sha now (happens sha now ev s)"

lemma hub_ok_empty: "hub_ok empty_substrate"
  by (simp add: hub_ok_def plain_store_def store_ok_empty find_row_def getKindStore_def) (simp add: empty_substrate_def)

lemma happens_reachable:
  assumes "reachable_hub sha now s"
  shows "reachable_hub sha now (happens sha now ev s)"
proof (cases ev)
  case (Request q)
  show ?thesis
  proof (cases "\<exists>i. q = RDelete i")
    case True
    then obtain i where q: "q = RDelete i" ..
    show ?thesis using deleteWorkItem_cases [of i s] rh_delete [OF assms] assms by (auto simp: Request q)
  next
    case False
    then have "hub_steps sha now s (perform sha now q s)"
      by (intro perform_steps [OF reachable_ok [OF assms]]) simp
    then show ?thesis unfolding Request happens.simps by (rule reachable_steps [OF _ assms order_refl])
  qed
qed (simp_all add: assms rh_put rh_delete)

lemma run_reachable: "hub_run sha t s \<Longrightarrow> reachable_hub sha t s"
proof (induction rule: hub_run.induct)
  case (run_start t)
  have "\<forall>i. find_row empty_substrate WORK_KIND i = None"
    by (simp add: find_row_def getKindStore_def empty_substrate_def)
  then show ?case by (rule rh_start [OF hub_ok_empty])
next
  case (run_wait t s t')
  then show ?case by (blast intro: rh_wait)
next
  case (run_event now s ev)
  then show ?case by (blast intro: happens_reachable)
qed

lemma run_ok: "hub_run sha t s \<Longrightarrow> hub_ok s"
  by (rule reachable_ok [OF run_reachable])

lemma run_events:
  "hub_run sha t s \<Longrightarrow> sorted (t # map fst evs) \<Longrightarrow> last (t # map fst evs) \<le> t' \<Longrightarrow> hub_run sha t' (happens_all sha evs s)"
proof (induction evs arbitrary: t s)
  case Nil
  then show ?case by (auto intro: run_wait)
next
  case (Cons x evs)
  obtain now ev where x: "x = (now, ev)" by (cases x)
  have "hub_run sha now (happens sha now ev s)"
    using Cons.prems by (auto simp: x intro: run_event run_wait)
  with Cons.IH [of now "happens sha now ev s"] Cons.prems show ?case by (auto simp: x split: if_splits)
qed

lemma run_get:
  assumes "hub_run sha t s" "getWorkItem i s = Some w"
  obtains rv where "work_at i s = Some (w, rv)"
  using assms(2) by (auto simp: getWorkItem_def get_work_at)

lemma work_at_delete_other: "j \<noteq> i \<Longrightarrow> work_at i (delete_op WORK_KIND j s) = work_at i s"
  by (cases "find_row s WORK_KIND j") (simp_all add: work_at_def delete_op_fields store_simps)

lemma work_at_delete_kind: "k \<noteq> WORK_KIND \<Longrightarrow> work_at i (delete_op k j s) = work_at i s"
  by (cases "find_row s k j") (auto simp: work_at_def delete_op_fields store_simps)

section \<open>What a row keeps for life\<close>

text \<open>
  A relation on rows that every step keeps, given an invariant of reachable rows, holds between a row and
  what it has become after any events, as long as the row is not deleted.
\<close>

locale row_relation =
  fixes sha :: sha256 and I :: "work_item \<Rightarrow> bool" and R :: "work_item \<Rightarrow> work_item \<Rightarrow> bool"
  assumes refl: "R w w"
    and trans: "R u v \<Longrightarrow> R v w \<Longrightarrow> R u w"
    and clone: "R w (cloneWorkItem w)"
    and inv: "reachable_hub sha t s \<Longrightarrow> work_at i s = Some (w, rv) \<Longrightarrow> I w"
    and step: "I w \<Longrightarrow> row_step sha now s w w' \<Longrightarrow> R w w'"
begin

lemma along_step:
  "hub_step sha now s s' \<Longrightarrow> reachable_hub sha now s \<Longrightarrow> work_at i s = Some (w, rv) \<Longrightarrow>
   \<exists>w' rv'. work_at i s' = Some (w', rv') \<and> R w w'"
proof (induction rule: hub_step.induct)
  case (hs_row s j r v v')
  show ?case
  proof (cases "i = j")
    case True
    with hs_row have w: "w = cloneWorkItem v" by (auto simp: work_at_row)
    have "R w v'" using step [OF inv [OF hs_row.prems]] hs_row.hyps(3) unfolding w by blast
    with True show ?thesis using trans clone by auto
  next
    case False
    with hs_row.prems refl show ?thesis by auto
  qed
next
  case (hs_create s j input)
  then show ?case using refl by (auto simp: work_at_row)
next
  case (hs_blueprint s j runId projection input)
  then show ?case using refl by (auto simp: work_at_row)
next
  case (hs_other k s j e)
  then show ?case using refl by (auto simp: work_at_write_other)
qed

lemma along_steps:
  assumes "hub_steps sha now s s'" "reachable_hub sha now s" "work_at i s = Some (w, rv)"
  shows "\<exists>w' rv'. work_at i s' = Some (w', rv') \<and> R w w'"
  using assms
proof (induction rule: rtranclp_induct)
  case base
  then show ?case using refl by auto
next
  case (step t u)
  then obtain w' rv' where t: "work_at i t = Some (w', rv')" "R w w'" by blast
  from along_step [OF step.hyps(2) reachable_steps [OF step.hyps(1) step.prems(1) order_refl] t(1)] t(2) show ?case
    using trans by blast
qed

lemma along_event:
  assumes "reachable_hub sha now s" "work_at i s = Some (w, rv)" "ev \<noteq> Request (RDelete i)"
  shows "\<exists>w' rv'. work_at i (happens sha now ev s) = Some (w', rv') \<and> R w w'"
proof (cases ev)
  case (Request q)
  show ?thesis
  proof (cases "\<exists>j. q = RDelete j")
    case True
    then obtain j where j: "q = RDelete j" "j \<noteq> i" using assms(3) Request by blast
    have "work_at i (happens sha now ev s) = work_at i s"
      using deleteWorkItem_cases [of j s] work_at_delete_other [OF j(2)] by (auto simp: Request j(1))
    with assms(2) refl show ?thesis by auto
  next
    case False
    then have "hub_steps sha now s (perform sha now q s)"
      by (intro perform_steps [OF reachable_ok [OF assms(1)]]) simp
    from along_steps [OF this assms(1,2)] show ?thesis by (simp add: Request)
  qed
qed (use assms(2) refl in \<open>auto simp: work_at_write_other work_at_delete_kind\<close>)

lemma along_events:
  "hub_run sha t s \<Longrightarrow> sorted (t # map fst evs) \<Longrightarrow> Request (RDelete i) \<notin> snd ` set evs \<Longrightarrow>
   work_at i s = Some (w, rv) \<Longrightarrow> \<exists>w' rv'. work_at i (happens_all sha evs s) = Some (w', rv') \<and> R w w'"
proof (induction evs arbitrary: t s w rv)
  case Nil
  then show ?case using refl by auto
next
  case (Cons x evs)
  obtain now ev where x: "x = (now, ev)" by (cases x)
  have run: "hub_run sha now s" using Cons.prems(1,2) by (auto simp: x intro: run_wait)
  obtain w1 rv1 where w1: "work_at i (happens sha now ev s) = Some (w1, rv1)" "R w w1"
    using along_event [OF run_reachable [OF run] Cons.prems(4), of ev] Cons.prems(3) by (auto simp: x)
  have "sorted (now # map fst evs)" "Request (RDelete i) \<notin> snd ` set evs" using Cons.prems(2,3) by (auto simp: x)
  from Cons.IH [OF run_event [OF run] this w1(1)] obtain w2 rv2 where
    "work_at i (happens_all sha evs (happens sha now ev s)) = Some (w2, rv2)" "R w1 w2" by blast
  with trans [OF w1(2)] show ?case by (simp add: x)
qed

lemma kept:
  assumes "hub_run sha t s" "sorted (t # map fst evs)" "Request (RDelete i) \<notin> snd ` set evs" "getWorkItem i s = Some w"
  shows "\<exists>w'. getWorkItem i (happens_all sha evs s) = Some w' \<and> R w w'"
proof -
  obtain rv where "work_at i s = Some (w, rv)" using run_get [OF assms(1,4)] .
  from along_events [OF assms(1-3) this] show ?thesis by (auto simp: getWorkItem_def get_work_at)
qed

end

section \<open>The fence around one row\<close>

lemma pin_head: "read_pin s = Inr p \<Longrightarrow> assertHeadUnchanged p s = Inr ()"
  by (auto simp: read_pin_def assertHeadUnchanged_def split: option.splits if_splits)

lemma get_head_work [simp]: "get_head (write_row WORK_KIND i e s) = get_head s"
  by (simp add: get_head_def getWithRevision_def store_simps WORK_KIND_def HEAD_KIND_def)

lemma assertHeadUnchanged_work [simp]: "assertHeadUnchanged p (write_row WORK_KIND i e s) = assertHeadUnchanged p s"
  by (simp add: assertHeadUnchanged_def)

lemma fence_try_eq:
  assumes "hub_ok s" "\<forall>p. keeps_id (f p)"
  shows "withWriterFence (\<lambda>p. tryCasUpdate sha p i (f p)) s =
    (case read_pin s of Inl e \<Rightarrow> (Inl e, s) | Inr p \<Rightarrow> tryCasUpdate sha p i (f p) s)"
proof (cases "read_pin s")
  case (Inr p)
  obtain r s' where t: "tryCasUpdate sha p i (f p) s = (r, s')" by (cases "tryCasUpdate sha p i (f p) s")
  from assms(1) assms(2) [rule_format, of p] t have "assertHeadUnchanged p s' = Inr ()"
    using pin_head [OF Inr] by (cases rule: tryCasUpdate_cases) simp_all
  with Inr t show ?thesis by (simp add: withWriterFence_def split: sum.split)
qed (simp add: withWriterFence_def)

text \<open>What a verb that is one row transform does: it is refused and writes nothing, or it writes its row.\<close>

lemma fence_try_cases:
  assumes "withWriterFence (\<lambda>p. tryCasUpdate sha p i (f p)) s = (r, s')" "hub_ok s" "\<forall>p. keeps_id (f p)"
  obtains (refused) e where "r = Inl e" "s' = s"
  | (missing) "r = Inr None" "s' = s" "work_at i s = None"
  | (written) p w rv w' where "read_pin s = Inr p" "work_at i s = Some (w, rv)" "isCurrent sha w p" "f p s w rv = Inr w'"
      "r = Inr (Some (cloneWorkItem w'))" "s' = write_row WORK_KIND i (EWork w') s"
proof (cases "read_pin s")
  case (Inl e)
  with assms(1) fence_try_eq [OF assms(2,3)] have "r = Inl e" "s' = s" by simp_all
  then show ?thesis by (rule refused)
next
  case (Inr p)
  with assms(1) fence_try_eq [OF assms(2,3)] have "tryCasUpdate sha p i (f p) s = (r, s')" by simp
  with assms(2) assms(3) [rule_format, of p] show ?thesis
    by (rule tryCasUpdate_cases) (use that Inr in blast)+
qed

lemma row_verb_cases:
  assumes "row_verb sha i f s = (r, s')" "hub_ok s" "verb_transform sha now f"
  obtains (refused) e where "r = Inl e" "s' = s"
  | (missing) "r = Inr None" "s' = s" "work_at i s = None"
  | (written) p w rv w' where "read_pin s = Inr p" "work_at i s = Some (w, rv)" "isCurrent sha w p" "f s w rv = Inr w'"
      "r = Inr (Some (cloneWorkItem w'))" "s' = write_row WORK_KIND i (EWork w') s"
  using fence_try_cases [OF assms(1) [unfolded row_verb_def] assms(2)] verb_transform_keeps_id [OF assms(3)] by metis

end
