(* ===== verification/Verb_Facts.thy ===== *)
theory Verb_Facts
  imports Hub_System
begin

text \<open>
  The operations that are more than one row transform under the fence, characterised: they are refused and
  write nothing, or they have passed their checks and written one row.
\<close>

section \<open>The fence\<close>

lemma tryCas_head:
  assumes "hub_ok s" "keeps_id f" "tryCasUpdate sha p i f s = (r, s')"
  shows "get_head s' = get_head s"
  using assms by (cases rule: tryCasUpdate_cases) simp_all

lemma fence_cases:
  assumes "withWriterFence f s = (r, s')" and "\<forall>p r s'. f p s = (r, s') \<longrightarrow> get_head s' = get_head s"
  obtains (unpinned) e where "r = Inl e" "s' = s"
  | (run) p where "read_pin s = Inr p" "f p s = (r, s')"
proof (cases "read_pin s")
  case (Inl e)
  with assms(1) have "r = Inl e" "s' = s" by (simp_all add: withWriterFence_def)
  then show ?thesis by (rule unpinned)
next
  case (Inr p)
  obtain r1 s1 where f: "f p s = (r1, s1)" by (cases "f p s")
  have "assertHeadUnchanged p s1 = assertHeadUnchanged p s"
    using assms(2) f by (simp add: assertHeadUnchanged_def)
  with assms(1) Inr f pin_head [OF Inr] have "f p s = (r, s')"
    by (simp add: withWriterFence_def split: sum.splits)
  with Inr show ?thesis by (rule run)
qed

lemma fence_run:
  assumes "read_pin s = Inr p" "f p s = (r, s')" "get_head s' = get_head s"
  shows "withWriterFence f s = (r, s')"
  using assms pin_head [OF assms(1)] by (simp add: withWriterFence_def assertHeadUnchanged_def split: sum.split)

section \<open>Claim\<close>

lemma claimWorkItem_cases:
  assumes "claimWorkItem sha now uuid i a role s = (r, s')" "hub_ok s"
  obtains (refused) e where "r = Inl e" "s' = s"
  | (missing) "r = Inr None" "s' = s" "getWorkItem i s = None"
  | (written) p n w rv w' where "read_pin s = Inr p" "inFlightCount sha p a (wipCap role) s = Inr n" "n < wipCap role"
      "work_at i s = Some (w, rv)" "isCurrent sha w p" "unmetDependencies sha p (wi_dependsOn w) s = Inr []"
      "claim_row now uuid a role [] s w rv = Inr w'"
      "r = Inr (Some (cloneWorkItem w'))" "s' = write_row WORK_KIND i (EWork w') s"
proof -
  have head: "\<forall>p r s'. claim_under sha now uuid i a role p s = (r, s') \<longrightarrow> get_head s' = get_head s"
    using tryCas_head [OF assms(2) claim_keeps_id]
    by (auto simp: claim_under_def Let_def split: sum.splits if_splits option.splits)
  from assms(1) [unfolded claimWorkItem_def] head show ?thesis
  proof (cases rule: fence_cases)
    case (unpinned e)
    then show ?thesis by (rule refused)
  next
    case (run p)
    show ?thesis
    proof (cases "\<exists>n pre deps. inFlightCount sha p a (wipCap role) s = Inr n \<and> n < wipCap role \<and> get_work i s = Some pre \<and>
        unmetDependencies sha p (wi_dependsOn pre) s = Inr deps")
      case False
      with run(2) have "(\<exists>e. r = Inl e \<and> s' = s) \<or> r = Inr None \<and> s' = s \<and> get_work i s = None"
        by (auto simp: claim_under_def Let_def split: sum.splits if_splits option.splits)
      with refused missing show ?thesis by (auto simp: getWorkItem_def)
    next
      case True
      then obtain n pre deps where ok: "inFlightCount sha p a (wipCap role) s = Inr n" "n < wipCap role" "get_work i s = Some pre"
        "unmetDependencies sha p (wi_dependsOn pre) s = Inr deps" by blast
      with run(2) have t: "tryCasUpdate sha p i (claim_row now uuid a role deps) s = (r, s')"
        by (simp add: claim_under_def)
      from assms(2) claim_keeps_id t show ?thesis
      proof (cases rule: tryCasUpdate_cases)
        case missing
        with that(2) show ?thesis by (simp add: getWorkItem_def get_work_at)
      next
        case (error w rv e)
        with refused show ?thesis by blast
      next
        case (written w rv w')
        have "w = pre" using written(1) ok(3) by (simp add: get_work_at)
        moreover have "deps = []" using written(3) by (simp add: claim_row_Inr)
        ultimately show ?thesis using that(3) run(1) ok written by blast
      qed
    qed
  qed
qed

section \<open>Completion\<close>

lemma completeWork_cases:
  assumes "completeWork sha now i a t evidence friction s = (r, s')" "hub_ok s"
  obtains (refused) e where "r = Inl e" "s' = s"
  | (missing) "r = Inr None" "s' = s" "getWorkItem i s = None"
  | (written) p w rv w' where "read_pin s = Inr p" "work_at i s = Some (w, rv)" "isCurrent sha w p"
      "complete_checks sha p w a t evidence s = Inr ()" "complete_row now a t evidence friction s w rv = Inr w'"
      "r = Inr (Some (cloneWorkItem w', friction = None))" "s' = write_row WORK_KIND i (EWork w') s"
proof -
  have ids: "keeps_id (complete_row now a t evidence friction)"
    by (rule verb_transform_keeps_id [OF transform_steps(10)])
  have head: "\<forall>p r s'. complete_under sha now i a t evidence friction p s = (r, s') \<longrightarrow> get_head s' = get_head s"
    using tryCas_head [OF assms(2) ids]
    by (auto simp: complete_under_def split: sum.splits option.splits prod.splits)
  from assms(1) [unfolded completeWork_def] head show ?thesis
  proof (cases rule: fence_cases)
    case (unpinned e)
    then show ?thesis by (rule refused)
  next
    case (run p)
    show ?thesis
    proof (cases "\<exists>item. get_work i s = Some item \<and> complete_checks sha p item a t evidence s = Inr ()")
      case False
      with run(2) have "(\<exists>e. r = Inl e \<and> s' = s) \<or> r = Inr None \<and> s' = s \<and> get_work i s = None"
        by (auto simp: complete_under_def split: sum.splits option.splits)
      with refused missing show ?thesis by (auto simp: getWorkItem_def)
    next
      case True
      then obtain item where ok: "get_work i s = Some item" "complete_checks sha p item a t evidence s = Inr ()" by blast
      obtain r1 s1 where t: "tryCasUpdate sha p i (complete_row now a t evidence friction) s = (r1, s1)"
        by (cases "tryCasUpdate sha p i (complete_row now a t evidence friction) s")
      from assms(2) ids t show ?thesis
      proof (cases rule: tryCasUpdate_cases)
        case missing
        with ok(1) show ?thesis by (simp add: get_work_at)
      next
        case (error w rv e)
        with run(2) ok t have "r = Inl e" "s' = s" by (simp_all add: complete_under_def)
        then show ?thesis by (rule refused)
      next
        case (written w rv w')
        have "w = item" using written(1) ok(1) by (simp add: get_work_at)
        moreover from run(2) ok t written have "r = Inr (Some (cloneWorkItem w', friction = None))"
          "s' = write_row WORK_KIND i (EWork w') s" by (auto simp: complete_under_def)
        ultimately show ?thesis using that(3) run(1) ok written by blast
      qed
    qed
  qed
qed

section \<open>Attestation\<close>

lemma map_res_Inl: "map_res f xs = Inl e \<Longrightarrow> \<exists>x \<in> set xs. f x = Inl e"
  by (induction xs) (auto simp: res_bind_Inl_iff)

lemma not_idempotent_current: "assertCurrent sha w p \<noteq> Inl (IdempotentFailedSeal w0)"
  by (auto simp: assertCurrent_def res_bind_Inl_iff lift_contract_def dest!: map_res_Inl split: pin.splits option.splits if_splits sum.splits)

lemma not_idempotent_projection [simp]: "getCurrentProjectionItem sha p l s \<noteq> Inl (IdempotentFailedSeal w0)"
  using not_idempotent_current [of sha _ p w0]
  by (auto simp: getCurrentProjectionItem_def split: pin.splits option.splits sum.splits wi_error.splits)

lemma not_idempotent_parents [simp]: "parentsAwaitingCompletion sha p l s \<noteq> Inl (IdempotentFailedSeal w0)"
  by (cases p) (auto simp: parentsAwaitingCompletion_def res_bind_Inl_iff dest!: map_res_Inl split: option.splits if_splits)

lemma not_idempotent_exclusion: "selfAttestationExclusionFor sha p w s \<noteq> Inl (IdempotentFailedSeal w0)"
  by (auto simp: res_bind_Inl_iff selfAttestationExclusionFor_def attestation_targets_def Let_def
      split: option.splits if_splits prod.splits)

lemma not_idempotent_checks: "attest_checks sha p w rq v verdict refs s \<noteq> Inl (IdempotentFailedSeal w0)"
  using not_idempotent_exclusion [of sha p w s w0]
  by (auto simp: attest_checks_def res_bind_Inl_iff split: option.splits if_splits list.splits)

lemma attestEvidence_cases:
  assumes "attestEvidence sha now i rq v verdict refs s = (r, s')" "hub_ok s"
  obtains (refused) e where "r = Inl e" "s' = s"
  | (replay) p w rv seal where "read_pin s = Inr p" "work_at i s = Some (w, rv)" "wi_failedGateSeal w = Some seal"
      "verdict = Fail" "fs_operationId seal = failedGateOperationId sha i rq v verdict refs"
      "r = Inr (w, active_attestation w rq)" "s' = s"
  | (written) p w rv w' where "read_pin s = Inr p" "work_at i s = Some (w, rv)" "isCurrent sha w p"
      "refs \<noteq> []" "attest_row sha now p i rq v verdict refs s w rv = Inr w'"
      "r = Inr (cloneWorkItem w', active_attestation (cloneWorkItem w') rq)" "s' = write_row WORK_KIND i (EWork w') s"
proof -
  have ids: "keeps_id (attest_row sha now p i rq v verdict refs)" for p
    by (rule verb_transform_keeps_id [OF transform_steps(15)])
  have head: "\<forall>p r s'. attest_under sha now i rq v verdict refs p s = (r, s') \<longrightarrow> get_head s' = get_head s"
  proof (intro allI impI)
    fix p r s'
    assume run: "attest_under sha now i rq v verdict refs p s = (r, s')"
    obtain r1 s1 where t: "tryCasUpdate sha p i (attest_row sha now p i rq v verdict refs) s = (r1, s1)"
      by (cases "tryCasUpdate sha p i (attest_row sha now p i rq v verdict refs) s")
    with run have "s' = s \<or> s' = s1"
      by (auto simp: attest_under_def split: sum.splits wi_error.splits option.splits)
    with tryCas_head [OF assms(2) ids t] show "get_head s' = get_head s" by auto
  qed
  from assms(1) [unfolded attestEvidence_def] head show ?thesis
  proof (cases rule: fence_cases)
    case (unpinned e)
    then show ?thesis by (rule refused)
  next
    case (run p)
    show ?thesis
    proof (cases "attest_pre sha p i refs s")
      case (Inl e)
      with run(2) have "r = Inl e" "s' = s" by (simp_all add: attest_under_def)
      then show ?thesis by (rule refused)
    next
      case (Inr pre)
      then have refs: "refs \<noteq> []" and pre: "get_work i s = Some pre"
        by (auto simp: attest_pre_def res_bind_Inr_iff split: if_splits option.splits)
      obtain r1 s1 where t: "tryCasUpdate sha p i (attest_row sha now p i rq v verdict refs) s = (r1, s1)"
        by (cases "tryCasUpdate sha p i (attest_row sha now p i rq v verdict refs) s")
      from assms(2) ids t show ?thesis
      proof (cases rule: tryCasUpdate_cases)
        case missing
        with pre show ?thesis by (simp add: get_work_at)
      next
        case (error w rv e)
        show ?thesis
        proof (cases "\<exists>w0. e = IdempotentFailedSeal w0")
          case False
          with run(2) Inr t error have "r = Inl e" "s' = s"
            by (auto simp: attest_under_def split: wi_error.splits)
          then show ?thesis by (rule refused)
        next
          case True
          then obtain w0 where w0: "e = IdempotentFailedSeal w0" ..
          have "r = Inr (w0, active_attestation w0 rq)" "s' = s"
            using run(2) Inr t error w0 by (simp_all add: attest_under_def)
          moreover have "assertCurrent sha w p \<noteq> Inl e"
            using w0 not_idempotent_current by blast
          with error(4) have "attest_row sha now p i rq v verdict refs s w rv = Inl e" by blast
          then obtain seal where "wi_failedGateSeal w = Some seal" "verdict = Fail"
            "fs_operationId seal = failedGateOperationId sha i rq v verdict refs" "w0 = w"
            using w0 not_idempotent_checks by (auto simp: attest_row_def Let_def res_bind_Inl_iff split: option.splits if_splits)
          ultimately show ?thesis using replay run(1) error(1) by simp
        qed
      next
        case (written w rv w')
        with run(2) Inr t have "r = Inr (cloneWorkItem w', active_attestation (cloneWorkItem w') rq)"
          "s' = write_row WORK_KIND i (EWork w') s" by (simp_all add: attest_under_def)
        with that(3) run(1) written refs show ?thesis by blast
      qed
    qed
  qed
qed

lemma attest_run:
  assumes "hub_ok s" "read_pin s = Inr p" "work_at i s = Some (w, rv)" "isCurrent sha w p"
    "refs \<noteq> []" "\<forall>r \<in> set refs. js_trim (ar_ref r) \<noteq> []" "attest_row sha now p i rq v verdict refs s w rv = Inr w'"
  shows "attestEvidence sha now i rq v verdict refs s =
    (Inr (cloneWorkItem w', active_attestation (cloneWorkItem w') rq), write_row WORK_KIND i (EWork w') s)"
proof -
  have ids: "keeps_id (attest_row sha now p i rq v verdict refs)"
    by (rule verb_transform_keeps_id [OF transform_steps(15)])
  obtain b where b: "assertCurrent sha w p = Inr b" using assms(4) by (auto simp: isCurrent_def is_ok_iff)
  then have "attest_pre sha p i refs s = Inr w"
    using assms(3,5,6) by (auto simp: attest_pre_def get_work_at list_ex_iff)
  moreover have "tryCasUpdate sha p i (attest_row sha now p i rq v verdict refs) s =
      (Inr (Some (cloneWorkItem w')), write_row WORK_KIND i (EWork w') s)"
    using assms(3,7) b by (simp add: tryCasUpdate_eq [OF assms(1) ids])
  ultimately have "attest_under sha now i rq v verdict refs p s =
      (Inr (cloneWorkItem w', active_attestation (cloneWorkItem w') rq), write_row WORK_KIND i (EWork w') s)"
    by (simp add: attest_under_def)
  then show ?thesis unfolding attestEvidence_def by (rule fence_run [OF assms(2)]) simp
qed

section \<open>Expiry\<close>

lemma expireLease_cases:
  assumes "expireLease sha now i cap s = (r, s')" "hub_ok s"
  obtains (refused) e where "r = Inl e" "s' = s"
  | (skipped) "r = Inr Skipped" "s' = s"
  | (swept) p w rv w' where "read_pin s = Inr p" "work_at i s = Some (w, rv)" "isCurrent sha w p"
      "expire_row sha now cap p w rv = Inr w'"
      "r = Inr (outcome_of (wi_status w'))" "s' = write_row WORK_KIND i (EWork w') s"
proof -
  have head: "\<forall>p r s'. expire_under sha now i cap p s = (r, s') \<longrightarrow> get_head s' = get_head s"
    by (auto simp: expire_under_eq [OF assms(2)] split: option.splits sum.splits)
  from assms(1) [unfolded expireLease_def] head show ?thesis
  proof (cases rule: fence_cases)
    case (unpinned e)
    then show ?thesis by (rule refused)
  next
    case (run p)
    show ?thesis
    proof (cases "\<exists>w rv w'. work_at i s = Some (w, rv) \<and> expire_decision sha now cap p w rv = Inr w'")
      case True
      then obtain w rv w' where w: "work_at i s = Some (w, rv)" "expire_decision sha now cap p w rv = Inr w'" by blast
      then have "isCurrent sha w p" "expire_row sha now cap p w rv = Inr w'"
        by (cases "assertCurrent sha w p", auto simp: expire_decision_def res_bind_Inr_iff isCurrent_def)+
      moreover have "r = Inr (outcome_of (wi_status w'))" "s' = write_row WORK_KIND i (EWork w') s"
        using run(2) w by (simp_all add: expire_under_eq [OF assms(2)])
      ultimately show ?thesis using swept run(1) w(1) by blast
    next
      case False
      with run(2) have "s' = s \<and> (r = Inr Skipped \<or> (\<exists>e. r = Inl e))"
        by (auto simp: expire_under_eq [OF assms(2)] split: option.splits sum.splits)
      with refused skipped show ?thesis by blast
    qed
  qed
qed

section \<open>Pause\<close>

lemma pauseWork_cases:
  assumes "pauseWork sha now q a s = (r, s')" "hub_ok s"
  obtains (refused) e where "r = Inl e" "s' = s"
  | (missing) "r = Inr None" "s' = s"
  | (replay) w where "r = Inr (Some (w, True))" "s' = s"
  | (written) p i w rv w' where "read_pin s = Inr p" "js_trim (pq_operationId q) \<noteq> []" "js_trim (pq_reason q) \<noteq> []"
      "resolvePauseLocator p (pq_workId q) (pq_logicalId q) = Inr i"
      "work_at i s = Some (w, rv)" "isCurrent sha w p" "pause_row sha now p i q a s w rv = Inr w'"
      "r = Inr (Some (cloneWorkItem w', False))" "s' = write_row WORK_KIND i (EWork w') s"
proof -
  have ids: "keeps_id (pause_row sha now p i q a)" for p i
    by (rule verb_transform_keeps_id [OF transform_steps(11)])
  have head: "\<forall>p r s'. pause_under sha now q a p s = (r, s') \<longrightarrow> get_head s' = get_head s"
  proof (intro allI impI)
    fix p r s'
    assume run: "pause_under sha now q a p s = (r, s')"
    show "get_head s' = get_head s"
    proof (cases "resolvePauseLocator p (pq_workId q) (pq_logicalId q)")
      case (Inl e)
      with run show ?thesis by (auto simp: pause_under_def split: if_splits)
    next
      case (Inr i)
      obtain r1 s1 where t: "tryCasUpdate sha p i (pause_row sha now p i q a) s = (r1, s1)"
        by (cases "tryCasUpdate sha p i (pause_row sha now p i q a) s")
      with run Inr have "s' = s \<or> s' = s1"
        by (auto simp: pause_under_def split: if_splits sum.splits wi_error.splits)
      with tryCas_head [OF assms(2) ids t] show ?thesis by auto
    qed
  qed
  from assms(1) [unfolded pauseWork_def] head show ?thesis
  proof (cases rule: fence_cases)
    case (unpinned e)
    then show ?thesis by (rule refused)
  next
    case (run p)
    show ?thesis
    proof (cases "js_trim (pq_operationId q) = [] \<or> js_trim (pq_reason q) = [] \<or>
        (\<exists>e. resolvePauseLocator p (pq_workId q) (pq_logicalId q) = Inl e)")
      case True
      with run(2) have "\<exists>e. r = Inl e \<and> s' = s" by (auto simp: pause_under_def split: if_splits)
      with refused show ?thesis by blast
    next
      case False
      then obtain i where i: "resolvePauseLocator p (pq_workId q) (pq_logicalId q) = Inr i"
        by (cases "resolvePauseLocator p (pq_workId q) (pq_logicalId q)") auto
      obtain r1 s1 where t: "tryCasUpdate sha p i (pause_row sha now p i q a) s = (r1, s1)"
        by (cases "tryCasUpdate sha p i (pause_row sha now p i q a) s")
      with run(2) False i have res: "(r, s') = (case r1 of Inl (IdempotentRecall w) \<Rightarrow> (Inr (Some (w, True)), s1)
          | Inl e \<Rightarrow> (Inl e, s1) | Inr x \<Rightarrow> (Inr (map_option (\<lambda>w. (w, False)) x), s1))"
        by (auto simp: pause_under_def split: sum.splits wi_error.splits)
      from assms(2) ids t show ?thesis
      proof (cases rule: tryCasUpdate_cases)
        case missing
        with res that(2) show ?thesis by simp
      next
        case (error w rv e)
        with res refused replay show ?thesis by (cases e) simp_all
      next
        case (written w rv w')
        with res have "r = Inr (Some (cloneWorkItem w', False))" "s' = write_row WORK_KIND i (EWork w') s" by simp_all
        with that(4) run(1) False i written show ?thesis by blast
      qed
    qed
  qed
qed

section \<open>Edits\<close>

lemma updateWorkItem_cases:
  assumes "updateWorkItem sha now i a m h s = (r, s')" "hub_ok s"
  obtains (refused) e where "r = Inl e" "s' = s"
  | (written) p w rv w' where "read_pin s = Inr p" "work_at i s = Some (w, rv)" "set_keys m \<noteq> [] \<or> has_appends m"
      "update_row sha now p a m False h w = Inr w'"
      "r = Inr (w, cloneWorkItem w')" "s' = write_row WORK_KIND i (EWork w') s"
proof -
  have cases: "(\<exists>e. r = Inl e) \<and> s' = s \<or> (\<exists>w rv w'. work_at i s = Some (w, rv) \<and> (set_keys m \<noteq> [] \<or> has_appends m) \<and>
      update_row sha now p a m seam h w = Inr w' \<and> r = Inr (w, cloneWorkItem w') \<and> s' = write_row WORK_KIND i (EWork w') s)"
    if run: "applyWorkItemMutation sha now i a m seam h p s = (r, s')" for p seam r s'
  proof (cases "find_row s WORK_KIND i")
    case None
    with run show ?thesis by (auto simp: applyWorkItemMutation_def getWithRevision_def split: if_splits)
  next
    case (Some x)
    obtain w0 where w0: "row_data x = EWork w0" "wi_id w0 = i" "i \<noteq> []" using hub_ok_row [OF assms(2) Some] by blast
    then have at: "work_at i s = Some (cloneWorkItem w0, row_rv x)" using Some by (simp add: work_at_def)
    show ?thesis
    proof (cases "update_row sha now p a m seam h (cloneWorkItem w0)")
      case (Inl e)
      with run Some w0 show ?thesis by (auto simp: applyWorkItemMutation_def getWithRevision_def split: if_splits)
    next
      case (Inr w')
      have "wi_id w' = i" using row_step_id [OF rs_update [OF Inr]] w0(2) by simp
      then have "putIfMatch ident WORK_KIND (EWork w') (row_rv x) s =
          Inr (Written (Suc (revisionCounter s)), write_row WORK_KIND i (EWork w') s)"
        using putIfMatch_found [OF hub_ok_plain [OF assms(2)] _ w0(3) _ Some, of ident "EWork w'"] by simp
      with run Some w0 Inr at show ?thesis
        by (auto simp: applyWorkItemMutation_def getWithRevision_def split: if_splits)
    qed
  qed
  have head: "\<forall>p r s'. applyWorkItemMutation sha now i a m False h p s = (r, s') \<longrightarrow> get_head s' = get_head s"
    using cases by fastforce
  from assms(1) [unfolded updateWorkItem_def] head show ?thesis
  proof (cases rule: fence_cases)
    case (unpinned e)
    then show ?thesis by (rule refused)
  next
    case (run p)
    with cases [OF run(2)] refused written show ?thesis by blast
  qed
qed

end
