(* ===== verification/Demo_Hub.thy ===== *)
theory Demo_Hub
  imports Verb_Facts
begin

text \<open>
  A small hub on which the witnesses run: a verifier, an item created by the operations themselves and the
  claim, start, completion and attestation of that item.  The hash keeps the first three characters: the runs need no collision freedom, and short digests
  keep the rows small enough to evaluate.
\<close>

definition demo_sha :: sha256 where
  "demo_sha s = take 3 s"

definition demo_agent :: "agent_id \<Rightarrow> string \<Rightarrow> agent" where
  "demo_agent i role =
     \<lparr>ag_id = i, ag_fingerprint = i, ag_role = role, ag_status = AgOffline, ag_archived = False, ag_sessionEpoch = 0,
      ag_currentSessionId = None, ag_registeredSessions = [],
      ag_clientMetadata = \<lparr>am_clientName = ''c'', am_clientVersion = ''1'', am_proxyName = ''p'', am_proxyVersion = ''1'',
        am_transport = None, am_sdkVersion = None, am_hostname = None, am_platform = None, am_pid = None,
        am_proxyCommitSha = None, am_proxyDirty = None, am_sdkCommitSha = None, am_sdkDirty = None\<rparr>,
      ag_advisoryTags = \<lparr>at_llmModel = None, at_sdkVersion = None, at_shimVersion = None, at_proxyCommitSha = None,
        at_proxyDirty = None, at_sdkCommitSha = None, at_sdkDirty = None, at_others = []\<rparr>,
      ag_labels = [], ag_firstSeenAt = 0, ag_lastSeenAt = 0, ag_livenessState = LvOffline, ag_lastHeartbeatAt = 0,
      ag_receiptSla = 60000, ag_wakeEndpoint = None, ag_name = i, ag_activityState = AcOffline,
      ag_sessionStartedAt = None, ag_lastToolCallAt = None, ag_lastToolCallName = None, ag_idleSince = None,
      ag_workingSince = None, ag_quotaBlockedUntil = None, ag_adapterVersion = [], ag_ipAddress = None,
      ag_restartCount = 0, ag_recentErrors = [], ag_restartHistoryMs = [], ag_cognitiveTTL = None,
      ag_transportTTL = None, ag_cognitiveState = CsUnknown, ag_transportState = CsUnknown, ag_livenessConfig = None,
      ag_pulseConfig = None, ag_thrashCount = 0, ag_quarantined = False\<rparr>"

definition demo_base :: hub_store where
  "demo_base = write_row ''Agent'' ''vera'' (EAgent (demo_agent ''vera'' ''verifier'')) empty_substrate"

definition demo_creator :: actor where
  "demo_creator = \<lparr>ac_role = ''architect'', ac_agentId = ''arch''\<rparr>"

definition demo_input :: create_input where
  "demo_input =
     \<lparr>ci_type = TaskItem, ci_priority = None, ci_roleEligibility = [], ci_dependsOn = None,
      ci_completionDependsOn = None,
      ci_evidenceRequirements = Some
        [\<lparr>er_id = ''r1'', er_kind = EkFreeform, er_description = None, er_refResolvable = None,
          er_allowPreClaim = None, er_evidenceAuthority = Some VerifierAttestation\<rparr>],
      ci_runbook = None, ci_references = None, ci_leaseWindowMs = None, ci_targetRef = None, ci_payload = None,
      ci_nodeConfig = None, ci_createdBy = Some demo_creator\<rparr>"

definition hub_1 :: hub_store where
  "hub_1 = snd (createWorkItem 100 demo_input demo_base)"

definition hub_2 :: hub_store where
  "hub_2 = snd (claimWorkItem demo_sha 200 ''tok'' ''work-1'' ''eng'' None hub_1)"

definition hub_3 :: hub_store where
  "hub_3 = snd (startWork demo_sha 300 ''work-1'' ''eng'' ''tok'' hub_2)"

definition demo_submission :: evidence_item where
  "demo_submission =
     \<lparr>ei_requirementId = ''extra'', ei_kind = EkFreeform, ei_ref = Some ''e1'', ei_producedAt = Stamp ''t350'' (Some 350),
      ei_note = None, ei_producedBy = None\<rparr>"

definition demo_friction :: friction_input where
  "demo_friction = \<lparr>fi_observed = False, fi_summary = None, fi_categories = None, fi_suggestedFollowUp = None\<rparr>"

definition hub_4 :: hub_store where
  "hub_4 = snd (completeWork demo_sha 400 ''work-1'' ''eng'' ''tok'' [demo_submission] (Some demo_friction) hub_3)"

definition demo_ref :: attestation_ref where
  "demo_ref = \<lparr>ar_kind = RefEvidence, ar_ref = ''e1''\<rparr>"

definition hub_pass :: hub_store where
  "hub_pass = snd (attestEvidence demo_sha 500 ''work-1'' ''r1'' ''vera'' Pass [demo_ref] hub_4)"

definition hub_fail :: hub_store where
  "hub_fail = snd (attestEvidence demo_sha 500 ''work-1'' ''r1'' ''vera'' Fail [demo_ref] hub_4)"

section \<open>The demo hub is a run\<close>

definition demo_row :: "hub_store \<Rightarrow> work_item" where
  "demo_row s = the (getWorkItem ''work-1'' s)"

lemma demo_base_run: "hub_run demo_sha 100 demo_base"
  using run_event [OF run_start, of demo_sha 100 "OtherPut ''Agent'' ''vera'' (EAgent (demo_agent ''vera'' ''verifier''))"]
  by (simp add: demo_base_def WORK_KIND_def)

lemma hub_1_run: "hub_run demo_sha 100 hub_1"
  using run_event [OF demo_base_run, of "Request (RCreate demo_input)"] by (simp add: hub_1_def)

lemma hub_2_run: "hub_run demo_sha 200 hub_2"
  using run_event [OF run_wait [OF hub_1_run, of 200], of "Request (RClaim ''tok'' ''work-1'' ''eng'' None)"]
  by (simp add: hub_2_def)

lemma hub_3_run: "hub_run demo_sha 300 hub_3"
  using run_event [OF run_wait [OF hub_2_run, of 300], of "Request (RStart ''work-1'' ''eng'' ''tok'')"]
  by (simp add: hub_3_def)

lemma hub_4_run: "hub_run demo_sha 400 hub_4"
  using run_event [OF run_wait [OF hub_3_run, of 400],
    of "Request (RComplete ''work-1'' ''eng'' ''tok'' [demo_submission] (Some demo_friction))"]
  by (simp add: hub_4_def)

lemma hub_pass_run: "hub_run demo_sha 500 hub_pass"
  using run_event [OF run_wait [OF hub_4_run, of 500], of "Request (RAttest ''work-1'' ''r1'' ''vera'' Pass [demo_ref])"]
  by (simp add: hub_pass_def)

lemma hub_fail_run: "hub_run demo_sha 500 hub_fail"
  using run_event [OF run_wait [OF hub_4_run, of 500], of "Request (RAttest ''work-1'' ''r1'' ''vera'' Fail [demo_ref])"]
  by (simp add: hub_fail_def)

lemma hub_1_row: "getWorkItem ''work-1'' hub_1 = Some (demo_row hub_1)" "wi_status (demo_row hub_1) = Ready"
proof -
  have "getWorkItem ''work-1'' hub_1 \<noteq> None" by code_simp
  then show "getWorkItem ''work-1'' hub_1 = Some (demo_row hub_1)" by (simp add: demo_row_def)
qed code_simp

lemma hub_3_row: "getWorkItem ''work-1'' hub_3 = Some (demo_row hub_3)" "wi_status (demo_row hub_3) = InProgress"
proof -
  have "getWorkItem ''work-1'' hub_3 \<noteq> None" by code_simp
  then show "getWorkItem ''work-1'' hub_3 = Some (demo_row hub_3)" by (simp add: demo_row_def)
qed code_simp

lemma hub_4_row: "getWorkItem ''work-1'' hub_4 = Some (demo_row hub_4)" "wi_status (demo_row hub_4) = Review"
proof -
  have "getWorkItem ''work-1'' hub_4 \<noteq> None" by code_simp
  then show "getWorkItem ''work-1'' hub_4 = Some (demo_row hub_4)" by (simp add: demo_row_def)
qed code_simp

lemma hub_4_clean: "wi_failedGateSeal (demo_row hub_4) = None" "\<not> hasActiveVerifierFail (demo_row hub_4)"
  by code_simp+

lemma hub_4_legacy: "read_pin hub_4 = Inr LegacyPin"
  by code_simp

lemma hub_4_checks:
  "is_ok (attest_checks demo_sha LegacyPin (demo_row hub_4) ''r1'' ''vera'' Fail [demo_ref] hub_4)"
  by code_simp

text \<open>The sealed row is too large to evaluate in one go; its fields follow from what a FAIL does.\<close>

lemma hub_fail_row:
  "getWorkItem ''work-1'' hub_fail = Some (demo_row hub_fail)" "wi_status (demo_row hub_fail) = FailedSealed"
  "wi_failedGateSeal (demo_row hub_fail) \<noteq> None" "isFailedGateSealed (demo_row hub_fail)"
proof -
  obtain req where req: "attest_checks demo_sha LegacyPin (demo_row hub_4) ''r1'' ''vera'' Fail [demo_ref] hub_4 = Inr req"
    using hub_4_checks by (auto simp: is_ok_iff)
  obtain rv where w: "work_at ''work-1'' hub_4 = Some (demo_row hub_4, rv)"
    by (rule run_get [OF hub_4_run hub_4_row(1)])
  obtain w' where w': "attest_row demo_sha 500 LegacyPin ''work-1'' ''r1'' ''vera'' Fail [demo_ref] hub_4 (demo_row hub_4) rv = Inr w'"
    "wi_status w' = FailedSealed" "wi_failedGateSeal w' \<noteq> None"
    using req hub_4_clean by (simp add: attest_row_Inr)
  have "js_trim (ar_ref demo_ref) \<noteq> []" by code_simp
  then have fail: "hub_fail = write_row WORK_KIND ''work-1'' (EWork w') hub_4"
    using attest_run [OF run_ok [OF hub_4_run] hub_4_legacy w _ _ _ w'(1)] by (simp add: hub_fail_def isCurrent_def)
  have "getWorkItem ''work-1'' hub_fail = Some (cloneWorkItem w')" unfolding fail by (simp add: getWorkItem_def get_work_at)
  with w' show "getWorkItem ''work-1'' hub_fail = Some (demo_row hub_fail)" "wi_status (demo_row hub_fail) = FailedSealed"
    "wi_failedGateSeal (demo_row hub_fail) \<noteq> None" "isFailedGateSealed (demo_row hub_fail)"
    by (simp_all add: demo_row_def isFailedGateSealed_def)
qed

end
