(* ===== verification/Work_Safety.thy ===== *)
theory Work_Safety
  imports Demo_Hub
begin

text \<open>
  What holds of every row in every run of the hub, whatever the clients request and in whatever order: the
  lease discipline, the integrity of seals and attestations, blockers and suspension, and time accounting.
\<close>

section \<open>Invariants of every run\<close>

lemma run_invariant:
  assumes "row_invariant sha I" "hub_run sha t s" "getWorkItem i s = Some w"
  shows "I t w"
proof -
  obtain rv where "work_at i s = Some (w, rv)" by (rule run_get [OF assms(2,3)])
  with row_invariant.reachable_work [OF assms(1) run_reachable [OF assms(2)]] show ?thesis .
qed

text \<open>
  C5: the lease discipline.  In every run a row in a working phase (claimed, in progress, blocked, review) has
  exactly the lease of some agent, a row that is ready, abandoned or sealed has none, no row is ever in
  the legacy paused phase, and the holder of a lease is on the row's record of executors, which has no repetitions.
\<close>

theorem lease_discipline:
  assumes "hub_run sha t s" "getWorkItem i s = Some w"
  shows "(wi_status w \<in> {Claimed, InProgress, Blocked, Review} \<longrightarrow> wi_lease w \<noteq> None) \<and>
    (wi_status w \<in> {Ready, Abandoned, FailedSealed} \<longrightarrow> wi_lease w = None) \<and>
    wi_status w \<noteq> Paused \<and> (\<forall>l. wi_lease w = Some l \<longrightarrow> le_holder l \<in> set (wi_executorHistory w)) \<and>
    distinct (wi_executorHistory w)"
  using run_invariant [OF lease_inv.row_invariant_axioms assms] unfolding lease_ok_def .

theorem lease_discipline_witness:
  "wi_lease (demo_row hub_4) \<noteq> None \<and> wi_lease (demo_row hub_fail) = None"
  using lease_discipline [OF hub_4_run hub_4_row(1)] lease_discipline [OF hub_fail_run hub_fail_row(1)]
    hub_4_row(2) hub_fail_row(2) by simp

text \<open>
  C33: the integrity of seals and attestations.  In every run a row counts as sealed exactly when it carries a
  seal, exactly when it is in the sealed phase; and the active attestation of every requirement is the last
  one recorded for it in the row's history.
\<close>

theorem seal_integrity:
  assumes "hub_run sha t s" "getWorkItem i s = Some w"
  shows "(isFailedGateSealed w \<longleftrightarrow> wi_failedGateSeal w \<noteq> None) \<and> (isFailedGateSealed w \<longleftrightarrow> wi_status w = FailedSealed) \<and>
    (\<forall>r. active_attestation w r = at_last (filter (\<lambda>a. at_requirementId a = r) (wi_attestationHistory w)))"
proof -
  have "seal_ok w" using run_invariant [OF seal_inv.row_invariant_axioms assms] .
  moreover have "isFailedGateSealed w \<longleftrightarrow> wi_failedGateSeal w \<noteq> None" "isFailedGateSealed w \<longleftrightarrow> wi_status w = FailedSealed"
    using calculation failed_is_sealed [of w] unfolding seal_ok_def by blast+
  ultimately show ?thesis unfolding seal_ok_def projection_ok_def by blast
qed

theorem seal_integrity_witness:
  "isFailedGateSealed (demo_row hub_fail) \<and> \<not> isFailedGateSealed (demo_row hub_4)"
  using seal_integrity [OF hub_fail_run hub_fail_row(1), THEN conjunct2, THEN conjunct1]
    seal_integrity [OF hub_4_run hub_4_row(1), THEN conjunct2, THEN conjunct1] hub_fail_row(2) hub_4_row(2)
  by (simp only: phase.distinct simp_thms)

text \<open>
  Blockers and suspension.  In every run only a blocked row that is not suspended names what blocks it; a
  blocked row that was never suspended does name it; and a suspended row is in a phase it can resume.
\<close>

theorem blockers_and_suspension:
  assumes "hub_run sha t s" "getWorkItem i s = Some w"
  shows "(wi_blockedOn w \<noteq> None \<longrightarrow> wi_status w = Blocked \<and> \<not> isParkedFromExecution w) \<and>
    (wi_status w = Blocked \<and> wi_suspended w = None \<longrightarrow> wi_blockedOn w \<noteq> None) \<and>
    (isParkedFromExecution w \<longrightarrow> wi_status w \<in> {Ready, Claimed, InProgress, Blocked})"
proof -
  have "block_ok w" using run_invariant [OF block_inv.row_invariant_axioms assms] by simp
  moreover have "wi_status w \<noteq> Paused"
    using run_invariant [OF lease_inv.row_invariant_axioms assms] by (simp add: lease_ok_def)
  ultimately show ?thesis by (auto simp: block_ok_def isParkedFromExecution_def)
qed

theorem blockers_and_suspension_witness:
  "wi_blockedOn (demo_row hub_4) = None \<and> \<not> isParkedFromExecution (demo_row hub_4)"
  using blockers_and_suspension [OF hub_4_run hub_4_row(1)] hub_4_row(2) by auto

text \<open>
  C4: no time is lost or counted twice.  In every run the durations a row has accumulated over its phases add up to
  exactly the time from its creation to its entry into the current phase, and neither lies in the future.
\<close>

theorem time_conservation:
  assumes "hub_run sha t s" "getWorkItem i s = Some w"
  shows "wi_createdAt w \<le> wi_enteredCurrentStateAt w \<and> wi_enteredCurrentStateAt w \<le> t \<and>
    sd_ready (wi_stateDurations w) + sd_claimed (wi_stateDurations w) + sd_in_progress (wi_stateDurations w) +
    sd_blocked (wi_stateDurations w) + sd_paused (wi_stateDurations w) + sd_review (wi_stateDurations w) =
      wi_enteredCurrentStateAt w - wi_createdAt w"
  using run_invariant [OF time_inv.row_invariant_axioms assms] unfolding time_ok_def total_time_def .

theorem time_conservation_witness:
  "wi_enteredCurrentStateAt (demo_row hub_4) \<le> 400 \<and>
   sd_ready (wi_stateDurations (demo_row hub_4)) + sd_claimed (wi_stateDurations (demo_row hub_4)) +
   sd_in_progress (wi_stateDurations (demo_row hub_4)) + sd_blocked (wi_stateDurations (demo_row hub_4)) +
   sd_paused (wi_stateDurations (demo_row hub_4)) + sd_review (wi_stateDurations (demo_row hub_4)) =
     wi_enteredCurrentStateAt (demo_row hub_4) - wi_createdAt (demo_row hub_4)"
  using time_conservation [OF hub_4_run hub_4_row(1)] by simp

end
