(* ===== verification/Work_Lifetime.thy ===== *)
theory Work_Lifetime
  imports Work_Safety "HOL-Library.Sublist"
begin

text \<open>
  What a row keeps for as long as it exists: a seal is final, the record of who executed a row and what was
  said about it only grows, and the identity of a row never changes.
\<close>

section \<open>A seal is final\<close>

definition row_sound :: "work_item \<Rightarrow> bool" where
  "row_sound w \<longleftrightarrow> lease_ok w \<and> seal_ok w"

lemma reachable_sound: "reachable_hub sha t s \<Longrightarrow> work_at i s = Some (w, rv) \<Longrightarrow> row_sound w"
  using lease_inv.reachable_work seal_inv.reachable_work by (simp add: row_sound_def)

lemma sealed_sound: "row_sound w \<Longrightarrow> isFailedGateSealed w \<Longrightarrow> wi_status w = FailedSealed \<and> wi_lease w = None \<and> wi_failedGateSeal w \<noteq> None"
  by (auto simp: row_sound_def seal_ok_def lease_ok_def)

definition same_verdict :: "work_item \<Rightarrow> work_item \<Rightarrow> bool" where
  "same_verdict w w' \<longleftrightarrow>
     isFailedGateSealed w' \<and> wi_failedGateSeal w' = wi_failedGateSeal w \<and> wi_status w' = wi_status w \<and>
     wi_lease w' = wi_lease w \<and> wi_evidenceRequirements w' = wi_evidenceRequirements w \<and> wi_evidence w' = wi_evidence w \<and>
     wi_attestations w' = wi_attestations w \<and> wi_attestationHistory w' = wi_attestationHistory w \<and>
     wi_executorHistory w' = wi_executorHistory w \<and> wi_recallHistory w' = wi_recallHistory w \<and>
     wi_stateDurations w' = wi_stateDurations w"

lemma same_verdictI:
  assumes "isFailedGateSealed w" "wi_failedGateSeal w' = wi_failedGateSeal w" "wi_status w' = wi_status w"
     "wi_lease w' = wi_lease w" "wi_evidenceRequirements w' = wi_evidenceRequirements w" "wi_evidence w' = wi_evidence w"
     "wi_attestations w' = wi_attestations w" "wi_attestationHistory w' = wi_attestationHistory w"
     "wi_executorHistory w' = wi_executorHistory w" "wi_recallHistory w' = wi_recallHistory w"
     "wi_stateDurations w' = wi_stateDurations w" "wi_effectiveDisposition w' = wi_effectiveDisposition w"
  shows "same_verdict w w'"
  using assms hasActiveVerifierFail_cong [of w' w] by (simp add: same_verdict_def isFailedGateSealed_def)

lemma sealed_step:
  "row_step sha now s w w' \<Longrightarrow> row_sound w \<Longrightarrow> isFailedGateSealed w \<Longrightarrow> same_verdict w w'"
proof (induction rule: row_step.induct)
  case (rs_bump rv w')
  then show ?case using sealed_sound [of w] by (auto simp: bump_row_Inr intro: same_verdictI)
next
  case (rs_pulse pd rv w')
  then show ?case using pulse_row_Inr [OF rs_pulse.hyps] by (elim exE) (auto intro: same_verdictI)
next
  case (rs_notice n m rv w')
  then show ?case using markRecallNotice_row_Inr [OF rs_notice.hyps] by (elim exE) (auto intro: same_verdictI)
next
  case (rs_seal_notice n m rv w')
  then show ?case using markFailedSealNotice_row_Inr [OF rs_seal_notice.hyps] by (elim exE conjE) (auto intro: same_verdictI)
next
  case rs_recommit
  then show ?case using sealed_sound [of w] by simp
next
  case rs_migrate
  then show ?case using sealed_sound [of w] by (auto intro!: same_verdictI)
next
  case (rs_attest p i r v verdict refs rv w')
  then show ?case using sealed_sound [of w] by (auto simp: attest_row_Inr)
next
  case (rs_expire cap p rv w')
  then show ?case using sealed_sound [of w] by (auto simp: expire_row_Inr)
next
  case (rs_update p ac m seam h w')
  then show ?case by (auto simp: update_row_Inr update_authority_Inr)
next
  case (rs_pause p i q ac rv w')
  then show ?case by (auto simp: pause_row_Inr pause_guards_Inr)
qed (simp_all add: row_iff guard_simps)

interpretation seal_final: row_relation sha row_sound "\<lambda>w w'. isFailedGateSealed w \<longrightarrow> same_verdict w w'" for sha
  by unfold_locales (auto simp: same_verdict_def dest: reachable_sound sealed_step)

text \<open>
  C2: a seal is final.  Once a row of a run is sealed by a failed gate, no sequence of requests and of
  other repositories' writes, short of deleting the row, changes its seal, its phase, its contract, its evidence, its
  attestations, its histories or its accumulated durations, and nobody ever holds it again.
\<close>

theorem sealed_forever:
  assumes "hub_run sha t s" "getWorkItem i s = Some w" "isFailedGateSealed w"
    and "sorted (t # map fst evs)" "Request (RDelete i) \<notin> snd ` set evs"
  shows "\<exists>w'. getWorkItem i (happens_all sha evs s) = Some w' \<and> isFailedGateSealed w' \<and>
    wi_failedGateSeal w' = wi_failedGateSeal w \<and> wi_status w' = FailedSealed \<and> wi_lease w' = None \<and>
    wi_evidenceRequirements w' = wi_evidenceRequirements w \<and> wi_evidence w' = wi_evidence w \<and>
    wi_attestations w' = wi_attestations w \<and> wi_attestationHistory w' = wi_attestationHistory w \<and>
    wi_executorHistory w' = wi_executorHistory w \<and> wi_recallHistory w' = wi_recallHistory w \<and>
    wi_stateDurations w' = wi_stateDurations w"
proof -
  obtain rv where "work_at i s = Some (w, rv)" by (rule run_get [OF assms(1,2)])
  then have "wi_status w = FailedSealed" "wi_lease w = None"
    using sealed_sound [OF reachable_sound [OF run_reachable [OF assms(1)]]] assms(3) by blast+
  with seal_final.kept [OF assms(1,4,5,2)] assms(3) show ?thesis
    unfolding same_verdict_def by metis
qed

theorem sealed_forever_witness:
  "\<exists>w'. getWorkItem ''work-1'' (happens_all demo_sha
      [(600, Request (RReset ''work-1'' demo_creator)), (700, Request (RAttest ''work-1'' ''r1'' ''vera'' Pass [demo_ref]))] hub_fail) = Some w' \<and>
    wi_failedGateSeal w' = wi_failedGateSeal (demo_row hub_fail) \<and> wi_status w' = FailedSealed"
  using sealed_forever [OF hub_fail_run hub_fail_row(1,4), of
      "[(600, Request (RReset ''work-1'' demo_creator)), (700, Request (RAttest ''work-1'' ''r1'' ''vera'' Pass [demo_ref]))]"]
  by auto

section \<open>What only grows\<close>

definition grown :: "work_item \<Rightarrow> work_item \<Rightarrow> bool" where
  "grown w w' \<longleftrightarrow>
     wi_id w' = wi_id w \<and> wi_createdAt w' = wi_createdAt w \<and> wi_createdBy w' = wi_createdBy w \<and> wi_type w' = wi_type w \<and>
     wi_revisionIdentity w' = wi_revisionIdentity w \<and>
     prefix (wi_executorHistory w) (wi_executorHistory w') \<and>
     prefix (wi_frictionReflections w) (wi_frictionReflections w') \<and> wi_leaseExpiryCount w \<le> wi_leaseExpiryCount w'"

lemma accrued_type [simp]: "wi_type (accrued w now w') = wi_type w'" "wi_type (touched now w') = wi_type w'"
  by (simp_all add: accrued_def touched_def Let_def split: prod.split)

lemma grown_failed: "grown w (failed_row sha now w rv a op)"
  by (simp add: failed_row_def attested_def grown_def split: prod.split)

lemma grown_sealed: "grown w (sealed_row sha now w rv a n op)"
  by (simp add: sealed_row_def grown_def split: prod.split)

lemma grown_passed: "grown w (passed_row now w a)"
  by (simp add: passed_row_def attested_def grown_def Let_def)

lemma grown_step: "row_step sha now s w w' \<Longrightarrow> grown w w'"
proof (induction rule: row_step.induct)
  case (rs_update p ac m seam h w')
  then show ?case by (auto simp: update_row_Inr apply_update_def grown_def dest!: sanction_Inr)
next
  case (rs_attest p i r v verdict refs rv w')
  then show ?case by (cases rule: attest_row_cases) (simp_all add: grown_failed grown_passed)
next
  case (rs_expire cap p rv w')
  from rs_expire show ?case
  proof (cases rule: expire_row_cases)
    case (lapse l n entry)
    with rs_expire have "lapsed_row sha now cap p w rv l = Inr w'" by (simp add: expire_row_Inr)
    then have "wi_leaseExpiryCount w \<le> wi_leaseExpiryCount w'" by (auto simp: lapsed_row_Inr)
    with lapse(6) show ?thesis by (simp add: grown_def releaseHold_def)
  qed (simp add: grown_sealed)
next
  case (rs_pause p i q ac rv w')
  then show ?case by (cases rule: pause_row_cases) (simp add: grown_def)
next
  case (rs_complete a t evidence friction rv w')
  then show ?case by (cases rule: complete_row_cases) (simp_all add: grown_def)
next
  case (rs_pulse pd rv w')
  then show ?case using pulse_row_Inr [OF rs_pulse.hyps] by (elim exE) (simp add: grown_def)
next
  case (rs_notice n m rv w')
  then show ?case using markRecallNotice_row_Inr [OF rs_notice.hyps] by (elim exE) (simp add: grown_def)
next
  case (rs_seal_notice n m rv w')
  then show ?case using markFailedSealNotice_row_Inr [OF rs_seal_notice.hyps] by (elim exE conjE) (simp add: grown_def)
qed (auto simp: row_iff grown_def recommitted_def releaseHold_def)

interpretation growth: row_relation sha "\<lambda>w. True" grown for sha
  by unfold_locales (auto simp: grown_def cloneWorkItem_def dest: grown_step [unfolded grown_def] intro: prefix_order.trans)

text \<open>
  who worked on a row is never forgotten.  Whatever happens to a row short of its deletion, its id, type, creator,
  creation time and revision identity stay, its list of executors and its list of friction reflections
  are only extended at the end, and its count of lease expiries never falls.
\<close>

theorem provenance_append_only:
  assumes "hub_run sha t s" "getWorkItem i s = Some w"
    and "sorted (t # map fst evs)" "Request (RDelete i) \<notin> snd ` set evs"
  shows "\<exists>w'. getWorkItem i (happens_all sha evs s) = Some w' \<and>
    wi_id w' = wi_id w \<and> wi_createdAt w' = wi_createdAt w \<and> wi_createdBy w' = wi_createdBy w \<and> wi_type w' = wi_type w \<and>
    wi_revisionIdentity w' = wi_revisionIdentity w \<and>
    prefix (wi_executorHistory w) (wi_executorHistory w') \<and>
    prefix (wi_frictionReflections w) (wi_frictionReflections w') \<and> wi_leaseExpiryCount w \<le> wi_leaseExpiryCount w'"
  using growth.kept [OF assms(1,3,4,2)] unfolding grown_def .

theorem provenance_append_only_witness:
  "\<exists>w'. getWorkItem ''work-1'' (happens_all demo_sha [(500, Request (RAttest ''work-1'' ''r1'' ''vera'' Pass [demo_ref]))] hub_4) = Some w' \<and>
    prefix (wi_executorHistory (demo_row hub_4)) (wi_executorHistory w')"
  using provenance_append_only [OF hub_4_run hub_4_row(1), of
      "[(500, Request (RAttest ''work-1'' ''r1'' ''vera'' Pass [demo_ref]))]"]
  by auto

end
