(* ===== verification/Verb_Properties.thy ===== *)
theory Verb_Properties
  imports Work_Safety
begin

text \<open>
  What single operations promise: refused operations write nothing, stale tokens are fenced, a
  claim mints exactly one lease, completion and attestation are sound, and expiry releases or seals.
\<close>

section \<open>Refusals\<close>

lemma row_verb_refused:
  assumes "hub_ok s" "verb_transform sha now f" "fst (row_verb sha i f s) = Inl e"
  shows "snd (row_verb sha i f s) = s"
proof -
  obtain r s' where run: "row_verb sha i f s = (r, s')" by (cases "row_verb sha i f s")
  from run assms(1,2) show ?thesis
    by (cases rule: row_verb_cases) (use assms(3) run in simp_all)
qed

lemma fence_try_refused:
  assumes "hub_ok s" "\<forall>p. keeps_id (f p)" "fst (withWriterFence (\<lambda>p. tryCasUpdate sha p i (f p)) s) = Inl e"
  shows "snd (withWriterFence (\<lambda>p. tryCasUpdate sha p i (f p)) s) = s"
proof -
  obtain r s' where run: "withWriterFence (\<lambda>p. tryCasUpdate sha p i (f p)) s = (r, s')"
    by (cases "withWriterFence (\<lambda>p. tryCasUpdate sha p i (f p)) s")
  from run assms(1,2) show ?thesis
    by (cases rule: fence_try_cases) (use assms(3) run in simp_all)
qed

lemma holder_verb_refused:
  assumes "hub_ok s"
  shows "fst (startWork sha now i a t s) = Inl e \<Longrightarrow> snd (startWork sha now i a t s) = s"
    "fst (blockWork sha now i a t b s) = Inl e \<Longrightarrow> snd (blockWork sha now i a t b s) = s"
    "fst (resumeWork sha now i a t s) = Inl e \<Longrightarrow> snd (resumeWork sha now i a t s) = s"
    "fst (releaseWork sha now i a t s) = Inl e \<Longrightarrow> snd (releaseWork sha now i a t s) = s"
    "fst (systemUnblock sha now i d s) = Inl e \<Longrightarrow> snd (systemUnblock sha now i d s) = s"
    "fst (abandonWork sha now i a tk role s) = Inl e \<Longrightarrow> snd (abandonWork sha now i a tk role s) = s"
  unfolding startWork_def blockWork_def resumeWork_def releaseWork_def systemUnblock_def abandonWork_def
  by (blast intro: row_verb_refused [OF assms] transform_steps)+

lemma resetWork_refused:
  "hub_ok s \<Longrightarrow> fst (resetWork sha now i ac s) = Inl e \<Longrightarrow> snd (resetWork sha now i ac s) = s"
  unfolding resetWork_def
  by (rule fence_try_refused [OF _ allI [OF verb_transform_keeps_id [OF transform_steps(13)]]])

lemma checked_verb_refused:
  assumes "hub_ok s"
  shows "fst (claimWorkItem sha now uuid i a role s) = Inl e \<Longrightarrow> snd (claimWorkItem sha now uuid i a role s) = s"
    "fst (completeWork sha now i a t evidence friction s) = Inl e \<Longrightarrow> snd (completeWork sha now i a t evidence friction s) = s"
    "fst (attestEvidence sha now i rq v verdict refs s) = Inl e \<Longrightarrow> snd (attestEvidence sha now i rq v verdict refs s) = s"
    "fst (pauseWork sha now q ac s) = Inl e \<Longrightarrow> snd (pauseWork sha now q ac s) = s"
    "fst (expireLease sha now i cap s) = Inl e \<Longrightarrow> snd (expireLease sha now i cap s) = s"
    "fst (updateWorkItem sha now i ac m h s) = Inl e \<Longrightarrow> snd (updateWorkItem sha now i ac m h s) = s"
proof -
  show "fst (claimWorkItem sha now uuid i a role s) = Inl e \<Longrightarrow> snd (claimWorkItem sha now uuid i a role s) = s"
    by (metis claimWorkItem_cases [OF _ assms] prod.collapse sum.distinct(1))
  show "fst (completeWork sha now i a t evidence friction s) = Inl e \<Longrightarrow> snd (completeWork sha now i a t evidence friction s) = s"
    by (metis completeWork_cases [OF _ assms] prod.collapse sum.distinct(1))
  show "fst (attestEvidence sha now i rq v verdict refs s) = Inl e \<Longrightarrow> snd (attestEvidence sha now i rq v verdict refs s) = s"
    by (metis attestEvidence_cases [OF _ assms] prod.collapse sum.distinct(1))
  show "fst (pauseWork sha now q ac s) = Inl e \<Longrightarrow> snd (pauseWork sha now q ac s) = s"
    by (metis pauseWork_cases [OF _ assms] prod.collapse sum.distinct(1))
  show "fst (expireLease sha now i cap s) = Inl e \<Longrightarrow> snd (expireLease sha now i cap s) = s"
    by (metis expireLease_cases [OF _ assms] prod.collapse sum.distinct(1))
  show "fst (updateWorkItem sha now i ac m h s) = Inl e \<Longrightarrow> snd (updateWorkItem sha now i ac m h s) = s"
    by (metis updateWorkItem_cases [OF _ assms] prod.collapse sum.distinct(1))
qed



end
