(* ===== verification/Verb_Outcomes.thy ===== *)
theory Verb_Outcomes
  imports Work_Safety
begin

text \<open>
  What a caller can rely on when a single operation answers: a stale lease token is fenced off, a claim is
  granted exactly to a claimable row and mints one lease, a completed row has its whole contract
  met, an attestation comes from an independent verifier, and a sweep of a lapsed lease releases, retires
  or seals the row.
\<close>

section \<open>Rows after one write\<close>

lemma getWorkItem_write [simp]:
  "getWorkItem j (write_row WORK_KIND i (EWork w) s) = (if j = i then Some (cloneWorkItem w) else getWorkItem j s)"
  by (simp add: getWorkItem_def get_work_at)

lemma getWorkItem_work_at: "work_at i s = Some (w, rv) \<Longrightarrow> getWorkItem i s = Some w"
  by (simp add: getWorkItem_def get_work_at)

lemma run_lease: "hub_run sha t s \<Longrightarrow> getWorkItem i s = Some w \<Longrightarrow> lease_ok w"
  by (rule run_invariant [OF lease_inv.row_invariant_axioms])

section \<open>Stale tokens\<close>

definition may_act :: "work_item \<Rightarrow> agent_id \<Rightarrow> string \<Rightarrow> bool" where
  "may_act w a tk \<longleftrightarrow> holds_with_token w a (Some tk) \<and> \<not> isParkedFromExecution w \<and> \<not> isFailedGateSealed w"

lemma assertLease_may_act: "assertLease w a tk v = Inr u \<longleftrightarrow> may_act w a tk"
  by (auto simp: assertLease_Inr may_act_def holds_with_token_def split: option.splits)

lemma row_verb_blocked:
  assumes "hub_ok s" "verb_transform sha now f" "work_at i s = Some (w, rv)" "\<forall>w'. f s w rv \<noteq> Inr w'"
  shows "\<exists>e. row_verb sha i f s = (Inl e, s)"
proof -
  obtain r s' where run: "row_verb sha i f s = (r, s')" by (cases "row_verb sha i f s")
  from run assms(1,2) show ?thesis
    by (cases rule: row_verb_cases) (use assms(3,4) run in auto)
qed

lemma renew_blocked:
  assumes "hub_ok s" "work_at i s = Some (w, rv)" "\<not> may_act w a tk"
  shows "\<exists>e. renewLease sha now i a tk s = (Inl e, s)"
proof -
  have "\<exists>e. tryCasUpdate sha p i (renew_row now a tk) s = (Inl e, s)" for p
  proof -
    have ids: "keeps_id (renew_row now a tk)" by (rule verb_transform_keeps_id [OF transform_steps(4)])
    obtain r s' where run: "tryCasUpdate sha p i (renew_row now a tk) s = (r, s')"
      by (cases "tryCasUpdate sha p i (renew_row now a tk) s")
    from assms(1) ids run show ?thesis
      by (cases rule: tryCasUpdate_cases) (use assms(2,3) run in \<open>auto simp: renew_row_Inr assertLease_may_act\<close>)
  qed
  then have *: "\<exists>e. renew_under sha now i a tk p s = (Inl e, s)" for p
    unfolding renew_under_def by (metis (no_types, lifting) old.prod.case old.sum.simps(5))
  show ?thesis
  proof (cases "read_pin s")
    case (Inr p)
    obtain e where "renew_under sha now i a tk p s = (Inl e, s)" using * by blast
    with Inr show ?thesis by (simp add: renewLease_def withWriterFence_def)
  qed (simp add: renewLease_def withWriterFence_def)
qed

lemma complete_blocked:
  assumes "hub_ok s" "work_at i s = Some (w, rv)" "\<not> may_act w a tk"
  shows "\<exists>e. completeWork sha now i a tk evidence friction s = (Inl e, s)"
proof -
  obtain r s' where run: "completeWork sha now i a tk evidence friction s = (r, s')"
    by (cases "completeWork sha now i a tk evidence friction s")
  from run assms(1) show ?thesis
    by (cases rule: completeWork_cases)
      (use assms(2,3) run in \<open>auto simp: complete_row_Inr assertLease_may_act getWorkItem_def get_work_at\<close>)
qed

text \<open>
  C3: stale tokens are fenced.  An agent that does not hold the current lease of a row with its current token, or holds
  it on a row that is suspended or sealed, can neither start, block, resume, renew, release nor complete the
  row: every one of these operations answers with an error and leaves the store as it was.
\<close>

theorem stale_token_fenced:
  assumes "hub_run sha t s" "getWorkItem i s = Some w"
    and "\<not> holds_with_token w a (Some tk) \<or> isParkedFromExecution w \<or> isFailedGateSealed w"
  shows "(\<exists>e. startWork sha now i a tk s = (Inl e, s)) \<and>
    (\<exists>e. blockWork sha now i a tk b s = (Inl e, s)) \<and>
    (\<exists>e. resumeWork sha now i a tk s = (Inl e, s)) \<and>
    (\<exists>e. renewLease sha now i a tk s = (Inl e, s)) \<and>
    (\<exists>e. releaseWork sha now i a tk s = (Inl e, s)) \<and>
    (\<exists>e. completeWork sha now i a tk evidence friction s = (Inl e, s))"
proof -
  have ok: "hub_ok s" by (rule run_ok [OF assms(1)])
  obtain rv where w: "work_at i s = Some (w, rv)" by (rule run_get [OF assms(1,2)])
  have no: "\<not> may_act w a tk" using assms(3) by (simp add: may_act_def)
  note blocked = row_verb_blocked [OF ok _ w]
  have "\<exists>e. startWork sha now i a tk s = (Inl e, s)" unfolding startWork_def
    by (rule blocked [OF transform_steps(1)]) (simp add: row_iff assertLease_may_act no)
  moreover have "\<exists>e. blockWork sha now i a tk b s = (Inl e, s)" unfolding blockWork_def
    by (rule blocked [OF transform_steps(2)]) (simp add: row_iff assertLease_may_act no)
  moreover have "\<exists>e. resumeWork sha now i a tk s = (Inl e, s)" unfolding resumeWork_def
    by (rule blocked [OF transform_steps(3)]) (simp add: row_iff assertLease_may_act no)
  moreover have "\<exists>e. releaseWork sha now i a tk s = (Inl e, s)" unfolding releaseWork_def
    by (rule blocked [OF transform_steps(6)]) (simp add: row_iff assertLease_may_act no)
  ultimately show ?thesis
    using renew_blocked [OF ok w no] complete_blocked [OF ok w no] by blast
qed

theorem stale_token_fenced_witness:
  "\<exists>e. renewLease demo_sha 500 ''work-1'' ''eng'' ''old-token'' hub_3 = (Inl e, hub_3)"
proof -
  have "\<not> holds_with_token (demo_row hub_3) ''eng'' (Some ''old-token'')" by code_simp
  then show ?thesis using stale_token_fenced [OF hub_3_run hub_3_row(1)] by blast
qed

section \<open>Claim\<close>

lemma map_res_pure: "map_res (\<lambda>x. Inr (f x)) xs = Inr (map f xs)"
  by (induction xs) auto

definition dependency_met :: "hub_store \<Rightarrow> string \<Rightarrow> bool" where
  "dependency_met s d \<longleftrightarrow> (case getWorkItem d s of None \<Rightarrow> False | Some c \<Rightarrow> wi_status c = Done \<or> wi_status c = Abandoned)"

lemma classify_met: "classifyGateChild (get_work d s) \<in> {DroppedAbandoned, Satisfied} \<longleftrightarrow> dependency_met s d"
proof (cases "get_work d s")
  case (Some c)
  then show ?thesis by (cases "wi_status c") (simp_all add: classifyGateChild_def dependency_met_def getWorkItem_def)
qed (simp add: classifyGateChild_def dependency_met_def getWorkItem_def)

lemma zip_map_filter: "[d. (d, c) \<leftarrow> zip ds (map f ds), P c] = filter (P \<circ> f) ds"
  by (induction ds) auto

lemma unmet_legacy: "unmetDependencies sha LegacyPin ds s = Inr (filter (\<lambda>d. \<not> dependency_met s d) ds)"
proof -
  have "(\<lambda>c. classifyGateChild c \<noteq> DroppedAbandoned \<and> classifyGateChild c \<noteq> Satisfied) \<circ> (\<lambda>d. get_work d s) =
      (\<lambda>d. \<not> dependency_met s d)"
    using classify_met [of _ s] by (auto simp: fun_eq_iff)
  then show ?thesis
    by (simp add: unmetDependencies_def getCurrentProjectionItem_def map_res_pure zip_map_filter)
qed

definition claimable :: "work_item \<Rightarrow> string option \<Rightarrow> hub_store \<Rightarrow> bool" where
  "claimable w role s \<longleftrightarrow>
     wi_status w = Ready \<and> \<not> isParkedFromExecution w \<and> \<not> isFailedGateSealed w \<and> role_eligible w role \<and>
     (\<forall>d \<in> set (wi_dependsOn w). dependency_met s d)"

definition claimed_row :: "instant \<Rightarrow> string \<Rightarrow> agent_id \<Rightarrow> work_item \<Rightarrow> work_item" where
  "claimed_row now uuid a w = touched now (accrued w now
     (w\<lparr>wi_status := Claimed, wi_lease := Some (claim_lease now uuid a w),
        wi_executorHistory := (if a \<in> set (wi_executorHistory w) then wi_executorHistory w
                               else wi_executorHistory w @ [a])\<rparr>))"

lemma claim_run:
  assumes "hub_ok s" "work_at i s = Some (w, rv)" "read_pin s = Inr LegacyPin"
    "inFlightCount sha LegacyPin a (wipCap role) s = Inr n" "n < wipCap role" "claimable w role s"
  shows "claimWorkItem sha now uuid i a role s =
    (Inr (Some (cloneWorkItem (claimed_row now uuid a w))), write_row WORK_KIND i (EWork (claimed_row now uuid a w)) s)"
proof -
  have row: "claim_row now uuid a role [] s w rv = Inr (claimed_row now uuid a w)"
    using assms(6) by (simp add: claim_row_Inr claimable_def claimed_row_def)
  have "tryCasUpdate sha LegacyPin i (claim_row now uuid a role []) s =
      (Inr (Some (cloneWorkItem (claimed_row now uuid a w))), write_row WORK_KIND i (EWork (claimed_row now uuid a w)) s)"
    using assms(2) row by (simp add: tryCasUpdate_eq [OF assms(1) claim_keeps_id])
  moreover have "filter (\<lambda>d. \<not> dependency_met s d) (wi_dependsOn w) = []"
    using assms(6) by (auto simp: claimable_def filter_empty_conv)
  ultimately have "claim_under sha now uuid i a role LegacyPin s =
      (Inr (Some (cloneWorkItem (claimed_row now uuid a w))), write_row WORK_KIND i (EWork (claimed_row now uuid a w)) s)"
    using assms(2,4,5) by (simp add: claim_under_def get_work_at unmet_legacy)
  then show ?thesis unfolding claimWorkItem_def by (rule fence_run [OF assms(3)]) simp
qed

text \<open>
  C11: a claim is granted exactly to a claimable row.  Before the first topology generation, a claim succeeds exactly
  when the agent is below its cap and the row is ready, neither suspended nor sealed, open to the agent's role
  and has no dependency that is neither done nor abandoned.
\<close>

theorem claim_granted_iff:
  assumes "hub_run sha t s" "getWorkItem i s = Some w" "read_pin s = Inr LegacyPin"
  shows "(\<exists>w' s'. claimWorkItem sha now uuid i a role s = (Inr (Some w'), s')) \<longleftrightarrow>
    (\<exists>n. inFlightCount sha LegacyPin a (wipCap role) s = Inr n \<and> n < wipCap role) \<and> claimable w role s"
    (is "?granted \<longleftrightarrow> _")
proof
  have ok: "hub_ok s" by (rule run_ok [OF assms(1)])
  obtain rv where w: "work_at i s = Some (w, rv)" by (rule run_get [OF assms(1,2)])
  assume ?granted
  then obtain w' s' where run: "claimWorkItem sha now uuid i a role s = (Inr (Some w'), s')" by blast
  from run ok show "(\<exists>n. inFlightCount sha LegacyPin a (wipCap role) s = Inr n \<and> n < wipCap role) \<and> claimable w role s"
    by (cases rule: claimWorkItem_cases)
      (use assms(3) w in \<open>auto simp: claim_row_Inr claimable_def unmet_legacy filter_empty_conv\<close>)
next
  assume "(\<exists>n. inFlightCount sha LegacyPin a (wipCap role) s = Inr n \<and> n < wipCap role) \<and> claimable w role s"
  then obtain n where n: "inFlightCount sha LegacyPin a (wipCap role) s = Inr n" "n < wipCap role" and c: "claimable w role s"
    by blast
  obtain rv where w: "work_at i s = Some (w, rv)" by (rule run_get [OF assms(1,2)])
  from claim_run [OF run_ok [OF assms(1)] w assms(3) n c] show ?granted by blast
qed

theorem claim_granted_iff_witness:
  "\<exists>w' s'. claimWorkItem demo_sha 200 ''tok'' ''work-1'' ''eng'' None hub_1 = (Inr (Some w'), s')"
proof -
  have "read_pin hub_1 = Inr LegacyPin" by code_simp
  moreover have "inFlightCount demo_sha LegacyPin ''eng'' (wipCap None) hub_1 = Inr 0 \<and> 0 < wipCap None" by code_simp
  moreover have "claimable (demo_row hub_1) None hub_1" by code_simp
  ultimately show ?thesis using claim_granted_iff [OF hub_1_run hub_1_row(1)] by blast
qed

text \<open>
  A granted claim mints one lease.  The row goes from ready to claimed with a lease of the agent under the fresh
  token, valid for the row's lease length; the agent is on the list of executors; evidence, contract and
  attestations are as before, a first claim starts its evidence clock now, and no other row changes.
\<close>

theorem claim_effect:
  assumes "hub_run sha t s" "claimWorkItem sha now uuid i a role s = (Inr (Some w'), s')"
  shows "\<exists>w l. getWorkItem i s = Some w \<and> getWorkItem i s' = Some w' \<and> wi_status w = Ready \<and> wi_lease w = None \<and>
    wi_status w' = Claimed \<and> wi_lease w' = Some l \<and> le_holder l = a \<and> le_token l = uuid \<and> le_heartbeatAt l = now \<and>
    le_expiresAt l = now + leaseTtlMsFor w \<and> (a \<notin> set (wi_executorHistory w) \<longrightarrow> le_claimedAt l = now) \<and>
    a \<in> set (wi_executorHistory w') \<and> wi_evidence w' = wi_evidence w \<and> wi_attestations w' = wi_attestations w \<and>
    wi_evidenceRequirements w' = wi_evidenceRequirements w \<and>
    (\<forall>j. j \<noteq> i \<longrightarrow> getWorkItem j s' = getWorkItem j s)"
  using assms(2) run_ok [OF assms(1)]
proof (cases rule: claimWorkItem_cases)
  case (written p n w rv w1)
  have get: "getWorkItem i s = Some w" by (rule getWorkItem_work_at [OF written(4)])
  have w1: "wi_status w = Ready" "w1 = claimed_row now uuid a w"
    using written(7) by (simp_all add: claim_row_Inr claimed_row_def)
  moreover have "wi_lease w = None" using run_lease [OF assms(1) get] w1(1) by (simp add: lease_ok_def)
  ultimately show ?thesis
    using written(8,9) get by (auto simp: claimed_row_def claim_lease_def cloneWorkItem_def)
qed simp_all

theorem claim_effect_witness:
  "getWorkItem ''work-1'' hub_2 \<noteq> None \<and> wi_status (the (getWorkItem ''work-1'' hub_2)) = Claimed"
proof -
  have ok: "is_ok (fst (claimWorkItem demo_sha 200 ''tok'' ''work-1'' ''eng'' None hub_1)) \<and>
      projr (fst (claimWorkItem demo_sha 200 ''tok'' ''work-1'' ''eng'' None hub_1)) \<noteq> None" by code_simp
  then obtain w' where "fst (claimWorkItem demo_sha 200 ''tok'' ''work-1'' ''eng'' None hub_1) = Inr (Some w')"
    by (auto simp: is_ok_iff)
  then have "claimWorkItem demo_sha 200 ''tok'' ''work-1'' ''eng'' None hub_1 = (Inr (Some w'), hub_2)"
    by (simp add: hub_2_def prod_eq_iff)
  from claim_effect [OF hub_1_run this] show ?thesis by auto
qed

end
