(* ===== verification/Gate_Outcomes.thy ===== *)
theory Gate_Outcomes
  imports Verb_Outcomes
begin

text \<open>
  The gates at the end of a row's life: a row is completed only when its whole contract is met, an
  attestation is accepted only from an independent verifier over load-bearing evidence, and a sweep of a
  lapsed lease releases, retires or seals the row.
\<close>

section \<open>Completion\<close>

text \<open>A child that no longer holds the parent's completion back.\<close>

definition gate_met :: "sha256 \<Rightarrow> pin \<Rightarrow> hub_store \<Rightarrow> string \<Rightarrow> bool" where
  "gate_met sha p s d \<longleftrightarrow>
     (case getCurrentProjectionItem sha p d s of Inr (Some c) \<Rightarrow> wi_status c = Done \<or> wi_status c = Abandoned | _ \<Rightarrow> False)"

lemma classify_gate:
  "getCurrentProjectionItem sha p d s = Inr c \<Longrightarrow> gate_met sha p s d \<longleftrightarrow> classifyGateChild c \<notin> {Missing, Pending}"
proof (cases c)
  case (Some w)
  assume "getCurrentProjectionItem sha p d s = Inr c"
  with Some show ?thesis by (cases "wi_status w") (simp_all add: classifyGateChild_def gate_met_def)
qed (simp add: classifyGateChild_def gate_met_def)

lemma map_res_nth: "map_res f xs = Inr ys \<Longrightarrow> (x, y) \<in> set (zip xs ys) \<Longrightarrow> f x = Inr y"
  by (induction xs arbitrary: ys) (auto simp: res_bind_Inr_iff)

lemma map_res_zip: "map_res f xs = Inr ys \<Longrightarrow> x \<in> set xs \<Longrightarrow> \<exists>y. (x, y) \<in> set (zip xs ys)"
  by (induction xs arbitrary: ys) (fastforce simp: res_bind_Inr_iff)+

lemma progress_met:
  assumes "computeCompletionProgress sha p ds s = Inr prog"
  shows "cp_pending prog = [] \<longleftrightarrow> (\<forall>d \<in> set ds. gate_met sha p s d)"
proof -
  obtain cs where cs: "map_res (\<lambda>d. getCurrentProjectionItem sha p d s) ds = Inr cs"
    and prog: "cp_pending prog = [d. (d, c) \<leftarrow> zip ds cs, classifyGateChild c \<in> {Missing, Pending}]"
    using assms by (auto simp: computeCompletionProgress_def res_bind_Inr_iff Let_def)
  have "cp_pending prog = [] \<longleftrightarrow> (\<forall>(d, c) \<in> set (zip ds cs). classifyGateChild c \<notin> {Missing, Pending})"
    unfolding prog by (auto simp: concat_eq_Nil_conv split: prod.splits if_splits)
  also have "\<dots> \<longleftrightarrow> (\<forall>d \<in> set ds. gate_met sha p s d)"
    using map_res_nth [OF cs] map_res_zip [OF cs] classify_gate set_zip_leftD by fastforce
  finally show ?thesis .
qed

text \<open>A requirement that is met: attested PASS by a verifier, or covered by fresh evidence of an accepted kind.\<close>

definition requirement_met :: "work_item \<Rightarrow> evidence_item list \<Rightarrow> evidence_requirement \<Rightarrow> bool" where
  "requirement_met w evidence req \<longleftrightarrow>
     (if er_evidenceAuthority req = Some VerifierAttestation
      then isProjectedPrReviewObligation w \<or> map_option at_verdict (active_attestation w (er_id req)) = Some Pass
      else \<exists>e \<in> set evidence. satisfies (map_option le_claimedAt (wi_lease w)) (wi_type w = VerifierGateItem)
        (evidenceKey ` set (wi_evidence w)) (priorLeaseFloorFor (map_option le_holder (wi_lease w)) (wi_recallHistory w)) req e)"

lemma filter_comprehension_Nil: "[f x. x \<leftarrow> xs, P x, b, Q x] = [] \<longleftrightarrow> (\<forall>x \<in> set xs. P x \<and> b \<longrightarrow> \<not> Q x)"
  by (induction xs) auto

lemma completion_gate_met:
  "fst (evaluateCompletionGate w) \<longleftrightarrow> (\<forall>req \<in> set (wi_evidenceRequirements w).
     er_evidenceAuthority req = Some VerifierAttestation \<longrightarrow>
       isProjectedPrReviewObligation w \<or> map_option at_verdict (active_attestation w (er_id req)) = Some Pass)"
  unfolding evaluateCompletionGate_def Let_def fst_conv filter_comprehension_Nil by blast

lemma plan_done_met:
  assumes "row_evidence_plan w evidence = Inr plan" "ep_nextPhase plan = Done" "fst (evaluateCompletionGate w)"
  shows "(\<forall>req \<in> set (wi_evidenceRequirements w). requirement_met w evidence req) \<and>
    (wi_evidenceRequirements w = [] \<longrightarrow> (\<exists>e \<in> set evidence. ei_kind e = EkFreeform))"
proof (cases "wi_evidenceRequirements w = []")
  case True
  with assms(1) show ?thesis
    by (auto simp: row_evidence_plan_def evaluateEvidence_def list_ex_iff split: if_splits)
next
  case False
  let ?f = "evaluate_requirement evidence (map_option le_claimedAt (wi_lease w)) (wi_type w = VerifierGateItem)
    (evidenceKey ` set (wi_evidence w)) (priorLeaseFloorFor (map_option le_holder (wi_lease w)) (wi_recallHistory w))"
  have "evaluate_requirements ?f (wi_evidenceRequirements w) False [] [] = Inr plan"
    using assms(1) False by (simp add: row_evidence_plan_def evaluateEvidence_def)
  from evaluate_requirements_Inr [OF this] assms(2)
  have ok: "\<forall>req \<in> set (wi_evidenceRequirements w). is_ok (?f req) \<and> ?f req \<noteq> Inr DeferredToReview"
    by (auto split: if_splits)
  have "requirement_met w evidence req" if req: "req \<in> set (wi_evidenceRequirements w)" for req
  proof -
    obtain out where out: "?f req = Inr out" "out \<noteq> DeferredToReview"
      using bspec [OF ok req] by (auto simp: is_ok_iff)
    have gate: "er_evidenceAuthority req = Some VerifierAttestation \<longrightarrow>
        isProjectedPrReviewObligation w \<or> map_option at_verdict (active_attestation w (er_id req)) = Some Pass"
      using assms(3) req by (simp add: completion_gate_met)
    note bound = evaluate_requirement_Bound [of evidence "map_option le_claimedAt (wi_lease w)" "wi_type w = VerifierGateItem"
        "evidenceKey ` set (wi_evidence w)" "priorLeaseFloorFor (map_option le_holder (wi_lease w)) (wi_recallHistory w)" req]
    from evaluate_requirement_shape [OF out(1)] bound out gate show ?thesis
      by (cases out) (auto simp: requirement_met_def)
  qed
  with False show ?thesis by simp
qed


text \<open>A row without requirements, claimed, started and completed on one piece of free-form evidence.\<close>

definition plain_input :: create_input where
  "plain_input = demo_input\<lparr>ci_evidenceRequirements := None\<rparr>"

definition plain_claimed :: hub_store where
  "plain_claimed = snd (claimWorkItem demo_sha 200 ''tok'' ''work-1'' ''eng'' None (snd (createWorkItem 100 plain_input empty_substrate)))"

definition plain_started :: hub_store where
  "plain_started = snd (startWork demo_sha 300 ''work-1'' ''eng'' ''tok'' plain_claimed)"

lemma plain_started_run: "hub_run demo_sha 300 plain_started"
proof -
  have "hub_run demo_sha 100 (snd (createWorkItem 100 plain_input empty_substrate))"
    using run_event [OF run_start, of demo_sha 100 "Request (RCreate plain_input)"] by simp
  then have "hub_run demo_sha 200 plain_claimed"
    using run_event [OF run_wait [of demo_sha 100 _ 200], of _ "Request (RClaim ''tok'' ''work-1'' ''eng'' None)"]
    by (simp add: plain_claimed_def)
  then show ?thesis
    using run_event [OF run_wait [of demo_sha 200 _ 300], of _ "Request (RStart ''work-1'' ''eng'' ''tok'')"]
    by (simp add: plain_started_def)
qed


section \<open>Attestation\<close>

lemma requirement_met_cong:
  assumes "wi_attestations w = wi_attestations w'" "wi_lease w = wi_lease w'" "wi_evidence w = wi_evidence w'"
    "wi_type w = wi_type w'" "wi_recallHistory w = wi_recallHistory w'"
    "isProjectedPrReviewObligation w = isProjectedPrReviewObligation w'"
  shows "requirement_met w es req = requirement_met w' es req"
  using assms by (simp add: requirement_met_def active_attestation_def)

lemma row_evidence_plan_attested [simp]: "row_evidence_plan (attested w a) es = row_evidence_plan w es"
  by (simp add: row_evidence_plan_def attested_def)

lemma projected_cong:
  "wi_systemProjection w = wi_systemProjection w' \<Longrightarrow> wi_createdBy w = wi_createdBy w' \<Longrightarrow> wi_payload w = wi_payload w' \<Longrightarrow>
   isProjectedPrReviewObligation w = isProjectedPrReviewObligation w'"
  by (simp only: isProjectedPrReviewObligation_def)

lemma auto_completed_met:
  assumes "auto_completes w a"
  shows "\<forall>req \<in> set (wi_evidenceRequirements w). requirement_met (cloneWorkItem (passed_row now w a)) (wi_evidence w) req"
proof -
  have gate: "fst (evaluateCompletionGate (attested w a))" and ed: "executor_done w"
    using assms by (simp_all add: auto_completes_def)
  from ed obtain plan where "row_evidence_plan (attested w a) (wi_evidence w) = Inr plan" "ep_nextPhase plan = Done"
    by (auto simp: executor_done_def split: sum.splits)
  from plan_done_met [OF this gate] have "\<forall>req \<in> set (wi_evidenceRequirements w). requirement_met (attested w a) (wi_evidence w) req"
    by (simp add: attested_def)
  moreover have "requirement_met (cloneWorkItem (passed_row now w a)) es req = requirement_met (attested w a) es req" for es req
    by (rule requirement_met_cong [OF _ _ _ _ _ projected_cong])
      (simp_all add: passed_row_def cloneWorkItem_def touched_def accrued_def Let_def split: prod.split)
  ultimately show ?thesis by simp
qed

lemma attested_active [simp]: "active_attestation (attested w a) (at_requirementId a) = Some a"
  by (simp add: active_attestation_def attested_def)

lemma attested_row:
  assumes "attest_checks sha p w rq v verdict refs s = Inr req" "a = new_attestation sha now w req v verdict refs"
  shows "at_requirementId a = rq" "at_verifierId a = v" "at_verdict a = verdict" "at_evidenceRefs a = refs"
  using assms(1) by (auto simp: assms(2) new_attestation_def attest_checks_Inr find_Some_iff)

text \<open>
  C30: an attestation is independent and decisive.  When a verdict is recorded, the requirement is one reserved
  for verifiers, the verifier is none of the agents involved in the work under review (its executors,
  author, revisers and holder, or those of the row itself when no target is known), the cited evidence is
  load-bearing, and the verdict is appended to the row's history as the active one.  A FAIL is recorded only in
  review and seals the row at once; a PASS never changes the row's phase, except that it completes a row in review whose
  every requirement is now met and that waits for no child.
\<close>

theorem attestation_sound:
  assumes "hub_run sha t s" "attestEvidence sha now i rq v verdict refs s = (Inr (w', active), s')" "s' \<noteq> s"
  shows "\<exists>w p req targets a. getWorkItem i s = Some w \<and> getWorkItem i s' = Some w' \<and> read_pin s = Inr p \<and>
    \<not> isFailedGateSealed w \<and> req \<in> set (wi_evidenceRequirements w) \<and> er_id req = rq \<and>
    er_evidenceAuthority req = Some VerifierAttestation \<and> refs \<noteq> [] \<and> classifyEvidenceRefs w s refs \<and>
    attestation_targets sha p w s = Inr targets \<and> (targets = [] \<longrightarrow> v \<notin> set (involved_agents w s)) \<and>
    (\<forall>(j, x) \<in> set targets. v \<notin> set (involved_agents x s)) \<and>
    wi_attestationHistory w' = wi_attestationHistory w @ [a] \<and> active = Some a \<and> active_attestation w' rq = Some a \<and>
    at_requirementId a = rq \<and> at_verifierId a = v \<and> at_verdict a = verdict \<and> at_evidenceRefs a = refs \<and>
    (verdict = Fail \<longrightarrow> wi_status w = Review \<and> wi_status w' = FailedSealed \<and> wi_lease w' = None \<and> wi_failedGateSeal w' \<noteq> None) \<and>
    (verdict = Pass \<longrightarrow> wi_lease w' = wi_lease w \<and> (wi_status w' = wi_status w \<or>
       wi_status w = Review \<and> wi_status w' = Done \<and> wi_completionDependsOn w = [] \<and>
       (\<forall>req \<in> set (wi_evidenceRequirements w). requirement_met w' (wi_evidence w') req))) \<and>
    (\<forall>j. j \<noteq> i \<longrightarrow> getWorkItem j s' = getWorkItem j s)"
  using assms(2) run_ok [OF assms(1)]
proof (cases rule: attestEvidence_cases)
  case (written p w rv w1)
  obtain req where open_row: "wi_failedGateSeal w = None" "\<not> hasActiveVerifierFail w"
    and req: "attest_checks sha p w rq v verdict refs s = Inr req"
    and w1: "w1 = (if verdict = Fail
             then failed_row sha now w rv (new_attestation sha now w req v verdict refs) (failedGateOperationId sha i rq v verdict refs)
             else passed_row now w (new_attestation sha now w req v verdict refs))"
    using written(5) by (auto simp: attest_row_Inr)
  define a where "a = new_attestation sha now w req v verdict refs"
  note a = attested_row [OF req a_def]
  obtain excluded where found: "req \<in> set (wi_evidenceRequirements w)" "er_id req = rq" "er_evidenceAuthority req = Some VerifierAttestation"
      "classifyEvidenceRefs w s refs" "verdict = Fail \<longrightarrow> wi_status w = Review"
    and ex: "selfAttestationExclusionFor sha p w s = Inr excluded" "v \<notin> set excluded"
    using req by (auto simp: attest_checks_Inr find_Some_iff)
  obtain targets where targets: "attestation_targets sha p w s = Inr targets"
    and free: "targets = [] \<longrightarrow> v \<notin> set (involved_agents w s)" "\<forall>(j, x) \<in> set targets. v \<notin> set (involved_agents x s)"
    using ex by (fastforce simp: selfAttestationExclusionFor_def res_bind_Inr_iff split: if_splits)
  have w': "w' = cloneWorkItem w1" "active = active_attestation w' rq" using written(6) by simp_all
  have act: "active_attestation w' rq = Some a"
    using a(1) unfolding w'(1) w1 a_def [symmetric] by (simp add: active_attestation_def)
  have hist: "wi_attestationHistory w' = wi_attestationHistory w @ [a]" unfolding w'(1) w1 a_def [symmetric] by simp
  have fail: "verdict = Fail \<longrightarrow> wi_status w = Review \<and> wi_status w' = FailedSealed \<and> wi_lease w' = None \<and> wi_failedGateSeal w' \<noteq> None"
    using found(5) unfolding w'(1) w1 by simp
  have pass: "verdict = Pass \<longrightarrow> wi_lease w' = wi_lease w \<and> (wi_status w' = wi_status w \<or>
       wi_status w = Review \<and> wi_status w' = Done \<and> wi_completionDependsOn w = [] \<and>
       (\<forall>req \<in> set (wi_evidenceRequirements w). requirement_met w' (wi_evidence w') req))"
    using auto_completed_met [of w a now] unfolding w'(1) w1 a_def [symmetric] by (auto simp: auto_completes_def)
  have seal: "\<not> isFailedGateSealed w"
    using run_invariant [OF seal_inv.row_invariant_axioms assms(1) getWorkItem_work_at [OF written(2)]] open_row(1)
    by (simp add: seal_ok_def)
  show ?thesis
    using getWorkItem_work_at [OF written(2)] written(1,4,7) w' seal found(1-4) targets free act hist fail pass a
    by (intro exI [of _ w] exI [of _ p] exI [of _ req] exI [of _ targets] exI [of _ a] conjI) simp_all
qed (use assms(3) in simp_all)

theorem attestation_sound_witness:
  "\<exists>w w'. getWorkItem ''work-1'' hub_4 = Some w \<and> getWorkItem ''work-1'' hub_pass = Some w' \<and>
    wi_status w = Review \<and> wi_status w' = Done"
proof -
  let ?run = "attestEvidence demo_sha 500 ''work-1'' ''r1'' ''vera'' Pass [demo_ref] hub_4"
  have "case ?run of (Inr (w', x), s') \<Rightarrow> wi_status w' = Done \<and> revisionCounter s' \<noteq> revisionCounter hub_4 | _ \<Rightarrow> False"
    by code_simp
  then obtain w' x where run: "?run = (Inr (w', x), hub_pass)" "wi_status w' = Done" "hub_pass \<noteq> hub_4"
    by (auto simp: hub_pass_def split: prod.splits sum.splits)
  from attestation_sound [OF hub_4_run run(1,3)] obtain w where
    "getWorkItem ''work-1'' hub_4 = Some w" "getWorkItem ''work-1'' hub_pass = Some w'" by blast
  moreover from this(1) have "wi_status w = Review" using hub_4_row by simp
  ultimately show ?thesis using run(2) by blast
qed

section \<open>Expiry\<close>

lemma expireLease_eq:
  assumes "hub_ok s"
  shows "expireLease sha now i cap s =
    (case read_pin s of
       Inl e \<Rightarrow> (Inl e, s)
     | Inr p \<Rightarrow>
         (case work_at i s of
            None \<Rightarrow> (Inr Skipped, s)
          | Some (w, rv) \<Rightarrow>
              (case expire_decision sha now cap p w rv of
                 Inl None \<Rightarrow> (Inr Skipped, s)
               | Inl (Some e) \<Rightarrow> (Inl e, s)
               | Inr w' \<Rightarrow> (Inr (outcome_of (wi_status w')), write_row WORK_KIND i (EWork w') s))))"
proof (cases "read_pin s")
  case (Inr p)
  have "get_head (snd (expire_under sha now i cap p s)) = get_head s"
    by (auto simp: expire_under_eq [OF assms] split: option.splits sum.splits)
  then have "expireLease sha now i cap s = expire_under sha now i cap p s"
    unfolding expireLease_def by (metis fence_run [OF Inr] prod.collapse)
  with Inr show ?thesis by (simp add: expire_under_eq [OF assms])
qed (simp add: expireLease_def withWriterFence_def)

lemma map_sum_Inl: "map_sum f g r = Inl x \<longleftrightarrow> (\<exists>e. r = Inl e \<and> x = f e)"
  by (cases r) auto

definition lapsed :: "instant \<Rightarrow> work_item \<Rightarrow> bool" where
  "lapsed now w \<longleftrightarrow> \<not> isParkedFromExecution w \<and> lease_lapsed now w"

lemma lapsed_iff: "lapsed now w \<longleftrightarrow> \<not> isParkedFromExecution w \<and> wi_status w \<in> set LEASE_HELD_PHASES \<and>
    (\<exists>l. wi_lease w = Some l \<and> le_expiresAt l < now)"
  by (auto simp: lapsed_def lease_lapsed_def split: option.splits)

text \<open>In a run every FAIL has sealed its row, so a row in a working phase has none.\<close>

lemma run_no_active_fail:
  assumes "hub_run sha t s" "getWorkItem i s = Some w" "wi_status w \<noteq> FailedSealed"
  shows "\<not> hasActiveVerifierFail w" "\<not> isFailedGateSealed w"
proof -
  have "seal_ok w" by (rule run_invariant [OF seal_inv.row_invariant_axioms assms(1,2)])
  with assms(3) show "\<not> isFailedGateSealed w" by (auto simp: seal_ok_def)
  then show "\<not> hasActiveVerifierFail w" by (simp add: isFailedGateSealed_def)
qed

definition topology_stringent :: "work_item \<Rightarrow> bool" where
  "topology_stringent w \<longleftrightarrow> logical_id w \<noteq> [] \<and> [] \<notin> set (wi_dependsOn w) \<and> [] \<notin> set (wi_completionDependsOn w) \<and>
     distinct (wi_dependsOn w) \<and> distinct (wi_completionDependsOn w)"

lemma topology_ok: "is_ok (deriveNodeTopologyV4 sha l ds cs) \<longleftrightarrow>
    l \<noteq> [] \<and> [] \<notin> set ds \<and> [] \<notin> set cs \<and> distinct ds \<and> distinct cs"
proof -
  have unique: "is_ok (sortedUniqueStrings xs) \<longleftrightarrow> [] \<notin> set xs \<and> distinct xs"
    "sortedUniqueStrings xs = Inr ys \<longrightarrow> [] \<notin> set xs \<and> distinct xs" for xs ys
    by (auto simp: sortedUniqueStrings_def list_ex_iff)
  show ?thesis
    using unique(1) [of ds] unique(1) [of cs]
    by (cases "sortedUniqueStrings ds"; cases "sortedUniqueStrings cs") (simp_all add: deriveNodeTopologyV4_def)
qed

lemma legacy_frozen_ok: "is_ok (deriveFrozenRecallAuthority sha LegacyPin w) \<longleftrightarrow> topology_stringent w"
proof -
  have "is_ok (deriveFrozenRecallAuthority sha LegacyPin w) \<longleftrightarrow>
      is_ok (deriveNodeTopologyV4 sha (logical_id w) (sort (wi_dependsOn w)) (sort (wi_completionDependsOn w)))"
    by (cases "deriveNodeTopologyV4 sha (logical_id w) (sort (wi_dependsOn w)) (sort (wi_completionDependsOn w))")
      (simp_all add: deriveFrozenRecallAuthority_def legacy_authority_def lift_contract_def Let_def)
  then show ?thesis by (simp add: topology_ok topology_stringent_def)
qed

lemma lapsed_swept:
  assumes "hub_run sha t s" "getWorkItem i s = Some w" "lapsed now w"
  shows "expire_row sha now cap p w rv = Inr w' \<longleftrightarrow> (\<exists>l. wi_lease w = Some l \<and> lapsed_row sha now cap p w rv l = Inr w')"
proof -
  have "wi_status w \<noteq> FailedSealed" using assms(3) by (auto simp: lapsed_iff LEASE_HELD_PHASES_def)
  with run_no_active_fail [OF assms(1,2)] assms(3) show ?thesis
    by (auto simp: expire_row_Inr lapsed_iff)
qed

lemma lapsed_run_iff:
  assumes "hub_run sha t s" "getWorkItem i s = Some w" "lapsed now w" "read_pin s = Inr LegacyPin"
  shows "(\<exists>out s'. expireLease sha now i cap s = (Inr out, s')) \<longleftrightarrow> topology_stringent w"
proof -
  obtain rv where w: "work_at i s = Some (w, rv)" by (rule run_get [OF assms(1,2)])
  obtain l where l: "wi_lease w = Some l" using assms(3) by (auto simp: lapsed_iff)
  have row: "expire_row sha now cap LegacyPin w rv = map_sum Some id (lapsed_row sha now cap LegacyPin w rv l)"
    using assms(3) l run_no_active_fail [OF assms(1,2)] by (auto simp: expire_row_def lapsed_iff LEASE_HELD_PHASES_def)
  have "(\<exists>out s'. expireLease sha now i cap s = (Inr out, s')) \<longleftrightarrow> is_ok (lapsed_row sha now cap LegacyPin w rv l)"
    using w row by (cases "lapsed_row sha now cap LegacyPin w rv l")
      (simp_all add: expireLease_eq [OF run_ok [OF assms(1)]] assms(4) expire_decision_def)
  also have "\<dots> \<longleftrightarrow> is_ok (deriveFrozenRecallAuthority sha LegacyPin w)"
    by (cases "deriveFrozenRecallAuthority sha LegacyPin w") (simp_all add: lapsed_row_def Let_def)
  finally show ?thesis by (simp add: legacy_frozen_ok)
qed

text \<open>
  What a sweep does.  When the sweep of a row answers, a row whose lease has not lapsed is skipped untouched; a lapsed
  lease is removed and the row goes back to ready, or is abandoned when its lapses inside the poison window reach the
  cap, with evidence, contract, attestations and executors kept and the answer naming which; no other row changes.
\<close>

theorem expiry_outcome:
  assumes "hub_run sha t s" "getWorkItem i s = Some w" "expireLease sha now i cap s = (Inr out, s')"
  shows "(\<not> lapsed now w \<longrightarrow> out = Skipped \<and> s' = s) \<and>
    (lapsed now w \<longrightarrow> (\<exists>w'. getWorkItem i s' = Some w' \<and> wi_lease w' = None \<and>
      wi_status w' = (if poisons now cap w then Abandoned else Ready) \<and>
      out = (if poisons now cap w then PoisonAbandoned else Requeued) \<and>
      wi_evidence w' = wi_evidence w \<and> wi_evidenceRequirements w' = wi_evidenceRequirements w \<and>
      wi_attestationHistory w' = wi_attestationHistory w \<and> wi_executorHistory w' = wi_executorHistory w \<and>
      (\<exists>entry. wi_recallHistory w' = wi_recallHistory w @ [entry])) \<and>
      (\<forall>j. j \<noteq> i \<longrightarrow> getWorkItem j s' = getWorkItem j s))"
proof -
  obtain rv where w: "work_at i s = Some (w, rv)" by (rule run_get [OF assms(1,2)])
  obtain p where run: "(case expire_decision sha now cap p w rv of
            Inl None \<Rightarrow> (Inr Skipped, s)
          | Inl (Some e) \<Rightarrow> (Inl e, s)
          | Inr w' \<Rightarrow> (Inr (outcome_of (wi_status w')), write_row WORK_KIND i (EWork w') s)) = (Inr out, s')"
    using assms(3) w by (auto simp: expireLease_eq [OF run_ok [OF assms(1)]] split: sum.splits)
  show ?thesis
  proof (cases "expire_decision sha now cap p w rv")
    case (Inl e)
    with run have none: "e = None" "out = Skipped" "s' = s" by (auto split: option.splits)
    have "\<not> lapsed now w"
    proof
      assume l: "lapsed now w"
      with Inl none(1) have "expire_row sha now cap p w rv = Inl None"
        by (auto simp: expire_decision_def res_bind_Inl_iff map_sum_Inl)
      with l run_no_active_fail [OF assms(1,2)] show False
        by (auto simp: expire_row_def lapsed_iff LEASE_HELD_PHASES_def map_sum_Inl)
    qed
    with none show ?thesis by simp
  next
    case (Inr w')
    with run have out: "out = outcome_of (wi_status w')" "s' = write_row WORK_KIND i (EWork w') s" by simp_all
    from Inr have row: "expire_row sha now cap p w rv = Inr w'" by (auto simp: expire_decision_def res_bind_Inr_iff)
    then have l: "lapsed now w" by (auto simp: expire_row_Inr lapsed_iff)
    from row lapsed_swept [OF assms(1,2) l] obtain n entry where
      "w' = touched now ((releaseHold w now (if poisons now cap w then Abandoned else Ready) w)
         \<lparr>wi_blockedOn := None, wi_leaseExpiryCount := n, wi_recallHistory := wi_recallHistory w @ [entry]\<rparr>)"
      by (auto simp only: lapsed_row_Inr)
    with out l show ?thesis by simp
  qed
qed

theorem expiry_outcome_witness:
  "\<exists>s' w'. expireLease demo_sha 1000000 ''work-1'' 3 hub_2 = (Inr Requeued, s') \<and> getWorkItem ''work-1'' s' = Some w' \<and>
     wi_status w' = Ready \<and> wi_lease w' = None"
proof -
  have "getWorkItem ''work-1'' hub_2 \<noteq> None \<and> lapsed 1000000 (the (getWorkItem ''work-1'' hub_2)) \<and>
      \<not> poisons 1000000 3 (the (getWorkItem ''work-1'' hub_2)) \<and> topology_stringent (the (getWorkItem ''work-1'' hub_2)) \<and>
      read_pin hub_2 = Inr LegacyPin" by code_simp
  then obtain w where w: "getWorkItem ''work-1'' hub_2 = Some w" "lapsed 1000000 w" "\<not> poisons 1000000 3 w"
    "topology_stringent w" "read_pin hub_2 = Inr LegacyPin" by auto
  obtain out s' where run: "expireLease demo_sha 1000000 ''work-1'' 3 hub_2 = (Inr out, s')"
    using lapsed_run_iff [OF hub_2_run w(1,2,5)] w(4) by blast
  from expiry_outcome [OF hub_2_run w(1) run] w(2,3) run show ?thesis by auto
qed

text \<open>
  A lapsed lease is released, if its dependency lists have no repetition.  Before the first topology generation the
  sweep of a row with a lapsed lease succeeds, and so frees the row, exactly when neither of its dependency lists
  repeats an id or holds an empty one.
\<close>

theorem lapsed_lease_released_iff:
  assumes "hub_run sha t s" "getWorkItem i s = Some w" "lapsed now w" "read_pin s = Inr LegacyPin"
  shows "(\<exists>out s'. expireLease sha now i cap s = (Inr out, s')) \<longleftrightarrow> topology_stringent w"
  by (rule lapsed_run_iff [OF assms])

theorem lapsed_lease_released_iff_witness:
  "\<exists>out s'. expireLease demo_sha 1000000 ''work-1'' 3 hub_2 = (Inr out, s')"
proof -
  have "getWorkItem ''work-1'' hub_2 \<noteq> None \<and> lapsed 1000000 (the (getWorkItem ''work-1'' hub_2)) \<and>
      topology_stringent (the (getWorkItem ''work-1'' hub_2)) \<and> read_pin hub_2 = Inr LegacyPin" by code_simp
  then obtain w where "getWorkItem ''work-1'' hub_2 = Some w" "lapsed 1000000 w" "topology_stringent w"
    "read_pin hub_2 = Inr LegacyPin" by auto
  then show ?thesis using lapsed_lease_released_iff [OF hub_2_run] by blast
qed

end
