(* ===== verification/Recall_Outcomes.thy ===== *)
theory Recall_Outcomes
  imports Gate_Outcomes "HOL-Library.Sublist"
begin

text \<open>
  Suspension as its callers see it: the record of recalls only grows, a repeated pause is a replay that writes
  nothing however much later it comes, and pausing followed by unpausing gives the row back as it was.
\<close>

section \<open>The record of recalls only grows\<close>

definition recall_keys :: "work_item \<Rightarrow> (string \<times> string) list" where
  "recall_keys w = map (\<lambda>h. (rh_operationId h, rh_requestHash h)) (wi_recallHistory w)"

lemma rebaseline_key [simp]:
  "rh_operationId (rebaseline current h) = rh_operationId h" "rh_requestHash (rebaseline current h) = rh_requestHash h"
  by (simp_all add: rebaseline_def split: option.split)

lemma map_rebaseline_keys:
  "map (\<lambda>h. (rh_operationId h, rh_requestHash h)) (map_last (rebaseline current) hs) =
   map (\<lambda>h. (rh_operationId h, rh_requestHash h)) hs"
  by (cases hs rule: rev_cases) simp_all

lemma sanction_keys: "sanction sha p w = Inr w' \<Longrightarrow> recall_keys w' = recall_keys w"
  by (auto simp: recall_keys_def map_rebaseline_keys dest!: sanction_Inr)

lemma reset_history_keys:
  "reset_history sha p w = Inr hs \<Longrightarrow> map (\<lambda>h. (rh_operationId h, rh_requestHash h)) hs = recall_keys w"
  by (auto simp: reset_history_def recall_keys_def res_bind_Inr_iff map_rebaseline_keys split: if_splits)

lemma recall_keys_same: "wi_recallHistory w' = wi_recallHistory w \<Longrightarrow> prefix (recall_keys w) (recall_keys w')"
  by (simp add: recall_keys_def)

lemma recall_keys_snoc: "wi_recallHistory w' = wi_recallHistory w @ [h] \<Longrightarrow> prefix (recall_keys w) (recall_keys w')"
  by (simp add: recall_keys_def)

lemma recall_step: "row_step sha now s w w' \<Longrightarrow> prefix (recall_keys w) (recall_keys w')"
proof (induction rule: row_step.induct)
  case (rs_update p ac m seam h w')
  then have "sanction sha p (apply_update now m w) = Inr w'" by (simp add: update_row_Inr)
  from sanction_keys [OF this] show ?case by (simp add: recall_keys_def apply_update_def)
next
  case (rs_reset p ac rv w')
  then obtain hs where "reset_history sha p w = Inr hs" "wi_recallHistory w' = hs" by (auto simp: reset_row_Inr)
  then have "recall_keys w' = recall_keys w" using reset_history_keys [of sha p w hs] by (simp add: recall_keys_def)
  then show ?case by simp
next
  case (rs_attest p i r v verdict refs rv w')
  then show ?case by (cases rule: attest_row_cases) (simp_all add: recall_keys_same)
next
  case (rs_expire cap p rv w')
  then show ?case by (cases rule: expire_row_cases) (simp_all add: recall_keys_same recall_keys_snoc)
next
  case (rs_pause p i q ac rv w')
  then show ?case by (cases rule: pause_row_cases) (simp add: recall_keys_snoc)
next
  case (rs_complete a t evidence friction rv w')
  then show ?case by (cases rule: complete_row_cases) (simp_all add: recall_keys_same)
next
  case (rs_pulse pd rv w')
  then show ?case using pulse_row_Inr [OF rs_pulse.hyps] by (elim exE) (simp add: recall_keys_same)
next
  case (rs_notice n m rv w')
  then show ?case using markRecallNotice_row_Inr [OF rs_notice.hyps] by (elim exE) (simp add: recall_keys_same)
next
  case (rs_seal_notice n m rv w')
  then show ?case using markFailedSealNotice_row_Inr [OF rs_seal_notice.hyps] by (elim exE conjE) (simp add: recall_keys_same)
qed (auto simp: row_iff recommitted_def intro: recall_keys_same)

interpretation recall_log: row_relation sha "\<lambda>w. True" "\<lambda>w w'. prefix (recall_keys w) (recall_keys w')" for sha
  by unfold_locales (auto simp: recall_keys_def dest: recall_step intro: prefix_order.trans)

section \<open>A repeated pause\<close>

lemma find_key:
  assumes "prefix ks (recall_keys w)" "(opid, hash) \<in> set ks" "\<forall>h. (opid, h) \<in> set ks \<longrightarrow> h = hash"
  shows "\<exists>e. List.find (\<lambda>h. rh_operationId h = opid) (wi_recallHistory w) = Some e \<and> rh_requestHash e = hash"
proof -
  have key: "\<exists>e. List.find (\<lambda>h. rh_operationId h = opid) hs = Some e \<and> rh_requestHash e = hash"
    if "prefix ks (map (\<lambda>h. (rh_operationId h, rh_requestHash h)) hs)" "(opid, hash) \<in> set ks"
      "\<forall>h. (opid, h) \<in> set ks \<longrightarrow> h = hash" for ks hs
    using that
  proof (induction hs arbitrary: ks)
    case (Cons h hs)
    obtain ks' where ks: "ks = (rh_operationId h, rh_requestHash h) # ks'"
      and ks': "prefix ks' (map (\<lambda>h. (rh_operationId h, rh_requestHash h)) hs)"
      using Cons.prems(1,2) by (cases ks) auto
    show ?case
    proof (cases "rh_operationId h = opid")
      case True
      then have "(opid, rh_requestHash h) \<in> set ks" unfolding ks by simp
      with Cons.prems(3) have "rh_requestHash h = hash" by blast
      with True show ?thesis by simp
    next
      case False
      with Cons.prems(2) ks have "(opid, hash) \<in> set ks'" by simp
      moreover have sub: "set ks' \<subseteq> set ks" unfolding ks by (rule set_subset_Cons)
      have "\<forall>x. (opid, x) \<in> set ks' \<longrightarrow> x = hash"
        by (intro allI impI) (rule Cons.prems(3) [rule_format, OF subsetD [OF sub]])
      ultimately have "\<exists>e. List.find (\<lambda>h. rh_operationId h = opid) hs = Some e \<and> rh_requestHash e = hash"
        by (intro Cons.IH [OF ks'])
      then show ?thesis using False by simp
    qed
  qed simp
  from key [OF assms(1) [unfolded recall_keys_def] assms(2,3)] show ?thesis .
qed

lemma find_None_keys: "List.find (\<lambda>h. rh_operationId h = opid) (wi_recallHistory w) = None \<Longrightarrow> (opid, h) \<notin> set (recall_keys w)"
  by (auto simp: recall_keys_def find_None_iff)

lemma pause_replay_run:
  assumes "hub_ok s" "read_pin s = Inr LegacyPin" "work_at i s = Some (w, rv)"
    "js_trim (pq_operationId q) \<noteq> []" "js_trim (pq_reason q) \<noteq> []" "resolvePauseLocator LegacyPin (pq_workId q) (pq_logicalId q) = Inr i"
    "List.find (\<lambda>h. rh_operationId h = pq_operationId q) (wi_recallHistory w) = Some e"
    "rh_requestHash e = pause_request_hash sha i q ac"
  shows "pauseWork sha now q ac s = (Inr (Some (w, True)), s)"
proof -
  have ids: "keeps_id (pause_row sha now LegacyPin i q ac)"
    by (rule verb_transform_keeps_id [OF transform_steps(11)])
  have "pause_row sha now LegacyPin i q ac s w rv = Inl (IdempotentRecall w)"
    using assms(7,8) by (simp add: pause_row_def)
  then have "tryCasUpdate sha LegacyPin i (pause_row sha now LegacyPin i q ac) s = (Inl (IdempotentRecall w), s)"
    using assms(3) by (simp add: tryCasUpdate_eq [OF assms(1) ids])
  then have "pause_under sha now q ac LegacyPin s = (Inr (Some (w, True)), s)"
    using assms(4-6) by (simp add: pause_under_def)
  then show ?thesis unfolding pauseWork_def by (rule fence_run [OF assms(2)]) simp
qed

lemma pause_written:
  assumes "hub_run sha t s" "pauseWork sha now q ac s = (Inr (Some (w1, False)), s1)" "read_pin s = Inr LegacyPin"
  obtains i w rv frozen where
    "js_trim (pq_operationId q) \<noteq> []" "js_trim (pq_reason q) \<noteq> []" "resolvePauseLocator LegacyPin (pq_workId q) (pq_logicalId q) = Inr i"
    "work_at i s = Some (w, rv)" "pause_row sha now LegacyPin i q ac s w rv = Inr frozen" "w1 = cloneWorkItem frozen"
    "s1 = write_row WORK_KIND i (EWork frozen) s"
  using assms(2) run_ok [OF assms(1)]
proof (cases rule: pauseWork_cases)
  case (written p i w rv w')
  with assms(3) that show ?thesis by auto
qed simp_all

text \<open>
  A pause is idempotent for ever.  Once a pause has suspended a row, the same request with the same operation id,
  however much later and whatever has happened to the row in between short of its deletion, is answered
  as a replay and writes nothing (as long as no topology generation is active).
\<close>

theorem pause_replay_writes_nothing:
  assumes "hub_run sha t s" "read_pin s = Inr LegacyPin" "pauseWork sha t q ac s = (Inr (Some (w1, False)), s1)"
    and "sorted (t # map fst evs)" "Request (RDelete (wi_id w1)) \<notin> snd ` set evs"
    and "read_pin (happens_all sha evs s1) = Inr LegacyPin"
  shows "\<exists>w2. pauseWork sha now2 q ac (happens_all sha evs s1) = (Inr (Some (w2, True)), happens_all sha evs s1)"
proof -
  obtain i w rv wp where p: "js_trim (pq_operationId q) \<noteq> []" "js_trim (pq_reason q) \<noteq> []"
    "resolvePauseLocator LegacyPin (pq_workId q) (pq_logicalId q) = Inr i"
    "work_at i s = Some (w, rv)" "pause_row sha t LegacyPin i q ac s w rv = Inr wp" "w1 = cloneWorkItem wp"
    "s1 = write_row WORK_KIND i (EWork wp) s"
    by (rule pause_written [OF assms(1,3,2)])
  have run1: "hub_run sha t s1"
    using run_event [OF assms(1), of "Request (RPause q ac)"] assms(3) by simp
  have get1: "getWorkItem i s1 = Some w1" using p(6,7) by simp
  have id1: "wi_id w1 = i"
    using run_get [OF run1 get1] work_at_id [OF run_ok [OF run1]] by metis
  have keys1: "recall_keys w1 = recall_keys w @ [(pq_operationId q, pause_request_hash sha i q ac)]"
    and fresh: "List.find (\<lambda>h. rh_operationId h = pq_operationId q) (wi_recallHistory w) = None"
    using p(5,6) by (auto simp: pause_row_Inr recall_keys_def)
  obtain w2 where w2: "getWorkItem i (happens_all sha evs s1) = Some w2" "prefix (recall_keys w1) (recall_keys w2)"
    using recall_log.kept [OF run1 assms(4) assms(5) [unfolded id1] get1] by blast
  have "(pq_operationId q, pause_request_hash sha i q ac) \<in> set (recall_keys w1)" by (simp add: keys1)
  moreover have "\<forall>h. (pq_operationId q, h) \<in> set (recall_keys w1) \<longrightarrow> h = pause_request_hash sha i q ac"
    using find_None_keys [OF fresh] by (simp add: keys1)
  ultimately obtain e where e: "List.find (\<lambda>h. rh_operationId h = pq_operationId q) (wi_recallHistory w2) = Some e"
    "rh_requestHash e = pause_request_hash sha i q ac"
    using find_key [OF w2(2)] by blast
  have run2: "hub_run sha (last (t # map fst evs)) (happens_all sha evs s1)"
    by (rule run_events [OF run1 assms(4) order_refl])
  obtain rv2 where at2: "work_at i (happens_all sha evs s1) = Some (w2, rv2)" by (rule run_get [OF run2 w2(1)])
  from pause_replay_run [OF run_ok [OF run2] assms(6) at2 p(1-3) e] show ?thesis by blast
qed

section \<open>Pausing\<close>

definition pausable :: "work_item \<Rightarrow> pause_request \<Rightarrow> actor \<Rightarrow> hub_store \<Rightarrow> bool" where
  "pausable w q ac s \<longleftrightarrow>
     js_trim (pq_operationId q) \<noteq> [] \<and> js_trim (pq_reason q) \<noteq> [] \<and>
     list_all (\<lambda>h. rh_operationId h \<noteq> pq_operationId q) (wi_recallHistory w) \<and>
     is_ok (pause_guards LegacyPin w q ac s) \<and> topology_stringent w"

lemma pause_run:
  assumes "hub_ok s" "read_pin s = Inr LegacyPin" "work_at i s = Some (w, rv)"
    "resolvePauseLocator LegacyPin (pq_workId q) (pq_logicalId q) = Inr i" "pausable w q ac s"
  obtains wp where "pause_row sha now LegacyPin i q ac s w rv = Inr wp"
    "pauseWork sha now q ac s = (Inr (Some (cloneWorkItem wp, False)), write_row WORK_KIND i (EWork wp) s)"
proof -
  have ids: "keeps_id (pause_row sha now LegacyPin i q ac)"
    by (rule verb_transform_keeps_id [OF transform_steps(11)])
  have none: "List.find (\<lambda>h. rh_operationId h = pq_operationId q) (wi_recallHistory w) = None"
    using assms(5) by (simp add: pausable_def find_None_iff list_all_iff)
  obtain frozen where frozen: "deriveFrozenRecallAuthority sha LegacyPin w = Inr frozen"
    using assms(5) legacy_frozen_ok [of sha w] by (auto simp: pausable_def is_ok_iff)
  have "pause_guards LegacyPin w q ac s = Inr ()" using assms(5) by (auto simp: pausable_def is_ok_iff)
  with none frozen obtain wp where wp: "pause_row sha now LegacyPin i q ac s w rv = Inr wp"
    by (simp add: pause_row_Inr)
  then have "tryCasUpdate sha LegacyPin i (pause_row sha now LegacyPin i q ac) s =
      (Inr (Some (cloneWorkItem wp)), write_row WORK_KIND i (EWork wp) s)"
    using assms(3) by (simp add: tryCasUpdate_eq [OF assms(1) ids])
  then have "pause_under sha now q ac LegacyPin s = (Inr (Some (cloneWorkItem wp, False)), write_row WORK_KIND i (EWork wp) s)"
    using assms(4,5) by (simp add: pause_under_def pausable_def)
  then have "pauseWork sha now q ac s = (Inr (Some (cloneWorkItem wp, False)), write_row WORK_KIND i (EWork wp) s)"
    unfolding pauseWork_def by (rule fence_run [OF assms(2)]) simp
  with wp show ?thesis by (rule that)
qed

text \<open>The pause of the demo hub's item in progress, by the director.\<close>

definition demo_pause :: pause_request where
  "demo_pause = \<lparr>pq_workId = Some ''work-1'', pq_logicalId = None, pq_operationId = ''op-1'', pq_reason = ''recall'',
     pq_expectedRevision = None, pq_expectedGeneration = None\<rparr>"

definition demo_director :: actor where
  "demo_director = \<lparr>ac_role = ''director'', ac_agentId = ''dir''\<rparr>"

definition hub_paused :: hub_store where
  "hub_paused = snd (pauseWork demo_sha 350 demo_pause demo_director hub_3)"

lemma demo_pausable: "read_pin hub_3 = Inr LegacyPin" "pausable (demo_row hub_3) demo_pause demo_director hub_3"
    "resolvePauseLocator LegacyPin (pq_workId demo_pause) (pq_logicalId demo_pause) = Inr ''work-1''"
  by code_simp+

lemma hub_paused_eq:
  obtains wp rv where "work_at ''work-1'' hub_3 = Some (demo_row hub_3, rv)"
    "pauseWork demo_sha 350 demo_pause demo_director hub_3 = (Inr (Some (cloneWorkItem wp, False)), hub_paused)"
    "pause_row demo_sha 350 LegacyPin ''work-1'' demo_pause demo_director hub_3 (demo_row hub_3) rv = Inr wp"
    "hub_paused = write_row WORK_KIND ''work-1'' (EWork wp) hub_3"
proof -
  obtain rv where w: "work_at ''work-1'' hub_3 = Some (demo_row hub_3, rv)" by (rule run_get [OF hub_3_run hub_3_row(1)])
  obtain wp where "pause_row demo_sha 350 LegacyPin ''work-1'' demo_pause demo_director hub_3 (demo_row hub_3) rv = Inr wp"
    "pauseWork demo_sha 350 demo_pause demo_director hub_3 =
      (Inr (Some (cloneWorkItem wp, False)), write_row WORK_KIND ''work-1'' (EWork wp) hub_3)"
    by (rule pause_run [OF run_ok [OF hub_3_run] demo_pausable(1) w demo_pausable(3,2)])
  with w that show ?thesis by (simp add: hub_paused_def)
qed

lemma hub_3_run_later: "hub_run demo_sha 350 hub_3"
  by (rule run_wait [OF hub_3_run]) simp

lemma read_pin_work [simp]: "read_pin (write_row WORK_KIND i (e :: hub_entity) s) = read_pin s"
proof -
  have "GENERATION_KIND \<noteq> WORK_KIND" by (simp add: GENERATION_KIND_def WORK_KIND_def)
  then have "get_generation g (write_row WORK_KIND i e s) = get_generation g s" for g
    by (simp add: get_generation_def get_op_def store_simps)
  then show ?thesis by (simp only: read_pin_def get_head_work)
qed

theorem pause_replay_writes_nothing_witness:
  "\<exists>w. pauseWork demo_sha 900 demo_pause demo_director hub_paused = (Inr (Some (w, True)), hub_paused)"
proof -
  obtain wp where w: "pauseWork demo_sha 350 demo_pause demo_director hub_3 = (Inr (Some (cloneWorkItem wp, False)), hub_paused)"
    "hub_paused = write_row WORK_KIND ''work-1'' (EWork wp) hub_3" using hub_paused_eq by blast
  have "read_pin (happens_all demo_sha [] hub_paused) = Inr LegacyPin" unfolding happens_all.simps w(2) by (simp add: demo_pausable(1))
  from pause_replay_writes_nothing [OF hub_3_run_later demo_pausable(1) w(1), of "[]", OF _ _ this] show ?thesis by simp
qed

section \<open>Pausing and unpausing\<close>

definition plain_unpause :: "string \<Rightarrow> unpause_request" where
  "plain_unpause i = \<lparr>uq_workId = Some i, uq_logicalId = None, uq_logicalIds = None, uq_expectedRevision = None,
     uq_expectedRevisions = None, uq_expectedGeneration = None, uq_operationId = None, uq_reason = None\<rparr>"

lemma frozen_authority_hash:
  "deriveFrozenRecallAuthority sha p w = Inr f \<Longrightarrow> authority_hash sha f = fa_authorityHash f"
  by (auto simp: deriveFrozenRecallAuthority_def res_bind_Inr_iff Let_def authority_hash_def authority_payload_json_def
      authority_members_def)

lemma frozen_legacy_cong:
  assumes "wi_id w = wi_id v" "wi_revisionIdentity w = wi_revisionIdentity v" "wi_dependsOn w = wi_dependsOn v"
    "wi_completionDependsOn w = wi_completionDependsOn v" "wi_type w = wi_type v" "wi_roleEligibility w = wi_roleEligibility v"
    "wi_runbook w = wi_runbook v" "wi_payload w = wi_payload v" "wi_targetRef w = wi_targetRef v"
    "wi_evidenceRequirements w = wi_evidenceRequirements v" "wi_references w = wi_references v"
    "wi_leaseWindowMs w = wi_leaseWindowMs v" "wi_nodeConfig w = wi_nodeConfig v"
  shows "deriveFrozenRecallAuthority sha LegacyPin w = deriveFrozenRecallAuthority sha LegacyPin v"
  by (simp only: deriveFrozenRecallAuthority_def legacy_authority_def claimant_projection_json_def logical_id_def
      revision_number_def assms pin.case)

lemma paused_row:
  assumes "pause_row sha now p i q ac s w rv = Inr wp" "p = LegacyPin"
  shows "deriveFrozenRecallAuthority sha LegacyPin (cloneWorkItem wp) = deriveFrozenRecallAuthority sha LegacyPin w"
    "\<exists>f. deriveFrozenRecallAuthority sha LegacyPin w = Inr f \<and>
       Option.bind (at_last (wi_recallHistory (cloneWorkItem wp))) recall_baseline = Some f"
  using assms
  by (auto simp: pause_row_Inr recall_baseline_def or_else_def cloneWorkItem_def touched_def accrued_def Let_def
      intro!: frozen_legacy_cong split: prod.split)

definition unpaused :: "instant \<Rightarrow> work_item \<Rightarrow> work_item" where
  "unpaused now w = touched now (accrued w now (w\<lparr>wi_suspended := Some False, wi_lease := unpause_lease now w\<rparr>))"

lemma unpaused_fields [simp]:
  "wi_status (unpaused now w) = wi_status w" "wi_suspended (unpaused now w) = Some False"
  "wi_lease (unpaused now w) = unpause_lease now w" "wi_evidence (unpaused now w) = wi_evidence w"
  "wi_evidenceRequirements (unpaused now w) = wi_evidenceRequirements w" "wi_attestations (unpaused now w) = wi_attestations w"
  "wi_executorHistory (unpaused now w) = wi_executorHistory w" "wi_blockedOn (unpaused now w) = wi_blockedOn w"
  by (simp_all add: unpaused_def)

lemma unpause_run:
  assumes "hub_ok s" "read_pin s = Inr LegacyPin" "work_at i s = Some (w, rv)" "is_steward (ac_role ac)"
    "\<not> isFailedGateSealed w" "isParkedFromExecution w" "deriveFrozenRecallAuthority sha LegacyPin w = Inr f"
    "Option.bind (at_last (wi_recallHistory w)) recall_baseline = Some f"
  shows "unpauseWork sha now (plain_unpause i) ac s =
    (Inr (Some (cloneWorkItem (unpaused now w))), write_row WORK_KIND i (EWork (unpaused now w)) s)"
proof -
  have ids: "keeps_id (unpause_row sha now LegacyPin (plain_unpause i) ac)"
    by (rule verb_transform_keeps_id [OF transform_steps(12)])
  have "i \<noteq> []" using work_at_id [OF assms(1,3)] by simp
  then have loc: "resolvePauseLocator LegacyPin (uq_workId (plain_unpause i)) (uq_logicalId (plain_unpause i)) = Inr i"
    by (simp add: resolvePauseLocator_def plain_unpause_def falsy_text_def)
  have "unpause_row sha now LegacyPin (plain_unpause i) ac s w rv = Inr (unpaused now w)"
    using assms(4-8) frozen_authority_hash [OF assms(7)] 
    by (simp add: unpaused_def unpause_row_Inr assertPauseExpectations_def plain_unpause_def assertFrozenRecallAuthorityUnchanged_def
        originalCreatorAgentId_def require_def)
  then have "tryCasUpdate sha LegacyPin i (unpause_row sha now LegacyPin (plain_unpause i) ac) s =
      (Inr (Some (cloneWorkItem (unpaused now w))), write_row WORK_KIND i (EWork (unpaused now w)) s)"
    using assms(3) by (simp add: tryCasUpdate_eq [OF assms(1) ids])
  then have "withWriterFence (\<lambda>p s. case resolvePauseLocator p (uq_workId (plain_unpause i)) (uq_logicalId (plain_unpause i)) of
             Inl e \<Rightarrow> (Inl e, s)
           | Inr workId \<Rightarrow> tryCasUpdate sha p workId (unpause_row sha now p (plain_unpause i) ac) s) s =
      (Inr (Some (cloneWorkItem (unpaused now w))), write_row WORK_KIND i (EWork (unpaused now w)) s)"
    by (intro fence_run [OF assms(2)]) (simp_all add: loc)
  moreover have "uq_logicalIds (plain_unpause i) = None" by (simp add: plain_unpause_def)
  ultimately show ?thesis by (simp add: unpauseWork_def)
qed

lemma pause_unpause:
  assumes "hub_run sha t s" "read_pin s = Inr LegacyPin" "pauseWork sha t q ac s = (Inr (Some (w1, False)), s1)"
    and "is_steward (ac_role steward)"
  shows "\<exists>w w2 s2. getWorkItem (wi_id w1) s = Some w \<and> isParkedFromExecution w1 \<and>
    unpauseWork sha now (plain_unpause (wi_id w1)) steward s1 = (Inr (Some w2), s2) \<and>
    getWorkItem (wi_id w1) s2 = Some w2 \<and> \<not> isParkedFromExecution w2 \<and> wi_status w2 = wi_status w \<and>
    map_option (\<lambda>l. (le_holder l, le_token l, le_claimedAt l)) (wi_lease w2) =
      map_option (\<lambda>l. (le_holder l, le_token l, le_claimedAt l)) (wi_lease w) \<and>
    (\<forall>l. wi_lease w2 = Some l \<longrightarrow> le_expiresAt l = now + leaseTtlMsFor w) \<and>
    wi_evidence w2 = wi_evidence w \<and> wi_evidenceRequirements w2 = wi_evidenceRequirements w \<and>
    wi_attestations w2 = wi_attestations w \<and> wi_executorHistory w2 = wi_executorHistory w \<and> wi_blockedOn w2 = None \<and>
    (\<forall>j. j \<noteq> wi_id w1 \<longrightarrow> getWorkItem j s2 = getWorkItem j s)"
proof -
  obtain i w rv wp where p: "work_at i s = Some (w, rv)" "pause_row sha t LegacyPin i q ac s w rv = Inr wp"
    "w1 = cloneWorkItem wp" "s1 = write_row WORK_KIND i (EWork wp) s"
    by (rule pause_written [OF assms(1,3,2)])
  have run1: "hub_run sha t s1" using run_event [OF assms(1), of "Request (RPause q ac)"] assms(3) by simp
  have at1: "work_at i s1 = Some (w1, Suc (revisionCounter s))" using p(3,4) by simp
  have id1: "wi_id w1 = i" using work_at_id [OF run_ok [OF run1] at1] by simp
  obtain entry ns b where guards: "pause_guards LegacyPin w q ac s = Inr ()"
    and wp: "wp = touched t (accrued w t (w\<lparr>wi_suspended := Some True, wi_blockedOn := None,
         wi_recallHistory := wi_recallHistory w @ [entry], wi_pendingRecallIntents := wi_pendingRecallIntents w @ ns,
         wi_recallNoticePending := b\<rparr>))"
    by (rule pause_row_cases [OF p(2)])
  have phase: "wi_status w1 = wi_status w" "wi_status w \<in> {Ready, Claimed, InProgress, Blocked}" "wi_lease w1 = wi_lease w"
    "wi_status w = Ready \<longleftrightarrow> wi_lease w = None"
    using guards by (auto simp: p(3) wp pause_guards_Inr)
  have parked: "isParkedFromExecution w1" by (simp add: p(3) wp isParkedFromExecution_def)
  have open_row: "\<not> isFailedGateSealed w1"
    by (rule run_no_active_fail(2) [OF run1, of i]) (use p(3,4) phase in auto)
  obtain f where f: "deriveFrozenRecallAuthority sha LegacyPin w1 = Inr f"
    "Option.bind (at_last (wi_recallHistory w1)) recall_baseline = Some f"
    using paused_row [OF p(2) refl] p(3) by auto
  have pin1: "read_pin s1 = Inr LegacyPin" using assms(2) p(4) by simp
  let ?w2 = "unpaused now w1"
  have "unpauseWork sha now (plain_unpause i) steward s1 =
      (Inr (Some (cloneWorkItem ?w2)), write_row WORK_KIND i (EWork ?w2) s1)"
    by (rule unpause_run [OF run_ok [OF run1] pin1 at1 assms(4) open_row parked f])
  moreover have same: "leaseTtlMsFor w1 = leaseTtlMsFor w" "wi_evidence w1 = wi_evidence w" "wi_blockedOn w1 = None"
    "wi_evidenceRequirements w1 = wi_evidenceRequirements w" "wi_attestations w1 = wi_attestations w"
    "wi_executorHistory w1 = wi_executorHistory w" by (simp_all add: leaseTtlMsFor_def p(3) wp)
  moreover have "map_option (\<lambda>l. (le_holder l, le_token l, le_claimedAt l)) (unpause_lease now w1) =
      map_option (\<lambda>l. (le_holder l, le_token l, le_claimedAt l)) (wi_lease w)"
    unfolding unpause_lease_def phase(3) by (cases "wi_lease w") (simp_all add: extended_lease_def)
  moreover have "unpause_lease now w1 = Some l \<longrightarrow> le_expiresAt l = now + leaseTtlMsFor w" for l
    using phase same(1) by (auto simp: unpause_lease_def extended_lease_def LEASE_HELD_PHASES_def)
  moreover have "getWorkItem j (write_row WORK_KIND i (EWork ?w2) s1) = getWorkItem j s" if "j \<noteq> i" for j
    using that p(4) by simp
  moreover have "\<not> isParkedFromExecution ?w2" using phase(1,2) by (auto simp: isParkedFromExecution_def)
  ultimately show ?thesis
    using getWorkItem_work_at [OF p(1)] parked phase unfolding id1
    by (intro exI [of _ w] exI [of _ "cloneWorkItem ?w2"] exI [of _ "write_row WORK_KIND i (EWork ?w2) s1"] conjI)
      (simp_all add: isParkedFromExecution_def)
qed



text \<open>
  An unpaused blocked row is stuck.  The pause of a blocked row drops what it was blocked on and the unpause does
  not bring it back; a blocked row in that state can neither be unblocked by the system, whichever decision it
  resolves, nor paused again.
\<close>

theorem unpaused_block_is_stuck:
  assumes "hub_run sha t s" "getWorkItem i s = Some w" "wi_status w = Blocked" "wi_blockedOn w = None"
  shows "(\<exists>e. systemUnblock sha now i d s = (Inl e, s)) \<and>
    (pauseWork sha now q ac s = (Inr (Some (w', False)), s') \<longrightarrow> wi_id w' \<noteq> i)"
proof
  obtain rv where w: "work_at i s = Some (w, rv)" by (rule run_get [OF assms(1,2)])
  show "\<exists>e. systemUnblock sha now i d s = (Inl e, s)"
    unfolding systemUnblock_def
    by (rule row_verb_blocked [OF run_ok [OF assms(1)] transform_steps(7) w])
      (simp add: systemUnblock_row_Inr assms(4))
  show "pauseWork sha now q ac s = (Inr (Some (w', False)), s') \<longrightarrow> wi_id w' \<noteq> i"
  proof
    assume "pauseWork sha now q ac s = (Inr (Some (w', False)), s')"
    from this run_ok [OF assms(1)] show "wi_id w' \<noteq> i"
    proof (cases rule: pauseWork_cases)
      case (written p j v rv' wp)
      have "wi_status v = Blocked \<longrightarrow> wi_blockedOn v \<noteq> None" using written(7) by (auto simp: pause_row_Inr pause_guards_Inr)
      then have "j \<noteq> i" using w assms(3,4) written(5) by auto
      moreover have "wi_id w' = j"
        using written(8) row_step_id [OF rs_pause [OF written(7)]] work_at_id [OF run_ok [OF assms(1)] written(5)] by auto
      ultimately show ?thesis by simp
    qed simp_all
  qed
qed

definition demo_blocker :: blocked_on where
  "demo_blocker = \<lparr>bo_blockerKind = ''decision'', bo_blockerIds = Some [''d1''], bo_reason = ''waiting''\<rparr>"

definition hub_blocked :: hub_store where
  "hub_blocked = snd (blockWork demo_sha 350 ''work-1'' ''eng'' ''tok'' demo_blocker hub_3)"

lemma hub_blocked_run: "hub_run demo_sha 350 hub_blocked"
  using run_event [OF hub_3_run_later, of "Request (RBlock ''work-1'' ''eng'' ''tok'' demo_blocker)"]
  by (simp add: hub_blocked_def)

lemma blocked_stuck_reachable:
  obtains t s w where "hub_run demo_sha t s" "getWorkItem ''work-1'' s = Some w" "wi_status w = Blocked" "wi_blockedOn w = None"
proof -
  have "getWorkItem ''work-1'' hub_blocked \<noteq> None \<and> wi_status (demo_row hub_blocked) = Blocked \<and>
      pausable (demo_row hub_blocked) demo_pause demo_director hub_blocked \<and> read_pin hub_blocked = Inr LegacyPin" by code_simp
  then have w: "getWorkItem ''work-1'' hub_blocked = Some (demo_row hub_blocked)" "wi_status (demo_row hub_blocked) = Blocked"
    "pausable (demo_row hub_blocked) demo_pause demo_director hub_blocked" "read_pin hub_blocked = Inr LegacyPin"
    by (auto simp: demo_row_def)
  obtain rv where at: "work_at ''work-1'' hub_blocked = Some (demo_row hub_blocked, rv)" by (rule run_get [OF hub_blocked_run w(1)])
  obtain wp where p: "pauseWork demo_sha 350 demo_pause demo_director hub_blocked =
      (Inr (Some (cloneWorkItem wp, False)), write_row WORK_KIND ''work-1'' (EWork wp) hub_blocked)"
    using pause_run [OF run_ok [OF hub_blocked_run] w(4) at demo_pausable(3) w(3)] by metis
  let ?s = "write_row WORK_KIND ''work-1'' (EWork wp) hub_blocked"
  have run: "hub_run demo_sha 350 ?s"
    using run_event [OF hub_blocked_run, of "Request (RPause demo_pause demo_director)"] p by simp
  have "work_at ''work-1'' ?s = Some (cloneWorkItem wp, Suc (revisionCounter hub_blocked))" by simp
  from work_at_id [OF run_ok [OF run] this] have id: "wi_id (cloneWorkItem wp) = ''work-1''" by simp
  have "is_steward (ac_role demo_director)" by code_simp
  from pause_unpause [OF hub_blocked_run w(4) p this, of 350] obtain w2 s2 where
    "unpauseWork demo_sha 350 (plain_unpause ''work-1'') demo_director ?s = (Inr (Some w2), s2)"
    "getWorkItem ''work-1'' s2 = Some w2" "wi_status w2 = Blocked" "wi_blockedOn w2 = None"
    using w(1,2) unfolding id by auto
  moreover from this(1) have "hub_run demo_sha 350 s2"
    using run_event [OF run, of "Request (RUnpause (plain_unpause ''work-1'') demo_director)"] by simp
  ultimately show ?thesis using that by blast
qed

theorem unpaused_block_is_stuck_witness:
  "\<exists>t s. hub_run demo_sha t s \<and> (\<exists>e. systemUnblock demo_sha 900 ''work-1'' ''d1'' s = (Inl e, s))"
  using blocked_stuck_reachable unpaused_block_is_stuck by (metis (no_types, lifting))

end
