(* ===== verification/Work_Cap.thy ===== *)
theory Work_Cap
  imports Work_Safety
begin

text \<open>
  The work-in-progress cap.  A claim counts what its agent holds before it takes the row, no other request
  ever gives an agent a row, and so in a hub without a topology generation no agent ever holds
  more rows than the cap, across any run.
\<close>

section \<open>Counting rows\<close>

definition in_progress_of :: "agent_id \<Rightarrow> work_item \<Rightarrow> bool" where
  "in_progress_of a w \<longleftrightarrow> wi_status w \<in> set WIP_PHASES \<and> holds w a"

definition rows_with :: "(work_item \<Rightarrow> bool) \<Rightarrow> hub_store \<Rightarrow> string set" where
  "rows_with P s = {i. \<exists>w rv. work_at i s = Some (w, rv) \<and> P w}"

lemma all_work_ids:
  assumes "hub_ok s"
  shows "distinct (map wi_id (all_work s))" "w \<in> set (all_work s) \<longleftrightarrow> (\<exists>rv. work_at (wi_id w) s = Some (w, rv))"
proof -
  have snap: "snapshot_of s (all_work s)"
    using all_work_snapshot [OF assms, of "length (all_work s)"] by simp
  then show "distinct (map wi_id (all_work s))" by (simp add: snapshot_of_def)
  show "w \<in> set (all_work s) \<longleftrightarrow> (\<exists>rv. work_at (wi_id w) s = Some (w, rv))"
  proof
    assume "\<exists>rv. work_at (wi_id w) s = Some (w, rv)"
    then obtain r w0 where r: "find_row s WORK_KIND (wi_id w) = Some r" "row_data r = EWork w0" "w = cloneWorkItem w0"
      by (auto simp: work_at_row)
    then have "(wi_id w, r) \<in> set (getKindStore WORK_KIND s)" by (simp add: find_row_def map_of_SomeD)
    with r show "w \<in> set (all_work s)" by (force simp: all_work_def List.map_filter_def)
  qed (use snap in \<open>auto simp: snapshot_of_def\<close>)
qed

lemma rows_with_ids:
  assumes "hub_ok s"
  shows "rows_with P s = wi_id ` set (filter P (all_work s))"
  using all_work_ids(2) [OF assms] work_at_id [OF assms] unfolding rows_with_def by (auto simp: image_iff) blast

lemma count_rows:
  assumes "hub_ok s"
  shows "length (filter P (all_work s)) = card (rows_with P s)"
proof -
  have "distinct (map wi_id (filter P (all_work s)))"
    using all_work_ids(1) [OF assms] by (rule distinct_map_filter)
  then show ?thesis
    unfolding rows_with_ids [OF assms] by (metis distinct_card length_map list.set_map)
qed

lemma finite_rows: "hub_ok s \<Longrightarrow> finite (rows_with P s)"
  by (simp add: rows_with_ids)

text \<open>A list query is a prefix of the rows that satisfy it.\<close>

lemma map_filter_where:
  "List.map_filter as_work (filter (work_where P) es) = filter P (List.map_filter as_work es)"
proof (induction es)
  case (Cons e es)
  then show ?case by (cases e) (simp_all add: List.map_filter_def)
qed (simp add: List.map_filter_def)

lemma list_work_eq:
  assumes "\<forall>w. P (cloneWorkItem w) = P w"
  shows "list_work P limit s = take (min limit 500) (filter P (all_work s))"
proof -
  have work: "\<forall>e \<in> set (take n (filter (work_where P) es)). as_work e \<noteq> None" for n es
    by (auto dest!: in_set_takeD elim!: work_where.elims)
  have take: "List.map_filter as_work (take n es) = take n (List.map_filter as_work es)" if "\<forall>e \<in> set es. as_work e \<noteq> None" for n es
    using that by (induction es arbitrary: n) (auto simp: List.map_filter_def take_Cons split: nat.split)
  have all: "\<forall>e \<in> set (filter (work_where P) es). as_work e \<noteq> None" for es
    by (auto elim!: work_where.elims)
  have comp: "List.map_filter as_work (map (row_data \<circ> snd) kv) = List.map_filter (as_work \<circ> row_data \<circ> snd) kv" for kv
    by (induction kv) (simp_all add: List.map_filter_def)
  have "list_work P limit s =
      map cloneWorkItem (take (min limit 500) (filter P (List.map_filter (as_work \<circ> row_data \<circ> snd) (getKindStore WORK_KIND s))))"
    unfolding list_work_def list_op_def Let_def by (simp add: take [OF all] map_filter_where comp)
  then show ?thesis
    using assms unfolding all_work_def by (simp add: take_map filter_map comp_def)
qed

section \<open>Only a claim gives an agent a row\<close>

lemma in_progress_cong:
  "wi_status w' = wi_status w \<Longrightarrow> map_option le_holder (wi_lease w') = map_option le_holder (wi_lease w) \<Longrightarrow>
   in_progress_of a w' = in_progress_of a w"
  by (simp add: in_progress_of_def holds_def)

lemma in_progress_clone [simp]: "in_progress_of a (cloneWorkItem w) = in_progress_of a w"
  by (simp add: in_progress_of_def holds_def)

lemma lease_holds: "assertLease w a t v = Inr () \<Longrightarrow> holds w a"
  by (auto simp: guard_simps holds_def)

lemma no_lease: "wi_lease w = None \<Longrightarrow> \<not> in_progress_of a w"
  by (simp add: in_progress_of_def holds_def)

lemma holder_step:
  assumes "row_step sha now s w w'" "in_progress_of a w'" "\<not> in_progress_of a w"
  shows "\<exists>role p n. read_pin s = Inr p \<and> inFlightCount sha p a (wipCap role) s = Inr n \<and> n < wipCap role"
  using assms
proof (induction rule: row_step.induct)
  case (rs_claim uuid b role deps rv w' p n)
  then have "b = a" by (auto simp: claim_row_Inr in_progress_of_def holds_def claim_lease_def)
  with rs_claim show ?case by blast
next
  case (rs_renew b t rv w')
  then show ?case by (auto simp: renew_row_Inr extended_lease_def in_progress_of_def holds_def)
next
  case (rs_bump rv w')
  then show ?case by (auto simp: bump_row_Inr extended_lease_def in_progress_of_def holds_def)
next
  case (rs_pulse pd rv w')
  then show ?case using pulse_row_Inr [OF rs_pulse.hyps] in_progress_cong [of w' w a] by auto
next
  case (rs_notice n m rv w')
  then show ?case using markRecallNotice_row_Inr [OF rs_notice.hyps] in_progress_cong [of w' w a] by auto
next
  case (rs_seal_notice n m rv w')
  then show ?case using markFailedSealNotice_row_Inr [OF rs_seal_notice.hyps] in_progress_cong [of w' w a] by auto
next
  case (rs_update p ac m seam h w')
  then show ?case using update_row_fields(1,2) [OF rs_update.hyps] in_progress_cong [of w' w a] by simp
next
  case (rs_pause p i q ac rv w')
  from rs_pause.hyps have "in_progress_of a w' = in_progress_of a w"
    by (cases rule: pause_row_cases) (simp add: in_progress_of_def holds_def)
  with rs_pause show ?case by simp
next
  case (rs_unpause p uq ac rv w')
  then have w': "w' = touched now (accrued w now (w\<lparr>wi_suspended := Some False, wi_lease := unpause_lease now w\<rparr>))"
    unfolding unpause_row_Inr by blast
  have "in_progress_of a w' = in_progress_of a w"
    unfolding w' by (rule in_progress_cong) (simp_all add: unpause_lease_holder)
  with rs_unpause show ?case by simp
next
  case (rs_complete b t evidence friction rv w')
  from rs_complete.hyps have "in_progress_of a w' \<longrightarrow> in_progress_of a w"
    by (cases rule: complete_row_cases) (auto simp: in_progress_of_def holds_def phase_sets)
  with rs_complete show ?case by simp
next
  case (rs_expire cap p rv w')
  from rs_expire.hyps have "wi_lease w' = None" by (cases rule: expire_row_cases) simp_all
  with rs_expire no_lease show ?case by blast
next
  case (rs_attest p i r v verdict refs rv w')
  from rs_attest.hyps have "in_progress_of a w' \<longrightarrow> in_progress_of a w"
    by (cases rule: attest_row_cases) (simp_all add: in_progress_of_def holds_def phase_sets)
  with rs_attest show ?case by simp
next
  case rs_recommit
  then show ?case using no_lease [of "recommitted now w" a] by (simp add: recommitted_def)
next
  case (rs_reset p ac rv w')
  then have "wi_lease w' = None" unfolding reset_row_Inr by auto
  with rs_reset no_lease show ?case by blast
qed (auto simp: row_iff in_progress_of_def holds_def phase_sets)

text \<open>In legacy mode the count at claim time is exact as long as it is below the cap.\<close>

lemma legacy_count:
  assumes "reachable_hub sha now s" "inFlightCount sha LegacyPin a (wipCap role) s = Inr n" "n < wipCap role"
  shows "card (rows_with (in_progress_of a) s) = n"
proof -
  have ok: "hub_ok s" by (rule reachable_ok [OF assms(1)])
  let ?ws = "filter (in_progress_of a) (all_work s)"
  have unsealed: "\<not> isFailedGateSealed w" if "w \<in> set ?ws" for w
  proof -
    have "w \<in> set (all_work s)" using that by simp
    then obtain rv where "work_at (wi_id w) s = Some (w, rv)" unfolding all_work_ids(2) [OF ok] ..
    then have "seal_ok w" by (rule seal_inv.reachable_work [OF assms(1)])
    with that show ?thesis by (auto simp: seal_ok_def in_progress_of_def WIP_PHASES_def)
  qed
  have "list_work (\<lambda>w. wi_status w \<in> set WIP_PHASES \<and> holds w a) LIST_CAP s = take 500 ?ws"
    using list_work_eq [of "in_progress_of a" LIST_CAP s]
    by (simp add: in_progress_of_def [abs_def] holds_def LIST_CAP_def)
  moreover have "filter (\<lambda>w. \<not> isFailedGateSealed w) (take 500 ?ws) = take 500 ?ws"
    using unsealed by (auto intro!: filter_True dest: in_set_takeD)
  ultimately have "n = length (take (wipCap role) (take 500 ?ws))"
    using assms(2) by (simp add: inFlightCount_def)
  with assms(3) have "n = length ?ws" by (auto simp: wipCap_def DEFAULT_WIP_CAP_def min_def split: if_splits)
  then show ?thesis using count_rows [OF ok] by simp
qed

section \<open>The cap holds in every run\<close>

definition capped :: "hub_store \<Rightarrow> bool" where
  "capped s \<longleftrightarrow> get_head s = None \<and> (\<forall>a. card (rows_with (in_progress_of a) s) \<le> DEFAULT_WIP_CAP)"

lemma capped_mono:
  assumes "hub_ok s" "capped s" "get_head s' = None"
    "\<And>i w rv a. work_at i s' = Some (w, rv) \<Longrightarrow> in_progress_of a w \<Longrightarrow> \<exists>w rv. work_at i s = Some (w, rv) \<and> in_progress_of a w"
  shows "capped s'"
proof -
  have "card (rows_with (in_progress_of a) s') \<le> card (rows_with (in_progress_of a) s)" for a
    using assms(4) by (intro card_mono finite_rows assms(1)) (fastforce simp: rows_with_def)
  with assms(2,3) show ?thesis unfolding capped_def by (meson order.trans)
qed

lemma capped_claim:
  assumes "hub_ok s" "capped s" "get_head s' = None" "card (rows_with (in_progress_of b) s) < DEFAULT_WIP_CAP"
    and "\<And>j w rv a. work_at j s' = Some (w, rv) \<Longrightarrow> in_progress_of a w \<Longrightarrow> j = i \<and> a = b \<or> (\<exists>w rv. work_at j s = Some (w, rv) \<and> in_progress_of a w)"
  shows "capped s'"
proof -
  have "card (rows_with (in_progress_of a) s') \<le> DEFAULT_WIP_CAP" for a
  proof (cases "a = b")
    case True
    have "rows_with (in_progress_of a) s' \<subseteq> insert i (rows_with (in_progress_of a) s)"
      using assms(5) by (fastforce simp: rows_with_def)
    then have "card (rows_with (in_progress_of a) s') \<le> card (insert i (rows_with (in_progress_of a) s))"
      by (intro card_mono) (simp_all add: finite_rows assms(1))
    also have "\<dots> \<le> Suc (card (rows_with (in_progress_of a) s))" by (rule card_insert_le_m1) simp_all
    finally show ?thesis using assms(4) True by simp
  next
    case False
    have "card (rows_with (in_progress_of a) s') \<le> card (rows_with (in_progress_of a) s)"
      using assms(5) False by (intro card_mono finite_rows assms(1)) (fastforce simp: rows_with_def)
    with assms(2) show ?thesis unfolding capped_def by (meson order.trans)
  qed
  with assms(3) show ?thesis by (simp add: capped_def)
qed

lemma legacy_pin: "get_head s = None \<Longrightarrow> read_pin s = Inr LegacyPin"
  by (simp add: read_pin_def)

lemma head_other: "k \<noteq> HEAD_KIND \<Longrightarrow> get_head (write_row k i e s) = get_head s"
  by (simp add: get_head_def getWithRevision_def store_simps)

lemma head_deleted: "get_head s = None \<Longrightarrow> get_head (delete_op k i s) = None"
  by (cases "find_row s k i") (auto simp: get_head_def getWithRevision_def delete_op_fields store_simps split: option.splits hub_entity.splits if_splits)

lemma capped_step:
  "hub_step sha now s s' \<Longrightarrow> reachable_hub sha now s \<Longrightarrow> capped s \<Longrightarrow> capped s'"
proof (induction rule: hub_step.induct)
  case (hs_row s i r w w')
  have ok: "hub_ok s" by (rule reachable_ok [OF hs_row.prems(1)])
  have at: "work_at i s = Some (cloneWorkItem w, row_rv r)" using hs_row.hyps(1,2) by (simp add: work_at_def)
  have head: "get_head (write_row WORK_KIND i (EWork w') s) = None" using hs_row.prems(2) by (simp add: capped_def)
  show ?case
  proof (cases "\<exists>a. in_progress_of a w' \<and> \<not> in_progress_of a (cloneWorkItem w)")
    case False
    show ?thesis
    proof (rule capped_mono [OF ok hs_row.prems(2) head])
      fix j v rv a
      assume "work_at j (write_row WORK_KIND i (EWork w') s) = Some (v, rv)" "in_progress_of a v"
      with False at show "\<exists>w rv. work_at j s = Some (w, rv) \<and> in_progress_of a w"
        by (cases "j = i") (auto simp: work_at_write)
    qed
  next
    case True
    then obtain b where b: "in_progress_of b w'" "\<not> in_progress_of b (cloneWorkItem w)" by blast
    obtain role p n where n: "read_pin s = Inr p" "inFlightCount sha p b (wipCap role) s = Inr n" "n < wipCap role"
      using holder_step [OF hs_row.hyps(3) b] by blast
    have "p = LegacyPin" using n(1) legacy_pin [of s] hs_row.prems(2) by (simp add: capped_def)
    with n legacy_count [OF hs_row.prems(1)] have "card (rows_with (in_progress_of b) s) < DEFAULT_WIP_CAP"
      by (auto simp: wipCap_def)
    moreover have "a = b" if "in_progress_of a w'" for a
      using that b(1) by (auto simp: in_progress_of_def holds_def)
    ultimately show ?thesis
    proof (intro capped_claim [OF ok hs_row.prems(2) head, of b i])
      fix j v rv a
      assume "work_at j (write_row WORK_KIND i (EWork w') s) = Some (v, rv)" "in_progress_of a v"
        and only: "\<And>a. in_progress_of a w' \<Longrightarrow> a = b"
      then show "j = i \<and> a = b \<or> (\<exists>w rv. work_at j s = Some (w, rv) \<and> in_progress_of a w)"
        by (cases "j = i") (auto simp: work_at_write)
    qed
  qed
next
  case (hs_create s i input)
  show ?case
    by (rule capped_mono [OF reachable_ok [OF hs_create.prems(1)] hs_create.prems(2)])
      (use hs_create.prems(2) in \<open>auto simp: capped_def no_lease born_def split: if_splits\<close>)
next
  case (hs_blueprint s i runId projection input)
  show ?case
    by (rule capped_mono [OF reachable_ok [OF hs_blueprint.prems(1)] hs_blueprint.prems(2)])
      (use hs_blueprint.prems(2) in \<open>auto simp: capped_def no_lease born_def blueprint_row_def split: if_splits\<close>)
next
  case (hs_other k s i e)
  have k: "k \<noteq> WORK_KIND" "k \<noteq> HEAD_KIND"
    using hs_other.hyps by (auto simp: COUNTER_KIND_def OPERATION_KIND_def HEAD_KIND_def WORK_KIND_def)
  show ?case
    by (rule capped_mono [OF reachable_ok [OF hs_other.prems(1)] hs_other.prems(2)])
      (use hs_other.prems(2) k in \<open>auto simp: capped_def head_other work_at_write_other\<close>)
qed

lemma capped_steps: "hub_steps sha now s s' \<Longrightarrow> reachable_hub sha now s \<Longrightarrow> capped s \<Longrightarrow> capped s'"
  by (induction rule: rtranclp_induct) (blast intro: capped_step reachable_steps)+

lemma capped_event:
  assumes "reachable_hub sha now s" "capped s" "\<forall>i e. ev \<noteq> OtherPut HEAD_KIND i e"
  shows "capped (happens sha now ev s)"
proof -
  have ok: "hub_ok s" by (rule reachable_ok [OF assms(1)])
  have delete: "capped (delete_op k i s)" for k i
  proof (rule capped_mono [OF ok assms(2)])
    show "get_head (delete_op k i s) = None" using assms(2) by (simp add: capped_def head_deleted)
    fix j v rv a
    assume "work_at j (delete_op k i s) = Some (v, rv)" "in_progress_of a v"
    then show "\<exists>w rv. work_at j s = Some (w, rv) \<and> in_progress_of a w"
      by (cases "find_row s k i") (auto simp: work_at_def delete_op_fields store_simps split: if_splits option.splits)
  qed
  show ?thesis
  proof (cases ev)
    case (Request q)
    show ?thesis
    proof (cases "\<exists>i. q = RDelete i")
      case True
      then show ?thesis using deleteWorkItem_cases delete assms(2) by (metis Request happens.simps(1) insertE perform.simps(3) singletonD)
    next
      case False
      then have "hub_steps sha now s (perform sha now q s)" by (intro perform_steps [OF ok]) simp
      with capped_steps assms(1,2) show ?thesis by (auto simp: Request)
    qed
  next
    case (OtherPut k i e)
    show ?thesis
    proof (cases "k = WORK_KIND")
      case False
      with assms(3) OtherPut have "k \<noteq> HEAD_KIND" by blast
      with False show ?thesis
        using assms(2) capped_mono [OF ok assms(2), of "write_row k i e s"]
        by (auto simp: OtherPut capped_def head_other work_at_write_other)
    qed (simp add: OtherPut assms(2))
  qed (simp add: delete assms(2))
qed

lemma capped_empty: "capped empty_substrate"
proof -
  have "rows_with P (empty_substrate :: hub_store) = {}" for P
    by (simp add: rows_with_def work_at_def find_row_def getKindStore_def empty_substrate_def)
  then show ?thesis
    by (simp add: capped_def get_head_def getWithRevision_def find_row_def getKindStore_def empty_substrate_def)
qed

lemma capped_run:
  "hub_run sha t s \<Longrightarrow> capped s \<Longrightarrow> sorted (t # map fst evs) \<Longrightarrow> \<forall>i e. OtherPut HEAD_KIND i e \<notin> snd ` set evs \<Longrightarrow>
   capped (happens_all sha evs s) \<and> (\<exists>t'. hub_run sha t' (happens_all sha evs s))"
proof (induction evs arbitrary: t s)
  case Nil
  then show ?case by auto
next
  case (Cons x evs)
  obtain now ev where x: "x = (now, ev)" by (cases x)
  have run: "hub_run sha now s" using Cons.prems(1,3) by (auto simp: x intro: run_wait)
  have "\<forall>i e. ev \<noteq> OtherPut HEAD_KIND i e" using Cons.prems(4) by (auto simp: x)
  then have "capped (happens sha now ev s)" by (rule capped_event [OF run_reachable [OF run] Cons.prems(2)])
  with Cons.IH [OF run_event [OF run]] Cons.prems(3,4) show ?case by (simp add: x)
qed

text \<open>
  C1: the work-in-progress cap.  Starting from an empty hub, after any requests and any writes of other repositories
  that never activate a topology generation, no agent holds more than three rows in the working phases, suspended
  ones included.
\<close>

theorem wip_cap:
  assumes "sorted (map fst evs)" "\<forall>i e. OtherPut HEAD_KIND i e \<notin> snd ` set evs"
  shows "length (filter (\<lambda>w. wi_status w \<in> set WIP_PHASES \<and> holds w a) (all_work (happens_all sha evs empty_substrate)))
    \<le> DEFAULT_WIP_CAP"
proof -
  obtain t where "sorted (t # map fst evs)"
    using assms(1) that [of "hd (map fst evs)"] by (cases evs) auto
  then have c: "capped (happens_all sha evs empty_substrate)" and "\<exists>t'. hub_run sha t' (happens_all sha evs empty_substrate)"
    using capped_run [OF run_start capped_empty _ assms(2)] by blast+
  then have "hub_ok (happens_all sha evs empty_substrate)" using run_ok by blast
  from count_rows [OF this, of "in_progress_of a"] c show ?thesis
    by (simp add: in_progress_of_def [abs_def] capped_def)
qed

theorem wip_cap_witness:
  "length (filter (\<lambda>w. wi_status w \<in> set WIP_PHASES \<and> holds w ''eng'') (all_work (happens_all demo_sha
     [(100, Request (RCreate demo_input)), (100, Request (RCreate demo_input)), (200, Request (RClaim ''t1'' ''work-1'' ''eng'' None)),
      (200, Request (RClaim ''t2'' ''work-2'' ''eng'' None))] empty_substrate))) \<le> DEFAULT_WIP_CAP"
  by (rule wip_cap) auto

end
