(* ===== verification/Work_Queries.thy ===== *)
theory Work_Queries
  imports Work_Recall
begin

text \<open>
  The read-only projections of the work-item repository: the next action of an arc (\<open>getNextAction\<close>), the
  stint projection of an arc with its rolled-up durations and friction (\<open>getStintProjection\<close>), the moves a
  caller may make on a row (\<open>getLegalMoves\<close>), and the lists (\<open>listWorkItems\<close>, \<open>listReadyForRole\<close>,
  \<open>listPendingRecallNoticeItems\<close>).  Each is a function of the pin and the store; the pin is the one the
  read runs under.
\<close>

section \<open>What a read observed\<close>

definition observed_generation :: "pin \<Rightarrow> int option" where
  "observed_generation p = (case p of LegacyPin \<Rightarrow> None | GenerationPin g h rv \<Rightarrow> Some (th_generation h))"

definition observed_hash :: "pin \<Rightarrow> string option" where
  "observed_hash p = (case p of LegacyPin \<Rightarrow> None | GenerationPin g h rv \<Rightarrow> Some (th_topologyHash h))"

section \<open>The next action of an arc\<close>

record next_action =
  na_arcId :: string
  na_generation :: "int option"
  na_topologyHash :: "string option"
  na_nextAction :: "work_item option"
  na_readyCandidates :: nat
  na_hasChildren :: bool
  na_wipCapped :: bool

fun priority_rank :: "priority \<Rightarrow> nat" where
  "priority_rank Critical = 0"
| "priority_rank High = 1"
| "priority_rank Normal = 2"
| "priority_rank Low = 3"

text \<open>A role filter: an absent role does not filter.\<close>

definition role_open :: "string option \<Rightarrow> work_item \<Rightarrow> bool" where
  "role_open role w \<longleftrightarrow> falsy_text role \<or> wi_roleEligibility w = [] \<or> the role \<in> set (wi_roleEligibility w)"

definition ready_child :: "sha256 \<Rightarrow> pin \<Rightarrow> string option \<Rightarrow> hub_store \<Rightarrow> string \<Rightarrow> wi_error + work_item option" where
  "ready_child sha p role s childId =
     res_bind (getCurrentProjectionItem sha p childId s) (\<lambda>c. case c of
         None \<Rightarrow> Inr None
       | Some child \<Rightarrow>
           if isFailedGateSealed child \<or> isParkedFromExecution child \<or> wi_status child \<noteq> Ready then Inr None
           else if \<not> role_open role child then Inr None
           else if wi_dependsOn child = [] then Inr (Some child)
           else res_bind (unmetDependencies sha p (wi_dependsOn child) s) (\<lambda>unmet.
             Inr (if unmet = [] then Some child else None)))"

text \<open>Whether an agent-scoped read finds the agent at its cap.\<close>

definition wip_capped :: "sha256 \<Rightarrow> pin \<Rightarrow> string option \<Rightarrow> agent_id option \<Rightarrow> hub_store \<Rightarrow> wi_error + bool" where
  "wip_capped sha p role agentId s =
     (case agentId of
        None \<Rightarrow> Inr False
      | Some a \<Rightarrow> res_bind (inFlightCount sha p a (wipCap role) s) (\<lambda>n. Inr (wipCap role \<le> n)))"

text \<open>The comparison by rank and then by id is two stable sorts, the less significant key first.\<close>

definition getNextAction :: "sha256 \<Rightarrow> pin \<Rightarrow> string \<Rightarrow> string option \<Rightarrow> agent_id option \<Rightarrow> hub_store
    \<Rightarrow> wi_error + next_action option" where
  "getNextAction sha p arcId role agentId s =
     res_bind (getCurrentProjectionItem sha p arcId s) (\<lambda>arc. case arc of
         None \<Rightarrow> Inr None
       | Some a \<Rightarrow>
           let childIds = wi_completionDependsOn a; hasChildren = (childIds \<noteq> []);
               result = (\<lambda>next n capped. Some
                 \<lparr>na_arcId = arcId, na_generation = observed_generation p, na_topologyHash = observed_hash p,
                  na_nextAction = next, na_readyCandidates = n, na_hasChildren = hasChildren, na_wipCapped = capped\<rparr>)
           in res_bind (wip_capped sha p role agentId s) (\<lambda>capped.
              if capped then Inr (result None 0 True)
              else res_bind (map_res (ready_child sha p role s) childIds) (\<lambda>found.
                let ready = sort_key (priority_rank \<circ> wi_priority) (sort_key wi_id (List.map_filter id found))
                in Inr (result (if ready = [] then None else Some (hd ready)) (length ready) False))))"

section \<open>The roll-up over the leaves\<close>

record friction_rollup =
  fo_total :: nat
  fo_observed :: nat
  fo_missingLegacy :: nat
  fo_categories :: "(string \<times> nat) list"

definition emptyFrictionRollup :: friction_rollup where
  "emptyFrictionRollup = \<lparr>fo_total = 0, fo_observed = 0, fo_missingLegacy = 0, fo_categories = []\<rparr>"

definition count_category :: "string \<Rightarrow> (string \<times> nat) list \<Rightarrow> (string \<times> nat) list" where
  "count_category c m = AList.update c (case map_of m c of None \<Rightarrow> 1 | Some n \<Rightarrow> n + 1) m"

definition addFrictionToRollup :: "friction_rollup \<Rightarrow> friction_record list \<Rightarrow> friction_rollup" where
  "addFrictionToRollup acc reflections = fold (\<lambda>r acc.
     \<lparr>fo_total = fo_total acc + 1,
      fo_observed = (if fr_observed r then fo_observed acc + 1 else fo_observed acc),
      fo_missingLegacy = (if fr_compatibility r = MissingLegacyClient then fo_missingLegacy acc + 1 else fo_missingLegacy acc),
      fo_categories = fold count_category (fr_categories r) (fo_categories acc)\<rparr>) reflections acc"

definition add_durations :: "state_durations \<Rightarrow> state_durations \<Rightarrow> state_durations" where
  "add_durations a b =
     \<lparr>sd_ready = sd_ready a + sd_ready b, sd_claimed = sd_claimed a + sd_claimed b,
      sd_in_progress = sd_in_progress a + sd_in_progress b, sd_blocked = sd_blocked a + sd_blocked b,
      sd_paused = sd_paused a + sd_paused b, sd_review = sd_review a + sd_review b\<rparr>"

text \<open>
  Both roll-ups walk down the completion edges depth first, visit every id once and add what a leaf
  contributes.  The fuel bounds the depth; one level more than there are rows is enough, because every
  level but the last descends from a row not visited before.
\<close>

fun walk :: "nat \<Rightarrow> (string \<Rightarrow> wi_error + work_item option) \<Rightarrow> (work_item \<Rightarrow> 'a \<Rightarrow> 'a) \<Rightarrow> string
      \<Rightarrow> string list \<times> 'a \<Rightarrow> wi_error + string list \<times> 'a"
  and walk_all :: "nat \<Rightarrow> (string \<Rightarrow> wi_error + work_item option) \<Rightarrow> (work_item \<Rightarrow> 'a \<Rightarrow> 'a) \<Rightarrow> string list
      \<Rightarrow> string list \<times> 'a \<Rightarrow> wi_error + string list \<times> 'a" where
  "walk 0 read leaf i (visited, acc) = Inr (visited, acc)"
| "walk (Suc n) read leaf i (visited, acc) =
     (if i \<in> set visited then Inr (visited, acc)
      else res_bind (read i) (\<lambda>flat. case flat of
          None \<Rightarrow> Inr (i # visited, acc)
        | Some w \<Rightarrow>
            if wi_completionDependsOn w = [] then Inr (i # visited, leaf w acc)
            else walk_all n read leaf (wi_completionDependsOn w) (i # visited, acc)))"
| "walk_all n read leaf [] st = Inr st"
| "walk_all n read leaf (i # is) st = res_bind (walk n read leaf i st) (walk_all n read leaf is)"

definition walk_fuel :: "hub_store \<Rightarrow> nat" where
  "walk_fuel s = Suc (Suc (length (getKindStore WORK_KIND s)))"

definition rollupLeafFriction :: "sha256 \<Rightarrow> pin \<Rightarrow> string \<Rightarrow> hub_store \<Rightarrow> wi_error + friction_rollup" where
  "rollupLeafFriction sha p arcId s =
     res_bind (walk (walk_fuel s) (\<lambda>i. getCurrentProjectionItem sha p i s)
       (\<lambda>w acc. addFrictionToRollup acc (wi_frictionReflections w)) arcId ([], emptyFrictionRollup))
     (\<lambda>(visited, acc). Inr acc)"

definition rollupLeafDurations :: "sha256 \<Rightarrow> pin \<Rightarrow> string \<Rightarrow> hub_store \<Rightarrow> wi_error + state_durations" where
  "rollupLeafDurations sha p arcId s =
     res_bind (walk (walk_fuel s) (\<lambda>i. getCurrentProjectionItem sha p i s)
       (\<lambda>w acc. add_durations acc (wi_stateDurations w)) arcId ([], DEFAULT_STATE_DURATIONS))
     (\<lambda>(visited, acc). Inr acc)"

section \<open>The stint projection\<close>

text \<open>A child of the arc; a missing one has no status.\<close>

record stint_child =
  sc_id :: string
  sc_status :: "phase option"
  sc_suspended :: bool
  sc_failedSealed :: bool
  sc_leaseHolder :: "agent_id option"
  sc_durations :: state_durations

record status_counts =
  ct_ready :: nat
  ct_claimed :: nat
  ct_in_progress :: nat
  ct_blocked :: nat
  ct_paused :: nat
  ct_review :: nat
  ct_done :: nat
  ct_abandoned :: nat
  ct_missing :: nat

text \<open>The parallelism is a quotient, kept as numerator and denominator.\<close>

record stint_projection =
  st_arcId :: string
  st_generation :: "int option"
  st_topologyHash :: "string option"
  st_arcStatus :: phase
  st_completion :: completion_progress
  st_gateOpen :: bool
  st_inFlight :: nat
  st_blocked :: nat
  st_statusCounts :: status_counts
  st_children :: "stint_child list"
  st_rolledUpDurations :: state_durations
  st_ownActiveMs :: int
  st_parallelism :: "(int \<times> int) option"
  st_friction :: friction_rollup

definition stint_child_of :: "string \<Rightarrow> work_item option \<Rightarrow> stint_child" where
  "stint_child_of childId child =
     (case child of
        None \<Rightarrow> \<lparr>sc_id = childId, sc_status = None, sc_suspended = False, sc_failedSealed = False,
                 sc_leaseHolder = None, sc_durations = DEFAULT_STATE_DURATIONS\<rparr>
      | Some w \<Rightarrow> \<lparr>sc_id = childId, sc_status = Some (wi_status w), sc_suspended = isParkedFromExecution w,
                   sc_failedSealed = isFailedGateSealed w, sc_leaseHolder = map_option le_holder (wi_lease w),
                   sc_durations = wi_stateDurations w\<rparr>)"

definition gate_child_of :: "stint_child \<Rightarrow> gate_child" where
  "gate_child_of c = (case sc_status c of None \<Rightarrow> Missing | Some ph \<Rightarrow> gate_child_of_phase ph)"

definition children_of_kind :: "gate_child set \<Rightarrow> stint_child list \<Rightarrow> stint_child list" where
  "children_of_kind ks cs = filter (\<lambda>c. gate_child_of c \<in> ks) cs"

text \<open>A suspended child counts as paused, whatever its phase.\<close>

definition shown_status :: "stint_child \<Rightarrow> phase option" where
  "shown_status c = (if sc_suspended c then Some Paused else sc_status c)"

definition count_of :: "phase option \<Rightarrow> stint_child list \<Rightarrow> nat" where
  "count_of ph cs = length (filter (\<lambda>c. shown_status c = ph) cs)"

definition stint_completion :: "stint_child list \<Rightarrow> completion_progress" where
  "stint_completion cs =
     (let active = children_of_kind {Satisfied, Pending, Missing} cs in
      \<lparr>cp_done = length (children_of_kind {Satisfied} active), cp_total = length active,
       cp_pending = map sc_id (children_of_kind {Pending, Missing} active),
       cp_declared = map sc_id cs, cp_active = map sc_id active,
       cp_droppedAbandoned = map sc_id (children_of_kind {DroppedAbandoned} cs),
       cp_failed = map sc_id (filter sc_failedSealed cs),
       cp_missing = map sc_id (children_of_kind {Missing} cs)\<rparr>)"

definition stint_counts :: "stint_child list \<Rightarrow> status_counts" where
  "stint_counts cs =
     \<lparr>ct_ready = count_of (Some Ready) cs, ct_claimed = count_of (Some Claimed) cs,
      ct_in_progress = count_of (Some InProgress) cs, ct_blocked = count_of (Some Blocked) cs,
      ct_paused = count_of (Some Paused) cs, ct_review = count_of (Some Review) cs,
      ct_done = cp_done (stint_completion cs), ct_abandoned = count_of (Some Abandoned) cs,
      ct_missing = count_of None cs\<rparr>"

definition getStintProjection :: "sha256 \<Rightarrow> pin \<Rightarrow> string \<Rightarrow> hub_store \<Rightarrow> wi_error + stint_projection option" where
  "getStintProjection sha p workId s =
     res_bind (getCurrentProjectionItem sha p workId s) (\<lambda>arc. case arc of
         None \<Rightarrow> Inr None
       | Some a \<Rightarrow>
           res_bind (map_res (\<lambda>i. res_bind (getCurrentProjectionItem sha p i s) (\<lambda>c. Inr (stint_child_of i c)))
             (wi_completionDependsOn a)) (\<lambda>children.
           res_bind (rollupLeafDurations sha p (wi_id a) s) (\<lambda>durations.
           res_bind (rollupLeafFriction sha p (wi_id a) s) (\<lambda>friction.
           let completion = stint_completion children; counts = stint_counts children; d = wi_stateDurations a;
               ownActiveMs = sd_claimed d + sd_in_progress d + sd_blocked d + sd_review d
           in Inr (Some
             \<lparr>st_arcId = wi_id a, st_generation = observed_generation p, st_topologyHash = observed_hash p,
              st_arcStatus = wi_status a, st_completion = completion,
              st_gateOpen = (children \<noteq> [] \<and> cp_pending completion = []),
              st_inFlight = ct_claimed counts + ct_in_progress counts + ct_review counts,
              st_blocked = ct_blocked counts, st_statusCounts = counts, st_children = children,
              st_rolledUpDurations = durations, st_ownActiveMs = ownActiveMs,
              st_parallelism = (if 0 < ownActiveMs then Some (sd_in_progress durations, ownActiveMs) else None),
              st_friction = friction\<rparr>)))))"

section \<open>Legal moves\<close>

text \<open>Why a move is not legal; the source words each as a sentence.\<close>

datatype move_reason =
    HistoricalRow currentness_code
  | SealedRow
  | NeedsPhase verb phase
  | RoleNotListed
  | UnmetDependencies "string list"
  | AtWipCap nat
  | CallerNotHolder
  | CallerUnrelated
  | AbandonNotQualified phase
  | GateUnmet
  | PauseAuthority
  | UnpauseAuthority
  | NeedsSuspended
  | ResetAuthority
  | SuspendedDisposal string
  | SuspendedExecution phase

text \<open>A move: the verb and, when it is not legal, the reason.\<close>

type_synonym legal_move = "verb \<times> move_reason option"

record legal_moves =
  lm_workId :: string
  lm_generation :: "int option"
  lm_topologyHash :: "string option"
  lm_status :: phase
  lm_isHolder :: bool
  lm_gateMet :: bool
  lm_moves :: "legal_move list"

record caller =
  ca_agentId :: agent_id
  ca_role :: "string option"

definition move :: "verb \<Rightarrow> bool \<Rightarrow> move_reason \<Rightarrow> legal_move" where
  "move v legal reason = (v, if legal then None else Some reason)"

definition no_moves :: "pin \<Rightarrow> work_item \<Rightarrow> bool \<Rightarrow> move_reason \<Rightarrow> legal_moves" where
  "no_moves p w isHolder reason =
     \<lparr>lm_workId = wi_id w, lm_generation = observed_generation p, lm_topologyHash = observed_hash p,
      lm_status = wi_status w, lm_isHolder = isHolder, lm_gateMet = False,
      lm_moves = map (\<lambda>v. (v, Some reason)) ALL_WORK_ITEM_VERBS\<rparr>"

definition claim_move :: "sha256 \<Rightarrow> pin \<Rightarrow> work_item \<Rightarrow> caller \<Rightarrow> hub_store \<Rightarrow> wi_error + legal_move" where
  "claim_move sha p w c s =
     (if wi_status w \<noteq> Ready then Inr (move VClaim False (NeedsPhase VClaim (wi_status w)))
      else if \<not> role_eligible w (ca_role c) then Inr (move VClaim False RoleNotListed)
      else res_bind (unmetDependencies sha p (wi_dependsOn w) s) (\<lambda>unmet.
        if unmet \<noteq> [] then Inr (move VClaim False (UnmetDependencies unmet))
        else res_bind (inFlightCount sha p (ca_agentId c) (wipCap (ca_role c)) s) (\<lambda>n.
          Inr (move VClaim (n < wipCap (ca_role c)) (AtWipCap (wipCap (ca_role c)))))))"

definition holder_move :: "verb \<Rightarrow> bool \<Rightarrow> bool \<Rightarrow> phase \<Rightarrow> legal_move" where
  "holder_move v isHolder inPhase ph =
     move v (isHolder \<and> inPhase) (if \<not> isHolder then CallerNotHolder else NeedsPhase v ph)"

text \<open>On a suspended row only unpause and reset stay legal, and abandon for those who may dispose of it.\<close>

definition withdraw_moves :: "work_item \<Rightarrow> caller \<Rightarrow> legal_move list \<Rightarrow> legal_move list" where
  "withdraw_moves w c moves =
     (let disposal = evaluateSuspendedDisposalAuthority w
            \<lparr>ac_role = (case ca_role c of None \<Rightarrow> ''unknown'' | Some r \<Rightarrow> r), ac_agentId = ca_agentId c\<rparr>
            (map_option le_token (wi_lease w))
      in map (\<lambda>(v, reason).
           if v \<in> {VUnpause, VReset} \<or> reason \<noteq> None then (v, reason)
           else if v = VAbandon \<and> fst disposal then (v, reason)
           else (v, Some (if v = VAbandon then SuspendedDisposal (snd disposal) else SuspendedExecution (wi_status w)))) moves)"

definition role_moves :: "pin \<Rightarrow> work_item \<Rightarrow> caller \<Rightarrow> bool \<Rightarrow> agent_id option \<Rightarrow> legal_move list" where
  "role_moves p w c gateMet creator =
     (let status = wi_status w; suspended = isParkedFromExecution w;
          isHolder = holds w (ca_agentId c); isCreator = is_creator w (ca_agentId c);
          isSteward = (case ca_role c of None \<Rightarrow> False | Some r \<Rightarrow> is_steward r);
          isOriginalCreator = (creator = Some (ca_agentId c));
          canPause = (if status = Ready then isOriginalCreator \<or> isSteward else isSteward);
          canCreatorUnpause = (isOriginalCreator \<and> falsy_text (ri_predecessorPhysicalId (wi_revisionIdentity w)) \<and>
            map_option (ac_agentId \<circ> rh_actor) (at_last (wi_recallHistory w)) = Some (ca_agentId c));
          canUnpause = (isSteward \<or> canCreatorUnpause)
      in [holder_move VStart isHolder (status = Claimed) status,
          holder_move VBlock isHolder (status = InProgress) status,
          holder_move VResume isHolder (status = Blocked) status,
          holder_move VRenew isHolder (status \<in> set LEASE_HELD_PHASES) status,
          holder_move VRelease isHolder (status \<in> set RELEASABLE_PHASES) status,
          move VAbandon (isHolder \<and> status \<in> set RELEASABLE_PHASES \<or>
              isCreator \<and> (status \<in> set RELEASABLE_PHASES \<or> status = Ready) \<or> isSteward \<and> suspended)
            (if \<not> (isHolder \<or> isCreator \<or> isSteward) then CallerUnrelated else AbandonNotQualified status),
          move VComplete (isHolder \<and> status \<in> set COMPLETABLE_PHASES \<and> gateMet)
            (if \<not> isHolder then CallerNotHolder
             else if status \<notin> set COMPLETABLE_PHASES then NeedsPhase VComplete status else GateUnmet),
          move VPause (canPause \<and> status \<in> {Ready, Claimed, InProgress, Blocked})
            (if \<not> canPause then PauseAuthority else NeedsPhase VPause status),
          move VUnpause (canUnpause \<and> suspended) (if \<not> canUnpause then UnpauseAuthority else NeedsSuspended),
          move VReset (suspended \<and> isSteward) (if \<not> suspended then NeedsSuspended else ResetAuthority)])"

definition open_moves :: "sha256 \<Rightarrow> pin \<Rightarrow> work_item \<Rightarrow> caller \<Rightarrow> hub_store \<Rightarrow> wi_error + bool \<times> legal_move list" where
  "open_moves sha p w c s =
     res_bind (if wi_status w \<in> set COMPLETABLE_PHASES \<and> wi_completionDependsOn w \<noteq> []
               then res_bind (computeCompletionProgress sha p (wi_completionDependsOn w) s) (\<lambda>prog. Inr (cp_pending prog = []))
               else Inr True) (\<lambda>gateMet.
     res_bind (claim_move sha p w c s) (\<lambda>claim.
     res_bind (originalCreatorAgentId p w s) (\<lambda>creator.
       let moves = claim # role_moves p w c gateMet creator
       in Inr (gateMet, if isParkedFromExecution w then withdraw_moves w c moves else moves))))"

definition getLegalMoves :: "sha256 \<Rightarrow> pin \<Rightarrow> string \<Rightarrow> caller \<Rightarrow> hub_store \<Rightarrow> wi_error + legal_moves option" where
  "getLegalMoves sha p workId c s =
     (case getWorkItem workId s of
        None \<Rightarrow> Inr None
      | Some w \<Rightarrow>
          let isHolder = holds w (ca_agentId c) in
          (case assertCurrent sha w p of
             Inl (CurrentnessRejected code) \<Rightarrow> Inr (Some (no_moves p w isHolder (HistoricalRow code)))
           | Inl e \<Rightarrow> Inl e
           | Inr _ \<Rightarrow>
               if isFailedGateSealed w then Inr (Some (no_moves p w isHolder SealedRow))
               else res_bind (open_moves sha p w c s) (\<lambda>(gateMet, moves).
                 Inr (Some
                   \<lparr>lm_workId = wi_id w, lm_generation = observed_generation p, lm_topologyHash = observed_hash p,
                    lm_status = wi_status w, lm_isHolder = isHolder, lm_gateMet = gateMet, lm_moves = moves\<rparr>))))"

section \<open>Lists\<close>

record work_filter =
  wf_status :: "phase option"
  wf_role :: "string option"
  wf_holder :: "agent_id option"

definition matches_filter :: "work_filter \<Rightarrow> work_item \<Rightarrow> bool" where
  "matches_filter f w \<longleftrightarrow>
     (case wf_status f of None \<Rightarrow> True | Some ph \<Rightarrow> wi_status w = ph) \<and>
     (falsy_text (wf_role f) \<or> the (wf_role f) \<in> set (wi_roleEligibility w)) \<and>
     (falsy_text (wf_holder f) \<or> holds w (the (wf_holder f)))"

text \<open>A page of a read: the rows and whether it was cut off.\<close>

type_synonym work_page = "work_item list \<times> bool"

definition listWorkItems :: "sha256 \<Rightarrow> pin \<Rightarrow> work_filter \<Rightarrow> hub_store \<Rightarrow> wi_error + work_page" where
  "listWorkItems sha p f s =
     res_bind (currentGenerationItems sha p s) (\<lambda>current. case current of
         Some ws \<Rightarrow> (let matched = filter (matches_filter f) ws in Inr (take LIST_CAP matched, LIST_CAP < length matched))
       | None \<Rightarrow> (let items = list_work (matches_filter f) LIST_CAP s in Inr (items, LIST_CAP \<le> length items)))"

datatype empty_reason = WipCapped | NoClaimableReady

definition readyScanEmptyReason :: "nat \<Rightarrow> empty_reason option" where
  "readyScanEmptyReason n = (if n = 0 then Some NoClaimableReady else None)"

text \<open>The scan stops once \<open>limit\<close> claimable rows are collected.\<close>

fun collect_claimable :: "(string list \<Rightarrow> wi_error + string list) \<Rightarrow> nat \<Rightarrow> work_item list \<Rightarrow> wi_error + work_item list" where
  "collect_claimable unmet n [] = Inr []"
| "collect_claimable unmet n (w # ws) =
     (if n = 0 then Inr []
      else if wi_dependsOn w = [] then res_bind (collect_claimable unmet (n - 1) ws) (\<lambda>r. Inr (w # r))
      else res_bind (unmet (wi_dependsOn w)) (\<lambda>u.
        if u = [] then res_bind (collect_claimable unmet (n - 1) ws) (\<lambda>r. Inr (w # r))
        else collect_claimable unmet n ws))"

definition listReadyForRole :: "sha256 \<Rightarrow> pin \<Rightarrow> string option \<Rightarrow> int \<Rightarrow> agent_id option \<Rightarrow> hub_store
    \<Rightarrow> wi_error + work_page \<times> empty_reason option" where
  "listReadyForRole sha p role limit agentId s =
     res_bind (wip_capped sha p role agentId s) (\<lambda>capped.
     if capped then Inr (([], False), Some WipCapped)
     else res_bind (currentGenerationItems sha p s) (\<lambda>current.
       let listed = (case current of
             Some ws \<Rightarrow> filter (\<lambda>w. wi_status w = Ready \<and> \<not> isParkedFromExecution w) ws
           | None \<Rightarrow> filter (\<lambda>w. \<not> isParkedFromExecution w) (list_work (\<lambda>w. wi_status w = Ready) READY_SCAN_CAP s));
           truncated = (current = None \<and> READY_SCAN_CAP \<le> length listed);
           eligible = filter (role_open role) (filter (\<lambda>w. \<not> isFailedGateSealed w) listed)
       in res_bind (collect_claimable (\<lambda>ds. unmetDependencies sha p ds s) (nat limit) eligible) (\<lambda>claimable.
          Inr ((claimable, truncated), readyScanEmptyReason (length claimable)))))"

definition has_pending_notice :: "work_item \<Rightarrow> bool" where
  "has_pending_notice w \<longleftrightarrow> list_ex (\<lambda>i. falsy_text (pi_projectedMessageId i)) (wi_pendingRecallIntents w)"

definition listPendingRecallNoticeItems :: "int \<Rightarrow> hub_store \<Rightarrow> work_page" where
  "listPendingRecallNoticeItems limit s =
     (let cap = nat (min (max 1 limit) (int LIST_CAP));
          items = list_work (\<lambda>w. wi_recallNoticePending w = Some True) cap s
      in (filter has_pending_notice items, cap \<le> length items))"

end
