(* ===== verification/Rollup.thy ===== *)
theory Rollup
  imports Work_Queries Work_Safety
begin

text \<open>
  The depth-first roll-up over the leaves of an arc ends, needs no more fuel than it is given, and
  counts every reachable leaf exactly once: it agrees with the plain sum over the reachable leaves.
\<close>

section \<open>Completion edges\<close>

definition arc_edge :: "hub_store \<Rightarrow> string \<Rightarrow> string \<Rightarrow> bool" where
  "arc_edge s i j \<longleftrightarrow> (\<exists>w. getWorkItem i s = Some w \<and> j \<in> set (wi_completionDependsOn w))"

definition is_leaf :: "hub_store \<Rightarrow> string \<Rightarrow> bool" where
  "is_leaf s i \<longleftrightarrow> (\<exists>w. getWorkItem i s = Some w \<and> wi_completionDependsOn w = [])"

definition leaves_below :: "hub_store \<Rightarrow> string \<Rightarrow> string set" where
  "leaves_below s i = {j. (arc_edge s)\<^sup>*\<^sup>* i j \<and> is_leaf s j}"

definition existing :: "hub_store \<Rightarrow> string set" where
  "existing s = {i. getWorkItem i s \<noteq> None}"

lemma existing_finite: "finite (existing s)" "card (existing s) \<le> length (getKindStore WORK_KIND s)"
proof -
  have sub: "existing s \<subseteq> fst ` set (getKindStore WORK_KIND s)"
  proof
    fix i assume "i \<in> existing s"
    then obtain r where "find_row s WORK_KIND i = Some r"
      by (auto simp: existing_def getWorkItem_def get_work_at work_at_row)
    then have "(i, r) \<in> set (getKindStore WORK_KIND s)" by (simp add: find_row_def map_of_SomeD)
    then show "i \<in> fst ` set (getKindStore WORK_KIND s)" by force
  qed
  then show "finite (existing s)" by (rule finite_subset) simp
  have "card (existing s) \<le> card (fst ` set (getKindStore WORK_KIND s))" by (rule card_mono [OF _ sub]) simp
  also have "\<dots> \<le> length (getKindStore WORK_KIND s)" by (metis card_length length_map list.set_map)
  finally show "card (existing s) \<le> length (getKindStore WORK_KIND s)" .
qed

section \<open>The walk\<close>

definition contribution :: "hub_store \<Rightarrow> (work_item \<Rightarrow> 'a \<Rightarrow> 'a) \<Rightarrow> string \<Rightarrow> 'a \<Rightarrow> 'a" where
  "contribution s leaf i acc = (case getWorkItem i s of None \<Rightarrow> acc
     | Some w \<Rightarrow> if wi_completionDependsOn w = [] then leaf w acc else acc)"

abbreviation stored :: "hub_store \<Rightarrow> string \<Rightarrow> wi_error + work_item option" where
  "stored s \<equiv> \<lambda>i. Inr (getWorkItem i s)"

lemma legacy_stored: "(\<lambda>i. getCurrentProjectionItem sha LegacyPin i s) = stored s"
  by (simp add: fun_eq_iff getCurrentProjectionItem_def getWorkItem_def)

text \<open>
  What a walk adds to the visited ids: each id once, all of them below the start, and the accumulated value is the fold of
  the contributions in the order of the visits.
\<close>

definition walked :: "hub_store \<Rightarrow> (work_item \<Rightarrow> 'a \<Rightarrow> 'a) \<Rightarrow> string set \<Rightarrow> string list \<times> 'a \<Rightarrow> wi_error + string list \<times> 'a \<Rightarrow> bool" where
  "walked s leaf starts st r \<longleftrightarrow> (\<exists>new. r = Inr (new @ fst st, fold (contribution s leaf) (rev new) (snd st)) \<and>
     distinct new \<and> set new \<inter> set (fst st) = {} \<and> (\<forall>v \<in> set new. \<exists>i \<in> starts. (arc_edge s)\<^sup>*\<^sup>* i v))"

lemma walked_none: "walked s leaf A (V, acc) (Inr (V, acc))"
  by (auto simp: walked_def)

lemma walked_seq:
  assumes "walked s leaf A st (Inr st')" "walked s leaf B st' r"
  shows "walked s leaf (A \<union> B) st r"
proof -
  obtain new1 where 1: "st' = (new1 @ fst st, fold (contribution s leaf) (rev new1) (snd st))" "distinct new1"
    "set new1 \<inter> set (fst st) = {}" "\<forall>v \<in> set new1. \<exists>i \<in> A. (arc_edge s)\<^sup>*\<^sup>* i v"
    using assms(1) by (auto simp: walked_def)
  obtain new2 where 2: "r = Inr (new2 @ fst st', fold (contribution s leaf) (rev new2) (snd st'))" "distinct new2"
    "set new2 \<inter> set (fst st') = {}" "\<forall>v \<in> set new2. \<exists>i \<in> B. (arc_edge s)\<^sup>*\<^sup>* i v"
    using assms(2) by (auto simp: walked_def)
  show ?thesis
    unfolding walked_def by (rule exI [of _ "new2 @ new1"]) (use 1 2 in auto)
qed

lemma walked_visit:
  assumes "i \<notin> set V" "walked s leaf A (i # V, contribution s leaf i acc) r" "\<forall>j \<in> A. arc_edge s i j"
  shows "walked s leaf {i} (V, acc) r"
proof -
  obtain new where n: "r = Inr (new @ i # V, fold (contribution s leaf) (rev new) (contribution s leaf i acc))" "distinct new"
    "set new \<inter> insert i (set V) = {}" "\<forall>v \<in> set new. \<exists>j \<in> A. (arc_edge s)\<^sup>*\<^sup>* j v"
    using assms(2) by (auto simp: walked_def)
  have "(arc_edge s)\<^sup>*\<^sup>* i v" if "v \<in> set new" for v
    using n(4) assms(3) that by (meson converse_rtranclp_into_rtranclp)
  with n assms(1) show ?thesis
    unfolding walked_def by (intro exI [of _ "new @ [i]"]) auto
qed

lemma walk_shape:
  "walked s leaf {i} st (walk n (stored s) leaf i st)"
  "walked s leaf (set is) st (walk_all n (stored s) leaf is st)"
proof (induction n "stored s" leaf i st and n "stored s" leaf "is" st rule: walk_walk_all.induct)
  case (1 leaf i visited acc)
  then show ?case by (simp add: walked_none)
next
  case (2 n leaf i visited acc)
  show ?case
  proof (cases "i \<in> set visited")
    case True
    then show ?thesis by (simp add: walked_none)
  next
    case False
    show ?thesis
    proof (cases "\<exists>w. getWorkItem i s = Some w \<and> wi_completionDependsOn w \<noteq> []")
      case True
      then obtain w where w: "getWorkItem i s = Some w" "wi_completionDependsOn w \<noteq> []" by blast
      have "walked s leaf (set (wi_completionDependsOn w)) (i # visited, acc)
          (walk_all n (stored s) leaf (wi_completionDependsOn w) (i # visited, acc))"
        using "2.hyps" [OF False w(2)] by simp
      moreover have "contribution s leaf i acc = acc" using w by (simp add: contribution_def)
      moreover have "\<forall>j \<in> set (wi_completionDependsOn w). arc_edge s i j" using w(1) by (auto simp: arc_edge_def)
      ultimately show ?thesis using walked_visit [OF False, of s leaf "set (wi_completionDependsOn w)"] False w by simp
    next
      case none: False
      have "walk (Suc n) (stored s) leaf i (visited, acc) = Inr (i # visited, contribution s leaf i acc)"
        using False none by (cases "getWorkItem i s") (auto simp: contribution_def)
      then show ?thesis using walked_visit [OF False walked_none, of "{}"] by simp
    qed
  qed
next
  case (3 n leaf st)
  then show ?case by (cases st) (simp add: walked_none)
next
  case (4 n leaf i "is" st)
  obtain st' where st': "walk n (stored s) leaf i st = Inr st'" using "4.hyps"(1) by (auto simp: walked_def)
  from walked_seq [OF "4.hyps"(1) [unfolded st'] "4.hyps"(2)] show ?case by (simp add: st')
qed

section \<open>The fuel is enough\<close>

definition closed_over :: "hub_store \<Rightarrow> string set \<Rightarrow> string set \<Rightarrow> bool" where
  "closed_over s V V' \<longleftrightarrow> V \<subseteq> V' \<and> (\<forall>v \<in> V' - V. \<forall>j. arc_edge s v j \<longrightarrow> j \<in> V')"

lemma closed_over_trans:
  assumes "closed_over s U V" "closed_over s V W"
  shows "closed_over s U W"
  unfolding closed_over_def
proof (intro conjI ballI allI impI)
  have UV: "U \<subseteq> V" and VW: "V \<subseteq> W" using assms by (simp_all add: closed_over_def)
  then show "U \<subseteq> W" by (rule order_trans)
  fix v j
  assume v: "v \<in> W - U" and edge: "arc_edge s v j"
  show "j \<in> W"
  proof (cases "v \<in> V")
    case True
    with v have "v \<in> V - U" by simp
    with assms(1) edge have "j \<in> V" unfolding closed_over_def by blast
    with VW show ?thesis by (rule subsetD)
  next
    case False
    with v have "v \<in> W - V" by simp
    with assms(2) edge show ?thesis unfolding closed_over_def by blast
  qed
qed

lemma closed_over_step:
  assumes "closed_over s (insert i V) V'" "\<And>j. arc_edge s i j \<Longrightarrow> j \<in> V'"
  shows "closed_over s V V'"
  unfolding closed_over_def
proof (intro conjI ballI allI impI)
  show "V \<subseteq> V'" using assms(1) by (simp add: closed_over_def)
  fix v j
  assume v: "v \<in> V' - V" and edge: "arc_edge s v j"
  show "j \<in> V'"
  proof (cases "v = i")
    case True
    with edge assms(2) show ?thesis by simp
  next
    case False
    with v have "v \<in> V' - insert i V" by simp
    with assms(1) edge show ?thesis unfolding closed_over_def by blast
  qed
qed

lemma walk_closed:
  "card (existing s - set (fst st)) < n \<Longrightarrow> walk n (stored s) leaf i st = Inr st' \<Longrightarrow>
     closed_over s (set (fst st)) (set (fst st')) \<and> i \<in> set (fst st')"
  "card (existing s - set (fst st)) < n \<Longrightarrow> walk_all n (stored s) leaf is st = Inr st' \<Longrightarrow>
     closed_over s (set (fst st)) (set (fst st')) \<and> set is \<subseteq> set (fst st')"
proof (induction n "stored s" leaf i st and n "stored s" leaf "is" st arbitrary: st' and st' rule: walk_walk_all.induct)
  case (2 n leaf i visited acc)
  show ?case
  proof (cases "i \<in> set visited")
    case True
    with "2.prems"(2) show ?thesis by (auto simp: closed_over_def)
  next
    case False
    show ?thesis
    proof (cases "\<exists>w. getWorkItem i s = Some w \<and> wi_completionDependsOn w \<noteq> []")
      case True
      then obtain w where w: "getWorkItem i s = Some w" "wi_completionDependsOn w \<noteq> []" by blast
      then have run: "walk_all n (stored s) leaf (wi_completionDependsOn w) (i # visited, acc) = Inr st'"
        using "2.prems"(2) False by simp
      have "i \<in> existing s - set visited" using w(1) False by (simp add: existing_def)
      then have "card (existing s - set (i # visited)) < card (existing s - set visited)"
        using existing_finite(1) [of s] by (intro psubset_card_mono) auto
      then have "card (existing s - set (fst (i # visited, acc))) < n" using "2.prems"(1) by simp
      from "2.hyps" [OF False w(2) this run]
      have c: "closed_over s (insert i (set visited)) (set (fst st'))" and kids: "set (wi_completionDependsOn w) \<subseteq> set (fst st')"
        by simp_all
      have edge: "arc_edge s i j \<Longrightarrow> j \<in> set (fst st')" for j using w(1) kids by (auto simp: arc_edge_def)
      have "closed_over s (set visited) (set (fst st'))"
        using closed_over_step [OF c edge] .
      moreover have "i \<in> set (fst st')" using c by (auto simp: closed_over_def)
      ultimately show ?thesis by simp
    next
      case none: False
      have "walk (Suc n) (stored s) leaf i (visited, acc) = Inr (i # visited, contribution s leaf i acc)"
        using False none by (cases "getWorkItem i s") (auto simp: contribution_def)
      with "2.prems"(2) have "fst st' = i # visited" by auto
      moreover have "\<not> arc_edge s i j" for j using none by (auto simp: arc_edge_def)
      ultimately show ?thesis by (auto simp: closed_over_def)
    qed
  qed
next
  case (4 n leaf i "is" st)
  obtain st1 where st1: "walk n (stored s) leaf i st = Inr st1" "walk_all n (stored s) leaf is st1 = Inr st'"
    using "4.prems"(2) by (auto simp: res_bind_Inr_iff)
  have 1: "closed_over s (set (fst st)) (set (fst st1))" "i \<in> set (fst st1)"
    using "4.hyps"(1) [OF "4.prems"(1) st1(1)] by blast+
  then have "card (existing s - set (fst st1)) \<le> card (existing s - set (fst st))"
    using existing_finite(1) [of s] by (intro card_mono) (auto simp: closed_over_def)
  with "4.prems"(1) have "card (existing s - set (fst st1)) < n" by simp
  from "4.hyps"(2) [OF this st1(2)] have 2: "closed_over s (set (fst st1)) (set (fst st'))" "set is \<subseteq> set (fst st')"
    by blast+
  have "i \<in> set (fst st')" using 1(2) 2(1) unfolding closed_over_def by blast
  with closed_over_trans [OF 1(1) 2(1)] 2(2) show ?case by simp
qed (auto simp: closed_over_def)

lemma walk_reaches:
  assumes "walk (walk_fuel s) (stored s) leaf i ([], acc) = Inr (V, acc')"
  shows "{j. (arc_edge s)\<^sup>*\<^sup>* i j} \<subseteq> set V"
proof -
  have "card (existing s - set []) < walk_fuel s"
    using existing_finite(2) [of s] by (simp add: walk_fuel_def)
  then have c: "closed_over s {} (set V)" "i \<in> set V"
    using walk_closed(1) [of s "([], acc)" "walk_fuel s" leaf i "(V, acc')"] assms by simp_all
  have "j \<in> set V" if "(arc_edge s)\<^sup>*\<^sup>* i j" for j
    using that by (induction rule: rtranclp_induct) (use c in \<open>auto simp: closed_over_def\<close>)
  then show ?thesis by blast
qed

section \<open>The roll-up\<close>

lemma rollup_leaves:
  "\<exists>xs V. distinct xs \<and> set xs = leaves_below s i \<and>
    walk (walk_fuel s) (stored s) leaf i ([], acc) = Inr (V, fold (\<lambda>j. leaf (the (getWorkItem j s))) xs acc)"
proof -
  obtain V where V: "walk (walk_fuel s) (stored s) leaf i ([], acc) = Inr (V, fold (contribution s leaf) (rev V) acc)"
    "distinct V" "\<forall>v \<in> set V. (arc_edge s)\<^sup>*\<^sup>* i v"
    using walk_shape(1) [of s leaf i "([], acc)" "walk_fuel s"] by (auto simp: walked_def)
  let ?xs = "filter (is_leaf s) (rev V)"
  have "set V = {j. (arc_edge s)\<^sup>*\<^sup>* i j}" using walk_reaches [OF V(1)] V(3) by blast
  then have "set ?xs = leaves_below s i" by (auto simp: leaves_below_def)
  moreover have "fold (contribution s leaf) ys acc = fold (\<lambda>j. leaf (the (getWorkItem j s))) (filter (is_leaf s) ys) acc" for ys
    by (induction ys arbitrary: acc) (auto simp: contribution_def is_leaf_def split: option.split)
  ultimately show ?thesis using V(1,2) by (intro exI [of _ ?xs] exI [of _ V]) simp
qed


end
