(* ===== verification/Query_Properties.thy ===== *)
theory Query_Properties
  imports Recall_Outcomes Work_Cap Rollup
begin

text \<open>
  The projections tell the truth: the ready queue of an agent lists rows it can claim and hides none that it could,
  and the moves a row advertises are the ones its verbs accept.
\<close>

section \<open>The ready queue\<close>

lemma collect_claimable_legacy:
  assumes "collect_claimable (\<lambda>ds. unmetDependencies sha LegacyPin ds s) n ws = Inr cs"
  shows "cs = take n (filter (\<lambda>w. \<forall>d \<in> set (wi_dependsOn w). dependency_met s d) ws)"
  using assms
proof (induction ws arbitrary: n cs)
  case (Cons w ws)
  show ?case
  proof (cases n)
    case 0
    with Cons.prems show ?thesis by simp
  next
    case (Suc m)
    show ?thesis
    proof (cases "\<forall>d \<in> set (wi_dependsOn w). dependency_met s d")
      case True
      then obtain r where "collect_claimable (\<lambda>ds. unmetDependencies sha LegacyPin ds s) m ws = Inr r" "cs = w # r"
        using Cons.prems Suc by (auto simp: unmet_legacy filter_empty_conv res_bind_Inr_iff split: if_splits)
      with Cons.IH True Suc show ?thesis by simp
    next
      case False
      then have "collect_claimable (\<lambda>ds. unmetDependencies sha LegacyPin ds s) n ws = Inr cs"
        using Cons.prems Suc by (auto simp: unmet_legacy filter_empty_conv res_bind_Inr_iff split: if_splits)
      from Cons.IH [OF this] False show ?thesis by auto
    qed
  qed
qed (simp split: if_splits)

lemma role_open_eligible: "\<not> falsy_text role \<Longrightarrow> role_open role w \<longleftrightarrow> role_eligible w role"
  by (auto simp: role_open_def role_eligible_def)

lemma all_work_get: "hub_ok s \<Longrightarrow> w \<in> set (all_work s) \<longleftrightarrow> getWorkItem (wi_id w) s = Some w"
  by (auto simp: all_work_ids(2) getWorkItem_def get_work_at)

text \<open>The rows of the queue: a prefix of the claimable ones, in the order of the store, within the scan.\<close>

lemma ready_queue_eq:
  assumes "hub_ok s" "\<not> falsy_text role" "listReadyForRole sha LegacyPin role limit (Some a) s = Inr ((ws, tr), why)"
    and "\<not> (\<exists>n. inFlightCount sha LegacyPin a (wipCap role) s = Inr n \<and> wipCap role \<le> n)"
  shows "ws = take (nat limit) (filter (\<lambda>w. claimable w role s)
    (take READY_SCAN_CAP (filter (\<lambda>w. wi_status w = Ready) (all_work s))))"
proof -
  have list: "list_work (\<lambda>w. wi_status w = Ready) READY_SCAN_CAP s = take READY_SCAN_CAP (filter (\<lambda>w. wi_status w = Ready) (all_work s))"
    by (simp add: list_work_eq READY_SCAN_CAP_def)
  let ?el = "filter (role_open role) (filter (\<lambda>w. \<not> isFailedGateSealed w) (filter (\<lambda>w. \<not> isParkedFromExecution w)
      (take READY_SCAN_CAP (filter (\<lambda>w. wi_status w = Ready) (all_work s)))))"
  have "collect_claimable (\<lambda>ds. unmetDependencies sha LegacyPin ds s) (nat limit) ?el = Inr ws"
    using assms(3,4)
    by (auto simp: listReadyForRole_def wip_capped_def currentGenerationItems_def Let_def list res_bind_Inr_iff split: if_splits)
  then have "ws = take (nat limit) (filter (\<lambda>w. \<forall>d \<in> set (wi_dependsOn w). dependency_met s d) ?el)"
    by (rule collect_claimable_legacy)
  moreover have "filter (\<lambda>w. \<forall>d \<in> set (wi_dependsOn w). dependency_met s d) ?el = filter (\<lambda>w. claimable w role s)
    (take READY_SCAN_CAP (filter (\<lambda>w. wi_status w = Ready) (all_work s)))"
    unfolding filter_filter by (rule filter_cong [OF refl])
      (auto simp: claimable_def role_open_eligible [OF assms(2)] dest!: in_set_takeD)
  ultimately show ?thesis by simp
qed

lemma claim_possible:
  assumes "hub_run sha t s" "read_pin s = Inr LegacyPin" "getWorkItem i s = Some w" "claimable w role s"
    "inFlightCount sha LegacyPin a (wipCap role) s = Inr n" "n < wipCap role"
  shows "\<exists>w' s'. claimWorkItem sha now uuid i a role s = (Inr (Some w'), s')"
proof -
  obtain rv where "work_at i s = Some (w, rv)" by (rule run_get [OF assms(1,3)])
  from claim_run [OF run_ok [OF assms(1)] this assms(2,5,6,4)] show ?thesis by blast
qed



section \<open>Legal moves\<close>

definition advertised :: "legal_moves \<Rightarrow> verb \<Rightarrow> bool" where
  "advertised m v \<longleftrightarrow> (v, None) \<in> set (lm_moves m)"

lemma move_mem: "(v, None) = move v' b r \<longleftrightarrow> v = v' \<and> b"
  by (auto simp: move_def)

lemma holder_move_mem: "(v, None) = holder_move v' h b ph \<longleftrightarrow> v = v' \<and> h \<and> b"
  by (auto simp: holder_move_def move_mem)

lemma withdrawn_mem: "(v, None) \<in> set (withdraw_moves w c moves) \<longleftrightarrow> (v, None) \<in> set moves \<and>
    (v \<in> {VUnpause, VReset} \<or> v = VAbandon \<and> fst (evaluateSuspendedDisposalAuthority w
            \<lparr>ac_role = (case ca_role c of None \<Rightarrow> ''unknown'' | Some r \<Rightarrow> r), ac_agentId = ca_agentId c\<rparr>
            (map_option le_token (wi_lease w))))"
  by (auto simp: withdraw_moves_def Let_def image_iff split: if_splits) force+

lemma role_moves_mem:
  "(v, None) \<in> set (role_moves p w c gate creator) \<longleftrightarrow>
     (let holder = holds w (ca_agentId c); steward = (case ca_role c of None \<Rightarrow> False | Some r \<Rightarrow> is_steward r) in
      v = VStart \<and> holder \<and> wi_status w = Claimed \<or> v = VBlock \<and> holder \<and> wi_status w = InProgress \<or>
      v = VResume \<and> holder \<and> wi_status w = Blocked \<or> v = VRenew \<and> holder \<and> wi_status w \<in> set LEASE_HELD_PHASES \<or>
      v = VRelease \<and> holder \<and> wi_status w \<in> set RELEASABLE_PHASES \<or>
      v = VAbandon \<and> (holder \<and> wi_status w \<in> set RELEASABLE_PHASES \<or>
        is_creator w (ca_agentId c) \<and> (wi_status w \<in> set RELEASABLE_PHASES \<or> wi_status w = Ready) \<or> steward \<and> isParkedFromExecution w) \<or>
      v = VComplete \<and> holder \<and> wi_status w \<in> set COMPLETABLE_PHASES \<and> gate \<or>
      v = VPause \<and> (if wi_status w = Ready then creator = Some (ca_agentId c) \<or> steward else steward) \<and>
        wi_status w \<in> {Ready, Claimed, InProgress, Blocked} \<or>
      v = VUnpause \<and> (steward \<or> creator = Some (ca_agentId c) \<and> falsy_text (ri_predecessorPhysicalId (wi_revisionIdentity w)) \<and>
            map_option (ac_agentId \<circ> rh_actor) (at_last (wi_recallHistory w)) = Some (ca_agentId c)) \<and> isParkedFromExecution w \<or>
      v = VReset \<and> isParkedFromExecution w \<and> steward)"
  unfolding role_moves_def Let_def list.set insert_iff empty_iff move_mem holder_move_mem by argo

lemma row_verb_granted:
  assumes "hub_ok s" "read_pin s = Inr LegacyPin" "verb_transform sha now f" "work_at i s = Some (w, rv)"
  shows "(\<exists>w' s'. row_verb sha i f s = (Inr (Some w'), s')) \<longleftrightarrow> (\<exists>w'. f s w rv = Inr w')"
proof -
  have ids: "keeps_id f" by (rule verb_transform_keeps_id [OF assms(3)])
  have "row_verb sha i f s = tryCasUpdate sha LegacyPin i f s"
    unfolding row_verb_def using fence_try_eq [OF assms(1), of "\<lambda>_. f"] ids assms(2) by simp
  then show ?thesis
    using assms(4) by (auto simp: tryCasUpdate_eq [OF assms(1) ids] split: sum.splits)
qed

text \<open>The moves on an open row of a legacy hub, verb by verb.\<close>

lemma legal_moves_open:
  assumes "getLegalMoves sha LegacyPin i c s = Inr (Some m)" "getWorkItem i s = Some w" "wi_status w \<noteq> Paused"
  defines "a \<equiv> ca_agentId c"
  shows "advertised m VStart \<longleftrightarrow> \<not> isFailedGateSealed w \<and> \<not> isParkedFromExecution w \<and> holds w a \<and> wi_status w = Claimed"
    "advertised m VBlock \<longleftrightarrow> \<not> isFailedGateSealed w \<and> \<not> isParkedFromExecution w \<and> holds w a \<and> wi_status w = InProgress"
    "advertised m VResume \<longleftrightarrow> \<not> isFailedGateSealed w \<and> \<not> isParkedFromExecution w \<and> holds w a \<and> wi_status w = Blocked"
    "advertised m VRelease \<longleftrightarrow> \<not> isFailedGateSealed w \<and> \<not> isParkedFromExecution w \<and> holds w a \<and> wi_status w \<in> set RELEASABLE_PHASES"
    "advertised m VClaim \<longleftrightarrow> claimable w (ca_role c) s \<and>
       (\<exists>n. inFlightCount sha LegacyPin a (wipCap (ca_role c)) s = Inr n \<and> n < wipCap (ca_role c))"
    "advertised m VAbandon \<longleftrightarrow> \<not> isFailedGateSealed w \<and> abandon_allowed w a (map_option le_token (wi_lease w)) (ca_role c)"
proof -
  have sealed: "isFailedGateSealed w \<Longrightarrow> \<not> advertised m v" for v
    using assms(1,2) by (auto simp: getLegalMoves_def no_moves_def advertised_def)
  have paused: "isParkedFromExecution w \<longleftrightarrow> isActivelyWithdrawn w"
    using assms(3) by (simp add: isParkedFromExecution_def isActivelyWithdrawn_def)
  have held: "holds_with_token w a (map_option le_token (wi_lease w)) \<longleftrightarrow> holds w a"
    by (auto simp: holds_with_token_def holds_def split: option.split)
  have moves: "\<exists>claim gate. claim_move sha LegacyPin w c s = Inr claim \<and>
      lm_moves m = (if isParkedFromExecution w
        then withdraw_moves w c (claim # role_moves LegacyPin w c gate (map_option ac_agentId (wi_createdBy w)))
        else claim # role_moves LegacyPin w c gate (map_option ac_agentId (wi_createdBy w)))"
    if open_row: "\<not> isFailedGateSealed w"
  proof -
    obtain g mvs where "open_moves sha LegacyPin w c s = Inr (g, mvs)" "lm_moves m = mvs"
      using assms(1,2) open_row by (auto simp: getLegalMoves_def Let_def res_bind_Inr_iff)
    then show ?thesis unfolding open_moves_def originalCreatorAgentId_def Let_def
      by (auto simp only: res_bind_Inr_iff pin.case sum.inject prod.inject) metis
  qed
  have claim: "(VClaim, None) = mv \<longleftrightarrow> wi_status w = Ready \<and> role_eligible w (ca_role c) \<and> (\<forall>d \<in> set (wi_dependsOn w). dependency_met s d) \<and>
       (\<exists>n. inFlightCount sha LegacyPin a (wipCap (ca_role c)) s = Inr n \<and> n < wipCap (ca_role c))"
    "v \<noteq> VClaim \<Longrightarrow> (v, None) \<noteq> mv"
    if "claim_move sha LegacyPin w c s = Inr mv" for mv v
    using that by (auto simp: claim_move_def a_def unmet_legacy filter_empty_conv res_bind_Inr_iff move_mem move_def split: if_splits)
  have adv: "advertised m v \<longleftrightarrow> ((v, None) = mv \<or> (v, None) \<in> set (role_moves LegacyPin w c gate (map_option ac_agentId (wi_createdBy w)))) \<and>
      (isParkedFromExecution w \<longrightarrow> v \<in> {VUnpause, VReset} \<or> v = VAbandon \<and> fst (evaluateSuspendedDisposalAuthority w
            \<lparr>ac_role = (case ca_role c of None \<Rightarrow> ''unknown'' | Some r \<Rightarrow> r), ac_agentId = ca_agentId c\<rparr>
            (map_option le_token (wi_lease w))))"
    if "lm_moves m = (if isParkedFromExecution w
        then withdraw_moves w c (mv # role_moves LegacyPin w c gate (map_option ac_agentId (wi_createdBy w)))
        else mv # role_moves LegacyPin w c gate (map_option ac_agentId (wi_createdBy w)))" for v mv gate
    unfolding advertised_def that by (simp add: withdrawn_mem)
  have cases: "isFailedGateSealed w \<and> \<not> advertised m v \<or> \<not> isFailedGateSealed w \<and>
      (\<exists>mv gate. claim_move sha LegacyPin w c s = Inr mv \<and> (advertised m v \<longleftrightarrow>
        ((v, None) = mv \<or> (v, None) \<in> set (role_moves LegacyPin w c gate (map_option ac_agentId (wi_createdBy w)))) \<and>
        (isParkedFromExecution w \<longrightarrow> v \<in> {VUnpause, VReset} \<or> v = VAbandon \<and> fst (evaluateSuspendedDisposalAuthority w
            \<lparr>ac_role = (case ca_role c of None \<Rightarrow> ''unknown'' | Some r \<Rightarrow> r), ac_agentId = ca_agentId c\<rparr>
            (map_option le_token (wi_lease w))))))" for v
    using sealed moves adv by metis
  show "advertised m VStart \<longleftrightarrow> \<not> isFailedGateSealed w \<and> \<not> isParkedFromExecution w \<and> holds w a \<and> wi_status w = Claimed"
    using cases [of VStart] claim(2) [of _ VStart] by (auto simp: role_moves_mem a_def Let_def)
  show "advertised m VBlock \<longleftrightarrow> \<not> isFailedGateSealed w \<and> \<not> isParkedFromExecution w \<and> holds w a \<and> wi_status w = InProgress"
    using cases [of VBlock] claim(2) [of _ VBlock] by (auto simp: role_moves_mem a_def Let_def)
  show "advertised m VResume \<longleftrightarrow> \<not> isFailedGateSealed w \<and> \<not> isParkedFromExecution w \<and> holds w a \<and> wi_status w = Blocked"
    using cases [of VResume] claim(2) [of _ VResume] by (auto simp: role_moves_mem a_def Let_def)
  show "advertised m VRelease \<longleftrightarrow> \<not> isFailedGateSealed w \<and> \<not> isParkedFromExecution w \<and> holds w a \<and> wi_status w \<in> set RELEASABLE_PHASES"
    using cases [of VRelease] claim(2) [of _ VRelease] by (auto simp: role_moves_mem a_def Let_def)
  show "advertised m VClaim \<longleftrightarrow> claimable w (ca_role c) s \<and>
       (\<exists>n. inFlightCount sha LegacyPin a (wipCap (ca_role c)) s = Inr n \<and> n < wipCap (ca_role c))"
    using cases [of VClaim] claim(1) by (auto simp: role_moves_mem claimable_def Let_def)
  show "advertised m VAbandon \<longleftrightarrow> \<not> isFailedGateSealed w \<and> abandon_allowed w a (map_option le_token (wi_lease w)) (ca_role c)"
    using cases [of VAbandon] claim(2) [of _ VAbandon] held paused
    by (cases "ca_role c") (auto simp: role_moves_mem abandon_allowed_def a_def Let_def)
qed

lemma run_not_paused: "hub_run sha t s \<Longrightarrow> getWorkItem i s = Some w \<Longrightarrow> wi_status w \<noteq> Paused"
  using run_lease by (simp add: lease_ok_def)

lemma holder_may_act:
  "may_act w a tk \<longleftrightarrow> \<not> isFailedGateSealed w \<and> \<not> isParkedFromExecution w \<and> holds w a \<and> map_option le_token (wi_lease w) = Some tk"
  by (auto simp: may_act_def holds_with_token_def holds_def split: option.splits)


definition demo_caller :: caller where
  "demo_caller = \<lparr>ca_agentId = ''eng'', ca_role = Some ''engineer''\<rparr>"


section \<open>The next action\<close>

lemma ready_child_legacy:
  assumes "\<not> falsy_text role"
  shows "ready_child sha LegacyPin role s i =
    Inr (case getWorkItem i s of None \<Rightarrow> None | Some c \<Rightarrow> if claimable c role s then Some c else None)"
  using role_open_eligible [OF assms]
  by (auto simp: ready_child_def getCurrentProjectionItem_def getWorkItem_def unmet_legacy claimable_def filter_empty_conv
      split: option.split)

lemma hd_two_sorts:
  fixes f :: "'a \<Rightarrow> 'b::linorder" and g :: "'a \<Rightarrow> 'c::linorder"
  assumes "x \<in> set xs"
  defines "h \<equiv> hd (sort_key f (sort_key g xs))"
  shows "h \<in> set xs" "f h < f x \<or> f h = f x \<and> g h \<le> g x"
proof -
  let ?ys = "sort_key f (sort_key g xs)"
  have ne: "?ys \<noteq> []" using assms(1) by (metis empty_iff list.set(1) set_sort)
  then obtain t where ys: "?ys = h # t" by (metis h_def list.collapse)
  then show "h \<in> set xs" by (metis list.set_intros(1) set_sort)
  have x: "x \<in> set ?ys" using assms(1) by simp
  have le: "f h \<le> f x" using sorted_sort_key [of f "sort_key g xs"] x unfolding ys by auto
  show "f h < f x \<or> f h = f x \<and> g h \<le> g x"
  proof (cases "f h = f x")
    case True
    let ?P = "\<lambda>y. f y = f h"
    have "filter ?P ?ys = filter ?P (sort_key g xs)" by (rule sort_key_stable)
    then have "h # filter ?P t = filter ?P (sort_key g xs)" unfolding ys by simp
    moreover have "sorted (map g (filter ?P (sort_key g xs)))" by (rule sorted_filter [OF sorted_sort_key])
    moreover have "x \<in> set (h # filter ?P t)" using x True unfolding ys by auto
    ultimately have "g h \<le> g x" by (metis (no_types, lifting) list.set_intros(1) order_refl set_ConsD sorted_simps(2) image_eqI list.set_map list.simps(9))
    with True show ?thesis by simp
  next
    case False
    with le show ?thesis by simp
  qed
qed

lemma map_res_Inr: "map_res (\<lambda>x. Inr (f x)) xs = Inr (map f xs)"
  by (induction xs) auto

text \<open>The children of an arc that are claimable now, in the order the arc lists them.\<close>

definition claimable_children :: "work_item \<Rightarrow> string option \<Rightarrow> hub_store \<Rightarrow> work_item list" where
  "claimable_children arc role s =
     filter (\<lambda>c. claimable c role s) (List.map_filter (\<lambda>i. getWorkItem i s) (wi_completionDependsOn arc))"

lemma ready_children_eq:
  "List.map_filter id (map (\<lambda>i. case getWorkItem i s of None \<Rightarrow> None
     | Some c \<Rightarrow> if claimable c role s then Some c else None) is)
   = filter (\<lambda>c. claimable c role s) (List.map_filter (\<lambda>i. getWorkItem i s) is)"
  by (induction "is") (auto simp: List.map_filter_simps split: option.split)

lemma getNextAction_legacy:
  assumes "\<not> falsy_text role" "getWorkItem i s = Some arc" "inFlightCount sha LegacyPin a (wipCap role) s = Inr n"
  shows "getNextAction sha LegacyPin i role (Some a) s = Inr (Some
    (if wipCap role \<le> n
     then \<lparr>na_arcId = i, na_generation = None, na_topologyHash = None, na_nextAction = None, na_readyCandidates = 0,
            na_hasChildren = (wi_completionDependsOn arc \<noteq> []), na_wipCapped = True\<rparr>
     else let cs = sort_key (priority_rank \<circ> wi_priority) (sort_key wi_id (claimable_children arc role s)) in
          \<lparr>na_arcId = i, na_generation = None, na_topologyHash = None,
           na_nextAction = (if cs = [] then None else Some (hd cs)), na_readyCandidates = length cs,
           na_hasChildren = (wi_completionDependsOn arc \<noteq> []), na_wipCapped = False\<rparr>))"
proof -
  have arc: "getCurrentProjectionItem sha LegacyPin i s = Inr (Some arc)"
    using assms(2) by (simp add: getCurrentProjectionItem_def getWorkItem_def)
  have kids: "List.map_filter id (map (\<lambda>i. case getWorkItem i s of None \<Rightarrow> None
      | Some c \<Rightarrow> if claimable c role s then Some c else None) (wi_completionDependsOn arc)) = claimable_children arc role s"
    unfolding claimable_children_def by (rule ready_children_eq)
  have ready: "map_res (ready_child sha LegacyPin role s) (wi_completionDependsOn arc) =
    Inr (map (\<lambda>i. case getWorkItem i s of None \<Rightarrow> None
      | Some c \<Rightarrow> if claimable c role s then Some c else None) (wi_completionDependsOn arc))"
    unfolding ready_child_legacy [OF assms(1), abs_def] by (rule map_res_Inr)
  show ?thesis
    by (simp add: getNextAction_def wip_capped_def arc assms(3) ready kids observed_generation_def observed_hash_def Let_def)
qed

lemma claimable_children_iff:
  "c \<in> set (claimable_children arc role s) \<longleftrightarrow>
    (\<exists>i \<in> set (wi_completionDependsOn arc). getWorkItem i s = Some c) \<and> claimable c role s"
  by (force simp: claimable_children_def List.map_filter_def image_iff)

text \<open>
  The next action of an arc is a child the caller can claim at once, the most urgent one.  In a run that never had a
  topology generation, the answer to an agent at its cap names no child and counts none, even where children are claimable; to
  any other agent it counts exactly the claimable children, and names one whenever there is one: a child whose claim by
  that agent succeeds, and no claimable child precedes it by priority and then by id.
\<close>

theorem next_action_exact:
  assumes "hub_run sha t s" "read_pin s = Inr LegacyPin" "\<not> falsy_text role" "getWorkItem i s = Some arc"
    and "getNextAction sha LegacyPin i role (Some a) s = Inr (Some na)"
  shows "if na_wipCapped na
    then na_nextAction na = None \<and> na_readyCandidates na = 0 \<and>
      (\<exists>n. inFlightCount sha LegacyPin a (wipCap role) s = Inr n \<and> wipCap role \<le> n)
    else na_readyCandidates na = length (claimable_children arc role s) \<and>
      (case na_nextAction na of
         None \<Rightarrow> claimable_children arc role s = []
       | Some c \<Rightarrow> c \<in> set (claimable_children arc role s) \<and>
           (\<exists>w' s'. claimWorkItem sha now uuid (wi_id c) a role s = (Inr (Some w'), s')) \<and>
           (\<forall>d \<in> set (claimable_children arc role s). priority_rank (wi_priority c) < priority_rank (wi_priority d) \<or>
              wi_priority c = wi_priority d \<and> wi_id c \<le> wi_id d))"
proof -
  obtain n where n: "inFlightCount sha LegacyPin a (wipCap role) s = Inr n" by (simp add: inFlightCount_def)
  note eq = getNextAction_legacy [OF assms(3,4) n] and ok = run_ok [OF assms(1)]
  show ?thesis
  proof (cases "wipCap role \<le> n")
    case True
    with eq assms(5) n show ?thesis by auto
  next
    case False
    let ?kids = "claimable_children arc role s"
    let ?cs = "sort_key (priority_rank \<circ> wi_priority) (sort_key wi_id ?kids)"
    from eq assms(5) False have na: "\<not> na_wipCapped na" "na_readyCandidates na = length ?kids"
      "na_nextAction na = (if ?cs = [] then None else Some (hd ?cs))" by (auto simp: Let_def)
    have rank: "priority_rank p = priority_rank q \<longleftrightarrow> p = q" for p q by (cases p; cases q) auto
    have empty: "?cs = [] \<longleftrightarrow> ?kids = []" by (metis length_0_conv length_sort)
    show ?thesis
    proof (cases "?kids = []")
      case True
      with na empty show ?thesis by simp
    next
      case ne: False
      then obtain d0 where d0: "d0 \<in> set ?kids" by (metis list.set_intros(1) neq_Nil_conv)
      let ?c = "hd ?cs"
      have c: "?c \<in> set ?kids" by (rule hd_two_sorts(1) [OF d0])
      then obtain j where j: "getWorkItem j s = Some ?c" "claimable ?c role s" unfolding claimable_children_iff by blast
      then have "getWorkItem (wi_id ?c) s = Some ?c" using run_get [OF assms(1) j(1)] work_at_id [OF ok] by metis
      from claim_possible [OF assms(1,2) this j(2) n] False
      have claim: "\<exists>w' s'. claimWorkItem sha now uuid (wi_id ?c) a role s = (Inr (Some w'), s')" by simp
      have least: "priority_rank (wi_priority ?c) < priority_rank (wi_priority d) \<or> wi_priority ?c = wi_priority d \<and> wi_id ?c \<le> wi_id d"
        if "d \<in> set ?kids" for d
        using hd_two_sorts(2) [OF that, of "priority_rank \<circ> wi_priority" wi_id] by (simp add: rank)
      have some: "na_nextAction na = Some ?c" using na(3) ne empty by simp
      show ?thesis unfolding some using na(1,2) c claim least by simp
    qed
  qed
qed

text \<open>An arc over the item of the demo hub, before anybody claimed it.\<close>

definition hub_arc :: hub_store where
  "hub_arc = snd (createWorkItem 120 (demo_input\<lparr>ci_completionDependsOn := Some [''work-1'']\<rparr>) hub_1)"

lemma hub_arc_run: "hub_run demo_sha 120 hub_arc"
  using run_event [OF run_wait [OF hub_1_run, of 120], of "Request (RCreate (demo_input\<lparr>ci_completionDependsOn := Some [''work-1'']\<rparr>))"]
  by (simp add: hub_arc_def)

theorem next_action_exact_witness:
  "\<exists>na c w' s'. getNextAction demo_sha LegacyPin ''work-2'' (Some ''engineer'') (Some ''eng'') hub_arc = Inr (Some na) \<and>
     na_nextAction na = Some c \<and> claimWorkItem demo_sha 200 ''tok'' (wi_id c) ''eng'' (Some ''engineer'') hub_arc = (Inr (Some w'), s')"
proof -
  let ?q = "getNextAction demo_sha LegacyPin ''work-2'' (Some ''engineer'') (Some ''eng'') hub_arc"
  have "case ?q of Inr (Some na) \<Rightarrow> \<not> na_wipCapped na \<and> na_nextAction na \<noteq> None | _ \<Rightarrow> False" by code_simp
  then obtain na c where na: "?q = Inr (Some na)" "\<not> na_wipCapped na" "na_nextAction na = Some c"
    by (auto split: sum.splits option.splits)
  have "getWorkItem ''work-2'' hub_arc \<noteq> None" "read_pin hub_arc = Inr LegacyPin" "\<not> falsy_text (Some ''engineer'')" by code_simp+
  then obtain arc where "getWorkItem ''work-2'' hub_arc = Some arc" "read_pin hub_arc = Inr LegacyPin" "\<not> falsy_text (Some ''engineer'')"
    by auto
  from next_action_exact [OF hub_arc_run this(2,3,1) na(1), of 200 "''tok''"] na show ?thesis by auto
qed

end
