(* ===== verification/Entity_Kind.thy ===== *)
theory Entity_Kind
  imports Counter
begin

text \<open>
  What the repositories of one kind of row share: reading a row of the kind, updating it in the read, transform,
  compare-and-set loop (\<open>casUpdateOrThrow\<close> of the threads, \<open>tryCasUpdate\<close> of the decisions, the loops of the messages),
  creating one and listing them.  The locale states what a repository must know of its kind; its lemmas say what the
  loop does when nobody interferes, what it does when others do, and how an invariant of the rows or a relation
  between a row's earlier and later contents follows from the transforms alone.
\<close>

section \<open>Operations on the rows of a kind\<close>

definition row_of :: "(hub_entity \<Rightarrow> 'r option) \<Rightarrow> string \<Rightarrow> string \<Rightarrow> hub_store \<Rightarrow> 'r option" where
  "row_of dest K i s = Option.bind (get_op K i s) dest"

text \<open>The transform of a row as the loop runs it; a row of another shape is a failure of its own.\<close>

definition lifted :: "('r \<Rightarrow> hub_entity) \<Rightarrow> (hub_entity \<Rightarrow> 'r option) \<Rightarrow> ('r \<Rightarrow> 'err + 'r)
    \<Rightarrow> hub_store \<Rightarrow> hub_entity \<Rightarrow> revision \<Rightarrow> 'err option + hub_entity" where
  "lifted mk dest f s e rv =
     (case dest e of
        None \<Rightarrow> Inl None
      | Some r \<Rightarrow> (case f r of Inl err \<Rightarrow> Inl (Some err) | Inr r' \<Rightarrow> Inr (mk r')))"

definition cas_update :: "string \<Rightarrow> ('r \<Rightarrow> hub_entity) \<Rightarrow> (hub_entity \<Rightarrow> 'r option) \<Rightarrow> hub_store attempt list \<Rightarrow> string
    \<Rightarrow> ('r \<Rightarrow> 'err + 'r) \<Rightarrow> hub_store \<Rightarrow> ('err option, store_error, hub_entity) cas_outcome \<times> hub_store" where
  "cas_update K mk dest envs i f s =
     cas_loop (getWithRevision K i) (cas_row ident K) (lifted mk dest f) envs s"

definition kind_rows :: "(hub_entity \<Rightarrow> 'r option) \<Rightarrow> string \<Rightarrow> hub_store \<Rightarrow> 'r list" where
  "kind_rows dest K s = List.map_filter (dest \<circ> row_data \<circ> snd) (getKindStore K s)"

text \<open>A list query over the kind: a filter, an optional order and a limit (the substrate caps it at 500).\<close>

definition list_kind :: "(hub_entity \<Rightarrow> 'r option) \<Rightarrow> string \<Rightarrow> ('r \<Rightarrow> bool) \<Rightarrow> ('r \<Rightarrow> 'r \<Rightarrow> int) option \<Rightarrow> nat
    \<Rightarrow> hub_store \<Rightarrow> 'r list" where
  "list_kind dest K P cmp limit s =
     List.map_filter dest (fst (list_op K (\<lambda>e. case dest e of None \<Rightarrow> False | Some r \<Rightarrow> P r)
       (map_option (\<lambda>c a b. case dest a of None \<Rightarrow> 0 | Some x \<Rightarrow> (case dest b of None \<Rightarrow> 0 | Some y \<Rightarrow> c x y)) cmp)
       (Some limit) None s))"

text \<open>
  Paging: the rows of a kind are fetched 500 at a time, in one order, until a page is short (\<open>listAll\<close>,
  \<open>listAllDecisions\<close>).
\<close>

definition PAGE_CAP :: nat where "PAGE_CAP = 500"

definition page_kind :: "(hub_entity \<Rightarrow> 'r option) \<Rightarrow> string \<Rightarrow> ('r \<Rightarrow> 'r \<Rightarrow> int) \<Rightarrow> nat \<Rightarrow> hub_store \<Rightarrow> 'r list" where
  "page_kind dest K cmp offset s =
     List.map_filter dest (fst (list_op K (\<lambda>_. True)
       (Some (\<lambda>a b. case dest a of None \<Rightarrow> 0 | Some x \<Rightarrow> (case dest b of None \<Rightarrow> 0 | Some y \<Rightarrow> cmp x y)))
       (Some PAGE_CAP) (Some offset) s))"

lemma length_map_filter: "length (List.map_filter f xs) \<le> length xs"
  by (induction xs) (auto simp: List.map_filter_simps split: option.split)

lemma length_insert_by [simp]: "length (insert_by c x xs) = Suc (length xs)"
  by (induction xs) simp_all

lemma length_sort_by [simp]: "length (sort_by c xs) = length xs"
  by (induction xs) (simp_all add: sort_by_def)

lemma length_page: "length (page_kind dest K cmp offset s) \<le> length (getKindStore K s) - offset"
proof -
  have "length (fst (list_op K (\<lambda>_. True) (Some c) (Some n) (Some offset) s)) \<le> length (getKindStore K s) - offset" for c n
    by (simp add: list_op_def Let_def)
  then show ?thesis unfolding page_kind_def by (rule order_trans [OF length_map_filter])
qed

function list_all_from :: "(hub_entity \<Rightarrow> 'r option) \<Rightarrow> string \<Rightarrow> ('r \<Rightarrow> 'r \<Rightarrow> int) \<Rightarrow> nat \<Rightarrow> hub_store \<Rightarrow> 'r list" where
  "list_all_from dest K cmp offset s =
     (let items = page_kind dest K cmp offset s
      in if length items < PAGE_CAP then items else items @ list_all_from dest K cmp (offset + PAGE_CAP) s)"
  by pat_completeness auto

termination
proof (relation "measure (\<lambda>(dest, K, cmp, offset, s). length (getKindStore K s) - offset)")
  fix dest :: "hub_entity \<Rightarrow> 'r option" and K cmp offset s items
  assume "items = page_kind dest K cmp offset s" "\<not> length items < PAGE_CAP"
  with length_page [of dest K cmp offset s]
  show "((dest, K, cmp, offset + PAGE_CAP, s), dest, K, cmp, offset, s)
      \<in> measure (\<lambda>(dest, K, cmp, offset, s). length (getKindStore K s) - offset)"
    by (simp add: PAGE_CAP_def)
qed simp

declare list_all_from.simps [simp del]

definition list_all_kind :: "(hub_entity \<Rightarrow> 'r option) \<Rightarrow> string \<Rightarrow> ('r \<Rightarrow> 'r \<Rightarrow> int) \<Rightarrow> hub_store \<Rightarrow> 'r list" where
  "list_all_kind dest K cmp s = list_all_from dest K cmp 0 s"

lemma mset_insert_by [simp]: "mset (insert_by c x xs) = add_mset x (mset xs)"
  by (induction xs) auto

lemma mset_sort_by [simp]: "mset (sort_by c xs) = mset xs"
  by (induction xs) (simp_all add: sort_by_def)

section \<open>Well-formed kinds and their steps\<close>

definition kind_ok :: "('r \<Rightarrow> hub_entity) \<Rightarrow> ('r \<Rightarrow> string) \<Rightarrow> string \<Rightarrow> hub_store \<Rightarrow> bool" where
  "kind_ok mk rid K s \<longleftrightarrow> plain_store s \<and>
     (\<forall>i row. find_row s K i = Some row \<longrightarrow> i \<noteq> [] \<and> (\<exists>r. row_data row = mk r \<and> rid r = i))"

text \<open>
  The rows of a kind are created, stepped, and never deleted; the rows of other kinds change at will.
\<close>

inductive kind_steps :: "('r \<Rightarrow> hub_entity) \<Rightarrow> ('r \<Rightarrow> string) \<Rightarrow> string \<Rightarrow> ('r \<Rightarrow> bool) \<Rightarrow> ('r \<Rightarrow> 'r \<Rightarrow> bool)
    \<Rightarrow> hub_store \<Rightarrow> hub_store \<Rightarrow> bool" for mk rid K born step s where
  ks_refl: "kind_steps mk rid K born step s s"
| ks_write: "kind_steps mk rid K born step s t \<Longrightarrow> k \<noteq> K \<Longrightarrow> kind_steps mk rid K born step s (write_row k i e t)"
| ks_delete: "kind_steps mk rid K born step s t \<Longrightarrow> k \<noteq> K \<Longrightarrow> kind_steps mk rid K born step s (delete_op k i t)"
| ks_create: "kind_steps mk rid K born step s t \<Longrightarrow> find_row t K (rid r) = None \<Longrightarrow> rid r \<noteq> [] \<Longrightarrow> born r \<Longrightarrow>
    kind_steps mk rid K born step s (write_row K (rid r) (mk r) t)"
| ks_row: "kind_steps mk rid K born step s t \<Longrightarrow> find_row t K (rid r) = Some row \<Longrightarrow> row_data row = mk r \<Longrightarrow>
    step r r' \<Longrightarrow> rid r' = rid r \<Longrightarrow> kind_steps mk rid K born step s (write_row K (rid r) (mk r') t)"

lemma kind_steps_trans:
  "kind_steps mk rid K born step t u \<Longrightarrow> kind_steps mk rid K born step s t \<Longrightarrow> kind_steps mk rid K born step s u"
  by (induction rule: kind_steps.induct) (auto intro: kind_steps.intros)

lemma plain_store_delete: "plain_store s \<Longrightarrow> plain_store (delete_op k i s)"
  using steps_plain [OF r_into_rtranclp, OF st_delete] .

lemma find_row_delete_other: "k \<noteq> K \<Longrightarrow> find_row (delete_op k i s) K j = find_row s K j"
proof (cases "find_row s k i")
  case (Some r)
  assume "k \<noteq> K"
  then show ?thesis by (simp add: delete_op_fields [OF Some])
qed (simp add: store_simps)

section \<open>The contract of a kind\<close>

locale entity_kind =
  fixes K :: string and mk :: "'r \<Rightarrow> hub_entity" and dest :: "hub_entity \<Rightarrow> 'r option" and rid :: "'r \<Rightarrow> string"
  assumes dest_mk: "dest (mk r) = Some r"
    and mk_dest: "dest e = Some r \<Longrightarrow> e = mk r"
    and ident_mk: "ident (mk r) = Some (rid r)"
    and not_counter: "K \<noteq> ''Counter''"
begin

lemma mk_inject: "mk r = mk r' \<longleftrightarrow> r = r'"
  by (metis dest_mk option.inject)

lemma row_of_find: "kind_ok mk rid K s \<Longrightarrow> row_of dest K i s = Some r \<longleftrightarrow>
    (\<exists>row. find_row s K i = Some row \<and> row_data row = mk r)"
  by (cases "find_row s K i") (auto simp: row_of_def get_op_def dest_mk mk_dest)

lemma row_of_id: "kind_ok mk rid K s \<Longrightarrow> row_of dest K i s = Some r \<Longrightarrow> rid r = i \<and> i \<noteq> []"
proof -
  assume ok: "kind_ok mk rid K s" and "row_of dest K i s = Some r"
  then obtain row where "find_row s K i = Some row" "row_data row = mk r" by (auto simp: row_of_find)
  with ok show ?thesis unfolding kind_ok_def by (metis mk_inject)
qed

lemma row_of_None: "kind_ok mk rid K s \<Longrightarrow> row_of dest K i s = None \<longleftrightarrow> find_row s K i = None"
proof (cases "find_row s K i")
  case (Some row)
  assume "kind_ok mk rid K s"
  with Some obtain r where "row_data row = mk r" unfolding kind_ok_def by blast
  with Some show ?thesis by (simp add: row_of_def get_op_def dest_mk)
qed (simp add: row_of_def get_op_def)

lemma row_of_write [simp]: "row_of dest K i (write_row K j (mk r) s) = (if i = j then Some r else row_of dest K i s)"
  by (simp add: row_of_def get_op_def store_simps dest_mk)

lemma row_of_write_other: "k \<noteq> K \<Longrightarrow> row_of dest K i (write_row k j e s) = row_of dest K i s"
  by (simp add: row_of_def get_op_def store_simps)

lemma row_of_delete_other: "k \<noteq> K \<Longrightarrow> row_of dest K i (delete_op k j s) = row_of dest K i s"
  by (simp add: row_of_def get_op_def find_row_delete_other)

lemma ok_plain: "kind_ok mk rid K s \<Longrightarrow> plain_store s"
  by (simp add: kind_ok_def)

lemma ok_write: "kind_ok mk rid K s \<Longrightarrow> rid r = i \<Longrightarrow> i \<noteq> [] \<Longrightarrow> kind_ok mk rid K (write_row K i (mk r) s)"
  by (auto simp: kind_ok_def store_simps plain_store_write_row split: if_splits)

lemma ok_write_other: "kind_ok mk rid K s \<Longrightarrow> k \<noteq> K \<Longrightarrow> kind_ok mk rid K (write_row k i e s)"
  by (auto simp: kind_ok_def store_simps plain_store_write_row split: if_splits)

lemma ok_delete_other: "kind_ok mk rid K s \<Longrightarrow> k \<noteq> K \<Longrightarrow> kind_ok mk rid K (delete_op k i s)"
  by (auto simp: kind_ok_def find_row_delete_other plain_store_delete)

lemma ok_empty: "kind_ok mk rid K empty_substrate"
  by (simp add: kind_ok_def plain_store_def store_ok_empty find_row_def getKindStore_def) (simp add: empty_substrate_def)

text \<open>With nobody interfering, the first attempt decides.\<close>

lemma update_quiet:
  assumes ok: "kind_ok mk rid K s" and f: "\<And>r r'. f r = Inr r' \<Longrightarrow> rid r' = rid r"
  shows "cas_update K mk dest quiet i f s =
    (case row_of dest K i s of
       None \<Rightarrow> (CasMissing, s)
     | Some r \<Rightarrow>
         (case f r of
            Inl e \<Rightarrow> (CasFailed (Some e), s)
          | Inr r' \<Rightarrow> (CasDone (mk r'), write_row K i (mk r') s)))"
proof (cases "find_row s K i")
  case None
  then show ?thesis
    by (simp add: cas_update_def quiet_def getWithRevision_def row_of_def get_op_def)
next
  case (Some row)
  obtain r where r: "row_data row = mk r" "rid r = i" "i \<noteq> []" using ok Some unfolding kind_ok_def by blast
  have rd: "getWithRevision K i s = Some (mk r, row_rv row)" using Some r by (simp add: getWithRevision_def)
  have at: "row_of dest K i s = Some r" using Some r ok by (simp add: row_of_find)
  have good: "\<forall>x rv y. getWithRevision K i s = Some (x, rv) \<longrightarrow> lifted mk dest f s x rv = Inr y \<longrightarrow>
      ident y = Some i \<and> i \<noteq> [] \<and> K \<noteq> ''Counter''"
    using rd r f not_counter by (auto simp: lifted_def dest_mk ident_mk split: sum.splits)
  note loop = cas_sub.loop_quiet [where f = "lifted mk dest f", OF ok_plain [OF ok] good]
  have put: "snd (cas_row ident K (mk r') (row_rv row) s) = write_row K i (mk r') s" if "f r = Inr r'" for r'
    using putIfMatch_found [OF ok_plain [OF ok] _ r(3) not_counter Some, of ident "mk r'"] f [OF that] r(2)
    by (simp add: cas_row_def ident_mk)
  show ?thesis
    unfolding cas_update_def loop rd at using put by (auto simp: lifted_def dest_mk split: sum.splits)
qed

text \<open>
  Under interference that stays within an invariant of the store and a relation between stores, a successful update is
  one atomic step from a store the relation reaches.
\<close>

definition polite_in :: "(hub_store \<Rightarrow> bool) \<Rightarrow> (hub_store \<Rightarrow> hub_store \<Rightarrow> bool) \<Rightarrow> hub_store attempt list \<Rightarrow> bool" where
  "polite_in I R envs \<longleftrightarrow>
     (\<forall>(b, w) \<in> set envs. \<forall>s. I s \<longrightarrow> I (b s) \<and> R\<^sup>*\<^sup>* s (b s) \<and> I (w s) \<and> R\<^sup>*\<^sup>* s (w s))"

lemma update_atomic_in:
  assumes "cas_update K mk dest envs i f s = (CasDone e, s')" "I s" "other_clients envs" "polite_in I R envs"
    and I: "\<And>s. I s \<Longrightarrow> kind_ok mk rid K s"
    and f: "\<And>r r'. f r = Inr r' \<Longrightarrow> rid r' = rid r"
  shows "\<exists>t r r'. evolves s t \<and> R\<^sup>*\<^sup>* s t \<and> I t \<and> row_of dest K i t = Some r \<and> f r = Inr r' \<and> e = mk r' \<and>
    s' = write_row K i e t"
  using assms(1-4)
proof (induction envs arbitrary: s)
  case Nil
  then show ?case by (simp add: cas_update_def)
next
  case (Cons env envs)
  obtain b w where env: "env = (b, w)" by (cases env)
  have inv: "I (b s)" "I (w (b s))" and reach: "R\<^sup>*\<^sup>* s (b s)" "R\<^sup>*\<^sup>* (b s) (w (b s))" and polite: "polite_in I R envs"
    using Cons.prems(2,4) by (auto simp: env polite_in_def)
  have ok: "kind_ok mk rid K (b s)" "kind_ok mk rid K (w (b s))" using I inv by blast+
  have reached: "R\<^sup>*\<^sup>* s (w (b s))" using reach by (rule rtranclp_trans)
  have ev: "evolves s (b s)" "evolves (b s) (w (b s))" and others: "other_clients envs"
  proof -
    have steps: "store_step\<^sup>*\<^sup>* s (b s)" "store_step\<^sup>*\<^sup>* (b s) (w (b s))" and others: "other_clients envs"
      using Cons.prems(3) by (auto simp: env other_clients_def split: prod.splits)
    then show "evolves s (b s)" "evolves (b s) (w (b s))" "other_clients envs"
      using ok_plain [OF I [OF Cons.prems(2)]] steps_plain by (auto intro: steps_evolve)
  qed
  obtain x rv where x: "getWithRevision K i (b s) = Some (x, rv)"
    using Cons.prems(1) by (auto simp: env cas_update_def Let_def split: option.splits)
  then obtain row where row0: "find_row (b s) K i = Some row" "row_rv row = rv" "x = row_data row"
    by (auto simp: getWithRevision_def)
  with ok(1) obtain r where row: "find_row (b s) K i = Some row" "row_rv row = rv" "x = mk r" "row_data row = mk r" "rid r = i" "i \<noteq> []"
    unfolding kind_ok_def by metis
  obtain r' where r': "f r = Inr r'"
    using Cons.prems(1) x row(3) by (auto simp: env cas_update_def Let_def lifted_def dest_mk split: sum.splits)
  have lift: "lifted mk dest f (b s) x rv = Inr (mk r')" using r' row(3) by (simp add: lifted_def dest_mk)
  obtain a t where a: "cas_row ident K (mk r') rv (w (b s)) = (a, t)" by (cases "cas_row ident K (mk r') rv (w (b s))")
  have id: "ident (mk r') = Some i" using f [OF r'] row(5) by (simp add: ident_mk)
  show ?case
  proof (cases "find_row (w (b s)) K i")
    case None
    then have "a = Inl (PutOnAbsent K i)"
      using a putIfMatch_gone [where ident = ident, OF ok_plain [OF ok(2)] id row(6) not_counter None] by (simp add: cas_row_def)
    with Cons.prems(1) x lift a show ?thesis by (simp add: env cas_update_def Let_def)
  next
    case (Some row')
    note put = putIfMatch_found [where ident = ident, OF ok_plain [OF ok(2)] id row(6) not_counter Some, of rv]
    show ?thesis
    proof (cases "row_rv row' = rv")
      case True
      then have same: "row' = row"
        using same_revision_same_row [OF _ ev(2) row(1) Some] ok_plain [OF ok(1)] row(2) by (simp add: plain_store_def)
      have "e = mk r'" "s' = write_row K i (mk r') (w (b s))"
        using Cons.prems(1) x lift a put True by (auto simp: env cas_update_def Let_def cas_row_def)
      moreover have "row_of dest K i (w (b s)) = Some r" using Some same row(4) ok(2) by (simp add: row_of_find)
      ultimately show ?thesis using r' inv(2) reached evolves_trans [OF ev] by blast
    next
      case False
      then have "cas_update K mk dest envs i f (w (b s)) = (CasDone e, s')"
        using Cons.prems(1) x lift a put by (auto simp: env cas_update_def Let_def cas_row_def)
      from Cons.IH [OF this inv(2) others polite] obtain t r r' where "evolves (w (b s)) t" "R\<^sup>*\<^sup>* (w (b s)) t" "I t"
        "row_of dest K i t = Some r" "f r = Inr r'" "e = mk r'" "s' = write_row K i e t" by blast
      with evolves_trans [OF evolves_trans [OF ev]] rtranclp_trans [OF reached] show ?thesis by blast
    qed
  qed
qed

text \<open>In particular when the others only keep the rows of the kind well formed.\<close>

definition polite :: "hub_store attempt list \<Rightarrow> bool" where
  "polite envs \<longleftrightarrow> (\<forall>(b, w) \<in> set envs. \<forall>s. kind_ok mk rid K s \<longrightarrow> kind_ok mk rid K (b s) \<and> kind_ok mk rid K (w s))"

lemma update_atomic:
  assumes "cas_update K mk dest envs i f s = (CasDone e, s')" "kind_ok mk rid K s" "other_clients envs" "polite envs"
    and f: "\<And>r r'. f r = Inr r' \<Longrightarrow> rid r' = rid r"
  shows "\<exists>t r r'. evolves s t \<and> kind_ok mk rid K t \<and> row_of dest K i t = Some r \<and> f r = Inr r' \<and> e = mk r' \<and>
    s' = write_row K i e t"
proof -
  have "polite_in (kind_ok mk rid K) (\<lambda>_ _. True) envs"
    using assms(4) by (fastforce simp: polite_in_def polite_def)
  from update_atomic_in [OF assms(1-3) this _ f] show ?thesis by blast
qed

lemma create_eq:
  assumes "kind_ok mk rid K s" "rid r \<noteq> []"
  shows "createOnly ident K (mk r) s =
    Inr (if find_row s K (rid r) \<noteq> None then (ExistingConflict, s)
         else (Created (rid r) (Suc (revisionCounter s)), write_row K (rid r) (mk r) s))"
  using ok_plain [OF assms(1)] assms(2) not_counter
  by (simp add: createOnly_def plain_store_def encodeForWrite_def Let_def extractId_def ident_mk store_simps)

section \<open>What the steps of a kind preserve\<close>

lemma steps_ok: "kind_steps mk rid K born step s t \<Longrightarrow> kind_ok mk rid K s \<Longrightarrow> kind_ok mk rid K t"
proof (induction rule: kind_steps.induct)
  case (ks_row t r row r')
  then have "kind_ok mk rid K t" by simp
  moreover from this ks_row.hyps(2) have "rid r \<noteq> []" unfolding kind_ok_def by blast
  ultimately show ?case using ok_write ks_row.hyps(5) by blast
qed (auto intro: ok_write ok_write_other ok_delete_other)

lemma steps_invariant:
  assumes "kind_steps mk rid K born step s t" "kind_ok mk rid K s"
    and "\<And>r. born r \<Longrightarrow> P r" "\<And>r r'. step r r' \<Longrightarrow> P r \<Longrightarrow> P r'"
    and "\<And>i r. row_of dest K i s = Some r \<Longrightarrow> P r" "row_of dest K i t = Some r"
  shows "P r"
proof -
  have "\<forall>i r. row_of dest K i t = Some r \<longrightarrow> P r"
    using assms(1,2)
  proof (induction rule: kind_steps.induct)
    case ks_refl
    then show ?case using assms(5) by blast
  next
    case (ks_row t r row r')
    then have "row_of dest K (rid r) t = Some r" using steps_ok [OF ks_row.hyps(1)] by (simp add: row_of_find)
    with ks_row assms(4) show ?case by auto
  next
    case (ks_create t r)
    with assms(3) show ?case by auto
  qed (simp_all add: row_of_write_other row_of_delete_other)
  with assms(6) show ?thesis by blast
qed

lemma steps_path:
  assumes "kind_steps mk rid K born step s t" "kind_ok mk rid K s" "row_of dest K i s = Some r"
  shows "\<exists>r'. row_of dest K i t = Some r' \<and> step\<^sup>*\<^sup>* r r'"
  using assms
proof (induction rule: kind_steps.induct)
  case (ks_row t r1 row r1')
  then obtain r' where r': "row_of dest K i t = Some r'" "step\<^sup>*\<^sup>* r r'" by blast
  show ?case
  proof (cases "i = rid r1")
    case True
    have "row_of dest K (rid r1) t = Some r1" using ks_row steps_ok [OF ks_row.hyps(1)] by (simp add: row_of_find)
    with r' True have "step\<^sup>*\<^sup>* r r1" by simp
    with ks_row.hyps(4) True show ?thesis by (auto intro: rtranclp.rtrancl_into_rtrancl)
  next
    case False
    with r' show ?thesis by simp
  qed
next
  case (ks_create t r1)
  then obtain r' where r': "row_of dest K i t = Some r'" "step\<^sup>*\<^sup>* r r'" by blast
  have "i \<noteq> rid r1"
  proof
    assume "i = rid r1"
    with r'(1) ks_create.hyps(2) show False by (simp add: row_of_def get_op_def)
  qed
  with r' show ?case by simp
qed (auto simp: row_of_write_other row_of_delete_other)

section \<open>Listing\<close>

lemma typed_rows:
  assumes "\<forall>p \<in> set ps. \<exists>r. row_data (snd p) = mk r \<and> rid r = fst p"
  shows "map (row_data \<circ> snd) ps = map mk (List.map_filter (dest \<circ> row_data \<circ> snd) ps)"
    "map rid (List.map_filter (dest \<circ> row_data \<circ> snd) ps) = map fst ps"
  using assms by (induction ps) (auto simp: dest_mk)

lemma entities_of_kind: "kind_ok mk rid K s \<Longrightarrow> map (row_data \<circ> snd) (getKindStore K s) = map mk (kind_rows dest K s)"
proof -
  assume ok: "kind_ok mk rid K s"
  then have dist: "distinct (map fst (getKindStore K s))" by (simp add: kind_ok_def plain_store_def kind_store_distinct)
  have "\<forall>p \<in> set (getKindStore K s). \<exists>r. row_data (snd p) = mk r \<and> rid r = fst p"
  proof
    fix p assume "p \<in> set (getKindStore K s)"
    then have "find_row s K (fst p) = Some (snd p)" using dist by (simp add: find_row_def)
    with ok show "\<exists>r. row_data (snd p) = mk r \<and> rid r = fst p" unfolding kind_ok_def by blast
  qed
  from typed_rows(1) [OF this] show ?thesis unfolding kind_rows_def .
qed

lemma map_filter_mk: "List.map_filter dest (map mk rs) = rs"
  by (induction rs) (simp_all add: List.map_filter_simps dest_mk)

lemma filter_mk: "filter (\<lambda>e. case dest e of None \<Rightarrow> False | Some r \<Rightarrow> P r) (map mk rs) = map mk (filter P rs)"
  by (induction rs) (simp_all add: dest_mk)

abbreviation lift_cmp :: "('r \<Rightarrow> 'r \<Rightarrow> int) \<Rightarrow> hub_entity \<Rightarrow> hub_entity \<Rightarrow> int" where
  "lift_cmp c a b \<equiv> case dest a of None \<Rightarrow> 0 | Some x \<Rightarrow> (case dest b of None \<Rightarrow> 0 | Some y \<Rightarrow> c x y)"

lemma insert_by_mk: "insert_by (lift_cmp c) (mk r) (map mk rs) = map mk (insert_by c r rs)"
  by (induction rs) (simp_all add: dest_mk)

lemma sort_by_mk: "sort_by (lift_cmp c) (map mk rs) = map mk (sort_by c rs)"
  by (induction rs) (simp_all add: sort_by_def insert_by_mk)

lemma list_kind_eq:
  assumes "kind_ok mk rid K s"
  shows "list_kind dest K P cmp limit s =
    take (min limit 500) ((case cmp of None \<Rightarrow> id | Some c \<Rightarrow> sort_by c) (filter P (kind_rows dest K s)))"
  by (cases cmp) (simp_all add: list_kind_def list_op_def Let_def entities_of_kind [OF assms] filter_mk sort_by_mk take_map map_filter_mk)

lemma kind_rows_ids:
  assumes "kind_ok mk rid K s"
  shows "distinct (map rid (kind_rows dest K s))" "r \<in> set (kind_rows dest K s) \<longleftrightarrow> row_of dest K (rid r) s = Some r"
proof -
  let ?st = "getKindStore K s"
  have dist: "distinct (map fst ?st)" using assms by (simp add: kind_ok_def plain_store_def kind_store_distinct)
  have row: "find_row s K (fst p) = Some (snd p)" if "p \<in> set ?st" for p using that dist by (simp add: find_row_def)
  have key: "\<exists>r. row_data (snd p) = mk r \<and> rid r = fst p" if "p \<in> set ?st" for p
    using assms row [OF that] unfolding kind_ok_def by blast
  have "map rid (kind_rows dest K s) = map fst ?st"
    using typed_rows(2) [of ?st] key unfolding kind_rows_def by blast
  with dist show "distinct (map rid (kind_rows dest K s))" by simp
  show "r \<in> set (kind_rows dest K s) \<longleftrightarrow> row_of dest K (rid r) s = Some r"
  proof
    assume "r \<in> set (kind_rows dest K s)"
    then have "mk r \<in> (row_data \<circ> snd) ` set ?st"
      using entities_of_kind [OF assms] by (metis image_eqI set_map)
    then obtain p where p: "p \<in> set ?st" "row_data (snd p) = mk r" by auto
    with key [OF p(1)] row [OF p(1)] show "row_of dest K (rid r) s = Some r" using assms by (auto simp: row_of_find mk_inject)
  next
    assume "row_of dest K (rid r) s = Some r"
    then obtain row where "find_row s K (rid r) = Some row" "row_data row = mk r" using assms by (auto simp: row_of_find)
    then have "mk r \<in> set (map (row_data \<circ> snd) ?st)" by (force simp: find_row_def dest: map_of_SomeD)
    with entities_of_kind [OF assms] show "r \<in> set (kind_rows dest K s)" by (auto simp: mk_inject)
  qed
qed


lemma list_kind_facts:
  assumes ok: "kind_ok mk rid K s"
  shows "set (list_kind dest K P cmp limit s) \<subseteq> {r. row_of dest K (rid r) s = Some r \<and> P r}"
    and "distinct (map rid (list_kind dest K P cmp limit s))"
    and "length (filter P (kind_rows dest K s)) \<le> min limit 500 \<Longrightarrow>
      set (list_kind dest K P cmp limit s) = {r. row_of dest K (rid r) s = Some r \<and> P r}"
proof -
  let ?all = "(case cmp of None \<Rightarrow> id | Some c \<Rightarrow> sort_by c) (filter P (kind_rows dest K s))"
  have eq: "list_kind dest K P cmp limit s = take (min limit 500) ?all" by (rule list_kind_eq [OF ok])
  have ms: "mset ?all = mset (filter P (kind_rows dest K s))" by (cases cmp) simp_all
  have set: "set ?all = {r. row_of dest K (rid r) s = Some r \<and> P r}"
    using mset_eq_setD [OF ms] kind_rows_ids(2) [OF ok] by auto
  show "set (list_kind dest K P cmp limit s) \<subseteq> {r. row_of dest K (rid r) s = Some r \<and> P r}"
    unfolding eq using set set_take_subset [of "min limit 500" ?all] by blast
  have "mset (map rid ?all) = mset (map rid (filter P (kind_rows dest K s)))" by (simp only: mset_map ms)
  then have "distinct (map rid ?all)"
    using kind_rows_ids(1) [OF ok] by (metis distinct_map_filter mset_eq_imp_distinct_iff)
  then show "distinct (map rid (list_kind dest K P cmp limit s))"
    unfolding eq by (simp add: take_map [symmetric])
  assume "length (filter P (kind_rows dest K s)) \<le> min limit 500"
  then have "length ?all \<le> min limit 500" using mset_eq_length [OF ms] by simp
  then show "set (list_kind dest K P cmp limit s) = {r. row_of dest K (rid r) s = Some r \<and> P r}"
    unfolding eq using set by simp
qed

text \<open>The pages together are the whole kind, each row once, in the order asked for.\<close>

lemma page_kind_eq:
  assumes "kind_ok mk rid K s"
  shows "page_kind dest K cmp offset s = take PAGE_CAP (drop offset (sort_by cmp (kind_rows dest K s)))"
  by (simp add: page_kind_def list_op_def Let_def entities_of_kind [OF assms] sort_by_mk take_map drop_map map_filter_mk
      PAGE_CAP_def)

lemma list_all_kind_eq:
  assumes "kind_ok mk rid K s"
  shows "list_all_kind dest K cmp s = sort_by cmp (kind_rows dest K s)"
proof -
  let ?all = "sort_by cmp (kind_rows dest K s)"
  have "list_all_from dest K cmp offset s = drop offset ?all" for offset
  proof (induction "length ?all - offset" arbitrary: offset rule: less_induct)
    case less
    show ?case
    proof (cases "length ?all - offset < PAGE_CAP")
      case True
      then show ?thesis by (subst list_all_from.simps) (simp add: Let_def page_kind_eq [OF assms])
    next
      case False
      then have "length ?all - (offset + PAGE_CAP) < length ?all - offset" by (simp add: PAGE_CAP_def)
      note rest = less.hyps [OF this]
      have "take PAGE_CAP (drop offset ?all) @ drop (offset + PAGE_CAP) ?all = drop offset ?all"
        by (metis add.commute append_take_drop_id drop_drop)
      with False show ?thesis
        by (subst list_all_from.simps) (simp add: Let_def page_kind_eq [OF assms] rest)
    qed
  qed
  then show ?thesis by (simp add: list_all_kind_def)
qed

lemma list_all_kind_facts:
  assumes "kind_ok mk rid K s"
  shows "set (list_all_kind dest K cmp s) = {r. row_of dest K (rid r) s = Some r}"
    and "distinct (map rid (list_all_kind dest K cmp s))"
proof -
  have ms: "mset (list_all_kind dest K cmp s) = mset (kind_rows dest K s)" by (simp add: list_all_kind_eq [OF assms])
  show "set (list_all_kind dest K cmp s) = {r. row_of dest K (rid r) s = Some r}"
    using mset_eq_setD [OF ms] kind_rows_ids(2) [OF assms] by auto
  have "mset (map rid (list_all_kind dest K cmp s)) = mset (map rid (kind_rows dest K s))" by (simp only: mset_map ms)
  then show "distinct (map rid (list_all_kind dest K cmp s))"
    using kind_rows_ids(1) [OF assms] mset_eq_imp_distinct_iff by blast
qed

end

end
