(* ===== verification/Threads.thy ===== *)
theory Threads
  imports Entity_Kind
begin

text \<open>
  The thread repository (\<open>hub/src/entities/thread-repository-substrate.ts\<close>): open, reply with the convergence gate,
  close, leave, the cascade and projection markers, the idle reaper and the unpinning of a turn.  Each
  operation is a transform of the row (\<open>..._row\<close>, the source's callback) run in the repository's update loop.

  A stored row is already in the flat shape here, so \<open>normalizeThreadShape\<close> and \<open>cloneThread\<close> are the identity.
  The payload schemas of the staged actions are checked by an external library; \<open>accepts\<close> says what it accepts.
\<close>

section \<open>The update loop\<close>

definition THREAD_KIND :: string where "THREAD_KIND = ''Thread''"

fun as_thread :: "hub_entity \<Rightarrow> thread option" where
  "as_thread (EThread t) = Some t"
| "as_thread _ = None"

datatype thread_error =
    ThreadNotFound
  | ThreadFault thread_fault
  | ThreadUndecodable
  | ThreadStoreThrew store_error
  | ThreadCasExhausted
  | ThreadCounter wi_error
  | ThreadIdTaken

type_synonym 'a thread_result = "(thread_error + 'a) \<times> hub_store"

type_synonym thread_row = "thread \<Rightarrow> thread_fault + thread"

definition casUpdateOrThrow_with :: "hub_store attempt list \<Rightarrow> string \<Rightarrow> thread_row \<Rightarrow> hub_store \<Rightarrow> thread thread_result" where
  "casUpdateOrThrow_with envs threadId f s =
     (case cas_update THREAD_KIND EThread as_thread envs threadId f s of
        (CasDone e, s') \<Rightarrow> ((case as_thread e of None \<Rightarrow> Inl ThreadUndecodable | Some t \<Rightarrow> Inr t), s')
      | (CasMissing, s') \<Rightarrow> (Inl ThreadNotFound, s')
      | (CasFailed None, s') \<Rightarrow> (Inl ThreadUndecodable, s')
      | (CasFailed (Some f), s') \<Rightarrow> (Inl (ThreadFault f), s')
      | (CasThrew z, s') \<Rightarrow> (Inl (ThreadStoreThrew z), s')
      | (CasExhausted, s') \<Rightarrow> (Inl ThreadCasExhausted, s'))"

text \<open>The operations swallow a rejected transition and a missing thread.\<close>

fun swallow :: "thread_error + 'a \<Rightarrow> thread_error + 'a option" where
  "swallow (Inr t) = Inr (Some t)"
| "swallow (Inl (ThreadFault (ThreadRejected r))) = Inr None"
| "swallow (Inl ThreadNotFound) = Inr None"
| "swallow (Inl e) = Inl e"

definition updated_thread :: "hub_store attempt list \<Rightarrow> string \<Rightarrow> thread_row \<Rightarrow> hub_store \<Rightarrow> thread option thread_result" where
  "updated_thread envs threadId f s =
     (let (r, s') = casUpdateOrThrow_with envs threadId f s in (swallow r, s'))"

definition did_update :: "string \<Rightarrow> thread_row \<Rightarrow> hub_store \<Rightarrow> bool thread_result" where
  "did_update threadId f s =
     (let (r, s') = updated_thread quiet threadId f s
      in (case r of Inl e \<Rightarrow> Inl e | Inr t \<Rightarrow> Inr (t \<noteq> None), s'))"

section \<open>Opening\<close>

record open_options =
  ot_maxRounds :: "int option"
  ot_correlationId :: "string option"
  ot_labels :: "(string \<times> string) list"
  ot_authorAgentId :: "agent_id option"
  ot_recipientAgentId :: "agent_id option"
  ot_recipientRole :: "party_role option"
  ot_routingMode :: "routing_mode option"
  ot_context :: "(string \<times> string) option"

fun party_name :: "party_role \<Rightarrow> string" where
  "party_name PartyEngineer = ''engineer''"
| "party_name PartyArchitect = ''architect''"
| "party_name PartyDirector = ''director''"
| "party_name PartyVerifier = ''verifier''"

definition counterpart :: "party_role \<Rightarrow> party_role" where
  "counterpart author = (if author = PartyEngineer then PartyArchitect else PartyEngineer)"

definition opened :: "string \<Rightarrow> instant \<Rightarrow> string \<Rightarrow> string \<Rightarrow> party_role \<Rightarrow> open_options \<Rightarrow> thread" where
  "opened i now title message author opts =
     \<lparr>thr_id = i, thr_title = title, thr_status = ThActive,
      thr_routingMode = (case ot_routingMode opts of None \<Rightarrow> Unicast | Some m \<Rightarrow> m),
      thr_context = ot_context opts, thr_idleExpiryMs = None,
      thr_createdBy = (author, case ot_authorAgentId opts of None \<Rightarrow> ''anonymous-'' @ party_name author | Some a \<Rightarrow> a),
      thr_currentTurn = (case ot_recipientRole opts of None \<Rightarrow> counterpart author | Some r \<Rightarrow> r),
      thr_currentTurnAgentId = ot_recipientAgentId opts,
      thr_roundCount = 1, thr_maxRounds = (case ot_maxRounds opts of None \<Rightarrow> 10 | Some n \<Rightarrow> n),
      thr_outstandingIntent = None, thr_currentSemanticIntent = None,
      thr_correlationId = (if falsy_text (ot_correlationId opts) then None else ot_correlationId opts),
      thr_convergenceActions = [], thr_summary = [],
      thr_participants =
        [\<lparr>pt_role = author, pt_agentId = ot_authorAgentId opts, pt_joinedAt = now, pt_lastActiveAt = now\<rparr>] @
        (case ot_recipientRole opts of
           None \<Rightarrow> []
         | Some r \<Rightarrow> if falsy_text (ot_recipientAgentId opts) then []
             else [\<lparr>pt_role = r, pt_agentId = ot_recipientAgentId opts, pt_joinedAt = now, pt_lastActiveAt = now\<rparr>]),
      thr_recipientAgentId = ot_recipientAgentId opts,
      thr_messages = [\<lparr>tm_author = author, tm_authorAgentId = ot_authorAgentId opts, tm_text = message, tm_timestamp = now,
                       tm_converged = False, tm_intent = None, tm_semanticIntent = None\<rparr>],
      thr_labels = ot_labels opts, thr_lastMessageConverged = False, thr_createdAt = now, thr_updatedAt = now,
      thr_lastMessageProjectedAt = None, thr_cascadePending = None, thr_cascadePendingActionCount = None,
      thr_cascadePendingStartedAt = None, thr_cascadeCompletedAt = None\<rparr>"

definition thread_id :: "int \<Rightarrow> string" where
  "thread_id n = ''thread-'' @ show_int n"

definition openThread :: "instant \<Rightarrow> string \<Rightarrow> string \<Rightarrow> party_role \<Rightarrow> open_options \<Rightarrow> hub_store \<Rightarrow> thread thread_result" where
  "openThread now title message author opts s =
     (case next_id ''threadCounter'' s of
        (Inl e, s') \<Rightarrow> (Inl (ThreadCounter e), s')
      | (Inr num, s') \<Rightarrow>
          let thread = opened (thread_id num) now title message author opts in
          (case createOnly ident THREAD_KIND (EThread thread) s' of
             Inl z \<Rightarrow> (Inl (ThreadStoreThrew z), s')
           | Inr (Created i rv, s'') \<Rightarrow> (Inr thread, s'')
           | Inr (ExistingConflict, s'') \<Rightarrow> (Inl ThreadIdTaken, s'')))"

section \<open>Replying\<close>

record reply_options =
  rp_converged :: bool
  rp_intent :: "thread_intent option"
  rp_semanticIntent :: "semantic_intent option"
  rp_stagedActions :: "staged_op list"
  rp_summary :: "string option"
  rp_authorAgentId :: "agent_id option"

text \<open>The turn goes to the first other participant who is not the director, or else to the counterpart role.\<close>

definition next_turn :: "party_role \<Rightarrow> agent_id option \<Rightarrow> participant list \<Rightarrow> party_role \<times> agent_id option" where
  "next_turn author agentId ps =
     (case find (\<lambda>p. \<not> is_party author agentId p \<and> pt_role p \<noteq> PartyDirector) ps of
        Some p \<Rightarrow> (pt_role p, pt_agentId p)
      | None \<Rightarrow> (counterpart author, None))"

definition replied :: "instant \<Rightarrow> string \<Rightarrow> party_role \<Rightarrow> reply_options \<Rightarrow> staged_action list \<Rightarrow> thread \<Rightarrow> thread" where
  "replied now message author opts actions t =
     (let agentId = rp_authorAgentId opts;
          participants = upsertParticipant (thr_participants t) author agentId now;
          (turn, turnAgent) = next_turn author agentId participants
      in t\<lparr>thr_convergenceActions := actions,
           thr_summary := (case rp_summary opts of None \<Rightarrow> thr_summary t | Some u \<Rightarrow> u),
           thr_participants := participants, thr_roundCount := thr_roundCount t + 1,
           thr_outstandingIntent := rp_intent opts,
           thr_currentSemanticIntent :=
             (case rp_semanticIntent opts of None \<Rightarrow> thr_currentSemanticIntent t | Some x \<Rightarrow> Some x),
           thr_currentTurn := turn, thr_currentTurnAgentId := turnAgent,
           thr_routingMode := (if thr_routingMode t = Broadcast then Unicast else thr_routingMode t),
           thr_updatedAt := now,
           thr_messages := thr_messages t @
             [\<lparr>tm_author = author, tm_authorAgentId = agentId, tm_text = message, tm_timestamp = now,
               tm_converged = rp_converged opts, tm_intent = rp_intent opts, tm_semanticIntent = rp_semanticIntent opts\<rparr>],
           thr_lastMessageConverged := rp_converged opts\<rparr>)"

definition validateStagedActions :: "(staged_type \<Rightarrow> json \<Rightarrow> bool) \<Rightarrow> staged_action list \<Rightarrow> (string \<times> staged_type) list" where
  "validateStagedActions accepts as =
     map (\<lambda>a. (sa_id a, sa_type a)) (filter (\<lambda>a. sa_status a = Staged \<and> \<not> accepts (sa_type a) (sa_payload a)) as)"

definition staged_actions :: "thread \<Rightarrow> staged_action list" where
  "staged_actions t = filter (\<lambda>a. sa_status a = Staged) (thr_convergenceActions t)"

definition commit_action :: "staged_action \<Rightarrow> staged_action" where
  "commit_action a = (if sa_status a = Staged then a\<lparr>sa_status := Committed\<rparr> else a)"

definition converge :: "(staged_type \<Rightarrow> json \<Rightarrow> bool) \<Rightarrow> thread_row" where
  "converge accepts t =
     (let staged = staged_actions t; summaryEmpty = (js_trim (thr_summary t) = []) in
      if staged = [] \<or> summaryEmpty
      then Inl (ConvergenceGate (if staged = [] then StageMissing else SummaryMissing))
      else if validateStagedActions accepts staged \<noteq> [] then Inl (ConvergenceGate PayloadValidation)
      else Inr (t\<lparr>thr_convergenceActions := map commit_action (thr_convergenceActions t), thr_status := ThConverged\<rparr>))"

definition limit_rounds :: "thread \<Rightarrow> thread" where
  "limit_rounds t =
     (if thr_maxRounds t \<le> thr_roundCount t \<and> thr_status t = ThActive then t\<lparr>thr_status := ThRoundLimit\<rparr> else t)"

definition reply_row :: "(staged_type \<Rightarrow> json \<Rightarrow> bool) \<Rightarrow> instant \<Rightarrow> string \<Rightarrow> party_role \<Rightarrow> reply_options \<Rightarrow> thread_row" where
  "reply_row accepts now message author opts t =
     (if thr_status t \<noteq> ThActive then Inl (ThreadRejected ''thread not active'')
      else if thr_currentTurn t \<noteq> author then Inl (ThreadRejected ''not this author's turn'')
      else if \<not> falsy_text (thr_currentTurnAgentId t) \<and> rp_authorAgentId opts \<noteq> thr_currentTurnAgentId t
           then Inl (ThreadRejected ''not this agent's turn'')
      else
        res_bind (applyStagedActionOps (rp_stagedActions opts) \<lparr>pr_role = author, pr_agentId = rp_authorAgentId opts\<rparr> now
          (thr_convergenceActions t)) (\<lambda>actions.
        let t' = replied now message author opts actions t in
        res_bind (if rp_converged opts \<and> thr_lastMessageConverged t then converge accepts t' else Inr t') (\<lambda>t''.
        Inr (limit_rounds t''))))"

definition replyToThread_with :: "hub_store attempt list \<Rightarrow> (staged_type \<Rightarrow> json \<Rightarrow> bool) \<Rightarrow> instant \<Rightarrow> string \<Rightarrow> string
    \<Rightarrow> party_role \<Rightarrow> reply_options \<Rightarrow> hub_store \<Rightarrow> thread option thread_result" where
  "replyToThread_with envs accepts now threadId message author opts =
     updated_thread envs threadId (reply_row accepts now message author opts)"

definition replyToThread :: "(staged_type \<Rightarrow> json \<Rightarrow> bool) \<Rightarrow> instant \<Rightarrow> string \<Rightarrow> string \<Rightarrow> party_role \<Rightarrow> reply_options
    \<Rightarrow> hub_store \<Rightarrow> thread option thread_result" where
  "replyToThread = replyToThread_with quiet"

section \<open>Reading\<close>

definition getThread :: "string \<Rightarrow> hub_store \<Rightarrow> thread option" where
  "getThread threadId s = map_option truncateClosedThreadMessages (row_of as_thread THREAD_KIND threadId s)"

definition LIST_PREFETCH_CAP :: nat where "LIST_PREFETCH_CAP = 500"

definition newest_first :: "thread \<Rightarrow> thread \<Rightarrow> int" where
  "newest_first a b = sgn (thr_updatedAt b - thr_updatedAt a)"

text \<open>The extra equality filter of a list is a predicate.\<close>

definition listThreads :: "thread_status option \<Rightarrow> (thread \<Rightarrow> bool) \<Rightarrow> hub_store \<Rightarrow> thread list" where
  "listThreads status eq s =
     map truncateClosedThreadMessages
       (list_kind as_thread THREAD_KIND (\<lambda>t. (case status of None \<Rightarrow> True | Some st \<Rightarrow> thr_status t = st) \<and> eq t)
         (Some newest_first) LIST_PREFETCH_CAP s)"

definition listCascadePending :: "hub_store \<Rightarrow> thread list" where
  "listCascadePending s =
     filter (\<lambda>t. thr_status t \<noteq> ThCascadeFailed)
       (map truncateClosedThreadMessages
         (list_kind as_thread THREAD_KIND (\<lambda>t. thr_cascadePending t = Some True) None LIST_PREFETCH_CAP s))"

section \<open>Closing and the markers\<close>

definition close_row :: "instant \<Rightarrow> thread_row" where
  "close_row now t = Inr (t\<lparr>thr_status := ThClosed, thr_updatedAt := now\<rparr>)"

definition closeThread :: "instant \<Rightarrow> string \<Rightarrow> hub_store \<Rightarrow> bool thread_result" where
  "closeThread now threadId = did_update threadId (close_row now)"

definition cascade_failed_row :: "instant \<Rightarrow> thread_row" where
  "cascade_failed_row now t =
     (if thr_status t \<noteq> ThConverged \<and> thr_status t \<noteq> ThActive then Inl (ThreadRejected ''cannot cascade_fail'')
      else Inr (t\<lparr>thr_status := ThCascadeFailed, thr_updatedAt := now\<rparr>))"

definition markCascadeFailed :: "instant \<Rightarrow> string \<Rightarrow> hub_store \<Rightarrow> bool thread_result" where
  "markCascadeFailed now threadId = did_update threadId (cascade_failed_row now)"

definition projected_row :: "instant \<Rightarrow> thread_row" where
  "projected_row projectedAt t =
     (if (case thr_lastMessageProjectedAt t of None \<Rightarrow> False | Some current \<Rightarrow> projectedAt \<le> current)
      then Inl (ThreadRejected ''marker not advanced'')
      else Inr (t\<lparr>thr_lastMessageProjectedAt := Some projectedAt\<rparr>))"

definition markLastMessageProjected :: "string \<Rightarrow> instant \<Rightarrow> hub_store \<Rightarrow> bool thread_result" where
  "markLastMessageProjected threadId projectedAt = did_update threadId (projected_row projectedAt)"

definition cascade_pending_row :: "instant \<Rightarrow> int \<Rightarrow> thread_row" where
  "cascade_pending_row now actionCount t =
     (if thr_cascadePending t = Some True then Inl (ThreadRejected ''cascade marker already pending'')
      else Inr (t\<lparr>thr_cascadePending := Some True, thr_cascadePendingActionCount := Some actionCount,
                  thr_cascadePendingStartedAt := Some now\<rparr>))"

definition markCascadePending :: "instant \<Rightarrow> string \<Rightarrow> int \<Rightarrow> hub_store \<Rightarrow> bool thread_result" where
  "markCascadePending now threadId actionCount = did_update threadId (cascade_pending_row now actionCount)"

definition cascade_completed_row :: "instant \<Rightarrow> thread_row" where
  "cascade_completed_row now t =
     Inr (t\<lparr>thr_cascadePending := Some False, thr_cascadePendingActionCount := None,
            thr_cascadePendingStartedAt := None, thr_cascadeCompletedAt := Some now\<rparr>)"

definition markCascadeCompleted :: "instant \<Rightarrow> string \<Rightarrow> hub_store \<Rightarrow> bool thread_result" where
  "markCascadeCompleted now threadId = did_update threadId (cascade_completed_row now)"

section \<open>Leaving, reaping and unpinning\<close>

definition retract_where :: "(staged_action \<Rightarrow> bool) \<Rightarrow> instant \<Rightarrow> staged_action list \<Rightarrow> staged_action list" where
  "retract_where P now = map (\<lambda>a. if sa_status a = Staged \<and> P a then a\<lparr>sa_status := Retracted, sa_timestamp := now\<rparr> else a)"

definition leave_row :: "instant \<Rightarrow> agent_id \<Rightarrow> thread_row" where
  "leave_row now leaver t =
     (if thr_status t \<noteq> ThActive then Inl (ThreadRejected ''thread not active'')
      else if Some leaver \<notin> pt_agentId ` set (thr_participants t) then Inl (ThreadRejected ''leaver is not a thread participant'')
      else Inr (t\<lparr>thr_convergenceActions := retract_where (\<lambda>a. pr_agentId (sa_proposer a) = Some leaver) now (thr_convergenceActions t),
                  thr_status := ThAbandoned, thr_updatedAt := now\<rparr>))"

definition leaveThread :: "instant \<Rightarrow> string \<Rightarrow> agent_id \<Rightarrow> hub_store \<Rightarrow> thread option thread_result" where
  "leaveThread now threadId leaver = updated_thread quiet threadId (leave_row now leaver)"

record reaped_thread =
  rd_threadId :: string
  rd_title :: string
  rd_labels :: "(string \<times> string) list"
  rd_participantAgentIds :: "agent_id list"
  rd_idleMs :: int

definition idle_threshold :: "int \<Rightarrow> thread \<Rightarrow> int" where
  "idle_threshold dflt t = (case thr_idleExpiryMs t of None \<Rightarrow> dflt | Some n \<Rightarrow> n)"

definition idle :: "instant \<Rightarrow> int \<Rightarrow> thread \<Rightarrow> bool" where
  "idle now dflt t \<longleftrightarrow> idle_threshold dflt t < now - thr_updatedAt t"

definition reap_row :: "instant \<Rightarrow> int \<Rightarrow> thread_row" where
  "reap_row now dflt t =
     (if thr_status t \<noteq> ThActive then Inl (ThreadRejected ''not active'')
      else if \<not> idle now dflt t then Inl (ThreadRejected ''no longer idle'')
      else Inr (t\<lparr>thr_convergenceActions := retract_where (\<lambda>a. True) now (thr_convergenceActions t),
                  thr_status := ThAbandoned, thr_updatedAt := now\<rparr>))"

text \<open>A sweep over listed threads: a thread the step declines is skipped, any other error ends the sweep.\<close>

fun sweep :: "('t \<Rightarrow> hub_store \<Rightarrow> 'a option thread_result) \<Rightarrow> 't list \<Rightarrow> hub_store \<Rightarrow> 'a list thread_result" where
  "sweep step [] s = (Inr [], s)"
| "sweep step (t # ts) s =
     (case step t s of
        (Inl e, s') \<Rightarrow> (Inl e, s')
      | (Inr x, s') \<Rightarrow>
          (case sweep step ts s' of
             (Inl e, s'') \<Rightarrow> (Inl e, s'')
           | (Inr xs, s'') \<Rightarrow> (Inr (case x of None \<Rightarrow> xs | Some y \<Rightarrow> y # xs), s'')))"

definition reap_one :: "instant \<Rightarrow> int \<Rightarrow> thread \<Rightarrow> hub_store \<Rightarrow> reaped_thread option thread_result" where
  "reap_one now dflt t s =
     (if \<not> idle now dflt t then (Inr None, s)
      else case updated_thread quiet (thr_id t) (reap_row now dflt) s of
          (Inl e, s') \<Rightarrow> (Inl e, s')
        | (Inr None, s') \<Rightarrow> (Inr None, s')
        | (Inr (Some t'), s') \<Rightarrow>
            (Inr (Some \<lparr>rd_threadId = thr_id t, rd_title = thr_title t, rd_labels = thr_labels t,
               rd_participantAgentIds = filter (\<lambda>a. a \<noteq> []) (List.map_filter pt_agentId (thr_participants t)),
               rd_idleMs = now - thr_updatedAt t\<rparr>), s'))"

definition reapIdleThreads :: "instant \<Rightarrow> int \<Rightarrow> hub_store \<Rightarrow> reaped_thread list thread_result" where
  "reapIdleThreads now dflt s = sweep (reap_one now dflt) (listThreads (Some ThActive) (\<lambda>_. True) s) s"

definition unpin_row :: "instant \<Rightarrow> agent_id \<Rightarrow> thread_row" where
  "unpin_row now agentId t =
     (if thr_currentTurnAgentId t \<noteq> Some agentId then Inl (ThreadRejected ''no longer pinned to victim'')
      else Inr (t\<lparr>thr_currentTurnAgentId := None, thr_updatedAt := now\<rparr>))"

definition unpin_one :: "instant \<Rightarrow> agent_id \<Rightarrow> thread \<Rightarrow> hub_store \<Rightarrow> string option thread_result" where
  "unpin_one now agentId t s =
     (let (r, s') = updated_thread quiet (thr_id t) (unpin_row now agentId) s
      in (case r of Inl e \<Rightarrow> Inl e | Inr x \<Rightarrow> Inr (map_option (\<lambda>_. thr_id t) x), s'))"

definition unpinCurrentTurnAgent :: "instant \<Rightarrow> agent_id \<Rightarrow> hub_store \<Rightarrow> string list thread_result" where
  "unpinCurrentTurnAgent now agentId s =
     sweep (unpin_one now agentId)
       (list_kind as_thread THREAD_KIND (\<lambda>t. thr_currentTurnAgentId t = Some agentId) None LIST_PREFETCH_CAP s) s"

section \<open>Requests and runs\<close>

datatype thread_request =
    TOpen string string party_role open_options
  | TReply string string party_role reply_options
  | TClose string
  | TCascadeFailed string
  | TProjected string instant
  | TCascadePending string int
  | TCascadeCompleted string
  | TLeave string agent_id
  | TReap int
  | TUnpin agent_id

fun thread_perform :: "(staged_type \<Rightarrow> json \<Rightarrow> bool) \<Rightarrow> instant \<Rightarrow> thread_request \<Rightarrow> hub_store \<Rightarrow> hub_store" where
  "thread_perform accepts now (TOpen title message author opts) s = snd (openThread now title message author opts s)"
| "thread_perform accepts now (TReply i message author opts) s = snd (replyToThread accepts now i message author opts s)"
| "thread_perform accepts now (TClose i) s = snd (closeThread now i s)"
| "thread_perform accepts now (TCascadeFailed i) s = snd (markCascadeFailed now i s)"
| "thread_perform accepts now (TProjected i at) s = snd (markLastMessageProjected i at s)"
| "thread_perform accepts now (TCascadePending i n) s = snd (markCascadePending now i n s)"
| "thread_perform accepts now (TCascadeCompleted i) s = snd (markCascadeCompleted now i s)"
| "thread_perform accepts now (TLeave i a) s = snd (leaveThread now i a s)"
| "thread_perform accepts now (TReap dflt) s = snd (reapIdleThreads now dflt s)"
| "thread_perform accepts now (TUnpin a) s = snd (unpinCurrentTurnAgent now a s)"

datatype thread_event = ThreadRequest instant thread_request | ElsewherePut string string hub_entity | ElsewhereDelete string string

fun thread_happens :: "(staged_type \<Rightarrow> json \<Rightarrow> bool) \<Rightarrow> thread_event \<Rightarrow> hub_store \<Rightarrow> hub_store" where
  "thread_happens accepts (ThreadRequest now q) s = thread_perform accepts now q s"
| "thread_happens accepts (ElsewherePut k i e) s = (if k = THREAD_KIND then s else write_row k i e s)"
| "thread_happens accepts (ElsewhereDelete k i) s = (if k = THREAD_KIND then s else delete_op k i s)"

text \<open>A run: requests in any order, at any instants, while the other repositories write and delete rows of their kinds.\<close>

definition thread_run :: "(staged_type \<Rightarrow> json \<Rightarrow> bool) \<Rightarrow> thread_event list \<Rightarrow> hub_store" where
  "thread_run accepts evs = fold (thread_happens accepts) evs empty_substrate"

end
