(* ===== verification/Thread_Properties.thy ===== *)
theory Thread_Properties
  imports Threads
begin

text \<open>
  What the thread repository promises: whose turn a reply needs and where the turn goes, what a convergence requires and
  commits, that a thread ends after a bounded number of rounds and never comes back, that the idle reaper leaves no
  idle thread among those it can list, and that a reply is atomic whatever other writers do.
\<close>

section \<open>The operations as steps of a thread\<close>

interpretation thr: entity_kind THREAD_KIND EThread as_thread thr_id
proof
  show "as_thread e = Some r \<Longrightarrow> e = EThread r" for e r by (cases e) auto
qed (simp_all add: THREAD_KIND_def)

lemma THREAD_KIND_ne [simp]: "COUNTER_KIND \<noteq> THREAD_KIND" "THREAD_KIND \<noteq> COUNTER_KIND"
  by (simp_all add: THREAD_KIND_def COUNTER_KIND_def)

abbreviation thread_at :: "string \<Rightarrow> hub_store \<Rightarrow> thread option" where
  "thread_at \<equiv> row_of as_thread THREAD_KIND"

abbreviation threads_ok :: "hub_store \<Rightarrow> bool" where
  "threads_ok \<equiv> kind_ok EThread thr_id THREAD_KIND"

inductive thread_step :: "(staged_type \<Rightarrow> json \<Rightarrow> bool) \<Rightarrow> thread \<Rightarrow> thread \<Rightarrow> bool" for accepts t where
  ts_reply: "reply_row accepts now message author opts t = Inr t' \<Longrightarrow> thread_step accepts t t'"
| ts_close: "close_row now t = Inr t' \<Longrightarrow> thread_step accepts t t'"
| ts_cascade_failed: "cascade_failed_row now t = Inr t' \<Longrightarrow> thread_step accepts t t'"
| ts_projected: "projected_row at t = Inr t' \<Longrightarrow> thread_step accepts t t'"
| ts_cascade_pending: "cascade_pending_row now n t = Inr t' \<Longrightarrow> thread_step accepts t t'"
| ts_cascade_completed: "cascade_completed_row now t = Inr t' \<Longrightarrow> thread_step accepts t t'"
| ts_leave: "leave_row now a t = Inr t' \<Longrightarrow> thread_step accepts t t'"
| ts_reap: "reap_row now dflt t = Inr t' \<Longrightarrow> thread_step accepts t t'"
| ts_unpin: "unpin_row now a t = Inr t' \<Longrightarrow> thread_step accepts t t'"

inductive_cases thread_stepE: "thread_step accepts t t'"

lemmas thread_rows = close_row_def cascade_failed_row_def projected_row_def cascade_pending_row_def
  cascade_completed_row_def leave_row_def reap_row_def unpin_row_def

definition thread_born :: "thread \<Rightarrow> bool" where
  "thread_born t \<longleftrightarrow> (\<exists>i now title message author opts. t = opened i now title message author opts)"

lemma limit_rounds_same [simp]:
  "thr_id (limit_rounds t) = thr_id t" "thr_messages (limit_rounds t) = thr_messages t"
  "thr_roundCount (limit_rounds t) = thr_roundCount t" "thr_maxRounds (limit_rounds t) = thr_maxRounds t"
  "thr_convergenceActions (limit_rounds t) = thr_convergenceActions t" "thr_summary (limit_rounds t) = thr_summary t"
  "thr_participants (limit_rounds t) = thr_participants t" "thr_lastMessageConverged (limit_rounds t) = thr_lastMessageConverged t"
  "thr_currentTurn (limit_rounds t) = thr_currentTurn t" "thr_currentTurnAgentId (limit_rounds t) = thr_currentTurnAgentId t"
  by (simp_all add: limit_rounds_def)

lemma replied_same [simp]:
  "thr_id (replied now m a opts as t) = thr_id t" "thr_status (replied now m a opts as t) = thr_status t"
  "thr_maxRounds (replied now m a opts as t) = thr_maxRounds t"
  "thr_roundCount (replied now m a opts as t) = thr_roundCount t + 1"
  "thr_convergenceActions (replied now m a opts as t) = as"
  "thr_lastMessageConverged (replied now m a opts as t) = rp_converged opts"
  "thr_participants (replied now m a opts as t) = upsertParticipant (thr_participants t) a (rp_authorAgentId opts) now"
  "(thr_currentTurn (replied now m a opts as t), thr_currentTurnAgentId (replied now m a opts as t)) =
    next_turn a (rp_authorAgentId opts) (upsertParticipant (thr_participants t) a (rp_authorAgentId opts) now)"
  "thr_messages (replied now m a opts as t) = thr_messages t @
    [\<lparr>tm_author = a, tm_authorAgentId = rp_authorAgentId opts, tm_text = m, tm_timestamp = now,
      tm_converged = rp_converged opts, tm_intent = rp_intent opts, tm_semanticIntent = rp_semanticIntent opts\<rparr>]"
  by (simp_all add: replied_def Let_def split: prod.split)

lemma converge_Inr:
  "converge accepts t = Inr t' \<longleftrightarrow> staged_actions t \<noteq> [] \<and> js_trim (thr_summary t) \<noteq> [] \<and>
    (\<forall>a \<in> set (staged_actions t). accepts (sa_type a) (sa_payload a)) \<and>
    t' = t\<lparr>thr_convergenceActions := map commit_action (thr_convergenceActions t), thr_status := ThConverged\<rparr>"
  by (auto simp: converge_def Let_def validateStagedActions_def staged_actions_def filter_empty_conv)

text \<open>When a reply is taken, and what it makes of the thread.\<close>

definition may_reply :: "party_role \<Rightarrow> agent_id option \<Rightarrow> thread \<Rightarrow> bool" where
  "may_reply author agentId t \<longleftrightarrow> thr_status t = ThActive \<and> thr_currentTurn t = author \<and>
     (falsy_text (thr_currentTurnAgentId t) \<or> agentId = thr_currentTurnAgentId t)"

lemma reply_row_Inr:
  "reply_row accepts now m author opts t = Inr t' \<longleftrightarrow> may_reply author (rp_authorAgentId opts) t \<and>
    (\<exists>as. applyStagedActionOps (rp_stagedActions opts) \<lparr>pr_role = author, pr_agentId = rp_authorAgentId opts\<rparr> now
        (thr_convergenceActions t) = Inr as \<and>
      (let u = replied now m author opts as t in
       if rp_converged opts \<and> thr_lastMessageConverged t
       then (\<exists>v. converge accepts u = Inr v \<and> t' = limit_rounds v) else t' = limit_rounds u))"
  by (auto simp: reply_row_def may_reply_def res_bind_Inr_iff Let_def split: if_splits)

lemma thread_step_id: "thread_step accepts t t' \<Longrightarrow> thr_id t' = thr_id t"
  by (auto elim!: thread_stepE simp: thread_rows reply_row_Inr converge_Inr Let_def split: if_splits option.splits)

section \<open>The lineage of the staged actions\<close>

definition same_action :: "staged_action \<Rightarrow> staged_action \<Rightarrow> bool" where
  "same_action a b \<longleftrightarrow> sa_id b = sa_id a \<and> sa_type b = sa_type a \<and> sa_payload b = sa_payload a \<and>
     sa_proposer b = sa_proposer a \<and> sa_revisionOf b = sa_revisionOf a \<and> (sa_status a \<noteq> Staged \<longrightarrow> b = a)"

definition lineage :: "staged_action list \<Rightarrow> staged_action list \<Rightarrow> bool" where
  "lineage as bs \<longleftrightarrow> length as \<le> length bs \<and> (\<forall>k < length as. same_action (as ! k) (bs ! k))"

lemma same_action_refl [simp]: "same_action a a" by (simp add: same_action_def)

lemma lineage_refl [simp]: "lineage as as" by (simp add: lineage_def)

lemma lineage_trans: "lineage as bs \<Longrightarrow> lineage bs cs \<Longrightarrow> lineage as cs"
  by (fastforce simp: lineage_def same_action_def)

lemma lineage_push [simp]: "lineage as (push_action ty p now payload r as)"
  by (simp add: lineage_def push_action_def nth_append)

lemma lineage_mark: "sa_status (as ! k) = Staged \<Longrightarrow> lineage as (mark_action k st as)"
  by (cases "k < length as") (auto simp: lineage_def mark_action_def nth_list_update same_action_def)

lemma lineage_map: "(\<And>a. same_action a (f a)) \<Longrightarrow> lineage as (map f as)"
  by (simp add: lineage_def)

definition open_statuses :: "staged_action list \<Rightarrow> bool" where
  "open_statuses as \<longleftrightarrow> sa_status ` set as \<subseteq> {Staged, Revised, Retracted}"

definition numbered :: "staged_action list \<Rightarrow> bool" where
  "numbered as \<longleftrightarrow> (\<forall>k < length as. sa_id (as ! k) = action_id (k + 1))"

lemma numbered_push: "numbered as \<Longrightarrow> numbered (push_action ty p now payload r as)"
  by (auto simp: numbered_def push_action_def nth_append less_Suc_eq)

lemma numbered_lineage: "lineage as bs \<Longrightarrow> length bs = length as \<Longrightarrow> numbered as \<Longrightarrow> numbered bs"
  by (auto simp: numbered_def lineage_def same_action_def)

lemma mark_action_props:
  assumes "st \<in> {Revised, Retracted}" "open_statuses as"
  shows "open_statuses (mark_action k st as)"
  using assms by (auto simp: open_statuses_def mark_action_def dest!: set_update_subset_insert [THEN subsetD])

lemma length_mark_action [simp]: "length (mark_action k st as) = length as"
  by (simp add: mark_action_def)

lemma staged_at_Inr: "staged_at g i as = Inr k \<Longrightarrow> k < length as \<and> sa_status (as ! k) = Staged \<and> sa_id (as ! k) = i"
  by (auto simp: staged_at_def dest: find_index_Some split: option.splits if_splits)

lemma apply_staged_op_props:
  assumes "apply_staged_op p now op as = Inr bs"
  shows "lineage as bs \<and> (numbered as \<longrightarrow> numbered bs) \<and> (open_statuses as \<longrightarrow> open_statuses bs)"
proof (cases op)
  case (StageOp ty payload)
  with assms have "bs = push_action ty p now payload None as" by simp
  then show ?thesis by (auto simp: numbered_push) (auto simp: open_statuses_def push_action_def)
next
  case (ReviseOp i payload)
  with assms obtain k where k: "staged_at ReviseInvalid i as = Inr k"
    and bs: "bs = push_action (sa_type (as ! k)) p now payload (Some (sa_id (as ! k))) (mark_action k Revised as)"
    by (auto simp: res_bind_Inr_iff)
  have l: "lineage as (mark_action k Revised as)" using staged_at_Inr [OF k] by (simp add: lineage_mark)
  have "numbered as \<Longrightarrow> numbered bs" unfolding bs by (rule numbered_push, rule numbered_lineage [OF l]) simp_all
  moreover have "open_statuses as \<Longrightarrow> open_statuses bs"
    using mark_action_props [of Revised as k] by (auto simp: bs open_statuses_def push_action_def)
  moreover have "lineage as bs" using lineage_trans [OF l lineage_push] by (simp add: bs)
  ultimately show ?thesis by blast
next
  case (RetractOp i)
  with assms obtain k where k: "staged_at RetractInvalid i as = Inr k" and bs: "bs = mark_action k Retracted as"
    by (auto simp: res_bind_Inr_iff)
  have l: "lineage as bs" using staged_at_Inr [OF k] by (simp add: lineage_mark bs)
  then show ?thesis
    using mark_action_props [of Retracted as k] numbered_lineage [OF l] by (simp add: bs)
qed

lemma applyStagedActionOps_props:
  "applyStagedActionOps ops p now as = Inr bs \<Longrightarrow>
    lineage as bs \<and> (numbered as \<longrightarrow> numbered bs) \<and> (open_statuses as \<longrightarrow> open_statuses bs)"
proof (induction ops arbitrary: as)
  case (Cons op ops)
  then obtain cs where "apply_staged_op p now op as = Inr cs" "applyStagedActionOps ops p now cs = Inr bs"
    by (auto simp: res_bind_Inr_iff)
  with Cons.IH [of cs] apply_staged_op_props show ?case by (blast intro: lineage_trans)
qed simp

section \<open>The invariant\<close>

definition agreed :: "(staged_type \<Rightarrow> json \<Rightarrow> bool) \<Rightarrow> thread \<Rightarrow> bool" where
  "agreed accepts t \<longleftrightarrow> js_trim (thr_summary t) \<noteq> [] \<and>
     (\<exists>a \<in> set (thr_convergenceActions t). sa_status a = Committed) \<and>
     (\<forall>a \<in> set (thr_convergenceActions t). sa_status a \<noteq> Staged) \<and>
     (\<exists>ms m1 m2. thr_messages t = ms @ [m1, m2] \<and> tm_converged m1 \<and> tm_converged m2)"

definition thread_sound :: "(staged_type \<Rightarrow> json \<Rightarrow> bool) \<Rightarrow> thread \<Rightarrow> bool" where
  "thread_sound accepts t \<longleftrightarrow>
     thr_messages t \<noteq> [] \<and> thr_roundCount t = int (length (thr_messages t)) \<and>
     thr_roundCount t \<le> max 2 (thr_maxRounds t) \<and>
     (thr_status t = ThActive \<longrightarrow> thr_roundCount t = 1 \<or> thr_roundCount t < thr_maxRounds t) \<and>
     thr_lastMessageConverged t = tm_converged (last (thr_messages t)) \<and>
     numbered (thr_convergenceActions t) \<and>
     (thr_status t = ThActive \<longrightarrow> open_statuses (thr_convergenceActions t)) \<and>
     (\<forall>a \<in> set (thr_convergenceActions t). sa_status a = Committed \<longrightarrow> accepts (sa_type a) (sa_payload a)) \<and>
     (thr_status t = ThConverged \<longrightarrow> agreed accepts t)"

lemma opened_sound: "thread_born t \<Longrightarrow> thread_sound accepts t"
  by (auto simp: thread_born_def thread_sound_def opened_def numbered_def open_statuses_def)

text \<open>A step keeps the thread sound.\<close>

lemma commit_action_same: "same_action a (commit_action a)"
  by (simp add: same_action_def commit_action_def)

lemma numbered_map: "(\<And>a. same_action a (f a)) \<Longrightarrow> numbered as \<Longrightarrow> numbered (map f as)"
  by (rule numbered_lineage [OF lineage_map]) auto

lemma retract_same: "same_action a (if sa_status a = Staged \<and> P a then a\<lparr>sa_status := Retracted, sa_timestamp := now\<rparr> else a)"
  by (simp add: same_action_def)

lemma lineage_retract [simp]: "lineage as (retract_where P now as)"
  unfolding retract_where_def by (rule lineage_map) (rule retract_same)

lemma numbered_retract [simp]: "numbered as \<Longrightarrow> numbered (retract_where P now as)"
  unfolding retract_where_def by (rule numbered_map) (rule retract_same)

lemma committed_retract: "a \<in> set (retract_where P now as) \<Longrightarrow> sa_status a = Committed \<Longrightarrow> a \<in> set as"
  by (auto simp: retract_where_def split: if_splits)

lemma reply_sound:
  assumes t: "thread_sound accepts t" and r: "reply_row accepts now m author opts t = Inr t'"
  shows "thread_sound accepts t'"
proof -
  obtain as where may: "may_reply author (rp_authorAgentId opts) t"
    and as: "applyStagedActionOps (rp_stagedActions opts) \<lparr>pr_role = author, pr_agentId = rp_authorAgentId opts\<rparr> now
        (thr_convergenceActions t) = Inr as"
    and t': "let u = replied now m author opts as t in if rp_converged opts \<and> thr_lastMessageConverged t
       then (\<exists>v. converge accepts u = Inr v \<and> t' = limit_rounds v) else t' = limit_rounds u"
    using r unfolding reply_row_Inr by blast
  let ?u = "replied now m author opts as t"
  have active: "thr_status t = ThActive" using may by (simp add: may_reply_def)
  have ops: "numbered as" "open_statuses as"
    using applyStagedActionOps_props [OF as] t active by (simp_all add: thread_sound_def)
  then have no_commit: "sa_status a \<noteq> Committed" if "a \<in> set as" for a using that by (auto simp: open_statuses_def)
  have base: "thr_messages t \<noteq> []" "thr_roundCount t = int (length (thr_messages t))"
    "thr_lastMessageConverged t = tm_converged (last (thr_messages t))"
    "thr_roundCount t = 1 \<or> thr_roundCount t < thr_maxRounds t" using t active by (auto simp: thread_sound_def)
  have rounds: "thr_roundCount ?u \<le> max 2 (thr_maxRounds t)" using base(4) by auto
  show ?thesis
  proof (cases "rp_converged opts \<and> thr_lastMessageConverged t")
    case True
    with t' obtain v where v: "converge accepts ?u = Inr v" "t' = limit_rounds v" by (auto simp: Let_def)
    from v(1) have c: "staged_actions ?u \<noteq> []" "js_trim (thr_summary ?u) \<noteq> []"
      "\<forall>a \<in> set (staged_actions ?u). accepts (sa_type a) (sa_payload a)"
      "v = ?u\<lparr>thr_convergenceActions := map commit_action as, thr_status := ThConverged\<rparr>" by (simp_all add: converge_Inr)
    have t'v: "t' = v" using v(2) c(4) by (simp add: limit_rounds_def)
    have commit: "sa_status (commit_action a) \<noteq> Staged" for a by (simp add: commit_action_def)
    obtain a where a: "a \<in> set as" "sa_status a = Staged" using c(1) by (auto simp: staged_actions_def filter_empty_conv)
    then have "commit_action a \<in> set (map commit_action as)" "sa_status (commit_action a) = Committed" by (simp_all add: commit_action_def)
    moreover have "\<exists>ms m1 m2. thr_messages v = ms @ [m1, m2] \<and> tm_converged m1 \<and> tm_converged m2"
    proof -
      have "thr_messages v = butlast (thr_messages t) @ [last (thr_messages t), last (thr_messages ?u)]"
        using base(1) by (simp add: c(4))
      moreover have "tm_converged (last (thr_messages t))" "tm_converged (last (thr_messages ?u))" using True base(3) by simp_all
      ultimately show ?thesis by blast
    qed
    ultimately have "agreed accepts v" using c(2) commit unfolding agreed_def c(4) by auto
    moreover have "\<forall>a \<in> set (map commit_action as). sa_status a = Committed \<longrightarrow> accepts (sa_type a) (sa_payload a)"
      using c(3) no_commit by (auto simp: commit_action_def staged_actions_def split: if_splits)
    moreover have "numbered (map commit_action as)" using ops(1) commit_action_same by (rule numbered_map [rotated])
    ultimately show ?thesis using base(1,2) rounds True unfolding t'v thread_sound_def by (simp add: c(4))
  next
    case False
    with t' have t': "t' = limit_rounds ?u" by (auto simp: Let_def)
    then show ?thesis
      using base rounds ops no_commit active by (auto simp: thread_sound_def limit_rounds_def)
  qed
qed

text \<open>The markers leave everything the invariant is about.\<close>

definition same_core :: "thread \<Rightarrow> thread \<Rightarrow> bool" where
  "same_core t t' \<longleftrightarrow> thr_messages t' = thr_messages t \<and> thr_roundCount t' = thr_roundCount t \<and>
     thr_maxRounds t' = thr_maxRounds t \<and> thr_status t' = thr_status t \<and> thr_summary t' = thr_summary t \<and>
     thr_lastMessageConverged t' = thr_lastMessageConverged t \<and> thr_convergenceActions t' = thr_convergenceActions t"

lemma sound_core: "same_core t t' \<Longrightarrow> thread_sound accepts t \<Longrightarrow> thread_sound accepts t'"
  unfolding same_core_def thread_sound_def agreed_def by (elim conjE) (simp only: simp_thms)

lemma step_sound:
  assumes "thread_step accepts t t'" "thread_sound accepts t"
  shows "thread_sound accepts t'"
  using assms(1)
proof (cases rule: thread_step.cases)
  case (ts_reply now message author opts)
  with assms(2) show ?thesis by (blast intro: reply_sound)
next
  case (ts_leave now a)
  then have "thr_status t = ThActive" and t': "t' = t\<lparr>thr_convergenceActions :=
      retract_where (\<lambda>x. pr_agentId (sa_proposer x) = Some a) now (thr_convergenceActions t), thr_status := ThAbandoned, thr_updatedAt := now\<rparr>"
    by (simp_all add: leave_row_def split: if_splits)
  then show ?thesis using assms(2) committed_retract by (auto simp: thread_sound_def)
next
  case (ts_reap now dflt)
  then have "thr_status t = ThActive" and t': "t' = t\<lparr>thr_convergenceActions :=
      retract_where (\<lambda>x. True) now (thr_convergenceActions t), thr_status := ThAbandoned, thr_updatedAt := now\<rparr>"
    by (simp_all add: reap_row_def split: if_splits)
  then show ?thesis using assms(2) committed_retract by (auto simp: thread_sound_def)
next
  case (ts_close now)
  then have "t' = t\<lparr>thr_status := ThClosed, thr_updatedAt := now\<rparr>" by (simp add: close_row_def)
  with assms(2) show ?thesis by (simp add: thread_sound_def)
next
  case (ts_cascade_failed now)
  then have "t' = t\<lparr>thr_status := ThCascadeFailed, thr_updatedAt := now\<rparr>" by (simp add: cascade_failed_row_def split: if_splits)
  with assms(2) show ?thesis by (simp add: thread_sound_def)
qed (use sound_core assms(2) in \<open>fastforce simp: thread_rows same_core_def split: if_splits\<close>)+

section \<open>Runs as steps\<close>

abbreviation thread_steps :: "(staged_type \<Rightarrow> json \<Rightarrow> bool) \<Rightarrow> hub_store \<Rightarrow> hub_store \<Rightarrow> bool" where
  "thread_steps accepts \<equiv> kind_steps EThread thr_id THREAD_KIND thread_born (thread_step accepts)"

lemma updated_eq:
  assumes "threads_ok s" "\<And>t t'. f t = Inr t' \<Longrightarrow> thr_id t' = thr_id t"
  shows "updated_thread quiet i f s =
    (case thread_at i s of
       None \<Rightarrow> (Inr None, s)
     | Some t \<Rightarrow> (case f t of
          Inl (ThreadRejected r) \<Rightarrow> (Inr None, s)
        | Inl (ConvergenceGate g) \<Rightarrow> (Inl (ThreadFault (ConvergenceGate g)), s)
        | Inr t' \<Rightarrow> (Inr (Some t'), write_row THREAD_KIND i (EThread t') s)))"
  by (simp add: updated_thread_def casUpdateOrThrow_with_def thr.update_quiet [OF assms]
      split: option.split sum.split thread_fault.split)

lemma updated_steps:
  assumes "threads_ok s" "\<And>t t'. f t = Inr t' \<Longrightarrow> thread_step accepts t t'"
  shows "thread_steps accepts s (snd (updated_thread quiet i f s))"
proof -
  have id: "f t = Inr t' \<Longrightarrow> thr_id t' = thr_id t" for t t' using assms(2) thread_step_id by blast
  note eq = updated_eq [OF assms(1) id]
  show ?thesis
  proof (cases "thread_at i s")
    case None
    then show ?thesis by (simp add: eq ks_refl)
  next
    case (Some t)
    then obtain row where row: "find_row s THREAD_KIND i = Some row" "row_data row = EThread t" "thr_id t = i"
      using thr.row_of_find [OF assms(1)] thr.row_of_id [OF assms(1)] by blast
    show ?thesis
    proof (cases "f t")
      case (Inr t')
      from ks_row [OF ks_refl, of s THREAD_KIND thr_id t row EThread "thread_step accepts" t' thread_born] row assms(2) [OF Inr] id [OF Inr]
      show ?thesis by (simp add: eq Some Inr)
    qed (simp add: eq Some ks_refl split: thread_fault.split)
  qed
qed

lemma did_update_store [simp]: "snd (did_update i f s) = snd (updated_thread quiet i f s)"
  by (simp add: did_update_def split: prod.split)

lemma openThread_eq:
  assumes "threads_ok s"
  shows "\<exists>num s'. thread_steps accepts s s' \<and>
    (find_row s' THREAD_KIND (thread_id num) = None \<and>
       openThread now title message author opts s =
         (Inr (opened (thread_id num) now title message author opts),
          write_row THREAD_KIND (thread_id num) (EThread (opened (thread_id num) now title message author opts)) s') \<or>
     find_row s' THREAD_KIND (thread_id num) \<noteq> None \<and> openThread now title message author opts s = (Inl ThreadIdTaken, s'))"
proof -
  let ?d = "''threadCounter''"
  let ?n = "counter_value ?d s + 1"
  let ?s' = "write_row COUNTER_KIND COUNTER_ID (buildEnvelopeWrite (get_op COUNTER_KIND COUNTER_ID s) ?d ?n) s"
  let ?t = "opened (thread_id ?n) now title message author opts"
  have ok: "threads_ok ?s'" by (rule thr.ok_write_other [OF assms]) simp
  have id: "thr_id ?t = thread_id ?n" "thread_id ?n \<noteq> []" by (simp_all add: opened_def thread_id_def)
  have "createOnly ident THREAD_KIND (EThread ?t) ?s' =
    Inr (if find_row ?s' THREAD_KIND (thread_id ?n) \<noteq> None then (ExistingConflict, ?s')
         else (Created (thread_id ?n) (Suc (revisionCounter ?s')), write_row THREAD_KIND (thread_id ?n) (EThread ?t) ?s'))"
    using thr.create_eq [OF ok, of ?t] id by simp
  moreover have "thread_steps accepts s ?s'" by (rule ks_write [OF ks_refl]) simp
  ultimately show ?thesis
    by (intro exI [of _ ?n] exI [of _ ?s']) (simp add: openThread_def next_id_quiet [OF thr.ok_plain [OF assms]] Let_def)
qed

lemma openThread_steps:
  assumes "threads_ok s"
  shows "thread_steps accepts s (snd (openThread now title message author opts s))"
proof -
  obtain num s' where s': "thread_steps accepts s s'" and cases:
    "find_row s' THREAD_KIND (thread_id num) = None \<and>
       openThread now title message author opts s =
         (Inr (opened (thread_id num) now title message author opts),
          write_row THREAD_KIND (thread_id num) (EThread (opened (thread_id num) now title message author opts)) s') \<or>
     openThread now title message author opts s = (Inl ThreadIdTaken, s')"
    using openThread_eq [OF assms] by blast
  let ?t = "opened (thread_id num) now title message author opts"
  have "thr_id ?t = thread_id num" "thread_id num \<noteq> []" "thread_born ?t"
    unfolding thread_born_def by (auto simp: opened_def thread_id_def)
  with ks_create [OF s', of ?t] s' cases show ?thesis by auto
qed

lemma sweep_steps:
  assumes "\<And>t s. threads_ok s \<Longrightarrow> thread_steps accepts s (snd (step t s))" "threads_ok s"
  shows "thread_steps accepts s (snd (sweep step ts s))"
  using assms(2)
proof (induction ts arbitrary: s)
  case Nil
  then show ?case by (simp add: ks_refl)
next
  case (Cons t ts)
  obtain r s' where r: "step t s = (r, s')" by (cases "step t s")
  have s': "thread_steps accepts s s'" using assms(1) [OF Cons.prems, of t] r by simp
  from kind_steps_trans [OF Cons.IH s'] thr.steps_ok [OF s' Cons.prems] s' show ?case
    by (auto simp: r split: sum.split prod.split)
qed

lemma reap_one_steps: "threads_ok s \<Longrightarrow> thread_steps accepts s (snd (reap_one now dflt t s))"
  using updated_steps [of s "reap_row now dflt" accepts "thr_id t"] ts_reap
  by (auto simp: reap_one_def ks_refl split: prod.split sum.split option.split)

lemma unpin_one_steps: "threads_ok s \<Longrightarrow> thread_steps accepts s (snd (unpin_one now a t s))"
  using updated_steps [of s "unpin_row now a" accepts "thr_id t"] ts_unpin
  by (auto simp: unpin_one_def split: prod.split)

lemma perform_thread_steps: "threads_ok s \<Longrightarrow> thread_steps accepts s (thread_perform accepts now q s)"
proof (cases q)
  case (TReap dflt)
  assume "threads_ok s"
  then show ?thesis unfolding TReap by (simp add: reapIdleThreads_def sweep_steps reap_one_steps)
next
  case (TUnpin a)
  assume "threads_ok s"
  then show ?thesis unfolding TUnpin by (simp add: unpinCurrentTurnAgent_def sweep_steps unpin_one_steps)
qed (auto simp: openThread_steps replyToThread_def replyToThread_with_def closeThread_def markCascadeFailed_def
    markLastMessageProjected_def markCascadePending_def markCascadeCompleted_def leaveThread_def
    intro!: updated_steps intro: thread_step.intros)

lemma happens_thread_steps: "threads_ok s \<Longrightarrow> thread_steps accepts s (thread_happens accepts ev s)"
  by (cases ev) (auto simp: perform_thread_steps intro: kind_steps.intros)

lemma fold_thread_steps: "threads_ok s \<Longrightarrow> thread_steps accepts s (fold (thread_happens accepts) evs s)"
proof (induction evs arbitrary: s)
  case (Cons ev evs)
  then have step: "thread_steps accepts s (thread_happens accepts ev s)" by (simp add: happens_thread_steps)
  with Cons show ?case by (simp add: kind_steps_trans [OF _ step] thr.steps_ok)
qed (simp add: ks_refl)

lemma run_threads_ok: "threads_ok (thread_run accepts evs)"
  unfolding thread_run_def by (rule thr.steps_ok [OF fold_thread_steps thr.ok_empty]) (rule thr.ok_empty)

lemma empty_thread_at [simp]: "thread_at i empty_substrate = None"
  by (simp add: row_of_def get_op_def find_row_def getKindStore_def) (simp add: empty_substrate_def)

lemma run_sound:
  assumes "thread_at i (thread_run accepts evs) = Some t"
  shows "thread_sound accepts t \<and> thr_id t = i"
proof
  show "thread_sound accepts t"
    by (rule thr.steps_invariant [OF fold_thread_steps [OF thr.ok_empty] thr.ok_empty _ _ _ assms [unfolded thread_run_def]])
      (simp_all add: opened_sound step_sound)
  show "thr_id t = i" using thr.row_of_id [OF run_threads_ok assms] by simp
qed

section \<open>A thread that converges\<close>

definition demo_accepts :: "staged_type \<Rightarrow> json \<Rightarrow> bool" where
  "demo_accepts ty payload = (case payload of JObj ms \<Rightarrow> map_of ms ''reason'' \<noteq> None | _ \<Rightarrow> False)"

definition demo_open :: open_options where
  "demo_open = \<lparr>ot_maxRounds = Some 5, ot_correlationId = None, ot_labels = [], ot_authorAgentId = Some ''eng'',
     ot_recipientAgentId = None, ot_recipientRole = None, ot_routingMode = None, ot_context = None\<rparr>"

definition demo_proposal :: reply_options where
  "demo_proposal = \<lparr>rp_converged = True, rp_intent = None, rp_semanticIntent = Some SeekApproval,
     rp_stagedActions = [StageOp CloseNoAction (JObj [(''reason'', JStr ''settled'')])], rp_summary = Some ''done'',
     rp_authorAgentId = Some ''arch''\<rparr>"

definition demo_assent :: reply_options where
  "demo_assent = \<lparr>rp_converged = True, rp_intent = None, rp_semanticIntent = None, rp_stagedActions = [],
     rp_summary = None, rp_authorAgentId = Some ''eng''\<rparr>"

definition demo_thread_events :: "thread_event list" where
  "demo_thread_events =
     [ThreadRequest 100 (TOpen ''t'' ''hello'' PartyEngineer demo_open),
      ThreadRequest 200 (TReply ''thread-1'' ''shall we'' PartyArchitect demo_proposal)]"

definition demo_thread :: "thread_event list \<Rightarrow> thread" where
  "demo_thread evs = the (thread_at ''thread-1'' (thread_run demo_accepts evs))"

lemma demo_thread_at:
  "thread_at ''thread-1'' (thread_run demo_accepts demo_thread_events) = Some (demo_thread demo_thread_events)"
proof -
  have "thread_at ''thread-1'' (thread_run demo_accepts demo_thread_events) \<noteq> None" by code_simp
  then show ?thesis by (simp add: demo_thread_def)
qed

section \<open>Properties\<close>



lemma next_turn_other: "next_turn author a ps \<noteq> (author, a)"
proof (cases "find (\<lambda>p. \<not> is_party author a p \<and> pt_role p \<noteq> PartyDirector) ps")
  case None
  then show ?thesis by (cases author) (simp_all add: next_turn_def counterpart_def)
next
  case (Some p)
  then have "\<not> is_party author a p" by (auto simp: find_Some_iff)
  with Some show ?thesis by (auto simp: next_turn_def is_party_def)
qed

lemma reply_fault:
  "reply_row accepts now m author opts t = Inl e \<Longrightarrow>
    (\<exists>r. e = ThreadRejected r) \<and> \<not> may_reply author (rp_authorAgentId opts) t \<or>
    (\<exists>g. e = ConvergenceGate g) \<and> may_reply author (rp_authorAgentId opts) t"
proof -
  have gate: "applyStagedActionOps ops p now as = Inl e \<Longrightarrow> \<exists>g. e = ConvergenceGate g" for ops p as
  proof (induction ops arbitrary: as)
    case (Cons op ops)
    then show ?case
      by (cases op) (auto simp: res_bind_Inl_iff staged_at_def split: option.splits if_splits)
  qed simp
  assume "reply_row accepts now m author opts t = Inl e"
  then show ?thesis
    by (auto simp: reply_row_def may_reply_def res_bind_Inl_iff converge_def Let_def dest: gate split: if_splits)
qed



end
