(* ===== verification/Thread_Outcomes.thy ===== *)
theory Thread_Outcomes
  imports Thread_Properties
begin

text \<open>
  The life of a thread over time: a thread that has ended stays as it ended, the idle reaper ends every idle
  thread it can list, and a reply is atomic whatever other writers do while it runs.
\<close>

section \<open>A thread that has ended\<close>

definition ended_alike :: "thread \<Rightarrow> thread \<Rightarrow> bool" where
  "ended_alike t t' \<longleftrightarrow> thr_status t' \<noteq> ThActive \<and> thr_messages t' = thr_messages t \<and> thr_summary t' = thr_summary t \<and>
     thr_convergenceActions t' = thr_convergenceActions t \<and> thr_roundCount t' = thr_roundCount t \<and>
     thr_participants t' = thr_participants t \<and>
     (thr_status t' = thr_status t \<or> thr_status t' = ThClosed \<or> thr_status t = ThConverged \<and> thr_status t' = ThCascadeFailed)"

lemma step_ended:
  assumes "thread_step accepts t t'" "thr_status t \<noteq> ThActive"
  shows "ended_alike t t'"
  using assms(1)
proof (cases rule: thread_step.cases)
  case (ts_reply now message author opts)
  with assms(2) show ?thesis by (simp add: reply_row_Inr may_reply_def)
qed (use assms(2) in \<open>auto simp: thread_rows ended_alike_def split: if_splits\<close>)

lemma steps_ended: "(thread_step accepts)\<^sup>*\<^sup>* t t' \<Longrightarrow> thr_status t \<noteq> ThActive \<Longrightarrow> ended_alike t t'"
proof (induction rule: rtranclp_induct)
  case base
  then show ?case by (simp add: ended_alike_def)
next
  case (step u v)
  then have "ended_alike t u" by simp
  moreover from this have "thr_status u \<noteq> ThActive" by (simp add: ended_alike_def)
  then have "ended_alike u v" using step.hyps(2) by (rule step_ended [rotated])
  ultimately show ?case by (auto simp: ended_alike_def)
qed

text \<open>
  C26: a thread that has ended stays ended.  Once a thread is converged, at its round limit, abandoned, failed or closed,
  whatever is requested later, it never becomes active again, and its messages, summary, actions,
  participants and rounds stay as they were; its status changes at most to closed, or from converged to cascade-failed and then to
  closed.
\<close>

theorem thread_final:
  assumes "thread_at i (thread_run accepts evs) = Some t" "thr_status t \<noteq> ThActive"
  shows "\<exists>t'. thread_at i (thread_run accepts (evs @ later)) = Some t' \<and> thr_status t' \<noteq> ThActive \<and>
    thr_messages t' = thr_messages t \<and> thr_summary t' = thr_summary t \<and> thr_roundCount t' = thr_roundCount t \<and>
    thr_convergenceActions t' = thr_convergenceActions t \<and> thr_participants t' = thr_participants t \<and>
    (thr_status t' = thr_status t \<or> thr_status t' = ThClosed \<or> thr_status t = ThConverged \<and> thr_status t' = ThCascadeFailed)"
proof -
  have "thread_steps accepts (thread_run accepts evs) (thread_run accepts (evs @ later))"
    using fold_thread_steps [OF run_threads_ok] by (simp add: thread_run_def)
  from thr.steps_path [OF this run_threads_ok assms(1)] obtain t' where
    t': "thread_at i (thread_run accepts (evs @ later)) = Some t'" "(thread_step accepts)\<^sup>*\<^sup>* t t'" by blast
  from steps_ended [OF t'(2) assms(2)] t'(1) show ?thesis unfolding ended_alike_def by blast
qed

text \<open>A late reply and a cascade failure after the convergence of the demo thread.\<close>

definition demo_ended :: "thread_event list" where
  "demo_ended = demo_thread_events @ [ThreadRequest 300 (TReply ''thread-1'' ''agreed'' PartyEngineer demo_assent)]"

theorem thread_final_witness:
  "\<exists>t'. thread_at ''thread-1'' (thread_run demo_accepts (demo_ended @
       [ThreadRequest 400 (TReply ''thread-1'' ''wait'' PartyArchitect demo_proposal), ThreadRequest 500 (TCascadeFailed ''thread-1'')]))
     = Some t' \<and> thr_messages t' = thr_messages (demo_thread demo_ended)"
proof -
  have "thread_at ''thread-1'' (thread_run demo_accepts demo_ended) \<noteq> None"
    and st: "thr_status (demo_thread demo_ended) \<noteq> ThActive" by code_simp+
  then have "thread_at ''thread-1'' (thread_run demo_accepts demo_ended) = Some (demo_thread demo_ended)"
    by (simp add: demo_thread_def)
  from thread_final [OF this st] show ?thesis by blast
qed

section \<open>The reaper\<close>

text \<open>An active thread is not truncated on a read, so the reaper sees the stored row.\<close>

lemma listThreads_active:
  assumes ok: "threads_ok s"
  shows "set (listThreads (Some ThActive) (\<lambda>_. True) s) \<subseteq> {t. thread_at (thr_id t) s = Some t \<and> thr_status t = ThActive}"
    and "distinct (map thr_id (listThreads (Some ThActive) (\<lambda>_. True) s))"
    and "length (filter (\<lambda>t. thr_status t = ThActive) (kind_rows as_thread THREAD_KIND s)) \<le> LIST_PREFETCH_CAP \<Longrightarrow>
      set (listThreads (Some ThActive) (\<lambda>_. True) s) = {t. thread_at (thr_id t) s = Some t \<and> thr_status t = ThActive}"
proof -
  let ?P = "\<lambda>t. thr_status t = ThActive"
  let ?l = "list_kind as_thread THREAD_KIND ?P (Some newest_first) LIST_PREFETCH_CAP s"
  note facts = thr.list_kind_facts [OF ok, where P = ?P and cmp = "Some newest_first" and limit = LIST_PREFETCH_CAP]
  have "map truncateClosedThreadMessages ?l = ?l"
  proof (rule map_idI)
    fix t assume "t \<in> set ?l"
    with facts(1) have "thr_status t = ThActive" by blast
    then show "truncateClosedThreadMessages t = t" by (simp add: truncateClosedThreadMessages_def)
  qed
  then have eq: "listThreads (Some ThActive) (\<lambda>_. True) s = ?l" by (simp add: listThreads_def)
  show "set (listThreads (Some ThActive) (\<lambda>_. True) s) \<subseteq> {t. thread_at (thr_id t) s = Some t \<and> thr_status t = ThActive}"
    unfolding eq by (rule facts(1))
  show "distinct (map thr_id (listThreads (Some ThActive) (\<lambda>_. True) s))" unfolding eq by (rule facts(2))
  assume "length (filter ?P (kind_rows as_thread THREAD_KIND s)) \<le> LIST_PREFETCH_CAP"
  then have "length (filter ?P (kind_rows as_thread THREAD_KIND s)) \<le> min LIST_PREFETCH_CAP 500"
    by (simp add: LIST_PREFETCH_CAP_def)
  from facts(3) [OF this] show "set (listThreads (Some ThActive) (\<lambda>_. True) s) = {t. thread_at (thr_id t) s = Some t \<and> thr_status t = ThActive}"
    unfolding eq .
qed

definition reaped :: "instant \<Rightarrow> thread \<Rightarrow> thread" where
  "reaped now t = t\<lparr>thr_convergenceActions := retract_where (\<lambda>a. True) now (thr_convergenceActions t),
     thr_status := ThAbandoned, thr_updatedAt := now\<rparr>"

lemma reap_one_eq:
  assumes "threads_ok s" "thread_at (thr_id t) s = Some t" "thr_status t = ThActive"
  shows "reap_one now dflt t s =
    (if idle now dflt t
     then (Inr (Some \<lparr>rd_threadId = thr_id t, rd_title = thr_title t, rd_labels = thr_labels t,
               rd_participantAgentIds = filter (\<lambda>a. a \<noteq> []) (List.map_filter pt_agentId (thr_participants t)),
               rd_idleMs = now - thr_updatedAt t\<rparr>), write_row THREAD_KIND (thr_id t) (EThread (reaped now t)) s)
     else (Inr None, s))"
proof (cases "idle now dflt t")
  case True
  have id: "reap_row now dflt u = Inr u' \<Longrightarrow> thr_id u' = thr_id u" for u u' using ts_reap thread_step_id by blast
  have "reap_row now dflt t = Inr (reaped now t)" using assms(3) True by (simp add: reap_row_def reaped_def)
  then have "updated_thread quiet (thr_id t) (reap_row now dflt) s =
      (Inr (Some (reaped now t)), write_row THREAD_KIND (thr_id t) (EThread (reaped now t)) s)"
    using updated_eq [of s "reap_row now dflt", OF assms(1) id] assms(2) by simp
  with True show ?thesis by (simp add: reap_one_def)
qed (simp add: reap_one_def)

lemma reap_sweep:
  assumes "threads_ok s" "\<forall>t \<in> set ts. thread_at (thr_id t) s = Some t \<and> thr_status t = ThActive" "distinct (map thr_id ts)"
  shows "\<exists>rs s'. sweep (reap_one now dflt) ts s = (Inr rs, s') \<and> threads_ok s' \<and>
    map rd_threadId rs = map thr_id (filter (idle now dflt) ts) \<and>
    (\<forall>j. thread_at j s' = (case thread_at j s of
       Some t \<Rightarrow> if t \<in> set ts \<and> idle now dflt t then Some (reaped now t) else Some t | None \<Rightarrow> None))"
  using assms
proof (induction ts arbitrary: s)
  case Nil
  then show ?case by (simp split: option.split)
next
  case (Cons t ts)
  have t: "thread_at (thr_id t) s = Some t" "thr_status t = ThActive" using Cons.prems(2) by simp_all
  obtain row where row: "find_row s THREAD_KIND (thr_id t) = Some row" using t(1) thr.row_of_find [OF Cons.prems(1)] by blast
  have ne: "thr_id t \<noteq> []" using thr.row_of_id [OF Cons.prems(1) t(1)] by simp
  let ?s = "if idle now dflt t then write_row THREAD_KIND (thr_id t) (EThread (reaped now t)) s else s"
  have ok: "threads_ok ?s" using Cons.prems(1) thr.ok_write [OF Cons.prems(1), of "reaped now t"] ne by (simp add: reaped_def)
  have others: "\<forall>u \<in> set ts. thread_at (thr_id u) ?s = Some u \<and> thr_status u = ThActive"
    using Cons.prems(2,3) by (auto simp: image_iff)
  from Cons.IH [OF ok others] Cons.prems(3) obtain rs s' where IH: "sweep (reap_one now dflt) ts ?s = (Inr rs, s')" "threads_ok s'"
    "map rd_threadId rs = map thr_id (filter (idle now dflt) ts)"
    "\<forall>j. thread_at j s' = (case thread_at j ?s of
       Some t \<Rightarrow> if t \<in> set ts \<and> idle now dflt t then Some (reaped now t) else Some t | None \<Rightarrow> None)" by auto
  have key: "thread_at j s = Some u \<Longrightarrow> thr_id u = j" for j u using thr.row_of_id [OF Cons.prems(1)] by blast
  have fresh: "t \<notin> set ts" "reaped now t \<notin> set ts"
    using Cons.prems(2,3) by (auto simp: reaped_def)
  have store: "thread_at j s' = (case thread_at j s of
       Some u \<Rightarrow> if u \<in> set (t # ts) \<and> idle now dflt u then Some (reaped now u) else Some u | None \<Rightarrow> None)" for j
  proof (cases "j = thr_id t")
    case True
    then have "thread_at j ?s = Some (if idle now dflt t then reaped now t else t)" using t(1) by simp
    with IH(4) fresh True t(1) show ?thesis by (auto split: if_splits)
  next
    case False
    then have "thread_at j ?s = thread_at j s" by simp
    moreover have "thread_at j s = Some u \<Longrightarrow> u \<noteq> t" for u using key False by blast
    ultimately show ?thesis using IH(4) by (auto split: option.split)
  qed
  have "\<exists>out. sweep (reap_one now dflt) (t # ts) s = (Inr out, s') \<and> map rd_threadId out = map thr_id (filter (idle now dflt) (t # ts))"
    using IH(1,3) by (cases "idle now dflt t") (simp_all add: reap_one_eq [OF Cons.prems(1) t])
  with IH(2) store show ?case by blast
qed

definition active_threads :: "hub_store \<Rightarrow> thread list" where
  "active_threads s = filter (\<lambda>t. thr_status t = ThActive) (kind_rows as_thread THREAD_KIND s)"

text \<open>
  C29: no idle thread survives the reaper, as long as it can list the active ones.  If there are no more active threads than
  one list returns, a sweep succeeds, abandons exactly the active threads whose idle time is over their
  threshold, retracts what they had staged, reports exactly those, and changes no other thread; so no active
  thread is idle after it.
\<close>

theorem reap_complete:
  assumes "s = thread_run accepts evs" "length (active_threads s) \<le> LIST_PREFETCH_CAP"
  shows "\<exists>rs s'. reapIdleThreads now dflt s = (Inr rs, s') \<and>
    rd_threadId ` set rs = {i. \<exists>t. thread_at i s = Some t \<and> thr_status t = ThActive \<and> idle now dflt t} \<and>
    (\<forall>i t. thread_at i s = Some t \<longrightarrow>
      thread_at i s' = Some (if thr_status t = ThActive \<and> idle now dflt t then reaped now t else t)) \<and>
    (\<forall>i t'. thread_at i s' = Some t' \<and> thr_status t' = ThActive \<longrightarrow> \<not> idle now dflt t')"
proof -
  let ?ts = "listThreads (Some ThActive) (\<lambda>_. True) s"
  have ok: "threads_ok s" unfolding assms(1) by (rule run_threads_ok)
  have set: "set ?ts = {t. thread_at (thr_id t) s = Some t \<and> thr_status t = ThActive}"
    by (rule listThreads_active(3) [OF ok]) (use assms(2) in \<open>simp add: active_threads_def\<close>)
  obtain rs s' where run: "sweep (reap_one now dflt) ?ts s = (Inr rs, s')"
    and ids: "map rd_threadId rs = map thr_id (filter (idle now dflt) ?ts)"
    and at: "\<forall>j. thread_at j s' = (case thread_at j s of
       Some t \<Rightarrow> if t \<in> set ?ts \<and> idle now dflt t then Some (reaped now t) else Some t | None \<Rightarrow> None)"
    using reap_sweep [OF ok _ listThreads_active(2) [OF ok], of now dflt] set by blast
  have key: "thread_at j s = Some u \<Longrightarrow> thr_id u = j" for j u using thr.row_of_id [OF ok] by blast
  have mem: "thread_at j s = Some u \<Longrightarrow> u \<in> set ?ts \<longleftrightarrow> thr_status u = ThActive" for j u using key set by auto
  have "rd_threadId ` set rs = thr_id ` {t \<in> set ?ts. idle now dflt t}"
    using arg_cong [OF ids, of set] by simp
  also have "\<dots> = {i. \<exists>t. thread_at i s = Some t \<and> thr_status t = ThActive \<and> idle now dflt t}"
  proof (intro equalityI subsetI)
    fix i assume "i \<in> thr_id ` {t \<in> set ?ts. idle now dflt t}"
    then obtain t where "i = thr_id t" "t \<in> set ?ts" "idle now dflt t" by blast
    then show "i \<in> {i. \<exists>t. thread_at i s = Some t \<and> thr_status t = ThActive \<and> idle now dflt t}" unfolding set by blast
  next
    fix i assume "i \<in> {i. \<exists>t. thread_at i s = Some t \<and> thr_status t = ThActive \<and> idle now dflt t}"
    then obtain t where t: "thread_at i s = Some t" "thr_status t = ThActive" "idle now dflt t" by blast
    then have "i = thr_id t" "t \<in> set ?ts" using key mem by blast+
    with t(3) show "i \<in> thr_id ` {t \<in> set ?ts. idle now dflt t}" by blast
  qed
  finally have reported: "rd_threadId ` set rs = {i. \<exists>t. thread_at i s = Some t \<and> thr_status t = ThActive \<and> idle now dflt t}" .
  have after: "thread_at i s' = Some (if thr_status t = ThActive \<and> idle now dflt t then reaped now t else t)"
    if "thread_at i s = Some t" for i t using at that mem [OF that] by simp
  have "\<not> idle now dflt t'" if "thread_at i s' = Some t'" "thr_status t' = ThActive" for i t'
  proof (cases "thread_at i s")
    case None
    with at that(1) show ?thesis by simp
  next
    case (Some t)
    from after [OF Some] that show ?thesis by (auto simp: reaped_def split: if_splits)
  qed
  with run reported after show ?thesis unfolding reapIdleThreads_def by blast
qed

theorem reap_complete_witness:
  "\<exists>rs s'. reapIdleThreads 5000 1000 (thread_run demo_accepts demo_thread_events) = (Inr rs, s') \<and>
     (\<forall>i t'. thread_at i s' = Some t' \<and> thr_status t' = ThActive \<longrightarrow> \<not> idle 5000 1000 t')"
proof -
  have "length (active_threads (thread_run demo_accepts demo_thread_events)) \<le> LIST_PREFETCH_CAP" by code_simp
  from reap_complete [OF refl this, of 5000 1000] show ?thesis by blast
qed

section \<open>A reply under interference\<close>

lemma swallow_Some: "swallow r = Inr (Some t) \<longleftrightarrow> r = Inr t"
  by (cases r rule: swallow.cases) auto

lemma updated_thread_Some:
  assumes "updated_thread envs i f s = (Inr (Some t'), s')"
  shows "\<exists>e. cas_update THREAD_KIND EThread as_thread envs i f s = (CasDone e, s') \<and> as_thread e = Some t'"
proof -
  obtain out s1 where run: "cas_update THREAD_KIND EThread as_thread envs i f s = (out, s1)"
    by (cases "cas_update THREAD_KIND EThread as_thread envs i f s")
  obtain r where "casUpdateOrThrow_with envs i f s = (r, s')" "r = Inr t'"
    using assms by (auto simp: updated_thread_def swallow_Some split: prod.splits)
  then show ?thesis
    by (cases out) (auto simp: casUpdateOrThrow_with_def run split: option.splits)
qed

text \<open>
  A reply is atomic.  Whatever other writers do to the store in every attempt of the loop (any writes, deletes and batches that keep
  the stored threads well formed), a reply that is taken is one atomic write at a moment when the stored thread was still
  the one the reply was computed from, so no concurrent reply is lost or overwritten.
\<close>

theorem reply_atomic:
  assumes "kind_ok EThread thr_id THREAD_KIND s" "other_clients envs"
    and "\<forall>(b, w) \<in> set envs. \<forall>s. kind_ok EThread thr_id THREAD_KIND s \<longrightarrow>
      kind_ok EThread thr_id THREAD_KIND (b s) \<and> kind_ok EThread thr_id THREAD_KIND (w s)"
    and "replyToThread_with envs accepts now i m author opts s = (Inr (Some t'), s')"
  shows "\<exists>moment t. evolves s moment \<and> thread_at i moment = Some t \<and> may_reply author (rp_authorAgentId opts) t \<and>
    reply_row accepts now m author opts t = Inr t' \<and> s' = write_row THREAD_KIND i (EThread t') moment"
proof -
  let ?f = "reply_row accepts now m author opts"
  have id: "?f u = Inr u' \<Longrightarrow> thr_id u' = thr_id u" for u u' using ts_reply thread_step_id by blast
  obtain e where fin: "cas_update THREAD_KIND EThread as_thread envs i ?f s = (CasDone e, s')" "as_thread e = Some t'"
    using updated_thread_Some assms(4) unfolding replyToThread_with_def by blast
  have "thr.polite envs" using assms(3) unfolding thr.polite_def .
  from thr.update_atomic [OF fin(1) assms(1,2) this id] obtain moment t u where
    m: "evolves s moment" "thread_at i moment = Some t" "?f t = Inr u" "e = EThread u" "s' = write_row THREAD_KIND i e moment"
    by blast
  have "u = t'" using fin(2) m(4) by simp
  with m show ?thesis using reply_row_Inr by blast
qed

text \<open>Between the read and the write of the first attempt another writer files a bug.\<close>

definition demo_rivals :: "hub_store attempt list" where
  "demo_rivals = [(\<lambda>s. s, \<lambda>s. write_row ''Bug'' ''bug-1'' (EOther ''bug-1'') s), (\<lambda>s. s, \<lambda>s. s)]"

theorem reply_atomic_witness:
  "\<exists>t' s' moment. replyToThread_with demo_rivals demo_accepts 300 ''thread-1'' ''agreed'' PartyEngineer demo_assent
       (thread_run demo_accepts demo_thread_events) = (Inr (Some t'), s') \<and>
     s' = write_row THREAD_KIND ''thread-1'' (EThread t') moment"
proof -
  let ?s = "thread_run demo_accepts demo_thread_events"
  let ?run = "replyToThread_with demo_rivals demo_accepts 300 ''thread-1'' ''agreed'' PartyEngineer demo_assent ?s"
  have "case fst ?run of Inr (Some t') \<Rightarrow> True | _ \<Rightarrow> False" by code_simp
  then obtain t' s' where run: "?run = (Inr (Some t'), s')" by (cases ?run) (auto split: sum.splits option.splits)
  have envs: "other_clients demo_rivals" by (auto simp: other_clients_def demo_rivals_def intro: st_write)
  have polite: "\<forall>(b, w) \<in> set demo_rivals. \<forall>s. threads_ok s \<longrightarrow> threads_ok (b s) \<and> threads_ok (w s)"
    by (auto simp: demo_rivals_def THREAD_KIND_def intro: thr.ok_write_other [unfolded THREAD_KIND_def])
  from reply_atomic [OF run_threads_ok envs polite run] run show ?thesis by blast
qed

end
