(* ===== verification/Decisions.thy ===== *)
theory Decisions
  imports Entity_Kind
begin

text \<open>
  The decision repository (\<open>hub/src/entities/decision-repository-substrate.ts\<close>) with the curation trail it writes
  (\<open>hub/src/entities/curation-repository-substrate.ts\<close>; the hub always wires it).  Each verb is a transform of the row (\<open>..._row\<close>, the
  source's callback) run in the update loop.  Stored rows are whole, so \<open>cloneDecision\<close> is the identity.
\<close>

section \<open>Kinds and errors\<close>

definition DECISION_KIND :: string where "DECISION_KIND = ''Decision''"
definition RAW_KIND :: string where "RAW_KIND = ''RawDecisionRaised''"
definition RECORD_KIND :: string where "RECORD_KIND = ''CurationRecord''"

fun as_decision :: "hub_entity \<Rightarrow> decision option" where
  "as_decision (EDecision d) = Some d"
| "as_decision _ = None"

fun as_raw :: "hub_entity \<Rightarrow> raw_decision option" where
  "as_raw (ERaw r) = Some r"
| "as_raw _ = None"

fun as_curation :: "hub_entity \<Rightarrow> curation_record option" where
  "as_curation (ECuration c) = Some c"
| "as_curation _ = None"

datatype plan_fault =
    NotInRegistry
  | StoreNotWired
  | UnblockTargetMissing
  | NotBlockedOnDecision
  | ProposalMissing
  | ProposalNotSubmitted
  | RequiredEvidenceMissing
  | ConstitutionNotSynced
  | NotInConstitution
  | BindingStatusUnknown
  | SelfReference
  | SectionUnknown
  | AmendmentTextMissing

datatype proof_fault =
    ProofUnavailable
  | NoProofRef
  | ConfirmationMissing
  | NotAnswered
  | AnswerNotDirectors
  | AlreadyAnswered
  | AlreadyConsumed
  | ConfirmationExpired
  | BoundElsewhere
  | HashMismatch
  | SignalMissing
  | ConfirmationRequired
  | RouteDoesNotCite
  | GrantMissing
  | NotAProof
  | ScanTruncated

datatype grant_fault =
    GrantNotActive
  | RepresentationOverdue
  | ClassNotCovered
  | ClassExcluded
  | ParentKindNotCovered
  | RefExcluded
  | ActionNotAllowed
  | ActionNotReversible
  | RatificationUnresolved
  | RatificationBindsOther
  | SelfContradictory
  | SupersededMissing
  | RatificationConsumed
  | RevocationReasonRequired

datatype decision_rejection =
    NoEdge decision_phase decision_phase
  | RouteUncited
  | RouteUnclassified
  | ReservedMode
  | AuthorityRefMissing authority_mode
  | BindingRequiresResolved decision_phase
  | MergeIntoSelf
  | MergeTargetMissing
  | DisposalReasonRequired
  | NotTheRaiser
  | PlanInvalid plan_fault
  | ProofInvalid proof_fault
  | GrantInvalid grant_fault

datatype decision_error =
    DecisionRejected decision_rejection
  | DecisionUndecodable
  | DecisionStoreThrew store_error
  | DecisionCasExhausted
  | DecisionCounter wi_error
  | DecisionIdTaken
  | CitationRequired

type_synonym 'a decision_result = "(decision_error + 'a) \<times> hub_store"

type_synonym decision_row = "decision \<Rightarrow> decision_rejection + decision"

text \<open>A row under the next number of a counter: the counter is advanced first, then the row is created.\<close>

definition create_numbered :: "string \<Rightarrow> string \<Rightarrow> ('r \<Rightarrow> hub_entity) \<Rightarrow> (int \<Rightarrow> 'r) \<Rightarrow> hub_store \<Rightarrow> 'r decision_result" where
  "create_numbered counter K mk build s =
     (case next_id counter s of
        (Inl e, s') \<Rightarrow> (Inl (DecisionCounter e), s')
      | (Inr num, s') \<Rightarrow>
          (case createOnly ident K (mk (build num)) s' of
             Inl z \<Rightarrow> (Inl (DecisionStoreThrew z), s')
           | Inr (Created i rv, s'') \<Rightarrow> (Inr (build num), s'')
           | Inr (ExistingConflict, s'') \<Rightarrow> (Inl DecisionIdTaken, s'')))"

text \<open>The update loop; a missing row is no error.\<close>

definition update_kind_with :: "string \<Rightarrow> ('r \<Rightarrow> hub_entity) \<Rightarrow> (hub_entity \<Rightarrow> 'r option) \<Rightarrow> hub_store attempt list \<Rightarrow> string
    \<Rightarrow> ('r \<Rightarrow> decision_rejection + 'r) \<Rightarrow> hub_store \<Rightarrow> 'r option decision_result" where
  "update_kind_with K mk dest envs i f s =
     (case cas_update K mk dest envs i f s of
        (CasDone e, s') \<Rightarrow> ((case dest e of None \<Rightarrow> Inl DecisionUndecodable | Some r \<Rightarrow> Inr (Some r)), s')
      | (CasMissing, s') \<Rightarrow> (Inr None, s')
      | (CasFailed None, s') \<Rightarrow> (Inl DecisionUndecodable, s')
      | (CasFailed (Some r), s') \<Rightarrow> (Inl (DecisionRejected r), s')
      | (CasThrew z, s') \<Rightarrow> (Inl (DecisionStoreThrew z), s')
      | (CasExhausted, s') \<Rightarrow> (Inl DecisionCasExhausted, s'))"

definition decision_update_with :: "hub_store attempt list \<Rightarrow> string \<Rightarrow> decision_row \<Rightarrow> hub_store \<Rightarrow> decision option decision_result" where
  "decision_update_with = update_kind_with DECISION_KIND EDecision as_decision"

definition decision_update :: "string \<Rightarrow> decision_row \<Rightarrow> hub_store \<Rightarrow> decision option decision_result" where
  "decision_update = decision_update_with quiet"

text \<open>Sequencing of results.\<close>

definition then_do :: "'a decision_result \<Rightarrow> ('a \<Rightarrow> hub_store \<Rightarrow> 'b decision_result) \<Rightarrow> 'b decision_result" where
  "then_do r k = (case r of (Inl e, s) \<Rightarrow> (Inl e, s) | (Inr x, s) \<Rightarrow> k x s)"

section \<open>The curation trail\<close>

definition by_text :: "('r \<Rightarrow> string) \<Rightarrow> 'r \<Rightarrow> 'r \<Rightarrow> int" where
  "by_text f a b = (if f a < f b then -1 else if f b < f a then 1 else 0)"

definition numbered_id :: "string \<Rightarrow> int \<Rightarrow> string" where
  "numbered_id stem n = stem @ show_int n"

definition mintRaw :: "instant \<Rightarrow> raw_decision \<Rightarrow> hub_store \<Rightarrow> raw_decision decision_result" where
  "mintRaw now input = create_numbered ''rawDecisionRaisedCounter'' RAW_KIND ERaw
     (\<lambda>num. input\<lparr>rw_id := numbered_id ''raw-'' num, rw_createdAt := now, rw_updatedAt := now\<rparr>)"

definition listAllRaws :: "hub_store \<Rightarrow> raw_decision list" where
  "listAllRaws = list_all_kind as_raw RAW_KIND (by_text rw_id)"

definition getRawForDecision :: "string \<Rightarrow> hub_store \<Rightarrow> raw_decision option" where
  "getRawForDecision decisionId s = find (\<lambda>r. rw_decisionId r = decisionId) (listAllRaws s)"

definition listRawInterval :: "instant \<Rightarrow> instant \<Rightarrow> hub_store \<Rightarrow> raw_decision list" where
  "listRawInterval start stop s = filter (\<lambda>r. start \<le> rw_raisedAt r \<and> rw_raisedAt r \<le> stop) (listAllRaws s)"

definition record_curation :: "instant \<Rightarrow> curation_record \<Rightarrow> hub_store \<Rightarrow> curation_record decision_result" where
  "record_curation now input s =
     (if cu_act input = ActRouteSelfDisposal \<and> falsy_text (cu_grantCitation input) then (Inl CitationRequired, s)
      else create_numbered ''curationRecordCounter'' RECORD_KIND ECuration
        (\<lambda>num. input\<lparr>cu_id := numbered_id ''cur-'' num, cu_createdAt := now, cu_updatedAt := now\<rparr>) s)"

definition listAllRecords :: "hub_store \<Rightarrow> curation_record list" where
  "listAllRecords = list_all_kind as_curation RECORD_KIND (by_text cu_id)"

definition listRecordsForDecision :: "string \<Rightarrow> hub_store \<Rightarrow> curation_record list" where
  "listRecordsForDecision decisionId s = filter (\<lambda>r. cu_decisionId r = decisionId) (listAllRecords s)"

definition trail :: "instant \<Rightarrow> string \<Rightarrow> curation_act \<Rightarrow> (string \<times> json \<times> json) list \<Rightarrow> decision_actor \<Rightarrow> string \<Rightarrow> string option
    \<Rightarrow> string list \<Rightarrow> hub_store \<Rightarrow> curation_record decision_result" where
  "trail now decisionId act changes curator basis grantCitation extraRawIds s =
     record_curation now
       \<lparr>cu_id = [], cu_decisionId = decisionId, cu_act = act, cu_changes = changes, cu_curator = curator, cu_basis = basis,
        cu_sourceRawIds = (case getRawForDecision decisionId s of None \<Rightarrow> [] | Some r \<Rightarrow> [rw_id r]) @ extraRawIds,
        cu_grantCitation = grantCitation, cu_createdAt = now, cu_updatedAt = now\<rparr> s"

section \<open>The lifecycle of a row\<close>

fun add_dwell :: "decision_phase \<Rightarrow> int \<Rightarrow> decision_durations \<Rightarrow> decision_durations" where
  "add_dwell DcRaised n dd = dd\<lparr>dd_raised := dd_raised dd + n\<rparr>"
| "add_dwell DcCurated n dd = dd\<lparr>dd_curated := dd_curated dd + n\<rparr>"
| "add_dwell DcRouted n dd = dd\<lparr>dd_routed := dd_routed dd + n\<rparr>"
| "add_dwell DcResolved n dd = dd\<lparr>dd_resolved := dd_resolved dd + n\<rparr>"
| "add_dwell _ n dd = dd"

definition accrueExiting :: "decision \<Rightarrow> instant \<Rightarrow> decision_durations \<times> instant" where
  "accrueExiting d now =
     (let elapsed = max 0 (now - dc_enteredCurrentStateAt d) in (add_dwell (dc_status d) elapsed (dc_stateDurations d), now))"

definition moved :: "decision_phase \<Rightarrow> instant \<Rightarrow> decision \<Rightarrow> decision" where
  "moved to now d =
     (let (durations, entered) = accrueExiting d now
      in d\<lparr>dc_status := to, dc_stateDurations := durations, dc_enteredCurrentStateAt := entered, dc_updatedAt := now\<rparr>)"

definition assertEdge :: "decision \<Rightarrow> decision_phase \<Rightarrow> decision_rejection + unit" where
  "assertEdge d to = (if to \<in> set (DECISION_TRANSITIONS (dc_status d)) then Inr () else Inl (NoEdge (dc_status d) to))"

definition raised :: "string \<Rightarrow> instant \<Rightarrow> (string \<times> string) option \<Rightarrow> string option \<Rightarrow> string \<Rightarrow> string \<Rightarrow> context_ref list
    \<Rightarrow> decision_option list \<Rightarrow> decision_actor \<Rightarrow> decision" where
  "raised i now parentRef cls title context contextRefs options raisedBy =
     \<lparr>dc_id = i, dc_parentRef = parentRef, dc_class = cls, dc_title = title, dc_context = context,
      dc_contextRefs = contextRefs, dc_options = options, dc_raisedBy = raisedBy, dc_curatedBy = None,
      dc_curationRecordRef = None, dc_routedTo = None, dc_routedBy = None, dc_resolution = None, dc_executionPlan = [],
      dc_mergedInto = None, dc_disposedReason = None, dc_executorBinding = None, dc_status = DcRaised,
      dc_enteredCurrentStateAt = now, dc_stateDurations = DEFAULT_DWELL, dc_createdAt = now, dc_updatedAt = now\<rparr>"

definition raw_of :: "instant \<Rightarrow> decision \<Rightarrow> raw_decision" where
  "raw_of now d =
     \<lparr>rw_id = [], rw_decisionId = dc_id d, rw_title = dc_title d, rw_context = dc_context d, rw_class = dc_class d,
      rw_options = dc_options d, rw_contextRefs = dc_contextRefs d, rw_raisedBy = dc_raisedBy d, rw_raisedAt = now,
      rw_createdAt = now, rw_updatedAt = now\<rparr>"

definition raiseDecision :: "instant \<Rightarrow> (string \<times> string) option \<Rightarrow> string option \<Rightarrow> string \<Rightarrow> string \<Rightarrow> context_ref list
    \<Rightarrow> decision_option list \<Rightarrow> decision_actor \<Rightarrow> hub_store \<Rightarrow> decision decision_result" where
  "raiseDecision now parentRef cls title context contextRefs options raisedBy s =
     then_do (create_numbered ''decisionCounter'' DECISION_KIND EDecision
       (\<lambda>num. raised (numbered_id ''decision-'' num) now parentRef cls title context contextRefs options raisedBy) s) (\<lambda>d s'.
     then_do (mintRaw now (raw_of now d) s') (\<lambda>_ s''. (Inr d, s'')))"

section \<open>Reading\<close>

definition getDecision :: "string \<Rightarrow> hub_store \<Rightarrow> decision option" where
  "getDecision i s = row_of as_decision DECISION_KIND i s"

definition DECISION_LIST_CAP :: nat where "DECISION_LIST_CAP = 500"

record decision_filter =
  df_status :: "decision_phase option"
  df_class :: "string option"
  df_routedTarget :: "route_target option"

definition matches_decision :: "decision_filter \<Rightarrow> decision \<Rightarrow> bool" where
  "matches_decision q d \<longleftrightarrow>
     (case df_status q of None \<Rightarrow> True | Some p \<Rightarrow> dc_status d = p) \<and>
     (falsy_text (df_class q) \<or> dc_class d = df_class q) \<and>
     (case df_routedTarget q of None \<Rightarrow> True | Some r \<Rightarrow> map_option rt_target (dc_routedTo d) = Some r)"

definition listDecisions :: "decision_filter \<Rightarrow> hub_store \<Rightarrow> decision list \<times> bool" where
  "listDecisions q s =
     (let items = list_kind as_decision DECISION_KIND (matches_decision q) None DECISION_LIST_CAP s
      in (items, DECISION_LIST_CAP \<le> length items))"

definition listAllDecisions :: "decision_filter \<Rightarrow> hub_store \<Rightarrow> decision list" where
  "listAllDecisions q s = filter (matches_decision q) (list_all_kind as_decision DECISION_KIND (by_text dc_id) s)"

definition listAging :: "instant \<Rightarrow> int \<Rightarrow> hub_store \<Rightarrow> decision list" where
  "listAging now threshold s =
     filter (\<lambda>d. dc_enteredCurrentStateAt d \<le> now - threshold)
       (list_kind as_decision DECISION_KIND (\<lambda>d. dc_status d = DcRouted) None DECISION_LIST_CAP s)"

section \<open>Curation and routing\<close>

definition curate_row :: "instant \<Rightarrow> decision_actor \<Rightarrow> string option \<Rightarrow> string option \<Rightarrow> decision_row" where
  "curate_row now curator recordRef cls d =
     res_bind (assertEdge d DcCurated) (\<lambda>_.
     Inr (moved DcCurated now (d\<lparr>dc_curatedBy := Some curator,
       dc_curationRecordRef := (case recordRef of None \<Rightarrow> dc_curationRecordRef d | Some r \<Rightarrow> Some r),
       dc_class := (case cls of None \<Rightarrow> dc_class d | Some c \<Rightarrow> Some c)\<rparr>)))"

definition text_or_null :: "string option \<Rightarrow> json" where
  "text_or_null x = (case x of None \<Rightarrow> JNull | Some t \<Rightarrow> JStr t)"

definition curateDecision :: "instant \<Rightarrow> string \<Rightarrow> decision_actor \<Rightarrow> string option \<Rightarrow> string option \<Rightarrow> string option
    \<Rightarrow> hub_store \<Rightarrow> decision option decision_result" where
  "curateDecision now i curator recordRef cls basis s =
     (let prior = getDecision i s in
      then_do (decision_update i (curate_row now curator recordRef cls) s) (\<lambda>result s'.
      case (result, prior) of
        (Some r, Some b) \<Rightarrow>
          then_do (trail now i ActCurate
            (if cls \<noteq> None \<and> cls \<noteq> dc_class b then [(''class'', text_or_null (dc_class b), text_or_null cls)] else [])
            curator (case basis of None \<Rightarrow> ''curated'' | Some t \<Rightarrow> t) None [] s') (\<lambda>_ s''. (Inr result, s''))
      | _ \<Rightarrow> (Inr result, s')))"

definition route_row :: "instant \<Rightarrow> decision_actor \<Rightarrow> decision_route \<Rightarrow> plan_action list \<Rightarrow> decision_row" where
  "route_row now router route plan d =
     res_bind (assertEdge d DcRouted) (\<lambda>_.
     if rt_target route = ToSelfDisposal \<and> falsy_text (rt_classGrantRef route) \<and> falsy_text (rt_t5RuleRef route) then Inl RouteUncited
     else if rt_target route = ToSelfDisposal \<and> dc_class d = None then Inl RouteUnclassified
     else Inr (moved DcRouted now (d\<lparr>dc_routedTo := Some route, dc_routedBy := Some router, dc_executionPlan := plan\<rparr>)))"

definition routeDecision :: "instant \<Rightarrow> string \<Rightarrow> decision_actor \<Rightarrow> decision_route \<Rightarrow> plan_action list option
    \<Rightarrow> hub_store \<Rightarrow> decision option decision_result" where
  "routeDecision now i router route plan s =
     then_do (decision_update i (route_row now router route (case plan of None \<Rightarrow> [] | Some p \<Rightarrow> p)) s) (\<lambda>routed s'.
     if routed \<noteq> None \<and> rt_target route = ToSelfDisposal
     then then_do (trail now i ActRouteSelfDisposal [(''routedTo'', JNull, route_json route)] router
            ''routed for self-disposal under cited authority''
            (case rt_classGrantRef route of None \<Rightarrow> rt_t5RuleRef route | Some g \<Rightarrow> Some g) [] s') (\<lambda>_ s''. (Inr routed, s''))
     else (Inr routed, s'))"

section \<open>Resolution and execution\<close>

text \<open>A proof gate judges the decision it is shown; it reads the store and writes nothing.\<close>

type_synonym proof_gate = "decision \<Rightarrow> decision_actor \<Rightarrow> decision_answer \<Rightarrow> string option \<Rightarrow> hub_store
    \<Rightarrow> decision_rejection + (authority_mode \<times> string option)"

definition FailClosedProofGate :: proof_gate where
  "FailClosedProofGate d executor answer claimed s = Inl (ProofInvalid ProofUnavailable)"

definition resolve_row :: "instant \<Rightarrow> authority_mode \<Rightarrow> string option \<Rightarrow> decision_actor \<Rightarrow> decision_answer \<Rightarrow> string option
    \<Rightarrow> decision_row" where
  "resolve_row now mode ref executor answer rationale d =
     res_bind (assertEdge d DcResolved) (\<lambda>_.
     Inr (moved DcResolved now (d\<lparr>dc_resolution := Some
       \<lparr>dr_authorityMode = mode, dr_authorityRef = ref, dr_executor = executor, dr_answer = answer,
        dr_rationale = rationale, dr_resolvedAt = now\<rparr>\<rparr>)))"

text \<open>Other writers may act between the first read and the gate, and in every attempt of the loop.\<close>

definition resolveDecision_with :: "(hub_store \<Rightarrow> hub_store) \<Rightarrow> hub_store attempt list \<Rightarrow> proof_gate \<Rightarrow> instant \<Rightarrow> string
    \<Rightarrow> decision_actor \<Rightarrow> decision_answer \<Rightarrow> string option \<Rightarrow> string option \<Rightarrow> hub_store \<Rightarrow> decision option decision_result" where
  "resolveDecision_with meanwhile envs gate now i executor answer rationale claimed s =
     (case getDecision i s of
        None \<Rightarrow> (Inr None, s)
      | Some pre \<Rightarrow>
          (case assertEdge pre DcResolved of
             Inl e \<Rightarrow> (Inl (DecisionRejected e), s)
           | Inr _ \<Rightarrow>
               (let s' = meanwhile s in
                case gate pre executor answer claimed s' of
                  Inl e \<Rightarrow> (Inl (DecisionRejected e), s')
                | Inr (mode, ref) \<Rightarrow>
                    if mode = VerifierMandate then (Inl (DecisionRejected ReservedMode), s')
                    else if mode \<noteq> DirectorDirect \<and> falsy_text ref then (Inl (DecisionRejected (AuthorityRefMissing mode)), s')
                    else decision_update_with envs i (resolve_row now mode ref executor answer rationale) s')))"

definition resolveDecision :: "proof_gate \<Rightarrow> instant \<Rightarrow> string \<Rightarrow> decision_actor \<Rightarrow> decision_answer \<Rightarrow> string option \<Rightarrow> string option
    \<Rightarrow> hub_store \<Rightarrow> decision option decision_result" where
  "resolveDecision = resolveDecision_with (\<lambda>s. s) quiet"

definition execute_row :: "instant \<Rightarrow> decision_row" where
  "execute_row now d = res_bind (assertEdge d DcExecuted) (\<lambda>_. Inr (moved DcExecuted now d))"

definition markExecuted :: "instant \<Rightarrow> string \<Rightarrow> hub_store \<Rightarrow> decision option decision_result" where
  "markExecuted now i = decision_update i (execute_row now)"

definition binding_row :: "instant \<Rightarrow> executor_binding \<Rightarrow> decision_row" where
  "binding_row now binding d =
     (if dc_status d \<noteq> DcResolved then Inl (BindingRequiresResolved (dc_status d))
      else Inr (d\<lparr>dc_executorBinding := Some binding, dc_updatedAt := now\<rparr>))"

definition recordExecutorBinding :: "instant \<Rightarrow> string \<Rightarrow> executor_binding \<Rightarrow> hub_store \<Rightarrow> decision option decision_result" where
  "recordExecutorBinding now i binding = decision_update i (binding_row now binding)"

section \<open>Merge, disposal and withdrawal\<close>

definition or_curator :: "decision_actor \<Rightarrow> decision \<Rightarrow> decision" where
  "or_curator curator d = d\<lparr>dc_curatedBy := Some (case dc_curatedBy d of None \<Rightarrow> curator | Some c \<Rightarrow> c)\<rparr>"

definition merge_row :: "instant \<Rightarrow> decision_actor \<Rightarrow> string \<Rightarrow> decision_row" where
  "merge_row now curator intoRef d =
     res_bind (assertEdge d DcMerged) (\<lambda>_. Inr (moved DcMerged now ((or_curator curator d)\<lparr>dc_mergedInto := Some intoRef\<rparr>)))"

definition mergeDecision :: "instant \<Rightarrow> string \<Rightarrow> decision_actor \<Rightarrow> string \<Rightarrow> string option \<Rightarrow> hub_store
    \<Rightarrow> decision option decision_result" where
  "mergeDecision now i curator intoRef basis s =
     (if intoRef = i then (Inl (DecisionRejected MergeIntoSelf), s)
      else if get_op DECISION_KIND intoRef s = None then (Inl (DecisionRejected MergeTargetMissing), s)
      else
        then_do (decision_update i (merge_row now curator intoRef) s) (\<lambda>merged s'.
        if merged = None then (Inr merged, s')
        else then_do (trail now i ActMerge [(''mergedInto'', JNull, JStr intoRef)] curator
               (case basis of None \<Rightarrow> ''merged into '' @ intoRef | Some t \<Rightarrow> t) None
               (case getRawForDecision intoRef s' of None \<Rightarrow> [] | Some r \<Rightarrow> [rw_id r]) s') (\<lambda>_ s''. (Inr merged, s''))))"

definition dispose_row :: "instant \<Rightarrow> decision_actor \<Rightarrow> string \<Rightarrow> decision_row" where
  "dispose_row now curator reason d =
     res_bind (assertEdge d DcDisposed) (\<lambda>_. Inr (moved DcDisposed now ((or_curator curator d)\<lparr>dc_disposedReason := Some reason\<rparr>)))"

definition disposeDecision :: "instant \<Rightarrow> string \<Rightarrow> decision_actor \<Rightarrow> string \<Rightarrow> hub_store \<Rightarrow> decision option decision_result" where
  "disposeDecision now i curator reason s =
     (if js_trim reason = [] then (Inl (DecisionRejected DisposalReasonRequired), s)
      else
        then_do (decision_update i (dispose_row now curator reason) s) (\<lambda>disposed s'.
        if disposed = None then (Inr disposed, s')
        else then_do (trail now i ActDispose [(''status'', JStr ''raised|curated'', JStr ''disposed'')] curator reason None [] s')
               (\<lambda>_ s''. (Inr disposed, s''))))"

definition withdraw_row :: "instant \<Rightarrow> decision_actor \<Rightarrow> decision_row" where
  "withdraw_row now caller d =
     (if da_agentId (dc_raisedBy d) \<noteq> da_agentId caller then Inl NotTheRaiser
      else res_bind (assertEdge d DcWithdrawn) (\<lambda>_. Inr (moved DcWithdrawn now d)))"

definition withdrawDecision :: "instant \<Rightarrow> string \<Rightarrow> decision_actor \<Rightarrow> hub_store \<Rightarrow> decision option decision_result" where
  "withdrawDecision now i caller = decision_update i (withdraw_row now caller)"

section \<open>The contract of the kind\<close>

text \<open>What the update loop and a numbered creation do when nobody else writes.\<close>

context entity_kind
begin

lemma update_kind_eq:
  assumes "kind_ok mk rid K s" "\<And>r r'. f r = Inr r' \<Longrightarrow> rid r' = rid r"
  shows "update_kind_with K mk dest quiet i f s =
    (case row_of dest K i s of
       None \<Rightarrow> (Inr None, s)
     | Some r \<Rightarrow>
         (case f r of
            Inl e \<Rightarrow> (Inl (DecisionRejected e), s)
          | Inr r' \<Rightarrow> (Inr (Some r'), write_row K i (mk r') s)))"
proof -
  have run: "cas_update K mk dest quiet i f s =
      (case row_of dest K i s of
         None \<Rightarrow> (CasMissing, s)
       | Some r \<Rightarrow> (case f r of Inl e \<Rightarrow> (CasFailed (Some e), s) | Inr r' \<Rightarrow> (CasDone (mk r'), write_row K i (mk r') s)))"
    by (intro update_quiet assms)
  show ?thesis unfolding update_kind_with_def run by (simp add: dest_mk split: option.split sum.split)
qed

lemma create_numbered_eq:
  assumes "kind_ok mk rid K s" "\<And>n. rid (build n) \<noteq> []"
  shows "\<exists>s' n. s' = write_row COUNTER_KIND COUNTER_ID (buildEnvelopeWrite (get_op COUNTER_KIND COUNTER_ID s) counter n) s \<and>
    create_numbered counter K mk build s =
      (if find_row s' K (rid (build n)) \<noteq> None then (Inl DecisionIdTaken, s')
       else (Inr (build n), write_row K (rid (build n)) (mk (build n)) s'))"
proof -
  let ?n = "counter_value counter s + 1"
  let ?s' = "write_row COUNTER_KIND COUNTER_ID (buildEnvelopeWrite (get_op COUNTER_KIND COUNTER_ID s) counter ?n) s"
  have ok: "kind_ok mk rid K ?s'" by (rule ok_write_other [OF assms(1)]) (use not_counter in \<open>simp add: COUNTER_KIND_def\<close>)
  have "create_numbered counter K mk build s =
      (if find_row ?s' K (rid (build ?n)) \<noteq> None then (Inl DecisionIdTaken, ?s')
       else (Inr (build ?n), write_row K (rid (build ?n)) (mk (build ?n)) ?s'))"
    using create_eq [OF ok assms(2), of ?n] by (simp add: create_numbered_def next_id_quiet [OF ok_plain [OF assms(1)]])
  then show ?thesis by blast
qed

text \<open>The counter is advanced; then the id is taken, or the row is created.\<close>

lemma numbered_cases:
  assumes "kind_ok mk rid K s" "\<And>n. rid (build n) \<noteq> []"
  obtains e where "create_numbered counter K mk build s = (Inl DecisionIdTaken, write_row COUNTER_KIND COUNTER_ID e s)"
  | s' e n where "s' = write_row COUNTER_KIND COUNTER_ID e s" "find_row s' K (rid (build n)) = None"
      "create_numbered counter K mk build s = (Inr (build n), write_row K (rid (build n)) (mk (build n)) s')"
proof -
  obtain s' e n where s': "s' = write_row COUNTER_KIND COUNTER_ID e s" and
    eq: "create_numbered counter K mk build s =
      (if find_row s' K (rid (build n)) \<noteq> None then (Inl DecisionIdTaken, s')
       else (Inr (build n), write_row K (rid (build n)) (mk (build n)) s'))"
    using create_numbered_eq [where build = build and counter = counter, OF assms] by metis
  show ?thesis
  proof (cases "find_row s' K (rid (build n))")
    case None
    from eq have "create_numbered counter K mk build s = (Inr (build n), write_row K (rid (build n)) (mk (build n)) s')"
      unfolding None by simp
    then show ?thesis by (rule that(2) [OF s' None])
  next
    case (Some r)
    from eq have "create_numbered counter K mk build s = (Inl DecisionIdTaken, s')" unfolding Some by simp
    then show ?thesis unfolding s' by (rule that(1))
  qed
qed

end

interpretation dec: entity_kind DECISION_KIND EDecision as_decision dc_id
proof
  show "as_decision e = Some r \<Longrightarrow> e = EDecision r" for e r by (cases e) auto
qed (simp_all add: DECISION_KIND_def)

end
