(* ===== verification/Class_Grants.thy ===== *)
theory Class_Grants
  imports Decisions
begin

text \<open>
  Class grants (\<open>hub/src/entities/class-grant-repository-substrate.ts\<close>): a standing authority for a class of
  decisions, minted once from a ratified decision, revoked or superseded once, and evaluated against the decision it
  is to authorise.  The barrier of \<open>withGrantBarrier\<close> (an advisory lock keyed by the grant) is the
  atomicity of the step that takes it.
\<close>

section \<open>Rows\<close>

definition GRANT_KIND :: string where "GRANT_KIND = ''ClassGrant''"
definition RATIFICATION_KIND :: string where "RATIFICATION_KIND = ''GrantRatification''"

fun as_grant :: "hub_entity \<Rightarrow> class_grant option" where
  "as_grant (EGrant g) = Some g"
| "as_grant _ = None"

fun as_ratification :: "hub_entity \<Rightarrow> grant_ratification option" where
  "as_ratification (ERatification r) = Some r"
| "as_ratification _ = None"

definition GRANT_REVERSIBLE_ACTIONS :: "string list" where
  "GRANT_REVERSIBLE_ACTIONS = [''unblock'', ''approve'']"

definition getGrant :: "string \<Rightarrow> hub_store \<Rightarrow> class_grant option" where
  "getGrant i s = row_of as_grant GRANT_KIND i s"

definition listGrants :: "grant_state option \<Rightarrow> string option \<Rightarrow> hub_store \<Rightarrow> class_grant list \<times> bool" where
  "listGrants state cls s =
     (let items = list_kind as_grant GRANT_KIND
        (\<lambda>g. (case state of None \<Rightarrow> True | Some x \<Rightarrow> cg_state g = x) \<and> (falsy_text cls \<or> Some (cg_class g) = cls))
        None DECISION_LIST_CAP s
      in (items, DECISION_LIST_CAP \<le> length items))"

section \<open>The hash of a specification\<close>

record grant_spec =
  gs_class :: string
  gs_allowedActions :: "string list"
  gs_reversibleOnly :: bool
  gs_parentKinds :: "string list option"
  gs_excludedRefs :: "string list"
  gs_excludedClasses :: "string list"
  gs_representationDays :: int

definition sorted_strs :: "string list \<Rightarrow> json" where
  "sorted_strs xs = JArr (map JStr (sort xs))"

definition canonicalGrantSpecHash :: "sha256 \<Rightarrow> grant_spec \<Rightarrow> string" where
  "canonicalGrantSpecHash sha p = sha256Hex sha (stringify (JObj
     [(''class'', JStr (gs_class p)), (''allowedActions'', sorted_strs (gs_allowedActions p)),
      (''reversibleOnly'', JBool (gs_reversibleOnly p)),
      (''parentKinds'', case gs_parentKinds p of None \<Rightarrow> JNull | Some ks \<Rightarrow> sorted_strs ks),
      (''excludedRefs'', sorted_strs (gs_excludedRefs p)), (''excludedClasses'', sorted_strs (gs_excludedClasses p)),
      (''representationDays'', JNum (gs_representationDays p))]))"

definition GRANT_SPEC_HASH_MARKER :: string where
  "GRANT_SPEC_HASH_MARKER = ''grant-spec-hash:''"

section \<open>Minting, revoking, superseding\<close>

definition grant_update :: "string \<Rightarrow> (class_grant \<Rightarrow> decision_rejection + class_grant) \<Rightarrow> hub_store \<Rightarrow> class_grant option decision_result" where
  "grant_update = update_kind_with GRANT_KIND EGrant as_grant quiet"

definition grant_row :: "instant \<Rightarrow> grant_state \<Rightarrow> string option \<Rightarrow> class_grant \<Rightarrow> decision_rejection + class_grant" where
  "grant_row now to successor g =
     (if cg_state g \<noteq> GrActive then Inl (GrantInvalid GrantNotActive)
      else Inr (g\<lparr>cg_state := to, cg_supersededBy := (case successor of None \<Rightarrow> cg_supersededBy g | Some x \<Rightarrow> Some x),
                  cg_updatedAt := now\<rparr>))"

definition markSuperseded :: "instant \<Rightarrow> string \<Rightarrow> string \<Rightarrow> hub_store \<Rightarrow> class_grant option decision_result" where
  "markSuperseded now i successor = grant_update i (grant_row now GrSuperseded (Some successor))"

definition revokeGrant :: "instant \<Rightarrow> string \<Rightarrow> string \<Rightarrow> hub_store \<Rightarrow> class_grant option decision_result" where
  "revokeGrant now i reason s =
     (if js_trim reason = [] then (Inl (DecisionRejected (GrantInvalid RevocationReasonRequired)), s)
      else grant_update i (grant_row now GrRevoked None) s)"

definition DAY_MS :: int where "DAY_MS = 24 * 3600000"

definition minted_grant :: "instant \<Rightarrow> int \<Rightarrow> grant_spec \<Rightarrow> string \<Rightarrow> string option \<Rightarrow> instant \<Rightarrow> string \<Rightarrow> class_grant" where
  "minted_grant now version p ratificationRef supersedes resolvedAt i =
     \<lparr>cg_id = i, cg_version = version, cg_class = gs_class p, cg_allowedActions = gs_allowedActions p,
      cg_reversibleOnly = gs_reversibleOnly p, cg_parentKinds = gs_parentKinds p, cg_excludedRefs = gs_excludedRefs p,
      cg_excludedClasses = gs_excludedClasses p, cg_ratificationRef = ratificationRef, cg_state = GrActive,
      cg_representationDue = resolvedAt + gs_representationDays p * DAY_MS, cg_supersedes = supersedes,
      cg_supersededBy = None, cg_createdAt = now, cg_updatedAt = now\<rparr>"

text \<open>
  The ratification is consumed before the grant is written: a row under the ratification's id that only one mint can create.
\<close>

definition mintGrant :: "instant \<Rightarrow> grant_spec \<Rightarrow> string \<Rightarrow> string option \<Rightarrow> bool \<Rightarrow> instant option \<Rightarrow> hub_store
    \<Rightarrow> class_grant decision_result" where
  "mintGrant now p ratificationRef supersedes resolved resolvedAt s =
     (case (resolved, resolvedAt) of
        (True, Some at) \<Rightarrow>
          if gs_reversibleOnly p \<and> (\<exists>a \<in> set (gs_allowedActions p). a \<notin> set GRANT_REVERSIBLE_ACTIONS)
          then (Inl (DecisionRejected (GrantInvalid SelfContradictory)), s)
          else
            (let prior = (if falsy_text supersedes then None else getGrant (the supersedes) s) in
             if \<not> falsy_text supersedes \<and> prior = None then (Inl (DecisionRejected (GrantInvalid SupersededMissing)), s)
             else
               let priorVersion = (case prior of None \<Rightarrow> 0 | Some g \<Rightarrow> cg_version g) in
               case next_id ''classGrantCounter'' s of
                 (Inl e, s1) \<Rightarrow> (Inl (DecisionCounter e), s1)
               | (Inr num, s1) \<Rightarrow>
                   (let i = numbered_id ''grant-'' num in
                    case createOnly ident RATIFICATION_KIND (ERatification
                        \<lparr>gr_id = ratificationRef, gr_grantId = i, gr_consumedAt = now, gr_createdAt = now, gr_updatedAt = now\<rparr>) s1 of
                      Inl z \<Rightarrow> (Inl (DecisionStoreThrew z), s1)
                    | Inr (ExistingConflict, s2) \<Rightarrow> (Inl (DecisionRejected (GrantInvalid RatificationConsumed)), s2)
                    | Inr (Created _ _, s2) \<Rightarrow>
                        (let g = minted_grant now (priorVersion + 1) p ratificationRef supersedes at i in
                         case createOnly ident GRANT_KIND (EGrant g) s2 of
                           Inl z \<Rightarrow> (Inl (DecisionStoreThrew z), s2)
                         | Inr (ExistingConflict, s3) \<Rightarrow> (Inl DecisionIdTaken, s3)
                         | Inr (Created _ _, s3) \<Rightarrow>
                             if falsy_text supersedes then (Inr g, s3)
                             else then_do (markSuperseded now (the supersedes) i s3) (\<lambda>_ s4. (Inr g, s4)))))
      | _ \<Rightarrow> (Inl (DecisionRejected (GrantInvalid RatificationUnresolved)), s))"

section \<open>Evaluation\<close>

fun check_actions :: "class_grant \<Rightarrow> plan_action list \<Rightarrow> decision_rejection + unit" where
  "check_actions g [] = Inr ()"
| "check_actions g (a # as) =
     (if plan_verb_name (pa_action a) \<notin> set (cg_allowedActions g) then Inl (GrantInvalid ActionNotAllowed)
      else if cg_reversibleOnly g \<and> plan_verb_name (pa_action a) \<notin> set GRANT_REVERSIBLE_ACTIONS
      then Inl (GrantInvalid ActionNotReversible)
      else check_actions g as)"

definition touched_refs :: "decision \<Rightarrow> string list" where
  "touched_refs d =
     filter (\<lambda>r. r \<noteq> []) ((case dc_parentRef d of None \<Rightarrow> [] | Some (kind, i) \<Rightarrow> [i]) @ map pa_targetRef (dc_executionPlan d))"

definition evaluateGrant :: "class_grant \<Rightarrow> decision \<Rightarrow> instant \<Rightarrow> decision_rejection + unit" where
  "evaluateGrant g d now =
     (if cg_state g \<noteq> GrActive then Inl (GrantInvalid GrantNotActive)
      else if cg_representationDue g < now then Inl (GrantInvalid RepresentationOverdue)
      else if dc_class d \<noteq> Some (cg_class g) then Inl (GrantInvalid ClassNotCovered)
      else if cg_class g \<in> set (cg_excludedClasses g) then Inl (GrantInvalid ClassExcluded)
      else if (case cg_parentKinds g of None \<Rightarrow> False
               | Some ks \<Rightarrow> (case dc_parentRef d of None \<Rightarrow> True | Some (kind, i) \<Rightarrow> kind \<notin> set ks))
      then Inl (GrantInvalid ParentKindNotCovered)
      else if \<exists>r \<in> set (touched_refs d). r \<in> set (cg_excludedRefs g) then Inl (GrantInvalid RefExcluded)
      else check_actions g (dc_executionPlan d))"

section \<open>The contracts of the kinds\<close>

interpretation grt: entity_kind GRANT_KIND EGrant as_grant cg_id
proof
  show "as_grant e = Some r \<Longrightarrow> e = EGrant r" for e r by (cases e) auto
qed (simp_all add: GRANT_KIND_def)

interpretation rat: entity_kind RATIFICATION_KIND ERatification as_ratification gr_id
proof
  show "as_ratification e = Some r \<Longrightarrow> e = ERatification r" for e r by (cases e) auto
qed (simp_all add: RATIFICATION_KIND_def)

end
