(* ===== verification/Director_Proofs.thy ===== *)
theory Director_Proofs
  imports Class_Grants Work_Guards
begin

text \<open>
  Director proofs (\<open>hub/src/entities/director-proof-repository-substrate.ts\<close>): a signal is the immutable record of
  something the Director said; a confirmation binds the exact prompt, answer and plan of a decision and becomes a proof
  once a signal answers it.  \<open>DirectorProofGate\<close> derives the authority of a resolution from the object a caller names.
  The nonce of a confirmation (a random UUID) is an argument.
\<close>

section \<open>Rows\<close>

definition SIGNAL_KIND :: string where "SIGNAL_KIND = ''DirectorSignal''"
definition CONFIRMATION_KIND :: string where "CONFIRMATION_KIND = ''DirectorConfirmation''"

fun as_signal :: "hub_entity \<Rightarrow> director_signal option" where
  "as_signal (ESignal g) = Some g"
| "as_signal _ = None"

fun as_confirmation :: "hub_entity \<Rightarrow> director_confirmation option" where
  "as_confirmation (EConfirmation c) = Some c"
| "as_confirmation _ = None"

definition REVERSIBLE_V1_ACTIONS :: "string list" where
  "REVERSIBLE_V1_ACTIONS = [''unblock'', ''approve'']"

definition getSignal :: "string \<Rightarrow> hub_store \<Rightarrow> director_signal option" where
  "getSignal i s = row_of as_signal SIGNAL_KIND i s"

definition getConfirmation :: "string \<Rightarrow> hub_store \<Rightarrow> director_confirmation option" where
  "getConfirmation i s = row_of as_confirmation CONFIRMATION_KIND i s"

definition confirmation_update :: "string \<Rightarrow> (director_confirmation \<Rightarrow> decision_rejection + director_confirmation)
    \<Rightarrow> hub_store \<Rightarrow> director_confirmation option decision_result" where
  "confirmation_update = update_kind_with CONFIRMATION_KIND EConfirmation as_confirmation quiet"

definition or_missing :: "decision_rejection \<Rightarrow> 'a option decision_result \<Rightarrow> 'a decision_result" where
  "or_missing e r = then_do r (\<lambda>x s. (case x of None \<Rightarrow> Inl (DecisionRejected e) | Some y \<Rightarrow> Inr y, s))"

section \<open>Signals\<close>

record signal_input =
  si_channel :: string
  si_answer :: string
  si_capturedBySurface :: string
  si_confidence :: signal_confidence
  si_replyable :: bool
  si_rawIngressRef :: "string option"
  si_confirmationId :: "string option"
  si_capturedBy :: decision_actor

definition minted_signal :: "sha256 \<Rightarrow> instant \<Rightarrow> signal_input \<Rightarrow> string \<Rightarrow> director_signal" where
  "minted_signal sha now q i =
     \<lparr>sg_id = i, sg_confirmationId = si_confirmationId q, sg_channel = si_channel q, sg_rawIngressRef = si_rawIngressRef q,
      sg_rawContentHash = sha256Hex sha (si_answer q), sg_answer = si_answer q, sg_capturedAt = now,
      sg_capturedBy = si_capturedBy q, sg_capturedBySurface = si_capturedBySurface q, sg_confidence = si_confidence q,
      sg_replyable = si_replyable q, sg_createdAt = now, sg_updatedAt = now\<rparr>"

definition answer_row :: "instant \<Rightarrow> string \<Rightarrow> director_confirmation \<Rightarrow> decision_rejection + director_confirmation" where
  "answer_row now signalId c =
     (if cf_answeredBySignalId c \<noteq> None then Inl (ProofInvalid AlreadyAnswered)
      else if cf_consumedAt c \<noteq> None then Inl (ProofInvalid AlreadyConsumed)
      else Inr (c\<lparr>cf_answeredBySignalId := Some signalId, cf_updatedAt := now\<rparr>))"

definition bindAnswerToConfirmation :: "instant \<Rightarrow> string \<Rightarrow> string \<Rightarrow> hub_store \<Rightarrow> director_confirmation decision_result" where
  "bindAnswerToConfirmation now confirmationId signalId s =
     or_missing (ProofInvalid ConfirmationMissing) (confirmation_update confirmationId (answer_row now signalId) s)"

text \<open>The signal is written first; the confirmation it answers is bound to it afterwards.\<close>

definition mintSignal :: "sha256 \<Rightarrow> instant \<Rightarrow> signal_input \<Rightarrow> hub_store \<Rightarrow> director_signal decision_result" where
  "mintSignal sha now q s =
     then_do (create_numbered ''directorSignalCounter'' SIGNAL_KIND ESignal
       (\<lambda>num. minted_signal sha now q (numbered_id ''dsig-'' num)) s) (\<lambda>g s'.
     if falsy_text (si_confirmationId q) then (Inr g, s')
     else then_do (bindAnswerToConfirmation now (the (si_confirmationId q)) (sg_id g) s') (\<lambda>_ s''. (Inr g, s'')))"

section \<open>Confirmations\<close>

definition CONFIRMATION_SCAN_CAP :: nat where "CONFIRMATION_SCAN_CAP = 500"

definition scan_confirmations :: "(director_confirmation \<Rightarrow> bool) \<Rightarrow> hub_store \<Rightarrow> decision_rejection + director_confirmation list" where
  "scan_confirmations P s =
     (let items = list_kind as_confirmation CONFIRMATION_KIND (\<lambda>_. True) None CONFIRMATION_SCAN_CAP s
      in if CONFIRMATION_SCAN_CAP \<le> length items then Inl (ProofInvalid ScanTruncated) else Inr (filter P items))"

definition findOpenConfirmationsForDecision :: "instant \<Rightarrow> string \<Rightarrow> hub_store
    \<Rightarrow> decision_rejection + director_confirmation list" where
  "findOpenConfirmationsForDecision now decisionId =
     scan_confirmations (\<lambda>c. cf_decisionId c = decisionId \<and> cf_consumedAt c = None \<and> cf_answeredBySignalId c = None \<and>
       now \<le> cf_expiresAt c)"

definition findAnsweredUnconsumedForMinter :: "agent_id \<Rightarrow> hub_store \<Rightarrow> decision_rejection + director_confirmation list" where
  "findAnsweredUnconsumedForMinter agentId =
     scan_confirmations (\<lambda>c. map_option da_agentId (cf_mintedBy c) = Some agentId \<and> cf_answeredBySignalId c \<noteq> None \<and>
       cf_consumedAt c = None)"

definition minted_confirmation :: "instant \<Rightarrow> int \<Rightarrow> string \<Rightarrow> string \<Rightarrow> string \<Rightarrow> string \<Rightarrow> decision_answer \<Rightarrow> string option
    \<Rightarrow> decision_actor option \<Rightarrow> string \<Rightarrow> director_confirmation" where
  "minted_confirmation now ttl nonce decisionId promptHash resolutionHash answer planHash mintedBy i =
     \<lparr>cf_id = i, cf_decisionId = decisionId, cf_promptHash = promptHash, cf_proposedResolutionHash = resolutionHash,
      cf_proposedAnswer = answer, cf_executionPlanHash = planHash, cf_mintedBy = mintedBy, cf_nonce = nonce,
      cf_createdAt = now, cf_expiresAt = now + ttl, cf_answeredBySignalId = None, cf_consumedAt = None,
      cf_consumedBy = None, cf_updatedAt = now\<rparr>"

definition mintConfirmation :: "instant \<Rightarrow> int \<Rightarrow> string \<Rightarrow> string \<Rightarrow> string \<Rightarrow> string \<Rightarrow> decision_answer \<Rightarrow> string option
    \<Rightarrow> decision_actor option \<Rightarrow> hub_store \<Rightarrow> director_confirmation decision_result" where
  "mintConfirmation now ttl nonce decisionId promptHash resolutionHash answer planHash mintedBy =
     create_numbered ''directorConfirmationCounter'' CONFIRMATION_KIND EConfirmation
       (\<lambda>num. minted_confirmation now ttl nonce decisionId promptHash resolutionHash answer planHash mintedBy
         (numbered_id ''dconf-'' num))"

record confirmation_expectation =
  ce_decisionId :: string
  ce_promptHash :: string
  ce_proposedResolutionHash :: string
  ce_executionPlanHash :: "string option"

definition expectation :: "sha256 \<Rightarrow> decision \<Rightarrow> decision_answer \<Rightarrow> confirmation_expectation" where
  "expectation sha d answer =
     \<lparr>ce_decisionId = dc_id d, ce_promptHash = canonicalPromptHash sha d,
      ce_proposedResolutionHash = hashProposedResolution sha answer,
      ce_executionPlanHash = hashExecutionPlan sha (dc_executionPlan d)\<rparr>"

definition assertConsumable :: "instant \<Rightarrow> director_confirmation \<Rightarrow> confirmation_expectation \<Rightarrow> decision_rejection + unit" where
  "assertConsumable now c x =
     (if cf_consumedAt c \<noteq> None then Inl (ProofInvalid AlreadyConsumed)
      else if cf_expiresAt c < now then Inl (ProofInvalid ConfirmationExpired)
      else if cf_decisionId c \<noteq> ce_decisionId x then Inl (ProofInvalid BoundElsewhere)
      else if cf_promptHash c \<noteq> ce_promptHash x \<or> cf_proposedResolutionHash c \<noteq> ce_proposedResolutionHash x \<or>
        cf_executionPlanHash c \<noteq> ce_executionPlanHash x
      then Inl (ProofInvalid HashMismatch)
      else Inr ())"

definition consume_row :: "instant \<Rightarrow> confirmation_expectation \<Rightarrow> agent_id \<Rightarrow> director_confirmation
    \<Rightarrow> decision_rejection + director_confirmation" where
  "consume_row now x consumer c =
     res_bind (assertConsumable now c x) (\<lambda>_.
     Inr (c\<lparr>cf_consumedAt := Some now, cf_consumedBy := Some consumer, cf_updatedAt := now\<rparr>))"

definition consumeConfirmation :: "instant \<Rightarrow> string \<Rightarrow> confirmation_expectation \<Rightarrow> agent_id \<Rightarrow> hub_store
    \<Rightarrow> director_confirmation decision_result" where
  "consumeConfirmation now i x consumer s =
     or_missing (ProofInvalid ConfirmationMissing) (confirmation_update i (consume_row now x consumer) s)"

section \<open>The gate\<close>

definition planRequiresConfirmation :: "plan_action list \<Rightarrow> bool" where
  "planRequiresConfirmation plan \<longleftrightarrow> (\<exists>a \<in> set plan. plan_verb_name (pa_action a) \<notin> set REVERSIBLE_V1_ACTIONS)"

definition by_confirmation :: "sha256 \<Rightarrow> instant \<Rightarrow> string \<Rightarrow> decision \<Rightarrow> decision_answer \<Rightarrow> hub_store
    \<Rightarrow> decision_rejection + (authority_mode \<times> string option)" where
  "by_confirmation sha now ref d answer s =
     (case getConfirmation ref s of
        None \<Rightarrow> Inl (ProofInvalid ConfirmationMissing)
      | Some c \<Rightarrow>
          (case cf_answeredBySignalId c of
             None \<Rightarrow> Inl (ProofInvalid NotAnswered)
           | Some sid \<Rightarrow>
               if map_option (\<lambda>g. da_role (sg_capturedBy g)) (getSignal sid s) \<noteq> Some ''director''
               then Inl (ProofInvalid AnswerNotDirectors)
               else res_bind (assertConsumable now c (expectation sha d answer)) (\<lambda>_. Inr (DirectorDirect, Some ref))))"

definition by_signal :: "string \<Rightarrow> decision \<Rightarrow> hub_store \<Rightarrow> decision_rejection + (authority_mode \<times> string option)" where
  "by_signal ref d s =
     (if getSignal ref s = None then Inl (ProofInvalid SignalMissing)
      else if planRequiresConfirmation (dc_executionPlan d) then Inl (ProofInvalid ConfirmationRequired)
      else Inr (DirectorViaProxy, Some ref))"

definition grant_citation :: "decision \<Rightarrow> string option" where
  "grant_citation d =
     (case dc_routedTo d of
        None \<Rightarrow> None
      | Some r \<Rightarrow> if rt_target r = ToSelfDisposal then rt_classGrantRef r else None)"

definition authority_name_of :: "class_grant \<Rightarrow> string" where
  "authority_name_of g = cg_id g @ ''@v'' @ show_int (cg_version g)"

definition by_grant :: "instant \<Rightarrow> string \<Rightarrow> decision \<Rightarrow> hub_store \<Rightarrow> decision_rejection + (authority_mode \<times> string option)" where
  "by_grant now ref d s =
     (if grant_citation d \<noteq> Some ref then Inl (ProofInvalid RouteDoesNotCite)
      else case getGrant ref s of
          None \<Rightarrow> Inl (ProofInvalid GrantMissing)
        | Some g \<Rightarrow> res_bind (evaluateGrant g d now) (\<lambda>_. Inr (ClassGrant, Some (authority_name_of g))))"

definition DirectorProofGate :: "sha256 \<Rightarrow> instant \<Rightarrow> proof_gate" where
  "DirectorProofGate sha now d executor answer claimed s =
     (case claimed of
        None \<Rightarrow> Inl (ProofInvalid NoProofRef)
      | Some ref \<Rightarrow>
          if ref = [] then Inl (ProofInvalid NoProofRef)
          else if starts_with ref ''dconf-'' then by_confirmation sha now ref d answer s
          else if starts_with ref ''dsig-'' then by_signal ref d s
          else if starts_with ref ''grant-'' then by_grant now ref d s
          else Inl (ProofInvalid NotAProof))"

section \<open>The contracts of the kinds\<close>

interpretation sig: entity_kind SIGNAL_KIND ESignal as_signal sg_id
proof
  show "as_signal e = Some r \<Longrightarrow> e = ESignal r" for e r by (cases e) auto
qed (simp_all add: SIGNAL_KIND_def)

interpretation cnf: entity_kind CONFIRMATION_KIND EConfirmation as_confirmation cf_id
proof
  show "as_confirmation e = Some r \<Longrightarrow> e = EConfirmation r" for e r by (cases e) auto
qed (simp_all add: CONFIRMATION_KIND_def)

end
