(* ===== verification/Decision_Executor.thy ===== *)
theory Decision_Executor
  imports Director_Proofs Work_Verbs
begin

text \<open>
  The plan of a decision and the verbs that put the authority rail together: the validation and execution of a plan
  (\<open>hub/src/entities/decision-executor.ts\<close>), the capture of a signal, the minting of a confirmation, the
  resolution as the Director (\<open>hub/src/policy/director-proof-policy.ts\<close>), the routing of a decision
  (\<open>hub/src/policy/decision-policy.ts\<close>) and the minting of a grant (\<open>hub/src/policy/class-grant-policy.ts\<close>).

  The stores and policy closures a plan acts on besides work items (proposals, the constitution, the charter) are
  arguments, as in the source (\<open>ExecutionTargets\<close>).  The actor is the caller's session identity.  The notices the policies send
  after a verb and the Director's presence stamp write rows of other kinds only and are left out, and so are the dry runs, which write nothing.
\<close>

section \<open>Plans\<close>

definition V1_ACTION_REGISTRY :: "plan_verb list" where
  "V1_ACTION_REGISTRY = [PlanUnblock, PlanApprove, PlanBindAxiom, PlanAmendCharter]"

definition BINDING_STATUSES :: "string list" where
  "BINDING_STATUSES = [''bound'', ''superseded'', ''unbound'']"

definition CHARTER_SECTIONS :: "string list" where
  "CHARTER_SECTIONS = [''vision'', ''directorProfile'']"

text \<open>A closure answers whether its step went through; None is a closure that is not wired.\<close>

record execution_targets =
  xt_proposalStatus :: "(string \<Rightarrow> hub_store \<Rightarrow> string option) option"
  xt_approveViaPolicy :: "(string \<Rightarrow> decision \<Rightarrow> hub_store \<Rightarrow> bool \<times> hub_store) option"
  xt_constitution :: "(hub_store \<Rightarrow> string list option) option"
  xt_bindAxiomViaPolicy :: "(plan_action \<Rightarrow> hub_store \<Rightarrow> bool \<times> hub_store) option"
  xt_amendCharterViaPolicy :: "(plan_action \<Rightarrow> hub_store \<Rightarrow> bool \<times> hub_store) option"

definition param :: "plan_action \<Rightarrow> string \<Rightarrow> json option" where
  "param a k = (case pa_params a of None \<Rightarrow> None | Some ps \<Rightarrow> map_of ps k)"

definition blocks :: "string \<Rightarrow> work_item \<Rightarrow> bool" where
  "blocks decisionId w \<longleftrightarrow> wi_status w = Blocked \<and>
     (case wi_blockedOn w of None \<Rightarrow> False | Some b \<Rightarrow> (case bo_blockerIds b of None \<Rightarrow> False | Some ids \<Rightarrow> decisionId \<in> set ids))"

definition check_unblock :: "decision \<Rightarrow> plan_action \<Rightarrow> hub_store \<Rightarrow> plan_fault option" where
  "check_unblock d a s =
     (case getWorkItem (pa_targetRef a) s of
        None \<Rightarrow> Some UnblockTargetMissing
      | Some w \<Rightarrow> if blocks (dc_id d) w then None else Some NotBlockedOnDecision)"

definition check_approve :: "execution_targets \<Rightarrow> plan_action \<Rightarrow> hub_store \<Rightarrow> plan_fault option" where
  "check_approve x a s =
     (case xt_proposalStatus x of
        None \<Rightarrow> Some StoreNotWired
      | Some status \<Rightarrow>
          (case status (pa_targetRef a) s of
             None \<Rightarrow> Some ProposalMissing
           | Some st \<Rightarrow> if st = ''submitted'' then None else Some ProposalNotSubmitted))"

definition check_bind_axiom :: "execution_targets \<Rightarrow> plan_action \<Rightarrow> hub_store \<Rightarrow> plan_fault option" where
  "check_bind_axiom x a s =
     (case xt_constitution x of
        None \<Rightarrow> Some StoreNotWired
      | Some current \<Rightarrow>
          (case current s of
             None \<Rightarrow> Some ConstitutionNotSynced
           | Some manifest \<Rightarrow>
               if pa_targetRef a \<notin> set manifest then Some NotInConstitution
               else if (case param a ''status'' of None \<Rightarrow> False | Some st \<Rightarrow> st \<notin> JStr ` set BINDING_STATUSES) then Some BindingStatusUnknown
               else if param a ''predecessor'' = Some (JStr (pa_targetRef a)) \<or> param a ''supersedes'' = Some (JStr (pa_targetRef a))
               then Some SelfReference
               else None))"

definition check_amend_charter :: "plan_action \<Rightarrow> plan_fault option" where
  "check_amend_charter a =
     (if pa_targetRef a \<notin> set CHARTER_SECTIONS then Some SectionUnknown
      else case param a ''text'' of
          Some (JStr t) \<Rightarrow> if js_trim t = [] then Some AmendmentTextMissing else None
        | _ \<Rightarrow> Some AmendmentTextMissing)"

definition check_step :: "execution_targets \<Rightarrow> decision \<Rightarrow> plan_action \<Rightarrow> hub_store \<Rightarrow> plan_fault option" where
  "check_step x d a s =
     (if pa_action a \<notin> set V1_ACTION_REGISTRY then Some NotInRegistry
      else case pa_action a of
          PlanUnblock \<Rightarrow> check_unblock d a s
        | PlanApprove \<Rightarrow> check_approve x a s
        | PlanBindAxiom \<Rightarrow>
            if \<forall>r \<in> set (dc_contextRefs d). \<not> cr_required r then Some RequiredEvidenceMissing else check_bind_axiom x a s
        | PlanAmendCharter \<Rightarrow>
            if \<forall>r \<in> set (dc_contextRefs d). \<not> cr_required r then Some RequiredEvidenceMissing else check_amend_charter a)"

fun check_steps :: "execution_targets \<Rightarrow> decision \<Rightarrow> plan_action list \<Rightarrow> hub_store \<Rightarrow> decision_rejection + unit" where
  "check_steps x d [] s = Inr ()"
| "check_steps x d (a # as) s =
     (case check_step x d a s of Some f \<Rightarrow> Inl (PlanInvalid f) | None \<Rightarrow> check_steps x d as s)"

definition validatePlan :: "execution_targets \<Rightarrow> decision \<Rightarrow> hub_store \<Rightarrow> decision_rejection + unit" where
  "validatePlan x d s = check_steps x d (dc_executionPlan d) s"

text \<open>A step never throws: an error is a step that failed.\<close>

definition via :: "('a \<Rightarrow> hub_store \<Rightarrow> bool \<times> hub_store) option \<Rightarrow> 'a \<Rightarrow> hub_store \<Rightarrow> bool \<times> hub_store" where
  "via f a s = (case f of None \<Rightarrow> (False, s) | Some g \<Rightarrow> g a s)"

definition execute_step :: "sha256 \<Rightarrow> instant \<Rightarrow> execution_targets \<Rightarrow> decision \<Rightarrow> plan_action \<Rightarrow> hub_store \<Rightarrow> bool \<times> hub_store" where
  "execute_step sha now x d a s =
     (case pa_action a of
        PlanUnblock \<Rightarrow>
          (case systemUnblock sha now (pa_targetRef a) (dc_id d) s of
             (Inl e, s') \<Rightarrow> (False, s')
           | (Inr w, s') \<Rightarrow> (w \<noteq> None, s'))
      | PlanApprove \<Rightarrow> via (map_option (\<lambda>f r. f r d) (xt_approveViaPolicy x)) (pa_targetRef a) s
      | PlanBindAxiom \<Rightarrow> via (xt_bindAxiomViaPolicy x) a s
      | PlanAmendCharter \<Rightarrow> via (xt_amendCharterViaPolicy x) a s)"

fun execute_steps :: "sha256 \<Rightarrow> instant \<Rightarrow> execution_targets \<Rightarrow> decision \<Rightarrow> plan_action list \<Rightarrow> hub_store \<Rightarrow> step_result list \<times> hub_store" where
  "execute_steps sha now x d [] s = ([], s)"
| "execute_steps sha now x d (a # as) s =
     (let (good, s') = execute_step sha now x d a s; (rs, s'') = execute_steps sha now x d as s'
      in (\<lparr>sr_action = pa_action a, sr_targetRef = pa_targetRef a, sr_ok = good\<rparr> # rs, s''))"

definition executePlan :: "sha256 \<Rightarrow> instant \<Rightarrow> execution_targets \<Rightarrow> decision \<Rightarrow> hub_store \<Rightarrow> (bool \<times> step_result list) \<times> hub_store" where
  "executePlan sha now x d s =
     (let (rs, s') = execute_steps sha now x d (dc_executionPlan d) s in ((list_all sr_ok rs, rs), s'))"

section \<open>The verbs of the rail\<close>

datatype rail_error =
    RailDenied
  | RailNotWired
  | RailInvalidArguments
  | RailNotFound
  | RailUnresolvableRef
  | RailRejected
  | RailNoOpenConfirmation
  | RailAmbiguousConfirmation
  | RailThrew decision_error

type_synonym 'a rail_result = "(rail_error + 'a) \<times> hub_store"

text \<open>A capture answers a confirmation by its id, or the one open confirmation of a decision.\<close>

definition answered_confirmation :: "instant \<Rightarrow> string option \<Rightarrow> string option \<Rightarrow> hub_store \<Rightarrow> rail_error + string option" where
  "answered_confirmation now confirmationId decisionId s =
     (case decisionId of
        None \<Rightarrow> Inr confirmationId
      | Some d \<Rightarrow>
          if \<not> falsy_text confirmationId then Inl RailInvalidArguments
          else case findOpenConfirmationsForDecision now d s of
              Inl r \<Rightarrow> Inl (RailThrew (DecisionRejected r))
            | Inr [] \<Rightarrow> Inl RailNoOpenConfirmation
            | Inr [c] \<Rightarrow> Inr (Some (cf_id c))
            | Inr _ \<Rightarrow> Inl RailAmbiguousConfirmation)"

definition captureDirectorSignal :: "sha256 \<Rightarrow> instant \<Rightarrow> signal_input \<Rightarrow> string option \<Rightarrow> hub_store \<Rightarrow> director_signal rail_result" where
  "captureDirectorSignal sha now q decisionId s =
     (if da_role (si_capturedBy q) \<noteq> ''director'' then (Inl RailDenied, s)
      else case answered_confirmation now (si_confirmationId q) decisionId s of
          Inl e \<Rightarrow> (Inl e, s)
        | Inr c \<Rightarrow>
            (case mintSignal sha now (q\<lparr>si_confirmationId := c\<rparr>) s of
               (Inl e, s') \<Rightarrow> (Inl (RailThrew e), s')
             | (Inr g, s') \<Rightarrow> (Inr g, s')))"

definition CONFIRMATION_TTL_MS :: int where "CONFIRMATION_TTL_MS = 30 * 60000"

definition mintDirectorConfirmation :: "sha256 \<Rightarrow> instant \<Rightarrow> string \<Rightarrow> decision_actor \<Rightarrow> string \<Rightarrow> decision_answer \<Rightarrow> hub_store
    \<Rightarrow> director_confirmation rail_result" where
  "mintDirectorConfirmation sha now nonce actor decisionId answer s =
     (case getDecision decisionId s of
        None \<Rightarrow> (Inl RailNotFound, s)
      | Some d \<Rightarrow>
          if dc_status d \<noteq> DcRouted then (Inl RailRejected, s)
          else
            (case mintConfirmation now CONFIRMATION_TTL_MS nonce (dc_id d) (canonicalPromptHash sha d)
                (hashProposedResolution sha answer) answer (hashExecutionPlan sha (dc_executionPlan d)) (Some actor) s of
               (Inl e, s') \<Rightarrow> (Inl (RailThrew e), s')
             | (Inr c, s') \<Rightarrow> (Inr c, s')))"

text \<open>
  A resolution as the Director: validate the plan, resolve under the gate, execute the plan, bind its results to the
  decision, mark the decision executed if every step went through, and consume the confirmation it rested on.  A failed consumption is
  only logged.
\<close>

definition finish_execution :: "sha256 \<Rightarrow> instant \<Rightarrow> execution_targets \<Rightarrow> decision_actor \<Rightarrow> decision \<Rightarrow> hub_store \<Rightarrow> decision decision_result" where
  "finish_execution sha now x executor d s =
     (if dc_executionPlan d = []
      then then_do (markExecuted now (dc_id d) s) (\<lambda>e s'. (Inr (case e of None \<Rightarrow> d | Some d' \<Rightarrow> d'), s'))
      else
        (let ((good, rs), s1) = executePlan sha now x d s in
         then_do (recordExecutorBinding now (dc_id d)
           \<lparr>eb_executor = executor, eb_boundAt = now, eb_ok = good, eb_results = rs\<rparr> s1) (\<lambda>bound s2.
         let fallback = (case bound of None \<Rightarrow> d | Some b \<Rightarrow> b) in
         if good then then_do (markExecuted now (dc_id d) s2) (\<lambda>e s3. (Inr (case e of None \<Rightarrow> fallback | Some d' \<Rightarrow> d'), s3))
         else (Inr fallback, s2))))"

definition consume_proof :: "sha256 \<Rightarrow> instant \<Rightarrow> string option \<Rightarrow> decision_answer \<Rightarrow> decision_actor \<Rightarrow> decision \<Rightarrow> hub_store \<Rightarrow> hub_store" where
  "consume_proof sha now proofRef answer executor d s =
     (if map_option dr_authorityMode (dc_resolution d) = Some DirectorDirect \<and> \<not> falsy_text proofRef
      then snd (consumeConfirmation now (the proofRef) (expectation sha d answer) (da_agentId executor) s)
      else s)"

definition resolveAsDirector :: "sha256 \<Rightarrow> instant \<Rightarrow> execution_targets \<Rightarrow> decision_actor \<Rightarrow> string \<Rightarrow> string option \<Rightarrow> decision_answer
    \<Rightarrow> string option \<Rightarrow> hub_store \<Rightarrow> decision rail_result" where
  "resolveAsDirector sha now x executor decisionId proofRef answer rationale s =
     (if da_role executor \<noteq> ''architect'' then (Inl RailDenied, s)
      else case getDecision decisionId s of
          None \<Rightarrow> (Inl RailNotFound, s)
        | Some current \<Rightarrow>
            (case (if dc_executionPlan current = [] then Inr () else validatePlan x current s) of
               Inl r \<Rightarrow> (Inl (RailThrew (DecisionRejected r)), s)
             | Inr _ \<Rightarrow>
                 (case resolveDecision (DirectorProofGate sha now) now decisionId executor answer rationale proofRef s of
                    (Inl e, s1) \<Rightarrow> (Inl (RailThrew e), s1)
                  | (Inr None, s1) \<Rightarrow> (Inl RailNotFound, s1)
                  | (Inr (Some resolved), s1) \<Rightarrow>
                      (case finish_execution sha now x executor resolved s1 of
                         (Inl e, s2) \<Rightarrow> (Inl (RailThrew e), s2)
                       | (Inr final, s2) \<Rightarrow> (Inr final, consume_proof sha now proofRef answer executor resolved s2)))))"

section \<open>Routing and grants\<close>

text \<open>What the routing policy asks of a self-disposal and of the targets of the plan.\<close>

definition check_citation :: "string \<Rightarrow> decision_route \<Rightarrow> hub_store \<Rightarrow> rail_error + unit" where
  "check_citation decisionId route s =
     (if rt_target route \<noteq> ToSelfDisposal then Inr ()
      else if falsy_text (rt_classGrantRef route) then Inl RailRejected
      else case getGrant (the (rt_classGrantRef route)) s of
          None \<Rightarrow> Inl RailUnresolvableRef
        | Some g \<Rightarrow>
            if cg_state g \<noteq> GrActive then Inl RailRejected
            else (case getDecision decisionId s of
                    None \<Rightarrow> Inr ()
                  | Some d \<Rightarrow> if dc_class d \<noteq> Some (cg_class g) then Inl RailRejected else Inr ()))"

fun check_targets :: "execution_targets \<Rightarrow> plan_action list \<Rightarrow> hub_store \<Rightarrow> rail_error + unit" where
  "check_targets x [] s = Inr ()"
| "check_targets x (a # as) s =
     (if pa_action a = PlanUnblock \<and> getWorkItem (pa_targetRef a) s = None then Inl RailUnresolvableRef
      else if pa_action a = PlanApprove \<and> xt_proposalStatus x = None then Inl RailNotWired
      else if pa_action a = PlanApprove \<and> the (xt_proposalStatus x) (pa_targetRef a) s = None then Inl RailUnresolvableRef
      else check_targets x as s)"

definition routeDecisionHandler :: "instant \<Rightarrow> execution_targets \<Rightarrow> decision_actor \<Rightarrow> string \<Rightarrow> decision_route \<Rightarrow> plan_action list option
    \<Rightarrow> hub_store \<Rightarrow> decision rail_result" where
  "routeDecisionHandler now x actor decisionId route plan s =
     (if da_role actor \<noteq> ''architect'' then (Inl RailDenied, s)
      else case res_bind (check_citation decisionId route s) (\<lambda>_. check_targets x (case plan of None \<Rightarrow> [] | Some p \<Rightarrow> p) s) of
          Inl e \<Rightarrow> (Inl e, s)
        | Inr _ \<Rightarrow>
            (case routeDecision now decisionId actor route plan s of
               (Inl e, s') \<Rightarrow> (Inl (RailThrew e), s')
             | (Inr None, s') \<Rightarrow> (Inl RailNotFound, s')
             | (Inr (Some d), s') \<Rightarrow> (Inr d, s')))"

fun contains_text :: "string \<Rightarrow> string \<Rightarrow> bool" where
  "contains_text needle [] \<longleftrightarrow> needle = []"
| "contains_text needle (c # cs) \<longleftrightarrow> starts_with (c # cs) needle \<or> contains_text needle cs"

text \<open>A grant is minted from a decision the Director resolved whose context carries the hash of this very specification.\<close>

definition director_grade :: "decision \<Rightarrow> bool" where
  "director_grade d \<longleftrightarrow> (dc_status d = DcResolved \<or> dc_status d = DcExecuted) \<and>
     map_option dr_authorityMode (dc_resolution d) \<in> {Some DirectorDirect, Some DirectorViaProxy}"

definition binds_spec :: "sha256 \<Rightarrow> grant_spec \<Rightarrow> decision \<Rightarrow> bool" where
  "binds_spec sha p d \<longleftrightarrow> contains_text (GRANT_SPEC_HASH_MARKER @ canonicalGrantSpecHash sha p) (dc_context d)"

definition mintClassGrant :: "sha256 \<Rightarrow> instant \<Rightarrow> grant_spec \<Rightarrow> string \<Rightarrow> string option \<Rightarrow> hub_store \<Rightarrow> class_grant rail_result" where
  "mintClassGrant sha now p ratificationRef supersedes s =
     (let ratification = getDecision ratificationRef s;
          ratified = (case ratification of None \<Rightarrow> False | Some d \<Rightarrow> director_grade d) in
      if ratified \<and> \<not> binds_spec sha p (the ratification) then (Inl RailRejected, s)
      else case mintGrant now p ratificationRef supersedes ratified
             (Option.bind ratification (\<lambda>d. map_option dr_resolvedAt (dc_resolution d))) s of
          (Inl e, s') \<Rightarrow> (Inl (RailThrew e), s')
        | (Inr g, s') \<Rightarrow> (Inr g, s'))"

section \<open>Requests and runs\<close>

datatype rail_request =
    RaiseDecision "(string \<times> string) option" "string option" string string "context_ref list" "decision_option list" decision_actor
  | CurateDecision string decision_actor "string option" "string option" "string option"
  | RouteDecision decision_actor string decision_route "plan_action list option"
  | ResolveDecision string decision_actor decision_answer "string option" "string option"
  | ResolveAsDirector decision_actor string "string option" decision_answer "string option"
  | MergeDecision string decision_actor string "string option"
  | DisposeDecision string decision_actor string
  | WithdrawDecision string decision_actor
  | CaptureSignal signal_input "string option"
  | MintConfirmation string decision_actor string decision_answer
  | MintGrant grant_spec string "string option"
  | RevokeGrant string string

fun rail_perform :: "sha256 \<Rightarrow> execution_targets \<Rightarrow> instant \<Rightarrow> rail_request \<Rightarrow> hub_store \<Rightarrow> hub_store" where
  "rail_perform sha x now (RaiseDecision parent cls title ctx refs opts actor) s = snd (raiseDecision now parent cls title ctx refs opts actor s)"
| "rail_perform sha x now (CurateDecision i actor ref cls basis) s = snd (curateDecision now i actor ref cls basis s)"
| "rail_perform sha x now (RouteDecision actor i route plan) s = snd (routeDecisionHandler now x actor i route plan s)"
| "rail_perform sha x now (ResolveDecision i actor answer rationale claimed) s =
     snd (resolveDecision FailClosedProofGate now i actor answer rationale claimed s)"
| "rail_perform sha x now (ResolveAsDirector actor i ref answer rationale) s = snd (resolveAsDirector sha now x actor i ref answer rationale s)"
| "rail_perform sha x now (MergeDecision i actor into basis) s = snd (mergeDecision now i actor into basis s)"
| "rail_perform sha x now (DisposeDecision i actor reason) s = snd (disposeDecision now i actor reason s)"
| "rail_perform sha x now (WithdrawDecision i actor) s = snd (withdrawDecision now i actor s)"
| "rail_perform sha x now (CaptureSignal q d) s = snd (captureDirectorSignal sha now q d s)"
| "rail_perform sha x now (MintConfirmation nonce actor i answer) s = snd (mintDirectorConfirmation sha now nonce actor i answer s)"
| "rail_perform sha x now (MintGrant p ref supersedes) s = snd (mintClassGrant sha now p ref supersedes s)"
| "rail_perform sha x now (RevokeGrant i reason) s = snd (revokeGrant now i reason s)"

definition RAIL_KINDS :: "string list" where
  "RAIL_KINDS = [DECISION_KIND, SIGNAL_KIND, CONFIRMATION_KIND, GRANT_KIND, RATIFICATION_KIND]"

datatype rail_event = RailRequest instant rail_request | OffRailPut string string hub_entity | OffRailDelete string string

fun rail_happens :: "sha256 \<Rightarrow> execution_targets \<Rightarrow> rail_event \<Rightarrow> hub_store \<Rightarrow> hub_store" where
  "rail_happens sha x (RailRequest now q) s = rail_perform sha x now q s"
| "rail_happens sha x (OffRailPut k i e) s = (if k \<in> set RAIL_KINDS then s else write_row k i e s)"
| "rail_happens sha x (OffRailDelete k i) s = (if k \<in> set RAIL_KINDS then s else delete_op k i s)"

text \<open>A run: requests in any order, at any instants, while the other repositories write and delete rows of their kinds.\<close>

definition rail_run :: "sha256 \<Rightarrow> execution_targets \<Rightarrow> rail_event list \<Rightarrow> hub_store" where
  "rail_run sha x evs = fold (rail_happens sha x) evs empty_substrate"

end
