(* ===== verification/Rail_Steps.thy ===== *)
theory Rail_Steps
  imports Decision_Executor
begin

text \<open>
  The steps of the authority rail: what one write to the store may do to the decisions, signals, confirmations, grants
  and ratifications, and that every request is a sequence of such steps, whatever the other repositories
  do in between.
\<close>

section \<open>The kinds of the rail\<close>

lemmas rail_kind_defs = DECISION_KIND_def SIGNAL_KIND_def CONFIRMATION_KIND_def GRANT_KIND_def RATIFICATION_KIND_def

lemma rail_kind_ne [simp]:
  "DECISION_KIND \<noteq> SIGNAL_KIND" "DECISION_KIND \<noteq> CONFIRMATION_KIND" "DECISION_KIND \<noteq> GRANT_KIND" "DECISION_KIND \<noteq> RATIFICATION_KIND"
  "SIGNAL_KIND \<noteq> DECISION_KIND" "SIGNAL_KIND \<noteq> CONFIRMATION_KIND" "SIGNAL_KIND \<noteq> GRANT_KIND" "SIGNAL_KIND \<noteq> RATIFICATION_KIND"
  "CONFIRMATION_KIND \<noteq> DECISION_KIND" "CONFIRMATION_KIND \<noteq> SIGNAL_KIND" "CONFIRMATION_KIND \<noteq> GRANT_KIND" "CONFIRMATION_KIND \<noteq> RATIFICATION_KIND"
  "GRANT_KIND \<noteq> DECISION_KIND" "GRANT_KIND \<noteq> SIGNAL_KIND" "GRANT_KIND \<noteq> CONFIRMATION_KIND" "GRANT_KIND \<noteq> RATIFICATION_KIND"
  "RATIFICATION_KIND \<noteq> DECISION_KIND" "RATIFICATION_KIND \<noteq> SIGNAL_KIND" "RATIFICATION_KIND \<noteq> CONFIRMATION_KIND" "RATIFICATION_KIND \<noteq> GRANT_KIND"
  by (simp_all add: rail_kind_defs)

lemma off_rail [simp]: "COUNTER_KIND \<notin> set RAIL_KINDS" "RAW_KIND \<notin> set RAIL_KINDS" "RECORD_KIND \<notin> set RAIL_KINDS" "WORK_KIND \<notin> set RAIL_KINDS"
  by (simp_all add: RAIL_KINDS_def rail_kind_defs COUNTER_KIND_def RAW_KIND_def RECORD_KIND_def WORK_KIND_def)

lemma off_rail_ne: "k \<notin> set RAIL_KINDS \<Longrightarrow>
    k \<noteq> DECISION_KIND \<and> k \<noteq> SIGNAL_KIND \<and> k \<noteq> CONFIRMATION_KIND \<and> k \<noteq> GRANT_KIND \<and> k \<noteq> RATIFICATION_KIND"
  by (simp add: RAIL_KINDS_def)

definition rail_ok :: "hub_store \<Rightarrow> bool" where
  "rail_ok s \<longleftrightarrow> kind_ok EDecision dc_id DECISION_KIND s \<and> kind_ok ESignal sg_id SIGNAL_KIND s \<and>
     kind_ok EConfirmation cf_id CONFIRMATION_KIND s \<and> kind_ok EGrant cg_id GRANT_KIND s \<and>
     kind_ok ERatification gr_id RATIFICATION_KIND s"

abbreviation getRatification :: "string \<Rightarrow> hub_store \<Rightarrow> grant_ratification option" where
  "getRatification \<equiv> row_of as_ratification RATIFICATION_KIND"

lemmas rail_reads = getDecision_def getSignal_def getConfirmation_def getGrant_def

lemma rail_ok_off: "rail_ok s \<Longrightarrow> k \<notin> set RAIL_KINDS \<Longrightarrow> rail_ok (write_row k i e s) \<and> rail_ok (delete_op k i s)"
  using off_rail_ne [of k]
  by (simp add: rail_ok_def dec.ok_write_other sig.ok_write_other cnf.ok_write_other grt.ok_write_other rat.ok_write_other
      dec.ok_delete_other sig.ok_delete_other cnf.ok_delete_other grt.ok_delete_other rat.ok_delete_other)

lemmas other_kind_ok = dec.ok_write_other sig.ok_write_other cnf.ok_write_other grt.ok_write_other rat.ok_write_other

lemma rail_ok_rows:
  assumes "rail_ok s"
  shows "dc_id d = i \<Longrightarrow> i \<noteq> [] \<Longrightarrow> rail_ok (write_row DECISION_KIND i (EDecision d) s)"
    and "sg_id g = i \<Longrightarrow> i \<noteq> [] \<Longrightarrow> rail_ok (write_row SIGNAL_KIND i (ESignal g) s)"
    and "cf_id c = i \<Longrightarrow> i \<noteq> [] \<Longrightarrow> rail_ok (write_row CONFIRMATION_KIND i (EConfirmation c) s)"
    and "cg_id h = i \<Longrightarrow> i \<noteq> [] \<Longrightarrow> rail_ok (write_row GRANT_KIND i (EGrant h) s)"
    and "gr_id r = i \<Longrightarrow> i \<noteq> [] \<Longrightarrow> rail_ok (write_row RATIFICATION_KIND i (ERatification r) s)"
  using assms unfolding rail_ok_def
  by (simp_all add: other_kind_ok dec.ok_write sig.ok_write cnf.ok_write grt.ok_write rat.ok_write)

section \<open>Writes off the rail\<close>

inductive side_step :: "hub_store \<Rightarrow> hub_store \<Rightarrow> bool" for s where
  ss_write: "k \<notin> set RAIL_KINDS \<Longrightarrow> side_step s (write_row k i e s)"
| ss_delete: "k \<notin> set RAIL_KINDS \<Longrightarrow> side_step s (delete_op k i s)"

abbreviation side_steps :: "hub_store \<Rightarrow> hub_store \<Rightarrow> bool" where
  "side_steps \<equiv> side_step\<^sup>*\<^sup>*"

lemma createOnly_written: "createOnly ident k e s = Inr (out, s') \<Longrightarrow> s' = s \<or> (\<exists>i e'. s' = write_row k i e' s)"
  by (auto simp: createOnly_def Let_def res_bind_Inr_iff split: if_splits)

lemma putIfMatch_written: "putIfMatch ident k e rv s = Inr (out, s') \<Longrightarrow> s' = s \<or> (\<exists>i e'. s' = write_row k i e' s)"
  by (auto simp: putIfMatch_def Let_def res_bind_Inr_iff split: if_splits option.splits)

lemma written_side: "s' = s \<or> (\<exists>i e'. s' = write_row k i e' s) \<Longrightarrow> k \<notin> set RAIL_KINDS \<Longrightarrow> side_steps s s'"
  by (auto intro: ss_write)

lemma next_id_side: "side_steps s (snd (next_id d s))"
  unfolding next_id_def quiet_def
  by (auto simp: Let_def intro: written_side [OF createOnly_written] written_side [OF putIfMatch_written]
      split: option.split prod.split sum.split create_result.split put_result.split)

lemma create_side: "K \<notin> set RAIL_KINDS \<Longrightarrow> side_steps s (snd (create_numbered counter K mk build s))"
proof -
  assume K: "K \<notin> set RAIL_KINDS"
  obtain r s' where n: "next_id counter s = (r, s')" by (cases "next_id counter s")
  then have c: "side_steps s s'" using next_id_side [of s counter] by simp
  show ?thesis
  proof (cases r)
    case (Inr num)
    have "createOnly ident K (mk (build num)) s' = Inr (out, t) \<Longrightarrow> side_steps s t" for out t
      using rtranclp_trans [OF c written_side [OF createOnly_written K]] .
    with Inr n c show ?thesis
      by (auto simp: create_numbered_def split: sum.split prod.split create_result.split)
  qed (use n c in \<open>simp add: create_numbered_def\<close>)
qed

lemma cas_quiet_side:
  assumes "K \<notin> set RAIL_KINDS"
  shows "side_steps s (snd (cas_loop (getWithRevision K i) (cas_row ident K) f quiet s))"
proof -
  have "side_steps s (snd (cas_row ident K y rv s))" for y rv
    by (auto simp: cas_row_def intro: written_side [OF putIfMatch_written assms] split: sum.split prod.split put_result.split)
  then show ?thesis
    by (auto simp: quiet_def Let_def split: option.split prod.split sum.split bool.split) (metis snd_conv)+
qed

lemma unblock_side: "side_steps s (snd (systemUnblock sha now i d s))"
proof -
  have "side_steps s (snd (tryCasUpdate sha p i f s))" for p f
    using cas_quiet_side [of WORK_KIND s i "entity_transform sha p f"]
    by (auto simp: tryCasUpdate_def tryCasUpdate_with_def split: prod.split cas_outcome.split)
  then show ?thesis
    unfolding systemUnblock_def row_verb_def withWriterFence_def
    by (auto split: sum.split prod.split) (metis snd_conv)+
qed

section \<open>Plans write off the rail\<close>

text \<open>The closures of the other stores write rows of their own kinds.\<close>

definition tame :: "execution_targets \<Rightarrow> bool" where
  "tame x \<longleftrightarrow>
     (\<forall>f. xt_approveViaPolicy x = Some f \<longrightarrow> (\<forall>r d s. side_steps s (snd (f r d s)))) \<and>
     (\<forall>f. xt_bindAxiomViaPolicy x = Some f \<longrightarrow> (\<forall>a s. side_steps s (snd (f a s)))) \<and>
     (\<forall>f. xt_amendCharterViaPolicy x = Some f \<longrightarrow> (\<forall>a s. side_steps s (snd (f a s))))"

lemma execute_step_side: "tame x \<Longrightarrow> side_steps s (snd (execute_step sha now x d a s))"
proof (cases "pa_action a")
  case PlanUnblock
  have "side_steps s (snd (systemUnblock sha now (pa_targetRef a) (dc_id d) s))" by (rule unblock_side)
  with PlanUnblock show ?thesis by (auto simp: execute_step_def split: prod.split sum.split)
qed (auto simp: execute_step_def via_def tame_def split: option.split)

lemma execute_steps_side: "tame x \<Longrightarrow> side_steps s (snd (execute_steps sha now x d as s))"
proof (induction as arbitrary: s)
  case (Cons a as)
  obtain b s' where b: "execute_step sha now x d a s = (b, s')" by (cases "execute_step sha now x d a s")
  then have "side_steps s s'" using execute_step_side [OF Cons.prems, of s sha now d a] by simp
  with Cons.IH [OF Cons.prems, of s'] b show ?case by (auto simp: Let_def split: prod.split)
qed simp

lemma executePlan_side: "tame x \<Longrightarrow> side_steps s (snd (executePlan sha now x d s))"
  using execute_steps_side [of x s sha now d "dc_executionPlan d"] by (auto simp: executePlan_def split: prod.split)

section \<open>Changes of a decision\<close>

lemma moved_fields [simp]:
  "dc_status (moved to now d) = to" "dc_id (moved to now d) = dc_id d" "dc_parentRef (moved to now d) = dc_parentRef d"
  "dc_class (moved to now d) = dc_class d" "dc_title (moved to now d) = dc_title d" "dc_context (moved to now d) = dc_context d"
  "dc_contextRefs (moved to now d) = dc_contextRefs d" "dc_options (moved to now d) = dc_options d"
  "dc_raisedBy (moved to now d) = dc_raisedBy d" "dc_curatedBy (moved to now d) = dc_curatedBy d"
  "dc_routedTo (moved to now d) = dc_routedTo d" "dc_resolution (moved to now d) = dc_resolution d"
  "dc_executionPlan (moved to now d) = dc_executionPlan d" "dc_mergedInto (moved to now d) = dc_mergedInto d"
  "dc_disposedReason (moved to now d) = dc_disposedReason d" "dc_createdAt (moved to now d) = dc_createdAt d"
  by (simp_all add: moved_def accrueExiting_def Let_def)

lemma assertEdge_Inr [simp]: "assertEdge d to = Inr u \<longleftrightarrow> to \<in> set (DECISION_TRANSITIONS (dc_status d))"
  by (simp add: assertEdge_def)

lemma edge_into:
  "DcCurated \<in> set (DECISION_TRANSITIONS p) \<longleftrightarrow> p = DcRaised"
  "DcRouted \<in> set (DECISION_TRANSITIONS p) \<longleftrightarrow> p = DcCurated"
  "DcResolved \<in> set (DECISION_TRANSITIONS p) \<longleftrightarrow> p = DcRouted"
  "DcExecuted \<in> set (DECISION_TRANSITIONS p) \<longleftrightarrow> p = DcResolved"
  "DcMerged \<in> set (DECISION_TRANSITIONS p) \<longleftrightarrow> p = DcRaised \<or> p = DcCurated"
  "DcDisposed \<in> set (DECISION_TRANSITIONS p) \<longleftrightarrow> p = DcRaised \<or> p = DcCurated \<or> p = DcRouted"
  "DcWithdrawn \<in> set (DECISION_TRANSITIONS p) \<longleftrightarrow> p = DcRaised \<or> p = DcCurated"
  by (cases p; simp)+

lemmas decision_rows = curate_row_def route_row_def resolve_row_def execute_row_def binding_row_def merge_row_def
  dispose_row_def withdraw_row_def or_curator_def

inductive decision_change :: "sha256 \<Rightarrow> hub_store \<Rightarrow> decision \<Rightarrow> decision \<Rightarrow> bool" for sha s d where
  dcg_curate: "curate_row now a ref cls d = Inr d' \<Longrightarrow> decision_change sha s d d'"
| dcg_route: "route_row now a route plan d = Inr d' \<Longrightarrow> decision_change sha s d d'"
| dcg_resolve: "DirectorProofGate sha now d a answer claimed s = Inr (mode, ref) \<Longrightarrow>
    resolve_row now mode ref a answer rationale d = Inr d' \<Longrightarrow> decision_change sha s d d'"
| dcg_execute: "execute_row now d = Inr d' \<Longrightarrow> decision_change sha s d d'"
| dcg_bind: "binding_row now binding d = Inr d' \<Longrightarrow> decision_change sha s d d'"
| dcg_merge: "merge_row now a into d = Inr d' \<Longrightarrow> decision_change sha s d d'"
| dcg_dispose: "dispose_row now a reason d = Inr d' \<Longrightarrow> decision_change sha s d d'"
| dcg_withdraw: "withdraw_row now a d = Inr d' \<Longrightarrow> decision_change sha s d d'"

inductive_cases decision_changeE: "decision_change sha s d d'"

lemma decision_change_id: "decision_change sha s d d' \<Longrightarrow> dc_id d' = dc_id d"
  by (elim decision_changeE) (auto simp: decision_rows res_bind_Inr_iff split: if_splits)

section \<open>Steps of the rail\<close>

definition decision_born :: "decision \<Rightarrow> bool" where
  "decision_born d \<longleftrightarrow> (\<exists>i now parent cls title ctx refs opts actor. d = raised i now parent cls title ctx refs opts actor)"

definition ratified_by :: "sha256 \<Rightarrow> class_grant \<Rightarrow> decision \<Rightarrow> bool" where
  "ratified_by sha g d \<longleftrightarrow> director_grade d \<and>
     (\<exists>days r. dc_resolution d = Some r \<and> cg_representationDue g = dr_resolvedAt r + days * DAY_MS \<and>
       binds_spec sha \<lparr>gs_class = cg_class g, gs_allowedActions = cg_allowedActions g, gs_reversibleOnly = cg_reversibleOnly g,
         gs_parentKinds = cg_parentKinds g, gs_excludedRefs = cg_excludedRefs g, gs_excludedClasses = cg_excludedClasses g,
         gs_representationDays = days\<rparr> d)"

inductive rail_step :: "sha256 \<Rightarrow> hub_store \<Rightarrow> hub_store \<Rightarrow> bool" for sha s where
  rl_side: "side_step s s' \<Longrightarrow> rail_step sha s s'"
| rl_raise: "getDecision (dc_id d) s = None \<Longrightarrow> dc_id d \<noteq> [] \<Longrightarrow> decision_born d \<Longrightarrow>
    rail_step sha s (write_row DECISION_KIND (dc_id d) (EDecision d) s)"
| rl_decision: "getDecision i s = Some d \<Longrightarrow> decision_change sha s d d' \<Longrightarrow>
    rail_step sha s (write_row DECISION_KIND i (EDecision d') s)"
| rl_signal: "getSignal (sg_id g) s = None \<Longrightarrow> sg_id g \<noteq> [] \<Longrightarrow> da_role (sg_capturedBy g) = ''director'' \<Longrightarrow>
    rail_step sha s (write_row SIGNAL_KIND (sg_id g) (ESignal g) s)"
| rl_confirmation: "getConfirmation (cf_id c) s = None \<Longrightarrow> cf_id c \<noteq> [] \<Longrightarrow> cf_answeredBySignalId c = None \<Longrightarrow>
    rail_step sha s (write_row CONFIRMATION_KIND (cf_id c) (EConfirmation c) s)"
| rl_answer: "getConfirmation i s = Some c \<Longrightarrow> getSignal sid s \<noteq> None \<Longrightarrow> answer_row now sid c = Inr c' \<Longrightarrow>
    rail_step sha s (write_row CONFIRMATION_KIND i (EConfirmation c') s)"
| rl_consume: "getConfirmation i s = Some c \<Longrightarrow> consume_row now ex agent c = Inr c' \<Longrightarrow>
    rail_step sha s (write_row CONFIRMATION_KIND i (EConfirmation c') s)"
| rl_ratify: "getRatification (gr_id r) s = None \<Longrightarrow> gr_id r \<noteq> [] \<Longrightarrow>
    rail_step sha s (write_row RATIFICATION_KIND (gr_id r) (ERatification r) s)"
| rl_grant: "getGrant (cg_id g) s = None \<Longrightarrow> cg_id g \<noteq> [] \<Longrightarrow>
    map_option gr_grantId (getRatification (cg_ratificationRef g) s) = Some (cg_id g) \<Longrightarrow>
    getDecision (cg_ratificationRef g) s = Some d \<Longrightarrow> ratified_by sha g d \<Longrightarrow>
    rail_step sha s (write_row GRANT_KIND (cg_id g) (EGrant g) s)"
| rl_grant_state: "getGrant i s = Some g \<Longrightarrow> grant_row now to succ g = Inr g' \<Longrightarrow>
    rail_step sha s (write_row GRANT_KIND i (EGrant g') s)"

abbreviation rail_steps :: "sha256 \<Rightarrow> hub_store \<Rightarrow> hub_store \<Rightarrow> bool" where
  "rail_steps sha \<equiv> (rail_step sha)\<^sup>*\<^sup>*"

lemma rail_row_ids:
  assumes "rail_ok s"
  shows "getDecision i s = Some d \<Longrightarrow> dc_id d = i \<and> i \<noteq> []" "getConfirmation i s = Some c \<Longrightarrow> cf_id c = i \<and> i \<noteq> []"
    "getGrant i s = Some g \<Longrightarrow> cg_id g = i \<and> i \<noteq> []" "getSignal i s = Some h \<Longrightarrow> sg_id h = i \<and> i \<noteq> []"
  using assms unfolding rail_ok_def rail_reads by (blast dest: dec.row_of_id cnf.row_of_id grt.row_of_id sig.row_of_id)+

lemma confirmation_row_ids: "answer_row now sid c = Inr c' \<Longrightarrow> cf_id c' = cf_id c" "consume_row now ex agent c = Inr c' \<Longrightarrow> cf_id c' = cf_id c"
  "grant_row now to succ g = Inr g' \<Longrightarrow> cg_id g' = cg_id g"
  by (auto simp: answer_row_def consume_row_def grant_row_def res_bind_Inr_iff split: if_splits)

lemma rail_step_ok: "rail_step sha s s' \<Longrightarrow> rail_ok s \<Longrightarrow> rail_ok s'"
proof (induction rule: rail_step.induct)
  case (rl_side s')
  then show ?case by (auto elim!: side_step.cases simp: rail_ok_off)
next
  case (rl_decision i d d')
  then show ?case using rail_row_ids(1) decision_change_id rail_ok_rows(1) by blast
next
  case (rl_answer i c sid now c')
  then show ?case using rail_row_ids(2) confirmation_row_ids(1) rail_ok_rows(3) by metis
next
  case (rl_consume i c now ex agent c')
  then show ?case using rail_row_ids(2) confirmation_row_ids(2) rail_ok_rows(3) by metis
next
  case (rl_grant_state i g now to succ g')
  then show ?case using rail_row_ids(3) confirmation_row_ids(3) rail_ok_rows(4) by metis
qed (auto intro: rail_ok_rows)

lemma rail_steps_ok: "rail_steps sha s s' \<Longrightarrow> rail_ok s \<Longrightarrow> rail_ok s'"
  by (induction rule: rtranclp_induct) (auto intro: rail_step_ok)

lemma side_rail: "side_steps s s' \<Longrightarrow> rail_steps sha s s'"
  by (induction rule: rtranclp_induct) (auto intro: rtranclp.rtrancl_into_rtrancl rl_side)

end
