(* ===== verification/Rail_Ops.thy ===== *)
theory Rail_Ops
  imports Rail_Steps
begin

text \<open>Every request of the authority rail is a sequence of rail steps.\<close>

section \<open>Updates and creations\<close>

lemma row_ids:
  "curate_row now a ref cls d = Inr d' \<Longrightarrow> dc_id d' = dc_id d" "route_row now a route plan d = Inr d' \<Longrightarrow> dc_id d' = dc_id d"
  "resolve_row now mode r a answer rationale d = Inr d' \<Longrightarrow> dc_id d' = dc_id d" "execute_row now d = Inr d' \<Longrightarrow> dc_id d' = dc_id d"
  "binding_row now binding d = Inr d' \<Longrightarrow> dc_id d' = dc_id d" "merge_row now a into d = Inr d' \<Longrightarrow> dc_id d' = dc_id d"
  "dispose_row now a reason d = Inr d' \<Longrightarrow> dc_id d' = dc_id d" "withdraw_row now a d = Inr d' \<Longrightarrow> dc_id d' = dc_id d"
  by (auto simp: decision_rows res_bind_Inr_iff split: if_splits)

lemma decision_update_eq:
  assumes "rail_ok s" "\<And>d d'. f d = Inr d' \<Longrightarrow> dc_id d' = dc_id d"
  shows "decision_update i f s =
    (case getDecision i s of
       None \<Rightarrow> (Inr None, s)
     | Some d \<Rightarrow> (case f d of
          Inl e \<Rightarrow> (Inl (DecisionRejected e), s)
        | Inr d' \<Rightarrow> (Inr (Some d'), write_row DECISION_KIND i (EDecision d') s)))"
  unfolding decision_update_def decision_update_with_def rail_reads
  by (rule dec.update_kind_eq) (use assms in \<open>auto simp: rail_ok_def\<close>)

lemma decision_update_steps:
  assumes "rail_ok s" "\<And>d d'. f d = Inr d' \<Longrightarrow> dc_id d' = dc_id d"
    and "\<And>d d'. f d = Inr d' \<Longrightarrow> decision_change sha s d d'"
  shows "rail_steps sha s (snd (decision_update i f s))"
proof -
  have eq: "decision_update i f s =
    (case getDecision i s of
       None \<Rightarrow> (Inr None, s)
     | Some d \<Rightarrow> (case f d of
          Inl e \<Rightarrow> (Inl (DecisionRejected e), s)
        | Inr d' \<Rightarrow> (Inr (Some d'), write_row DECISION_KIND i (EDecision d') s)))"
    by (intro decision_update_eq assms)
  show ?thesis unfolding eq using assms(3)
    by (auto intro!: r_into_rtranclp rl_decision split: option.split sum.split)
qed

lemma confirmation_update_eq:
  assumes "rail_ok s" "\<And>c c'. f c = Inr c' \<Longrightarrow> cf_id c' = cf_id c"
  shows "confirmation_update i f s =
    (case getConfirmation i s of
       None \<Rightarrow> (Inr None, s)
     | Some c \<Rightarrow> (case f c of
          Inl e \<Rightarrow> (Inl (DecisionRejected e), s)
        | Inr c' \<Rightarrow> (Inr (Some c'), write_row CONFIRMATION_KIND i (EConfirmation c') s)))"
  unfolding confirmation_update_def rail_reads
  by (rule cnf.update_kind_eq) (use assms in \<open>auto simp: rail_ok_def\<close>)

lemma grant_update_eq:
  assumes "rail_ok s" "\<And>g g'. f g = Inr g' \<Longrightarrow> cg_id g' = cg_id g"
  shows "grant_update i f s =
    (case getGrant i s of
       None \<Rightarrow> (Inr None, s)
     | Some g \<Rightarrow> (case f g of
          Inl e \<Rightarrow> (Inl (DecisionRejected e), s)
        | Inr g' \<Rightarrow> (Inr (Some g'), write_row GRANT_KIND i (EGrant g') s)))"
  unfolding grant_update_def rail_reads
  by (rule grt.update_kind_eq) (use assms in \<open>auto simp: rail_ok_def\<close>)

lemma then_do_steps:
  assumes "rail_ok s" "rail_steps sha s (snd r)"
    and "\<And>y t. r = (Inr y, t) \<Longrightarrow> rail_ok t \<Longrightarrow> rail_steps sha t (snd (k y t))"
  shows "rail_steps sha s (snd (then_do r k))"
proof (cases r)
  case (Pair a t)
  then have st: "rail_steps sha s t" using assms(2) by simp
  show ?thesis
  proof (cases a)
    case (Inr y)
    with Pair have "r = (Inr y, t)" by simp
    from assms(3) [OF this rail_steps_ok [OF st assms(1)]] st this show ?thesis
      by (auto simp: then_do_def intro: rtranclp_trans)
  qed (use Pair st in \<open>simp add: then_do_def\<close>)
qed

lemma then_do_done [simp]: "snd (then_do r (\<lambda>y t. (f y, t))) = snd r"
  by (simp add: then_do_def split: prod.split sum.split)

lemma numbered_id_ne [simp]: "numbered_id (c # stem) n \<noteq> []"
  by (simp add: numbered_id_def)

lemma counter_write: "rail_ok s \<Longrightarrow> rail_ok (write_row COUNTER_KIND i e s) \<and> side_steps s (write_row COUNTER_KIND i e s)"
  using rail_ok_off [of s COUNTER_KIND i e] r_into_rtranclp [of side_step, OF ss_write [of COUNTER_KIND s i e]] by simp

text \<open>A created row is one step after the step of the counter, once the step for a fresh row is known.\<close>

lemma created_steps:
  assumes "rail_ok s" "s' = write_row COUNTER_KIND COUNTER_ID e s" "rail_step sha s' t"
  shows "rail_steps sha s t"
  using counter_write [OF assms(1)] assms(3) unfolding assms(2) by (blast intro: rtranclp.rtrancl_into_rtrancl side_rail)

lemma absent:
  assumes "rail_ok s" "s' = write_row COUNTER_KIND COUNTER_ID e s"
  shows "find_row s' DECISION_KIND i = None \<Longrightarrow> getDecision i s' = None" "find_row s' SIGNAL_KIND i = None \<Longrightarrow> getSignal i s' = None"
    "find_row s' CONFIRMATION_KIND i = None \<Longrightarrow> getConfirmation i s' = None" "find_row s' GRANT_KIND i = None \<Longrightarrow> getGrant i s' = None"
  by (simp_all add: rail_reads row_of_def get_op_def)

section \<open>The verbs of the repository\<close>

lemma record_steps: "rail_steps sha s (snd (record_curation now input s))"
  by (simp add: record_curation_def create_side side_rail)

lemma trail_steps: "rail_steps sha s (snd (trail now i act changes curator basis citation extra s))"
  unfolding trail_def by (rule record_steps)

lemma raise_steps:
  assumes "rail_ok s"
  shows "rail_steps sha s (snd (raiseDecision now parent cls title ctx refs opts actor s))"
  unfolding raiseDecision_def
proof (rule then_do_steps [OF assms])
  let ?b = "\<lambda>num. raised (numbered_id ''decision-'' num) now parent cls title ctx refs opts actor"
  have id: "dc_id (?b n) \<noteq> []" for n by (simp add: raised_def)
  have ok: "kind_ok EDecision dc_id DECISION_KIND s" using assms by (simp add: rail_ok_def)
  show "rail_steps sha s (snd (create_numbered ''decisionCounter'' DECISION_KIND EDecision ?b s))"
  proof (cases rule: dec.numbered_cases [where build = ?b and counter = "''decisionCounter''", OF ok id])
    case (1 e)
    then show ?thesis using counter_write [OF assms] side_rail by simp
  next
    case (2 s' e n)
    have "decision_born (?b n)" unfolding decision_born_def by blast
    then show ?thesis
      using created_steps [OF assms 2(1) rl_raise [OF absent(1) [OF assms 2(1,2)] id]] 2(3) by simp
  qed
next
  show "rail_steps sha t (snd (then_do (mintRaw now (raw_of now y) t) (\<lambda>_ s''. (Inr y, s''))))" for y :: decision and t
    unfolding then_do_done mintRaw_def by (simp add: create_side side_rail)
qed

lemma update_then_steps:
  assumes "rail_ok s" "\<And>d d'. f d = Inr d' \<Longrightarrow> dc_id d' = dc_id d" "\<And>d d'. f d = Inr d' \<Longrightarrow> decision_change sha s d d'"
    and "\<And>y t. rail_steps sha t (snd (k y t))"
  shows "rail_steps sha s (snd (then_do (decision_update i f s) k))"
  by (intro then_do_steps assms decision_update_steps)

lemma curate_steps: "rail_ok s \<Longrightarrow> rail_steps sha s (snd (curateDecision now i a ref cls basis s))"
  unfolding curateDecision_def Let_def
  by (rule update_then_steps) (auto simp: row_ids trail_steps intro: dcg_curate split: option.split)

lemma route_steps: "rail_ok s \<Longrightarrow> rail_steps sha s (snd (routeDecision now i a route plan s))"
  unfolding routeDecision_def by (rule update_then_steps) (auto simp: row_ids trail_steps intro: dcg_route)

lemma merge_steps: "rail_ok s \<Longrightarrow> rail_steps sha s (snd (mergeDecision now i a into basis s))"
  unfolding mergeDecision_def
  by (auto intro!: update_then_steps simp: row_ids trail_steps intro: dcg_merge)

lemma dispose_steps: "rail_ok s \<Longrightarrow> rail_steps sha s (snd (disposeDecision now i a reason s))"
  unfolding disposeDecision_def
  by (auto intro!: update_then_steps simp: row_ids trail_steps intro: dcg_dispose)

lemma withdraw_steps: "rail_ok s \<Longrightarrow> rail_steps sha s (snd (withdrawDecision now i a s))"
  unfolding withdrawDecision_def by (rule decision_update_steps) (auto simp: row_ids intro: dcg_withdraw)

lemma mark_steps: "rail_ok s \<Longrightarrow> rail_steps sha s (snd (markExecuted now i s))"
  unfolding markExecuted_def by (rule decision_update_steps) (auto simp: row_ids intro: dcg_execute)

lemma binding_steps: "rail_ok s \<Longrightarrow> rail_steps sha s (snd (recordExecutorBinding now i binding s))"
  unfolding recordExecutorBinding_def by (rule decision_update_steps) (auto simp: row_ids intro: dcg_bind)

text \<open>A resolution changes the very row its gate was shown.\<close>

lemma resolve_quiet:
  assumes "rail_ok s"
  shows "resolveDecision gate now i a answer rationale claimed s =
    (case getDecision i s of
       None \<Rightarrow> (Inr None, s)
     | Some d \<Rightarrow>
         if dc_status d \<noteq> DcRouted then (Inl (DecisionRejected (NoEdge (dc_status d) DcResolved)), s)
         else case gate d a answer claimed s of
             Inl e \<Rightarrow> (Inl (DecisionRejected e), s)
           | Inr (mode, ref) \<Rightarrow>
               if mode = VerifierMandate then (Inl (DecisionRejected ReservedMode), s)
               else if mode \<noteq> DirectorDirect \<and> falsy_text ref then (Inl (DecisionRejected (AuthorityRefMissing mode)), s)
               else let d' = moved DcResolved now (d\<lparr>dc_resolution := Some
                      \<lparr>dr_authorityMode = mode, dr_authorityRef = ref, dr_executor = a, dr_answer = answer,
                       dr_rationale = rationale, dr_resolvedAt = now\<rparr>\<rparr>)
                    in (Inr (Some d'), write_row DECISION_KIND i (EDecision d') s))"
proof (cases "getDecision i s")
  case (Some d)
  have eq: "decision_update i (resolve_row now mode ref a answer rationale) s =
      (case resolve_row now mode ref a answer rationale d of
         Inl e \<Rightarrow> (Inl (DecisionRejected e), s)
       | Inr d' \<Rightarrow> (Inr (Some d'), write_row DECISION_KIND i (EDecision d') s))" for mode ref
    by (subst decision_update_eq [OF assms]) (auto simp: row_ids Some)
  show ?thesis
    unfolding resolveDecision_def resolveDecision_with_def decision_update_def [symmetric] Let_def eq
    by (auto simp: Some assertEdge_def edge_into resolve_row_def split: sum.split prod.split)
qed (simp add: resolveDecision_def resolveDecision_with_def)

lemma resolve_steps:
  assumes "rail_ok s"
  shows "rail_steps sha s (snd (resolveDecision (DirectorProofGate sha now) now i a answer rationale claimed s))"
    and "snd (resolveDecision FailClosedProofGate now i a answer rationale claimed s) = s"
proof -
  have "rail_step sha s (write_row DECISION_KIND i (EDecision (moved DcResolved now (d\<lparr>dc_resolution := Some
           \<lparr>dr_authorityMode = mode, dr_authorityRef = ref, dr_executor = a, dr_answer = answer,
            dr_rationale = rationale, dr_resolvedAt = now\<rparr>\<rparr>))) s)"
    if "getDecision i s = Some d" "dc_status d = DcRouted" "DirectorProofGate sha now d a answer claimed s = Inr (mode, ref)"
    for d mode ref
    by (rule rl_decision [OF that(1) dcg_resolve [OF that(3)]]) (simp add: resolve_row_def assertEdge_def that(2))
  then show "rail_steps sha s (snd (resolveDecision (DirectorProofGate sha now) now i a answer rationale claimed s))"
    unfolding resolve_quiet [OF assms] by (auto simp: Let_def split: option.split sum.split prod.split)
  show "snd (resolveDecision FailClosedProofGate now i a answer rationale claimed s) = s"
    unfolding resolve_quiet [OF assms] by (simp add: FailClosedProofGate_def split: option.split)
qed

section \<open>Signals and confirmations\<close>

lemma or_missing_store [simp]: "snd (or_missing e r) = snd r"
  by (simp add: or_missing_def)

lemma bind_steps:
  assumes "rail_ok s" "getSignal sid s \<noteq> None"
  shows "rail_steps sha s (snd (bindAnswerToConfirmation now c sid s))"
proof -
  have eq: "confirmation_update c (answer_row now sid) s =
    (case getConfirmation c s of
       None \<Rightarrow> (Inr None, s)
     | Some d \<Rightarrow> (case answer_row now sid d of
          Inl e \<Rightarrow> (Inl (DecisionRejected e), s)
        | Inr c' \<Rightarrow> (Inr (Some c'), write_row CONFIRMATION_KIND c (EConfirmation c') s)))"
    by (rule confirmation_update_eq [OF assms(1)]) (rule confirmation_row_ids(1))
  show ?thesis unfolding bindAnswerToConfirmation_def or_missing_store eq
    using assms(2) by (auto intro!: r_into_rtranclp rl_answer split: option.split sum.split)
qed

lemma consume_steps:
  assumes "rail_ok s"
  shows "rail_steps sha s (snd (consumeConfirmation now c ex agent s))"
proof -
  have eq: "confirmation_update c (consume_row now ex agent) s =
    (case getConfirmation c s of
       None \<Rightarrow> (Inr None, s)
     | Some d \<Rightarrow> (case consume_row now ex agent d of
          Inl e \<Rightarrow> (Inl (DecisionRejected e), s)
        | Inr c' \<Rightarrow> (Inr (Some c'), write_row CONFIRMATION_KIND c (EConfirmation c') s)))"
    by (rule confirmation_update_eq [OF assms]) (rule confirmation_row_ids(2))
  show ?thesis unfolding consumeConfirmation_def or_missing_store eq
    by (auto intro!: r_into_rtranclp rl_consume split: option.split sum.split)
qed

lemma mintSignal_steps:
  assumes "rail_ok s" "da_role (si_capturedBy q) = ''director''"
  shows "rail_steps sha s (snd (mintSignal sha' now q s))"
proof -
  let ?b = "\<lambda>num. minted_signal sha' now q (numbered_id ''dsig-'' num)"
  have id: "sg_id (?b n) \<noteq> []" for n by (simp add: minted_signal_def)
  have ok: "kind_ok ESignal sg_id SIGNAL_KIND s" using assms by (simp add: rail_ok_def)
  show ?thesis
  proof (cases rule: sig.numbered_cases [where build = ?b and counter = "''directorSignalCounter''", OF ok id])
    case (1 e)
    then show ?thesis using counter_write [OF assms(1)] side_rail by (simp add: mintSignal_def then_do_def)
  next
    case (2 s' e n)
    let ?t = "write_row SIGNAL_KIND (sg_id (?b n)) (ESignal (?b n)) s'"
    have role: "da_role (sg_capturedBy (?b n)) = ''director''" using assms(2) by (simp add: minted_signal_def)
    note st = created_steps [OF assms(1) 2(1) rl_signal [OF absent(2) [OF assms(1) 2(1,2)] id role]]
    have "rail_ok ?t" by (rule rail_steps_ok [OF st [of sha] assms(1)])
    moreover have "getSignal (sg_id (?b n)) ?t \<noteq> None" by (simp add: getSignal_def)
    ultimately have "rail_steps sha ?t (snd (bindAnswerToConfirmation now c (sg_id (?b n)) ?t))" for c by (rule bind_steps)
    then have bind: "rail_steps sha s (snd (bindAnswerToConfirmation now c (sg_id (?b n)) ?t))" for c
      using st [of sha] by (meson rtranclp_trans)
    have "mintSignal sha' now q s = (if falsy_text (si_confirmationId q) then (Inr (?b n), ?t)
        else then_do (bindAnswerToConfirmation now (the (si_confirmationId q)) (sg_id (?b n)) ?t) (\<lambda>_ s''. (Inr (?b n), s'')))"
      unfolding mintSignal_def 2(3) by (simp add: then_do_def)
    then show ?thesis using st [of sha] bind by simp
  qed
qed

lemma capture_steps:
  assumes "rail_ok s"
  shows "rail_steps sha s (snd (captureDirectorSignal sha' now q d s))"
proof (cases "da_role (si_capturedBy q) = ''director''")
  case True
  then have "rail_steps sha s (snd (mintSignal sha' now (q\<lparr>si_confirmationId := c\<rparr>) s))" for c
    by (intro mintSignal_steps [OF assms]) simp
  then show ?thesis
    by (auto simp: captureDirectorSignal_def split: sum.split prod.split) (metis snd_conv)+
qed (simp add: captureDirectorSignal_def)

lemma mintConfirmation_steps:
  assumes "rail_ok s"
  shows "rail_steps sha s (snd (mintConfirmation now ttl nonce d ph rh answer eh by s))"
proof -
  let ?b = "\<lambda>num. minted_confirmation now ttl nonce d ph rh answer eh by (numbered_id ''dconf-'' num)"
  have id: "cf_id (?b n) \<noteq> []" for n by (simp add: minted_confirmation_def)
  have ok: "kind_ok EConfirmation cf_id CONFIRMATION_KIND s" using assms by (simp add: rail_ok_def)
  show ?thesis
  proof (cases rule: cnf.numbered_cases [where build = ?b and counter = "''directorConfirmationCounter''", OF ok id])
    case (1 e)
    then show ?thesis using counter_write [OF assms(1)] side_rail by (simp add: mintConfirmation_def)
  next
    case (2 s' e n)
    have "cf_answeredBySignalId (?b n) = None" by (simp add: minted_confirmation_def)
    from created_steps [OF assms(1) 2(1) rl_confirmation [OF absent(3) [OF assms(1) 2(1,2)] id this]] 2(3)
    show ?thesis by (simp add: mintConfirmation_def)
  qed
qed

section \<open>The verbs of the policies\<close>

lemma finish_steps:
  assumes "rail_ok s" "tame x"
  shows "rail_steps sha s (snd (finish_execution sha' now x a d s))"
proof (cases "dc_executionPlan d = []")
  case True
  then show ?thesis by (simp add: finish_execution_def mark_steps [OF assms(1)])
next
  case False
  obtain good rs s1 where ex: "executePlan sha' now x d s = ((good, rs), s1)" by (cases "executePlan sha' now x d s") auto
  have st: "rail_steps sha s s1" using executePlan_side [OF assms(2), of s sha' now d] ex side_rail by simp
  have ok: "rail_ok s1" by (rule rail_steps_ok [OF st assms(1)])
  have "rail_steps sha s1 (snd (finish_execution sha' now x a d s))"
    unfolding finish_execution_def using False ex
    by (auto simp: Let_def mark_steps intro!: then_do_steps [OF ok] binding_steps [OF ok])
  with st show ?thesis by (rule rtranclp_trans)
qed

lemma consume_proof_steps: "rail_ok s \<Longrightarrow> rail_steps sha s (consume_proof sha' now ref answer a d s)"
  by (simp add: consume_proof_def consume_steps)

lemma resolveAsDirector_steps:
  assumes "rail_ok s" "tame x"
  shows "rail_steps sha s (snd (resolveAsDirector sha now x a i ref answer rationale s))"
proof -
  obtain r s1 where run: "resolveDecision (DirectorProofGate sha now) now i a answer rationale ref s = (r, s1)"
    by (cases "resolveDecision (DirectorProofGate sha now) now i a answer rationale ref s")
  have st: "rail_steps sha s s1" using resolve_steps(1) [OF assms(1), of sha now i a answer rationale ref] run by simp
  have ok: "rail_ok s1" by (rule rail_steps_ok [OF st assms(1)])
  have fin: "rail_steps sha s s2" "rail_ok s2" if "finish_execution sha now x a d s1 = (q, s2)" for d q s2
  proof -
    have "rail_steps sha s1 s2" using finish_steps [OF ok assms(2), of sha sha now a d] that by simp
    with st show "rail_steps sha s s2" by (rule rtranclp_trans)
    with assms(1) show "rail_ok s2" by (blast intro: rail_steps_ok)
  qed
  have all: "rail_steps sha s (consume_proof sha now ref answer a d s2)" if "finish_execution sha now x a d s1 = (q, s2)" for d q s2
    using fin [OF that] consume_proof_steps by (meson rtranclp_trans)
  show ?thesis
    unfolding resolveAsDirector_def run
    by (auto simp: st intro: fin(1) all split: option.split sum.split prod.split)
qed

lemma mintDirectorConfirmation_steps:
  assumes "rail_ok s"
  shows "rail_steps sha s (snd (mintDirectorConfirmation sha' now nonce a i answer s))"
  using mintConfirmation_steps [OF assms, of sha now CONFIRMATION_TTL_MS]
  by (auto simp: mintDirectorConfirmation_def split: option.split sum.split prod.split) (metis snd_conv)+

lemma routeHandler_steps:
  assumes "rail_ok s"
  shows "rail_steps sha s (snd (routeDecisionHandler now x a i route plan s))"
  using route_steps [OF assms, of sha now i a route plan]
  by (auto simp: routeDecisionHandler_def split: option.split sum.split prod.split)

lemma grant_state_steps:
  assumes "rail_ok s"
  shows "rail_steps sha s (snd (grant_update i (grant_row now to succ) s))"
proof -
  have eq: "grant_update i (grant_row now to succ) s =
    (case getGrant i s of
       None \<Rightarrow> (Inr None, s)
     | Some g \<Rightarrow> (case grant_row now to succ g of
          Inl e \<Rightarrow> (Inl (DecisionRejected e), s)
        | Inr g' \<Rightarrow> (Inr (Some g'), write_row GRANT_KIND i (EGrant g') s)))"
    by (rule grant_update_eq [OF assms]) (rule confirmation_row_ids(3))
  show ?thesis unfolding eq by (auto intro!: r_into_rtranclp rl_grant_state split: option.split sum.split)
qed

lemma revoke_steps: "rail_ok s \<Longrightarrow> rail_steps sha s (snd (revokeGrant now i reason s))"
  by (simp add: revokeGrant_def grant_state_steps)

section \<open>Minting a grant\<close>

text \<open>How a mint ends: refused; with the ratification taken by an earlier mint; or with a new grant, whose predecessor is then superseded.\<close>

lemma mintGrant_cases:
  assumes ok: "rail_ok s" and run: "mintGrant now p ref supersedes resolved resolvedAt s = (r, t)" and ref: "ref \<noteq> []"
  obtains (refused) e where "r = Inl e" "t = s" "e \<noteq> DecisionRejected (GrantInvalid GrantNotActive)"
  | (taken) s1 where "r = Inl (DecisionRejected (GrantInvalid RatificationConsumed))" "t = s1" "rail_ok s1" "side_steps s s1"
  | (burnt) s1 rr where "r = Inl DecisionIdTaken" "rail_ok s1" "side_steps s s1" "gr_id rr = ref" "getRatification ref s1 = None"
      "t = write_row RATIFICATION_KIND ref (ERatification rr) s1"
  | (minted) s1 rr g at v s3 where "resolved" "resolvedAt = Some at" "rail_ok s1" "side_steps s s1" "gr_id rr = ref"
      "gr_grantId rr = cg_id g" "getRatification ref s1 = None" "cg_id g \<noteq> []" "getGrant (cg_id g) s1 = None"
      "g = minted_grant now v p ref supersedes at (cg_id g)"
      "s3 = write_row GRANT_KIND (cg_id g) (EGrant g) (write_row RATIFICATION_KIND ref (ERatification rr) s1)"
      "(r, t) = (if falsy_text supersedes then (Inr g, s3)
         else then_do (markSuperseded now (the supersedes) (cg_id g) s3) (\<lambda>_ s4. (Inr g, s4)))"
proof -
  let ?n = "counter_value ''classGrantCounter'' s + 1"
  let ?i = "numbered_id ''grant-'' ?n"
  let ?s1 = "write_row COUNTER_KIND COUNTER_ID (buildEnvelopeWrite (get_op COUNTER_KIND COUNTER_ID s) ''classGrantCounter'' ?n) s"
  let ?rr = "\<lparr>gr_id = ref, gr_grantId = ?i, gr_consumedAt = now, gr_createdAt = now, gr_updatedAt = now\<rparr>"
  let ?s2 = "write_row RATIFICATION_KIND ref (ERatification ?rr) ?s1"
  have plain: "plain_store s" using ok dec.ok_plain by (auto simp: rail_ok_def)
  have ok1: "rail_ok ?s1" and side: "side_steps s ?s1" using counter_write [OF ok] by blast+
  have num: "next_id ''classGrantCounter'' s = (Inr ?n, ?s1)" by (rule next_id_quiet [OF plain])
  have rk: "kind_ok ERatification gr_id RATIFICATION_KIND ?s1" using ok1 by (simp add: rail_ok_def)
  have create1: "createOnly ident RATIFICATION_KIND (ERatification ?rr) ?s1 =
      Inr (if find_row ?s1 RATIFICATION_KIND ref \<noteq> None then (ExistingConflict, ?s1)
           else (Created ref (Suc (revisionCounter ?s1)), ?s2))"
    using rat.create_eq [OF rk, of ?rr] ref by simp
  have ok2: "rail_ok ?s2" by (rule rail_ok_rows(5) [OF ok1]) (use ref in simp_all)
  have gk: "kind_ok EGrant cg_id GRANT_KIND ?s2" using ok2 by (simp add: rail_ok_def)
  have create2: "createOnly ident GRANT_KIND (EGrant (minted_grant now v p ref supersedes at ?i)) ?s2 =
      Inr (if find_row ?s2 GRANT_KIND ?i \<noteq> None then (ExistingConflict, ?s2)
           else (Created ?i (Suc (revisionCounter ?s2)), write_row GRANT_KIND ?i (EGrant (minted_grant now v p ref supersedes at ?i)) ?s2))"
    for v at using grt.create_eq [OF gk, of "minted_grant now v p ref supersedes at ?i"] by (simp add: minted_grant_def)
  show ?thesis
  proof (cases "\<exists>at v. resolved \<and> resolvedAt = Some at \<and> mintGrant now p ref supersedes resolved resolvedAt s =
      (if find_row ?s1 RATIFICATION_KIND ref \<noteq> None then (Inl (DecisionRejected (GrantInvalid RatificationConsumed)), ?s1)
       else if find_row ?s2 GRANT_KIND ?i \<noteq> None then (Inl DecisionIdTaken, ?s2)
       else let g = minted_grant now v p ref supersedes at ?i; s3 = write_row GRANT_KIND ?i (EGrant g) ?s2 in
         if falsy_text supersedes then (Inr g, s3)
         else then_do (markSuperseded now (the supersedes) ?i s3) (\<lambda>_ s4. (Inr g, s4)))")
    case False
    have "\<exists>e. mintGrant now p ref supersedes resolved resolvedAt s = (Inl e, s) \<and> e \<noteq> DecisionRejected (GrantInvalid GrantNotActive)"
    proof (cases "resolved \<and> resolvedAt \<noteq> None")
      case True
      then obtain at where at: "resolvedAt = Some at" "resolved" by blast
      with False show ?thesis
        by (auto simp: mintGrant_def Let_def num create1 create2 split: if_splits)
    qed (auto simp: mintGrant_def split: option.split bool.split)
    with run refused show ?thesis by auto
  next
    case True
    then obtain at v where m: "resolved" "resolvedAt = Some at" "mintGrant now p ref supersedes resolved resolvedAt s =
      (if find_row ?s1 RATIFICATION_KIND ref \<noteq> None then (Inl (DecisionRejected (GrantInvalid RatificationConsumed)), ?s1)
       else if find_row ?s2 GRANT_KIND ?i \<noteq> None then (Inl DecisionIdTaken, ?s2)
       else let g = minted_grant now v p ref supersedes at ?i; s3 = write_row GRANT_KIND ?i (EGrant g) ?s2 in
         if falsy_text supersedes then (Inr g, s3)
         else then_do (markSuperseded now (the supersedes) ?i s3) (\<lambda>_ s4. (Inr g, s4)))" by blast
    let ?g = "minted_grant now v p ref supersedes at ?i"
    have gid: "cg_id ?g = ?i" by (simp add: minted_grant_def)
    show ?thesis
    proof (cases "find_row ?s1 RATIFICATION_KIND ref = None")
      case False
      then show ?thesis using taken [OF _ _ ok1 side] m(3) run by auto
    next
      case fresh: True
      then have none: "getRatification ref ?s1 = None" by (simp add: row_of_def get_op_def)
      show ?thesis
      proof (cases "find_row ?s2 GRANT_KIND ?i = None")
        case False
        then show ?thesis using burnt [OF _ ok1 side _ none, of ?rr] fresh m(3) run by auto
      next
        case True
        then have "find_row ?s1 GRANT_KIND ?i = None" by (simp add: store_simps)
        then have g1: "getGrant ?i ?s1 = None" by (simp add: getGrant_def row_of_def get_op_def)
        have out: "(r, t) = (if falsy_text supersedes then (Inr ?g, write_row GRANT_KIND ?i (EGrant ?g) ?s2)
            else then_do (markSuperseded now (the supersedes) ?i (write_row GRANT_KIND ?i (EGrant ?g) ?s2)) (\<lambda>_ s4. (Inr ?g, s4)))"
          using m(3) unfolding run Let_def by (simp only: fresh True if_False not_False_eq_True simp_thms)
        show ?thesis
          by (rule minted [OF m(1,2) ok1 side, of ?rr ?g v]) (simp_all only: gid g1 none out, simp_all)
      qed
    qed
  qed
qed

lemma minted_ratified:
  assumes "director_grade d" "binds_spec sha p d" "dc_resolution d = Some r"
  shows "ratified_by sha (minted_grant now v p ref supersedes (dr_resolvedAt r) i) d"
proof -
  let ?days = "gs_representationDays p" and ?g = "minted_grant now v p ref supersedes (dr_resolvedAt r) i"
  have "\<lparr>gs_class = cg_class ?g, gs_allowedActions = cg_allowedActions ?g, gs_reversibleOnly = cg_reversibleOnly ?g,
      gs_parentKinds = cg_parentKinds ?g, gs_excludedRefs = cg_excludedRefs ?g, gs_excludedClasses = cg_excludedClasses ?g,
      gs_representationDays = ?days\<rparr> = p"
    by (cases p) (simp add: minted_grant_def)
  moreover have "cg_representationDue ?g = dr_resolvedAt r + ?days * DAY_MS" by (simp add: minted_grant_def)
  ultimately show ?thesis using assms unfolding ratified_by_def by metis
qed

lemma mintGrant_steps:
  assumes ok: "rail_ok s" and ref: "ref \<noteq> []"
    and ratified: "resolved \<Longrightarrow> \<exists>d r. getDecision ref s = Some d \<and> director_grade d \<and> binds_spec sha p d \<and>
      dc_resolution d = Some r \<and> resolvedAt = Some (dr_resolvedAt r)"
  shows "rail_steps sha s (snd (mintGrant now p ref supersedes resolved resolvedAt s))"
proof -
  obtain r t where run: "mintGrant now p ref supersedes resolved resolvedAt s = (r, t)"
    by (cases "mintGrant now p ref supersedes resolved resolvedAt s")
  have "rail_steps sha s t"
    using ok run ref
  proof (cases rule: mintGrant_cases)
    case (burnt s1 rr)
    have "rail_step sha s1 t" unfolding burnt(6) using rl_ratify [of rr s1 sha] burnt(4,5) ref by simp
    with side_rail [OF burnt(3)] show ?thesis by (rule rtranclp.rtrancl_into_rtrancl)
  next
    case (minted s1 rr g at v s3)
    obtain d r1 where d: "getDecision ref s = Some d" "director_grade d" "binds_spec sha p d" "dc_resolution d = Some r1"
      "at = dr_resolvedAt r1" using ratified [OF minted(1)] minted(2) by auto
    let ?s2 = "write_row RATIFICATION_KIND ref (ERatification rr) s1"
    have side_keeps: "side_steps a b \<Longrightarrow> getDecision j b = getDecision j a" for a b j
      by (induction rule: rtranclp_induct)
        (auto elim!: side_step.cases simp: getDecision_def dec.row_of_write_other dec.row_of_delete_other dest: off_rail_ne)
    have d2: "getDecision ref ?s2 = Some d"
      using side_keeps [OF minted(4)] d(1) by (simp add: getDecision_def dec.row_of_write_other)
    have st2: "rail_steps sha s ?s2"
      using rl_ratify [of rr s1 sha] minted(5,7) ref by (auto intro: rtranclp.rtrancl_into_rtrancl [OF side_rail [OF minted(4)]])
    have gref: "cg_ratificationRef g = ref" by (subst minted(10)) (simp add: minted_grant_def)
    have rat: "ratified_by sha g d" by (subst minted(10)) (simp add: d(5) minted_ratified [OF d(2,3,4)])
    have "rail_step sha ?s2 s3"
      unfolding minted(11)
      by (rule rl_grant [where d = d])
        (use minted(5-9) gref d2 rat in \<open>simp_all add: getGrant_def grt.row_of_write_other\<close>)
    with st2 have st3: "rail_steps sha s s3" by (rule rtranclp.rtrancl_into_rtrancl)
    have "rail_steps sha s3 (snd (markSuperseded now (the supersedes) (cg_id g) s3))"
      unfolding markSuperseded_def by (rule grant_state_steps) (rule rail_steps_ok [OF st3 ok])
    then have "rail_steps sha s (snd (markSuperseded now (the supersedes) (cg_id g) s3))"
      using st3 by (meson rtranclp_trans)
    moreover have "t = (if falsy_text supersedes then s3 else snd (markSuperseded now (the supersedes) (cg_id g) s3))"
      using arg_cong [OF minted(12), of snd] by (simp split: if_splits)
    ultimately show ?thesis using st3 by simp
  qed (auto intro: side_rail)
  with run show ?thesis by simp
qed

lemma mintClassGrant_steps:
  assumes "rail_ok s"
  shows "rail_steps sha s (snd (mintClassGrant sha now p ref supersedes s))"
proof -
  let ?d = "getDecision ref s"
  let ?ratified = "case ?d of None \<Rightarrow> False | Some d \<Rightarrow> director_grade d"
  let ?at = "Option.bind ?d (\<lambda>d. map_option dr_resolvedAt (dc_resolution d))"
  have "rail_steps sha s (snd (mintGrant now p ref supersedes ?ratified ?at s))" if binds: "?ratified \<longrightarrow> binds_spec sha p (the ?d)"
  proof (cases ?ratified)
    case True
    then obtain d where d: "?d = Some d" "director_grade d" by (auto split: option.splits)
    then obtain r where r: "dc_resolution d = Some r" by (auto simp: director_grade_def)
    have ne: "ref \<noteq> []" using rail_row_ids(1) [OF assms d(1)] by simp
    show ?thesis by (rule mintGrant_steps [OF assms ne]) (use binds d r in simp)
  next
    case False
    then have "snd (mintGrant now p ref supersedes ?ratified ?at s) = s" by (simp add: mintGrant_def split: option.split)
    then show ?thesis by simp
  qed
  then show ?thesis
    by (auto simp: mintClassGrant_def Let_def split: sum.split prod.split option.splits)
qed

section \<open>Runs\<close>

lemma rail_perform_steps: "rail_ok s \<Longrightarrow> tame x \<Longrightarrow> rail_steps sha s (rail_perform sha x now q s)"
  by (cases q)
    (simp_all add: raise_steps curate_steps routeHandler_steps resolve_steps resolveAsDirector_steps merge_steps dispose_steps
      withdraw_steps capture_steps mintDirectorConfirmation_steps mintClassGrant_steps revoke_steps)

lemma rail_happens_steps: "rail_ok s \<Longrightarrow> tame x \<Longrightarrow> rail_steps sha s (rail_happens sha x ev s)"
  by (cases ev) (auto simp: rail_perform_steps intro: rl_side ss_write ss_delete)

lemma rail_fold_steps: "rail_ok s \<Longrightarrow> tame x \<Longrightarrow> rail_steps sha s (fold (rail_happens sha x) evs s)"
proof (induction evs arbitrary: s)
  case (Cons ev evs)
  note st = rail_happens_steps [OF Cons.prems, of sha ev]
  from Cons.IH [OF rail_steps_ok [OF st Cons.prems(1)] Cons.prems(2)] st show ?case by simp
qed simp

lemma rail_ok_empty: "rail_ok empty_substrate"
  by (simp add: rail_ok_def dec.ok_empty sig.ok_empty cnf.ok_empty grt.ok_empty rat.ok_empty)

lemma rail_run_steps: "tame x \<Longrightarrow> rail_steps sha empty_substrate (rail_run sha x evs)"
  unfolding rail_run_def by (rule rail_fold_steps [OF rail_ok_empty])

lemma rail_run_ok: "tame x \<Longrightarrow> rail_ok (rail_run sha x evs)"
  by (rule rail_steps_ok [OF rail_run_steps rail_ok_empty])

lemma rail_run_later: "tame x \<Longrightarrow> rail_steps sha (rail_run sha x evs) (rail_run sha x (evs @ later))"
  using rail_fold_steps [OF rail_run_ok] by (simp add: rail_run_def)

end
