(* ===== verification/Authority_Properties.thy ===== *)
theory Authority_Properties
  imports Rail_Ops
begin

text \<open>
  What the authority rail guarantees: a decision is resolved only on a proof object that really exists and binds it, a
  grant exists only as ratified by the Director, and a decision that has ended stays as it ended.
\<close>

section \<open>What a step keeps\<close>

lemma rail_read_write [simp]:
  "getDecision i (write_row DECISION_KIND j (EDecision d) s) = (if i = j then Some d else getDecision i s)"
  "getDecision i (write_row SIGNAL_KIND j e s) = getDecision i s" "getDecision i (write_row CONFIRMATION_KIND j e s) = getDecision i s"
  "getDecision i (write_row GRANT_KIND j e s) = getDecision i s" "getDecision i (write_row RATIFICATION_KIND j e s) = getDecision i s"
  "getSignal i (write_row SIGNAL_KIND j (ESignal g) s) = (if i = j then Some g else getSignal i s)"
  "getSignal i (write_row DECISION_KIND j e s) = getSignal i s" "getSignal i (write_row CONFIRMATION_KIND j e s) = getSignal i s"
  "getSignal i (write_row GRANT_KIND j e s) = getSignal i s" "getSignal i (write_row RATIFICATION_KIND j e s) = getSignal i s"
  "getConfirmation i (write_row CONFIRMATION_KIND j (EConfirmation c) s) = (if i = j then Some c else getConfirmation i s)"
  "getConfirmation i (write_row DECISION_KIND j e s) = getConfirmation i s" "getConfirmation i (write_row SIGNAL_KIND j e s) = getConfirmation i s"
  "getConfirmation i (write_row GRANT_KIND j e s) = getConfirmation i s" "getConfirmation i (write_row RATIFICATION_KIND j e s) = getConfirmation i s"
  "getGrant i (write_row GRANT_KIND j (EGrant h) s) = (if i = j then Some h else getGrant i s)"
  "getGrant i (write_row DECISION_KIND j e s) = getGrant i s" "getGrant i (write_row SIGNAL_KIND j e s) = getGrant i s"
  "getGrant i (write_row CONFIRMATION_KIND j e s) = getGrant i s" "getGrant i (write_row RATIFICATION_KIND j e s) = getGrant i s"
  "getRatification i (write_row RATIFICATION_KIND j (ERatification r) s) = (if i = j then Some r else getRatification i s)"
  "getRatification i (write_row DECISION_KIND j e s) = getRatification i s" "getRatification i (write_row SIGNAL_KIND j e s) = getRatification i s"
  "getRatification i (write_row CONFIRMATION_KIND j e s) = getRatification i s" "getRatification i (write_row GRANT_KIND j e s) = getRatification i s"
  by (simp_all add: rail_reads dec.row_of_write_other sig.row_of_write_other cnf.row_of_write_other grt.row_of_write_other
      rat.row_of_write_other)

lemma side_reads:
  assumes "side_step s t"
  shows "getDecision i t = getDecision i s" "getSignal i t = getSignal i s" "getConfirmation i t = getConfirmation i s"
    "getGrant i t = getGrant i s" "getRatification i t = getRatification i s"
  using assms
  by (cases rule: side_step.cases; simp add: rail_reads off_rail_ne dec.row_of_write_other sig.row_of_write_other
      cnf.row_of_write_other grt.row_of_write_other rat.row_of_write_other dec.row_of_delete_other sig.row_of_delete_other
      cnf.row_of_delete_other grt.row_of_delete_other rat.row_of_delete_other)+

definition same_binding :: "director_confirmation \<Rightarrow> director_confirmation \<Rightarrow> bool" where
  "same_binding c c' \<longleftrightarrow> cf_decisionId c' = cf_decisionId c \<and> cf_promptHash c' = cf_promptHash c \<and>
     cf_proposedResolutionHash c' = cf_proposedResolutionHash c \<and> cf_executionPlanHash c' = cf_executionPlanHash c \<and>
     cf_expiresAt c' = cf_expiresAt c \<and>
     (cf_answeredBySignalId c \<noteq> None \<longrightarrow> cf_answeredBySignalId c' = cf_answeredBySignalId c)"

definition same_grant :: "class_grant \<Rightarrow> class_grant \<Rightarrow> bool" where
  "same_grant g g' \<longleftrightarrow> (\<exists>st by now. g' = g\<lparr>cg_state := st, cg_supersededBy := by, cg_updatedAt := now\<rparr>)"

lemma same_grant_refl [simp]: "same_grant g g"
  unfolding same_grant_def by (cases g) auto

lemma same_binding_refl [simp]: "same_binding c c" by (simp add: same_binding_def)

lemma answer_binding: "answer_row now sid c = Inr c' \<Longrightarrow> same_binding c c'"
  and consume_binding: "consume_row now ex agent c = Inr c' \<Longrightarrow> same_binding c c'"
  and state_grant: "grant_row now to succ g = Inr g' \<Longrightarrow> same_grant g g'"
  by (auto simp: answer_row_def consume_row_def grant_row_def res_bind_Inr_iff same_binding_def same_grant_def split: if_splits)

lemma step_decision:
  "rail_step sha s t \<Longrightarrow> getDecision i s = Some d \<Longrightarrow>
    \<exists>d'. getDecision i t = Some d' \<and> (d' = d \<or> decision_change sha s d d')"
  by (cases rule: rail_step.cases) (auto simp: side_reads)

lemma step_signal: "rail_step sha s t \<Longrightarrow> getSignal i s = Some g \<Longrightarrow> getSignal i t = Some g"
  by (cases rule: rail_step.cases) (auto simp: side_reads)

lemma step_confirmation:
  "rail_step sha s t \<Longrightarrow> getConfirmation i s = Some c \<Longrightarrow> \<exists>c'. getConfirmation i t = Some c' \<and> same_binding c c'"
  by (cases rule: rail_step.cases) (auto simp: side_reads answer_binding consume_binding)

lemma step_grant:
  "rail_step sha s t \<Longrightarrow> getGrant i s = Some g \<Longrightarrow> \<exists>g'. getGrant i t = Some g' \<and> same_grant g g'"
  by (cases rule: rail_step.cases) (auto simp: side_reads state_grant)

lemma step_ratification: "rail_step sha s t \<Longrightarrow> getRatification i s = Some r \<Longrightarrow> getRatification i t = Some r"
  by (cases rule: rail_step.cases) (auto simp: side_reads)

section \<open>What backs a resolution\<close>

definition backed :: "sha256 \<Rightarrow> hub_store \<Rightarrow> decision \<Rightarrow> decision_resolution \<Rightarrow> bool" where
  "backed sha s d r \<longleftrightarrow>
     (case dr_authorityMode r of
        DirectorDirect \<Rightarrow>
          (\<exists>i c g. dr_authorityRef r = Some i \<and> getConfirmation i s = Some c \<and> cf_decisionId c = dc_id d \<and>
             cf_promptHash c = canonicalPromptHash sha d \<and>
             cf_proposedResolutionHash c = hashProposedResolution sha (dr_answer r) \<and>
             cf_executionPlanHash c = hashExecutionPlan sha (dc_executionPlan d) \<and> dr_resolvedAt r \<le> cf_expiresAt c \<and>
             cf_answeredBySignalId c = Some (sg_id g) \<and> getSignal (sg_id g) s = Some g \<and>
             da_role (sg_capturedBy g) = ''director'')
      | DirectorViaProxy \<Rightarrow>
          (\<exists>g. dr_authorityRef r = Some (sg_id g) \<and> getSignal (sg_id g) s = Some g \<and>
             da_role (sg_capturedBy g) = ''director'' \<and> \<not> planRequiresConfirmation (dc_executionPlan d))
      | ClassGrant \<Rightarrow>
          (\<exists>g. dr_authorityRef r = Some (authority_name_of g) \<and> getGrant (cg_id g) s = Some g \<and>
             grant_citation d = Some (cg_id g) \<and> dc_class d = Some (cg_class g) \<and> dr_resolvedAt r \<le> cg_representationDue g \<and>
             (\<forall>a \<in> set (dc_executionPlan d). plan_verb_name (pa_action a) \<in> set (cg_allowedActions g)))
      | _ \<Rightarrow> False)"

lemma backed_later:
  assumes "backed sha s d r" "rail_step sha s t"
    and "dc_id d' = dc_id d" "canonicalPromptHash sha d' = canonicalPromptHash sha d" "dc_executionPlan d' = dc_executionPlan d"
      "grant_citation d' = grant_citation d" "dc_class d' = dc_class d"
  shows "backed sha t d' r"
proof (cases "dr_authorityMode r")
  case DirectorDirect
  with assms(1) obtain i c g where b: "dr_authorityRef r = Some i" "getConfirmation i s = Some c" "cf_decisionId c = dc_id d"
    "cf_promptHash c = canonicalPromptHash sha d" "cf_proposedResolutionHash c = hashProposedResolution sha (dr_answer r)"
    "cf_executionPlanHash c = hashExecutionPlan sha (dc_executionPlan d)" "dr_resolvedAt r \<le> cf_expiresAt c"
    "cf_answeredBySignalId c = Some (sg_id g)" "getSignal (sg_id g) s = Some g" "da_role (sg_capturedBy g) = ''director''"
    by (auto simp: backed_def)
  obtain c' where c': "getConfirmation i t = Some c'" "same_binding c c'" using step_confirmation [OF assms(2) b(2)] by blast
  have "getSignal (sg_id g) t = Some g" by (rule step_signal [OF assms(2) b(9)])
  with b c' assms(3-5) DirectorDirect show ?thesis by (auto simp: backed_def same_binding_def)
next
  case DirectorViaProxy
  with assms step_signal [OF assms(2)] show ?thesis by (auto simp: backed_def)
next
  case ClassGrant
  with assms(1) obtain g where g: "dr_authorityRef r = Some (authority_name_of g)" "getGrant (cg_id g) s = Some g"
    "grant_citation d = Some (cg_id g)" "dc_class d = Some (cg_class g)" "dr_resolvedAt r \<le> cg_representationDue g"
    "\<forall>a \<in> set (dc_executionPlan d). plan_verb_name (pa_action a) \<in> set (cg_allowedActions g)"
    by (auto simp: backed_def)
  obtain g' where g': "getGrant (cg_id g) t = Some g'" "same_grant g g'" using step_grant [OF assms(2) g(2)] by blast
  have "cg_id g' = cg_id g \<and> authority_name_of g' = authority_name_of g \<and> cg_class g' = cg_class g \<and>
      cg_representationDue g' = cg_representationDue g \<and> cg_allowedActions g' = cg_allowedActions g"
    using g'(2) by (auto simp: same_grant_def authority_name_of_def)
  with g g'(1) assms(5-7) ClassGrant show ?thesis by (auto simp: backed_def intro!: exI [of _ g'])
qed (use assms(1) in \<open>simp_all add: backed_def\<close>)

lemma check_actions_Inr: "check_actions g as = Inr u \<longleftrightarrow>
    (\<forall>a \<in> set as. plan_verb_name (pa_action a) \<in> set (cg_allowedActions g) \<and>
      (cg_reversibleOnly g \<longrightarrow> plan_verb_name (pa_action a) \<in> set GRANT_REVERSIBLE_ACTIONS))"
  by (induction as) auto

lemma evaluateGrant_Inr: "evaluateGrant g d now = Inr u \<Longrightarrow>
    cg_state g = GrActive \<and> now \<le> cg_representationDue g \<and> dc_class d = Some (cg_class g) \<and>
    (\<forall>a \<in> set (dc_executionPlan d). plan_verb_name (pa_action a) \<in> set (cg_allowedActions g))"
  by (auto simp: evaluateGrant_def check_actions_Inr split: if_splits)

lemma gate_backed:
  assumes gate: "DirectorProofGate sha now d a answer claimed s = Inr (mode, ref)" and ok: "rail_ok s"
    and directors: "\<And>i g. getSignal i s = Some g \<Longrightarrow> da_role (sg_capturedBy g) = ''director''"
  shows "backed sha s d \<lparr>dr_authorityMode = mode, dr_authorityRef = ref, dr_executor = a, dr_answer = answer,
    dr_rationale = rationale, dr_resolvedAt = now\<rparr>"
proof -
  obtain q where q: "claimed = Some q" using gate by (cases claimed) (auto simp: DirectorProofGate_def)
  have sig_id: "getSignal i s = Some g \<Longrightarrow> sg_id g = i" for i g using rail_row_ids(4) [OF ok] by blast
  consider (c) "by_confirmation sha now q d answer s = Inr (mode, ref)" | (s) "by_signal q d s = Inr (mode, ref)"
    | (g) "by_grant now q d s = Inr (mode, ref)"
    using gate q by (auto simp: DirectorProofGate_def split: if_splits)
  then show ?thesis
  proof cases
    case c
    then obtain cc sid h where c: "getConfirmation q s = Some cc" "cf_answeredBySignalId cc = Some sid" "getSignal sid s = Some h"
      and consumable: "assertConsumable now cc (expectation sha d answer) = Inr ()" and to: "mode = DirectorDirect" "ref = Some q"
      by (auto simp: by_confirmation_def res_bind_Inr_iff split: option.splits if_splits)
    have "sg_id h = sid" "da_role (sg_capturedBy h) = ''director''" using sig_id directors c(3) by blast+
    moreover have "cf_decisionId cc = dc_id d" "cf_promptHash cc = canonicalPromptHash sha d"
      "cf_proposedResolutionHash cc = hashProposedResolution sha answer"
      "cf_executionPlanHash cc = hashExecutionPlan sha (dc_executionPlan d)" "now \<le> cf_expiresAt cc"
      using consumable by (auto simp: assertConsumable_def expectation_def split: if_splits)
    ultimately show ?thesis using c to by (auto simp: backed_def intro!: exI [of _ h])
  next
    case s
    then obtain g where "getSignal q s = Some g" "\<not> planRequiresConfirmation (dc_executionPlan d)" "mode = DirectorViaProxy" "ref = Some q"
      by (auto simp: by_signal_def split: if_splits)
    moreover from this(1) have "sg_id g = q" "da_role (sg_capturedBy g) = ''director''" using sig_id directors by blast+
    ultimately show ?thesis by (auto simp: backed_def intro!: exI [of _ g])
  next
    case g
    then obtain g where "getGrant q s = Some g" "grant_citation d = Some q" "evaluateGrant g d now = Inr ()" "mode = ClassGrant"
      "ref = Some (authority_name_of g)"
      by (auto simp: by_grant_def res_bind_Inr_iff split: if_splits option.splits)
    moreover from this(1) have "cg_id g = q" using rail_row_ids(3) [OF ok] by blast
    ultimately show ?thesis using evaluateGrant_Inr [of g d now] by (auto simp: backed_def)
  qed
qed

section \<open>The invariant of the rail\<close>

lemma backed_cong:
  "backed sha s d r \<Longrightarrow> dc_id d' = dc_id d \<Longrightarrow> canonicalPromptHash sha d' = canonicalPromptHash sha d \<Longrightarrow>
    dc_executionPlan d' = dc_executionPlan d \<Longrightarrow> grant_citation d' = grant_citation d \<Longrightarrow> dc_class d' = dc_class d \<Longrightarrow>
    backed sha s d' r"
  unfolding backed_def by (cases "dr_authorityMode r"; simp)

definition decision_sound :: "decision \<Rightarrow> bool" where
  "decision_sound d \<longleftrightarrow> (dc_resolution d \<noteq> None \<longleftrightarrow> dc_status d \<in> {DcResolved, DcExecuted}) \<and>
     (dc_status d \<in> {DcRouted, DcResolved, DcExecuted} \<longrightarrow> dc_routedTo d \<noteq> None) \<and>
     (dc_status d \<in> {DcCurated, DcRouted, DcResolved, DcExecuted, DcMerged, DcDisposed} \<longrightarrow> dc_curatedBy d \<noteq> None) \<and>
     (dc_status d = DcMerged \<longleftrightarrow> dc_mergedInto d \<noteq> None) \<and> (dc_status d = DcDisposed \<longleftrightarrow> dc_disposedReason d \<noteq> None)"

lemma born_sound: "decision_born d \<Longrightarrow> decision_sound d \<and> dc_resolution d = None"
  by (auto simp: decision_born_def decision_sound_def raised_def)

lemma change_sound: "decision_change sha s d d' \<Longrightarrow> decision_sound d \<Longrightarrow> decision_sound d'"
  by (elim decision_changeE; cases "dc_status d"; clarsimp simp: decision_sound_def decision_rows res_bind_Inr_iff split: if_splits)

definition same_subject :: "decision \<Rightarrow> decision \<Rightarrow> bool" where
  "same_subject d d' \<longleftrightarrow> dc_id d' = dc_id d \<and> dc_title d' = dc_title d \<and> dc_context d' = dc_context d \<and>
     dc_options d' = dc_options d \<and> dc_class d' = dc_class d \<and> dc_routedTo d' = dc_routedTo d \<and>
     dc_executionPlan d' = dc_executionPlan d"

lemma subject_backed: "backed sha s d r \<Longrightarrow> same_subject d d' \<Longrightarrow> backed sha s d' r"
  by (erule backed_cong) (simp_all add: same_subject_def canonicalPromptHash_def grant_citation_def)

lemma resolved_kept:
  "decision_change sha s d d' \<Longrightarrow> decision_sound d \<Longrightarrow> dc_resolution d = Some r \<Longrightarrow>
    same_subject d d' \<and> dc_resolution d' = Some r"
  by (elim decision_changeE; cases "dc_status d";
    clarsimp simp: decision_sound_def decision_rows res_bind_Inr_iff same_subject_def split: if_splits)

lemma resolved_now:
  "decision_change sha s d d' \<Longrightarrow> dc_resolution d = None \<Longrightarrow> dc_resolution d' = Some r \<Longrightarrow>
    same_subject d d' \<and> (\<exists>now a answer claimed mode ref rationale.
      DirectorProofGate sha now d a answer claimed s = Inr (mode, ref) \<and>
      r = \<lparr>dr_authorityMode = mode, dr_authorityRef = ref, dr_executor = a, dr_answer = answer,
        dr_rationale = rationale, dr_resolvedAt = now\<rparr>)"
  by (elim decision_changeE; clarsimp simp: decision_rows res_bind_Inr_iff same_subject_def split: if_splits; blast)

definition rail_inv :: "sha256 \<Rightarrow> hub_store \<Rightarrow> bool" where
  "rail_inv sha s \<longleftrightarrow> rail_ok s \<and>
     (\<forall>i d. getDecision i s = Some d \<longrightarrow> decision_sound d \<and> (\<forall>r. dc_resolution d = Some r \<longrightarrow> backed sha s d r)) \<and>
     (\<forall>i g. getSignal i s = Some g \<longrightarrow> da_role (sg_capturedBy g) = ''director'') \<and>
     (\<forall>i g. getGrant i s = Some g \<longrightarrow> map_option gr_grantId (getRatification (cg_ratificationRef g) s) = Some (cg_id g) \<and>
       (\<exists>d. getDecision (cg_ratificationRef g) s = Some d \<and> ratified_by sha g d))"

lemma change_backed:
  assumes inv: "rail_inv sha s" and d: "getDecision i s = Some d" and change: "decision_change sha s d d'"
    and r: "dc_resolution d' = Some r"
  shows "backed sha s d' r"
proof (cases "dc_resolution d")
  case None
  from resolved_now [OF change None r] obtain now a answer claimed mode ref rationale where
    subject: "same_subject d d'" and gate: "DirectorProofGate sha now d a answer claimed s = Inr (mode, ref)" and
    eq: "r = \<lparr>dr_authorityMode = mode, dr_authorityRef = ref, dr_executor = a, dr_answer = answer,
      dr_rationale = rationale, dr_resolvedAt = now\<rparr>" by blast
  have "backed sha s d r" unfolding eq by (rule gate_backed [OF gate]) (use inv in \<open>auto simp: rail_inv_def\<close>)
  then show ?thesis by (rule subject_backed [OF _ subject])
next
  case (Some r')
  with inv d have "decision_sound d" "backed sha s d r'" by (auto simp: rail_inv_def)
  with resolved_kept [OF change _ Some] r subject_backed show ?thesis by fastforce
qed

text \<open>A decision that ratifies a grant goes on ratifying it.\<close>

lemma ratified_later:
  assumes "ratified_by sha g d" "decision_sound d" "decision_change sha s d d'" "same_grant g g'"
  shows "ratified_by sha g' d'"
proof -
  from assms(1) obtain r where r: "dc_resolution d = Some r" by (auto simp: ratified_by_def)
  have kept: "same_subject d d'" "dc_resolution d' = Some r" using resolved_kept [OF assms(3,2) r] by blast+
  have "dc_status d' = DcResolved \<or> dc_status d' = DcExecuted"
    using change_sound [OF assms(3,2)] kept(2) by (auto simp: decision_sound_def)
  with kept r assms(1) have "ratified_by sha g d'"
    by (simp add: ratified_by_def same_subject_def binds_spec_def director_grade_def)
  with assms(4) show ?thesis by (auto simp: ratified_by_def same_grant_def)
qed

lemma ratified_same_grant: "ratified_by sha g d \<Longrightarrow> same_grant g g' \<Longrightarrow> ratified_by sha g' d"
  by (auto simp: ratified_by_def same_grant_def)

lemma same_grant_ratification: "same_grant g g' \<Longrightarrow> cg_ratificationRef g' = cg_ratificationRef g \<and> cg_id g' = cg_id g"
  by (auto simp: same_grant_def)

section \<open>The invariant holds in every run\<close>

lemma rail_inv_empty: "rail_inv sha empty_substrate"
  using rail_ok_empty by (simp add: rail_inv_def rail_reads row_of_def find_row_def get_op_def getKindStore_def empty_substrate_def)

lemma step_decisions:
  assumes inv: "rail_inv sha s" and step: "rail_step sha s t" and d: "getDecision i t = Some d"
  shows "decision_sound d \<and> (\<forall>r. dc_resolution d = Some r \<longrightarrow> backed sha t d r)"
proof -
  consider "getDecision i s = Some d" | "decision_born d"
    | d0 where "getDecision i s = Some d0" "decision_change sha s d0 d"
    using step d by (cases rule: rail_step.cases) (auto simp: side_reads split: if_splits)
  then show ?thesis
  proof cases
    case 1
    with inv have "decision_sound d" "\<forall>r. dc_resolution d = Some r \<longrightarrow> backed sha s d r" by (auto simp: rail_inv_def)
    with backed_later [OF _ step] show ?thesis by blast
  next
    case 3
    then have "decision_sound d" using inv change_sound by (auto simp: rail_inv_def)
    moreover have "\<forall>r. dc_resolution d = Some r \<longrightarrow> backed sha s d r" using change_backed [OF inv 3] by blast
    ultimately show ?thesis using backed_later [OF _ step] by blast
  qed (simp add: born_sound)
qed

lemma step_grants:
  assumes inv: "rail_inv sha s" and step: "rail_step sha s t" and g: "getGrant i t = Some g"
  shows "map_option gr_grantId (getRatification (cg_ratificationRef g) t) = Some (cg_id g) \<and>
    (\<exists>d. getDecision (cg_ratificationRef g) t = Some d \<and> ratified_by sha g d)"
proof -
  have "map_option gr_grantId (getRatification (cg_ratificationRef g) s) = Some (cg_id g) \<and>
    (\<exists>d. getDecision (cg_ratificationRef g) s = Some d \<and> ratified_by sha g d)"
  proof (cases "getGrant i s = Some g")
    case False
    consider d where "map_option gr_grantId (getRatification (cg_ratificationRef g) s) = Some (cg_id g)"
        "getDecision (cg_ratificationRef g) s = Some d" "ratified_by sha g d"
      | g0 where "getGrant i s = Some g0" "same_grant g0 g"
      using step g False by (cases rule: rail_step.cases) (auto simp: side_reads state_grant split: if_splits)
    then show ?thesis
    proof cases
      case 2
      with inv same_grant_ratification ratified_same_grant show ?thesis by (fastforce simp: rail_inv_def)
    qed blast
  qed (use inv in \<open>auto simp: rail_inv_def\<close>)
  then obtain d r where d: "getDecision (cg_ratificationRef g) s = Some d" "ratified_by sha g d" and
    r: "getRatification (cg_ratificationRef g) s = Some r" "gr_grantId r = cg_id g" by auto
  obtain d' where d': "getDecision (cg_ratificationRef g) t = Some d'" "d' = d \<or> decision_change sha s d d'"
    using step_decision [OF step d(1)] by blast
  have "decision_sound d" using inv d(1) by (auto simp: rail_inv_def)
  with d' d(2) ratified_later [OF d(2)] have "ratified_by sha g d'" by auto
  with d'(1) step_ratification [OF step r(1)] r(2) show ?thesis by auto
qed

lemma step_signals: "rail_inv sha s \<Longrightarrow> rail_step sha s t \<Longrightarrow> getSignal i t = Some g \<Longrightarrow> da_role (sg_capturedBy g) = ''director''"
  by (cases rule: rail_step.cases) (auto simp: side_reads rail_inv_def split: if_splits)

lemma rail_inv_ok: "rail_inv sha s \<Longrightarrow> rail_ok s" by (simp add: rail_inv_def)

lemma rail_inv_step:
  assumes "rail_step sha s t" "rail_inv sha s"
  shows "rail_inv sha t"
proof -
  note facts = step_decisions [OF assms(2,1)] step_grants [OF assms(2,1)] step_signals [OF assms(2,1)]
  show ?thesis unfolding rail_inv_def
    by (intro conjI allI impI rail_step_ok [OF assms(1) rail_inv_ok [OF assms(2)]]) (simp_all add: facts [rule_format])
qed

lemma rail_inv_steps: "rail_steps sha s t \<Longrightarrow> rail_inv sha s \<Longrightarrow> rail_inv sha t"
  by (induction rule: rtranclp_induct) (auto intro: rail_inv_step)

lemma rail_run_inv: "tame x \<Longrightarrow> rail_inv sha (rail_run sha x evs)"
  by (rule rail_inv_steps [OF rail_run_steps rail_inv_empty])

section \<open>What has ended stays\<close>

lemma terminal_no_change: "decision_change sha s d d' \<Longrightarrow> dc_status d \<notin> set DECISION_TERMINALS"
  by (elim decision_changeE; cases "dc_status d"; clarsimp simp: DECISION_TERMINALS_def decision_rows res_bind_Inr_iff split: if_splits)

definition later_decision :: "decision \<Rightarrow> decision \<Rightarrow> bool" where
  "later_decision d d' \<longleftrightarrow> dc_id d' = dc_id d \<and> (dc_status d \<in> set DECISION_TERMINALS \<longrightarrow> d' = d) \<and>
     (\<forall>r. dc_resolution d = Some r \<longrightarrow> dc_resolution d' = Some r \<and> same_subject d d')"

lemma same_subject_trans: "same_subject d d' \<Longrightarrow> same_subject d' d'' \<Longrightarrow> same_subject d d''"
  by (simp add: same_subject_def)

lemma later_refl: "later_decision d d" by (simp add: later_decision_def same_subject_def)

lemma later_trans: "later_decision d d' \<Longrightarrow> later_decision d' d'' \<Longrightarrow> later_decision d d''"
  unfolding later_decision_def using same_subject_trans by metis

lemma change_later: "decision_change sha s d d' \<Longrightarrow> decision_sound d \<Longrightarrow> later_decision d d'"
  unfolding later_decision_def using terminal_no_change resolved_kept decision_change_id by metis

lemma steps_later:
  "rail_steps sha s t \<Longrightarrow> rail_inv sha s \<Longrightarrow> getDecision i s = Some d \<Longrightarrow>
    \<exists>d'. getDecision i t = Some d' \<and> later_decision d d'"
proof (induction rule: rtranclp_induct)
  case base
  then show ?case by (simp add: later_refl)
next
  case (step t u)
  then obtain d' where d': "getDecision i t = Some d'" "later_decision d d'" by blast
  obtain d'' where d'': "getDecision i u = Some d''" "d'' = d' \<or> decision_change sha t d' d''"
    using step_decision [OF step.hyps(2) d'(1)] by blast
  have "decision_sound d'" using rail_inv_steps [OF step.hyps(1) step.prems(1)] d'(1) by (auto simp: rail_inv_def)
  with d' d'' change_later later_refl later_trans show ?case by metis
qed

section \<open>Properties\<close>

text \<open>
  C14: a resolution is proved.  A decision is resolved exactly when its row carries a resolution, and every resolution of a row that any run of the rail
  ever stores rests on a proof object in the store that binds it: an unexpired confirmation of this decision with the hashes of this prompt,
  this answer and this plan that a signal captured from the Director answered, or such a signal for a plan of
  reversible actions, or a grant of the decision's class that the route cites and that allows every action of the plan.
\<close>
theorem authority_proved:
  assumes "tame x" "getDecision i (rail_run sha x evs) = Some d"
  shows "(dc_resolution d \<noteq> None \<longleftrightarrow> dc_status d = DcResolved \<or> dc_status d = DcExecuted) \<and>
    (\<forall>r. dc_resolution d = Some r \<longrightarrow> backed sha (rail_run sha x evs) d r)"
  using rail_run_inv [OF assms(1), of sha evs] assms(2) by (auto simp: rail_inv_def decision_sound_def)

text \<open>
  C23: a grant is ratified cargo.  A grant exists only as the Director ratified it: the decision it names is resolved by the Director, carries the hash of this very
  specification in its context and dates the representation, and no two grants come from one ratification.
\<close>
theorem grants_ratified:
  assumes "tame x" "getGrant i (rail_run sha x evs) = Some g"
  shows "(\<exists>d. getDecision (cg_ratificationRef g) (rail_run sha x evs) = Some d \<and> ratified_by sha g d) \<and>
    (\<forall>j h. getGrant j (rail_run sha x evs) = Some h \<and> cg_ratificationRef h = cg_ratificationRef g \<longrightarrow> j = i)"
proof -
  let ?s = "rail_run sha x evs"
  have inv: "rail_inv sha ?s" by (rule rail_run_inv [OF assms(1)])
  then have ids: "getGrant j ?s = Some h \<Longrightarrow> cg_id h = j" for j h using rail_row_ids(3) unfolding rail_inv_def by blast
  from inv have grants: "getGrant j ?s = Some h \<Longrightarrow>
      map_option gr_grantId (getRatification (cg_ratificationRef h) ?s) = Some (cg_id h) \<and>
      (\<exists>d. getDecision (cg_ratificationRef h) ?s = Some d \<and> ratified_by sha h d)" for j h
    unfolding rail_inv_def by blast
  from grants [OF assms(2)] ids [OF assms(2)] show ?thesis using grants ids by (metis option.inject)
qed

text \<open>
  C15: settled decisions stay.  What a run has settled stays settled, whatever requests follow: a decision that was executed, merged, disposed of or withdrawn is never
  written again, and a resolution is never replaced, nor the title, context, options, class, route or plan it was given for.
\<close>
theorem decision_final:
  assumes "tame x" "getDecision i (rail_run sha x evs) = Some d"
  shows "\<exists>d'. getDecision i (rail_run sha x (evs @ later)) = Some d' \<and> (dc_status d \<in> set DECISION_TERMINALS \<longrightarrow> d' = d) \<and>
    (\<forall>r. dc_resolution d = Some r \<longrightarrow> dc_resolution d' = Some r \<and> same_subject d d')"
  using steps_later [OF rail_run_later [OF assms(1)] rail_run_inv [OF assms(1)] assms(2)] unfolding later_decision_def by blast

end
