(* ===== verification/Authority_Outcomes.thy ===== *)
theory Authority_Outcomes
  imports Authority_Properties Recall_Outcomes
begin

text \<open>
  A run of the authority rail on which the properties are witnessed: a decision resolved by a confirmation, a decision
  that ratifies a grant specification resolved by a signal, and the grant.
\<close>

definition demo_targets :: execution_targets where
  "demo_targets = \<lparr>xt_proposalStatus = None, xt_approveViaPolicy = None, xt_constitution = None, xt_bindAxiomViaPolicy = None,
     xt_amendCharterViaPolicy = None\<rparr>"

definition demo_director :: decision_actor where
  "demo_director = \<lparr>da_agentId = ''dir'', da_role = ''director'', da_sessionId = None\<rparr>"

definition demo_architect :: decision_actor where
  "demo_architect = \<lparr>da_agentId = ''arch'', da_role = ''architect'', da_sessionId = None\<rparr>"

definition demo_route :: decision_route where
  "demo_route = \<lparr>rt_target = ToDirector, rt_t5RuleRef = None, rt_classGrantRef = None\<rparr>"

definition demo_signal :: "string option \<Rightarrow> signal_input" where
  "demo_signal c = \<lparr>si_channel = ''chat'', si_answer = ''yes'', si_capturedBySurface = ''ui'', si_confidence = Authenticated,
     si_replyable = True, si_rawIngressRef = None, si_confirmationId = c, si_capturedBy = demo_director\<rparr>"

definition demo_spec :: grant_spec where
  "demo_spec = \<lparr>gs_class = ''ops'', gs_allowedActions = [''unblock''], gs_reversibleOnly = True, gs_parentKinds = None,
     gs_excludedRefs = [], gs_excludedClasses = [], gs_representationDays = 7\<rparr>"

definition demo_rail :: "rail_event list" where
  "demo_rail = map (\<lambda>(t, q). RailRequest t q)
     [(100, RaiseDecision None None ''t'' ''c'' [] [] demo_architect),
      (110, CurateDecision ''decision-1'' demo_architect None (Some ''ops'') None),
      (120, RouteDecision demo_architect ''decision-1'' demo_route None),
      (130, MintConfirmation ''n'' demo_architect ''decision-1'' (ChosenOption ''a'')),
      (140, CaptureSignal (demo_signal (Some ''dconf-1'')) None),
      (150, ResolveAsDirector demo_architect ''decision-1'' (Some ''dconf-1'') (ChosenOption ''a'') None)]"

definition demo_ratified :: "rail_event list" where
  "demo_ratified = map (\<lambda>(t, q). RailRequest t q)
     [(100, RaiseDecision None None ''t'' (GRANT_SPEC_HASH_MARKER @ canonicalGrantSpecHash demo_sha demo_spec) [] [] demo_architect),
      (110, CurateDecision ''decision-1'' demo_architect None None None),
      (120, RouteDecision demo_architect ''decision-1'' demo_route None),
      (140, CaptureSignal (demo_signal None) None),
      (150, ResolveAsDirector demo_architect ''decision-1'' (Some ''dsig-1'') (ChosenOption ''a'') None),
      (160, MintGrant demo_spec ''decision-1'' None)]"

lemma demo_tame: "tame demo_targets" by (simp add: tame_def demo_targets_def)


abbreviation demo_end :: "rail_event list \<Rightarrow> hub_store" where
  "demo_end \<equiv> rail_run demo_sha demo_targets"

lemma demo_rail_resolved:
  "\<exists>d. getDecision ''decision-1'' (demo_end demo_rail) = Some d \<and> dc_status d = DcExecuted \<and>
     map_option dr_authorityMode (dc_resolution d) = Some DirectorDirect"
proof -
  have "map_option (\<lambda>d. (dc_status d, map_option dr_authorityMode (dc_resolution d))) (getDecision ''decision-1'' (demo_end demo_rail))
     = Some (DcExecuted, Some DirectorDirect)" by code_simp
  then show ?thesis by auto
qed

lemma demo_rail_granted: "\<exists>g. getGrant ''grant-1'' (demo_end demo_ratified) = Some g"
proof -
  have "getGrant ''grant-1'' (demo_end demo_ratified) \<noteq> None" by code_simp
  then show ?thesis by auto
qed

theorem authority_proved_witness:
  "\<exists>d r. getDecision ''decision-1'' (demo_end demo_rail) = Some d \<and> dc_resolution d = Some r \<and>
     backed demo_sha (demo_end demo_rail) d r"
proof -
  obtain d where d: "getDecision ''decision-1'' (demo_end demo_rail) = Some d" "dc_status d = DcExecuted"
    using demo_rail_resolved by blast
  from authority_proved [OF demo_tame d(1)] d show ?thesis by auto
qed

theorem grants_ratified_witness:
  "\<exists>g d. getGrant ''grant-1'' (demo_end demo_ratified) = Some g \<and>
     getDecision (cg_ratificationRef g) (demo_end demo_ratified) = Some d \<and> ratified_by demo_sha g d"
proof -
  obtain g where g: "getGrant ''grant-1'' (demo_end demo_ratified) = Some g" using demo_rail_granted by blast
  from grants_ratified [OF demo_tame g] g show ?thesis by blast
qed

theorem decision_final_witness:
  "\<exists>d. getDecision ''decision-1'' (demo_end demo_rail) = Some d \<and>
     getDecision ''decision-1'' (demo_end (demo_rail @ [RailRequest 200 (DisposeDecision ''decision-1'' demo_architect ''late'')])) = Some d"
proof -
  obtain d where d: "getDecision ''decision-1'' (demo_end demo_rail) = Some d" "dc_status d = DcExecuted"
    using demo_rail_resolved by blast
  from decision_final [OF demo_tame d(1)] d(2) have
    "getDecision ''decision-1'' (demo_end (demo_rail @ [RailRequest 200 (DisposeDecision ''decision-1'' demo_architect ''late'')])) = Some d"
    by (fastforce simp: DECISION_TERMINALS_def)
  with d(1) show ?thesis by blast
qed

section \<open>Resolving under interference\<close>

lemma change_past_routing:
  "decision_change sha s d d' \<Longrightarrow> dc_status d \<in> {DcRouted, DcResolved, DcExecuted, DcDisposed} \<Longrightarrow>
    dc_status d' \<in> {DcResolved, DcExecuted, DcDisposed}"
  by (elim decision_changeE; cases "dc_status d"; clarsimp simp: decision_rows res_bind_Inr_iff split: if_splits)

lemma routed_or_past:
  "rail_steps sha s t \<Longrightarrow> getDecision i s = Some d \<Longrightarrow> dc_status d = DcRouted \<Longrightarrow>
    \<exists>d'. getDecision i t = Some d' \<and> (d' = d \<or> dc_status d' \<in> {DcResolved, DcExecuted, DcDisposed})"
proof (induction rule: rtranclp_induct)
  case (step t u)
  then obtain d' where d': "getDecision i t = Some d'" "d' = d \<or> dc_status d' \<in> {DcResolved, DcExecuted, DcDisposed}" by blast
  obtain d'' where d'': "getDecision i u = Some d''" "d'' = d' \<or> decision_change sha t d' d''"
    using step_decision [OF step.hyps(2) d'(1)] by blast
  have "dc_status d' \<in> {DcRouted, DcResolved, DcExecuted, DcDisposed}" using d'(2) step.prems(2) by auto
  with d'(2) d'' change_past_routing show ?case by blast
qed auto

text \<open>What other clients of the rail may do at any moment: any steps of the rail.\<close>

definition rail_client :: "sha256 \<Rightarrow> (hub_store \<Rightarrow> hub_store) \<Rightarrow> bool" where
  "rail_client sha f \<longleftrightarrow> (\<forall>s. store_step\<^sup>*\<^sup>* s (f s)) \<and> (\<forall>s. rail_ok s \<longrightarrow> rail_steps sha s (f s))"

lemma clients_polite:
  assumes "\<forall>(b, w) \<in> set envs. rail_client sha b \<and> rail_client sha w"
  shows "other_clients envs" "dec.polite_in rail_ok (rail_step sha) envs"
  using assms rail_steps_ok unfolding rail_client_def other_clients_def dec.polite_in_def by fastforce+

text \<open>
  C24: a resolution is atomic.  Whatever the other clients of the rail do between the reading of the decision, the judgement of the
  gate and the attempts to write, a resolution that succeeds is one write to the very row the gate
  judged, at a moment when that row was still stored.
\<close>
theorem resolve_atomic:
  assumes "tame x" "s = rail_run sha x evs"
    and "rail_client sha meanwhile" "\<forall>(b, w) \<in> set envs. rail_client sha b \<and> rail_client sha w"
    and run: "resolveDecision_with meanwhile envs (DirectorProofGate sha now) now i a answer rationale claimed s = (Inr (Some d'), s')"
  shows "\<exists>moment d mode ref. rail_steps sha s moment \<and> getDecision i s = Some d \<and> getDecision i moment = Some d \<and>
    DirectorProofGate sha now d a answer claimed (meanwhile s) = Inr (mode, ref) \<and>
    resolve_row now mode ref a answer rationale d = Inr d' \<and> s' = write_row DECISION_KIND i (EDecision d') moment"
proof -
  have ok: "rail_ok s" unfolding assms(2) by (rule rail_run_ok [OF assms(1)])
  then have first: "rail_steps sha s (meanwhile s)" and ok': "rail_ok (meanwhile s)"
    using assms(3) rail_steps_ok unfolding rail_client_def by blast+
  from run obtain d mode ref where d: "getDecision i s = Some d" "dc_status d = DcRouted" and
    gate: "DirectorProofGate sha now d a answer claimed (meanwhile s) = Inr (mode, ref)" and
    upd: "decision_update_with envs i (resolve_row now mode ref a answer rationale) (meanwhile s) = (Inr (Some d'), s')"
    by (auto simp: resolveDecision_with_def Let_def edge_into split: option.splits sum.splits if_splits)
  let ?f = "resolve_row now mode ref a answer rationale"
  have id: "?f u = Inr u' \<Longrightarrow> dc_id u' = dc_id u" for u u' by (auto simp: resolve_row_def res_bind_Inr_iff)
  obtain e where fin: "cas_update DECISION_KIND EDecision as_decision envs i ?f (meanwhile s) = (CasDone e, s')" "as_decision e = Some d'"
    using upd by (auto simp: decision_update_with_def update_kind_with_def split: prod.splits cas_outcome.splits option.splits)
  have dec_ok: "rail_ok u \<Longrightarrow> kind_ok EDecision dc_id DECISION_KIND u" for u by (simp add: rail_ok_def)
  from dec.update_atomic_in [OF fin(1) ok' clients_polite [OF assms(4)] dec_ok id] obtain moment r r' where
    m: "rail_steps sha (meanwhile s) moment" "row_of as_decision DECISION_KIND i moment = Some r" "?f r = Inr r'" "e = EDecision r'"
      "s' = write_row DECISION_KIND i e moment" by blast
  have steps: "rail_steps sha s moment" using first m(1) by (rule rtranclp_trans)
  have "dc_status r = DcRouted" using m(3) by (auto simp: resolve_row_def res_bind_Inr_iff edge_into)
  moreover have "getDecision i moment = Some r" using m(2) by (simp add: getDecision_def)
  ultimately have "r = d" using routed_or_past [OF steps d] by auto
  with m fin(2) steps d(1) gate \<open>getDecision i moment = Some r\<close> show ?thesis by auto
qed

text \<open>Between the judgement and the write another writer files a bug.\<close>

definition demo_rail_rivals :: "hub_store attempt list" where
  "demo_rail_rivals = [(\<lambda>s. s, write_row ''Bug'' ''bug-1'' (EOther ''bug-1'')), (\<lambda>s. s, \<lambda>s. s)]"

lemma demo_clients: "rail_client sha (write_row ''Bug'' ''bug-1'' e)" "rail_client sha (\<lambda>s. s)"
proof -
  have "''Bug'' \<notin> set RAIL_KINDS" by (simp add: RAIL_KINDS_def rail_kind_defs)
  then have "rail_step sha s (write_row ''Bug'' ''bug-1'' e s)" for s by (blast intro: rl_side ss_write)
  then show "rail_client sha (write_row ''Bug'' ''bug-1'' e)" "rail_client sha (\<lambda>s. s)"
    by (auto simp: rail_client_def intro: st_write)
qed

theorem resolve_atomic_witness:
  "\<exists>d' s' moment. resolveDecision_with (write_row ''Bug'' ''bug-1'' (EOther ''bug-1'')) demo_rail_rivals
       (DirectorProofGate demo_sha 150) 150 ''decision-1'' demo_architect (ChosenOption ''a'') None (Some ''dconf-1'')
       (demo_end (butlast demo_rail)) = (Inr (Some d'), s') \<and>
     s' = write_row DECISION_KIND ''decision-1'' (EDecision d') moment"
proof -
  let ?s = "demo_end (butlast demo_rail)"
  let ?run = "resolveDecision_with (write_row ''Bug'' ''bug-1'' (EOther ''bug-1'')) demo_rail_rivals (DirectorProofGate demo_sha 150) 150
    ''decision-1'' demo_architect (ChosenOption ''a'') None (Some ''dconf-1'') ?s"
  have "case fst ?run of Inr (Some d') \<Rightarrow> True | _ \<Rightarrow> False" by code_simp
  then obtain d' s' where run: "?run = (Inr (Some d'), s')" by (cases ?run) (auto split: sum.splits option.splits)
  have rivals: "\<forall>(b, w) \<in> set demo_rail_rivals. rail_client demo_sha b \<and> rail_client demo_sha w"
    by (simp add: demo_rail_rivals_def demo_clients)
  from resolve_atomic [OF demo_tame refl demo_clients(1) rivals run] run show ?thesis by blast
qed

section \<open>Executing a plan of unblocks\<close>

definition unblockable :: "sha256 \<Rightarrow> pin \<Rightarrow> string \<Rightarrow> work_item \<Rightarrow> bool" where
  "unblockable sha p d w \<longleftrightarrow> blocks d w \<and> \<not> isFailedGateSealed w \<and> isCurrent sha w p"

definition freed :: "work_item \<Rightarrow> work_item \<Rightarrow> bool" where
  "freed w w' \<longleftrightarrow> wi_status w' = InProgress \<and> wi_blockedOn w' = None \<and> wi_lease w' = wi_lease w"

definition unblocks :: "string set \<Rightarrow> hub_store \<Rightarrow> hub_store \<Rightarrow> bool" where
  "unblocks T s s' \<longleftrightarrow>
     (\<forall>i. if i \<in> T then \<exists>w w'. getWorkItem i s = Some w \<and> getWorkItem i s' = Some w' \<and> freed w w'
       else getWorkItem i s' = getWorkItem i s)"

lemma unblocks_first:
  assumes "unblocks T t u" "\<forall>j. getWorkItem j t = (if j = i then Some w' else getWorkItem j s)" "getWorkItem i s = Some w" "freed w w'"
  shows "unblocks (insert i T) s u"
  unfolding unblocks_def
proof
  fix j
  show "if j \<in> insert i T then \<exists>v v'. getWorkItem j s = Some v \<and> getWorkItem j u = Some v' \<and> freed v v'
      else getWorkItem j u = getWorkItem j s"
    using assms(1) [unfolded unblocks_def, rule_format, of j] assms(2-4) by (auto simp: freed_def split: if_splits)
qed

lemma unblock_run:
  assumes "hub_ok s" "read_pin s = Inr p" "getWorkItem i s = Some w" "unblockable sha p d w"
  shows "\<exists>w' s'. systemUnblock sha now i d s = (Inr (Some w'), s') \<and> freed w w' \<and> hub_ok s' \<and> read_pin s' = Inr p \<and>
    (\<forall>j. getWorkItem j s' = (if j = i then Some w' else getWorkItem j s))"
proof -
  obtain rv where w: "work_at i s = Some (w, rv)" using assms(3) by (auto simp: getWorkItem_def get_work_at)
  have f: "verb_transform sha now (systemUnblock_row now d)" by (rule transform_steps(7))
  let ?w = "touched now (accrued w now (w\<lparr>wi_status := InProgress, wi_blockedOn := None\<rparr>))"
  have row: "systemUnblock_row now d s w rv = Inr ?w"
    using assms(4) by (auto simp: systemUnblock_row_Inr unblockable_def blocks_def split: option.splits)
  have current: "is_ok (assertCurrent sha w p)" using assms(4) by (simp add: unblockable_def isCurrent_def)
  have run: "systemUnblock sha now i d s = (Inr (Some (cloneWorkItem ?w)), write_row WORK_KIND i (EWork ?w) s)"
    using row current w by (auto simp: systemUnblock_def row_verb_def fence_try_eq [OF assms(1), of "\<lambda>_. systemUnblock_row now d"]
      verb_transform_keeps_id [OF f] assms(2) tryCasUpdate_eq [OF assms(1) verb_transform_keeps_id [OF f]] is_ok_iff)
  have "hub_steps sha now s (write_row WORK_KIND i (EWork ?w) s)"
    using row_verb_steps [OF f assms(1)] run unfolding systemUnblock_def by blast
  then have "hub_ok (write_row WORK_KIND i (EWork ?w) s)" by (rule hub_steps_ok [OF _ assms(1)])
  with run assms(2) show ?thesis by (simp add: freed_def)
qed

lemma unblock_refused:
  assumes "hub_ok s" "getWorkItem i s = Some w" "wi_status w = InProgress"
  shows "\<exists>e. systemUnblock sha now i d s = (Inl e, s)"
proof -
  obtain rv where w: "work_at i s = Some (w, rv)" using assms(2) by (auto simp: getWorkItem_def get_work_at)
  show ?thesis unfolding systemUnblock_def
    by (rule row_verb_blocked [OF assms(1) transform_steps(7) w]) (simp add: systemUnblock_row_Inr assms(3))
qed

lemma unblock_steps:
  assumes "hub_ok s" "read_pin s = Inr p" "\<forall>a \<in> set as. pa_action a = PlanUnblock"
    and "\<forall>a \<in> set as. \<exists>w. getWorkItem (pa_targetRef a) s = Some w \<and> (unblockable sha p (dc_id d) w \<or> freed w w)"
    and "execute_steps sha now x d as s = (rs, s')"
  shows "(list_all sr_ok rs \<longleftrightarrow> distinct (map pa_targetRef as) \<and>
      (\<forall>a \<in> set as. \<exists>w. getWorkItem (pa_targetRef a) s = Some w \<and> unblockable sha p (dc_id d) w)) \<and>
    unblocks (pa_targetRef ` set as) s s'"
  using assms
proof (induction as arbitrary: s rs)
  case (Cons a as)
  let ?i = "pa_targetRef a" and ?able = "unblockable sha p (dc_id d)"
  obtain rs' where tail: "execute_steps sha now x d as (snd (execute_step sha now x d a s)) = (rs', s')"
    and rs: "rs = \<lparr>sr_action = PlanUnblock, sr_targetRef = ?i, sr_ok = fst (execute_step sha now x d a s)\<rparr> # rs'"
    using Cons.prems(3,5) by (auto simp: Let_def split: prod.splits)
  obtain w where w: "getWorkItem ?i s = Some w" "?able w \<or> freed w w" using Cons.prems(4) by auto
  show ?case
  proof (cases "?able w")
    case True
    then obtain w' s1 where step: "systemUnblock sha now ?i (dc_id d) s = (Inr (Some w'), s1)" and w': "freed w w'"
      and s1: "hub_ok s1" "read_pin s1 = Inr p" "\<forall>j. getWorkItem j s1 = (if j = ?i then Some w' else getWorkItem j s)"
      using unblock_run [OF Cons.prems(1,2) w(1)] by blast
    have ex: "execute_step sha now x d a s = (True, s1)" using step Cons.prems(3) by (simp add: execute_step_def)
    have w'': "freed w' w'" "\<not> ?able w'" using w' by (simp_all add: freed_def unblockable_def blocks_def)
    have "\<forall>b \<in> set as. \<exists>v. getWorkItem (pa_targetRef b) s1 = Some v \<and> (?able v \<or> freed v v)"
      using Cons.prems(4) s1(3) w''(1) by simp
    note rest = Cons.IH [OF s1(1,2) _ this]
    have tl: "execute_steps sha now x d as s1 = (rs', s')" using tail ex by simp
    have good: "list_all sr_ok rs' \<longleftrightarrow> distinct (map pa_targetRef as) \<and> (\<forall>b \<in> set as. \<exists>v. getWorkItem (pa_targetRef b) s1 = Some v \<and> ?able v)"
      by (rule conjunct1 [OF rest [OF _ tl]]) (use Cons.prems(3) in simp)
    have rows: "unblocks (pa_targetRef ` set as) s1 s'" by (rule conjunct2 [OF rest [OF _ tl]]) (use Cons.prems(3) in simp)
    have "(\<forall>b \<in> set as. \<exists>v. getWorkItem (pa_targetRef b) s1 = Some v \<and> ?able v) \<longleftrightarrow>
        ?i \<notin> pa_targetRef ` set as \<and> (\<forall>b \<in> set as. \<exists>v. getWorkItem (pa_targetRef b) s = Some v \<and> ?able v)"
      using s1(3) w''(2) by (fastforce simp: image_iff split: if_splits)
    with good have "list_all sr_ok rs \<longleftrightarrow> distinct (map pa_targetRef (a # as)) \<and>
        (\<forall>b \<in> set (a # as). \<exists>v. getWorkItem (pa_targetRef b) s = Some v \<and> ?able v)"
      using w(1) True ex by (auto simp: rs)
    with unblocks_first [OF rows s1(3) w(1) w'] show ?thesis by simp
  next
    case False
    with w(2) have w': "freed w w" by blast
    then have ex: "execute_step sha now x d a s = (False, s)"
      using unblock_refused [OF Cons.prems(1) w(1), of sha now "dc_id d"] Cons.prems(3) by (auto simp: execute_step_def freed_def)
    have tl: "execute_steps sha now x d as s = (rs', s')" using tail ex by simp
    have "unblocks (pa_targetRef ` set as) s s'"
      by (rule conjunct2 [OF Cons.IH [OF Cons.prems(1,2) _ _ tl]]) (use Cons.prems(3,4) in simp_all)
    from unblocks_first [OF this _ w(1) w'] w(1) have "unblocks (pa_targetRef ` set (a # as)) s s'" by simp
    with w(1) False ex show ?thesis by (simp add: rs)
  qed
qed (simp add: unblocks_def)

lemma validated_blocks:
  assumes "check_steps x d as s = Inr ()" "\<forall>a \<in> set as. pa_action a = PlanUnblock"
  shows "\<forall>a \<in> set as. \<exists>w. getWorkItem (pa_targetRef a) s = Some w \<and> blocks (dc_id d) w"
  using assms
  by (induction as) (auto simp: check_step_def check_unblock_def V1_ACTION_REGISTRY_def split: option.splits if_splits)

text \<open>
  a plan of unblocks does what it says.  A validated plan of unblocks over items current under the pin: its execution frees every target, keeps the lease of each, touches no other item, and
  reports success exactly when no item is named twice, which the validation does not ask.
\<close>
theorem plan_unblocks:
  assumes "hub_run sha t s" "read_pin s = Inr p" "validatePlan x d s = Inr ()"
    and "\<forall>a \<in> set (dc_executionPlan d). pa_action a = PlanUnblock \<and>
      (\<forall>w. getWorkItem (pa_targetRef a) s = Some w \<longrightarrow> isCurrent sha w p)"
    and "executePlan sha now x d s = ((good, rs), s')"
  shows "(good \<longleftrightarrow> distinct (map pa_targetRef (dc_executionPlan d))) \<and>
    (\<forall>a \<in> set (dc_executionPlan d). \<exists>w w'. getWorkItem (pa_targetRef a) s = Some w \<and> getWorkItem (pa_targetRef a) s' = Some w' \<and>
      wi_status w = Blocked \<and> wi_status w' = InProgress \<and> wi_blockedOn w' = None \<and> wi_lease w' = wi_lease w) \<and>
    (\<forall>i. i \<notin> pa_targetRef ` set (dc_executionPlan d) \<longrightarrow> getWorkItem i s' = getWorkItem i s)"
proof -
  let ?as = "dc_executionPlan d"
  have run: "execute_steps sha now x d ?as s = (rs, s')" "good = list_all sr_ok rs"
    using assms(5) by (auto simp: executePlan_def split: prod.splits)
  have unsealed: "\<not> isFailedGateSealed w" if "getWorkItem i s = Some w" "blocks (dc_id d) w" for i w
    using run_invariant [OF seal_inv.row_invariant_axioms assms(1) that(1)] that(2) by (auto simp: seal_ok_def blocks_def)
  have able: "\<forall>a \<in> set ?as. \<exists>w. getWorkItem (pa_targetRef a) s = Some w \<and> unblockable sha p (dc_id d) w"
    using validated_blocks [of x d ?as s] assms(3,4) unsealed unfolding validatePlan_def unblockable_def by blast
  then have able': "\<forall>a \<in> set ?as. \<exists>w. getWorkItem (pa_targetRef a) s = Some w \<and> (unblockable sha p (dc_id d) w \<or> freed w w)"
    by blast
  have "\<forall>a \<in> set ?as. pa_action a = PlanUnblock" using assms(4) by blast
  from unblock_steps [OF run_ok [OF assms(1)] assms(2) this able' run(1)]
  have good: "good \<longleftrightarrow> distinct (map pa_targetRef ?as)" and rows: "unblocks (pa_targetRef ` set ?as) s s'"
    using able run(2) by auto
  have "\<exists>w w'. getWorkItem (pa_targetRef a) s = Some w \<and> getWorkItem (pa_targetRef a) s' = Some w' \<and>
      wi_status w = Blocked \<and> wi_status w' = InProgress \<and> wi_blockedOn w' = None \<and> wi_lease w' = wi_lease w" if "a \<in> set ?as" for a
    using rows [unfolded unblocks_def, rule_format, of "pa_targetRef a"] able that
    by (fastforce simp: freed_def unblockable_def blocks_def)
  moreover have "getWorkItem i s' = getWorkItem i s" if "i \<notin> pa_targetRef ` set ?as" for i
    using rows [unfolded unblocks_def, rule_format, of i] that by simp
  ultimately show ?thesis using good by blast
qed

definition demo_block :: blocked_on where
  "demo_block = \<lparr>bo_blockerKind = ''decision'', bo_blockerIds = Some [''decision-1''], bo_reason = ''ask''\<rparr>"

definition hub_waiting :: hub_store where
  "hub_waiting = snd (blockWork demo_sha 350 ''work-1'' ''eng'' ''tok'' demo_block hub_3)"

lemma hub_waiting_run: "hub_run demo_sha 350 hub_waiting"
  using run_event [OF run_wait [OF hub_3_run, of 350], of "Request (RBlock ''work-1'' ''eng'' ''tok'' demo_block)"]
  by (simp add: hub_waiting_def)

definition demo_unblock :: decision where
  "demo_unblock = (raised ''decision-1'' 100 None None ''t'' ''c'' [] [] demo_architect)
     \<lparr>dc_executionPlan := [\<lparr>pa_action = PlanUnblock, pa_targetRef = ''work-1'', pa_params = None\<rparr>]\<rparr>"

theorem plan_unblocks_witness:
  "\<exists>rs s' w'. executePlan demo_sha 400 demo_targets demo_unblock hub_waiting = ((True, rs), s') \<and>
     getWorkItem ''work-1'' s' = Some w' \<and> wi_status w' = InProgress"
proof -
  have pin: "read_pin hub_waiting = Inr LegacyPin" by code_simp
  have plan: "dc_executionPlan demo_unblock = [\<lparr>pa_action = PlanUnblock, pa_targetRef = ''work-1'', pa_params = None\<rparr>]"
    by (simp add: demo_unblock_def)
  have valid: "validatePlan demo_targets demo_unblock hub_waiting = Inr ()" by code_simp
  have current: "\<forall>a \<in> set (dc_executionPlan demo_unblock). pa_action a = PlanUnblock \<and>
      (\<forall>w. getWorkItem (pa_targetRef a) hub_waiting = Some w \<longrightarrow> isCurrent demo_sha w LegacyPin)"
    by (simp add: plan isCurrent_def)
  obtain good rs s' where run: "executePlan demo_sha 400 demo_targets demo_unblock hub_waiting = ((good, rs), s')"
    by (cases "executePlan demo_sha 400 demo_targets demo_unblock hub_waiting") auto
  from plan_unblocks [OF hub_waiting_run pin valid current run] run show ?thesis by (auto simp: plan)
qed

section \<open>A mint that fails halfway\<close>

text \<open>
  A mint can fail halfway.  A mint that is to supersede a grant no longer active is refused, but only after the new grant is stored, active,
  and its ratification spent.
\<close>
theorem failed_mint_keeps_grant:
  assumes ok: "rail_ok s" and old: "old \<noteq> []" "getGrant old s = Some g" "cg_state g \<noteq> GrActive"
    and run: "mintGrant now p ref (Some old) resolved at s = (Inl e, s')" "e = DecisionRejected (GrantInvalid GrantNotActive)" "ref \<noteq> []"
  shows "\<exists>i g'. getGrant i s = None \<and> getGrant i s' = Some g' \<and> cg_state g' = GrActive \<and> cg_ratificationRef g' = ref \<and>
    map_option gr_grantId (getRatification ref s') = Some i \<and> getGrant old s' = Some g"
  using ok run(1,3)
proof (cases rule: mintGrant_cases)
  case (minted s1 rr g' at' v s3)
  let ?s2 = "write_row RATIFICATION_KIND ref (ERatification rr) s1"
  have ok3: "rail_ok s3" unfolding minted(11) using rail_ok_rows(5) [OF minted(3,5) run(3)] rail_ok_rows(4) minted(8) by blast
  have keeps: "getGrant i s1 = getGrant i s" for i
    using minted(4) by (induction rule: rtranclp_induct) (simp_all add: side_reads)
  have new: "getGrant (cg_id g') s3 = Some g'" unfolding minted(11) by simp
  have old3: "getGrant old s3 = Some g"
    using old(2) minted(9) keeps unfolding minted(11) by auto
  have "snd (markSuperseded now old (cg_id g') s3) = s3"
    unfolding markSuperseded_def
    by (subst grant_update_eq [OF ok3 confirmation_row_ids(3)]) (assumption, use old(3) old3 in \<open>simp add: grant_row_def\<close>)
  then have s': "s' = s3"
    using arg_cong [OF minted(12), of snd] old(1) by (simp split: if_splits)
  have "cg_state g' = GrActive" "cg_ratificationRef g' = ref" by (subst minted(10), simp add: minted_grant_def)+
  moreover have "getRatification ref s3 = Some rr" unfolding minted(11) by simp
  ultimately show ?thesis unfolding s' using new old3 minted(6,9) keeps by auto
qed (use run(2) in auto)

definition demo_revoked :: hub_store where
  "demo_revoked = demo_end (demo_ratified @ [RailRequest 170 (RevokeGrant ''grant-1'' ''stop'')])"

theorem failed_mint_keeps_grant_witness:
  "\<exists>e s' i g'. mintGrant 200 demo_spec ''decision-2'' (Some ''grant-1'') True (Some 190) demo_revoked = (Inl e, s') \<and>
     getGrant i s' = Some g' \<and> cg_state g' = GrActive"
proof -
  let ?run = "mintGrant 200 demo_spec ''decision-2'' (Some ''grant-1'') True (Some 190) demo_revoked"
  have ok: "rail_ok demo_revoked" unfolding demo_revoked_def by (rule rail_run_ok [OF demo_tame])
  have "map_option cg_state (getGrant ''grant-1'' demo_revoked) = Some GrRevoked" by code_simp
  then obtain g where g: "getGrant ''grant-1'' demo_revoked = Some g" "cg_state g \<noteq> GrActive" by auto
  have "fst ?run = Inl (DecisionRejected (GrantInvalid GrantNotActive))" by code_simp
  then obtain s' where run: "?run = (Inl (DecisionRejected (GrantInvalid GrantNotActive)), s')" by (cases ?run) auto
  have "''grant-1'' \<noteq> []" "''decision-2'' \<noteq> []" by simp_all
  from failed_mint_keeps_grant [OF ok this(1) g run refl this(2)] run show ?thesis by blast
qed

end
