(* ===== verification/Messages.thy ===== *)
theory Messages
  imports Entity_Kind
begin

text \<open>
  The message repository (\<open>hub/src/entities/message-repository-substrate.ts\<close>): creation with a per-thread sequence
  number, the list and cursor queries, and the claim, acknowledgement and schedule updates.  The id of a new message (a
  ULID from a generator outside the repository) is an argument.  The lock a creation holds on its thread is the atomicity of the
  creation.  Also the replay of missed messages to a reconnecting subscriber (\<open>emitW1bReplay\<close> of
  \<open>hub/src/hub-networking.ts\<close>), less the rendering of the events.
\<close>

section \<open>Rows and results\<close>

definition MESSAGE_KIND :: string where "MESSAGE_KIND = ''Message''"

definition MESSAGE_LIST_CAP :: nat where "MESSAGE_LIST_CAP = 500"

fun as_message :: "hub_entity \<Rightarrow> message option" where
  "as_message (EMessage m) = Some m"
| "as_message _ = None"

datatype message_error =
    NotePayloadInvalid
  | MessageIdTaken
  | MessageUndecodable
  | MessageStoreThrew store_error

type_synonym 'a message_result = "(message_error + 'a) \<times> hub_store"

text \<open>The order of ids.\<close>

definition id_order :: "message \<Rightarrow> message \<Rightarrow> int" where
  "id_order a b = (if ms_id a < ms_id b then -1 else if ms_id b < ms_id a then 1 else 0)"

definition latest_first :: "message \<Rightarrow> message \<Rightarrow> int" where
  "latest_first a b = id_order b a"

definition list_messages :: "(message \<Rightarrow> bool) \<Rightarrow> (message \<Rightarrow> message \<Rightarrow> int) option \<Rightarrow> nat \<Rightarrow> hub_store \<Rightarrow> message list" where
  "list_messages = list_kind as_message MESSAGE_KIND"

section \<open>Creation\<close>

record create_message_input =
  cm_kind :: message_kind
  cm_authorRole :: message_role
  cm_authorAgentId :: agent_id
  cm_target :: "message_target option"
  cm_delivery :: message_delivery
  cm_payload :: json
  cm_threadId :: "string option"
  cm_intent :: "string option"
  cm_semanticIntent :: "string option"
  cm_converged :: "bool option"
  cm_escalation :: "(int \<times> string) option"
  cm_precondition :: "json option"
  cm_fireAt :: "stamp option"
  cm_retryCount :: "int option"
  cm_maxRetries :: "int option"
  cm_migrationSourceId :: "string option"

definition findByMigrationSourceId :: "string \<Rightarrow> hub_store \<Rightarrow> message option" where
  "findByMigrationSourceId source s =
     (case list_messages (\<lambda>m. ms_migrationSourceId m = Some source) None 1 s of [] \<Rightarrow> None | m # _ \<Rightarrow> Some m)"

text \<open>The next number of a thread is one more than the largest among the rows listed.\<close>

definition max_seq :: "message list \<Rightarrow> int" where
  "max_seq ms = fold (\<lambda>m mx. case ms_sequenceInThread m of None \<Rightarrow> mx | Some n \<Rightarrow> if mx < n then n else mx) ms (-1)"

definition allocateSequence :: "string \<Rightarrow> hub_store \<Rightarrow> int" where
  "allocateSequence threadId s =
     max_seq (list_messages (\<lambda>m. ms_threadId m = Some threadId) None MESSAGE_LIST_CAP s) + 1"

definition created_message :: "string \<Rightarrow> instant \<Rightarrow> create_message_input \<Rightarrow> int option \<Rightarrow> message" where
  "created_message i now q sequence =
     \<lparr>ms_id = i, ms_kind = cm_kind q, ms_authorRole = cm_authorRole q, ms_authorAgentId = cm_authorAgentId q,
      ms_target = cm_target q, ms_delivery = cm_delivery q, ms_status = MsgNew, ms_claimedBy = None,
      ms_threadId = (if falsy_text (cm_threadId q) then None else cm_threadId q), ms_sequenceInThread = sequence,
      ms_payload = cm_payload q, ms_escalation = cm_escalation q, ms_precondition = cm_precondition q,
      ms_fireAt = cm_fireAt q, ms_scheduledState = (if cm_delivery q = Scheduled then Some ScPending else None),
      ms_retryCount = cm_retryCount q, ms_maxRetries = cm_maxRetries q, ms_intent = cm_intent q,
      ms_semanticIntent = cm_semanticIntent q, ms_converged = cm_converged q,
      ms_migrationSourceId = cm_migrationSourceId q, ms_createdAt = now, ms_updatedAt = now\<rparr>"

text \<open>
  A message with a source that is already stored is the answer; otherwise one is created under a fresh id.  Nothing ties the look to the creation:
  what others do in between is an argument.  (The lock of a thread is taken after the look; it covers the number and the creation.)
\<close>

definition createMessage_with :: "(hub_store \<Rightarrow> hub_store) \<Rightarrow> string \<Rightarrow> instant \<Rightarrow> create_message_input \<Rightarrow> hub_store
    \<Rightarrow> message message_result" where
  "createMessage_with others i now q s =
     (if cm_kind q = NoteMsg \<and> \<not> validateNotePayload (cm_payload q) then (Inl NotePayloadInvalid, s)
      else case (if falsy_text (cm_migrationSourceId q) then None else findByMigrationSourceId (the (cm_migrationSourceId q)) s) of
          Some existing \<Rightarrow> (Inr existing, s)
        | None \<Rightarrow>
            let s1 = others s;
                sequence = (if falsy_text (cm_threadId q) then None else Some (allocateSequence (the (cm_threadId q)) s1));
                m = created_message i now q sequence
            in case createOnly ident MESSAGE_KIND (EMessage m) s1 of
                 Inl z \<Rightarrow> (Inl (MessageStoreThrew z), s1)
               | Inr (Created _ _, s') \<Rightarrow> (Inr m, s')
               | Inr (ExistingConflict, s') \<Rightarrow> (Inl MessageIdTaken, s'))"

definition createMessage :: "string \<Rightarrow> instant \<Rightarrow> create_message_input \<Rightarrow> hub_store \<Rightarrow> message message_result" where
  "createMessage = createMessage_with id"

section \<open>Queries\<close>

definition getMessage :: "string \<Rightarrow> hub_store \<Rightarrow> message option" where
  "getMessage i s = row_of as_message MESSAGE_KIND i s"

record message_query =
  mq_threadId :: "string option"
  mq_targetRole :: "message_role option"
  mq_targetAgentId :: "agent_id option"
  mq_authorAgentId :: "agent_id option"
  mq_status :: "message_status option"
  mq_delivery :: "message_delivery option"
  mq_scheduledState :: "scheduled_state option"
  mq_since :: "string option"

definition no_query :: message_query where
  "no_query = \<lparr>mq_threadId = None, mq_targetRole = None, mq_targetAgentId = None, mq_authorAgentId = None, mq_status = None,
     mq_delivery = None, mq_scheduledState = None, mq_since = None\<rparr>"

definition wanted :: "'a option \<Rightarrow> 'a option \<Rightarrow> bool" where
  "wanted want have \<longleftrightarrow> want = None \<or> have = want"

definition matchesAdditionalFilters :: "message_query \<Rightarrow> message \<Rightarrow> bool" where
  "matchesAdditionalFilters q m \<longleftrightarrow>
     wanted (mq_targetRole q) (Option.bind (ms_target m) mt_role) \<and>
     wanted (mq_targetAgentId q) (Option.bind (ms_target m) mt_agentId) \<and>
     wanted (mq_authorAgentId q) (Some (ms_authorAgentId m)) \<and>
     wanted (mq_status q) (Some (ms_status m)) \<and>
     wanted (mq_delivery q) (Some (ms_delivery m)) \<and>
     wanted (mq_scheduledState q) (ms_scheduledState m) \<and>
     (case mq_since q of None \<Rightarrow> True | Some i \<Rightarrow> i < ms_id m)"

text \<open>The filter the substrate evaluates is the same conjunction.\<close>

definition messageQueryToFilter :: "message_query \<Rightarrow> message \<Rightarrow> bool" where
  "messageQueryToFilter = matchesAdditionalFilters"

definition by_sequence :: "message \<Rightarrow> message \<Rightarrow> int" where
  "by_sequence a b =
     (case ms_sequenceInThread a of None \<Rightarrow> 0 | Some n \<Rightarrow> n) - (case ms_sequenceInThread b of None \<Rightarrow> 0 | Some n \<Rightarrow> n)"

definition listByThread :: "string \<Rightarrow> message_query \<Rightarrow> hub_store \<Rightarrow> message list" where
  "listByThread threadId q s =
     filter (matchesAdditionalFilters q)
       (sort_by by_sequence (list_messages (\<lambda>m. ms_threadId m = Some threadId) None MESSAGE_LIST_CAP s))"

definition listFiltered :: "message_query \<Rightarrow> hub_store \<Rightarrow> message list" where
  "listFiltered q s = sort_by id_order (list_messages (messageQueryToFilter q) (Some latest_first) MESSAGE_LIST_CAP s)"

definition listMessages :: "message_query \<Rightarrow> hub_store \<Rightarrow> message list" where
  "listMessages q s = (case mq_threadId q of Some t \<Rightarrow> listByThread t q s | None \<Rightarrow> listFiltered q s)"

definition hasAuthoredSince :: "agent_id \<Rightarrow> instant \<Rightarrow> hub_store \<Rightarrow> bool" where
  "hasAuthoredSince author since s =
     (case list_messages (messageQueryToFilter (no_query\<lparr>mq_authorAgentId := Some author\<rparr>)) (Some latest_first) 1 s of
        [] \<Rightarrow> False
      | m # _ \<Rightarrow> since \<le> ms_createdAt m)"

definition replayFromCursor :: "string option \<Rightarrow> message_role option \<Rightarrow> agent_id option \<Rightarrow> message_status option \<Rightarrow> nat
    \<Rightarrow> hub_store \<Rightarrow> message list" where
  "replayFromCursor since role agent status limit s =
     take limit (sort_by id_order (list_messages
       (messageQueryToFilter (no_query\<lparr>mq_since := since, mq_targetRole := role, mq_targetAgentId := agent, mq_status := status\<rparr>))
       (Some id_order) limit s))"

text \<open>
  The replay on a reconnect: what is emitted to the subscriber, and whether it is told that the replay was cut off (and is to reconnect with
  the last id).
\<close>

definition REPLAY_SOFT_CAP :: nat where "REPLAY_SOFT_CAP = 1000"

definition emitW1bReplay :: "bool \<Rightarrow> message_role \<Rightarrow> agent_id option \<Rightarrow> string option \<Rightarrow> hub_store \<Rightarrow> message list \<times> bool" where
  "emitW1bReplay connected role agent lastEventId s =
     (let replay = replayFromCursor lastEventId (Some role) agent (Some MsgNew) REPLAY_SOFT_CAP s
      in if replay = [] \<or> \<not> connected then ([], False) else (replay, length replay = REPLAY_SOFT_CAP))"

section \<open>Updates\<close>

text \<open>A transform that refuses hands back the row as it is; exhausted attempts answer with the row read once more.\<close>

definition message_update_with :: "hub_store attempt list \<Rightarrow> string \<Rightarrow> (message \<Rightarrow> message + message) \<Rightarrow> hub_store
    \<Rightarrow> message option message_result" where
  "message_update_with envs i f s =
     (case cas_update MESSAGE_KIND EMessage as_message envs i f s of
        (CasDone e, s') \<Rightarrow> ((case as_message e of None \<Rightarrow> Inl MessageUndecodable | Some m \<Rightarrow> Inr (Some m)), s')
      | (CasMissing, s') \<Rightarrow> (Inr None, s')
      | (CasFailed None, s') \<Rightarrow> (Inl MessageUndecodable, s')
      | (CasFailed (Some m), s') \<Rightarrow> (Inr (Some m), s')
      | (CasThrew z, s') \<Rightarrow> (Inl (MessageStoreThrew z), s')
      | (CasExhausted, s') \<Rightarrow> (Inr (getMessage i s'), s'))"

definition claim_message_row :: "instant \<Rightarrow> agent_id \<Rightarrow> message \<Rightarrow> message + message" where
  "claim_message_row now agent m =
     (if ms_status m \<noteq> MsgNew then Inl m
      else Inr (m\<lparr>ms_status := MsgReceived, ms_claimedBy := Some agent, ms_updatedAt := now\<rparr>))"

definition claimMessage_with :: "hub_store attempt list \<Rightarrow> instant \<Rightarrow> string \<Rightarrow> agent_id \<Rightarrow> hub_store \<Rightarrow> message option message_result" where
  "claimMessage_with envs now i agent = message_update_with envs i (claim_message_row now agent)"

definition claimMessage :: "instant \<Rightarrow> string \<Rightarrow> agent_id \<Rightarrow> hub_store \<Rightarrow> message option message_result" where
  "claimMessage = claimMessage_with quiet"

definition ack_row :: "instant \<Rightarrow> message \<Rightarrow> message + message" where
  "ack_row now m = (if ms_status m \<noteq> MsgReceived then Inl m else Inr (m\<lparr>ms_status := MsgAcked, ms_updatedAt := now\<rparr>))"

definition ackMessage :: "instant \<Rightarrow> string \<Rightarrow> hub_store \<Rightarrow> message option message_result" where
  "ackMessage now i = message_update_with quiet i (ack_row now)"

definition schedule_row :: "instant \<Rightarrow> scheduled_state \<Rightarrow> message \<Rightarrow> message + message" where
  "schedule_row now state m =
     (if ms_scheduledState m = Some state then Inl m else Inr (m\<lparr>ms_scheduledState := Some state, ms_updatedAt := now\<rparr>))"

definition markScheduledState :: "instant \<Rightarrow> string \<Rightarrow> scheduled_state \<Rightarrow> hub_store \<Rightarrow> message option message_result" where
  "markScheduledState now i state = message_update_with quiet i (schedule_row now state)"

section \<open>The contract of the kind\<close>

interpretation msg: entity_kind MESSAGE_KIND EMessage as_message ms_id
proof
  show "as_message e = Some r \<Longrightarrow> e = EMessage r" for e r by (cases e) auto
qed (simp_all add: MESSAGE_KIND_def)

end
