(* ===== verification/Scheduled_Messages.thy ===== *)
theory Scheduled_Messages
  imports Messages Threads
begin

text \<open>
  The sweep over scheduled messages (\<open>hub/src/policy/scheduled-message-sweeper.ts\<close>) and the preconditions it evaluates
  (\<open>hub/src/policy/preconditions.ts\<close>), with the audit entry of a cancellation
  (\<open>hub/src/entities/audit-repository-substrate.ts\<close>).  Metrics and log lines are left out, and so is the quarantine of rows
  stored in an outdated shape: rows are flat here.
\<close>

section \<open>Preconditions\<close>

datatype precondition_verdict =
    NoPrecondition
  | PreconditionMalformed
  | PreconditionUnknown string
  | PreconditionTrue string
  | PreconditionFalse string

definition verdict_ok :: "precondition_verdict \<Rightarrow> bool" where
  "verdict_ok v \<longleftrightarrow> (case v of NoPrecondition \<Rightarrow> True | PreconditionTrue f \<Rightarrow> True | _ \<Rightarrow> False)"

definition thread_still_active :: "json \<Rightarrow> hub_store \<Rightarrow> bool" where
  "thread_still_active args s =
     (case json_get args ''threadId'' of
        Some (JStr t) \<Rightarrow> t \<noteq> [] \<and> map_option thr_status (getThread t s) = Some ThActive
      | _ \<Rightarrow> False)"

definition PRECONDITIONS :: "(string \<times> (json \<Rightarrow> hub_store \<Rightarrow> bool)) list" where
  "PRECONDITIONS = [(''thread-still-active'', thread_still_active)]"

definition evaluatePrecondition :: "json option \<Rightarrow> hub_store \<Rightarrow> precondition_verdict" where
  "evaluatePrecondition precondition s =
     (if precondition \<in> {None, Some JNull} then NoPrecondition
      else case json_get (the precondition) ''fn'' of
          Some (JStr f) \<Rightarrow>
            (let args = (case json_get (the precondition) ''args'' of Some (JObj ms) \<Rightarrow> JObj ms | _ \<Rightarrow> JObj [])
             in case map_of PRECONDITIONS f of
                  None \<Rightarrow> PreconditionUnknown f
                | Some p \<Rightarrow> if p args s then PreconditionTrue f else PreconditionFalse f)
        | _ \<Rightarrow> PreconditionMalformed)"

section \<open>The audit entry of a cancellation\<close>

definition AUDIT_KIND :: string where "AUDIT_KIND = ''Audit''"

definition logEntry :: "string \<Rightarrow> string option \<Rightarrow> hub_store \<Rightarrow> hub_store" where
  "logEntry action relatedEntity s =
     (case next_id ''auditCounter'' s of
        (Inl e, s') \<Rightarrow> s'
      | (Inr num, s') \<Rightarrow>
          (case createOnly ident AUDIT_KIND (EAudit (''audit-'' @ show_int num) relatedEntity (Some action)) s' of
             Inl z \<Rightarrow> s'
           | Inr (out, s'') \<Rightarrow> s''))"

text \<open>The entry takes a number and, unless the id is taken, writes one row of its own kind.\<close>

lemma logEntry_writes:
  assumes "plain_store s"
  obtains e where "logEntry action rel s = write_row COUNTER_KIND COUNTER_ID e s \<or>
    (\<exists>j a. logEntry action rel s = write_row AUDIT_KIND j a (write_row COUNTER_KIND COUNTER_ID e s))"
proof -
  obtain e n where n: "next_id ''auditCounter'' s = (Inr n, write_row COUNTER_KIND COUNTER_ID e s)"
    using next_id_quiet [OF assms] by blast
  let ?s = "write_row COUNTER_KIND COUNTER_ID e s"
  have "logEntry action rel s = ?s \<or> (\<exists>j a. logEntry action rel s = write_row AUDIT_KIND j a ?s)"
    unfolding logEntry_def n
    by (auto simp: createOnly_def Let_def res_bind_Inr_iff split: sum.split prod.split if_splits)
  then show thesis by (rule that)
qed

section \<open>The sweep\<close>

text \<open>A step answers with an error, or not, in the store it leaves.\<close>

definition fireMessage :: "instant \<Rightarrow> message \<Rightarrow> hub_store \<Rightarrow> bool \<times> hub_store" where
  "fireMessage now m s =
     (case markScheduledState now (ms_id m) ScDelivered s of (Inl e, s') \<Rightarrow> (False, s') | (Inr r, s') \<Rightarrow> (True, s'))"

definition cancelMessage :: "instant \<Rightarrow> message \<Rightarrow> hub_store \<Rightarrow> bool \<times> hub_store" where
  "cancelMessage now m s =
     (case markScheduledState now (ms_id m) ScPreconditionFailed s of
        (Inl e, s') \<Rightarrow> (False, s')
      | (Inr r, s') \<Rightarrow> (True, logEntry ''scheduled_message_cancelled'' (Some (ms_id m)) s'))"

record sweep_result =
  sw_scanned :: nat
  sw_fired :: nat
  sw_cancelled :: nat
  sw_errors :: nat

definition tally_cancel :: "bool \<times> hub_store \<Rightarrow> sweep_result \<Rightarrow> sweep_result \<times> hub_store" where
  "tally_cancel r res =
     ((if fst r then res\<lparr>sw_cancelled := Suc (sw_cancelled res)\<rparr> else res\<lparr>sw_errors := Suc (sw_errors res)\<rparr>), snd r)"

definition tally_fire :: "bool \<times> hub_store \<Rightarrow> sweep_result \<Rightarrow> sweep_result \<times> hub_store" where
  "tally_fire r res =
     ((if fst r then res\<lparr>sw_fired := Suc (sw_fired res)\<rparr> else res\<lparr>sw_errors := Suc (sw_errors res)\<rparr>), snd r)"

definition sweep_one :: "instant \<Rightarrow> message \<Rightarrow> sweep_result \<times> hub_store \<Rightarrow> sweep_result \<times> hub_store" where
  "sweep_one now m = (\<lambda>(res, s).
     case ms_fireAt m of
       None \<Rightarrow> tally_cancel (cancelMessage now m s) res
     | Some at \<Rightarrow>
         if stamp_text at = [] then tally_cancel (cancelMessage now m s) res
         else (case stamp_ms at of
                 None \<Rightarrow> tally_cancel (cancelMessage now m s) res
               | Some fire \<Rightarrow>
                   if now < fire then (res, s)
                   else if verdict_ok (evaluatePrecondition (ms_precondition m) s) then tally_fire (fireMessage now m s) res
                   else tally_cancel (cancelMessage now m s) res))"

definition sweepScheduled :: "instant \<Rightarrow> hub_store \<Rightarrow> sweep_result \<times> hub_store" where
  "sweepScheduled now s =
     (let pending = listMessages (no_query\<lparr>mq_delivery := Some Scheduled, mq_scheduledState := Some ScPending\<rparr>) s
      in fold (sweep_one now) pending
           (\<lparr>sw_scanned = length pending, sw_fired = 0, sw_cancelled = 0, sw_errors = 0\<rparr>, s))"

section \<open>Requests and runs\<close>

datatype message_request =
    MCreate string create_message_input
  | MClaim string agent_id
  | MAck string
  | MMark string scheduled_state
  | MSweep

fun message_perform :: "instant \<Rightarrow> message_request \<Rightarrow> hub_store \<Rightarrow> hub_store" where
  "message_perform now (MCreate i q) s = snd (createMessage i now q s)"
| "message_perform now (MClaim i agent) s = snd (claimMessage now i agent s)"
| "message_perform now (MAck i) s = snd (ackMessage now i s)"
| "message_perform now (MMark i state) s = snd (markScheduledState now i state s)"
| "message_perform now MSweep s = snd (sweepScheduled now s)"

datatype message_event = MessageRequest instant message_request | OffMessagePut string string hub_entity | OffMessageDelete string string

fun message_happens :: "message_event \<Rightarrow> hub_store \<Rightarrow> hub_store" where
  "message_happens (MessageRequest now q) s = message_perform now q s"
| "message_happens (OffMessagePut k i e) s = (if k = MESSAGE_KIND then s else write_row k i e s)"
| "message_happens (OffMessageDelete k i) s = (if k = MESSAGE_KIND then s else delete_op k i s)"

text \<open>A run: requests in any order, at any instants, while the other repositories write and delete rows of their kinds.\<close>

definition message_run :: "message_event list \<Rightarrow> hub_store" where
  "message_run evs = fold message_happens evs empty_substrate"

end
