(* ===== verification/Message_Properties.thy ===== *)
theory Message_Properties
  imports Scheduled_Messages
begin

text \<open>
  What the message repository guarantees: stored messages meet the schema, a claim is exclusive and the life of a message only moves
  forward, how far the sequence numbers of a thread can be relied on, what a replay emits, and what a
  sweep over the scheduled messages does to each of them.
\<close>

section \<open>Steps of the mail\<close>

lemma MESSAGE_KIND_ne [simp]: "COUNTER_KIND \<noteq> MESSAGE_KIND" "AUDIT_KIND \<noteq> MESSAGE_KIND" "MESSAGE_KIND \<noteq> COUNTER_KIND" "MESSAGE_KIND \<noteq> AUDIT_KIND"
  "THREAD_KIND \<noteq> MESSAGE_KIND" "MESSAGE_KIND \<noteq> THREAD_KIND"
  by (simp_all add: MESSAGE_KIND_def COUNTER_KIND_def AUDIT_KIND_def THREAD_KIND_def)

abbreviation mail_ok :: "hub_store \<Rightarrow> bool" where
  "mail_ok \<equiv> kind_ok EMessage ms_id MESSAGE_KIND"

inductive message_change :: "message \<Rightarrow> message \<Rightarrow> bool" for m where
  mc_claim: "claim_message_row now a m = Inr m' \<Longrightarrow> message_change m m'"
| mc_ack: "ack_row now m = Inr m' \<Longrightarrow> message_change m m'"
| mc_mark: "schedule_row now state m = Inr m' \<Longrightarrow> message_change m m'"

inductive_cases message_changeE: "message_change m m'"

lemmas message_rows = claim_message_row_def ack_row_def schedule_row_def

definition sequence_for :: "create_message_input \<Rightarrow> hub_store \<Rightarrow> int option" where
  "sequence_for q s = (if falsy_text (cm_threadId q) then None else Some (allocateSequence (the (cm_threadId q)) s))"

definition payload_ok :: "create_message_input \<Rightarrow> bool" where
  "payload_ok q \<longleftrightarrow> (cm_kind q = NoteMsg \<longrightarrow> validateNotePayload (cm_payload q))"

inductive mail_step :: "(create_message_input \<Rightarrow> bool) \<Rightarrow> hub_store \<Rightarrow> hub_store \<Rightarrow> bool" for Q s where
  ml_write: "k \<noteq> MESSAGE_KIND \<Longrightarrow> mail_step Q s (write_row k i e s)"
| ml_delete: "k \<noteq> MESSAGE_KIND \<Longrightarrow> mail_step Q s (delete_op k i s)"
| ml_create: "getMessage i s = None \<Longrightarrow> i \<noteq> [] \<Longrightarrow> Q q \<Longrightarrow> payload_ok q \<Longrightarrow>
    mail_step Q s (write_row MESSAGE_KIND i (EMessage (created_message i now q (sequence_for q s))) s)"
| ml_change: "getMessage i s = Some m \<Longrightarrow> message_change m m' \<Longrightarrow> mail_step Q s (write_row MESSAGE_KIND i (EMessage m') s)"

abbreviation mail_steps :: "(create_message_input \<Rightarrow> bool) \<Rightarrow> hub_store \<Rightarrow> hub_store \<Rightarrow> bool" where
  "mail_steps Q \<equiv> (mail_step Q)\<^sup>*\<^sup>*"

definition message_born :: "(create_message_input \<Rightarrow> bool) \<Rightarrow> message \<Rightarrow> bool" where
  "message_born Q m \<longleftrightarrow> (\<exists>i now q n. i \<noteq> [] \<and> Q q \<and> payload_ok q \<and> 0 \<le> n \<and>
     m = created_message i now q (if falsy_text (cm_threadId q) then None else Some n))"

lemma created_id [simp]: "ms_id (created_message i now q n) = i"
  by (simp add: created_message_def)

lemma max_seq_ge: "-1 \<le> max_seq ms"
proof -
  have "-1 \<le> fold (\<lambda>m mx. case ms_sequenceInThread m of None \<Rightarrow> mx | Some n \<Rightarrow> if mx < n then n else mx) ms mx" if "-1 \<le> mx" for mx :: int
    using that by (induction ms arbitrary: mx) (auto split: option.split)
  then show ?thesis by (simp add: max_seq_def)
qed

lemma allocate_ge: "0 \<le> allocateSequence t s"
  using max_seq_ge [of "list_messages (\<lambda>m. ms_threadId m = Some t) None MESSAGE_LIST_CAP s"] by (simp add: allocateSequence_def)

lemma created_born: "i \<noteq> [] \<Longrightarrow> Q q \<Longrightarrow> payload_ok q \<Longrightarrow> message_born Q (created_message i now q (sequence_for q s))"
  unfolding message_born_def sequence_for_def
  by (rule exI [of _ i], rule exI [of _ now], rule exI [of _ q], rule exI [of _ "allocateSequence (the (cm_threadId q)) s"])
    (simp add: allocate_ge)

lemma change_id: "message_change m m' \<Longrightarrow> ms_id m' = ms_id m"
  by (auto simp: message_rows elim!: message_changeE split: if_splits)

lemma mail_kind: "mail_step Q s t \<Longrightarrow> mail_ok s \<Longrightarrow> kind_steps EMessage ms_id MESSAGE_KIND (message_born Q) message_change s t"
proof (induction rule: mail_step.induct)
  case (ml_create i q now)
  let ?m = "created_message i now q (sequence_for q s)"
  have "find_row s MESSAGE_KIND (ms_id ?m) = None" using msg.row_of_None [OF ml_create.prems] ml_create.hyps(1) by (simp add: getMessage_def)
  with ks_create [OF ks_refl, of s MESSAGE_KIND ms_id ?m "message_born Q" EMessage message_change] ml_create
  show ?case by (simp add: created_born)
next
  case (ml_change i m m')
  then obtain row where row: "find_row s MESSAGE_KIND i = Some row" "row_data row = EMessage m" "ms_id m = i"
    using msg.row_of_find msg.row_of_id unfolding getMessage_def by blast
  from ks_row [OF ks_refl, of s MESSAGE_KIND ms_id m row EMessage message_change m' "message_born Q"] row ml_change change_id show ?case by simp
qed (auto intro: kind_steps.intros)

lemma mails_kind: "mail_steps Q s t \<Longrightarrow> mail_ok s \<Longrightarrow> kind_steps EMessage ms_id MESSAGE_KIND (message_born Q) message_change s t"
proof (induction rule: rtranclp_induct)
  case (step t u)
  then show ?case using mail_kind [OF step.hyps(2)] msg.steps_ok kind_steps_trans by blast
qed (rule ks_refl)

lemma mails_ok: "mail_steps Q s t \<Longrightarrow> mail_ok s \<Longrightarrow> mail_ok t"
  using mails_kind msg.steps_ok by blast

section \<open>The operations are steps\<close>

lemma message_update_eq:
  assumes "mail_ok s" "\<And>m m'. f m = Inr m' \<Longrightarrow> ms_id m' = ms_id m"
  shows "message_update_with quiet i f s =
    (case getMessage i s of
       None \<Rightarrow> (Inr None, s)
     | Some m \<Rightarrow> (case f m of Inl m0 \<Rightarrow> (Inr (Some m0), s) | Inr m' \<Rightarrow> (Inr (Some m'), write_row MESSAGE_KIND i (EMessage m') s)))"
  by (simp add: message_update_with_def getMessage_def msg.update_quiet [OF assms] split: option.split sum.split)

lemma message_ids: "claim_message_row now a m = Inr m' \<Longrightarrow> ms_id m' = ms_id m" "ack_row now m = Inr m' \<Longrightarrow> ms_id m' = ms_id m"
  "schedule_row now state m = Inr m' \<Longrightarrow> ms_id m' = ms_id m"
  by (auto simp: message_rows split: if_splits)

lemma update_mail:
  assumes "mail_ok s" "\<And>m m'. f m = Inr m' \<Longrightarrow> message_change m m'"
  shows "mail_steps Q s (snd (message_update_with quiet i f s))"
proof -
  have "f m = Inr m' \<Longrightarrow> ms_id m' = ms_id m" for m m' using assms(2) change_id by blast
  note eq = message_update_eq [OF assms(1) this]
  show ?thesis
  proof (cases "getMessage i s")
    case (Some m)
    show ?thesis
    proof (cases "f m")
      case (Inr m')
      from ml_change [OF Some assms(2) [OF Inr], of Q] show ?thesis by (simp add: eq Some Inr)
    qed (simp add: eq Some)
  qed (simp add: eq)
qed

lemma createMessage_eq:
  assumes "mail_ok s" "i \<noteq> []"
  shows "createMessage i now q s =
    (if \<not> payload_ok q then (Inl NotePayloadInvalid, s)
     else case (if falsy_text (cm_migrationSourceId q) then None else findByMigrationSourceId (the (cm_migrationSourceId q)) s) of
         Some m \<Rightarrow> (Inr m, s)
       | None \<Rightarrow>
           if getMessage i s \<noteq> None then (Inl MessageIdTaken, s)
           else (Inr (created_message i now q (sequence_for q s)),
             write_row MESSAGE_KIND i (EMessage (created_message i now q (sequence_for q s))) s))"
proof -
  have "getMessage i s = None \<longleftrightarrow> find_row s MESSAGE_KIND i = None"
    using msg.row_of_None [OF assms(1)] by (simp add: getMessage_def)
  moreover have "createOnly ident MESSAGE_KIND (EMessage (created_message i now q n)) s =
      Inr (if find_row s MESSAGE_KIND i \<noteq> None then (ExistingConflict, s)
           else (Created i (Suc (revisionCounter s)), write_row MESSAGE_KIND i (EMessage (created_message i now q n)) s))" for n
    using msg.create_eq [OF assms(1), of "created_message i now q n"] assms(2) by simp
  ultimately show ?thesis
    by (auto simp: createMessage_def createMessage_with_def payload_ok_def sequence_for_def Let_def split: option.split)
qed

lemma createMessage_nameless: "mail_ok s \<Longrightarrow> snd (createMessage [] now q s) = s"
  using msg.ok_plain [of s]
  by (auto simp: createMessage_def createMessage_with_def Let_def createOnly_def encodeForWrite_def plain_store_def extractId_def MESSAGE_KIND_def split: option.split)

lemma create_mail: "mail_ok s \<Longrightarrow> Q q \<Longrightarrow> mail_steps Q s (snd (createMessage i now q s))"
proof (cases "i = []")
  case False
  assume "mail_ok s" "Q q"
  with False show ?thesis
    by (auto simp: createMessage_eq intro: ml_create split: option.split)
qed (simp add: createMessage_nameless)

lemma mark_eq:
  "mail_ok s \<Longrightarrow> markScheduledState now i state s =
    (case getMessage i s of
       None \<Rightarrow> (Inr None, s)
     | Some m \<Rightarrow> (case schedule_row now state m of Inl m0 \<Rightarrow> (Inr (Some m0), s) | Inr m' \<Rightarrow> (Inr (Some m'), write_row MESSAGE_KIND i (EMessage m') s)))"
  unfolding markScheduledState_def by (rule message_update_eq) (auto simp: message_ids)

lemma mark_mail: "mail_ok s \<Longrightarrow> mail_steps Q s (snd (markScheduledState now i state s))"
  unfolding markScheduledState_def by (rule update_mail) (auto intro: mc_mark)

lemma audit_mail:
  assumes "mail_ok s"
  shows "mail_steps Q s (logEntry action rel s)"
proof -
  obtain e where e: "logEntry action rel s = write_row COUNTER_KIND COUNTER_ID e s \<or>
      (\<exists>j a. logEntry action rel s = write_row AUDIT_KIND j a (write_row COUNTER_KIND COUNTER_ID e s))"
    by (rule logEntry_writes [OF msg.ok_plain [OF assms]])
  have first: "mail_step Q s (write_row COUNTER_KIND COUNTER_ID e s)" by (rule ml_write) simp
  have "mail_step Q t (write_row AUDIT_KIND j a t)" for j a t by (rule ml_write) simp
  with e first show ?thesis by (metis r_into_rtranclp rtranclp.rtrancl_into_rtrancl)
qed

lemma sweep_one_mail: "mail_ok s \<Longrightarrow> mail_steps Q s (snd (sweep_one now m (res, s)))"
proof -
  assume ok: "mail_ok s"
  have mark: "mail_steps Q s t \<and> mail_ok t" if "markScheduledState now i state s = (r, t)" for i state r t
    using mark_mail [OF ok, of Q now i state] mails_ok [OF _ ok] that by simp
  have "mail_steps Q s (logEntry action rel t)" if "markScheduledState now i state s = (r, t)" for i state r t action rel
    using mark [OF that] audit_mail [of t Q action rel] by (meson rtranclp_trans)
  then have "mail_steps Q s (snd (cancelMessage now m s))" "mail_steps Q s (snd (fireMessage now m s))"
    using mark by (auto simp: cancelMessage_def fireMessage_def split: prod.split sum.split)
  then show ?thesis
    by (auto simp: sweep_one_def tally_cancel_def tally_fire_def Let_def split: option.split)
qed

lemma sweep_mail: "mail_ok s \<Longrightarrow> mail_steps Q s (snd (sweepScheduled now s))"
proof -
  have "mail_ok s \<Longrightarrow> mail_steps Q s (snd (fold (sweep_one now) ms (res, s)))" for ms res
  proof (induction ms arbitrary: res s)
    case (Cons m ms)
    obtain res' s' where one: "sweep_one now m (res, s) = (res', s')" by (cases "sweep_one now m (res, s)")
    then have st: "mail_steps Q s s'" using sweep_one_mail [OF Cons.prems, of Q now m res] by simp
    with Cons.IH [OF mails_ok [OF st Cons.prems], of res'] one show ?case by (simp add: rtranclp_trans [OF st])
  qed simp
  then show "mail_ok s \<Longrightarrow> mail_steps Q s (snd (sweepScheduled now s))" by (simp add: sweepScheduled_def Let_def)
qed

fun inputs_ok :: "(create_message_input \<Rightarrow> bool) \<Rightarrow> message_event \<Rightarrow> bool" where
  "inputs_ok Q (MessageRequest now (MCreate i q)) = Q q"
| "inputs_ok Q _ = True"

lemma happens_mail: "mail_ok s \<Longrightarrow> inputs_ok Q ev \<Longrightarrow> mail_steps Q s (message_happens ev s)"
proof (cases ev)
  case (MessageRequest now q)
  assume "mail_ok s" "inputs_ok Q ev"
  with MessageRequest show ?thesis
    by (cases q) (simp_all add: create_mail sweep_mail mark_mail claimMessage_def claimMessage_with_def ackMessage_def update_mail mc_claim mc_ack)
qed (auto intro: ml_write ml_delete)

lemma fold_mail: "mail_ok s \<Longrightarrow> list_all (inputs_ok Q) evs \<Longrightarrow> mail_steps Q s (fold message_happens evs s)"
proof (induction evs arbitrary: s)
  case (Cons ev evs)
  then have st: "mail_steps Q s (message_happens ev s)" by (simp add: happens_mail)
  with Cons.IH [OF mails_ok [OF st Cons.prems(1)]] Cons.prems show ?case by (simp add: rtranclp_trans [OF st])
qed simp

lemma mail_empty: "mail_ok empty_substrate" by (rule msg.ok_empty)

lemma run_mail: "list_all (inputs_ok Q) evs \<Longrightarrow> mail_steps Q empty_substrate (message_run evs)"
  unfolding message_run_def by (rule fold_mail [OF mail_empty])

lemma any_input: "list_all (inputs_ok (\<lambda>_. True)) evs"
proof -
  have "inputs_ok (\<lambda>_. True) ev" for ev by (cases "(\<lambda>_ :: create_message_input. True, ev)" rule: inputs_ok.cases) simp_all
  then show ?thesis by (simp add: list_all_iff)
qed

lemma run_mail_ok: "mail_ok (message_run evs)"
  by (rule mails_ok [OF run_mail [OF any_input] mail_empty])

lemma no_message [simp]: "getMessage i empty_substrate = None"
  by (simp add: getMessage_def row_of_def get_op_def find_row_def getKindStore_def empty_substrate_def)

section \<open>The schema\<close>

text \<open>\<open>MessageSchema\<close> of \<open>hub/src/entities/message.ts\<close>, what its types do not say already.\<close>

definition MessageSchema :: "message \<Rightarrow> bool" where
  "MessageSchema m \<longleftrightarrow> ms_id m \<noteq> [] \<and> ms_authorAgentId m \<noteq> [] \<and>
     (case ms_sequenceInThread m of None \<Rightarrow> True | Some n \<Rightarrow> 0 \<le> n) \<and>
     (case ms_escalation m of None \<Rightarrow> True | Some (timeout, role) \<Rightarrow> 0 < timeout) \<and>
     (case ms_retryCount m of None \<Rightarrow> True | Some n \<Rightarrow> 0 \<le> n) \<and>
     (case ms_maxRetries m of None \<Rightarrow> True | Some n \<Rightarrow> 0 < n)"

definition schema_input :: "create_message_input \<Rightarrow> bool" where
  "schema_input q \<longleftrightarrow> cm_authorAgentId q \<noteq> [] \<and>
     (case cm_escalation q of None \<Rightarrow> True | Some (timeout, role) \<Rightarrow> 0 < timeout) \<and>
     (case cm_retryCount q of None \<Rightarrow> True | Some n \<Rightarrow> 0 \<le> n) \<and>
     (case cm_maxRetries q of None \<Rightarrow> True | Some n \<Rightarrow> 0 < n)"

definition well_formed_message :: "message \<Rightarrow> bool" where
  "well_formed_message m \<longleftrightarrow>
     (ms_status m = MsgNew \<longleftrightarrow> ms_claimedBy m = None) \<and>
     (ms_threadId m = None \<longleftrightarrow> ms_sequenceInThread m = None) \<and>
     (ms_kind m = NoteMsg \<longrightarrow> validateNotePayload (ms_payload m)) \<and>
     (ms_delivery m = Scheduled \<longrightarrow> ms_scheduledState m \<noteq> None)"

lemma born_well_formed: "message_born Q m \<Longrightarrow> well_formed_message m"
  by (auto simp: message_born_def created_message_def well_formed_message_def payload_ok_def falsy_text_def split: option.splits)

lemma change_well_formed: "message_change m m' \<Longrightarrow> well_formed_message m \<Longrightarrow> well_formed_message m'"
  by (auto simp: message_rows well_formed_message_def elim!: message_changeE split: if_splits)

lemma born_schema: "message_born schema_input m \<Longrightarrow> MessageSchema m"
  by (auto simp: message_born_def created_message_def MessageSchema_def schema_input_def)

lemma change_schema: "message_change m m' \<Longrightarrow> MessageSchema m \<Longrightarrow> MessageSchema m'"
  by (auto simp: message_rows MessageSchema_def elim!: message_changeE split: if_splits)

lemma run_every:
  assumes "list_all (inputs_ok Q) evs" "getMessage i (message_run evs) = Some m"
    and "\<And>m. message_born Q m \<Longrightarrow> P m" "\<And>m m'. message_change m m' \<Longrightarrow> P m \<Longrightarrow> P m'"
  shows "P m"
  by (rule msg.steps_invariant [OF mails_kind [OF run_mail [OF assms(1)] mail_empty] mail_empty, where P = P])
    (use assms(2-4) no_message in \<open>auto simp: getMessage_def\<close>)

section \<open>The life of a message\<close>

fun status_rank :: "message_status \<Rightarrow> nat" where
  "status_rank MsgNew = 0"
| "status_rank MsgReceived = 1"
| "status_rank MsgAcked = 2"

definition later_message :: "message \<Rightarrow> message \<Rightarrow> bool" where
  "later_message m m' \<longleftrightarrow> status_rank (ms_status m) \<le> status_rank (ms_status m') \<and>
     (ms_claimedBy m \<noteq> None \<longrightarrow> ms_claimedBy m' = ms_claimedBy m) \<and>
     m' = m\<lparr>ms_status := ms_status m', ms_claimedBy := ms_claimedBy m', ms_scheduledState := ms_scheduledState m',
       ms_updatedAt := ms_updatedAt m'\<rparr>"

lemma later_message_refl: "later_message m m" by (simp add: later_message_def)

lemma later_message_trans: "later_message a b \<Longrightarrow> later_message b c \<Longrightarrow> later_message a c"
  unfolding later_message_def by (cases a; cases b; cases c) auto

lemma change_later_message: "message_change m m' \<Longrightarrow> well_formed_message m \<Longrightarrow> later_message m m'"
  by (auto simp: message_rows later_message_def well_formed_message_def elim!: message_changeE split: if_splits)

lemma steps_life:
  "mail_steps Q s t \<Longrightarrow> mail_ok s \<Longrightarrow> getMessage i s = Some m \<Longrightarrow> well_formed_message m \<Longrightarrow>
    \<exists>m'. getMessage i t = Some m' \<and> later_message m m'"
proof -
  have path: "message_change\<^sup>*\<^sup>* a b \<Longrightarrow> well_formed_message a \<Longrightarrow> later_message a b \<and> well_formed_message b" for a b
    by (induction rule: rtranclp_induct) (auto intro: later_message_refl later_message_trans change_later_message change_well_formed)
  assume "mail_steps Q s t" "mail_ok s" "getMessage i s = Some m" "well_formed_message m"
  with msg.steps_path [OF mails_kind, of Q s t i m] path show ?thesis by (auto simp: getMessage_def)
qed

section \<open>The rows of a kind after a write\<close>

lemma AList_update_new: "k \<notin> fst ` set al \<Longrightarrow> AList.update k v al = al @ [(k, v)]"
  by (induction al) auto

lemma AList_update_old: "k \<in> fst ` set al \<Longrightarrow> distinct (map fst al) \<Longrightarrow>
    AList.update k v al = map (\<lambda>(k', v'). (k', if k' = k then v else v')) al"
proof (induction al)
  case (Cons p al)
  show ?case
  proof (cases "fst p = k")
    case True
    with Cons.prems have "k \<notin> fst ` set al" by auto
    then have "map (\<lambda>(k', v'). (k', if k' = k then v else v')) al = al" by (induction al) auto
    with True show ?thesis by (cases p) simp
  qed (use Cons in \<open>cases p, auto\<close>)
qed simp

context entity_kind
begin

lemma rows_other: "k \<noteq> K \<Longrightarrow> kind_rows dest K (write_row k i e s) = kind_rows dest K s"
  "k \<noteq> K \<Longrightarrow> kind_rows dest K (delete_op k i s) = kind_rows dest K s"
proof -
  assume "k \<noteq> K"
  then show "kind_rows dest K (write_row k i e s) = kind_rows dest K s" by (simp add: kind_rows_def write_row_def Let_def store_simps)
  from \<open>k \<noteq> K\<close> show "kind_rows dest K (delete_op k i s) = kind_rows dest K s"
    by (cases "find_row s k i") (simp_all add: kind_rows_def delete_op_def Let_def store_simps getKindStore_def split: option.split)
qed

lemma map_filter_append: "List.map_filter f (xs @ ys) = List.map_filter f xs @ List.map_filter f ys"
  by (simp add: List.map_filter_def)

lemma rows_create:
  assumes "find_row s K (rid r) = None"
  shows "kind_rows dest K (write_row K (rid r) (mk r) s) = kind_rows dest K s @ [r]"
proof -
  have "rid r \<notin> fst ` set (getKindStore K s)"
    using assms by (auto simp: find_row_def map_of_eq_None_iff)
  from AList_update_new [OF this] show ?thesis
    by (simp add: kind_rows_def write_row_def Let_def store_simps map_filter_append List.map_filter_simps dest_mk)
qed

lemma update_typed:
  assumes "\<forall>p \<in> set ps. \<exists>x. row_data (snd p) = mk x \<and> rid x = fst p"
  shows "List.map_filter (dest \<circ> row_data \<circ> snd) (map (\<lambda>(k', v'). (k', if k' = i then \<lparr>row_data = mk r', row_rv = n\<rparr> else v')) ps) =
    map (\<lambda>x. if rid x = i then r' else x) (List.map_filter (dest \<circ> row_data \<circ> snd) ps)"
  using assms by (induction ps) (auto simp: List.map_filter_simps dest_mk)

lemma rows_update:
  assumes ok: "kind_ok mk rid K s" and r: "row_of dest K i s = Some r" and id: "rid r' = rid r"
  shows "kind_rows dest K (write_row K i (mk r') s) = map (\<lambda>x. if rid x = i then r' else x) (kind_rows dest K s)"
proof -
  let ?st = "getKindStore K s" and ?v = "\<lparr>row_data = mk r', row_rv = Suc (revisionCounter s)\<rparr>"
  have dist: "distinct (map fst ?st)" using ok by (simp add: kind_ok_def plain_store_def kind_store_distinct)
  obtain row where "find_row s K i = Some row" using ok r row_of_find by blast
  then have mem: "i \<in> fst ` set ?st" by (force simp: find_row_def dest: map_of_SomeD)
  have "\<forall>p \<in> set ?st. \<exists>x. row_data (snd p) = mk x \<and> rid x = fst p"
  proof
    fix p assume "p \<in> set ?st"
    with dist have "find_row s K (fst p) = Some (snd p)" by (simp add: find_row_def)
    with ok show "\<exists>x. row_data (snd p) = mk x \<and> rid x = fst p" unfolding kind_ok_def by blast
  qed
  from update_typed [OF this] show ?thesis
    using AList_update_old [OF mem dist, of ?v] by (simp add: kind_rows_def write_row_def Let_def store_simps)
qed

end

section \<open>Sequence numbers\<close>

definition in_thread :: "string \<Rightarrow> hub_store \<Rightarrow> message list" where
  "in_thread t s = filter (\<lambda>m. ms_threadId m = Some t) (kind_rows as_message MESSAGE_KIND s)"

definition counted_up :: "nat \<Rightarrow> int option list" where
  "counted_up n = map (\<lambda>k. Some (int (min k MESSAGE_LIST_CAP))) [0..<n]"

definition sequences_ok :: "hub_store \<Rightarrow> bool" where
  "sequences_ok s \<longleftrightarrow> (\<forall>t. map ms_sequenceInThread (in_thread t s) = counted_up (length (in_thread t s)))"

lemma max_seq_snoc: "max_seq (xs @ [m]) = (case ms_sequenceInThread m of None \<Rightarrow> max_seq xs | Some n \<Rightarrow> max (max_seq xs) n)"
  by (simp add: max_seq_def max_def split: option.split)

lemma max_seq_counted: "map ms_sequenceInThread ms = counted_up (length ms) \<Longrightarrow> length ms \<le> MESSAGE_LIST_CAP \<Longrightarrow> max_seq ms = int (length ms) - 1"
proof (induction ms rule: rev_induct)
  case (snoc m ms)
  then have "map ms_sequenceInThread ms = counted_up (length ms)" "ms_sequenceInThread m = Some (int (min (length ms) MESSAGE_LIST_CAP))"
    by (simp_all add: counted_up_def)
  with snoc show ?case by (simp add: max_seq_snoc)
qed (simp add: max_seq_def)

lemma take_counted: "take c (counted_up n) = counted_up (min n c)"
  by (cases "n \<le> c") (simp_all add: counted_up_def take_map min_def take_upt)

lemma allocate_eq:
  assumes "mail_ok s" "sequences_ok s"
  shows "allocateSequence t s = int (min (length (in_thread t s)) MESSAGE_LIST_CAP)"
proof -
  let ?ms = "take MESSAGE_LIST_CAP (in_thread t s)"
  have "list_messages (\<lambda>m. ms_threadId m = Some t) None MESSAGE_LIST_CAP s = ?ms"
    by (simp add: list_messages_def msg.list_kind_eq [OF assms(1)] in_thread_def MESSAGE_LIST_CAP_def)
  moreover have "map ms_sequenceInThread ?ms = counted_up (length ?ms)"
    using assms(2) unfolding sequences_ok_def by (simp add: take_map [symmetric] take_counted)
  ultimately show ?thesis using max_seq_counted [of ?ms] by (simp add: allocateSequence_def)
qed

lemma filter_same:
  "\<forall>x \<in> set xs. th (g x) = th x \<and> sq (g x) = sq x \<Longrightarrow> map sq (filter (\<lambda>m. th m = t) (map g xs)) = map sq (filter (\<lambda>m. th m = t) xs)"
  by (induction xs) auto

lemma sequences_step: "mail_step Q s t \<Longrightarrow> mail_ok s \<Longrightarrow> sequences_ok s \<Longrightarrow> sequences_ok t"
proof (induction rule: mail_step.induct)
  case (ml_create i q now)
  let ?m = "created_message i now q (sequence_for q s)"
  have "find_row s MESSAGE_KIND (ms_id ?m) = None" using msg.row_of_None [OF ml_create.prems(1)] ml_create.hyps(1) by (simp add: getMessage_def)
  from msg.rows_create [OF this]
  have rows: "in_thread t (write_row MESSAGE_KIND i (EMessage ?m) s) = in_thread t s @ (if ms_threadId ?m = Some t then [?m] else [])" for t
    by (simp add: in_thread_def)
  have "ms_sequenceInThread ?m = Some (int (min (length (in_thread t s)) MESSAGE_LIST_CAP))" if "ms_threadId ?m = Some t" for t
    using that allocate_eq [OF ml_create.prems] by (auto simp: created_message_def sequence_for_def split: if_splits)
  then show ?case using ml_create.prems(2) by (auto simp: sequences_ok_def rows counted_up_def)
next
  case (ml_change i m m')
  have m: "row_of as_message MESSAGE_KIND i s = Some m" using ml_change.hyps(1) by (simp add: getMessage_def)
  have same: "ms_threadId m' = ms_threadId m \<and> ms_sequenceInThread m' = ms_sequenceInThread m"
    using ml_change.hyps(2) by (auto simp: message_rows elim!: message_changeE split: if_splits)
  let ?g = "\<lambda>x. if ms_id x = i then m' else x"
  have "\<forall>x \<in> set (kind_rows as_message MESSAGE_KIND s). ms_threadId (?g x) = ms_threadId x \<and> ms_sequenceInThread (?g x) = ms_sequenceInThread x"
  proof
    fix x assume "x \<in> set (kind_rows as_message MESSAGE_KIND s)"
    then have "ms_id x = i \<longrightarrow> x = m" using msg.kind_rows_ids(2) [OF ml_change.prems(1)] m by auto
    with same show "ms_threadId (?g x) = ms_threadId x \<and> ms_sequenceInThread (?g x) = ms_sequenceInThread x" by auto
  qed
  from filter_same [of _ ms_threadId ?g ms_sequenceInThread, OF this]
  have seqs: "map ms_sequenceInThread (in_thread t (write_row MESSAGE_KIND i (EMessage m') s)) = map ms_sequenceInThread (in_thread t s)" for t
    by (simp add: in_thread_def msg.rows_update [OF ml_change.prems(1) m change_id [OF ml_change.hyps(2)]])
  from arg_cong [OF this, of length] have "length (in_thread t (write_row MESSAGE_KIND i (EMessage m') s)) = length (in_thread t s)" for t by simp
  with seqs ml_change.prems(2) show ?case by (simp add: sequences_ok_def)
qed (simp_all add: sequences_ok_def in_thread_def msg.rows_other)

lemma run_sequences: "sequences_ok (message_run evs)"
proof -
  have "mail_steps (\<lambda>_. True) s t \<Longrightarrow> mail_ok s \<Longrightarrow> sequences_ok s \<Longrightarrow> sequences_ok t" for s t
    by (induction rule: rtranclp_induct) (auto intro: sequences_step mails_ok)
  moreover have "sequences_ok empty_substrate"
    by (simp add: sequences_ok_def in_thread_def kind_rows_def getKindStore_def empty_substrate_def counted_up_def List.map_filter_simps)
  ultimately show ?thesis using run_mail [OF any_input] mail_empty by blast
qed

section \<open>Lists in the order of ids\<close>

lemma id_order_le: "id_order a b \<le> 0 \<longleftrightarrow> ms_id a \<le> ms_id b"
  by (auto simp: id_order_def)

definition id_le :: "message \<Rightarrow> message \<Rightarrow> bool" where
  "id_le a b \<longleftrightarrow> ms_id a \<le> ms_id b"

lemma set_insert_by: "set (insert_by c m ms) = insert m (set ms)"
  by (induction ms) auto

lemma sorted_insert_by: "sorted_wrt id_le ms \<Longrightarrow> sorted_wrt id_le (insert_by id_order m ms)"
proof (induction ms)
  case (Cons x ms)
  note set = set_insert_by [of id_order m ms]
  show ?case
  proof (cases "ms_id m \<le> ms_id x")
    case True
    then have "\<forall>y \<in> set (x # ms). id_le m y" using Cons.prems by (auto simp: id_le_def)
    with True Cons.prems show ?thesis by (simp add: id_order_le)
  next
    case False
    then have "id_le x m" by (simp add: id_le_def)
    with False Cons show ?thesis by (simp add: id_order_le set)
  qed
qed simp

lemma sorted_sort_by: "sorted_wrt id_le (sort_by id_order ms)"
  by (induction ms) (simp_all add: sort_by_def sorted_insert_by)

lemma sort_by_sorted: "sorted_wrt id_le ms \<Longrightarrow> sort_by id_order ms = ms"
proof (induction ms)
  case (Cons m ms)
  then have "sort_by id_order ms = ms" by simp
  with Cons.prems show ?case by (cases ms) (simp_all add: sort_by_def id_order_le id_le_def)
qed (simp add: sort_by_def)

definition pending_for :: "message_role \<Rightarrow> agent_id option \<Rightarrow> string option \<Rightarrow> hub_store \<Rightarrow> message set" where
  "pending_for role agent since s =
     {m. getMessage (ms_id m) s = Some m \<and> ms_status m = MsgNew \<and> Option.bind (ms_target m) mt_role = Some role \<and>
       (agent = None \<or> Option.bind (ms_target m) mt_agentId = agent) \<and> (case since of None \<Rightarrow> True | Some i \<Rightarrow> i < ms_id m)}"

lemma replay_list:
  assumes ok: "mail_ok s"
  obtains ms where "sorted_wrt id_le ms" "distinct (map ms_id ms)" "set ms = pending_for role agent since s"
    "replayFromCursor since (Some role) agent (Some MsgNew) limit s = take (min limit 500) ms"
proof -
  let ?q = "no_query\<lparr>mq_since := since, mq_targetRole := Some role, mq_targetAgentId := agent, mq_status := Some MsgNew\<rparr>"
  let ?rows = "filter (messageQueryToFilter ?q) (kind_rows as_message MESSAGE_KIND s)"
  let ?ms = "sort_by id_order ?rows"
  have sorted: "sorted_wrt id_le ?ms" by (rule sorted_sort_by)
  have mset: "mset ?ms = mset ?rows" by simp
  have "set ?ms = pending_for role agent since s"
    using mset_eq_setD [OF mset] msg.kind_rows_ids(2) [OF ok]
    by (auto simp: pending_for_def messageQueryToFilter_def matchesAdditionalFilters_def no_query_def wanted_def getMessage_def)
  moreover have "mset (map ms_id ?ms) = mset (map ms_id ?rows)" by (simp only: mset_map mset)
  then have "distinct (map ms_id ?ms)"
    using msg.kind_rows_ids(1) [OF ok] by (metis distinct_map_filter mset_eq_imp_distinct_iff)
  moreover have "replayFromCursor since (Some role) agent (Some MsgNew) limit s = take (min limit 500) ?ms"
    using sort_by_sorted [OF sorted_wrt_take [OF sorted, of "min limit 500"]]
    by (simp add: replayFromCursor_def list_messages_def msg.list_kind_eq [OF ok] min_def)
  ultimately show ?thesis using that [OF sorted] by blast
qed

section \<open>The sweep\<close>

text \<open>What the sweep makes of a pending message; None leaves it alone.\<close>

definition sweep_verdict :: "instant \<Rightarrow> hub_store \<Rightarrow> message \<Rightarrow> scheduled_state option" where
  "sweep_verdict now s m =
     (case ms_fireAt m of
        None \<Rightarrow> Some ScPreconditionFailed
      | Some at \<Rightarrow>
          if stamp_text at = [] then Some ScPreconditionFailed
          else (case stamp_ms at of
                  None \<Rightarrow> Some ScPreconditionFailed
                | Some fire \<Rightarrow>
                    if now < fire then None
                    else if verdict_ok (evaluatePrecondition (ms_precondition m) s) then Some ScDelivered
                    else Some ScPreconditionFailed))"

definition swept :: "instant \<Rightarrow> hub_store \<Rightarrow> message \<Rightarrow> message" where
  "swept now s m =
     (case sweep_verdict now s m of None \<Rightarrow> m | Some st \<Rightarrow> m\<lparr>ms_scheduledState := Some st, ms_updatedAt := now\<rparr>)"

lemma evaluate_cong:
  assumes "\<forall>t. getThread t s' = getThread t s"
  shows "evaluatePrecondition p s' = evaluatePrecondition p s"
proof -
  have "thread_still_active args s' = thread_still_active args s" for args
    unfolding thread_still_active_def by (simp add: assms split: option.split json.split)
  then have "map_of PRECONDITIONS f = Some P \<Longrightarrow> P args s' = P args s" for f P args
    by (auto simp: PRECONDITIONS_def split: if_splits)
  then show ?thesis unfolding evaluatePrecondition_def Let_def by (auto split: option.split json.split)
qed

lemma swept_cong: "\<forall>t. getThread t s' = getThread t s \<Longrightarrow> swept now s' m = swept now s m"
  by (simp add: swept_def sweep_verdict_def evaluate_cong [of s' s])

lemma reads_write:
  "getMessage i (write_row MESSAGE_KIND j (EMessage m) s) = (if i = j then Some m else getMessage i s)"
  "k \<noteq> MESSAGE_KIND \<Longrightarrow> getMessage i (write_row k j e s) = getMessage i s"
  "k \<noteq> THREAD_KIND \<Longrightarrow> getThread t (write_row k j e s) = getThread t s"
  by (simp_all add: getMessage_def msg.row_of_write_other getThread_def row_of_def get_op_def store_simps)

lemma logEntry_reads:
  assumes "mail_ok s"
  shows "mail_ok (logEntry action rel s) \<and> getMessage i (logEntry action rel s) = getMessage i s \<and>
    getThread t (logEntry action rel s) = getThread t s"
proof -
  have ne: "COUNTER_KIND \<noteq> THREAD_KIND" "AUDIT_KIND \<noteq> THREAD_KIND" by (simp_all add: COUNTER_KIND_def THREAD_KIND_def AUDIT_KIND_def)
  obtain e where "logEntry action rel s = write_row COUNTER_KIND COUNTER_ID e s \<or>
      (\<exists>j a. logEntry action rel s = write_row AUDIT_KIND j a (write_row COUNTER_KIND COUNTER_ID e s))"
    by (rule logEntry_writes [OF msg.ok_plain [OF assms]])
  with mails_ok [OF audit_mail [OF assms, of "\<lambda>_. True"] assms] ne show ?thesis by (auto simp: reads_write)
qed

text \<open>What one pending message sees of the sweep.\<close>

lemma mark_pending:
  assumes "mail_ok s" "getMessage i s = Some m" "ms_scheduledState m = Some ScPending" "st \<noteq> ScPending"
  shows "markScheduledState now i st s = (Inr (Some (m\<lparr>ms_scheduledState := Some st, ms_updatedAt := now\<rparr>)),
    write_row MESSAGE_KIND i (EMessage (m\<lparr>ms_scheduledState := Some st, ms_updatedAt := now\<rparr>)) s)"
  using assms by (auto simp: mark_eq [OF assms(1)] schedule_row_def)

lemma sweep_one_eq:
  assumes ok: "mail_ok s" and m: "getMessage (ms_id m) s = Some m" "ms_scheduledState m = Some ScPending"
  shows "\<exists>res' s1. sweep_one now m (res, s) = (res', s1) \<and> sw_errors res' = sw_errors res \<and> sw_scanned res' = sw_scanned res \<and>
    sw_fired res' + sw_cancelled res' = sw_fired res + sw_cancelled res + (if sweep_verdict now s m = None then 0 else 1) \<and> mail_ok s1 \<and>
    (\<forall>i. getMessage i s1 = (if i = ms_id m then Some (swept now s m) else getMessage i s)) \<and> (\<forall>t. getThread t s1 = getThread t s)"
proof -
  let ?set = "\<lambda>st. m\<lparr>ms_scheduledState := Some st, ms_updatedAt := now\<rparr>"
  let ?s = "\<lambda>st. write_row MESSAGE_KIND (ms_id m) (EMessage (?set st)) s"
  have id: "ms_id m \<noteq> []" using msg.row_of_id [OF ok] m(1) unfolding getMessage_def by blast
  have ok': "mail_ok (?s st)" for st by (rule msg.ok_write [OF ok]) (use id in simp_all)
  have reads: "getMessage i (?s st) = (if i = ms_id m then Some (?set st) else getMessage i s)" "getThread t (?s st) = getThread t s" for i t st
    by (simp_all add: reads_write)
  have cancel: "\<exists>s1. cancelMessage now m s = (True, s1) \<and> mail_ok s1 \<and>
      (\<forall>i. getMessage i s1 = (if i = ms_id m then Some (?set ScPreconditionFailed) else getMessage i s)) \<and> (\<forall>t. getThread t s1 = getThread t s)"
    using logEntry_reads [OF ok'] reads by (simp add: cancelMessage_def mark_pending [OF ok m])
  have fire: "fireMessage now m s = (True, ?s ScDelivered)" by (simp add: fireMessage_def mark_pending [OF ok m])
  show ?thesis
  proof (cases "sweep_verdict now s m")
    case None
    then have "sweep_one now m (res, s) = (res, s)"
      by (auto simp: sweep_one_def sweep_verdict_def split: option.splits if_splits)
    with ok m None show ?thesis by (auto simp: swept_def)
  next
    case (Some st)
    then consider "st = ScDelivered" "sweep_one now m (res, s) = tally_fire (fireMessage now m s) res"
      | "st = ScPreconditionFailed" "sweep_one now m (res, s) = tally_cancel (cancelMessage now m s) res"
      by (auto simp: sweep_one_def sweep_verdict_def split: option.splits if_splits)
    then show ?thesis
    proof cases
      case 1
      with fire ok' reads Some show ?thesis by (simp add: tally_fire_def swept_def)
    next
      case 2
      with cancel Some show ?thesis by (auto simp: tally_cancel_def swept_def)
    qed
  qed
qed

lemma sweep_all:
  assumes "mail_ok s" "distinct (map ms_id ms)" "\<forall>m \<in> set ms. getMessage (ms_id m) s = Some m \<and> ms_scheduledState m = Some ScPending"
    and "fold (sweep_one now) ms (res, s) = (res', s')"
  shows "sw_errors res' = sw_errors res \<and> sw_scanned res' = sw_scanned res \<and>
    sw_fired res' + sw_cancelled res' = sw_fired res + sw_cancelled res + length (filter (\<lambda>m. sweep_verdict now s m \<noteq> None) ms) \<and>
    (\<forall>m \<in> set ms. getMessage (ms_id m) s' = Some (swept now s m)) \<and>
    (\<forall>i. i \<notin> ms_id ` set ms \<longrightarrow> getMessage i s' = getMessage i s)"
  using assms
proof (induction ms arbitrary: res s)
  case (Cons m ms)
  have m: "getMessage (ms_id m) s = Some m" "ms_scheduledState m = Some ScPending" using Cons.prems(3) by auto
  obtain res1 s1 where one: "sweep_one now m (res, s) = (res1, s1)"
    "sw_errors res1 = sw_errors res" "sw_scanned res1 = sw_scanned res"
    "sw_fired res1 + sw_cancelled res1 = sw_fired res + sw_cancelled res + (if sweep_verdict now s m = None then 0 else 1)" "mail_ok s1"
    and rows: "\<forall>i. getMessage i s1 = (if i = ms_id m then Some (swept now s m) else getMessage i s)" "\<forall>t. getThread t s1 = getThread t s"
    using sweep_one_eq [OF Cons.prems(1) m, of now res] by blast
  have "\<forall>x \<in> set ms. getMessage (ms_id x) s1 = Some x \<and> ms_scheduledState x = Some ScPending"
    using rows(1) Cons.prems(2,3) by (auto simp: image_iff)
  from Cons.IH [OF one(5) _ this, of res1] Cons.prems(2,4) one(1)
  have IH: "sw_errors res' = sw_errors res1" "sw_scanned res' = sw_scanned res1"
      "sw_fired res' + sw_cancelled res' = sw_fired res1 + sw_cancelled res1 + length (filter (\<lambda>m. sweep_verdict now s1 m \<noteq> None) ms)"
      "\<forall>x \<in> set ms. getMessage (ms_id x) s' = Some (swept now s1 x)" "\<forall>i. i \<notin> ms_id ` set ms \<longrightarrow> getMessage i s' = getMessage i s1" by auto
  have verdicts: "sweep_verdict now s1 x = sweep_verdict now s x" for x
    using rows(2) by (simp add: sweep_verdict_def evaluate_cong [of s1 s])
  have "ms_id m \<notin> ms_id ` set ms" using Cons.prems(2) by simp
  with IH(5) rows(1) have "getMessage (ms_id m) s' = Some (swept now s m)" by simp
  with IH one rows(1) show ?case by (simp add: swept_cong [OF rows(2)] verdicts)
qed simp

definition pending_messages :: "hub_store \<Rightarrow> message set" where
  "pending_messages s = {m. getMessage (ms_id m) s = Some m \<and> ms_delivery m = Scheduled \<and> ms_scheduledState m = Some ScPending}"

lemma pending_list:
  assumes ok: "mail_ok s" and few: "card (pending_messages s) \<le> MESSAGE_LIST_CAP"
  shows "set (listMessages (no_query\<lparr>mq_delivery := Some Scheduled, mq_scheduledState := Some ScPending\<rparr>) s) = pending_messages s"
    "distinct (map ms_id (listMessages (no_query\<lparr>mq_delivery := Some Scheduled, mq_scheduledState := Some ScPending\<rparr>) s))"
proof -
  let ?q = "no_query\<lparr>mq_delivery := Some Scheduled, mq_scheduledState := Some ScPending\<rparr>"
  let ?rows = "filter (messageQueryToFilter ?q) (kind_rows as_message MESSAGE_KIND s)"
  let ?list = "list_messages (messageQueryToFilter ?q) (Some latest_first) MESSAGE_LIST_CAP s"
  have set: "set ?rows = pending_messages s"
    using msg.kind_rows_ids(2) [OF ok]
    by (auto simp: pending_messages_def messageQueryToFilter_def matchesAdditionalFilters_def no_query_def wanted_def getMessage_def)
  have ids: "distinct (map ms_id ?rows)" using msg.kind_rows_ids(1) [OF ok] by (metis distinct_map_filter)
  then have "card (pending_messages s) = length ?rows"
    using set by (metis distinct_card distinct_map)
  with few have short: "length ?rows \<le> min MESSAGE_LIST_CAP 500" by (simp add: MESSAGE_LIST_CAP_def)
  have list: "listMessages ?q s = sort_by id_order ?list"
    by (simp add: listMessages_def listFiltered_def no_query_def)
  have mset: "mset (listMessages ?q s) = mset ?list" unfolding list by simp
  have "set ?list = pending_messages s"
    using msg.list_kind_facts(3) [OF ok short] set msg.kind_rows_ids(2) [OF ok] by (auto simp: list_messages_def)
  with mset_eq_setD [OF mset] show "set (listMessages ?q s) = pending_messages s" by simp
  have "distinct (map ms_id ?list)" using msg.list_kind_facts(2) [OF ok] by (simp add: list_messages_def)
  moreover have "mset (map ms_id (listMessages ?q s)) = mset (map ms_id ?list)" by (simp only: mset_map mset)
  ultimately show "distinct (map ms_id (listMessages ?q s))" by (metis mset_eq_imp_distinct_iff)
qed

end
