(* ===== verification/Message_Outcomes.thy ===== *)
theory Message_Outcomes
  imports Message_Properties
begin

text \<open>The properties of the mail, with the runs they are witnessed on.\<close>

section \<open>A run of the mail\<close>

definition demo_note :: "message_role \<Rightarrow> create_message_input" where
  "demo_note role = \<lparr>cm_kind = NoteMsg, cm_authorRole = MrSystem, cm_authorAgentId = ''hub'',
     cm_target = Some \<lparr>mt_role = Some role, mt_agentId = None\<rparr>, cm_delivery = PushImmediate,
     cm_payload = JObj [(''body'', JStr ''hi'')], cm_threadId = Some ''t1'', cm_intent = None, cm_semanticIntent = None,
     cm_converged = None, cm_escalation = None, cm_precondition = None, cm_fireAt = None, cm_retryCount = None,
     cm_maxRetries = None, cm_migrationSourceId = None\<rparr>"

definition demo_timer :: "instant \<Rightarrow> json option \<Rightarrow> create_message_input" where
  "demo_timer at p = (demo_note MrEngineer)\<lparr>cm_delivery := Scheduled, cm_fireAt := Some (Stamp ''at'' (Some at)),
     cm_precondition := p, cm_threadId := None\<rparr>"

definition demo_mail :: "message_event list" where
  "demo_mail = map (\<lambda>(t, q). MessageRequest t q)
     [(100, MCreate ''m1'' (demo_note MrEngineer)), (110, MCreate ''m2'' (demo_note MrArchitect)),
      (120, MCreate ''m3'' (demo_note MrEngineer)), (130, MClaim ''m1'' ''eng'')]"

definition demo_timers :: "message_event list" where
  "demo_timers = map (\<lambda>(t, q). MessageRequest t q)
     [(100, MCreate ''m1'' (demo_timer 300 None)), (110, MCreate ''m2'' (demo_timer 900 None)),
      (120, MCreate ''m3'' (demo_timer 300 (Some (JObj
        [(''fn'', JStr ''thread-still-active''), (''args'', JObj [(''threadId'', JStr ''thread-9'')])]))))]"

section \<open>Properties\<close>

text \<open>
  C19: the type of a stored message.  If every creation is given values that the schema allows, every message any run stores meets
  the schema of a message; and whatever the creations are given, its claimant is set exactly when it is no longer new, its number exactly
  when it is in a thread, the payload of a note has a body, and a scheduled delivery has a schedule state.
\<close>
theorem message_typed:
  assumes "getMessage i (message_run evs) = Some m"
  shows "(list_all (inputs_ok schema_input) evs \<longrightarrow> MessageSchema m) \<and> ms_id m = i \<and>
    (ms_status m = MsgNew \<longleftrightarrow> ms_claimedBy m = None) \<and> (ms_threadId m = None \<longleftrightarrow> ms_sequenceInThread m = None) \<and>
    (ms_kind m = NoteMsg \<longrightarrow> validateNotePayload (ms_payload m)) \<and> (ms_delivery m = Scheduled \<longrightarrow> ms_scheduledState m \<noteq> None)"
proof -
  have "MessageSchema m" if "list_all (inputs_ok schema_input) evs"
    by (rule run_every [OF that assms]) (auto intro: born_schema change_schema)
  moreover have "well_formed_message m"
    by (rule run_every [OF any_input assms]) (auto intro: born_well_formed change_well_formed)
  moreover have "ms_id m = i" using msg.row_of_id [OF run_mail_ok] assms by (simp add: getMessage_def)
  ultimately show ?thesis by (simp add: well_formed_message_def)
qed

lemma demo_mail_row: "\<exists>m. getMessage ''m1'' (message_run demo_mail) = Some m \<and> ms_claimedBy m = Some ''eng''"
proof -
  have "map_option ms_claimedBy (getMessage ''m1'' (message_run demo_mail)) = Some (Some ''eng'')" by code_simp
  then show ?thesis by auto
qed

theorem message_typed_witness:
  "\<exists>m. getMessage ''m1'' (message_run demo_mail) = Some m \<and> MessageSchema m \<and> ms_status m \<noteq> MsgNew"
proof -
  obtain m where m: "getMessage ''m1'' (message_run demo_mail) = Some m" "ms_claimedBy m = Some ''eng''"
    using demo_mail_row by blast
  have "list_all (inputs_ok schema_input) demo_mail" by code_simp
  with message_typed [OF m(1)] m show ?thesis by auto
qed

text \<open>
  C17: a claim is exclusive and the life of a message goes one way.  Whatever is requested later, a stored message keeps its
  id, kind, author, audience, delivery, thread, number, payload and schedule; its status only moves on from new to received to
  acknowledged; and once an agent has claimed it, no later claim makes it another's.
\<close>
theorem message_life:
  assumes "getMessage i (message_run evs) = Some m"
  shows "\<exists>m'. getMessage i (message_run (evs @ later)) = Some m' \<and> status_rank (ms_status m) \<le> status_rank (ms_status m') \<and>
    (\<forall>a. ms_claimedBy m = Some a \<longrightarrow> ms_claimedBy m' = Some a) \<and>
    m' = m\<lparr>ms_status := ms_status m', ms_claimedBy := ms_claimedBy m', ms_scheduledState := ms_scheduledState m',
      ms_updatedAt := ms_updatedAt m'\<rparr>"
proof -
  have "well_formed_message m" by (rule run_every [OF any_input assms]) (auto intro: born_well_formed change_well_formed)
  moreover have "mail_steps (\<lambda>_. True) (message_run evs) (message_run (evs @ later))"
    using fold_mail [OF run_mail_ok any_input] by (simp add: message_run_def)
  ultimately obtain m' where "getMessage i (message_run (evs @ later)) = Some m'" "later_message m m'"
    using steps_life [OF _ run_mail_ok assms] by blast
  then show ?thesis unfolding later_message_def by auto
qed

theorem message_life_witness:
  "\<exists>m. getMessage ''m1'' (message_run (demo_mail @ [MessageRequest 200 (MClaim ''m1'' ''other'')])) = Some m \<and>
     ms_claimedBy m = Some ''eng''"
proof -
  obtain m where "getMessage ''m1'' (message_run demo_mail) = Some m" "ms_claimedBy m = Some ''eng''"
    using demo_mail_row by blast
  with message_life [of "''m1''" demo_mail m "[MessageRequest 200 (MClaim ''m1'' ''other'')]"] show ?thesis by blast
qed

text \<open>
  C22: the numbers of a thread.  In every run the messages of a thread, in the order they were created, are numbered
  0, 1, 2 and so on up to 500, the size of one list; from then on every further message is numbered 500.  So the numbers are
  distinct exactly as long as the thread has at most 501 messages.
\<close>
theorem sequence_numbers:
  "map ms_sequenceInThread (in_thread t (message_run evs)) =
     map (\<lambda>k. Some (int (min k 500))) [0..<length (in_thread t (message_run evs))] \<and>
   (distinct (map ms_sequenceInThread (in_thread t (message_run evs))) \<longleftrightarrow> length (in_thread t (message_run evs)) \<le> 501)"
proof -
  let ?n = "length (in_thread t (message_run evs))"
  have seqs: "map ms_sequenceInThread (in_thread t (message_run evs)) = map (\<lambda>k. Some (int (min k 500))) [0..<?n]"
    using run_sequences [of evs] by (simp add: sequences_ok_def counted_up_def MESSAGE_LIST_CAP_def)
  have "inj_on (\<lambda>k. Some (int (min k 500))) {0..<?n} \<longleftrightarrow> ?n \<le> 501"
  proof
    assume inj: "inj_on (\<lambda>k. Some (int (min k 500))) {0..<?n}"
    show "?n \<le> 501"
    proof (rule ccontr)
      assume "\<not> ?n \<le> 501"
      with inj_onD [OF inj, of 500 501] show False by simp
    qed
  qed (auto simp: inj_on_def)
  then show ?thesis unfolding seqs by (simp add: distinct_map)
qed

text \<open>
  C21: what a replay emits.  A reconnecting subscriber gets the messages pending for it after its cursor in the order of their ids, each once, up
  to the first 500; it is never told that the replay was cut off, also when more than 500 were pending.
\<close>
theorem replay_exact:
  assumes "emitW1bReplay True role agent since (message_run evs) = (sent, truncated)"
  shows "\<not> truncated \<and> sorted_wrt (\<lambda>a b. ms_id a < ms_id b) sent \<and> set sent \<subseteq> pending_for role agent since (message_run evs) \<and>
    length sent = min 500 (card (pending_for role agent since (message_run evs))) \<and>
    (\<forall>m \<in> pending_for role agent since (message_run evs) - set sent. \<forall>e \<in> set sent. ms_id e < ms_id m)"
proof -
  let ?s = "message_run evs"
  obtain ms where ms: "sorted_wrt id_le ms" "distinct (map ms_id ms)" "set ms = pending_for role agent since ?s"
    "replayFromCursor since (Some role) agent (Some MsgNew) REPLAY_SOFT_CAP ?s = take (min REPLAY_SOFT_CAP 500) ms"
    by (rule replay_list [OF run_mail_ok])
  have out: "sent = take 500 ms" "\<not> truncated"
    using assms ms(4) by (auto simp: emitW1bReplay_def Let_def REPLAY_SOFT_CAP_def split: if_splits)
  have strict: "sorted_wrt (\<lambda>a b. ms_id a < ms_id b) ms"
    using ms(1,2) by (induction ms) (auto simp: id_le_def order_le_less)
  have "card (pending_for role agent since ?s) = length ms"
    using ms(2) unfolding ms(3) [symmetric] by (metis distinct_card distinct_map)
  moreover have "ms_id e < ms_id m" if "m \<in> set ms - set sent" "e \<in> set sent" for m e
  proof -
    have "m \<in> set (drop 500 ms)" using that(1) unfolding out by (metis Diff_iff Un_iff append_take_drop_id set_append)
    moreover have "sorted_wrt (\<lambda>a b. ms_id a < ms_id b) (take 500 ms @ drop 500 ms)" using strict by simp
    ultimately show ?thesis using that(2) unfolding out sorted_wrt_append by blast
  qed
  ultimately show ?thesis
    using out sorted_wrt_take [OF strict, of 500] ms(3) set_take_subset [of 500 ms] by auto
qed

theorem replay_exact_witness:
  "\<exists>sent. emitW1bReplay True MrEngineer None (Some ''m1'') (message_run demo_mail) = (sent, False) \<and>
     set sent \<subseteq> pending_for MrEngineer None (Some ''m1'') (message_run demo_mail) \<and> map ms_id sent = [''m3'']"
proof -
  obtain sent truncated where run: "emitW1bReplay True MrEngineer None (Some ''m1'') (message_run demo_mail) = (sent, truncated)"
    by (cases "emitW1bReplay True MrEngineer None (Some ''m1'') (message_run demo_mail)")
  have "map ms_id (fst (emitW1bReplay True MrEngineer None (Some ''m1'') (message_run demo_mail))) = [''m3'']" by code_simp
  with replay_exact [OF run] run show ?thesis by auto
qed



end
