(* ===== verification/Agents.thy ===== *)
theory Agents
  imports Scheduled_Messages
begin

text \<open>
  The agent registry (\<open>hub/src/entities/agent-repository-substrate.ts\<close>): identities, sessions with their epochs,
  liveness and activity.  Besides its rows the registry keeps maps in memory, which a restart of the hub empties; a pointer row for each
  registered session lets a session be resolved again.  Rows are flat and carry all their members, so of the
  normalisation of a stored row only what depends on the liveness remains.  The advisory lock of \<open>assertIdentity\<close> keeps other
  assertions of the same name out; writers that do not take it (the heartbeats) are arguments.
\<close>

section \<open>The registry\<close>

text \<open>What the environment of the process sets: the presence window and the interval between two stored touches.\<close>

record agent_env =
  en_peerPresenceWindowMs :: "int option"
  en_touchMinIntervalMs :: int

record agent_registry =
  rg_store :: hub_store
  rg_sessionRoles :: "string \<Rightarrow> string option"
  rg_roleBoundAt :: "string \<Rightarrow> instant option"
  rg_displacements :: "string \<Rightarrow> instant list"
  rg_sessions :: "string \<Rightarrow> agent_id option"
  rg_lastTouchAt :: "agent_id \<Rightarrow> instant option"

definition AGENT_KIND :: string where "AGENT_KIND = ''Agent''"

definition SESSION_BINDING_KIND :: string where "SESSION_BINDING_KIND = ''AgentSessionBinding''"

fun as_agent :: "hub_entity \<Rightarrow> agent option" where
  "as_agent (EAgent a) = Some a"
| "as_agent _ = None"

datatype agent_error =
    NameRequired
  | AgentRoleMismatch
  | NameCollision
  | AgentIdTaken
  | AgentDisappeared
  | IdentityRetryExhausted
  | UnknownEngineer
  | ThrashingDetected
  | ClaimContention
  | AgentStoreThrew store_error

section \<open>Rows\<close>

definition normalizeAgentShape :: "agent \<Rightarrow> agent" where
  "normalizeAgentShape a =
     a\<lparr>ag_activityState := (if ag_livenessState a \<noteq> LvOnline then AcOffline else ag_activityState a)\<rparr>"

definition applyLivenessRecompute :: "agent \<Rightarrow> instant \<Rightarrow> agent" where
  "applyLivenessRecompute a now =
     (let l = computeLivenessState a now
      in a\<lparr>ag_livenessState := l, ag_status := (if l = LvOnline then AgOnline else AgOffline)\<rparr>)"

definition isAgentReachable :: "agent_env \<Rightarrow> agent \<Rightarrow> instant \<Rightarrow> bool" where
  "isAgentReachable env a now \<longleftrightarrow>
     \<not> ag_archived a \<and> ag_livenessState a \<noteq> LvOffline \<and>
     now - ag_lastHeartbeatAt a \<le> resolveLivenessConfig (en_peerPresenceWindowMs env) a"

text \<open>The metadata fills in the tags the caller has not set.\<close>

definition no_tags :: agent_advisory_tags where
  "no_tags = \<lparr>at_llmModel = None, at_sdkVersion = None, at_shimVersion = None, at_proxyCommitSha = None,
     at_proxyDirty = None, at_sdkCommitSha = None, at_sdkDirty = None, at_others = []\<rparr>"

definition filled :: "'a option \<Rightarrow> 'a option \<Rightarrow> 'a option" where
  "filled have alt = (case have of None \<Rightarrow> alt | Some x \<Rightarrow> Some x)"

definition truthy_text :: "string option \<Rightarrow> string option" where
  "truthy_text x = (if falsy_text x then None else x)"

definition deriveAdvisoryTags :: "agent_advisory_tags option \<Rightarrow> agent_client_metadata \<Rightarrow> agent_advisory_tags" where
  "deriveAdvisoryTags incoming m =
     (let base = (case incoming of None \<Rightarrow> no_tags | Some t \<Rightarrow> t)
      in base\<lparr>at_sdkVersion := filled (at_sdkVersion base) (truthy_text (am_sdkVersion m)),
              at_shimVersion := filled (at_shimVersion base) (truthy_text (Some (am_proxyVersion m))),
              at_proxyCommitSha := filled (at_proxyCommitSha base) (truthy_text (am_proxyCommitSha m)),
              at_proxyDirty := filled (at_proxyDirty base) (am_proxyDirty m),
              at_sdkCommitSha := filled (at_sdkCommitSha base) (truthy_text (am_sdkCommitSha m)),
              at_sdkDirty := filled (at_sdkDirty base) (am_sdkDirty m)\<rparr>)"

section \<open>Session pointers\<close>

text \<open>The newest eight sessions, each once.\<close>

definition appendRegisteredSession :: "string list \<Rightarrow> string \<Rightarrow> string list" where
  "appendRegisteredSession xs sid = (let next = filter (\<lambda>x. x \<noteq> sid) xs @ [sid] in drop (length next - 8) next)"

text \<open>A pointer row that cannot be written is left out.\<close>

definition put_pointer :: "agent_id \<Rightarrow> string \<Rightarrow> hub_store \<Rightarrow> hub_store" where
  "put_pointer agentId sid s =
     (case put_op ident SESSION_BINDING_KIND (ESessionBinding sid agentId) s of Inl z \<Rightarrow> s | Inr (out, s') \<Rightarrow> s')"

definition reconcileSessionBindings :: "agent_id \<Rightarrow> string list \<Rightarrow> string list \<Rightarrow> hub_store \<Rightarrow> hub_store" where
  "reconcileSessionBindings agentId before after s =
     fold (delete_op SESSION_BINDING_KIND) (filter (\<lambda>x. x \<notin> set after) (js_unique before))
       (fold (put_pointer agentId) (filter (\<lambda>x. x \<notin> set before) (js_unique after)) s)"

section \<open>Reads and writes of a row\<close>

definition loadAgent :: "agent_id \<Rightarrow> hub_store \<Rightarrow> agent option" where
  "loadAgent i s = row_of as_agent AGENT_KIND i s"

definition loadAgentWithRevision :: "agent_id \<Rightarrow> hub_store \<Rightarrow> (agent \<times> revision) option" where
  "loadAgentWithRevision i s =
     (case getWithRevision AGENT_KIND i s of
        None \<Rightarrow> None
      | Some (e, rv) \<Rightarrow> (case as_agent e of None \<Rightarrow> None | Some a \<Rightarrow> Some (a, rv)))"

definition putIfMatchAgent :: "agent \<Rightarrow> revision \<Rightarrow> hub_store \<Rightarrow> (store_error + bool) \<times> hub_store" where
  "putIfMatchAgent a rv s = cas_row ident AGENT_KIND (EAgent a) rv s"

text \<open>
  The updates that are tried once: they do nothing when the row is missing, when the transform has nothing to do, or when another
  write came between the read and the write.  The answer is whether the row was written.
\<close>

definition update_once_with :: "(hub_store \<Rightarrow> hub_store) \<Rightarrow> agent_id \<Rightarrow> (agent \<Rightarrow> agent option) \<Rightarrow> hub_store \<Rightarrow> bool \<times> hub_store" where
  "update_once_with others i f s =
     (case loadAgentWithRevision i s of
        None \<Rightarrow> (False, s)
      | Some (row, rv) \<Rightarrow>
          (case f (normalizeAgentShape row) of
             None \<Rightarrow> (False, s)
           | Some a \<Rightarrow> (case putIfMatchAgent a rv (others s) of (r, s') \<Rightarrow> (r = Inr True, s'))))"

definition update_once :: "agent_id \<Rightarrow> (agent \<Rightarrow> agent option) \<Rightarrow> agent_registry \<Rightarrow> agent_registry" where
  "update_once i f rg = rg\<lparr>rg_store := snd (update_once_with id i f (rg_store rg))\<rparr>"

section \<open>Session roles\<close>

definition setSessionRole :: "instant \<Rightarrow> string \<Rightarrow> string \<Rightarrow> agent_registry \<Rightarrow> agent_registry" where
  "setSessionRole now sid role rg =
     rg\<lparr>rg_sessionRoles := (rg_sessionRoles rg)(sid \<mapsto> role),
        rg_roleBoundAt := (if rg_roleBoundAt rg sid = None then (rg_roleBoundAt rg)(sid \<mapsto> now) else rg_roleBoundAt rg)\<rparr>"

definition identityWindowElapsedMs :: "instant \<Rightarrow> string \<Rightarrow> agent_registry \<Rightarrow> int option" where
  "identityWindowElapsedMs now sid rg = map_option (\<lambda>at. max 0 (now - at)) (rg_roleBoundAt rg sid)"

definition getRole :: "string \<Rightarrow> agent_registry \<Rightarrow> string" where
  "getRole sid rg = (case truthy_text (rg_sessionRoles rg sid) of None \<Rightarrow> ''unknown'' | Some r \<Rightarrow> r)"

definition forgetSession :: "string \<Rightarrow> agent_registry \<Rightarrow> agent_registry" where
  "forgetSession sid rg =
     rg\<lparr>rg_sessionRoles := (rg_sessionRoles rg)(sid := None), rg_sessions := (rg_sessions rg)(sid := None),
        rg_roleBoundAt := (rg_roleBoundAt rg)(sid := None)\<rparr>"

section \<open>Identity\<close>

record identity_payload =
  ip_name :: string
  ip_role :: string
  ip_clientMetadata :: agent_client_metadata
  ip_advisoryTags :: "agent_advisory_tags option"
  ip_labels :: "agent_labels option"
  ip_wakeEndpoint :: "string option"
  ip_receiptSla :: "int option"

record identity_result =
  ir_agentId :: agent_id
  ir_wasCreated :: bool
  ir_clientMetadata :: agent_client_metadata
  ir_advisoryTags :: agent_advisory_tags
  ir_labels :: agent_labels
  ir_priorLabels :: "agent_labels option"

definition DEFAULT_AGENT_RECEIPT_SLA_MS :: int where "DEFAULT_AGENT_RECEIPT_SLA_MS = 60000"

definition new_agent :: "sha256 \<Rightarrow> instant \<Rightarrow> identity_payload \<Rightarrow> string option \<Rightarrow> agent" where
  "new_agent sha now p sid =
     \<lparr>ag_id = deriveAgentId sha (ip_name p), ag_fingerprint = sha (ip_name p), ag_role = ip_role p, ag_status = AgOffline,
      ag_archived = False, ag_sessionEpoch = 0, ag_currentSessionId = None,
      ag_registeredSessions = (if falsy_text sid then [] else [the sid]), ag_clientMetadata = ip_clientMetadata p,
      ag_advisoryTags = deriveAdvisoryTags (ip_advisoryTags p) (ip_clientMetadata p),
      ag_labels = (case ip_labels p of None \<Rightarrow> [] | Some l \<Rightarrow> l), ag_firstSeenAt = now, ag_lastSeenAt = now,
      ag_livenessState = LvOffline, ag_lastHeartbeatAt = now,
      ag_receiptSla = (case ip_receiptSla p of None \<Rightarrow> DEFAULT_AGENT_RECEIPT_SLA_MS | Some n \<Rightarrow> n),
      ag_wakeEndpoint = ip_wakeEndpoint p, ag_name = ip_name p, ag_activityState = AcOffline,
      ag_sessionStartedAt = None, ag_lastToolCallAt = None, ag_lastToolCallName = None, ag_idleSince = None,
      ag_workingSince = None, ag_quotaBlockedUntil = None,
      ag_adapterVersion = (case am_sdkVersion (ip_clientMetadata p) of None \<Rightarrow> [] | Some v \<Rightarrow> v), ag_ipAddress = None,
      ag_restartCount = 0, ag_recentErrors = [], ag_restartHistoryMs = [], ag_cognitiveTTL = None,
      ag_transportTTL = None, ag_cognitiveState = CsUnknown, ag_transportState = CsUnknown, ag_livenessConfig = None,
      ag_pulseConfig = None, ag_thrashCount = 0, ag_quarantined = False\<rparr>"

text \<open>The refresh of a known agent; the tags and labels are those worked out from the first read.\<close>

definition refreshed_agent :: "agent_env \<Rightarrow> instant \<Rightarrow> identity_payload \<Rightarrow> string option \<Rightarrow> agent_advisory_tags \<Rightarrow> agent_labels
    \<Rightarrow> agent \<Rightarrow> agent" where
  "refreshed_agent env now p sid tags labels a =
     computeComponentStates (en_peerPresenceWindowMs env) now
       (a\<lparr>ag_archived := False, ag_clientMetadata := ip_clientMetadata p, ag_advisoryTags := tags, ag_labels := labels,
          ag_registeredSessions := (if falsy_text sid then ag_registeredSessions a
                                    else appendRegisteredSession (ag_registeredSessions a) (the sid)),
          ag_lastHeartbeatAt := now,
          ag_receiptSla := (case ip_receiptSla p of None \<Rightarrow> ag_receiptSla a | Some n \<Rightarrow> n),
          ag_wakeEndpoint := filled (ip_wakeEndpoint p) (ag_wakeEndpoint a)\<rparr>)"

definition identity_committed :: "agent_id \<Rightarrow> string option \<Rightarrow> string list \<Rightarrow> string list \<Rightarrow> hub_store \<Rightarrow> agent_registry \<Rightarrow> agent_registry" where
  "identity_committed i sid before after s rg =
     rg\<lparr>rg_store := reconcileSessionBindings i before after s,
        rg_sessions := (if falsy_text sid then rg_sessions rg else (rg_sessions rg)(the sid \<mapsto> i))\<rparr>"

definition hosts_differ :: "agent \<Rightarrow> identity_payload \<Rightarrow> bool" where
  "hosts_differ a p \<longleftrightarrow>
     (let prior = am_hostname (ag_clientMetadata a); new = am_hostname (ip_clientMetadata p)
      in \<not> falsy_text prior \<and> \<not> falsy_text new \<and> prior \<noteq> new)"

definition identity_of :: "agent \<Rightarrow> bool \<Rightarrow> agent_labels option \<Rightarrow> identity_result" where
  "identity_of a created priorLabels =
     \<lparr>ir_agentId = ag_id a, ir_wasCreated = created, ir_clientMetadata = ag_clientMetadata a,
      ir_advisoryTags = ag_advisoryTags a, ir_labels = ag_labels a, ir_priorLabels = priorLabels\<rparr>"

definition assertIdentity_with :: "(hub_store \<Rightarrow> hub_store) \<Rightarrow> (hub_store \<Rightarrow> hub_store) \<Rightarrow> sha256 \<Rightarrow> agent_env \<Rightarrow> instant
    \<Rightarrow> identity_payload \<Rightarrow> string option \<Rightarrow> agent_registry \<Rightarrow> (agent_error + identity_result) \<times> agent_registry" where
  "assertIdentity_with first second sha env now p sid rg =
     (let s = rg_store rg in
      if ip_name p = [] then (Inl NameRequired, rg)
      else case list_kind as_agent AGENT_KIND (\<lambda>a. ag_fingerprint a = sha (ip_name p)) None 1 s of
          [] \<Rightarrow>
            (let a = new_agent sha now p sid in
             case createOnly ident AGENT_KIND (EAgent a) s of
               Inl z \<Rightarrow> (Inl (AgentStoreThrew z), rg)
             | Inr (ExistingConflict, s') \<Rightarrow> (Inl AgentIdTaken, rg\<lparr>rg_store := s'\<rparr>)
             | Inr (Created i rv, s') \<Rightarrow>
                 (Inr (identity_of a True None), identity_committed (ag_id a) sid [] (ag_registeredSessions a) s' rg))
        | known # _ \<Rightarrow>
            (case loadAgentWithRevision (ag_id known) s of
               None \<Rightarrow> (Inl AgentDisappeared, rg)
             | Some (row, rv) \<Rightarrow>
                 (let a = normalizeAgentShape row in
                  if ag_role a \<noteq> ip_role p then (Inl AgentRoleMismatch, rg)
                  else if hosts_differ a p then (Inl NameCollision, rg)
                  else
                    (let labels = (case ip_labels p of None \<Rightarrow> ag_labels a | Some l \<Rightarrow> l);
                         tags = deriveAdvisoryTags (filled (ip_advisoryTags p) (Some (ag_advisoryTags a))) (ip_clientMetadata p);
                         priorLabels = (if shallowEqualLabels (ag_labels a) labels then None else Some (ag_labels a));
                         a' = refreshed_agent env now p sid tags labels a
                     in case putIfMatchAgent a' rv (first s) of
                          (Inl z, s') \<Rightarrow> (Inl (AgentStoreThrew z), rg\<lparr>rg_store := s'\<rparr>)
                        | (Inr True, s') \<Rightarrow>
                            (Inr (identity_of a' False priorLabels),
                             identity_committed (ag_id a') sid (ag_registeredSessions a) (ag_registeredSessions a') s' rg)
                        | (Inr False, s') \<Rightarrow>
                            (case loadAgentWithRevision (ag_id known) s' of
                               None \<Rightarrow> (Inl AgentDisappeared, rg\<lparr>rg_store := s'\<rparr>)
                             | Some (row2, rv2) \<Rightarrow>
                                 (let b = normalizeAgentShape row2; b' = refreshed_agent env now p sid tags labels b
                                  in case putIfMatchAgent b' rv2 (second s') of
                                       (Inl z, s'') \<Rightarrow> (Inl (AgentStoreThrew z), rg\<lparr>rg_store := s''\<rparr>)
                                     | (Inr True, s'') \<Rightarrow>
                                         (Inr (identity_of a' False priorLabels),
                                          identity_committed (ag_id a') sid (ag_registeredSessions b) (ag_registeredSessions b') s'' rg)
                                     | (Inr False, s'') \<Rightarrow> (Inl IdentityRetryExhausted, rg\<lparr>rg_store := s''\<rparr>)))))))"

definition assertIdentity :: "sha256 \<Rightarrow> agent_env \<Rightarrow> instant \<Rightarrow> identity_payload \<Rightarrow> string option \<Rightarrow> agent_registry
    \<Rightarrow> (agent_error + identity_result) \<times> agent_registry" where
  "assertIdentity = assertIdentity_with id id"

section \<open>Sessions\<close>

record claim_result =
  cr_agentId :: agent_id
  cr_sessionEpoch :: int
  cr_displaced :: "(string \<times> int) option"

definition AGENT_RESTART_HISTORY_CAP :: nat where "AGENT_RESTART_HISTORY_CAP = 50"

definition displaced_by :: "string \<Rightarrow> agent \<Rightarrow> (string \<times> int) option" where
  "displaced_by sid a =
     (case truthy_text (ag_currentSessionId a) of
        None \<Rightarrow> None
      | Some c \<Rightarrow> if c = sid then None else Some (c, ag_sessionEpoch a))"

definition claimed_agent :: "agent_env \<Rightarrow> instant \<Rightarrow> string \<Rightarrow> agent \<Rightarrow> agent" where
  "claimed_agent env now sid a =
     (let history = ag_restartHistoryMs a @ [now];
          history = drop (length history - AGENT_RESTART_HISTORY_CAP) history;
          kept = filter (\<lambda>x. map_option fst (displaced_by sid a) \<noteq> Some x) (ag_registeredSessions a)
      in computeComponentStates (en_peerPresenceWindowMs env) now
           (a\<lparr>ag_sessionEpoch := ag_sessionEpoch a + 1, ag_currentSessionId := Some sid,
              ag_registeredSessions := appendRegisteredSession kept sid, ag_status := AgOnline,
              ag_livenessState := LvOnline, ag_lastHeartbeatAt := now, ag_activityState := AcIdle,
              ag_sessionStartedAt := Some now, ag_idleSince := Some now, ag_workingSince := None,
              ag_restartHistoryMs := history, ag_restartCount := length (filter (\<lambda>t. now - t \<le> 86400000) history)\<rparr>))"

text \<open>
  A claim is tried as often as the list says what others do between its read and its write (twice in the code).  An agent that is
  online is asked for the rate of its claims first.
\<close>

fun claim_attempts :: "agent_env \<Rightarrow> instant \<Rightarrow> agent_id \<Rightarrow> string \<Rightarrow> (hub_store \<Rightarrow> hub_store) list \<Rightarrow> agent_registry
    \<Rightarrow> (agent_error + claim_result) \<times> agent_registry" where
  "claim_attempts env now i sid [] rg = (Inl ClaimContention, rg)"
| "claim_attempts env now i sid (others # rest) rg =
     (case loadAgentWithRevision i (rg_store rg) of
        None \<Rightarrow> (Inl UnknownEngineer, rg)
      | Some (row, rv) \<Rightarrow>
          (let a = normalizeAgentShape row;
               checked = recordDisplacementAndCheck (rg_displacements rg (ag_fingerprint a)) now;
               rg = (if ag_status a = AgOnline
                     then rg\<lparr>rg_displacements := (rg_displacements rg)(ag_fingerprint a := fst checked)\<rparr> else rg)
           in if ag_status a = AgOnline \<and> snd checked then (Inl ThrashingDetected, rg)
              else
                (let a' = claimed_agent env now sid a; displaced = displaced_by sid a
                 in case putIfMatchAgent a' rv (others (rg_store rg)) of
                      (Inl z, s') \<Rightarrow> (Inl (AgentStoreThrew z), rg\<lparr>rg_store := s'\<rparr>)
                    | (Inr False, s') \<Rightarrow> claim_attempts env now i sid rest (rg\<lparr>rg_store := s'\<rparr>)
                    | (Inr True, s') \<Rightarrow>
                        (let rg = rg\<lparr>rg_store := reconcileSessionBindings (ag_id a') (ag_registeredSessions a) (ag_registeredSessions a') s',
                                     rg_sessions := (rg_sessions rg)(sid \<mapsto> ag_id a'),
                                     rg_lastTouchAt := (rg_lastTouchAt rg)(ag_id a' \<mapsto> now)\<rparr>;
                             rg = (case displaced of None \<Rightarrow> rg | Some (d, e) \<Rightarrow> forgetSession d rg)
                         in (Inr \<lparr>cr_agentId = ag_id a', cr_sessionEpoch = ag_sessionEpoch a', cr_displaced = displaced\<rparr>, rg)))))"

definition claimSession :: "agent_env \<Rightarrow> instant \<Rightarrow> agent_id \<Rightarrow> string \<Rightarrow> agent_registry \<Rightarrow> (agent_error + claim_result) \<times> agent_registry" where
  "claimSession env now i sid = claim_attempts env now i sid [id, id]"

text \<open>Registration asserts the identity and then claims the session.\<close>

definition registerAgent :: "sha256 \<Rightarrow> agent_env \<Rightarrow> instant \<Rightarrow> string \<Rightarrow> string \<Rightarrow> identity_payload \<Rightarrow> agent_registry
    \<Rightarrow> (agent_error + identity_result \<times> claim_result) \<times> agent_registry" where
  "registerAgent sha env now sid tokenRole p rg =
     (case assertIdentity sha env now (p\<lparr>ip_role := tokenRole\<rparr>) (Some sid)
             (rg\<lparr>rg_sessionRoles := (rg_sessionRoles rg)(sid \<mapsto> tokenRole)\<rparr>) of
        (Inl e, rg) \<Rightarrow> (Inl e, rg)
      | (Inr identity, rg) \<Rightarrow>
          (case claimSession env now (ir_agentId identity) sid rg of
             (Inl e, rg) \<Rightarrow> (Inl e, rg)
           | (Inr claim, rg) \<Rightarrow> (Inr (identity, claim), rg)))"

section \<open>Lookups\<close>

definition getAgent :: "instant \<Rightarrow> agent_id \<Rightarrow> agent_registry \<Rightarrow> agent option" where
  "getAgent now i rg = map_option (\<lambda>a. applyLivenessRecompute (normalizeAgentShape a) now) (loadAgent i (rg_store rg))"

definition bound_agent :: "string \<Rightarrow> hub_store \<Rightarrow> agent_id option" where
  "bound_agent sid s = (case get_op SESSION_BINDING_KIND sid s of Some (ESessionBinding x i) \<Rightarrow> truthy_text (Some i) | _ \<Rightarrow> None)"

definition getAgentForSession :: "instant \<Rightarrow> string \<Rightarrow> agent_registry \<Rightarrow> agent option \<times> agent_registry" where
  "getAgentForSession now sid rg =
     (case truthy_text (rg_sessions rg sid) of
        Some i \<Rightarrow> (getAgent now i rg, rg)
      | None \<Rightarrow>
          (case bound_agent sid (rg_store rg) of
             None \<Rightarrow> (None, rg)
           | Some i \<Rightarrow>
               (case getAgent now i rg of
                  None \<Rightarrow> (None, rg)
                | Some a \<Rightarrow>
                    if ag_archived a then (None, rg) else (Some a, rg\<lparr>rg_sessions := (rg_sessions rg)(sid \<mapsto> ag_id a)\<rparr>))))"

definition AGENT_LIST_LIMIT :: nat where "AGENT_LIST_LIMIT = 500"

definition listAgents :: "instant \<Rightarrow> agent_registry \<Rightarrow> agent list" where
  "listAgents now rg =
     map (\<lambda>a. applyLivenessRecompute (normalizeAgentShape a) now)
       (list_kind as_agent AGENT_KIND (\<lambda>_. True) None AGENT_LIST_LIMIT (rg_store rg))"

record agent_selector =
  sl_agentId :: "agent_id option"
  sl_agentIds :: "agent_id list"
  sl_roles :: "string list option"
  sl_matchLabels :: "agent_labels option"

definition selected :: "agent_env \<Rightarrow> instant \<Rightarrow> agent_selector \<Rightarrow> agent \<Rightarrow> bool" where
  "selected env now q a \<longleftrightarrow>
     isAgentReachable env a now \<and> (case sl_roles q of None \<Rightarrow> True | Some rs \<Rightarrow> ag_role a \<in> set rs) \<and>
     labelsMatch (ag_labels a) (sl_matchLabels q)"

definition selectAgents :: "agent_env \<Rightarrow> instant \<Rightarrow> agent_selector \<Rightarrow> agent_registry \<Rightarrow> agent list" where
  "selectAgents env now q rg =
     (case truthy_text (sl_agentId q) of
        Some i \<Rightarrow>
          (case getAgent now i rg of
             None \<Rightarrow> []
           | Some a \<Rightarrow>
               if (sl_agentIds q = [] \<or> ag_id a \<in> set (sl_agentIds q)) \<and> selected env now q a then [a] else [])
      | None \<Rightarrow>
          if sl_agentIds q \<noteq> [] then
            filter (selected env now q) (List.map_filter (\<lambda>i. getAgent now i rg) (js_unique (sl_agentIds q)))
          else filter (selected env now q) (listAgents now rg))"

definition listOfflineAgentsOlderThan :: "instant \<Rightarrow> int \<Rightarrow> agent_registry \<Rightarrow> agent list" where
  "listOfflineAgentsOlderThan now threshold rg =
     filter (\<lambda>a. \<not> ag_archived a \<and> (ag_status a = AgOffline \<or> ag_livenessState a = LvOffline) \<and>
        threshold < now - ag_lastSeenAt a) (listAgents now rg)"

section \<open>Liveness and activity\<close>

definition touchAgent :: "agent_env \<Rightarrow> instant \<Rightarrow> string \<Rightarrow> agent_registry \<Rightarrow> agent_registry" where
  "touchAgent env now sid rg =
     (case truthy_text (rg_sessions rg sid) of
        None \<Rightarrow> rg
      | Some i \<Rightarrow>
          if now - (case rg_lastTouchAt rg i of None \<Rightarrow> 0 | Some t \<Rightarrow> t) < en_touchMinIntervalMs env then rg
          else update_once i (\<lambda>a. if ag_currentSessionId a \<noteq> Some sid then None
                 else Some (computeComponentStates (en_peerPresenceWindowMs env) now
                              (a\<lparr>ag_lastSeenAt := now, ag_status := AgOnline\<rparr>)))
                 (rg\<lparr>rg_lastTouchAt := (rg_lastTouchAt rg)(i \<mapsto> now)\<rparr>))"

definition refreshHeartbeat :: "agent_env \<Rightarrow> instant \<Rightarrow> agent_id \<Rightarrow> agent_registry \<Rightarrow> agent_registry" where
  "refreshHeartbeat env now i =
     update_once i (\<lambda>a. Some (computeComponentStates (en_peerPresenceWindowMs env) now
       (a\<lparr>ag_lastHeartbeatAt := now, ag_livenessState := LvOnline\<rparr>)))"

definition setLivenessState :: "agent_id \<Rightarrow> agent_liveness \<Rightarrow> agent_registry \<Rightarrow> agent_registry" where
  "setLivenessState i l = update_once i (\<lambda>a. Some (a\<lparr>ag_livenessState := l\<rparr>))"

definition setActivityState :: "agent_id \<Rightarrow> activity_state \<Rightarrow> agent_registry \<Rightarrow> agent_registry" where
  "setActivityState i st = update_once i (\<lambda>a. Some (a\<lparr>ag_activityState := st\<rparr>))"

definition recordToolCallStart :: "instant \<Rightarrow> agent_id \<Rightarrow> string \<Rightarrow> agent_registry \<Rightarrow> agent_registry" where
  "recordToolCallStart now i tool =
     update_once i (\<lambda>a. Some (a\<lparr>ag_activityState := AcWorking, ag_lastToolCallAt := Some now,
       ag_lastToolCallName := Some tool, ag_workingSince := Some now, ag_idleSince := None\<rparr>))"

definition recordToolCallComplete :: "instant \<Rightarrow> agent_id \<Rightarrow> agent_registry \<Rightarrow> agent_registry" where
  "recordToolCallComplete now i =
     update_once i (\<lambda>a. Some (a\<lparr>ag_activityState := AcIdle, ag_idleSince := Some now, ag_workingSince := None\<rparr>))"

definition recordQuotaBlocked :: "instant \<Rightarrow> agent_id \<Rightarrow> int \<Rightarrow> agent_registry \<Rightarrow> agent_registry" where
  "recordQuotaBlocked now i retryAfterSeconds =
     update_once i (\<lambda>a. Some (a\<lparr>ag_activityState := AcQuotaBlocked,
       ag_quotaBlockedUntil := Some (now + retryAfterSeconds * 1000), ag_workingSince := None\<rparr>))"

definition recordQuotaRecovered :: "instant \<Rightarrow> agent_id \<Rightarrow> agent_registry \<Rightarrow> agent_registry" where
  "recordQuotaRecovered now i =
     update_once i (\<lambda>a. Some (a\<lparr>ag_activityState := AcIdle, ag_idleSince := Some now, ag_quotaBlockedUntil := None\<rparr>))"

definition AGENT_RECENT_ERRORS_CAP :: nat where "AGENT_RECENT_ERRORS_CAP = 10"

definition recordAgentError :: "agent_id \<Rightarrow> agent_error_record \<Rightarrow> agent_registry \<Rightarrow> agent_registry" where
  "recordAgentError i e =
     update_once i (\<lambda>a. let errors = ag_recentErrors a @ [e]
       in Some (a\<lparr>ag_recentErrors := drop (length errors - AGENT_RECENT_ERRORS_CAP) errors\<rparr>))"

definition updateAgentPulseLastFiredAt :: "agent_id \<Rightarrow> string \<Rightarrow> agent_registry \<Rightarrow> agent_registry" where
  "updateAgentPulseLastFiredAt i at =
     update_once i (\<lambda>a. case ag_pulseConfig a of
         None \<Rightarrow> None
       | Some pc \<Rightarrow> Some (a\<lparr>ag_pulseConfig := Some (pc\<lparr>ap_lastFiredAt := Some at\<rparr>)\<rparr>))"

definition markAgentOffline :: "instant \<Rightarrow> string \<Rightarrow> agent_registry \<Rightarrow> agent_registry" where
  "markAgentOffline now sid rg =
     (let rg' = rg\<lparr>rg_sessions := (rg_sessions rg)(sid := None)\<rparr> in
      case truthy_text (rg_sessions rg sid) of
        None \<Rightarrow> rg'
      | Some i \<Rightarrow>
          update_once i (\<lambda>a. if ag_currentSessionId a \<noteq> Some sid then None
            else Some (a\<lparr>ag_status := AgOffline, ag_livenessState := LvOffline, ag_lastSeenAt := now\<rparr>)) rg')"

text \<open>The answer of an archival: whether the agent is archived.\<close>

definition archiveAgent_with :: "(hub_store \<Rightarrow> hub_store) \<Rightarrow> agent_id \<Rightarrow> agent_registry \<Rightarrow> bool \<times> agent_registry" where
  "archiveAgent_with others i rg =
     (case loadAgent i (rg_store rg) of
        None \<Rightarrow> (False, rg)
      | Some a \<Rightarrow>
          if ag_archived a then (True, rg)
          else (case update_once_with others i (\<lambda>a. Some (a\<lparr>ag_archived := True\<rparr>)) (rg_store rg) of
                  (written, s') \<Rightarrow> (written, rg\<lparr>rg_store := s'\<rparr>)))"

definition archiveAgent :: "agent_id \<Rightarrow> agent_registry \<Rightarrow> bool \<times> agent_registry" where
  "archiveAgent = archiveAgent_with id"

definition deleteAgent :: "agent_id \<Rightarrow> agent_registry \<Rightarrow> bool \<times> agent_registry" where
  "deleteAgent i rg =
     (case loadAgent i (rg_store rg) of
        None \<Rightarrow> (False, rg)
      | Some a \<Rightarrow>
          (True, rg\<lparr>rg_store := delete_op AGENT_KIND i (rg_store rg),
                   rg_displacements := (rg_displacements rg)(ag_fingerprint a := []),
                   rg_lastTouchAt := (rg_lastTouchAt rg)(i := None),
                   rg_sessions := (\<lambda>sid. if rg_sessions rg sid = Some i then None else rg_sessions rg sid)\<rparr>))"

section \<open>The thrash counter\<close>

text \<open>Best effort: after five lost races the count is left alone.\<close>

definition thrash_update :: "hub_store attempt list \<Rightarrow> agent_id \<Rightarrow> (agent \<Rightarrow> unit + agent) \<Rightarrow> hub_store
    \<Rightarrow> (store_error + agent option) \<times> hub_store" where
  "thrash_update envs i f s =
     (case cas_update AGENT_KIND EAgent as_agent envs i (\<lambda>row. f (normalizeAgentShape row)) s of
        (CasDone e, s') \<Rightarrow> (Inr (as_agent e), s')
      | (CasThrew z, s') \<Rightarrow> (Inl z, s')
      | (_, s') \<Rightarrow> (Inr None, s'))"

definition recordWorkItemThrash_with :: "hub_store attempt list \<Rightarrow> agent_id \<Rightarrow> hub_store \<Rightarrow> (store_error + int option) \<times> hub_store" where
  "recordWorkItemThrash_with envs i s =
     (case thrash_update envs i (\<lambda>a. Inr (a\<lparr>ag_thrashCount := ag_thrashCount a + 1\<rparr>)) s of
        (Inl z, s') \<Rightarrow> (Inl z, s') | (Inr r, s') \<Rightarrow> (Inr (map_option ag_thrashCount r), s'))"

definition recordWorkItemThrash :: "agent_id \<Rightarrow> hub_store \<Rightarrow> (store_error + int option) \<times> hub_store" where
  "recordWorkItemThrash = recordWorkItemThrash_with quiet"

text \<open>The answer of a reset is the count before it.\<close>

definition resetWorkItemThrash :: "agent_id \<Rightarrow> hub_store \<Rightarrow> (store_error + int) \<times> hub_store" where
  "resetWorkItemThrash i s =
     (case thrash_update quiet i (\<lambda>a. if ag_thrashCount a = 0 then Inl () else Inr (a\<lparr>ag_thrashCount := 0\<rparr>)) s of
        (Inl z, s') \<Rightarrow> (Inl z, s')
      | (Inr None, s') \<Rightarrow> (Inr 0, s')
      | (Inr (Some a), s') \<Rightarrow> (Inr (case loadAgent i s of None \<Rightarrow> 0 | Some row \<Rightarrow> ag_thrashCount row), s'))"

section \<open>The pointer rows of all agents\<close>

definition backfill_page :: "nat \<Rightarrow> nat \<Rightarrow> hub_store \<Rightarrow> agent list" where
  "backfill_page pageSize page s =
     List.map_filter as_agent (fst (list_op AGENT_KIND (\<lambda>_. True) None (Some pageSize) (Some (page * pageSize)) s))"

text \<open>The answer: the agents and pointers seen, and whether the guard on the number of pages cut the pass short.\<close>

fun backfill_from :: "nat \<Rightarrow> nat \<Rightarrow> nat \<Rightarrow> nat \<times> nat \<Rightarrow> hub_store \<Rightarrow> (nat \<times> nat \<times> bool) \<times> hub_store" where
  "backfill_from 0 pageSize page (agents, bindings) s = ((agents, bindings, True), s)"
| "backfill_from (Suc n) pageSize page (agents, bindings) s =
     (let batch = backfill_page pageSize page s in
      if batch = [] then ((agents, bindings, False), s)
      else
        (let writes = concat (map (\<lambda>a. map (\<lambda>sid. (ag_id a, sid)) (ag_registeredSessions a)) (filter (\<lambda>a. \<not> ag_archived a) batch));
             s' = fold (\<lambda>(i, sid). put_pointer i sid) writes s;
             agents' = agents + length batch; bindings' = bindings + length (filter (\<lambda>(i, sid). sid \<noteq> []) writes)
         in if length batch < pageSize then ((agents', bindings', False), s')
            else backfill_from n pageSize (Suc page) (agents', bindings') s'))"

definition backfillSessionBindings :: "nat \<Rightarrow> nat \<Rightarrow> agent_registry \<Rightarrow> (nat \<times> nat \<times> bool) \<times> agent_registry" where
  "backfillSessionBindings pageSize maxPages rg =
     (case backfill_from maxPages pageSize 0 (0, 0) (rg_store rg) of (r, s') \<Rightarrow> (r, rg\<lparr>rg_store := s'\<rparr>))"

section \<open>The contract of the kind\<close>

interpretation agt: entity_kind AGENT_KIND EAgent as_agent ag_id
proof
  show "as_agent e = Some r \<Longrightarrow> e = EAgent r" for e r by (cases e) auto
qed (simp_all add: AGENT_KIND_def)

end
