(* ===== verification/Agent_Runs.thy ===== *)
theory Agent_Runs
  imports Agents
begin

text \<open>
  The runs of the agent registry: requests, restarts of the hub and writes of the other repositories.  Every request but a deletion is a
  sequence of steps that keep the identity of an agent and the shape of its row and never turn its epoch back.
\<close>

section \<open>What a step keeps\<close>

definition agent_shape :: "agent \<Rightarrow> bool" where
  "agent_shape a \<longleftrightarrow> distinct (ag_registeredSessions a) \<and> length (ag_registeredSessions a) \<le> 8 \<and>
     length (ag_recentErrors a) \<le> AGENT_RECENT_ERRORS_CAP \<and> length (ag_restartHistoryMs a) \<le> AGENT_RESTART_HISTORY_CAP \<and>
     ag_restartCount a \<le> length (ag_restartHistoryMs a) \<and> 0 \<le> ag_thrashCount a \<and> 0 \<le> ag_sessionEpoch a \<and>
     (ag_sessionEpoch a = 0 \<longleftrightarrow> ag_currentSessionId a = None)"

definition agent_named :: "sha256 \<Rightarrow> agent \<Rightarrow> bool" where
  "agent_named sha a \<longleftrightarrow> ag_id a = deriveAgentId sha (ag_name a) \<and> ag_fingerprint a = sha (ag_name a)"

definition agent_born :: "sha256 \<Rightarrow> agent \<Rightarrow> bool" where
  "agent_born sha a \<longleftrightarrow> agent_shape a \<and> agent_named sha a \<and> ag_name a \<noteq> []"

definition agent_step :: "agent \<Rightarrow> agent \<Rightarrow> bool" where
  "agent_step a a' \<longleftrightarrow> ag_id a' = ag_id a \<and> ag_fingerprint a' = ag_fingerprint a \<and> ag_name a' = ag_name a \<and>
     ag_role a' = ag_role a \<and> ag_firstSeenAt a' = ag_firstSeenAt a \<and> ag_sessionEpoch a \<le> ag_sessionEpoch a' \<and>
     (ag_sessionEpoch a' = ag_sessionEpoch a \<longrightarrow> ag_currentSessionId a' = ag_currentSessionId a) \<and>
     (agent_shape a \<longrightarrow> agent_shape a')"

abbreviation agents_ok :: "hub_store \<Rightarrow> bool" where
  "agents_ok \<equiv> kind_ok EAgent ag_id AGENT_KIND"

abbreviation agent_steps :: "sha256 \<Rightarrow> hub_store \<Rightarrow> hub_store \<Rightarrow> bool" where
  "agent_steps sha \<equiv> kind_steps EAgent ag_id AGENT_KIND (agent_born sha) agent_step"

lemma agent_step_refl [simp]: "agent_step a a"
  by (simp add: agent_step_def)

lemma agent_step_trans: "agent_step a b \<Longrightarrow> agent_step b c \<Longrightarrow> agent_step a c"
  unfolding agent_step_def by (elim conjE) (intro conjI impI; simp)

lemma agent_steps_path: "agent_step\<^sup>*\<^sup>* a b \<Longrightarrow> agent_step a b"
  by (induction rule: rtranclp_induct) (auto intro: agent_step_trans)

lemma normalize_simps [simp]:
  "ag_id (normalizeAgentShape a) = ag_id a" "ag_registeredSessions (normalizeAgentShape a) = ag_registeredSessions a"
  "ag_role (normalizeAgentShape a) = ag_role a" "ag_sessionEpoch (normalizeAgentShape a) = ag_sessionEpoch a"
  "ag_currentSessionId (normalizeAgentShape a) = ag_currentSessionId a" "ag_archived (normalizeAgentShape a) = ag_archived a"
  "ag_fingerprint (normalizeAgentShape a) = ag_fingerprint a" "ag_status (normalizeAgentShape a) = ag_status a"
  "ag_name (normalizeAgentShape a) = ag_name a" "ag_firstSeenAt (normalizeAgentShape a) = ag_firstSeenAt a"
  "agent_shape (normalizeAgentShape a) = agent_shape a"
  by (simp_all add: normalizeAgentShape_def agent_shape_def)

lemma components_simps [simp]:
  "ag_id (computeComponentStates env now a) = ag_id a"
  "ag_registeredSessions (computeComponentStates env now a) = ag_registeredSessions a"
  "ag_sessionEpoch (computeComponentStates env now a) = ag_sessionEpoch a"
  "ag_currentSessionId (computeComponentStates env now a) = ag_currentSessionId a"
  "ag_archived (computeComponentStates env now a) = ag_archived a" "ag_role (computeComponentStates env now a) = ag_role a"
  "ag_name (computeComponentStates env now a) = ag_name a" "ag_fingerprint (computeComponentStates env now a) = ag_fingerprint a"
  "ag_firstSeenAt (computeComponentStates env now a) = ag_firstSeenAt a"
  "agent_shape (computeComponentStates env now a) = agent_shape a"
  by (simp_all add: computeComponentStates_def agent_shape_def Let_def)

lemma step_normalize [simp]: "agent_step a (normalizeAgentShape a)"
  by (simp add: agent_step_def)

lemma step_components: "agent_step a b \<Longrightarrow> agent_step a (computeComponentStates env now b)"
  by (simp add: agent_step_def)

lemma appendRegistered:
  "distinct xs \<Longrightarrow> distinct (appendRegisteredSession xs sid)" "length (appendRegisteredSession xs sid) \<le> 8"
  "sid \<in> set (appendRegisteredSession xs sid)" "set (appendRegisteredSession xs sid) \<subseteq> insert sid (set xs)"
proof -
  let ?next = "filter (\<lambda>x. x \<noteq> sid) xs @ [sid]"
  show "distinct xs \<Longrightarrow> distinct (appendRegisteredSession xs sid)" "length (appendRegisteredSession xs sid) \<le> 8"
    "sid \<in> set (appendRegisteredSession xs sid)"
    by (auto simp: appendRegisteredSession_def Let_def dest: in_set_dropD)
  show "set (appendRegisteredSession xs sid) \<subseteq> insert sid (set xs)"
    using set_drop_subset [of "length ?next - 8" ?next] by (auto simp: appendRegisteredSession_def Let_def simp del: drop_append)
qed

section \<open>Reads and writes\<close>

lemma load_iff:
  assumes "agents_ok s"
  shows "loadAgentWithRevision i s = Some (a, rv) \<longleftrightarrow>
    (\<exists>row. find_row s AGENT_KIND i = Some row \<and> row_data row = EAgent a \<and> row_rv row = rv)"
    "loadAgentWithRevision i s = None \<longleftrightarrow> loadAgent i s = None"
    "loadAgentWithRevision i s = Some (a, rv) \<Longrightarrow> loadAgent i s = Some a \<and> ag_id a = i \<and> i \<noteq> []"
proof -
  have row: "\<exists>a. row_data row = EAgent a \<and> ag_id a = i \<and> i \<noteq> []" if "find_row s AGENT_KIND i = Some row" for row
    using assms that unfolding kind_ok_def by metis
  show "loadAgentWithRevision i s = Some (a, rv) \<longleftrightarrow>
      (\<exists>row. find_row s AGENT_KIND i = Some row \<and> row_data row = EAgent a \<and> row_rv row = rv)"
    using row by (cases "find_row s AGENT_KIND i") (fastforce simp: loadAgentWithRevision_def getWithRevision_def)+
  show "loadAgentWithRevision i s = None \<longleftrightarrow> loadAgent i s = None"
    using row by (cases "find_row s AGENT_KIND i")
      (fastforce simp: loadAgentWithRevision_def getWithRevision_def loadAgent_def row_of_def get_op_def)+
  show "loadAgentWithRevision i s = Some (a, rv) \<Longrightarrow> loadAgent i s = Some a \<and> ag_id a = i \<and> i \<noteq> []"
    using row by (cases "find_row s AGENT_KIND i")
      (fastforce simp: loadAgentWithRevision_def getWithRevision_def loadAgent_def row_of_def get_op_def)+
qed

lemma put_found:
  assumes "agents_ok s" "loadAgentWithRevision i s = Some (a, rv)" "ag_id a' = ag_id a"
  shows "putIfMatchAgent a' rv s = (Inr True, write_row AGENT_KIND i (EAgent a') s)"
proof -
  obtain row where row: "find_row s AGENT_KIND i = Some row" "row_rv row = rv" using assms(1,2) by (auto simp: load_iff(1))
  have id: "ag_id a = i" "i \<noteq> []" using load_iff(3) [OF assms(1,2)] by simp_all
  then show ?thesis
    using putIfMatch_found [OF agt.ok_plain [OF assms(1)] _ _ agt.not_counter row(1), of ident "EAgent a'"] assms(3) row(2)
    by (simp add: putIfMatchAgent_def cas_row_def)
qed

lemma put_steps:
  assumes "agents_ok s" "loadAgentWithRevision i s = Some (a, rv)" "agent_step a a'"
  shows "agent_steps sha s (write_row AGENT_KIND i (EAgent a') s)"
proof -
  obtain row where row: "find_row s AGENT_KIND i = Some row" "row_data row = EAgent a" using assms(1,2) by (auto simp: load_iff(1))
  have id: "ag_id a = i" using load_iff(3) [OF assms(1,2)] by simp
  have "ag_id a' = ag_id a" using assms(3) by (simp add: agent_step_def)
  from ks_row [of EAgent ag_id AGENT_KIND "agent_born sha" agent_step s s a row a', OF ks_refl] show ?thesis
    using row id assms(3) \<open>ag_id a' = ag_id a\<close> by simp
qed

text \<open>An update tried once, with nobody in between.\<close>

lemma update_once_eq:
  assumes "agents_ok s" "\<And>a a'. f (normalizeAgentShape a) = Some a' \<Longrightarrow> agent_step a a'"
  shows "update_once_with id i f s =
    (case loadAgent i s of
       None \<Rightarrow> (False, s)
     | Some a \<Rightarrow> (case f (normalizeAgentShape a) of None \<Rightarrow> (False, s) | Some a' \<Rightarrow> (True, write_row AGENT_KIND i (EAgent a') s)))"
proof (cases "loadAgentWithRevision i s")
  case None
  then show ?thesis using load_iff(2) [OF assms(1), of i] by (simp add: update_once_with_def)
next
  case (Some ar)
  obtain a rv where ar: "ar = (a, rv)" by (cases ar)
  have load: "loadAgent i s = Some a" using load_iff(3) [OF assms(1)] Some ar by blast
  show ?thesis
  proof (cases "f (normalizeAgentShape a)")
    case (Some a')
    then have "ag_id a' = ag_id a" using assms(2) by (simp add: agent_step_def)
    with Some put_found [OF assms(1) _ this] \<open>loadAgentWithRevision i s = Some ar\<close> load show ?thesis
      by (simp add: update_once_with_def ar)
  qed (simp add: update_once_with_def Some ar load)
qed

lemma update_once_steps:
  assumes "agents_ok s" "\<And>a a'. f (normalizeAgentShape a) = Some a' \<Longrightarrow> agent_step a a'"
  shows "agent_steps sha s (snd (update_once_with id i f s))"
proof (cases "loadAgentWithRevision i s")
  case None
  then show ?thesis by (simp add: update_once_with_def ks_refl)
next
  case (Some ar)
  obtain a rv where ar: "ar = (a, rv)" by (cases ar)
  have "loadAgent i s = Some a" using load_iff(3) [OF assms(1)] Some ar by blast
  then show ?thesis
    using put_steps [OF assms(1) Some [unfolded ar]] assms(2)
    by (auto simp: update_once_eq [OF assms] ks_refl split: option.split)
qed


text \<open>The pointer rows are of another kind.\<close>

lemma put_pointer_eq: "plain_store s \<Longrightarrow> put_pointer i sid s =
    (if sid = [] then s else write_row SESSION_BINDING_KIND sid (ESessionBinding sid i) s)"
  by (auto simp: put_pointer_def put_op_def plain_store_def encodeForWrite_def extractId_def Let_def SESSION_BINDING_KIND_def store_simps)

lemma binding_kind_ne [simp]: "SESSION_BINDING_KIND \<noteq> AGENT_KIND" "AGENT_KIND \<noteq> SESSION_BINDING_KIND"
  by (simp_all add: SESSION_BINDING_KIND_def AGENT_KIND_def)

lemma put_pointers_steps:
  assumes "agents_ok t" "agent_steps sha s t"
  shows "agent_steps sha s (fold (\<lambda>(i, sid). put_pointer i sid) ps t) \<and> agents_ok (fold (\<lambda>(i, sid). put_pointer i sid) ps t)"
  using assms
proof (induction ps arbitrary: t)
  case (Cons p ps)
  obtain i sid where p: "p = (i, sid)" by (cases p)
  have "agents_ok (put_pointer i sid t)" "agent_steps sha s (put_pointer i sid t)"
    using Cons.prems by (auto simp: put_pointer_eq [OF agt.ok_plain] intro: agt.ok_write_other ks_write)
  from Cons.IH [OF this] show ?case by (simp add: p)
qed simp

lemma delete_pointers_steps:
  assumes "agents_ok t" "agent_steps sha s t"
  shows "agent_steps sha s (fold (delete_op SESSION_BINDING_KIND) sids t) \<and> agents_ok (fold (delete_op SESSION_BINDING_KIND) sids t)"
  using assms
proof (induction sids arbitrary: t)
  case (Cons sid sids)
  then have "agents_ok (delete_op SESSION_BINDING_KIND sid t)" "agent_steps sha s (delete_op SESSION_BINDING_KIND sid t)"
    by (auto intro: agt.ok_delete_other ks_delete)
  from Cons.IH [OF this] show ?case by simp
qed simp

lemma fold_put_pointer: "fold (put_pointer i) sids s = fold (\<lambda>(i, sid). put_pointer i sid) (map (Pair i) sids) s"
  by (induction sids arbitrary: s) simp_all

lemma reconcile_steps:
  assumes "agents_ok t" "agent_steps sha s t"
  shows "agent_steps sha s (reconcileSessionBindings i before after t)" "agents_ok (reconcileSessionBindings i before after t)"
  unfolding reconcileSessionBindings_def fold_put_pointer
  using delete_pointers_steps put_pointers_steps [OF assms] by blast+

section \<open>Identity\<close>

lemma loaded_of_list:
  assumes "agents_ok s" "list_kind as_agent AGENT_KIND P c n s = known # rest"
  shows "loadAgent (ag_id known) s = Some known" "P known" "\<exists>rv. loadAgentWithRevision (ag_id known) s = Some (known, rv)"
proof -
  have "known \<in> {r. row_of as_agent AGENT_KIND (ag_id r) s = Some r \<and> P r}"
    using agt.list_kind_facts(1) [OF assms(1), of P c n] assms(2) by auto
  then show load: "loadAgent (ag_id known) s = Some known" and "P known" by (simp_all add: loadAgent_def)
  show "\<exists>rv. loadAgentWithRevision (ag_id known) s = Some (known, rv)"
    using load load_iff(2) [OF assms(1)] load_iff(3) [OF assms(1)]
    by (metis not_Some_eq option.inject surj_pair)
qed

lemma refreshed_step: "agent_step a (refreshed_agent env now p sid tags labels (normalizeAgentShape a))"
  unfolding refreshed_agent_def
  by (rule step_components)
    (simp add: agent_step_def agent_shape_def appendRegistered normalizeAgentShape_def)

lemma new_agent_born: "ip_name p \<noteq> [] \<Longrightarrow> agent_born sha (new_agent sha now p sid)"
  by (simp add: agent_born_def agent_named_def agent_shape_def new_agent_def)

lemma derive_ne [simp]: "deriveAgentId sha n \<noteq> []"
  by (simp add: deriveAgentId_def)

text \<open>With nobody in between, an assertion creates the agent of a new name, refreshes the one of a known name, or changes nothing.\<close>

lemma assert_cases:
  assumes ok: "agents_ok (rg_store rg)" and run: "assertIdentity sha env now p sid rg = (r, rg')"
  obtains (refused) e where "r = Inl e" "rg' = rg"
  | (created) "ip_name p \<noteq> []" "find_row (rg_store rg) AGENT_KIND (deriveAgentId sha (ip_name p)) = None"
      "r = Inr (identity_of (new_agent sha now p sid) True None)"
      "rg' = identity_committed (deriveAgentId sha (ip_name p)) sid [] (ag_registeredSessions (new_agent sha now p sid))
         (write_row AGENT_KIND (deriveAgentId sha (ip_name p)) (EAgent (new_agent sha now p sid)) (rg_store rg)) rg"
  | (refreshed) a rv tags labels prior where
      "loadAgentWithRevision (ag_id a) (rg_store rg) = Some (a, rv)" "ag_fingerprint a = sha (ip_name p)" "ag_role a = ip_role p"
      "r = Inr (identity_of (refreshed_agent env now p sid tags labels (normalizeAgentShape a)) False prior)"
      "rg' = identity_committed (ag_id a) sid (ag_registeredSessions a)
         (ag_registeredSessions (refreshed_agent env now p sid tags labels (normalizeAgentShape a)))
         (write_row AGENT_KIND (ag_id a) (EAgent (refreshed_agent env now p sid tags labels (normalizeAgentShape a))) (rg_store rg)) rg"
proof (cases "ip_name p = []")
  case True
  with run show thesis by (intro refused) (auto simp: assertIdentity_def assertIdentity_with_def)
next
  case named: False
  let ?s = "rg_store rg"
  show thesis
  proof (cases "list_kind as_agent AGENT_KIND (\<lambda>a. ag_fingerprint a = sha (ip_name p)) None 1 ?s")
    case Nil
    let ?a = "new_agent sha now p sid"
    have id: "ag_id ?a = deriveAgentId sha (ip_name p)" by (simp add: new_agent_def)
    note make = agt.create_eq [OF ok, of ?a, unfolded id]
    show thesis
    proof (cases "find_row ?s AGENT_KIND (deriveAgentId sha (ip_name p))")
      case None
      with run named Nil make id show thesis
        by (intro created) (auto simp: assertIdentity_def assertIdentity_with_def Let_def)
    next
      case (Some row)
      with run named Nil make id show thesis
        by (intro refused) (auto simp: assertIdentity_def assertIdentity_with_def Let_def)
    qed
  next
    case (Cons a rest)
    obtain rv where load: "loadAgentWithRevision (ag_id a) ?s = Some (a, rv)" and fp: "ag_fingerprint a = sha (ip_name p)"
      using loaded_of_list [OF ok Cons] by blast
    show thesis
    proof (cases "ag_role a \<noteq> ip_role p \<or> hosts_differ (normalizeAgentShape a) p")
      case True
      then have "\<exists>e. assertIdentity sha env now p sid rg = (Inl e, rg)"
        by (auto simp: assertIdentity_def assertIdentity_with_def Let_def named Cons [unfolded One_nat_def] load)
      with run show thesis by (auto intro: refused)
    next
      case False
      let ?labels = "case ip_labels p of None \<Rightarrow> ag_labels (normalizeAgentShape a) | Some l \<Rightarrow> l"
      let ?tags = "deriveAdvisoryTags (filled (ip_advisoryTags p) (Some (ag_advisoryTags (normalizeAgentShape a)))) (ip_clientMetadata p)"
      let ?a = "refreshed_agent env now p sid ?tags ?labels (normalizeAgentShape a)"
      have same: "ag_id ?a = ag_id a" using refreshed_step by (simp add: agent_step_def)
      note put = put_found [OF ok load same]
      obtain prior where eq: "assertIdentity sha env now p sid rg = (Inr (identity_of ?a False prior),
          identity_committed (ag_id a) sid (ag_registeredSessions a) (ag_registeredSessions ?a) (write_row AGENT_KIND (ag_id a) (EAgent ?a) ?s) rg)"
        using False by (simp add: assertIdentity_def assertIdentity_with_def Let_def named Cons [unfolded One_nat_def] load put same)
      have role: "ag_role a = ip_role p" using False by simp
      show thesis by (rule refreshed [OF load fp role, of ?tags ?labels prior]) (use run eq in simp_all)
    qed
  qed
qed


text \<open>What an assertion or a claim leaves outside the store.\<close>

lemma committed_store [simp]: "rg_store (identity_committed i sid before after s rg) = reconcileSessionBindings i before after s"
  by (simp add: identity_committed_def)

lemma assert_steps:
  assumes ok: "agents_ok (rg_store rg)"
  shows "agent_steps sha (rg_store rg) (rg_store (snd (assertIdentity sha env now p sid rg)))"
proof -
  obtain r rg' where run: "assertIdentity sha env now p sid rg = (r, rg')" by (cases "assertIdentity sha env now p sid rg")
  have "agent_steps sha (rg_store rg) (rg_store rg')"
    using ok run
  proof (cases rule: assert_cases)
    case (refused e)
    then show ?thesis by (simp add: ks_refl)
  next
    case created
    let ?a = "new_agent sha now p sid"
    have id: "ag_id ?a = deriveAgentId sha (ip_name p)" by (simp add: new_agent_def)
    have "agent_steps sha (rg_store rg) (write_row AGENT_KIND (ag_id ?a) (EAgent ?a) (rg_store rg))"
      by (rule ks_create [OF ks_refl]) (use created(1,2) id new_agent_born in auto)
    from reconcile_steps(1) [OF agt.steps_ok [OF this ok] this] show ?thesis by (simp add: created(4) id)
  next
    case (refreshed a rv tags labels prior)
    note put = put_steps [OF ok refreshed(1) refreshed_step]
    from reconcile_steps(1) [OF agt.steps_ok [OF put ok] put] show ?thesis unfolding refreshed(5) by simp
  qed
  with run show ?thesis by simp
qed

section \<open>Claims\<close>

lemma claimed_step: "agent_step a (claimed_agent env now sid (normalizeAgentShape a))"
  unfolding claimed_agent_def Let_def
proof (rule step_components)
  have kept: "length (filter P (drop n (ys @ [x]))) \<le> Suc (length ys) - n" for P n x and ys :: "instant list"
    using length_filter_le [of P "drop n (ys @ [x])"] by (simp del: drop_append)
  have newest: "m - (m - n) \<le> n" for m n :: nat by arith
  show "agent_step a (normalizeAgentShape a
      \<lparr>ag_sessionEpoch := ag_sessionEpoch (normalizeAgentShape a) + 1, ag_currentSessionId := Some sid,
       ag_registeredSessions := appendRegisteredSession
         (filter (\<lambda>x. map_option fst (displaced_by sid (normalizeAgentShape a)) \<noteq> Some x) (ag_registeredSessions (normalizeAgentShape a))) sid,
       ag_status := AgOnline, ag_livenessState := LvOnline, ag_lastHeartbeatAt := now, ag_activityState := AcIdle,
       ag_sessionStartedAt := Some now, ag_idleSince := Some now, ag_workingSince := None,
       ag_restartHistoryMs := drop (length (ag_restartHistoryMs (normalizeAgentShape a) @ [now]) - AGENT_RESTART_HISTORY_CAP)
         (ag_restartHistoryMs (normalizeAgentShape a) @ [now]),
       ag_restartCount := length (filter (\<lambda>t. now - t \<le> 86400000)
         (drop (length (ag_restartHistoryMs (normalizeAgentShape a) @ [now]) - AGENT_RESTART_HISTORY_CAP)
           (ag_restartHistoryMs (normalizeAgentShape a) @ [now])))\<rparr>)"
    by (simp add: agent_step_def agent_shape_def appendRegistered normalizeAgentShape_def kept newest del: drop_append filter_append)
qed

text \<open>With nobody in between, the first attempt decides.\<close>

lemma claim_cases:
  assumes ok: "agents_ok (rg_store rg)" and run: "claimSession env now i sid rg = (r, rg')"
  obtains (refused) e where "r = Inl e" "rg_store rg' = rg_store rg" "rg_sessions rg' = rg_sessions rg"
  | (claimed) a rv where "loadAgentWithRevision i (rg_store rg) = Some (a, rv)"
      "r = Inr \<lparr>cr_agentId = i, cr_sessionEpoch = ag_sessionEpoch a + 1, cr_displaced = displaced_by sid (normalizeAgentShape a)\<rparr>"
      "rg_store rg' = reconcileSessionBindings i (ag_registeredSessions a)
         (ag_registeredSessions (claimed_agent env now sid (normalizeAgentShape a)))
         (write_row AGENT_KIND i (EAgent (claimed_agent env now sid (normalizeAgentShape a))) (rg_store rg))"
      "rg_sessions rg' = (case displaced_by sid (normalizeAgentShape a) of None \<Rightarrow> (rg_sessions rg)(sid \<mapsto> i)
         | Some (d, e) \<Rightarrow> ((rg_sessions rg)(sid \<mapsto> i))(d := None))"
      "ag_status a = AgOnline \<longrightarrow> \<not> snd (recordDisplacementAndCheck (rg_displacements rg (ag_fingerprint a)) now)"
proof (cases "loadAgentWithRevision i (rg_store rg)")
  case None
  then have "claimSession env now i sid rg = (Inl UnknownEngineer, rg)" by (simp add: claimSession_def)
  with run show thesis by (intro refused) auto
next
  case (Some ar)
  obtain a rv where ar: "ar = (a, rv)" by (cases ar)
  note load = Some [unfolded ar]
  let ?rg = "if ag_status a = AgOnline then rg\<lparr>rg_displacements := (rg_displacements rg)
      (ag_fingerprint a := fst (recordDisplacementAndCheck (rg_displacements rg (ag_fingerprint a)) now))\<rparr> else rg"
  let ?a = "claimed_agent env now sid (normalizeAgentShape a)"
  have id: "ag_id a = i" "ag_id ?a = ag_id a" using load_iff(3) [OF ok load] claimed_step [of a env now sid] by (auto simp: agent_step_def)
  have epoch: "ag_sessionEpoch ?a = ag_sessionEpoch a + 1" by (simp add: claimed_agent_def Let_def)
  show thesis
  proof (cases "ag_status a = AgOnline \<and> snd (recordDisplacementAndCheck (rg_displacements rg (ag_fingerprint a)) now)")
    case True
    then have "claimSession env now i sid rg = (Inl ThrashingDetected, ?rg)" by (simp add: claimSession_def load Let_def)
    with run show thesis by (intro refused [of ThrashingDetected]) (auto split: if_splits)
  next
    case False
    have store: "rg_store ?rg = rg_store rg" "rg_sessions ?rg = rg_sessions rg" by simp_all
    note put = put_found [OF ok load id(2)]
    show thesis
      by (rule claimed [OF load])
        (use run False in \<open>auto simp: claimSession_def load Let_def put id epoch forgetSession_def split: option.splits if_splits\<close>)
  qed
qed

lemma claim_steps:
  assumes ok: "agents_ok (rg_store rg)"
  shows "agent_steps sha (rg_store rg) (rg_store (snd (claimSession env now i sid rg)))"
proof -
  obtain r rg' where run: "claimSession env now i sid rg = (r, rg')" by (cases "claimSession env now i sid rg")
  have "agent_steps sha (rg_store rg) (rg_store rg')"
    using ok run
  proof (cases rule: claim_cases)
    case (refused e)
    then show ?thesis by (simp add: ks_refl)
  next
    case (claimed a rv)
    note put = put_steps [OF ok claimed(1) claimed_step]
    show ?thesis unfolding claimed(3) by (rule reconcile_steps(1) [OF agt.steps_ok [OF put ok] put])
  qed
  with run show ?thesis by simp
qed


section \<open>Runs\<close>

datatype agent_request =
    AssertIdentity identity_payload "string option"
  | ClaimSession agent_id string
  | RegisterAgent string string identity_payload
  | SetSessionRole string string
  | ForgetSession string
  | LookupSession string
  | Touch string
  | Heartbeat agent_id
  | SetLiveness agent_id agent_liveness
  | SetActivity agent_id activity_state
  | ToolStarted agent_id string
  | ToolCompleted agent_id
  | QuotaBlocked agent_id int
  | QuotaRecovered agent_id
  | ErrorRecorded agent_id agent_error_record
  | PulseFired agent_id string
  | MarkOffline string
  | Archive agent_id
  | DeleteAgent agent_id
  | ThrashRecorded agent_id
  | ThrashReset agent_id
  | Backfill nat nat
  | HubRestart
  | OtherKindPut string string hub_entity
  | OtherKindDelete string string

text \<open>A restart empties the maps in memory.\<close>

definition restarted :: "agent_registry \<Rightarrow> agent_registry" where
  "restarted rg = \<lparr>rg_store = rg_store rg, rg_sessionRoles = (\<lambda>_. None), rg_roleBoundAt = (\<lambda>_. None), rg_displacements = (\<lambda>_. []),
     rg_sessions = (\<lambda>_. None), rg_lastTouchAt = (\<lambda>_. None)\<rparr>"

definition empty_registry :: agent_registry where
  "empty_registry = \<lparr>rg_store = empty_substrate, rg_sessionRoles = (\<lambda>_. None), rg_roleBoundAt = (\<lambda>_. None), rg_displacements = (\<lambda>_. []),
     rg_sessions = (\<lambda>_. None), rg_lastTouchAt = (\<lambda>_. None)\<rparr>"

definition own_kind :: "string \<Rightarrow> bool" where
  "own_kind k \<longleftrightarrow> k = AGENT_KIND \<or> k = SESSION_BINDING_KIND"

fun agent_happens :: "sha256 \<Rightarrow> agent_env \<Rightarrow> instant \<Rightarrow> agent_request \<Rightarrow> agent_registry \<Rightarrow> agent_registry" where
  "agent_happens sha env now (AssertIdentity p sid) rg = snd (assertIdentity sha env now p sid rg)"
| "agent_happens sha env now (ClaimSession i sid) rg = snd (claimSession env now i sid rg)"
| "agent_happens sha env now (RegisterAgent sid role p) rg = snd (registerAgent sha env now sid role p rg)"
| "agent_happens sha env now (SetSessionRole sid role) rg = setSessionRole now sid role rg"
| "agent_happens sha env now (ForgetSession sid) rg = forgetSession sid rg"
| "agent_happens sha env now (LookupSession sid) rg = snd (getAgentForSession now sid rg)"
| "agent_happens sha env now (Touch sid) rg = touchAgent env now sid rg"
| "agent_happens sha env now (Heartbeat i) rg = refreshHeartbeat env now i rg"
| "agent_happens sha env now (SetLiveness i l) rg = setLivenessState i l rg"
| "agent_happens sha env now (SetActivity i st) rg = setActivityState i st rg"
| "agent_happens sha env now (ToolStarted i tool) rg = recordToolCallStart now i tool rg"
| "agent_happens sha env now (ToolCompleted i) rg = recordToolCallComplete now i rg"
| "agent_happens sha env now (QuotaBlocked i n) rg = recordQuotaBlocked now i n rg"
| "agent_happens sha env now (QuotaRecovered i) rg = recordQuotaRecovered now i rg"
| "agent_happens sha env now (ErrorRecorded i e) rg = recordAgentError i e rg"
| "agent_happens sha env now (PulseFired i at) rg = updateAgentPulseLastFiredAt i at rg"
| "agent_happens sha env now (MarkOffline sid) rg = markAgentOffline now sid rg"
| "agent_happens sha env now (Archive i) rg = snd (archiveAgent i rg)"
| "agent_happens sha env now (DeleteAgent i) rg = snd (deleteAgent i rg)"
| "agent_happens sha env now (ThrashRecorded i) rg = rg\<lparr>rg_store := snd (recordWorkItemThrash i (rg_store rg))\<rparr>"
| "agent_happens sha env now (ThrashReset i) rg = rg\<lparr>rg_store := snd (resetWorkItemThrash i (rg_store rg))\<rparr>"
| "agent_happens sha env now (Backfill pageSize maxPages) rg = snd (backfillSessionBindings pageSize maxPages rg)"
| "agent_happens sha env now HubRestart rg = restarted rg"
| "agent_happens sha env now (OtherKindPut k i e) rg = (if own_kind k then rg else rg\<lparr>rg_store := write_row k i e (rg_store rg)\<rparr>)"
| "agent_happens sha env now (OtherKindDelete k i) rg = (if own_kind k then rg else rg\<lparr>rg_store := delete_op k i (rg_store rg)\<rparr>)"

fun agent_events :: "sha256 \<Rightarrow> agent_env \<Rightarrow> (instant \<times> agent_request) list \<Rightarrow> agent_registry \<Rightarrow> agent_registry" where
  "agent_events sha env [] rg = rg"
| "agent_events sha env ((now, q) # evs) rg = agent_events sha env evs (agent_happens sha env now q rg)"

text \<open>The updates tried once share one shape: a transform of the row that leaves its sessions alone.\<close>

definition keeps_sessions :: "(agent \<Rightarrow> agent option) \<Rightarrow> bool" where
  "keeps_sessions f \<longleftrightarrow> (\<forall>a a'. f (normalizeAgentShape a) = Some a' \<longrightarrow>
     agent_step a a' \<and> ag_registeredSessions a' = ag_registeredSessions a)"

lemma keeps_sessionsD: "keeps_sessions f \<Longrightarrow> f (normalizeAgentShape a) = Some a' \<Longrightarrow> agent_step a a'"
  by (simp add: keeps_sessions_def)

definition single_update :: "agent_registry \<Rightarrow> agent_registry \<Rightarrow> bool" where
  "single_update rg rg' \<longleftrightarrow> rg_store rg' = rg_store rg \<or>
     (\<exists>i f. keeps_sessions f \<and> rg_store rg' = snd (update_once_with id i f (rg_store rg)))"

lemma update_once_single: "keeps_sessions f \<Longrightarrow> single_update rg (update_once i f rg)"
  by (auto simp: single_update_def update_once_def)

lemma single_updates:
  "single_update rg (touchAgent env now sid rg)" "single_update rg (refreshHeartbeat env now i rg)"
  "single_update rg (setLivenessState i l rg)" "single_update rg (setActivityState i st rg)"
  "single_update rg (recordToolCallStart now i tool rg)" "single_update rg (recordToolCallComplete now i rg)"
  "single_update rg (recordQuotaBlocked now i n rg)" "single_update rg (recordQuotaRecovered now i rg)"
  "single_update rg (recordAgentError i e rg)" "single_update rg (updateAgentPulseLastFiredAt i at rg)"
  "single_update rg (markAgentOffline now sid rg)" "single_update rg (snd (archiveAgent i rg))"
proof -
  note defs = agent_step_def agent_shape_def computeComponentStates_def Let_def normalizeAgentShape_def
  show "single_update rg (refreshHeartbeat env now i rg)"
    unfolding refreshHeartbeat_def by (rule update_once_single) (simp add: keeps_sessions_def defs)
  show "single_update rg (setLivenessState i l rg)"
    unfolding setLivenessState_def by (rule update_once_single) (simp add: keeps_sessions_def defs)
  show "single_update rg (setActivityState i st rg)"
    unfolding setActivityState_def by (rule update_once_single) (simp add: keeps_sessions_def defs)
  show "single_update rg (recordToolCallStart now i tool rg)"
    unfolding recordToolCallStart_def by (rule update_once_single) (simp add: keeps_sessions_def defs)
  show "single_update rg (recordToolCallComplete now i rg)"
    unfolding recordToolCallComplete_def by (rule update_once_single) (simp add: keeps_sessions_def defs)
  show "single_update rg (recordQuotaBlocked now i n rg)"
    unfolding recordQuotaBlocked_def by (rule update_once_single) (simp add: keeps_sessions_def defs)
  show "single_update rg (recordQuotaRecovered now i rg)"
    unfolding recordQuotaRecovered_def by (rule update_once_single) (simp add: keeps_sessions_def defs)
  show "single_update rg (recordAgentError i e rg)"
    unfolding recordAgentError_def by (rule update_once_single) (auto simp: keeps_sessions_def defs)
  show "single_update rg (updateAgentPulseLastFiredAt i at rg)"
    unfolding updateAgentPulseLastFiredAt_def
    by (rule update_once_single) (auto simp: keeps_sessions_def defs split: option.splits)
  have touch: "keeps_sessions (\<lambda>a. if ag_currentSessionId a \<noteq> Some sid then None
      else Some (computeComponentStates (en_peerPresenceWindowMs env) now (a\<lparr>ag_lastSeenAt := now, ag_status := AgOnline\<rparr>)))"
    by (simp add: keeps_sessions_def defs)
  show "single_update rg (touchAgent env now sid rg)"
    using touch by (auto simp: touchAgent_def single_update_def update_once_def split: option.split)
  have offline: "keeps_sessions (\<lambda>a. if ag_currentSessionId a \<noteq> Some sid then None
      else Some (a\<lparr>ag_status := AgOffline, ag_livenessState := LvOffline, ag_lastSeenAt := now\<rparr>))"
    by (simp add: keeps_sessions_def defs)
  show "single_update rg (markAgentOffline now sid rg)"
    using offline by (auto simp: markAgentOffline_def single_update_def update_once_def Let_def split: option.split)
  have archive: "keeps_sessions (\<lambda>a. Some (a\<lparr>ag_archived := True\<rparr>))" by (simp add: keeps_sessions_def defs)
  show "single_update rg (snd (archiveAgent i rg))"
  proof (cases "loadAgent i (rg_store rg)")
    case (Some a)
    have "rg_store (snd (archiveAgent i rg)) =
        (if ag_archived a then rg_store rg else snd (update_once_with id i (\<lambda>a. Some (a\<lparr>ag_archived := True\<rparr>)) (rg_store rg)))"
      by (simp add: archiveAgent_def archiveAgent_with_def Some split: prod.split)
    then show ?thesis using archive unfolding single_update_def by metis
  qed (simp add: archiveAgent_def archiveAgent_with_def single_update_def)
qed


lemma single_update_steps:
  assumes "single_update rg rg'" "agents_ok (rg_store rg)"
  shows "agent_steps sha (rg_store rg) (rg_store rg')"
  using assms(1) unfolding single_update_def
proof (elim disjE exE conjE)
  fix i f assume f: "keeps_sessions f" and store: "rg_store rg' = snd (update_once_with id i f (rg_store rg))"
  show ?thesis unfolding store by (rule update_once_steps [OF assms(2)]) (rule keeps_sessionsD [OF f])
qed (simp add: ks_refl)

text \<open>The thrash counter.\<close>

definition thrash_transform :: "(agent \<Rightarrow> unit + agent) \<Rightarrow> bool" where
  "thrash_transform f \<longleftrightarrow> (\<forall>a a'. f (normalizeAgentShape a) = Inr a' \<longrightarrow> agent_step a a' \<and> ag_registeredSessions a' = ag_registeredSessions a)"

lemma thrash_eq:
  assumes ok: "agents_ok s" and f: "thrash_transform f"
  shows "thrash_update quiet i f s =
    (case loadAgent i s of
       None \<Rightarrow> (Inr None, s)
     | Some a \<Rightarrow> (case f (normalizeAgentShape a) of
           Inl e \<Rightarrow> (Inr None, s)
         | Inr a' \<Rightarrow> (Inr (Some a'), write_row AGENT_KIND i (EAgent a') s)))"
proof -
  have "ag_id a' = ag_id a" if "f (normalizeAgentShape a) = Inr a'" for a a'
    using f that by (simp add: thrash_transform_def agent_step_def)
  then show ?thesis
    unfolding thrash_update_def loadAgent_def by (simp add: agt.update_quiet [OF ok] split: option.split sum.split)
qed

lemma thrash_transforms:
  "thrash_transform (\<lambda>a. Inr (a\<lparr>ag_thrashCount := ag_thrashCount a + 1\<rparr>))"
  "thrash_transform (\<lambda>a. if ag_thrashCount a = 0 then Inl () else Inr (a\<lparr>ag_thrashCount := 0\<rparr>))"
  by (simp_all add: thrash_transform_def agent_step_def agent_shape_def normalizeAgentShape_def)

lemma thrash_single:
  "agents_ok (rg_store rg) \<Longrightarrow> single_update rg (rg\<lparr>rg_store := snd (recordWorkItemThrash i (rg_store rg))\<rparr>)"
  "agents_ok (rg_store rg) \<Longrightarrow> single_update rg (rg\<lparr>rg_store := snd (resetWorkItemThrash i (rg_store rg))\<rparr>)"
proof -
  assume ok: "agents_ok (rg_store rg)"
  have single: "\<exists>j f. keeps_sessions f \<and> snd (thrash_update quiet i g (rg_store rg)) = snd (update_once_with id j f (rg_store rg))"
    if "thrash_transform g" for g
  proof -
    let ?f = "\<lambda>a. case g a of Inl e \<Rightarrow> None | Inr a' \<Rightarrow> Some a'"
    have f: "keeps_sessions ?f" using that by (auto simp: keeps_sessions_def thrash_transform_def split: sum.splits)
    have "snd (thrash_update quiet i g (rg_store rg)) = snd (update_once_with id i ?f (rg_store rg))"
    proof -
      have once: "update_once_with id i ?f (rg_store rg) = (case loadAgent i (rg_store rg) of None \<Rightarrow> (False, rg_store rg)
          | Some a \<Rightarrow> (case ?f (normalizeAgentShape a) of None \<Rightarrow> (False, rg_store rg)
              | Some a' \<Rightarrow> (True, write_row AGENT_KIND i (EAgent a') (rg_store rg))))"
        by (rule update_once_eq [OF ok]) (rule keeps_sessionsD [OF f])
      show ?thesis unfolding thrash_eq [OF ok that] once by (simp split: option.split sum.split)
    qed
    with f show ?thesis by blast
  qed
  have "snd (recordWorkItemThrash i (rg_store rg)) =
      snd (thrash_update quiet i (\<lambda>a. Inr (a\<lparr>ag_thrashCount := ag_thrashCount a + 1\<rparr>)) (rg_store rg))"
    by (simp add: recordWorkItemThrash_def recordWorkItemThrash_with_def split: prod.split sum.split)
  with single [OF thrash_transforms(1)] show "single_update rg (rg\<lparr>rg_store := snd (recordWorkItemThrash i (rg_store rg))\<rparr>)"
    unfolding single_update_def by simp
  have "snd (resetWorkItemThrash i (rg_store rg)) =
      snd (thrash_update quiet i (\<lambda>a. if ag_thrashCount a = 0 then Inl () else Inr (a\<lparr>ag_thrashCount := 0\<rparr>)) (rg_store rg))"
    by (simp add: resetWorkItemThrash_def split: prod.split sum.split option.split)
  with single [OF thrash_transforms(2)] show "single_update rg (rg\<lparr>rg_store := snd (resetWorkItemThrash i (rg_store rg))\<rparr>)"
    unfolding single_update_def by simp
qed

text \<open>The backfill writes pointers only.\<close>

lemma put_pointers_keep:
  "agents_ok s \<Longrightarrow> agents_ok (fold (\<lambda>(i, sid). put_pointer i sid) ps s) \<and>
     loadAgent j (fold (\<lambda>(i, sid). put_pointer i sid) ps s) = loadAgent j s"
proof (induction ps arbitrary: s)
  case (Cons p ps)
  obtain i sid where p: "p = (i, sid)" by (cases p)
  have "agents_ok (put_pointer i sid s)" "loadAgent j (put_pointer i sid s) = loadAgent j s"
    using Cons.prems by (auto simp: put_pointer_eq [OF agt.ok_plain] loadAgent_def agt.row_of_write_other intro: agt.ok_write_other)
  with Cons.IH [of "put_pointer i sid s"] show ?case by (simp add: p)
qed simp

definition backfilled :: "hub_store \<Rightarrow> (agent_id \<times> string) list \<Rightarrow> hub_store" where
  "backfilled s ps = fold (\<lambda>(i, sid). put_pointer i sid) ps s"

lemma backfill_pointers:
  "\<exists>ps. snd (backfill_from n pageSize page counts s) = backfilled s ps \<and>
     (agents_ok s \<longrightarrow> (\<forall>(i, sid) \<in> set ps. \<exists>a. loadAgent i s = Some a \<and> sid \<in> set (ag_registeredSessions a)))"
proof (induction n arbitrary: page counts s)
  case 0
  then show ?case by (cases counts) (auto intro!: exI [of _ "[]"] simp: backfilled_def)
next
  case (Suc n)
  obtain agents bindings where counts: "counts = (agents, bindings)" by (cases counts)
  let ?batch = "backfill_page pageSize page s"
  let ?ps = "concat (map (\<lambda>a. map (\<lambda>sid. (ag_id a, sid)) (ag_registeredSessions a)) (filter (\<lambda>a. \<not> ag_archived a) ?batch))"
  have members: "\<exists>a. loadAgent i s = Some a \<and> sid \<in> set (ag_registeredSessions a)" if ok: "agents_ok s" and mem: "(i, sid) \<in> set ?ps" for i sid
  proof -
    obtain a where a: "a \<in> set ?batch" "i = ag_id a" "sid \<in> set (ag_registeredSessions a)" using mem by auto
    have "set ?batch \<subseteq> set (kind_rows as_agent AGENT_KIND s)"
      unfolding backfill_page_def list_op_def Let_def
      by (auto simp: agt.entities_of_kind [OF ok] agt.map_filter_mk take_map drop_map dest: in_set_takeD in_set_dropD)
    with a(1) have "row_of as_agent AGENT_KIND (ag_id a) s = Some a" using agt.kind_rows_ids(2) [OF ok] by blast
    with a show ?thesis by (auto simp: loadAgent_def)
  qed
  have kept: "agents_ok s \<Longrightarrow> agents_ok (backfilled s ?ps)" "agents_ok s \<Longrightarrow> loadAgent j (backfilled s ?ps) = loadAgent j s" for j
    using put_pointers_keep [of s ?ps] by (simp_all add: backfilled_def)
  show ?case
  proof (cases "?batch = []")
    case True
    then show ?thesis by (auto intro!: exI [of _ "[]"] simp: backfilled_def counts)
  next
    case some: False
    show ?thesis
    proof (cases "length ?batch < pageSize")
      case True
      then have "snd (backfill_from (Suc n) pageSize page counts s) = backfilled s ?ps"
        using some by (simp add: counts Let_def backfilled_def)
      with members show ?thesis by blast
    next
      case False
      let ?c = "(agents + length ?batch, bindings + length (filter (\<lambda>(i, sid). sid \<noteq> []) ?ps))"
      obtain rest where rest: "snd (backfill_from n pageSize (Suc page) ?c (backfilled s ?ps)) = backfilled (backfilled s ?ps) rest"
        and rest_members: "agents_ok (backfilled s ?ps) \<longrightarrow>
          (\<forall>(i, sid) \<in> set rest. \<exists>a. loadAgent i (backfilled s ?ps) = Some a \<and> sid \<in> set (ag_registeredSessions a))"
        using Suc.IH by blast
      have "snd (backfill_from (Suc n) pageSize page counts s) = backfilled s (?ps @ rest)"
        using some False rest by (simp add: counts Let_def backfilled_def)
      moreover have "agents_ok s \<longrightarrow> (\<forall>(i, sid) \<in> set (?ps @ rest). \<exists>a. loadAgent i s = Some a \<and> sid \<in> set (ag_registeredSessions a))"
        using members rest_members kept by (auto simp del: set_concat)
      ultimately show ?thesis by blast
    qed
  qed
qed

end
