(* ===== verification/Agent_Properties.thy ===== *)
theory Agent_Properties
  imports Agent_Runs
begin

text \<open>What holds in every run of the agent registry: the shape of its rows, the epochs, and the pointers of the sessions.\<close>

section \<open>Every event steps the rows\<close>

lemma register_store: "rg_store (snd (registerAgent sha env now sid role p rg)) =
   (let q = p\<lparr>ip_role := role\<rparr>; rg0 = rg\<lparr>rg_sessionRoles := (rg_sessionRoles rg)(sid \<mapsto> role)\<rparr>;
        out = assertIdentity sha env now q (Some sid) rg0
    in case fst out of Inl e \<Rightarrow> rg_store (snd out)
       | Inr identity \<Rightarrow> rg_store (snd (claimSession env now (ir_agentId identity) sid (snd out))))"
  by (simp add: registerAgent_def Let_def split: prod.split sum.split)

lemma ok_delete_own: "agents_ok s \<Longrightarrow> agents_ok (delete_op AGENT_KIND i s)"
proof (cases "find_row s AGENT_KIND i")
  case (Some row)
  assume "agents_ok s"
  then show ?thesis
    unfolding kind_ok_def by (auto simp: plain_store_delete delete_op_fields [OF Some] split: if_splits)
qed (simp add: store_simps)

lemma event_steps:
  assumes ok: "agents_ok (rg_store rg)" and q: "\<forall>i. q \<noteq> DeleteAgent i"
  shows "agent_steps sha (rg_store rg) (rg_store (agent_happens sha env now q rg))"
proof (cases q)
  case (RegisterAgent sid role p)
  let ?rg0 = "rg\<lparr>rg_sessionRoles := (rg_sessionRoles rg)(sid \<mapsto> role)\<rparr>"
  let ?out = "assertIdentity sha env now (p\<lparr>ip_role := role\<rparr>) (Some sid) ?rg0"
  have first: "agent_steps sha (rg_store rg) (rg_store (snd ?out))" using assert_steps [of ?rg0] ok by simp
  have "agent_steps sha (rg_store rg) (rg_store (snd (claimSession env now i sid (snd ?out))))" for i
    by (rule kind_steps_trans [OF claim_steps [OF agt.steps_ok [OF first ok]] first])
  with first show ?thesis by (simp add: RegisterAgent register_store Let_def split: sum.split)
next
  case (LookupSession sid)
  have "rg_store (snd (getAgentForSession now sid rg)) = rg_store rg"
    by (simp add: getAgentForSession_def split: option.split)
  then show ?thesis by (simp add: LookupSession ks_refl)
next
  case (Backfill pageSize maxPages)
  obtain ps where ps: "snd (backfill_from maxPages pageSize 0 (0, 0) (rg_store rg)) = backfilled (rg_store rg) ps"
    using backfill_pointers by blast
  have "rg_store (snd (backfillSessionBindings pageSize maxPages rg)) = backfilled (rg_store rg) ps"
    unfolding ps [symmetric] by (simp add: backfillSessionBindings_def split: prod.split)
  then show ?thesis using put_pointers_steps [OF ok ks_refl] by (simp add: Backfill backfilled_def)
next
  case (ThrashRecorded i)
  show ?thesis using single_update_steps [OF thrash_single(1) [OF ok] ok] by (simp add: ThrashRecorded)
next
  case (ThrashReset i)
  show ?thesis using single_update_steps [OF thrash_single(2) [OF ok] ok] by (simp add: ThrashReset)
qed (use ok q in \<open>auto simp: assert_steps claim_steps setSessionRole_def forgetSession_def restarted_def own_kind_def ks_refl
      intro: ks_write [OF ks_refl] ks_delete [OF ks_refl] single_update_steps [OF _ ok] single_updates\<close>)

lemma event_ok: "agents_ok (rg_store rg) \<Longrightarrow> agents_ok (rg_store (agent_happens sha env now q rg))"
proof (cases "\<exists>i. q = DeleteAgent i")
  case True
  assume "agents_ok (rg_store rg)"
  with True show ?thesis by (auto simp: deleteAgent_def ok_delete_own split: option.split)
next
  case False
  assume ok: "agents_ok (rg_store rg)"
  with False show ?thesis using event_steps agt.steps_ok by blast
qed

lemma events_ok: "agents_ok (rg_store rg) \<Longrightarrow> agents_ok (rg_store (agent_events sha env evs rg))"
proof (induction evs arbitrary: rg)
  case (Cons ev evs)
  then show ?case using event_ok by (cases ev) simp
qed simp

lemma empty_ok: "agents_ok (rg_store empty_registry)"
  by (simp add: empty_registry_def agt.ok_empty)

lemma load_delete: "agents_ok s \<Longrightarrow> loadAgent j (delete_op AGENT_KIND i s) = (if j = i then None else loadAgent j s)"
proof (cases "find_row s AGENT_KIND i")
  case (Some row)
  then show ?thesis by (simp add: loadAgent_def row_of_def get_op_def delete_op_fields [OF Some])
qed (simp add: loadAgent_def row_of_def get_op_def store_simps)

lemma event_row:
  assumes ok: "agents_ok (rg_store rg)" and q: "q \<noteq> DeleteAgent i" and a: "loadAgent i (rg_store rg) = Some a"
  shows "\<exists>a'. loadAgent i (rg_store (agent_happens sha env now q rg)) = Some a' \<and> agent_step a a'"
proof (cases "\<exists>j. q = DeleteAgent j")
  case True
  then obtain j where j: "q = DeleteAgent j" ..
  have "rg_store (agent_happens sha env now q rg) = rg_store rg \<or> rg_store (agent_happens sha env now q rg) = delete_op AGENT_KIND j (rg_store rg)"
    by (simp add: j deleteAgent_def split: option.split)
  with q j a show ?thesis using load_delete [OF ok] by auto
next
  case False
  then have "agent_steps sha (rg_store rg) (rg_store (agent_happens sha env now q rg))" using event_steps [OF ok] by blast
  from agt.steps_path [OF this ok] a show ?thesis unfolding loadAgent_def using agent_steps_path by blast
qed

lemma events_row:
  "agents_ok (rg_store rg) \<Longrightarrow> DeleteAgent i \<notin> snd ` set evs \<Longrightarrow> loadAgent i (rg_store rg) = Some a \<Longrightarrow>
    \<exists>a'. loadAgent i (rg_store (agent_events sha env evs rg)) = Some a' \<and> agent_step a a'"
proof (induction evs arbitrary: rg a)
  case (Cons ev evs)
  obtain now q where ev: "ev = (now, q)" by (cases ev)
  obtain b where b: "loadAgent i (rg_store (agent_happens sha env now q rg)) = Some b" "agent_step a b"
  proof -
    have "q \<noteq> DeleteAgent i" using Cons.prems(2) by (auto simp: ev)
    from event_row [OF Cons.prems(1) this Cons.prems(3)] show ?thesis using that by blast
  qed
  from Cons.IH [OF event_ok [OF Cons.prems(1)] _ b(1)] Cons.prems(2) b(2) agent_step_trans show ?case
    by (fastforce simp: ev)
qed auto

lemma born_step: "agent_step a a' \<Longrightarrow> agent_born sha a \<Longrightarrow> agent_born sha a'"
  unfolding agent_step_def agent_born_def agent_named_def by (elim conjE) (intro conjI; simp)

lemma event_born:
  assumes ok: "agents_ok (rg_store rg)" and born: "\<And>i a. loadAgent i (rg_store rg) = Some a \<Longrightarrow> agent_born sha a"
    and a: "loadAgent i (rg_store (agent_happens sha env now q rg)) = Some a"
  shows "agent_born sha a"
proof (cases "\<exists>j. q = DeleteAgent j")
  case True
  then obtain j where "q = DeleteAgent j" ..
  with a born show ?thesis using load_delete [OF ok] by (auto simp: deleteAgent_def split: option.splits if_splits)
next
  case False
  then have "agent_steps sha (rg_store rg) (rg_store (agent_happens sha env now q rg))" using event_steps [OF ok] by blast
  from agt.steps_invariant [OF this ok, of "agent_born sha" i a] a born born_step show ?thesis unfolding loadAgent_def by blast
qed

lemma events_born:
  "agents_ok (rg_store rg) \<Longrightarrow> (\<And>i a. loadAgent i (rg_store rg) = Some a \<Longrightarrow> agent_born sha a) \<Longrightarrow>
    loadAgent i (rg_store (agent_events sha env evs rg)) = Some a \<Longrightarrow> agent_born sha a"
proof (induction evs arbitrary: rg)
  case (Cons ev evs)
  obtain now q where ev: "ev = (now, q)" by (cases ev)
  show ?case
    by (rule Cons.IH [OF event_ok [OF Cons.prems(1), of sha env now q]])
      (use event_born [OF Cons.prems(1,2)] Cons.prems(3) in \<open>auto simp: ev\<close>)
qed simp

lemma run_born: "loadAgent i (rg_store (agent_events sha env evs empty_registry)) = Some a \<Longrightarrow> agent_born sha a"
  by (rule events_born [OF empty_ok])
    (simp_all add: empty_registry_def loadAgent_def row_of_def get_op_def find_row_def getKindStore_def empty_substrate_def)


section \<open>The pointers of the sessions\<close>

text \<open>
  Session ids are unique to an agent: a map says whose they are, and every request uses a session of its agent.
\<close>

fun session_of :: "sha256 \<Rightarrow> (string \<Rightarrow> agent_id) \<Rightarrow> agent_request \<Rightarrow> bool" where
  "session_of sha owner (AssertIdentity p sid) = (\<forall>x. sid = Some x \<longrightarrow> x \<noteq> [] \<longrightarrow> owner x = deriveAgentId sha (ip_name p))"
| "session_of sha owner (ClaimSession i sid) = (owner sid = i)"
| "session_of sha owner (RegisterAgent sid role p) = (owner sid = deriveAgentId sha (ip_name p))"
| "session_of sha owner _ = True"

definition pointers_ok :: "(string \<Rightarrow> agent_id) \<Rightarrow> hub_store \<Rightarrow> bool" where
  "pointers_ok owner s \<longleftrightarrow> (\<forall>i a sid. loadAgent i s = Some a \<longrightarrow> sid \<in> set (ag_registeredSessions a) \<longrightarrow>
     owner sid = i \<and> (sid \<noteq> [] \<longrightarrow> bound_agent sid s = Some i))"

lemma bound_write [simp]:
  "bound_agent x (write_row SESSION_BINDING_KIND sid (ESessionBinding sid i) s) = (if x = sid then truthy_text (Some i) else bound_agent x s)"
  by (simp add: bound_agent_def get_op_def store_simps)

lemma bound_write_other: "k \<noteq> SESSION_BINDING_KIND \<Longrightarrow> bound_agent x (write_row k i e s) = bound_agent x s"
  by (simp add: bound_agent_def get_op_def store_simps)

lemma bound_delete:
  "bound_agent x (delete_op SESSION_BINDING_KIND sid s) = (if x = sid then None else bound_agent x s)"
proof (cases "find_row s SESSION_BINDING_KIND sid")
  case (Some row)
  then show ?thesis by (simp add: bound_agent_def get_op_def delete_op_fields [OF Some])
qed (simp add: bound_agent_def get_op_def store_simps)

lemma bound_delete_other: "k \<noteq> SESSION_BINDING_KIND \<Longrightarrow> bound_agent x (delete_op k i s) = bound_agent x s"
  by (simp add: bound_agent_def get_op_def find_row_delete_other)

lemma bound_put: "agents_ok s \<Longrightarrow> i \<noteq> [] \<Longrightarrow>
    bound_agent x (put_pointer i sid s) = (if x = sid \<and> sid \<noteq> [] then Some i else bound_agent x s)"
  by (simp add: put_pointer_eq [OF agt.ok_plain] truthy_text_def falsy_text_def)

lemma bound_puts:
  "agents_ok s \<Longrightarrow> i \<noteq> [] \<Longrightarrow>
    bound_agent x (fold (put_pointer i) sids s) = (if x \<in> set sids \<and> x \<noteq> [] then Some i else bound_agent x s)"
proof (induction sids arbitrary: s)
  case (Cons sid sids)
  have "agents_ok (put_pointer i sid s)" using put_pointers_keep [OF Cons.prems(1), of "[(i, sid)]"] by simp
  from Cons.IH [OF this Cons.prems(2)] Cons.prems show ?case by (auto simp: bound_put)
qed simp

lemma bound_deletes: "bound_agent x (fold (delete_op SESSION_BINDING_KIND) sids s) = (if x \<in> set sids then None else bound_agent x s)"
  by (induction sids arbitrary: s) (auto simp: bound_delete)

lemma bound_reconcile:
  assumes "agents_ok s" "i \<noteq> []"
  shows "bound_agent x (reconcileSessionBindings i before after s) =
    (if x \<in> set before - set after then None
     else if x \<in> set after - set before \<and> x \<noteq> [] then Some i else bound_agent x s)"
  using assms by (auto simp: reconcileSessionBindings_def bound_deletes bound_puts)

lemma load_reconcile: "agents_ok s \<Longrightarrow> loadAgent j (reconcileSessionBindings i before after s) = loadAgent j s"
proof -
  assume ok: "agents_ok s"
  have "loadAgent j (fold (delete_op SESSION_BINDING_KIND) sids t) = loadAgent j t" for sids t
    by (induction sids arbitrary: t) (simp_all add: loadAgent_def agt.row_of_delete_other)
  then show ?thesis
    unfolding reconcileSessionBindings_def fold_put_pointer using put_pointers_keep [OF ok] by simp
qed

text \<open>A row is written with new sessions and the pointers are reconciled.\<close>

lemma pointers_put:
  assumes ok: "agents_ok s" and inv: "pointers_ok owner s" and id: "ag_id a' = i" "i \<noteq> []"
    and before: "\<forall>x \<in> set before. owner x = i \<and> (x \<noteq> [] \<longrightarrow> bound_agent x s = Some i)"
    and after: "\<forall>x \<in> set (ag_registeredSessions a'). owner x = i"
  shows "pointers_ok owner (reconcileSessionBindings i before (ag_registeredSessions a') (write_row AGENT_KIND i (EAgent a') s))"
proof -
  let ?t = "write_row AGENT_KIND i (EAgent a') s"
  have t: "agents_ok ?t" by (rule agt.ok_write [OF ok id])
  have bound: "bound_agent x (reconcileSessionBindings i before (ag_registeredSessions a') ?t) =
      (if x \<in> set before - set (ag_registeredSessions a') then None
       else if x \<in> set (ag_registeredSessions a') - set before \<and> x \<noteq> [] then Some i else bound_agent x s)" for x
    unfolding bound_reconcile [OF t id(2)] by (simp add: bound_write_other)
  have load: "loadAgent j (reconcileSessionBindings i before (ag_registeredSessions a') ?t) = (if j = i then Some a' else loadAgent j s)" for j
    unfolding load_reconcile [OF t] by (simp add: loadAgent_def)
  show ?thesis
    unfolding pointers_ok_def load
  proof (intro allI impI)
    fix j b x
    assume b: "(if j = i then Some a' else loadAgent j s) = Some b" and x: "x \<in> set (ag_registeredSessions b)"
    show "owner x = j \<and> (x \<noteq> [] \<longrightarrow> bound_agent x (reconcileSessionBindings i before (ag_registeredSessions a') ?t) = Some j)"
    proof (cases "j = i")
      case True
      then have "x \<in> set (ag_registeredSessions a')" using b x by simp
      with True after before show ?thesis unfolding bound by simp
    next
      case False
      with b x inv have "owner x = j" "x \<noteq> [] \<longrightarrow> bound_agent x s = Some j" unfolding pointers_ok_def by auto
      moreover from this(1) False have "x \<notin> set before" "x \<notin> set (ag_registeredSessions a')" using before after by blast+
      ultimately show ?thesis unfolding bound by simp
    qed
  qed
qed

lemma pointers_same:
  assumes "pointers_ok owner s" "\<And>i a'. loadAgent i s' = Some a' \<Longrightarrow>
      \<exists>a. loadAgent i s = Some a \<and> set (ag_registeredSessions a') \<subseteq> set (ag_registeredSessions a)"
    and "\<And>x. bound_agent x s' = bound_agent x s"
  shows "pointers_ok owner s'"
  unfolding pointers_ok_def assms(3)
proof (intro allI impI)
  fix i a' sid assume "loadAgent i s' = Some a'" "sid \<in> set (ag_registeredSessions a')"
  with assms(2) obtain a where "loadAgent i s = Some a" "sid \<in> set (ag_registeredSessions a)" by blast
  with assms(1) show "owner sid = i \<and> (sid \<noteq> [] \<longrightarrow> bound_agent sid s = Some i)" unfolding pointers_ok_def by blast
qed

lemma pointers_single:
  assumes ok: "agents_ok (rg_store rg)" and inv: "pointers_ok owner (rg_store rg)" and single: "single_update rg rg'"
  shows "pointers_ok owner (rg_store rg')"
  using single unfolding single_update_def
proof (elim disjE exE conjE)
  fix i f
  assume f: "keeps_sessions f" and store: "rg_store rg' = snd (update_once_with id i f (rg_store rg))"
  have once: "rg_store rg' = (case loadAgent i (rg_store rg) of None \<Rightarrow> rg_store rg
      | Some a \<Rightarrow> (case f (normalizeAgentShape a) of None \<Rightarrow> rg_store rg | Some a' \<Rightarrow> write_row AGENT_KIND i (EAgent a') (rg_store rg)))"
  proof -
    have "update_once_with id i f (rg_store rg) = (case loadAgent i (rg_store rg) of None \<Rightarrow> (False, rg_store rg)
        | Some a \<Rightarrow> (case f (normalizeAgentShape a) of None \<Rightarrow> (False, rg_store rg)
            | Some a' \<Rightarrow> (True, write_row AGENT_KIND i (EAgent a') (rg_store rg))))"
      by (rule update_once_eq [OF ok]) (rule keeps_sessionsD [OF f])
    then show ?thesis unfolding store by (simp split: option.split)
  qed
  show ?thesis
  proof (cases "\<exists>a a'. loadAgent i (rg_store rg) = Some a \<and> f (normalizeAgentShape a) = Some a'")
    case True
    then obtain a a' where a: "loadAgent i (rg_store rg) = Some a" "f (normalizeAgentShape a) = Some a'" by blast
    then have "ag_registeredSessions a' = ag_registeredSessions a" using f by (simp add: keeps_sessions_def)
    with a show ?thesis
      by (intro pointers_same [OF inv]) (auto simp: once loadAgent_def bound_write_other split: if_splits)
  next
    case False
    with inv show ?thesis by (auto simp: once split: option.split)
  qed
qed (simp add: inv)


lemma derived_id:
  assumes "agent_born sha a" "ag_fingerprint a = sha n"
  shows "ag_id a = deriveAgentId sha n"
  using assms by (simp add: agent_born_def agent_named_def deriveAgentId_def)

lemma pointers_assert:
  assumes ok: "agents_ok (rg_store rg)" and inv: "pointers_ok owner (rg_store rg)"
    and born: "\<And>i a. loadAgent i (rg_store rg) = Some a \<Longrightarrow> agent_born sha a"
    and sid: "\<forall>x. sid = Some x \<longrightarrow> x \<noteq> [] \<longrightarrow> owner x = deriveAgentId sha (ip_name p)"
    and run: "assertIdentity sha env now p sid rg = (r, rg')"
  shows "pointers_ok owner (rg_store rg')" "\<forall>identity. r = Inr identity \<longrightarrow> ir_agentId identity = deriveAgentId sha (ip_name p)"
proof -
  have "pointers_ok owner (rg_store rg') \<and> (\<forall>identity. r = Inr identity \<longrightarrow> ir_agentId identity = deriveAgentId sha (ip_name p))"
    using ok run
  proof (cases rule: assert_cases)
    case (refused e)
    with inv show ?thesis by simp
  next
    case created
    let ?a = "new_agent sha now p sid"
    have id: "ag_id ?a = deriveAgentId sha (ip_name p)" by (simp add: new_agent_def)
    have "\<forall>x \<in> set (ag_registeredSessions ?a). owner x = deriveAgentId sha (ip_name p)"
      using sid by (cases sid) (auto simp: new_agent_def falsy_text_def)
    from pointers_put [OF ok inv id derive_ne _ this, of "[]"] show ?thesis
      unfolding created(3,4) by (simp add: identity_of_def id)
  next
    case (refreshed a rv tags labels prior)
    let ?b = "refreshed_agent env now p sid tags labels (normalizeAgentShape a)"
    have a: "loadAgent (ag_id a) (rg_store rg) = Some a" "ag_id a \<noteq> []" using load_iff(3) [OF ok refreshed(1)] by auto
    have id: "ag_id a = deriveAgentId sha (ip_name p)" by (rule derived_id [OF born [OF a(1)] refreshed(2)])
    have same: "ag_id ?b = ag_id a" using refreshed_step by (simp add: agent_step_def)
    have old: "\<forall>x \<in> set (ag_registeredSessions a). owner x = ag_id a \<and> (x \<noteq> [] \<longrightarrow> bound_agent x (rg_store rg) = Some (ag_id a))"
      using inv a(1) unfolding pointers_ok_def by blast
    have "ag_registeredSessions ?b = (if falsy_text sid then ag_registeredSessions a else appendRegisteredSession (ag_registeredSessions a) (the sid))"
      by (simp add: refreshed_agent_def)
    then have new: "\<forall>x \<in> set (ag_registeredSessions ?b). owner x = ag_id a"
      using old sid id appendRegistered(4) [of "ag_registeredSessions a" "the sid"] by (cases sid) (auto simp: falsy_text_def)
    from pointers_put [OF ok inv same a(2) old new] show ?thesis
      unfolding refreshed(4,5) by (simp add: identity_of_def same id)
  qed
  then show "pointers_ok owner (rg_store rg')" "\<forall>identity. r = Inr identity \<longrightarrow> ir_agentId identity = deriveAgentId sha (ip_name p)"
    by blast+
qed

lemma pointers_claim:
  assumes ok: "agents_ok (rg_store rg)" and inv: "pointers_ok owner (rg_store rg)" and sid: "owner sid = i"
  shows "pointers_ok owner (rg_store (snd (claimSession env now i sid rg)))"
proof -
  obtain r rg' where run: "claimSession env now i sid rg = (r, rg')" by (cases "claimSession env now i sid rg")
  have "pointers_ok owner (rg_store rg')"
    using ok run
  proof (cases rule: claim_cases)
    case (refused e)
    with inv show ?thesis by simp
  next
    case (claimed a rv)
    let ?b = "claimed_agent env now sid (normalizeAgentShape a)"
    have a: "loadAgent i (rg_store rg) = Some a" "ag_id a = i" "i \<noteq> []" using load_iff(3) [OF ok claimed(1)] by auto
    have same: "ag_id ?b = i" using claimed_step a(2) by (simp add: agent_step_def)
    have old: "\<forall>x \<in> set (ag_registeredSessions a). owner x = i \<and> (x \<noteq> [] \<longrightarrow> bound_agent x (rg_store rg) = Some i)"
      using inv a(1) unfolding pointers_ok_def by blast
    let ?kept = "filter (\<lambda>x. map_option fst (displaced_by sid (normalizeAgentShape a)) \<noteq> Some x) (ag_registeredSessions a)"
    have "ag_registeredSessions ?b = appendRegisteredSession ?kept sid" by (simp add: claimed_agent_def Let_def)
    then have new: "\<forall>x \<in> set (ag_registeredSessions ?b). owner x = i"
      using old sid appendRegistered(4) [of ?kept sid] by auto
    show ?thesis unfolding claimed(3) by (rule pointers_put [OF ok inv same a(3) old new])
  qed
  with run show ?thesis by simp
qed

lemma pointers_event:
  assumes ok: "agents_ok (rg_store rg)" and inv: "pointers_ok owner (rg_store rg)"
    and born: "\<And>i a. loadAgent i (rg_store rg) = Some a \<Longrightarrow> agent_born sha a" and q: "session_of sha owner q"
  shows "pointers_ok owner (rg_store (agent_happens sha env now q rg))"
proof (cases q)
  case (AssertIdentity p sid)
  have "\<forall>x. sid = Some x \<longrightarrow> x \<noteq> [] \<longrightarrow> owner x = deriveAgentId sha (ip_name p)" using q by (simp add: AssertIdentity)
  from pointers_assert(1) [OF ok inv born this prod.collapse [symmetric]] show ?thesis by (simp add: AssertIdentity)
next
  case (ClaimSession i sid)
  with q show ?thesis by (simp add: pointers_claim [OF ok inv])
next
  case (RegisterAgent sid role p)
  let ?q = "p\<lparr>ip_role := role\<rparr>" and ?rg0 = "rg\<lparr>rg_sessionRoles := (rg_sessionRoles rg)(sid \<mapsto> role)\<rparr>"
  let ?out = "assertIdentity sha env now ?q (Some sid) ?rg0"
  have ok0: "agents_ok (rg_store ?rg0)" and inv0: "pointers_ok owner (rg_store ?rg0)"
    and born0: "\<And>i a. loadAgent i (rg_store ?rg0) = Some a \<Longrightarrow> agent_born sha a" using ok inv born by simp_all
  have sid: "owner sid = deriveAgentId sha (ip_name ?q)" using q by (simp add: RegisterAgent)
  then have "\<forall>x. Some sid = Some x \<longrightarrow> x \<noteq> [] \<longrightarrow> owner x = deriveAgentId sha (ip_name ?q)" by simp
  note first = pointers_assert [OF ok0 inv0 born0 this prod.collapse [symmetric]]
  have out_ok: "agents_ok (rg_store (snd ?out))" by (rule agt.steps_ok [OF assert_steps [OF ok0] ok0])
  show ?thesis
  proof (cases "fst ?out")
    case (Inl e)
    with first(1) show ?thesis by (simp add: RegisterAgent register_store Let_def)
  next
    case (Inr identity)
    then have "owner sid = ir_agentId identity" using first(2) sid by simp
    from pointers_claim [OF out_ok first(1) this] Inr show ?thesis by (simp add: RegisterAgent register_store Let_def)
  qed
next
  case (LookupSession sid)
  have "rg_store (snd (getAgentForSession now sid rg)) = rg_store rg"
    by (simp add: getAgentForSession_def split: option.split)
  with inv show ?thesis by (simp add: LookupSession)
next
  case (DeleteAgent i)
  show ?thesis
    using inv by (auto simp: DeleteAgent deleteAgent_def split: option.split
        intro!: pointers_same [OF inv] simp: load_delete [OF ok] bound_delete_other split: if_splits)
next
  case (Backfill pageSize maxPages)
  obtain ps where ps: "snd (backfill_from maxPages pageSize 0 (0, 0) (rg_store rg)) = backfilled (rg_store rg) ps"
    and mem: "agents_ok (rg_store rg) \<longrightarrow> (\<forall>(i, sid) \<in> set ps. \<exists>a. loadAgent i (rg_store rg) = Some a \<and> sid \<in> set (ag_registeredSessions a))"
    using backfill_pointers by blast
  have store: "rg_store (snd (backfillSessionBindings pageSize maxPages rg)) = backfilled (rg_store rg) ps"
    unfolding ps [symmetric] by (simp add: backfillSessionBindings_def split: prod.split)
  have pairs: "\<forall>(i, sid) \<in> set ps. owner sid = i \<and> (sid \<noteq> [] \<longrightarrow> bound_agent sid (rg_store rg) = Some i) \<and> i \<noteq> []"
  proof clarify
    fix i sid assume "(i, sid) \<in> set ps"
    with mem ok obtain a where a: "loadAgent i (rg_store rg) = Some a" "sid \<in> set (ag_registeredSessions a)" by blast
    then have "i \<noteq> []" using agt.row_of_id [OF ok, of i a] by (simp add: loadAgent_def)
    with a inv show "owner sid = i \<and> (sid \<noteq> [] \<longrightarrow> bound_agent sid (rg_store rg) = Some i) \<and> i \<noteq> []"
      unfolding pointers_ok_def by blast
  qed
  have "\<forall>x. bound_agent x (backfilled s ps) = bound_agent x s"
    if "agents_ok s" "\<forall>(i, sid) \<in> set ps. (sid \<noteq> [] \<longrightarrow> bound_agent sid s = Some i) \<and> i \<noteq> []" for s
    using that
  proof (induction ps arbitrary: s)
    case (Cons pr ps)
    obtain i sid where pr: "pr = (i, sid)" by (cases pr)
    have same: "bound_agent x (put_pointer i sid s) = bound_agent x s" for x
      using Cons.prems by (auto simp: pr bound_put)
    have "agents_ok (put_pointer i sid s)" using put_pointers_keep [OF Cons.prems(1), of "[(i, sid)]"] by simp
    from Cons.IH [OF this] Cons.prems(2) same show ?case by (simp add: backfilled_def pr)
  qed (simp add: backfilled_def)
  with pairs ok have "bound_agent x (backfilled (rg_store rg) ps) = bound_agent x (rg_store rg)" for x by fast
  then show ?thesis
    using put_pointers_keep [OF ok] by (intro pointers_same [OF inv]) (simp_all add: Backfill store backfilled_def)
next
  case (ThrashRecorded i)
  show ?thesis using pointers_single [OF ok inv thrash_single(1) [OF ok]] by (simp add: ThrashRecorded)
next
  case (ThrashReset i)
  show ?thesis using pointers_single [OF ok inv thrash_single(2) [OF ok]] by (simp add: ThrashReset)
next
  case (OtherKindPut k i e)
  show ?thesis
  proof (cases "own_kind k")
    case False
    then show ?thesis
      by (intro pointers_same [OF inv]) (simp_all add: OtherKindPut own_kind_def loadAgent_def agt.row_of_write_other bound_write_other)
  qed (simp add: OtherKindPut inv)
next
  case (OtherKindDelete k i)
  show ?thesis
  proof (cases "own_kind k")
    case False
    then show ?thesis
      by (intro pointers_same [OF inv]) (simp_all add: OtherKindDelete own_kind_def loadAgent_def agt.row_of_delete_other bound_delete_other)
  qed (simp add: OtherKindDelete inv)
qed (use inv in \<open>auto simp: setSessionRole_def forgetSession_def restarted_def intro: pointers_single [OF ok inv] single_updates\<close>)

lemma pointers_events:
  "agents_ok (rg_store rg) \<Longrightarrow> pointers_ok owner (rg_store rg) \<Longrightarrow>
    (\<And>i a. loadAgent i (rg_store rg) = Some a \<Longrightarrow> agent_born sha a) \<Longrightarrow> \<forall>q \<in> snd ` set evs. session_of sha owner q \<Longrightarrow>
    pointers_ok owner (rg_store (agent_events sha env evs rg))"
proof (induction evs arbitrary: rg)
  case (Cons ev evs)
  obtain now q where ev: "ev = (now, q)" by (cases ev)
  have q: "session_of sha owner q" using Cons.prems(4) by (simp add: ev)
  show ?case
    unfolding ev agent_events.simps
    by (rule Cons.IH [OF event_ok [OF Cons.prems(1)] pointers_event [OF Cons.prems(1,2,3) q]])
      (use event_born [OF Cons.prems(1,3)] Cons.prems(4) in auto)
qed simp

lemma run_pointers:
  "\<forall>q \<in> snd ` set evs. session_of sha owner q \<Longrightarrow> pointers_ok owner (rg_store (agent_events sha env evs empty_registry))"
proof (rule pointers_events [OF empty_ok])
  have none: "loadAgent i (rg_store empty_registry) = None" for i
    by (simp add: empty_registry_def loadAgent_def row_of_def get_op_def find_row_def getKindStore_def empty_substrate_def)
  show "pointers_ok owner (rg_store empty_registry)" by (simp add: pointers_ok_def none)
  show "loadAgent i (rg_store empty_registry) = Some a \<Longrightarrow> agent_born sha a" for i a by (simp add: none)
qed

end
