(* ===== verification/Agent_Outcomes.thy ===== *)
theory Agent_Outcomes
  imports Agent_Properties Demo_Hub
begin

text \<open>
  What the agent registry promises: the shape of an agent, its epochs, the resolution of a session after a restart, the rate limit of the
  claims and the selection of agents.
\<close>

section \<open>A small registry\<close>

definition demo_env :: agent_env where
  "demo_env = \<lparr>en_peerPresenceWindowMs = None, en_touchMinIntervalMs = 30000\<rparr>"

definition demo_payload :: "string \<Rightarrow> identity_payload" where
  "demo_payload n = \<lparr>ip_name = n, ip_role = ''engineer'', ip_clientMetadata = ag_clientMetadata (demo_agent n ''engineer''),
     ip_advisoryTags = None, ip_labels = None, ip_wakeEndpoint = None, ip_receiptSla = None\<rparr>"

definition registered :: "string \<Rightarrow> string \<Rightarrow> agent_request" where
  "registered n sid = RegisterAgent sid ''engineer'' (demo_payload n)"

definition demo_registry :: agent_registry where
  "demo_registry = agent_events demo_sha demo_env [(100, registered ''ann'' ''s1'')] empty_registry"

section \<open>The shape of an agent\<close>

text \<open>
  C20: the shape of an agent.  In every run, restarts and deletions included, an agent's id and fingerprint are those of its name, its
  registered sessions are distinct and at most eight, its error list and its restart history stay within their bounds, its counters are
  not negative, and it has a current session exactly when it was ever claimed.
\<close>

theorem agent_rows_shaped:
  assumes "loadAgent i (rg_store (agent_events sha env evs empty_registry)) = Some a"
  shows "ag_id a = i \<and> ag_name a \<noteq> [] \<and> i = deriveAgentId sha (ag_name a) \<and> ag_fingerprint a = sha (ag_name a) \<and>
    distinct (ag_registeredSessions a) \<and> length (ag_registeredSessions a) \<le> 8 \<and>
    length (ag_recentErrors a) \<le> 10 \<and> ag_restartCount a \<le> length (ag_restartHistoryMs a) \<and> length (ag_restartHistoryMs a) \<le> 50 \<and>
    0 \<le> ag_thrashCount a \<and> 0 \<le> ag_sessionEpoch a \<and> (ag_sessionEpoch a = 0 \<longleftrightarrow> ag_currentSessionId a = None)"
proof -
  have "ag_id a = i" using agt.row_of_id [OF events_ok [OF empty_ok]] assms by (simp add: loadAgent_def)
  with run_born [OF assms] show ?thesis
    by (auto simp: agent_born_def agent_shape_def agent_named_def AGENT_RECENT_ERRORS_CAP_def AGENT_RESTART_HISTORY_CAP_def)
qed

theorem agent_rows_shaped_witness:
  "\<exists>a. loadAgent ''agent-ann'' (rg_store demo_registry) = Some a \<and> ag_name a \<noteq> [] \<and> ''agent-ann'' = deriveAgentId demo_sha (ag_name a)"
proof -
  have "loadAgent ''agent-ann'' (rg_store demo_registry) \<noteq> None" by code_simp
  then obtain a where a: "loadAgent ''agent-ann'' (rg_store demo_registry) = Some a" by blast
  from agent_rows_shaped [OF this [unfolded demo_registry_def]] a show ?thesis by blast
qed

section \<open>Epochs\<close>

text \<open>
  C8: epochs fence sessions.  After a claim, whatever is requested and however often the hub restarts, as long as the agent is not deleted: its
  epoch never falls below the one the claim was given; while it is still that one, the claiming session is the current
  one; and every later claim gets a larger epoch, the next one naming the session it displaces.
\<close>

theorem claim_epochs:
  assumes claim: "claimSession env now i sid (agent_events sha env evs empty_registry) = (Inr c, rg)"
    and kept: "DeleteAgent i \<notin> snd ` set evs'"
  shows "\<exists>a. loadAgent i (rg_store (agent_events sha env evs' rg)) = Some a \<and> cr_sessionEpoch c \<le> ag_sessionEpoch a \<and>
    (ag_sessionEpoch a = cr_sessionEpoch c \<longrightarrow> ag_currentSessionId a = Some sid) \<and>
    (\<forall>later sid' c' rg'. claimSession env later i sid' (agent_events sha env evs' rg) = (Inr c', rg') \<longrightarrow>
       cr_sessionEpoch c' = ag_sessionEpoch a + 1 \<and> cr_sessionEpoch c < cr_sessionEpoch c' \<and>
       (cr_sessionEpoch c' = cr_sessionEpoch c + 1 \<and> sid \<noteq> [] \<and> sid' \<noteq> sid \<longrightarrow> cr_displaced c' = Some (sid, cr_sessionEpoch c)))"
proof -
  let ?start = "agent_events sha env evs empty_registry"
  have ok: "agents_ok (rg_store ?start)" by (rule events_ok [OF empty_ok])
  obtain b where b: "loadAgent i (rg_store rg) = Some b" "ag_sessionEpoch b = cr_sessionEpoch c" "ag_currentSessionId b = Some sid"
    using ok claim
  proof (cases rule: claim_cases)
    case (claimed a rv)
    let ?b = "claimed_agent env now sid (normalizeAgentShape a)"
    have id: "ag_id ?b = i" "i \<noteq> []" using claimed_step load_iff(3) [OF ok claimed(1)] by (auto simp: agent_step_def)
    have "loadAgent i (rg_store rg) = Some ?b"
      unfolding claimed(3) load_reconcile [OF agt.ok_write [OF ok id]] by (simp add: loadAgent_def)
    moreover have "ag_sessionEpoch ?b = cr_sessionEpoch c" "ag_currentSessionId ?b = Some sid"
      using claimed(2) by (simp_all add: claimed_agent_def Let_def)
    ultimately show ?thesis using that by blast
  qed simp
  have rg: "agents_ok (rg_store rg)" using agt.steps_ok [OF claim_steps [OF ok] ok, of env now i sid] by (simp add: claim)
  let ?final = "agent_events sha env evs' rg"
  have ok': "agents_ok (rg_store ?final)" by (rule events_ok [OF rg])
  obtain a where a: "loadAgent i (rg_store ?final) = Some a" "agent_step b a" using events_row [OF rg kept b(1)] by blast
  have epoch: "cr_sessionEpoch c \<le> ag_sessionEpoch a" "ag_sessionEpoch a = cr_sessionEpoch c \<Longrightarrow> ag_currentSessionId a = Some sid"
    using a(2) b(2,3) by (auto simp: agent_step_def)
  have "cr_sessionEpoch c' = ag_sessionEpoch a + 1 \<and> cr_displaced c' = displaced_by sid' (normalizeAgentShape a)"
    if "claimSession env later i sid' ?final = (Inr c', rg')" for later sid' c' rg'
    using ok' that
  proof (cases rule: claim_cases)
    case (claimed a' rv)
    then have "a' = a" using load_iff(3) [OF ok' claimed(1)] a(1) by simp
    with claimed(2) show ?thesis by simp
  qed simp
  with a(1) epoch show ?thesis by (fastforce simp: displaced_by_def truthy_text_def falsy_text_def)
qed

definition demo_claim :: "(agent_error + claim_result) \<times> agent_registry" where
  "demo_claim = claimSession demo_env 200 ''agent-ann'' ''s2'' demo_registry"

theorem claim_epochs_witness:
  "\<exists>c a. fst demo_claim = Inr c \<and> cr_sessionEpoch c = 2 \<and> cr_displaced c = Some (''s1'', 1) \<and>
     loadAgent ''agent-ann'' (rg_store (agent_events demo_sha demo_env [(300, HubRestart), (400, MarkOffline ''s2'')] (snd demo_claim))) = Some a \<and>
     2 \<le> ag_sessionEpoch a"
proof -
  have run: "fst demo_claim = Inr \<lparr>cr_agentId = ''agent-ann'', cr_sessionEpoch = 2, cr_displaced = Some (''s1'', 1)\<rparr>" by code_simp
  then have "claimSession demo_env 200 ''agent-ann'' ''s2'' demo_registry =
      (Inr \<lparr>cr_agentId = ''agent-ann'', cr_sessionEpoch = 2, cr_displaced = Some (''s1'', 1)\<rparr>, snd demo_claim)"
    unfolding demo_claim_def by (metis prod.collapse)
  from claim_epochs [OF this [unfolded demo_registry_def], of "[(300, HubRestart), (400, MarkOffline ''s2'')]"] obtain a where
    "loadAgent ''agent-ann'' (rg_store (agent_events demo_sha demo_env [(300, HubRestart), (400, MarkOffline ''s2'')] (snd demo_claim))) = Some a"
    "2 \<le> ag_sessionEpoch a" by auto
  with run show ?thesis by auto
qed

section \<open>Sessions after a restart\<close>

text \<open>
  C9: sessions survive a restart.  If no session id is used by two agents, then in every run each registered session of an agent that is not
  archived resolves to that agent after a restart of the hub.
\<close>

theorem session_survives_restart:
  assumes own: "\<forall>q \<in> snd ` set evs. session_of sha owner q"
    and rg: "rg = agent_events sha env evs empty_registry"
    and a: "loadAgent i (rg_store rg) = Some a" "sid \<in> set (ag_registeredSessions a)" "sid \<noteq> []" "\<not> ag_archived a"
  shows "\<exists>b. fst (getAgentForSession now sid (restarted rg)) = Some b \<and> ag_id b = i"
proof -
  have "bound_agent sid (rg_store rg) = Some i"
    using run_pointers [OF own, of env] a unfolding rg pointers_ok_def by blast
  moreover have "ag_id a = i" using agt.row_of_id [OF events_ok [OF empty_ok]] a(1) unfolding rg loadAgent_def by blast
  ultimately show ?thesis
    using a by (simp add: getAgentForSession_def restarted_def truthy_text_def falsy_text_def getAgent_def applyLivenessRecompute_def Let_def)
qed

theorem session_survives_restart_witness:
  "\<exists>b. fst (getAgentForSession 500 ''s1'' (restarted demo_registry)) = Some b \<and> ag_id b = ''agent-ann''"
proof -
  have "loadAgent ''agent-ann'' (rg_store demo_registry) \<noteq> None" by code_simp
  then obtain a where a: "loadAgent ''agent-ann'' (rg_store demo_registry) = Some a" by blast
  have "map_option ag_registeredSessions (loadAgent ''agent-ann'' (rg_store demo_registry)) = Some [''s1'']"
    "map_option ag_archived (loadAgent ''agent-ann'' (rg_store demo_registry)) = Some False" by code_simp+
  with a have "''s1'' \<in> set (ag_registeredSessions a)" "\<not> ag_archived a" by simp_all
  from session_survives_restart [where owner = "\<lambda>_. ''agent-ann''", OF _ demo_registry_def a this(1) _ this(2)] show ?thesis
    by (simp add: registered_def demo_payload_def deriveAgentId_def demo_sha_def)
qed

text \<open>
  A session used by two agents is lost.  When a session moves from one agent to another and the first then claims a new one, the pointer
  row that already names the second agent is deleted with the first one's list: the second agent still holds the session as its current one,
  but after a restart nobody is found for it.
\<close>

theorem shared_session_lost:
  "let rg = agent_events demo_sha demo_env
      [(100, registered ''ann'' ''s1''), (200, registered ''bob'' ''s1''), (300, ClaimSession ''agent-ann'' ''s2'')] empty_registry in
   map_option ag_currentSessionId (loadAgent ''agent-bob'' (rg_store rg)) = Some (Some ''s1'') \<and>
   map_option ag_registeredSessions (loadAgent ''agent-bob'' (rg_store rg)) = Some [''s1''] \<and>
   fst (getAgentForSession 400 ''s1'' (restarted rg)) = None"
  by code_simp

section \<open>The rate of claims\<close>

text \<open>
  The rate limit is a sliding window.  Fed with the instants of the claims in order, the check refuses a claim exactly when
  more than three of them, itself included, fall within the last minute.
\<close>

theorem thrash_window:
  assumes "sorted (ts @ [now])"
  shows "snd (recordDisplacementAndCheck (fold (\<lambda>t h. fst (recordDisplacementAndCheck h t)) ts []) now) \<longleftrightarrow>
    3 < length (filter (\<lambda>t. now - 60000 \<le> t) (ts @ [now]))"
proof -
  have window: "dropWhile (\<lambda>x. x < n - 60000) xs = filter (\<lambda>x. n - 60000 \<le> x) xs" if "sorted xs" for n and xs :: "instant list"
    using that
  proof (induction xs)
    case (Cons x xs)
    then have "filter (\<lambda>y. n - 60000 \<le> y) xs = xs" if "n - 60000 \<le> x" using that by (auto simp: filter_id_conv)
    with Cons show ?case by auto
  qed simp
  have hist: "fold (\<lambda>t h. fst (recordDisplacementAndCheck h t)) ts [] = (if ts = [] then [] else filter (\<lambda>x. last ts - 60000 \<le> x) ts)"
    if "sorted ts" for ts :: "instant list"
    using that
  proof (induction ts rule: rev_induct)
    case (snoc t ts)
    let ?h = "fold (\<lambda>t h. fst (recordDisplacementAndCheck h t)) ts []"
    have le: "\<forall>x \<in> set ts. x \<le> t" and sorted: "sorted ts" using snoc.prems by (auto simp: sorted_append)
    have "sorted (?h @ [t])" using snoc.IH [OF sorted] le sorted by (auto simp: sorted_append intro: sorted_filter [of id, simplified])
    then have step: "fold (\<lambda>t h. fst (recordDisplacementAndCheck h t)) (ts @ [t]) [] = filter (\<lambda>x. t - 60000 \<le> x) (?h @ [t])"
      by (simp add: recordDisplacementAndCheck_def Let_def THRASHING_WINDOW_MS_def window)
    have "filter (\<lambda>x. t - 60000 \<le> x) ?h = filter (\<lambda>x. t - 60000 \<le> x) ts"
    proof (cases "ts = []")
      case False
      then have "last ts \<le> t" using le by simp
      with False snoc.IH [OF sorted] show ?thesis by (auto simp: intro!: filter_cong)
    qed simp
    with step show ?case by simp
  qed simp
  let ?h = "fold (\<lambda>t h. fst (recordDisplacementAndCheck h t)) ts []"
  have le: "\<forall>x \<in> set ts. x \<le> now" and sorted: "sorted ts" using assms by (auto simp: sorted_append)
  have "sorted (?h @ [now])" using hist [OF sorted] le sorted by (auto simp: sorted_append intro: sorted_filter [of id, simplified])
  moreover have "filter (\<lambda>x. now - 60000 \<le> x) ?h = filter (\<lambda>x. now - 60000 \<le> x) ts"
  proof (cases "ts = []")
    case False
    then have "last ts \<le> now" using le by simp
    with False hist [OF sorted] show ?thesis by (auto intro!: filter_cong)
  qed simp
  ultimately show ?thesis
    by (simp add: recordDisplacementAndCheck_def Let_def THRASHING_WINDOW_MS_def THRASHING_THRESHOLD_def window)
qed

theorem thrash_window_witness:
  "snd (recordDisplacementAndCheck (fold (\<lambda>t h. fst (recordDisplacementAndCheck h t)) [0, 50000, 70000, 90000 :: int] []) 100000) \<and>
   \<not> snd (recordDisplacementAndCheck (fold (\<lambda>t h. fst (recordDisplacementAndCheck h t)) [0, 50000, 70000, 90000 :: int] []) 120000)"
  using thrash_window [of "[0, 50000, 70000, 90000]" 100000] thrash_window [of "[0, 50000, 70000, 90000]" 120000] by simp

section \<open>Selection\<close>

text \<open>
  Selection is exact.  In every run whose registry fits in one list, a selection answers with exactly the reachable agents that meet
  the pinned id, the list of ids, the roles and the labels, each once.
\<close>

theorem select_exact:
  assumes rg: "rg = agent_events sha env evs empty_registry"
    and fits: "length (kind_rows as_agent AGENT_KIND (rg_store rg)) \<le> 500"
  shows "distinct (map ag_id (selectAgents env now q rg)) \<and>
    set (selectAgents env now q rg) =
      {a. getAgent now (ag_id a) rg = Some a \<and> (\<forall>i. truthy_text (sl_agentId q) = Some i \<longrightarrow> ag_id a = i) \<and>
          (sl_agentIds q \<noteq> [] \<longrightarrow> ag_id a \<in> set (sl_agentIds q)) \<and> selected env now q a}"
proof -
  have ok: "agents_ok (rg_store rg)" unfolding rg by (rule events_ok [OF empty_ok])
  have id: "ag_id a = i" if "getAgent now i rg = Some a" for i a
    using that agt.row_of_id [OF ok] by (auto simp: getAgent_def loadAgent_def applyLivenessRecompute_def Let_def)
  have listed: ?thesis if "selectAgents env now q rg = filter (selected env now q) xs" "distinct (map ag_id xs)" "truthy_text (sl_agentId q) = None"
      "set xs = {a. getAgent now (ag_id a) rg = Some a \<and> (sl_agentIds q \<noteq> [] \<longrightarrow> ag_id a \<in> set (sl_agentIds q))}" for xs
    unfolding that(1) set_filter that(4) using that(2,3) by (auto simp: distinct_map_filter)
  show ?thesis
  proof (cases "truthy_text (sl_agentId q)")
    case (Some i)
    show ?thesis
    proof (cases "getAgent now i rg")
      case None
      with Some id show ?thesis by (auto simp: selectAgents_def)
    next
      case (Some a)
      with \<open>truthy_text (sl_agentId q) = Some i\<close> id [OF Some] show ?thesis by (auto simp: selectAgents_def)
    qed
  next
    case pinned: None
    show ?thesis
    proof (cases "sl_agentIds q = []")
      case False
      let ?got = "List.map_filter (\<lambda>i. getAgent now i rg)"
      have mem: "a \<in> set (?got xs) \<longleftrightarrow> getAgent now (ag_id a) rg = Some a \<and> ag_id a \<in> set xs" for a xs
      proof -
        have "a \<in> set (?got xs) \<longleftrightarrow> (\<exists>x \<in> set xs. getAgent now x rg = Some a)"
          by (induction xs) (simp_all add: List.map_filter_simps split: option.split, blast?)
        with id show ?thesis by blast
      qed
      have dist: "distinct (map ag_id (?got xs))" if "distinct xs" for xs
        using that
      proof (induction xs)
        case (Cons x xs)
        show ?case
        proof (cases "getAgent now x rg")
          case (Some b)
          have "x \<notin> ag_id ` set (?got xs)" using Cons.prems mem by auto
          with Cons Some id [OF Some] show ?thesis by (simp add: List.map_filter_simps)
        qed (use Cons in \<open>simp add: List.map_filter_simps\<close>)
      qed (simp add: List.map_filter_simps)
      have ids: "distinct (map ag_id (?got xs)) \<and> set (?got xs) = {a. getAgent now (ag_id a) rg = Some a \<and> ag_id a \<in> set xs}"
        if "distinct xs" for xs
        using dist [OF that] mem by blast
      have "distinct (js_unique (sl_agentIds q))" "set (js_unique (sl_agentIds q)) = set (sl_agentIds q)" by simp_all
      with ids [OF this(1)] False show ?thesis
        by (intro listed [OF _ _ pinned, of "List.map_filter (\<lambda>i. getAgent now i rg) (js_unique (sl_agentIds q))"])
          (simp_all add: selectAgents_def pinned)
    next
      case True
      let ?f = "\<lambda>a. applyLivenessRecompute (normalizeAgentShape a) now"
      let ?rows = "list_kind as_agent AGENT_KIND (\<lambda>_. True) None AGENT_LIST_LIMIT (rg_store rg)"
      have f_id: "ag_id (?f a) = ag_id a" for a by (simp add: applyLivenessRecompute_def Let_def)
      have rows: "set ?rows = {r. row_of as_agent AGENT_KIND (ag_id r) (rg_store rg) = Some r}" "distinct (map ag_id ?rows)"
        using agt.list_kind_facts [OF ok, where P = "\<lambda>_. True" and cmp = None and limit = AGENT_LIST_LIMIT] fits by (simp_all add: AGENT_LIST_LIMIT_def)
      have list: "set (listAgents now rg) = {a. getAgent now (ag_id a) rg = Some a}"
      proof (intro set_eqI iffI)
        fix a assume "a \<in> set (listAgents now rg)"
        then obtain r where "r \<in> set ?rows" "a = ?f r" by (auto simp: listAgents_def)
        with rows(1) show "a \<in> {a. getAgent now (ag_id a) rg = Some a}" by (simp add: getAgent_def loadAgent_def f_id)
      next
        fix a assume "a \<in> {a. getAgent now (ag_id a) rg = Some a}"
        then obtain r where r: "loadAgent (ag_id a) (rg_store rg) = Some r" "a = ?f r" by (auto simp: getAgent_def)
        then have "r \<in> set ?rows" using rows(1) f_id by (simp add: loadAgent_def)
        with r(2) show "a \<in> set (listAgents now rg)" by (auto simp: listAgents_def)
      qed
      have "distinct (map ag_id (listAgents now rg))" using rows(2) by (simp add: listAgents_def comp_def f_id)
      with True list show ?thesis
        by (intro listed [OF _ _ pinned, of "listAgents now rg"]) (simp_all add: selectAgents_def pinned)
    qed
  qed
qed

theorem select_exact_witness:
  "set (selectAgents demo_env 200 \<lparr>sl_agentId = None, sl_agentIds = [], sl_roles = Some [''verifier''], sl_matchLabels = None\<rparr> demo_registry) =
   {a. getAgent 200 (ag_id a) demo_registry = Some a \<and>
       selected demo_env 200 \<lparr>sl_agentId = None, sl_agentIds = [], sl_roles = Some [''verifier''], sl_matchLabels = None\<rparr> a}"
proof -
  have "length (kind_rows as_agent AGENT_KIND (rg_store demo_registry)) \<le> 500" by code_simp
  from select_exact [OF demo_registry_def this, of 200
      "\<lparr>sl_agentId = None, sl_agentIds = [], sl_roles = Some [''verifier''], sl_matchLabels = None\<rparr>"]
  show ?thesis by (simp add: truthy_text_def falsy_text_def)
qed

end
