(* ===== verification/Blueprints.thy ===== *)
theory Blueprints
  imports Rollup
begin

text \<open>
  The checks a work item passes before it is created (\<open>hub/src/policy/work-item-policy.ts\<close>): its evidence contract,
  runbook and references, the cycle check of an appended edge, and the checks of a blueprint with its order of creation.
\<close>

section \<open>Intrinsic checks of a node\<close>

datatype policy_fault =
    InvalidEvidenceRequirements
  | MissingRunbook
  | UnresolvableRef
  | InvalidBlueprint
  | CycleDetected
  | MissingArcDriver
  | AuthorizationDenied
  | InvalidArguments
  | InvalidArg
  | NotFound
  | VerbRefused string wi_error
  | ExpansionFailed wi_error "string list" "string list"
  | Threw wi_error

definition has_text :: "string option \<Rightarrow> bool" where
  "has_text x \<longleftrightarrow> \<not> blank_text x"

definition nodeRequiresRunbook :: "work_item_type \<Rightarrow> reference list \<Rightarrow> bool" where
  "nodeRequiresRunbook type refs \<longleftrightarrow> type = VerifierGateItem \<or> refs \<noteq> []"

definition hex_digits :: "string \<Rightarrow> bool" where
  "hex_digits = list_all (\<lambda>c. c \<in> set ''0123456789abcdef'')"

text \<open>\<open>/^[0-9a-f]{40}(:.+)?$/\<close>; the dot matches no line terminator.\<close>

definition PINNED_GIT_REF :: "string \<Rightarrow> bool" where
  "PINNED_GIT_REF r \<longleftrightarrow> 40 \<le> length r \<and> hex_digits (take 40 r) \<and>
     (case drop 40 r of [] \<Rightarrow> True
      | c # rest \<Rightarrow> c = CHR '':'' \<and> rest \<noteq> [] \<and> list_all (\<lambda>d. of_char d \<notin> {10, 13 :: nat}) rest)"

definition SEMANTIC_KIND_TO_SCHEMA :: "(string \<times> string) list" where
  "SEMANTIC_KIND_TO_SCHEMA =
     [(''bug'', ''Bug''), (''idea'', ''Idea''), (''mission'', ''Mission''), (''task'', ''Task''),
      (''proposal'', ''Proposal''), (''thread'', ''Thread''), (''workitem'', ''WorkItem''), (''work-item'', ''WorkItem''),
      (''document'', ''Document''), (''doc'', ''Document''), (''audit'', ''Audit''), (''agent'', ''Agent''), (''turn'', ''Turn'')]"

definition entityExists :: "string \<Rightarrow> string \<Rightarrow> hub_store \<Rightarrow> bool" where
  "entityExists kind i s \<longleftrightarrow> get_op kind i s \<noteq> None"

text \<open>Whether a required reference resolves.\<close>

definition validateRequiredReference :: "reference \<Rightarrow> hub_store \<Rightarrow> bool" where
  "validateRequiredReference r s \<longleftrightarrow>
     (case rf_storage r of
        StInline \<Rightarrow> js_trim (rf_ref r) \<noteq> []
      | StGit \<Rightarrow> PINNED_GIT_REF (rf_ref r)
      | StHubDoc \<Rightarrow> entityExists ''Document'' (rf_ref r) s
      | StEntity \<Rightarrow>
          (case map_of SEMANTIC_KIND_TO_SCHEMA (to_lower (rf_kind r)) of
             None \<Rightarrow> False
           | Some kind \<Rightarrow> entityExists kind (rf_ref r) s))"

text \<open>
  The evidence kinds are an enumeration here, every one with a producer path, so the check for a kind without one
  has no counterpart.
\<close>

definition validateNodeIntrinsics :: "work_item_type \<Rightarrow> evidence_requirement list \<Rightarrow> string option \<Rightarrow> reference list
    \<Rightarrow> hub_store \<Rightarrow> policy_fault + unit" where
  "validateNodeIntrinsics type reqs runbook refs s =
     (if \<not> distinct (map er_id reqs) then Inl InvalidEvidenceRequirements
      else if list_ex (\<lambda>r. er_refResolvable r = Some True \<and>
             (er_kind r = EkReview \<or> er_evidenceAuthority r = Some VerifierAttestation)) reqs
      then Inl InvalidEvidenceRequirements
      else if nodeRequiresRunbook type refs \<and> \<not> has_text runbook then Inl MissingRunbook
      else if list_ex (\<lambda>r. rf_required r \<and> \<not> validateRequiredReference r s) refs then Inl UnresolvableRef
      else Inr ())"

section \<open>The cycle check of an appended edge\<close>

definition edges_of :: "edge_class \<Rightarrow> work_item \<Rightarrow> string list" where
  "edges_of c w = (case c of DependsOn \<Rightarrow> wi_dependsOn w | CompletionDependsOn \<Rightarrow> wi_completionDependsOn w)"

text \<open>
  The frontier is a stack whose top is the head of the list (the end of the array in the source).
\<close>

function search_back :: "edge_class \<Rightarrow> string \<Rightarrow> hub_store \<Rightarrow> string list \<Rightarrow> string list \<Rightarrow> bool" where
  "search_back c workId s visited [] = False"
| "search_back c workId s visited (i # frontier) =
     (if i = workId then True
      else if i \<in> set visited then search_back c workId s visited frontier
      else search_back c workId s (i # visited)
        (case getWorkItem i s of None \<Rightarrow> frontier | Some w \<Rightarrow> rev (edges_of c w) @ frontier))"
  by pat_completeness auto

termination
proof (relation "inv_image (finite_psubset <*lex*> less_than)
    (\<lambda>(c, workId, s, visited, frontier). (existing s - set visited, length frontier))", goal_cases)
  case 1
  show ?case by (intro wf_inv_image wf_lex_prod wf_finite_psubset wf_less_than)
next
  case (2 c workId s visited i frontier)
  then show ?case by (simp add: finite_psubset_def existing_finite)
next
  case (3 c workId s visited i frontier)
  then show ?case
    using existing_finite(1) [of s] by (auto simp: finite_psubset_def existing_def split: option.splits)
qed

definition appendWouldCycle :: "hub_store \<Rightarrow> string \<Rightarrow> string list \<Rightarrow> edge_class \<Rightarrow> bool" where
  "appendWouldCycle s workId appended c = search_back c workId s [] (rev appended)"

section \<open>Blueprints\<close>

definition MAX_BLUEPRINT_NODES :: nat where "MAX_BLUEPRINT_NODES = 100"

definition token_char :: "char \<Rightarrow> bool" where
  "token_char c \<longleftrightarrow> (let n = of_char c :: nat in (48 \<le> n \<and> n \<le> 57) \<or> (65 \<le> n \<and> n \<le> 90) \<or> (97 \<le> n \<and> n \<le> 122) \<or> n = 95)"

definition BLUEPRINT_ID_TOKEN :: "string \<Rightarrow> bool" where
  "BLUEPRINT_ID_TOKEN t \<longleftrightarrow> t \<noteq> [] \<and> list_all token_char t"

definition blueprintNodeId :: "string \<Rightarrow> string \<Rightarrow> string" where
  "blueprintNodeId runId localId = ''work-bp-'' @ runId @ ''-'' @ localId"

record blueprint_node =
  bn_localId :: string
  bn_label :: "string option"
  bn_type :: work_item_type
  bn_priority :: "priority option"
  bn_roleEligibility :: "string list option"
  bn_dependsOn :: "string list option"
  bn_completionDependsOn :: "string list option"
  bn_references :: "reference list option"
  bn_evidenceRequirements :: "evidence_requirement list option"
  bn_runbook :: "string option"
  bn_targetRef :: "target_ref option"
  bn_payload :: "json option"
  bn_nodeConfig :: "node_config option"

text \<open>
  The order of creation: a topological sort over the union of both edge classes.  The degrees and the dependents are maps
  with the defaults the source reads an absent key with.
\<close>

definition union_targets :: "blueprint_node \<Rightarrow> string list" where
  "union_targets n = js_unique (or_empty (bn_dependsOn n) @ or_empty (bn_completionDependsOn n))"

type_synonym degrees = "string \<Rightarrow> int"
type_synonym dependents = "string \<Rightarrow> string list"

definition add_edge :: "string \<Rightarrow> string \<Rightarrow> degrees \<times> dependents \<Rightarrow> degrees \<times> dependents" where
  "add_edge localId t g = ((fst g)(localId := fst g localId + 1), (snd g)(t := snd g t @ [localId]))"

definition union_graph :: "blueprint_node list \<Rightarrow> degrees \<times> dependents" where
  "union_graph nodes = fold (\<lambda>n. fold (add_edge (bn_localId n)) (union_targets n)) nodes (\<lambda>_. 0, \<lambda>_. [])"

definition release_dependent :: "string \<Rightarrow> degrees \<times> string list \<Rightarrow> degrees \<times> string list" where
  "release_dependent dep g =
     (let d = fst g dep - 1 in ((fst g)(dep := d), if d = 0 then snd g @ [dep] else snd g))"

text \<open>The loop takes one id off the queue per round; a round for every node is enough.\<close>

fun kahn :: "nat \<Rightarrow> dependents \<Rightarrow> degrees \<Rightarrow> string list \<Rightarrow> string list \<Rightarrow> string list" where
  "kahn n out deg order [] = order"
| "kahn 0 out deg order (i # queue) = order"
| "kahn (Suc n) out deg order (i # queue) =
     (let g = fold release_dependent (out i) (deg, queue) in kahn n out (fst g) (order @ [i]) (snd g))"

definition unionTopoSort :: "blueprint_node list \<Rightarrow> string list option" where
  "unionTopoSort nodes =
     (let ids = map bn_localId nodes;
          g = union_graph nodes;
          order = kahn (length ids) (snd g) (fst g) [] (filter (\<lambda>i. fst g i = 0) ids)
      in if length order = length ids then Some order else None)"

section \<open>The driver of a blueprint\<close>

definition rolesFor :: "blueprint_node \<Rightarrow> string list" where
  "rolesFor n = or_empty (bn_roleEligibility n)"

definition isAnyRole :: "blueprint_node \<Rightarrow> bool" where
  "isAnyRole n \<longleftrightarrow> rolesFor n = []"

definition isArchitectEligible :: "blueprint_node \<Rightarrow> bool" where
  "isArchitectEligible n \<longleftrightarrow> ''architect'' \<in> set (rolesFor n)"

definition hasStartGate :: "blueprint_node \<Rightarrow> bool" where
  "hasStartGate n \<longleftrightarrow> or_empty (bn_dependsOn n) \<noteq> []"

definition hasAnyGraphEdge :: "blueprint_node \<Rightarrow> bool" where
  "hasAnyGraphEdge n \<longleftrightarrow> hasStartGate n \<or> or_empty (bn_completionDependsOn n) \<noteq> []"

definition isCrossAgentNode :: "string \<Rightarrow> blueprint_node \<Rightarrow> bool" where
  "isCrossAgentNode callerRole n \<longleftrightarrow> isAnyRole n \<or> (\<exists>r \<in> set (rolesFor n). r \<noteq> callerRole \<and> r \<noteq> ''architect'')"

definition isNonArchitectWorkerNode :: "blueprint_node \<Rightarrow> bool" where
  "isNonArchitectWorkerNode n \<longleftrightarrow> isAnyRole n \<or> (\<exists>r \<in> set (rolesFor n). r \<noteq> ''architect'')"

definition blueprintRequiresArchitectDriver :: "blueprint_node list \<Rightarrow> string \<Rightarrow> bool" where
  "blueprintRequiresArchitectDriver nodes callerRole \<longleftrightarrow>
     2 \<le> length nodes \<and> list_ex (isCrossAgentNode callerRole) nodes \<and>
     (list_ex hasAnyGraphEdge nodes \<or> 1 < length (filter isNonArchitectWorkerNode nodes))"

definition isValidArchitectDriver :: "blueprint_node \<Rightarrow> string list \<Rightarrow> bool" where
  "isValidArchitectDriver n allLocalIds \<longleftrightarrow>
     isArchitectEligible n \<and> \<not> hasStartGate n \<and> has_text (bn_runbook n) \<and>
     (let covered = set (or_empty (bn_completionDependsOn n));
          expected = filter (\<lambda>l. l \<noteq> bn_localId n) (js_unique allLocalIds)
      in covered \<noteq> {} \<and> card covered = length expected \<and> list_all (\<lambda>l. l \<in> covered) expected)"

definition validateArchitectDriverGuard :: "blueprint_node list \<Rightarrow> string \<Rightarrow> bool" where
  "validateArchitectDriverGuard nodes callerRole \<longleftrightarrow>
     (blueprintRequiresArchitectDriver nodes callerRole \<longrightarrow>
        list_ex (\<lambda>n. isValidArchitectDriver n (map bn_localId nodes)) nodes)"

end
