(* ===== verification/Work_Policy.thy ===== *)
theory Work_Policy
  imports Blueprints Scheduled_Messages
begin

text \<open>
  The tools over the work-item repository (\<open>hub/src/policy/work-item-policy.ts\<close>) and the notices they send
  (\<open>hub/src/policy/work-item-events.ts\<close>).  A notice is kept as data, one for each target; its rendering as a message is left
  out.  The identity of the caller is an argument.
\<close>

section \<open>Notices\<close>

datatype transition_verb =
    CreateWork | ClaimWork | StartWork | BlockWork | ResumeWork | PauseWork | UnpauseWork | ResetWork | ReleaseWork
  | AbandonWork | CompleteWork | LeaseExpired

datatype work_notice =
    TransitionNotice "string option" transition_verb work_item "phase option" phase "actor option"
  | UnblockedNotice "string option" work_item string
  | UpdatedNotice "string option" work_item actor

text \<open>One notice for each eligible role; everybody when any role may claim.\<close>

definition roleTargets :: "string list \<Rightarrow> string option list" where
  "roleTargets roles = (if roles = [] then [None] else map Some roles)"

definition emitWorkTransition :: "work_item \<Rightarrow> transition_verb \<Rightarrow> phase option \<Rightarrow> phase option \<Rightarrow> actor option \<Rightarrow> work_notice list" where
  "emitWorkTransition w v from to a =
     map (\<lambda>t. TransitionNotice t v w from (case to of None \<Rightarrow> wi_status w | Some ph \<Rightarrow> ph) a) (roleTargets (wi_roleEligibility w))"

definition emitWorkUpdated :: "work_item \<Rightarrow> actor \<Rightarrow> work_notice list" where
  "emitWorkUpdated w a = map (\<lambda>t. UpdatedNotice t w a) (roleTargets (wi_roleEligibility w))"

text \<open>The ready rows whose last unmet dependency the completed row was.\<close>

definition last_cleared :: "string \<Rightarrow> hub_store \<Rightarrow> work_item \<Rightarrow> bool" where
  "last_cleared completed s d \<longleftrightarrow>
     list_all (\<lambda>i. i = completed \<or> map_option wi_status (getWorkItem i s) = Some Done) (wi_dependsOn d)"

definition ready_items :: "sha256 \<Rightarrow> hub_store \<Rightarrow> wi_error + work_item list" where
  "ready_items sha s = res_bind (read_pin s) (\<lambda>p.
     res_bind (listWorkItems sha p \<lparr>wf_status = Some Ready, wf_role = None, wf_holder = None\<rparr> s) (\<lambda>r. Inr (fst r)))"

definition emitDependencyUnblocks :: "sha256 \<Rightarrow> work_item \<Rightarrow> hub_store \<Rightarrow> work_notice list" where
  "emitDependencyUnblocks sha completed s =
     (if wi_status completed \<noteq> Done then []
      else case ready_items sha s of
          Inl e \<Rightarrow> []
        | Inr items \<Rightarrow>
            concat (map (\<lambda>d. map (\<lambda>t. UnblockedNotice t d (wi_id completed)) (roleTargets (wi_roleEligibility d)))
              (filter (last_cleared (wi_id completed) s) (filter (\<lambda>d. wi_id completed \<in> set (wi_dependsOn d)) items))))"

section \<open>Results\<close>

type_synonym 'a policy_result = "(policy_fault + 'a) \<times> work_notice list \<times> hub_store"

definition mapVerbError :: "wi_error \<Rightarrow> policy_fault" where
  "mapVerbError e =
     (case e of
        WipCapExceeded a n c \<Rightarrow> VerbRefused ''wip_cap_exceeded'' e
      | ClaimRejected r \<Rightarrow> VerbRefused ''claim_rejected'' e
      | EvidencePredicateFailed r \<Rightarrow> VerbRefused ''evidence_predicate_failed'' e
      | CompletionGateRejected n m xs \<Rightarrow> VerbRefused ''completion_gate_unmet'' e
      | AttestationRejected r \<Rightarrow> VerbRefused ''attestation_rejected'' e
      | CurrentnessRejected c \<Rightarrow> VerbRefused ''transition_rejected'' e
      | TransitionRejected r \<Rightarrow> VerbRefused ''transition_rejected'' e
      | FailedGateSealedRejected i \<Rightarrow> VerbRefused ''transition_rejected'' e
      | _ \<Rightarrow> Threw e)"

definition verb_result :: "transition_verb \<Rightarrow> phase option \<Rightarrow> actor \<Rightarrow> (wi_error + work_item option) \<times> hub_store \<Rightarrow> work_item policy_result" where
  "verb_result v from caller r =
     (case r of
        (Inl e, s) \<Rightarrow> (Inl (mapVerbError e), [], s)
      | (Inr None, s) \<Rightarrow> (Inl NotFound, [], s)
      | (Inr (Some w), s) \<Rightarrow> (Inr w, emitWorkTransition w v from None (Some caller), s))"

definition phase_before :: "string \<Rightarrow> hub_store \<Rightarrow> phase option" where
  "phase_before workId s = map_option wi_status (getWorkItem workId s)"

section \<open>The verbs of the life cycle\<close>

definition claim_work :: "sha256 \<Rightarrow> instant \<Rightarrow> string \<Rightarrow> actor \<Rightarrow> string \<Rightarrow> hub_store \<Rightarrow> work_item policy_result" where
  "claim_work sha now uuid caller workId s =
     verb_result ClaimWork (Some Ready) caller (claimWorkItem sha now uuid workId (ac_agentId caller) (Some (ac_role caller)) s)"

definition start_work :: "sha256 \<Rightarrow> instant \<Rightarrow> actor \<Rightarrow> string \<Rightarrow> string \<Rightarrow> hub_store \<Rightarrow> work_item policy_result" where
  "start_work sha now caller workId token s =
     verb_result StartWork (Some Claimed) caller (startWork sha now workId (ac_agentId caller) token s)"

definition block_work :: "sha256 \<Rightarrow> instant \<Rightarrow> actor \<Rightarrow> string \<Rightarrow> string \<Rightarrow> blocked_on \<Rightarrow> hub_store \<Rightarrow> work_item policy_result" where
  "block_work sha now caller workId token b s =
     verb_result BlockWork (Some InProgress) caller (blockWork sha now workId (ac_agentId caller) token b s)"

definition resume_work :: "sha256 \<Rightarrow> instant \<Rightarrow> actor \<Rightarrow> string \<Rightarrow> string \<Rightarrow> hub_store \<Rightarrow> work_item policy_result" where
  "resume_work sha now caller workId token s =
     verb_result ResumeWork (Some Blocked) caller (resumeWork sha now workId (ac_agentId caller) token s)"

definition renew_lease :: "sha256 \<Rightarrow> instant \<Rightarrow> actor \<Rightarrow> string \<Rightarrow> string \<Rightarrow> hub_store \<Rightarrow> work_item policy_result" where
  "renew_lease sha now caller workId token s =
     (case renewLease sha now workId (ac_agentId caller) token s of
        (Inl e, s') \<Rightarrow> (Inl (mapVerbError e), [], s')
      | (Inr None, s') \<Rightarrow> (Inl NotFound, [], s')
      | (Inr (Some w), s') \<Rightarrow> (Inr w, [], s'))"

definition release_work :: "sha256 \<Rightarrow> instant \<Rightarrow> actor \<Rightarrow> string \<Rightarrow> string \<Rightarrow> hub_store \<Rightarrow> work_item policy_result" where
  "release_work sha now caller workId token s =
     verb_result ReleaseWork (phase_before workId s) caller (releaseWork sha now workId (ac_agentId caller) token s)"

definition abandon_work :: "sha256 \<Rightarrow> instant \<Rightarrow> actor \<Rightarrow> string \<Rightarrow> string option \<Rightarrow> hub_store \<Rightarrow> work_item policy_result" where
  "abandon_work sha now caller workId token s =
     verb_result AbandonWork (phase_before workId s) caller
       (abandonWork sha now workId (ac_agentId caller) token (Some (ac_role caller)) s)"

definition unpause_work :: "sha256 \<Rightarrow> instant \<Rightarrow> actor \<Rightarrow> unpause_request \<Rightarrow> hub_store \<Rightarrow> work_item list policy_result" where
  "unpause_work sha now caller q s =
     (if uq_logicalIds q \<noteq> None then
        (case recommitRevisionSet sha now q caller s of
           (Inl e, s') \<Rightarrow> (Inl (mapVerbError e), [], s')
         | (Inr (ws, replay), s') \<Rightarrow>
             (Inr ws, if replay then [] else concat (map (\<lambda>w. emitWorkTransition w UnpauseWork (Some Paused) None (Some caller)) ws), s'))
      else
        (case unpauseWork sha now q caller s of
           (Inl e, s') \<Rightarrow> (Inl (mapVerbError e), [], s')
         | (Inr None, s') \<Rightarrow> (Inl NotFound, [], s')
         | (Inr (Some w), s') \<Rightarrow> (Inr [w], emitWorkTransition w UnpauseWork (Some Paused) None (Some caller), s')))"

text \<open>The reset also reports whether a lease was revoked and how many evidence items went.\<close>

definition reset_work :: "sha256 \<Rightarrow> instant \<Rightarrow> actor \<Rightarrow> string \<Rightarrow> hub_store \<Rightarrow> (work_item \<times> bool \<times> nat) policy_result" where
  "reset_work sha now caller workId s =
     (let before = getWorkItem workId s in
      case verb_result ResetWork (map_option wi_status before) caller (resetWork sha now workId caller s) of
        (Inl e, ns, s') \<Rightarrow> (Inl e, ns, s')
      | (Inr w, ns, s') \<Rightarrow>
          (Inr (w, Option.bind before wi_lease \<noteq> None, case before of None \<Rightarrow> 0 | Some b \<Rightarrow> length (wi_evidence b)), ns, s'))"

section \<open>Creation and edits\<close>

text \<open>
  Whether a payload is refused as a malformed pull-request binding (\<open>prBindingPayloadWriteRefusal\<close> of
  \<open>hub/src/policy/pr-evidence-admission-binding.ts\<close>, which is not modelled) is an argument.
\<close>

text \<open>The checks and the creation are separate requests to the store: what others do in between is an argument.\<close>

definition create_work_with :: "(hub_store \<Rightarrow> hub_store) \<Rightarrow> (json \<Rightarrow> bool) \<Rightarrow> instant \<Rightarrow> actor \<Rightarrow> create_input \<Rightarrow> hub_store
    \<Rightarrow> work_item policy_result" where
  "create_work_with others payload_refused now caller input s =
     (if (case ci_leaseWindowMs input of None \<Rightarrow> False | Some n \<Rightarrow> n \<le> 0) then (Inl InvalidArg, [], s)
      else case validateNodeIntrinsics (ci_type input) (or_empty (ci_evidenceRequirements input)) (ci_runbook input)
             (or_empty (ci_references input)) s of
          Inl e \<Rightarrow> (Inl e, [], s)
        | Inr _ \<Rightarrow>
            if list_ex (\<lambda>i. getWorkItem i s = None) (or_empty (ci_dependsOn input)) then (Inl UnresolvableRef, [], s)
            else if list_ex (\<lambda>i. getWorkItem i s = None) (or_empty (ci_completionDependsOn input)) then (Inl UnresolvableRef, [], s)
            else if (case ci_payload input of None \<Rightarrow> False | Some j \<Rightarrow> payload_refused j) then (Inl InvalidArguments, [], s)
            else case createWorkItem now (input\<lparr>ci_nodeConfig := None, ci_createdBy := Some caller\<rparr>) (others s) of
                (Inl e, s') \<Rightarrow> (Inl (mapVerbError e), [], s')
              | (Inr w, s') \<Rightarrow> (Inr w, emitWorkTransition w CreateWork None None (Some caller), s'))"

definition create_work :: "(json \<Rightarrow> bool) \<Rightarrow> instant \<Rightarrow> actor \<Rightarrow> create_input \<Rightarrow> hub_store \<Rightarrow> work_item policy_result" where
  "create_work = create_work_with id"

definition CLAIMABLE_ROLES :: "string list" where
  "CLAIMABLE_ROLES = [''engineer'', ''architect'', ''verifier'', ''director'']"

text \<open>The checks of an edit, in the order of the source.\<close>

definition update_work_ok :: "(json \<Rightarrow> bool) \<Rightarrow> string \<Rightarrow> work_update \<Rightarrow> hub_store \<Rightarrow> policy_fault + unit" where
  "update_work_ok payload_refused workId m s =
     (if (case us_payload m of None \<Rightarrow> False | Some j \<Rightarrow> payload_refused j) then Inl InvalidArguments
      else if (case us_roleEligibility m of None \<Rightarrow> False | Some rs \<Rightarrow> \<not> set rs \<subseteq> set CLAIMABLE_ROLES) then Inl InvalidArguments
      else if list_ex (\<lambda>i. getWorkItem i s = None) (us_appendDependsOn m @ us_appendCompletionDependsOn m) then Inl UnresolvableRef
      else if us_appendDependsOn m \<noteq> [] \<and> appendWouldCycle s workId (us_appendDependsOn m) DependsOn then Inl InvalidArguments
      else if us_appendCompletionDependsOn m \<noteq> [] \<and>
              appendWouldCycle s workId (us_appendCompletionDependsOn m) CompletionDependsOn then Inl InvalidArguments
      else if list_ex (\<lambda>r. rf_required r \<and> \<not> validateRequiredReference r s) (us_appendReferences m) then Inl UnresolvableRef
      else Inr ())"

definition resolved_holder :: "string \<Rightarrow> work_update \<Rightarrow> hub_store \<Rightarrow> actor option" where
  "resolved_holder workId m s =
     (if us_roleEligibility m = None then None
      else case Option.bind (getWorkItem workId s) (\<lambda>w. map_option le_holder (wi_lease w)) of
          None \<Rightarrow> None
        | Some holder \<Rightarrow>
            if holder = [] then None
            else (case resolveAgentRole holder s of
                    None \<Rightarrow> None
                  | Some r \<Rightarrow> if r = [] then None else Some \<lparr>ac_role = r, ac_agentId = holder\<rparr>))"

text \<open>
  The checks, the look for the holder and the write are separate requests to the store, and the write compares the revision of the edited row
  only: what others do between the checks and the look, and between the look and the write, are arguments.
\<close>

definition update_work_with :: "(hub_store \<Rightarrow> hub_store) \<Rightarrow> (hub_store \<Rightarrow> hub_store) \<Rightarrow> (json \<Rightarrow> bool) \<Rightarrow> sha256 \<Rightarrow> instant \<Rightarrow> actor
    \<Rightarrow> string \<Rightarrow> work_update \<Rightarrow> hub_store \<Rightarrow> work_item policy_result" where
  "update_work_with others later payload_refused sha now caller workId m s =
     (case update_work_ok payload_refused workId m s of
        Inl e \<Rightarrow> (Inl e, [], s)
      | Inr _ \<Rightarrow>
          (case updateWorkItem sha now workId caller m (resolved_holder workId m (others s)) (later (others s)) of
             (Inl e, s') \<Rightarrow>
               (Inl (case e of
                       TransitionRejected r \<Rightarrow> VerbRefused ''update_rejected'' e
                     | FailedGateSealedRejected i \<Rightarrow> VerbRefused ''update_rejected'' e
                     | CurrentnessRejected c \<Rightarrow> VerbRefused ''update_rejected'' e
                     | _ \<Rightarrow> Threw e), [], s')
           | (Inr (before, after), s') \<Rightarrow>
               (Inr after, emitWorkUpdated after caller, logEntry ''work_updated'' (Some workId) s')))"

definition update_work :: "(json \<Rightarrow> bool) \<Rightarrow> sha256 \<Rightarrow> instant \<Rightarrow> actor \<Rightarrow> string \<Rightarrow> work_update \<Rightarrow> hub_store \<Rightarrow> work_item policy_result" where
  "update_work = update_work_with id id"

section \<open>The expansion of a blueprint\<close>

text \<open>
  The checks of a whole blueprint, and its nodes in the order of creation.  The nodes are those the schema has let through (inline,
  or read from a document).
\<close>

definition check_blueprint :: "actor \<Rightarrow> string option \<Rightarrow> blueprint_node list \<Rightarrow> hub_store \<Rightarrow> policy_fault + string list" where
  "check_blueprint caller runId nodes s =
     (let ids = map bn_localId nodes in
      if falsy_text runId \<or> \<not> BLUEPRINT_ID_TOKEN (the runId) then Inl InvalidBlueprint
      else if nodes = [] then Inl InvalidBlueprint
      else if MAX_BLUEPRINT_NODES < length nodes then Inl InvalidBlueprint
      else if list_ex (\<lambda>l. \<not> BLUEPRINT_ID_TOKEN l) ids then Inl InvalidBlueprint
      else if \<not> distinct ids then Inl InvalidBlueprint
      else if list_ex (\<lambda>n. \<not> set (or_empty (bn_dependsOn n)) \<union> set (or_empty (bn_completionDependsOn n)) \<subseteq> set ids) nodes
      then Inl UnresolvableRef
      else case unionTopoSort nodes of
          None \<Rightarrow> Inl CycleDetected
        | Some order \<Rightarrow>
            res_bind (map_res (\<lambda>n. validateNodeIntrinsics (bn_type n) (or_empty (bn_evidenceRequirements n)) (bn_runbook n)
                (or_empty (bn_references n)) s) nodes) (\<lambda>_.
              if validateArchitectDriverGuard nodes (ac_role caller) then Inr order else Inl MissingArcDriver))"

definition node_input :: "string \<Rightarrow> actor \<Rightarrow> blueprint_node \<Rightarrow> create_input" where
  "node_input runId caller n =
     \<lparr>ci_type = bn_type n, ci_priority = bn_priority n, ci_roleEligibility = or_empty (bn_roleEligibility n),
      ci_dependsOn = Some (map (blueprintNodeId runId) (or_empty (bn_dependsOn n))),
      ci_completionDependsOn = Some (map (blueprintNodeId runId) (or_empty (bn_completionDependsOn n))),
      ci_evidenceRequirements = bn_evidenceRequirements n, ci_runbook = bn_runbook n, ci_references = bn_references n,
      ci_leaseWindowMs = None, ci_targetRef = bn_targetRef n, ci_payload = bn_payload n, ci_nodeConfig = bn_nodeConfig n,
      ci_createdBy = Some caller\<rparr>"

text \<open>
  What may come between two requests of an expansion: what other clients do before the next one, and whether the store is then unavailable
  and throws before it has done anything.  A list says this for each request; where it ends nothing happens any more.
\<close>

type_synonym disturbance = "(hub_store \<Rightarrow> hub_store) \<times> bool"

fun disturbed :: "disturbance list \<Rightarrow> hub_store \<Rightarrow> hub_store" where
  "disturbed [] s = s"
| "disturbed (d # ds) s = fst d s"

fun unavailable :: "disturbance list \<Rightarrow> bool" where
  "unavailable [] = False"
| "unavailable (d # ds) = snd d"

text \<open>The creation, one node after the other.\<close>

fun seed_nodes :: "string \<Rightarrow> instant \<Rightarrow> actor \<Rightarrow> disturbance list \<Rightarrow> blueprint_node list \<Rightarrow> string list
    \<Rightarrow> nat \<Rightarrow> hub_store \<Rightarrow> (wi_error \<times> string list + string list \<times> nat) \<times> hub_store" where
  "seed_nodes runId now caller ds [] created reused s = (Inr (created, reused), s)"
| "seed_nodes runId now caller ds (n # ns) created reused s =
     (if unavailable ds then (Inl (StoreThrew Unavailable, created), disturbed ds s)
      else let i = blueprintNodeId runId (bn_localId n)
      in case createBlueprintNode i runId None now (node_input runId caller n) (disturbed ds s) of
           (Inl e, s') \<Rightarrow> (Inl (e, created), s')
         | (Inr (w, True), s') \<Rightarrow> seed_nodes runId now caller (drop 1 ds) ns (created @ [i]) reused s'
         | (Inr (w, False), s') \<Rightarrow> seed_nodes runId now caller (drop 1 ds) ns created (Suc reused) s')"

text \<open>The compensation deletes what this run created; a deletion that fails is reported.\<close>

fun roll_back :: "disturbance list \<Rightarrow> string list \<Rightarrow> hub_store \<Rightarrow> string list \<times> hub_store" where
  "roll_back ds [] s = ([], s)"
| "roll_back ds (i # is) s =
     (case (if unavailable ds then (Inl (StoreThrew Unavailable), disturbed ds s) else deleteWorkItem i (disturbed ds s)) of
        (Inl e, s') \<Rightarrow> (i # fst (roll_back (drop 1 ds) is s'), snd (roll_back (drop 1 ds) is s'))
      | (Inr _, s') \<Rightarrow> roll_back (drop 1 ds) is s')"

record seed_report =
  sr_creationOrder :: "string list"
  sr_created :: "string list"
  sr_reused :: nat

definition seed_blueprint_with :: "disturbance list \<Rightarrow> disturbance list \<Rightarrow> instant \<Rightarrow> actor \<Rightarrow> bool \<Rightarrow> string option
    \<Rightarrow> blueprint_node list \<Rightarrow> hub_store \<Rightarrow> seed_report policy_result" where
  "seed_blueprint_with ds undo now caller dryRun runId nodes s =
     (if ac_role caller = ''verifier'' \<and> \<not> dryRun then (Inl AuthorizationDenied, [], s)
      else case check_blueprint caller runId nodes s of
          Inl e \<Rightarrow> (Inl e, [], s)
        | Inr order \<Rightarrow>
            if dryRun then (Inr \<lparr>sr_creationOrder = order, sr_created = [], sr_reused = 0\<rparr>, [], s)
            else (case seed_nodes (the runId) now caller ds
                       (map (\<lambda>l. the (find (\<lambda>n. bn_localId n = l) nodes)) order) [] 0 s of
                    (Inr (created, reused), s') \<Rightarrow> (Inr \<lparr>sr_creationOrder = order, sr_created = created, sr_reused = reused\<rparr>, [], s')
                  | (Inl (e, created), s') \<Rightarrow>
                      (case roll_back undo created s' of (failures, s'') \<Rightarrow> (Inl (ExpansionFailed e created failures), [], s''))))"

definition seed_blueprint :: "instant \<Rightarrow> actor \<Rightarrow> bool \<Rightarrow> string option \<Rightarrow> blueprint_node list \<Rightarrow> hub_store \<Rightarrow> seed_report policy_result" where
  "seed_blueprint = seed_blueprint_with [] []"

end
