(* ===== verification/Lease_Sweeper.thy ===== *)
theory Lease_Sweeper
  imports Work_Policy Agents
begin

text \<open>
  The periodic sweep over lapsed leases (\<open>hub/src/policy/work-item-lease-sweeper.ts\<close>) and the two outboxes it projects as
  messages (\<open>failed-gate-notice-projector.ts\<close>, \<open>recall-notice-projector.ts\<close>): a notice is written on the row
  first, then sent as a message with the intent as its source, then marked.  The failpoints stop a projection between two of its steps.  The id
  of a new message is a function of the store; metrics, log lines, the push of a message and the quarantine of rows in an outdated shape are
  left out.
\<close>

section \<open>Projections\<close>

datatype projector_stage = AfterIntentRead | BeforeMessagePersist | AfterMessagePersist | BeforeIntentMark | AfterIntentMark

type_synonym failpoint = "projector_stage \<Rightarrow> string \<Rightarrow> string \<Rightarrow> bool"

datatype projector_error =
    ProjectorStopped
  | SealMissing
  | RecallHistoryMissing
  | NotTheHolder
  | MessageRefused message_error
  | MarkRefused wi_error
  | OutboxTruncated

record projection =
  pj_candidates :: nat
  pj_projected :: nat
  pj_alreadyProjected :: nat

definition no_projection :: projection where
  "no_projection = \<lparr>pj_candidates = 0, pj_projected = 0, pj_alreadyProjected = 0\<rparr>"

definition holder_message :: "agent_id \<Rightarrow> agent_id \<Rightarrow> json \<Rightarrow> string \<Rightarrow> create_message_input" where
  "holder_message author holder payload intentId =
     \<lparr>cm_kind = ExternalInjection, cm_authorRole = MrSystem, cm_authorAgentId = author,
      cm_target = Some \<lparr>mt_role = None, mt_agentId = Some holder\<rparr>, cm_delivery = PushImmediate, cm_payload = payload,
      cm_threadId = None, cm_intent = None, cm_semanticIntent = None, cm_converged = None, cm_escalation = None,
      cm_precondition = None, cm_fireAt = None, cm_retryCount = None, cm_maxRetries = None,
      cm_migrationSourceId = Some intentId\<rparr>"

section \<open>Failed gates\<close>

definition noticePayload :: "work_item \<Rightarrow> seal_notice \<Rightarrow> projector_error + json" where
  "noticePayload w n =
     (case wi_failedGateSeal w of
        None \<Rightarrow> Inl SealMissing
      | Some seal \<Rightarrow>
          if fs_sealHash seal \<noteq> sn_sealHash n then Inl SealMissing
          else let receipt = fs_receipt seal; prior = sr_before receipt in Inr (json_obj
            [(''body'', Some (JStr (''Verifier FAIL sealed '' @ wi_id w @ ''/'' @ sn_requirementId n @
               ''. Your prior lease is obsolete; do not replay this row. Recovery requires a distinct repair/revision.''))),
             (''event'', Some (JStr ''failed_gate_sealed'')),
             (''workId'', Some (JStr (wi_id w))),
             (''logicalId'', Some (JStr (sr_logicalId receipt))),
             (''revision'', Some (JNum (sr_revision receipt))),
             (''topologyGeneration'', Some (JNum (sr_topologyGeneration receipt))),
             (''requirementId'', Some (JStr (sn_requirementId n))),
             (''verifierId'', Some (JStr (sn_verifierId n))),
             (''verdict'', Some (JStr ''fail'')),
             (''producedAt'', Some (json_iso (sn_producedAt n))),
             (''effectiveDisposition'', Some (JStr ''failed_sealed'')),
             (''sealHash'', Some (JStr (sn_sealHash n))),
             (''operationId'', Some (JStr (sr_operationId receipt))),
             (''obsoleteHolder'', Some (JStr (sn_exactHolderAgentId n))),
             (''obsoleteLease'', Some (json_obj
               [(''claimedAt'', Some (json_null_or json_iso (sb_claimedAt prior))),
                (''expiresAt'', Some (json_null_or json_iso (sb_expiresAt prior))),
                (''heartbeatAt'', Some (json_null_or json_iso (sb_heartbeatAt prior))),
                (''tokenFingerprint'', Some (json_null_or JStr (sb_tokenFingerprint prior)))])),
             (''recovery'', Some (JStr ''distinct-repair-only''))]))"

text \<open>Under the read pin of the sweep the mark takes no writer fence.\<close>

definition mark_seal :: "bool \<Rightarrow> sha256 \<Rightarrow> instant \<Rightarrow> string \<Rightarrow> string \<Rightarrow> string \<Rightarrow> hub_store \<Rightarrow> work_item option hub_result" where
  "mark_seal pinned sha now workId intentId messageId =
     (if pinned then
        (\<lambda>s. case tryCasUpdate sha LegacyPin workId (markFailedSealNotice_row now intentId messageId) s of
           (Inl (IdempotentFailedSeal w), s') \<Rightarrow> (Inr (Some w), s')
         | r \<Rightarrow> r)
      else markFailedSealNoticeProjected sha now workId intentId messageId)"

definition finish_seal :: "bool \<Rightarrow> failpoint \<Rightarrow> sha256 \<Rightarrow> instant \<Rightarrow> work_item \<Rightarrow> seal_notice \<Rightarrow> message \<Rightarrow> bool \<Rightarrow> hub_store
    \<Rightarrow> (projector_error + bool) \<times> hub_store" where
  "finish_seal pinned fp sha now w n m new s =
     (if fp AfterMessagePersist (wi_id w) (sn_intentId n) \<or> fp BeforeIntentMark (wi_id w) (sn_intentId n) then (Inl ProjectorStopped, s)
      else case mark_seal pinned sha now (wi_id w) (sn_intentId n) (ms_id m) s of
          (Inl e, s') \<Rightarrow> (Inl (MarkRefused e), s')
        | (Inr _, s') \<Rightarrow> if fp AfterIntentMark (wi_id w) (sn_intentId n) then (Inl ProjectorStopped, s') else (Inr new, s'))"

text \<open>
  The look for the message, its creation (which looks a second time) and the mark are separate requests to the store, and nothing makes the
  source of a message unique: what others do before the creation, inside it after its own look, and before the mark are arguments.
\<close>

record bystanders =
  by_look :: "hub_store \<Rightarrow> hub_store"
  by_create :: "hub_store \<Rightarrow> hub_store"
  by_mark :: "hub_store \<Rightarrow> hub_store"

definition nobody :: bystanders where
  "nobody = \<lparr>by_look = id, by_create = id, by_mark = id\<rparr>"

definition project_seal_notice_with :: "bystanders \<Rightarrow> bool \<Rightarrow> (hub_store \<Rightarrow> string) \<Rightarrow> failpoint \<Rightarrow> sha256 \<Rightarrow> instant \<Rightarrow> work_item
    \<Rightarrow> seal_notice \<Rightarrow> hub_store \<Rightarrow> (projector_error + bool) \<times> hub_store" where
  "project_seal_notice_with others pinned newId fp sha now w n s =
     (if fp AfterIntentRead (wi_id w) (sn_intentId n) then (Inl ProjectorStopped, s)
      else case findByMigrationSourceId (sn_intentId n) s of
          Some m \<Rightarrow> finish_seal pinned fp sha now w n m False (by_mark others s)
        | None \<Rightarrow>
            if fp BeforeMessagePersist (wi_id w) (sn_intentId n) then (Inl ProjectorStopped, s)
            else case noticePayload w n of
                Inl e \<Rightarrow> (Inl e, s)
              | Inr payload \<Rightarrow>
                  (case createMessage_with (by_create others) (newId s) now
                          (holder_message ''hub'' (sn_exactHolderAgentId n) payload (sn_intentId n)) (by_look others s) of
                     (Inl e, s') \<Rightarrow> (Inl (MessageRefused e), s')
                   | (Inr m, s') \<Rightarrow> finish_seal pinned fp sha now w n m True (by_mark others s')))"

definition project_seal_notice :: "bool \<Rightarrow> (hub_store \<Rightarrow> string) \<Rightarrow> failpoint \<Rightarrow> sha256 \<Rightarrow> instant \<Rightarrow> work_item \<Rightarrow> seal_notice
    \<Rightarrow> hub_store \<Rightarrow> (projector_error + bool) \<times> hub_store" where
  "project_seal_notice = project_seal_notice_with nobody"

text \<open>The first failure ends the projection.\<close>

fun project_seal_notices :: "bool \<Rightarrow> (hub_store \<Rightarrow> string) \<Rightarrow> failpoint \<Rightarrow> sha256 \<Rightarrow> instant \<Rightarrow> (work_item \<times> seal_notice) list
    \<Rightarrow> projection \<Rightarrow> hub_store \<Rightarrow> (projector_error + projection) \<times> hub_store" where
  "project_seal_notices pinned newId fp sha now [] pj s = (Inr pj, s)"
| "project_seal_notices pinned newId fp sha now ((w, n) # ns) pj s =
     (if sn_projectedMessageId n \<noteq> None then project_seal_notices pinned newId fp sha now ns pj s
      else case project_seal_notice pinned newId fp sha now w n s of
          (Inl e, s') \<Rightarrow> (Inl e, s')
        | (Inr new, s') \<Rightarrow> project_seal_notices pinned newId fp sha now ns
            (pj\<lparr>pj_candidates := Suc (pj_candidates pj),
                pj_projected := pj_projected pj + (if new then 1 else 0),
                pj_alreadyProjected := pj_alreadyProjected pj + (if new then 0 else 1)\<rparr>) s')"

definition listPendingFailedSealNoticeItems :: "int \<Rightarrow> hub_store \<Rightarrow> work_page" where
  "listPendingFailedSealNoticeItems limit s =
     (let cap = nat (min (max 1 limit) (int LIST_CAP));
          items = list_work wi_failedSealNoticePending cap s
      in (filter (\<lambda>w. list_ex (\<lambda>n. sn_projectedMessageId n = None) (wi_pendingFailedSealNotices w)) items, cap \<le> length items))"

definition seal_notices_of :: "work_item list \<Rightarrow> (work_item \<times> seal_notice) list" where
  "seal_notices_of ws = concat (map (\<lambda>w. map (Pair w) (wi_pendingFailedSealNotices w)) ws)"

definition projectPendingFailedSealNotices :: "bool \<Rightarrow> (hub_store \<Rightarrow> string) \<Rightarrow> failpoint \<Rightarrow> sha256 \<Rightarrow> instant \<Rightarrow> string option
    \<Rightarrow> hub_store \<Rightarrow> (projector_error + projection) \<times> hub_store" where
  "projectPendingFailedSealNotices pinned newId fp sha now workId s =
     (let (items, truncated) =
        (if falsy_text workId then listPendingFailedSealNoticeItems (int LIST_CAP) s
         else (case getWorkItem (the workId) s of None \<Rightarrow> [] | Some w \<Rightarrow> [w], False))
      in case project_seal_notices pinned newId fp sha now (seal_notices_of items) no_projection s of
           (Inl e, s') \<Rightarrow> (Inl e, s')
         | (Inr pj, s') \<Rightarrow> (if truncated then Inl OutboxTruncated else Inr pj, s'))"

section \<open>Recalls\<close>

definition pendingIntents :: "work_item \<Rightarrow> recall_intent list" where
  "pendingIntents w = filter (\<lambda>i. falsy_text (pi_projectedMessageId i)) (wi_pendingRecallIntents w)"

definition historyFor :: "work_item \<Rightarrow> recall_intent \<Rightarrow> projector_error + recall_entry" where
  "historyFor w i =
     (case find (\<lambda>h. rh_operationId h = pi_operationId i \<and> rh_beforeStateHash h = pi_beforeStateHash i) (wi_recallHistory w) of
        None \<Rightarrow> Inl RecallHistoryMissing
      | Some h \<Rightarrow> Inr h)"

definition recall_payload :: "work_item \<Rightarrow> recall_intent \<Rightarrow> recall_entry \<Rightarrow> json" where
  "recall_payload w i h =
     (let b = rh_before h in json_obj
       [(''kind'', Some (JStr ''workitem_recalled'')),
        (''workId'', Some (JStr (wi_id w))),
        (''logicalId'', Some (JStr (rb_logicalId b))),
        (''revision'', Some (JNum (rb_revision b))),
        (''operationId'', Some (JStr (pi_operationId i))),
        (''reason'', Some (JStr (rh_reason h))),
        (''recalledAt'', Some (json_iso (rh_recalledAt h))),
        (''recalledBy'', Some (actor_json (rh_actor h))),
        (''before'', Some (json_obj
          [(''phase'', Some (JStr (phase_name (rb_phase b)))),
           (''topologyGeneration'', Some (json_null_or JNum (rb_topologyGeneration b))),
           (''resourceVersion'', Some (JStr (show_nat (rb_resourceVersion b)))),
           (''stateHash'', Some (JStr (rb_stateHash b))),
           (''blockedOn'', Some (json_null_or blocked_on_json (rb_blockedOn b))),
           (''lease'', Some (json_null_or snapshot_json (rb_lease b)))])),
        (''recallDisposition'', Some (JStr ''paused'')),
        (''observedCurrentPhase'', Some (JStr (phase_name (wi_status w)))),
        (''obsoleteToken'', Some (JBool True)),
        (''holderAuthority'', Some (JStr ''none'')),
        (''nextStep'', Some (JStr (if wi_status w = Paused then ''await-authorized-revision-or-unpause''
          else ''observe-current-workgraph-authority'')))])"

definition finish_recall :: "failpoint \<Rightarrow> sha256 \<Rightarrow> instant \<Rightarrow> work_item \<Rightarrow> recall_intent \<Rightarrow> message \<Rightarrow> hub_store
    \<Rightarrow> projector_error option \<times> hub_store" where
  "finish_recall fp sha now w i m s =
     (if fp AfterMessagePersist (wi_id w) (pi_intentId i) \<or> fp BeforeIntentMark (wi_id w) (pi_intentId i) then (Some ProjectorStopped, s)
      else case markRecallNoticeProjected sha now (wi_id w) (pi_intentId i) (ms_id m) s of
          (Inl e, s') \<Rightarrow> (Some (MarkRefused e), s')
        | (Inr _, s') \<Rightarrow> (if fp AfterIntentMark (wi_id w) (pi_intentId i) then Some ProjectorStopped else None, s'))"

text \<open>Also answers whether the message was created or found.\<close>

definition project_recall_notice_with :: "bystanders \<Rightarrow> (hub_store \<Rightarrow> string) \<Rightarrow> failpoint \<Rightarrow> sha256 \<Rightarrow> instant \<Rightarrow> work_item
    \<Rightarrow> recall_intent \<Rightarrow> hub_store \<Rightarrow> bool option \<times> projector_error option \<times> hub_store" where
  "project_recall_notice_with others newId fp sha now w i s =
     (if fp AfterIntentRead (wi_id w) (pi_intentId i) then (None, Some ProjectorStopped, s)
      else case historyFor w i of
          Inl e \<Rightarrow> (None, Some e, s)
        | Inr h \<Rightarrow>
            (case findByMigrationSourceId (pi_intentId i) s of
               Some m \<Rightarrow>
                 if Option.bind (ms_target m) mt_agentId \<noteq> Some (pi_exactHolderAgentId i) \<or> Option.bind (ms_target m) mt_role \<noteq> None
                 then (None, Some NotTheHolder, s)
                 else (Some False, finish_recall fp sha now w i m (by_mark others s))
             | None \<Rightarrow>
                 if fp BeforeMessagePersist (wi_id w) (pi_intentId i) then (None, Some ProjectorStopped, s)
                 else (case createMessage_with (by_create others) (newId s) now (holder_message ''workitem-recall-projector''
                              (pi_exactHolderAgentId i) (recall_payload w i h) (pi_intentId i)) (by_look others s) of
                         (Inl e, s') \<Rightarrow> (None, Some (MessageRefused e), s')
                       | (Inr m, s') \<Rightarrow> (Some True, finish_recall fp sha now w i m (by_mark others s')))))"

definition project_recall_notice :: "(hub_store \<Rightarrow> string) \<Rightarrow> failpoint \<Rightarrow> sha256 \<Rightarrow> instant \<Rightarrow> work_item \<Rightarrow> recall_intent
    \<Rightarrow> hub_store \<Rightarrow> bool option \<times> projector_error option \<times> hub_store" where
  "project_recall_notice = project_recall_notice_with nobody"

text \<open>A failure is noted and the next intent goes on.\<close>

fun project_recall_notices :: "(hub_store \<Rightarrow> string) \<Rightarrow> failpoint \<Rightarrow> sha256 \<Rightarrow> instant \<Rightarrow> (work_item \<times> recall_intent) list
    \<Rightarrow> projection \<times> projector_error list \<Rightarrow> hub_store \<Rightarrow> (projection \<times> projector_error list) \<times> hub_store" where
  "project_recall_notices newId fp sha now [] acc s = (acc, s)"
| "project_recall_notices newId fp sha now ((w, i) # is) (pj, errors) s =
     (case project_recall_notice newId fp sha now w i s of
        (outcome, failed, s') \<Rightarrow>
          project_recall_notices newId fp sha now is
            (pj\<lparr>pj_candidates := Suc (pj_candidates pj),
                pj_projected := pj_projected pj + (if outcome = Some True then 1 else 0),
                pj_alreadyProjected := pj_alreadyProjected pj + (if outcome = Some False then 1 else 0)\<rparr>,
             errors @ (case failed of None \<Rightarrow> [] | Some e \<Rightarrow> [e])) s')"

definition recall_notices_of :: "work_item list \<Rightarrow> (work_item \<times> recall_intent) list" where
  "recall_notices_of ws = concat (map (\<lambda>w. map (Pair w) (pendingIntents w)) ws)"

definition projectPendingRecallNotices :: "(hub_store \<Rightarrow> string) \<Rightarrow> failpoint \<Rightarrow> sha256 \<Rightarrow> instant \<Rightarrow> string option
    \<Rightarrow> hub_store \<Rightarrow> (projector_error + projection \<times> projector_error list) \<times> hub_store" where
  "projectPendingRecallNotices newId fp sha now workId s =
     (let (items, truncated) =
        (if falsy_text workId then listPendingRecallNoticeItems (int LIST_CAP) s
         else (case getWorkItem (the workId) s of None \<Rightarrow> [] | Some w \<Rightarrow> if pendingIntents w \<noteq> [] then [w] else [], False));
          (acc, s') = project_recall_notices newId fp sha now (recall_notices_of items) (no_projection, []) s
      in (if truncated then Inl OutboxTruncated else Inr acc, s'))"

section \<open>The sweep\<close>

definition DEFAULT_POISON_CAP :: nat where "DEFAULT_POISON_CAP = 3"

definition DEFAULT_SCAN_LIMIT :: nat where "DEFAULT_SCAN_LIMIT = 500"

record lease_sweep_result =
  lr_scanned :: nat
  lr_requeued :: nat
  lr_abandoned :: nat
  lr_failedSealed :: nat
  lr_skipped :: nat
  lr_errors :: nat
  lr_agentsThrashed :: nat

definition no_failpoint :: failpoint where
  "no_failpoint stage workId intentId = False"

text \<open>The thrash counter of the holder who let a lease lapse without evidence.\<close>

definition sweep_thrash :: "work_item \<Rightarrow> lease_sweep_result \<times> hub_store \<Rightarrow> lease_sweep_result \<times> hub_store" where
  "sweep_thrash w rs =
     (case wi_lease w of
        None \<Rightarrow> rs
      | Some l \<Rightarrow>
          if le_holder l = [] \<or> wi_evidence w \<noteq> [] then rs
          else (case recordWorkItemThrash (le_holder l) (snd rs) of
                  (Inl z, s') \<Rightarrow> ((fst rs)\<lparr>lr_errors := Suc (lr_errors (fst rs))\<rparr>, s')
                | (Inr None, s') \<Rightarrow> (fst rs, s')
                | (Inr (Some n), s') \<Rightarrow> ((fst rs)\<lparr>lr_agentsThrashed := Suc (lr_agentsThrashed (fst rs))\<rparr>, s')))"

text \<open>
  One listed row.  The sweep runs under a read pin, so the expiry takes no writer fence of its own.
\<close>

definition sweep_row :: "(hub_store \<Rightarrow> string) \<Rightarrow> sha256 \<Rightarrow> instant \<Rightarrow> nat \<Rightarrow> pin \<Rightarrow> work_item
    \<Rightarrow> (lease_sweep_result \<times> work_notice list) \<times> hub_store \<Rightarrow> (lease_sweep_result \<times> work_notice list) \<times> hub_store" where
  "sweep_row newId sha now poisonCap p w acc =
     (case acc of ((r, ns), s) \<Rightarrow>
        (case expire_under sha now (wi_id w) poisonCap p s of
           (Inl e, s') \<Rightarrow> ((r\<lparr>lr_errors := Suc (lr_errors r)\<rparr>, ns), s')
         | (Inr Requeued, s') \<Rightarrow>
             (case sweep_thrash w (r\<lparr>lr_requeued := Suc (lr_requeued r)\<rparr>, s') of
                (r', s'') \<Rightarrow> ((r', ns @ emitWorkTransition w LeaseExpired (Some (wi_status w)) (Some Ready) None), s''))
         | (Inr PoisonAbandoned, s') \<Rightarrow>
             (case sweep_thrash w (r\<lparr>lr_abandoned := Suc (lr_abandoned r)\<rparr>, logEntry ''workitem_poison_abandoned'' (Some (wi_id w)) s') of
                (r', s'') \<Rightarrow> ((r', ns @ emitWorkTransition w LeaseExpired (Some (wi_status w)) (Some Abandoned) None), s''))
         | (Inr SweptToSealed, s') \<Rightarrow>
             (case projectPendingFailedSealNotices True newId no_failpoint sha now (Some (wi_id w))
                     (logEntry ''workitem_failed_gate_legacy_reconciled'' (Some (wi_id w)) s') of
                (out, s'') \<Rightarrow>
                  ((r\<lparr>lr_failedSealed := Suc (lr_failedSealed r),
                      lr_errors := lr_errors r + (case out of Inl e \<Rightarrow> 1 | Inr pj \<Rightarrow> 0)\<rparr>, ns), s''))
         | (Inr Skipped, s') \<Rightarrow> ((r\<lparr>lr_skipped := Suc (lr_skipped r)\<rparr>, ns), s')))"

text \<open>What other clients do before each row is an argument.\<close>

fun sweep_rows :: "(hub_store \<Rightarrow> string) \<Rightarrow> sha256 \<Rightarrow> instant \<Rightarrow> nat \<Rightarrow> pin \<Rightarrow> (hub_store \<Rightarrow> hub_store) list \<Rightarrow> work_item list
    \<Rightarrow> (lease_sweep_result \<times> work_notice list) \<times> hub_store \<Rightarrow> (lease_sweep_result \<times> work_notice list) \<times> hub_store" where
  "sweep_rows newId sha now poisonCap p envs [] acc = acc"
| "sweep_rows newId sha now poisonCap p envs (w # ws) acc =
     sweep_rows newId sha now poisonCap p (drop 1 envs) ws
       (sweep_row newId sha now poisonCap p w (fst acc, case envs of [] \<Rightarrow> snd acc | env # _ \<Rightarrow> env (snd acc)))"

definition fullSweepPinned :: "(hub_store \<Rightarrow> string) \<Rightarrow> sha256 \<Rightarrow> instant \<Rightarrow> nat \<Rightarrow> nat \<Rightarrow> (hub_store \<Rightarrow> hub_store) list \<Rightarrow> pin
    \<Rightarrow> hub_store \<Rightarrow> (wi_error + lease_sweep_result \<times> work_notice list) \<times> hub_store" where
  "fullSweepPinned newId sha now poisonCap scanLimit envs p s =
     (let (recalls, s1) = projectPendingRecallNotices newId no_failpoint sha now None s;
          (seals, s2) = projectPendingFailedSealNotices True newId no_failpoint sha now None s1;
          errors = (case recalls of Inl e \<Rightarrow> 1 | Inr (pj, es) \<Rightarrow> length es) + (case seals of Inl e \<Rightarrow> 1 | Inr pj \<Rightarrow> 0)
      in case listExpiredLeaseItems sha now scanLimit p s2 of
           Inl e \<Rightarrow> (Inl e, s2)
         | Inr expired \<Rightarrow>
             (case sweep_rows newId sha now poisonCap p envs expired
                 ((\<lparr>lr_scanned = length expired, lr_requeued = 0, lr_abandoned = 0, lr_failedSealed = 0, lr_skipped = 0,
                    lr_errors = errors, lr_agentsThrashed = 0\<rparr>, []), s2) of
                (r, s3) \<Rightarrow> (Inr r, s3)))"

definition fullSweep :: "(hub_store \<Rightarrow> string) \<Rightarrow> sha256 \<Rightarrow> instant \<Rightarrow> nat \<Rightarrow> nat \<Rightarrow> (hub_store \<Rightarrow> hub_store) list
    \<Rightarrow> hub_store \<Rightarrow> (wi_error + lease_sweep_result \<times> work_notice list) \<times> hub_store" where
  "fullSweep newId sha now poisonCap scanLimit envs s =
     (case read_pin s of
        Inl e \<Rightarrow> (Inl e, s)
      | Inr p \<Rightarrow>
          (case fullSweepPinned newId sha now poisonCap scanLimit envs p s of
             (Inl e, s') \<Rightarrow> (Inl e, s')
           | (Inr r, s') \<Rightarrow> (case assertHeadUnchanged p s' of Inl e \<Rightarrow> (Inl e, s') | Inr _ \<Rightarrow> (Inr r, s'))))"

end
