(* ===== verification/Sweep_Properties.thy ===== *)
theory Sweep_Properties
  imports Lease_Sweeper Agent_Runs Message_Properties Gate_Outcomes
begin

text \<open>What the lease sweep and the two projectors do to the rows, the messages and the agents.\<close>

section \<open>Messages by their source\<close>

lemma find_source:
  assumes "mail_ok s"
  shows "findByMigrationSourceId x s = Some m \<Longrightarrow> getMessage (ms_id m) s = Some m \<and> ms_migrationSourceId m = Some x"
    and "findByMigrationSourceId x s = None \<Longrightarrow> getMessage (ms_id m) s = Some m \<Longrightarrow> ms_migrationSourceId m \<noteq> Some x"
proof -
  let ?P = "\<lambda>m. ms_migrationSourceId m = Some x"
  let ?l = "list_kind as_message MESSAGE_KIND ?P None 1 s"
  have find: "findByMigrationSourceId x s = (case ?l of [] \<Rightarrow> None | m # _ \<Rightarrow> Some m)"
    by (simp add: findByMigrationSourceId_def list_messages_def)
  {
    assume "findByMigrationSourceId x s = Some m"
    then have "m \<in> set ?l" unfolding find by (cases ?l) auto
    then have "m \<in> {r. row_of as_message MESSAGE_KIND (ms_id r) s = Some r \<and> ?P r}"
      using msg.list_kind_facts(1) [OF assms, of ?P None 1] by blast
    then show "getMessage (ms_id m) s = Some m \<and> ms_migrationSourceId m = Some x" by (simp add: getMessage_def)
  }
  {
    assume "findByMigrationSourceId x s = None" and m: "getMessage (ms_id m) s = Some m"
    then have "?l = []" unfolding find by (cases ?l) auto
    then have "filter ?P (kind_rows as_message MESSAGE_KIND s) = []" by (simp add: msg.list_kind_eq [OF assms])
    moreover have "m \<in> set (kind_rows as_message MESSAGE_KIND s)" using m msg.kind_rows_ids(2) [OF assms] by (simp add: getMessage_def)
    ultimately show "ms_migrationSourceId m \<noteq> Some x" by (auto simp: filter_empty_conv)
  }
qed

text \<open>The messages about an intent.\<close>

definition messages_about :: "string \<Rightarrow> hub_store \<Rightarrow> message set" where
  "messages_about intentId s = {m. getMessage (ms_id m) s = Some m \<and> ms_migrationSourceId m = Some intentId}"

lemma about_none: "mail_ok s \<Longrightarrow> messages_about x s = {} \<longleftrightarrow> findByMigrationSourceId x s = None"
  using find_source [of s x] by (cases "findByMigrationSourceId x s") (auto simp: messages_about_def)

lemma about_write:
  "messages_about x (write_row MESSAGE_KIND (ms_id m) (EMessage m) s) =
    {b \<in> messages_about x s. ms_id b \<noteq> ms_id m} \<union> (if ms_migrationSourceId m = Some x then {m} else {})"
proof (rule set_eqI)
  fix b :: message
  have "getMessage (ms_id b) (write_row MESSAGE_KIND (ms_id m) (EMessage m) s) =
      (if ms_id b = ms_id m then Some m else getMessage (ms_id b) s)" by (simp add: getMessage_def)
  then show "b \<in> messages_about x (write_row MESSAGE_KIND (ms_id m) (EMessage m) s) \<longleftrightarrow>
      b \<in> {b \<in> messages_about x s. ms_id b \<noteq> ms_id m} \<union> (if ms_migrationSourceId m = Some x then {m} else {})"
    by (cases "ms_id b = ms_id m") (auto simp: messages_about_def)
qed

lemma mail_not_work: "MESSAGE_KIND \<noteq> WORK_KIND" "WORK_KIND \<noteq> MESSAGE_KIND"
  by (simp_all add: MESSAGE_KIND_def WORK_KIND_def)

lemma getWorkItem_mail: "getWorkItem i (write_row MESSAGE_KIND j e s) = getWorkItem i s"
  by (simp add: getWorkItem_def get_work_at work_at_write_other MESSAGE_KIND_def WORK_KIND_def)

lemma getMessage_work: "getMessage j (write_row WORK_KIND i e s) = getMessage j s"
  by (simp add: getMessage_def msg.row_of_write_other [OF mail_not_work(2)])

section \<open>Bystanders\<close>

text \<open>
  What others may do while a notice is projected: they delete no work item and keep the messages about the intent, each with its target (they
  may claim and acknowledge them), and they send none.
\<close>

definition notice_left :: "string \<Rightarrow> hub_store \<Rightarrow> hub_store \<Rightarrow> bool" where
  "notice_left x s t \<longleftrightarrow> hub_ok t \<and> mail_ok t \<and> (\<forall>i. getWorkItem i s \<noteq> None \<longrightarrow> getWorkItem i t \<noteq> None) \<and>
     (\<forall>m' \<in> messages_about x t. \<exists>m \<in> messages_about x s. ms_id m = ms_id m' \<and> ms_target m = ms_target m') \<and>
     (\<forall>m \<in> messages_about x s. \<exists>m' \<in> messages_about x t. ms_id m' = ms_id m \<and> ms_target m' = ms_target m)"

definition leaves_notice :: "string \<Rightarrow> (hub_store \<Rightarrow> hub_store) \<Rightarrow> bool" where
  "leaves_notice x f \<longleftrightarrow> (\<forall>s. hub_ok s \<longrightarrow> mail_ok s \<longrightarrow> notice_left x s (f s))"

definition leave_notice :: "string \<Rightarrow> bystanders \<Rightarrow> bool" where
  "leave_notice x others \<longleftrightarrow> leaves_notice x (by_look others) \<and> leaves_notice x (by_create others) \<and> leaves_notice x (by_mark others)"

lemma left_same: "hub_ok s \<Longrightarrow> mail_ok s \<Longrightarrow> notice_left x s s"
  by (auto simp: notice_left_def)

lemma left_trans:
  assumes "notice_left x s t" "notice_left x t u"
  shows "notice_left x s u"
proof -
  have "\<exists>m \<in> messages_about x s. ms_id m = ms_id b \<and> ms_target m = ms_target b" if "b \<in> messages_about x u" for b
  proof -
    obtain c where "c \<in> messages_about x t" "ms_id c = ms_id b" "ms_target c = ms_target b"
      using assms(2) \<open>b \<in> messages_about x u\<close> unfolding notice_left_def by blast
    moreover obtain m where "m \<in> messages_about x s" "ms_id m = ms_id c" "ms_target m = ms_target c"
      using assms(1) calculation(1) unfolding notice_left_def by blast
    ultimately show ?thesis by auto
  qed
  moreover have "\<exists>b \<in> messages_about x u. ms_id b = ms_id m \<and> ms_target b = ms_target m" if "m \<in> messages_about x s" for m
  proof -
    obtain c where "c \<in> messages_about x t" "ms_id c = ms_id m" "ms_target c = ms_target m"
      using assms(1) \<open>m \<in> messages_about x s\<close> unfolding notice_left_def by blast
    moreover obtain b where "b \<in> messages_about x u" "ms_id b = ms_id c" "ms_target b = ms_target c"
      using assms(2) calculation(1) unfolding notice_left_def by blast
    ultimately show ?thesis by auto
  qed
  ultimately show ?thesis using assms by (simp add: notice_left_def)
qed

lemma leave_id [simp]: "leaves_notice x id" "leaves_notice x (\<lambda>s. s)"
  by (simp_all add: leaves_notice_def left_same)

lemma leave_nobody [simp]: "leave_notice x nobody"
  by (simp add: leave_notice_def nobody_def)

lemma leave_empty: "notice_left x s t \<Longrightarrow> messages_about x s = {} \<Longrightarrow> messages_about x t = {}"
  unfolding notice_left_def by blast

text \<open>A claim of any message, and a message about something else.\<close>

lemma claim_leaves_notice: "leaves_notice x (\<lambda>s. snd (claimMessage now i agent s))"
  unfolding leaves_notice_def
proof (intro allI impI)
  fix s assume ok: "hub_ok s" "mail_ok s"
  have eq: "claimMessage now i agent s =
    (case getMessage i s of
       None \<Rightarrow> (Inr None, s)
     | Some m \<Rightarrow> (case claim_message_row now agent m of
         Inl m0 \<Rightarrow> (Inr (Some m0), s) | Inr m' \<Rightarrow> (Inr (Some m'), write_row MESSAGE_KIND i (EMessage m') s)))"
    unfolding claimMessage_def claimMessage_with_def by (rule message_update_eq [OF ok(2)]) (auto simp: message_ids)
  show "notice_left x s (snd (claimMessage now i agent s))"
  proof (cases "\<exists>m m'. getMessage i s = Some m \<and> claim_message_row now agent m = Inr m'")
    case True
    then obtain m m' where m: "getMessage i s = Some m" "claim_message_row now agent m = Inr m'" by blast
    have id: "ms_id m = i" "i \<noteq> []" using msg.row_of_id [OF ok(2)] m(1) by (auto simp: getMessage_def)
    have m': "ms_id m' = i" "ms_migrationSourceId m' = ms_migrationSourceId m" "ms_target m' = ms_target m"
      using m(2) id by (auto simp: claim_message_row_def split: if_splits)
    let ?t = "write_row MESSAGE_KIND (ms_id m') (EMessage m') s"
    have same: "hub_ok ?t" "mail_ok ?t" "\<And>i. getWorkItem i ?t = getWorkItem i s"
      by (rule hub_ok_write_other [OF ok(1) mail_not_work(1)], rule msg.ok_write [OF ok(2) refl])
        (simp_all add: m'(1) id(2) getWorkItem_mail)
    have old: "ms_migrationSourceId m = Some x \<Longrightarrow> m \<in> messages_about x s" using m(1) id by (simp add: messages_about_def)
    have about: "messages_about x ?t = (if ms_migrationSourceId m = Some x then insert m' (messages_about x s - {m}) else messages_about x s)"
    proof (rule set_eqI)
      fix b :: message
      have p: "b \<in> messages_about x s \<and> ms_id b = i \<longleftrightarrow> ms_migrationSourceId m = Some x \<and> b = m"
        using m(1) id by (auto simp: messages_about_def)
      show "b \<in> messages_about x ?t \<longleftrightarrow>
          b \<in> (if ms_migrationSourceId m = Some x then insert m' (messages_about x s - {m}) else messages_about x s)"
        unfolding about_write using p m' by (cases "ms_migrationSourceId m = Some x"; cases "ms_id b = i"; cases "b = m") simp_all
    qed
    have "\<exists>a \<in> messages_about x s. ms_id a = ms_id b \<and> ms_target a = ms_target b" if b: "b \<in> messages_about x ?t" for b
    proof (cases "b \<in> messages_about x s")
      case False
      with b have "b = m'" "ms_migrationSourceId m = Some x" by (simp_all add: about split: if_splits)
      with old m' id show ?thesis by (intro bexI [of _ m]) simp_all
    qed blast
    moreover have "\<exists>b \<in> messages_about x ?t. ms_id b = ms_id a \<and> ms_target b = ms_target a" if a: "a \<in> messages_about x s" for a
    proof (cases "a \<in> messages_about x ?t")
      case False
      with a have "a = m" "ms_migrationSourceId m = Some x" by (simp_all add: about split: if_splits)
      then have "m' \<in> messages_about x ?t" unfolding about by simp
      with \<open>a = m\<close> m' id show ?thesis by (intro bexI [of _ m']) simp_all
    qed blast
    ultimately have "notice_left x s ?t" by (simp add: notice_left_def same)
    then show ?thesis using m m'(1) by (simp add: eq)
  next
    case False
    then have "snd (claimMessage now i agent s) = s" by (auto simp: eq split: option.split sum.split)
    then show ?thesis using left_same [OF ok] by simp
  qed
qed

lemma create_leaves_notice:
  assumes "cm_migrationSourceId q \<noteq> Some x"
  shows "leaves_notice x (\<lambda>s. snd (createMessage i now q s))"
  unfolding leaves_notice_def
proof (intro allI impI)
  fix s assume ok: "hub_ok s" "mail_ok s"
  let ?m = "created_message i now q (sequence_for q s)"
  have "snd (createMessage i now q s) = s \<or>
      i \<noteq> [] \<and> getMessage i s = None \<and> snd (createMessage i now q s) = write_row MESSAGE_KIND (ms_id ?m) (EMessage ?m) s"
    by (cases "i = []") (simp_all add: createMessage_nameless ok(2) createMessage_eq split: option.split)
  then consider (same) "snd (createMessage i now q s) = s"
    | (new) "i \<noteq> []" "getMessage i s = None" "snd (createMessage i now q s) = write_row MESSAGE_KIND (ms_id ?m) (EMessage ?m) s"
    by (elim disjE conjE)
  then show "notice_left x s (snd (createMessage i now q s))"
  proof cases
    case new
    have "hub_ok (snd (createMessage i now q s))" unfolding new(3) by (rule hub_ok_write_other [OF ok(1) mail_not_work(1)])
    moreover have "mail_ok (snd (createMessage i now q s))" unfolding new(3) by (rule msg.ok_write [OF ok(2) refl]) (simp add: new(1))
    moreover have "messages_about x (snd (createMessage i now q s)) = messages_about x s"
      unfolding new(3) about_write using assms new(2) by (auto simp: messages_about_def created_message_def)
    ultimately show ?thesis unfolding notice_left_def by (auto simp: new(3) getWorkItem_mail)
  qed (simp add: left_same ok)
qed

section \<open>Marks\<close>

lemma seal_keeps_id: "keeps_id (markFailedSealNotice_row now n m)"
  by (rule verb_transform_keeps_id, rule transform_steps(16))

lemma recall_keeps_id: "keeps_id (markRecallNotice_row now n m)"
  by (rule verb_transform_keeps_id, rule transform_steps(14))

lemma mark_seal_cases:
  assumes ok: "hub_ok s" and run: "mark_seal pinned sha now i n m s = (r, s')"
  obtains (same) "s' = s" "\<And>x. r = Inr x \<Longrightarrow> work_at i s = None \<or>
        (\<exists>w rv. work_at i s = Some (w, rv) \<and> markFailedSealNotice_row now n m s w rv = Inl (IdempotentFailedSeal w))"
  | (marked) w rv w' where "work_at i s = Some (w, rv)" "markFailedSealNotice_row now n m s w rv = Inr w'"
      "s' = write_row WORK_KIND i (EWork w') s"
proof -
  let ?g = "\<lambda>s. case tryCasUpdate sha LegacyPin i (markFailedSealNotice_row now n m) s of
         (Inl (IdempotentFailedSeal w), s') \<Rightarrow> (Inr (Some w), s') | r \<Rightarrow> r"
  note eq = tryCasUpdate_eq [OF ok seal_keeps_id, of sha LegacyPin i now n m]
  have idem: "markFailedSealNotice_row now n m s w rv = Inl (IdempotentFailedSeal w') \<Longrightarrow> w' = w" for w rv w'
    by (auto simp: markFailedSealNotice_row_def Let_def split: option.splits if_splits)
  have free: thesis if g: "?g s = (r, s')"
  proof (cases "work_at i s")
    case None
    with g show ?thesis by (intro same) (auto simp: eq)
  next
    case (Some wr)
    obtain w rv where w: "work_at i s = Some (w, rv)" using Some by (cases wr) auto
    show ?thesis
    proof (cases "markFailedSealNotice_row now n m s w rv")
      case (Inl e)
      with g w idem show ?thesis by (intro same) (auto simp: eq split: wi_error.splits)
    next
      case (Inr w')
      with g w show ?thesis by (intro marked) (auto simp: eq)
    qed
  qed
  show thesis
  proof (cases pinned)
    case True
    with run free show ?thesis by (simp add: mark_seal_def)
  next
    case False
    have fenced: "withWriterFence (\<lambda>p. ?g) s = (r, s')" using run False by (simp add: mark_seal_def markFailedSealNoticeProjected_def)
    have head: "\<forall>p r s'. ?g s = (r, s') \<longrightarrow> get_head s' = get_head s"
      by (auto simp: eq split: option.splits sum.splits prod.splits wi_error.splits)
    from fenced head show ?thesis
    proof (cases rule: fence_cases)
      case (unpinned e)
      then show ?thesis by (intro same) auto
    next
      case (run p)
      show ?thesis by (rule free [OF run(2)])
    qed
  qed
qed


text \<open>What the mark records.\<close>

lemma marked_notice:
  assumes "markFailedSealNotice_row now n m s w rv = Inr w'"
  shows "\<exists>x \<in> set (wi_pendingFailedSealNotices w'). sn_intentId x = n \<and> sn_projectedMessageId x = Some m"
proof -
  obtain k where k: "find_index (\<lambda>x. sn_intentId x = n) (wi_pendingFailedSealNotices w) = Some k"
    and w': "w' = touched now (w\<lparr>wi_pendingFailedSealNotices := (wi_pendingFailedSealNotices w)
        [k := (wi_pendingFailedSealNotices w ! k)\<lparr>sn_projectedMessageId := Some m, sn_projectedAt := Some now\<rparr>],
      wi_failedSealNoticePending := list_ex (\<lambda>x. sn_projectedMessageId x = None) ((wi_pendingFailedSealNotices w)
        [k := (wi_pendingFailedSealNotices w ! k)\<lparr>sn_projectedMessageId := Some m, sn_projectedAt := Some now\<rparr>])\<rparr>)"
    using assms by (auto simp: markFailedSealNotice_row_def Let_def split: option.splits if_splits)
  have k2: "k < length (wi_pendingFailedSealNotices w)" "sn_intentId (wi_pendingFailedSealNotices w ! k) = n"
    using find_index_Some [OF k] by simp_all
  then show ?thesis unfolding w'
    by (intro bexI [of _ "(wi_pendingFailedSealNotices w ! k)\<lparr>sn_projectedMessageId := Some m, sn_projectedAt := Some now\<rparr>"])
      (simp_all add: touched_def set_update_memI)
qed

lemma idempotent_notice:
  assumes "markFailedSealNotice_row now n m s w rv = Inl (IdempotentFailedSeal w')"
  shows "\<exists>x \<in> set (wi_pendingFailedSealNotices w). sn_intentId x = n \<and> sn_projectedMessageId x = Some m"
proof -
  obtain k where k: "find_index (\<lambda>x. sn_intentId x = n) (wi_pendingFailedSealNotices w) = Some k"
    and p: "sn_projectedMessageId (wi_pendingFailedSealNotices w ! k) = Some m"
    using assms by (auto simp: markFailedSealNotice_row_def Let_def split: option.splits if_splits)
  from find_index_Some [OF k] p show ?thesis by (intro bexI [of _ "wi_pendingFailedSealNotices w ! k"]) simp_all
qed

section \<open>One notice\<close>

lemma finish_seal_done:
  assumes "hub_ok s" "finish_seal pinned fp sha now w n m new s = (r, s')"
  shows "(s' = s \<or> (\<exists>x. wi_id x = wi_id w \<and> wi_id w \<noteq> [] \<and> s' = write_row WORK_KIND (wi_id w) (EWork x) s)) \<and>
    (r = Inr b \<longrightarrow> b = new \<and> (getWorkItem (wi_id w) s \<noteq> None \<longrightarrow> (\<exists>w'. getWorkItem (wi_id w) s' = Some w' \<and>
      (\<exists>x \<in> set (wi_pendingFailedSealNotices w'). sn_intentId x = sn_intentId n \<and> sn_projectedMessageId x = Some (ms_id m)))))"
proof -
  obtain r1 s1 where run: "mark_seal pinned sha now (wi_id w) (sn_intentId n) (ms_id m) s = (r1, s1)"
    by (cases "mark_seal pinned sha now (wi_id w) (sn_intentId n) (ms_id m) s")
  have at: "getWorkItem i s = map_option fst (work_at i s)" for i s by (simp add: getWorkItem_def get_work_at)
  from assms(1) run show ?thesis
  proof (cases rule: mark_seal_cases)
    case same
    then have "s' = s" using assms(2) run by (auto simp: finish_seal_def split: if_splits sum.splits)
    moreover have "b = new \<and> (\<exists>x. r1 = Inr x)" if "r = Inr b"
      using assms(2) run that by (auto simp: finish_seal_def split: if_splits sum.splits)
    ultimately show ?thesis using same(2) idempotent_notice by (fastforce simp: at)
  next
    case (marked w1 rv w')
    have id: "wi_id w' = wi_id w" "wi_id w \<noteq> []"
      using seal_keeps_id [unfolded keeps_id_def] marked(2) work_at_id [OF assms(1) marked(1)] by simp_all
    have "s' = s \<or> s' = s1" "r = Inr b \<Longrightarrow> s' = s1 \<and> b = new"
      using assms(2) run by (auto simp: finish_seal_def split: if_splits sum.splits)
    with marked_notice [OF marked(2)] id show ?thesis
      unfolding marked(3) by (auto simp: getWorkItem_def get_work_at cloneWorkItem_def)
  qed
qed

definition names_holder :: "seal_notice \<Rightarrow> message \<Rightarrow> bool" where
  "names_holder n m \<longleftrightarrow> ms_target m = Some \<lparr>mt_role = None, mt_agentId = Some (sn_exactHolderAgentId n)\<rparr>"

text \<open>At most one message is about the intent, and it is addressed to the holder.\<close>

definition sent_once :: "seal_notice \<Rightarrow> hub_store \<Rightarrow> bool" where
  "sent_once n s \<longleftrightarrow> hub_ok s \<and> mail_ok s \<and>
     (\<forall>m \<in> messages_about (sn_intentId n) s. names_holder n m \<and> (\<forall>m' \<in> messages_about (sn_intentId n) s. m' = m))"

lemma once_left:
  assumes "sent_once n s" "notice_left (sn_intentId n) s t"
  shows "sent_once n t"
proof -
  have from_s: "\<exists>m0 \<in> messages_about (sn_intentId n) s. ms_id m0 = ms_id m \<and> ms_target m0 = ms_target m"
    if "m \<in> messages_about (sn_intentId n) t" for m using assms(2) that unfolding notice_left_def by blast
  have "names_holder n m \<and> m' = m" if m: "m \<in> messages_about (sn_intentId n) t" "m' \<in> messages_about (sn_intentId n) t" for m m'
  proof -
    obtain m0 m0' where m0: "m0 \<in> messages_about (sn_intentId n) s" "ms_id m0 = ms_id m" "ms_target m0 = ms_target m"
      and m0': "m0' \<in> messages_about (sn_intentId n) s" "ms_id m0' = ms_id m'" using from_s [OF m(1)] from_s [OF m(2)] by blast
    have "names_holder n m0" "m0' = m0" using assms(1) m0(1) m0'(1) by (simp_all add: sent_once_def)
    with m0 m0' m show ?thesis by (simp add: names_holder_def messages_about_def)
  qed
  with assms(2) show ?thesis by (simp add: sent_once_def notice_left_def)
qed

lemma marked_left:
  assumes ok: "hub_ok s" "mail_ok s" and fin: "s' = s \<or> (\<exists>y. wi_id y = i \<and> i \<noteq> [] \<and> s' = write_row WORK_KIND i (EWork y) s)"
  shows "notice_left x s s'"
proof -
  have "messages_about x s' = messages_about x s" using fin by (auto simp: messages_about_def getMessage_work)
  moreover have "hub_ok s'" using fin ok(1) hub_ok_write_work by blast
  moreover have "mail_ok s'" using fin ok(2) msg.ok_write_other [OF ok(2) mail_not_work(2)] by blast
  ultimately show ?thesis using fin unfolding notice_left_def by (auto simp: getWorkItem_def get_work_at)
qed

text \<open>The creation of the message, with nobody else sending one.\<close>

lemma send_new:
  assumes mail: "mail_ok s" "mail_ok (f s)" and none: "messages_about x s = {}" and q: "cm_migrationSourceId q = Some x" "x \<noteq> []"
    and run: "createMessage_with f i now q s = (r, t)"
  obtains (refused) e where "r = Inl e" "t = s \<or> t = f s"
  | (sent) m where "r = Inr m" "t = write_row MESSAGE_KIND (ms_id m) (EMessage m) (f s)" "ms_id m \<noteq> []" "ms_target m = cm_target q"
      "ms_migrationSourceId m = Some x"
proof -
  have look: "(if falsy_text (cm_migrationSourceId q) then None else findByMigrationSourceId (the (cm_migrationSourceId q)) s) = None"
    using about_none [OF mail(1), of x] none q by (simp add: falsy_text_def)
  define m where "m = created_message i now q (if falsy_text (cm_threadId q) then None else Some (allocateSequence (the (cm_threadId q)) (f s)))"
  have m: "ms_id m = i" "ms_target m = cm_target q" "ms_migrationSourceId m = Some x" by (simp_all add: m_def created_message_def q)
  show thesis
  proof (cases "cm_kind q = NoteMsg \<and> \<not> validateNotePayload (cm_payload q)")
    case True
    with run show thesis by (intro refused) (auto simp: createMessage_with_def)
  next
    case False
    have created: "createMessage_with f i now q s =
      (case createOnly ident MESSAGE_KIND (EMessage m) (f s) of
         Inl z \<Rightarrow> (Inl (MessageStoreThrew z), f s)
       | Inr (Created _ _, s') \<Rightarrow> (Inr m, s')
       | Inr (ExistingConflict, s') \<Rightarrow> (Inl MessageIdTaken, s'))"
      unfolding createMessage_with_def look option.case Let_def m_def [symmetric] if_not_P [OF False] by (rule refl)
    show thesis
    proof (cases "i = []")
      case True
      then obtain z where "createOnly ident MESSAGE_KIND (EMessage m) (f s) = Inl z"
        using msg.ok_plain [OF mail(2)] m(1)
        by (simp add: createOnly_def encodeForWrite_def plain_store_def extractId_def MESSAGE_KIND_def)
      with run created show thesis by (intro refused [of "MessageStoreThrew z"]) simp_all
    next
      case False
      then have "createOnly ident MESSAGE_KIND (EMessage m) (f s) =
          Inr (if find_row (f s) MESSAGE_KIND i \<noteq> None then (ExistingConflict, f s)
            else (Created i (Suc (revisionCounter (f s))), write_row MESSAGE_KIND i (EMessage m) (f s)))"
        using msg.create_eq [OF mail(2), of m] m(1) by simp
      with run created m False show thesis by (cases "find_row (f s) MESSAGE_KIND i") (auto intro: refused sent)
    qed
  qed
qed

text \<open>An attempt stops before the mark, or it has the message and goes on to mark the row.\<close>

lemma project_seal_path:
  assumes once: "sent_once n s" and x: "sn_intentId n \<noteq> []" and others: "leave_notice (sn_intentId n) others"
    and run: "project_seal_notice_with others pinned newId fp sha now w n s = (r, s')"
  obtains (stopped) e where "r = Inl e" "sent_once n s'" "\<forall>i. getWorkItem i s \<noteq> None \<longrightarrow> getWorkItem i s' \<noteq> None"
  | (reached) t m new where "sent_once n t" "\<forall>i. getWorkItem i s \<noteq> None \<longrightarrow> getWorkItem i t \<noteq> None"
      "m \<in> messages_about (sn_intentId n) t" "finish_seal pinned fp sha now w n m new (by_mark others t) = (r, s')"
proof -
  let ?x = "sn_intentId n" and ?q = "\<lambda>payload. holder_message ''hub'' (sn_exactHolderAgentId n) payload (sn_intentId n)"
  have ok: "hub_ok s" "mail_ok s" using once by (simp_all add: sent_once_def)
  show thesis
  proof (cases "fp AfterIntentRead (wi_id w) ?x")
    case True
    with run once show thesis by (intro stopped) (auto simp: project_seal_notice_with_def)
  next
    case start: False
    show thesis
    proof (cases "findByMigrationSourceId ?x s")
      case (Some m)
      then have "finish_seal pinned fp sha now w n m False (by_mark others s) = (r, s')"
        using run start by (simp add: project_seal_notice_with_def)
      moreover have "m \<in> messages_about ?x s" using find_source(1) [OF ok(2) Some] by (simp add: messages_about_def)
      ultimately show thesis using once by (intro reached) auto
    next
      case None
      show thesis
      proof (cases "fp BeforeMessagePersist (wi_id w) ?x \<or> (\<exists>e. noticePayload w n = Inl e)")
        case True
        with run start None have "(\<exists>e. r = Inl e) \<and> s' = s" by (auto simp: project_seal_notice_with_def split: if_splits)
        with once show thesis by (auto intro: stopped)
      next
        case False
        then obtain p where p: "noticePayload w n = Inr p" by (cases "noticePayload w n") auto
        let ?s = "by_look others s" and ?f = "by_create others"
        obtain c t where c: "createMessage_with ?f (newId s) now (?q p) ?s = (c, t)"
          by (cases "createMessage_with ?f (newId s) now (?q p) ?s")
        have look: "notice_left ?x s ?s" using others ok unfolding leave_notice_def leaves_notice_def by blast
        then have ok': "hub_ok ?s" "mail_ok ?s" by (simp_all add: notice_left_def)
        have "notice_left ?x ?s (?f ?s)" using others ok' unfolding leave_notice_def leaves_notice_def by blast
        with look have create: "notice_left ?x s (?f ?s)" by (rule left_trans)
        have none: "messages_about ?x s = {}" using None by (simp add: about_none [OF ok(2)])
        have okc: "hub_ok (?f ?s)" "mail_ok (?f ?s)" using create by (simp_all add: notice_left_def)
        have q: "cm_migrationSourceId (?q p) = Some ?x" "cm_target (?q p) = Some \<lparr>mt_role = None, mt_agentId = Some (sn_exactHolderAgentId n)\<rparr>"
          by (simp_all add: holder_message_def)
        from ok'(2) okc(2) leave_empty [OF look none] q(1) x c show thesis
        proof (cases rule: send_new)
          case (refused e)
          then have "r = Inl (MessageRefused e)" "s' = ?s \<or> s' = ?f ?s"
            using run start None False p c by (auto simp: project_seal_notice_with_def)
          moreover from this have "notice_left ?x s s'" using look create by auto
          ultimately show thesis using once_left [OF once] by (intro stopped) (auto simp: notice_left_def)
        next
          case (sent m)
          have fin: "finish_seal pinned fp sha now w n m True (by_mark others t) = (r, s')"
            using run start None False p c sent(1) by (simp add: project_seal_notice_with_def)
          have about: "messages_about ?x t = {m}"
            unfolding sent(2) about_write leave_empty [OF create none] by (simp add: sent(5))
          have "hub_ok t" unfolding sent(2) by (rule hub_ok_write_other [OF okc(1) mail_not_work(1)])
          moreover have "mail_ok t" unfolding sent(2) by (rule msg.ok_write [OF okc(2) refl sent(3)])
          ultimately have "sent_once n t" using sent(4) q(2) by (simp add: sent_once_def about names_holder_def)
          moreover have "\<forall>i. getWorkItem i s \<noteq> None \<longrightarrow> getWorkItem i t \<noteq> None"
            using create by (simp add: notice_left_def sent(2) getWorkItem_mail)
          ultimately show thesis using about fin by (intro reached) auto
        qed
      qed
    qed
  qed
qed

lemma project_seal_once:
  assumes once: "sent_once n s" and x: "sn_intentId n \<noteq> []" and others: "leave_notice (sn_intentId n) others"
    and run: "project_seal_notice_with others pinned newId fp sha now w n s = (r, s')"
  shows "sent_once n s'" and "\<forall>i. getWorkItem i s \<noteq> None \<longrightarrow> getWorkItem i s' \<noteq> None"
    and "r = Inr b \<Longrightarrow> getWorkItem (wi_id w) s \<noteq> None \<Longrightarrow> \<exists>m w'. messages_about (sn_intentId n) s' = {m} \<and> getWorkItem (wi_id w) s' = Some w' \<and>
      (\<exists>y \<in> set (wi_pendingFailedSealNotices w'). sn_intentId y = sn_intentId n \<and> sn_projectedMessageId y = Some (ms_id m))"
proof -
  let ?x = "sn_intentId n"
  let ?kept = "\<forall>i. getWorkItem i s \<noteq> None \<longrightarrow> getWorkItem i s' \<noteq> None"
  let ?done = "r = Inr b \<longrightarrow> getWorkItem (wi_id w) s \<noteq> None \<longrightarrow> (\<exists>m w'. messages_about ?x s' = {m} \<and> getWorkItem (wi_id w) s' = Some w' \<and>
      (\<exists>y \<in> set (wi_pendingFailedSealNotices w'). sn_intentId y = ?x \<and> sn_projectedMessageId y = Some (ms_id m)))"
  from once x others run have "sent_once n s' \<and> ?kept \<and> ?done"
  proof (cases rule: project_seal_path)
    case stopped
    then show ?thesis by simp
  next
    case (reached t m new)
    let ?t = "by_mark others t"
    have "hub_ok t" "mail_ok t" using reached(1) by (simp_all add: sent_once_def)
    then have wait: "notice_left ?x t ?t" using others unfolding leave_notice_def leaves_notice_def by blast
    then have ok: "hub_ok ?t" "mail_ok ?t" by (simp_all add: notice_left_def)
    note fin = finish_seal_done [OF ok(1) reached(4), of b]
    have left: "notice_left ?x t s'" by (rule left_trans [OF wait marked_left [OF ok fin [THEN conjunct1]]])
    have once': "sent_once n s'" by (rule once_left [OF reached(1) left])
    obtain m' where m': "m' \<in> messages_about ?x s'" "ms_id m' = ms_id m" using left reached(3) unfolding notice_left_def by blast
    have "messages_about ?x s' = {m'}" using once' m'(1) by (auto simp: sent_once_def)
    moreover have "getWorkItem i s \<noteq> None \<Longrightarrow> getWorkItem i ?t \<noteq> None" for i using reached(2) wait by (simp add: notice_left_def)
    moreover have ?kept using reached(2) left by (simp add: notice_left_def)
    ultimately have ?kept ?done using fin [THEN conjunct2] by (simp_all add: m'(2) [symmetric])
    then show ?thesis using once' by (intro conjI)
  qed
  then show "sent_once n s'" ?kept "r = Inr b \<Longrightarrow> getWorkItem (wi_id w) s \<noteq> None \<Longrightarrow> \<exists>m w'. messages_about (sn_intentId n) s' = {m} \<and>
      getWorkItem (wi_id w) s' = Some w' \<and>
      (\<exists>y \<in> set (wi_pendingFailedSealNotices w'). sn_intentId y = sn_intentId n \<and> sn_projectedMessageId y = Some (ms_id m))"
    by blast+
qed

end
