(* ===== verification/Work_Graph.thy ===== *)
theory Work_Graph
  imports Work_Policy Recall_Outcomes
begin

text \<open>
  The two graphs of the queue: who waits for whom to start, and who waits for whom to complete.  The search of an edit is exact, and
  creations, edits and blueprints keep both graphs free of cycles and of dangling edges.
\<close>

section \<open>The graphs\<close>

definition work_edges :: "edge_class \<Rightarrow> hub_store \<Rightarrow> (string \<times> string) set" where
  "work_edges c s = {(i, j). \<exists>w. getWorkItem i s = Some w \<and> j \<in> set (edges_of c w)}"

lemma work_edges_iff: "(i, j) \<in> work_edges c s \<longleftrightarrow> (\<exists>w. getWorkItem i s = Some w \<and> j \<in> set (edges_of c w))"
  by (simp add: work_edges_def)

lemma finite_work_edges: "finite (work_edges c s)"
proof -
  have "work_edges c s \<subseteq> (\<Union>i \<in> existing s. (\<lambda>j. (i, j)) ` (case getWorkItem i s of None \<Rightarrow> {} | Some w \<Rightarrow> set (edges_of c w)))"
    by (auto simp: work_edges_def existing_def split: option.split)
  then show ?thesis by (rule finite_subset) (auto simp: existing_finite split: option.split)
qed

lemma getWorkItem_at: "getWorkItem i s = map_option fst (work_at i s)"
  by (simp add: getWorkItem_def get_work_at)

lemma clone_edges [simp]: "edges_of c (cloneWorkItem w) = edges_of c w"
  by (cases c) (simp_all add: edges_of_def cloneWorkItem_def)

lemma getWorkItem_other: "k \<noteq> WORK_KIND \<Longrightarrow> getWorkItem j (write_row k i e s) = getWorkItem j s"
  by (simp add: getWorkItem_at work_at_write_other)

lemma work_edges_write:
  "work_edges c (write_row WORK_KIND i (EWork w) s) =
    {(a, b). if a = i then b \<in> set (edges_of c w) else (a, b) \<in> work_edges c s}"
  by (auto simp: work_edges_def)

section \<open>The search of an edit is exact\<close>

definition searched :: "edge_class \<Rightarrow> string \<Rightarrow> hub_store \<Rightarrow> string list \<Rightarrow> string list \<Rightarrow> bool" where
  "searched c workId s visited frontier \<longleftrightarrow> workId \<notin> set visited \<and>
     (\<forall>v \<in> set visited. \<forall>j. (v, j) \<in> work_edges c s \<longrightarrow> j \<in> set visited \<union> set frontier)"

lemma searched_path:
  assumes "searched c workId s visited frontier" "(v, x) \<in> (work_edges c s)\<^sup>*" "v \<in> set visited" "x \<notin> set visited"
  shows "\<exists>i \<in> set frontier. (i, x) \<in> (work_edges c s)\<^sup>*"
  using assms(2,3)
proof (induction rule: converse_rtrancl_induct)
  case base
  with assms(4) show ?case by simp
next
  case (step v j)
  then have "j \<in> set visited \<union> set frontier" using assms(1) by (auto simp: searched_def)
  with step show ?case by blast
qed

lemma search_back_exact:
  assumes "searched c workId s visited frontier"
  shows "search_back c workId s visited frontier \<longleftrightarrow> (\<exists>i \<in> set frontier. (i, workId) \<in> (work_edges c s)\<^sup>*)"
  using assms
proof (induction c workId s visited frontier rule: search_back.induct)
  case (1 c workId s visited)
  then show ?case by simp
next
  case (2 c workId s visited i frontier)
  let ?next = "case getWorkItem i s of None \<Rightarrow> frontier | Some w \<Rightarrow> rev (edges_of c w) @ frontier"
  consider (found) "i = workId" | (seen) "i \<noteq> workId" "i \<in> set visited" | (new) "i \<noteq> workId" "i \<notin> set visited" by blast
  then show ?case
  proof cases
    case found
    then show ?thesis by auto
  next
    case seen
    then have "searched c workId s visited frontier" using "2.prems" by (auto simp: searched_def)
    with "2.IH"(1) seen have "search_back c workId s visited frontier \<longleftrightarrow> (\<exists>i \<in> set frontier. (i, workId) \<in> (work_edges c s)\<^sup>*)" by blast
    moreover have "(i, workId) \<in> (work_edges c s)\<^sup>* \<Longrightarrow> \<exists>i \<in> set frontier. (i, workId) \<in> (work_edges c s)\<^sup>*"
      using searched_path [OF \<open>searched c workId s visited frontier\<close>] seen "2.prems" by (simp add: searched_def)
    ultimately show ?thesis using seen by auto
  next
    case new
    have succ: "j \<in> set ?next" if "(i, j) \<in> work_edges c s" for j using that by (auto simp: work_edges_iff)
    have "searched c workId s (i # visited) ?next"
      using "2.prems" new succ by (auto simp: searched_def split: option.splits)
    with "2.IH"(2) new have "search_back c workId s (i # visited) ?next \<longleftrightarrow> (\<exists>j \<in> set ?next. (j, workId) \<in> (work_edges c s)\<^sup>*)" by blast
    moreover have "(\<exists>j \<in> set ?next. (j, workId) \<in> (work_edges c s)\<^sup>*) \<longleftrightarrow>
        (\<exists>j \<in> set (i # frontier). (j, workId) \<in> (work_edges c s)\<^sup>*)"
    proof
      assume "\<exists>j \<in> set ?next. (j, workId) \<in> (work_edges c s)\<^sup>*"
      then obtain j where j: "j \<in> set ?next" "(j, workId) \<in> (work_edges c s)\<^sup>*" ..
      show "\<exists>j \<in> set (i # frontier). (j, workId) \<in> (work_edges c s)\<^sup>*"
      proof (cases "j \<in> set frontier")
        case False
        with j(1) have "(i, j) \<in> work_edges c s" by (auto simp: work_edges_iff split: option.splits)
        then have "(i, workId) \<in> (work_edges c s)\<^sup>*" using j(2) by (rule converse_rtrancl_into_rtrancl)
        then show ?thesis by simp
      qed (use j in auto)
    next
      assume "\<exists>j \<in> set (i # frontier). (j, workId) \<in> (work_edges c s)\<^sup>*"
      then consider j where "j \<in> set frontier" "(j, workId) \<in> (work_edges c s)\<^sup>*" | "(i, workId) \<in> (work_edges c s)\<^sup>*" by auto
      then show "\<exists>j \<in> set ?next. (j, workId) \<in> (work_edges c s)\<^sup>*"
      proof cases
        case 1
        then show ?thesis by (auto split: option.split)
      next
        case 2
        with new(1) obtain j where "(i, j) \<in> work_edges c s" "(j, workId) \<in> (work_edges c s)\<^sup>*"
          by (meson converse_rtranclE)
        with succ show ?thesis by blast
      qed
    qed
    ultimately show ?thesis using new by simp
  qed
qed

lemma appendWouldCycle_exact:
  "appendWouldCycle s workId appended c \<longleftrightarrow> (\<exists>a \<in> set appended. (a, workId) \<in> (work_edges c s)\<^sup>*)"
  unfolding appendWouldCycle_def
  using search_back_exact [of c workId s "[]" "rev appended"] by (simp add: searched_def)

section \<open>Edges added at one node\<close>

lemma path_to_source:
  assumes "(x, w) \<in> (E \<union> {w} \<times> A)\<^sup>*"
  shows "(x, w) \<in> E\<^sup>*"
  using assms
proof (induction rule: converse_rtrancl_induct)
  case (step x y)
  then show ?case by (auto intro: converse_rtrancl_into_rtrancl)
qed simp

lemma acyclic_fan:
  assumes "acyclic E" "finite A" "\<forall>a \<in> A. (a, w) \<notin> E\<^sup>*"
  shows "acyclic (E \<union> {w} \<times> A)"
  using assms(2,3)
proof (induction rule: finite_induct)
  case empty
  with assms(1) show ?case by simp
next
  case (insert a A)
  have "(a, w) \<notin> (E \<union> {w} \<times> A)\<^sup>*" using insert.prems path_to_source [of a w E A] by blast
  moreover have "E \<union> {w} \<times> insert a A = insert (w, a) (E \<union> {w} \<times> A)" by auto
  ultimately show ?case using insert by (simp only: acyclic_insert) simp
qed

section \<open>What every operation keeps\<close>

definition graph_ok :: "hub_store \<Rightarrow> bool" where
  "graph_ok s \<longleftrightarrow> hub_ok s \<and> (\<forall>c. acyclic (work_edges c s)) \<and>
     (\<forall>c i j. (i, j) \<in> work_edges c s \<longrightarrow> getWorkItem j s \<noteq> None)"

text \<open>A new row with edges to existing rows closes no cycle: nothing points to it yet.\<close>

lemma graph_create:
  assumes ok: "graph_ok s" and fresh: "getWorkItem i s = None" and w: "wi_id w = i" "i \<noteq> []"
    and edges: "\<forall>c. \<forall>j \<in> set (edges_of c w). getWorkItem j s \<noteq> None"
  shows "graph_ok (write_row WORK_KIND i (EWork w) s)"
proof -
  let ?s = "write_row WORK_KIND i (EWork w) s"
  have no_out: "(i, j) \<notin> work_edges c s" for c j using fresh by (simp add: work_edges_iff)
  have new: "work_edges c ?s = work_edges c s \<union> {i} \<times> set (edges_of c w)" for c
    using no_out by (auto simp: work_edges_write)
  have no_in: "(j, i) \<notin> work_edges c s" for c j using ok fresh unfolding graph_ok_def by blast
  have "(a, i) \<notin> (work_edges c s)\<^sup>*" if "a \<in> set (edges_of c w)" for a c
  proof
    assume "(a, i) \<in> (work_edges c s)\<^sup>*"
    then show False
    proof (cases rule: rtranclE)
      case base
      with that edges fresh show False by blast
    next
      case (step y)
      with no_in show False by blast
    qed
  qed
  then have "acyclic (work_edges c ?s)" for c
    unfolding new using ok by (intro acyclic_fan) (auto simp: graph_ok_def)
  moreover have "getWorkItem j ?s \<noteq> None" if "(a, j) \<in> work_edges c ?s" for a j c
    using that ok edges unfolding new by (auto simp: graph_ok_def split: if_splits)
  moreover have "hub_ok ?s" using ok w by (intro hub_ok_write_work) (auto simp: graph_ok_def)
  ultimately show ?thesis by (simp add: graph_ok_def)
qed

text \<open>An edit that passed the checks closes no cycle.\<close>

lemma graph_edit:
  assumes ok: "graph_ok s" and row: "getWorkItem i s = Some w" and w': "wi_id w' = i" "i \<noteq> []"
    and edges: "\<forall>c. set (edges_of c w') \<subseteq> set (edges_of c w) \<union> A c" and fin: "\<forall>c. finite (A c)"
    and target: "\<forall>c. \<forall>a \<in> A c. getWorkItem a s \<noteq> None \<and> (a, i) \<notin> (work_edges c s)\<^sup>*"
  shows "graph_ok (write_row WORK_KIND i (EWork w') s)"
proof -
  let ?s = "write_row WORK_KIND i (EWork w') s"
  have sub: "work_edges c ?s \<subseteq> work_edges c s \<union> {i} \<times> A c" for c
  proof (rule subrelI)
    fix a b assume "(a, b) \<in> work_edges c ?s"
    with edges row show "(a, b) \<in> work_edges c s \<union> {i} \<times> A c"
      by (cases "a = i") (auto simp: work_edges_write work_edges_iff)
  qed
  have "acyclic (work_edges c ?s)" for c
    using ok target fin by (intro acyclic_subset [OF acyclic_fan sub]) (auto simp: graph_ok_def)
  moreover have "getWorkItem j ?s \<noteq> None" if "(a, j) \<in> work_edges c ?s" for a j c
    using that sub [of c] ok target by (auto simp: graph_ok_def)
  moreover have "hub_ok ?s" using ok w' by (intro hub_ok_write_work) (auto simp: graph_ok_def)
  ultimately show ?thesis by (simp add: graph_ok_def)
qed

lemma graph_same:
  assumes "graph_ok s" "hub_ok s'"
    "\<forall>i. map_option (\<lambda>w. (wi_dependsOn w, wi_completionDependsOn w)) (getWorkItem i s') =
         map_option (\<lambda>w. (wi_dependsOn w, wi_completionDependsOn w)) (getWorkItem i s)"
  shows "graph_ok s'"
proof -
  have none: "getWorkItem i s' = None \<longleftrightarrow> getWorkItem i s = None" for i
    using assms(3) [rule_format, of i] by (cases "getWorkItem i s'"; cases "getWorkItem i s") simp_all
  have "work_edges c s' = work_edges c s" for c
  proof (rule set_eqI)
    fix x :: "string \<times> string"
    obtain i j where x: "x = (i, j)" by (cases x)
    show "x \<in> work_edges c s' \<longleftrightarrow> x \<in> work_edges c s"
    proof (cases "getWorkItem i s")
      case None
      then have "getWorkItem i s' = None" by (simp add: none)
      with None show ?thesis by (simp add: x work_edges_iff)
    next
      case (Some w)
      then obtain w' where "getWorkItem i s' = Some w'" using none [of i] by auto
      with Some show ?thesis using assms(3) [rule_format, of i] by (cases c) (simp_all add: x work_edges_iff edges_of_def)
    qed
  qed
  with assms none show ?thesis by (simp add: graph_ok_def)
qed

lemma graph_other: "graph_ok s \<Longrightarrow> k \<noteq> WORK_KIND \<Longrightarrow> graph_ok (write_row k i e s)"
  by (rule graph_same) (auto simp: graph_ok_def getWorkItem_other hub_ok_write_other)

end
