(* ===== verification/Blueprint_Order.thy ===== *)
theory Blueprint_Order
  imports Blueprints
begin

text \<open>
  The order of creation of a blueprint: the loop over the queue of ready nodes needs no more rounds than there are nodes, lists
  dependencies first, and misses a node exactly when the union of both edge classes has a cycle.
\<close>

section \<open>The graph the loop works on\<close>

definition dep_edges :: "blueprint_node list \<Rightarrow> (string \<times> string) set" where
  "dep_edges nodes = {(t, bn_localId n) | t n. n \<in> set nodes \<and> t \<in> set (union_targets n)}"

definition closed_blueprint :: "blueprint_node list \<Rightarrow> bool" where
  "closed_blueprint nodes \<longleftrightarrow> distinct (map bn_localId nodes) \<and>
     (\<forall>n \<in> set nodes. set (union_targets n) \<subseteq> set (map bn_localId nodes))"

lemma dep_edges_simps: "dep_edges [] = {}" "dep_edges (ns @ [n]) = dep_edges ns \<union> (\<lambda>t. (t, bn_localId n)) ` set (union_targets n)"
  by (auto simp: dep_edges_def)

lemma dep_edges_target: "(t, l) \<in> dep_edges ns \<Longrightarrow> l \<in> set (map bn_localId ns)"
  by (auto simp: dep_edges_def)

lemma dep_edges_source: "closed_blueprint ns \<Longrightarrow> (t, l) \<in> dep_edges ns \<Longrightarrow> t \<in> set (map bn_localId ns)"
  by (fastforce simp: dep_edges_def closed_blueprint_def)

lemma finite_dep_edges: "finite (dep_edges ns)"
proof -
  have "dep_edges ns = (\<Union>n \<in> set ns. (\<lambda>t. (t, bn_localId n)) ` set (union_targets n))" by (auto simp: dep_edges_def)
  then show ?thesis by simp
qed

lemma add_edges:
  "distinct ts \<Longrightarrow> fold (add_edge l) ts (deg, out) =
    (deg(l := deg l + int (length ts)), \<lambda>t. out t @ (if t \<in> set ts then [l] else []))"
  by (induction ts arbitrary: deg out) (auto simp: add_edge_def fun_eq_iff)

lemma distinct_union_targets [simp]: "distinct (union_targets n)"
  by (simp add: union_targets_def)

lemma union_graph_edges:
  assumes "distinct (map bn_localId ns)"
  shows "fst (union_graph ns) l = int (card {t. (t, l) \<in> dep_edges ns})"
    "distinct (snd (union_graph ns) t)" "set (snd (union_graph ns) t) = {l. (t, l) \<in> dep_edges ns}"
proof -
  have "(\<forall>l. fst (union_graph ns) l = int (card {t. (t, l) \<in> dep_edges ns})) \<and>
    (\<forall>t. distinct (snd (union_graph ns) t) \<and> set (snd (union_graph ns) t) = {l. (t, l) \<in> dep_edges ns})"
    using assms
  proof (induction ns rule: rev_induct)
    case Nil
    then show ?case by (simp add: union_graph_def dep_edges_simps)
  next
    case (snoc n ns)
    let ?l = "bn_localId n" and ?g = "union_graph ns"
    have new: "(t, ?l) \<notin> dep_edges ns" for t using snoc.prems dep_edges_target [of t ?l ns] by auto
    have g: "union_graph (ns @ [n]) = ((fst ?g)(?l := fst ?g ?l + int (length (union_targets n))),
        \<lambda>t. snd ?g t @ (if t \<in> set (union_targets n) then [?l] else []))"
      using add_edges [of "union_targets n" ?l "fst ?g" "snd ?g"] by (simp add: union_graph_def)
    have "{t. (t, l) \<in> dep_edges (ns @ [n])} = (if l = ?l then set (union_targets n) else {t. (t, l) \<in> dep_edges ns})" for l
      using new by (auto simp: dep_edges_simps)
    moreover have "{l. (t, l) \<in> dep_edges (ns @ [n])} = {l. (t, l) \<in> dep_edges ns} \<union> (if t \<in> set (union_targets n) then {?l} else {})" for t
      by (auto simp: dep_edges_simps)
    ultimately show ?case
      using snoc.IH snoc.prems new by (auto simp: g distinct_card)
  qed
  then show "fst (union_graph ns) l = int (card {t. (t, l) \<in> dep_edges ns})"
    "distinct (snd (union_graph ns) t)" "set (snd (union_graph ns) t) = {l. (t, l) \<in> dep_edges ns}" by auto
qed

section \<open>The loop\<close>

lemma release_dependents:
  "distinct ds \<Longrightarrow> fold release_dependent ds (deg, queue) =
    (\<lambda>d. if d \<in> set ds then deg d - 1 else deg d, queue @ filter (\<lambda>d. deg d = 1) ds)"
proof (induction ds arbitrary: deg queue)
  case Nil
  then show ?case by simp
next
  case (Cons d ds)
  have same: "filter (\<lambda>e. (deg(d := deg d - 1)) e = 1) ds = filter (\<lambda>e. deg e = 1) ds"
    by (rule filter_cong) (use Cons.prems in auto)
  have "(\<lambda>e. if e \<in> set ds then (deg(d := deg d - 1)) e - 1 else (deg(d := deg d - 1)) e) =
      (\<lambda>e. if e \<in> set (d # ds) then deg e - 1 else deg e)"
    using Cons.prems by (auto simp: fun_eq_iff)
  with Cons same show ?case by (simp add: release_dependent_def Let_def)
qed

definition deps_first :: "(string \<times> string) set \<Rightarrow> string list \<Rightarrow> bool" where
  "deps_first E order \<longleftrightarrow> (\<forall>xs l ys t. order = xs @ l # ys \<and> (t, l) \<in> E \<longrightarrow> t \<in> set xs)"

lemma deps_first_snoc: "deps_first E order \<Longrightarrow> (\<forall>t. (t, i) \<in> E \<longrightarrow> t \<in> set order) \<Longrightarrow> deps_first E (order @ [i])"
  unfolding deps_first_def
proof (intro allI impI, elim conjE)
  fix xs l ys t
  assume first: "\<forall>xs l ys t. order = xs @ l # ys \<and> (t, l) \<in> E \<longrightarrow> t \<in> set xs" and i: "\<forall>t. (t, i) \<in> E \<longrightarrow> t \<in> set order"
    and eq: "order @ [i] = xs @ l # ys" and t: "(t, l) \<in> E"
  show "t \<in> set xs"
  proof (cases ys rule: rev_cases)
    case Nil
    with eq i t show ?thesis by simp
  next
    case (snoc zs z)
    with eq have "order = xs @ l # zs" by simp
    with first t show ?thesis by blast
  qed
qed

definition kahn_inv :: "(string \<times> string) set \<Rightarrow> string set \<Rightarrow> degrees \<Rightarrow> string list \<Rightarrow> string list \<Rightarrow> bool" where
  "kahn_inv E I deg order queue \<longleftrightarrow> distinct (order @ queue) \<and> set (order @ queue) \<subseteq> I \<and>
     (\<forall>l \<in> I. deg l = int (card {t. (t, l) \<in> E \<and> t \<notin> set order})) \<and>
     (\<forall>l \<in> I. l \<in> set (order @ queue) \<longleftrightarrow> deg l = 0) \<and> deps_first E order"

lemma kahn_inv_round:
  assumes inv: "kahn_inv E I deg order (i # queue)" and E: "finite E" "\<forall>(t, l) \<in> E. l \<in> I"
    and out: "distinct succs" "set succs = {l. (i, l) \<in> E}"
    and g: "g = fold release_dependent succs (deg, queue)"
  shows "kahn_inv E I (fst g) (order @ [i]) (snd g)"
proof -
  have i: "i \<in> I" "i \<notin> set order" "deg i = 0" and deg: "\<forall>l \<in> I. deg l = int (card {t. (t, l) \<in> E \<and> t \<notin> set order})"
    and zero: "\<forall>l \<in> I. l \<in> set (order @ i # queue) \<longleftrightarrow> deg l = 0"
    using inv by (auto simp: kahn_inv_def)
  have fin: "finite {t. (t, l) \<in> E \<and> t \<notin> set order}" for l
    by (rule finite_subset [OF _ finite_imageI [OF E(1), of fst]]) force
  have split: "{t. (t, l) \<in> E \<and> t \<notin> set (order @ [i])} = {t. (t, l) \<in> E \<and> t \<notin> set order} - {i}" for l by auto
  have g': "g = (\<lambda>d. if d \<in> set succs then deg d - 1 else deg d, queue @ filter (\<lambda>d. deg d = 1) succs)"
    unfolding g by (rule release_dependents [OF out(1)])
  have card: "int (card {t. (t, l) \<in> E \<and> t \<notin> set (order @ [i])}) = fst g l" if "l \<in> I" for l
  proof (cases "(i, l) \<in> E")
    case True
    then have mem: "i \<in> {t. (t, l) \<in> E \<and> t \<notin> set order}" using i(2) by simp
    have "card ({t. (t, l) \<in> E \<and> t \<notin> set order} - {i}) = card {t. (t, l) \<in> E \<and> t \<notin> set order} - 1"
      by (rule card_Diff_singleton [OF mem])
    moreover have "0 < card {t. (t, l) \<in> E \<and> t \<notin> set order}" using fin [of l] mem card_gt_0_iff by blast
    ultimately show ?thesis unfolding split using deg that True by (simp add: g' out(2) of_nat_diff)
  next
    case False
    then show ?thesis unfolding split using deg that by (simp add: g' out(2))
  qed
  have succ: "d \<in> I" if "d \<in> set succs" for d using that out(2) E(2) by auto
  have pos: "0 < deg d" if "d \<in> set succs" for d
  proof -
    have "i \<in> {t. (t, d) \<in> E \<and> t \<notin> set order}" using that out(2) i(2) by simp
    then have "0 < card {t. (t, d) \<in> E \<and> t \<notin> set order}" using fin [of d] card_gt_0_iff by blast
    then show ?thesis using deg succ [OF that] by simp
  qed
  have "\<forall>t. (t, i) \<in> E \<longrightarrow> t \<in> set order"
  proof -
    have "{t. (t, i) \<in> E \<and> t \<notin> set order} = {}" using deg i(1,3) fin [of i] by auto
    then show ?thesis by blast
  qed
  then have first: "deps_first E (order @ [i])" using inv deps_first_snoc by (simp add: kahn_inv_def)
  have fresh: "d \<notin> set (order @ i # queue)" if "d \<in> set succs" for d
    using zero succ [OF that] pos [OF that] by auto
  have "distinct ((order @ [i]) @ snd g)"
    using inv out(1) fresh by (simp add: kahn_inv_def g') blast
  moreover have "set ((order @ [i]) @ snd g) \<subseteq> I"
    using inv succ by (auto simp: kahn_inv_def g')
  moreover have "\<forall>l \<in> I. l \<in> set ((order @ [i]) @ snd g) \<longleftrightarrow> fst g l = 0"
  proof
    fix l assume l: "l \<in> I"
    show "l \<in> set ((order @ [i]) @ snd g) \<longleftrightarrow> fst g l = 0"
    proof (cases "l \<in> set succs")
      case True
      with fresh [OF True] show ?thesis by (simp add: g')
    next
      case False
      with zero l show ?thesis by (simp add: g')
    qed
  qed
  ultimately show ?thesis using card first by (simp add: kahn_inv_def)
qed

text \<open>A round for every node is enough: the loop always ends with an empty queue.\<close>

lemma kahn_final:
  assumes "kahn_inv E I deg order queue" "finite E" "\<forall>(t, l) \<in> E. l \<in> I" "finite I"
    and out: "\<forall>i. distinct (out i) \<and> set (out i) = {l. (i, l) \<in> E}" and "card I \<le> n + length order"
  shows "\<exists>deg'. kahn_inv E I deg' (kahn n out deg order queue) []"
  using assms(1,6)
proof (induction n arbitrary: deg order queue)
  case 0
  have "card (set (order @ queue)) \<le> card I" using 0 assms(4) by (intro card_mono) (auto simp: kahn_inv_def)
  moreover have "card (set (order @ queue)) = length (order @ queue)" using 0 by (intro distinct_card) (simp add: kahn_inv_def)
  ultimately have "length order + length queue \<le> length order" using 0(2) unfolding length_append by linarith
  then have "length queue = 0" by linarith
  then have "queue = []" by simp
  with 0 show ?case by auto
next
  case (Suc n)
  show ?case
  proof (cases queue)
    case Nil
    with Suc.prems show ?thesis by auto
  next
    case (Cons i rest)
    let ?g = "fold release_dependent (out i) (deg, rest)"
    have "kahn_inv E I (fst ?g) (order @ [i]) (snd ?g)"
      using kahn_inv_round [OF _ assms(2,3)] Suc.prems(1) out unfolding Cons by blast
    from Suc.IH [OF this] Suc.prems(2) show ?thesis by (simp add: Cons Let_def)
  qed
qed

section \<open>What the sort answers\<close>

lemma deps_first_acyclic:
  assumes "deps_first E order" "distinct order" "\<forall>(t, l) \<in> E. l \<in> set order"
  shows "acyclic E"
proof (rule wf_acyclic, rule wf_subset [OF wf_measure])
  show "E \<subseteq> measure (\<lambda>l. length (takeWhile (\<lambda>x. x \<noteq> l) order))"
  proof (rule subrelI)
    fix t l assume e: "(t, l) \<in> E"
    with assms(3) obtain xs ys where split: "order = xs @ l # ys" by (metis case_prodD split_list)
    with assms(1) e have t: "t \<in> set xs" unfolding deps_first_def by blast
    have "l \<notin> set xs" using assms(2) split by simp
    then have "takeWhile (\<lambda>x. x \<noteq> l) order = xs" by (simp add: split takeWhile_tail) (metis takeWhile_eq_all_conv)
    moreover have "length (takeWhile (\<lambda>x. x \<noteq> t) order) < length xs"
    proof -
      obtain us vs where "xs = us @ t # vs" "t \<notin> set us" using split_list_first [OF t] by blast
      then show ?thesis by (simp add: split takeWhile_append)
    qed
    ultimately show "(t, l) \<in> measure (\<lambda>l. length (takeWhile (\<lambda>x. x \<noteq> l) order))" by simp
  qed
qed

lemma sorted_inv:
  assumes "closed_blueprint nodes"
  obtains deg order where "kahn_inv (dep_edges nodes) (set (map bn_localId nodes)) deg order []"
    "unionTopoSort nodes = (if length order = length nodes then Some order else None)"
proof -
  let ?ids = "map bn_localId nodes" and ?g = "union_graph nodes" and ?E = "dep_edges nodes"
  have ids: "distinct ?ids" using assms by (simp add: closed_blueprint_def)
  have start: "kahn_inv ?E (set ?ids) (fst ?g) [] (filter (\<lambda>i. fst ?g i = 0) ?ids)"
    using ids union_graph_edges(1) [OF ids] by (auto simp: kahn_inv_def deps_first_def)
  have E: "\<forall>(t, l) \<in> ?E. l \<in> set ?ids" using dep_edges_target by blast
  have "card (set ?ids) \<le> length ?ids + length ([] :: string list)" using card_length [of ?ids] by simp
  moreover have "\<forall>i. distinct (snd ?g i) \<and> set (snd ?g i) = {l. (i, l) \<in> ?E}" using union_graph_edges(2,3) [OF ids] by blast
  ultimately obtain deg where "kahn_inv ?E (set ?ids) deg (kahn (length ?ids) (snd ?g) (fst ?g) [] (filter (\<lambda>i. fst ?g i = 0) ?ids)) []"
    using kahn_final [OF start finite_dep_edges E finite_set] by blast
  from that [OF this] show thesis by (simp add: unionTopoSort_def Let_def)
qed

text \<open>A set in which every member has a predecessor in the set is not acyclic.\<close>

lemma no_first_cyclic:
  assumes "finite E" "R \<noteq> {}" "\<forall>l \<in> R. \<exists>t \<in> R. (t, l) \<in> E"
  shows "\<not> acyclic E"
proof
  assume "acyclic E"
  with assms(1) have "wf E" by (rule finite_acyclic_wf)
  then obtain z where "z \<in> R" "\<forall>y. (y, z) \<in> E \<longrightarrow> y \<notin> R" using assms(2) unfolding wf_eq_minimal by blast
  with assms(3) show False by blast
qed

lemma sort_correct:
  assumes "distinct (map bn_localId nodes)"
    "\<forall>n \<in> set nodes. set (or_empty (bn_dependsOn n)) \<union> set (or_empty (bn_completionDependsOn n)) \<subseteq> set (map bn_localId nodes)"
  shows "(unionTopoSort nodes = None \<longleftrightarrow> \<not> acyclic (dep_edges nodes)) \<and>
    (\<forall>order. unionTopoSort nodes = Some order \<longrightarrow> set order = set (map bn_localId nodes) \<and> length order = length nodes \<and>
      (\<forall>xs l ys t. order = xs @ l # ys \<and> (t, l) \<in> dep_edges nodes \<longrightarrow> t \<in> set xs))"
proof -
  let ?I = "set (map bn_localId nodes)" and ?E = "dep_edges nodes"
  have closed: "closed_blueprint nodes" using assms by (auto simp: closed_blueprint_def union_targets_def)
  obtain deg order where inv: "kahn_inv ?E ?I deg order []"
    and sort: "unionTopoSort nodes = (if length order = length nodes then Some order else None)"
    by (rule sorted_inv [OF closed])
  have order: "distinct order" "set order \<subseteq> ?I" "deps_first ?E order" using inv by (simp_all add: kahn_inv_def)
  have len: "card ?I = length nodes" using distinct_card [OF assms(1)] by simp
  show ?thesis
  proof (cases "length order = length nodes")
    case True
    then have all: "set order = ?I" using order(1,2) len by (intro card_subset_eq) (simp_all add: distinct_card)
    then have "acyclic ?E" using dep_edges_target by (intro deps_first_acyclic [OF order(3,1)]) blast
    with sort True all order(3) show ?thesis by (auto simp: deps_first_def)
  next
    case False
    let ?R = "?I - set order"
    have "?R \<noteq> {}" using order(1,2) len False distinct_card [of order] by (metis Diff_eq_empty_iff subset_antisym)
    moreover have "\<forall>l \<in> ?R. \<exists>t \<in> ?R. (t, l) \<in> ?E"
    proof
      fix l assume l: "l \<in> ?R"
      then have "card {t. (t, l) \<in> ?E \<and> t \<notin> set order} \<noteq> 0" using inv by (auto simp: kahn_inv_def)
      then obtain t where "(t, l) \<in> ?E" "t \<notin> set order" by (metis (mono_tags, lifting) card.empty empty_Collect_eq)
      with dep_edges_source [OF closed] show "\<exists>t \<in> ?R. (t, l) \<in> ?E" by blast
    qed
    ultimately have "\<not> acyclic ?E" by (rule no_first_cyclic [OF finite_dep_edges])
    with sort False show ?thesis by simp
  qed
qed

end
