(* ===== verification/Policy_Properties.thy ===== *)
theory Policy_Properties
  imports Work_Graph Blueprint_Order
begin

text \<open>What the tools over the queue do: creations, edits and expansions, and what they keep of the two graphs.\<close>

section \<open>What others keep\<close>

text \<open>Nobody deletes a row; and nobody adds an edge to a row that is there (new rows may come with edges of their own).\<close>

definition rows_kept :: "hub_store \<Rightarrow> hub_store \<Rightarrow> bool" where
  "rows_kept s t \<longleftrightarrow> (\<forall>i. getWorkItem i s \<noteq> None \<longrightarrow> getWorkItem i t \<noteq> None)"

definition edges_kept :: "hub_store \<Rightarrow> hub_store \<Rightarrow> bool" where
  "edges_kept s t \<longleftrightarrow> (\<forall>i w. getWorkItem i s = Some w \<longrightarrow>
     (\<exists>w'. getWorkItem i t = Some w' \<and> (\<forall>c. set (edges_of c w') = set (edges_of c w))))"

lemma kept_refl [simp]: "rows_kept s s" "edges_kept s s"
  by (simp_all add: rows_kept_def edges_kept_def)

lemma edges_rows: "edges_kept s t \<Longrightarrow> rows_kept s t"
  unfolding edges_kept_def rows_kept_def by fastforce

text \<open>A path from a row that was there runs over rows that were there.\<close>

lemma kept_path:
  assumes "graph_ok s" "edges_kept s t" "(a, i) \<in> (work_edges c t)\<^sup>*" "getWorkItem a s \<noteq> None"
  shows "(a, i) \<in> (work_edges c s)\<^sup>*"
  using assms(3,4)
proof (induction rule: converse_rtrancl_induct)
  case (step a b)
  then obtain w where w: "getWorkItem a s = Some w" by blast
  with assms(2) step.hyps(1) have edge: "(a, b) \<in> work_edges c s"
    unfolding edges_kept_def work_edges_iff by fastforce
  with assms(1) have "getWorkItem b s \<noteq> None" unfolding graph_ok_def by blast
  with edge step.IH show ?case by (meson converse_rtrancl_into_rtrancl)
qed simp

section \<open>Creation\<close>

lemma create_effect:
  assumes ok: "hub_ok s" and run: "createWorkItem now input s = (r, s')"
  obtains (refused) e where "r = Inl e" "s' = s \<or> (\<exists>e. s' = write_row COUNTER_KIND COUNTER_ID e s)"
  | (created) n e where "getWorkItem (work_id n) s = None" "r = Inr (cloneWorkItem (born (work_id n) now input))"
      "s' = write_row WORK_KIND (work_id n) (EWork (born (work_id n) now input)) (write_row COUNTER_KIND COUNTER_ID e s)"
proof -
  have head: "get_head (write_row COUNTER_KIND i e s) = get_head s" for i e and s :: hub_store
    by (simp add: get_head_def getWithRevision_def store_simps COUNTER_KIND_def HEAD_KIND_def)
  obtain n e where next_eq: "next_id WORK_ITEM_COUNTER s = (Inr n, write_row COUNTER_KIND COUNTER_ID e s)"
    using next_id_quiet [OF hub_ok_plain [OF ok]] by blast
  let ?s1 = "write_row COUNTER_KIND COUNTER_ID e s" and ?w = "born (work_id n) now input"
  have ok1: "hub_ok ?s1" using ok by (simp add: hub_ok_write_other)
  have make: "createOnly ident WORK_KIND (EWork ?w) ?s1 =
      Inr (if find_row ?s1 WORK_KIND (work_id n) \<noteq> None then (ExistingConflict, ?s1)
           else (Created (work_id n) (Suc (revisionCounter ?s1)), write_row WORK_KIND (work_id n) (EWork ?w) ?s1))"
    using createOnly_work [OF hub_ok_plain [OF ok1], of ?w] by simp
  have keeps: "\<forall>p r s'. create_under now input p s = (r, s') \<longrightarrow> get_head s' = get_head s"
    by (auto simp: create_under_def next_eq make Let_def head split: sum.splits if_splits)
  from run [unfolded createWorkItem_def] keeps show thesis
  proof (cases rule: fence_cases)
    case (unpinned e)
    then show ?thesis by (intro refused) auto
  next
    case (run p)
    show ?thesis
    proof (cases "assertCreateAllowed p")
      case (Inl e)
      with run show ?thesis by (intro refused) (auto simp: create_under_def)
    next
      case (Inr u)
      show ?thesis
      proof (cases "find_row ?s1 WORK_KIND (work_id n)")
        case None
        then have "find_row s WORK_KIND (work_id n) = None" by (simp add: store_simps)
        then have "getWorkItem (work_id n) s = None" using work_at_None [OF ok] by (simp add: getWorkItem_at)
        with run Inr None show ?thesis by (intro created) (auto simp: create_under_def next_eq make Let_def)
      next
        case (Some x)
        with run Inr show ?thesis by (intro refused) (auto simp: create_under_def next_eq make Let_def)
      qed
    qed
  qed
qed

lemma born_edges: "edges_of c (born i now input) =
    (case c of DependsOn \<Rightarrow> or_empty (ci_dependsOn input) | CompletionDependsOn \<Rightarrow> or_empty (ci_completionDependsOn input))"
  "edges_of c (blueprint_row i runId p now input) = edges_of c (born i now input)"
  by (cases c; simp add: edges_of_def born_def blueprint_row_def)+

lemma create_work_graph:
  assumes before: "graph_ok s" and ok: "graph_ok (others s)" "rows_kept s (others s)"
  shows "graph_ok (snd (snd (create_work_with others refuses now caller input s)))"
proof -
  let ?input = "input\<lparr>ci_nodeConfig := None, ci_createdBy := Some caller\<rparr>"
  have hub: "hub_ok (others s)" using ok by (simp add: graph_ok_def)
  obtain r s' where run: "createWorkItem now ?input (others s) = (r, s')" by (cases "createWorkItem now ?input (others s)")
  have "graph_ok s'" if deps: "\<forall>j \<in> set (or_empty (ci_dependsOn input)) \<union> set (or_empty (ci_completionDependsOn input)). getWorkItem j s \<noteq> None"
    using hub run
  proof (cases rule: create_effect)
    case (refused e)
    then show ?thesis using ok(1) graph_other by auto
  next
    case (created n e)
    have "graph_ok (write_row COUNTER_KIND COUNTER_ID e (others s))" using ok(1) by (simp add: graph_other)
    moreover have "\<forall>j \<in> set (or_empty (ci_dependsOn input)) \<union> set (or_empty (ci_completionDependsOn input)). getWorkItem j (others s) \<noteq> None"
      using deps ok(2) by (auto simp: rows_kept_def)
    ultimately show ?thesis unfolding created(3)
      by (intro graph_create) (use created(1) in \<open>auto simp: getWorkItem_other born_edges split: edge_class.split\<close>)
  qed
  then show ?thesis
    using before run by (auto simp: create_work_with_def list_ex_iff split: sum.split)
qed

section \<open>Edits\<close>

lemma update_effect:
  assumes ok: "hub_ok s" and run: "updateWorkItem sha now i caller m h s = (r, s')"
  obtains (refused) e where "r = Inl e" "s' = s"
  | (updated) p w rv w' where "read_pin s = Inr p" "work_at i s = Some (w, rv)" "update_row sha now p caller m False h w = Inr w'"
      "r = Inr (w, cloneWorkItem w')" "s' = write_row WORK_KIND i (EWork w') s"
proof -
  have mutation: "(\<exists>e. applyWorkItemMutation sha now i caller m False h p s = (Inl e, s)) \<or>
      (\<exists>w rv w'. work_at i s = Some (w, rv) \<and> update_row sha now p caller m False h w = Inr w' \<and>
        applyWorkItemMutation sha now i caller m False h p s = (Inr (w, cloneWorkItem w'), write_row WORK_KIND i (EWork w') s))" for p
  proof (cases "work_at i s")
    case None
    then show ?thesis by (auto simp: applyWorkItemMutation_def getWithRevision_def work_at_None [OF ok])
  next
    case (Some wr)
    obtain x w where x: "find_row s WORK_KIND i = Some x" "row_data x = EWork w" using Some by (cases wr) (auto simp: work_at_row)
    have i: "wi_id w = i" "i \<noteq> []" using hub_ok_row [OF ok x(1)] x(2) by auto
    show ?thesis
    proof (cases "update_row sha now p caller m False h (cloneWorkItem w)")
      case (Inl e)
      with x show ?thesis by (auto simp: applyWorkItemMutation_def getWithRevision_def)
    next
      case (Inr w')
      then have "wi_id w' = i" using row_step_id [OF rs_update [OF Inr]] i by simp
      then have "putIfMatch ident WORK_KIND (EWork w') (row_rv x) s =
          Inr (Written (Suc (revisionCounter s)), write_row WORK_KIND i (EWork w') s)"
        using putIfMatch_found [OF hub_ok_plain [OF ok] _ i(2) _ x(1), of ident "EWork w'"] by simp
      with x Inr show ?thesis by (auto simp: applyWorkItemMutation_def getWithRevision_def work_at_def)
    qed
  qed
  have head: "\<forall>p r s'. applyWorkItemMutation sha now i caller m False h p s = (r, s') \<longrightarrow> get_head s' = get_head s"
  proof (intro allI impI)
    fix p r s' assume a: "applyWorkItemMutation sha now i caller m False h p s = (r, s')"
    from mutation [of p] show "get_head s' = get_head s" by (elim disjE exE conjE) (simp_all add: a)
  qed
  from run [unfolded updateWorkItem_def] head show thesis
  proof (cases rule: fence_cases)
    case (unpinned e)
    then show ?thesis by (rule refused)
  next
    case (run p)
    from mutation [of p] show ?thesis by (elim disjE exE conjE) (use run refused updated in auto)
  qed
qed

lemma updated_edges:
  assumes "update_row sha now p caller m seam h w = Inr w'"
  shows "set (edges_of c w') = set (edges_of c w) \<union>
    set (case c of DependsOn \<Rightarrow> us_appendDependsOn m | CompletionDependsOn \<Rightarrow> us_appendCompletionDependsOn m)"
proof -
  from assms obtain hist where "w' = (apply_update now m w)\<lparr>wi_recallHistory := hist\<rparr>"
    by (auto simp: row_iff dest!: sanction_Inr)
  then show ?thesis by (cases c) (auto simp: edges_of_def apply_update_def)
qed

lemma logEntry_graph: "graph_ok s \<Longrightarrow> graph_ok (logEntry action rel s)"
proof -
  assume ok: "graph_ok s"
  then have "plain_store s" by (simp add: graph_ok_def hub_ok_def)
  then obtain e where "logEntry action rel s = write_row COUNTER_KIND COUNTER_ID e s \<or>
      (\<exists>j a. logEntry action rel s = write_row AUDIT_KIND j a (write_row COUNTER_KIND COUNTER_ID e s))"
    by (rule logEntry_writes)
  moreover have "AUDIT_KIND \<noteq> WORK_KIND" by (simp add: AUDIT_KIND_def WORK_KIND_def)
  ultimately show ?thesis using ok by (auto simp: graph_other)
qed

lemma update_work_graph:
  assumes before: "graph_ok s" and graph: "graph_ok (later (others s))" and kept: "edges_kept s (later (others s))"
  shows "graph_ok (snd (snd (update_work_with others later refuses sha now caller i m s)))"
proof (cases "update_work_ok refuses i m s")
  case (Inl e)
  with before show ?thesis by (simp add: update_work_with_def)
next
  case (Inr u)
  let ?t = "later (others s)" and ?h = "resolved_holder i m (others s)"
  let ?A = "\<lambda>c. set (case c of DependsOn \<Rightarrow> us_appendDependsOn m | CompletionDependsOn \<Rightarrow> us_appendCompletionDependsOn m)"
  have ok: "hub_ok ?t" using graph by (simp add: graph_ok_def)
  obtain r s' where run: "updateWorkItem sha now i caller m ?h ?t = (r, s')"
    by (cases "updateWorkItem sha now i caller m ?h ?t")
  have "\<forall>j \<in> set (us_appendDependsOn m @ us_appendCompletionDependsOn m). getWorkItem j s \<noteq> None"
    using Inr by (auto simp: update_work_ok_def list_ex_iff split: if_splits)
  moreover have "\<not> (us_appendDependsOn m \<noteq> [] \<and> appendWouldCycle s i (us_appendDependsOn m) DependsOn)"
      "\<not> (us_appendCompletionDependsOn m \<noteq> [] \<and> appendWouldCycle s i (us_appendCompletionDependsOn m) CompletionDependsOn)"
    using Inr by (auto simp: update_work_ok_def split: if_splits)
  ultimately have "getWorkItem j s \<noteq> None \<and> (j, i) \<notin> (work_edges c s)\<^sup>*" if "j \<in> ?A c" for c j
    using that by (cases c) (auto simp: appendWouldCycle_exact)
  then have checks: "getWorkItem j ?t \<noteq> None \<and> (j, i) \<notin> (work_edges c ?t)\<^sup>*" if "j \<in> ?A c" for c j
    using that kept_path [OF before kept, of j i c] edges_rows [OF kept] unfolding rows_kept_def by blast
  have "graph_ok s'"
    using ok run
  proof (cases rule: update_effect)
    case (refused e)
    with graph show ?thesis by simp
  next
    case (updated p w rv w')
    have ids: "wi_id w' = i" "i \<noteq> []"
      using row_step_id [OF rs_update [OF updated(3)]] work_at_id [OF ok updated(2)] by auto
    show ?thesis unfolding updated(5)
    proof (rule graph_edit [OF graph _ ids, where w = w and A = ?A])
      show "getWorkItem i ?t = Some w" using updated(2) by (simp add: getWorkItem_at)
      show "\<forall>c. set (edges_of c w') \<subseteq> set (edges_of c w) \<union> ?A c" using updated_edges [OF updated(3)] by blast
      show "\<forall>c. \<forall>a \<in> ?A c. getWorkItem a ?t \<noteq> None \<and> (a, i) \<notin> (work_edges c ?t)\<^sup>*" using checks by blast
    qed simp
  qed
  with Inr run show ?thesis by (auto simp: update_work_with_def logEntry_graph split: sum.split)
qed

section \<open>Blueprints\<close>

lemma blueprint_effect:
  assumes ok: "hub_ok s" and i: "i \<noteq> []"
  shows "createBlueprintNode i runId proj now input s =
    (case res_bind (read_pin s) assertCreateAllowed of
       Inl e \<Rightarrow> (Inl e, s)
     | Inr _ \<Rightarrow>
         (case getWorkItem i s of
            Some w \<Rightarrow> (Inr (w, False), s)
          | None \<Rightarrow> (Inr (cloneWorkItem (blueprint_row i runId proj now input), True),
              write_row WORK_KIND i (EWork (blueprint_row i runId proj now input)) s)))"
proof (cases "read_pin s")
  case (Inr p)
  let ?w = "blueprint_row i runId proj now input"
  have make: "createOnly ident WORK_KIND (EWork ?w) s =
      Inr (if find_row s WORK_KIND i \<noteq> None then (ExistingConflict, s)
           else (Created i (Suc (revisionCounter s)), write_row WORK_KIND i (EWork ?w) s))"
    using createOnly_work [OF hub_ok_plain [OF ok], of ?w] i by simp
  have at: "getWorkItem i s = None \<longleftrightarrow> find_row s WORK_KIND i = None"
    using work_at_None [OF ok] by (simp add: getWorkItem_at)
  have get: "get_work i s = getWorkItem i s" by (simp add: getWorkItem_def)
  show ?thesis
    using pin_head [OF Inr]
    by (cases "assertCreateAllowed p"; cases "getWorkItem i s")
       (auto simp: createBlueprintNode_def withWriterFence_def Inr blueprint_under_def make at [symmetric] get Let_def)
qed (simp add: createBlueprintNode_def withWriterFence_def)

abbreviation create_gate :: "hub_store \<Rightarrow> wi_error + unit" where
  "create_gate s \<equiv> res_bind (read_pin s) assertCreateAllowed"

definition seed_one :: "string \<Rightarrow> instant \<Rightarrow> actor \<Rightarrow> blueprint_node \<Rightarrow> hub_store \<Rightarrow> hub_store" where
  "seed_one runId now caller n s =
     (let i = blueprintNodeId runId (bn_localId n) in
      if getWorkItem i s = None then write_row WORK_KIND i (EWork (blueprint_row i runId None now (node_input runId caller n))) s else s)"

lemma node_id_ne [simp]: "blueprintNodeId runId l \<noteq> []"
  by (simp add: blueprintNodeId_def)

lemma node_id_eq [simp]: "blueprintNodeId runId l = blueprintNodeId runId l' \<longleftrightarrow> l = l'"
  by (simp add: blueprintNodeId_def)

lemma seed_one_keeps:
  "hub_ok s \<Longrightarrow> hub_ok (seed_one runId now caller n s)" "create_gate (seed_one runId now caller n s) = create_gate s"
  by (auto simp: seed_one_def Let_def hub_ok_write_work)

text \<open>With nobody else acting, the expansion is refused before its first node, or it creates every node that is missing.\<close>

lemma seed_nodes_quiet:
  assumes "hub_ok s" "distinct (map bn_localId ns)"
  shows "seed_nodes runId now caller [] ns created reused s =
    (case create_gate s of
       Inl e \<Rightarrow> if ns = [] then (Inr (created, reused), s) else (Inl (e, created), s)
     | Inr _ \<Rightarrow>
         (Inr (created @ map (\<lambda>n. blueprintNodeId runId (bn_localId n))
                 (filter (\<lambda>n. getWorkItem (blueprintNodeId runId (bn_localId n)) s = None) ns),
               reused + length (filter (\<lambda>n. getWorkItem (blueprintNodeId runId (bn_localId n)) s \<noteq> None) ns)),
          fold (seed_one runId now caller) ns s))"
  using assms
proof (induction ns arbitrary: created reused s)
  case Nil
  then show ?case by (auto split: sum.split)
next
  case (Cons n ns)
  let ?i = "blueprintNodeId runId (bn_localId n)" and ?s = "seed_one runId now caller n s"
  note one = blueprint_effect [OF Cons.prems(1) node_id_ne [of runId "bn_localId n"]]
  show ?case
  proof (cases "create_gate s")
    case (Inl e)
    then show ?thesis by (simp add: one)
  next
    case (Inr u)
    have same: "getWorkItem (blueprintNodeId runId (bn_localId m)) ?s = getWorkItem (blueprintNodeId runId (bn_localId m)) s" if "m \<in> set ns" for m
    proof -
      have "bn_localId m \<noteq> bn_localId n" using that Cons.prems(2) by (metis distinct.simps(2) image_eqI list.map(2) list.set_map)
      then show ?thesis by (simp add: seed_one_def Let_def)
    qed
    then have filters: "filter (\<lambda>m. getWorkItem (blueprintNodeId runId (bn_localId m)) ?s = None) ns =
          filter (\<lambda>m. getWorkItem (blueprintNodeId runId (bn_localId m)) s = None) ns"
        "filter (\<lambda>m. getWorkItem (blueprintNodeId runId (bn_localId m)) ?s \<noteq> None) ns =
          filter (\<lambda>m. getWorkItem (blueprintNodeId runId (bn_localId m)) s \<noteq> None) ns"
      by (simp_all cong: filter_cong)
    have gate: "create_gate ?s = Inr u" using Inr seed_one_keeps(2) [of runId now caller n s] by simp
    have dist: "distinct (map bn_localId ns)" using Cons.prems(2) by simp
    note IH = Cons.IH [OF seed_one_keeps(1) [OF Cons.prems(1), of runId now caller n], unfolded gate filters]
    show ?thesis
    proof (cases "getWorkItem ?i s")
      case None
      then have s: "?s = write_row WORK_KIND ?i (EWork (blueprint_row ?i runId None now (node_input runId caller n))) s"
        by (simp add: seed_one_def Let_def)
      have "seed_nodes runId now caller [] (n # ns) created reused s = seed_nodes runId now caller [] ns (created @ [?i]) reused ?s"
        unfolding seed_nodes.simps unavailable.simps disturbed.simps if_False Let_def one Inr None s by simp
      then show ?thesis unfolding IH [OF dist, of "created @ [?i]" reused] by (simp add: Inr None)
    next
      case (Some w)
      then have s: "?s = s" by (simp add: seed_one_def Let_def)
      have "seed_nodes runId now caller [] (n # ns) created reused s = seed_nodes runId now caller [] ns created (Suc reused) ?s"
        unfolding seed_nodes.simps unavailable.simps disturbed.simps if_False Let_def one Inr Some s by simp
      then show ?thesis unfolding IH [OF dist, of created "Suc reused"] by (simp add: Inr Some)
    qed
  qed
qed

lemma fold_seed:
  assumes "distinct (map bn_localId ns)"
  shows "getWorkItem j (fold (seed_one runId now caller) ns s) =
    (case getWorkItem j s of Some w \<Rightarrow> Some w
     | None \<Rightarrow> map_option (\<lambda>n. cloneWorkItem (blueprint_row j runId None now (node_input runId caller n)))
         (find (\<lambda>n. blueprintNodeId runId (bn_localId n) = j) ns))"
  using assms
proof (induction ns arbitrary: s)
  case (Cons n ns)
  have "find (\<lambda>m. blueprintNodeId runId (bn_localId m) = blueprintNodeId runId (bn_localId n)) ns = None"
    using Cons.prems unfolding find_None_iff node_id_eq by (metis distinct.simps(2) image_eqI list.map(2) list.set_map)
  with Cons show ?case by (auto simp: seed_one_def Let_def split: option.split)
qed (simp split: option.split)

text \<open>The nodes in the order of creation.\<close>

definition ordered_nodes :: "blueprint_node list \<Rightarrow> string list \<Rightarrow> blueprint_node list" where
  "ordered_nodes nodes order = map (\<lambda>l. the (find (\<lambda>n. bn_localId n = l) nodes)) order"

lemma ordered_nodes:
  assumes "distinct (map bn_localId nodes)" "set order = set (map bn_localId nodes)" "length order = length nodes"
  shows "set (ordered_nodes nodes order) = set nodes" "map bn_localId (ordered_nodes nodes order) = order"
    "distinct (map bn_localId (ordered_nodes nodes order))"
proof -
  have found: "the (find (\<lambda>n. bn_localId n = bn_localId m) nodes) = m" if "m \<in> set nodes" for m
    using assms(1) that
  proof (induction nodes)
    case (Cons a nodes)
    then show ?case by (auto simp: image_iff)
  qed simp
  have "set (ordered_nodes nodes order) = (\<lambda>l. the (find (\<lambda>n. bn_localId n = l) nodes)) ` set (map bn_localId nodes)"
    by (simp add: ordered_nodes_def assms(2))
  also have "\<dots> = set nodes" using found by (auto simp: image_iff)
  finally show "set (ordered_nodes nodes order) = set nodes" .
  show map: "map bn_localId (ordered_nodes nodes order) = order"
    unfolding ordered_nodes_def map_map by (rule map_idI) (use found assms(2) in auto)
  have "card (set order) = length order" using assms distinct_card [OF assms(1)] by simp
  then show "distinct (map bn_localId (ordered_nodes nodes order))" by (simp add: map card_distinct)
qed

section \<open>Runs of the tools\<close>

text \<open>
  A run over the graphs: creations, edits, and expansions that come through.  Between the checks of a creation and its write the run may go
  on in any way that deletes no row; between the checks of an edit and its write it may go on in any way that also adds no edge
  to a row that was there when the checks were made, so that creations, expansions and the verbs may overlap with an edit, but not a second
  edit of the edges; between two nodes of an expansion others may do what keeps the graphs and deletes no row.  In between there is any
  change that keeps the rows and their edges (the verbs of the life cycle, the other repositories).
\<close>

definition grows :: "(hub_store \<Rightarrow> hub_store) \<Rightarrow> bool" where
  "grows env \<longleftrightarrow> (\<forall>s. graph_ok s \<longrightarrow> graph_ok (env s) \<and> rows_kept s (env s))"

inductive graph_run :: "(json \<Rightarrow> bool) \<Rightarrow> sha256 \<Rightarrow> hub_store \<Rightarrow> bool" for refuses sha where
  gr_start: "graph_run refuses sha empty_substrate"
| gr_create: "graph_run refuses sha s \<Longrightarrow> graph_run refuses sha (others s) \<Longrightarrow> rows_kept s (others s) \<Longrightarrow>
    graph_run refuses sha (snd (snd (create_work_with others refuses now caller input s)))"
| gr_update: "graph_run refuses sha s \<Longrightarrow> graph_run refuses sha (later (others s)) \<Longrightarrow> edges_kept s (later (others s)) \<Longrightarrow>
    graph_run refuses sha (snd (snd (update_work_with others later refuses sha now caller i m s)))"
| gr_seed: "graph_run refuses sha s \<Longrightarrow> \<forall>d \<in> set ds. grows (fst d) \<Longrightarrow>
    seed_blueprint_with ds undo now caller dryRun runId nodes s = (Inr rep, notices, s') \<Longrightarrow> graph_run refuses sha s'"
| gr_other: "graph_run refuses sha s \<Longrightarrow> hub_ok s' \<Longrightarrow>
    \<forall>i. map_option (\<lambda>w. (wi_dependsOn w, wi_completionDependsOn w)) (getWorkItem i s') =
        map_option (\<lambda>w. (wi_dependsOn w, wi_completionDependsOn w)) (getWorkItem i s) \<Longrightarrow> graph_run refuses sha s'"

text \<open>What a blueprint that passed its checks looks like.\<close>

lemma check_blueprint_Inr:
  assumes "check_blueprint caller runId nodes s = Inr order"
  shows "\<not> falsy_text runId" "distinct (map bn_localId nodes)" "unionTopoSort nodes = Some order"
    "\<forall>n \<in> set nodes. set (or_empty (bn_dependsOn n)) \<union> set (or_empty (bn_completionDependsOn n)) \<subseteq> set (map bn_localId nodes)"
    "nodes \<noteq> []"
  using assms by (auto simp: check_blueprint_def Let_def list_ex_iff res_bind_Inr_iff split: if_splits option.splits)

lemma seed_order:
  assumes "check_blueprint caller runId nodes s = Inr order"
  shows "set (ordered_nodes nodes order) = set nodes" "map bn_localId (ordered_nodes nodes order) = order"
    "distinct (map bn_localId (ordered_nodes nodes order))" "ordered_nodes nodes order \<noteq> []"
    "\<forall>xs n ys t. ordered_nodes nodes order = xs @ n # ys \<and> t \<in> set (union_targets n) \<longrightarrow> t \<in> set (map bn_localId xs)"
proof -
  note check = check_blueprint_Inr [OF assms]
  have order: "set order = set (map bn_localId nodes)" "length order = length nodes"
    and first: "\<forall>xs l ys t. order = xs @ l # ys \<and> (t, l) \<in> dep_edges nodes \<longrightarrow> t \<in> set xs"
    using sort_correct [OF check(2,4)] check(3) by auto
  note nodes = ordered_nodes [OF check(2) order]
  show "set (ordered_nodes nodes order) = set nodes" "map bn_localId (ordered_nodes nodes order) = order"
    "distinct (map bn_localId (ordered_nodes nodes order))" using nodes by blast+
  show "ordered_nodes nodes order \<noteq> []" using nodes(1) check(5) by auto
  show "\<forall>xs n ys t. ordered_nodes nodes order = xs @ n # ys \<and> t \<in> set (union_targets n) \<longrightarrow> t \<in> set (map bn_localId xs)"
  proof (intro allI impI, elim conjE)
    fix xs n ys t
    assume split: "ordered_nodes nodes order = xs @ n # ys" and t: "t \<in> set (union_targets n)"
    then have "n \<in> set nodes" using nodes(1) by auto
    with t have "(t, bn_localId n) \<in> dep_edges nodes" unfolding dep_edges_def by blast
    moreover have "order = map bn_localId xs @ bn_localId n # map bn_localId ys" using nodes(2) by (simp add: split)
    ultimately show "t \<in> set (map bn_localId xs)" using first by blast
  qed
qed

lemma seed_graph:
  assumes "seed_nodes runId now caller ds ns created reused s = (out, s')" "graph_ok s" "\<forall>d \<in> set ds. grows (fst d)"
    and "\<forall>xs n ys t. ns = xs @ n # ys \<and> t \<in> set (union_targets n) \<longrightarrow>
      t \<in> set (map bn_localId xs) \<or> getWorkItem (blueprintNodeId runId t) s \<noteq> None"
  shows "graph_ok s'"
  using assms
proof (induction ns arbitrary: ds created reused s)
  case (Cons n ns)
  let ?i = "blueprintNodeId runId (bn_localId n)" and ?t = "disturbed ds s"
  let ?w = "blueprint_row ?i runId None now (node_input runId caller n)"
  have t: "graph_ok ?t" "rows_kept s ?t" using Cons.prems(2,3) by (cases ds; simp add: grows_def)+
  have ds: "\<forall>d \<in> set (drop 1 ds). grows (fst d)" using Cons.prems(3) by (auto dest: in_set_dropD)
  have kept: "getWorkItem j s \<noteq> None \<Longrightarrow> getWorkItem j ?t \<noteq> None" for j using t(2) by (simp add: rows_kept_def)
  have deps: "getWorkItem (blueprintNodeId runId l) ?t \<noteq> None" if "l \<in> set (union_targets n)" for l
    using Cons.prems(4) [rule_format, of "[]" n ns l] that kept by simp
  have edges: "getWorkItem j ?t \<noteq> None" if "j \<in> set (edges_of c ?w)" for c j
    using that deps by (cases c) (auto simp: born_edges node_input_def or_empty_def [of "Some _"] union_targets_def)
  have hub: "hub_ok ?t" using t(1) by (simp add: graph_ok_def)
  note one = blueprint_effect [OF hub node_id_ne [of runId "bn_localId n"]]
  have later: "\<forall>xs m ys l. ns = xs @ m # ys \<and> l \<in> set (union_targets m) \<longrightarrow>
      l \<in> set (map bn_localId xs) \<or> getWorkItem (blueprintNodeId runId l) u \<noteq> None"
    if u: "\<And>j. getWorkItem j ?t \<noteq> None \<Longrightarrow> getWorkItem j u \<noteq> None" "getWorkItem ?i u \<noteq> None" for u
    using Cons.prems(4) u kept by (metis append_Cons list.simps(9) set_ConsD)
  show ?case
  proof (cases "unavailable ds")
    case True
    with Cons.prems(1) t(1) show ?thesis by simp
  next
    case up: False
    show ?thesis
    proof (cases "create_gate ?t")
      case (Inl e)
      with Cons.prems(1) t(1) up show ?thesis by (simp add: one Let_def)
    next
      case (Inr u)
      show ?thesis
      proof (cases "getWorkItem ?i ?t")
        case None
        let ?u = "write_row WORK_KIND ?i (EWork ?w) ?t"
        have rest: "seed_nodes runId now caller (drop 1 ds) ns (created @ [?i]) reused ?u = (out, s')"
          using Cons.prems(1) up by (simp add: one Inr None Let_def)
        have "graph_ok ?u" using t(1) None edges by (intro graph_create) simp_all
        from Cons.IH [OF rest this ds later] show ?thesis by simp
      next
        case (Some w)
        then have rest: "seed_nodes runId now caller (drop 1 ds) ns created (Suc reused) ?t = (out, s')"
          using Cons.prems(1) up by (simp add: one Inr Let_def)
        from Cons.IH [OF rest t(1) ds later] Some show ?thesis by simp
      qed
    qed
  qed
qed simp

lemma seed_blueprint_eq:
  assumes "hub_ok s"
  shows "seed_blueprint now caller dryRun runId nodes s =
    (if ac_role caller = ''verifier'' \<and> \<not> dryRun then (Inl AuthorizationDenied, [], s)
     else case check_blueprint caller runId nodes s of
         Inl e \<Rightarrow> (Inl e, [], s)
       | Inr order \<Rightarrow>
           if dryRun then (Inr \<lparr>sr_creationOrder = order, sr_created = [], sr_reused = 0\<rparr>, [], s)
           else case create_gate s of
               Inl e \<Rightarrow> (Inl (ExpansionFailed e [] []), [], s)
             | Inr _ \<Rightarrow>
                 (Inr \<lparr>sr_creationOrder = order,
                    sr_created = map (\<lambda>n. blueprintNodeId (the runId) (bn_localId n))
                      (filter (\<lambda>n. getWorkItem (blueprintNodeId (the runId) (bn_localId n)) s = None) (ordered_nodes nodes order)),
                    sr_reused = length (filter (\<lambda>n. getWorkItem (blueprintNodeId (the runId) (bn_localId n)) s \<noteq> None) (ordered_nodes nodes order))\<rparr>, [],
                  fold (seed_one (the runId) now caller) (ordered_nodes nodes order) s))"
proof (cases "check_blueprint caller runId nodes s")
  case (Inr order)
  note order = seed_order [OF Inr]
  have "map (\<lambda>l. the (find (\<lambda>n. bn_localId n = l) nodes)) order = ordered_nodes nodes order" by (simp add: ordered_nodes_def)
  with Inr order(4) seed_nodes_quiet [OF assms order(3), of "the runId" now caller "[]" 0] show ?thesis
    by (auto simp: seed_blueprint_def seed_blueprint_with_def split: sum.split)
qed (simp add: seed_blueprint_def seed_blueprint_with_def)

lemma seed_blueprint_graph:
  assumes "graph_ok s" "\<forall>d \<in> set ds. grows (fst d)"
    and "seed_blueprint_with ds undo now caller dryRun runId nodes s = (Inr rep, notices, s')"
  shows "graph_ok s'"
proof (cases dryRun)
  case True
  with assms(1,3) show ?thesis by (auto simp: seed_blueprint_with_def split: if_splits sum.splits)
next
  case False
  obtain order out where check: "check_blueprint caller runId nodes s = Inr order"
    and run: "seed_nodes (the runId) now caller ds (ordered_nodes nodes order) [] 0 s = (out, s')"
    using assms(3) False
    by (auto simp: seed_blueprint_with_def ordered_nodes_def split: if_splits sum.splits prod.splits)
  show ?thesis using seed_order(5) [OF check] by (intro seed_graph [OF run assms(1,2)]) blast
qed

lemma graph_run_ok: "graph_run refuses sha s \<Longrightarrow> graph_ok s"
proof (induction rule: graph_run.induct)
  case gr_start
  have row: "find_row empty_substrate WORK_KIND i = None" for i
    by (simp add: find_row_def getKindStore_def empty_substrate_def)
  have none: "getWorkItem i empty_substrate = None" for i
    using work_at_None [OF hub_ok_empty, of i] by (simp add: getWorkItem_at row)
  have edges: "work_edges c empty_substrate = {}" for c by (simp add: work_edges_def none)
  have "acyclic ({} :: (string \<times> string) set)" by (rule wf_acyclic) simp
  then show ?case unfolding graph_ok_def edges using hub_ok_empty by blast
next
  case (gr_other s s')
  show ?case by (rule graph_same [OF gr_other.IH gr_other.hyps(2,3)])
next
  case gr_create
  then show ?case by (intro create_work_graph)
next
  case gr_update
  then show ?case by (intro update_work_graph)
next
  case gr_seed
  show ?case by (rule seed_blueprint_graph [OF gr_seed.IH gr_seed.hyps(2,3)])
qed

end
