(* ===== verification/Policy_Outcomes.thy ===== *)
theory Policy_Outcomes
  imports Policy_Properties Demo_Hub
begin

text \<open>
  What the tools over the queue promise: the order of creation of a blueprint, its expansion and the compensation of one that
  fails, and the dependency graphs of the queue.
\<close>

section \<open>A demo blueprint\<close>

definition demo_node :: "string \<Rightarrow> string list \<Rightarrow> string list \<Rightarrow> blueprint_node" where
  "demo_node l deps completion =
     \<lparr>bn_localId = l, bn_label = None, bn_type = TaskItem, bn_priority = None, bn_roleEligibility = Some [''architect''],
      bn_dependsOn = Some deps, bn_completionDependsOn = Some completion, bn_references = None,
      bn_evidenceRequirements = None, bn_runbook = None, bn_targetRef = None, bn_payload = None, bn_nodeConfig = None\<rparr>"

definition demo_blueprint :: "blueprint_node list" where
  "demo_blueprint = [demo_node ''b'' [''a''] [], demo_node ''a'' [] []]"

section \<open>The order of creation\<close>

text \<open>
  C12: the order of creation.  For a blueprint with distinct ids that names only its own nodes, the sort answers with no order exactly when
  the two edge classes together have a cycle; otherwise the order lists every node once, and each after all it depends on.
\<close>

theorem creation_order:
  assumes "distinct (map bn_localId nodes)"
    "\<forall>n \<in> set nodes. set (or_empty (bn_dependsOn n)) \<union> set (or_empty (bn_completionDependsOn n)) \<subseteq> set (map bn_localId nodes)"
  shows "(unionTopoSort nodes = None \<longleftrightarrow> \<not> acyclic (dep_edges nodes)) \<and>
    (\<forall>order. unionTopoSort nodes = Some order \<longrightarrow> set order = set (map bn_localId nodes) \<and> length order = length nodes \<and>
      (\<forall>xs l ys t. order = xs @ l # ys \<and> (t, l) \<in> dep_edges nodes \<longrightarrow> t \<in> set xs))"
  using assms by (rule sort_correct)

theorem creation_order_witness:
  "unionTopoSort demo_blueprint = Some [''a'', ''b''] \<and> acyclic (dep_edges demo_blueprint)"
proof -
  have "distinct (map bn_localId demo_blueprint)" by code_simp
  moreover have "\<forall>n \<in> set demo_blueprint. set (or_empty (bn_dependsOn n)) \<union> set (or_empty (bn_completionDependsOn n))
      \<subseteq> set (map bn_localId demo_blueprint)" by code_simp
  moreover have "unionTopoSort demo_blueprint = Some [''a'', ''b'']" by code_simp
  ultimately show ?thesis using conjunct1 [OF creation_order [of demo_blueprint]] by (simp only: option.distinct simp_thms)
qed

section \<open>The expansion\<close>

text \<open>What a check accepts it accepts in a hub with more rows.\<close>

lemma map_res_mono:
  "map_res f xs = Inr ys \<Longrightarrow> (\<And>x y. x \<in> set xs \<Longrightarrow> f x = Inr y \<Longrightarrow> g x = Inr y) \<Longrightarrow> map_res g xs = Inr ys"
proof (induction xs arbitrary: ys)
  case (Cons x xs)
  then show ?case by (auto simp: res_bind_Inr_iff)
qed simp

lemma validate_mono:
  assumes "\<And>k i. entityExists k i s \<Longrightarrow> entityExists k i s'" "validateNodeIntrinsics type reqs runbook refs s = Inr u"
  shows "validateNodeIntrinsics type reqs runbook refs s' = Inr u"
proof -
  have "validateRequiredReference r s \<Longrightarrow> validateRequiredReference r s'" for r
    using assms(1) by (auto simp: validateRequiredReference_def split: reference_storage.splits option.splits)
  with assms(2) show ?thesis by (auto simp: validateNodeIntrinsics_def list_ex_iff split: if_splits)
qed

lemma check_mono:
  assumes "\<And>k i. entityExists k i s \<Longrightarrow> entityExists k i s'" "check_blueprint caller runId nodes s = Inr order"
  shows "check_blueprint caller runId nodes s' = Inr order"
proof -
  let ?v = "\<lambda>s n. validateNodeIntrinsics (bn_type n) (or_empty (bn_evidenceRequirements n)) (bn_runbook n) (or_empty (bn_references n)) s"
  obtain us where us: "map_res (?v s) nodes = Inr us"
    using assms(2) by (auto simp: check_blueprint_def Let_def res_bind_Inr_iff split: if_splits option.splits)
  then have "map_res (?v s') nodes = Inr us" by (rule map_res_mono) (rule validate_mono [OF assms(1)])
  with assms(2) us show ?thesis unfolding check_blueprint_def Let_def by (simp split: if_splits option.splits)
qed

lemma seed_one_exists: "entityExists k i s \<Longrightarrow> entityExists k i (seed_one runId now caller n s)"
  by (auto simp: entityExists_def seed_one_def Let_def get_op_def store_simps split: option.splits)

lemma fold_keeps:
  "entityExists k i s \<Longrightarrow> entityExists k i (fold (seed_one runId now caller) ns s)"
  "create_gate (fold (seed_one runId now caller) ns s) = create_gate s"
  "hub_ok s \<Longrightarrow> hub_ok (fold (seed_one runId now caller) ns s)"
  by (induction ns arbitrary: s) (simp_all add: seed_one_exists seed_one_keeps)

lemma find_unique: "distinct (map f xs) \<Longrightarrow> n \<in> set xs \<Longrightarrow> find (\<lambda>m. f m = f n) xs = Some n"
  by (induction xs) (auto simp: image_iff)

lemma fold_seed_id: "\<forall>n \<in> set ns. getWorkItem (blueprintNodeId runId (bn_localId n)) s \<noteq> None \<Longrightarrow> fold (seed_one runId now caller) ns s = s"
  by (induction ns) (auto simp: seed_one_def Let_def)



definition demo_seeded :: "seed_report policy_result" where
  "demo_seeded = seed_blueprint 300 demo_creator False (Some ''r'') demo_blueprint demo_base"



section \<open>A failed expansion\<close>

text \<open>Creation and deletion stand behind the same fence.\<close>

lemma delete_effect:
  "(\<exists>e. create_gate s = Inl e) \<and> (\<exists>e. deleteWorkItem i s = (Inl e, s)) \<or>
   create_gate s = Inr () \<and> deleteWorkItem i s = (Inr (), delete_op WORK_KIND i s)"
proof (cases "read_pin s")
  case (Inl e)
  then show ?thesis by (simp add: deleteWorkItem_def withWriterFence_def)
next
  case (Inr p)
  have "get_head (delete_op WORK_KIND i s) = get_head s"
    by (simp add: get_head_def getWithRevision_def find_row_delete_other WORK_KIND_def HEAD_KIND_def)
  then have "assertHeadUnchanged p (delete_op WORK_KIND i s) = Inr ()" using pin_head [OF Inr] by (simp add: assertHeadUnchanged_def)
  then show ?thesis using Inr pin_head [OF Inr]
    by (cases p) (auto simp: deleteWorkItem_def withWriterFence_def)
qed

lemma deleted_row: "hub_ok s \<Longrightarrow> getWorkItem j (delete_op WORK_KIND i s) = (if j = i then None else getWorkItem j s)"
proof -
  assume ok: "hub_ok s"
  have "find_row (delete_op WORK_KIND i s) WORK_KIND i = None"
    by (cases "find_row s WORK_KIND i") (simp_all add: store_simps)
  then have "work_at i (delete_op WORK_KIND i s) = None" by (simp add: work_at_def)
  then show ?thesis by (auto simp: getWorkItem_def get_work_at work_at_delete_other)
qed

lemma gate_deleted: "create_gate (delete_op WORK_KIND i s) = create_gate s"
proof -
  have "get_head (delete_op WORK_KIND i s) = get_head s" "get_generation g (delete_op WORK_KIND i s) = get_generation g s" for g
    by (simp_all add: get_head_def get_generation_def getWithRevision_def get_op_def find_row_delete_other WORK_KIND_def HEAD_KIND_def
      GENERATION_KIND_def)
  then have "read_pin (delete_op WORK_KIND i s) = read_pin s" by (cases "get_head s") (auto simp: read_pin_def)
  then show ?thesis by simp
qed

text \<open>What others do between two nodes deletes no item, and during the compensation it neither deletes nor creates one.\<close>

definition harmless :: "(hub_store \<Rightarrow> hub_store) \<Rightarrow> bool" where
  "harmless env \<longleftrightarrow> (\<forall>s. hub_ok s \<longrightarrow> hub_ok (env s)) \<and> (\<forall>s i. getWorkItem i s \<noteq> None \<longrightarrow> getWorkItem i (env s) \<noteq> None)"

definition steady :: "(hub_store \<Rightarrow> hub_store) \<Rightarrow> bool" where
  "steady env \<longleftrightarrow> (\<forall>s. hub_ok s \<longrightarrow> hub_ok (env s)) \<and> (\<forall>s i. getWorkItem i (env s) = None \<longleftrightarrow> getWorkItem i s = None)"

lemma seed_failed:
  assumes "seed_nodes runId now caller ds ns created reused s = (Inl (e, created'), s')" "hub_ok s" "\<forall>d \<in> set ds. harmless (fst d)"
    "distinct created" "\<forall>i \<in> set created. getWorkItem i s \<noteq> None"
  shows "hub_ok s' \<and> distinct created' \<and> (\<forall>i \<in> set created'. getWorkItem i s' \<noteq> None \<and> (i \<in> set created \<or> getWorkItem i s = None)) \<and>
    (\<forall>i. getWorkItem i s \<noteq> None \<longrightarrow> getWorkItem i s' \<noteq> None) \<and> (e = StoreThrew Unavailable \<or> create_gate s' = Inl e)"
  using assms
proof (induction ns arbitrary: ds created reused s)
  case (Cons n ns)
  let ?i = "blueprintNodeId runId (bn_localId n)" and ?s = "disturbed ds s"
  have ok: "hub_ok ?s" and kept: "getWorkItem i s \<noteq> None \<Longrightarrow> getWorkItem i ?s \<noteq> None" for i
    using Cons.prems(2,3) by (cases ds; auto simp: harmless_def)+
  have ds: "\<forall>d \<in> set (drop 1 ds). harmless (fst d)" using Cons.prems(3) by (auto dest: in_set_dropD)
  have stored: "\<forall>i \<in> set created. getWorkItem i ?s \<noteq> None" using Cons.prems(5) kept by blast
  note one = blueprint_effect [OF ok node_id_ne [of runId "bn_localId n"]]
  show ?case
  proof (cases "unavailable ds \<or> (\<exists>e'. create_gate ?s = Inl e')")
    case True
    then have "created' = created" "s' = ?s" "e = StoreThrew Unavailable \<or> create_gate ?s = Inl e"
      using Cons.prems(1) by (auto simp: one Let_def split: if_splits)
    with ok stored kept Cons.prems(4) show ?thesis by simp
  next
    case False
    then obtain u where gate: "create_gate ?s = Inr u" and up: "\<not> unavailable ds" by (cases "create_gate ?s") auto
    show ?thesis
    proof (cases "getWorkItem ?i ?s")
      case None
      let ?s' = "write_row WORK_KIND ?i (EWork (blueprint_row ?i runId None now (node_input runId caller n))) ?s"
      have rest: "seed_nodes runId now caller (drop 1 ds) ns (created @ [?i]) reused ?s' = (Inl (e, created'), s')"
        using Cons.prems(1) up by (simp add: one gate None Let_def)
      have row: "getWorkItem j ?s' = (if j = ?i then Some (cloneWorkItem (blueprint_row ?i runId None now (node_input runId caller n))) else getWorkItem j ?s)" for j
        by simp
      have new: "?i \<notin> set created" "getWorkItem ?i s = None" using None stored kept by blast+
      have okw: "hub_ok ?s'" using ok by (simp add: hub_ok_write_work)
      have dist: "distinct (created @ [?i])" using Cons.prems(4) new(1) by simp
      have storedw: "\<forall>i \<in> set (created @ [?i]). getWorkItem i ?s' \<noteq> None" using stored by (simp add: row)
      have IH: "hub_ok s' \<and> distinct created' \<and>
          (\<forall>i \<in> set created'. getWorkItem i s' \<noteq> None \<and> (i \<in> set (created @ [?i]) \<or> getWorkItem i ?s' = None)) \<and>
          (\<forall>i. getWorkItem i ?s' \<noteq> None \<longrightarrow> getWorkItem i s' \<noteq> None) \<and> (e = StoreThrew Unavailable \<or> create_gate s' = Inl e)"
        by (rule Cons.IH [OF rest okw ds dist storedw])
      have old: "i \<in> set created \<or> getWorkItem i s = None" if "i \<in> set (created @ [?i]) \<or> getWorkItem i ?s' = None" for i
        using that new(2) kept [of i] by (auto simp: row split: if_splits)
      have still: "getWorkItem i ?s' \<noteq> None" if "getWorkItem i s \<noteq> None" for i using kept [OF that] by (simp add: row)
      note rest = IH [THEN conjunct2, THEN conjunct2]
      show ?thesis
      proof (intro conjI ballI allI impI)
        show "hub_ok s'" by (rule IH [THEN conjunct1])
        show "distinct created'" by (rule IH [THEN conjunct2, THEN conjunct1])
        show "e = StoreThrew Unavailable \<or> create_gate s' = Inl e" by (rule rest [THEN conjunct2, THEN conjunct2])
        fix j
        show "getWorkItem j s' \<noteq> None" if "j \<in> set created'"
          by (rule rest [THEN conjunct1, THEN bspec, OF that, THEN conjunct1])
        show "j \<in> set created \<or> getWorkItem j s = None" if "j \<in> set created'"
          by (rule old, rule rest [THEN conjunct1, THEN bspec, OF that, THEN conjunct2])
        show "getWorkItem j s' \<noteq> None" if "getWorkItem j s \<noteq> None"
          by (rule rest [THEN conjunct2, THEN conjunct1, THEN spec, THEN mp], rule still [OF that])
      qed
    next
      case (Some w)
      then have rest: "seed_nodes runId now caller (drop 1 ds) ns created (Suc reused) ?s = (Inl (e, created'), s')"
        using Cons.prems(1) up by (simp add: one gate Let_def)
      have "hub_ok s' \<and> distinct created' \<and> (\<forall>i \<in> set created'. getWorkItem i s' \<noteq> None \<and> (i \<in> set created \<or> getWorkItem i ?s = None)) \<and>
          (\<forall>i. getWorkItem i ?s \<noteq> None \<longrightarrow> getWorkItem i s' \<noteq> None) \<and> (e = StoreThrew Unavailable \<or> create_gate s' = Inl e)"
        by (rule Cons.IH [OF rest ok ds Cons.prems(4) stored])
      with kept show ?thesis by blast
    qed
  qed
qed simp

lemma roll_back_report:
  assumes "roll_back undo is s = (failures, s')" "hub_ok s" "\<forall>d \<in> set undo. steady (fst d)" "distinct is"
    "\<forall>i \<in> set is. getWorkItem i s \<noteq> None"
  shows "set failures \<subseteq> set is \<and> (\<forall>i \<in> set is. i \<in> set failures \<longleftrightarrow> getWorkItem i s' \<noteq> None) \<and>
    (\<forall>j. j \<notin> set is \<longrightarrow> (getWorkItem j s' = None \<longleftrightarrow> getWorkItem j s = None))"
  using assms
proof (induction "is" arbitrary: undo s failures)
  case (Cons i "is")
  let ?s = "disturbed undo s"
  have ok: "hub_ok ?s" and same: "getWorkItem j ?s = None \<longleftrightarrow> getWorkItem j s = None" for j
    using Cons.prems(2,3) by (cases undo; simp add: steady_def)+
  have undo: "\<forall>d \<in> set (drop 1 undo). steady (fst d)" using Cons.prems(3) by (auto dest: in_set_dropD)
  have dist: "distinct is" "i \<notin> set is" using Cons.prems(4) by simp_all
  have there: "\<forall>j \<in> set is. getWorkItem j ?s \<noteq> None" using Cons.prems(5) same by simp
  note IH = Cons.IH [OF _ _ undo dist(1)]
  consider (failed) e where "(if unavailable undo then (Inl (StoreThrew Unavailable), ?s) else deleteWorkItem i ?s) = (Inl e, ?s)"
    | (gone) "(if unavailable undo then (Inl (StoreThrew Unavailable), ?s) else deleteWorkItem i ?s) = (Inr (), delete_op WORK_KIND i ?s)"
    using delete_effect [of ?s i] by (cases "unavailable undo") auto
  then show ?case
  proof cases
    case (failed e)
    obtain fs t where rest: "roll_back (drop 1 undo) is ?s = (fs, t)" by (cases "roll_back (drop 1 undo) is ?s")
    have out: "failures = i # fs" "s' = t" using Cons.prems(1) rest unfolding roll_back.simps failed by auto
    from IH [OF rest [folded out(2)] ok there] same dist(2) Cons.prems(5) show ?thesis by (auto simp: out)
  next
    case gone
    have rest: "roll_back (drop 1 undo) is (delete_op WORK_KIND i ?s) = (failures, s')"
      using Cons.prems(1) unfolding roll_back.simps gone by simp
    have "\<forall>j \<in> set is. getWorkItem j (delete_op WORK_KIND i ?s) \<noteq> None"
      using there dist(2) by (auto simp: deleted_row [OF ok])
    from IH [OF rest hub_ok_delete [OF ok] this] same dist(2) show ?thesis
      by (auto simp: deleted_row [OF ok])
  qed
qed simp

lemma roll_back_alone:
  "create_gate s = Inl e \<Longrightarrow> roll_back [] is s = (is, s)"
  "create_gate s = Inr u \<Longrightarrow> fst (roll_back [] is s) = [] \<and> create_gate (snd (roll_back [] is s)) = Inr u"
proof -
  show "create_gate s = Inl e \<Longrightarrow> roll_back [] is s = (is, s)"
  proof (induction "is")
    case (Cons i "is")
    then obtain e' where "deleteWorkItem i s = (Inl e', s)" using delete_effect [of s i] by auto
    with Cons show ?case by simp
  qed simp
  show "create_gate s = Inr u \<Longrightarrow> fst (roll_back [] is s) = [] \<and> create_gate (snd (roll_back [] is s)) = Inr u"
  proof (induction "is" arbitrary: s)
    case (Cons i "is")
    then have "deleteWorkItem i s = (Inr (), delete_op WORK_KIND i s)" using delete_effect [of s i] by auto
    with Cons gate_deleted [of i s] show ?case by simp
  qed simp
qed

lemma check_blueprint_no_expansion: "check_blueprint caller runId nodes s \<noteq> Inl (ExpansionFailed e created failures)"
proof -
  have never: "map_res f xs \<noteq> Inl e" if "\<And>x. f x \<noteq> Inl e" for f :: "blueprint_node \<Rightarrow> policy_fault + unit" and xs e
    using that by (induction xs) (auto simp: res_bind_Inl_iff)
  have valid: "validateNodeIntrinsics type reqs runbook refs s \<noteq> Inl (ExpansionFailed e created failures)" for type reqs runbook refs
    by (simp add: validateNodeIntrinsics_def)
  have "map_res (\<lambda>n. validateNodeIntrinsics (bn_type n) (or_empty (bn_evidenceRequirements n)) (bn_runbook n)
      (or_empty (bn_references n)) s) nodes \<noteq> Inl (ExpansionFailed e created failures)" by (rule never) (rule valid)
  then show ?thesis by (auto simp: check_blueprint_def Let_def res_bind_Inl_iff split: option.split)
qed

lemma expansion_stopped:
  assumes "seed_blueprint_with ds undo now caller dryRun runId nodes s = (Inl (ExpansionFailed e created failures), notices, s')"
  obtains order s1 where "seed_nodes (the runId) now caller ds (map (\<lambda>l. the (find (\<lambda>n. bn_localId n = l) nodes)) order) [] 0 s
      = (Inl (e, created), s1)" "roll_back undo created s1 = (failures, s')"
proof (cases "check_blueprint caller runId nodes s")
  case (Inl e')
  with assms check_blueprint_no_expansion [of caller runId nodes s e created failures] show ?thesis
    by (simp add: seed_blueprint_with_def split: if_splits)
next
  case (Inr order)
  note order = this
  let ?seed = "seed_nodes (the runId) now caller ds (map (\<lambda>l. the (find (\<lambda>n. bn_localId n = l) nodes)) order) [] 0 s"
  obtain out s1 where run: "?seed = (out, s1)" by (cases ?seed)
  show ?thesis
  proof (cases out)
    case (Inl p)
    obtain e' c where p: "p = (e', c)" by (cases p)
    obtain fs t where undone: "roll_back undo c s1 = (fs, t)" by (cases "roll_back undo c s1")
    show ?thesis
      using assms run undone by (intro that [of order s1]) (simp_all add: seed_blueprint_with_def order Inl p split: if_splits)
  next
    case (Inr q)
    with assms run show ?thesis by (cases q) (simp add: seed_blueprint_with_def order split: if_splits)
  qed
qed

lemma expansion_failed:
  assumes "hub_run sha t s" "\<forall>d \<in> set ds. harmless (fst d)" "\<forall>d \<in> set undo. steady (fst d)"
    and "seed_blueprint_with ds undo now caller dryRun runId nodes s = (Inl (ExpansionFailed e created failures), notices, s')"
  shows "set failures \<subseteq> set created \<and>
    (\<forall>i \<in> set created. getWorkItem i s = None \<and> (i \<in> set failures \<longleftrightarrow> getWorkItem i s' \<noteq> None)) \<and>
    (\<forall>i. getWorkItem i s \<noteq> None \<longrightarrow> getWorkItem i s' \<noteq> None) \<and>
    (undo = [] \<longrightarrow> failures = (if create_gate s' = Inr () then [] else created) \<and> (e \<noteq> StoreThrew Unavailable \<longrightarrow> failures = created))"
proof -
  obtain order s1 where failed: "seed_nodes (the runId) now caller ds (map (\<lambda>l. the (find (\<lambda>n. bn_localId n = l) nodes)) order) [] 0 s
      = (Inl (e, created), s1)" and undone: "roll_back undo created s1 = (failures, s')"
    by (rule expansion_stopped [OF assms(4)])
  from seed_failed [OF failed run_ok [OF assms(1)] assms(2)] have s1: "hub_ok s1" "distinct created"
    "\<forall>i \<in> set created. getWorkItem i s1 \<noteq> None" "\<forall>i \<in> set created. getWorkItem i s = None"
    "\<forall>i. getWorkItem i s \<noteq> None \<longrightarrow> getWorkItem i s1 \<noteq> None" "e = StoreThrew Unavailable \<or> create_gate s1 = Inl e" by simp_all
  note report = roll_back_report [OF undone s1(1) assms(3) s1(2,3)]
  have "failures = (if create_gate s' = Inr () then [] else created) \<and> (e \<noteq> StoreThrew Unavailable \<longrightarrow> failures = created)" if "undo = []"
  proof (cases "create_gate s1")
    case (Inl e')
    from roll_back_alone(1) [OF this, of created] Inl undone that show ?thesis by simp
  next
    case (Inr u)
    from roll_back_alone(2) [OF this, of created] Inr undone that s1(6) show ?thesis by simp
  qed
  then have alone: "undo = [] \<Longrightarrow> failures = (if create_gate s' = Inr () then [] else created)"
    "undo = [] \<Longrightarrow> e \<noteq> StoreThrew Unavailable \<Longrightarrow> failures = created" by blast+
  have kept: "getWorkItem i s' \<noteq> None" if "getWorkItem i s \<noteq> None" for i
  proof -
    have "i \<notin> set created" "getWorkItem i s1 \<noteq> None" using that s1(4,5) by auto
    with report show ?thesis by simp
  qed
  from report have failures: "set failures \<subseteq> set created" "\<forall>i \<in> set created. i \<in> set failures \<longleftrightarrow> getWorkItem i s' \<noteq> None" by simp_all
  show ?thesis
  proof (intro conjI ballI allI impI)
    show "set failures \<subseteq> set created" by (rule failures(1))
    show "getWorkItem i s = None" "(i \<in> set failures) = (getWorkItem i s' \<noteq> None)" if "i \<in> set created" for i
      using that s1(4) failures(2) by simp_all
  qed (use kept alone in blast)+
qed

text \<open>
  C25: the compensation of a failed expansion is reported truthfully.  Whatever other clients do between two nodes short of deleting items, and between
  two deletions short of creating or deleting items, and whichever requests find the store unavailable: when an expansion fails in the
  middle, the nodes reported as created are new ones, those reported as failed deletions are exactly those of them that are still
  there, and no item of before is gone.  With an available store and nobody acting during the compensation every created node is deleted,
  unless the fence is closed by then, as it is whenever a fence was what refused the creation; then none is.
\<close>

theorem rollback_reported:
  assumes "hub_run sha t s" "\<forall>d \<in> set ds. harmless (fst d)" "\<forall>d \<in> set undo. steady (fst d)"
    and "seed_blueprint_with ds undo now caller dryRun runId nodes s = (Inl (ExpansionFailed e created failures), notices, s')"
  shows "set failures \<subseteq> set created \<and>
    (\<forall>i \<in> set created. getWorkItem i s = None \<and> (i \<in> set failures \<longleftrightarrow> getWorkItem i s' \<noteq> None)) \<and>
    (\<forall>i. getWorkItem i s \<noteq> None \<longrightarrow> getWorkItem i s' \<noteq> None) \<and>
    (undo = [] \<longrightarrow> failures = (if create_gate s' = Inr () then [] else created) \<and> (e \<noteq> StoreThrew Unavailable \<longrightarrow> failures = created))"
  using assms by (rule expansion_failed)

text \<open>The store is unavailable when the second node is created: the first is deleted again.\<close>

theorem rollback_reported_witness:
  "\<exists>notices s'. seed_blueprint_with [(\<lambda>s. s, False), (\<lambda>s. s, True)] [] 300 demo_creator False (Some ''r'') demo_blueprint demo_base =
     (Inl (ExpansionFailed (StoreThrew Unavailable) [''work-bp-r-a''] []), notices, s') \<and> getWorkItem ''work-bp-r-a'' s' = None"
proof -
  let ?run = "seed_blueprint_with [(\<lambda>s. s, False), (\<lambda>s. s, True)] [] 300 demo_creator False (Some ''r'') demo_blueprint demo_base"
  have "fst ?run = Inl (ExpansionFailed (StoreThrew Unavailable) [''work-bp-r-a''] [])" by code_simp
  then obtain notices s' where r: "?run = (Inl (ExpansionFailed (StoreThrew Unavailable) [''work-bp-r-a''] []), notices, s')"
    by (metis prod.collapse)
  have "\<forall>d \<in> set [(\<lambda>s. s, False), (\<lambda>s. s, True)]. harmless (fst d)" by (simp add: harmless_def)
  from rollback_reported [OF demo_base_run this _ r] r show ?thesis by simp
qed


text \<open>Another client activates a topology generation after the first node.\<close>

definition demo_generation :: topology_generation where
  "demo_generation = \<lparr>tg_id = ''m'', tg_generation = 1, tg_bindings = [], tg_dependsOn = [], tg_completionDependsOn = [],
     tg_reverseCompletionDependsOn = [], tg_topologyHash = ''h'', tg_operationId = ''o''\<rparr>"

definition activation :: "hub_store \<Rightarrow> hub_store" where
  "activation s =
     write_row HEAD_KIND WORK_GRAPH_HEAD_ID
       (EHead \<lparr>th_domain = WORK_GRAPH_HEAD_ID, th_generation = 1, th_manifestId = ''m'', th_topologyHash = ''h'', th_operationId = ''o''\<rparr>)
       (write_row GENERATION_KIND (topologyGenerationId 1) (EGeneration demo_generation) s)"

lemma activation_harmless: "harmless activation"
  by (simp add: harmless_def activation_def hub_ok_write_other getWorkItem_other WORK_KIND_def HEAD_KIND_def GENERATION_KIND_def)

definition demo_failed :: "seed_report policy_result" where
  "demo_failed = seed_blueprint_with [(\<lambda>s. s, False), (activation, False)] [] 300 demo_creator False (Some ''r'') demo_blueprint demo_base"



section \<open>The graphs of the queue\<close>


definition demo_item :: "string list \<Rightarrow> create_input" where
  "demo_item deps = demo_input\<lparr>ci_dependsOn := Some deps\<rparr>"

definition demo_append :: work_update where
  "demo_append = no_update\<lparr>us_appendCompletionDependsOn := [''work-2'']\<rparr>"

definition graph_create_1 :: "string list \<Rightarrow> hub_store \<Rightarrow> hub_store" where
  "graph_create_1 deps s = snd (snd (create_work (\<lambda>_. False) 100 demo_creator (demo_item deps) s))"

definition graph_2 :: hub_store where
  "graph_2 = graph_create_1 [''work-1''] (graph_create_1 [] empty_substrate)"

text \<open>A third item is created while the first is edited.\<close>

definition graph_3 :: hub_store where
  "graph_3 = snd (snd (update_work_with (graph_create_1 [''work-2'']) id (\<lambda>_. False) demo_sha 300 demo_creator ''work-1'' demo_append graph_2))"

lemma create_keeps_edges:
  assumes "hub_ok s"
  shows "edges_kept s (graph_create_1 deps s)"
proof -
  let ?input = "(demo_item deps)\<lparr>ci_nodeConfig := None, ci_createdBy := Some demo_creator\<rparr>"
  obtain r s' where run: "createWorkItem 100 ?input s = (r, s')" by (cases "createWorkItem 100 ?input s")
  have "edges_kept s s'" using assms run
  proof (cases rule: create_effect)
    case (refused e)
    then show ?thesis by (auto simp: edges_kept_def getWorkItem_other)
  next
    case (created n e)
    then show ?thesis by (auto simp: edges_kept_def getWorkItem_other)
  qed
  then show ?thesis by (auto simp: graph_create_1_def create_work_def create_work_with_def run split: sum.split)
qed

lemma graph_create_run: "graph_run refuses sha s \<Longrightarrow> refuses = (\<lambda>_. False) \<Longrightarrow> graph_run refuses sha (graph_create_1 deps s)"
  unfolding graph_create_1_def create_work_def by (simp add: gr_create [where others = id])

lemma graph_2_run: "graph_run (\<lambda>_. False) demo_sha graph_2"
  unfolding graph_2_def by (intro graph_create_run gr_start refl)

lemma graph_3_run: "graph_run (\<lambda>_. False) demo_sha graph_3"
  unfolding graph_3_def
proof (rule gr_update [OF graph_2_run])
  show "graph_run (\<lambda>_. False) demo_sha (id (graph_create_1 [''work-2''] graph_2))"
    using graph_create_run [OF graph_2_run] by simp
  have "hub_ok graph_2" using graph_run_ok [OF graph_2_run] by (simp add: graph_ok_def)
  then show "edges_kept graph_2 (id (graph_create_1 [''work-2''] graph_2))" by (simp add: create_keeps_edges)
qed

lemma graph_3_edges:
  "map_option wi_dependsOn (getWorkItem ''work-2'' graph_3) = Some [''work-1'']"
  "map_option wi_completionDependsOn (getWorkItem ''work-1'' graph_3) = Some [''work-2'']"
  by code_simp+


text \<open>
  The two graphs together.  An edit checks each class of edges alone.  A run of two creations and one accepted edit ends with an item
  that cannot start before the other is done while the other cannot complete before it; a blueprint with these two nodes is
  refused as a cycle.
\<close>

theorem mixed_cycle_accepted:
  "graph_run (\<lambda>_. False) demo_sha graph_3 \<and>
   \<not> acyclic (work_edges DependsOn graph_3 \<union> work_edges CompletionDependsOn graph_3) \<and>
   unionTopoSort [demo_node ''a'' [] [''b''], demo_node ''b'' [''a''] []] = None"
proof -
  have "(''work-2'', ''work-1'') \<in> work_edges DependsOn graph_3" "(''work-1'', ''work-2'') \<in> work_edges CompletionDependsOn graph_3"
    using graph_3_edges by (auto simp: work_edges_iff edges_of_def)
  then have "(''work-2'', ''work-2'') \<in> (work_edges DependsOn graph_3 \<union> work_edges CompletionDependsOn graph_3)\<^sup>+"
    by (meson UnI1 UnI2 r_into_trancl' trancl.trancl_into_trancl)
  moreover have "unionTopoSort [demo_node ''a'' [] [''b''], demo_node ''b'' [''a''] []] = None" by code_simp
  ultimately show ?thesis using graph_3_run by (auto simp: acyclic_def)
qed

text \<open>
  Two edits that overlap.  The checks of an edit and its write are separate, and the write compares only the revision of its own row: an item
  is made to wait for a second one while the second is made to wait for it; both edits are accepted and neither can ever start.
\<close>

definition graph_pair :: hub_store where
  "graph_pair = graph_create_1 [] (graph_create_1 [] empty_substrate)"

definition wait_for :: "string \<Rightarrow> work_update" where
  "wait_for i = no_update\<lparr>us_appendDependsOn := [i]\<rparr>"

definition overlapping_edits :: "work_item policy_result" where
  "overlapping_edits = update_work_with (\<lambda>s. snd (snd (update_work (\<lambda>_. False) demo_sha 300 demo_creator ''work-2'' (wait_for ''work-1'') s))) id
     (\<lambda>_. False) demo_sha 310 demo_creator ''work-1'' (wait_for ''work-2'') graph_pair"

theorem overlapping_edits_close_cycle:
  "is_ok (fst overlapping_edits) \<and> is_ok (fst (update_work (\<lambda>_. False) demo_sha 300 demo_creator ''work-2'' (wait_for ''work-1'') graph_pair)) \<and>
   graph_run (\<lambda>_. False) demo_sha graph_pair \<and> \<not> acyclic (work_edges DependsOn (snd (snd overlapping_edits)))"
proof -
  have edges: "map_option wi_dependsOn (getWorkItem ''work-1'' (snd (snd overlapping_edits))) = Some [''work-2'']"
    "map_option wi_dependsOn (getWorkItem ''work-2'' (snd (snd overlapping_edits))) = Some [''work-1'']" by code_simp+
  then have "(''work-1'', ''work-2'') \<in> work_edges DependsOn (snd (snd overlapping_edits))"
    "(''work-2'', ''work-1'') \<in> work_edges DependsOn (snd (snd overlapping_edits))"
    by (auto simp: work_edges_iff edges_of_def)
  then have "(''work-1'', ''work-1'') \<in> (work_edges DependsOn (snd (snd overlapping_edits)))\<^sup>+"
    by (meson r_into_trancl' trancl.trancl_into_trancl)
  moreover have "is_ok (fst overlapping_edits)"
    "is_ok (fst (update_work (\<lambda>_. False) demo_sha 300 demo_creator ''work-2'' (wait_for ''work-1'') graph_pair))" by code_simp+
  moreover have "graph_run (\<lambda>_. False) demo_sha graph_pair" unfolding graph_pair_def by (intro graph_create_run gr_start refl)
  ultimately show ?thesis by (auto simp: acyclic_def)
qed

end
