(* ===== verification/Sweep_Outcomes.thy ===== *)
theory Sweep_Outcomes
  imports Sweep_Properties Policy_Outcomes
begin

text \<open>
  What the notice outbox and the lease sweep promise: a notice interrupted and retried at will is sent once, and which
  writes of the sweep go past the writer fence.
\<close>

section \<open>A notice is sent once\<close>

text \<open>
  An attempt to project a notice: what others do before it and while it runs, whether it is under the read pin of the sweep, where it
  is interrupted, when, and the copy of the row it was listed with.
\<close>

type_synonym attempt = "(hub_store \<Rightarrow> hub_store) \<times> bystanders \<times> bool \<times> failpoint \<times> instant \<times> work_item"

fun notice_attempt :: "(hub_store \<Rightarrow> string) \<Rightarrow> sha256 \<Rightarrow> seal_notice \<Rightarrow> attempt \<Rightarrow> hub_store \<Rightarrow> (projector_error + bool) \<times> hub_store" where
  "notice_attempt newId sha n (gap, others, pinned, fp, now, w) s = project_seal_notice_with others pinned newId fp sha now w n (gap s)"

definition notice_attempts :: "(hub_store \<Rightarrow> string) \<Rightarrow> sha256 \<Rightarrow> seal_notice \<Rightarrow> attempt list \<Rightarrow> hub_store \<Rightarrow> hub_store" where
  "notice_attempts newId sha n history = fold (\<lambda>a s. snd (notice_attempt newId sha n a s)) history"

text \<open>No two attempts overlap: the others of an attempt send nothing about the notice.\<close>

fun apart_from_others :: "string \<Rightarrow> attempt \<Rightarrow> bool" where
  "apart_from_others x (gap, others, pinned, fp, now, w) \<longleftrightarrow> leaves_notice x gap \<and> leave_notice x others"

lemma attempt_once:
  assumes once: "sent_once n s" and x: "sn_intentId n \<noteq> []" and others: "apart_from_others (sn_intentId n) (gap, others, pinned, fp, now, w)"
    and run: "notice_attempt newId sha n (gap, others, pinned, fp, now, w) s = (r, s')"
  shows "sent_once n s'" and "\<forall>i. getWorkItem i s \<noteq> None \<longrightarrow> getWorkItem i s' \<noteq> None"
    and "r = Inr b \<Longrightarrow> getWorkItem (wi_id w) s \<noteq> None \<Longrightarrow> \<exists>m w'. messages_about (sn_intentId n) s' = {m} \<and> getWorkItem (wi_id w) s' = Some w' \<and>
      (\<exists>y \<in> set (wi_pendingFailedSealNotices w'). sn_intentId y = sn_intentId n \<and> sn_projectedMessageId y = Some (ms_id m))"
proof -
  have gap: "leaves_notice (sn_intentId n) gap" and during: "leave_notice (sn_intentId n) others" using others by simp_all
  have "hub_ok s" "mail_ok s" using once by (simp_all add: sent_once_def)
  then have left: "notice_left (sn_intentId n) s (gap s)" using gap by (simp add: leaves_notice_def)
  have kept: "getWorkItem i s \<noteq> None \<Longrightarrow> getWorkItem i (gap s) \<noteq> None" for i using left by (simp add: notice_left_def)
  have run: "project_seal_notice_with others pinned newId fp sha now w n (gap s) = (r, s')" using run by simp
  note step = project_seal_once [OF once_left [OF once left] x during run]
  show "sent_once n s'" by (rule step(1))
  show "\<forall>i. getWorkItem i s \<noteq> None \<longrightarrow> getWorkItem i s' \<noteq> None" using kept step(2) by simp
  show "\<exists>m w'. messages_about (sn_intentId n) s' = {m} \<and> getWorkItem (wi_id w) s' = Some w' \<and>
      (\<exists>y \<in> set (wi_pendingFailedSealNotices w'). sn_intentId y = sn_intentId n \<and> sn_projectedMessageId y = Some (ms_id m))"
    if "r = Inr b" "getWorkItem (wi_id w) s \<noteq> None" using that(1) kept [OF that(2)] by (rule step(3))
qed

lemma attempts_once:
  "sent_once n s \<Longrightarrow> sn_intentId n \<noteq> [] \<Longrightarrow> \<forall>a \<in> set history. apart_from_others (sn_intentId n) a \<Longrightarrow>
    sent_once n (notice_attempts newId sha n history s) \<and>
    (getWorkItem i s \<noteq> None \<longrightarrow> getWorkItem i (notice_attempts newId sha n history s) \<noteq> None)"
proof (induction history arbitrary: s)
  case (Cons a history)
  obtain gap others pinned fp now w where a: "a = (gap, others, pinned, fp, now, w)" by (cases a) auto
  obtain r t where t: "notice_attempt newId sha n a s = (r, t)" by (cases "notice_attempt newId sha n a s")
  have "apart_from_others (sn_intentId n) (gap, others, pinned, fp, now, w)" using Cons.prems(3) a by simp
  note step = attempt_once [OF Cons.prems(1,2) this t [unfolded a]]
  have "notice_attempts newId sha n (a # history) s = notice_attempts newId sha n history t" using t by (simp add: notice_attempts_def)
  with Cons.IH [OF step(1) Cons.prems(2)] Cons.prems(3) step(2) show ?case by simp
qed (simp add: notice_attempts_def)


definition demo_receipt :: seal_receipt where
  "demo_receipt =
     \<lparr>sr_workId = ''work-1'', sr_logicalId = ''work-1'', sr_revision = 1, sr_topologyGeneration = 0, sr_requirementId = ''r1'',
      sr_verifierId = ''vera'', sr_producedAt = 500, sr_operationId = ''op'',
      sr_before = \<lparr>sb_phase = Review, sb_holder = Some ''eng'', sb_claimedAt = Some 200, sb_expiresAt = Some 900,
        sb_heartbeatAt = Some 400, sb_tokenFingerprint = Some ''f'', sb_blockedOn = None, sb_stateHash = ''s'',
        sb_evidenceSetHash = ''e'', sb_activeAttestationProjectionHash = ''a'', sb_resourceVersion = 4\<rparr>,
      sr_attestationHistoryIndex = 0, sr_attestationId = ''t'', sr_requirementHash = ''q'', sr_targetRefHash = ''g'',
      sr_attestationEvidenceSetHash = ''e'', sr_sealedAt = 500\<rparr>"

definition demo_notice :: seal_notice where
  "demo_notice =
     \<lparr>sn_intentId = ''n1'', sn_sealHash = ''h'', sn_workId = ''work-1'', sn_requirementId = ''r1'', sn_verifierId = ''vera'',
      sn_producedAt = 500, sn_exactHolderAgentId = ''eng'', sn_createdAt = 500, sn_projectedMessageId = None, sn_projectedAt = None\<rparr>"

definition noticed_row :: work_item where
  "noticed_row = (born ''work-1'' 100 demo_input)
     \<lparr>wi_status := FailedSealed, wi_lease := None,
      wi_failedGateSeal := Some \<lparr>fs_operationId = ''op'', fs_sealHash = ''h'', fs_receipt = demo_receipt,
        fs_holderNoticeIntentId = Some ''n1''\<rparr>,
      wi_pendingFailedSealNotices := [demo_notice], wi_failedSealNoticePending := True\<rparr>"

definition noticed_hub :: hub_store where
  "noticed_hub = write_row WORK_KIND ''work-1'' (EWork noticed_row) empty_substrate"

definition stops_at :: "projector_stage \<Rightarrow> failpoint" where
  "stops_at stage = (\<lambda>st workId intentId. st = stage)"

text \<open>
  Three attempts die: before the message, after it, and after the mark.  During the second a message about something else is sent, and the
  holder claims the notice before the third.
\<close>

definition other_message :: create_message_input where
  "other_message = (holder_message ''hub'' ''eng'' (JStr ''hello'') ''n2'')"

definition demo_attempts :: "attempt list" where
  "demo_attempts =
     [(id, nobody, True, stops_at BeforeMessagePersist, 600, noticed_row),
      (id, nobody\<lparr>by_create := (\<lambda>s. snd (createMessage ''m2'' 690 other_message s))\<rparr>, True, stops_at AfterMessagePersist, 700, noticed_row),
      (\<lambda>s. snd (claimMessage 750 ''m1'' ''eng'' s), nobody, False, stops_at AfterIntentMark, 800, noticed_row)]"

definition noticed_later :: hub_store where
  "noticed_later = notice_attempts (\<lambda>s. ''m1'') demo_sha demo_notice demo_attempts noticed_hub"

lemma noticed_id: "wi_id noticed_row = ''work-1''"
proof -
  have "wi_id (born ''work-1'' 100 demo_input) = ''work-1''" by code_simp
  then show ?thesis by (simp add: noticed_row_def)
qed

lemma noticed_hub_ok: "hub_ok noticed_hub" "mail_ok noticed_hub" "messages_about x noticed_hub = {}"
proof -
  show "hub_ok noticed_hub" unfolding noticed_hub_def
    by (rule hub_ok_write_work [OF hub_ok_empty]) (simp_all add: noticed_id)
  show "mail_ok noticed_hub" unfolding noticed_hub_def
    by (rule msg.ok_write_other [OF mail_empty]) (rule mail_not_work)
  show "messages_about x noticed_hub = {}" unfolding noticed_hub_def messages_about_def by (simp add: getMessage_work)
qed

lemma demo_attempts_apart: "\<forall>a \<in> set demo_attempts. apart_from_others ''n1'' a"
proof -
  have "cm_migrationSourceId other_message \<noteq> Some ''n1''" by (simp add: other_message_def holder_message_def)
  then have "leave_notice ''n1'' (nobody\<lparr>by_create := (\<lambda>s. snd (createMessage ''m2'' 690 other_message s))\<rparr>)"
    by (simp add: leave_notice_def nobody_def create_leaves_notice)
  then show ?thesis by (simp add: demo_attempts_def claim_leaves_notice)
qed


text \<open>
  Two attempts that overlap, as the request that sealed the row and the sweep can: nothing makes the source of a message unique, so that when one
  attempt runs between the look of the other and its creation, the notice is stored, and pushed, twice.
\<close>

definition second_attempt :: "hub_store \<Rightarrow> hub_store" where
  "second_attempt s = snd (project_seal_notice True (\<lambda>s. ''m2'') no_failpoint demo_sha 600 noticed_row demo_notice s)"

definition overlapped_notice :: "(projector_error + bool) \<times> hub_store" where
  "overlapped_notice = project_seal_notice_with
     (nobody\<lparr>by_create := second_attempt\<rparr>) True (\<lambda>s. ''m1'') no_failpoint demo_sha 610 noticed_row demo_notice noticed_hub"

theorem notice_race:
  "\<exists>m m'. m \<in> messages_about ''n1'' (snd overlapped_notice) \<and> m' \<in> messages_about ''n1'' (snd overlapped_notice) \<and> ms_id m \<noteq> ms_id m'"
proof -
  have "map_option (\<lambda>m. (ms_id m, ms_migrationSourceId m)) (getMessage ''m1'' (snd overlapped_notice)) = Some (''m1'', Some ''n1'')"
    "map_option (\<lambda>m. (ms_id m, ms_migrationSourceId m)) (getMessage ''m2'' (snd overlapped_notice)) = Some (''m2'', Some ''n1'')"
    by code_simp+
  then obtain m m' where "getMessage ''m1'' (snd overlapped_notice) = Some m" "ms_id m = ''m1''" "ms_migrationSourceId m = Some ''n1''"
    "getMessage ''m2'' (snd overlapped_notice) = Some m'" "ms_id m' = ''m2''" "ms_migrationSourceId m' = Some ''n1''" by auto
  then show ?thesis by (intro exI [of _ m] exI [of _ m']) (simp add: messages_about_def)
qed

section \<open>The sweep passes the writer fence\<close>

text \<open>
  The sweep expires its rows under the head it pinned at the start and takes no writer fence.  Where a topology generation is activated
  while it runs, the fenced expiry of a lapsed row that the generation does not bind is refused, but the one of the sweep takes the
  lease off the row all the same.
\<close>

theorem sweep_unfenced:
  assumes run: "hub_run sha t s" and w: "getWorkItem i s = Some w" "lapsed now w" "topology_stringent w"
    and later: "hub_ok s1" "getWorkItem i s1 = Some w" "read_pin s1 = Inr p" "assertCurrent sha w p = Inl e"
  shows "expireLease sha now i cap s1 = (Inl e, s1) \<and>
    (\<exists>out s2 w2. expire_under sha now i cap LegacyPin s1 = (Inr out, s2) \<and> getWorkItem i s2 = Some w2 \<and> wi_lease w2 = None)"
proof -
  obtain rv where at: "work_at i s1 = Some (w, rv)"
    using later(2) by (auto simp: getWorkItem_def get_work_at split: option.splits)
  obtain l where l: "wi_lease w = Some l" using w(2) by (auto simp: lapsed_iff)
  have row: "expire_row sha now cap LegacyPin w rv = map_sum Some id (lapsed_row sha now cap LegacyPin w rv l)"
    using w(2) l run_no_active_fail [OF run w(1)] by (auto simp: expire_row_def lapsed_iff LEASE_HELD_PHASES_def)
  have "is_ok (lapsed_row sha now cap LegacyPin w rv l) \<longleftrightarrow> is_ok (deriveFrozenRecallAuthority sha LegacyPin w)"
    by (cases "deriveFrozenRecallAuthority sha LegacyPin w") (simp_all add: lapsed_row_def Let_def)
  then have "is_ok (lapsed_row sha now cap LegacyPin w rv l)" using w(3) by (simp add: legacy_frozen_ok)
  then obtain w' where w': "lapsed_row sha now cap LegacyPin w rv l = Inr w'" by (auto simp: is_ok_iff)
  have "wi_lease w' = None" using w' by (auto simp only: lapsed_row_Inr) simp
  then have "\<exists>out s2 w2. expire_under sha now i cap LegacyPin s1 = (Inr out, s2) \<and> getWorkItem i s2 = Some w2 \<and> wi_lease w2 = None"
    by (simp add: expire_under_eq [OF later(1)] at expire_decision_def row w' getWorkItem_def get_work_at cloneWorkItem_def)
  moreover have "expireLease sha now i cap s1 = (Inl e, s1)"
    by (simp add: expireLease_eq [OF later(1)] later(3,4) at expire_decision_def)
  ultimately show ?thesis by blast
qed

theorem sweep_unfenced_witness:
  "\<exists>e out s2. expireLease demo_sha 1000000 ''work-1'' 3 (activation hub_2) = (Inl e, activation hub_2) \<and>
     expire_under demo_sha 1000000 ''work-1'' 3 LegacyPin (activation hub_2) = (Inr out, s2)"
proof -
  have "getWorkItem ''work-1'' hub_2 \<noteq> None \<and> lapsed 1000000 (the (getWorkItem ''work-1'' hub_2)) \<and>
      topology_stringent (the (getWorkItem ''work-1'' hub_2))" by code_simp
  then obtain w where w: "getWorkItem ''work-1'' hub_2 = Some w" "lapsed 1000000 w" "topology_stringent w" by auto
  have "case read_pin (activation hub_2) of Inl e \<Rightarrow> False
      | Inr p \<Rightarrow> \<not> is_ok (assertCurrent demo_sha (the (getWorkItem ''work-1'' hub_2)) p)" by code_simp
  then obtain p e where p: "read_pin (activation hub_2) = Inr p" "assertCurrent demo_sha w p = Inl e"
    using w(1) by (auto split: sum.splits simp: is_ok_iff) (metis sum.exhaust)
  have "hub_ok (activation hub_2)" using activation_harmless run_ok [OF hub_2_run] by (simp add: harmless_def)
  moreover have "getWorkItem ''work-1'' (activation hub_2) = Some w"
    using w(1) by (simp add: activation_def getWorkItem_other WORK_KIND_def HEAD_KIND_def GENERATION_KIND_def)
  ultimately show ?thesis using sweep_unfenced [OF hub_2_run w _ _ p] by blast
qed

end
