(* ===== verification/Pending_Actions.thy ===== *)
theory Pending_Actions
  imports Entity_Kind
begin

text \<open>
  The queue of actions owed to agents (\<open>hub/src/entities/pending-action-repository-substrate.ts\<close>): enqueueing with the natural key of agent,
  entity and dispatch type, the acknowledgements, escalation, abandonment, the continuation of an exhausted action, and the scans of the
  watchdog and the pruner.  The decode of the stored envelope, log lines, the stable complete list and the setter for tests are left out.
\<close>

definition PENDING_KIND :: string where "PENDING_KIND = ''PendingAction''"

definition PENDING_COUNTER :: string where "PENDING_COUNTER = ''pendingActionCounter''"

definition PENDING_LIST_CAP :: nat where "PENDING_LIST_CAP = 500"

fun as_pending :: "hub_entity \<Rightarrow> pending_action option" where
  "as_pending (EPending a) = Some a"
| "as_pending _ = None"

datatype pending_error =
    PendingUndecodable
  | PendingStoreThrew store_error
  | PendingCasExhausted
  | PendingCounter wi_error
  | PendingIdTaken

type_synonym 'a pending_result = "(pending_error + 'a) \<times> hub_store"

definition getPending :: "string \<Rightarrow> hub_store \<Rightarrow> pending_action option" where
  "getPending i s = row_of as_pending PENDING_KIND i s"

definition list_pending :: "(pending_action \<Rightarrow> bool) \<Rightarrow> hub_store \<Rightarrow> pending_action list" where
  "list_pending P s = list_kind as_pending PENDING_KIND P None PENDING_LIST_CAP s"

section \<open>Enqueueing\<close>

definition naturalKey :: "agent_id \<Rightarrow> string \<Rightarrow> dispatch_type \<Rightarrow> string" where
  "naturalKey agent entityRef dispatch = agent @ '':'' @ entityRef @ '':'' @ dispatch_name dispatch"

text \<open>\<open>toString(36)\<close> of a number that is not negative.\<close>

definition digit36 :: "nat \<Rightarrow> char" where
  "digit36 n = ''0123456789abcdefghijklmnopqrstuvwxyz'' ! n"

fun show36 :: "nat \<Rightarrow> string" where
  "show36 n = (if n < 36 then [digit36 n] else show36 (n div 36) @ [digit36 (n mod 36)])"

declare show36.simps [simp del]

definition pending_id :: "instant \<Rightarrow> int \<Rightarrow> string" where
  "pending_id now num =
     ''pa-'' @ map (\<lambda>c. if c = CHR '':'' \<or> c = CHR ''.'' then CHR ''-'' else c) (toISOString now) @ ''-'' @ show36 (nat num)"

definition at_instant :: "instant \<Rightarrow> stamp" where
  "at_instant t = Stamp (toISOString t) (Some t)"

definition new_pending :: "instant \<Rightarrow> int \<Rightarrow> enqueue_options \<Rightarrow> pending_action" where
  "new_pending now num q =
     \<lparr>pa_id = pending_id now num, pa_targetAgentId = eo_targetAgentId q, pa_dispatchType = eo_dispatchType q,
      pa_entityRef = eo_entityRef q, pa_naturalKey = naturalKey (eo_targetAgentId q) (eo_entityRef q) (eo_dispatchType q),
      pa_payload = eo_payload q, pa_enqueuedAt = now,
      pa_receiptDeadline = at_instant (now + (case eo_receiptSlaMs q of None \<Rightarrow> DEFAULT_RECEIPT_SLA_MS | Some n \<Rightarrow> n)),
      pa_completionDeadline = at_instant (now + (case eo_completionSlaMs q of None \<Rightarrow> DEFAULT_COMPLETION_SLA_MS | Some n \<Rightarrow> n)),
      pa_receiptAckedAt = None, pa_completionAckedAt = None, pa_attemptCount = 0, pa_lastAttemptAt = None,
      pa_state = PaEnqueued, pa_escalationReason = None, pa_createdBy = eo_createdBy q, pa_continuationState = None,
      pa_continuationSavedAt = None\<rparr>"

text \<open>
  An action is not queued twice: the first listed row of the key that is neither completed nor errored is the answer.  What others do between
  that look and the creation is an argument.
\<close>

definition enqueue_with :: "(hub_store \<Rightarrow> hub_store) \<Rightarrow> instant \<Rightarrow> enqueue_options \<Rightarrow> hub_store \<Rightarrow> pending_action pending_result" where
  "enqueue_with others now q s =
     (let key = naturalKey (eo_targetAgentId q) (eo_entityRef q) (eo_dispatchType q) in
      case find (\<lambda>a. pa_state a \<noteq> PaCompletionAcked \<and> pa_state a \<noteq> PaErrored) (list_pending (\<lambda>a. pa_naturalKey a = key) s) of
        Some a \<Rightarrow> (Inr a, s)
      | None \<Rightarrow>
          (case next_id PENDING_COUNTER (others s) of
             (Inl e, s') \<Rightarrow> (Inl (PendingCounter e), s')
           | (Inr num, s') \<Rightarrow>
               (let a = new_pending now num q in
                case createOnly ident PENDING_KIND (EPending a) s' of
                  Inl z \<Rightarrow> (Inl (PendingStoreThrew z), s')
                | Inr (Created i rv, s'') \<Rightarrow> (Inr a, s'')
                | Inr (ExistingConflict, s'') \<Rightarrow> (Inl PendingIdTaken, s''))))"

definition enqueue :: "instant \<Rightarrow> enqueue_options \<Rightarrow> hub_store \<Rightarrow> pending_action pending_result" where
  "enqueue = enqueue_with id"

section \<open>Updates\<close>

text \<open>A missing row and a refused transition both answer with nothing.\<close>

definition pending_update_with :: "hub_store attempt list \<Rightarrow> string \<Rightarrow> (pending_action \<Rightarrow> unit + pending_action) \<Rightarrow> hub_store
    \<Rightarrow> pending_action option pending_result" where
  "pending_update_with envs i f s =
     (case cas_update PENDING_KIND EPending as_pending envs i f s of
        (CasDone e, s') \<Rightarrow> ((case as_pending e of None \<Rightarrow> Inl PendingUndecodable | Some a \<Rightarrow> Inr (Some a)), s')
      | (CasMissing, s') \<Rightarrow> (Inr None, s')
      | (CasFailed None, s') \<Rightarrow> (Inl PendingUndecodable, s')
      | (CasFailed (Some _), s') \<Rightarrow> (Inr None, s')
      | (CasThrew z, s') \<Rightarrow> (Inl (PendingStoreThrew z), s')
      | (CasExhausted, s') \<Rightarrow> (Inl PendingCasExhausted, s'))"

definition pending_update :: "string \<Rightarrow> (pending_action \<Rightarrow> unit + pending_action) \<Rightarrow> hub_store \<Rightarrow> pending_action option pending_result" where
  "pending_update = pending_update_with quiet"

definition receipt_row :: "instant \<Rightarrow> pending_action \<Rightarrow> unit + pending_action" where
  "receipt_row now a =
     Inr (if pa_state a \<noteq> PaEnqueued then a else a\<lparr>pa_state := PaReceiptAcked, pa_receiptAckedAt := Some now\<rparr>)"

definition receiptAck :: "instant \<Rightarrow> string \<Rightarrow> hub_store \<Rightarrow> pending_action option pending_result" where
  "receiptAck now i = pending_update i (receipt_row now)"

definition completion_row :: "instant \<Rightarrow> pending_action \<Rightarrow> unit + pending_action" where
  "completion_row now a =
     Inr (if pa_state a = PaCompletionAcked then a
          else a\<lparr>pa_state := PaCompletionAcked, pa_completionAckedAt := Some now,
                 pa_receiptAckedAt := (case pa_receiptAckedAt a of None \<Rightarrow> Some now | Some t \<Rightarrow> Some t)\<rparr>)"

definition completionAck :: "instant \<Rightarrow> string \<Rightarrow> hub_store \<Rightarrow> pending_action option pending_result" where
  "completionAck now i = pending_update i (completion_row now)"

definition escalate_row :: "string \<Rightarrow> pending_action \<Rightarrow> unit + pending_action" where
  "escalate_row reason a = Inr (a\<lparr>pa_state := PaEscalated, pa_escalationReason := Some reason\<rparr>)"

definition escalate :: "string \<Rightarrow> string \<Rightarrow> hub_store \<Rightarrow> pending_action option pending_result" where
  "escalate i reason = pending_update i (escalate_row reason)"

definition attempt_row :: "instant \<Rightarrow> pending_action \<Rightarrow> unit + pending_action" where
  "attempt_row now a = Inr (a\<lparr>pa_attemptCount := pa_attemptCount a + 1, pa_lastAttemptAt := Some now\<rparr>)"

definition incrementAttempt :: "instant \<Rightarrow> string \<Rightarrow> hub_store \<Rightarrow> pending_action option pending_result" where
  "incrementAttempt now i = pending_update i (attempt_row now)"

definition reschedule_row :: "stamp \<Rightarrow> pending_action \<Rightarrow> unit + pending_action" where
  "reschedule_row d a = Inr (a\<lparr>pa_receiptDeadline := d\<rparr>)"

definition rescheduleReceiptDeadline :: "string \<Rightarrow> stamp \<Rightarrow> hub_store \<Rightarrow> pending_action option pending_result" where
  "rescheduleReceiptDeadline i d = pending_update i (reschedule_row d)"

definition abandon_row_pa :: "string \<Rightarrow> pending_action \<Rightarrow> unit + pending_action" where
  "abandon_row_pa reason a =
     Inr (if pa_state a \<in> {PaCompletionAcked, PaErrored, PaEscalated} then a
          else a\<lparr>pa_state := PaErrored, pa_escalationReason := Some reason\<rparr>)"

definition abandon_pending :: "string \<Rightarrow> string \<Rightarrow> hub_store \<Rightarrow> pending_action option pending_result" where
  "abandon_pending i reason = pending_update i (abandon_row_pa reason)"

definition save_row :: "instant \<Rightarrow> agent_id \<Rightarrow> json \<Rightarrow> pending_action \<Rightarrow> unit + pending_action" where
  "save_row now caller st a =
     (if pa_targetAgentId a \<noteq> caller then Inl ()
      else if pa_state a \<in> {PaCompletionAcked, PaErrored, PaEscalated} then Inl ()
      else Inr (a\<lparr>pa_state := PaContinuationRequired, pa_continuationState := Some st, pa_continuationSavedAt := Some now\<rparr>))"

definition saveContinuation :: "instant \<Rightarrow> string \<Rightarrow> agent_id \<Rightarrow> json \<Rightarrow> hub_store \<Rightarrow> pending_action option pending_result" where
  "saveContinuation now i caller st = pending_update i (save_row now caller st)"

definition resume_row_pa :: "instant \<Rightarrow> pending_action \<Rightarrow> unit + pending_action" where
  "resume_row_pa now a =
     (if pa_state a \<noteq> PaContinuationRequired then Inl ()
      else Inr (a\<lparr>pa_state := PaEnqueued, pa_continuationState := None, pa_continuationSavedAt := None, pa_enqueuedAt := now,
             pa_receiptDeadline := at_instant (now + DEFAULT_RECEIPT_SLA_MS),
             pa_completionDeadline := at_instant (now + DEFAULT_COMPLETION_SLA_MS), pa_receiptAckedAt := None\<rparr>))"

text \<open>The snapshot is the one of the row the transform read last.\<close>

definition resumeContinuation :: "instant \<Rightarrow> string \<Rightarrow> hub_store \<Rightarrow> (pending_action \<times> json) option pending_result" where
  "resumeContinuation now i s =
     (let snapshot = (case Option.bind (getPending i s) pa_continuationState of None \<Rightarrow> JObj [] | Some j \<Rightarrow> j) in
      case pending_update i (resume_row_pa now) s of
        (Inl e, s') \<Rightarrow> (Inl e, s')
      | (Inr None, s') \<Rightarrow> (Inr None, s')
      | (Inr (Some a), s') \<Rightarrow> (Inr (Some (a, snapshot)), s'))"

section \<open>Lists\<close>

definition wanted_state :: "pending_state option \<Rightarrow> pending_state list \<Rightarrow> pending_state \<Rightarrow> bool" where
  "wanted_state one many st \<longleftrightarrow> (case one of Some x \<Rightarrow> st = x | None \<Rightarrow> many = [] \<or> st \<in> set many)"

definition listForAgent :: "agent_id \<Rightarrow> pending_state option \<Rightarrow> pending_state list \<Rightarrow> hub_store \<Rightarrow> pending_action list" where
  "listForAgent agent one many s = list_pending (\<lambda>a. pa_targetAgentId a = agent \<and> wanted_state one many (pa_state a)) s"

definition findOpenByNaturalKey :: "agent_id \<Rightarrow> string \<Rightarrow> dispatch_type \<Rightarrow> hub_store \<Rightarrow> pending_action option" where
  "findOpenByNaturalKey agent entityRef dispatch s =
     find (\<lambda>a. pa_state a \<notin> {PaCompletionAcked, PaEscalated, PaErrored})
       (list_pending (\<lambda>a. pa_naturalKey a = naturalKey agent entityRef dispatch) s)"

definition overdue :: "instant \<Rightarrow> pending_action \<Rightarrow> bool" where
  "overdue now a \<longleftrightarrow> pa_state a \<notin> {PaCompletionAcked, PaEscalated, PaErrored} \<and>
     (case stamp_ms (if pa_state a = PaEnqueued then pa_receiptDeadline a else pa_completionDeadline a) of
        None \<Rightarrow> False | Some t \<Rightarrow> t \<le> now)"

definition listExpired :: "instant \<Rightarrow> hub_store \<Rightarrow> pending_action list" where
  "listExpired now s = filter (overdue now) (list_pending (\<lambda>_. True) s)"

definition listStuck :: "instant \<Rightarrow> int \<Rightarrow> dispatch_type option \<Rightarrow> agent_id option \<Rightarrow> hub_store \<Rightarrow> pending_action list" where
  "listStuck now olderThan dispatch agent s =
     filter (\<lambda>a. olderThan \<le> now - pa_enqueuedAt a)
       (list_pending (\<lambda>a. pa_state a = PaReceiptAcked \<and>
          (case dispatch of None \<Rightarrow> True | Some d \<Rightarrow> pa_dispatchType a = d) \<and>
          (falsy_text agent \<or> Some (pa_targetAgentId a) = agent)) s)"

definition listNonTerminalByEntityRef :: "string \<Rightarrow> hub_store \<Rightarrow> pending_action list" where
  "listNonTerminalByEntityRef entityRef s =
     filter (\<lambda>a. pa_state a \<notin> {PaCompletionAcked, PaEscalated, PaErrored}) (list_pending (\<lambda>a. pa_entityRef a = entityRef) s)"

definition by_saved :: "pending_action \<Rightarrow> pending_action \<Rightarrow> int" where
  "by_saved a b =
     (case pa_continuationSavedAt a of None \<Rightarrow> 0 | Some t \<Rightarrow> t) - (case pa_continuationSavedAt b of None \<Rightarrow> 0 | Some t \<Rightarrow> t)"

definition listContinuationItems :: "hub_store \<Rightarrow> pending_action list" where
  "listContinuationItems s = sort_by by_saved (list_pending (\<lambda>a. pa_state a = PaContinuationRequired) s)"

section \<open>The contract of the kind\<close>

interpretation pend: entity_kind PENDING_KIND EPending as_pending pa_id
proof
  show "as_pending e = Some r \<Longrightarrow> e = EPending r" for e r by (cases e) auto
qed (simp_all add: PENDING_KIND_def)

section \<open>Runs\<close>

datatype pending_request =
    PaEnqueue enqueue_options
  | PaReceipt string
  | PaCompletion string
  | PaEscalate string string
  | PaAttempt string
  | PaReschedule string stamp
  | PaAbandon string string
  | PaSave string agent_id json
  | PaResume string

fun pending_perform :: "instant \<Rightarrow> pending_request \<Rightarrow> hub_store \<Rightarrow> hub_store" where
  "pending_perform now (PaEnqueue q) s = snd (enqueue now q s)"
| "pending_perform now (PaReceipt i) s = snd (receiptAck now i s)"
| "pending_perform now (PaCompletion i) s = snd (completionAck now i s)"
| "pending_perform now (PaEscalate i reason) s = snd (escalate i reason s)"
| "pending_perform now (PaAttempt i) s = snd (incrementAttempt now i s)"
| "pending_perform now (PaReschedule i d) s = snd (rescheduleReceiptDeadline i d s)"
| "pending_perform now (PaAbandon i reason) s = snd (abandon_pending i reason s)"
| "pending_perform now (PaSave i caller st) s = snd (saveContinuation now i caller st s)"
| "pending_perform now (PaResume i) s = snd (resumeContinuation now i s)"

text \<open>
  An update is one step (the loop that makes it so is in \<open>Entity_Kind\<close>); an enqueueing is a look and a creation, and other events may come
  between the two.  The other repositories write and delete rows of their own kinds and take numbers of their own.
\<close>

datatype pending_event =
    PendingRequest instant pending_request
  | OverlappedEnqueue instant enqueue_options "pending_event list"
  | OffPendingPut string string hub_entity
  | OffPendingDelete string string
  | OffPendingNumber string

fun pending_happens :: "pending_event \<Rightarrow> hub_store \<Rightarrow> hub_store"
  and pending_happen :: "pending_event list \<Rightarrow> hub_store \<Rightarrow> hub_store" where
  "pending_happens (PendingRequest now q) s = pending_perform now q s"
| "pending_happens (OverlappedEnqueue now q evs) s = snd (enqueue_with (pending_happen evs) now q s)"
| "pending_happens (OffPendingPut k i e) s = (if k \<in> {PENDING_KIND, COUNTER_KIND} then s else write_row k i e s)"
| "pending_happens (OffPendingDelete k i) s = (if k \<in> {PENDING_KIND, COUNTER_KIND} then s else delete_op k i s)"
| "pending_happens (OffPendingNumber d) s = (if d = PENDING_COUNTER then s else snd (next_id d s))"
| "pending_happen [] s = s"
| "pending_happen (ev # evs) s = pending_happen evs (pending_happens ev s)"

lemma pending_happen_fold [simp]: "pending_happen evs = fold pending_happens evs"
proof
  show "pending_happen evs s = fold pending_happens evs s" for s by (induction evs arbitrary: s) auto
qed

definition pending_run :: "pending_event list \<Rightarrow> hub_store" where
  "pending_run evs = fold pending_happens evs empty_substrate"

end
