(* ===== verification/Pending_Outcomes.thy ===== *)
theory Pending_Outcomes
  imports Pending_Actions
begin

text \<open>
  What the queue of owed actions guarantees: the steps of its rows, at most one open action of a natural key, when enqueueing answers with a
  row that is there, and the way of a continuation through the queue.
\<close>

section \<open>Steps of a row\<close>

abbreviation queue_ok :: "hub_store \<Rightarrow> bool" where
  "queue_ok \<equiv> kind_ok EPending pa_id PENDING_KIND"

lemma PENDING_KIND_ne [simp]: "COUNTER_KIND \<noteq> PENDING_KIND" "PENDING_KIND \<noteq> COUNTER_KIND"
  by (simp_all add: PENDING_KIND_def COUNTER_KIND_def)

definition open_action :: "pending_action \<Rightarrow> bool" where
  "open_action a \<longleftrightarrow> pa_state a \<in> {PaEnqueued, PaReceiptAcked, PaContinuationRequired}"

text \<open>No transform moves a row to another key or opens one that is closed.\<close>

definition settles :: "pending_action \<Rightarrow> pending_action \<Rightarrow> bool" where
  "settles a a' \<longleftrightarrow> pa_id a' = pa_id a \<and> pa_naturalKey a' = pa_naturalKey a \<and> (open_action a' \<longrightarrow> open_action a)"

lemmas pending_row_defs = receipt_row_def completion_row_def escalate_row_def attempt_row_def reschedule_row_def abandon_row_pa_def
  save_row_def resume_row_pa_def

named_theorems settling

lemma row_settles [settling]:
  "receipt_row now a = Inr a' \<Longrightarrow> settles a a'" "completion_row now a = Inr a' \<Longrightarrow> settles a a'"
  "escalate_row reason a = Inr a' \<Longrightarrow> settles a a'" "attempt_row now a = Inr a' \<Longrightarrow> settles a a'"
  "reschedule_row d a = Inr a' \<Longrightarrow> settles a a'" "abandon_row_pa reason a = Inr a' \<Longrightarrow> settles a a'"
  "save_row now caller st a = Inr a' \<Longrightarrow> settles a a'" "resume_row_pa now a = Inr a' \<Longrightarrow> settles a a'"
  by (cases "pa_state a"; auto simp: pending_row_defs settles_def open_action_def split: if_splits)+

section \<open>The operations with nobody interfering\<close>

lemma pending_update_eq:
  assumes "queue_ok s" "\<And>a a'. f a = Inr a' \<Longrightarrow> settles a a'"
  shows "pending_update i f s =
    (case getPending i s of
       None \<Rightarrow> (Inr None, s)
     | Some a \<Rightarrow> (case f a of Inl _ \<Rightarrow> (Inr None, s) | Inr a' \<Rightarrow> (Inr (Some a'), write_row PENDING_KIND i (EPending a') s)))"
proof -
  have "\<And>a a'. f a = Inr a' \<Longrightarrow> pa_id a' = pa_id a" using assms(2) by (simp add: settles_def)
  note eq = pend.update_quiet [OF assms(1), of f i, OF this]
  show ?thesis
    by (simp add: eq pending_update_def pending_update_with_def getPending_def split: option.split sum.split)
qed

lemma resume_eq:
  assumes "queue_ok s"
  shows "snd (resumeContinuation now i s) = snd (pending_update i (resume_row_pa now) s)"
  by (simp add: resumeContinuation_def Let_def split: prod.split sum.split option.split)

definition holds_key :: "pending_action \<Rightarrow> bool" where
  "holds_key a \<longleftrightarrow> pa_state a \<noteq> PaCompletionAcked \<and> pa_state a \<noteq> PaErrored"

definition request_key :: "enqueue_options \<Rightarrow> string" where
  "request_key q = naturalKey (eo_targetAgentId q) (eo_entityRef q) (eo_dispatchType q)"

definition counted_row :: "hub_store \<Rightarrow> hub_store" where
  "counted_row s = write_row COUNTER_KIND COUNTER_ID
     (buildEnvelopeWrite (get_op COUNTER_KIND COUNTER_ID s) PENDING_COUNTER (counter_value PENDING_COUNTER s + 1)) s"

lemma new_pending_fields [simp]:
  "pa_id (new_pending now num q) = pending_id now num" "pa_naturalKey (new_pending now num q) = request_key q"
  "pa_state (new_pending now num q) = PaEnqueued"
  by (simp_all add: new_pending_def request_key_def)

lemma pending_id_nonempty [simp]: "pending_id now num \<noteq> []"
  by (simp add: pending_id_def)

lemma getPending_write [simp]: "getPending i (write_row PENDING_KIND j (EPending a) s) = (if i = j then Some a else getPending i s)"
  by (simp add: getPending_def)

lemma getPending_other [simp]: "k \<noteq> PENDING_KIND \<Longrightarrow> getPending i (write_row k j e s) = getPending i s"
  "k \<noteq> PENDING_KIND \<Longrightarrow> getPending i (delete_op k j s) = getPending i s"
  by (simp_all add: getPending_def pend.row_of_write_other pend.row_of_delete_other)

lemma getPending_counted [simp]: "getPending i (counted_row s) = getPending i s"
  by (simp add: counted_row_def)

lemma counted_row_ok [simp]: "queue_ok s \<Longrightarrow> queue_ok (counted_row s)"
  by (simp add: counted_row_def pend.ok_write_other)

lemma enqueue_with_eq:
  assumes "queue_ok (others s)"
  shows "enqueue_with others now q s =
    (case find holds_key (list_pending (\<lambda>a. pa_naturalKey a = request_key q) s) of
       Some a \<Rightarrow> (Inr a, s)
     | None \<Rightarrow>
         (let a = new_pending now (counter_value PENDING_COUNTER (others s) + 1) q in
          if getPending (pa_id a) (others s) \<noteq> None then (Inl PendingIdTaken, counted_row (others s))
          else (Inr a, write_row PENDING_KIND (pa_id a) (EPending a) (counted_row (others s)))))"
proof -
  let ?t = "others s"
  let ?a = "new_pending now (counter_value PENDING_COUNTER ?t + 1) q"
  have num: "next_id PENDING_COUNTER ?t = (Inr (counter_value PENDING_COUNTER ?t + 1), counted_row ?t)"
    using next_id_quiet [OF pend.ok_plain [OF assms]] by (simp add: counted_row_def)
  have "find_row (counted_row ?t) PENDING_KIND (pa_id ?a) = None \<longleftrightarrow> getPending (pa_id ?a) ?t = None"
    using pend.row_of_None [OF counted_row_ok [OF assms], of "pa_id ?a"] getPending_counted [of "pa_id ?a" ?t] by (simp add: getPending_def)
  then have make: "createOnly ident PENDING_KIND (EPending ?a) (counted_row ?t) =
      Inr (if getPending (pa_id ?a) ?t \<noteq> None then (ExistingConflict, counted_row ?t)
           else (Created (pa_id ?a) (Suc (revisionCounter (counted_row ?t))), write_row PENDING_KIND (pa_id ?a) (EPending ?a) (counted_row ?t)))"
    using pend.create_eq [OF counted_row_ok [OF assms], of ?a] by simp
  have "find (\<lambda>a. pa_state a \<noteq> PaCompletionAcked \<and> pa_state a \<noteq> PaErrored) = find holds_key"
    by (rule arg_cong [of _ _ find]) (simp add: holds_key_def fun_eq_iff)
  then show ?thesis
    by (simp add: enqueue_with_def Let_def request_key_def [symmetric] num make split: option.split)
qed

lemmas enqueue_eq = enqueue_with_eq [where others = id, simplified, folded enqueue_def]

section \<open>The rows of a key\<close>

definition keyed :: "string \<Rightarrow> hub_store \<Rightarrow> string set" where
  "keyed key s = {i. \<exists>a. getPending i s = Some a \<and> pa_naturalKey a = key}"

lemma keyed_rows:
  assumes "queue_ok s"
  shows "finite (keyed key s)"
    "card (keyed key s) = length (filter (\<lambda>a. pa_naturalKey a = key) (kind_rows as_pending PENDING_KIND s))"
proof -
  let ?rows = "filter (\<lambda>a. pa_naturalKey a = key) (kind_rows as_pending PENDING_KIND s)"
  have "keyed key s = set (map pa_id ?rows)"
  proof (intro set_eqI iffI)
    fix i assume "i \<in> keyed key s"
    then obtain a where a: "row_of as_pending PENDING_KIND i s = Some a" "pa_naturalKey a = key"
      by (auto simp: keyed_def getPending_def)
    have id: "pa_id a = i" using pend.row_of_id [OF assms a(1)] by simp
    have "a \<in> set (kind_rows as_pending PENDING_KIND s)" using a(1) by (simp add: pend.kind_rows_ids(2) [OF assms] id)
    with a(2) id show "i \<in> set (map pa_id ?rows)" by (auto intro!: image_eqI [of i pa_id a])
  next
    fix i assume "i \<in> set (map pa_id ?rows)"
    then obtain a where a: "i = pa_id a" "a \<in> set (kind_rows as_pending PENDING_KIND s)" "pa_naturalKey a = key" by auto
    from a(2) have "row_of as_pending PENDING_KIND i s = Some a" by (simp add: pend.kind_rows_ids(2) [OF assms] a(1))
    with a(3) show "i \<in> keyed key s" by (auto simp: keyed_def getPending_def)
  qed
  moreover have "card (set (map pa_id ?rows)) = length (map pa_id ?rows)"
    using distinct_map_filter [OF pend.kind_rows_ids(1) [OF assms]] by (rule distinct_card)
  ultimately show "finite (keyed key s)" "card (keyed key s) = length ?rows" by simp_all
qed

lemma listed_key:
  assumes "queue_ok s" "card (keyed key s) \<le> PENDING_LIST_CAP"
  shows "set (list_pending (\<lambda>a. pa_naturalKey a = key) s) = {a. getPending (pa_id a) s = Some a \<and> pa_naturalKey a = key}"
  using pend.list_kind_facts(3) [OF assms(1), of "\<lambda>a. pa_naturalKey a = key" PENDING_LIST_CAP None] assms(2)
  by (simp add: list_pending_def getPending_def keyed_rows(2) [OF assms(1)] PENDING_LIST_CAP_def)

definition one_open :: "string \<Rightarrow> hub_store \<Rightarrow> bool" where
  "one_open key s \<longleftrightarrow> (\<forall>i j a b. getPending i s = Some a \<longrightarrow> getPending j s = Some b \<longrightarrow> pa_naturalKey a = key \<longrightarrow>
     pa_naturalKey b = key \<longrightarrow> open_action a \<longrightarrow> open_action b \<longrightarrow> i = j)"

text \<open>
  Of a key the later rows are the earlier ones, none opened; or there may be more.
\<close>

definition settled :: "string \<Rightarrow> hub_store \<Rightarrow> hub_store \<Rightarrow> bool" where
  "settled key s t \<longleftrightarrow> (\<forall>i b. getPending i t = Some b \<longrightarrow> pa_naturalKey b = key \<longrightarrow>
     (\<exists>a. getPending i s = Some a \<and> pa_naturalKey a = key \<and> (open_action b \<longrightarrow> open_action a)))"

definition queue_kept :: "hub_store \<Rightarrow> hub_store \<Rightarrow> bool" where
  "queue_kept s t \<longleftrightarrow> queue_ok t \<and> (\<forall>key. keyed key s \<subseteq> keyed key t)"

lemma settled_one: "settled key s t \<Longrightarrow> one_open key s \<Longrightarrow> one_open key t"
  unfolding settled_def one_open_def by metis

lemma settled_trans: "settled key s t \<Longrightarrow> settled key t u \<Longrightarrow> settled key s u"
  unfolding settled_def by metis

lemma kept_trans: "queue_kept s t \<Longrightarrow> queue_kept t u \<Longrightarrow> queue_kept s u"
  by (auto simp: queue_kept_def)

lemma kept_card: "queue_kept s t \<Longrightarrow> card (keyed key s) \<le> card (keyed key t)"
  by (auto simp: queue_kept_def intro!: card_mono keyed_rows(1))

lemma kept_same: "queue_ok t \<Longrightarrow> (\<And>i. getPending i t = getPending i s) \<Longrightarrow> queue_kept s t \<and> settled key s t"
  by (simp add: queue_kept_def keyed_def settled_def)

lemma kept_update:
  assumes "queue_ok s" "\<And>a a'. f a = Inr a' \<Longrightarrow> settles a a'"
  shows "queue_kept s (snd (pending_update i f s)) \<and> settled key s (snd (pending_update i f s))"
proof (cases "getPending i s")
  case None
  then show ?thesis using assms(1) by (simp add: pending_update_eq [OF assms] kept_same)
next
  case (Some a)
  show ?thesis
  proof (cases "f a")
    case (Inl e)
    then show ?thesis using assms(1) Some by (simp add: pending_update_eq [OF assms] kept_same)
  next
    case (Inr a')
    have id: "pa_id a = i" "i \<noteq> []" using pend.row_of_id [OF assms(1)] Some by (auto simp: getPending_def)
    have set: "pa_id a' = i" "pa_naturalKey a' = pa_naturalKey a" "open_action a' \<Longrightarrow> open_action a"
      using assms(2) [OF Inr] id by (simp_all add: settles_def)
    let ?t = "write_row PENDING_KIND i (EPending a') s"
    have t: "snd (pending_update i f s) = ?t" using Some Inr by (simp add: pending_update_eq [OF assms])
    have okt: "queue_ok ?t" using assms(1) set(1) id(2) by (rule pend.ok_write)
    have get: "getPending j ?t = (if j = i then Some a' else getPending j s)" for j by simp
    have "settled key s ?t"
      unfolding settled_def
    proof (intro allI impI)
      fix j b assume "getPending j ?t = Some b" "pa_naturalKey b = key"
      then show "\<exists>a. getPending j s = Some a \<and> pa_naturalKey a = key \<and> (open_action b \<longrightarrow> open_action a)"
        unfolding get using Some set by (cases "j = i") auto
    qed
    moreover have "keyed k s \<subseteq> keyed k ?t" for k using Some set(2) by (auto simp: keyed_def get)
    ultimately show ?thesis using okt by (simp add: t queue_kept_def)
  qed
qed

lemma kept_enqueue:
  assumes ok: "queue_ok s" and others: "queue_kept s (others s)"
  shows "queue_kept s (snd (enqueue_with others now q s))"
    and "key \<noteq> request_key q \<Longrightarrow> settled key s (others s) \<Longrightarrow> settled key s (snd (enqueue_with others now q s))"
    and "settled (request_key q) s (others s) \<Longrightarrow> card (keyed (request_key q) (snd (enqueue_with others now q s))) \<le> PENDING_LIST_CAP \<Longrightarrow>
      one_open (request_key q) s \<Longrightarrow> one_open (request_key q) (snd (enqueue_with others now q s))"
proof -
  let ?t = "others s" and ?out = "snd (enqueue_with others now q s)"
  define a where "a = new_pending now (counter_value PENDING_COUNTER ?t + 1) q"
  let ?u = "write_row PENDING_KIND (pa_id a) (EPending a) (counted_row ?t)"
  have t: "queue_ok ?t" "keyed key s \<subseteq> keyed key ?t" for key using others by (simp_all add: queue_kept_def)
  have a: "pa_naturalKey a = request_key q" "pa_id a \<noteq> []" by (simp_all add: a_def)
  consider (same) "?out = s"
    | (taken) "?out = counted_row ?t"
    | (new) "find holds_key (list_pending (\<lambda>a. pa_naturalKey a = request_key q) s) = None" "getPending (pa_id a) ?t = None" "?out = ?u"
    by (cases "find holds_key (list_pending (\<lambda>a. pa_naturalKey a = request_key q) s)"; cases "getPending (pa_id a) ?t")
      (auto simp: enqueue_with_eq [where others = others, OF t(1)] Let_def a_def)
  note cases = this
  have okt: "queue_ok ?u" using counted_row_ok [OF t(1)] refl a(2) by (rule pend.ok_write)
  show "queue_kept s ?out"
    using cases
  proof cases
    case same
    then show ?thesis using ok by (simp add: queue_kept_def)
  next
    case taken
    have "keyed key (counted_row ?t) = keyed key ?t" for key by (simp add: keyed_def)
    then show ?thesis using t by (simp add: taken queue_kept_def)
  next
    case new
    have "keyed key ?t \<subseteq> keyed key ?u" for key using new(2) by (auto simp: keyed_def)
    with okt t(2) show ?thesis by (fastforce simp: new(3) queue_kept_def)
  qed
  show "settled key s ?out" if other: "key \<noteq> request_key q" and se: "settled key s ?t"
    using cases
  proof cases
    case same
    then show ?thesis by (simp add: settled_def)
  next
    case taken
    then show ?thesis using se by (simp add: settled_def)
  next
    case new
    then show ?thesis using se other a(1) by (auto simp: settled_def)
  qed
  show "one_open (request_key q) ?out"
    if se: "settled (request_key q) s ?t" and few: "card (keyed (request_key q) ?out) \<le> PENDING_LIST_CAP" and one: "one_open (request_key q) s"
    using cases
  proof cases
    case same
    then show ?thesis using one by simp
  next
    case taken
    then show ?thesis using settled_one [OF se one] by (simp add: one_open_def)
  next
    case new
    have "keyed (request_key q) s \<subseteq> keyed (request_key q) ?u"
      using t(2) [of "request_key q"] new(2) by (auto simp: keyed_def)
    then have "card (keyed (request_key q) s) \<le> card (keyed (request_key q) ?u)" by (rule card_mono [OF keyed_rows(1) [OF okt]])
    with few have few: "card (keyed (request_key q) s) \<le> PENDING_LIST_CAP" by (simp only: new(3))
    have closed: "\<not> open_action b" if "getPending i s = Some b" "pa_naturalKey b = request_key q" for i b
    proof -
      have "b \<in> set (list_pending (\<lambda>a. pa_naturalKey a = request_key q) s)"
        using listed_key [OF ok few] that pend.row_of_id [OF ok, of i b] by (auto simp: getPending_def)
      with new(1) have "\<not> holds_key b" by (simp add: find_None_iff)
      then show ?thesis by (auto simp: holds_key_def open_action_def)
    qed
    have "\<not> open_action b" if "getPending i ?t = Some b" "pa_naturalKey b = request_key q" for i b
      using se closed that unfolding settled_def by blast
    moreover have "getPending i ?u = (if i = pa_id a then Some a else getPending i ?t)" for i by simp
    ultimately have only: "i = pa_id a" if "getPending i ?u = Some b" "pa_naturalKey b = request_key q" "open_action b" for i b
      using that by (metis (full_types))
    show ?thesis unfolding one_open_def new(3) using only by blast
  qed
qed

text \<open>For another key an enqueueing is what happens while it runs.\<close>

lemma kept_other_key:
  assumes "queue_ok s" "queue_kept s (others s)" "request_key q \<noteq> key"
    and "card (keyed key (snd (enqueue_with others now q s))) \<le> PENDING_LIST_CAP" "one_open key s"
    and "card (keyed key (others s)) \<le> PENDING_LIST_CAP \<longrightarrow> one_open key s \<longrightarrow> one_open key (others s)"
  shows "one_open key (snd (enqueue_with others now q s))"
proof -
  let ?t = "others s" and ?out = "snd (enqueue_with others now q s)"
  have ok: "queue_ok ?t" using assms(2) by (simp add: queue_kept_def)
  have "?out = s \<or> (queue_kept ?t ?out \<and> settled key ?t ?out)"
  proof (cases "find holds_key (list_pending (\<lambda>a. pa_naturalKey a = request_key q) s)")
    case (Some a)
    then show ?thesis by (simp add: enqueue_with_eq [where others = others, OF ok])
  next
    case None
    have okc: "queue_ok (counted_row ?t)" using ok by simp
    have okw: "queue_ok (write_row PENDING_KIND (pending_id now m) (EPending (new_pending now m q)) (counted_row ?t))" for m
      by (rule pend.ok_write [OF okc]) simp_all
    from None assms(3) okc okw show ?thesis
      by (auto simp: enqueue_with_eq [where others = others, OF ok] Let_def queue_kept_def settled_def keyed_def)
  qed
  then show ?thesis
  proof
    assume "queue_kept ?t ?out \<and> settled key ?t ?out"
    then have "card (keyed key ?t) \<le> PENDING_LIST_CAP" "settled key ?t ?out" using kept_card [of ?t ?out key] assms(4) by simp_all
    with assms(5,6) show ?thesis by (auto intro: settled_one)
  qed (simp add: assms(5))
qed

section \<open>Overlapping requests\<close>

text \<open>Whether an event enqueues an action of a key, and whether no two enqueueings of the key overlap in it.\<close>

fun asks :: "string \<Rightarrow> pending_event \<Rightarrow> bool" where
  "asks key (PendingRequest now (PaEnqueue q)) \<longleftrightarrow> request_key q = key"
| "asks key (OverlappedEnqueue now q evs) \<longleftrightarrow> request_key q = key \<or> list_ex (asks key) evs"
| "asks key _ \<longleftrightarrow> False"

fun apart :: "string \<Rightarrow> pending_event \<Rightarrow> bool" where
  "apart key (OverlappedEnqueue now q evs) \<longleftrightarrow> (request_key q = key \<longrightarrow> \<not> list_ex (asks key) evs) \<and> list_all (apart key) evs"
| "apart key _ \<longleftrightarrow> True"

definition steps_well :: "string \<Rightarrow> bool \<Rightarrow> bool \<Rightarrow> (hub_store \<Rightarrow> hub_store) \<Rightarrow> bool" where
  "steps_well key asked disjoint f \<longleftrightarrow> (\<forall>s. queue_ok s \<longrightarrow> queue_kept s (f s) \<and> (\<not> asked \<longrightarrow> settled key s (f s)) \<and>
     (disjoint \<longrightarrow> card (keyed key (f s)) \<le> PENDING_LIST_CAP \<longrightarrow> one_open key s \<longrightarrow> one_open key (f s)))"

lemma steps_well_settled:
  "(\<And>s. queue_ok s \<Longrightarrow> queue_kept s (f s) \<and> settled key s (f s)) \<Longrightarrow> steps_well key asked disjoint f"
  unfolding steps_well_def using settled_one by blast

lemma steps_well_fold:
  assumes "\<And>ev. ev \<in> set evs \<Longrightarrow> steps_well key (asks key ev) (apart key ev) (pending_happens ev)"
  shows "steps_well key (list_ex (asks key) evs) (list_all (apart key) evs) (\<lambda>s. fold pending_happens evs s)"
  using assms
proof (induction evs)
  case Nil
  show ?case by (rule steps_well_settled) (simp add: kept_same)
next
  case (Cons ev evs)
  have one: "steps_well key (asks key ev) (apart key ev) (pending_happens ev)" using Cons.prems by simp
  have rest: "steps_well key (list_ex (asks key) evs) (list_all (apart key) evs) (\<lambda>s. fold pending_happens evs s)"
    using Cons by simp
  show ?case
    unfolding steps_well_def
  proof (intro allI impI)
    fix s assume ok: "queue_ok s"
    let ?t = "pending_happens ev s" let ?u = "fold pending_happens evs ?t"
    have t: "queue_kept s ?t" "\<not> asks key ev \<longrightarrow> settled key s ?t"
      "apart key ev \<longrightarrow> card (keyed key ?t) \<le> PENDING_LIST_CAP \<longrightarrow> one_open key s \<longrightarrow> one_open key ?t"
      using one ok unfolding steps_well_def by blast+
    then have okt: "queue_ok ?t" by (simp add: queue_kept_def)
    have u: "queue_kept ?t ?u" "\<not> list_ex (asks key) evs \<longrightarrow> settled key ?t ?u"
      "list_all (apart key) evs \<longrightarrow> card (keyed key ?u) \<le> PENDING_LIST_CAP \<longrightarrow> one_open key ?t \<longrightarrow> one_open key ?u"
      using rest okt unfolding steps_well_def by blast+
    show "queue_kept s (fold pending_happens (ev # evs) s) \<and>
        (\<not> list_ex (asks key) (ev # evs) \<longrightarrow> settled key s (fold pending_happens (ev # evs) s)) \<and>
        (list_all (apart key) (ev # evs) \<longrightarrow> card (keyed key (fold pending_happens (ev # evs) s)) \<le> PENDING_LIST_CAP \<longrightarrow>
          one_open key s \<longrightarrow> one_open key (fold pending_happens (ev # evs) s))"
      using t u kept_trans [OF t(1) u(1)] settled_trans [of key s ?t ?u] kept_card [OF u(1), of key] by simp
  qed
qed

lemma event_steps_well: "steps_well key (asks key ev) (apart key ev) (pending_happens ev)"
proof (induction ev)
  case (PendingRequest now r)
  show ?case
  proof (cases "\<exists>q. r = PaEnqueue q")
    case True
    then obtain q where q: "r = PaEnqueue q" by blast
    show ?thesis
      unfolding steps_well_def
    proof (intro allI impI)
      fix s assume ok: "queue_ok s"
      have same: "queue_kept s (id s)" "settled k s (id s)" for k using kept_same [OF ok, of s] by simp_all
      note enq = kept_enqueue [where others = id and now = now and q = q, OF ok same(1)]
      show "queue_kept s (pending_happens (PendingRequest now r) s) \<and>
          (\<not> asks key (PendingRequest now r) \<longrightarrow> settled key s (pending_happens (PendingRequest now r) s)) \<and>
          (apart key (PendingRequest now r) \<longrightarrow> card (keyed key (pending_happens (PendingRequest now r) s)) \<le> PENDING_LIST_CAP \<longrightarrow>
            one_open key s \<longrightarrow> one_open key (pending_happens (PendingRequest now r) s))"
        using enq(1) enq(2) [of key] enq(3) same(2) settled_one [of key s "snd (enqueue now q s)"]
        by (cases "request_key q = key") (auto simp: q enqueue_def)
    qed
  next
    case False
    show ?thesis
    proof (rule steps_well_settled)
      fix s assume ok: "queue_ok s"
      from False show "queue_kept s (pending_happens (PendingRequest now r) s) \<and> settled key s (pending_happens (PendingRequest now r) s)"
        by (cases r; simp add: receiptAck_def completionAck_def escalate_def incrementAttempt_def rescheduleReceiptDeadline_def
          abandon_pending_def saveContinuation_def resume_eq [OF ok])
          (rule kept_update [OF ok], erule row_settles)+
    qed
  qed
next
  case (OverlappedEnqueue now q evs)
  have rest: "steps_well key (list_ex (asks key) evs) (list_all (apart key) evs) (\<lambda>s. fold pending_happens evs s)"
    by (rule steps_well_fold) (rule OverlappedEnqueue)
  show ?case
    unfolding steps_well_def
  proof (intro allI impI)
    fix s assume ok: "queue_ok s"
    let ?others = "\<lambda>s. fold pending_happens evs s"
    have t: "queue_kept s (?others s)" "\<not> list_ex (asks key) evs \<longrightarrow> settled key s (?others s)"
      "list_all (apart key) evs \<longrightarrow> card (keyed key (?others s)) \<le> PENDING_LIST_CAP \<longrightarrow> one_open key s \<longrightarrow> one_open key (?others s)"
      using rest ok unfolding steps_well_def by blast+
    note enq = kept_enqueue [where others = ?others and now = now and q = q, OF ok t(1)]
    have other: "one_open key (snd (enqueue_with ?others now q s))"
      if "request_key q \<noteq> key" "list_all (apart key) evs" "card (keyed key (snd (enqueue_with ?others now q s))) \<le> PENDING_LIST_CAP" "one_open key s"
      using kept_other_key [where others = ?others, OF ok t(1) that(1,3,4)] t(3) that(2) by blast
    show "queue_kept s (pending_happens (OverlappedEnqueue now q evs) s) \<and>
        (\<not> asks key (OverlappedEnqueue now q evs) \<longrightarrow> settled key s (pending_happens (OverlappedEnqueue now q evs) s)) \<and>
        (apart key (OverlappedEnqueue now q evs) \<longrightarrow> card (keyed key (pending_happens (OverlappedEnqueue now q evs) s)) \<le> PENDING_LIST_CAP \<longrightarrow>
          one_open key s \<longrightarrow> one_open key (pending_happens (OverlappedEnqueue now q evs) s))"
      using enq(1) enq(2) [of key] enq(3) t(2) other by (cases "request_key q = key") auto
  qed
qed (rule steps_well_settled; auto simp: pend.ok_write_other pend.ok_delete_other next_id_quiet [OF pend.ok_plain] kept_same)+

lemma run_well:
  "queue_ok (pending_run evs)"
  "list_all (apart key) evs \<Longrightarrow> card (keyed key (pending_run evs)) \<le> PENDING_LIST_CAP \<Longrightarrow> one_open key (pending_run evs)"
proof -
  have run: "steps_well key (list_ex (asks key) evs) (list_all (apart key) evs) (\<lambda>s. fold pending_happens evs s)"
    by (rule steps_well_fold) (rule event_steps_well)
  then show "queue_ok (pending_run evs)" using pend.ok_empty unfolding steps_well_def pending_run_def queue_kept_def by blast
  have "one_open key empty_substrate"
    by (simp add: one_open_def getPending_def row_of_def get_op_def find_row_def getKindStore_def empty_substrate_def)
  with run show "list_all (apart key) evs \<Longrightarrow> card (keyed key (pending_run evs)) \<le> PENDING_LIST_CAP \<Longrightarrow> one_open key (pending_run evs)"
    using pend.ok_empty unfolding steps_well_def pending_run_def by blast
qed

lemmas run_queue_ok = run_well(1)

section \<open>One open action of a key\<close>

abbreviation queue_rows :: "hub_store \<Rightarrow> pending_action list" where
  "queue_rows s \<equiv> kind_rows as_pending PENDING_KIND s"

lemma queue_rows_iff: "queue_ok s \<Longrightarrow> a \<in> set (queue_rows s) \<longleftrightarrow> getPending (pa_id a) s = Some a"
  by (simp add: pend.kind_rows_ids(2) getPending_def)

lemma distinct_few:
  assumes "distinct (map f xs)" "\<And>x y. x \<in> set xs \<Longrightarrow> y \<in> set xs \<Longrightarrow> f x = f y"
  shows "length xs \<le> 1"
proof (cases xs rule: remdups_adj.cases)
  case (3 x y ys)
  with assms(1) have "f x \<noteq> f y" by simp
  moreover have "f x = f y" by (rule assms(2)) (simp_all add: 3)
  ultimately show ?thesis by simp
qed simp_all


definition demo_request :: enqueue_options where
  "demo_request =
     \<lparr>eo_targetAgentId = ''agent-7'', eo_dispatchType = ThreadMessageDispatch, eo_entityRef = ''thread-12'', eo_payload = JObj [],
      eo_receiptSlaMs = None, eo_completionSlaMs = Some 1000, eo_createdBy = None\<rparr>"

definition demo_action :: "int \<Rightarrow> string" where
  "demo_action num = pending_id 0 num"

definition demo_queue :: "pending_event list" where
  "demo_queue =
     [PendingRequest 0 (PaEnqueue demo_request), PendingRequest 5 (PaEnqueue demo_request), PendingRequest 9 (PaCompletion (demo_action 1)),
      OverlappedEnqueue 0 demo_request [OffPendingNumber ''bugCounter'', PendingRequest 11 (PaAttempt (demo_action 1))],
      PendingRequest 12 (PaReceipt (demo_action 2))]"


lemma demo_queue_states: "map pa_state (queue_rows (pending_run demo_queue)) = [PaCompletionAcked, PaReceiptAcked]"
  by code_simp

text \<open>The look and the creation are two steps: a caller that comes between them queues the action a second time.\<close>

theorem enqueue_race:
  "map pa_state (queue_rows (pending_run [OverlappedEnqueue 0 demo_request [PendingRequest 5 (PaEnqueue demo_request)]])) =
    [PaEnqueued, PaEnqueued]"
  by code_simp

section \<open>What holds a key\<close>

text \<open>
  An escalated action blocks its key.  When the rows of a key are escalated, completed or errored, one of them escalated and at most five
  hundred of them, the search for an open action finds none, and enqueueing still answers with an escalated row and queues nothing.
\<close>

theorem escalated_blocks:
  assumes "length (filter (\<lambda>a. pa_naturalKey a = request_key q) (queue_rows (pending_run evs))) \<le> PENDING_LIST_CAP"
    and "getPending i (pending_run evs) = Some a" "pa_naturalKey a = request_key q" "pa_state a = PaEscalated"
    and "filter (\<lambda>a. pa_naturalKey a = request_key q \<and> open_action a) (queue_rows (pending_run evs)) = []"
  shows "findOpenByNaturalKey (eo_targetAgentId q) (eo_entityRef q) (eo_dispatchType q) (pending_run evs) = None \<and>
    (\<exists>b. enqueue now q (pending_run evs) = (Inr b, pending_run evs) \<and> pa_state b = PaEscalated \<and> pa_naturalKey b = request_key q)"
proof -
  let ?s = "pending_run evs"
  let ?rows = "list_pending (\<lambda>a. pa_naturalKey a = request_key q) ?s"
  have rows: "set ?rows = {a. getPending (pa_id a) ?s = Some a \<and> pa_naturalKey a = request_key q}"
    using listed_key [OF run_queue_ok, of "request_key q" evs] assms(1) keyed_rows(2) [OF run_queue_ok, of "request_key q" evs] by simp
  have closed: "\<not> open_action b" if "b \<in> set ?rows" for b
    using that assms(5) by (auto simp: rows filter_empty_conv queue_rows_iff [OF run_queue_ok])
  have "a \<in> set ?rows"
    using assms(2,3) pend.row_of_id [OF run_queue_ok, of i evs a] by (simp add: rows getPending_def)
  moreover have "holds_key a" using assms(4) by (simp add: holds_key_def)
  ultimately obtain b where b: "find holds_key ?rows = Some b" by (cases "find holds_key ?rows") (auto simp: find_None_iff)
  then have "b \<in> set ?rows" "holds_key b" by (auto simp: find_Some_iff)
  with closed have "pa_state b = PaEscalated" "pa_naturalKey b = request_key q"
    by (cases "pa_state b"; force simp: holds_key_def open_action_def rows)+
  moreover have "enqueue now q ?s = (Inr b, ?s)" by (simp add: enqueue_eq [OF run_queue_ok] b)
  moreover have "findOpenByNaturalKey (eo_targetAgentId q) (eo_entityRef q) (eo_dispatchType q) ?s = None"
    using closed by (force simp: findOpenByNaturalKey_def request_key_def [symmetric] find_None_iff open_action_def
      intro: pending_state.exhaust)
  ultimately show ?thesis by blast
qed

definition demo_escalated :: "pending_event list" where
  "demo_escalated = [PendingRequest 0 (PaEnqueue demo_request), PendingRequest 70000 (PaEscalate (demo_action 1) ''no receipt'')]"

theorem escalated_blocks_witness:
  "findOpenByNaturalKey ''agent-7'' ''thread-12'' ThreadMessageDispatch (pending_run demo_escalated) = None \<and>
    (\<exists>b. enqueue 90000 demo_request (pending_run demo_escalated) = (Inr b, pending_run demo_escalated) \<and>
      pa_state b = PaEscalated \<and> pa_naturalKey b = request_key demo_request)"
proof -
  have few: "length (filter (\<lambda>a. pa_naturalKey a = request_key demo_request) (queue_rows (pending_run demo_escalated))) \<le> PENDING_LIST_CAP"
    by code_simp
  have row: "map_option (\<lambda>a. (pa_naturalKey a = request_key demo_request, pa_state a)) (getPending (demo_action 1) (pending_run demo_escalated)) =
      Some (True, PaEscalated)" by code_simp
  have none: "filter (\<lambda>a. pa_naturalKey a = request_key demo_request \<and> open_action a) (queue_rows (pending_run demo_escalated)) = []"
    by code_simp
  from row obtain a where "getPending (demo_action 1) (pending_run demo_escalated) = Some a" "pa_naturalKey a = request_key demo_request"
    "pa_state a = PaEscalated" by auto
  from escalated_blocks [OF few this none, of 90000] show ?thesis by (simp add: demo_request_def)
qed

text \<open>A row that is completed can still be escalated, and one that is errored still be completed.\<close>

theorem closed_rows_move:
  "map pa_state (queue_rows (pending_run (take 3 demo_queue @ [PendingRequest 20 (PaEscalate (demo_action 1) ''late'')]))) = [PaEscalated]"
  by code_simp

theorem errored_rows_complete:
  "map pa_state (queue_rows (pending_run (take 1 demo_queue @
     [PendingRequest 20 (PaAbandon (demo_action 1) ''reaped''), PendingRequest 21 (PaCompletion (demo_action 1))]))) = [PaCompletionAcked]"
  by code_simp

section \<open>Continuations\<close>

text \<open>The requests about other rows, and those about the row that neither close it nor touch its continuation.\<close>

fun spares :: "string \<Rightarrow> pending_event \<Rightarrow> bool" where
  "spares i (PendingRequest now (PaCompletion j)) \<longleftrightarrow> j \<noteq> i"
| "spares i (PendingRequest now (PaEscalate j reason)) \<longleftrightarrow> j \<noteq> i"
| "spares i (PendingRequest now (PaSave j caller st)) \<longleftrightarrow> j \<noteq> i"
| "spares i (PendingRequest now (PaResume j)) \<longleftrightarrow> j \<noteq> i"
| "spares i (PendingRequest now (PaAbandon j reason)) \<longleftrightarrow> j \<noteq> i"
| "spares i (OverlappedEnqueue now q evs) \<longleftrightarrow> list_all (spares i) evs"
| "spares i _ \<longleftrightarrow> True"

definition parked_as :: "pending_action \<Rightarrow> pending_action \<Rightarrow> bool" where
  "parked_as a b \<longleftrightarrow> pa_state b = PaContinuationRequired \<and> pa_continuationState b = pa_continuationState a \<and>
     pa_id b = pa_id a \<and> pa_payload b = pa_payload a \<and> pa_naturalKey b = pa_naturalKey a"

definition stays_parked :: "string \<Rightarrow> pending_action \<Rightarrow> hub_store \<Rightarrow> bool" where
  "stays_parked i a s \<longleftrightarrow> queue_ok s \<and> (\<exists>b. getPending i s = Some b \<and> parked_as a b)"

lemma parked_update:
  assumes "stays_parked i a s" "\<And>a a'. f a = Inr a' \<Longrightarrow> settles a a'"
    and "j = i \<Longrightarrow> (\<And>b b'. parked_as a b \<Longrightarrow> f b = Inr b' \<Longrightarrow> parked_as a b')"
  shows "stays_parked i a (snd (pending_update j f s))"
proof -
  obtain b where ok: "queue_ok s" and b: "getPending i s = Some b" "parked_as a b" using assms(1) by (auto simp: stays_parked_def)
  have okt: "queue_ok (snd (pending_update j f s))" using kept_update [where f = f and i = j and key = "[]", OF ok assms(2)] by (simp add: queue_kept_def)
  show ?thesis
  proof (cases "getPending j s")
    case None
    then show ?thesis using assms(1) by (simp add: pending_update_eq [OF ok assms(2)])
  next
    case (Some c)
    show ?thesis
    proof (cases "f c")
      case (Inl e)
      then show ?thesis using assms(1) Some by (simp add: pending_update_eq [OF ok assms(2)])
    next
      case (Inr c')
      then have "snd (pending_update j f s) = write_row PENDING_KIND j (EPending c') s"
        using Some by (simp add: pending_update_eq [OF ok assms(2)])
      moreover have "j = i \<Longrightarrow> parked_as a c'" using assms(3) Inr Some b by auto
      ultimately show ?thesis using okt b by (auto simp: stays_parked_def)
    qed
  qed
qed

lemma parked_enqueue:
  assumes "stays_parked i a s" "stays_parked i a (others s)"
  shows "stays_parked i a (snd (enqueue_with others now q s))"
proof -
  have ok: "queue_ok (others s)" using assms(2) by (simp add: stays_parked_def)
  have "queue_ok (write_row PENDING_KIND (pending_id now m) (EPending (new_pending now m q)) (counted_row (others s)))" for m
    by (rule pend.ok_write [OF counted_row_ok [OF ok]]) simp_all
  with assms ok show ?thesis
    by (auto simp: enqueue_with_eq [where others = others, OF ok] Let_def stays_parked_def split: option.split)
qed

lemma parked_rows:
  "parked_as a b \<Longrightarrow> receipt_row now b = Inr b' \<Longrightarrow> parked_as a b'"
  "parked_as a b \<Longrightarrow> attempt_row now b = Inr b' \<Longrightarrow> parked_as a b'"
  "parked_as a b \<Longrightarrow> reschedule_row d b = Inr b' \<Longrightarrow> parked_as a b'"
  by (auto simp: parked_as_def pending_row_defs)

lemma parked_fold:
  "(\<And>ev s. ev \<in> set evs \<Longrightarrow> stays_parked i a s \<Longrightarrow> stays_parked i a (pending_happens ev s)) \<Longrightarrow> stays_parked i a s \<Longrightarrow>
    stays_parked i a (fold pending_happens evs s)"
  by (induction evs arbitrary: s) simp_all

lemma parked_event:
  assumes "stays_parked i a s" "spares i ev"
  shows "stays_parked i a (pending_happens ev s)"
  using assms
proof (induction ev arbitrary: s)
  case (OverlappedEnqueue now q evs)
  have "stays_parked i a (fold pending_happens evs s)"
    by (rule parked_fold [OF OverlappedEnqueue.IH OverlappedEnqueue.prems(1)])
      (use OverlappedEnqueue.prems(2) in \<open>auto simp: list_all_iff\<close>)
  with OverlappedEnqueue.prems(1) show ?case by (simp add: parked_enqueue)
next
  case (PendingRequest now r)
  note assms = PendingRequest.prems
  have ok: "queue_ok s" using assms(1) by (simp add: stays_parked_def)
  note update = parked_update [OF assms(1)]
  show ?case
  proof (cases r)
    case (PaEnqueue q)
    then show ?thesis using parked_enqueue [where others = id, OF assms(1)] assms(1) by (simp add: enqueue_def)
  next
    case (PaReceipt j)
    show ?thesis by (simp add: PaReceipt receiptAck_def) (rule update, erule row_settles, erule parked_rows)
  next
    case (PaAttempt j)
    show ?thesis by (simp add: PaAttempt incrementAttempt_def) (rule update, erule row_settles, erule parked_rows)
  next
    case (PaReschedule j d)
    show ?thesis by (simp add: PaReschedule rescheduleReceiptDeadline_def) (rule update, erule row_settles, erule parked_rows)
  next
    case (PaCompletion j)
    with assms(2) have "j \<noteq> i" by simp
    then show ?thesis by (simp add: PaCompletion completionAck_def) (rule update, erule row_settles, simp)
  next
    case (PaEscalate j reason)
    with assms(2) have "j \<noteq> i" by simp
    then show ?thesis by (simp add: PaEscalate escalate_def) (rule update, erule row_settles, simp)
  next
    case (PaAbandon j reason)
    with assms(2) have "j \<noteq> i" by simp
    then show ?thesis by (simp add: PaAbandon abandon_pending_def) (rule update, erule row_settles, simp)
  next
    case (PaSave j caller st)
    with assms(2) have "j \<noteq> i" by simp
    then show ?thesis by (simp add: PaSave saveContinuation_def) (rule update, erule row_settles, simp)
  next
    case (PaResume j)
    with assms(2) have "j \<noteq> i" by simp
    then show ?thesis by (simp add: PaResume resume_eq [OF ok]) (rule update, erule row_settles, simp)
  qed
next
  case (OffPendingNumber d)
  then show ?case by (auto simp: stays_parked_def next_id_quiet [OF pend.ok_plain] pend.ok_write_other)
qed (auto simp: stays_parked_def pend.ok_write_other pend.ok_delete_other)

lemma parked_events: "stays_parked i a s \<Longrightarrow> list_all (spares i) evs \<Longrightarrow> stays_parked i a (fold pending_happens evs s)"
  by (rule parked_fold) (auto simp: list_all_iff parked_event)

text \<open>
  C37: A continuation comes back.  Once an agent has saved its state on an action of any run, whatever requests follow that neither close the
  action nor save or resume it again, resuming answers with the state that was saved; the action is queued anew with its payload and key,
  no receipt, and both deadlines counted from the moment of the resumption.
\<close>

theorem continuation_round_trip:
  assumes "saveContinuation now i caller st (pending_run evs) = (Inr (Some a), s)" "list_all (spares i) evs'"
  shows "\<exists>b t. resumeContinuation later i (fold pending_happens evs' s) = (Inr (Some (b, st)), t) \<and> getPending i t = Some b \<and>
    pa_state b = PaEnqueued \<and> pa_payload b = pa_payload a \<and> pa_naturalKey b = pa_naturalKey a \<and> pa_continuationState b = None \<and>
    pa_receiptAckedAt b = None \<and> pa_enqueuedAt b = later \<and> pa_receiptDeadline b = at_instant (later + 60000) \<and>
    pa_completionDeadline b = at_instant (later + 300000)"
proof -
  have save: "\<And>x x'. save_row now caller st x = Inr x' \<Longrightarrow> settles x x'" by (rule row_settles)
  obtain x where x: "getPending i (pending_run evs) = Some x" "save_row now caller st x = Inr a"
    "s = write_row PENDING_KIND i (EPending a) (pending_run evs)"
    using assms(1) by (auto simp: saveContinuation_def pending_update_eq [OF run_queue_ok save] split: option.splits sum.splits)
  have "queue_ok s"
    using kept_update [where f = "save_row now caller st" and i = i and key = "[]", OF run_queue_ok [of evs] save] assms(1) by (simp add: queue_kept_def saveContinuation_def)
  moreover have a: "parked_as a a" "pa_continuationState a = Some st"
    using x(2) by (auto simp: parked_as_def save_row_def split: if_splits)
  ultimately have "stays_parked i a s" by (auto simp: stays_parked_def x(3))
  from parked_events [OF this assms(2)] obtain b where ok: "queue_ok (fold pending_happens evs' s)"
    and b: "getPending i (fold pending_happens evs' s) = Some b" "parked_as a b" by (auto simp: stays_parked_def)
  have resume: "\<And>x x'. resume_row_pa later x = Inr x' \<Longrightarrow> settles x x'" by (rule row_settles)
  note update = pending_update_eq [where f = "resume_row_pa later" and i = i, OF ok resume]
  obtain b' where b': "resume_row_pa later b = Inr b'" "pa_state b' = PaEnqueued" "pa_payload b' = pa_payload a"
    "pa_naturalKey b' = pa_naturalKey a" "pa_continuationState b' = None" "pa_receiptAckedAt b' = None" "pa_enqueuedAt b' = later"
    "pa_receiptDeadline b' = at_instant (later + 60000)" "pa_completionDeadline b' = at_instant (later + 300000)"
    using b(2) by (simp add: resume_row_pa_def parked_as_def DEFAULT_RECEIPT_SLA_MS_def DEFAULT_COMPLETION_SLA_MS_def)
  have "pa_continuationState b = Some st" using b(2) a(2) by (simp add: parked_as_def)
  then show ?thesis using b(1) b' by (simp add: resumeContinuation_def update)
qed

definition demo_parked :: "pending_event list" where
  "demo_parked = [PendingRequest 0 (PaEnqueue demo_request), PendingRequest 12 (PaReceipt (demo_action 1))]"

theorem continuation_round_trip_witness:
  "\<exists>b t. resumeContinuation 900 (demo_action 1)
      (fold pending_happens [PendingRequest 50 (PaEnqueue demo_request), PendingRequest 60 (PaAttempt (demo_action 1))]
        (snd (saveContinuation 40 (demo_action 1) ''agent-7'' (JStr ''step 3'') (pending_run demo_parked)))) =
      (Inr (Some (b, JStr ''step 3'')), t) \<and> pa_state b = PaEnqueued \<and> pa_enqueuedAt b = 900"
proof -
  let ?out = "saveContinuation 40 (demo_action 1) ''agent-7'' (JStr ''step 3'') (pending_run demo_parked)"
  have "(case fst ?out of Inr (Some a) \<Rightarrow> True | _ \<Rightarrow> False)" by code_simp
  then obtain a where "?out = (Inr (Some a), snd ?out)" by (cases ?out) (auto split: sum.splits option.splits)
  from continuation_round_trip [OF this, of "[PendingRequest 50 (PaEnqueue demo_request), PendingRequest 60 (PaAttempt (demo_action 1))]" 900]
  show ?thesis by auto
qed

end
