(* ===== verification/Ledgers.thy ===== *)
theory Ledgers
  imports Entity_Kind
begin

text \<open>
  The planning ledgers: ideas, bugs, missions and proposals (\<open>hub/src/entities/idea-repository-substrate.ts\<close>,
  \<open>bug-repository-substrate.ts\<close>, \<open>mission-repository-substrate.ts\<close>, \<open>proposal-repository-substrate.ts\<close>).  A row of each kind is
  created under the next number of its counter.  Ideas, missions and proposals are updated in the read, transform, compare-and-set loop; bugs are
  read and then put.  The decode of the stored envelope, log lines and the guard that logs a list out of order are left out.
\<close>

section \<open>Creation and update\<close>

datatype ledger_error =
    LedgerUndecodable
  | LedgerStoreThrew store_error
  | LedgerCasExhausted
  | LedgerCounter wi_error
  | LedgerIdTaken

type_synonym 'a ledger_result = "(ledger_error + 'a) \<times> hub_store"

definition ledger_create :: "string \<Rightarrow> string \<Rightarrow> ('r \<Rightarrow> hub_entity) \<Rightarrow> (int \<Rightarrow> 'r) \<Rightarrow> hub_store \<Rightarrow> 'r ledger_result" where
  "ledger_create counter K mk build s =
     (case next_id counter s of
        (Inl e, s') \<Rightarrow> (Inl (LedgerCounter e), s')
      | (Inr num, s') \<Rightarrow>
          (case createOnly ident K (mk (build num)) s' of
             Inl z \<Rightarrow> (Inl (LedgerStoreThrew z), s')
           | Inr (Created i rv, s'') \<Rightarrow> (Inr (build num), s'')
           | Inr (ExistingConflict, s'') \<Rightarrow> (Inl LedgerIdTaken, s'')))"

text \<open>A missing row and a refused transition both answer with nothing.\<close>

definition ledger_update_with :: "string \<Rightarrow> ('r \<Rightarrow> hub_entity) \<Rightarrow> (hub_entity \<Rightarrow> 'r option) \<Rightarrow> hub_store attempt list \<Rightarrow> string
    \<Rightarrow> ('r \<Rightarrow> unit + 'r) \<Rightarrow> hub_store \<Rightarrow> 'r option ledger_result" where
  "ledger_update_with K mk dest envs i f s =
     (case cas_update K mk dest envs i f s of
        (CasDone e, s') \<Rightarrow> ((case dest e of None \<Rightarrow> Inl LedgerUndecodable | Some r \<Rightarrow> Inr (Some r)), s')
      | (CasMissing, s') \<Rightarrow> (Inr None, s')
      | (CasFailed None, s') \<Rightarrow> (Inl LedgerUndecodable, s')
      | (CasFailed (Some _), s') \<Rightarrow> (Inr None, s')
      | (CasThrew z, s') \<Rightarrow> (Inl (LedgerStoreThrew z), s')
      | (CasExhausted, s') \<Rightarrow> (Inl LedgerCasExhausted, s'))"

definition set_if :: "'a option \<Rightarrow> 'a \<Rightarrow> 'a" where
  "set_if x y = (case x of None \<Rightarrow> y | Some v \<Rightarrow> v)"

definition ledger_id :: "string \<Rightarrow> int \<Rightarrow> string" where
  "ledger_id stem num = stem @ show_int num"

definition backlinked :: "(cascade_backlink \<Rightarrow> string) \<Rightarrow> cascade_backlink option \<Rightarrow> string option" where
  "backlinked f b = map_option f b"

definition LEDGER_LIST_CAP :: nat where "LEDGER_LIST_CAP = 500"

section \<open>Ideas\<close>

definition IDEA_KIND :: string where "IDEA_KIND = ''Idea''"

fun as_idea :: "hub_entity \<Rightarrow> idea option" where
  "as_idea (EIdea x) = Some x"
| "as_idea _ = None"

definition submitIdea :: "instant \<Rightarrow> string \<Rightarrow> actor \<Rightarrow> string option \<Rightarrow> string list option \<Rightarrow> cascade_backlink option
    \<Rightarrow> hub_store \<Rightarrow> idea ledger_result" where
  "submitIdea now txt createdBy sourceThreadId tags backlink =
     ledger_create ''ideaCounter'' IDEA_KIND EIdea (\<lambda>num.
       \<lparr>id_id = ledger_id ''idea-'' num, id_text = txt, id_createdBy = createdBy, id_status = IdeaOpen, id_missionId = None,
        id_sourceThreadId = (case backlink of Some b \<Rightarrow> Some (cb_sourceThreadId b) | None \<Rightarrow> sourceThreadId),
        id_sourceActionId = backlinked cb_sourceActionId backlink,
        id_sourceThreadSummary = backlinked cb_sourceThreadSummary backlink,
        id_tags = set_if tags [], id_createdAt = now, id_updatedAt = now\<rparr>)"

definition getIdea :: "string \<Rightarrow> hub_store \<Rightarrow> idea option" where
  "getIdea i s = row_of as_idea IDEA_KIND i s"

text \<open>The newest first; ties by the id, backwards.\<close>

definition newest_idea :: "idea \<Rightarrow> idea \<Rightarrow> int" where
  "newest_idea a b =
     (if id_createdAt a \<noteq> id_createdAt b then id_createdAt b - id_createdAt a
      else if id_id b < id_id a then -1 else if id_id a < id_id b then 1 else 0)"

definition listIdeas :: "idea_status option \<Rightarrow> hub_store \<Rightarrow> idea list" where
  "listIdeas st s =
     list_kind as_idea IDEA_KIND (\<lambda>x. case st of None \<Rightarrow> True | Some v \<Rightarrow> id_status x = v) (Some newest_idea) LEDGER_LIST_CAP s"

record idea_update =
  iu_status :: "idea_status option"
  iu_missionId :: "string option"
  iu_tags :: "string list option"
  iu_text :: "string option"

definition idea_row :: "instant \<Rightarrow> idea_update \<Rightarrow> idea \<Rightarrow> unit + idea" where
  "idea_row now u x =
     Inr (x\<lparr>id_status := set_if (iu_status u) (id_status x),
            id_missionId := (case iu_missionId u of None \<Rightarrow> id_missionId x | Some m \<Rightarrow> Some m),
            id_tags := set_if (iu_tags u) (id_tags x), id_text := set_if (iu_text u) (id_text x), id_updatedAt := now\<rparr>)"

definition updateIdea_with :: "hub_store attempt list \<Rightarrow> instant \<Rightarrow> string \<Rightarrow> idea_update \<Rightarrow> hub_store \<Rightarrow> idea option ledger_result" where
  "updateIdea_with envs now i u = ledger_update_with IDEA_KIND EIdea as_idea envs i (idea_row now u)"

definition updateIdea :: "instant \<Rightarrow> string \<Rightarrow> idea_update \<Rightarrow> hub_store \<Rightarrow> idea option ledger_result" where
  "updateIdea = updateIdea_with quiet"

definition idea_by_cascade :: "string \<Rightarrow> string \<Rightarrow> hub_store \<Rightarrow> idea option" where
  "idea_by_cascade threadId actionId s =
     (case list_kind as_idea IDEA_KIND (\<lambda>x. id_sourceThreadId x = Some threadId \<and> id_sourceActionId x = Some actionId) None 1 s of
        [] \<Rightarrow> None | x # _ \<Rightarrow> Some x)"

section \<open>Bugs\<close>

definition BUG_KIND :: string where "BUG_KIND = ''Bug''"

fun as_bug :: "hub_entity \<Rightarrow> bug option" where
  "as_bug (EBug x) = Some x"
| "as_bug _ = None"

record bug_options =
  bo_classHint :: "string option"
  bo_tags :: "string list option"
  bo_sourceIdeaId :: "string option"
  bo_surfacedBy :: "string option"
  bo_backlink :: "cascade_backlink option"
  bo_createdBy :: "actor option"
  bo_sourceThreadId :: "string option"
  bo_sourceMissionId :: "string option"
  bo_repo :: "string option"

definition createBug :: "instant \<Rightarrow> string \<Rightarrow> string \<Rightarrow> bug_severity \<Rightarrow> bug_options \<Rightarrow> hub_store \<Rightarrow> bug ledger_result" where
  "createBug now title description severity q =
     ledger_create ''bugCounter'' BUG_KIND EBug (\<lambda>num.
       \<lparr>bg_id = ledger_id ''bug-'' num, bg_title = title, bg_description = description, bg_status = BugOpen,
        bg_severity = severity, bg_class = bo_classHint q, bg_tags = set_if (bo_tags q) [], bg_sourceIdeaId = bo_sourceIdeaId q,
        bg_sourceThreadId = (case bo_backlink q of Some b \<Rightarrow> Some (cb_sourceThreadId b) | None \<Rightarrow> bo_sourceThreadId q),
        bg_sourceActionId = backlinked cb_sourceActionId (bo_backlink q),
        bg_sourceThreadSummary = backlinked cb_sourceThreadSummary (bo_backlink q), bg_linkedTaskIds = [],
        bg_linkedMissionId = bo_sourceMissionId q, bg_fixCommits = [], bg_fixRevision = None, bg_repo = bo_repo q,
        bg_surfacedBy = bo_surfacedBy q, bg_createdBy = bo_createdBy q, bg_createdAt = now, bg_updatedAt = now\<rparr>)"

definition getBug :: "string \<Rightarrow> hub_store \<Rightarrow> bug option" where
  "getBug i s = row_of as_bug BUG_KIND i s"

record bug_filter =
  bf_status :: "bug_status option"
  bf_severity :: "bug_severity option"
  bf_class :: "string option"
  bf_tags :: "string list"

definition listBugs :: "bug_filter \<Rightarrow> hub_store \<Rightarrow> bug list \<times> bool" where
  "listBugs q s =
     (let items = list_kind as_bug BUG_KIND (\<lambda>x.
            (case bf_status q of None \<Rightarrow> True | Some v \<Rightarrow> bg_status x = v) \<and>
            (case bf_severity q of None \<Rightarrow> True | Some v \<Rightarrow> bg_severity x = v) \<and>
            (case bf_class q of None \<Rightarrow> True | Some v \<Rightarrow> bg_class x = Some v)) None LEDGER_LIST_CAP s
      in (filter (\<lambda>x. bf_tags q = [] \<or> list_ex (\<lambda>t. t \<in> set (bf_tags q)) (bg_tags x)) items, LEDGER_LIST_CAP \<le> length items))"

text \<open>The members of an update that may be set to null are options of options.\<close>

record bug_update =
  bu_status :: "bug_status option"
  bu_severity :: "bug_severity option"
  bu_class :: "string option option"
  bu_tags :: "string list option"
  bu_description :: "string option"
  bu_linkedTaskIds :: "string list option"
  bu_linkedMissionId :: "string option option"
  bu_fixCommits :: "string list option"
  bu_fixRevision :: "string option option"
  bu_repo :: "string option option"

definition bug_row :: "instant \<Rightarrow> bug_update \<Rightarrow> bug \<Rightarrow> bug" where
  "bug_row now u x =
     x\<lparr>bg_status := set_if (bu_status u) (bg_status x), bg_severity := set_if (bu_severity u) (bg_severity x),
       bg_class := set_if (bu_class u) (bg_class x), bg_tags := set_if (bu_tags u) (bg_tags x),
       bg_description := set_if (bu_description u) (bg_description x),
       bg_linkedTaskIds := set_if (bu_linkedTaskIds u) (bg_linkedTaskIds x),
       bg_linkedMissionId := set_if (bu_linkedMissionId u) (bg_linkedMissionId x),
       bg_fixCommits := set_if (bu_fixCommits u) (bg_fixCommits x), bg_fixRevision := set_if (bu_fixRevision u) (bg_fixRevision x),
       bg_repo := set_if (bu_repo u) (bg_repo x), bg_updatedAt := now\<rparr>"

text \<open>
  A bug is read without its revision and then put.  What others do between the two is an argument.  A put that throws is repeated up to
  fifty times; a put in the model throws for one reason only, a row without an id, and then always.
\<close>

definition updateBug_with :: "(hub_store \<Rightarrow> hub_store) \<Rightarrow> instant \<Rightarrow> string \<Rightarrow> bug_update \<Rightarrow> hub_store \<Rightarrow> bug option ledger_result" where
  "updateBug_with others now i u s =
     (case getBug i s of
        None \<Rightarrow> (Inr None, s)
      | Some x \<Rightarrow>
          (case put_op ident BUG_KIND (EBug (bug_row now u x)) (others s) of
             Inl z \<Rightarrow> (Inl (LedgerStoreThrew z), others s)
           | Inr (out, s') \<Rightarrow> (Inr (Some (bug_row now u x)), s')))"

definition updateBug :: "instant \<Rightarrow> string \<Rightarrow> bug_update \<Rightarrow> hub_store \<Rightarrow> bug option ledger_result" where
  "updateBug = updateBug_with id"

definition bug_by_cascade :: "string \<Rightarrow> string \<Rightarrow> hub_store \<Rightarrow> bug option" where
  "bug_by_cascade threadId actionId s =
     (case list_kind as_bug BUG_KIND (\<lambda>x. bg_sourceThreadId x = Some threadId \<and> bg_sourceActionId x = Some actionId) None 1 s of
        [] \<Rightarrow> None | x # _ \<Rightarrow> Some x)"

definition findBySourceIdeaId :: "string \<Rightarrow> hub_store \<Rightarrow> bug option" where
  "findBySourceIdeaId i s =
     (case list_kind as_bug BUG_KIND (\<lambda>x. bg_sourceIdeaId x = Some i) None 1 s of [] \<Rightarrow> None | x # _ \<Rightarrow> Some x)"

section \<open>Missions\<close>

definition MISSION_KIND :: string where "MISSION_KIND = ''Mission''"

fun as_mission :: "hub_entity \<Rightarrow> mission option" where
  "as_mission (EMission x) = Some x"
| "as_mission _ = None"

definition or_kept :: "'a option \<Rightarrow> 'a option \<Rightarrow> 'a option" where
  "or_kept x y = (case x of None \<Rightarrow> y | Some v \<Rightarrow> Some v)"

definition merge_pulse :: "mission_pulse option \<Rightarrow> mission_pulse option \<Rightarrow> mission_pulse option" where
  "merge_pulse existing incoming =
     (case incoming of
        None \<Rightarrow> existing
      | Some i \<Rightarrow>
          (case existing of
             None \<Rightarrow> Some i
           | Some e \<Rightarrow> Some (i\<lparr>mp_lastFiredAt := or_kept (mp_lastFiredAt i) (mp_lastFiredAt e),
               mp_lastResponseAt := or_kept (mp_lastResponseAt i) (mp_lastResponseAt e),
               mp_missedCount := or_kept (mp_missedCount i) (mp_missedCount e),
               mp_lastEscalatedAt := or_kept (mp_lastEscalatedAt i) (mp_lastEscalatedAt e)\<rparr>)))"

definition mergePulsesPreservingBookkeeping :: "mission_pulses option \<Rightarrow> mission_pulses \<Rightarrow> mission_pulses" where
  "mergePulsesPreservingBookkeeping existing incoming =
     \<lparr>ps_engineerPulse = merge_pulse (Option.bind existing ps_engineerPulse) (ps_engineerPulse incoming),
      ps_architectPulse = merge_pulse (Option.bind existing ps_architectPulse) (ps_architectPulse incoming)\<rparr>"

text \<open>A mission as it is read: with the ids of the listed ideas that name it.\<close>

definition mission_hydrated :: "hub_store \<Rightarrow> mission \<Rightarrow> mission \<times> string list" where
  "mission_hydrated s m = (m, map id_id (filter (\<lambda>x. id_missionId x = Some (mi_id m)) (listIdeas None s)))"

definition createMission :: "instant \<Rightarrow> string \<Rightarrow> string \<Rightarrow> string option \<Rightarrow> cascade_backlink option \<Rightarrow> actor option
    \<Rightarrow> mission_class option \<Rightarrow> mission_pulses option \<Rightarrow> hub_store \<Rightarrow> (mission \<times> string list) ledger_result" where
  "createMission now title description documentRef backlink createdBy cls pulses s =
     (case ledger_create ''missionCounter'' MISSION_KIND EMission (\<lambda>num.
         \<lparr>mi_id = ledger_id ''mission-'' num, mi_title = title, mi_description = description,
          mi_documentRef = (if falsy_text documentRef then None else documentRef), mi_status = MissionProposed,
          mi_correlationId = Some (ledger_id ''mission-'' num), mi_sourceThreadId = backlinked cb_sourceThreadId backlink,
          mi_sourceActionId = backlinked cb_sourceActionId backlink,
          mi_sourceThreadSummary = backlinked cb_sourceThreadSummary backlink, mi_createdBy = createdBy,
          mi_missionClass = cls, mi_pulses = pulses, mi_createdAt = now, mi_updatedAt = now\<rparr>) s of
        (Inl e, s') \<Rightarrow> (Inl e, s')
      | (Inr m, s') \<Rightarrow> (Inr (mission_hydrated s' m), s'))"

definition getMission :: "string \<Rightarrow> hub_store \<Rightarrow> (mission \<times> string list) option" where
  "getMission i s = map_option (mission_hydrated s) (row_of as_mission MISSION_KIND i s)"

definition listMissions :: "mission_status option \<Rightarrow> hub_store \<Rightarrow> (mission \<times> string list) list" where
  "listMissions st s =
     map (mission_hydrated s) (list_kind as_mission MISSION_KIND
       (\<lambda>x. case st of None \<Rightarrow> True | Some v \<Rightarrow> mi_status x = v) None LEDGER_LIST_CAP s)"

record mission_update =
  mu_status :: "mission_status option"
  mu_description :: "string option"
  mu_documentRef :: "string option"
  mu_missionClass :: "mission_class option"
  mu_pulses :: "mission_pulses option"

definition mission_row :: "instant \<Rightarrow> mission_update \<Rightarrow> mission \<Rightarrow> unit + mission" where
  "mission_row now u m =
     Inr (m\<lparr>mi_status := set_if (mu_status u) (mi_status m), mi_description := set_if (mu_description u) (mi_description m),
            mi_documentRef := or_kept (mu_documentRef u) (mi_documentRef m),
            mi_missionClass := or_kept (mu_missionClass u) (mi_missionClass m),
            mi_pulses := (case mu_pulses u of None \<Rightarrow> mi_pulses m
                          | Some p \<Rightarrow> Some (mergePulsesPreservingBookkeeping (mi_pulses m) p)), mi_updatedAt := now\<rparr>)"

definition updateMission_with :: "hub_store attempt list \<Rightarrow> instant \<Rightarrow> string \<Rightarrow> mission_update \<Rightarrow> hub_store
    \<Rightarrow> (mission \<times> string list) option ledger_result" where
  "updateMission_with envs now i u s =
     (case ledger_update_with MISSION_KIND EMission as_mission envs i (mission_row now u) s of
        (Inl e, s') \<Rightarrow> (Inl e, s')
      | (Inr m, s') \<Rightarrow> (Inr (map_option (mission_hydrated s') m), s'))"

definition updateMission :: "instant \<Rightarrow> string \<Rightarrow> mission_update \<Rightarrow> hub_store \<Rightarrow> (mission \<times> string list) option ledger_result" where
  "updateMission = updateMission_with quiet"

definition mission_by_cascade :: "string \<Rightarrow> string \<Rightarrow> hub_store \<Rightarrow> (mission \<times> string list) option" where
  "mission_by_cascade threadId actionId s =
     (case list_kind as_mission MISSION_KIND (\<lambda>x. mi_sourceThreadId x = Some threadId \<and> mi_sourceActionId x = Some actionId) None 1 s of
        [] \<Rightarrow> None | x # _ \<Rightarrow> Some (mission_hydrated s x))"

section \<open>Proposals\<close>

definition PROPOSAL_KIND :: string where "PROPOSAL_KIND = ''Proposal''"

fun as_proposal :: "hub_entity \<Rightarrow> proposal option" where
  "as_proposal (EProposal x) = Some x"
| "as_proposal _ = None"

definition submitProposal :: "instant \<Rightarrow> string \<Rightarrow> string \<Rightarrow> string option \<Rightarrow> json option \<Rightarrow> (string \<times> string) list option
    \<Rightarrow> cascade_backlink option \<Rightarrow> actor option \<Rightarrow> hub_store \<Rightarrow> proposal ledger_result" where
  "submitProposal now title summary correlationId plan labels backlink createdBy =
     ledger_create ''proposalCounter'' PROPOSAL_KIND EProposal (\<lambda>num.
       \<lparr>pr_id = ledger_id ''prop-'' num, pr_title = title, pr_summary = summary,
        pr_proposalRef = ''proposals/'' @ ledger_id ''prop-'' num @ ''.md'', pr_status = PropSubmitted, pr_decision = None,
        pr_feedback = None, pr_correlationId = (if falsy_text correlationId then None else correlationId),
        pr_executionPlan = plan, pr_scaffoldResult = None, pr_labels = set_if labels [],
        pr_sourceThreadId = backlinked cb_sourceThreadId backlink, pr_sourceActionId = backlinked cb_sourceActionId backlink,
        pr_sourceThreadSummary = backlinked cb_sourceThreadSummary backlink, pr_createdBy = createdBy,
        pr_createdAt = now, pr_updatedAt = now\<rparr>)"

definition getProposal :: "string \<Rightarrow> hub_store \<Rightarrow> proposal option" where
  "getProposal i s = row_of as_proposal PROPOSAL_KIND i s"

definition getProposals :: "proposal_status option \<Rightarrow> hub_store \<Rightarrow> proposal list" where
  "getProposals st s =
     list_kind as_proposal PROPOSAL_KIND (\<lambda>x. case st of None \<Rightarrow> True | Some v \<Rightarrow> pr_status x = v) None LEDGER_LIST_CAP s"

definition proposal_update_with :: "hub_store attempt list \<Rightarrow> string \<Rightarrow> (proposal \<Rightarrow> unit + proposal) \<Rightarrow> hub_store \<Rightarrow> bool ledger_result" where
  "proposal_update_with envs i f s =
     (case ledger_update_with PROPOSAL_KIND EProposal as_proposal envs i f s of
        (Inl e, s') \<Rightarrow> (Inl e, s')
      | (Inr r, s') \<Rightarrow> (Inr (r \<noteq> None), s'))"

definition review_row :: "instant \<Rightarrow> proposal_status \<Rightarrow> string \<Rightarrow> proposal \<Rightarrow> unit + proposal" where
  "review_row now d feedback p =
     Inr (p\<lparr>pr_status := d, pr_decision := Some d, pr_feedback := Some feedback, pr_updatedAt := now\<rparr>)"

definition reviewProposal :: "instant \<Rightarrow> string \<Rightarrow> proposal_status \<Rightarrow> string \<Rightarrow> hub_store \<Rightarrow> bool ledger_result" where
  "reviewProposal now i d feedback = proposal_update_with quiet i (review_row now d feedback)"

definition close_proposal_row :: "instant \<Rightarrow> proposal \<Rightarrow> unit + proposal" where
  "close_proposal_row now p =
     (if pr_status p \<noteq> PropApproved \<and> pr_status p \<noteq> PropRejected \<and> pr_status p \<noteq> PropChangesRequested then Inl ()
      else Inr (p\<lparr>pr_status := PropImplemented, pr_updatedAt := now\<rparr>))"

definition closeProposal :: "instant \<Rightarrow> string \<Rightarrow> hub_store \<Rightarrow> bool ledger_result" where
  "closeProposal now i = proposal_update_with quiet i (close_proposal_row now)"

definition scaffold_row :: "instant \<Rightarrow> json \<Rightarrow> proposal \<Rightarrow> unit + proposal" where
  "scaffold_row now r p = Inr (p\<lparr>pr_scaffoldResult := Some r, pr_updatedAt := now\<rparr>)"

definition setScaffoldResult :: "instant \<Rightarrow> string \<Rightarrow> json \<Rightarrow> hub_store \<Rightarrow> bool ledger_result" where
  "setScaffoldResult now i r = proposal_update_with quiet i (scaffold_row now r)"

definition proposal_by_cascade :: "string \<Rightarrow> string \<Rightarrow> hub_store \<Rightarrow> proposal option" where
  "proposal_by_cascade threadId actionId s =
     (case list_kind as_proposal PROPOSAL_KIND (\<lambda>x. pr_sourceThreadId x = Some threadId \<and> pr_sourceActionId x = Some actionId) None 1 s of
        [] \<Rightarrow> None | x # _ \<Rightarrow> Some x)"

section \<open>The contracts of the kinds\<close>

interpretation ideas: entity_kind IDEA_KIND EIdea as_idea id_id
proof
  show "as_idea e = Some r \<Longrightarrow> e = EIdea r" for e r by (cases e) auto
qed (simp_all add: IDEA_KIND_def)

interpretation bugs: entity_kind BUG_KIND EBug as_bug bg_id
proof
  show "as_bug e = Some r \<Longrightarrow> e = EBug r" for e r by (cases e) auto
qed (simp_all add: BUG_KIND_def)

interpretation missions: entity_kind MISSION_KIND EMission as_mission mi_id
proof
  show "as_mission e = Some r \<Longrightarrow> e = EMission r" for e r by (cases e) auto
qed (simp_all add: MISSION_KIND_def)

interpretation proposals: entity_kind PROPOSAL_KIND EProposal as_proposal pr_id
proof
  show "as_proposal e = Some r \<Longrightarrow> e = EProposal r" for e r by (cases e) auto
qed (simp_all add: PROPOSAL_KIND_def)

end
