(* ===== verification/Ledger_Outcomes.thy ===== *)
theory Ledger_Outcomes
  imports Ledgers
begin

text \<open>
  What the planning ledgers guarantee: an update of an idea is one atomic step under interference while an update of a bug may undo another's,
  the ideas a mission is read with, and what a new description of a mission's pulses keeps.
\<close>

section \<open>Updates and their rivals\<close>

abbreviation ideas_ok :: "hub_store \<Rightarrow> bool" where
  "ideas_ok \<equiv> kind_ok EIdea id_id IDEA_KIND"

abbreviation bugs_ok :: "hub_store \<Rightarrow> bool" where
  "bugs_ok \<equiv> kind_ok EBug bg_id BUG_KIND"

text \<open>
  An update of an idea takes effect at one moment, on the idea as it stands then, whatever other clients of the store do while the loop
  runs, as long as they keep the ideas well formed: nothing another caller wrote to the idea before that moment is lost.
\<close>

theorem idea_update_atomic:
  assumes "updateIdea_with envs now i u s = (Inr (Some x'), s')" "ideas_ok s" "other_clients envs" "ideas.polite envs"
  shows "\<exists>t x. evolves s t \<and> ideas_ok t \<and> getIdea i t = Some x \<and> idea_row now u x = Inr x' \<and> s' = write_row IDEA_KIND i (EIdea x') t"
proof -
  have same: "\<And>r r'. idea_row now u r = Inr r' \<Longrightarrow> id_id r' = id_id r" by (auto simp: idea_row_def)
  obtain e where e: "cas_update IDEA_KIND EIdea as_idea envs i (idea_row now u) s = (CasDone e, s')" "as_idea e = Some x'"
    using assms(1) by (auto simp: updateIdea_with_def ledger_update_with_def split: prod.splits cas_outcome.splits option.splits)
  from ideas.update_atomic [OF e(1) assms(2-4) same] obtain t r r' where t: "evolves s t" "ideas_ok t"
    "row_of as_idea IDEA_KIND i t = Some r" "idea_row now u r = Inr r'" "e = EIdea r'" "s' = write_row IDEA_KIND i e t" by blast
  with e(2) show ?thesis by (auto simp: getIdea_def)
qed

lemma put_bug:
  assumes "bugs_ok s" "getBug i s = Some x" "bg_id y = i"
  shows "\<exists>out. put_op ident BUG_KIND (EBug y) s = Inr (out, write_row BUG_KIND i (EBug y) s)"
  using bugs.ok_plain [OF assms(1)] bugs.row_of_id [OF assms(1)] assms(2,3)
  by (simp add: put_op_def plain_store_def encodeForWrite_def Let_def extractId_def getBug_def store_simps BUG_KIND_def)

lemma bug_row_id [simp]: "bg_id (bug_row now u x) = bg_id x"
  by (simp add: bug_row_def)

lemma updateBug_eq:
  assumes "bugs_ok s" "getBug i s = Some x"
  shows "updateBug now i u s = (Inr (Some (bug_row now u x)), write_row BUG_KIND i (EBug (bug_row now u x)) s)"
proof -
  have "bg_id x = i" using bugs.row_of_id [OF assms(1)] assms(2) by (simp add: getBug_def)
  with put_bug [OF assms, of "bug_row now u x"] assms(2) show ?thesis by (auto simp: updateBug_def updateBug_with_def)
qed

text \<open>
  An update of a bug may undo another.  When a second caller updates the same bug between the read and the write of a first, both calls
  answer with a row that has their changes, and the row that stays has the first caller's changes on the bug as it was before the second:
  of the second caller's fields nothing is left.
\<close>

theorem bug_update_lost:
  assumes "bugs_ok s" "getBug i s = Some x"
  shows "\<exists>t. updateBug_with (\<lambda>s. snd (updateBug now' i u' s)) now i u s = (Inr (Some (bug_row now u x)), t) \<and>
    fst (updateBug now' i u' s) = Inr (Some (bug_row now' u' x)) \<and> getBug i t = Some (bug_row now u x)"
proof -
  let ?t = "write_row BUG_KIND i (EBug (bug_row now' u' x)) s"
  have id: "bg_id x = i" "i \<noteq> []" using bugs.row_of_id [OF assms(1)] assms(2) by (auto simp: getBug_def)
  have ok: "bugs_ok ?t" using assms(1) id by (intro bugs.ok_write) simp_all
  have there: "getBug i ?t = Some (bug_row now' u' x)" by (simp add: getBug_def)
  obtain out where "put_op ident BUG_KIND (EBug (bug_row now u x)) ?t =
      Inr (out, write_row BUG_KIND i (EBug (bug_row now u x)) ?t)"
    using put_bug [OF ok there, of "bug_row now u x"] id(1) by auto
  then show ?thesis by (simp add: updateBug_with_def updateBug_eq [OF assms] assms(2)) (simp add: getBug_def)
qed

section \<open>Missions\<close>

text \<open>The ideas of a mission are right when there are at most five hundred ideas; beyond that those that are not among the newest are left out.\<close>

theorem mission_ideas:
  assumes "ideas_ok s"
  shows "set (snd (mission_hydrated s m)) \<subseteq> {id_id x | x. getIdea (id_id x) s = Some x \<and> id_missionId x = Some (mi_id m)}"
    and "length (kind_rows as_idea IDEA_KIND s) \<le> LEDGER_LIST_CAP \<Longrightarrow>
      set (snd (mission_hydrated s m)) = {id_id x | x. getIdea (id_id x) s = Some x \<and> id_missionId x = Some (mi_id m)}"
  using ideas.list_kind_facts(1) [OF assms, of "\<lambda>_. True" "Some newest_idea" LEDGER_LIST_CAP]
    ideas.list_kind_facts(3) [OF assms, of "\<lambda>_. True" LEDGER_LIST_CAP "Some newest_idea"]
  by (auto simp: mission_hydrated_def listIdeas_def getIdea_def LEDGER_LIST_CAP_def)

lemma bookkeeping_kept:
  assumes "incoming = i\<lparr>mp_lastFiredAt := None, mp_lastResponseAt := None, mp_missedCount := None, mp_lastEscalatedAt := None\<rparr>"
    and "merge_pulse (Some e) (Some incoming) = Some p"
  shows "mp_lastFiredAt p = mp_lastFiredAt e" "mp_lastResponseAt p = mp_lastResponseAt e" "mp_missedCount p = mp_missedCount e"
    "mp_lastEscalatedAt p = mp_lastEscalatedAt e" "mp_message p = mp_message i" "mp_intervalSeconds p = mp_intervalSeconds i"
  using assms by (auto simp: merge_pulse_def or_kept_def)

section \<open>Examples\<close>

lemma ledger_create_eq:
  assumes "plain_store s" "K \<noteq> COUNTER_KIND" "\<And>n. ident (mk (build n)) = Some (rid (build n))" "\<And>n. rid (build n) \<noteq> []"
    "\<And>n. find_row s K (rid (build n)) = None"
  shows "ledger_create c K mk build s =
    (Inr (build (counter_value c s + 1)), write_row K (rid (build (counter_value c s + 1))) (mk (build (counter_value c s + 1)))
       (snd (next_id c s)))"
proof -
  have plain: "plain_store (snd (next_id c s))" by (simp add: next_id_quiet [OF assms(1)] plain_store_write_row assms(1))
  have "find_row (snd (next_id c s)) K i = find_row s K i" for i
    using assms(2) by (simp add: next_id_quiet [OF assms(1)] store_simps)
  with plain assms(2-5) show ?thesis
    by (simp add: ledger_create_def next_id_quiet [OF assms(1)] createOnly_def plain_store_def encodeForWrite_def Let_def extractId_def
      store_simps COUNTER_KIND_def)
qed

definition demo_bugs :: hub_store where
  "demo_bugs = snd (createBug 0 ''lost wakeups'' ''the pump stops'' BugMajor
     \<lparr>bo_classHint = None, bo_tags = None, bo_sourceIdeaId = None, bo_surfacedBy = None, bo_backlink = None, bo_createdBy = None,
      bo_sourceThreadId = None, bo_sourceMissionId = None, bo_repo = None\<rparr> empty_substrate)"

definition no_bug_update :: bug_update where
  "no_bug_update =
     \<lparr>bu_status = None, bu_severity = None, bu_class = None, bu_tags = None, bu_description = None, bu_linkedTaskIds = None,
      bu_linkedMissionId = None, bu_fixCommits = None, bu_fixRevision = None, bu_repo = None\<rparr>"

lemma demo_bugs_ok: "bugs_ok demo_bugs"
proof -
  have plain: "plain_store (empty_substrate :: hub_store)" using bugs.ok_plain [OF bugs.ok_empty] .
  have none: "find_row (empty_substrate :: hub_store) K i = None" for K i
    by (simp add: find_row_def getKindStore_def empty_substrate_def)
  show ?thesis
    unfolding demo_bugs_def createBug_def
    by (subst ledger_create_eq [where rid = bg_id, OF plain])
      (simp_all add: none ledger_id_def BUG_KIND_def COUNTER_KIND_def next_id_quiet [OF plain] plain
        bugs.ok_write [unfolded BUG_KIND_def] bugs.ok_write_other [unfolded BUG_KIND_def] bugs.ok_empty [unfolded BUG_KIND_def])
qed

lemma demo_bug: "\<exists>x. getBug ''bug-1'' demo_bugs = Some x \<and> bg_status x = BugOpen \<and> bg_fixCommits x = []"
proof -
  have "map_option (\<lambda>x. (bg_status x, bg_fixCommits x)) (getBug ''bug-1'' demo_bugs) = Some (BugOpen, [])" by code_simp
  then show ?thesis by auto
qed

text \<open>One caller resolves the bug with its commits; the other, which read it before, only adds a tag.\<close>

theorem bug_update_lost_witness:
  "\<exists>x t. updateBug_with (\<lambda>s. snd (updateBug 20 ''bug-1'' (no_bug_update\<lparr>bu_status := Some BugResolved, bu_fixCommits := Some [''9f2c'']\<rparr>) s))
      30 ''bug-1'' (no_bug_update\<lparr>bu_tags := Some [''pump'']\<rparr>) demo_bugs = (Inr (Some x), t) \<and>
    getBug ''bug-1'' t = Some x \<and> bg_status x = BugOpen \<and> bg_fixCommits x = [] \<and> bg_tags x = [''pump'']"
proof -
  obtain x where x: "getBug ''bug-1'' demo_bugs = Some x" "bg_status x = BugOpen" "bg_fixCommits x = []" using demo_bug by blast
  from bug_update_lost [OF demo_bugs_ok x(1), of 20 "no_bug_update\<lparr>bu_status := Some BugResolved, bu_fixCommits := Some [''9f2c'']\<rparr>" 30
    "no_bug_update\<lparr>bu_tags := Some [''pump'']\<rparr>"] x(2,3)
  show ?thesis by (fastforce simp: bug_row_def no_bug_update_def set_if_def)
qed

definition demo_idea :: idea where
  "demo_idea = \<lparr>id_id = ''idea-1'', id_text = ''batch the wakeups'', id_createdBy = \<lparr>ac_role = ''engineer'', ac_agentId = ''agent-7''\<rparr>,
     id_status = IdeaOpen, id_missionId = None, id_sourceThreadId = None, id_sourceActionId = None, id_sourceThreadSummary = None,
     id_tags = [], id_createdAt = 0, id_updatedAt = 0\<rparr>"

definition demo_ideas :: hub_store where
  "demo_ideas = write_row IDEA_KIND ''idea-1'' (EIdea demo_idea) empty_substrate"

definition idea_rival :: "hub_store attempt list" where
  "idea_rival = [(\<lambda>s. s, \<lambda>s. write_row IDEA_KIND ''idea-1'' (EIdea (demo_idea\<lparr>id_status := IdeaTriaged\<rparr>)) s), (\<lambda>s. s, \<lambda>s. s)]"

theorem idea_update_atomic_witness:
  "\<exists>t x x'. evolves demo_ideas t \<and> getIdea ''idea-1'' t = Some x \<and> id_status x = IdeaTriaged \<and>
    idea_row 9 \<lparr>iu_status = None, iu_missionId = None, iu_tags = Some [''hub''], iu_text = None\<rparr> x = Inr x'"
proof -
  let ?u = "\<lparr>iu_status = None, iu_missionId = None, iu_tags = Some [''hub''], iu_text = None\<rparr>"
  let ?out = "updateIdea_with idea_rival 9 ''idea-1'' ?u demo_ideas"
  have "(case fst ?out of Inr (Some x) \<Rightarrow> id_status x = IdeaTriaged | _ \<Rightarrow> False)" by code_simp
  then obtain x' where run: "?out = (Inr (Some x'), snd ?out)" and st: "id_status x' = IdeaTriaged"
    by (cases ?out) (auto split: sum.splits option.splits)
  have ok: "ideas_ok demo_ideas"
    unfolding demo_ideas_def by (rule ideas.ok_write [OF ideas.ok_empty]) (simp_all add: demo_idea_def)
  have fair: "other_clients idea_rival" by (auto simp: other_clients_def idea_rival_def intro: st_write)
  have polite: "ideas.polite idea_rival"
    unfolding ideas.polite_def idea_rival_def by (auto intro!: ideas.ok_write simp: demo_idea_def)
  from idea_update_atomic [OF run ok fair polite] obtain t x where "evolves demo_ideas t" "getIdea ''idea-1'' t = Some x"
    "idea_row 9 ?u x = Inr x'" by blast
  moreover from this(3) st have "id_status x = IdeaTriaged" by (auto simp: idea_row_def set_if_def)
  ultimately show ?thesis by blast
qed

end
