(* ===== verification/Spec2Isabelle.thy ===== *)
theory Spec2Isabelle
  imports Work_Lifetime Verb_Properties Query_Properties Thread_Outcomes Authority_Outcomes Message_Outcomes
    Agent_Outcomes Sweep_Outcomes Pending_Outcomes Ledger_Outcomes
begin

text \<open>
  A verification library of the Hub of the agentic network (\<open>hub/src\<close>): the process that keeps the shared queue of work items, the
  threads, the decisions and their proofs, the messages and the agents, over one substrate of versioned rows.

  \<^bold>\<open>The program and how its parts meet.\<close>  Every repository keeps its rows in the storage substrate and changes them in the same way: read
  a row with its revision, compute a new one, write it if the revision has not moved, retry otherwise.  The work-item repository adds a
  currentness fence: a write is admitted under the topology generation that is active, and is refused when the head moves.
  The tools agents call sit above the repositories: they check their arguments, call one or more operations and send notices.  Two sweepers run
  by a timer: one over lapsed leases, which also projects the outboxes of the rows as messages, one over scheduled messages.  The
  authority rail resolves a decision only on a proof object of the Director and executes its plan on the queue.

  \<^bold>\<open>How the code is written down.\<close>  A document is a record with the members of the source; a union of literals is a datatype; an absent or null
  member is an option; an instant is an integer of milliseconds; numbers are unbounded integers, since none of those modelled comes near
  the range where the source would lose precision.  An operation takes the store and answers with a result and the store: \<open>Inl\<close> an error
  the source throws or returns, \<open>Inr\<close> a value.  What a run cannot compute is an argument: the instant, a fresh id or token, the
  digest function.  The rows of a store are those of \<open>hub_entity\<close> (\<open>Hub_Store\<close>), one constructor per kind.
  A retry loop takes a list that says what other clients do in each attempt; the plain operation is the case where they do nothing, and the
  atomicity results say that the general case is one atomic step at some moment.

  \<^bold>\<open>Layers.\<close>

  \<^item> Foundations. \<open>Prelude\<close>: results, list idioms. \<open>Js_Time\<close>: the calendar and text functions of the language. \<open>Canonical_Json\<close>,
  \<open>Node_Contract\<close>: canonical JSON, domain-separated digests, the contract and topology digests of an item
  (\<open>entities/work-item-contract-v4.ts\<close>).
  \<^item> Storage. \<open>Substrate\<close> (\<open>storage-substrate/memory-substrate.ts\<close>): rows, revisions, conditional writes, batches, lists, the change feed;
  the compare-and-set loop and its linearization.  \<open>Counter\<close> (\<open>substrate-counter.ts\<close>).  \<open>Entity_Kind\<close>: the locale \<open>entity_kind\<close>, the
  contract of the rows of one kind, interpreted for threads, messages, agents, pending actions, the planning ledgers and the kinds of the authority rail.
  \<^item> Work items. Data: \<open>Work_Types\<close>, \<open>Work_Json\<close>.  Completion predicate: \<open>Work_Evidence\<close>.  Fence: \<open>Currentness\<close>.  Guards and operations of
  \<open>work-item-repository-substrate.ts\<close>: \<open>Work_Guards\<close>, \<open>Work_Verbs\<close>, \<open>Work_Complete\<close>, \<open>Work_Recall\<close>, \<open>Work_Attest\<close>, \<open>Work_Edit\<close>,
  \<open>Work_Queries\<close>.  Operations as steps: \<open>Work_Steps\<close>, \<open>Work_Ops\<close> (locale \<open>hub_operation\<close>), runs: \<open>Hub_System\<close>.
  \<^item> Tools over the queue. \<open>Blueprints\<close>, \<open>Work_Policy\<close> (\<open>policy/work-item-policy.ts\<close>, \<open>policy/work-item-events.ts\<close>).
  \<^item> Threads. \<open>Thread_Types\<close>, \<open>Threads\<close> (\<open>thread-repository-substrate.ts\<close>).
  \<^item> Authority rail. \<open>Decision_Types\<close>, \<open>Authority_Types\<close>, \<open>Decisions\<close>, \<open>Class_Grants\<close>, \<open>Director_Proofs\<close>, \<open>Decision_Executor\<close>
  (\<open>entities/decision*.ts\<close>, \<open>class-grant*.ts\<close>, \<open>director-proof*.ts\<close> and the policies over them).
  \<^item> Messages. \<open>Message_Types\<close>, \<open>Messages\<close>, \<open>Scheduled_Messages\<close> (\<open>message-repository-substrate.ts\<close>, the replay of \<open>hub-networking.ts\<close>,
  \<open>policy/scheduled-message-sweeper.ts\<close>, \<open>policy/preconditions.ts\<close>).
  \<^item> Agents. \<open>Agent_Types\<close>, \<open>Agents\<close> (\<open>state.ts\<close>, \<open>agent-repository-substrate.ts\<close>).  The maps of the process that a restart clears are fields of
  the state next to the store.
  \<^item> Pending actions. \<open>Pending_Types\<close>, \<open>Pending_Actions\<close> (\<open>pending-action.ts\<close>, \<open>pending-action-repository-substrate.ts\<close>): the pushes owed to
  agents, with their acknowledgements, deadlines and continuations.
  \<^item> Planning ledgers. \<open>Ledger_Types\<close>, \<open>Ledgers\<close>: ideas, bugs, missions and proposals (the repositories of those names).
  \<^item> The lease sweep and the outboxes. \<open>Lease_Sweeper\<close> (\<open>policy/work-item-lease-sweeper.ts\<close>, \<open>policy/failed-gate-notice-projector.ts\<close>,
  \<open>policy/recall-notice-projector.ts\<close>).

  \<^bold>\<open>What is proved.\<close>

  \<^item> Storage: a conditional write loses no update, the update loop is linearizable under arbitrary interference, the change feed rebuilds
  the store (\<open>Substrate\<close>, \<open>Counter\<close>).
  \<^item> Rows of the queue in every run: leases, seals, attestations, blockers, time accounting (locale \<open>row_invariant\<close> in \<open>Work_Invariant\<close>, instances
  in \<open>Work_Safety\<close>), what never changes or only grows (\<open>Work_Lifetime\<close>), the cap on work in progress (\<open>Work_Cap\<close>).
  \<^item> Operations of the queue: what each transform has checked and what it returns (\<open>Row_Facts\<close>, \<open>Verb_Facts\<close>), refusals that write nothing
  (\<open>Verb_Properties\<close>), claims and stale tokens (\<open>Verb_Outcomes\<close>), completion, attestation, expiry (\<open>Gate_Outcomes\<close>), pause and unpause
  (\<open>Recall_Outcomes\<close>), the queries against the operations they advertise (\<open>Query_Properties\<close>), the roll-ups (\<open>Rollup\<close>).
  \<^item> Tools: the order of creation of a blueprint (\<open>Blueprint_Order\<close>), both dependency graphs stay acyclic (\<open>Work_Graph\<close>,
  \<open>Policy_Properties\<close>), the expansion of a blueprint and its compensation (\<open>Policy_Outcomes\<close>).
  \<^item> Threads: shape, turns, convergence, finality, reaping, atomic replies (\<open>Thread_Properties\<close>, \<open>Thread_Outcomes\<close>).
  \<^item> Authority: a resolution has a proof that binds it, a grant is ratified, what has ended stays (\<open>Rail_Steps\<close>, \<open>Rail_Ops\<close>,
  \<open>Authority_Properties\<close>, \<open>Authority_Outcomes\<close>).
  \<^item> Messages: schema, exclusive claims, numbering, replay, the sweep (\<open>Message_Properties\<close>, \<open>Message_Outcomes\<close>).
  \<^item> Agents: the shape of a row, epochs, resolution of sessions after a restart, the rate limit, selection (\<open>Agent_Runs\<close>,
  \<open>Agent_Properties\<close>, \<open>Agent_Outcomes\<close>).
  \<^item> Outboxes and sweep: a notice is sent once whatever interrupts its projection; the writes of the sweep that pass the fence
  (\<open>Sweep_Properties\<close>, \<open>Sweep_Outcomes\<close>).
  \<^item> Pending actions: one open action of a key, what blocks a key, a continuation comes back (\<open>Pending_Outcomes\<close>).
  \<^item> Ledgers: an update of an idea is atomic, one of a bug may undo another, the ideas a mission is read with (\<open>Ledger_Outcomes\<close>).

  \<open>Demo_Hub\<close> is a small run of the operations on which the witnesses are evaluated.

  \<^bold>\<open>Bounds and fuel.\<close>  The walks over an arc carry a fuel of two more than the number of stored rows, which bounds their depth: each
  level visits a row that was not visited before, and \<open>Rollup\<close> shows the result is that of the plain sum.  The search for a cycle needs none: it is defined by
  a measure over the rows not yet visited.  The sort of a blueprint has one round per node, and \<open>Blueprint_Order\<close> shows that it misses
  no node without a cycle.  The propagation of heartbeats carries the same fuel: every level after the first visits a new row.  The retry loops have as many attempts as the source
  (fifty, or five for the thrash counter, or two for identities and claims), and running out of them is a branch of the result.  Lists
  are clamped as the substrate clamps them, at five hundred rows.

  \<^bold>\<open>Parameters.\<close>  The digest function is any function on texts; results that need its injectivity or its format name that as a hypothesis.  The
  payload schemas of staged actions, the encoder of the storage envelope and the refusal of a malformed pull-request payload are
  arguments as well.  Advisory locks are the atomicity of the step that takes them; where a writer does not take the lock, its writes are an
  argument.

  \<^bold>\<open>Not modelled.\<close>
  \<^item> Of the revision storage (\<open>work-revision-storage-v4.ts\<close>) only the reads of the fence; the writing of generations appears as an arbitrary
  change of the head by others.
  \<^item> Of the tools over the queue: the admission of pull-request evidence, the tools of pause, completion and attestation (their repository operations
  are modelled), the read-only tools, a blueprint read from a document, and the schemas at the boundary of the process.
  \<^item> The tools over threads (\<open>thread-policy.ts\<close>) and the remaining thin repositories (tasks, turns, the constitution, the arrival surface), which
  repeat the update loop modelled here.
  \<^item> PostgreSQL, HTTP and server-sent events, the adapters and the client packages: input and output.
  \<^item> Texts meant for people, metrics, log lines, timers, and the quarantine of rows stored in an outdated shape.
  \<^item> A role named like a member of the prototype of objects would find an entry in the table of caps in the source; roles are ordinary texts here.
\<close>

end
